(* ===== verification/Patom_Prelude.thy ===== *)
theory Patom_Prelude
  imports Main
begin

text \<open>
  Shared vocabulary of the development: the scalar types of the runtime (ids, wall-clock
  values, machine-integer bounds), the failure type every fallible Rust function returns, the
  four SQL statement shapes the stores use (as operations on lists of rows), and the generic
  lemmas about them. Two locales live here because several components share them: the contract
  of a \<open>str_enum!\<close> declaration and the contract of a labelled transition system with an
  invariant.
\<close>

section \<open>Collections of facts\<close>

named_theorems table_simps \<open>rewrite rules for SQL statements on row lists\<close>
named_theorems db_defs \<open>definitions of the store operations\<close>
named_theorems inv_intros \<open>introduction rules for store invariants\<close>

section \<open>Scalars\<close>

text \<open>UUIDs are opaque numbers: only equality on them is used, and the order of participants. Wall-clock values are microseconds.\<close>

type_synonym uuid = nat
type_synonym timestamp = int
type_synonym duration = nat

definition u8_max :: nat where "u8_max = 2 ^ 8 - 1"
definition u32_max :: nat where "u32_max = 2 ^ 32 - 1"
definition u64_max :: nat where "u64_max = 2 ^ 64 - 1"
definition i64_max :: int where "i64_max = 2 ^ 63 - 1"
definition i32_max :: int where "i32_max = 2 ^ 31 - 1"

lemma u64_max_ge_i64_max: "i64_max \<le> int u64_max"
  by (simp add: u64_max_def i64_max_def)

definition saturating_add_u32 :: "nat \<Rightarrow> nat \<Rightarrow> nat" where
  "saturating_add_u32 a b = min u32_max (a + b)"

definition checked_add_u64 :: "nat \<Rightarrow> nat \<Rightarrow> nat option" where
  "checked_add_u64 a b = (if a + b \<le> u64_max then Some (a + b) else None)"

section \<open>Results\<close>

text \<open>\<open>Result<T, E>\<close> is the sum \<open>'e + 't\<close>; \<open>Inl\<close> carries the error.\<close>

type_synonym ('t, 'e) result = "'e + 't"

definition is_ok :: "('t, 'e) result \<Rightarrow> bool" where
  "is_ok r = (case r of Inl _ \<Rightarrow> False | Inr _ \<Rightarrow> True)"

lemma is_ok_simps [simp]: "\<not> is_ok (Inl e)" "is_ok (Inr v)"
  by (simp_all add: is_ok_def)

definition ok_or :: "'t option \<Rightarrow> 'e \<Rightarrow> ('t, 'e) result" where
  "ok_or x e = (case x of None \<Rightarrow> Inl e | Some v \<Rightarrow> Inr v)"

lemma ok_or_simps [simp]: "ok_or None e = Inl e" "ok_or (Some v) e = Inr v"
  by (simp_all add: ok_or_def)

lemma ok_or_eq_Inr [simp]: "ok_or x e = Inr v \<longleftrightarrow> x = Some v"
  by (cases x) simp_all

text \<open>The error a database statement can raise; \<open>sqlx::Error\<close> wraps them.\<close>

datatype db_error =
    CheckViolation
  | UniqueViolation
  | ForeignKeyViolation
  | RlsViolation
  | RaisedException
  | NumericOutOfRange
  | RowNotFound
  | ColumnDecode

section \<open>SQL statement shapes on row lists\<close>

text \<open>
  A table is the list of its rows in heap order. \<open>UPDATE .. SET .. WHERE\<close> maps over it,
  \<open>DELETE .. WHERE\<close> filters, \<open>SELECT .. ORDER BY k LIMIT 1\<close> takes a row with the least key.
  SQL leaves the choice among rows with equal keys open; the model takes the first in heap
  order.
\<close>

definition update_where :: "('r \<Rightarrow> bool) \<Rightarrow> ('r \<Rightarrow> 'r) \<Rightarrow> 'r list \<Rightarrow> 'r list" where
  "update_where p f t = map (\<lambda>r. if p r then f r else r) t"

fun first_min_by :: "('r \<Rightarrow> 'k :: linorder) \<Rightarrow> 'r list \<Rightarrow> 'r option" where
  "first_min_by k [] = None"
| "first_min_by k (r # rs) =
     (case first_min_by k rs of
        None \<Rightarrow> Some r
      | Some s \<Rightarrow> if k r \<le> k s then Some r else Some s)"

lemma set_update_where:
  "set (update_where p f t) = (\<lambda>r. if p r then f r else r) ` set t"
  by (simp add: update_where_def)

lemma length_update_where [simp]: "length (update_where p f t) = length t"
  by (simp add: update_where_def)

lemma update_where_Nil [simp]: "update_where p f [] = []"
  by (simp add: update_where_def)

lemma update_where_Cons [simp]:
  "update_where p f (r # t) = (if p r then f r else r) # update_where p f t"
  by (simp add: update_where_def)

lemma update_where_append [simp]:
  "update_where p f (t @ u) = update_where p f t @ update_where p f u"
  by (simp add: update_where_def)

lemma update_where_id: "(\<And>r. r \<in> set t \<Longrightarrow> \<not> p r) \<Longrightarrow> update_where p f t = t"
  by (induction t) auto

lemma map_update_where [table_simps]:
  "(\<And>r. p r \<Longrightarrow> g (f r) = g r) \<Longrightarrow> map g (update_where p f t) = map g t"
  by (induction t) auto

lemma update_where_memE:
  assumes "r' \<in> set (update_where p f t)"
  obtains r where "r \<in> set t" "r' = (if p r then f r else r)"
  using assms by (auto simp: set_update_where)

lemma filter_update_where_none:
  "(\<And>r. p r \<Longrightarrow> \<not> q (f r)) \<Longrightarrow> filter q (update_where p f t) = filter (\<lambda>r. q r \<and> \<not> p r) t"
  by (induction t) auto

lemma find_update_where:
  "(\<And>r. p r \<Longrightarrow> g (f r) = g r) \<Longrightarrow>
   find (\<lambda>r. g r = k) (update_where p f t)
     = map_option (\<lambda>r. if p r then f r else r) (find (\<lambda>r. g r = k) t)"
  by (induction t) auto

lemma first_min_by_None [simp]: "first_min_by k t = None \<longleftrightarrow> t = []"
  by (cases t) (auto split: option.splits)

lemma first_min_by_mem: "first_min_by k t = Some r \<Longrightarrow> r \<in> set t"
  by (induction t arbitrary: r) (auto split: option.splits if_splits)

lemma first_min_by_le: "first_min_by k t = Some r \<Longrightarrow> s \<in> set t \<Longrightarrow> k r \<le> k s"
proof (induction t arbitrary: r s)
  case (Cons x t)
  then show ?case
    by (cases "first_min_by k t") (fastforce split: if_splits)+
qed simp

lemma find_append: "find p (xs @ ys) = (case find p xs of None \<Rightarrow> find p ys | Some x \<Rightarrow> Some x)"
  by (induction xs) auto

lemma find_Some_mem: "find p xs = Some x \<Longrightarrow> x \<in> set xs \<and> p x"
  by (induction xs) (auto split: if_splits)

lemma find_None_mem: "find p xs = None \<longleftrightarrow> (\<forall>x \<in> set xs. \<not> p x)"
  by (induction xs) auto

lemma find_key_unique:
  "distinct (map g t) \<Longrightarrow> r \<in> set t \<Longrightarrow> find (\<lambda>s. g s = g r) t = Some r"
  by (induction t) (auto simp: image_iff)

lemma distinct_map_inj:
  "distinct (map g t) \<Longrightarrow> r \<in> set t \<Longrightarrow> s \<in> set t \<Longrightarrow> g r = g s \<Longrightarrow> r = s"
  by (metis find_key_unique option.inject)

section \<open>The contract of a \<open>str_enum!\<close> declaration\<close>

text \<open>
  The macro derives \<open>parse\<close> from \<open>ALL\<close> and \<open>as_str\<close> by a linear search
  (\<open>types/macros.rs\<close>). What a declaration promises is that \<open>ALL\<close> lists every variant and that
  the labels are pairwise different; the round trips follow once for every enum.
\<close>

definition str_enum_parse :: "'v list \<Rightarrow> ('v \<Rightarrow> string) \<Rightarrow> string \<Rightarrow> 'v option" where
  "str_enum_parse all as_str raw = find (\<lambda>v. as_str v = raw) all"

text \<open>\<open>Decode\<close> for a labelled column: an unknown label is a decode error.\<close>

definition str_enum_decode :: "'v list \<Rightarrow> ('v \<Rightarrow> string) \<Rightarrow> string \<Rightarrow> ('v, db_error) result" where
  "str_enum_decode all as_str raw = ok_or (str_enum_parse all as_str raw) ColumnDecode"

locale str_enum =
  fixes all :: "'v list"
    and as_str :: "'v \<Rightarrow> string"
  assumes complete: "v \<in> set all"
    and labels_differ: "as_str v = as_str w \<Longrightarrow> v = w"
begin

lemma parse_as_str: "str_enum_parse all as_str (as_str v) = Some v"
proof (cases "find (\<lambda>w. as_str w = as_str v) all")
  case None
  with complete show ?thesis by (auto simp: find_None_mem)
next
  case (Some w)
  then have "as_str w = as_str v" by (auto dest: find_Some_mem)
  then have "w = v" by (rule labels_differ)
  with Some show ?thesis by (simp add: str_enum_parse_def)
qed

lemma parse_iff: "str_enum_parse all as_str raw = Some v \<longleftrightarrow> raw = as_str v"
  using parse_as_str by (auto simp: str_enum_parse_def dest: find_Some_mem)

lemma decode_as_str: "str_enum_decode all as_str (as_str v) = Inr v"
  by (simp add: str_enum_decode_def parse_as_str)

lemma decode_unknown: "raw \<notin> range as_str \<Longrightarrow> str_enum_decode all as_str raw = Inl ColumnDecode"
  by (cases "str_enum_parse all as_str raw") (auto simp: str_enum_decode_def parse_iff)

end

section \<open>Labelled transition systems\<close>

inductive reach :: "('s \<Rightarrow> bool) \<Rightarrow> ('s \<Rightarrow> 'e \<Rightarrow> 's \<Rightarrow> bool) \<Rightarrow> 's \<Rightarrow> bool"
  for init :: "'s \<Rightarrow> bool" and step :: "'s \<Rightarrow> 'e \<Rightarrow> 's \<Rightarrow> bool" where
  reach_init: "init s \<Longrightarrow> reach init step s"
| reach_step: "reach init step s \<Longrightarrow> step s e t \<Longrightarrow> reach init step t"

inductive steps :: "('s \<Rightarrow> 'e \<Rightarrow> 's \<Rightarrow> bool) \<Rightarrow> 's \<Rightarrow> 'e list \<Rightarrow> 's \<Rightarrow> bool"
  for step :: "'s \<Rightarrow> 'e \<Rightarrow> 's \<Rightarrow> bool" where
  steps_nil: "steps step s [] s"
| steps_cons: "step s e t \<Longrightarrow> steps step t es u \<Longrightarrow> steps step s (e # es) u"

text \<open>
  \<open>transition_system\<close> is what a stateful component owes its clients: a start condition and
  an invariant every step keeps. \<open>monotone_system\<close> adds a preorder no step leaves.
\<close>

locale transition_system =
  fixes init :: "'s \<Rightarrow> bool"
    and step :: "'s \<Rightarrow> 'e \<Rightarrow> 's \<Rightarrow> bool"
    and inv :: "'s \<Rightarrow> bool"
  assumes init_inv: "init s \<Longrightarrow> inv s"
    and step_inv: "inv s \<Longrightarrow> step s e t \<Longrightarrow> inv t"
begin

lemma reach_inv: "reach init step s \<Longrightarrow> inv s"
  by (induction rule: reach.induct) (blast intro: init_inv step_inv)+

lemma steps_inv: "steps step s es t \<Longrightarrow> inv s \<Longrightarrow> inv t"
  by (induction rule: steps.induct) (blast intro: step_inv)+

lemma steps_reach: "steps step s es t \<Longrightarrow> reach init step s \<Longrightarrow> reach init step t"
  by (induction rule: steps.induct) (blast intro: reach.reach_step)+

end

locale monotone_system = transition_system +
  fixes le :: "'a \<Rightarrow> 'a \<Rightarrow> bool"
  assumes le_refl: "le s s"
    and le_trans: "le s t \<Longrightarrow> le t u \<Longrightarrow> le s u"
    and step_le: "inv s \<Longrightarrow> step s e t \<Longrightarrow> le s t"
begin

lemma steps_le: "steps step s es t \<Longrightarrow> inv s \<Longrightarrow> le s t"
  by (induction rule: steps.induct) (blast intro: le_refl le_trans step_inv step_le)+

end

end
