(* ===== verification/Runtime_Types.thy ===== *)
theory Runtime_Types
  imports Patom_Prelude
begin

text \<open>
  The domain primitives of the prompt pipeline (\<open>runtime/types.rs\<close>, \<open>runtime/limits.rs\<close>,
  \<open>runtime/queue.rs\<close>, \<open>runtime/error.rs\<close>): the labelled enums and their \<open>parse\<close>, the sequence
  numbers and their \<open>BIGINT\<close> codec, the poison counter, the idempotency key, the kind payload,
  the failure reasons with their two renderings, and the validated lease timing.
\<close>

section \<open>Limits\<close>

definition MAX_PENDING_PER_SESSION :: nat where "MAX_PENDING_PER_SESSION = 32"
definition LEASE_TTL :: duration where "LEASE_TTL = 30 * 1000000"
definition LEASE_HEARTBEAT_INTERVAL :: duration where "LEASE_HEARTBEAT_INTERVAL = 10 * 1000000"
definition MAX_ATTEMPTS :: nat where "MAX_ATTEMPTS = 3"
definition MAX_IDEMPOTENCY_KEY_BYTES :: nat where "MAX_IDEMPOTENCY_KEY_BYTES = 200"
definition MAX_DAG_TURNS :: nat where "MAX_DAG_TURNS = 64"
definition MAX_PINGPONG_RETRIES :: nat where "MAX_PINGPONG_RETRIES = 2"

section \<open>Errors\<close>

datatype parse_error =
    Empty string
  | TooLong string nat nat
  | OutOfRange string string
  | Malformed string string

datatype seq_overflow = SeqOverflow string

datatype prompt_error =
    Parse parse_error
  | RequestNotFound uuid
  | DagBudgetExceededErr uuid nat nat
  | DagNotFound uuid
  | Sequence seq_overflow
  | Backend string
  | Db db_error

section \<open>Sequence columns\<close>

text \<open>
  Sequence values are \<open>u64\<close> in Rust and \<open>BIGINT\<close> in Postgres. Decoding refuses a negative
  column; encoding panics (\<open>None\<close>) past \<open>i64::MAX\<close>.
\<close>

definition decode_u64 :: "int \<Rightarrow> (nat, db_error) result" where
  "decode_u64 raw = (if 0 \<le> raw then Inr (nat raw) else Inl ColumnDecode)"

definition encode_u64 :: "nat \<Rightarrow> int option" where
  "encode_u64 n = (if int n \<le> i64_max then Some (int n) else None)"

type_synonym turn_seq = nat
type_synonym chunk_seq = nat

definition turn_seq_next :: "turn_seq \<Rightarrow> (turn_seq, seq_overflow) result" where
  "turn_seq_next s = (case checked_add_u64 s 1 of
     Some n \<Rightarrow> Inr n | None \<Rightarrow> Inl (SeqOverflow ''turn_seq''))"

definition chunk_seq_next :: "chunk_seq \<Rightarrow> (chunk_seq, seq_overflow) result" where
  "chunk_seq_next s = (case checked_add_u64 s 1 of
     Some n \<Rightarrow> Inr n | None \<Rightarrow> Inl (SeqOverflow ''chunk_seq''))"

lemma encode_decode_u64: "encode_u64 n = Some raw \<Longrightarrow> decode_u64 raw = Inr n"
  by (auto simp: encode_u64_def decode_u64_def split: if_splits)

lemma decode_encode_u64: "raw \<le> i64_max \<Longrightarrow> decode_u64 raw = Inr n \<Longrightarrow> encode_u64 n = Some raw"
  by (auto simp: encode_u64_def decode_u64_def split: if_splits)

lemma turn_seq_next_Inr: "turn_seq_next s = Inr t \<Longrightarrow> t = Suc s \<and> t \<le> u64_max"
  by (auto simp: turn_seq_next_def checked_add_u64_def split: if_splits)

section \<open>Attempts\<close>

type_synonym attempts = nat

datatype attempt_outcome = Live | Poisoned

definition attempts_increment :: "attempts \<Rightarrow> attempts \<times> attempt_outcome" where
  "attempts_increment a =
     (let a' = saturating_add_u32 a 1 in (a', if a' \<ge> MAX_ATTEMPTS then Poisoned else Live))"

section \<open>Idempotency keys\<close>

type_synonym idempotency_key = string

definition idempotency_key_try_from :: "string \<Rightarrow> (idempotency_key, parse_error) result" where
  "idempotency_key_try_from raw =
     (if raw = [] then Inl (Empty ''idempotency_key'')
      else if length raw > MAX_IDEMPOTENCY_KEY_BYTES
        then Inl (TooLong ''idempotency_key'' MAX_IDEMPOTENCY_KEY_BYTES (length raw))
      else Inr raw)"

section \<open>Labelled enums\<close>

datatype request_status = Pending | Processing | Done | Failed

definition request_status_all :: "request_status list" where
  "request_status_all = [Pending, Processing, Done, Failed]"

fun request_status_as_str :: "request_status \<Rightarrow> string" where
  "request_status_as_str Pending = ''pending''"
| "request_status_as_str Processing = ''processing''"
| "request_status_as_str Done = ''done''"
| "request_status_as_str Failed = ''failed''"

fun is_terminal :: "request_status \<Rightarrow> bool" where
  "is_terminal Done = True"
| "is_terminal Failed = True"
| "is_terminal _ = False"

lemma is_terminal_iff: "is_terminal s \<longleftrightarrow> s = Done \<or> s = Failed"
  by (cases s) simp_all

datatype request_kind = Normal | Reflection | Resolution

definition request_kind_all :: "request_kind list" where
  "request_kind_all = [Normal, Reflection, Resolution]"

fun request_kind_as_str :: "request_kind \<Rightarrow> string" where
  "request_kind_as_str Normal = ''normal''"
| "request_kind_as_str Reflection = ''reflection''"
| "request_kind_as_str Resolution = ''resolution''"

datatype metric_kind = MNormal | MReflection | MResolution | MCompaction

definition metric_kind_all :: "metric_kind list" where
  "metric_kind_all = [MNormal, MReflection, MResolution, MCompaction]"

fun metric_kind_as_str :: "metric_kind \<Rightarrow> string" where
  "metric_kind_as_str MNormal = ''normal''"
| "metric_kind_as_str MReflection = ''reflection''"
| "metric_kind_as_str MResolution = ''resolution''"
| "metric_kind_as_str MCompaction = ''compaction''"

fun metric_kind_from :: "request_kind \<Rightarrow> metric_kind" where
  "metric_kind_from Normal = MNormal"
| "metric_kind_from Reflection = MReflection"
| "metric_kind_from Resolution = MResolution"

interpretation request_status: str_enum request_status_all request_status_as_str
proof unfold_locales
  show "v \<in> set request_status_all" for v by (cases v) (simp_all add: request_status_all_def)
  show "request_status_as_str v = request_status_as_str w \<Longrightarrow> v = w" for v w
    by (cases v; cases w) simp_all
qed

interpretation request_kind: str_enum request_kind_all request_kind_as_str
proof unfold_locales
  show "v \<in> set request_kind_all" for v by (cases v) (simp_all add: request_kind_all_def)
  show "request_kind_as_str v = request_kind_as_str w \<Longrightarrow> v = w" for v w
    by (cases v; cases w) simp_all
qed

interpretation metric_kind: str_enum metric_kind_all metric_kind_as_str
proof unfold_locales
  show "v \<in> set metric_kind_all" for v by (cases v) (simp_all add: metric_kind_all_def)
  show "metric_kind_as_str v = metric_kind_as_str w \<Longrightarrow> v = w" for v w
    by (cases v; cases w) simp_all
qed

text \<open>Every queued job keeps its label when it is recorded as a metric.\<close>

lemma metric_kind_from_label: "metric_kind_as_str (metric_kind_from k) = request_kind_as_str k"
  by (cases k) simp_all

section \<open>Payloads and failure reasons\<close>

datatype request_kind_payload =
    PNormal
  | PReflection uuid uuid   \<comment> \<open>thread id, up-to message id\<close>
  | PResolution uuid        \<comment> \<open>contradiction event id\<close>

fun payload_kind :: "request_kind_payload \<Rightarrow> request_kind" where
  "payload_kind PNormal = Normal"
| "payload_kind (PReflection _ _) = Reflection"
| "payload_kind (PResolution _) = Resolution"

datatype failure_reason =
    Cancelled
  | Timeout
  | Provider string
  | Hook string
  | Poison
  | Unrecoverable string
  | DagBudgetExceeded
  | BillingExceeded
  | OutOfCredit
  | NoEgress

fun failure_label :: "failure_reason \<Rightarrow> string" where
  "failure_label Cancelled = ''cancelled''"
| "failure_label Timeout = ''timeout''"
| "failure_label (Provider _) = ''provider''"
| "failure_label (Hook _) = ''hook''"
| "failure_label Poison = ''poison''"
| "failure_label (Unrecoverable _) = ''unrecoverable''"
| "failure_label DagBudgetExceeded = ''dag_budget_exceeded''"
| "failure_label BillingExceeded = ''billing_exceeded''"
| "failure_label OutOfCredit = ''out_of_credit''"
| "failure_label NoEgress = ''no_egress''"

fun failure_display :: "failure_reason \<Rightarrow> string" where
  "failure_display Cancelled = ''cancelled''"
| "failure_display Timeout = ''turn timed out''"
| "failure_display (Provider s) = ''provider error: '' @ s"
| "failure_display (Hook s) = ''hook denied: '' @ s"
| "failure_display Poison = ''max attempts exceeded''"
| "failure_display (Unrecoverable s) = ''unrecoverable: '' @ s"
| "failure_display DagBudgetExceeded = ''dag turn budget exceeded''"
| "failure_display BillingExceeded = ''monthly spend budget exceeded''"
| "failure_display OutOfCredit = ''out of platform credit''"
| "failure_display NoEgress =
     ''agent produced text without calling send_message after retries''"

section \<open>Lease timing\<close>

record lease_timing =
  ttl :: duration
  heartbeat_interval :: duration

datatype lease_timing_error = IntervalZero | IntervalNotUnderTtl duration duration

definition lease_timing_try_new :: "duration \<Rightarrow> duration \<Rightarrow> (lease_timing, lease_timing_error) result" where
  "lease_timing_try_new t h =
     (if h = 0 then Inl IntervalZero
      else if h \<ge> t then Inl (IntervalNotUnderTtl t h)
      else Inr \<lparr>ttl = t, heartbeat_interval = h\<rparr>)"

definition lease_timing_default :: "lease_timing option" where
  "lease_timing_default = (case lease_timing_try_new LEASE_TTL LEASE_HEARTBEAT_INTERVAL of
     Inr t \<Rightarrow> Some t | Inl _ \<Rightarrow> None)"

lemma lease_timing_try_new_Inr:
  assumes "lease_timing_try_new t h = Inr lt"
  shows "ttl lt = t" "heartbeat_interval lt = h" "heartbeat_interval lt < ttl lt"
    "heartbeat_interval lt \<noteq> 0"
  using assms by (auto simp: lease_timing_try_new_def split: if_splits)

text \<open>The \<open>expect\<close> in \<open>default_const\<close> never fires.\<close>

lemma lease_timing_default_exists:
  "\<exists>lt. lease_timing_default = Some lt \<and> 3 * heartbeat_interval lt = ttl lt"
  by (simp add: lease_timing_default_def lease_timing_try_new_def LEASE_TTL_def
      LEASE_HEARTBEAT_INTERVAL_def)

end
