(* ===== verification/Prompt_Queue.thy ===== *)
theory Prompt_Queue
  imports Runtime_Types
begin

text \<open>
  The Postgres-backed prompt queue (\<open>runtime/pg_queue.rs\<close>, \<open>runtime/queue.rs\<close>). A
  \<open>prompt_requests\<close> row is a trigger that wakes one agent for a turn. The claim is keyed by
  \<open>claim_key = COALESCE(state_id, background_turn_id)\<close>: all pending triggers of one key are
  drained into one turn under a lease that is fenced by a per-key sequence. Every operation is
  one transaction, so it is a function from the database to its result and the new database; an
  error inside the transaction rolls back and leaves the database as it was.
\<close>

section \<open>Tables\<close>

record prompt_row =
  pr_id :: uuid
  pr_org :: uuid
  pr_idempotency_key :: idempotency_key
  pr_status :: request_status
  pr_attempts :: attempts
  pr_turn_seq :: turn_seq
  pr_cancellation_requested :: bool
  pr_failure_reason :: "failure_reason option"
  pr_sender :: uuid
  pr_receiver :: uuid
  pr_root :: uuid
  pr_traceparent :: "string option"
  pr_kind :: request_kind
  pr_payload :: request_kind_payload
  pr_thread :: "uuid option"
  pr_state_id :: "uuid option"
  pr_background_turn_id :: "uuid option"
  pr_trigger_message :: "uuid option"
  pr_acting_user :: "uuid option"
  pr_created_at :: timestamp
  pr_updated_at :: timestamp

record claim_lease =
  cl_org :: uuid
  cl_worker :: uuid
  cl_lease_seq :: turn_seq
  cl_leased_until :: timestamp

record dag_row =
  dag_org :: uuid
  dag_turns_used :: int
  dag_turns_cap :: int
  dag_created_at :: timestamp

record colleague_row =
  co_id :: uuid
  co_org :: uuid
  co_agent :: "uuid option"

text \<open>
  \<open>state_org\<close> and \<open>background_org\<close> are the \<open>org_id\<close> columns of \<open>agent_thread_state\<close> and
  \<open>background_turns\<close>, which the org-parity trigger of migration 65 reads; \<open>org_members\<close> is
  what the row-level-security function \<open>app_user_is_member\<close> reads.
\<close>

record queue_db =
  prompt_requests :: "prompt_row list"
  claim_leases :: "uuid \<rightharpoonup> claim_lease"
  claim_seq :: "uuid \<rightharpoonup> turn_seq \<times> uuid"
  dags :: "uuid \<rightharpoonup> dag_row"
  colleagues :: "colleague_row list"
  state_org :: "uuid \<rightharpoonup> uuid"
  background_org :: "uuid \<rightharpoonup> uuid"
  org_members :: "(uuid \<times> uuid) list"

definition app_user_is_member :: "queue_db \<Rightarrow> uuid \<Rightarrow> uuid \<Rightarrow> bool" where
  "app_user_is_member db user org = ((user, org) \<in> set (org_members db))"

text \<open>\<open>COALESCE(state_id, background_turn_id)\<close>; \<open>None\<close> is SQL's \<open>NULL\<close>.\<close>

definition claim_key :: "prompt_row \<Rightarrow> uuid option" where
  "claim_key r = (case pr_state_id r of Some k \<Rightarrow> Some k | None \<Rightarrow> pr_background_turn_id r)"

section \<open>Enqueue\<close>

record new_trigger =
  nt_org :: uuid
  nt_acting_user :: uuid
  nt_thread :: "uuid option"
  nt_state_id :: "uuid option"
  nt_background_turn_id :: "uuid option"
  nt_sender :: uuid
  nt_receiver_agent :: uuid
  nt_root :: "uuid option"
  nt_trigger_message :: "uuid option"
  nt_idempotency_key :: idempotency_key
  nt_payload :: request_kind_payload

text \<open>Runs inside the tenant transaction, so only rows of orgs the user belongs to are seen.\<close>

definition resolve_agent_colleague :: "queue_db \<Rightarrow> uuid \<Rightarrow> uuid \<Rightarrow> uuid \<Rightarrow> (uuid, prompt_error) result" where
  "resolve_agent_colleague db user org agent =
     (case find (\<lambda>c. app_user_is_member db user (co_org c) \<and> co_org c = org \<and> co_agent c = Some agent)
             (colleagues db) of
        Some c \<Rightarrow> Inr (co_id c)
      | None \<Rightarrow> Inl (Backend ''no colleague mapped for agent in org''))"

text \<open>
  What the table itself demands of an inserted row, in the order Postgres applies it: the
  \<open>BEFORE INSERT\<close> org-parity trigger, the RLS \<open>WITH CHECK\<close>, the \<open>claim_key_xor\<close> check.
\<close>

definition claim_parent_org :: "queue_db \<Rightarrow> uuid option \<Rightarrow> uuid option \<Rightarrow> uuid option" where
  "claim_parent_org db st bg =
     (case st of
        Some k \<Rightarrow> state_org db k
      | None \<Rightarrow> (case bg of Some k \<Rightarrow> background_org db k | None \<Rightarrow> None))"

definition prompt_requests_admit :: "queue_db \<Rightarrow> uuid \<Rightarrow> prompt_row \<Rightarrow> db_error option" where
  "prompt_requests_admit db user r =
     (if claim_parent_org db (pr_state_id r) (pr_background_turn_id r) \<noteq> Some (pr_org r)
        then Some RaisedException
      else if \<not> app_user_is_member db user (pr_org r) then Some RlsViolation
      else if (pr_state_id r \<noteq> None) = (pr_background_turn_id r \<noteq> None) then Some CheckViolation
      else None)"

definition same_idempotency :: "uuid \<Rightarrow> idempotency_key \<Rightarrow> prompt_row \<Rightarrow> bool" where
  "same_idempotency org key r \<longleftrightarrow> pr_org r = org \<and> pr_idempotency_key r = key"

definition trigger_row :: "timestamp \<Rightarrow> uuid \<Rightarrow> string option \<Rightarrow> uuid \<Rightarrow> new_trigger \<Rightarrow> prompt_row" where
  "trigger_row now rid traceparent receiver trig =
     \<lparr>pr_id = rid, pr_org = nt_org trig, pr_idempotency_key = nt_idempotency_key trig,
      pr_status = Pending, pr_attempts = 0, pr_turn_seq = 0,
      pr_cancellation_requested = False, pr_failure_reason = None,
      pr_sender = nt_sender trig, pr_receiver = receiver,
      pr_root = (case nt_root trig of Some r \<Rightarrow> r | None \<Rightarrow> rid),
      pr_traceparent = traceparent,
      pr_kind = payload_kind (nt_payload trig), pr_payload = nt_payload trig,
      pr_thread = nt_thread trig, pr_state_id = nt_state_id trig,
      pr_background_turn_id = nt_background_turn_id trig,
      pr_trigger_message = nt_trigger_message trig,
      pr_acting_user = Some (nt_acting_user trig),
      pr_created_at = now, pr_updated_at = now\<rparr>"

definition seed_dag :: "queue_db \<Rightarrow> timestamp \<Rightarrow> uuid \<Rightarrow> uuid \<Rightarrow> (queue_db, prompt_error) result" where
  "seed_dag db now root org =
     (case dags db root of
        Some _ \<Rightarrow> Inl (Db UniqueViolation)
      | None \<Rightarrow> Inr (db\<lparr>dags := (dags db)(root \<mapsto>
          \<lparr>dag_org = org, dag_turns_used = 0, dag_turns_cap = int MAX_DAG_TURNS,
           dag_created_at = now\<rparr>)\<rparr>))"

text \<open>\<open>rid\<close> is the id \<open>PromptRequestId::new()\<close> mints, \<open>traceparent\<close> the ambient trace header.\<close>

definition enqueue_trigger ::
    "queue_db \<Rightarrow> timestamp \<Rightarrow> uuid \<Rightarrow> string option \<Rightarrow> new_trigger \<Rightarrow> (uuid, prompt_error) result \<times> queue_db" where
  "enqueue_trigger db now rid traceparent trig =
     (case resolve_agent_colleague db (nt_acting_user trig) (nt_org trig) (nt_receiver_agent trig) of
        Inl e \<Rightarrow> (Inl e, db)
      | Inr receiver \<Rightarrow>
          let row = trigger_row now rid traceparent receiver trig in
          (case prompt_requests_admit db (nt_acting_user trig) row of
             Some e \<Rightarrow> (Inl (Db e), db)
           | None \<Rightarrow>
               (case find (same_idempotency (nt_org trig) (nt_idempotency_key trig)) (prompt_requests db) of
                  Some existing \<Rightarrow>
                    if app_user_is_member db (nt_acting_user trig) (pr_org existing)
                    then (Inr (pr_id existing), db) else (Inl (Db RowNotFound), db)
                | None \<Rightarrow>
                    if \<exists>r \<in> set (prompt_requests db). pr_id r = rid then (Inl (Db UniqueViolation), db)
                    else
                      let db1 = db\<lparr>prompt_requests := prompt_requests db @ [row]\<rparr> in
                      if nt_root trig = None
                      then (case seed_dag db1 now rid (nt_org trig) of
                              Inl e \<Rightarrow> (Inl e, db)
                            | Inr db2 \<Rightarrow> (Inr rid, db2))
                      else (Inr rid, db1))))"

section \<open>Claim\<close>

record claimed_turn =
  ct_claim_key :: uuid
  ct_kind :: request_kind
  ct_thread :: "uuid option"
  ct_org :: uuid
  ct_acting_user :: uuid
  ct_receiver_agent :: uuid
  ct_receiver_colleague :: uuid
  ct_trigger_ids :: "uuid list"
  ct_root :: uuid
  ct_payload :: request_kind_payload
  ct_worker :: uuid
  ct_lease_seq :: turn_seq

record turn_receipt =
  tr_claim_key :: uuid
  tr_lease_seq :: turn_seq
  tr_trigger_ids :: "uuid list"
  tr_acting_user :: uuid
  tr_root :: uuid

definition receipt :: "claimed_turn \<Rightarrow> turn_receipt" where
  "receipt c = \<lparr>tr_claim_key = ct_claim_key c, tr_lease_seq = ct_lease_seq c,
     tr_trigger_ids = ct_trigger_ids c, tr_acting_user = ct_acting_user c, tr_root = ct_root c\<rparr>"

definition deadline :: "duration \<Rightarrow> timestamp \<Rightarrow> timestamp" where
  "deadline lease_ttl now = now + int lease_ttl"

text \<open>A lease is live while \<open>leased_until > now\<close>.\<close>

definition lease_live :: "queue_db \<Rightarrow> timestamp \<Rightarrow> uuid \<Rightarrow> bool" where
  "lease_live db now k = (case claim_leases db k of
     None \<Rightarrow> False | Some l \<Rightarrow> cl_leased_until l > now)"

definition claimable :: "queue_db \<Rightarrow> timestamp \<Rightarrow> prompt_row \<Rightarrow> bool" where
  "claimable db now r \<longleftrightarrow> pr_status r = Pending \<and>
     (case claim_key r of None \<Rightarrow> True | Some k \<Rightarrow> \<not> lease_live db now k)"

definition next_turn_candidate ::
    "queue_db \<Rightarrow> timestamp \<Rightarrow> ((uuid \<times> uuid \<times> uuid) option, prompt_error) result" where
  "next_turn_candidate db now =
     (case first_min_by pr_created_at (filter (claimable db now) (prompt_requests db)) of
        None \<Rightarrow> Inr None
      | Some r \<Rightarrow>
          (case claim_key r of
             None \<Rightarrow> Inl (Db ColumnDecode)
           | Some k \<Rightarrow>
               (case pr_acting_user r of
                  Some user \<Rightarrow> Inr (Some (k, pr_org r, user))
                | None \<Rightarrow> Inl (Backend ''trigger row missing acting_user_id''))))"

definition bump_claim_seq :: "queue_db \<Rightarrow> uuid \<Rightarrow> uuid \<Rightarrow> (turn_seq \<times> queue_db, prompt_error) result" where
  "bump_claim_seq db k org =
     (case claim_seq db k of
        None \<Rightarrow> Inr (1, db\<lparr>claim_seq := (claim_seq db)(k \<mapsto> (1, org))\<rparr>)
      | Some (n, o') \<Rightarrow>
          if int n + 1 > i64_max then Inl (Db NumericOutOfRange)
          else Inr (n + 1, db\<lparr>claim_seq := (claim_seq db)(k \<mapsto> (n + 1, o'))\<rparr>))"

text \<open>
  The upsert overwrites an expired lease only; on conflict with a live one no row returns. The
  update branch does not touch \<open>org_id\<close>.
\<close>

definition try_take_claim_lease ::
    "queue_db \<Rightarrow> uuid \<Rightarrow> uuid \<Rightarrow> uuid \<Rightarrow> turn_seq \<Rightarrow> timestamp \<Rightarrow> timestamp \<Rightarrow> bool \<times> queue_db" where
  "try_take_claim_lease db k org worker seq until now =
     (case claim_leases db k of
        None \<Rightarrow> (True, db\<lparr>claim_leases := (claim_leases db)(k \<mapsto>
           \<lparr>cl_org = org, cl_worker = worker, cl_lease_seq = seq, cl_leased_until = until\<rparr>)\<rparr>)
      | Some l \<Rightarrow>
          if cl_leased_until l \<le> now
          then (True, db\<lparr>claim_leases := (claim_leases db)(k \<mapsto>
             l\<lparr>cl_worker := worker, cl_lease_seq := seq, cl_leased_until := until\<rparr>)\<rparr>)
          else (False, db))"

record drained_trigger =
  dt_id :: uuid
  dt_kind :: request_kind
  dt_thread :: "uuid option"
  dt_receiver :: uuid
  dt_agent :: "uuid option"
  dt_payload :: request_kind_payload
  dt_root :: uuid

text \<open>The \<open>UPDATE .. FROM colleagues\<close> join: a row without its receiver's colleague row is skipped.\<close>

definition receiver_row :: "queue_db \<Rightarrow> prompt_row \<Rightarrow> colleague_row option" where
  "receiver_row db r = find (\<lambda>c. co_id c = pr_receiver r) (colleagues db)"

definition drains :: "queue_db \<Rightarrow> uuid \<Rightarrow> prompt_row \<Rightarrow> bool" where
  "drains db k r \<longleftrightarrow> claim_key r = Some k \<and> pr_status r = Pending \<and> receiver_row db r \<noteq> None"

definition drain_row :: "turn_seq \<Rightarrow> timestamp \<Rightarrow> prompt_row \<Rightarrow> prompt_row" where
  "drain_row seq now r = r\<lparr>pr_status := Processing, pr_turn_seq := seq,
     pr_attempts := pr_attempts r + 1, pr_updated_at := now\<rparr>"

definition drained_of :: "queue_db \<Rightarrow> prompt_row \<Rightarrow> drained_trigger" where
  "drained_of db r = \<lparr>dt_id = pr_id r, dt_kind = pr_kind r, dt_thread = pr_thread r,
     dt_receiver = pr_receiver r,
     dt_agent = (case receiver_row db r of None \<Rightarrow> None | Some c \<Rightarrow> co_agent c),
     dt_payload = pr_payload r, dt_root = pr_root r\<rparr>"

definition drain_turn_pending ::
    "queue_db \<Rightarrow> uuid \<Rightarrow> turn_seq \<Rightarrow> timestamp \<Rightarrow> drained_trigger list \<times> queue_db" where
  "drain_turn_pending db k seq now =
     (map (drained_of db) (filter (drains db k) (prompt_requests db)),
      db\<lparr>prompt_requests := update_where (drains db k) (drain_row seq now) (prompt_requests db)\<rparr>)"

text \<open>\<open>None\<close> is the \<open>assert!\<close> on an empty batch.\<close>

fun batch_mismatch :: "uuid \<Rightarrow> request_kind \<Rightarrow> drained_trigger list \<Rightarrow> prompt_error option" where
  "batch_mismatch agent kind [] = None"
| "batch_mismatch agent kind (d # ds) =
     (if dt_agent d \<noteq> Some agent
        then Some (Backend ''drained triggers for one claim_key must share receiver_agent_id'')
      else if dt_kind d \<noteq> kind
        then Some (Backend ''drained triggers for one claim_key must share kind'')
      else batch_mismatch agent kind ds)"

fun build_claimed_turn ::
    "uuid \<Rightarrow> uuid \<Rightarrow> uuid \<Rightarrow> uuid \<Rightarrow> turn_seq \<Rightarrow> drained_trigger list \<Rightarrow>
     (claimed_turn, prompt_error) result option" where
  "build_claimed_turn k org user worker seq [] = None"
| "build_claimed_turn k org user worker seq (d # ds) = Some
     (case dt_agent d of
        None \<Rightarrow> Inl (Backend ''drained trigger receiver missing agent_id'')
      | Some agent \<Rightarrow>
          (case batch_mismatch agent (dt_kind d) ds of
             Some e \<Rightarrow> Inl e
           | None \<Rightarrow> Inr
               \<lparr>ct_claim_key = k, ct_kind = dt_kind d, ct_thread = dt_thread d, ct_org = org,
                ct_acting_user = user, ct_receiver_agent = agent,
                ct_receiver_colleague = dt_receiver d,
                ct_trigger_ids = map dt_id (d # ds), ct_root = dt_root d,
                ct_payload = dt_payload d, ct_worker = worker, ct_lease_seq = seq\<rparr>))"

text \<open>
  The claim transaction from the fence bump on. The bump locks the key's \<open>claim_seq\<close> row until
  the commit, so this part is serialised per key, while the candidate it starts from was read
  before the lock and may be stale: \<open>claim_turn_for\<close> therefore takes any candidate. A batch that
  fails assembly is reported after the commit, so the rows it drained stay \<open>Processing\<close> and the
  lease stays taken.
\<close>

definition claim_turn_for ::
    "queue_db \<Rightarrow> duration \<Rightarrow> timestamp \<Rightarrow> uuid \<Rightarrow> uuid \<times> uuid \<times> uuid \<Rightarrow>
     (claimed_turn option, prompt_error) result \<times> queue_db" where
  "claim_turn_for db lease_ttl now worker cand =
     (case cand of (k, org, user) \<Rightarrow>
       (case bump_claim_seq db k org of
          Inl e \<Rightarrow> (Inl e, db)
        | Inr (seq, db1) \<Rightarrow>
            (case try_take_claim_lease db1 k org worker seq (deadline lease_ttl now) now of
               (False, db2) \<Rightarrow> (Inr None, db2)
             | (True, db2) \<Rightarrow>
                 (case drain_turn_pending db2 k seq now of
                    (drained, db3) \<Rightarrow>
                      (case build_claimed_turn k org user worker seq drained of
                         None \<Rightarrow> (Inr None, db3)
                       | Some (Inl e) \<Rightarrow> (Inl e, db3)
                       | Some (Inr c) \<Rightarrow> (Inr (Some c), db3))))))"

definition claim_next_turn ::
    "queue_db \<Rightarrow> duration \<Rightarrow> timestamp \<Rightarrow> uuid \<Rightarrow> (claimed_turn option, prompt_error) result \<times> queue_db" where
  "claim_next_turn db lease_ttl now worker =
     (case next_turn_candidate db now of
        Inl e \<Rightarrow> (Inl e, db)
      | Inr None \<Rightarrow> (Inr None, db)
      | Inr (Some cand) \<Rightarrow> claim_turn_for db lease_ttl now worker cand)"

section \<open>Finalise, heartbeat, release\<close>

definition finalises :: "turn_receipt \<Rightarrow> prompt_row \<Rightarrow> bool" where
  "finalises rc r \<longleftrightarrow> pr_id r \<in> set (tr_trigger_ids rc) \<and> pr_turn_seq r = tr_lease_seq rc
     \<and> pr_status r = Processing"

definition finalise_turn ::
    "queue_db \<Rightarrow> timestamp \<Rightarrow> turn_receipt \<Rightarrow> request_status \<Rightarrow> failure_reason option \<Rightarrow> queue_db" where
  "finalise_turn db now rc st reason =
     db\<lparr>prompt_requests := update_where (finalises rc)
          (\<lambda>r. r\<lparr>pr_status := st, pr_failure_reason := reason, pr_updated_at := now\<rparr>)
          (prompt_requests db)\<rparr>"

definition mark_turn_done :: "queue_db \<Rightarrow> timestamp \<Rightarrow> turn_receipt \<Rightarrow> queue_db" where
  "mark_turn_done db now rc = finalise_turn db now rc Done None"

definition mark_turn_failed :: "queue_db \<Rightarrow> timestamp \<Rightarrow> turn_receipt \<Rightarrow> failure_reason \<Rightarrow> queue_db" where
  "mark_turn_failed db now rc reason = finalise_turn db now rc Failed (Some reason)"

definition heartbeat_turn :: "queue_db \<Rightarrow> duration \<Rightarrow> timestamp \<Rightarrow> turn_receipt \<Rightarrow> queue_db" where
  "heartbeat_turn db lease_ttl now rc =
     (case claim_leases db (tr_claim_key rc) of
        Some l \<Rightarrow>
          if cl_lease_seq l = tr_lease_seq rc
          then db\<lparr>claim_leases := (claim_leases db)(tr_claim_key rc \<mapsto>
                 l\<lparr>cl_leased_until := deadline lease_ttl now\<rparr>)\<rparr>
          else db
      | None \<Rightarrow> db)"

definition release_turn :: "queue_db \<Rightarrow> turn_receipt \<Rightarrow> queue_db" where
  "release_turn db rc =
     (case claim_leases db (tr_claim_key rc) of
        Some l \<Rightarrow>
          if cl_lease_seq l = tr_lease_seq rc
          then db\<lparr>claim_leases := (claim_leases db)(tr_claim_key rc := None)\<rparr>
          else db
      | None \<Rightarrow> db)"

section \<open>Cancellation and status\<close>

definition request_cancellation :: "queue_db \<Rightarrow> timestamp \<Rightarrow> uuid \<Rightarrow> (unit, prompt_error) result \<times> queue_db" where
  "request_cancellation db now rid =
     (if \<exists>r \<in> set (prompt_requests db). pr_id r = rid
      then (Inr (), db\<lparr>prompt_requests := update_where (\<lambda>r. pr_id r = rid)
             (\<lambda>r. r\<lparr>pr_cancellation_requested := True, pr_updated_at := now\<rparr>) (prompt_requests db)\<rparr>)
      else (Inl (RequestNotFound rid), db))"

record request_status_view =
  rv_request_id :: uuid
  rv_claim_key :: uuid
  rv_status :: request_status
  rv_cancellation_requested :: bool
  rv_failure_reason :: "failure_reason option"

definition status_view :: "prompt_row \<Rightarrow> (request_status_view, prompt_error) result" where
  "status_view r = (case claim_key r of
     None \<Rightarrow> Inl (Db ColumnDecode)
   | Some k \<Rightarrow> Inr \<lparr>rv_request_id = pr_id r, rv_claim_key = k, rv_status = pr_status r,
       rv_cancellation_requested = pr_cancellation_requested r,
       rv_failure_reason = pr_failure_reason r\<rparr>)"

definition status :: "queue_db \<Rightarrow> uuid \<Rightarrow> (request_status_view, prompt_error) result" where
  "status db rid = (case find (\<lambda>r. pr_id r = rid) (prompt_requests db) of
     None \<Rightarrow> Inl (RequestNotFound rid)
   | Some r \<Rightarrow> status_view r)"

fun collect_views :: "prompt_row list \<Rightarrow> (request_status_view list, prompt_error) result" where
  "collect_views [] = Inr []"
| "collect_views (r # rs) = (case status_view r of
     Inl e \<Rightarrow> Inl e
   | Inr v \<Rightarrow> (case collect_views rs of Inl e \<Rightarrow> Inl e | Inr vs \<Rightarrow> Inr (v # vs)))"

definition statuses :: "queue_db \<Rightarrow> uuid list \<Rightarrow> (request_status_view list, prompt_error) result" where
  "statuses db ids =
     (if ids = [] then Inr []
      else collect_views (filter (\<lambda>r. pr_id r \<in> set ids) (prompt_requests db)))"

end
