(* ===== verification/Dag_Budget.thy ===== *)
theory Dag_Budget
  imports Prompt_Queue
begin

text \<open>
  The per-DAG turn budget (\<open>runtime/dag.rs\<close>): one counter row per human-rooted request tree,
  bumped by every \<open>send_message\<close> that wakes an agent, refused at its cap; and the quiescence
  test the worker uses to close a conversation's streams.
\<close>

record budget_bumped =
  bb_turns_used :: nat
  bb_turns_cap :: nat

text \<open>\<open>None\<close> is the panic on a counter that does not fit in \<open>u32\<close>.\<close>

definition u32_or_invariant :: "int \<Rightarrow> nat option" where
  "u32_or_invariant raw = (if 0 \<le> raw \<and> raw \<le> int u32_max then Some (nat raw) else None)"

definition bump_dag :: "queue_db \<Rightarrow> uuid \<Rightarrow> dag_row \<Rightarrow> queue_db" where
  "bump_dag db root d =
     db\<lparr>dags := (dags db)(root \<mapsto> d\<lparr>dag_turns_used := dag_turns_used d + 1\<rparr>)\<rparr>"

definition bumped_of :: "int \<Rightarrow> int \<Rightarrow> (budget_bumped, prompt_error) result option" where
  "bumped_of used cap =
     (case (u32_or_invariant used, u32_or_invariant cap) of
        (Some u, Some c) \<Rightarrow> Some (Inr \<lparr>bb_turns_used = u, bb_turns_cap = c\<rparr>)
      | _ \<Rightarrow> None)"

definition exceeded_of :: "uuid \<Rightarrow> int \<Rightarrow> int \<Rightarrow> (budget_bumped, prompt_error) result option" where
  "exceeded_of root used cap =
     (case (u32_or_invariant used, u32_or_invariant cap) of
        (Some u, Some c) \<Rightarrow> Some (Inl (DagBudgetExceededErr root u c))
      | _ \<Rightarrow> None)"

text \<open>
  \<open>visible\<close> is the row filter of the transaction: everything for the privileged entry point,
  the rows of the acting user's orgs for the tenant one.
\<close>

definition bump_or_fail_in_tx ::
    "(dag_row \<Rightarrow> bool) \<Rightarrow> queue_db \<Rightarrow> uuid \<Rightarrow> (budget_bumped, prompt_error) result option \<times> queue_db" where
  "bump_or_fail_in_tx visible db root =
     (case dags db root of
        Some d \<Rightarrow>
          if \<not> visible d then (Some (Inl (DagNotFound root)), db)
          else if dag_turns_used d < dag_turns_cap d
            then (bumped_of (dag_turns_used d + 1) (dag_turns_cap d), bump_dag db root d)
          else (exceeded_of root (dag_turns_used d) (dag_turns_cap d), db)
      | None \<Rightarrow> (Some (Inl (DagNotFound root)), db))"

definition bump_or_fail :: "queue_db \<Rightarrow> uuid \<Rightarrow> (budget_bumped, prompt_error) result option \<times> queue_db" where
  "bump_or_fail db root = bump_or_fail_in_tx (\<lambda>_. True) db root"

definition bump_or_fail_for_user ::
    "queue_db \<Rightarrow> uuid \<Rightarrow> uuid \<Rightarrow> (budget_bumped, prompt_error) result option \<times> queue_db" where
  "bump_or_fail_for_user db user root =
     bump_or_fail_in_tx (\<lambda>d. app_user_is_member db user (dag_org d)) db root"

definition quiescent :: "queue_db \<Rightarrow> uuid \<Rightarrow> bool" where
  "quiescent db root \<longleftrightarrow> \<not> (\<exists>r \<in> set (prompt_requests db).
     pr_root r = root \<and> (pr_status r = Pending \<or> pr_status r = Processing))"

section \<open>The budget is a hard cap\<close>

definition dag_wf :: "dag_row \<Rightarrow> bool" where
  "dag_wf d \<longleftrightarrow> 0 \<le> dag_turns_used d \<and> dag_turns_used d \<le> dag_turns_cap d
     \<and> dag_turns_cap d = int MAX_DAG_TURNS"

text \<open>\<open>n\<close> bumps in a row, keeping the results in order.\<close>

fun bumps :: "nat \<Rightarrow> queue_db \<Rightarrow> uuid \<Rightarrow> (budget_bumped, prompt_error) result option list \<times> queue_db" where
  "bumps 0 db root = ([], db)"
| "bumps (Suc n) db root =
     (case bump_or_fail db root of
        (r, db') \<Rightarrow> (case bumps n db' root of (rs, db'') \<Rightarrow> (r # rs, db'')))"

lemma u32_or_invariant_small: "n \<le> u32_max \<Longrightarrow> u32_or_invariant (int n) = Some n"
  by (simp add: u32_or_invariant_def)

lemma bump_under_cap:
  assumes "dags db root = Some d" and "dag_turns_used d = int n"
    and "dag_turns_cap d = int MAX_DAG_TURNS" and "n < MAX_DAG_TURNS"
  shows "bump_or_fail db root =
    (Some (Inr \<lparr>bb_turns_used = Suc n, bb_turns_cap = MAX_DAG_TURNS\<rparr>), bump_dag db root d)"
proof -
  have "u32_or_invariant (int (Suc n)) = Some (Suc n)"
    using assms(4) by (intro u32_or_invariant_small) (simp add: MAX_DAG_TURNS_def u32_max_def)
  moreover have "u32_or_invariant (int MAX_DAG_TURNS) = Some MAX_DAG_TURNS"
    by (intro u32_or_invariant_small) (simp add: MAX_DAG_TURNS_def u32_max_def)
  ultimately show ?thesis
    using assms by (simp add: bump_or_fail_def bump_or_fail_in_tx_def bumped_of_def add.commute)
qed

lemma bump_at_cap:
  assumes "dags db root = Some d" and "dag_turns_used d = int MAX_DAG_TURNS"
    and "dag_turns_cap d = int MAX_DAG_TURNS"
  shows "bump_or_fail db root =
    (Some (Inl (DagBudgetExceededErr root MAX_DAG_TURNS MAX_DAG_TURNS)), db)"
proof -
  have "u32_or_invariant (int MAX_DAG_TURNS) = Some MAX_DAG_TURNS"
    by (intro u32_or_invariant_small) (simp add: MAX_DAG_TURNS_def u32_max_def)
  then show ?thesis
    using assms by (simp add: bump_or_fail_def bump_or_fail_in_tx_def exceeded_of_def)
qed

lemma bumps_results:
  assumes "dags db root = Some d" and "dag_turns_used d = int k"
    and "dag_turns_cap d = int MAX_DAG_TURNS" and "k \<le> MAX_DAG_TURNS"
  shows "fst (bumps n db root) =
    map (\<lambda>i. if k + i < MAX_DAG_TURNS
             then Some (Inr \<lparr>bb_turns_used = Suc (k + i), bb_turns_cap = MAX_DAG_TURNS\<rparr>)
             else Some (Inl (DagBudgetExceededErr root MAX_DAG_TURNS MAX_DAG_TURNS))) [0..<n]"
  using assms
proof (induction n arbitrary: db d k)
  case 0
  then show ?case by simp
next
  case (Suc n)
  show ?case
  proof (cases "k < MAX_DAG_TURNS")
    case True
    let ?d = "d\<lparr>dag_turns_used := dag_turns_used d + 1\<rparr>"
    have db': "dags (bump_dag db root d) root = Some ?d" by (simp add: bump_dag_def)
    have IH: "fst (bumps n (bump_dag db root d) root) =
      map (\<lambda>i. if Suc k + i < MAX_DAG_TURNS
             then Some (Inr \<lparr>bb_turns_used = Suc (Suc k + i), bb_turns_cap = MAX_DAG_TURNS\<rparr>)
             else Some (Inl (DagBudgetExceededErr root MAX_DAG_TURNS MAX_DAG_TURNS))) [0..<n]"
      using Suc.IH [OF db', of "Suc k"] Suc.prems True by simp
    have "[0..<Suc n] = 0 # map Suc [0..<n]" by (simp add: map_Suc_upt upt_conv_Cons)
    then show ?thesis
      using IH True bump_under_cap [OF Suc.prems(1-3) True]
      by (simp add: split_beta del: upt_Suc)
  next
    case False
    with Suc.prems have k: "k = MAX_DAG_TURNS" by simp
    have "[0..<Suc n] = 0 # map Suc [0..<n]" by (simp add: map_Suc_upt upt_conv_Cons)
    then show ?thesis
      using Suc.IH [OF Suc.prems] bump_at_cap [of db root d] Suc.prems k
      by (simp add: split_beta del: upt_Suc)
  qed
qed

lemma bump_or_fail_in_tx_frame:
  "snd (bump_or_fail_in_tx v db root) = db
   \<or> (\<exists>d. dags db root = Some d \<and> dag_turns_used d < dag_turns_cap d
        \<and> snd (bump_or_fail_in_tx v db root) = bump_dag db root d)"
  by (auto simp: bump_or_fail_in_tx_def split: option.splits)

text \<open>A tenant transaction never moves another org's counter.\<close>

lemma bump_for_user_other_org:
  "dags db root = Some d \<Longrightarrow> \<not> app_user_is_member db user (dag_org d) \<Longrightarrow>
   bump_or_fail_for_user db user root = (Some (Inl (DagNotFound root)), db)"
  by (simp add: bump_or_fail_for_user_def bump_or_fail_in_tx_def)

end
