(* ===== verification/Prompt_Queue_Laws.thy ===== *)
theory Prompt_Queue_Laws
  imports Dag_Budget
begin

text \<open>
  What the queue promises. The table invariant and the proof that every operation keeps it; the
  queue as a transition system; the forward-only life cycle of a trigger; the fence; the
  coalescing and the order of claims; idempotent enqueue; and the contract \<open>turn_queue\<close> the
  worker relies on, interpreted on the Postgres operations.
\<close>

section \<open>Invariant\<close>

definition seq_of :: "queue_db \<Rightarrow> uuid \<Rightarrow> turn_seq" where
  "seq_of db k = (case claim_seq db k of None \<Rightarrow> 0 | Some (n, _) \<Rightarrow> n)"

definition row_wf :: "prompt_row \<Rightarrow> bool" where
  "row_wf r \<longleftrightarrow> (pr_state_id r \<noteq> None) \<noteq> (pr_background_turn_id r \<noteq> None)
     \<and> pr_kind r = payload_kind (pr_payload r)
     \<and> pr_acting_user r \<noteq> None
     \<and> (pr_status r = Pending \<longleftrightarrow> pr_turn_seq r = 0)
     \<and> pr_attempts r = (if pr_status r = Pending then 0 else 1)
     \<and> (pr_failure_reason r \<noteq> None \<longleftrightarrow> pr_status r = Failed)"

definition row_seq_ok :: "queue_db \<Rightarrow> prompt_row \<Rightarrow> bool" where
  "row_seq_ok db r = (case claim_key r of
     None \<Rightarrow> False | Some k \<Rightarrow> pr_turn_seq r \<le> seq_of db k)"

definition queue_inv :: "queue_db \<Rightarrow> bool" where
  "queue_inv db \<longleftrightarrow> distinct (map pr_id (prompt_requests db))
     \<and> distinct (map (\<lambda>r. (pr_org r, pr_idempotency_key r)) (prompt_requests db))
     \<and> (\<forall>r \<in> set (prompt_requests db). row_wf r \<and> row_seq_ok db r)
     \<and> (\<forall>k l. claim_leases db k = Some l \<longrightarrow> 0 < cl_lease_seq l \<and> cl_lease_seq l \<le> seq_of db k)
     \<and> (\<forall>k d. dags db k = Some d \<longrightarrow> dag_wf d)"

definition queue_init :: "queue_db \<Rightarrow> bool" where
  "queue_init db \<longleftrightarrow> prompt_requests db = [] \<and> claim_leases db = Map.empty
     \<and> claim_seq db = Map.empty \<and> dags db = Map.empty"

lemma queue_init_inv: "queue_init db \<Longrightarrow> queue_inv db"
  by (simp add: queue_init_def queue_inv_def)

lemma queue_inv_leaseD:
  "queue_inv db \<Longrightarrow> claim_leases db k = Some l \<Longrightarrow> 0 < cl_lease_seq l \<and> cl_lease_seq l \<le> seq_of db k"
  by (simp add: queue_inv_def)

lemma queue_inv_dagD: "queue_inv db \<Longrightarrow> dags db k = Some d \<Longrightarrow> dag_wf d"
  by (simp add: queue_inv_def)

lemma queue_inv_rowD:
  "queue_inv db \<Longrightarrow> r \<in> set (prompt_requests db) \<Longrightarrow> row_wf r \<and> row_seq_ok db r"
  by (simp add: queue_inv_def)

lemma queue_inv_distinct: "queue_inv db \<Longrightarrow> distinct (map pr_id (prompt_requests db))"
  by (simp add: queue_inv_def)

lemma claim_key_wf: "row_wf r \<Longrightarrow> \<exists>k. claim_key r = Some k"
  by (auto simp: row_wf_def claim_key_def split: option.splits)

section \<open>Frames: what each statement leaves alone\<close>

lemma seq_of_frames [simp]:
  "seq_of (db\<lparr>prompt_requests := t\<rparr>) k = seq_of db k"
  "seq_of (db\<lparr>claim_leases := m\<rparr>) k = seq_of db k"
  "seq_of (db\<lparr>dags := d\<rparr>) k = seq_of db k"
  by (simp_all add: seq_of_def)

lemma row_seq_ok_frames [simp]:
  "row_seq_ok (db\<lparr>prompt_requests := t\<rparr>) r = row_seq_ok db r"
  "row_seq_ok (db\<lparr>claim_leases := m\<rparr>) r = row_seq_ok db r"
  "row_seq_ok (db\<lparr>dags := d\<rparr>) r = row_seq_ok db r"
  by (simp_all add: row_seq_ok_def split: option.split)

text \<open>
  \<open>row_frame\<close>: an update that keeps the identity columns, the idempotency key and the claim key
  of a row. Every \<open>UPDATE prompt_requests\<close> of the store is one.
\<close>

definition row_frame :: "(prompt_row \<Rightarrow> prompt_row) \<Rightarrow> bool" where
  "row_frame f \<longleftrightarrow> (\<forall>r. pr_id (f r) = pr_id r \<and> pr_org (f r) = pr_org r
     \<and> pr_idempotency_key (f r) = pr_idempotency_key r \<and> claim_key (f r) = claim_key r
     \<and> pr_root (f r) = pr_root r)"

lemma row_frame_drain: "row_frame (drain_row seq now)"
  by (simp add: row_frame_def drain_row_def claim_key_def split: option.split)

lemma row_frame_finalise:
  "row_frame (\<lambda>r. r\<lparr>pr_status := st, pr_failure_reason := fr, pr_updated_at := now\<rparr>)"
  by (simp add: row_frame_def claim_key_def split: option.split)

lemma row_frame_cancel:
  "row_frame (\<lambda>r. r\<lparr>pr_cancellation_requested := True, pr_updated_at := now\<rparr>)"
  by (simp add: row_frame_def claim_key_def split: option.split)

lemmas row_frames = row_frame_drain row_frame_finalise row_frame_cancel

lemma row_frame_ids: "row_frame f \<Longrightarrow> map pr_id (update_where p f t) = map pr_id t"
  by (rule map_update_where) (simp add: row_frame_def)

lemma row_frame_keys:
  "row_frame f \<Longrightarrow> map (\<lambda>r. (pr_org r, pr_idempotency_key r)) (update_where p f t)
     = map (\<lambda>r. (pr_org r, pr_idempotency_key r)) t"
  by (rule map_update_where) (simp add: row_frame_def)

text \<open>One rule preserves the invariant across every framed update of the table.\<close>

lemma queue_inv_update_rows:
  assumes inv: "queue_inv db" and fr: "row_frame f"
    and wf: "\<And>r. r \<in> set (prompt_requests db) \<Longrightarrow> p r \<Longrightarrow> row_wf r \<Longrightarrow> row_wf (f r)"
    and seq: "\<And>r k. r \<in> set (prompt_requests db) \<Longrightarrow> p r \<Longrightarrow> claim_key r = Some k \<Longrightarrow>
      pr_turn_seq r \<le> seq_of db k \<Longrightarrow> pr_turn_seq (f r) \<le> seq_of db k"
  shows "queue_inv (db\<lparr>prompt_requests := update_where p f (prompt_requests db)\<rparr>)"
proof -
  have "row_wf r' \<and> row_seq_ok db r'" if "r' \<in> set (update_where p f (prompt_requests db))" for r'
  proof -
    from that obtain r where r: "r \<in> set (prompt_requests db)" and r': "r' = (if p r then f r else r)"
      by (rule update_where_memE)
    from inv r have "row_wf r" "row_seq_ok db r" by (auto simp: queue_inv_def)
    with r r' wf [OF r] seq [OF r] fr show ?thesis
      by (auto simp: row_seq_ok_def row_frame_def split: option.splits)
  qed
  with inv fr show ?thesis
    by (simp add: queue_inv_def row_frame_ids row_frame_keys)
qed

section \<open>Each operation keeps the invariant\<close>

lemma trigger_row_wf:
  assumes "prompt_requests_admit db u (trigger_row now rid tp rcv trig) = None"
  shows "row_wf (trigger_row now rid tp rcv trig)"
  using assms
  by (auto simp: prompt_requests_admit_def row_wf_def trigger_row_def split: if_splits)

lemma queue_inv_insert_row:
  assumes inv: "queue_inv db" and wf: "row_wf r" and pend: "pr_status r = Pending"
    and fresh: "\<forall>s \<in> set (prompt_requests db). pr_id s \<noteq> pr_id r"
    and key: "find (same_idempotency (pr_org r) (pr_idempotency_key r)) (prompt_requests db) = None"
  shows "queue_inv (db\<lparr>prompt_requests := prompt_requests db @ [r]\<rparr>)"
proof -
  have "row_seq_ok db r"
    using wf pend claim_key_wf [OF wf] by (auto simp: row_seq_ok_def row_wf_def)
  moreover have "pr_id r \<notin> pr_id ` set (prompt_requests db)" using fresh by auto
  moreover have "(pr_org r, pr_idempotency_key r) \<notin>
      (\<lambda>r. (pr_org r, pr_idempotency_key r)) ` set (prompt_requests db)"
    using key by (auto simp: find_None_mem same_idempotency_def)
  ultimately show ?thesis using inv wf by (auto simp: queue_inv_def)
qed

lemma queue_inv_dags:
  assumes "queue_inv db" and "\<And>k d. m k = Some d \<Longrightarrow> dag_wf d"
  shows "queue_inv (db\<lparr>dags := m\<rparr>)"
  using assms by (auto simp: queue_inv_def)

lemma seed_dag_inv:
  assumes inv: "queue_inv db" and seed: "seed_dag db now root org = Inr db'"
  shows "queue_inv db'"
proof -
  from seed obtain d where db': "db' = db\<lparr>dags := (dags db)(root \<mapsto> d)\<rparr>" and "dag_wf d"
    by (auto simp: seed_dag_def dag_wf_def split: option.splits)
  with inv show ?thesis
    unfolding db' by (intro queue_inv_dags) (auto split: if_splits intro: queue_inv_dagD)
qed

lemma enqueue_trigger_inv:
  assumes "queue_inv db"
  shows "queue_inv (snd (enqueue_trigger db now rid tp trig))"
proof -
  have row: "queue_inv (db\<lparr>prompt_requests := prompt_requests db @ [trigger_row now rid tp rcv trig]\<rparr>)"
    if "prompt_requests_admit db (nt_acting_user trig) (trigger_row now rid tp rcv trig) = None"
      and "find (same_idempotency (nt_org trig) (nt_idempotency_key trig)) (prompt_requests db) = None"
      and "\<not> (\<exists>r \<in> set (prompt_requests db). pr_id r = rid)" for rcv
    using queue_inv_insert_row [OF assms trigger_row_wf [OF that(1)]] that(2,3)
    by (auto simp: trigger_row_def)
  show ?thesis
    using assms row by (auto simp: enqueue_trigger_def Let_def split: sum.splits option.splits
        intro: seed_dag_inv)
qed

lemma finalise_turn_inv:
  assumes inv: "queue_inv db" and st: "(st = Done \<and> fr = None) \<or> (st = Failed \<and> fr \<noteq> None)"
  shows "queue_inv (finalise_turn db now rc st fr)"
  unfolding finalise_turn_def
proof (rule queue_inv_update_rows [OF inv row_frame_finalise])
  fix r assume "finalises rc r" "row_wf r"
  with st show "row_wf (r\<lparr>pr_status := st, pr_failure_reason := fr, pr_updated_at := now\<rparr>)"
    by (auto simp: row_wf_def finalises_def)
qed simp

lemma queue_inv_leases:
  assumes "queue_inv db"
    and "\<And>k l. m k = Some l \<Longrightarrow> 0 < cl_lease_seq l \<and> cl_lease_seq l \<le> seq_of db k"
  shows "queue_inv (db\<lparr>claim_leases := m\<rparr>)"
  using assms by (auto simp: queue_inv_def)

text \<open>Both lease statements write a map whose leases carry a fence of the old map.\<close>

lemma queue_inv_leases_sub:
  assumes inv: "queue_inv db"
    and sub: "\<And>k l. m k = Some l \<Longrightarrow> \<exists>l0. claim_leases db k = Some l0 \<and> cl_lease_seq l = cl_lease_seq l0"
  shows "queue_inv (db\<lparr>claim_leases := m\<rparr>)"
proof (rule queue_inv_leases [OF inv])
  fix k l assume "m k = Some l"
  then obtain l0 where "claim_leases db k = Some l0" "cl_lease_seq l = cl_lease_seq l0"
    using sub by blast
  with queue_inv_leaseD [OF inv] show "0 < cl_lease_seq l \<and> cl_lease_seq l \<le> seq_of db k" by simp
qed

lemma heartbeat_turn_inv: "queue_inv db \<Longrightarrow> queue_inv (heartbeat_turn db t now rc)"
  by (auto simp: heartbeat_turn_def split: option.splits if_splits intro!: queue_inv_leases_sub)

lemma release_turn_inv: "queue_inv db \<Longrightarrow> queue_inv (release_turn db rc)"
  by (auto simp: release_turn_def split: option.splits if_splits intro!: queue_inv_leases_sub)

lemma request_cancellation_inv:
  assumes inv: "queue_inv db"
  shows "queue_inv (snd (request_cancellation db now rid))"
proof -
  have "queue_inv (db\<lparr>prompt_requests := update_where (\<lambda>r. pr_id r = rid)
       (\<lambda>r. r\<lparr>pr_cancellation_requested := True, pr_updated_at := now\<rparr>) (prompt_requests db)\<rparr>)"
    by (rule queue_inv_update_rows [OF inv row_frame_cancel]) (auto simp: row_wf_def)
  with inv show ?thesis by (simp add: request_cancellation_def)
qed

lemma bump_or_fail_inv:
  assumes "queue_inv db"
  shows "queue_inv (snd (bump_or_fail_in_tx v db root))"
  using bump_or_fail_in_tx_frame [of v db root]
proof (elim disjE exE conjE)
  fix d
  assume d: "dags db root = Some d" "dag_turns_used d < dag_turns_cap d"
    and eq: "snd (bump_or_fail_in_tx v db root) = bump_dag db root d"
  have "dag_wf (d\<lparr>dag_turns_used := dag_turns_used d + 1\<rparr>)"
    using queue_inv_dagD [OF assms d(1)] d(2) by (simp add: dag_wf_def)
  with assms show ?thesis
    unfolding eq bump_dag_def
    by (intro queue_inv_dags) (auto split: if_splits intro: queue_inv_dagD)
qed (use assms in simp)

section \<open>The claim\<close>

lemma bump_claim_seqE:
  assumes "bump_claim_seq db k org = Inr (seq, db1)"
  obtains o' where "seq = Suc (seq_of db k)" and "db1 = db\<lparr>claim_seq := (claim_seq db)(k \<mapsto> (seq, o'))\<rparr>"
  using assms by (auto simp: bump_claim_seq_def seq_of_def split: option.splits if_splits)

text \<open>The database after a successful lease: fence bumped, lease written, batch drained.\<close>

definition claimed_db ::
    "queue_db \<Rightarrow> uuid \<Rightarrow> uuid \<Rightarrow> claim_lease \<Rightarrow> turn_seq \<Rightarrow> timestamp \<Rightarrow> queue_db" where
  "claimed_db db k o' l seq now =
     db\<lparr>claim_seq := (claim_seq db)(k \<mapsto> (seq, o')),
        claim_leases := (claim_leases db)(k \<mapsto> l),
        prompt_requests := update_where (drains db k) (drain_row seq now) (prompt_requests db)\<rparr>"

lemma drains_frames [simp]:
  "drains (db\<lparr>claim_seq := m\<rparr>) = drains db" "drains (db\<lparr>claim_leases := l\<rparr>) = drains db"
  by (simp_all add: drains_def receiver_row_def fun_eq_iff)

lemma drained_of_frames [simp]:
  "drained_of (db\<lparr>claim_seq := m\<rparr>) = drained_of db"
  "drained_of (db\<lparr>claim_leases := l\<rparr>) = drained_of db"
  by (simp_all add: drained_of_def receiver_row_def fun_eq_iff)

text \<open>
  The three ways a claim transaction can end: the fence counter overflows and nothing changes;
  the lease is live and only the fence moves; or the lease is taken and the batch is drained.
\<close>

lemma claim_turn_for_cases:
  obtains (overflow) e where "bump_claim_seq db k org = Inl e"
      and "claim_turn_for db t now w (k, org, user) = (Inl e, db)"
  | (busy) o' where "lease_live db now k"
      and "claim_turn_for db t now w (k, org, user)
        = (Inr None, db\<lparr>claim_seq := (claim_seq db)(k \<mapsto> (Suc (seq_of db k), o'))\<rparr>)"
  | (taken) o' l where "\<not> lease_live db now k" "cl_worker l = w"
      and "cl_lease_seq l = Suc (seq_of db k)" "cl_leased_until l = deadline t now"
      and "snd (claim_turn_for db t now w (k, org, user))
        = claimed_db db k o' l (Suc (seq_of db k)) now"
      and "fst (claim_turn_for db t now w (k, org, user)) =
        (case build_claimed_turn k org user w (Suc (seq_of db k))
                (map (drained_of db) (filter (drains db k) (prompt_requests db))) of
           None \<Rightarrow> Inr None | Some (Inl e) \<Rightarrow> Inl e | Some (Inr c) \<Rightarrow> Inr (Some c))"
proof (cases "bump_claim_seq db k org")
  case (Inl e)
  then show thesis using overflow by (simp add: claim_turn_for_def)
next
  case (Inr b)
  then obtain seq db1 where b: "bump_claim_seq db k org = Inr (seq, db1)" by (cases b) auto
  then obtain o' where seq: "seq = Suc (seq_of db k)"
    and db1: "db1 = db\<lparr>claim_seq := (claim_seq db)(k \<mapsto> (seq, o'))\<rparr>"
    by (rule bump_claim_seqE)
  show thesis
  proof (cases "lease_live db now k")
    case True
    then show thesis
      using busy b by (auto simp: claim_turn_for_def try_take_claim_lease_def db1 seq lease_live_def
          split: option.splits)
  next
    case False
    define l where "l = (case claim_leases db k of
      None \<Rightarrow> \<lparr>cl_org = org, cl_worker = w, cl_lease_seq = seq, cl_leased_until = deadline t now\<rparr>
    | Some l0 \<Rightarrow> l0\<lparr>cl_worker := w, cl_lease_seq := seq, cl_leased_until := deadline t now\<rparr>)"
    have take: "try_take_claim_lease db1 k org w seq (deadline t now) now
        = (True, db1\<lparr>claim_leases := (claim_leases db)(k \<mapsto> l)\<rparr>)"
      using False by (auto simp: try_take_claim_lease_def db1 l_def lease_live_def split: option.splits)
    define batch where "batch = map (drained_of db) (filter (drains db k) (prompt_requests db))"
    have drain: "drain_turn_pending (db1\<lparr>claim_leases := (claim_leases db)(k \<mapsto> l)\<rparr>) k seq now
        = (batch, claimed_db db k o' l seq now)"
      by (simp add: drain_turn_pending_def batch_def claimed_db_def db1)
    show thesis
    proof (rule taken [of l o'])
      show "\<not> lease_live db now k" by (rule False)
      show "cl_worker l = w" "cl_lease_seq l = Suc (seq_of db k)" "cl_leased_until l = deadline t now"
        by (simp_all add: l_def seq split: option.split)
      show "snd (claim_turn_for db t now w (k, org, user)) = claimed_db db k o' l (Suc (seq_of db k)) now"
        by (simp add: claim_turn_for_def b take drain flip: seq split: option.split sum.split)
      show "fst (claim_turn_for db t now w (k, org, user)) =
        (case build_claimed_turn k org user w (Suc (seq_of db k))
                (map (drained_of db) (filter (drains db k) (prompt_requests db))) of
           None \<Rightarrow> Inr None | Some (Inl e) \<Rightarrow> Inl e | Some (Inr c) \<Rightarrow> Inr (Some c))"
        by (simp add: claim_turn_for_def b take drain flip: seq batch_def split: option.split sum.split)
    qed
  qed
qed

lemma queue_inv_claim_seq:
  assumes inv: "queue_inv db" and "seq_of db k \<le> n"
  shows "queue_inv (db\<lparr>claim_seq := (claim_seq db)(k \<mapsto> (n, o'))\<rparr>)"
proof -
  have le: "seq_of db j \<le> seq_of (db\<lparr>claim_seq := (claim_seq db)(k \<mapsto> (n, o'))\<rparr>) j" for j
    using assms(2) by (simp add: seq_of_def)
  show ?thesis
    using inv unfolding queue_inv_def
    by (auto simp: row_seq_ok_def split: option.splits intro: le_trans [OF _ le])
qed

lemma claimed_db_inv:
  assumes inv: "queue_inv db" and l: "cl_lease_seq l = Suc (seq_of db k)"
  shows "queue_inv (claimed_db db k o' l (Suc (seq_of db k)) now)"
proof -
  let ?seq = "Suc (seq_of db k)"
  let ?db1 = "db\<lparr>claim_seq := (claim_seq db)(k \<mapsto> (?seq, o'))\<rparr>"
  let ?db2 = "?db1\<lparr>claim_leases := (claim_leases db)(k \<mapsto> l)\<rparr>"
  have inv1: "queue_inv ?db1" by (rule queue_inv_claim_seq [OF inv]) simp
  have seq1: "seq_of ?db1 k = ?seq" by (simp add: seq_of_def)
  have inv2: "queue_inv ?db2"
    using queue_inv_leaseD [OF inv1] l seq1 by (intro queue_inv_leases [OF inv1]) (auto split: if_splits)
  have "queue_inv (?db2\<lparr>prompt_requests :=
      update_where (drains db k) (drain_row ?seq now) (prompt_requests ?db2)\<rparr>)"
  proof (rule queue_inv_update_rows [OF inv2 row_frame_drain])
    show "row_wf (drain_row ?seq now r)" if "drains db k r" "row_wf r" for r
      using that by (auto simp: drains_def row_wf_def drain_row_def)
    show "pr_turn_seq (drain_row ?seq now r) \<le> seq_of ?db2 j"
      if "drains db k r" "claim_key r = Some j" for r j
      using that seq1 by (simp add: drains_def drain_row_def)
  qed
  then show ?thesis by (simp add: claimed_db_def)
qed

lemma claim_turn_for_inv: "queue_inv db \<Longrightarrow> queue_inv (snd (claim_turn_for db t now w (k, org, user)))"
  by (cases rule: claim_turn_for_cases [of db k org t now w user])
    (auto intro: queue_inv_claim_seq claimed_db_inv)

section \<open>The queue as a transition system\<close>

text \<open>
  One event per call of the trait. \<open>Claim\<close> carries the candidate the claiming worker read,
  possibly in an earlier state; receipts are arbitrary, so the results hold for stale and for
  forged ones.
\<close>

datatype queue_event =
    Enqueue timestamp uuid "string option" new_trigger
  | Claim timestamp uuid "uuid \<times> uuid \<times> uuid"
  | MarkDone timestamp turn_receipt
  | MarkFailed timestamp turn_receipt failure_reason
  | Heartbeat timestamp turn_receipt
  | Release turn_receipt
  | Cancel timestamp uuid
  | BumpDag uuid
  | BumpDagForUser uuid uuid

inductive queue_step :: "duration \<Rightarrow> queue_db \<Rightarrow> queue_event \<Rightarrow> queue_db \<Rightarrow> bool" for t where
  enqueue: "queue_step t db (Enqueue now rid tp trig) (snd (enqueue_trigger db now rid tp trig))"
| claim: "queue_step t db (Claim now w cand) (snd (claim_turn_for db t now w cand))"
| mark_done: "queue_step t db (MarkDone now rc) (mark_turn_done db now rc)"
| mark_failed: "queue_step t db (MarkFailed now rc fr) (mark_turn_failed db now rc fr)"
| heartbeat: "queue_step t db (Heartbeat now rc) (heartbeat_turn db t now rc)"
| release: "queue_step t db (Release rc) (release_turn db rc)"
| cancel: "queue_step t db (Cancel now rid) (snd (request_cancellation db now rid))"
| bump: "queue_step t db (BumpDag root) (snd (bump_or_fail db root))"
| bump_for_user: "queue_step t db (BumpDagForUser u root) (snd (bump_or_fail_for_user db u root))"

inductive_cases queue_step_ClaimE [elim]: "queue_step t db (Claim now w cand) db'"

lemmas op_invs = enqueue_trigger_inv heartbeat_turn_inv release_turn_inv request_cancellation_inv
  bump_or_fail_inv claim_turn_for_inv

lemma queue_step_inv: "queue_step t db e db' \<Longrightarrow> queue_inv db \<Longrightarrow> queue_inv db'"
proof (induction rule: queue_step.induct)
  case (claim db now w cand)
  then show ?case by (cases cand) (simp add: claim_turn_for_inv)
qed (simp_all add: op_invs mark_turn_done_def mark_turn_failed_def finalise_turn_inv
    bump_or_fail_def bump_or_fail_for_user_def)

section \<open>Forward only\<close>

definition status_le :: "request_status \<Rightarrow> request_status \<Rightarrow> bool" where
  "status_le s t \<longleftrightarrow> s = t \<or> s = Pending \<or> (s = Processing \<and> is_terminal t)"

definition row_le :: "prompt_row \<Rightarrow> prompt_row \<Rightarrow> bool" where
  "row_le r r' \<longleftrightarrow> pr_id r' = pr_id r \<and> pr_org r' = pr_org r
     \<and> pr_idempotency_key r' = pr_idempotency_key r \<and> claim_key r' = claim_key r
     \<and> status_le (pr_status r) (pr_status r')
     \<and> (pr_status r \<noteq> Pending \<longrightarrow> pr_turn_seq r' = pr_turn_seq r)
     \<and> (is_terminal (pr_status r) \<longrightarrow> pr_failure_reason r' = pr_failure_reason r)
     \<and> (pr_cancellation_requested r \<longrightarrow> pr_cancellation_requested r')"

definition db_le :: "queue_db \<Rightarrow> queue_db \<Rightarrow> bool" where
  "db_le db db' \<longleftrightarrow> (\<forall>r \<in> set (prompt_requests db). \<exists>r' \<in> set (prompt_requests db'). row_le r r')
     \<and> (\<forall>k. seq_of db k \<le> seq_of db' k)"

lemma status_le_refl [simp]: "status_le s s"
  by (simp add: status_le_def)

lemma status_le_trans: "status_le s t \<Longrightarrow> status_le t u \<Longrightarrow> status_le s u"
  by (auto simp: status_le_def is_terminal_iff)

lemma row_le_refl [simp]: "row_le r r"
  by (simp add: row_le_def)

lemma row_le_trans:
  assumes a: "row_le r s" and b: "row_le s t"
  shows "row_le r t"
proof -
  from a b have "status_le (pr_status r) (pr_status t)"
    unfolding row_le_def by (blast intro: status_le_trans)
  moreover from a have "pr_status r \<noteq> Pending \<Longrightarrow> pr_status s \<noteq> Pending"
    by (auto simp: row_le_def status_le_def is_terminal_iff)
  moreover from a have "is_terminal (pr_status r) \<Longrightarrow> is_terminal (pr_status s)"
    by (auto simp: row_le_def status_le_def is_terminal_iff)
  ultimately show ?thesis using a b by (simp add: row_le_def)
qed

lemma db_le_refl [simp]: "db_le db db"
  by (auto simp: db_le_def intro: row_le_refl)

lemma db_le_trans: "db_le db db' \<Longrightarrow> db_le db' db'' \<Longrightarrow> db_le db db''"
  unfolding db_le_def by (meson le_trans row_le_trans)

lemma db_le_update_rows:
  assumes "\<And>r. r \<in> set (prompt_requests db) \<Longrightarrow> p r \<Longrightarrow> row_le r (f r)"
  shows "db_le db (db\<lparr>prompt_requests := update_where p f (prompt_requests db)\<rparr>)"
proof -
  have "\<exists>r' \<in> set (update_where p f (prompt_requests db)). row_le r r'"
    if "r \<in> set (prompt_requests db)" for r
    using assms [OF that] that
    by (intro bexI [of _ "if p r then f r else r"]) (auto simp: set_update_where)
  then show ?thesis by (simp add: db_le_def)
qed

lemma db_le_same_rows:
  "prompt_requests db' = prompt_requests db \<Longrightarrow> (\<And>k. seq_of db k \<le> seq_of db' k) \<Longrightarrow> db_le db db'"
  by (auto simp: db_le_def intro: row_le_refl)

lemma enqueue_trigger_le: "db_le db (snd (enqueue_trigger db now rid tp trig))"
proof -
  have "db_le db (db\<lparr>prompt_requests := prompt_requests db @ [r]\<rparr>)" for r
    by (auto simp: db_le_def intro: row_le_refl)
  moreover have "db_le db db''"
    if "seed_dag (db\<lparr>prompt_requests := prompt_requests db @ [r]\<rparr>) now rid org = Inr db''" for r org db''
    using that by (auto simp: seed_dag_def db_le_def split: option.splits intro: row_le_refl)
  ultimately show ?thesis
    by (auto simp: enqueue_trigger_def Let_def split: sum.splits option.splits)
qed

lemma finalise_turn_le: "is_terminal st \<Longrightarrow> db_le db (finalise_turn db now rc st fr)"
  unfolding finalise_turn_def
  by (rule db_le_update_rows) (auto simp: finalises_def row_le_def status_le_def claim_key_def
      split: option.split)

lemma request_cancellation_le: "db_le db (snd (request_cancellation db now rid))"
  by (auto simp: request_cancellation_def row_le_def claim_key_def split: option.split
      intro!: db_le_update_rows)

lemma heartbeat_turn_le: "db_le db (heartbeat_turn db t now rc)"
  by (auto simp: heartbeat_turn_def split: option.split intro: db_le_same_rows)

lemma release_turn_le: "db_le db (release_turn db rc)"
  by (auto simp: release_turn_def split: option.split intro: db_le_same_rows)

lemma bump_or_fail_le: "db_le db (snd (bump_or_fail_in_tx v db root))"
  using bump_or_fail_in_tx_frame [of v db root]
  by (auto simp: bump_dag_def intro: db_le_same_rows)

lemma claimed_db_le: "db_le db (claimed_db db k o' l (Suc (seq_of db k)) now)"
proof -
  have "row_le r (drain_row (Suc (seq_of db k)) now r)" if "drains db k r" for r
    using that by (auto simp: drains_def row_le_def drain_row_def status_le_def claim_key_def
        split: option.split)
  then have "db_le db (db\<lparr>prompt_requests :=
      update_where (drains db k) (drain_row (Suc (seq_of db k)) now) (prompt_requests db)\<rparr>)"
    by (intro db_le_update_rows)
  then show ?thesis
    by (auto simp: db_le_def claimed_db_def seq_of_def)
qed

lemma bumped_seq_le: "db_le db (db\<lparr>claim_seq := (claim_seq db)(k \<mapsto> (Suc (seq_of db k), o'))\<rparr>)"
  by (rule db_le_same_rows) (simp_all add: seq_of_def)

lemma claim_turn_for_le: "db_le db (snd (claim_turn_for db t now w (k, org, user)))"
  by (cases rule: claim_turn_for_cases [of db k org t now w user])
    (simp_all add: claimed_db_le bumped_seq_le)

lemma queue_step_le: "queue_step t db e db' \<Longrightarrow> db_le db db'"
proof (induction rule: queue_step.induct)
  case (claim db now w cand)
  then show ?case by (cases cand) (simp add: claim_turn_for_le)
qed (simp_all add: enqueue_trigger_le finalise_turn_le request_cancellation_le heartbeat_turn_le
    release_turn_le bump_or_fail_le mark_turn_done_def mark_turn_failed_def bump_or_fail_def
    bump_or_fail_for_user_def)

interpretation pq: monotone_system queue_init "queue_step t" queue_inv db_le for t
  by unfold_locales
    (blast intro: queue_init_inv queue_step_inv db_le_refl db_le_trans queue_step_le)+

section \<open>Lookups by id\<close>

definition row_of :: "queue_db \<Rightarrow> uuid \<Rightarrow> prompt_row option" where
  "row_of db i = find (\<lambda>r. pr_id r = i) (prompt_requests db)"

lemma row_of_Some: "row_of db i = Some r \<Longrightarrow> r \<in> set (prompt_requests db) \<and> pr_id r = i"
  unfolding row_of_def by (rule find_Some_mem)

lemma row_of_mem: "queue_inv db \<Longrightarrow> r \<in> set (prompt_requests db) \<Longrightarrow> row_of db (pr_id r) = Some r"
  unfolding row_of_def by (rule find_key_unique) (simp_all add: queue_inv_def)

lemma row_of_update:
  assumes "row_frame f"
  shows "row_of (db\<lparr>prompt_requests := update_where p f (prompt_requests db)\<rparr>) i
    = map_option (\<lambda>r. if p r then f r else r) (row_of db i)"
  using assms unfolding row_of_def by (simp add: find_update_where row_frame_def)

lemma row_of_frames [simp]:
  "row_of (db\<lparr>claim_leases := m\<rparr>) i = row_of db i"
  "row_of (db\<lparr>claim_seq := n\<rparr>) i = row_of db i"
  "row_of (db\<lparr>dags := d\<rparr>) i = row_of db i"
  by (simp_all add: row_of_def)

lemma row_of_le:
  assumes "db_le db db'" and "queue_inv db'" and "row_of db i = Some r"
  obtains r' where "row_of db' i = Some r'" and "row_le r r'"
proof -
  from assms(3) have "r \<in> set (prompt_requests db)" "pr_id r = i" by (auto dest: row_of_Some)
  with assms(1) obtain r' where "r' \<in> set (prompt_requests db')" "row_le r r'"
    by (auto simp: db_le_def)
  with assms(2) \<open>pr_id r = i\<close> show thesis
    using that row_of_mem [OF assms(2), of r'] by (simp add: row_le_def)
qed

section \<open>The contract the worker relies on\<close>

text \<open>
  \<open>turn_queue\<close> is the part of the trait a worker calls after a claim: it can look a trigger up,
  flip the batch to a terminal status, renew and release the lease. The laws say exactly which
  rows and which lease a receipt may touch.
\<close>

locale turn_queue =
  fixes row :: "'q \<Rightarrow> uuid \<Rightarrow> prompt_row option"
    and lease :: "'q \<Rightarrow> uuid \<Rightarrow> claim_lease option"
    and finalise :: "'q \<Rightarrow> timestamp \<Rightarrow> turn_receipt \<Rightarrow> request_status \<Rightarrow> failure_reason option \<Rightarrow> 'q"
    and renew :: "'q \<Rightarrow> timestamp \<Rightarrow> turn_receipt \<Rightarrow> 'q"
    and release :: "'q \<Rightarrow> turn_receipt \<Rightarrow> 'q"
  assumes row_finalise: "row (finalise q now rc st fr) i = map_option (\<lambda>r. if finalises rc r
      then r\<lparr>pr_status := st, pr_failure_reason := fr, pr_updated_at := now\<rparr> else r) (row q i)"
    and lease_finalise: "lease (finalise q now rc st fr) = lease q"
    and row_renew: "row (renew q now rc) = row q"
    and row_release: "row (release q rc) = row q"
    and lease_renew: "cl_lease_seq l \<noteq> tr_lease_seq rc \<Longrightarrow> lease q k = Some l \<Longrightarrow>
      lease (renew q now rc) k = Some l"
    and lease_release: "lease (release q rc) k = (case lease q k of None \<Rightarrow> None | Some l \<Rightarrow>
      if k = tr_claim_key rc \<and> cl_lease_seq l = tr_lease_seq rc then None else Some l)"
begin

lemma stale_finalise:
  "row q i = Some r \<Longrightarrow> pr_turn_seq r \<noteq> tr_lease_seq rc \<Longrightarrow> row (finalise q now rc st fr) i = Some r"
  by (simp add: row_finalise finalises_def)

lemma first_outcome_wins:
  "is_terminal st \<Longrightarrow>
   row (finalise (finalise q now rc st fr) now' rc st' fr') i = row (finalise q now rc st fr) i"
  by (cases "row q i") (auto simp: row_finalise finalises_def)

lemma finalise_held:
  assumes "row q i = Some r" and "i \<in> set (tr_trigger_ids rc)" and "pr_id r = i"
    and "pr_turn_seq r = tr_lease_seq rc" and "pr_status r = Processing"
  shows "map_option pr_status (row (finalise q now rc st fr) i) = Some st"
  using assms by (simp add: row_finalise finalises_def)

lemma release_frees:
  "lease q (tr_claim_key rc) = Some l \<Longrightarrow> cl_lease_seq l = tr_lease_seq rc \<Longrightarrow>
   lease (release q rc) (tr_claim_key rc) = None"
  by (simp add: lease_release)

lemma stale_release:
  "lease q k = Some l \<Longrightarrow> cl_lease_seq l \<noteq> tr_lease_seq rc \<Longrightarrow> lease (release q rc) k = Some l"
  by (simp add: lease_release)

end

interpretation tq: turn_queue row_of claim_leases finalise_turn
  "\<lambda>db now rc. heartbeat_turn db t now rc" release_turn for t
proof unfold_locales
  show "row_of (finalise_turn db now rc st fr) i = map_option (\<lambda>r. if finalises rc r
      then r\<lparr>pr_status := st, pr_failure_reason := fr, pr_updated_at := now\<rparr> else r) (row_of db i)"
    for db now rc st fr i
    unfolding finalise_turn_def by (rule row_of_update [OF row_frame_finalise])
qed (auto simp: finalise_turn_def heartbeat_turn_def release_turn_def row_of_def fun_eq_iff
    split: option.splits)

section \<open>What a successful claim returns\<close>

lemma batch_mismatch_None:
  "batch_mismatch a kd ds = None \<longleftrightarrow> (\<forall>d \<in> set ds. dt_agent d = Some a \<and> dt_kind d = kd)"
  by (induction ds) auto

lemma build_claimed_turn_Inr:
  assumes "build_claimed_turn k org user w seq ds = Some (Inr c)"
  shows "ct_claim_key c = k" "ct_lease_seq c = seq" "ct_worker c = w"
    "ct_trigger_ids c = map dt_id ds" "ds \<noteq> []"
    "\<forall>d \<in> set ds. dt_agent d = Some (ct_receiver_agent c) \<and> dt_kind d = ct_kind c"
  using assms by (cases ds; auto simp: batch_mismatch_None split: option.splits)+

lemma claim_successE:
  assumes "claim_turn_for db t now w (k, org, user) = (Inr (Some c), db')"
  obtains o' l where "\<not> lease_live db now k" "cl_worker l = w" "cl_lease_seq l = ct_lease_seq c"
    "cl_leased_until l = deadline t now" "ct_lease_seq c = Suc (seq_of db k)" "ct_claim_key c = k"
    "db' = claimed_db db k o' l (ct_lease_seq c) now"
    "ct_trigger_ids c = map pr_id (filter (drains db k) (prompt_requests db))"
    "filter (drains db k) (prompt_requests db) \<noteq> []"
proof (cases rule: claim_turn_for_cases [of db k org t now w user])
  case (taken o' l)
  let ?ds = "map (drained_of db) (filter (drains db k) (prompt_requests db))"
  have "build_claimed_turn k org user w (Suc (seq_of db k)) ?ds = Some (Inr c)"
    using assms taken(6) by (auto split: option.splits sum.splits)
  note c = build_claimed_turn_Inr [OF this]
  have ids: "map dt_id ?ds = map pr_id (filter (drains db k) (prompt_requests db))"
    by (simp add: drained_of_def comp_def)
  from assms taken(5) have "db' = claimed_db db k o' l (Suc (seq_of db k)) now" by simp
  with c ids taken show thesis by (intro that [of l o']) simp_all
qed (use assms in simp_all)

lemma claimed_db_row:
  "row_of (claimed_db db k o' l seq now) i
     = map_option (\<lambda>r. if drains db k r then drain_row seq now r else r) (row_of db i)"
proof -
  have "row_of (claimed_db db k o' l seq now) i =
      row_of (db\<lparr>prompt_requests := update_where (drains db k) (drain_row seq now) (prompt_requests db)\<rparr>) i"
    by (simp add: claimed_db_def row_of_def)
  then show ?thesis by (simp add: row_of_update row_frame_drain)
qed

text \<open>The rows a claim hands out carry the claim's fence, in the state it leaves behind.\<close>

lemma claimed_rows:
  assumes inv: "queue_inv db" and c: "claim_turn_for db t now w (k, org, user) = (Inr (Some c), db')"
    and i: "i \<in> set (ct_trigger_ids c)"
  obtains r where "row_of db' i = Some r" "pr_status r = Processing" "pr_turn_seq r = ct_lease_seq c"
proof -
  from c obtain o' l where db': "db' = claimed_db db k o' l (ct_lease_seq c) now"
    and ids: "ct_trigger_ids c = map pr_id (filter (drains db k) (prompt_requests db))"
    by (rule claim_successE)
  from i ids obtain r where r: "r \<in> set (prompt_requests db)" "drains db k r" "pr_id r = i" by auto
  then have "row_of db' i = Some (drain_row (ct_lease_seq c) now r)"
    using row_of_mem [OF inv r(1)] by (simp add: db' claimed_db_row)
  then show thesis by (rule that) (simp_all add: drain_row_def)
qed

end
