(* ===== verification/Queue_Properties.thy ===== *)
theory Queue_Properties
  imports Prompt_Queue_Laws
begin

text \<open>
  The properties of the durable queue and of the DAG budget, each with an instance on a small
  database: one org, one user, one agent, triggers for one thread state.
\<close>

section \<open>A small database\<close>

definition sample_db :: queue_db where
  "sample_db = \<lparr>prompt_requests = [], claim_leases = Map.empty, claim_seq = Map.empty,
     dags = Map.empty,
     colleagues = [\<lparr>co_id = 30, co_org = 1, co_agent = Some 20\<rparr>,
                   \<lparr>co_id = 31, co_org = 1, co_agent = None\<rparr>],
     state_org = [40 \<mapsto> 1], background_org = Map.empty, org_members = [(10, 1)]\<rparr>"

definition sample_trigger :: new_trigger where
  "sample_trigger = \<lparr>nt_org = 1, nt_acting_user = 10, nt_thread = Some 50, nt_state_id = Some 40,
     nt_background_turn_id = None, nt_sender = 31, nt_receiver_agent = 20, nt_root = None,
     nt_trigger_message = None, nt_idempotency_key = ''k1'', nt_payload = PNormal\<rparr>"

definition sample_trigger2 :: new_trigger where
  "sample_trigger2 = sample_trigger\<lparr>nt_idempotency_key := ''k2''\<rparr>"

definition sample_db1 :: queue_db where
  "sample_db1 = snd (enqueue_trigger sample_db 100 60 None sample_trigger)"

definition sample_db2 :: queue_db where
  "sample_db2 = snd (claim_turn_for sample_db1 LEASE_TTL 200 70 (40, 1, 10))"

lemmas sample_defs = sample_db_def sample_trigger_def sample_trigger2_def sample_db1_def sample_db2_def
lemmas enqueue_defs = enqueue_trigger_def resolve_agent_colleague_def app_user_is_member_def
  prompt_requests_admit_def claim_parent_org_def trigger_row_def same_idempotency_def seed_dag_def
  Let_def
lemmas claim_defs = claim_turn_for_def bump_claim_seq_def try_take_claim_lease_def
  drain_turn_pending_def drains_def drained_of_def drain_row_def receiver_row_def claim_key_def
  deadline_def i64_max_def

lemma sample_init: "queue_init sample_db"
  by (simp add: queue_init_def sample_db_def)

lemma sample_reach: "reach queue_init (queue_step LEASE_TTL) sample_db"
  by (rule reach.reach_init) (rule sample_init)

lemma sample_step1: "queue_step LEASE_TTL sample_db (Enqueue 100 60 None sample_trigger) sample_db1"
  unfolding sample_db1_def by (rule queue_step.enqueue)

lemma sample_step2: "queue_step LEASE_TTL sample_db1 (Claim 200 70 (40, 1, 10)) sample_db2"
  unfolding sample_db2_def by (rule queue_step.claim)

lemma sample_reach1: "reach queue_init (queue_step LEASE_TTL) sample_db1"
  by (rule reach.reach_step [OF sample_reach sample_step1])

lemma sample_reach2: "reach queue_init (queue_step LEASE_TTL) sample_db2"
  by (rule reach.reach_step [OF sample_reach1 sample_step2])

lemma sample_enqueue: "enqueue_trigger sample_db 100 60 None sample_trigger = (Inr 60, sample_db1)"
  by (simp add: sample_defs enqueue_defs)

lemma sample_db1_rows: "map pr_status (prompt_requests sample_db1) = [Pending]"
  "map pr_id (prompt_requests sample_db1) = [60]"
  by (simp_all add: sample_defs enqueue_defs)

lemma sample_claim: "\<exists>c. claim_turn_for sample_db1 LEASE_TTL 200 70 (40, 1, 10) = (Inr (Some c), sample_db2)
    \<and> ct_trigger_ids c = [60] \<and> ct_lease_seq c = 1 \<and> ct_claim_key c = 40"
  by (simp add: sample_defs enqueue_defs claim_defs)

section \<open>Table invariant\<close>

text \<open>
  C1. In every state the queue can reach, ids and \<open>(org, idempotency_key)\<close> pairs are unique,
  every row has exactly one of the two claim-key columns and a kind that matches its payload, a
  row is pending exactly while its fence is 0, a failure reason is present exactly on failed
  rows, and no row or lease carries a fence above the key's counter.
\<close>

theorem queue_reachable_inv:
  assumes "reach queue_init (queue_step t) db"
  shows "queue_inv db"
  using assms by (rule pq.reach_inv)

theorem queue_reachable_inv_witness:
  "queue_inv sample_db2 \<and> map pr_status (prompt_requests sample_db2) = [Processing]"
  using queue_reachable_inv [OF sample_reach2]
  by (simp add: sample_defs enqueue_defs claim_defs)

section \<open>Life cycle\<close>

text \<open>
  A trigger only moves forward, \<open>Pending\<close> to \<open>Processing\<close> to \<open>Done\<close> or \<open>Failed\<close>: along any
  run the row is still there under its id, its status has not moved back, a finished row keeps
  its status and failure reason, and a cancellation request is never lost.
\<close>

theorem trigger_moves_forward:
  assumes "reach queue_init (queue_step t) db" and "steps (queue_step t) db es db'"
    and "row_of db i = Some r"
  shows "\<exists>r'. row_of db' i = Some r' \<and> status_le (pr_status r) (pr_status r')
    \<and> (is_terminal (pr_status r) \<longrightarrow> pr_status r' = pr_status r \<and> pr_failure_reason r' = pr_failure_reason r)
    \<and> (pr_cancellation_requested r \<longrightarrow> pr_cancellation_requested r')"
proof -
  from assms(1) have inv: "queue_inv db" by (rule pq.reach_inv)
  from assms(2) inv have "db_le db db'" by (rule pq.steps_le)
  moreover from assms(2) inv have "queue_inv db'" by (rule pq.steps_inv)
  ultimately obtain r' where "row_of db' i = Some r'" "row_le r r'"
    using assms(3) by (rule row_of_le)
  then show ?thesis by (auto simp: row_le_def status_le_def is_terminal_iff)
qed

theorem trigger_moves_forward_witness:
  "\<exists>r'. row_of sample_db2 60 = Some r' \<and> status_le Pending (pr_status r')"
proof -
  have "steps (queue_step LEASE_TTL) sample_db1 [Claim 200 70 (40, 1, 10)] sample_db2"
    using sample_step2 by (blast intro: steps.intros)
  moreover obtain r where "row_of sample_db1 60 = Some r" "pr_status r = Pending"
    by (simp add: row_of_def sample_defs enqueue_defs)
  ultimately show ?thesis
    using trigger_moves_forward [OF sample_reach1] by fastforce
qed

section \<open>Exclusion and fencing\<close>

text \<open>Keys whose lease, if any, is newer than a given fence; every step keeps this.\<close>

definition lease_newer :: "turn_seq \<Rightarrow> uuid \<Rightarrow> queue_db \<Rightarrow> bool" where
  "lease_newer n k db \<longleftrightarrow> n \<le> seq_of db k \<and> (\<forall>l. claim_leases db k = Some l \<longrightarrow> n < cl_lease_seq l)"

lemma lease_newer_same:
  "claim_leases db' = claim_leases db \<Longrightarrow> db_le db db' \<Longrightarrow> lease_newer n k db \<Longrightarrow> lease_newer n k db'"
  by (auto simp: lease_newer_def db_le_def intro: le_trans)

lemma claim_leases_enqueue: "claim_leases (snd (enqueue_trigger db now rid tp trig)) = claim_leases db"
  by (auto simp: enqueue_trigger_def Let_def seed_dag_def split: sum.splits option.splits)

lemma claim_leases_bump: "claim_leases (snd (bump_or_fail_in_tx v db root)) = claim_leases db"
  using bump_or_fail_in_tx_frame [of v db root] by (auto simp: bump_dag_def)

lemma claim_leases_cancel: "claim_leases (snd (request_cancellation db now rid)) = claim_leases db"
  by (simp add: request_cancellation_def)

lemma claim_leases_claim:
  assumes "claim_leases (snd (claim_turn_for db t now w (j, org, user))) k = Some l"
  shows "claim_leases db k = Some l \<or> cl_lease_seq l = Suc (seq_of db k)"
  using assms
  by (cases rule: claim_turn_for_cases [of db j org t now w user])
    (auto simp: claimed_db_def split: if_splits)

lemma lease_newer_claim:
  assumes "lease_newer n k db"
  shows "lease_newer n k (snd (claim_turn_for db t now w (j, org, user)))"
proof -
  have "seq_of db k \<le> seq_of (snd (claim_turn_for db t now w (j, org, user))) k"
    using claim_turn_for_le by (auto simp: db_le_def)
  with assms show ?thesis
    by (auto simp: lease_newer_def dest: claim_leases_claim)
qed

lemma lease_newer_step: "queue_step t db e db' \<Longrightarrow> lease_newer n k db \<Longrightarrow> lease_newer n k db'"
proof (induction rule: queue_step.induct)
  case (claim db now w cand)
  then show ?case by (cases cand) (simp add: lease_newer_claim)
next
  case (heartbeat db now rc)
  then show ?case by (auto simp: lease_newer_def heartbeat_turn_def split: option.splits)
next
  case (release db rc)
  then show ?case by (auto simp: lease_newer_def release_turn_def split: option.splits)
next
  case (enqueue db now rid tp trig)
  then show ?case using claim_leases_enqueue enqueue_trigger_le by (rule lease_newer_same [rotated 2])
next
  case (cancel db now rid)
  then show ?case using claim_leases_cancel request_cancellation_le by (rule lease_newer_same [rotated 2])
next
  case (bump db root)
  then show ?case unfolding bump_or_fail_def
    using claim_leases_bump bump_or_fail_le by (rule lease_newer_same [rotated 2])
next
  case (bump_for_user db u root)
  then show ?case unfolding bump_or_fail_for_user_def
    using claim_leases_bump bump_or_fail_le by (rule lease_newer_same [rotated 2])
qed (simp_all add: lease_newer_def mark_turn_done_def mark_turn_failed_def finalise_turn_def)

interpretation fence: transition_system "lease_newer n k" "queue_step t" "lease_newer n k" for n k t
  by unfold_locales (blast intro: lease_newer_step)+

text \<open>
  C2. The fence. A worker claims a key; later another worker claims it (the first one's lease
  ran out). From then on, whatever else happens, the first worker's receipt can neither finish
  a trigger of the second turn nor drop or renew the second worker's lease.
\<close>

theorem stale_worker_is_fenced:
  assumes reach: "reach queue_init (queue_step t) db"
    and c1: "claim_turn_for db t now1 w1 (k, org1, u1) = (Inr (Some c1), db1)"
    and run1: "steps (queue_step t) db1 es1 db2"
    and c2: "claim_turn_for db2 t now2 w2 (k, org2, u2) = (Inr (Some c2), db3)"
    and run2: "steps (queue_step t) db3 es2 db4"
    and i: "i \<in> set (ct_trigger_ids c2)"
  shows "ct_lease_seq c1 < ct_lease_seq c2
    \<and> row_of (finalise_turn db4 now3 (receipt c1) st fr) i = row_of db4 i
    \<and> claim_leases (release_turn db4 (receipt c1)) k = claim_leases db4 k
    \<and> claim_leases (heartbeat_turn db4 t now3 (receipt c1)) k = claim_leases db4 k"
proof -
  have inv: "queue_inv db" using reach by (rule pq.reach_inv)
  have inv1: "queue_inv db1" using claim_turn_for_inv [OF inv, of t now1 w1 k org1 u1] c1 by simp
  have inv2: "queue_inv db2" using run1 inv1 by (rule pq.steps_inv)
  have inv3: "queue_inv db3" using claim_turn_for_inv [OF inv2, of t now2 w2 k org2 u2] c2 by simp
  have inv4: "queue_inv db4" using run2 inv3 by (rule pq.steps_inv)
  from c1 obtain o1 l1 where s1: "ct_lease_seq c1 = Suc (seq_of db k)" and k1: "ct_claim_key c1 = k"
    and db1: "db1 = claimed_db db k o1 l1 (ct_lease_seq c1) now1"
    by (rule claim_successE)
  from c2 obtain o2 l2 where s2: "ct_lease_seq c2 = Suc (seq_of db2 k)"
    and l2: "cl_lease_seq l2 = ct_lease_seq c2" and db3: "db3 = claimed_db db2 k o2 l2 (ct_lease_seq c2) now2"
    by (rule claim_successE)
  have "seq_of db1 k = ct_lease_seq c1" by (simp add: db1 claimed_db_def seq_of_def)
  moreover have "seq_of db1 k \<le> seq_of db2 k"
    using pq.steps_le [OF run1 inv1] by (simp add: db_le_def)
  ultimately have less: "ct_lease_seq c1 < ct_lease_seq c2" using s2 by simp
  obtain r3 where "row_of db3 i = Some r3" "pr_status r3 = Processing" "pr_turn_seq r3 = ct_lease_seq c2"
    using claimed_rows [OF inv2 c2 i] .
  moreover obtain r4 where "row_of db4 i = Some r4" "row_le r3 r4"
    using row_of_le [OF pq.steps_le [OF run2 inv3] inv4 \<open>row_of db3 i = Some r3\<close>] .
  ultimately have "row_of db4 i = Some r4" "pr_turn_seq r4 \<noteq> tr_lease_seq (receipt c1)"
    using less by (auto simp: row_le_def receipt_def)
  then have rows: "row_of (finalise_turn db4 now3 (receipt c1) st fr) i = row_of db4 i"
    by (simp add: tq.stale_finalise)
  have "lease_newer (ct_lease_seq c1) k db3"
    using less l2 by (simp add: lease_newer_def db3 claimed_db_def seq_of_def)
  then have "lease_newer (ct_lease_seq c1) k db4" using run2 by (rule fence.steps_inv [rotated])
  then have old: "claim_leases db4 k = Some l \<Longrightarrow> cl_lease_seq l \<noteq> tr_lease_seq (receipt c1)" for l
    by (auto simp: lease_newer_def receipt_def)
  have "claim_leases (release_turn db4 (receipt c1)) k = claim_leases db4 k"
    using old k1 by (auto simp: release_turn_def receipt_def split: option.splits)
  moreover have "claim_leases (heartbeat_turn db4 t now3 (receipt c1)) k = claim_leases db4 k"
    using old k1 by (auto simp: heartbeat_turn_def receipt_def split: option.splits)
  ultimately show ?thesis using less rows by simp
qed

text \<open>
  The instance: worker 70 claims at time 200 and stalls; a second trigger arrives; the lease
  (30 s) has run out when worker 71 claims the key at time 40000000.
\<close>

definition sample_db3 :: queue_db where
  "sample_db3 = snd (enqueue_trigger sample_db2 300 61 None sample_trigger2)"

definition sample_db4 :: queue_db where
  "sample_db4 = snd (claim_turn_for sample_db3 LEASE_TTL 40000000 71 (40, 1, 10))"

lemma sample_run23: "steps (queue_step LEASE_TTL) sample_db2 [Enqueue 300 61 None sample_trigger2] sample_db3"
  unfolding sample_db3_def by (blast intro: steps.intros queue_step.intros)

lemma sample_claim2:
  "\<exists>c. claim_turn_for sample_db3 LEASE_TTL 40000000 71 (40, 1, 10) = (Inr (Some c), sample_db4)
    \<and> ct_trigger_ids c = [61] \<and> ct_lease_seq c = 2 \<and> ct_claim_key c = 40"
  by (simp add: sample_defs sample_db3_def sample_db4_def enqueue_defs claim_defs LEASE_TTL_def)

theorem stale_worker_is_fenced_witness:
  "\<exists>rc. tr_lease_seq rc = 1 \<and> tr_trigger_ids rc = [60]
    \<and> row_of (finalise_turn sample_db4 50000000 rc Done None) 61 = row_of sample_db4 61
    \<and> claim_leases (release_turn sample_db4 rc) 40 = claim_leases sample_db4 40"
proof -
  obtain c1 where c1: "claim_turn_for sample_db1 LEASE_TTL 200 70 (40, 1, 10) = (Inr (Some c1), sample_db2)"
    "ct_trigger_ids c1 = [60]" "ct_lease_seq c1 = 1"
    using sample_claim by blast
  obtain c2 where c2: "claim_turn_for sample_db3 LEASE_TTL 40000000 71 (40, 1, 10) = (Inr (Some c2), sample_db4)"
    "61 \<in> set (ct_trigger_ids c2)"
    using sample_claim2 by auto
  have "tr_lease_seq (receipt c1) = 1" "tr_trigger_ids (receipt c1) = [60]"
    using c1 by (simp_all add: receipt_def)
  then show ?thesis
    using stale_worker_is_fenced [OF sample_reach1 c1(1) sample_run23 c2(1) steps.steps_nil c2(2)] by blast
qed

section \<open>One live turn per key\<close>

text \<open>A lease written at \<open>n\<close> that is still live until \<open>d\<close>.\<close>

definition held :: "uuid \<Rightarrow> turn_seq \<Rightarrow> timestamp \<Rightarrow> queue_db \<Rightarrow> bool" where
  "held k n d db \<longleftrightarrow> (\<exists>l. claim_leases db k = Some l \<and> cl_lease_seq l = n \<and> d \<le> cl_leased_until l)"

text \<open>
  The runs in which the holder's lease cannot end early: nobody claims after \<open>d\<close>, the holder
  does not release, and heartbeats are not older than the claim.
\<close>

fun keeps_lease :: "uuid \<Rightarrow> turn_seq \<Rightarrow> duration \<Rightarrow> timestamp \<Rightarrow> queue_event \<Rightarrow> bool" where
  "keeps_lease k n t d (Claim now w cand) = (now < d)"
| "keeps_lease k n t d (Release rc) = (\<not> (tr_claim_key rc = k \<and> tr_lease_seq rc = n))"
| "keeps_lease k n t d (Heartbeat now rc) = (d \<le> deadline t now)"
| "keeps_lease k n t d _ = True"

lemma held_live: "held k n d db \<Longrightarrow> now < d \<Longrightarrow> lease_live db now k"
  by (auto simp: held_def lease_live_def)

lemma held_claim:
  assumes "held k n d db" and "now < d"
  shows "held k n d (snd (claim_turn_for db t now w (j, org, user)))"
proof (cases "j = k")
  case True
  then show ?thesis using assms held_live [OF assms]
    by (cases rule: claim_turn_for_cases [of db j org t now w user]) (auto simp: held_def)
next
  case False
  then show ?thesis using assms
    by (cases rule: claim_turn_for_cases [of db j org t now w user]) (auto simp: held_def claimed_db_def)
qed

lemma held_step: "queue_step t db e db' \<Longrightarrow> keeps_lease k n t d e \<Longrightarrow> held k n d db \<Longrightarrow> held k n d db'"
proof (induction rule: queue_step.induct)
  case (claim db now w cand)
  then show ?case by (cases cand) (simp add: held_claim)
qed (auto simp: held_def heartbeat_turn_def release_turn_def mark_turn_done_def mark_turn_failed_def
    finalise_turn_def claim_leases_enqueue claim_leases_cancel claim_leases_bump bump_or_fail_def
    bump_or_fail_for_user_def split: option.splits)

lemma held_steps:
  "steps (queue_step t) db es db' \<Longrightarrow> \<forall>e \<in> set es. keeps_lease k n t d e \<Longrightarrow> held k n d db \<Longrightarrow>
   held k n d db'"
  by (induction rule: steps.induct) (auto intro: held_step)

text \<open>
  C3. While a claimed turn's lease lasts, nobody else gets the key. After a successful claim at
  \<open>now1\<close>, along any run before \<open>now1 + ttl\<close> in which the holder does not release, every claim
  attempt on the key comes back empty-handed and leaves all rows and leases as they are.
\<close>

theorem lease_is_exclusive:
  assumes c1: "claim_turn_for db t now1 w1 (k, org1, u1) = (Inr (Some c1), db1)"
    and run: "steps (queue_step t) db1 es db2"
    and keep: "\<forall>e \<in> set es. keeps_lease k (ct_lease_seq c1) t (deadline t now1) e"
    and now2: "now2 < deadline t now1"
  shows "fst (claim_turn_for db2 t now2 w2 (k, org2, u2)) \<in> {Inr None, Inl (Db NumericOutOfRange)}
    \<and> prompt_requests (snd (claim_turn_for db2 t now2 w2 (k, org2, u2))) = prompt_requests db2
    \<and> claim_leases (snd (claim_turn_for db2 t now2 w2 (k, org2, u2))) = claim_leases db2"
proof -
  from c1 obtain o1 l1 where "cl_lease_seq l1 = ct_lease_seq c1" "cl_leased_until l1 = deadline t now1"
    "db1 = claimed_db db k o1 l1 (ct_lease_seq c1) now1"
    by (rule claim_successE)
  then have "held k (ct_lease_seq c1) (deadline t now1) db1" by (simp add: held_def claimed_db_def)
  with run keep have "held k (ct_lease_seq c1) (deadline t now1) db2" by (rule held_steps)
  then have "lease_live db2 now2 k" using now2 by (rule held_live)
  then show ?thesis
    by (cases rule: claim_turn_for_cases [of db2 k org2 t now2 w2 u2])
      (auto simp: bump_claim_seq_def split: option.splits if_splits)
qed

theorem lease_is_exclusive_witness:
  "fst (claim_turn_for sample_db3 LEASE_TTL 29000000 71 (40, 1, 10)) \<in> {Inr None, Inl (Db NumericOutOfRange)}"
proof -
  obtain c1 where c1: "claim_turn_for sample_db1 LEASE_TTL 200 70 (40, 1, 10) = (Inr (Some c1), sample_db2)"
    using sample_claim by blast
  show ?thesis
    using lease_is_exclusive [OF c1 sample_run23] by (simp add: deadline_def LEASE_TTL_def)
qed

section \<open>Coalescing\<close>

text \<open>
  C4. A successful claim takes the whole backlog of its key and nothing else: the trigger ids it
  returns are those of the key's pending rows with a known receiver, there is at least one, each
  is now processing under the claim's fence after exactly one attempt, every other row is
  untouched, and the lease names the claiming worker until \<open>now + ttl\<close>.
\<close>

theorem claim_drains_the_key:
  assumes inv: "queue_inv db"
    and c: "claim_turn_for db t now w (k, org, user) = (Inr (Some c), db')"
  shows "ct_trigger_ids c = map pr_id (filter (drains db k) (prompt_requests db))
    \<and> ct_trigger_ids c \<noteq> []
    \<and> (\<forall>i r. row_of db i = Some r \<longrightarrow>
         row_of db' i = Some (if i \<in> set (ct_trigger_ids c)
           then r\<lparr>pr_status := Processing, pr_turn_seq := ct_lease_seq c, pr_attempts := 1,
                  pr_updated_at := now\<rparr> else r))
    \<and> filter (drains db' k) (prompt_requests db') = []
    \<and> map_option (\<lambda>l. (cl_worker l, cl_lease_seq l, cl_leased_until l)) (claim_leases db' k)
        = Some (w, ct_lease_seq c, now + int t)"
proof -
  from c obtain o' l where l: "cl_worker l = w" "cl_lease_seq l = ct_lease_seq c"
      "cl_leased_until l = deadline t now"
    and db': "db' = claimed_db db k o' l (ct_lease_seq c) now"
    and ids: "ct_trigger_ids c = map pr_id (filter (drains db k) (prompt_requests db))"
    and ne: "filter (drains db k) (prompt_requests db) \<noteq> []"
    by (rule claim_successE)
  have rows: "row_of db' i = Some (if i \<in> set (ct_trigger_ids c)
      then r\<lparr>pr_status := Processing, pr_turn_seq := ct_lease_seq c, pr_attempts := 1,
             pr_updated_at := now\<rparr> else r)" if r: "row_of db i = Some r" for i r
  proof -
    have mem: "r \<in> set (prompt_requests db)" and i: "pr_id r = i" using row_of_Some [OF r] by auto
    have "i \<in> set (ct_trigger_ids c) \<longleftrightarrow> drains db k r"
      using mem i distinct_map_inj [OF queue_inv_distinct [OF inv]] by (auto simp: ids)
    moreover have "drains db k r \<Longrightarrow> pr_attempts r = 0"
      using queue_inv_rowD [OF inv mem] by (simp add: drains_def row_wf_def)
    ultimately show ?thesis using r by (simp add: db' claimed_db_row drain_row_def)
  qed
  have dr: "drains db' k = drains db k" by (simp add: db' claimed_db_def drains_def receiver_row_def fun_eq_iff)
  have "\<not> drains db k (drain_row s now r)" for s r by (simp add: drains_def drain_row_def)
  then have "filter (drains db k) (prompt_requests db') = []"
    by (simp add: db' claimed_db_def filter_update_where_none)
  then have "filter (drains db' k) (prompt_requests db') = []" by (simp add: dr)
  moreover have "claim_leases db' k = Some l" by (simp add: db' claimed_db_def)
  ultimately show ?thesis using rows ids ne l by (simp add: deadline_def)
qed

theorem claim_drains_the_key_witness:
  "\<exists>c. ct_trigger_ids c = [60] \<and> claim_turn_for sample_db1 LEASE_TTL 200 70 (40, 1, 10) = (Inr (Some c), sample_db2)
    \<and> ct_trigger_ids c = map pr_id (filter (drains sample_db1 40) (prompt_requests sample_db1))"
proof -
  obtain c where c: "claim_turn_for sample_db1 LEASE_TTL 200 70 (40, 1, 10) = (Inr (Some c), sample_db2)"
    "ct_trigger_ids c = [60]"
    using sample_claim by blast
  have "queue_inv sample_db1" using sample_reach1 by (rule pq.reach_inv)
  then show ?thesis using claim_drains_the_key [OF _ c(1)] c by blast
qed

section \<open>Order and availability of claims\<close>

text \<open>
  What makes a batch assemblable: every pending row has a receiver that is an agent, and the
  pending rows of one key agree on it and on the kind.
\<close>

definition batches_agree :: "queue_db \<Rightarrow> bool" where
  "batches_agree db \<longleftrightarrow>
     (\<forall>r \<in> set (prompt_requests db). pr_status r = Pending \<longrightarrow>
        (\<exists>c a. receiver_row db r = Some c \<and> co_agent c = Some a))
   \<and> (\<forall>r \<in> set (prompt_requests db). \<forall>s \<in> set (prompt_requests db).
        pr_status r = Pending \<and> pr_status s = Pending \<and> claim_key r = claim_key s \<longrightarrow>
        pr_receiver r = pr_receiver s \<and> pr_kind r = pr_kind s)"

lemma build_claimed_turn_ok:
  assumes "ds \<noteq> []" and "dt_agent (hd ds) = Some a"
    and "\<forall>d \<in> set ds. dt_agent d = dt_agent (hd ds) \<and> dt_kind d = dt_kind (hd ds)"
  shows "\<exists>c. build_claimed_turn k org user w seq ds = Some (Inr c)"
proof -
  obtain d dd where ds: "ds = d # dd" using assms(1) by (cases ds) simp_all
  have "dt_agent x = Some a \<and> dt_kind x = dt_kind d" if "x \<in> set dd" for x
    using assms(2) bspec [OF assms(3), of x] that by (simp add: ds)
  then have "batch_mismatch a (dt_kind d) dd = None" by (simp add: batch_mismatch_None)
  with ds assms(2) have no: "build_claimed_turn k org user w seq ds \<noteq> None"
    "build_claimed_turn k org user w seq ds \<noteq> Some (Inl e)" for e
    by simp_all
  show ?thesis
  proof (cases "build_claimed_turn k org user w seq ds")
    case (Some x)
    with no show ?thesis by (cases x) blast+
  qed (use no in blast)
qed

lemma batches_agree_receiver:
  "batches_agree db \<Longrightarrow> r \<in> set (prompt_requests db) \<Longrightarrow> pr_status r = Pending \<Longrightarrow>
   \<exists>c a. receiver_row db r = Some c \<and> co_agent c = Some a"
  unfolding batches_agree_def by blast

lemma batches_agree_same:
  "batches_agree db \<Longrightarrow> drains db k r \<Longrightarrow> drains db k s \<Longrightarrow>
   r \<in> set (prompt_requests db) \<Longrightarrow> s \<in> set (prompt_requests db) \<Longrightarrow>
   pr_receiver r = pr_receiver s \<and> pr_kind r = pr_kind s"
  unfolding batches_agree_def drains_def by metis

lemma batches_agree_build:
  assumes agree: "batches_agree db" and ne: "filter (drains db k) (prompt_requests db) \<noteq> []"
  shows "\<exists>c. build_claimed_turn k org user w seq
    (map (drained_of db) (filter (drains db k) (prompt_requests db))) = Some (Inr c)"
proof -
  let ?rs = "filter (drains db k) (prompt_requests db)"
  let ?h = "hd ?rs"
  have h: "?h \<in> set (prompt_requests db)" "drains db k ?h" using hd_in_set [OF ne] by auto
  then obtain c a where ca: "receiver_row db ?h = Some c" "co_agent c = Some a"
    using batches_agree_receiver [OF agree h(1)] unfolding drains_def by blast
  have same: "pr_receiver r = pr_receiver ?h \<and> pr_kind r = pr_kind ?h" if "r \<in> set ?rs" for r
    using batches_agree_same [OF agree _ h(2) _ h(1)] that by simp
  show ?thesis
  proof (rule build_claimed_turn_ok)
    show "map (drained_of db) ?rs \<noteq> []" using ne by simp
    show "dt_agent (hd (map (drained_of db) ?rs)) = Some a"
      using ne ca by (simp add: hd_map drained_of_def)
    show "\<forall>d \<in> set (map (drained_of db) ?rs). dt_agent d = dt_agent (hd (map (drained_of db) ?rs))
        \<and> dt_kind d = dt_kind (hd (map (drained_of db) ?rs))"
      using ne same by (auto simp: hd_map drained_of_def receiver_row_def)
  qed
qed

text \<open>
  The claim serves the oldest claimable trigger. If some pending trigger's key has no live
  lease (and batches can be assembled, and the fence counter has not run out), then
  \<open>claim_next_turn\<close> does return a turn, and that turn contains a trigger that no claimable
  trigger predates.
\<close>

theorem claim_serves_the_oldest:
  assumes inv: "queue_inv db" and agree: "batches_agree db"
    and room: "\<forall>k. int (seq_of db k) < i64_max"
    and r: "r \<in> set (prompt_requests db)" "claimable db now r"
  shows "\<exists>c db' s. claim_next_turn db t now w = (Inr (Some c), db')
    \<and> s \<in> set (prompt_requests db) \<and> claimable db now s \<and> pr_id s \<in> set (ct_trigger_ids c)
    \<and> (\<forall>s' \<in> set (prompt_requests db). claimable db now s' \<longrightarrow> pr_created_at s \<le> pr_created_at s')"
proof -
  let ?cl = "filter (claimable db now) (prompt_requests db)"
  from r have "?cl \<noteq> []" by (auto simp: filter_empty_conv)
  then obtain s where s: "first_min_by pr_created_at ?cl = Some s"
    by (cases "first_min_by pr_created_at ?cl") simp_all
  then have mem: "s \<in> set (prompt_requests db)" "claimable db now s"
    by (auto dest: first_min_by_mem)
  have oldest: "\<forall>s' \<in> set (prompt_requests db). claimable db now s' \<longrightarrow> pr_created_at s \<le> pr_created_at s'"
    using first_min_by_le [OF s] by simp
  have "row_wf s" using queue_inv_rowD [OF inv mem(1)] by blast
  then obtain k u where k: "claim_key s = Some k" and u: "pr_acting_user s = Some u"
    using claim_key_wf [of s] unfolding row_wf_def by fast
  have cand: "next_turn_candidate db now = Inr (Some (k, pr_org s, u))"
    by (simp add: next_turn_candidate_def s k u)
  have free: "\<not> lease_live db now k" using mem(2) k by (simp add: claimable_def)
  have dr: "drains db k s"
    using batches_agree_receiver [OF agree mem(1)] mem(2) k by (auto simp: drains_def claimable_def)
  with mem have "filter (drains db k) (prompt_requests db) \<noteq> []" by (auto simp: filter_empty_conv)
  then obtain c0 where build: "build_claimed_turn k (pr_org s) u w (Suc (seq_of db k))
      (map (drained_of db) (filter (drains db k) (prompt_requests db))) = Some (Inr c0)"
    using batches_agree_build [OF agree] by blast
  have "bump_claim_seq db k (pr_org s) \<noteq> Inl e" for e
    using room [rule_format, of k] by (auto simp: bump_claim_seq_def seq_of_def split: option.splits)
  then have "fst (claim_turn_for db t now w (k, pr_org s, u)) = Inr (Some c0)"
    using free build
    by (cases rule: claim_turn_for_cases [of db k "pr_org s" t now w u]) auto
  then obtain db' where c: "claim_turn_for db t now w (k, pr_org s, u) = (Inr (Some c0), db')"
    by (metis prod.collapse)
  then have "ct_trigger_ids c0 = map pr_id (filter (drains db k) (prompt_requests db))"
    by (rule claim_successE)
  then have "pr_id s \<in> set (ct_trigger_ids c0)" using mem dr by auto
  then show ?thesis using c cand mem oldest by (auto simp: claim_next_turn_def)
qed

lemma sample_db1_row: "\<exists>r. prompt_requests sample_db1 = [r] \<and> claimable sample_db1 200 r \<and> pr_id r = 60"
  by (simp add: sample_defs enqueue_defs claimable_def claim_key_def lease_live_def)

theorem claim_serves_the_oldest_witness:
  "\<exists>c db'. claim_next_turn sample_db1 LEASE_TTL 200 70 = (Inr (Some c), db') \<and> 60 \<in> set (ct_trigger_ids c)"
proof -
  obtain r where r: "prompt_requests sample_db1 = [r]" "claimable sample_db1 200 r" "pr_id r = 60"
    using sample_db1_row by blast
  have inv: "queue_inv sample_db1" using sample_reach1 by (rule pq.reach_inv)
  have agree: "batches_agree sample_db1"
    by (simp add: batches_agree_def sample_defs enqueue_defs receiver_row_def)
  have room: "\<forall>k. int (seq_of sample_db1 k) < i64_max"
    by (simp add: seq_of_def i64_max_def sample_defs enqueue_defs)
  show ?thesis
    using claim_serves_the_oldest [OF inv agree room _ r(2), of LEASE_TTL 70] r by auto
qed

section \<open>Idempotent enqueue\<close>

lemma enqueue_trigger_row:
  assumes "enqueue_trigger db now rid tp trig = (Inr i, db1)"
  shows "\<exists>r \<in> set (prompt_requests db1). pr_id r = i \<and> same_idempotency (nt_org trig) (nt_idempotency_key trig) r"
proof -
  have new: "pr_id (trigger_row now rid tp rcv trig) = rid
      \<and> same_idempotency (nt_org trig) (nt_idempotency_key trig) (trigger_row now rid tp rcv trig)" for rcv
    by (simp add: trigger_row_def same_idempotency_def)
  show ?thesis
  proof (cases "find (same_idempotency (nt_org trig) (nt_idempotency_key trig)) (prompt_requests db)")
    case None
    with assms new show ?thesis
      by (auto simp: enqueue_trigger_def Let_def seed_dag_def split: sum.splits option.splits if_splits)
  next
    case (Some r)
    then have "r \<in> set (prompt_requests db)" "same_idempotency (nt_org trig) (nt_idempotency_key trig) r"
      by (auto dest: find_Some_mem)
    with Some assms show ?thesis
      by (auto simp: enqueue_trigger_def Let_def split: sum.splits option.splits if_splits)
  qed
qed

text \<open>
  C5. Enqueueing is idempotent on \<open>(org_id, idempotency_key)\<close>, for ever: once a trigger was
  accepted under id \<open>i\<close>, then after any run every admitted trigger with the same org and key
  gets \<open>i\<close> back and the database does not change.
\<close>

theorem enqueue_is_idempotent:
  assumes reach: "reach queue_init (queue_step t) db"
    and first: "enqueue_trigger db now rid tp trig = (Inr i, db1)"
    and run: "steps (queue_step t) db1 es db2"
    and same: "nt_org trig2 = nt_org trig" "nt_idempotency_key trig2 = nt_idempotency_key trig"
    and rcv: "resolve_agent_colleague db2 (nt_acting_user trig2) (nt_org trig2) (nt_receiver_agent trig2) = Inr rcv"
    and adm: "prompt_requests_admit db2 (nt_acting_user trig2) (trigger_row now2 rid2 tp2 rcv trig2) = None"
  shows "enqueue_trigger db2 now2 rid2 tp2 trig2 = (Inr i, db2)"
proof -
  have inv: "queue_inv db" using reach by (rule pq.reach_inv)
  have inv1: "queue_inv db1" using enqueue_trigger_inv [OF inv, of now rid tp trig] first by simp
  have inv2: "queue_inv db2" using run inv1 by (rule pq.steps_inv)
  obtain r1 where r1: "r1 \<in> set (prompt_requests db1)" "pr_id r1 = i"
      "pr_org r1 = nt_org trig" "pr_idempotency_key r1 = nt_idempotency_key trig"
    using enqueue_trigger_row [OF first] by (auto simp: same_idempotency_def)
  obtain r2 where r2: "r2 \<in> set (prompt_requests db2)" "row_le r1 r2"
    using pq.steps_le [OF run inv1] r1(1) by (auto simp: db_le_def)
  let ?key = "\<lambda>r. (pr_org r, pr_idempotency_key r)"
  have key: "same_idempotency (nt_org trig2) (nt_idempotency_key trig2) = (\<lambda>r. ?key r = ?key r2)"
    using r1 r2(2) same by (auto simp: same_idempotency_def row_le_def fun_eq_iff)
  have "find (\<lambda>r. ?key r = ?key r2) (prompt_requests db2) = Some r2"
    using inv2 r2(1) by (intro find_key_unique) (simp_all add: queue_inv_def)
  moreover have "app_user_is_member db2 (nt_acting_user trig2) (pr_org r2)"
    using adm r1 r2(2) same
    by (auto simp: prompt_requests_admit_def trigger_row_def row_le_def split: if_splits)
  moreover have "pr_id r2 = i" using r1 r2(2) by (simp add: row_le_def)
  ultimately show ?thesis using rcv adm by (simp add: enqueue_trigger_def Let_def key)
qed

theorem enqueue_is_idempotent_witness:
  "enqueue_trigger sample_db2 900 99 None sample_trigger = (Inr 60, sample_db2)"
proof (rule enqueue_is_idempotent [OF sample_reach sample_enqueue])
  show "steps (queue_step LEASE_TTL) sample_db1 [Claim 200 70 (40, 1, 10)] sample_db2"
    using sample_step2 by (blast intro: steps.intros)
  show "resolve_agent_colleague sample_db2 (nt_acting_user sample_trigger) (nt_org sample_trigger)
      (nt_receiver_agent sample_trigger) = Inr 30"
    by (simp add: sample_defs enqueue_defs claim_defs)
  show "prompt_requests_admit sample_db2 (nt_acting_user sample_trigger)
      (trigger_row 900 99 None 30 sample_trigger) = None"
    by (simp add: sample_defs enqueue_defs claim_defs)
qed simp_all

section \<open>What happens to a crashed turn\<close>

text \<open>The events that carry a receipt for a given row: its id in the batch, its fence.\<close>

fun finishes :: "uuid \<Rightarrow> turn_seq \<Rightarrow> queue_event \<Rightarrow> bool" where
  "finishes i n (MarkDone now rc) = (i \<in> set (tr_trigger_ids rc) \<and> tr_lease_seq rc = n)"
| "finishes i n (MarkFailed now rc fr) = (i \<in> set (tr_trigger_ids rc) \<and> tr_lease_seq rc = n)"
| "finishes i n _ = False"

definition parked :: "uuid \<Rightarrow> turn_seq \<Rightarrow> queue_db \<Rightarrow> bool" where
  "parked i n db \<longleftrightarrow> queue_inv db
     \<and> (\<exists>r. row_of db i = Some r \<and> pr_status r = Processing \<and> pr_turn_seq r = n)"

lemma parked_rows:
  "parked i n db \<Longrightarrow> queue_inv db' \<Longrightarrow> row_of db' i = row_of db i \<Longrightarrow> parked i n db'"
  by (simp add: parked_def)

lemma row_of_enqueue:
  "row_of db i = Some r \<Longrightarrow> row_of (snd (enqueue_trigger db now rid tp trig)) i = Some r"
  by (auto simp: enqueue_trigger_def Let_def seed_dag_def row_of_def find_append
      split: sum.splits option.splits)

lemma parked_finalise:
  assumes "parked i n db" and "\<not> (i \<in> set (tr_trigger_ids rc) \<and> tr_lease_seq rc = n)"
    and "queue_inv (finalise_turn db now rc st fr)"
  shows "parked i n (finalise_turn db now rc st fr)"
proof -
  from assms(1) obtain r where r: "row_of db i = Some r" "pr_turn_seq r = n"
    by (auto simp: parked_def)
  then have "pr_id r = i" by (auto dest: row_of_Some)
  with assms(2) r have "\<not> finalises rc r" by (auto simp: finalises_def)
  with r assms(1,3) show ?thesis
    by (intro parked_rows [OF assms(1,3)]) (simp add: tq.row_finalise)
qed

lemma parked_claim:
  assumes "parked i n db"
  shows "parked i n (snd (claim_turn_for db t now w (k, org, user)))"
proof (rule parked_rows [OF assms])
  from assms show "queue_inv (snd (claim_turn_for db t now w (k, org, user)))"
    by (simp add: parked_def claim_turn_for_inv)
  from assms show "row_of (snd (claim_turn_for db t now w (k, org, user))) i = row_of db i"
    by (cases rule: claim_turn_for_cases [of db k org t now w user])
      (auto simp: parked_def claimed_db_row drains_def)
qed

lemma parked_step:
  assumes "queue_step t db e db'" and "\<not> finishes i n e" and "parked i n db"
  shows "parked i n db'"
proof -
  have inv': "queue_inv db'" using queue_step_inv [OF assms(1)] assms(3) by (simp add: parked_def)
  from assms(1) show ?thesis
  proof cases
    case (claim now w cand)
    then show ?thesis using assms(3) by (cases cand) (simp add: parked_claim)
  next
    case (cancel now rid)
    from assms(3) obtain r where "row_of db i = Some r" "pr_status r = Processing" "pr_turn_seq r = n"
      by (auto simp: parked_def)
    with cancel inv' show ?thesis
      by (auto simp: parked_def request_cancellation_def row_of_update [OF row_frame_cancel])
  next
    case (mark_done now rc)
    then show ?thesis using assms inv' parked_finalise by (auto simp: mark_turn_done_def)
  next
    case (mark_failed now rc fr)
    then show ?thesis using assms inv' parked_finalise by (auto simp: mark_turn_failed_def)
  next
    case (enqueue now rid tp trig)
    then show ?thesis using assms(3) inv' by (auto simp: parked_def row_of_enqueue)
  next
    case (bump root)
    then show ?thesis using bump_or_fail_in_tx_frame [of "\<lambda>_. True" db root] assms(3) inv'
      by (auto simp: parked_def bump_or_fail_def bump_dag_def)
  next
    case (bump_for_user u root)
    then show ?thesis
      using bump_or_fail_in_tx_frame [of "\<lambda>d. app_user_is_member db u (dag_org d)" db root] assms(3) inv'
      by (auto simp: parked_def bump_or_fail_for_user_def bump_dag_def)
  qed (use assms(3) inv' in \<open>auto simp: parked_def tq.row_renew tq.row_release\<close>)
qed

lemma parked_steps:
  "steps (queue_step t) db es db' \<Longrightarrow> \<forall>e \<in> set es. \<not> finishes i n e \<Longrightarrow> parked i n db \<Longrightarrow> parked i n db'"
  by (induction rule: steps.induct) (auto intro: parked_step)

text \<open>
  A turn whose worker disappears is never retried. Unless the receipt that fenced it comes
  back to finish it, a processing trigger stays processing through every later claim, its attempt
  counter stays at 1, below \<open>MAX_ATTEMPTS\<close>, and no later batch contains it. (The pipeline's
  documentation promises a reset to pending on the next claim and a poison mark.)
\<close>

theorem crashed_turn_stays_processing:
  assumes reach: "reach queue_init (queue_step t) db"
    and r: "row_of db i = Some r" "pr_status r = Processing"
    and run: "steps (queue_step t) db es db'"
    and gone: "\<forall>e \<in> set es. \<not> finishes i (pr_turn_seq r) e"
  shows "(\<exists>r'. row_of db' i = Some r' \<and> pr_status r' = Processing \<and> pr_attempts r' = 1
      \<and> pr_attempts r' < MAX_ATTEMPTS)
    \<and> (\<forall>now w k org user c db''. claim_turn_for db' t now w (k, org, user) = (Inr (Some c), db'') \<longrightarrow>
         i \<notin> set (ct_trigger_ids c))"
proof -
  have "queue_inv db" using reach by (rule pq.reach_inv)
  with r have "parked i (pr_turn_seq r) db" by (simp add: parked_def)
  with run gone have p: "parked i (pr_turn_seq r) db'" by (rule parked_steps)
  then have inv': "queue_inv db'" by (simp add: parked_def)
  from p obtain r' where r': "row_of db' i = Some r'" "pr_status r' = Processing"
    by (auto simp: parked_def)
  then have mem: "r' \<in> set (prompt_requests db')" "pr_id r' = i" by (auto dest: row_of_Some)
  have one: "pr_attempts r' = 1" using queue_inv_rowD [OF inv' mem(1)] r'(2) by (simp add: row_wf_def)
  have "i \<notin> set (ct_trigger_ids c)"
    if c: "claim_turn_for db' t now w (k, org, user) = (Inr (Some c), db'')" for now w k org user c db''
  proof
    from c have ids: "ct_trigger_ids c = map pr_id (filter (drains db' k) (prompt_requests db'))"
      by (rule claim_successE)
    assume "i \<in> set (ct_trigger_ids c)"
    then obtain s where s: "s \<in> set (prompt_requests db')" "drains db' k s" "pr_id s = i"
      by (auto simp: ids)
    then have "s = r'" using distinct_map_inj [OF queue_inv_distinct [OF inv']] mem by blast
    with s r' show False by (simp add: drains_def)
  qed
  then show ?thesis using r' one by (auto simp: MAX_ATTEMPTS_def)
qed

theorem crashed_turn_stays_processing_witness:
  "\<exists>r'. row_of sample_db4 60 = Some r' \<and> pr_status r' = Processing \<and> pr_attempts r' < MAX_ATTEMPTS"
proof -
  obtain r where r: "row_of sample_db2 60 = Some r" "pr_status r = Processing"
    by (simp add: row_of_def sample_defs enqueue_defs claim_defs)
  have "steps (queue_step LEASE_TTL) sample_db2
      [Enqueue 300 61 None sample_trigger2, Claim 40000000 71 (40, 1, 10)] sample_db4"
    unfolding sample_db4_def sample_db3_def by (blast intro: steps.intros queue_step.intros)
  then show ?thesis using crashed_turn_stays_processing [OF sample_reach2 r] by force
qed

section \<open>The turn budget\<close>

text \<open>
  A conversation cannot run away. In any reachable state a DAG's budget answers the next
  bumps with \<open>used + 1, used + 2, ..\<close> up to the cap of 64 and refuses every further one with
  \<open>DagBudgetExceeded\<close>; no counter ever passes its cap.
\<close>

theorem dag_budget_is_a_hard_cap:
  assumes reach: "reach queue_init (queue_step t) db" and d: "dags db root = Some d"
  shows "0 \<le> dag_turns_used d \<and> dag_turns_used d \<le> 64
    \<and> fst (bumps n db root) = map (\<lambda>i.
        if nat (dag_turns_used d) + i < 64
        then Some (Inr \<lparr>bb_turns_used = Suc (nat (dag_turns_used d) + i), bb_turns_cap = 64\<rparr>)
        else Some (Inl (DagBudgetExceededErr root 64 64))) [0..<n]"
proof -
  have wf: "dag_wf d" using pq.reach_inv [OF reach] d by (rule queue_inv_dagD)
  then have u: "dag_turns_used d = int (nat (dag_turns_used d))" "nat (dag_turns_used d) \<le> MAX_DAG_TURNS"
    "dag_turns_cap d = int MAX_DAG_TURNS"
    by (auto simp: dag_wf_def nat_le_iff)
  show ?thesis
    using bumps_results [OF d u(1) u(3) u(2), of n] wf by (simp add: dag_wf_def MAX_DAG_TURNS_def)
qed

theorem dag_budget_is_a_hard_cap_witness:
  "fst (bumps 2 sample_db1 60) =
    [Some (Inr \<lparr>bb_turns_used = 1, bb_turns_cap = 64\<rparr>), Some (Inr \<lparr>bb_turns_used = 2, bb_turns_cap = 64\<rparr>)]"
proof -
  obtain d where d: "dags sample_db1 60 = Some d" "dag_turns_used d = 0"
    by (simp add: sample_defs enqueue_defs)
  show ?thesis
    using dag_budget_is_a_hard_cap [OF sample_reach1 d(1), of 2] d(2) by (simp add: numeral_2_eq_2)
qed

end
