(* ===== verification/Rust_Strings.thy ===== *)
theory Rust_Strings
  imports Patom_Prelude
begin

text \<open>
  Rust's \<open>String\<close> is valid UTF-8. A \<open>string\<close> here is its byte list, so \<open>len()\<close> is \<open>length\<close>
  and an ASCII literal is itself; the operations that work on Unicode scalar values
  (\<open>chars().count()\<close>, \<open>take\<close>, \<open>skip\<close>, \<open>trim\<close>) are written over the bytes: a scalar value is a
  lead byte with the continuation bytes (\<open>10xxxxxx\<close>) after it.
\<close>

definition is_cont :: "char \<Rightarrow> bool" where
  "is_cont c \<longleftrightarrow> 128 \<le> (of_char c :: int) \<and> (of_char c :: int) < 192"

text \<open>\<open>s.chars().count()\<close>\<close>

definition chars_count :: "string \<Rightarrow> nat" where
  "chars_count s = length (filter (\<lambda>c. \<not> is_cont c) s)"

text \<open>\<open>s.chars().take(n).collect()\<close> and \<open>s.chars().skip(n).collect()\<close>\<close>

fun take_chars :: "nat \<Rightarrow> string \<Rightarrow> string" where
  "take_chars n [] = []"
| "take_chars n (c # s) =
     (if is_cont c then c # take_chars n s
      else (case n of 0 \<Rightarrow> [] | Suc m \<Rightarrow> c # take_chars m s))"

fun drop_chars :: "nat \<Rightarrow> string \<Rightarrow> string" where
  "drop_chars n [] = []"
| "drop_chars n (c # s) =
     (if is_cont c then drop_chars n s
      else (case n of 0 \<Rightarrow> c # s | Suc m \<Rightarrow> drop_chars m s))"

lemma chars_count_Nil [simp]: "chars_count [] = 0"
  by (simp add: chars_count_def)

lemma chars_count_Cons [simp]:
  "chars_count (c # s) = (if is_cont c then chars_count s else Suc (chars_count s))"
  by (simp add: chars_count_def)

lemma chars_count_append [simp]: "chars_count (s @ t) = chars_count s + chars_count t"
  by (simp add: chars_count_def)

lemma chars_count_le_length: "chars_count s \<le> length s"
  by (simp add: chars_count_def)

lemma chars_count_concat: "chars_count (concat ss) = sum_list (map chars_count ss)"
  by (induction ss) simp_all

lemma chars_count_take_chars [simp]: "chars_count (take_chars n s) = min n (chars_count s)"
  by (induction n s rule: take_chars.induct) (auto split: nat.splits)

lemma take_drop_chars: "take_chars n s @ drop_chars n s = s"
  by (induction n s rule: take_chars.induct) (auto split: nat.splits)

lemma chars_count_drop_chars [simp]: "chars_count (drop_chars n s) = chars_count s - n"
proof -
  have "chars_count s = chars_count (take_chars n s @ drop_chars n s)" by (simp add: take_drop_chars)
  then show ?thesis by (simp del: chars_count_take_chars add: chars_count_take_chars min_def split: if_splits)
qed

lemma take_chars_all: "chars_count s \<le> n \<Longrightarrow> take_chars n s = s"
  by (induction n s rule: take_chars.induct) (auto split: nat.splits if_splits)

text \<open>\<open>Display\<close> of an unsigned integer: its decimal digits.\<close>

definition digit_char :: "nat \<Rightarrow> char" where
  "digit_char d = ''0123456789'' ! d"

fun show_nat :: "nat \<Rightarrow> string" where
  "show_nat n = (if n < 10 then [digit_char n] else show_nat (n div 10) @ [digit_char (n mod 10)])"

declare show_nat.simps [simp del]

section \<open>Scalar values, white space, trim\<close>

function utf8_chars :: "string \<Rightarrow> string list" where
  "utf8_chars [] = []"
| "utf8_chars (b # bs) = (b # takeWhile is_cont bs) # utf8_chars (dropWhile is_cont bs)"
  by pat_completeness auto
termination
  by (relation "measure length") (auto simp: le_imp_less_Suc length_dropWhile_le)

lemma concat_utf8_chars [simp]: "concat (utf8_chars s) = s"
  by (induction s rule: utf8_chars.induct) simp_all

definition bytes :: "int list \<Rightarrow> string" where
  "bytes ns = map char_of ns"

text \<open>The encodings of the scalar values with the Unicode property \<open>White_Space\<close>.\<close>

definition white_space :: "string list" where
  "white_space = map bytes
     ([[9], [10], [11], [12], [13], [32], [194, 133], [194, 160], [225, 154, 128]]
      @ map (\<lambda>b. [226, 128, b]) [128, 129, 130, 131, 132, 133, 134, 135, 136, 137, 138, 168, 169, 175]
      @ [[226, 129, 159], [227, 128, 128]])"

definition is_white_space :: "string \<Rightarrow> bool" where
  "is_white_space ch \<longleftrightarrow> ch \<in> set white_space"

definition trim_start :: "string \<Rightarrow> string" where
  "trim_start s = concat (dropWhile is_white_space (utf8_chars s))"

definition trim_end :: "string \<Rightarrow> string" where
  "trim_end s = concat (rev (dropWhile is_white_space (rev (utf8_chars s))))"

definition trim :: "string \<Rightarrow> string" where
  "trim s = trim_end (trim_start s)"

text \<open>A list of encodings that \<open>utf8_chars\<close> reads back unchanged.\<close>

definition char_list :: "string list \<Rightarrow> bool" where
  "char_list cs \<longleftrightarrow> (\<forall>c \<in> set cs. c \<noteq> [] \<and> (\<forall>x \<in> set (tl c). is_cont x))
     \<and> (\<forall>c \<in> set (tl cs). \<not> is_cont (hd c))"

lemma char_list_tl: "char_list (c # cs) \<Longrightarrow> char_list cs"
  by (cases cs) (auto simp: char_list_def)

lemma char_list_suffix: "char_list (xs @ ys) \<Longrightarrow> char_list ys"
  by (induction xs) (auto dest: char_list_tl)

lemma char_list_prefix: "char_list (xs @ ys) \<Longrightarrow> char_list xs"
  by (cases xs) (auto simp: char_list_def)

lemma utf8_chars_concat: "char_list cs \<Longrightarrow> utf8_chars (concat cs) = cs"
proof (induction cs)
  case (Cons c cs)
  then obtain b t where c: "c = b # t" and t: "\<forall>x \<in> set t. is_cont x"
    by (cases c) (auto simp: char_list_def)
  have hd: "concat cs = [] \<or> \<not> is_cont (hd (concat cs))"
  proof (cases cs)
    case (Cons d ds)
    with Cons.prems have "d \<noteq> []" "\<not> is_cont (hd d)" by (simp_all add: char_list_def)
    with Cons show ?thesis by simp
  qed simp
  have "takeWhile is_cont (t @ concat cs) = t" "dropWhile is_cont (t @ concat cs) = concat cs"
    using t hd by (cases "concat cs"; simp only: takeWhile_append2 dropWhile_append2 append_Nil2; simp)+
  with Cons c show ?case by (simp add: char_list_tl)
qed simp

lemma char_list_utf8_chars: "char_list (utf8_chars s)"
proof (induction s rule: utf8_chars.induct)
  case (2 b bs)
  have "utf8_chars (dropWhile is_cont bs) = [] \<or>
        \<not> is_cont (hd (hd (utf8_chars (dropWhile is_cont bs))))"
  proof (cases "dropWhile is_cont bs")
    case Nil
    show ?thesis unfolding Nil by simp
  next
    case (Cons a list)
    then have "\<not> is_cont a" by (metis dropWhile_eq_Cons_conv)
    with Cons show ?thesis by simp
  qed
  with 2 show ?case
    by (cases "utf8_chars (dropWhile is_cont bs)") (auto simp: char_list_def dest: set_takeWhileD)
qed (simp add: char_list_def)

definition trimmed_chars :: "string \<Rightarrow> string list" where
  "trimmed_chars s = rev (dropWhile is_white_space (rev (dropWhile is_white_space (utf8_chars s))))"

lemma dropWhile_rev_split: "\<exists>zs. xs = rev (dropWhile p (rev xs)) @ zs"
  by (metis rev_append rev_rev_ident takeWhile_dropWhile_id)

lemma char_list_dropWhile: "char_list (dropWhile p (utf8_chars s))"
  by (metis char_list_suffix char_list_utf8_chars takeWhile_dropWhile_id)

lemma char_list_trimmed: "char_list (trimmed_chars s)"
  unfolding trimmed_chars_def
  by (metis char_list_prefix char_list_dropWhile dropWhile_rev_split)

lemma trim_eq: "trim s = concat (trimmed_chars s)"
  by (simp add: trim_def trim_end_def trim_start_def trimmed_chars_def
      utf8_chars_concat char_list_dropWhile)

lemma trimmed_ends:
  "cs = trimmed_chars s \<Longrightarrow> cs \<noteq> [] \<Longrightarrow> \<not> is_white_space (hd cs) \<and> \<not> is_white_space (last cs)"
proof -
  assume cs: "cs = trimmed_chars s" and ne: "cs \<noteq> []"
  let ?d = "dropWhile is_white_space (utf8_chars s)"
  obtain zs where zs: "?d = cs @ zs" unfolding cs trimmed_chars_def by (rule exE [OF dropWhile_rev_split])
  with ne have "hd cs = hd ?d" "?d \<noteq> []" by auto
  then have "\<not> is_white_space (hd cs)" by (metis hd_dropWhile)
  moreover have "\<not> is_white_space (last cs)"
    using ne unfolding cs trimmed_chars_def by (simp add: last_rev hd_dropWhile)
  ultimately show ?thesis ..
qed

lemma trim_trim [simp]: "trim (trim s) = trim s"
proof -
  let ?cs = "trimmed_chars s"
  have u: "utf8_chars (trim s) = ?cs" by (simp add: trim_eq utf8_chars_concat char_list_trimmed)
  have "trimmed_chars (trim s) = ?cs"
  proof (cases "?cs = []")
    case True
    then have "trim s = []" by (simp add: trim_eq)
    with True show ?thesis by (simp add: trimmed_chars_def)
  next
    case False
    with trimmed_ends [OF refl False] have "dropWhile is_white_space ?cs = ?cs"
      "dropWhile is_white_space (rev ?cs) = rev ?cs"
      by (simp_all add: dropWhile_eq_self_iff hd_rev)
    then show ?thesis unfolding trimmed_chars_def [of "trim s"] u by simp
  qed
  then show ?thesis by (simp add: trim_eq)
qed

text \<open>\<open>char::is_control\<close>: U+0000 to U+001F and U+007F to U+009F.\<close>

definition is_control :: "string \<Rightarrow> bool" where
  "is_control ch = (case map of_char ch of
      [b] \<Rightarrow> b < (32::int) \<or> b = 127
    | [b, c] \<Rightarrow> b = 194 \<and> 128 \<le> c \<and> c \<le> 159
    | _ \<Rightarrow> False)"

text \<open>ASCII classes of a byte.\<close>

definition is_ascii_alphanumeric :: "char \<Rightarrow> bool" where
  "is_ascii_alphanumeric c = (let n = (of_char c :: int) in
     (48 \<le> n \<and> n \<le> 57) \<or> (65 \<le> n \<and> n \<le> 90) \<or> (97 \<le> n \<and> n \<le> 122))"

text \<open>\<open>str::find\<close> of a pattern: the byte index of its first occurrence.\<close>

fun is_prefix :: "string \<Rightarrow> string \<Rightarrow> bool" where
  "is_prefix [] s = True"
| "is_prefix (c # p) [] = False"
| "is_prefix (c # p) (d # s) = (c = d \<and> is_prefix p s)"

fun find_str :: "string \<Rightarrow> string \<Rightarrow> nat option" where
  "find_str p [] = (if p = [] then Some 0 else None)"
| "find_str p (c # s) = (if is_prefix p (c # s) then Some 0 else map_option Suc (find_str p s))"

definition contains_str :: "string \<Rightarrow> string \<Rightarrow> bool" where
  "contains_str p s \<longleftrightarrow> find_str p s \<noteq> None"

lemma is_prefix_iff: "is_prefix p s \<longleftrightarrow> (\<exists>t. s = p @ t)"
  by (induction p s rule: is_prefix.induct) auto

lemma find_str_Some:
  "find_str p s = Some i \<Longrightarrow> i + length p \<le> length s \<and> take (length p) (drop i s) = p"
proof (induction p s arbitrary: i rule: find_str.induct)
  case (2 p c s)
  show ?case
  proof (cases "is_prefix p (c # s)")
    case True
    then obtain t where t: "c # s = p @ t" by (auto simp: is_prefix_iff)
    have "i = 0" using 2(2) True by simp
    moreover have "length p \<le> length (c # s) \<and> take (length p) (c # s) = p" unfolding t by simp
    ultimately show ?thesis by simp
  next
    case False
    with 2 show ?thesis by auto
  qed
qed (simp split: if_splits)

text \<open>\<open>str::join\<close>\<close>

fun join_str :: "string \<Rightarrow> string list \<Rightarrow> string" where
  "join_str sep [] = []"
| "join_str sep [s] = s"
| "join_str sep (s # ss) = s @ sep @ join_str sep ss"

definition newline :: string where "newline = [CHR 0x0A]"

text \<open>\<open>char::to_ascii_lowercase\<close> on bytes\<close>

definition ascii_lower :: "char \<Rightarrow> char" where
  "ascii_lower c = (if 65 \<le> (of_char c :: int) \<and> (of_char c :: int) \<le> 90
     then char_of ((of_char c :: int) + 32) else c)"

definition to_ascii_lowercase :: "string \<Rightarrow> string" where
  "to_ascii_lowercase s = map ascii_lower s"

definition eq_ignore_ascii_case :: "string \<Rightarrow> string \<Rightarrow> bool" where
  "eq_ignore_ascii_case s t \<longleftrightarrow> map ascii_lower s = map ascii_lower t"

text \<open>\<open>str::lines\<close>: split at line feeds, drop one carriage return before each, no empty last line.\<close>

fun split_lines :: "string \<Rightarrow> string \<Rightarrow> string list" where
  "split_lines acc [] = (if acc = [] then [] else [rev acc])"
| "split_lines acc (c # s) =
     (if c = CHR 0x0A
      then rev (case acc of d # acc' \<Rightarrow> if d = CHR 0x0D then acc' else acc | [] \<Rightarrow> []) # split_lines [] s
      else split_lines (c # acc) s)"

definition lines :: "string \<Rightarrow> string list" where
  "lines s = split_lines [] s"

section \<open>Truncation on character boundaries\<close>

text \<open>A byte index is a boundary of a \<open>str\<close> unless a continuation byte stands there.\<close>

definition is_char_boundary :: "string \<Rightarrow> nat \<Rightarrow> bool" where
  "is_char_boundary s i \<longleftrightarrow> i = 0 \<or> i = length s \<or> (i < length s \<and> \<not> is_cont (s ! i))"

text \<open>\<open>tools/limits.rs\<close>: walk back, or forward, to the nearest boundary.\<close>

fun floor_boundary :: "string \<Rightarrow> nat \<Rightarrow> nat" where
  "floor_boundary s 0 = 0"
| "floor_boundary s (Suc n) = (if is_char_boundary s (Suc n) then Suc n else floor_boundary s n)"

definition truncate_to_char_boundary :: "string \<Rightarrow> nat \<Rightarrow> string" where
  "truncate_to_char_boundary s target = take (floor_boundary s (min target (length s))) s"

function ceil_boundary :: "string \<Rightarrow> nat \<Rightarrow> nat" where
  "ceil_boundary s i = (if i < length s \<and> \<not> is_char_boundary s i then ceil_boundary s (i + 1) else i)"
  by pat_completeness auto
termination by (relation "measure (\<lambda>(s, i). length s - i)") auto

declare ceil_boundary.simps [simp del]

definition truncate_from_start :: "string \<Rightarrow> nat \<Rightarrow> string" where
  "truncate_from_start s max_bytes =
     (if length s \<le> max_bytes then s else drop (ceil_boundary s (length s - max_bytes)) s)"

lemma floor_boundary_le: "floor_boundary s n \<le> n"
  by (induction n) (auto intro: le_SucI)

lemma floor_boundary_is: "is_char_boundary s (floor_boundary s n)"
  by (induction n) (simp_all add: is_char_boundary_def [of _ 0])

lemma length_truncate: "length (truncate_to_char_boundary s n) \<le> n"
  using floor_boundary_le [of s "min n (length s)"] by (simp add: truncate_to_char_boundary_def)

lemma ceil_boundary_ge: "i \<le> ceil_boundary s i"
proof (induction s i rule: ceil_boundary.induct)
  case (1 s i)
  then show ?case by (subst ceil_boundary.simps) (auto dest: Suc_leD)
qed

lemma ceil_boundary_is: "i \<le> length s \<Longrightarrow> is_char_boundary s (ceil_boundary s i) \<and> ceil_boundary s i \<le> length s"
proof (induction s i rule: ceil_boundary.induct)
  case (1 s i)
  then show ?case
    by (cases "i = length s") (subst (1 2) ceil_boundary.simps; auto simp: is_char_boundary_def)+
qed

lemma length_truncate_from_start: "length (truncate_from_start s n) \<le> n"
  using ceil_boundary_ge [of "length s - n" s] by (simp add: truncate_from_start_def) linarith

end
