(* ===== verification/Assets.thy ===== *)
theory Assets
  imports Runtime_Types Rust_Strings
begin

text \<open>
  The asset module's boundary types (\<open>assets/traits.rs\<close>, \<open>assets/limits.rs\<close>): the content
  types with their MIME strings and extensions, the two content-type parsers, the upload kinds
  with their caps, the bucket key and the public URL. \<open>url::Url::parse\<close> is a third-party
  parser: \<open>AssetUrl\<close> takes it as the argument \<open>parse\<close>, which yields the scheme and whether the
  URL has a host.
\<close>

definition OBJECT_KEY_MAX_LEN :: nat where "OBJECT_KEY_MAX_LEN = 256"
definition ASSET_URL_MAX_LEN :: nat where "ASSET_URL_MAX_LEN = 2048"
definition MAX_AVATAR_BYTES :: nat where "MAX_AVATAR_BYTES = 2 * 1024 * 1024"
definition MAX_WORKSPACE_AVATAR_BYTES :: nat where "MAX_WORKSPACE_AVATAR_BYTES = 2 * 1024 * 1024"
definition MAX_AGENT_AVATAR_BYTES :: nat where "MAX_AGENT_AVATAR_BYTES = 2 * 1024 * 1024"
definition MAX_MCP_ICON_BYTES :: nat where "MAX_MCP_ICON_BYTES = 256 * 1024"
definition ASSET_ATTACHMENT_IMAGE_BYTES :: nat where
  "ASSET_ATTACHMENT_IMAGE_BYTES = 10 * 1024 * 1024"
definition ASSET_ATTACHMENT_FILE_BYTES :: nat where
  "ASSET_ATTACHMENT_FILE_BYTES = 32 * 1024 * 1024"

text \<open>\<open>raw.split(';').next().unwrap_or(raw).trim().to_ascii_lowercase()\<close>\<close>

definition canonical_mime :: "string \<Rightarrow> string" where
  "canonical_mime raw = to_ascii_lowercase (trim (takeWhile (\<lambda>c. c \<noteq> CHR '';'') raw))"

definition XLSX_MIME :: string where
  "XLSX_MIME = ''application/vnd.openxmlformats-officedocument.spreadsheetml.sheet''"
definition DOCX_MIME :: string where
  "DOCX_MIME = ''application/vnd.openxmlformats-officedocument.wordprocessingml.document''"
definition PPTX_MIME :: string where
  "PPTX_MIME = ''application/vnd.openxmlformats-officedocument.presentationml.presentation''"

section \<open>Image content types\<close>

datatype image_content_type = IPng | IJpeg | IWebp | ISvg

fun image_as_mime :: "image_content_type \<Rightarrow> string" where
  "image_as_mime IPng = ''image/png''"
| "image_as_mime IJpeg = ''image/jpeg''"
| "image_as_mime IWebp = ''image/webp''"
| "image_as_mime ISvg = ''image/svg+xml''"

fun image_extension :: "image_content_type \<Rightarrow> string" where
  "image_extension IPng = ''png''"
| "image_extension IJpeg = ''jpg''"
| "image_extension IWebp = ''webp''"
| "image_extension ISvg = ''svg''"

definition image_from_mime :: "string \<Rightarrow> image_content_type option" where
  "image_from_mime raw = (let c = canonical_mime raw in
     if c = ''image/png'' then Some IPng
     else if c = ''image/jpeg'' \<or> c = ''image/jpg'' then Some IJpeg
     else if c = ''image/webp'' then Some IWebp
     else if c = ''image/svg+xml'' \<or> c = ''image/svg'' then Some ISvg
     else None)"

section \<open>Stored content types\<close>

datatype asset_content_type =
  APng | AJpeg | AWebp | AGif | ASvg | APdf | AXlsx | ADocx | APptx | AText

fun asset_as_mime :: "asset_content_type \<Rightarrow> string" where
  "asset_as_mime APng = ''image/png''"
| "asset_as_mime AJpeg = ''image/jpeg''"
| "asset_as_mime AWebp = ''image/webp''"
| "asset_as_mime AGif = ''image/gif''"
| "asset_as_mime ASvg = ''image/svg+xml''"
| "asset_as_mime APdf = ''application/pdf''"
| "asset_as_mime AXlsx = XLSX_MIME"
| "asset_as_mime ADocx = DOCX_MIME"
| "asset_as_mime APptx = PPTX_MIME"
| "asset_as_mime AText = ''text/plain''"

fun asset_extension :: "asset_content_type \<Rightarrow> string" where
  "asset_extension APng = ''png''"
| "asset_extension AJpeg = ''jpg''"
| "asset_extension AWebp = ''webp''"
| "asset_extension AGif = ''gif''"
| "asset_extension ASvg = ''svg''"
| "asset_extension APdf = ''pdf''"
| "asset_extension AXlsx = ''xlsx''"
| "asset_extension ADocx = ''docx''"
| "asset_extension APptx = ''pptx''"
| "asset_extension AText = ''txt''"

definition APPLICATION_TEXT :: "string list" where
  "APPLICATION_TEXT = [''application/json'', ''application/toml'', ''application/x-toml'',
     ''application/xml'', ''application/yaml'', ''application/x-yaml'', ''application/x-ndjson'']"

definition from_attachment_mime :: "string \<Rightarrow> asset_content_type option" where
  "from_attachment_mime raw = (let c = canonical_mime raw in
     if c = ''image/png'' then Some APng
     else if c = ''image/jpeg'' \<or> c = ''image/jpg'' then Some AJpeg
     else if c = ''image/webp'' then Some AWebp
     else if c = ''image/gif'' then Some AGif
     else if c = ''application/pdf'' then Some APdf
     else if c = XLSX_MIME then Some AXlsx
     else if c = DOCX_MIME then Some ADocx
     else if c = PPTX_MIME then Some APptx
     else if c \<in> set APPLICATION_TEXT then Some AText
     else if is_prefix ''text/'' c then Some AText
     else None)"

text \<open>\<open>rsplit_once('.')\<close>: what follows the last dot.\<close>

definition after_last_dot :: "string \<Rightarrow> string option" where
  "after_last_dot s =
     (if CHR ''.'' \<in> set s then Some (rev (takeWhile (\<lambda>c. c \<noteq> CHR ''.'') (rev s))) else None)"

definition TEXT_EXTENSIONS :: "string list" where
  "TEXT_EXTENSIONS = [''txt'', ''text'', ''md'', ''markdown'', ''json'', ''toml'', ''csv'',
     ''yaml'', ''yml'', ''xml'', ''log'', ''tsv'', ''ndjson'']"

definition from_attachment_extension :: "string \<Rightarrow> asset_content_type option" where
  "from_attachment_extension filename =
     (case after_last_dot filename of None \<Rightarrow> None
      | Some e \<Rightarrow> (let ext = to_ascii_lowercase e in
          if ext = ''png'' then Some APng
          else if ext = ''jpg'' \<or> ext = ''jpeg'' then Some AJpeg
          else if ext = ''webp'' then Some AWebp
          else if ext = ''gif'' then Some AGif
          else if ext = ''pdf'' then Some APdf
          else if ext = ''xlsx'' then Some AXlsx
          else if ext = ''docx'' then Some ADocx
          else if ext = ''pptx'' then Some APptx
          else if ext \<in> set TEXT_EXTENSIONS then Some AText
          else None))"

fun attachment_max_bytes :: "asset_content_type \<Rightarrow> nat" where
  "attachment_max_bytes t =
     (if t \<in> {APng, AJpeg, AWebp, AGif, ASvg} then ASSET_ATTACHMENT_IMAGE_BYTES
      else ASSET_ATTACHMENT_FILE_BYTES)"

fun asset_of_image :: "image_content_type \<Rightarrow> asset_content_type" where
  "asset_of_image IPng = APng"
| "asset_of_image IJpeg = AJpeg"
| "asset_of_image IWebp = AWebp"
| "asset_of_image ISvg = ASvg"

section \<open>Upload kinds\<close>

datatype asset_kind = Avatar | McpCatalogIcon | WorkspaceAvatar | AgentAvatar

fun accepts :: "asset_kind \<Rightarrow> image_content_type \<Rightarrow> bool" where
  "accepts McpCatalogIcon t = True"
| "accepts k ISvg = False"
| "accepts k t = True"

fun key_prefix :: "asset_kind \<Rightarrow> string" where
  "key_prefix Avatar = ''avatars''"
| "key_prefix McpCatalogIcon = ''mcp''"
| "key_prefix WorkspaceAvatar = ''workspaces''"
| "key_prefix AgentAvatar = ''agents''"

fun telemetry_label :: "asset_kind \<Rightarrow> string" where
  "telemetry_label Avatar = ''avatar''"
| "telemetry_label McpCatalogIcon = ''mcp_icon''"
| "telemetry_label WorkspaceAvatar = ''workspace_avatar''"
| "telemetry_label AgentAvatar = ''agent_avatar''"

fun kind_max_bytes :: "asset_kind \<Rightarrow> nat" where
  "kind_max_bytes Avatar = MAX_AVATAR_BYTES"
| "kind_max_bytes McpCatalogIcon = MAX_MCP_ICON_BYTES"
| "kind_max_bytes WorkspaceAvatar = MAX_WORKSPACE_AVATAR_BYTES"
| "kind_max_bytes AgentAvatar = MAX_AGENT_AVATAR_BYTES"

section \<open>Bucket keys and public URLs\<close>

definition key_byte :: "char \<Rightarrow> bool" where
  "key_byte b \<longleftrightarrow> is_ascii_alphanumeric b \<or> b \<in> {CHR ''/'', CHR ''_'', CHR ''.'', CHR ''-''}"

definition object_key_try_from :: "string \<Rightarrow> (string, parse_error) result" where
  "object_key_try_from raw =
     (if raw = [] then Inl (Empty ''asset.object_key'')
      else if length raw > OBJECT_KEY_MAX_LEN
        then Inl (TooLong ''asset.object_key'' OBJECT_KEY_MAX_LEN (length raw))
      else if is_prefix ''/'' raw
        then Inl (Malformed ''asset.object_key'' (''must not start with '' @ [CHR 0x27] @ ''/'' @ [CHR 0x27]))
      else if contains_str ''..'' raw
        then Inl (Malformed ''asset.object_key'' (''must not contain '' @ [CHR 0x27] @ ''..'' @ [CHR 0x27]))
      else if \<not> list_all key_byte raw
        then Inl (Malformed ''asset.object_key'' ''only [A-Za-z0-9_./-] allowed'')
      else Inr raw)"

definition object_key_derive :: "asset_kind \<Rightarrow> string \<Rightarrow> image_content_type \<Rightarrow> (string, parse_error) result" where
  "object_key_derive kind stable_id ct =
     object_key_try_from (key_prefix kind @ ''/'' @ stable_id @ ''.'' @ image_extension ct)"

definition asset_url_try_from ::
  "(string \<Rightarrow> (string \<times> bool) option) \<Rightarrow> string \<Rightarrow> (string, parse_error) result" where
  "asset_url_try_from parse raw =
     (if raw = [] then Inl (Empty ''asset.url'')
      else if length raw > ASSET_URL_MAX_LEN
        then Inl (TooLong ''asset.url'' ASSET_URL_MAX_LEN (length raw))
      else (case parse raw of
          None \<Rightarrow> Inl (Malformed ''asset.url'' ''must be a valid absolute url'')
        | Some (scheme, has_host) \<Rightarrow>
            if scheme \<noteq> ''http'' \<and> scheme \<noteq> ''https''
              then Inl (Malformed ''asset.url'' ''must be http:// or https://'')
            else if \<not> has_host then Inl (Malformed ''asset.url'' ''must have a host'')
            else Inr raw))"

section \<open>Facts\<close>

lemmas mime_defs = XLSX_MIME_def DOCX_MIME_def PPTX_MIME_def APPLICATION_TEXT_def
  TEXT_EXTENSIONS_def

lemma asset_url_Inr: "asset_url_try_from p raw = Inr u \<Longrightarrow> u = raw \<and> asset_url_try_from p u = Inr u"
  by (auto simp: asset_url_try_from_def split: if_splits option.splits prod.splits)

text \<open>A name that ends in a dot and a dot-free extension has that extension.\<close>

lemma after_last_dot_append:
  "CHR ''.'' \<notin> set e \<Longrightarrow> after_last_dot (stem @ CHR ''.'' # e) = Some e"
proof -
  assume "CHR ''.'' \<notin> set e"
  then have "takeWhile (\<lambda>c. c \<noteq> CHR ''.'') (rev e @ CHR ''.'' # rev stem) = rev e"
    by (subst takeWhile_append2) auto
  then show ?thesis by (simp add: after_last_dot_def)
qed

lemma asset_extension_no_dot: "CHR ''.'' \<notin> set (asset_extension t)"
  by (cases t) simp_all

lemma from_extension_append:
  "CHR ''.'' \<notin> set e \<Longrightarrow>
   from_attachment_extension (stem @ CHR ''.'' # e) = from_attachment_extension (CHR ''.'' # e)"
  using after_last_dot_append [of e stem] after_last_dot_append [of e "[]"]
  by (simp add: from_attachment_extension_def)

lemma image_mime_roundtrip: "image_from_mime (image_as_mime t) = Some t"
  by (induct t; code_simp)

lemma asset_mime_roundtrip_or: "t = ASvg \<or> from_attachment_mime (asset_as_mime t) = Some t"
  by (induct t; code_simp)

lemmas asset_mime_roundtrip = disj_imp [THEN iffD1, OF asset_mime_roundtrip_or, rule_format]

lemma from_own_extension_or:
  "t = ASvg \<or> from_attachment_extension (CHR ''.'' # asset_extension t) = Some t"
  by (induct t; code_simp)

lemmas from_own_extension = disj_imp [THEN iffD1, OF from_own_extension_or, rule_format]

lemma asset_of_image_mime: "asset_as_mime (asset_of_image t) = image_as_mime t"
  by (cases t) simp_all

lemma asset_of_image_extension: "asset_extension (asset_of_image t) = image_extension t"
  by (cases t) simp_all

lemma object_key_Inr:
  "object_key_try_from raw = Inr k \<Longrightarrow>
   k = raw \<and> k \<noteq> [] \<and> length k \<le> OBJECT_KEY_MAX_LEN \<and> \<not> is_prefix ''/'' k
     \<and> \<not> contains_str ''..'' k \<and> list_all key_byte k"
  by (auto simp: object_key_try_from_def split: if_splits)

end
