(* ===== verification/Chat_Types.thy ===== *)
theory Chat_Types
  imports Assets
begin

text \<open>
  The provider-neutral chat vocabulary (\<open>provider/chat.rs\<close>), the attachment reference
  (\<open>provider/attachment.rs\<close>) and the two identifiers a tool call carries
  (\<open>types/tool_name.rs\<close>). A tool call's \<open>input\<close> is a \<open>serde_json::Value\<close>; the type \<open>json\<close>
  keeps its shape (numbers by their literal), and whatever prints it takes the printer of
  \<open>serde_json\<close> as an argument.
\<close>

datatype json =
    JNull
  | JBool bool
  | JNumber string
  | JString string
  | JArray "json list"
  | JObject "(string \<times> json) list"

section \<open>Identifiers\<close>

definition TOOL_CALL_ID_MAX_BYTES :: nat where "TOOL_CALL_ID_MAX_BYTES = 256"
definition TOOL_NAME_MAX_LEN :: nat where "TOOL_NAME_MAX_LEN = 64"

definition tool_call_id_try_from :: "string \<Rightarrow> (string, parse_error) result" where
  "tool_call_id_try_from raw =
     (if raw = [] then Inl (Empty ''tool_call_id'')
      else if length raw > TOOL_CALL_ID_MAX_BYTES
        then Inl (TooLong ''tool_call_id'' TOOL_CALL_ID_MAX_BYTES (length raw))
      else Inr raw)"

text \<open>A multi-byte scalar value has no byte below 128, so the test on scalars is one on bytes.\<close>

definition tool_name_try_from :: "string \<Rightarrow> (string, parse_error) result" where
  "tool_name_try_from raw =
     (if raw = [] then Inl (Empty ''tool_name'')
      else if length raw > TOOL_NAME_MAX_LEN
        then Inl (TooLong ''tool_name'' TOOL_NAME_MAX_LEN (length raw))
      else if \<not> list_all (\<lambda>c. is_ascii_alphanumeric c \<or> c = CHR ''_'' \<or> c = CHR ''-'') raw
        then Inl (Malformed ''tool_name'' ''allowed: a-z A-Z 0-9 _ -'')
      else Inr raw)"

section \<open>Attachments\<close>

definition MAX_FILENAME_LEN :: nat where "MAX_FILENAME_LEN = 255"
definition MAX_ATTACHMENT_IMAGE_BYTES :: nat where
  "MAX_ATTACHMENT_IMAGE_BYTES = 10 * 1024 * 1024"
definition MAX_ATTACHMENT_FILE_BYTES :: nat where
  "MAX_ATTACHMENT_FILE_BYTES = 32 * 1024 * 1024"

datatype attachment_mime = Png | Jpeg | Webp | Gif | Pdf | Xlsx | Docx | Pptx | TextFile

fun mime_as_mime :: "attachment_mime \<Rightarrow> string" where
  "mime_as_mime Png = ''image/png''"
| "mime_as_mime Jpeg = ''image/jpeg''"
| "mime_as_mime Webp = ''image/webp''"
| "mime_as_mime Gif = ''image/gif''"
| "mime_as_mime Pdf = ''application/pdf''"
| "mime_as_mime Xlsx = XLSX_MIME"
| "mime_as_mime Docx = DOCX_MIME"
| "mime_as_mime Pptx = PPTX_MIME"
| "mime_as_mime TextFile = ''text/plain''"

fun mime_extension :: "attachment_mime \<Rightarrow> string" where
  "mime_extension Png = ''png''"
| "mime_extension Jpeg = ''jpg''"
| "mime_extension Webp = ''webp''"
| "mime_extension Gif = ''gif''"
| "mime_extension Pdf = ''pdf''"
| "mime_extension Xlsx = ''xlsx''"
| "mime_extension Docx = ''docx''"
| "mime_extension Pptx = ''pptx''"
| "mime_extension TextFile = ''txt''"

definition mime_from_mime :: "string \<Rightarrow> attachment_mime option" where
  "mime_from_mime raw = (let c = canonical_mime raw in
     if c = ''image/png'' then Some Png
     else if c = ''image/jpeg'' \<or> c = ''image/jpg'' then Some Jpeg
     else if c = ''image/webp'' then Some Webp
     else if c = ''image/gif'' then Some Gif
     else if c = ''application/pdf'' then Some Pdf
     else if c = XLSX_MIME then Some Xlsx
     else if c = DOCX_MIME then Some Docx
     else if c = PPTX_MIME then Some Pptx
     else if c \<in> set APPLICATION_TEXT then Some TextFile
     else if is_prefix ''text/'' c then Some TextFile
     else None)"

definition is_image :: "attachment_mime \<Rightarrow> bool" where
  "is_image m \<longleftrightarrow> m \<in> {Png, Jpeg, Webp, Gif}"

definition is_pdf :: "attachment_mime \<Rightarrow> bool" where "is_pdf m \<longleftrightarrow> m = Pdf"

definition is_office :: "attachment_mime \<Rightarrow> bool" where
  "is_office m \<longleftrightarrow> m \<in> {Xlsx, Docx, Pptx}"

definition is_text :: "attachment_mime \<Rightarrow> bool" where "is_text m \<longleftrightarrow> m = TextFile"

definition mime_max_bytes :: "attachment_mime \<Rightarrow> nat" where
  "mime_max_bytes m =
     (if is_image m then MAX_ATTACHMENT_IMAGE_BYTES else MAX_ATTACHMENT_FILE_BYTES)"

definition file_name_try_from :: "string \<Rightarrow> (string, parse_error) result" where
  "file_name_try_from raw = (let trimmed = trim raw in
     if trimmed = [] then Inl (Empty ''attachment.filename'')
     else if length trimmed > MAX_FILENAME_LEN
       then Inl (TooLong ''attachment.filename'' MAX_FILENAME_LEN (length trimmed))
     else if CHR ''/'' \<in> set trimmed \<or> CHR 0x5C \<in> set trimmed
         \<or> list_ex is_control (utf8_chars trimmed)
       then Inl (Malformed ''attachment.filename''
              ''must not contain path separators or control characters'')
     else Inr trimmed)"

record attachment =
  att_url :: string
  att_mime :: attachment_mime
  att_filename :: string
  att_size :: nat

record raw_attachment =
  raw_url :: string
  raw_mime :: string
  raw_filename :: string
  raw_size :: nat

definition attachment_try_from ::
  "(string \<Rightarrow> (string \<times> bool) option) \<Rightarrow> raw_attachment \<Rightarrow> (attachment, parse_error) result" where
  "attachment_try_from parse raw =
     (case asset_url_try_from parse (raw_url raw) of Inl e \<Rightarrow> Inl e | Inr url \<Rightarrow>
      (case mime_from_mime (raw_mime raw) of
         None \<Rightarrow> Inl (Malformed ''attachment.mime'' ''unsupported content type'')
       | Some mime \<Rightarrow>
         (case file_name_try_from (raw_filename raw) of Inl e \<Rightarrow> Inl e | Inr filename \<Rightarrow>
           if raw_size raw = 0
             then Inl (OutOfRange ''attachment.size'' ''must be greater than zero'')
           else if raw_size raw > mime_max_bytes mime
             then Inl (OutOfRange ''attachment.size'' ''exceeds the per-type byte cap'')
           else Inr \<lparr>att_url = url, att_mime = mime, att_filename = filename,
                      att_size = raw_size raw\<rparr>)))"

definition raw_of_attachment :: "attachment \<Rightarrow> raw_attachment" where
  "raw_of_attachment a =
     \<lparr>raw_url = att_url a, raw_mime = mime_as_mime (att_mime a), raw_filename = att_filename a,
      raw_size = att_size a\<rparr>"

section \<open>Messages\<close>

record tool_call =
  tc_id :: string
  tc_name :: string
  tc_input :: json

record tool_result =
  tr_call_id :: string
  tr_output :: string
  tr_is_error :: bool

datatype user_content =
    UText string
  | UToolResult tool_result
  | UImage attachment
  | UFile attachment

datatype assistant_content =
    CText string
  | CReasoning string
  | CToolCall tool_call

datatype chat_message =
    User "user_content list"
  | Assistant "assistant_content list"

datatype role = RUser | RAssistant

definition role_all :: "role list" where "role_all = [RUser, RAssistant]"

fun role_as_str :: "role \<Rightarrow> string" where
  "role_as_str RUser = ''user''"
| "role_as_str RAssistant = ''assistant''"

interpretation role: str_enum role_all role_as_str
proof unfold_locales
  show "v \<in> set role_all" for v by (cases v) (simp_all add: role_all_def)
  show "role_as_str v = role_as_str w \<Longrightarrow> v = w" for v w by (cases v; cases w) simp_all
qed

fun message_role :: "chat_message \<Rightarrow> role" where
  "message_role (User _) = RUser"
| "message_role (Assistant _) = RAssistant"

definition content_of_attachment :: "attachment \<Rightarrow> user_content" where
  "content_of_attachment a = (if is_image (att_mime a) then UImage a else UFile a)"

record usage =
  input_tokens :: nat
  output_tokens :: nat
  cache_creation_input_tokens :: "nat option"
  cache_read_input_tokens :: "nat option"

datatype stop_reason = EndTurn | ToolUse | MaxTokens | OtherStop string

record chat_response =
  resp_content :: "assistant_content list"
  resp_stop_reason :: stop_reason
  resp_usage :: usage
  resp_model :: "string option"

definition tool_calls :: "chat_response \<Rightarrow> tool_call list" where
  "tool_calls r = List.map_filter (\<lambda>c. case c of CToolCall t \<Rightarrow> Some t | _ \<Rightarrow> None) (resp_content r)"

definition response_text :: "chat_response \<Rightarrow> string" where
  "response_text r = fold (\<lambda>c out. case c of
       CText t \<Rightarrow> (if out \<noteq> [] then out @ newline else out) @ t
     | _ \<Rightarrow> out) (resp_content r) []"

section \<open>Facts\<close>

lemma mime_roundtrip: "mime_from_mime (mime_as_mime m) = Some m"
  by (induct m; code_simp)

lemma mime_classes: "(if is_image m then 1 else 0) + (if is_pdf m then 1 else 0)
    + (if is_office m then 1 else 0) + (if is_text m then 1 else 0) = (1::nat)"
  by (cases m) (simp_all add: is_image_def is_pdf_def is_office_def is_text_def)

lemma file_name_Inr:
  assumes "file_name_try_from raw = Inr f"
  shows "f = trim raw \<and> file_name_try_from f = Inr f"
  using assms by (auto simp: file_name_try_from_def Let_def split: if_splits)

lemma attachment_Inr:
  assumes "attachment_try_from p raw = Inr a"
  shows "asset_url_try_from p (raw_url raw) = Inr (att_url a)"
    "mime_from_mime (raw_mime raw) = Some (att_mime a)"
    "file_name_try_from (raw_filename raw) = Inr (att_filename a)"
    "att_size a = raw_size raw" "0 < att_size a" "att_size a \<le> mime_max_bytes (att_mime a)"
  using assms
  by (auto simp: attachment_try_from_def split: sum.splits option.splits if_splits)

end
