(* ===== verification/Response_Hub.thy ===== *)
theory Response_Hub
  imports Chat_Types Prompt_Queue
begin

text \<open>
  The response hub (\<open>runtime/pg_response.rs\<close>, \<open>runtime/response.rs\<close>). A publish is two phases:
  a transaction that numbers and stores the chunk, then the fan-out on the in-process broadcast
  channel of the request. Between them the call holds the stored chunk in a local variable; the
  field \<open>rh_inflight\<close> lists those of all running calls. A broadcast channel (\<open>tokio\<close>) is the log of
  what was sent on it, a receiver is a position in that log; \<open>ch_request\<close> records for which
  request a channel was made. Payloads are stored as JSON in the code and as chunks here.
\<close>

section \<open>Chunks\<close>

datatype response_chunk =
    RcText string
  | RcReasoning string
  | RcToolCall tool_call
  | RcToolResult tool_result
  | RcAgentMessage uuid uuid string "uuid option"   \<comment> \<open>from, to thread, content, to\<close>
  | RcWireMcpRequest uuid string string string string "string option"
      \<comment> \<open>from, catalog id, display name, reason, auth kind, homepage\<close>
  | RcDone string
  | RcError string string   \<comment> \<open>reason, code\<close>
  | RcStalled

fun chunk_is_terminal :: "response_chunk \<Rightarrow> bool" where
  "chunk_is_terminal (RcDone _) = True"
| "chunk_is_terminal (RcError _ _) = True"
| "chunk_is_terminal _ = False"

fun event_kind :: "response_chunk \<Rightarrow> string" where
  "event_kind (RcText _) = ''text''"
| "event_kind (RcReasoning _) = ''reasoning''"
| "event_kind (RcToolCall _) = ''tool_call''"
| "event_kind (RcToolResult _) = ''tool_result''"
| "event_kind (RcAgentMessage _ _ _ _) = ''agent_message''"
| "event_kind (RcWireMcpRequest _ _ _ _ _ _) = ''wire_mcp_request''"
| "event_kind (RcDone _) = ''done''"
| "event_kind (RcError _ _) = ''error''"
| "event_kind RcStalled = ''stalled''"

text \<open>\<open>js\<close> is \<open>serde_json\<close>'s printer.\<close>

fun chunk_weight :: "(json \<Rightarrow> string) \<Rightarrow> response_chunk \<Rightarrow> nat" where
  "chunk_weight js (RcText v) = length v"
| "chunk_weight js (RcReasoning v) = length v"
| "chunk_weight js (RcError r c) = length r + length c"
| "chunk_weight js (RcDone t) = length t"
| "chunk_weight js (RcAgentMessage _ _ c _) = length c + 36"
| "chunk_weight js (RcWireMcpRequest _ cat name r _ home) =
     length cat + length name + length r + (case home of None \<Rightarrow> 0 | Some h \<Rightarrow> length h) + 36"
| "chunk_weight js (RcToolCall c) = length (tc_id c) + length (tc_name c) + length (js (tc_input c))"
| "chunk_weight js (RcToolResult r) = length (tr_call_id r) + length (tr_output r)"
| "chunk_weight js RcStalled = 0"

definition from_failure :: "failure_reason \<Rightarrow> response_chunk" where
  "from_failure r = RcError (failure_display r) (failure_label r)"

lemma from_failure_terminal [simp]: "chunk_is_terminal (from_failure r)"
  by (simp add: from_failure_def)

record envelope =
  env_seq :: chunk_seq
  env_chunk :: response_chunk

datatype stream_event = EvChunk envelope | EvStalled

datatype response_error =
    StreamNotFound uuid
  | Lagged
  | ResponseSequence seq_overflow
  | ResponseBackend string
  | ResponseDb db_error

section \<open>State\<close>

record stream_row =
  st_request :: uuid
  st_org :: uuid
  st_next_seq :: nat
  st_closed :: bool

record chunk_row =
  ck_request :: uuid
  ck_org :: uuid
  ck_seq :: nat
  ck_payload :: response_chunk
  ck_bytes :: nat
  ck_is_terminal :: bool
  ck_created_at :: timestamp

record channel =
  ch_request :: uuid
  ch_log :: "envelope list"

record stream_slot =
  slot_tx :: nat
  slot_closed :: bool

record persisted_chunk =
  pc_request :: uuid
  pc_seq :: chunk_seq
  pc_envelope :: envelope
  pc_terminal :: bool

record response_hub =
  rh_streams :: "stream_row list"
  rh_chunks :: "chunk_row list"
  rh_notifications :: "(uuid \<times> uuid option \<times> nat) list"
  rh_slots :: "uuid \<rightharpoonup> stream_slot"
  rh_order :: "uuid list"
  rh_channels :: "channel list"
  rh_inflight :: "persisted_chunk list"

definition MAX_RESPONSE_SLOTS :: nat where "MAX_RESPONSE_SLOTS = 4096"
definition MAX_CHUNK_BUFFER_PER_REQUEST :: nat where "MAX_CHUNK_BUFFER_PER_REQUEST = 256"

definition empty_hub :: response_hub where
  "empty_hub = \<lparr>rh_streams = [], rh_chunks = [], rh_notifications = [], rh_slots = Map.empty,
     rh_order = [], rh_channels = [], rh_inflight = []\<rparr>"

section \<open>The slot table\<close>

text \<open>\<open>VecDeque::remove(idx)\<close> at the first closed slot, else \<open>pop_front\<close>.\<close>

definition slot_is_closed :: "response_hub \<Rightarrow> uuid \<Rightarrow> bool" where
  "slot_is_closed h i = (case rh_slots h i of Some s \<Rightarrow> slot_closed s | None \<Rightarrow> False)"

definition eviction_victim :: "response_hub \<Rightarrow> uuid option" where
  "eviction_victim h =
     (case find (slot_is_closed h) (rh_order h) of
        Some i \<Rightarrow> Some i
      | None \<Rightarrow> (case rh_order h of [] \<Rightarrow> None | i # _ \<Rightarrow> Some i))"

definition evict_one :: "response_hub \<Rightarrow> response_hub" where
  "evict_one h =
     (case eviction_victim h of
        None \<Rightarrow> h
      | Some i \<Rightarrow> h\<lparr>rh_slots := (rh_slots h)(i := None), rh_order := remove1 i (rh_order h)\<rparr>)"

definition new_slot :: "response_hub \<Rightarrow> uuid \<Rightarrow> response_hub" where
  "new_slot h i =
     h\<lparr>rh_slots := (rh_slots h)(i \<mapsto> \<lparr>slot_tx = length (rh_channels h), slot_closed = False\<rparr>),
       rh_order := rh_order h @ [i],
       rh_channels := rh_channels h @ [\<lparr>ch_request = i, ch_log = []\<rparr>]\<rparr>"

definition touch_slot :: "nat \<Rightarrow> response_hub \<Rightarrow> uuid \<Rightarrow> response_hub" where
  "touch_slot cap h i =
     (if rh_slots h i \<noteq> None then h
      else new_slot (if length (rh_order h) \<ge> cap then evict_one h else h) i)"

text \<open>The slot \<open>touch_slot\<close> returns: present, since it was there or was just inserted.\<close>

definition slot_of :: "response_hub \<Rightarrow> uuid \<Rightarrow> stream_slot" where
  "slot_of h i = (case rh_slots h i of Some s \<Rightarrow> s | None \<Rightarrow> \<lparr>slot_tx = 0, slot_closed = False\<rparr>)"

definition set_closed :: "response_hub \<Rightarrow> uuid \<Rightarrow> response_hub" where
  "set_closed h i = h\<lparr>rh_slots := (rh_slots h)(i \<mapsto> (slot_of h i)\<lparr>slot_closed := True\<rparr>)\<rparr>"

definition subscribe_live :: "nat \<Rightarrow> response_hub \<Rightarrow> uuid \<Rightarrow> (nat \<times> nat) \<times> bool \<times> response_hub" where
  "subscribe_live cap h i =
     (let h' = touch_slot cap h i; s = slot_of h' i
      in ((slot_tx s, length (ch_log (rh_channels h' ! slot_tx s))), slot_closed s, h'))"

definition publish_sender ::
  "nat \<Rightarrow> response_hub \<Rightarrow> uuid \<Rightarrow> bool \<Rightarrow> (nat, response_error) result \<times> response_hub" where
  "publish_sender cap h i terminal =
     (let h' = touch_slot cap h i; s = slot_of h' i
      in if slot_closed s then (Inl (ResponseBackend ''request stream already closed''), h')
         else (Inr (slot_tx s), if terminal then set_closed h' i else h'))"

definition mark_closed :: "nat \<Rightarrow> response_hub \<Rightarrow> uuid \<Rightarrow> response_hub" where
  "mark_closed cap h i = set_closed (touch_slot cap h i) i"

definition send :: "response_hub \<Rightarrow> nat \<Rightarrow> envelope \<Rightarrow> response_hub" where
  "send h tx e =
     h\<lparr>rh_channels := (rh_channels h)[tx := (rh_channels h ! tx)
         \<lparr>ch_log := ch_log (rh_channels h ! tx) @ [e]\<rparr>]\<rparr>"

section \<open>Publish and close\<close>

text \<open>Which rows a transaction sees: all of them, or those of the acting user's orgs.\<close>

datatype db_actor = Privileged | ActingUser uuid

definition org_visible :: "queue_db \<Rightarrow> db_actor \<Rightarrow> uuid \<Rightarrow> bool" where
  "org_visible db actor org =
     (case actor of Privileged \<Rightarrow> True | ActingUser u \<Rightarrow> app_user_is_member db u org)"

definition visible_request :: "queue_db \<Rightarrow> db_actor \<Rightarrow> uuid \<Rightarrow> prompt_row option" where
  "visible_request db actor i =
     find (\<lambda>r. pr_id r = i \<and> org_visible db actor (pr_org r)) (prompt_requests db)"

definition stream_of :: "response_hub \<Rightarrow> uuid \<Rightarrow> stream_row option" where
  "stream_of h i = find (\<lambda>s. st_request s = i) (rh_streams h)"

definition next_seq :: "response_hub \<Rightarrow> uuid \<Rightarrow> nat" where
  "next_seq h i = (case stream_of h i of None \<Rightarrow> 0 | Some s \<Rightarrow> st_next_seq s)"

text \<open>\<open>INSERT .. ON CONFLICT (request_id) DO UPDATE\<close> of the stream row.\<close>

definition bump_stream :: "uuid \<Rightarrow> uuid \<Rightarrow> bool \<Rightarrow> stream_row list \<Rightarrow> stream_row list" where
  "bump_stream i org terminal ss =
     (if \<exists>s \<in> set ss. st_request s = i
      then update_where (\<lambda>s. st_request s = i)
             (\<lambda>s. s\<lparr>st_next_seq := st_next_seq s + 1, st_closed := st_closed s \<or> terminal\<rparr>) ss
      else ss @ [\<lparr>st_request = i, st_org = org, st_next_seq = 1, st_closed = terminal\<rparr>])"

definition close_stream :: "uuid \<Rightarrow> uuid \<Rightarrow> stream_row list \<Rightarrow> stream_row list" where
  "close_stream i org ss =
     (if \<exists>s \<in> set ss. st_request s = i
      then update_where (\<lambda>s. st_request s = i) (\<lambda>s. s\<lparr>st_closed := True\<rparr>) ss
      else ss @ [\<lparr>st_request = i, st_org = org, st_next_seq = 0, st_closed = True\<rparr>])"

text \<open>The update arm is row-level checked against the row it finds.\<close>

definition stream_writable :: "queue_db \<Rightarrow> db_actor \<Rightarrow> response_hub \<Rightarrow> uuid \<Rightarrow> bool" where
  "stream_writable db actor h i =
     (case stream_of h i of None \<Rightarrow> True | Some s \<Rightarrow> org_visible db actor (st_org s))"

definition chunk_row_of ::
  "(json \<Rightarrow> string) \<Rightarrow> timestamp \<Rightarrow> prompt_row \<Rightarrow> nat \<Rightarrow> response_chunk \<Rightarrow> chunk_row" where
  "chunk_row_of js now r n chunk =
     \<lparr>ck_request = pr_id r, ck_org = pr_org r, ck_seq = n, ck_payload = chunk,
      ck_bytes = min (chunk_weight js chunk) (nat i32_max),
      ck_is_terminal = chunk_is_terminal chunk, ck_created_at = now\<rparr>"

definition publish_in_tx ::
  "(json \<Rightarrow> string) \<Rightarrow> queue_db \<Rightarrow> timestamp \<Rightarrow> db_actor \<Rightarrow> response_hub \<Rightarrow> uuid \<Rightarrow> response_chunk
   \<Rightarrow> (persisted_chunk, response_error) result \<times> response_hub" where
  "publish_in_tx js db now actor h i chunk =
     (case visible_request db actor i of
        None \<Rightarrow> (Inl (ResponseBackend ''publish: request has no prompt_requests row''), h)
      | Some r \<Rightarrow>
          (let n = next_seq h i; terminal = chunk_is_terminal chunk in
           if \<not> stream_writable db actor h i then (Inl (ResponseDb RlsViolation), h)
           else if int n + 1 > i64_max then (Inl (ResponseDb NumericOutOfRange), h)
           else if \<exists>c \<in> set (rh_chunks h). ck_request c = i \<and> ck_seq c = n
             then (Inl (ResponseDb UniqueViolation), h)
           else
             (Inr \<lparr>pc_request = i, pc_seq = n, pc_envelope = \<lparr>env_seq = n, env_chunk = chunk\<rparr>,
                   pc_terminal = terminal\<rparr>,
              h\<lparr>rh_streams := bump_stream i (pr_org r) terminal (rh_streams h),
                rh_chunks := rh_chunks h @ [chunk_row_of js now r n chunk],
                rh_notifications := rh_notifications h @ [(i, pr_thread r, n)]\<rparr>)))"

definition close_in_tx ::
  "queue_db \<Rightarrow> db_actor \<Rightarrow> response_hub \<Rightarrow> uuid \<Rightarrow> (unit, response_error) result \<times> response_hub" where
  "close_in_tx db actor h i =
     (case visible_request db actor i of
        None \<Rightarrow> (Inr (), h)
      | Some r \<Rightarrow>
          if \<not> stream_writable db actor h i then (Inl (ResponseDb RlsViolation), h)
          else (Inr (), h\<lparr>rh_streams := close_stream i (pr_org r) (rh_streams h)\<rparr>))"

definition fanout_after_commit ::
  "nat \<Rightarrow> response_hub \<Rightarrow> persisted_chunk \<Rightarrow> (chunk_seq, response_error) result \<times> response_hub" where
  "fanout_after_commit cap h p =
     (case publish_sender cap h (pc_request p) (pc_terminal p) of
        (Inl e, h') \<Rightarrow> (Inl e, h')
      | (Inr tx, h') \<Rightarrow> (Inr (pc_seq p), send h' tx (pc_envelope p)))"

text \<open>\<open>publish\<close> is the privileged actor, \<open>publish_for_user\<close> the acting user; likewise \<open>close\<close>.\<close>

definition publish_as ::
  "nat \<Rightarrow> (json \<Rightarrow> string) \<Rightarrow> queue_db \<Rightarrow> timestamp \<Rightarrow> db_actor \<Rightarrow> response_hub \<Rightarrow> uuid
   \<Rightarrow> response_chunk \<Rightarrow> (chunk_seq, response_error) result \<times> response_hub" where
  "publish_as cap js db now actor h i chunk =
     (case publish_in_tx js db now actor h i chunk of
        (Inl e, h') \<Rightarrow> (Inl e, h')
      | (Inr p, h') \<Rightarrow> fanout_after_commit cap h' p)"

definition close_as ::
  "nat \<Rightarrow> queue_db \<Rightarrow> db_actor \<Rightarrow> response_hub \<Rightarrow> uuid \<Rightarrow> (unit, response_error) result \<times> response_hub" where
  "close_as cap db actor h i =
     (case close_in_tx db actor h i of
        (Inl e, h') \<Rightarrow> (Inl e, h')
      | (Inr u, h') \<Rightarrow> (Inr u, mark_closed cap h' i))"

section \<open>Subscribe\<close>

definition envelope_of :: "chunk_row \<Rightarrow> envelope" where
  "envelope_of c = \<lparr>env_seq = ck_seq c, env_chunk = ck_payload c\<rparr>"

definition after_since :: "nat option \<Rightarrow> nat \<Rightarrow> bool" where
  "after_since since n = (case since of None \<Rightarrow> True | Some s \<Rightarrow> n > s)"

definition backlog_rows :: "response_hub \<Rightarrow> uuid \<Rightarrow> nat option \<Rightarrow> chunk_row list" where
  "backlog_rows h i since =
     sort_key ck_seq (filter (\<lambda>c. ck_request c = i \<and> after_since since (ck_seq c)) (rh_chunks h))"

definition read_backlog :: "response_hub \<Rightarrow> uuid \<Rightarrow> nat option \<Rightarrow> stream_event list \<times> nat option" where
  "read_backlog h i since =
     (let rows = backlog_rows h i since
      in (map (\<lambda>c. EvChunk (envelope_of c)) rows,
          fold (\<lambda>c m. Some (case m of None \<Rightarrow> ck_seq c | Some k \<Rightarrow> max k (ck_seq c))) rows since))"

text \<open>What a broadcast receiver yields: an item, or the number of items it lost by lagging.\<close>

datatype recv_item = Recv envelope | RecvLagged nat

definition filter_live_item :: "nat option \<Rightarrow> recv_item \<Rightarrow> stream_event option" where
  "filter_live_item threshold item =
     (case item of
        Recv e \<Rightarrow> (case threshold of
            Some t \<Rightarrow> if env_seq e \<le> t then None else Some (EvChunk e)
          | None \<Rightarrow> Some (EvChunk e))
      | RecvLagged _ \<Rightarrow> Some EvStalled)"

definition filter_live_stream :: "recv_item list \<Rightarrow> nat option \<Rightarrow> stream_event list" where
  "filter_live_stream items threshold = List.map_filter (filter_live_item threshold) items"

text \<open>
  The receiver of a broadcast channel as its library documents it: at position \<open>p\<close> it is polled when \<open>n\<close> values have been sent. The channel keeps
  the last \<open>cap\<close> of them: a receiver further behind is told how many it lost and goes on at the
  oldest kept one; one that has read all waits. The result is what the polls \<open>ns\<close> yield, and the position
  they leave.
\<close>

fun receive :: "nat \<Rightarrow> envelope list \<Rightarrow> nat \<Rightarrow> nat list \<Rightarrow> recv_item list \<times> nat" where
  "receive cap sent p [] = ([], p)"
| "receive cap sent p (n # ns) =
     (if n \<le> p then receive cap sent p ns
      else if n - p > cap then (case receive cap sent (n - cap) ns of (items, q) \<Rightarrow> (RecvLagged (n - cap - p) # items, q))
      else (case receive cap sent (p + 1) ns of (items, q) \<Rightarrow> (Recv (sent ! p) # items, q)))"

text \<open>
  The stream a subscriber reads whose backlog was read at \<open>h2\<close> and whose receiver was polled as \<open>ns\<close>
  says, up to \<open>h3\<close>; with it the position of the receiver.
\<close>

definition subscribe_stream ::
  "response_hub \<Rightarrow> response_hub \<Rightarrow> nat \<times> nat \<Rightarrow> uuid \<Rightarrow> nat option \<Rightarrow> nat list \<Rightarrow> stream_event list \<times> nat" where
  "subscribe_stream h2 h3 rx i since ns =
     (case read_backlog h2 i since of (backlog, m) \<Rightarrow>
      case receive MAX_CHUNK_BUFFER_PER_REQUEST (ch_log (rh_channels h3 ! fst rx)) (snd rx) ns of (items, q) \<Rightarrow>
        (backlog @ filter_live_stream items m, q))"

section \<open>The hub as a transition system\<close>

datatype hub_event =
    HPublishCommit "json \<Rightarrow> string" queue_db timestamp db_actor uuid response_chunk
  | HFanout nat
  | HCloseCommit queue_db db_actor uuid
  | HMarkClosed uuid
  | HSubscribe uuid

text \<open>One atomic action of some running call: each is a transaction or one critical section.\<close>

fun hub_next :: "nat \<Rightarrow> hub_event \<Rightarrow> response_hub \<Rightarrow> response_hub" where
  "hub_next cap (HPublishCommit js db now actor i chunk) h =
     (case publish_in_tx js db now actor h i chunk of
        (Inl e, h') \<Rightarrow> h'
      | (Inr p, h') \<Rightarrow> h'\<lparr>rh_inflight := rh_inflight h' @ [p]\<rparr>)"
| "hub_next cap (HFanout k) h =
     (if k < length (rh_inflight h)
      then snd (fanout_after_commit cap
             (h\<lparr>rh_inflight := take k (rh_inflight h) @ drop (Suc k) (rh_inflight h)\<rparr>)
             (rh_inflight h ! k))
      else h)"
| "hub_next cap (HCloseCommit db actor i) h = snd (close_in_tx db actor h i)"
| "hub_next cap (HMarkClosed i) h = mark_closed cap h i"
| "hub_next cap (HSubscribe i) h = snd (snd (subscribe_live cap h i))"

definition hub_step :: "nat \<Rightarrow> response_hub \<Rightarrow> hub_event \<Rightarrow> response_hub \<Rightarrow> bool" where
  "hub_step cap h e h' \<longleftrightarrow> h' = hub_next cap e h"

end
