(* ===== verification/Response_Hub_Laws.thy ===== *)
theory Response_Hub_Laws
  imports Response_Hub "HOL-Library.Multiset"
begin

text \<open>
  The invariant of the response hub, its preservation by every atomic action, and the order in
  which the hub only grows. The persisted log of a request is gap-free; the slot table stays
  within its cap; whatever a channel carried is stored; no stored chunk is sent twice.
\<close>

section \<open>Invariant\<close>

definition chunk_seqs :: "response_hub \<Rightarrow> uuid \<Rightarrow> nat list" where
  "chunk_seqs h i = map ck_seq (filter (\<lambda>c. ck_request c = i) (rh_chunks h))"

definition log_inv :: "response_hub \<Rightarrow> bool" where
  "log_inv h \<longleftrightarrow> distinct (map st_request (rh_streams h))
     \<and> (\<forall>i. chunk_seqs h i = [0..<next_seq h i])"

definition table_inv :: "nat \<Rightarrow> response_hub \<Rightarrow> bool" where
  "table_inv cap h \<longleftrightarrow> distinct (rh_order h) \<and> set (rh_order h) = dom (rh_slots h)
     \<and> length (rh_order h) \<le> cap"

definition slots_inv :: "response_hub \<Rightarrow> bool" where
  "slots_inv h \<longleftrightarrow> (\<forall>i s. rh_slots h i = Some s \<longrightarrow>
     slot_tx s < length (rh_channels h) \<and> ch_request (rh_channels h ! slot_tx s) = i)"

definition stored :: "response_hub \<Rightarrow> uuid \<Rightarrow> envelope \<Rightarrow> bool" where
  "stored h i e \<longleftrightarrow> (\<exists>c \<in> set (rh_chunks h). ck_request c = i \<and> envelope_of c = e)"

definition channel_items :: "channel \<Rightarrow> (uuid \<times> envelope) list" where
  "channel_items c = map (\<lambda>e. (ch_request c, e)) (ch_log c)"

definition sent_items :: "response_hub \<Rightarrow> (uuid \<times> envelope) list" where
  "sent_items h = concat (map channel_items (rh_channels h))"

definition inflight_items :: "response_hub \<Rightarrow> (uuid \<times> envelope) list" where
  "inflight_items h = map (\<lambda>p. (pc_request p, pc_envelope p)) (rh_inflight h)"

definition items :: "response_hub \<Rightarrow> (uuid \<times> envelope) list" where
  "items h = sent_items h @ inflight_items h"

definition items_inv :: "response_hub \<Rightarrow> bool" where
  "items_inv h \<longleftrightarrow> distinct (map (\<lambda>x. (fst x, env_seq (snd x))) (items h))
     \<and> (\<forall>x \<in> set (items h). stored h (fst x) (snd x))"

definition hub_inv :: "nat \<Rightarrow> response_hub \<Rightarrow> bool" where
  "hub_inv cap h \<longleftrightarrow> log_inv h \<and> table_inv cap h \<and> slots_inv h \<and> items_inv h"

lemmas hub_inv_defs = log_inv_def table_inv_def slots_inv_def items_inv_def

section \<open>The slot table\<close>

definition same_store :: "response_hub \<Rightarrow> response_hub \<Rightarrow> bool" where
  "same_store h h' \<longleftrightarrow> rh_streams h' = rh_streams h \<and> rh_chunks h' = rh_chunks h
     \<and> rh_notifications h' = rh_notifications h \<and> rh_inflight h' = rh_inflight h"

lemma same_store_refl [simp]: "same_store h h"
  by (simp add: same_store_def)

lemma same_store_trans: "same_store h h' \<Longrightarrow> same_store h' h'' \<Longrightarrow> same_store h h''"
  by (simp add: same_store_def)

lemma same_store_table [simp]:
  "same_store h (evict_one h)" "same_store h (new_slot h i)" "same_store h (set_closed h i)"
  "same_store h (send h tx e)"
  by (auto simp: same_store_def evict_one_def new_slot_def set_closed_def send_def
      split: option.split)

lemma same_store_touch [simp]: "same_store h (touch_slot cap h i)"
  by (auto simp: touch_slot_def intro: same_store_trans same_store_table)

lemma same_store_log_inv: "same_store h h' \<Longrightarrow> log_inv h' = log_inv h"
  by (simp add: same_store_def log_inv_def chunk_seqs_def next_seq_def stream_of_def)

lemma same_store_stored: "same_store h h' \<Longrightarrow> stored h' i e = stored h i e"
  by (simp add: same_store_def stored_def)

lemma same_store_inflight: "same_store h h' \<Longrightarrow> inflight_items h' = inflight_items h"
  by (simp add: same_store_def inflight_items_def)

lemma victim_mem: "eviction_victim h = Some i \<Longrightarrow> i \<in> set (rh_order h)"
  by (auto simp: eviction_victim_def dest: find_Some_mem split: option.splits list.splits)

lemma victim_None: "eviction_victim h = None \<Longrightarrow> rh_order h = []"
  by (auto simp: eviction_victim_def split: option.splits list.splits)

lemma evict_one_order: "length (rh_order (evict_one h)) = length (rh_order h) - 1"
  by (auto simp: evict_one_def dest: victim_None victim_mem split: option.splits
      simp: length_remove1)

lemma evict_one_table: "table_inv cap h \<Longrightarrow> table_inv cap (evict_one h)"
  by (auto simp: table_inv_def evict_one_def length_remove1 split: option.split
      dest: victim_mem)

lemma evict_one_channels [simp]: "rh_channels (evict_one h) = rh_channels h"
  by (simp add: evict_one_def split: option.split)

lemma evict_one_slots: "slots_inv h \<Longrightarrow> slots_inv (evict_one h)"
  by (auto simp: slots_inv_def evict_one_def split: option.split)

lemma new_slot_table:
  "table_inv cap h \<Longrightarrow> rh_slots h i = None \<Longrightarrow> length (rh_order h) < cap \<Longrightarrow>
   table_inv cap (new_slot h i)"
  by (auto simp: table_inv_def new_slot_def)

lemma evict_one_absent: "rh_slots h i = None \<Longrightarrow> rh_slots (evict_one h) i = None"
  by (simp add: evict_one_def split: option.split)

lemma touch_slot_table: "0 < cap \<Longrightarrow> table_inv cap h \<Longrightarrow> table_inv cap (touch_slot cap h i)"
proof (cases "rh_slots h i = None \<and> length (rh_order h) \<ge> cap")
  case True
  moreover assume "0 < cap" "table_inv cap h"
  moreover have "length (rh_order (evict_one h)) < cap"
    using True \<open>0 < cap\<close> \<open>table_inv cap h\<close> unfolding evict_one_order table_inv_def by linarith
  ultimately show ?thesis
    by (simp add: touch_slot_def new_slot_table evict_one_table evict_one_absent)
next
  case False
  moreover assume "table_inv cap h"
  ultimately show ?thesis by (auto simp: touch_slot_def new_slot_table)
qed

lemma new_slot_slots: "slots_inv h \<Longrightarrow> slots_inv (new_slot h i)"
  by (auto simp: slots_inv_def new_slot_def nth_append less_Suc_eq split: if_splits)

lemma touch_slot_slots: "slots_inv h \<Longrightarrow> slots_inv (touch_slot cap h i)"
  by (auto simp: touch_slot_def intro: new_slot_slots evict_one_slots)

lemma new_slot_sent [simp]: "sent_items (new_slot h i) = sent_items h"
  by (simp add: sent_items_def new_slot_def channel_items_def)

lemma touch_slot_sent [simp]: "sent_items (touch_slot cap h i) = sent_items h"
  by (auto simp: touch_slot_def sent_items_def [of "evict_one h"] sent_items_def [of h])

lemma same_items_inv:
  "same_store h h' \<Longrightarrow> sent_items h' = sent_items h \<Longrightarrow> items_inv h' = items_inv h"
  by (simp add: items_inv_def items_def same_store_inflight same_store_stored)

lemma touch_slot_present: "\<exists>s. rh_slots (touch_slot cap h i) i = Some s"
  by (auto simp: touch_slot_def new_slot_def)

lemma touch_slot_inv: "0 < cap \<Longrightarrow> hub_inv cap h \<Longrightarrow> hub_inv cap (touch_slot cap h i)"
  by (simp add: hub_inv_def touch_slot_table touch_slot_slots
      same_store_log_inv [OF same_store_touch] same_items_inv [OF same_store_touch])

lemma set_closed_inv:
  assumes "hub_inv cap h" "rh_slots h i = Some s"
  shows "hub_inv cap (set_closed h i)"
proof -
  have "table_inv cap (set_closed h i)" "slots_inv (set_closed h i)"
    using assms by (auto simp: hub_inv_def table_inv_def slots_inv_def set_closed_def slot_of_def)
  moreover have "sent_items (set_closed h i) = sent_items h"
    by (simp add: sent_items_def set_closed_def)
  ultimately show ?thesis
    using assms by (simp add: hub_inv_def same_store_log_inv [OF same_store_table(3)]
        same_items_inv [OF same_store_table(3)])
qed

lemma mark_closed_inv: "0 < cap \<Longrightarrow> hub_inv cap h \<Longrightarrow> hub_inv cap (mark_closed cap h i)"
  using touch_slot_present [of cap h i]
  by (auto simp: mark_closed_def intro: set_closed_inv touch_slot_inv)

lemma same_store_mark_closed: "same_store h (mark_closed cap h i)"
  unfolding mark_closed_def by (rule same_store_trans [OF same_store_touch same_store_table(3)])

lemma subscribe_live_hub: "snd (snd (subscribe_live cap h i)) = touch_slot cap h i"
  by (simp add: subscribe_live_def Let_def)

section \<open>Publish and close\<close>

lemma stream_of_mem: "stream_of h i = None \<longleftrightarrow> (\<forall>s \<in> set (rh_streams h). st_request s \<noteq> i)"
  by (simp add: stream_of_def find_None_mem)

lemma find_bump_stream:
  "find (\<lambda>s. st_request s = j) (bump_stream i org t ss) =
   (if j = i then Some (case find (\<lambda>s. st_request s = i) ss of
        None \<Rightarrow> \<lparr>st_request = i, st_org = org, st_next_seq = 1, st_closed = t\<rparr>
      | Some s \<Rightarrow> s\<lparr>st_next_seq := st_next_seq s + 1, st_closed := st_closed s \<or> t\<rparr>)
    else find (\<lambda>s. st_request s = j) ss)"
proof (cases "\<exists>s \<in> set ss. st_request s = i")
  case True
  then obtain s where "find (\<lambda>s. st_request s = i) ss = Some s"
    by (meson find_None_mem option.exhaust)
  with True show ?thesis
    by (auto simp: bump_stream_def find_update_where dest: find_Some_mem
        split: option.split intro!: option.map_ident_strong)
next
  case False
  then have "find (\<lambda>s. st_request s = i) ss = None" by (simp add: find_None_mem)
  with False show ?thesis by (auto simp: bump_stream_def find_append split: option.split)
qed

lemma find_close_stream:
  "find (\<lambda>s. st_request s = j) (close_stream i org ss) =
   (if j = i then Some (case find (\<lambda>s. st_request s = i) ss of
        None \<Rightarrow> \<lparr>st_request = i, st_org = org, st_next_seq = 0, st_closed = True\<rparr>
      | Some s \<Rightarrow> s\<lparr>st_closed := True\<rparr>)
    else find (\<lambda>s. st_request s = j) ss)"
proof (cases "\<exists>s \<in> set ss. st_request s = i")
  case True
  then obtain s where "find (\<lambda>s. st_request s = i) ss = Some s"
    by (meson find_None_mem option.exhaust)
  with True show ?thesis
    by (auto simp: close_stream_def find_update_where dest: find_Some_mem
        split: option.split intro!: option.map_ident_strong)
next
  case False
  then have "find (\<lambda>s. st_request s = i) ss = None" by (simp add: find_None_mem)
  with False show ?thesis by (auto simp: close_stream_def find_append split: option.split)
qed

lemma distinct_bump_stream:
  "distinct (map st_request ss) \<Longrightarrow> distinct (map st_request (bump_stream i org t ss))"
  by (auto simp: bump_stream_def map_update_where)

lemma distinct_close_stream:
  "distinct (map st_request ss) \<Longrightarrow> distinct (map st_request (close_stream i org ss))"
  by (auto simp: close_stream_def map_update_where)

lemma publish_in_txE:
  assumes "publish_in_tx js db now actor h i chunk = (Inr p, h')"
  obtains r where "visible_request db actor i = Some r" "pr_id r = i"
    "p = \<lparr>pc_request = i, pc_seq = next_seq h i,
          pc_envelope = \<lparr>env_seq = next_seq h i, env_chunk = chunk\<rparr>,
          pc_terminal = chunk_is_terminal chunk\<rparr>"
    "h' = h\<lparr>rh_streams := bump_stream i (pr_org r) (chunk_is_terminal chunk) (rh_streams h),
            rh_chunks := rh_chunks h @ [chunk_row_of js now r (next_seq h i) chunk],
            rh_notifications := rh_notifications h @ [(i, pr_thread r, next_seq h i)]\<rparr>"
  using assms
  by (auto simp: publish_in_tx_def Let_def visible_request_def dest: find_Some_mem
      split: option.splits if_splits)

lemma publish_in_tx_Inl:
  "publish_in_tx js db now actor h i chunk = (Inl e, h') \<Longrightarrow> h' = h"
  by (auto simp: publish_in_tx_def Let_def split: option.splits if_splits)

lemma next_seq_bump:
  "next_seq (h\<lparr>rh_streams := bump_stream i org t (rh_streams h), rh_chunks := cs,
     rh_notifications := ns\<rparr>) j = (if j = i then next_seq h i + 1 else next_seq h j)"
  by (auto simp: next_seq_def stream_of_def find_bump_stream split: option.split)

lemma stored_mono: "stored h i e \<Longrightarrow> set (rh_chunks h) \<subseteq> set (rh_chunks h') \<Longrightarrow> stored h' i e"
  by (auto simp: stored_def)

lemma stored_seq_less: "log_inv h \<Longrightarrow> stored h i e \<Longrightarrow> env_seq e < next_seq h i"
proof -
  assume "log_inv h" "stored h i e"
  then have "env_seq e \<in> set (chunk_seqs h i)"
    by (auto simp: stored_def chunk_seqs_def envelope_of_def)
  with \<open>log_inv h\<close> show ?thesis by (simp add: log_inv_def)
qed

lemma publish_commit_inv:
  assumes inv: "hub_inv cap h" and pub: "publish_in_tx js db now actor h i chunk = (Inr p, h')"
  shows "hub_inv cap (h'\<lparr>rh_inflight := rh_inflight h' @ [p]\<rparr>)" (is "hub_inv cap ?h")
proof -
  from pub obtain r where r: "pr_id r = i"
    and p: "p = \<lparr>pc_request = i, pc_seq = next_seq h i,
          pc_envelope = \<lparr>env_seq = next_seq h i, env_chunk = chunk\<rparr>,
          pc_terminal = chunk_is_terminal chunk\<rparr>"
    and h': "h' = h\<lparr>rh_streams := bump_stream i (pr_org r) (chunk_is_terminal chunk) (rh_streams h),
            rh_chunks := rh_chunks h @ [chunk_row_of js now r (next_seq h i) chunk],
            rh_notifications := rh_notifications h @ [(i, pr_thread r, next_seq h i)]\<rparr>"
    by (rule publish_in_txE)
  have li: "log_inv h" and ti: "items_inv h" using inv by (simp_all add: hub_inv_def)
  have next': "next_seq ?h j = (if j = i then next_seq h i + 1 else next_seq h j)" for j
    by (auto simp: next_seq_def stream_of_def find_bump_stream h' split: option.split)
  have row: "ck_request (chunk_row_of js now r (next_seq h i) chunk) = i"
    "ck_seq (chunk_row_of js now r (next_seq h i) chunk) = next_seq h i"
    "envelope_of (chunk_row_of js now r (next_seq h i) chunk) = pc_envelope p"
    by (simp_all add: chunk_row_of_def envelope_of_def r p)
  have cs: "chunk_seqs ?h j = chunk_seqs h j @ (if j = i then [next_seq h i] else [])" for j
    using row by (simp add: chunk_seqs_def h')
  have "chunk_seqs ?h j = [0..<next_seq ?h j]" for j
    using li unfolding cs next' by (simp add: log_inv_def)
  moreover have "distinct (map st_request (rh_streams ?h))"
    using li by (simp add: h' log_inv_def distinct_bump_stream)
  ultimately have 1: "log_inv ?h" by (simp add: log_inv_def)
  have items: "items ?h = items h @ [(i, pc_envelope p)]"
    by (simp add: items_def sent_items_def inflight_items_def h' p)
  have st: "stored ?h (fst x) (snd x)" if "x \<in> set (items ?h)" for x
  proof (cases "x \<in> set (items h)")
    case True
    then have "stored h (fst x) (snd x)" using ti by (simp add: items_inv_def)
    then show ?thesis by (rule stored_mono) (auto simp: h')
  next
    case False
    with that items have "x = (i, pc_envelope p)" by simp
    then show ?thesis using row by (auto simp: stored_def h')
  qed
  have "(i, env_seq (pc_envelope p)) \<notin> (\<lambda>x. (fst x, env_seq (snd x))) ` set (items h)"
    using ti li stored_seq_less by (fastforce simp: items_inv_def p)
  then have 2: "items_inv ?h"
    using ti st by (simp add: items_inv_def items)
  show ?thesis using inv 1 2 by (simp add: hub_inv_def h' table_inv_def slots_inv_def)
qed

lemma close_in_txE:
  "close_in_tx db actor h i = (x, h') \<Longrightarrow>
   h' = h \<or> (\<exists>org. h' = h\<lparr>rh_streams := close_stream i org (rh_streams h)\<rparr>)"
  by (auto simp: close_in_tx_def split: option.splits if_splits)

lemma close_stream_inv:
  "hub_inv cap h \<Longrightarrow> hub_inv cap (h\<lparr>rh_streams := close_stream i org (rh_streams h)\<rparr>)"
proof -
  assume inv: "hub_inv cap h"
  let ?h = "h\<lparr>rh_streams := close_stream i org (rh_streams h)\<rparr>"
  have "next_seq ?h j = next_seq h j" for j
    by (auto simp: next_seq_def stream_of_def find_close_stream split: option.split)
  then have "log_inv ?h"
    using inv by (simp add: hub_inv_def log_inv_def chunk_seqs_def distinct_close_stream)
  moreover have "items_inv ?h"
    using inv by (simp add: hub_inv_def items_inv_def items_def sent_items_def
        inflight_items_def stored_def)
  ultimately show ?thesis
    using inv by (simp add: hub_inv_def table_inv_def slots_inv_def)
qed

lemma close_in_tx_inv: "hub_inv cap h \<Longrightarrow> hub_inv cap (snd (close_in_tx db actor h i))"
  using close_in_txE [of db actor h i "fst (close_in_tx db actor h i)" "snd (close_in_tx db actor h i)"]
  by (auto simp: close_stream_inv)

section \<open>Fan-out\<close>

lemma list_update_split:
  "k < length xs \<Longrightarrow> xs[k := y] = take k xs @ y # drop (Suc k) xs"
  by (simp add: upd_conv_take_nth_drop)

lemma mset_sent_send:
  assumes "tx < length (rh_channels h)"
  shows "mset (sent_items (send h tx e)) =
    add_mset (ch_request (rh_channels h ! tx), e) (mset (sent_items h))"
proof -
  let ?cs = "rh_channels h"
  have "sent_items h = concat (map channel_items (take tx ?cs @ ?cs ! tx # drop (Suc tx) ?cs))"
    using assms by (simp add: sent_items_def id_take_nth_drop [symmetric])
  moreover have "sent_items (send h tx e) = concat (map channel_items
      (take tx ?cs @ (?cs ! tx)\<lparr>ch_log := ch_log (?cs ! tx) @ [e]\<rparr> # drop (Suc tx) ?cs))"
    using assms by (simp add: sent_items_def send_def list_update_split)
  ultimately show ?thesis by (simp add: channel_items_def)
qed

lemma items_inv_mset:
  assumes "mset (items h') = mset (items h)" "rh_chunks h' = rh_chunks h" "items_inv h"
  shows "items_inv h'"
proof -
  let ?k = "\<lambda>x. (fst x, env_seq (snd x))"
  have "mset (map ?k (items h')) = mset (map ?k (items h))" using assms(1) by simp
  then have "distinct (map ?k (items h')) = distinct (map ?k (items h))"
    by (rule mset_eq_imp_distinct_iff)
  moreover have "set (items h') = set (items h)" using assms(1) by (rule mset_eq_setD)
  ultimately show ?thesis using assms by (simp add: items_inv_def stored_def)
qed

lemma ch_request_update [simp]:
  "ch_request (cs[k := (cs ! k)\<lparr>ch_log := l\<rparr>] ! j) = ch_request (cs ! j)"
  by (cases "k < length cs"; cases "j = k") (simp_all add: list_update_beyond)

lemma send_inv_parts:
  "table_inv cap h \<Longrightarrow> table_inv cap (send h tx e)" "slots_inv h \<Longrightarrow> slots_inv (send h tx e)"
  by (auto simp: table_inv_def slots_inv_def send_def)

lemma items_inv_readd:
  assumes "k < length (rh_inflight h)" "items_inv h"
  defines "h' \<equiv> h\<lparr>rh_inflight := take k (rh_inflight h) @ drop (Suc k) (rh_inflight h)\<rparr>"
  shows "items_inv (h'\<lparr>rh_inflight := rh_inflight h' @ [rh_inflight h ! k]\<rparr>)"
proof -
  let ?f = "\<lambda>p. (pc_request p, pc_envelope p)" and ?l = "rh_inflight h"
  have "inflight_items h = map ?f (take k ?l @ ?l ! k # drop (Suc k) ?l)"
    unfolding inflight_items_def using id_take_nth_drop [OF assms(1)] by simp
  moreover have "inflight_items h' = map ?f (take k ?l @ drop (Suc k) ?l)"
    by (simp add: inflight_items_def h'_def)
  moreover have "sent_items h' = sent_items h" by (simp add: sent_items_def h'_def)
  ultimately have "mset (items h) = mset (items h' @ [?f (?l ! k)])"
    unfolding items_def by simp
  moreover have "items (h'\<lparr>rh_inflight := rh_inflight h' @ [?l ! k]\<rparr>) = items h' @ [?f (?l ! k)]"
    by (simp add: items_def sent_items_def inflight_items_def)
  ultimately have m: "mset (items (h'\<lparr>rh_inflight := rh_inflight h' @ [?l ! k]\<rparr>)) = mset (items h)"
    by (simp only:)
  show ?thesis
    by (rule items_inv_mset [OF m _ assms(2)]) (simp add: h'_def)
qed

lemma items_inv_drop:
  assumes "k < length (rh_inflight h)" "items_inv h"
  shows "items_inv (h\<lparr>rh_inflight := take k (rh_inflight h) @ drop (Suc k) (rh_inflight h)\<rparr>)"
  using items_inv_readd [OF assms]
  by (simp add: items_inv_def items_def sent_items_def inflight_items_def stored_def)

lemma publish_sender_cases:
  assumes "publish_sender cap h i t = (x, h')"
  obtains (refused) "x = Inl (ResponseBackend ''request stream already closed'')"
      "h' = touch_slot cap h i" "slot_closed (slot_of (touch_slot cap h i) i)"
  | (ok) "x = Inr (slot_tx (slot_of (touch_slot cap h i) i))"
      "h' = (if t then set_closed (touch_slot cap h i) i else touch_slot cap h i)"
      "\<not> slot_closed (slot_of (touch_slot cap h i) i)"
  using assms by (auto simp: publish_sender_def Let_def split: if_splits)

lemma publish_sender_channels:
  "rh_channels (if t then set_closed h i else h) = rh_channels h"
  by (simp add: set_closed_def)

lemma publish_sender_inv:
  assumes "0 < cap" "hub_inv cap h" "publish_sender cap h i t = (x, h')"
  shows "hub_inv cap h'" "same_store h h'" "sent_items h' = sent_items h"
    "x = Inr tx \<Longrightarrow> tx < length (rh_channels h') \<and> ch_request (rh_channels h' ! tx) = i"
proof -
  let ?t = "touch_slot cap h i"
  obtain s where s: "rh_slots ?t i = Some s" using touch_slot_present by blast
  have inv: "hub_inv cap ?t" using assms by (simp add: touch_slot_inv)
  have cl: "hub_inv cap (set_closed ?t i)" using inv s by (rule set_closed_inv)
  have h': "h' = ?t \<or> h' = set_closed ?t i"
    using assms(3) by (cases rule: publish_sender_cases) (auto split: if_splits)
  with inv cl show "hub_inv cap h'" by auto
  show "same_store h h'"
    using h' same_store_trans [OF same_store_touch same_store_table(3)] by auto
  have "sent_items (set_closed ?t i) = sent_items ?t" by (simp add: sent_items_def set_closed_def)
  with h' show "sent_items h' = sent_items h" by auto
  have "slot_tx s < length (rh_channels ?t) \<and> ch_request (rh_channels ?t ! slot_tx s) = i"
    using inv s by (simp add: hub_inv_def slots_inv_def)
  moreover have "rh_channels h' = rh_channels ?t" using h' by (auto simp: set_closed_def)
  moreover have "x = Inr tx \<Longrightarrow> tx = slot_tx s"
    using assms(3) s by (cases rule: publish_sender_cases) (auto simp: slot_of_def)
  ultimately show "x = Inr tx \<Longrightarrow> tx < length (rh_channels h') \<and> ch_request (rh_channels h' ! tx) = i"
    by auto
qed

text \<open>A fan-out that starts from a hub whose items, with the chunk it sends, are in order.\<close>

lemma fanout_inv:
  assumes cap: "0 < cap" and inv: "hub_inv cap h"
    and p: "items_inv (h\<lparr>rh_inflight := rh_inflight h @ [p]\<rparr>)"
  shows "hub_inv cap (snd (fanout_after_commit cap h p))"
proof (cases "publish_sender cap h (pc_request p) (pc_terminal p)")
  case (Pair x h')
  note ps = publish_sender_inv [OF cap inv Pair]
  show ?thesis
  proof (cases x)
    case (Inl e)
    with Pair ps(1) show ?thesis by (simp add: fanout_after_commit_def)
  next
    case (Inr tx)
    have tx: "tx < length (rh_channels h')" "ch_request (rh_channels h' ! tx) = pc_request p"
      using ps(4) [OF Inr] by auto
    let ?s = "send h' tx (pc_envelope p)"
    have ss: "same_store h ?s" using ps(2) same_store_table(4) by (rule same_store_trans)
    have "mset (items ?s) = mset (items (h\<lparr>rh_inflight := rh_inflight h @ [p]\<rparr>))"
      using mset_sent_send [OF tx(1), of "pc_envelope p"] tx(2) ps(3) same_store_inflight [OF ss]
      by (simp add: items_def sent_items_def inflight_items_def)
    then have "items_inv ?s"
      by (rule items_inv_mset) (use ss p in \<open>simp_all add: same_store_def\<close>)
    moreover have "log_inv ?s" using inv ss by (simp add: hub_inv_def same_store_log_inv)
    ultimately show ?thesis
      using ps(1) Pair Inr by (simp add: hub_inv_def fanout_after_commit_def send_inv_parts)
  qed
qed

end
