(* ===== verification/Response_Hub_Reach.thy ===== *)
theory Response_Hub_Reach
  imports Response_Hub_Laws
begin

text \<open>
  The hub as a transition system: every action keeps the invariant and only extends the stored
  log and the channels. On top of it, what a subscriber's stream consists of, and the contract
  of a response sink that the worker relies on.
\<close>

section \<open>Growth\<close>

definition hub_le :: "response_hub \<Rightarrow> response_hub \<Rightarrow> bool" where
  "hub_le h h' \<longleftrightarrow> (\<exists>cs. rh_chunks h' = rh_chunks h @ cs)
     \<and> length (rh_channels h) \<le> length (rh_channels h')
     \<and> (\<forall>k < length (rh_channels h). ch_request (rh_channels h' ! k) = ch_request (rh_channels h ! k)
          \<and> (\<exists>es. ch_log (rh_channels h' ! k) = ch_log (rh_channels h ! k) @ es))"

lemma hub_le_refl: "hub_le h h"
  by (simp add: hub_le_def)

lemma hub_le_trans:
  assumes "hub_le h1 h2" "hub_le h2 h3"
  shows "hub_le h1 h3"
  unfolding hub_le_def
proof (intro conjI allI impI)
  show "\<exists>cs. rh_chunks h3 = rh_chunks h1 @ cs" using assms by (auto simp: hub_le_def)
  show "length (rh_channels h1) \<le> length (rh_channels h3)" using assms by (simp add: hub_le_def)
  fix k assume k: "k < length (rh_channels h1)"
  then have k2: "k < length (rh_channels h2)" using assms by (auto simp: hub_le_def)
  show "ch_request (rh_channels h3 ! k) = ch_request (rh_channels h1 ! k)"
    using assms k k2 by (simp add: hub_le_def)
  obtain es fs where "ch_log (rh_channels h2 ! k) = ch_log (rh_channels h1 ! k) @ es"
    "ch_log (rh_channels h3 ! k) = ch_log (rh_channels h2 ! k) @ fs"
    using assms k k2 unfolding hub_le_def by blast
  then show "\<exists>es. ch_log (rh_channels h3 ! k) = ch_log (rh_channels h1 ! k) @ es" by simp
qed

lemma hub_le_touch: "hub_le h (touch_slot cap h i)"
  by (auto simp: hub_le_def touch_slot_def new_slot_def evict_one_def nth_append split: option.split)

lemma hub_le_set_closed: "hub_le h (set_closed h i)"
  by (simp add: hub_le_def set_closed_def)

lemma hub_le_send: "hub_le h (send h tx e)"
  by (cases "tx < length (rh_channels h)")
    (auto simp: hub_le_def send_def nth_list_update list_update_beyond)

lemma hub_le_inflight: "hub_le h h' \<Longrightarrow> hub_le h (h'\<lparr>rh_inflight := ps\<rparr>)"
  by (simp add: hub_le_def)

lemma hub_le_publish_in_tx: "hub_le h (snd (publish_in_tx js db now actor h i chunk))"
  by (auto simp: hub_le_def publish_in_tx_def Let_def split: option.splits)

lemma hub_le_close_in_tx: "hub_le h (snd (close_in_tx db actor h i))"
  by (auto simp: hub_le_def close_in_tx_def split: option.splits)

lemma hub_le_mark_closed: "hub_le h (mark_closed cap h i)"
  unfolding mark_closed_def by (rule hub_le_trans [OF hub_le_touch hub_le_set_closed])

lemma hub_le_publish_sender: "hub_le h (snd (publish_sender cap h i t))"
  using hub_le_touch [of h cap i] hub_le_trans [OF hub_le_touch [of h cap i] hub_le_set_closed]
  by (simp add: publish_sender_def Let_def)

lemma hub_le_fanout: "hub_le h (snd (fanout_after_commit cap h p))"
proof (cases "publish_sender cap h (pc_request p) (pc_terminal p)")
  case (Pair x h')
  then have "hub_le h h'" using hub_le_publish_sender [of h cap "pc_request p" "pc_terminal p"] by simp
  with Pair show ?thesis
    by (cases x) (auto simp: fanout_after_commit_def intro: hub_le_trans [OF _ hub_le_send])
qed

section \<open>Reachable hubs\<close>

definition hub_init :: "response_hub \<Rightarrow> bool" where
  "hub_init h \<longleftrightarrow> h = empty_hub"

lemma empty_hub_inv: "hub_inv cap empty_hub"
  by (simp add: hub_inv_def log_inv_def table_inv_def slots_inv_def items_inv_def empty_hub_def
      chunk_seqs_def next_seq_def stream_of_def items_def sent_items_def inflight_items_def)

lemma hub_next_inv:
  assumes cap: "0 < cap" and inv: "hub_inv cap h"
  shows "hub_inv cap (hub_next cap e h)"
proof (cases e)
  case (HPublishCommit js db now actor i chunk)
  show ?thesis
  proof (cases "publish_in_tx js db now actor h i chunk")
    case (Pair x h')
    with HPublishCommit inv show ?thesis
      by (cases x) (auto dest: publish_in_tx_Inl publish_commit_inv [OF inv])
  qed
next
  case (HFanout k)
  show ?thesis
  proof (cases "k < length (rh_inflight h)")
    case True
    let ?h = "h\<lparr>rh_inflight := take k (rh_inflight h) @ drop (Suc k) (rh_inflight h)\<rparr>"
    have ii: "items_inv h" using inv by (simp add: hub_inv_def)
    have h1: "hub_inv cap ?h"
      using inv items_inv_drop [OF True ii]
      by (simp add: hub_inv_def log_inv_def table_inv_def slots_inv_def chunk_seqs_def
          next_seq_def stream_of_def)
    have "items_inv (?h\<lparr>rh_inflight := rh_inflight ?h @ [rh_inflight h ! k]\<rparr>)"
      by (rule items_inv_readd [OF True ii])
    from fanout_inv [OF cap h1 this] HFanout True show ?thesis by simp
  qed (simp add: HFanout inv)
next
  case (HCloseCommit db actor i)
  with inv show ?thesis by (simp add: close_in_tx_inv)
next
  case (HMarkClosed i)
  with cap inv show ?thesis by (simp add: mark_closed_inv)
next
  case (HSubscribe i)
  with cap inv show ?thesis by (simp add: subscribe_live_hub touch_slot_inv)
qed

lemma hub_next_le: "hub_le h (hub_next cap e h)"
proof (cases e)
  case (HPublishCommit js db now actor i chunk)
  show ?thesis
  proof (cases "publish_in_tx js db now actor h i chunk")
    case (Pair x h')
    then have "hub_le h h'" using hub_le_publish_in_tx [of h js db now actor i chunk] by simp
    with HPublishCommit Pair show ?thesis by (cases x) (simp_all add: hub_le_inflight)
  qed
next
  case (HFanout k)
  let ?h = "h\<lparr>rh_inflight := take k (rh_inflight h) @ drop (Suc k) (rh_inflight h)\<rparr>"
  have "hub_le h ?h" by (simp add: hub_le_inflight hub_le_refl)
  then show ?thesis using HFanout hub_le_fanout [of ?h] by (auto intro: hub_le_trans hub_le_refl)
qed (simp_all add: hub_le_close_in_tx hub_le_mark_closed subscribe_live_hub hub_le_touch)

text \<open>The hub is created with \<open>slot_cap > 0\<close>; \<open>Suc n\<close> is that cap.\<close>

interpretation hub: monotone_system hub_init "hub_step (Suc n)" "hub_inv (Suc n)" hub_le
  for n
  by unfold_locales
    (auto simp: hub_init_def hub_step_def empty_hub_inv hub_next_inv hub_next_le hub_le_refl
      intro: hub_le_trans)

section \<open>The backlog\<close>

lemma backlog_seqs:
  assumes "log_inv h"
  shows "map ck_seq (backlog_rows h i since) = filter (after_since since) [0..<next_seq h i]"
proof -
  have 1: "map ck_seq (filter (\<lambda>c. ck_request c = i \<and> after_since since (ck_seq c)) (rh_chunks h))
      = filter (after_since since) (chunk_seqs h i)"
    by (simp add: chunk_seqs_def filter_map o_def conj_commute filter_filter [symmetric]
        del: filter_filter)
  have "sorted (filter (after_since since) (chunk_seqs h i))"
    using assms by (simp add: log_inv_def sorted_wrt_filter)
  with 1 have "sorted (map ck_seq
      (filter (\<lambda>c. ck_request c = i \<and> after_since since (ck_seq c)) (rh_chunks h)))" by simp
  then have "backlog_rows h i since =
      filter (\<lambda>c. ck_request c = i \<and> after_since since (ck_seq c)) (rh_chunks h)"
    by (simp add: backlog_rows_def sorted_sort_id sort_key_id_if_sorted)
  with 1 assms show ?thesis by (simp add: log_inv_def)
qed

lemma threshold_covers:
  fixes f :: "'c \<Rightarrow> nat"
  assumes "fold (\<lambda>c m. Some (case m of None \<Rightarrow> f c | Some k \<Rightarrow> max k (f c))) cs m = Some t"
  shows "(\<forall>c \<in> set cs. f c \<le> t) \<and> (\<forall>k. m = Some k \<longrightarrow> k \<le> t)
     \<and> (m = Some t \<or> (\<exists>c \<in> set cs. f c = t))"
  using assms
proof (induction cs arbitrary: m)
  case (Cons c cs)
  let ?m = "Some (case m of None \<Rightarrow> f c | Some k \<Rightarrow> max k (f c))"
  from Cons.prems have "fold (\<lambda>c m. Some (case m of None \<Rightarrow> f c | Some k \<Rightarrow> max k (f c))) cs ?m = Some t"
    by simp
  from Cons.IH [OF this] show ?case
    by (cases m) (auto simp: max_def split: if_splits intro: order_trans)
qed simp

lemma threshold_None:
  "fold (\<lambda>c m. Some (g c m)) cs m = None \<Longrightarrow> cs = [] \<and> m = None"
  by (induction cs arbitrary: m) auto

lemma read_backlog_None:
  assumes "read_backlog h i since = (evs, None)"
  shows "backlog_rows h i since = [] \<and> since = None"
proof (rule threshold_None)
  show "fold (\<lambda>c m. Some (case m of None \<Rightarrow> ck_seq c | Some k \<Rightarrow> max k (ck_seq c)))
      (backlog_rows h i since) since = None"
    using assms by (simp add: read_backlog_def Let_def)
qed

section \<open>What a subscriber reads\<close>

definition delivered :: "stream_event list \<Rightarrow> envelope list" where
  "delivered evs = List.map_filter (\<lambda>ev. case ev of EvChunk e \<Rightarrow> Some e | EvStalled \<Rightarrow> None) evs"

definition beyond :: "nat option \<Rightarrow> envelope \<Rightarrow> bool" where
  "beyond m e = (case m of Some t \<Rightarrow> t < env_seq e | None \<Rightarrow> True)"

lemma delivered_append [simp]: "delivered (xs @ ys) = delivered xs @ delivered ys"
  by (simp add: delivered_def map_filter_def)

lemma delivered_chunks [simp]: "delivered (map (\<lambda>c. EvChunk (f c)) cs) = map f cs"
  by (induction cs) (simp_all add: delivered_def map_filter_simps)

definition envelopes :: "recv_item list \<Rightarrow> envelope list" where
  "envelopes its = List.map_filter (\<lambda>x. case x of Recv e \<Rightarrow> Some e | RecvLagged _ \<Rightarrow> None) its"

lemma delivered_live [simp]:
  "delivered (filter_live_stream its m) = filter (beyond m) (envelopes its)"
  by (induction its)
    (auto simp: delivered_def envelopes_def filter_live_stream_def map_filter_simps filter_live_item_def
      beyond_def split: option.splits recv_item.splits)

lemma stalled_live: "EvStalled \<in> set (filter_live_stream its m) \<longleftrightarrow> (\<exists>k. RecvLagged k \<in> set its)"
  by (induction its)
    (auto simp: filter_live_stream_def map_filter_simps filter_live_item_def split: option.splits recv_item.splits)

text \<open>The receiver yields the values at increasing positions, all of them unless it reports a loss.\<close>

lemma receive_positions:
  assumes "receive cap sent p ns = (its, q)" "\<forall>n \<in> set ns. n \<le> length sent" "p \<le> length sent"
  shows "p \<le> q \<and> q \<le> length sent \<and> (\<exists>ks. envelopes its = map ((!) sent) ks \<and> sorted_wrt (<) ks \<and> set ks \<subseteq> {p..<q}
     \<and> ((\<forall>k. RecvLagged k \<notin> set its) \<longrightarrow> set ks = {p..<q}))"
  using assms
proof (induction ns arbitrary: p its)
  case Nil
  then show ?case by (auto simp: envelopes_def map_filter_simps)
next
  case (Cons n ns)
  consider "n \<le> p" | "p < n" "n - p > cap" | "p < n" "n - p \<le> cap" by linarith
  then show ?case
  proof cases
    case 1
    then show ?thesis using Cons by simp
  next
    case 2
    then obtain its' where r: "receive cap sent (n - cap) ns = (its', q)" "its = RecvLagged (n - cap - p) # its'"
      using Cons.prems(1) by (auto split: prod.splits)
    have "n - cap \<le> length sent" using Cons.prems(2) by auto
    from Cons.IH [OF r(1) _ this] obtain ks where
      "n - cap \<le> q" "q \<le> length sent" "envelopes its' = map ((!) sent) ks" "sorted_wrt (<) ks" "set ks \<subseteq> {n - cap..<q}"
      using Cons.prems(2) by auto
    moreover have "{n - cap..<q} \<subseteq> {p..<q}" using 2 by auto
    ultimately show ?thesis using 2 r(2) by (intro conjI exI [of _ ks]) (auto simp: envelopes_def map_filter_simps)
  next
    case 3
    then obtain its' where r: "receive cap sent (p + 1) ns = (its', q)" "its = Recv (sent ! p) # its'"
      using Cons.prems(1) by (auto split: prod.splits)
    have "p + 1 \<le> length sent" using Cons.prems(2) 3 by auto
    from Cons.IH [OF r(1) _ this] obtain ks where ks:
      "p + 1 \<le> q" "q \<le> length sent" "envelopes its' = map ((!) sent) ks" "sorted_wrt (<) ks" "set ks \<subseteq> {p + 1..<q}"
      "(\<forall>k. RecvLagged k \<notin> set its') \<longrightarrow> set ks = {p + 1..<q}"
      using Cons.prems(2) by auto
    then show ?thesis using r(2) by (intro conjI exI [of _ "p # ks"]) (auto simp: envelopes_def map_filter_simps)
  qed
qed

lemma receive_keeps_up:
  assumes "receive cap sent p ns = (its, q)" "\<forall>n \<in> set ns. n \<le> length sent" "length sent - p \<le> cap"
  shows "RecvLagged k \<notin> set its"
  using assms
proof (induction ns arbitrary: p its)
  case (Cons n ns)
  then have "\<not> (p < n \<and> cap < n - p)" by (auto dest: diff_le_mono [of n "length sent" p])
  then show ?case using Cons by (auto split: prod.splits if_splits)
qed simp

lemma channel_seqs_distinct:
  assumes "items_inv h" "c \<in> set (rh_channels h)"
  shows "distinct (map env_seq (ch_log c))"
proof -
  obtain xs ys where "rh_channels h = xs @ c # ys" using assms(2) by (meson split_list)
  then have "distinct (map (\<lambda>x. (fst x, env_seq (snd x))) (channel_items c))"
    using assms(1) by (simp add: items_inv_def items_def sent_items_def)
  then show ?thesis by (auto simp: channel_items_def distinct_map o_def inj_on_def)
qed

lemma channel_stored:
  assumes "items_inv h" "c \<in> set (rh_channels h)" "e \<in> set (ch_log c)"
  shows "stored h (ch_request c) e"
proof -
  have "(ch_request c, e) \<in> set (items h)"
    using assms(2,3) by (auto simp: items_def sent_items_def channel_items_def)
  with assms(1) show ?thesis by (fastforce simp: items_inv_def)
qed

lemma stored_unique:
  assumes "log_inv h" "stored h i e" "stored h i e'" "env_seq e = env_seq e'"
  shows "e = e'"
proof -
  obtain c c' where c: "c \<in> set (rh_chunks h)" "ck_request c = i" "envelope_of c = e"
    "c' \<in> set (rh_chunks h)" "ck_request c' = i" "envelope_of c' = e'"
    using assms by (auto simp: stored_def)
  let ?cs = "filter (\<lambda>c. ck_request c = i) (rh_chunks h)"
  have "distinct (map ck_seq ?cs)" using assms(1) by (simp add: log_inv_def chunk_seqs_def)
  moreover have "ck_seq c = ck_seq c'" using assms(4) c by (auto simp: envelope_of_def)
  ultimately have "c = c'" using c distinct_map_inj [of ck_seq ?cs c c'] by simp
  with c show ?thesis by simp
qed

lemma backlog_envelopes:
  assumes "log_inv h"
  shows "e \<in> envelope_of ` set (backlog_rows h i since) \<longleftrightarrow> stored h i e \<and> after_since since (env_seq e)"
  by (auto simp: backlog_rows_def stored_def envelope_of_def)

lemma hub_le_stored: "hub_le h h' \<Longrightarrow> stored h i e \<Longrightarrow> stored h' i e"
  by (auto simp: hub_le_def intro: stored_mono)

text \<open>
  The filter is right: with the backlog of \<open>h2\<close>, the threshold separates exactly the chunks the
  backlog holds from those it does not.
\<close>

lemma subscribe_split:
  assumes inv2: "log_inv h2" and inv3: "log_inv h3" "items_inv h3" and le: "hub_le h2 h3"
    and ch: "c \<in> set (rh_channels h3)" "ch_request c = i" "set es \<subseteq> set (ch_log c)"
    and rb: "read_backlog h2 i since = (evs, m)"
    and e: "e \<in> set es" "after_since since (env_seq e)"
  shows "e \<in> set (delivered evs) \<or> beyond m e"
proof (cases "beyond m e")
  case False
  let ?rows = "backlog_rows h2 i since"
  from False obtain t where t: "m = Some t" "env_seq e \<le> t"
    by (auto simp: beyond_def split: option.splits)
  have m: "fold (\<lambda>c m. Some (case m of None \<Rightarrow> ck_seq c | Some k \<Rightarrow> max k (ck_seq c))) ?rows since
      = Some t" and evs: "evs = map (\<lambda>c. EvChunk (envelope_of c)) ?rows"
    using rb t by (simp_all add: read_backlog_def Let_def)
  have "since \<noteq> Some t" using e t by (auto simp: after_since_def)
  with threshold_covers [OF m] obtain r where r: "r \<in> set ?rows" "ck_seq r = t" by blast
  have "t \<in> set (map ck_seq ?rows)" using r by auto
  then have "t < next_seq h2 i" unfolding backlog_seqs [OF inv2] by simp
  with t e have "env_seq e \<in> set (map ck_seq ?rows)"
    unfolding backlog_seqs [OF inv2] by simp
  then obtain q where q: "q \<in> set ?rows" "ck_seq q = env_seq e" by auto
  then have "stored h2 i (envelope_of q)" using backlog_envelopes [OF inv2] by blast
  then have "stored h3 i (envelope_of q)" using le by (rule hub_le_stored [rotated])
  moreover have "stored h3 i e" using channel_stored [OF inv3(2) ch(1)] ch e by blast
  ultimately have "envelope_of q = e"
    using q by (intro stored_unique [OF inv3(1)]) (simp_all add: envelope_of_def)
  with q evs show ?thesis by force
qed simp

text \<open>A backlog read at \<open>h2\<close> and the channel of a receiver at \<open>h3\<close>: what the filter does to the channel's values.\<close>

lemma live_split:
  assumes inv: "hub_inv k h2" "hub_inv k h3" and le: "hub_le h2 h3"
    and c: "c \<in> set (rh_channels h3)" "ch_request c = i"
    and rb: "read_backlog h2 i since = (evs, m)"
  shows "distinct (map env_seq (delivered evs))"
    and "e \<in> set (ch_log c) \<Longrightarrow> beyond m e \<Longrightarrow> env_seq e \<notin> env_seq ` set (delivered evs)"
    and "e \<in> set (ch_log c) \<Longrightarrow> beyond m e \<Longrightarrow> after_since since (env_seq e) \<and> stored h3 i e"
    and "e \<in> set (delivered evs) \<longleftrightarrow> stored h2 i e \<and> after_since since (env_seq e)"
      "stored h2 i e \<Longrightarrow> stored h3 i e"
    and "e \<in> set (ch_log c) \<Longrightarrow> after_since since (env_seq e) \<Longrightarrow> e \<in> set (delivered evs) \<or> beyond m e"
proof -
  have li2: "log_inv h2" and li3: "log_inv h3" and ti3: "items_inv h3" using inv by (simp_all add: hub_inv_def)
  let ?rows = "backlog_rows h2 i since"
  have evs: "delivered evs = map envelope_of ?rows" using rb by (auto simp: read_backlog_def Let_def)
  have "map env_seq (delivered evs) = filter (after_since since) [0..<next_seq h2 i]"
    using backlog_seqs [OF li2, of i since] evs by (simp add: o_def envelope_of_def)
  then show "distinct (map env_seq (delivered evs))" by simp
  have th: "env_seq e \<le> t" if "m = Some t" "e \<in> set (delivered evs)" for t e
    using threshold_covers [of ck_seq ?rows since t] rb that evs by (auto simp: read_backlog_def Let_def envelope_of_def)
  show "env_seq e \<notin> env_seq ` set (delivered evs)" if "e \<in> set (ch_log c)" "beyond m e"
  proof (cases m)
    case None
    then have "?rows = []" using rb read_backlog_None by blast
    then show ?thesis by (simp add: evs)
  next
    case (Some t)
    then have "t < env_seq e" using that by (simp add: beyond_def)
    then show ?thesis using th [OF Some] by fastforce
  qed
  have "after_since since (env_seq e)" if "beyond m e"
  proof (cases since)
    case (Some s)
    then obtain t where "m = Some t" using rb read_backlog_None [of h2 i since evs] by (cases m) auto
    then show ?thesis using threshold_covers [of ck_seq ?rows since t] rb that Some
      by (auto simp: read_backlog_def Let_def beyond_def after_since_def)
  qed (simp add: after_since_def)
  then show "after_since since (env_seq e) \<and> stored h3 i e" if "e \<in> set (ch_log c)" "beyond m e"
    using that channel_stored [OF ti3 c(1)] c(2) by blast
  show "e \<in> set (delivered evs) \<longleftrightarrow> stored h2 i e \<and> after_since since (env_seq e)"
    using backlog_envelopes [OF li2, of e i since] evs by simp
  show "stored h2 i e \<Longrightarrow> stored h3 i e" by (rule hub_le_stored [OF le])
  show "e \<in> set (delivered evs) \<or> beyond m e" if "e \<in> set (ch_log c)" "after_since since (env_seq e)"
    by (rule subscribe_split [OF li2 li3 ti3 le c subset_refl rb that])
qed

lemma subscribed_channel:
  assumes "hub_inv (Suc n) h0" "subscribe_live (Suc n) h0 i = (rx, was, h1)"
  shows "fst rx < length (rh_channels h1)" "ch_request (rh_channels h1 ! fst rx) = i"
    "snd rx = length (ch_log (rh_channels h1 ! fst rx))" "hub_inv (Suc n) h1"
proof -
  let ?t = "touch_slot (Suc n) h0 i"
  have h1: "h1 = ?t" and rx: "rx = (slot_tx (slot_of ?t i), length (ch_log (rh_channels ?t ! slot_tx (slot_of ?t i))))"
    using assms(2) by (auto simp: subscribe_live_def Let_def)
  obtain s where s: "rh_slots ?t i = Some s" using touch_slot_present by blast
  show inv: "hub_inv (Suc n) h1" using assms(1) h1 by (simp add: touch_slot_inv)
  show "fst rx < length (rh_channels h1)" "ch_request (rh_channels h1 ! fst rx) = i"
    "snd rx = length (ch_log (rh_channels h1 ! fst rx))"
    using inv s h1 rx by (auto simp: hub_inv_def slots_inv_def slot_of_def)
qed

end
