(* ===== verification/Response_Sink.thy ===== *)
theory Response_Sink
  imports Response_Hub_Reach
begin

text \<open>
  The contract of the trait \<open>ResponseSink\<close> as its clients use it: where a publish is accepted it
  adds one chunk to the log of that request and to no other, and a close adds none. It is
  interpreted on \<open>publish_as\<close> and \<open>close_as\<close> of the Postgres hub.
\<close>

locale response_sink =
  fixes log :: "'h \<Rightarrow> uuid \<Rightarrow> response_chunk list"
    and accepts :: "'h \<Rightarrow> uuid \<Rightarrow> bool"
    and publish :: "'h \<Rightarrow> uuid \<Rightarrow> response_chunk \<Rightarrow> 'h"
    and close :: "'h \<Rightarrow> uuid \<Rightarrow> 'h"
  assumes publish_log: "accepts h i \<Longrightarrow>
      log (publish h i c) j = (if j = i then log h i @ [c] else log h j)"
    and publish_accepts: "accepts h i \<Longrightarrow> accepts h j \<Longrightarrow> j \<noteq> i \<Longrightarrow> accepts (publish h i c) j"
    and close_log: "log (close h i) j = log h j"
    and close_accepts: "accepts h j \<Longrightarrow> accepts (close h i) j"
begin

lemma batch_accepts:
  "\<forall>i \<in> set ids. accepts h i \<Longrightarrow> accepts h j \<Longrightarrow> j \<notin> set ids \<Longrightarrow> distinct ids \<Longrightarrow>
   accepts (fold (\<lambda>i h. close (publish h i c) i) ids h) j"
proof (induction ids arbitrary: h)
  case (Cons i ids)
  then have "accepts (close (publish h i c) i) j" "\<forall>k \<in> set ids. accepts (close (publish h i c) i) k"
    by (auto intro!: close_accepts publish_accepts)
  with Cons show ?case by simp
qed simp

lemma batch_log:
  "\<forall>i \<in> set ids. accepts h i \<Longrightarrow> distinct ids \<Longrightarrow>
   log (fold (\<lambda>i h. close (publish h i c) i) ids h) j =
   (if j \<in> set ids then log h j @ [c] else log h j)"
proof (induction ids arbitrary: h)
  case (Cons i ids)
  have "\<forall>k \<in> set ids. accepts (close (publish h i c) i) k"
    using Cons.prems by (auto intro!: close_accepts publish_accepts)
  with Cons.IH [OF this] Cons.prems show ?case
    by (auto simp: close_log publish_log)
qed simp

end

section \<open>The hub as a sink\<close>

definition chunk_log :: "response_hub \<Rightarrow> uuid \<Rightarrow> response_chunk list" where
  "chunk_log h i = map ck_payload (filter (\<lambda>c. ck_request c = i) (rh_chunks h))"

text \<open>\<open>room\<close> further chunks would still fit the \<open>BIGINT\<close> counter.\<close>

definition hub_accepts :: "nat \<Rightarrow> nat \<Rightarrow> queue_db \<Rightarrow> db_actor \<Rightarrow> response_hub \<Rightarrow> uuid \<Rightarrow> bool" where
  "hub_accepts room cap db actor h i \<longleftrightarrow> hub_inv cap h \<and> visible_request db actor i \<noteq> None
     \<and> stream_writable db actor h i \<and> int (next_seq h i) + 1 + int room \<le> i64_max"

lemma same_store_accepts:
  "same_store h h' \<Longrightarrow> hub_inv cap h' \<Longrightarrow> hub_accepts m cap db actor h i \<Longrightarrow> hub_accepts m cap db actor h' i"
  by (simp add: hub_accepts_def same_store_def stream_writable_def stream_of_def next_seq_def)

lemma publish_in_tx_accepted:
  assumes "hub_accepts m cap db actor h i"
  obtains p h' where "publish_in_tx js db now actor h i chunk = (Inr p, h')"
proof -
  from assms obtain r where r: "visible_request db actor i = Some r" by (auto simp: hub_accepts_def)
  have fresh: "\<not> (\<exists>c \<in> set (rh_chunks h). ck_request c = i \<and> ck_seq c = next_seq h i)"
  proof
    assume "\<exists>c \<in> set (rh_chunks h). ck_request c = i \<and> ck_seq c = next_seq h i"
    then have "next_seq h i \<in> set (chunk_seqs h i)" by (force simp: chunk_seqs_def)
    with assms show False by (simp add: hub_accepts_def hub_inv_def log_inv_def)
  qed
  with assms r have "\<exists>p h'. publish_in_tx js db now actor h i chunk = (Inr p, h')"
    by (simp add: publish_in_tx_def Let_def hub_accepts_def fresh del: split_paired_Ex)
  with that show thesis by blast
qed

lemma publish_in_tx_inv:
  assumes "hub_inv cap h" "publish_in_tx js db now actor h i chunk = (Inr p, h')"
  shows "hub_inv cap h'" "items_inv (h'\<lparr>rh_inflight := rh_inflight h' @ [p]\<rparr>)"
proof -
  let ?h = "h'\<lparr>rh_inflight := rh_inflight h' @ [p]\<rparr>"
  have inv: "hub_inv cap ?h" by (rule publish_commit_inv [OF assms])
  then show "items_inv ?h" by (simp add: hub_inv_def)
  with inv show "hub_inv cap h'"
    by (simp add: hub_inv_def log_inv_def table_inv_def slots_inv_def items_inv_def chunk_seqs_def
        next_seq_def stream_of_def items_def sent_items_def inflight_items_def stored_def)
qed

lemma fanout_same_store: "same_store h (snd (fanout_after_commit cap h p))"
proof (cases "publish_sender cap h (pc_request p) (pc_terminal p)")
  case (Pair x h')
  then have "same_store h h'"
    using same_store_trans [OF same_store_touch same_store_table(3)]
    by (auto simp: publish_sender_def Let_def split: if_splits)
  with Pair show ?thesis
    by (cases x) (auto simp: fanout_after_commit_def intro: same_store_trans)
qed

lemma publish_as_accepted:
  fixes js now and c :: response_chunk
  assumes acc: "hub_accepts m (Suc n) db actor h i"
  defines "h' \<equiv> snd (publish_as (Suc n) js db now actor h i c)"
  shows "hub_inv (Suc n) h'"
    and "\<exists>r. visible_request db actor i = Some r
      \<and> rh_chunks h' = rh_chunks h @ [chunk_row_of js now r (next_seq h i) c]
      \<and> rh_streams h' = bump_stream i (pr_org r) (chunk_is_terminal c) (rh_streams h)"
proof -
  obtain p h1 where pub: "publish_in_tx js db now actor h i c = (Inr p, h1)"
    using publish_in_tx_accepted [OF acc] .
  have inv: "hub_inv (Suc n) h" using acc by (simp add: hub_accepts_def)
  note inv1 = publish_in_tx_inv [OF inv pub]
  have h': "h' = snd (fanout_after_commit (Suc n) h1 p)"
    by (simp add: h'_def publish_as_def pub)
  show "hub_inv (Suc n) h'" unfolding h' by (rule fanout_inv [OF _ inv1]) simp
  have ss: "same_store h1 h'" unfolding h' by (rule fanout_same_store)
  from pub obtain r where "visible_request db actor i = Some r"
    "h1 = h\<lparr>rh_streams := bump_stream i (pr_org r) (chunk_is_terminal c) (rh_streams h),
            rh_chunks := rh_chunks h @ [chunk_row_of js now r (next_seq h i) c],
            rh_notifications := rh_notifications h @ [(i, pr_thread r, next_seq h i)]\<rparr>"
    by (rule publish_in_txE)
  with ss show "\<exists>r. visible_request db actor i = Some r
      \<and> rh_chunks h' = rh_chunks h @ [chunk_row_of js now r (next_seq h i) c]
      \<and> rh_streams h' = bump_stream i (pr_org r) (chunk_is_terminal c) (rh_streams h)"
    by (simp add: same_store_def)
qed

lemma visible_request_id: "visible_request db actor i = Some r \<Longrightarrow> pr_id r = i \<and> org_visible db actor (pr_org r)"
  by (auto simp: visible_request_def dest: find_Some_mem)

lemma stream_of_bump:
  "rh_streams h' = bump_stream i org t (rh_streams h) \<Longrightarrow>
   stream_of h' j = (if j = i then Some (case stream_of h i of
        None \<Rightarrow> \<lparr>st_request = i, st_org = org, st_next_seq = 1, st_closed = t\<rparr>
      | Some s \<Rightarrow> s\<lparr>st_next_seq := st_next_seq s + 1, st_closed := st_closed s \<or> t\<rparr>)
    else stream_of h j)"
  by (simp add: stream_of_def find_bump_stream)

lemma publish_as_log:
  assumes "hub_accepts m (Suc n) db actor h i"
  shows "chunk_log (snd (publish_as (Suc n) js db now actor h i c)) j =
    (if j = i then chunk_log h i @ [c] else chunk_log h j)"
proof -
  obtain r where "visible_request db actor i = Some r"
    "rh_chunks (snd (publish_as (Suc n) js db now actor h i c))
      = rh_chunks h @ [chunk_row_of js now r (next_seq h i) c]"
    using publish_as_accepted(2) [OF assms] by blast
  then show ?thesis by (auto simp: chunk_log_def chunk_row_of_def dest: visible_request_id)
qed

lemma publish_as_accepts:
  assumes acc: "hub_accepts m (Suc n) db actor h i"
    and j: "hub_accepts k (Suc n) db actor h j" "j = i \<Longrightarrow> k' < k" "k' \<le> k"
  shows "hub_accepts k' (Suc n) db actor (snd (publish_as (Suc n) js db now actor h i c)) j"
proof -
  let ?h = "snd (publish_as (Suc n) js db now actor h i c)"
  obtain r where r: "visible_request db actor i = Some r"
    "rh_streams ?h = bump_stream i (pr_org r) (chunk_is_terminal c) (rh_streams h)"
    using publish_as_accepted(2) [OF acc] by blast
  note st = stream_of_bump [OF r(2)]
  have "next_seq ?h j = (if j = i then next_seq h i + 1 else next_seq h j)"
    by (auto simp: next_seq_def st split: option.split)
  moreover have "stream_writable db actor ?h j"
    using acc j r(1) visible_request_id [OF r(1)]
    by (auto simp: hub_accepts_def stream_writable_def st split: option.splits)
  ultimately show ?thesis
    using publish_as_accepted(1) [OF acc] j by (auto simp: hub_accepts_def)
qed

lemma close_as_hub:
  "snd (close_as cap db actor h i) = snd (close_in_tx db actor h i) \<or>
   snd (close_as cap db actor h i) = mark_closed cap (snd (close_in_tx db actor h i)) i"
  by (cases "close_in_tx db actor h i"; cases "fst (close_in_tx db actor h i)")
    (simp_all add: close_as_def)

lemma close_as_log: "chunk_log (snd (close_as cap db actor h i)) j = chunk_log h j"
proof -
  have "rh_chunks (snd (close_in_tx db actor h i)) = rh_chunks h"
    by (auto simp: close_in_tx_def split: option.split)
  then show ?thesis
    using close_as_hub [of cap db actor h i] same_store_mark_closed
    by (auto simp: chunk_log_def same_store_def)
qed

lemma close_as_accepts:
  assumes j: "hub_accepts m (Suc n) db actor h j"
  shows "hub_accepts m (Suc n) db actor (snd (close_as (Suc n) db actor h i)) j"
proof -
  let ?h = "snd (close_in_tx db actor h i)"
  have inv: "hub_inv (Suc n) ?h" using j by (simp add: hub_accepts_def close_in_tx_inv)
  have st: "stream_of ?h k = stream_of h k \<or> k = i \<and> (\<exists>r. visible_request db actor i = Some r \<and>
      stream_of ?h i = Some (case stream_of h i of
        None \<Rightarrow> \<lparr>st_request = i, st_org = pr_org r, st_next_seq = 0, st_closed = True\<rparr>
      | Some s \<Rightarrow> s\<lparr>st_closed := True\<rparr>))" for k
    by (auto simp: close_in_tx_def stream_of_def find_close_stream split: option.splits)
  have "next_seq ?h j = next_seq h j"
    using st [of j] by (auto simp: next_seq_def split: option.splits)
  moreover have "stream_writable db actor ?h j"
    using st [of j] j visible_request_id
    by (fastforce simp: hub_accepts_def stream_writable_def split: option.splits)
  ultimately have "hub_accepts m (Suc n) db actor ?h j" using j inv by (simp add: hub_accepts_def)
  moreover have "hub_inv (Suc n) (mark_closed (Suc n) ?h i)" using inv by (simp add: mark_closed_inv)
  ultimately show ?thesis
    using close_as_hub [of "Suc n" db actor h i] same_store_accepts [OF same_store_mark_closed]
    by auto
qed

interpretation sink: response_sink chunk_log "hub_accepts m (Suc n) db actor"
  "\<lambda>h i c. snd (publish_as (Suc n) js db now actor h i c)"
  "\<lambda>h i. snd (close_as (Suc n) db actor h i)" for m n db actor js now
  by unfold_locales (simp_all add: publish_as_log publish_as_accepts close_as_log close_as_accepts)

text \<open>A publish that finds the slot closed is refused after its chunk was stored.\<close>

lemma publish_after_close_stores:
  assumes acc: "hub_accepts m (Suc n) db actor h i"
    and closed: "rh_slots h i = Some s" "slot_closed s"
  shows "fst (publish_as (Suc n) js db now actor h i c)
      = Inl (ResponseBackend ''request stream already closed'')"
proof -
  obtain p h1 where pub: "publish_in_tx js db now actor h i c = (Inr p, h1)"
    using publish_in_tx_accepted [OF acc] .
  then have "rh_slots h1 = rh_slots h" "pc_request p = i"
    by (auto elim!: publish_in_txE)
  with closed pub show ?thesis
    by (simp add: publish_as_def fanout_after_commit_def publish_sender_def Let_def touch_slot_def
        slot_of_def)
qed

end
