(* ===== verification/Hub_Properties.thy ===== *)
theory Hub_Properties
  imports Response_Sink Queue_Properties
begin

text \<open>
  The properties of the response hub: the persisted log has no gaps, the slot table is bounded,
  a subscriber misses nothing and sees nothing twice, and what a publish into a closed stream
  does. The witnesses run the hub on the one-request queue of \<open>Queue_Properties\<close>.
\<close>

definition sample_json :: "json \<Rightarrow> string" where "sample_json j = []"

definition sample_publish :: "response_chunk \<Rightarrow> hub_event" where
  "sample_publish c = HPublishCommit sample_json sample_db2 500 (ActingUser 10) 60 c"

definition sample_hub1 :: response_hub where
  "sample_hub1 = snd (snd (subscribe_live 1 empty_hub 60))"

definition sample_hub2 :: response_hub where
  "sample_hub2 = hub_next 1 (HFanout 0) (hub_next 1 (sample_publish (RcText ''hi'')) sample_hub1)"

definition sample_hub3 :: response_hub where
  "sample_hub3 = hub_next 1 (HFanout 0) (hub_next 1 (sample_publish (RcDone [])) sample_hub2)"

lemma sample_hub_reach: "reach hub_init (hub_step (Suc 0)) empty_hub"
  by (rule reach_init) (simp add: hub_init_def)

lemma sample_hub_subscribe: "subscribe_live (Suc 0) empty_hub 60 = ((0, 0), False, sample_hub1)"
  by (simp add: sample_hub1_def subscribe_live_def Let_def touch_slot_def new_slot_def slot_of_def
      empty_hub_def)

lemma sample_hub_steps12:
  "steps (hub_step (Suc 0)) sample_hub1 [sample_publish (RcText ''hi''), HFanout 0] sample_hub2"
  unfolding sample_hub2_def by (auto intro!: steps.intros simp: hub_step_def)

lemma sample_hub_steps23:
  "steps (hub_step (Suc 0)) sample_hub2 [sample_publish (RcDone []), HFanout 0] sample_hub3"
  unfolding sample_hub3_def by (auto intro!: steps.intros simp: hub_step_def)

lemma sample_hub_reach3: "reach hub_init (hub_step (Suc 0)) sample_hub3"
proof -
  have "hub_step (Suc 0) empty_hub (HSubscribe 60) sample_hub1"
    by (simp add: hub_step_def sample_hub1_def)
  with sample_hub_reach have "reach hub_init (hub_step (Suc 0)) sample_hub1" by (rule reach_step)
  then show ?thesis
    using sample_hub_steps12 sample_hub_steps23 by (blast intro: hub.steps_reach)
qed

lemma distinct_map_append:
  assumes "distinct (map f ys)" "distinct (map f xs)" "\<And>y. y \<in> set ys \<Longrightarrow> f y \<notin> f ` set xs"
  shows "distinct (map f (xs @ ys))"
  using assms by (simp add: disjoint_iff) blast

section \<open>The log of a request is gap-free\<close>

text \<open>
  C12. However publishes, fan-outs, closes and subscriptions of any number of callers interleave,
  the chunks stored for a request carry the numbers 0, 1, 2, ... in storage order, up to the
  counter of its stream row: none is skipped, none is given twice.
\<close>

theorem chunk_log_is_gap_free:
  assumes "reach hub_init (hub_step (Suc n)) h"
  shows "map ck_seq (filter (\<lambda>c. ck_request c = i) (rh_chunks h)) = [0..<next_seq h i]"
  using hub.reach_inv [OF assms] by (simp add: hub_inv_def log_inv_def chunk_seqs_def)

theorem chunk_log_is_gap_free_witness:
  "map ck_seq (filter (\<lambda>c. ck_request c = 60) (rh_chunks sample_hub3)) = [0..<next_seq sample_hub3 60]"
  by (rule chunk_log_is_gap_free [OF sample_hub_reach3])

section \<open>The slot table is bounded\<close>

text \<open>
  The in-process directory never holds more than \<open>slot_cap\<close> slots, its order queue lists
  exactly its keys, and every chunk any subscriber's channel ever carried was committed to the
  chunk table before.
\<close>

theorem slot_table_is_bounded:
  assumes "reach hub_init (hub_step (Suc n)) h"
  shows "card (dom (rh_slots h)) \<le> Suc n \<and> set (rh_order h) = dom (rh_slots h)
    \<and> (\<forall>c \<in> set (rh_channels h). \<forall>e \<in> set (ch_log c). stored h (ch_request c) e)"
proof -
  have inv: "hub_inv (Suc n) h" by (rule hub.reach_inv [OF assms])
  then have "table_inv (Suc n) h" "items_inv h" by (simp_all add: hub_inv_def)
  then show ?thesis
    by (auto simp: table_inv_def channel_stored distinct_card [symmetric])
qed

theorem slot_table_is_bounded_witness:
  "card (dom (rh_slots sample_hub3)) \<le> Suc 0 \<and> set (rh_order sample_hub3) = dom (rh_slots sample_hub3)
    \<and> set (rh_channels sample_hub3) \<subseteq> {c. \<forall>e \<in> set (ch_log c). stored sample_hub3 (ch_request c) e}"
  using slot_table_is_bounded [OF sample_hub_reach3] by blast

section \<open>What a subscriber reads\<close>

text \<open>
  C13. A subscriber attaches to the live channel at \<open>h0\<close>, reads the backlog at any later state
  \<open>h2\<close> and then polls the channel at any points up to any later \<open>h3\<close>, with any actions of others in
  between. Its stream contains no chunk twice, only stored chunks numbered after \<open>since\<close>, and every
  such chunk that was stored when the backlog was read. Unless the stream says \<open>Stalled\<close> it also
  contains every such chunk its receiver has passed, of those sent on its channel since it attached; and
  it never says so while at most 256 have been sent. A chunk whose slot was closed or evicted by the
  time of its fan-out is not sent on this channel: the subscriber finds it in the log only.
\<close>

theorem subscriber_misses_only_with_notice:
  assumes "reach hub_init (hub_step (Suc n)) h0"
    and "subscribe_live (Suc n) h0 i = (rx, was_closed, h1)"
    and "steps (hub_step (Suc n)) h1 es h2" and "steps (hub_step (Suc n)) h2 fs h3"
    and "sent = ch_log (rh_channels h3 ! fst rx)" and "\<forall>k \<in> set polls. k \<le> length sent"
    and "subscribe_stream h2 h3 rx i since polls = (stream, pos)"
  shows "distinct (map env_seq (delivered stream))
    \<and> (\<forall>e \<in> set (delivered stream). after_since since (env_seq e) \<and> stored h3 i e)
    \<and> (\<forall>e. stored h2 i e \<and> after_since since (env_seq e) \<longrightarrow> e \<in> set (delivered stream))
    \<and> (EvStalled \<notin> set stream \<longrightarrow>
         (\<forall>e \<in> set (drop (snd rx) (take pos sent)). after_since since (env_seq e) \<longrightarrow> e \<in> set (delivered stream)))
    \<and> (length sent - snd rx \<le> MAX_CHUNK_BUFFER_PER_REQUEST \<longrightarrow> EvStalled \<notin> set stream)"
proof -
  have inv0: "hub_inv (Suc n) h0" by (rule hub.reach_inv [OF assms(1)])
  note sub = subscribed_channel [OF inv0 assms(2)]
  have inv2: "hub_inv (Suc n) h2" by (rule hub.steps_inv [OF assms(3) sub(4)])
  have inv3: "hub_inv (Suc n) h3" by (rule hub.steps_inv [OF assms(4) inv2])
  have le13: "hub_le h1 h3"
    by (rule hub_le_trans [OF hub.steps_le [OF assms(3) sub(4)] hub.steps_le [OF assms(4) inv2]])
  have le23: "hub_le h2 h3" by (rule hub.steps_le [OF assms(4) inv2])
  have c: "rh_channels h3 ! fst rx \<in> set (rh_channels h3)" "ch_request (rh_channels h3 ! fst rx) = i" "snd rx \<le> length sent"
    using le13 sub(1,2,3) assms(5) by (auto simp: hub_le_def)
  obtain evs m where rb: "read_backlog h2 i since = (evs, m)" by (meson surj_pair)
  obtain its where rcv: "receive MAX_CHUNK_BUFFER_PER_REQUEST sent (snd rx) polls = (its, pos)"
    and stream: "stream = evs @ filter_live_stream its m"
    using assms(5,7) rb by (auto simp: subscribe_stream_def split: prod.splits)
  obtain ks where ks: "envelopes its = map ((!) sent) ks" "sorted_wrt (<) ks" "set ks \<subseteq> {snd rx..<pos}" "pos \<le> length sent"
    "(\<forall>k. RecvLagged k \<notin> set its) \<longrightarrow> set ks = {snd rx..<pos}"
    using receive_positions [OF rcv assms(6) c(3)] by blast
  have out: "delivered stream = delivered evs @ filter (beyond m) (envelopes its)" by (simp add: stream)
  have sub_sent: "set (envelopes its) \<subseteq> set sent" using ks by (auto simp: subset_iff)
  note live = live_split [OF inv2 inv3 le23 c(1,2) rb, folded assms(5)]
  have "distinct (map env_seq sent)"
    using inv3 c(1) unfolding assms(5) by (intro channel_seqs_distinct) (simp_all add: hub_inv_def)
  then have "inj_on ((!) (map env_seq sent)) (set ks)" using ks(3,4) by (intro inj_on_nth) auto
  moreover have "map env_seq (envelopes its) = map ((!) (map env_seq sent)) ks" using ks(1,3,4) by (auto simp: subset_iff)
  moreover have "distinct ks" using ks(2) by (simp add: strict_sorted_iff)
  ultimately have "distinct (map env_seq (envelopes its))"
    by (simp add: distinct_map)
  then have 1: "distinct (map env_seq (delivered stream))"
    unfolding out using live(1,2) sub_sent
    by (intro distinct_map_append) (auto intro: distinct_map_filter)
  have passed: "e \<in> set (envelopes its)" if "EvStalled \<notin> set stream" "e \<in> set (drop (snd rx) (take pos sent))" for e
  proof -
    have "set ks = {snd rx..<pos}" using that(1) ks(5) by (auto simp: stream stalled_live)
    then show ?thesis using that(2) ks(1,4) by (auto simp: in_set_conv_nth)
  qed
  have "EvStalled \<notin> set evs" using rb by (auto simp: read_backlog_def Let_def)
  then have 5: "EvStalled \<notin> set stream" if "length sent - snd rx \<le> MAX_CHUNK_BUFFER_PER_REQUEST"
    using receive_keeps_up [OF rcv assms(6) that] by (auto simp: stream stalled_live)
  show ?thesis
  proof (intro conjI ballI allI impI)
    fix e assume "e \<in> set (delivered stream)"
    then show "after_since since (env_seq e)" "stored h3 i e" using live(3,4,5) sub_sent by (auto simp: out)
  next
    fix e assume "stored h2 i e \<and> after_since since (env_seq e)"
    then show "e \<in> set (delivered stream)" using live(4) by (simp add: out)
  next
    fix e assume "EvStalled \<notin> set stream" "e \<in> set (drop (snd rx) (take pos sent))" "after_since since (env_seq e)"
    then show "e \<in> set (delivered stream)" using passed [of e] live(6) sub_sent by (auto simp: out)
  qed (use 1 5 in blast)+
qed

lemma sample_db2_request:
  "\<exists>r. visible_request sample_db2 (ActingUser 10) 60 = Some r \<and> pr_org r = 1"
  by (simp add: visible_request_def org_visible_def sample_defs enqueue_defs claim_defs)

lemma sample_hub_sent: "length (ch_log (rh_channels sample_hub3 ! 0)) = 2"
proof -
  obtain r where r: "visible_request sample_db2 (ActingUser 10) 60 = Some r" "pr_org r = 1" using sample_db2_request by blast
  have org: "org_visible sample_db2 (ActingUser 10) 1" by (simp add: org_visible_def sample_defs enqueue_defs claim_defs)
  have h1: "sample_hub1 = new_slot empty_hub 60" by (simp add: sample_hub1_def subscribe_live_def Let_def touch_slot_def empty_hub_def)
  note defs = sample_publish_def publish_in_tx_def r org org [unfolded One_nat_def] stream_writable_def stream_of_def next_seq_def Let_def bump_stream_def
    fanout_after_commit_def publish_sender_def touch_slot_def slot_of_def send_def set_closed_def update_where_def i64_max_def
  have "ch_log (rh_channels sample_hub2 ! 0) = [\<lparr>env_seq = 0, env_chunk = RcText ''hi''\<rparr>]
      \<and> rh_slots sample_hub2 = [60 \<mapsto> \<lparr>slot_tx = 0, slot_closed = False\<rparr>] \<and> length (rh_channels sample_hub2) = 1
      \<and> rh_streams sample_hub2 = [\<lparr>st_request = 60, st_org = 1, st_next_seq = 1, st_closed = False\<rparr>]
      \<and> map ck_seq (rh_chunks sample_hub2) = [0] \<and> rh_inflight sample_hub2 = []"
    by (simp add: sample_hub2_def h1 new_slot_def empty_hub_def defs chunk_row_of_def)
  then show ?thesis
    by (auto simp: sample_hub3_def defs)
qed

theorem subscriber_misses_only_with_notice_witness:
  "\<exists>stream pos. subscribe_stream sample_hub2 sample_hub3 (0, 0) 60 None [1, 2] = (stream, pos)
    \<and> EvStalled \<notin> set stream \<and> distinct (map env_seq (delivered stream))
    \<and> (\<forall>e. stored sample_hub2 60 e \<longrightarrow> e \<in> set (delivered stream))"
proof -
  obtain stream pos where s: "subscribe_stream sample_hub2 sample_hub3 (0, 0) 60 None [1, 2] = (stream, pos)"
    by (meson surj_pair)
  have polls: "\<forall>k \<in> set [1, 2]. k \<le> length (ch_log (rh_channels sample_hub3 ! fst (0 :: nat, 0 :: nat)))"
    by (simp add: sample_hub_sent)
  from subscriber_misses_only_with_notice
    [OF sample_hub_reach sample_hub_subscribe sample_hub_steps12 sample_hub_steps23 refl polls s] s
  show ?thesis by (auto simp: after_since_def sample_hub_sent MAX_CHUNK_BUFFER_PER_REQUEST_def)
qed

section \<open>A closed stream still stores chunks\<close>

text \<open>
  A publish to a request whose live slot is closed is reported as an error, but the error
  comes after the commit: the chunk has been stored, numbered and announced like any other, so
  subscribers that replay the log read it although the publisher was told it was refused.
\<close>

lemma closed_stream_still_stores:
  assumes "hub_accepts 0 (Suc n) db actor h i"
    and "rh_slots h i = Some s" and "slot_closed s"
  shows "fst (publish_as (Suc n) js db now actor h i c)
      = Inl (ResponseBackend ''request stream already closed'')
    \<and> chunk_log (snd (publish_as (Suc n) js db now actor h i c)) i = chunk_log h i @ [c]"
  using publish_after_close_stores [OF assms] publish_as_log [OF assms(1), of js now c i] by simp

definition closed_hub :: response_hub where
  "closed_hub = mark_closed 1 empty_hub 60"

lemma closed_hub_accepts: "hub_accepts 0 (Suc 0) sample_db2 (ActingUser 10) closed_hub 60"
proof -
  have "hub_inv (Suc 0) closed_hub"
    unfolding closed_hub_def One_nat_def by (rule mark_closed_inv [OF _ empty_hub_inv]) simp
  moreover have "rh_streams closed_hub = []"
    using same_store_mark_closed [of empty_hub 1 60]
    by (simp add: same_store_def closed_hub_def empty_hub_def)
  ultimately show ?thesis
    using sample_db2_request
    by (auto simp: hub_accepts_def stream_writable_def stream_of_def next_seq_def i64_max_def)
qed

lemma closed_stream_still_stores_witness:
  "\<exists>s. rh_slots closed_hub 60 = Some s \<and> slot_closed s
    \<and> chunk_log (snd (publish_as (Suc 0) sample_json sample_db2 500 (ActingUser 10) closed_hub 60
        (RcText ''late''))) 60 = chunk_log closed_hub 60 @ [RcText ''late'']"
proof -
  obtain s where s: "rh_slots closed_hub 60 = Some s" "slot_closed s"
    by (simp add: closed_hub_def mark_closed_def set_closed_def)
  then show ?thesis using closed_stream_still_stores [OF closed_hub_accepts s] by blast
qed

end
