(* ===== verification/Worker.thy ===== *)
theory Worker
  imports Response_Hub_Reach Prompt_Queue_Laws
begin

text \<open>
  One worker handling one claimed turn (\<open>runtime/worker.rs\<close>). The worker is a client of the
  prompt queue, the response hub and the DAG budget. What is not this worker's own code is the
  record \<open>worker_env\<close>: the agent (its attempts, its background turns), the nudge append and the
  reflection checkpoint of the thread store, whether a statement of this worker reaches the
  database, and \<open>we_gap\<close>: what everybody else (other workers, the HTTP side, this worker's
  heartbeat task) does to the shared state between two of its awaits, by program point.
\<close>

section \<open>Agent errors\<close>

datatype agent_error =
    AeProvider string
  | AeInternal string
  | AeThread string
  | AeBackground string
  | AeMemory string
  | AeTodos string
  | AeTodosLoadTimeout
  | AeHook string
  | AeHookDenied string
  | AeProviderTimeout
  | AeToolTimeout string
  | AeUnknownTool string
  | AeTooManyToolCalls nat
  | AeMaxTurnsExceeded nat
  | AeEmptyReply
  | AeBillingExceeded uuid
  | AeOutOfCredit uuid
  | AeCancelled

text \<open>The \<open>Display\<close> of the error; the wrapped errors carry their own rendering, \<open>us\<close> prints a UUID.\<close>

fun agent_error_display :: "(uuid \<Rightarrow> string) \<Rightarrow> agent_error \<Rightarrow> string" where
  "agent_error_display us (AeProvider s) = ''provider: '' @ s"
| "agent_error_display us (AeInternal s) = ''agent_core invariant: '' @ s"
| "agent_error_display us (AeThread s) = ''thread: '' @ s"
| "agent_error_display us (AeBackground s) = ''background: '' @ s"
| "agent_error_display us (AeMemory s) = ''memory: '' @ s"
| "agent_error_display us (AeTodos s) = ''todos: '' @ s"
| "agent_error_display us AeTodosLoadTimeout = ''todos pre-turn read timed out''"
| "agent_error_display us (AeHook s) = ''hook: '' @ s"
| "agent_error_display us (AeHookDenied s) = s"
| "agent_error_display us AeProviderTimeout = ''provider call timed out''"
| "agent_error_display us (AeToolTimeout n) = ''tool `'' @ n @ ''` timed out''"
| "agent_error_display us (AeUnknownTool n) = ''model issued an unknown tool: '' @ n"
| "agent_error_display us (AeTooManyToolCalls m) =
     ''model issued more than '' @ show_nat m @ '' tool calls in a single turn''"
| "agent_error_display us (AeMaxTurnsExceeded n) =
     ''max turns ('' @ show_nat n @ '') exceeded without final reply''"
| "agent_error_display us AeEmptyReply = ''provider returned no usable content''"
| "agent_error_display us (AeBillingExceeded org) =
     ''org '' @ us org @ '' has exhausted its monthly spend budget''"
| "agent_error_display us (AeOutOfCredit org) = ''org '' @ us org @ '' is out of platform credit''"
| "agent_error_display us AeCancelled = ''agent cancelled''"

definition failure_of_agent_error :: "(uuid \<Rightarrow> string) \<Rightarrow> agent_error \<Rightarrow> failure_reason" where
  "failure_of_agent_error us e =
     (case e of
        AeCancelled \<Rightarrow> Cancelled
      | AeProviderTimeout \<Rightarrow> Timeout
      | AeTodosLoadTimeout \<Rightarrow> Timeout
      | AeHookDenied d \<Rightarrow> Hook d
      | AeBillingExceeded _ \<Rightarrow> BillingExceeded
      | AeOutOfCredit _ \<Rightarrow> OutOfCredit
      | _ \<Rightarrow> Provider (agent_error_display us e))"

section \<open>The environment\<close>

record world =
  wd_queue :: queue_db
  wd_hub :: response_hub

record agent_reply =
  rp_final_text :: string
  rp_send_message_calls :: nat

text \<open>\<open>Ok(Ok(reply))\<close>, \<open>Ok(Err(e))\<close>, and the elapsed timeout.\<close>

datatype attempt_result = Reply agent_reply | AgentErr agent_error | Elapsed

record worker_env =
  we_gap :: "nat \<Rightarrow> world \<Rightarrow> world"
  we_now :: timestamp
  we_slot_cap :: nat
  we_json :: "json \<Rightarrow> string"
  we_uuid_str :: "uuid \<Rightarrow> string"
  we_db_ok :: "nat \<Rightarrow> world \<Rightarrow> bool"
  we_resolve :: "uuid \<Rightarrow> (unit, string) result"
  we_attempt :: "nat \<Rightarrow> claimed_turn \<Rightarrow> world \<Rightarrow> attempt_result \<times> world"
  we_nudge :: "nat \<Rightarrow> claimed_turn \<Rightarrow> world \<Rightarrow> (unit, string) result \<times> world"
  we_background :: "claimed_turn \<Rightarrow> world \<Rightarrow> attempt_result \<times> world"
  we_checkpoint :: "uuid \<Rightarrow> uuid \<Rightarrow> uuid \<Rightarrow> uuid \<Rightarrow> world \<Rightarrow> world"

section \<open>Publishing to the batch\<close>

definition publish_for_user ::
  "worker_env \<Rightarrow> uuid \<Rightarrow> uuid \<Rightarrow> response_chunk \<Rightarrow> world \<Rightarrow> (chunk_seq, response_error) result \<times> world" where
  "publish_for_user env user i chunk w =
     (case publish_as (we_slot_cap env) (we_json env) (wd_queue w) (we_now env) (ActingUser user)
             (wd_hub w) i chunk of (res, h) \<Rightarrow> (res, w\<lparr>wd_hub := h\<rparr>))"

definition close_for_user ::
  "worker_env \<Rightarrow> uuid \<Rightarrow> uuid \<Rightarrow> world \<Rightarrow> (unit, response_error) result \<times> world" where
  "close_for_user env user i w =
     (case close_as (we_slot_cap env) (wd_queue w) (ActingUser user) (wd_hub w) i of
        (res, h) \<Rightarrow> (res, w\<lparr>wd_hub := h\<rparr>))"

text \<open>Both calls are made whatever the first returns.\<close>

definition publish_failure_to :: "worker_env \<Rightarrow> uuid \<Rightarrow> failure_reason \<Rightarrow> uuid \<Rightarrow> world \<Rightarrow> world" where
  "publish_failure_to env user reason i w =
     (let w1 = snd (publish_for_user env user i (from_failure reason) (we_gap env 0 w))
      in snd (close_for_user env user i (we_gap env 1 w1)))"

definition publish_failure :: "worker_env \<Rightarrow> turn_receipt \<Rightarrow> failure_reason \<Rightarrow> world \<Rightarrow> world" where
  "publish_failure env rc reason w =
     fold (publish_failure_to env (tr_acting_user rc) reason) (tr_trigger_ids rc) w"

text \<open>A failed publish of the \<open>Done\<close> skips the close of that trigger.\<close>

definition publish_done_to :: "worker_env \<Rightarrow> uuid \<Rightarrow> uuid \<Rightarrow> world \<Rightarrow> world" where
  "publish_done_to env user i w =
     (case publish_for_user env user i (RcDone []) (we_gap env 2 w) of
        (Inl _, w1) \<Rightarrow> w1
      | (Inr _, w1) \<Rightarrow> snd (close_for_user env user i (we_gap env 3 w1)))"

definition maybe_emit_quiescence :: "worker_env \<Rightarrow> turn_receipt \<Rightarrow> world \<Rightarrow> world" where
  "maybe_emit_quiescence env rc w =
     (let w1 = we_gap env 4 w
      in if we_db_ok env 4 w1 \<and> quiescent (wd_queue w1) (tr_root rc)
         then fold (publish_done_to env (tr_acting_user rc)) (tr_trigger_ids rc) w1
         else w1)"

section \<open>Finalise and release\<close>

definition mark_done :: "worker_env \<Rightarrow> turn_receipt \<Rightarrow> world \<Rightarrow> world" where
  "mark_done env rc w =
     (let w1 = we_gap env 5 w
      in if we_db_ok env 5 w1 then w1\<lparr>wd_queue := mark_turn_done (wd_queue w1) (we_now env) rc\<rparr>
         else w1)"

definition mark_failed :: "worker_env \<Rightarrow> turn_receipt \<Rightarrow> failure_reason \<Rightarrow> world \<Rightarrow> world" where
  "mark_failed env rc reason w =
     (let w1 = we_gap env 6 w
      in if we_db_ok env 6 w1
         then w1\<lparr>wd_queue := mark_turn_failed (wd_queue w1) (we_now env) rc reason\<rparr>
         else w1)"

definition finalise :: "worker_env \<Rightarrow> turn_receipt \<Rightarrow> failure_reason \<Rightarrow> world \<Rightarrow> world" where
  "finalise env rc reason w = maybe_emit_quiescence env rc (mark_failed env rc reason w)"

definition release :: "worker_env \<Rightarrow> turn_receipt \<Rightarrow> world \<Rightarrow> world" where
  "release env rc w =
     (let w1 = we_gap env 7 w
      in if we_db_ok env 7 w1 then w1\<lparr>wd_queue := release_turn (wd_queue w1) rc\<rparr> else w1)"

definition fail_turn :: "worker_env \<Rightarrow> turn_receipt \<Rightarrow> failure_reason \<Rightarrow> world \<Rightarrow> world" where
  "fail_turn env rc reason w = finalise env rc reason (publish_failure env rc reason w)"

definition handle_success :: "worker_env \<Rightarrow> turn_receipt \<Rightarrow> world \<Rightarrow> world" where
  "handle_success env rc w = maybe_emit_quiescence env rc (mark_done env rc w)"

definition handle_agent_error :: "worker_env \<Rightarrow> turn_receipt \<Rightarrow> agent_error \<Rightarrow> world \<Rightarrow> world" where
  "handle_agent_error env rc e w = fail_turn env rc (failure_of_agent_error (we_uuid_str env) e) w"

section \<open>Running the turn\<close>

text \<open>\<open>retries\<close> counts the nudges given so far.\<close>

function run_with_pingpong_guard ::
  "worker_env \<Rightarrow> claimed_turn \<Rightarrow> turn_receipt \<Rightarrow> nat \<Rightarrow> world \<Rightarrow> world" where
  "run_with_pingpong_guard env claim rc retries w =
     (case we_attempt env retries claim (we_gap env 8 w) of
        (Reply r, w1) \<Rightarrow>
          if rp_send_message_calls r = 0
          then if retries \<ge> MAX_PINGPONG_RETRIES then fail_turn env rc NoEgress w1
               else (case we_nudge env (retries + 1) claim (we_gap env 9 w1) of
                       (Inl e, w2) \<Rightarrow> fail_turn env rc (Unrecoverable (''nudge append: '' @ e)) w2
                     | (Inr _, w2) \<Rightarrow> run_with_pingpong_guard env claim rc (retries + 1) w2)
          else handle_success env rc w1
      | (AgentErr e, w1) \<Rightarrow> handle_agent_error env rc e w1
      | (Elapsed, w1) \<Rightarrow> fail_turn env rc Timeout w1)"
  by pat_completeness auto
termination
  by (relation "measure (\<lambda>(env, claim, rc, retries, w). MAX_PINGPONG_RETRIES - retries)") auto

declare run_with_pingpong_guard.simps [simp del]

definition advance_reflection_checkpoint :: "worker_env \<Rightarrow> claimed_turn \<Rightarrow> world \<Rightarrow> world" where
  "advance_reflection_checkpoint env claim w =
     (case ct_payload claim of
        PReflection thread up_to \<Rightarrow>
          we_checkpoint env (ct_org claim) (ct_receiver_agent claim) thread up_to (we_gap env 10 w)
      | _ \<Rightarrow> w)"

definition run_background :: "worker_env \<Rightarrow> claimed_turn \<Rightarrow> turn_receipt \<Rightarrow> world \<Rightarrow> world" where
  "run_background env claim rc w =
     (case we_background env claim (we_gap env 11 w) of
        (Reply _, w1) \<Rightarrow>
          maybe_emit_quiescence env rc (mark_done env rc (advance_reflection_checkpoint env claim w1))
      | (AgentErr e, w1) \<Rightarrow> handle_agent_error env rc e w1
      | (Elapsed, w1) \<Rightarrow> finalise env rc Timeout w1)"

text \<open>A failed status read counts as not cancelled.\<close>

definition any_cancelled :: "worker_env \<Rightarrow> uuid list \<Rightarrow> world \<Rightarrow> bool" where
  "any_cancelled env ids w =
     (if we_db_ok env 12 w
      then (case statuses (wd_queue w) ids of
              Inr views \<Rightarrow> list_ex (\<lambda>v. rv_cancellation_requested v \<or> is_terminal (rv_status v)) views
            | Inl _ \<Rightarrow> False)
      else False)"

definition handle_turn :: "worker_env \<Rightarrow> claimed_turn \<Rightarrow> world \<Rightarrow> world" where
  "handle_turn env claim w =
     (let rc = receipt claim; w0 = we_gap env 12 w in
      if any_cancelled env (tr_trigger_ids rc) w0
      then release env rc (fail_turn env rc Cancelled w0)
      else (case we_resolve env (ct_receiver_agent claim) of
              Inl e \<Rightarrow> release env rc (fail_turn env rc (Unrecoverable (''agent resolve: '' @ e)) w0)
            | Inr _ \<Rightarrow>
                release env rc
                  (case ct_kind claim of
                     Normal \<Rightarrow> run_with_pingpong_guard env claim rc 0 w0
                   | _ \<Rightarrow> run_background env claim rc w0)))"

section \<open>The observer\<close>

fun chunk_of_assistant :: "assistant_content \<Rightarrow> response_chunk" where
  "chunk_of_assistant (CText s) = RcText s"
| "chunk_of_assistant (CReasoning s) = RcReasoning s"
| "chunk_of_assistant (CToolCall c) = RcToolCall c"

definition fanout :: "worker_env \<Rightarrow> uuid \<Rightarrow> uuid list \<Rightarrow> response_chunk \<Rightarrow> world \<Rightarrow> world" where
  "fanout env user ids chunk w =
     fold (\<lambda>i w. snd (publish_for_user env user i chunk (we_gap env 13 w))) ids w"

definition on_assistant ::
  "worker_env \<Rightarrow> uuid \<Rightarrow> uuid list \<Rightarrow> assistant_content \<Rightarrow> world \<Rightarrow> world" where
  "on_assistant env user ids content w = fanout env user ids (chunk_of_assistant content) w"

definition on_tool_result :: "worker_env \<Rightarrow> uuid \<Rightarrow> uuid list \<Rightarrow> tool_result \<Rightarrow> world \<Rightarrow> world" where
  "on_tool_result env user ids r w = fanout env user ids (RcToolResult r) w"

section \<open>Every turn ends\<close>

text \<open>
  \<open>settling\<close>: each trigger of the batch is still held by this claim or already has an outcome;
  \<open>settled\<close>: each has an outcome. Everything the rest of the system can do keeps both.
\<close>

definition settling :: "uuid list \<Rightarrow> turn_seq \<Rightarrow> world \<Rightarrow> bool" where
  "settling ids seq w \<longleftrightarrow> queue_inv (wd_queue w) \<and>
     (\<forall>i \<in> set ids. \<exists>r. row_of (wd_queue w) i = Some r \<and>
        (pr_status r = Processing \<and> pr_turn_seq r = seq \<or> is_terminal (pr_status r)))"

definition settled :: "uuid list \<Rightarrow> world \<Rightarrow> bool" where
  "settled ids w \<longleftrightarrow> queue_inv (wd_queue w) \<and>
     (\<forall>i \<in> set ids. \<exists>r. row_of (wd_queue w) i = Some r \<and> is_terminal (pr_status r))"

definition evolves :: "duration \<Rightarrow> world \<Rightarrow> world \<Rightarrow> bool" where
  "evolves t w w' \<longleftrightarrow> (\<exists>es. steps (queue_step t) (wd_queue w) es (wd_queue w'))"

text \<open>Everyone else goes through the queue's operations.\<close>

definition fair_env :: "duration \<Rightarrow> worker_env \<Rightarrow> bool" where
  "fair_env t env \<longleftrightarrow>
     (\<forall>k w. evolves t w (we_gap env k w))
   \<and> (\<forall>k c w. evolves t w (snd (we_attempt env k c w)))
   \<and> (\<forall>k c w. evolves t w (snd (we_nudge env k c w)))
   \<and> (\<forall>c w. evolves t w (snd (we_background env c w)))
   \<and> (\<forall>o' a th m w. evolves t w (we_checkpoint env o' a th m w))"

lemma fair_envD:
  assumes "fair_env t env"
  shows "evolves t w (we_gap env k w)" "evolves t w (snd (we_attempt env k c w))"
    "evolves t w (snd (we_nudge env k c w))" "evolves t w (snd (we_background env c w))"
    "evolves t w (we_checkpoint env o' a th m w)"
  using assms by (simp_all add: fair_env_def)

lemma evolves_refl [simp]: "evolves t w w"
  by (auto simp: evolves_def intro: steps_nil)

lemma evolves_le: "evolves t w w' \<Longrightarrow> queue_inv (wd_queue w) \<Longrightarrow>
  queue_inv (wd_queue w') \<and> db_le (wd_queue w) (wd_queue w')"
  unfolding evolves_def by (blast intro: pq.steps_inv pq.steps_le)

lemma settling_evolves:
  assumes "settling ids seq w" "evolves t w w'"
  shows "settling ids seq w'"
  unfolding settling_def
proof (intro conjI ballI)
  from assms have le: "queue_inv (wd_queue w')" "db_le (wd_queue w) (wd_queue w')"
    by (simp_all add: settling_def evolves_le)
  then show "queue_inv (wd_queue w')" by simp
  fix i assume "i \<in> set ids"
  with assms(1) obtain r where r: "row_of (wd_queue w) i = Some r"
    "pr_status r = Processing \<and> pr_turn_seq r = seq \<or> is_terminal (pr_status r)"
    by (auto simp: settling_def)
  obtain r' where "row_of (wd_queue w') i = Some r'" "row_le r r'"
    using row_of_le [OF le(2,1) r(1)] .
  with r(2) show "\<exists>r. row_of (wd_queue w') i = Some r \<and>
      (pr_status r = Processing \<and> pr_turn_seq r = seq \<or> is_terminal (pr_status r))"
    by (auto simp: row_le_def status_le_def)
qed

lemma settled_evolves:
  assumes "settled ids w" "evolves t w w'"
  shows "settled ids w'"
  unfolding settled_def
proof (intro conjI ballI)
  from assms have le: "queue_inv (wd_queue w')" "db_le (wd_queue w) (wd_queue w')"
    by (simp_all add: settled_def evolves_le)
  then show "queue_inv (wd_queue w')" by simp
  fix i assume "i \<in> set ids"
  with assms(1) obtain r where r: "row_of (wd_queue w) i = Some r" "is_terminal (pr_status r)"
    by (auto simp: settled_def)
  obtain r' where "row_of (wd_queue w') i = Some r'" "row_le r r'"
    using row_of_le [OF le(2,1) r(1)] .
  with r(2) show "\<exists>r. row_of (wd_queue w') i = Some r \<and> is_terminal (pr_status r)"
    by (auto simp: row_le_def status_le_def)
qed

text \<open>What this worker does to the queue is itself made of queue steps.\<close>

lemma evolves_mark:
  "evolves t w (w\<lparr>wd_queue := mark_turn_done (wd_queue w) now rc\<rparr>)"
  "evolves t w (w\<lparr>wd_queue := mark_turn_failed (wd_queue w) now rc fr\<rparr>)"
  "evolves t w (w\<lparr>wd_queue := release_turn (wd_queue w) rc\<rparr>)"
  by (auto simp: evolves_def intro: steps_cons [OF _ steps_nil] queue_step.intros)

lemma evolves_trans: "evolves t w w' \<Longrightarrow> evolves t w' w'' \<Longrightarrow> evolves t w w''"
proof -
  have app: "steps s a es b \<Longrightarrow> steps s b fs c \<Longrightarrow> steps s a (es @ fs) c" for s :: "'x \<Rightarrow> 'y \<Rightarrow> 'x \<Rightarrow> bool" and a es b fs c
    by (induction rule: steps.induct) (auto intro: steps.intros)
  assume "evolves t w w'" "evolves t w' w''"
  then show ?thesis unfolding evolves_def by (blast intro: app)
qed

lemma wd_queue_publish [simp]: "wd_queue (snd (publish_for_user env u i c w)) = wd_queue w"
  by (simp add: publish_for_user_def split: prod.split)

lemma wd_queue_close [simp]: "wd_queue (snd (close_for_user env u i w)) = wd_queue w"
  by (simp add: close_for_user_def split: prod.split)

lemma evolves_same: "wd_queue w' = wd_queue w \<Longrightarrow> evolves t w w'"
  by (auto simp: evolves_def intro: steps_nil)

lemma evolves_fold:
  "(\<And>x w. evolves t w (f x w)) \<Longrightarrow> evolves t w (fold f xs w)"
  by (induction xs arbitrary: w) (auto intro: evolves_trans)

lemma evolves_publish [simp]:
  "fair_env t env \<Longrightarrow> evolves t w (snd (publish_for_user env u i c (we_gap env k w)))"
  using evolves_trans [OF fair_envD(1) evolves_same [OF wd_queue_publish]] by blast

lemma evolves_close [simp]:
  "fair_env t env \<Longrightarrow> evolves t w (snd (close_for_user env u i (we_gap env k w)))"
  using evolves_trans [OF fair_envD(1) evolves_same [OF wd_queue_close]] by blast

lemma evolves_publish_failure: "fair_env t env \<Longrightarrow> evolves t w (publish_failure env rc reason w)"
  unfolding publish_failure_def publish_failure_to_def Let_def
  by (rule evolves_fold, rule evolves_trans [OF evolves_publish evolves_close])

lemma evolves_done_to: "fair_env t env \<Longrightarrow> evolves t w (publish_done_to env u i w)"
proof -
  assume fair: "fair_env t env"
  show ?thesis
  proof (cases "publish_for_user env u i (RcDone []) (we_gap env 2 w)")
    case (Pair x w1)
    then have "evolves t w w1" using evolves_publish [OF fair, of w u i "RcDone []" 2] by simp
    then show ?thesis using fair Pair
      by (cases x) (auto simp: publish_done_to_def intro: evolves_trans)
  qed
qed

lemma evolves_quiescence: "fair_env t env \<Longrightarrow> evolves t w (maybe_emit_quiescence env rc w)"
  by (auto simp: maybe_emit_quiescence_def Let_def
      intro: evolves_trans [OF fair_envD(1)] evolves_fold evolves_done_to fair_envD(1))

lemma evolves_marks:
  assumes "fair_env t env"
  shows "evolves t w (mark_done env rc w)" "evolves t w (mark_failed env rc fr w)"
    "evolves t w (release env rc w)"
  using assms by (auto simp: mark_done_def mark_failed_def release_def Let_def
      intro: evolves_trans [OF fair_envD(1)] evolves_mark fair_envD(1))

section \<open>Settling\<close>

text \<open>A mark that reaches the database gives every trigger of the batch an outcome.\<close>

lemma finalise_settles:
  assumes "settling (tr_trigger_ids rc) (tr_lease_seq rc) w" "is_terminal st"
    "fr \<noteq> None \<longleftrightarrow> st = Failed"
  shows "settled (tr_trigger_ids rc) (w\<lparr>wd_queue := finalise_turn (wd_queue w) now rc st fr\<rparr>)"
  unfolding settled_def
proof (intro conjI ballI)
  have inv: "queue_inv (wd_queue w)" using assms(1) by (simp add: settling_def)
  then show "queue_inv (wd_queue (w\<lparr>wd_queue := finalise_turn (wd_queue w) now rc st fr\<rparr>))"
    using finalise_turn_inv [OF inv, of st fr] assms(2,3) by (auto simp: is_terminal_iff)
  fix i assume i: "i \<in> set (tr_trigger_ids rc)"
  with assms(1) obtain r where r: "row_of (wd_queue w) i = Some r"
    "pr_status r = Processing \<and> pr_turn_seq r = tr_lease_seq rc \<or> is_terminal (pr_status r)"
    by (auto simp: settling_def)
  then show "\<exists>r. row_of (wd_queue (w\<lparr>wd_queue := finalise_turn (wd_queue w) now rc st fr\<rparr>)) i = Some r
      \<and> is_terminal (pr_status r)"
    using i assms(2) row_of_Some [OF r(1)]
    by (auto simp: tq.row_finalise finalises_def)
qed

definition db_up :: "worker_env \<Rightarrow> bool" where
  "db_up env \<longleftrightarrow> (\<forall>k w. we_db_ok env k w)"

lemma mark_done_settles:
  "fair_env t env \<Longrightarrow> db_up env \<Longrightarrow> settling (tr_trigger_ids rc) (tr_lease_seq rc) w \<Longrightarrow>
   settled (tr_trigger_ids rc) (mark_done env rc w)"
  using finalise_settles [OF settling_evolves [OF _ fair_envD(1)], where st = Done and fr = None]
  by (simp add: mark_done_def Let_def db_up_def mark_turn_done_def)

lemma mark_failed_settles:
  "fair_env t env \<Longrightarrow> db_up env \<Longrightarrow> settling (tr_trigger_ids rc) (tr_lease_seq rc) w \<Longrightarrow>
   settled (tr_trigger_ids rc) (mark_failed env rc reason w)"
  using finalise_settles [OF settling_evolves [OF _ fair_envD(1)], where st = Failed and fr = "Some reason"]
  by (simp add: mark_failed_def Let_def db_up_def mark_turn_failed_def)

lemma finalise_step_settles:
  "fair_env t env \<Longrightarrow> db_up env \<Longrightarrow> settling (tr_trigger_ids rc) (tr_lease_seq rc) w \<Longrightarrow>
   settled (tr_trigger_ids rc) (finalise env rc reason w)"
  unfolding finalise_def by (rule settled_evolves [OF mark_failed_settles evolves_quiescence])

lemma fail_turn_settles:
  "fair_env t env \<Longrightarrow> db_up env \<Longrightarrow> settling (tr_trigger_ids rc) (tr_lease_seq rc) w \<Longrightarrow>
   settled (tr_trigger_ids rc) (fail_turn env rc reason w)"
  unfolding fail_turn_def
  by (rule finalise_step_settles) (auto intro: settling_evolves evolves_publish_failure)

lemma handle_success_settles:
  "fair_env t env \<Longrightarrow> db_up env \<Longrightarrow> settling (tr_trigger_ids rc) (tr_lease_seq rc) w \<Longrightarrow>
   settled (tr_trigger_ids rc) (handle_success env rc w)"
  unfolding handle_success_def by (rule settled_evolves [OF mark_done_settles evolves_quiescence])

lemma settling_gap:
  assumes "fair_env t env" "settling ids seq w"
  shows "settling ids seq (we_gap env k w)"
  using assms by (blast intro: settling_evolves fair_envD(1))

lemma settling_env:
  assumes fair: "fair_env t env" and w: "settling ids seq w"
  shows "we_attempt env k c (we_gap env j w) = (x, w1) \<Longrightarrow> settling ids seq w1"
    "we_nudge env k c (we_gap env j w) = (y, w1) \<Longrightarrow> settling ids seq w1"
    "we_background env c (we_gap env j w) = (x, w1) \<Longrightarrow> settling ids seq w1"
  using settling_evolves [OF settling_gap [OF assms, of j] fair_envD(2) [OF fair, of _ k c]]
    settling_evolves [OF settling_gap [OF assms, of j] fair_envD(3) [OF fair, of _ k c]]
    settling_evolves [OF settling_gap [OF assms, of j] fair_envD(4) [OF fair, of _ c]]
  by simp_all

lemma pingpong_settles:
  assumes fair: "fair_env t env" and up: "db_up env"
    and w: "settling (tr_trigger_ids rc) (tr_lease_seq rc) w"
  shows "settled (tr_trigger_ids rc) (run_with_pingpong_guard env claim rc retries w)"
  using fair up w
proof (induction env claim rc retries w rule: run_with_pingpong_guard.induct)
  case (1 env claim rc retries w)
  note fair = "1.prems"(1) and up = "1.prems"(2) and w = "1.prems"(3)
  note fails = fail_turn_settles [OF fair up]
  show ?case
  proof (cases "we_attempt env retries claim (we_gap env 8 w)")
    case (Pair x w1)
    have w1: "settling (tr_trigger_ids rc) (tr_lease_seq rc) w1"
      by (rule settling_env(1) [OF fair w Pair])
    show ?thesis
    proof (cases x)
      case (Reply r)
      show ?thesis
      proof (cases "rp_send_message_calls r = 0 \<and> \<not> retries \<ge> MAX_PINGPONG_RETRIES")
        case True
        obtain y w2 where nudge: "we_nudge env (retries + 1) claim (we_gap env 9 w1) = (y, w2)"
          by (meson surj_pair)
        have w2: "settling (tr_trigger_ids rc) (tr_lease_seq rc) w2"
          by (rule settling_env(2) [OF fair w1 nudge])
        show ?thesis
        proof (cases y)
          case (Inl e)
          with fails [OF w2] Pair Reply True nudge show ?thesis
            by (simp add: run_with_pingpong_guard.simps [of env claim rc retries w])
        next
          case (Inr u)
          have "settled (tr_trigger_ids rc) (run_with_pingpong_guard env claim rc (retries + 1) w2)"
            using "1.IH" Pair Reply True nudge Inr fair up w2 by metis
          with Pair Reply True nudge Inr show ?thesis
            by (simp add: run_with_pingpong_guard.simps [of env claim rc retries w])
        qed
      next
        case False
        with fails [OF w1] handle_success_settles [OF fair up w1] Pair Reply show ?thesis
          by (auto simp: run_with_pingpong_guard.simps [of env claim rc retries w])
      qed
    next
      case (AgentErr e)
      with fails [OF w1] Pair show ?thesis
        by (simp add: run_with_pingpong_guard.simps [of env claim rc retries w] handle_agent_error_def)
    next
      case Elapsed
      with fails [OF w1] Pair show ?thesis
        by (simp add: run_with_pingpong_guard.simps [of env claim rc retries w])
    qed
  qed
qed

lemma settling_checkpoint:
  "fair_env t env \<Longrightarrow> settling ids seq w \<Longrightarrow>
   settling ids seq (advance_reflection_checkpoint env claim w)"
  by (auto simp: advance_reflection_checkpoint_def split: request_kind_payload.split
      intro: settling_evolves [OF settling_gap fair_envD(5)])

lemma background_settles:
  assumes fair: "fair_env t env" and up: "db_up env"
    and w: "settling (tr_trigger_ids rc) (tr_lease_seq rc) w"
  shows "settled (tr_trigger_ids rc) (run_background env claim rc w)"
proof (cases "we_background env claim (we_gap env 11 w)")
  case (Pair x w1)
  have w1: "settling (tr_trigger_ids rc) (tr_lease_seq rc) w1"
    by (rule settling_env(3) [OF fair w Pair])
  note fin = finalise_step_settles [OF fair up w1] fail_turn_settles [OF fair up w1]
  have "settled (tr_trigger_ids rc)
      (maybe_emit_quiescence env rc (mark_done env rc (advance_reflection_checkpoint env claim w1)))"
    by (rule settled_evolves [OF mark_done_settles [OF fair up settling_checkpoint [OF fair w1]]
          evolves_quiescence [OF fair]])
  with fin Pair show ?thesis
    by (cases x) (simp_all add: run_background_def handle_agent_error_def)
qed

lemma release_lease:
  "db_up env \<Longrightarrow> claim_leases (wd_queue (release env rc w)) (tr_claim_key rc) = Some l \<Longrightarrow>
   cl_lease_seq l \<noteq> tr_lease_seq rc"
  by (auto simp: release_def Let_def db_up_def tq.lease_release split: option.splits if_splits)

lemma handle_turn_settles:
  assumes fair: "fair_env t env" and up: "db_up env"
    and w: "settling (ct_trigger_ids claim) (ct_lease_seq claim) w"
  shows "\<exists>w'. handle_turn env claim w = release env (receipt claim) w' \<and> settled (ct_trigger_ids claim) w'"
proof -
  let ?rc = "receipt claim"
  have rc: "tr_trigger_ids ?rc = ct_trigger_ids claim" "tr_lease_seq ?rc = ct_lease_seq claim"
    by (simp_all add: receipt_def)
  have w0: "settling (tr_trigger_ids ?rc) (tr_lease_seq ?rc) (we_gap env 12 w)"
    using settling_gap [OF fair w] rc by simp
  note fin = fail_turn_settles [OF fair up w0] pingpong_settles [OF fair up w0]
    background_settles [OF fair up w0]
  show ?thesis
    using fin unfolding rc handle_turn_def Let_def
    by (cases "we_resolve env (ct_receiver_agent claim)"; cases "ct_kind claim") auto
qed

end
