(* ===== verification/Worker_Properties.thy ===== *)
theory Worker_Properties
  imports Worker Hub_Properties
begin

text \<open>
  The properties of the worker: every claimed turn is settled and its lease given up whatever
  the agent does; the nudge loop is bounded; a failure reaches every trigger of the batch; and
  what the persisted log of a failed request looks like once the conversation is quiescent.
\<close>

section \<open>Every claimed turn is settled\<close>

text \<open>
  C14. A worker that handles the turn it claimed leaves every trigger of the batch \<open>Done\<close> or
  \<open>Failed\<close> and no longer holds the lease under its fence. This holds for every outcome of the
  agent (any sequence of silent attempts, errors, timeouts), for an unknown agent, for a
  cancellation seen before the start, for background turns, and with anything the rest of the
  system does through the queue's operations in between, as long as this worker's own statements
  reach the database.
\<close>

theorem every_turn_settles:
  assumes "queue_inv (wd_queue w)"
    and "claim_turn_for (wd_queue w) t now wk (k, org, user) = (Inr (Some c), db')"
    and "fair_env t env" and "db_up env"
    and "w' = handle_turn env c (w\<lparr>wd_queue := db'\<rparr>)"
  shows "(\<forall>i \<in> set (ct_trigger_ids c). \<exists>r. row_of (wd_queue w') i = Some r \<and> is_terminal (pr_status r))
    \<and> (\<forall>l. claim_leases (wd_queue w') (ct_claim_key c) = Some l \<longrightarrow> cl_lease_seq l \<noteq> ct_lease_seq c)"
proof -
  let ?w = "w\<lparr>wd_queue := db'\<rparr>"
  have "queue_inv db'" using claim_turn_for_inv [OF assms(1), of t now wk k org user] assms(2) by simp
  then have "settling (ct_trigger_ids c) (ct_lease_seq c) ?w"
    unfolding settling_def using claimed_rows [OF assms(1,2)] by (metis select_convs(1) update_convs(1) world.select_convs(1) world.surjective world.update_convs(1))
  from handle_turn_settles [OF assms(3,4) this] obtain w1
    where w1: "w' = release env (receipt c) w1" "settled (ct_trigger_ids c) w1"
    using assms(5) by blast
  have "settled (ct_trigger_ids c) w'"
    unfolding w1(1) by (rule settled_evolves [OF w1(2) evolves_marks(3) [OF assms(3)]])
  moreover have "cl_lease_seq l \<noteq> ct_lease_seq c"
    if "claim_leases (wd_queue w') (ct_claim_key c) = Some l" for l
    using release_lease [OF assms(4), of "receipt c" w1 l] that w1(1) by (simp add: receipt_def)
  ultimately show ?thesis by (simp add: settled_def)
qed

text \<open>An agent that answers at its \<open>m\<close>-th attempt and is silent before, alone in the world.\<close>

definition sample_env :: "nat \<Rightarrow> worker_env" where
  "sample_env m = \<lparr>we_gap = (\<lambda>k w. w), we_now = 900, we_slot_cap = 1, we_json = sample_json,
     we_uuid_str = (\<lambda>u. []), we_db_ok = (\<lambda>k w. True), we_resolve = (\<lambda>a. Inr ()),
     we_attempt = (\<lambda>k c w. (Reply \<lparr>rp_final_text = ''ok'', rp_send_message_calls = (if k < m then 0 else 1)\<rparr>, w)),
     we_nudge = (\<lambda>k c w. (Inr (), w)), we_background = (\<lambda>c w. (Elapsed, w)),
     we_checkpoint = (\<lambda>org a th msg w. w)\<rparr>"

definition sample_world :: world where
  "sample_world = \<lparr>wd_queue = sample_db1, wd_hub = empty_hub\<rparr>"

lemma sample_env_fair: "fair_env t (sample_env m)" and sample_env_up: "db_up (sample_env m)"
  by (simp_all add: fair_env_def db_up_def sample_env_def)

lemma sample_inv1: "queue_inv sample_db1" and sample_inv2: "queue_inv sample_db2"
  using pq.reach_inv [OF sample_reach1] pq.reach_inv [OF sample_reach2] by simp_all

theorem every_turn_settles_witness:
  "\<exists>c w'. ct_trigger_ids c = [60]
    \<and> w' = handle_turn (sample_env 1) c (sample_world\<lparr>wd_queue := sample_db2\<rparr>)
    \<and> (\<exists>r. row_of (wd_queue w') 60 = Some r \<and> is_terminal (pr_status r))"
proof -
  obtain c where c: "claim_turn_for sample_db1 LEASE_TTL 200 70 (40, 1, 10) = (Inr (Some c), sample_db2)"
    "ct_trigger_ids c = [60]"
    using sample_claim by blast
  have q: "wd_queue sample_world = sample_db1" by (simp add: sample_world_def)
  show ?thesis
    using every_turn_settles [of sample_world LEASE_TTL 200 70 40 1 10 c sample_db2 "sample_env 1",
        OF _ _ sample_env_fair sample_env_up refl] c sample_inv1 q
    by auto
qed

section \<open>The nudge loop is bounded\<close>

text \<open>
  An agent that replies without sending a message is nudged and run again at most
  \<open>MAX_PINGPONG_RETRIES\<close> times: if one of the first three attempts delivers, the turn is marked
  done; if none does, the turn fails with \<open>NoEgress\<close> and no further attempt decides anything.
\<close>

theorem nudges_are_bounded:
  assumes "\<And>k. we_gap env k w = w"
    and "\<And>k. we_attempt env k c w = (Reply (replies k), w)"
    and "\<And>k. we_nudge env k c w = (Inr (), w)"
  shows "run_with_pingpong_guard env c rc 0 w =
    (if \<exists>k \<le> MAX_PINGPONG_RETRIES. rp_send_message_calls (replies k) > 0
     then handle_success env rc w else fail_turn env rc NoEgress w)"
proof -
  have step: "run_with_pingpong_guard env c rc k w =
      (if rp_send_message_calls (replies k) > 0 then handle_success env rc w
       else if k \<ge> MAX_PINGPONG_RETRIES then fail_turn env rc NoEgress w
       else run_with_pingpong_guard env c rc (Suc k) w)" for k
    by (subst run_with_pingpong_guard.simps) (simp add: assms)
  have three: "(\<exists>k \<le> 2. P k) \<longleftrightarrow> P 0 \<or> P 1 \<or> P (2::nat)" for P
    by (auto simp: le_Suc_eq numeral_2_eq_2)
  show ?thesis
    unfolding MAX_PINGPONG_RETRIES_def three
    by (subst step, subst step [of "Suc 0"], subst step [of "Suc (Suc 0)"])
      (auto simp: MAX_PINGPONG_RETRIES_def numeral_2_eq_2)
qed

definition sample_replies :: "nat \<Rightarrow> nat \<Rightarrow> agent_reply" where
  "sample_replies m k = \<lparr>rp_final_text = ''ok'', rp_send_message_calls = (if k < m then 0 else 1)\<rparr>"

lemma sample_env_calls:
  "we_gap (sample_env m) k w = w" "we_attempt (sample_env m) k c w = (Reply (sample_replies m k), w)"
  "we_nudge (sample_env m) k c w = (Inr (), w)"
  by (simp_all add: sample_env_def sample_replies_def)

theorem nudges_are_bounded_witness:
  "\<forall>c rc. run_with_pingpong_guard (sample_env 2) c rc 0 sample_world
      = handle_success (sample_env 2) rc sample_world
   \<and> run_with_pingpong_guard (sample_env 3) c rc 0 sample_world
      = fail_turn (sample_env 3) rc NoEgress sample_world"
proof (intro allI conjI)
  fix c rc
  have "\<exists>k \<le> MAX_PINGPONG_RETRIES. rp_send_message_calls (sample_replies 2 k) > 0"
    by (rule exI [of _ 2]) (simp add: sample_replies_def MAX_PINGPONG_RETRIES_def)
  then show "run_with_pingpong_guard (sample_env 2) c rc 0 sample_world
      = handle_success (sample_env 2) rc sample_world"
    using nudges_are_bounded [OF sample_env_calls, of 2 c rc sample_world]
    by (simp only: if_True)
  have "\<not> (\<exists>k \<le> MAX_PINGPONG_RETRIES. rp_send_message_calls (sample_replies 3 k) > 0)"
    by (auto simp: sample_replies_def MAX_PINGPONG_RETRIES_def)
  then show "run_with_pingpong_guard (sample_env 3) c rc 0 sample_world
      = fail_turn (sample_env 3) rc NoEgress sample_world"
    using nudges_are_bounded [OF sample_env_calls, of 3 c rc sample_world]
    by (simp only: if_False)
qed

section \<open>A failure reaches every trigger\<close>

definition quiet :: "worker_env \<Rightarrow> bool" where
  "quiet env \<longleftrightarrow> (\<forall>k w. we_gap env k w = w)"

definition world_accepts :: "nat \<Rightarrow> worker_env \<Rightarrow> uuid \<Rightarrow> world \<Rightarrow> uuid \<Rightarrow> bool" where
  "world_accepts m env user w i =
     hub_accepts m (we_slot_cap env) (wd_queue w) (ActingUser user) (wd_hub w) i"

abbreviation publish_hub :: "worker_env \<Rightarrow> queue_db \<Rightarrow> uuid \<Rightarrow> response_hub \<Rightarrow> uuid \<Rightarrow> response_chunk \<Rightarrow> response_hub" where
  "publish_hub env db user h i c \<equiv>
     snd (publish_as (we_slot_cap env) (we_json env) db (we_now env) (ActingUser user) h i c)"

abbreviation close_hub :: "worker_env \<Rightarrow> queue_db \<Rightarrow> uuid \<Rightarrow> response_hub \<Rightarrow> uuid \<Rightarrow> response_hub" where
  "close_hub env db user h i \<equiv> snd (close_as (we_slot_cap env) db (ActingUser user) h i)"

lemma publish_for_user_world:
  "snd (publish_for_user env user i c w) = w\<lparr>wd_hub := publish_hub env (wd_queue w) user (wd_hub w) i c\<rparr>"
  by (simp add: publish_for_user_def split: prod.split)

lemma close_for_user_world:
  "snd (close_for_user env user i w) = w\<lparr>wd_hub := close_hub env (wd_queue w) user (wd_hub w) i\<rparr>"
  by (simp add: close_for_user_def split: prod.split)

lemma publish_failure_hub:
  assumes "quiet env"
  shows "publish_failure env rc reason w = w\<lparr>wd_hub :=
    fold (\<lambda>i h. close_hub env (wd_queue w) (tr_acting_user rc)
        (publish_hub env (wd_queue w) (tr_acting_user rc) h i (from_failure reason)) i)
      (tr_trigger_ids rc) (wd_hub w)\<rparr>"
proof -
  have "fold (publish_failure_to env u reason) ids w = w\<lparr>wd_hub :=
      fold (\<lambda>i h. close_hub env (wd_queue w) u
        (publish_hub env (wd_queue w) u h i (from_failure reason)) i) ids (wd_hub w)\<rparr>" for u ids w
    using assms
    by (induction ids arbitrary: w)
      (simp_all add: publish_failure_to_def quiet_def publish_for_user_world close_for_user_world)
  then show ?thesis by (simp add: publish_failure_def)
qed

text \<open>
  When a turn fails, the error chunk is stored in the log of every trigger of the batch,
  once each and after what was there, and in no other request's log.
\<close>

theorem failure_reaches_every_trigger:
  assumes "quiet env" and "we_slot_cap env = Suc n" and "distinct (tr_trigger_ids rc)"
    and "\<forall>i \<in> set (tr_trigger_ids rc). world_accepts 0 env (tr_acting_user rc) w i"
  shows "chunk_log (wd_hub (publish_failure env rc reason w)) j =
    (if j \<in> set (tr_trigger_ids rc)
     then chunk_log (wd_hub w) j @ [RcError (failure_display reason) (failure_label reason)]
     else chunk_log (wd_hub w) j)"
proof -
  have "\<forall>i \<in> set (tr_trigger_ids rc).
      hub_accepts 0 (Suc n) (wd_queue w) (ActingUser (tr_acting_user rc)) (wd_hub w) i"
    using assms(2,4) by (simp add: world_accepts_def)
  from sink.batch_log [OF this assms(3), of "we_json env" "we_now env" "from_failure reason" j]
  show ?thesis
    using assms(2) publish_failure_hub [OF assms(1)] by (simp add: from_failure_def)
qed

definition sample_receipt :: turn_receipt where
  "sample_receipt = \<lparr>tr_claim_key = 40, tr_lease_seq = 1, tr_trigger_ids = [60],
     tr_acting_user = 10, tr_root = 60\<rparr>"

definition sample_world2 :: world where
  "sample_world2 = \<lparr>wd_queue = sample_db2, wd_hub = empty_hub\<rparr>"

lemma sample_accepts: "m \<le> 9 \<Longrightarrow> world_accepts m (sample_env 0) 10 sample_world2 60"
  using sample_db2_request empty_hub_inv [of 1]
  by (auto simp: world_accepts_def sample_env_def sample_world2_def hub_accepts_def
      stream_writable_def stream_of_def next_seq_def empty_hub_def i64_max_def)

lemma sample_quiet: "quiet (sample_env m)" "we_slot_cap (sample_env m) = Suc 0"
  "we_now (sample_env m) = 900"
  by (simp_all add: quiet_def sample_env_def)

theorem failure_reaches_every_trigger_witness:
  "chunk_log (wd_hub (publish_failure (sample_env 0) sample_receipt Timeout sample_world2)) 60
     = [RcError ''turn timed out'' ''timeout'']"
  using failure_reaches_every_trigger [OF sample_quiet(1,2), where rc = sample_receipt
      and w = sample_world2 and reason = Timeout and j = 60] sample_accepts [of 0]
  by (simp add: sample_receipt_def sample_world2_def empty_hub_def chunk_log_def)

section \<open>A failed request's log does not end in its error\<close>

lemma batch_room:
  assumes "distinct ids" "\<forall>i \<in> set ids. hub_accepts (Suc m) (Suc n) db actor h i"
    and "hub_accepts (Suc m) (Suc n) db actor h j"
  shows "hub_accepts m (Suc n) db actor (fold (\<lambda>i h. snd (close_as (Suc n) db actor
      (snd (publish_as (Suc n) js db now actor h i c)) i)) ids h) j"
  using assms
proof (induction ids arbitrary: h)
  case Nil
  then show ?case by (simp add: hub_accepts_def)
next
  case (Cons i ids)
  let ?p = "snd (publish_as (Suc n) js db now actor h i c)"
  let ?h = "snd (close_as (Suc n) db actor ?p i)"
  have i: "hub_accepts (Suc m) (Suc n) db actor h i" using Cons.prems by simp
  have others: "hub_accepts (Suc m) (Suc n) db actor ?h k"
    if "k \<noteq> i" "hub_accepts (Suc m) (Suc n) db actor h k" for k
    using that i by (intro close_as_accepts publish_as_accepts) auto
  have ids: "\<forall>k \<in> set ids. hub_accepts (Suc m) (Suc n) db actor ?h k"
  proof
    fix k assume "k \<in> set ids"
    with Cons.prems have "k \<noteq> i" "hub_accepts (Suc m) (Suc n) db actor h k" by auto
    then show "hub_accepts (Suc m) (Suc n) db actor ?h k" by (rule others)
  qed
  show ?case
  proof (cases "j = i")
    case False
    then show ?thesis using Cons.IH [OF _ ids] Cons.prems others [of j] by simp
  next
    case True
    have "hub_accepts m (Suc n) db actor ?h i"
      by (intro close_as_accepts publish_as_accepts [OF i i]) simp_all
    moreover have "\<forall>k \<in> set ids. hub_accepts m (Suc n) db actor ?h k"
      using ids by (auto simp: hub_accepts_def)
    ultimately show ?thesis
      using sink.batch_accepts [of ids m n db actor ?h i] Cons.prems True by simp
  qed
qed

lemma find_update_same:
  "(\<And>r. p (f r) = p r) \<Longrightarrow> find p (update_where q f t) = None \<longleftrightarrow> find p t = None"
  by (induction t) auto

lemma visible_after_mark:
  "visible_request (mark_turn_failed db now rc reason) actor i \<noteq> None \<longleftrightarrow> visible_request db actor i \<noteq> None"
proof -
  have "org_visible (mark_turn_failed db now rc reason) actor = org_visible db actor"
    by (auto simp: org_visible_def mark_turn_failed_def finalise_turn_def app_user_is_member_def
        fun_eq_iff split: db_actor.split)
  then show ?thesis
    unfolding visible_request_def
    by (simp add: mark_turn_failed_def finalise_turn_def find_update_same)
qed

lemma accepts_after_mark:
  "hub_accepts m cap (mark_turn_failed db now rc reason) actor h i = hub_accepts m cap db actor h i"
proof -
  have "org_visible (mark_turn_failed db now rc reason) actor = org_visible db actor"
    by (auto simp: org_visible_def mark_turn_failed_def finalise_turn_def app_user_is_member_def
        fun_eq_iff split: db_actor.split)
  then show ?thesis
    by (simp only: hub_accepts_def stream_writable_def visible_after_mark)
qed

lemma publish_done_log:
  assumes "quiet env" "we_slot_cap env = Suc n" "distinct ids"
    and "\<forall>i \<in> set ids. world_accepts 0 env user w i"
  shows "chunk_log (wd_hub (fold (publish_done_to env user) ids w)) j =
    (if j \<in> set ids then chunk_log (wd_hub w) j @ [RcDone []] else chunk_log (wd_hub w) j)"
  using assms
proof (induction ids arbitrary: w)
  case (Cons i ids)
  let ?w = "publish_done_to env user i w"
  let ?h = "publish_hub env (wd_queue w) user (wd_hub w) i (RcDone [])"
  have hub: "wd_queue ?w = wd_queue w"
    "wd_hub ?w = ?h \<or> wd_hub ?w = close_hub env (wd_queue w) user ?h i"
    using Cons.prems(1)
    by (auto simp: publish_done_to_def publish_for_user_def close_for_user_def quiet_def
        split: prod.splits sum.splits)
  have acc: "hub_accepts 0 (Suc n) (wd_queue w) (ActingUser user) (wd_hub w) k"
    if "k = i \<or> k \<in> set ids" for k
    using that Cons.prems(2,4) by (auto simp: world_accepts_def)
  have log: "chunk_log (wd_hub ?w) k = (if k = i then chunk_log (wd_hub w) k @ [RcDone []]
      else chunk_log (wd_hub w) k)" for k
    using hub(2) acc [of i] Cons.prems(2) by (auto simp: publish_as_log close_as_log)
  have keep: "world_accepts 0 env user ?w k" if "k \<noteq> i" "k \<in> set ids" for k
  proof -
    have p: "hub_accepts 0 (Suc n) (wd_queue w) (ActingUser user) ?h k"
      unfolding Cons.prems(2) using acc that by (intro publish_as_accepts) auto
    then show ?thesis
      using hub close_as_accepts [OF p] Cons.prems(2) by (auto simp: world_accepts_def)
  qed
  have ids: "\<forall>k \<in> set ids. world_accepts 0 env user ?w k"
    using Cons.prems(3) keep by (metis distinct.simps(2))
  show ?case
    using Cons.IH [OF Cons.prems(1,2) _ ids] Cons.prems(3) log [of j] by auto
qed simp

text \<open>
  When a turn fails and that makes its conversation quiescent, each trigger's stored log ends
  in two terminal chunks: the error, and after it a \<open>Done\<close> with empty text. The failure path
  publishes the error and closes the stream, and the quiescence path then publishes \<open>Done\<close> on the
  same triggers; the hub stores it before it notices that the slot is closed.
\<close>

lemma failed_log_ends_in_done:
  assumes "quiet env" and "db_up env" and "we_slot_cap env = Suc n"
    and "distinct (tr_trigger_ids rc)" and "i \<in> set (tr_trigger_ids rc)"
    and "\<forall>i \<in> set (tr_trigger_ids rc). world_accepts 1 env (tr_acting_user rc) w i"
    and "quiescent (mark_turn_failed (wd_queue w) (we_now env) rc reason) (tr_root rc)"
  shows "chunk_log (wd_hub (fail_turn env rc reason w)) i = chunk_log (wd_hub w) i @
    [RcError (failure_display reason) (failure_label reason), RcDone []]"
proof -
  let ?u = "tr_acting_user rc" and ?ids = "tr_trigger_ids rc"
  let ?q = "mark_turn_failed (wd_queue w) (we_now env) rc reason"
  define h where "h = wd_hub (publish_failure env rc reason w)"
  have pf: "publish_failure env rc reason w = w\<lparr>wd_hub := h\<rparr>"
    using publish_failure_hub [OF assms(1)] by (simp add: h_def)
  have acc: "\<forall>i \<in> set ?ids. hub_accepts (Suc 0) (Suc n) (wd_queue w) (ActingUser ?u) (wd_hub w) i"
    using assms(3,6) by (simp add: world_accepts_def)
  have acc2: "hub_accepts 0 (Suc n) (wd_queue w) (ActingUser ?u) h j" if "j \<in> set ?ids" for j
    using batch_room [OF assms(4) acc, of j] acc that assms(3) publish_failure_hub [OF assms(1), of rc reason w]
    by (simp add: h_def)
  let ?w = "w\<lparr>wd_hub := h, wd_queue := ?q\<rparr>"
  have "\<forall>j \<in> set ?ids. world_accepts 0 env ?u ?w j"
    using acc2 assms(3) by (simp add: world_accepts_def accepts_after_mark)
  note dlog = publish_done_log [OF assms(1,3,4) this, of i]
  have w0: "\<forall>i \<in> set ?ids. world_accepts 0 env ?u w i"
    using assms(6) by (auto simp: world_accepts_def hub_accepts_def)
  have hub: "\<forall>i \<in> set ?ids. hub_accepts 0 (Suc n) (wd_queue w) (ActingUser ?u) (wd_hub w) i"
    using w0 assms(3) by (simp add: world_accepts_def)
  have err: "chunk_log h i = chunk_log (wd_hub w) i @ [from_failure reason]"
    using sink.batch_log [OF hub assms(4), of "we_json env" "we_now env" "from_failure reason" i]
      assms(3,5) publish_failure_hub [OF assms(1)] by (simp add: h_def)
  have "fail_turn env rc reason w = fold (publish_done_to env ?u) ?ids ?w"
    using assms(1,2,7) by (simp add: fail_turn_def finalise_def mark_failed_def
        maybe_emit_quiescence_def quiet_def db_up_def Let_def pf)
  then show ?thesis using dlog err assms(5) by (simp add: from_failure_def)
qed

lemma failed_log_ends_in_done_witness:
  "chunk_log (wd_hub (fail_turn (sample_env 0) sample_receipt Timeout sample_world2)) 60
     = [RcError ''turn timed out'' ''timeout'', RcDone []]"
proof -
  have "quiescent (mark_turn_failed sample_db2 900 sample_receipt Timeout) 60"
    by (simp add: quiescent_def mark_turn_failed_def finalise_turn_def finalises_def
        sample_receipt_def sample_defs enqueue_defs claim_defs)
  then show ?thesis
    using failed_log_ends_in_done [OF sample_quiet(1) sample_env_up sample_quiet(2),
        where rc = sample_receipt and w = sample_world2 and reason = Timeout and i = 60]
      sample_accepts [of 1]
    by (simp add: sample_receipt_def sample_world2_def sample_quiet empty_hub_def chunk_log_def)
qed

end
