(* ===== verification/Thread_Feed.thy ===== *)
theory Thread_Feed
  imports Chat_Types
begin

text \<open>
  The thread feed (\<open>threads/pg_store.rs\<close>, \<open>threads/traits.rs\<close>): threads and their one flat feed
  of posted messages and agent-private artifacts, the append with its per-thread ordinal and its
  idempotency key, the windowed and perspective-mapped context an agent reads, the compaction
  rows, and the store of offloaded tool results. A transaction that runs as a user sees and
  writes only rows of the orgs the user is a member of. Message bodies are stored as JSON in the
  code and as chat messages here.
\<close>

section \<open>Limits and types\<close>

definition MAX_CONTEXT_MESSAGES :: nat where "MAX_CONTEXT_MESSAGES = 200"
definition MAX_TOOL_RESULT_CHARS :: nat where "MAX_TOOL_RESULT_CHARS = 32000"
definition MAX_ARTIFACT_SLICE :: nat where "MAX_ARTIFACT_SLICE = 16000"
definition MAX_ARTIFACT_GREP_SCAN :: nat where "MAX_ARTIFACT_GREP_SCAN = 1000000"

type_synonym feed_seq = nat

definition seq_try_from :: "int \<Rightarrow> (feed_seq, parse_error) result" where
  "seq_try_from raw =
     (if raw < 0 then Inl (OutOfRange ''seq'' ''must be non-negative'') else Inr (nat raw))"

datatype message_kind = Posted | Reasoning | KToolUse | KToolResult | SystemNote

definition message_kind_all :: "message_kind list" where
  "message_kind_all = [Posted, Reasoning, KToolUse, KToolResult, SystemNote]"

fun message_kind_as_str :: "message_kind \<Rightarrow> string" where
  "message_kind_as_str Posted = ''posted''"
| "message_kind_as_str Reasoning = ''reasoning''"
| "message_kind_as_str KToolUse = ''tool_use''"
| "message_kind_as_str KToolResult = ''tool_result''"
| "message_kind_as_str SystemNote = ''system_note''"

interpretation message_kind: str_enum message_kind_all message_kind_as_str
proof unfold_locales
  show "v \<in> set message_kind_all" for v by (cases v) (simp_all add: message_kind_all_def)
  show "message_kind_as_str v = message_kind_as_str w \<Longrightarrow> v = w" for v w
    by (cases v; cases w) simp_all
qed

datatype thread_error =
    ThreadNotFound uuid
  | ThreadBackend string
  | ThreadDb db_error

record caller =
  ca_user :: uuid
  ca_org :: uuid

record new_message =
  nm_kind :: message_kind
  nm_sender :: "uuid option"
  nm_owner_agent :: "uuid option"
  nm_receiver :: "uuid option"
  nm_body :: chat_message
  nm_request :: "uuid option"
  nm_idempotency_key :: "idempotency_key option"

record tail_row =
  tl_seq :: feed_seq
  tl_message :: chat_message

section \<open>Tables\<close>

record thread_row =
  th_id :: uuid
  th_org :: uuid
  th_channel :: "uuid option"
  th_root_message :: "uuid option"
  th_created_by :: uuid
  th_dm_counterpart :: "uuid option"
  th_created_at :: timestamp
  th_last_activity_at :: timestamp

record message_row =
  ms_id :: uuid
  ms_thread :: uuid
  ms_seq :: feed_seq
  ms_kind :: message_kind
  ms_sender :: "uuid option"
  ms_owner_agent :: "uuid option"
  ms_receiver :: "uuid option"
  ms_body :: chat_message
  ms_request :: "uuid option"
  ms_org :: uuid
  ms_created_at :: timestamp
  ms_idempotency_key :: "idempotency_key option"

record participation_row =
  ats_id :: uuid
  ats_thread :: uuid
  ats_agent :: uuid
  ats_org :: uuid
  ats_created_at :: timestamp

record compaction_row =
  cr_summary :: string
  cr_covers :: int
  cr_summary_tokens :: int
  cr_failed_attempts :: int
  cr_cooldown_until :: "timestamp option"
  cr_version :: int

record artifact_row =
  ar_body :: string
  ar_tokens :: int
  ar_tool :: string

text \<open>
  \<open>td_users\<close> gives the user behind a human colleague; \<open>td_channel_members\<close> and \<open>td_archived\<close> are
  what the visibility predicate reads of channels; \<open>td_members\<close> is org membership.
\<close>

record thread_db =
  td_threads :: "thread_row list"
  td_seq :: "uuid \<rightharpoonup> nat"
  td_messages :: "message_row list"
  td_participation :: "participation_row list"
  td_compactions :: "uuid \<times> uuid \<rightharpoonup> compaction_row"
  td_checkpoints :: "uuid \<times> uuid \<rightharpoonup> uuid"
  td_artifacts :: "uuid \<times> string \<rightharpoonup> artifact_row"
  td_users :: "uuid \<rightharpoonup> uuid"
  td_channel_members :: "(uuid \<times> uuid) list"
  td_archived :: "uuid list"
  td_members :: "(uuid \<times> uuid) list"

definition td_is_member :: "thread_db \<Rightarrow> uuid \<Rightarrow> uuid \<Rightarrow> bool" where
  "td_is_member db user org \<longleftrightarrow> (user, org) \<in> set (td_members db)"

definition thread_visible :: "thread_db \<Rightarrow> uuid \<Rightarrow> uuid \<Rightarrow> thread_row option" where
  "thread_visible db user thread =
     find (\<lambda>t. th_id t = thread \<and> td_is_member db user (th_org t)) (td_threads db)"

section \<open>Threads and participation\<close>

text \<open>\<open>None\<close> is a failed \<open>assert!\<close>; \<open>new_id\<close> is the minted thread id.\<close>

definition create_thread ::
  "thread_db \<Rightarrow> timestamp \<Rightarrow> uuid \<Rightarrow> caller \<Rightarrow> uuid option \<Rightarrow> uuid option \<Rightarrow> uuid \<Rightarrow> uuid option
   \<Rightarrow> ((uuid, thread_error) result \<times> thread_db) option" where
  "create_thread db now new_id ca channel root created_by counterpart =
     (if channel \<noteq> None \<and> counterpart \<noteq> None then None
      else if channel = None \<and> counterpart = None then None
      else Some
        (if \<not> td_is_member db (ca_user ca) (ca_org ca) then (Inl (ThreadDb RlsViolation), db)
         else if \<exists>t \<in> set (td_threads db). th_id t = new_id then (Inl (ThreadDb UniqueViolation), db)
         else (Inr new_id, db\<lparr>td_threads := td_threads db @
            [\<lparr>th_id = new_id, th_org = ca_org ca, th_channel = channel, th_root_message = root,
              th_created_by = created_by, th_dm_counterpart = counterpart, th_created_at = now,
              th_last_activity_at = now\<rparr>]\<rparr>)))"

definition resolve_participation ::
  "thread_db \<Rightarrow> timestamp \<Rightarrow> uuid \<Rightarrow> caller \<Rightarrow> uuid \<Rightarrow> uuid \<Rightarrow> (uuid, thread_error) result \<times> thread_db" where
  "resolve_participation db now new_id ca thread agent =
     (case thread_visible db (ca_user ca) thread of
        None \<Rightarrow> (Inl (ThreadNotFound thread), db)
      | Some t \<Rightarrow>
          (case find (\<lambda>p. ats_thread p = thread \<and> ats_agent p = agent) (td_participation db) of
             Some p \<Rightarrow> (Inr (ats_id p), db)
           | None \<Rightarrow> (Inr new_id, db\<lparr>td_participation := td_participation db @
               [\<lparr>ats_id = new_id, ats_thread = thread, ats_agent = agent, ats_org = th_org t,
                 ats_created_at = now\<rparr>]\<rparr>)))"

section \<open>Append\<close>

text \<open>The two \<open>CHECK\<close> constraints of the table, and the key length check of migration 66.\<close>

definition message_admitted :: "new_message \<Rightarrow> bool" where
  "message_admitted m \<longleftrightarrow> (nm_kind m = Posted \<longleftrightarrow> nm_owner_agent m = None)
     \<and> (nm_receiver m = None \<or> nm_kind m = Posted)
     \<and> (case nm_idempotency_key m of None \<Rightarrow> True | Some k \<Rightarrow> chars_count k \<le> 200)"

definition key_taken :: "thread_db \<Rightarrow> uuid \<Rightarrow> idempotency_key option \<Rightarrow> bool" where
  "key_taken db org key \<longleftrightarrow> key \<noteq> None \<and>
     (\<exists>m \<in> set (td_messages db). ms_org m = org \<and> ms_idempotency_key m = key)"

definition last_seq :: "thread_db \<Rightarrow> uuid \<Rightarrow> nat" where
  "last_seq db thread = (case td_seq db thread of None \<Rightarrow> 0 | Some n \<Rightarrow> n)"

definition message_row_of ::
  "uuid \<Rightarrow> uuid \<Rightarrow> uuid \<Rightarrow> nat \<Rightarrow> timestamp \<Rightarrow> new_message \<Rightarrow> message_row" where
  "message_row_of i thread org n now m =
     \<lparr>ms_id = i, ms_thread = thread, ms_seq = n, ms_kind = nm_kind m, ms_sender = nm_sender m,
      ms_owner_agent = nm_owner_agent m, ms_receiver = nm_receiver m, ms_body = nm_body m,
      ms_request = nm_request m, ms_org = org, ms_created_at = now,
      ms_idempotency_key = nm_idempotency_key m\<rparr>"

text \<open>
  The append statement: bump the ordinal, insert the row at it unless its idempotency key is
  taken in the thread's org, touch the thread. \<open>Inr False\<close> is "no row inserted".
\<close>

definition append_statement ::
  "thread_db \<Rightarrow> timestamp \<Rightarrow> uuid \<Rightarrow> uuid \<Rightarrow> uuid \<Rightarrow> new_message
   \<Rightarrow> (bool, thread_error) result \<times> thread_db" where
  "append_statement db now i user thread m =
     (case thread_visible db user thread of
        None \<Rightarrow> (Inr False, db)
      | Some t \<Rightarrow>
          (let n = last_seq db thread + 1;
               db1 = db\<lparr>td_seq := (td_seq db)(thread \<mapsto> n)\<rparr> in
           if int n > i64_max then (Inl (ThreadDb NumericOutOfRange), db)
           else if \<not> message_admitted m then (Inl (ThreadDb CheckViolation), db)
           else if key_taken db (th_org t) (nm_idempotency_key m) then (Inr False, db1)
           else if \<exists>r \<in> set (td_messages db). ms_id r = i \<or> (ms_thread r = thread \<and> ms_seq r = n)
             then (Inl (ThreadDb UniqueViolation), db)
           else (Inr True, db1\<lparr>
             td_messages := td_messages db @ [message_row_of i thread (th_org t) n now m],
             td_threads := update_where (\<lambda>t. th_id t = thread)
               (\<lambda>t. t\<lparr>th_last_activity_at := now\<rparr>) (td_threads db)\<rparr>)))"

text \<open>The fallback lookup is keyed by the caller's active org.\<close>

definition append_message ::
  "thread_db \<Rightarrow> timestamp \<Rightarrow> uuid \<Rightarrow> caller \<Rightarrow> uuid \<Rightarrow> new_message
   \<Rightarrow> (uuid, thread_error) result \<times> thread_db" where
  "append_message db now i ca thread m =
     (case append_statement db now i (ca_user ca) thread m of
        (Inl e, db') \<Rightarrow> (Inl e, db')
      | (Inr True, db') \<Rightarrow> (Inr i, db')
      | (Inr False, db') \<Rightarrow>
          (case nm_idempotency_key m of
             None \<Rightarrow> (Inl (ThreadNotFound thread), db')
           | Some key \<Rightarrow>
               (case find (\<lambda>r. ms_org r = ca_org ca \<and> ms_idempotency_key r = Some key
                      \<and> td_is_member db (ca_user ca) (ms_org r)) (td_messages db) of
                  Some r \<Rightarrow> (Inr (ms_id r), db')
                | None \<Rightarrow> (Inl (ThreadNotFound thread), db'))))"

section \<open>Visibility\<close>

definition dm_visible_to :: "thread_db \<Rightarrow> thread_row \<Rightarrow> uuid \<Rightarrow> bool" where
  "dm_visible_to db t user \<longleftrightarrow> td_users db (th_created_by t) = Some user
     \<or> (case th_dm_counterpart t of None \<Rightarrow> False | Some c \<Rightarrow> td_users db c = Some user)"

definition in_channel :: "thread_db \<Rightarrow> uuid \<Rightarrow> uuid \<Rightarrow> bool" where
  "in_channel db c user \<longleftrightarrow> (c, user) \<in> set (td_channel_members db)"

definition visible_to :: "thread_db \<Rightarrow> caller \<Rightarrow> uuid \<Rightarrow> bool" where
  "visible_to db ca thread \<longleftrightarrow>
     (\<exists>t \<in> set (td_threads db). th_id t = thread \<and> th_org t = ca_org ca
        \<and> td_is_member db (ca_user ca) (th_org t)
        \<and> (case th_channel t of
             None \<Rightarrow> dm_visible_to db t (ca_user ca)
           | Some c \<Rightarrow> in_channel db c (ca_user ca) \<and> c \<notin> set (td_archived db)))"

definition is_channel_member :: "thread_db \<Rightarrow> uuid \<Rightarrow> uuid \<Rightarrow> (bool, thread_error) result" where
  "is_channel_member db thread user =
     (case find (\<lambda>t. th_id t = thread) (td_threads db) of
        None \<Rightarrow> Inl (ThreadNotFound thread)
      | Some t \<Rightarrow> Inr (case th_channel t of
          None \<Rightarrow> dm_visible_to db t user | Some c \<Rightarrow> in_channel db c user))"

definition last_agent :: "thread_db \<Rightarrow> uuid \<Rightarrow> uuid option" where
  "last_agent db thread = map_option ats_agent
     (first_min_by (\<lambda>p. - ats_created_at p)
        (filter (\<lambda>p. ats_thread p = thread) (td_participation db)))"

definition store_reflection_checkpoint ::
  "thread_db \<Rightarrow> uuid \<Rightarrow> uuid \<Rightarrow> uuid \<Rightarrow> thread_db" where
  "store_reflection_checkpoint db agent thread up_to =
     db\<lparr>td_checkpoints := (td_checkpoints db)((agent, thread) \<mapsto> up_to)\<rparr>"

section \<open>The context an agent reads\<close>

text \<open>\<open>CONTEXT_SQL\<close>: posted rows and the agent's own artifacts after \<open>since\<close>, the newest
  \<open>limit\<close> of them, oldest first.\<close>

definition context_row :: "uuid \<Rightarrow> uuid \<Rightarrow> nat \<Rightarrow> message_row \<Rightarrow> bool" where
  "context_row thread agent since m \<longleftrightarrow> ms_thread m = thread
     \<and> (ms_kind m = Posted \<or> ms_owner_agent m = Some agent) \<and> ms_seq m > since"

definition last_n :: "nat \<Rightarrow> 'a list \<Rightarrow> 'a list" where
  "last_n k xs = drop (length xs - k) xs"

definition context_rows :: "thread_db \<Rightarrow> uuid \<Rightarrow> uuid \<Rightarrow> nat \<Rightarrow> message_row list" where
  "context_rows db thread agent since =
     last_n MAX_CONTEXT_MESSAGES
       (sort_key ms_seq (filter (context_row thread agent since) (td_messages db)))"

definition assistant_to_user_blocks :: "assistant_content list \<Rightarrow> user_content list" where
  "assistant_to_user_blocks bs =
     List.map_filter (\<lambda>b. case b of CText t \<Rightarrow> Some (UText t) | _ \<Rightarrow> None) bs"

definition user_to_assistant_blocks :: "user_content list \<Rightarrow> assistant_content list" where
  "user_to_assistant_blocks bs =
     List.map_filter (\<lambda>b. case b of UText t \<Rightarrow> Some (CText t) | _ \<Rightarrow> None) bs"

definition prefix_sender_label :: "string option \<Rightarrow> user_content list \<Rightarrow> user_content list" where
  "prefix_sender_label label bs =
     (case label of
        None \<Rightarrow> bs
      | Some l \<Rightarrow> if l = [] then bs else UText (l @ '': '') # bs)"

definition map_row_for_viewer ::
  "message_kind \<Rightarrow> uuid option \<Rightarrow> string option \<Rightarrow> chat_message \<Rightarrow> uuid \<Rightarrow> chat_message" where
  "map_row_for_viewer kind sender label stored viewer =
     (if kind \<noteq> Posted then stored
      else if sender = Some viewer
        then (case stored of Assistant bs \<Rightarrow> Assistant bs
              | User bs \<Rightarrow> Assistant (user_to_assistant_blocks bs))
      else User (prefix_sender_label label
             (case stored of User bs \<Rightarrow> bs | Assistant bs \<Rightarrow> assistant_to_user_blocks bs)))"

text \<open>The ellipsis is U+2026, three bytes of UTF-8.\<close>

definition ellipsis :: string where "ellipsis = bytes [226, 128, 166]"
definition middle_dot :: string where "middle_dot = bytes [194, 183]"

definition cap_tool_result_output :: "string \<Rightarrow> feed_seq \<Rightarrow> string option" where
  "cap_tool_result_output output seq =
     (let total = chars_count output; keep = MAX_TOOL_RESULT_CHARS div 2 in
      if total \<le> MAX_TOOL_RESULT_CHARS then None
      else Some (take_chars keep output @ newline @ ''['' @ ellipsis @ '' omitted ''
        @ show_nat (total - keep - keep) @ '' chars '' @ middle_dot @ '' thread seq ''
        @ show_nat seq @ '' '' @ ellipsis @ '']'' @ newline
        @ drop_chars (total - keep) output))"

definition cap_tool_results_in_place :: "chat_message \<Rightarrow> feed_seq \<Rightarrow> chat_message" where
  "cap_tool_results_in_place message seq =
     (case message of
        Assistant bs \<Rightarrow> Assistant bs
      | User bs \<Rightarrow> User (map (\<lambda>b. case b of
            UToolResult r \<Rightarrow> (case cap_tool_result_output (tr_output r) seq of
                None \<Rightarrow> UToolResult r
              | Some capped \<Rightarrow> UToolResult (r\<lparr>tr_output := capped\<rparr>))
          | _ \<Rightarrow> b) bs))"

definition call_ids :: "(feed_seq \<times> chat_message) list \<Rightarrow> string set" where
  "call_ids rows = set (concat (map (\<lambda>(s, m). case m of
       Assistant bs \<Rightarrow> List.map_filter (\<lambda>b. case b of CToolCall c \<Rightarrow> Some (tc_id c) | _ \<Rightarrow> None) bs
     | User _ \<Rightarrow> []) rows))"

definition drop_orphan_tool_results :: "(feed_seq \<times> chat_message) list \<Rightarrow> (feed_seq \<times> chat_message) list" where
  "drop_orphan_tool_results rows = filter (\<lambda>(s, m). case m of
       User (UToolResult r # bs) \<Rightarrow> tr_call_id r \<in> call_ids rows
     | _ \<Rightarrow> True) rows"

text \<open>The loop with its \<open>out\<close>, \<open>deferred\<close> and \<open>awaiting_result\<close>.\<close>

fun repair_loop ::
  "(feed_seq \<times> chat_message) list \<Rightarrow> (feed_seq \<times> chat_message) list \<Rightarrow> bool \<Rightarrow>
   (feed_seq \<times> message_kind \<times> chat_message) list \<Rightarrow> (feed_seq \<times> chat_message) list" where
  "repair_loop out deferred awaiting [] = out @ deferred"
| "repair_loop out deferred awaiting ((seq, kind, msg) # rows) =
     (if awaiting
      then if kind = KToolResult
           then repair_loop (out @ [(seq, msg)] @ deferred) [] False rows
           else repair_loop out (deferred @ [(seq, msg)]) True rows
      else repair_loop (out @ [(seq, msg)]) deferred (kind = KToolUse) rows)"

definition repair_tool_pairs ::
  "(feed_seq \<times> message_kind \<times> chat_message) list \<Rightarrow> (feed_seq \<times> chat_message) list" where
  "repair_tool_pairs rows = repair_loop [] [] False rows"

text \<open>\<open>names\<close> is the joined canonical sender name, \<open>overrides\<close> the platform labels.\<close>

definition map_context_row ::
  "(uuid \<rightharpoonup> string) \<Rightarrow> (uuid \<rightharpoonup> string) \<Rightarrow> uuid \<Rightarrow> message_row \<Rightarrow> feed_seq \<times> message_kind \<times> chat_message" where
  "map_context_row names overrides viewer m =
     (let label = (case ms_sender m of
            None \<Rightarrow> None
          | Some s \<Rightarrow> (case overrides s of Some n \<Rightarrow> Some n | None \<Rightarrow> names s))
      in (ms_seq m, ms_kind m, cap_tool_results_in_place
            (map_row_for_viewer (ms_kind m) (ms_sender m) label (ms_body m) viewer) (ms_seq m)))"

definition context_tail ::
  "(uuid \<rightharpoonup> string) \<Rightarrow> thread_db \<Rightarrow> uuid \<Rightarrow> uuid \<Rightarrow> uuid \<Rightarrow> nat \<Rightarrow> (uuid \<rightharpoonup> string) \<Rightarrow> tail_row list" where
  "context_tail names db thread agent viewer since overrides =
     map (\<lambda>(s, m). \<lparr>tl_seq = s, tl_message = m\<rparr>)
       (drop_orphan_tool_results (repair_tool_pairs
          (map (map_context_row names overrides viewer) (context_rows db thread agent since))))"

section \<open>Compaction rows\<close>

record thread_compaction =
  tcp_summary :: string
  tcp_covers_through_seq :: feed_seq
  tcp_summary_tokens :: int
  tcp_failed_attempts :: int
  tcp_cooldown_until :: "timestamp option"

definition load_compaction :: "thread_db \<Rightarrow> uuid \<Rightarrow> uuid \<Rightarrow> (thread_compaction option, thread_error) result" where
  "load_compaction db thread agent =
     (case td_compactions db (thread, agent) of
        None \<Rightarrow> Inr None
      | Some r \<Rightarrow>
          (case seq_try_from (cr_covers r) of
             Inl e \<Rightarrow> Inl (ThreadBackend ''decode covers_through_seq'')
           | Inr s \<Rightarrow> Inr (Some \<lparr>tcp_summary = cr_summary r, tcp_covers_through_seq = s,
               tcp_summary_tokens = cr_summary_tokens r, tcp_failed_attempts = cr_failed_attempts r,
               tcp_cooldown_until = cr_cooldown_until r\<rparr>)))"

definition save_compaction ::
  "thread_db \<Rightarrow> uuid \<Rightarrow> uuid \<Rightarrow> string \<Rightarrow> feed_seq \<Rightarrow> int \<Rightarrow> thread_db" where
  "save_compaction db thread agent summary covers tokens =
     db\<lparr>td_compactions := (td_compactions db)((thread, agent) \<mapsto>
        \<lparr>cr_summary = summary, cr_covers = int covers, cr_summary_tokens = tokens,
         cr_failed_attempts = 0, cr_cooldown_until = None,
         cr_version = (case td_compactions db (thread, agent) of None \<Rightarrow> 1 | Some r \<Rightarrow> cr_version r + 1)\<rparr>)\<rparr>"

definition bump_cooldown :: "thread_db \<Rightarrow> uuid \<Rightarrow> uuid \<Rightarrow> timestamp \<Rightarrow> thread_db" where
  "bump_cooldown db thread agent until =
     db\<lparr>td_compactions := (td_compactions db)((thread, agent) \<mapsto>
        (case td_compactions db (thread, agent) of
           None \<Rightarrow> \<lparr>cr_summary = [], cr_covers = 0, cr_summary_tokens = 0, cr_failed_attempts = 1,
                    cr_cooldown_until = Some until, cr_version = 1\<rparr>
         | Some r \<Rightarrow> r\<lparr>cr_failed_attempts := cr_failed_attempts r + 1,
                    cr_cooldown_until := Some until\<rparr>))\<rparr>"

section \<open>Offloaded tool results\<close>

definition save_tool_artifact :: "thread_db \<Rightarrow> uuid \<Rightarrow> string \<Rightarrow> string \<Rightarrow> int \<Rightarrow> string \<Rightarrow> thread_db" where
  "save_tool_artifact db org handle body tokens tool =
     (case td_artifacts db (org, handle) of
        Some _ \<Rightarrow> db
      | None \<Rightarrow> db\<lparr>td_artifacts := (td_artifacts db)((org, handle) \<mapsto>
          \<lparr>ar_body = body, ar_tokens = tokens, ar_tool = tool\<rparr>)\<rparr>)"

datatype artifact_selector =
    Page nat nat   \<comment> \<open>offset, limit\<close>
  | Grep string nat   \<comment> \<open>pattern, max matches\<close>

text \<open>\<open>str::matches\<close>: non-overlapping occurrences from the left, at most \<open>k\<close> of them.\<close>

function count_matches :: "nat \<Rightarrow> string \<Rightarrow> string \<Rightarrow> nat" where
  "count_matches k p s =
     (case find_str p s of
        None \<Rightarrow> 0
      | Some i \<Rightarrow> if k = 0 \<or> p = [] then 0
                  else Suc (count_matches (k - 1) p (drop (i + length p) s)))"
  by pat_completeness auto
termination by (relation "measure (\<lambda>(k, p, s). k)") auto

declare count_matches.simps [simp del]

text \<open>\<open>dbg\<close> is \<open>Debug\<close> of a string (quoted and escaped).\<close>

definition grep_slice :: "(string \<Rightarrow> string) \<Rightarrow> string \<Rightarrow> string \<Rightarrow> nat \<Rightarrow> string" where
  "grep_slice dbg body pattern max_matches =
     (if pattern = [] then ''[grep: empty pattern]''
      else (case find_str pattern body of
          None \<Rightarrow> ''[grep: no match for '' @ dbg pattern @ '' in artifact]''
        | Some first \<Rightarrow>
            (let count = count_matches (max max_matches 1) pattern body;
                 header = ''[grep '' @ dbg pattern @ '': '' @ show_nat count
                   @ ''+ match(es); window from first match]'' @ newline;
                 budget = MAX_ARTIFACT_SLICE - chars_count header
             in header @ take_chars budget (drop first body))))"

text \<open>Postgres \<open>substr(s, start, len)\<close> with a 1-based character position.\<close>

definition substr :: "string \<Rightarrow> int \<Rightarrow> int \<Rightarrow> string" where
  "substr s start len = take_chars (nat (start + len - max start 1)) (drop_chars (nat (start - 1)) s)"

definition saturating_i32 :: "nat \<Rightarrow> int" where
  "saturating_i32 n = (if int n \<le> i32_max then int n else i32_max)"

definition saturating_add_usize :: "nat \<Rightarrow> nat \<Rightarrow> nat" where
  "saturating_add_usize a b = min u64_max (a + b)"

definition load_tool_artifact_slice ::
  "(string \<Rightarrow> string) \<Rightarrow> thread_db \<Rightarrow> uuid \<Rightarrow> string \<Rightarrow> artifact_selector \<Rightarrow> string option" where
  "load_tool_artifact_slice dbg db org handle sel =
     (case sel of
        Page offset limit \<Rightarrow>
          map_option (\<lambda>a. substr (ar_body a) (saturating_i32 (saturating_add_usize offset 1))
              (saturating_i32 (min limit MAX_ARTIFACT_SLICE))) (td_artifacts db (org, handle))
      | Grep pattern max_matches \<Rightarrow>
          map_option (\<lambda>a. grep_slice dbg (substr (ar_body a) 1 (saturating_i32 MAX_ARTIFACT_GREP_SCAN))
              pattern max_matches) (td_artifacts db (org, handle)))"

end
