(* ===== verification/Thread_Laws.thy ===== *)
theory Thread_Laws
  imports Thread_Feed "HOL-Library.Multiset"
begin

text \<open>
  What the thread store keeps and promises: the order of a feed, the uniqueness of idempotency
  keys, the shape of the repaired context, and the arithmetic of artifact pages.
\<close>

section \<open>The feed as a transition system\<close>

definition feed_seqs :: "thread_db \<Rightarrow> uuid \<Rightarrow> nat list" where
  "feed_seqs db thread = map ms_seq (filter (\<lambda>m. ms_thread m = thread) (td_messages db))"

definition keys_distinct :: "thread_db \<Rightarrow> bool" where
  "keys_distinct db \<longleftrightarrow> distinct (map (\<lambda>m. (ms_org m, ms_idempotency_key m))
     (filter (\<lambda>m. ms_idempotency_key m \<noteq> None) (td_messages db)))"

definition thread_inv :: "thread_db \<Rightarrow> bool" where
  "thread_inv db \<longleftrightarrow> distinct (map th_id (td_threads db))
     \<and> (\<forall>thread. sorted_wrt (<) (feed_seqs db thread)
          \<and> (\<forall>n \<in> set (feed_seqs db thread). 0 < n \<and> n \<le> last_seq db thread))
     \<and> keys_distinct db
     \<and> (\<forall>m \<in> set (td_messages db). \<exists>t \<in> set (td_threads db). th_id t = ms_thread m \<and> th_org t = ms_org m)
     \<and> (\<forall>m \<in> set (td_messages db). ms_kind m = Posted \<longleftrightarrow> ms_owner_agent m = None)"

definition thread_init :: "thread_db \<Rightarrow> bool" where
  "thread_init db \<longleftrightarrow> td_threads db = [] \<and> td_messages db = [] \<and> td_seq db = Map.empty"

datatype thread_event =
    TeCreate timestamp uuid caller "uuid option" "uuid option" uuid "uuid option"
  | TeResolve timestamp uuid caller uuid uuid
  | TeAppend timestamp uuid caller uuid new_message
  | TeCheckpoint uuid uuid uuid
  | TeSaveCompaction uuid uuid string feed_seq int
  | TeBumpCooldown uuid uuid timestamp
  | TeSaveArtifact uuid string string int string

inductive thread_step :: "thread_db \<Rightarrow> thread_event \<Rightarrow> thread_db \<Rightarrow> bool" where
  create: "create_thread db now i ca ch root by dm = Some (x, db') \<Longrightarrow>
    thread_step db (TeCreate now i ca ch root by dm) db'"
| resolve: "thread_step db (TeResolve now i ca th a) (snd (resolve_participation db now i ca th a))"
| append: "thread_step db (TeAppend now i ca th m) (snd (append_message db now i ca th m))"
| checkpoint: "thread_step db (TeCheckpoint a th m) (store_reflection_checkpoint db a th m)"
| save_compaction: "thread_step db (TeSaveCompaction th a s c t) (save_compaction db th a s c t)"
| bump_cooldown: "thread_step db (TeBumpCooldown th a u) (bump_cooldown db th a u)"
| save_artifact: "thread_step db (TeSaveArtifact org h b t tn) (save_tool_artifact db org h b t tn)"

text \<open>Operations that leave the feed tables alone.\<close>

definition same_feed :: "thread_db \<Rightarrow> thread_db \<Rightarrow> bool" where
  "same_feed db db' \<longleftrightarrow> td_threads db' = td_threads db \<and> td_messages db' = td_messages db
     \<and> td_seq db' = td_seq db \<and> td_members db' = td_members db"

lemma same_feed_inv: "same_feed db db' \<Longrightarrow> thread_inv db \<Longrightarrow> thread_inv db'"
  by (simp add: same_feed_def thread_inv_def feed_seqs_def last_seq_def keys_distinct_def)

lemma same_feed_ops:
  "same_feed db (snd (resolve_participation db now i ca th a))"
  "same_feed db (store_reflection_checkpoint db a th m)"
  "same_feed db (save_compaction db th a s c t)"
  "same_feed db (bump_cooldown db th a u)"
  "same_feed db (save_tool_artifact db org h b tk tn)"
  by (auto simp: same_feed_def resolve_participation_def store_reflection_checkpoint_def
      save_compaction_def bump_cooldown_def save_tool_artifact_def split: option.split)

lemma append_message_db: "snd (append_message db now i ca th m) =
  snd (append_statement db now i (ca_user ca) th m)"
proof (cases "append_statement db now i (ca_user ca) th m")
  case (Pair x db')
  show ?thesis
  proof (cases x)
    case (Inr b)
    with Pair show ?thesis by (cases b) (simp_all add: append_message_def split: option.split)
  qed (simp add: append_message_def Pair)
qed

lemma append_statement_cases:
  assumes "append_statement db now i user thread m = (x, db')"
  obtains (same) "db' = db" "x \<noteq> Inr True" "x = Inr False \<Longrightarrow> thread_visible db user thread = None"
  | (taken) t where "thread_visible db user thread = Some t" "x = Inr False"
      "key_taken db (th_org t) (nm_idempotency_key m)" "message_admitted m"
      "db' = db\<lparr>td_seq := (td_seq db)(thread \<mapsto> last_seq db thread + 1)\<rparr>"
  | (inserted) t where "thread_visible db user thread = Some t" "x = Inr True"
      "message_admitted m" "\<not> key_taken db (th_org t) (nm_idempotency_key m)"
      "db' = db\<lparr>td_seq := (td_seq db)(thread \<mapsto> last_seq db thread + 1),
        td_messages := td_messages db @ [message_row_of i thread (th_org t) (last_seq db thread + 1) now m],
        td_threads := update_where (\<lambda>t. th_id t = thread)
          (\<lambda>t. t\<lparr>th_last_activity_at := now\<rparr>) (td_threads db)\<rparr>"
proof (cases "thread_visible db user thread")
  case None
  with assms show ?thesis by (intro same) (auto simp: append_statement_def)
next
  case (Some t)
  note unfolded = assms [unfolded append_statement_def Some option.case Let_def, symmetric]
  show ?thesis
  proof (cases "int (last_seq db thread + 1) > i64_max \<or> \<not> message_admitted m")
    case True
    with unfolded have "db' = db \<and> x \<noteq> Inr True \<and> x \<noteq> Inr False" by (simp split: if_splits)
    then show ?thesis by (intro same) simp_all
  next
    case adm: False
    show ?thesis
    proof (cases "key_taken db (th_org t) (nm_idempotency_key m)")
      case True
      with unfolded adm Some show ?thesis by (intro taken [of t]) simp_all
    next
      case free: False
      show ?thesis
      proof (cases "\<exists>r \<in> set (td_messages db). ms_id r = i \<or> (ms_thread r = thread \<and> ms_seq r = last_seq db thread + 1)")
        case True
        with unfolded adm free have "db' = db \<and> x \<noteq> Inr True \<and> x \<noteq> Inr False" by simp
        then show ?thesis by (intro same) simp_all
      next
        case False
        with adm free Some show ?thesis
          by (intro inserted [of t]; insert unfolded) (auto split: if_splits)
      qed
    qed
  qed
qed

lemma thread_visible_Some:
  "thread_visible db user thread = Some t \<Longrightarrow>
   t \<in> set (td_threads db) \<and> th_id t = thread \<and> td_is_member db user (th_org t)"
  by (auto simp: thread_visible_def dest: find_Some_mem)

lemma insert_row_inv:
  assumes inv: "thread_inv db" and t: "t \<in> set (td_threads db)" "th_id t = thread"
    and adm: "message_admitted m" and free: "\<not> key_taken db (th_org t) (nm_idempotency_key m)"
  defines "n \<equiv> last_seq db thread + 1"
  shows "thread_inv (db\<lparr>td_seq := (td_seq db)(thread \<mapsto> n),
        td_messages := td_messages db @ [message_row_of i thread (th_org t) n now m],
        td_threads := update_where (\<lambda>t. th_id t = thread)
          (\<lambda>t. t\<lparr>th_last_activity_at := now\<rparr>) (td_threads db)\<rparr>)" (is "thread_inv ?db")
proof -
  let ?r = "message_row_of i thread (th_org t) n now m"
  have seqs: "feed_seqs ?db th = feed_seqs db th @ (if th = thread then [n] else [])" for th
    by (simp add: feed_seqs_def message_row_of_def)
  have last: "last_seq ?db th = (if th = thread then n else last_seq db th)" for th
    by (simp add: last_seq_def)
  have old: "sorted_wrt (<) (feed_seqs db th)" "\<forall>k \<in> set (feed_seqs db th). 0 < k \<and> k \<le> last_seq db th" for th
    using inv by (simp_all add: thread_inv_def)
  have "sorted_wrt (<) (feed_seqs ?db th) \<and> (\<forall>k \<in> set (feed_seqs ?db th). 0 < k \<and> k \<le> last_seq ?db th)" for th
    unfolding seqs last using old [of th] by (auto simp: n_def sorted_wrt_append)
  moreover have "keys_distinct ?db"
    using inv free by (auto simp: thread_inv_def keys_distinct_def key_taken_def message_row_of_def)
  moreover have "distinct (map th_id (td_threads ?db))"
    using inv by (simp add: thread_inv_def map_update_where)
  moreover have "\<exists>u \<in> set (td_threads ?db). th_id u = ms_thread x \<and> th_org u = ms_org x"
    if "x \<in> set (td_messages ?db)" for x
  proof -
    have "\<exists>u \<in> set (td_threads db). th_id u = ms_thread x \<and> th_org u = ms_org x"
      using that inv t by (auto simp: thread_inv_def message_row_of_def)
    then obtain u where u: "u \<in> set (td_threads db)" "th_id u = ms_thread x" "th_org u = ms_org x" by blast
    let ?u = "if th_id u = thread then u\<lparr>th_last_activity_at := now\<rparr> else u"
    have "?u \<in> set (td_threads ?db)" using u(1) by (auto simp: set_update_where)
    moreover have "th_id ?u = ms_thread x \<and> th_org ?u = ms_org x" using u by simp
    ultimately show ?thesis by blast
  qed
  moreover have "\<forall>x \<in> set (td_messages ?db). ms_kind x = Posted \<longleftrightarrow> ms_owner_agent x = None"
    using inv adm by (auto simp: thread_inv_def message_row_of_def message_admitted_def)
  ultimately show ?thesis by (simp add: thread_inv_def)
qed

lemma bump_seq_inv:
  assumes "thread_inv db"
  shows "thread_inv (db\<lparr>td_seq := (td_seq db)(thread \<mapsto> last_seq db thread + 1)\<rparr>)" (is "thread_inv ?db")
proof -
  have le: "last_seq db th \<le> last_seq ?db th" for th by (simp add: last_seq_def)
  have seqs: "feed_seqs ?db th = feed_seqs db th" for th by (simp add: feed_seqs_def)
  have "sorted_wrt (<) (feed_seqs ?db th) \<and> (\<forall>k \<in> set (feed_seqs ?db th). 0 < k \<and> k \<le> last_seq ?db th)" for th
    unfolding seqs using assms le [of th] by (fastforce simp: thread_inv_def)
  then show ?thesis
    using assms by (simp add: thread_inv_def keys_distinct_def)
qed

lemma append_message_inv: "thread_inv db \<Longrightarrow> thread_inv (snd (append_message db now i ca th m))"
proof -
  assume inv: "thread_inv db"
  obtain x db' where s: "append_statement db now i (ca_user ca) th m = (x, db')" by (meson surj_pair)
  from s show ?thesis
  proof (cases rule: append_statement_cases)
    case same
    with s inv show ?thesis by (simp add: append_message_db)
  next
    case (taken t)
    with s inv show ?thesis by (simp add: append_message_db bump_seq_inv [simplified])
  next
    case (inserted t)
    have "thread_inv db'"
      unfolding inserted(5) using thread_visible_Some [OF inserted(1)] inserted
      by (intro insert_row_inv [OF inv]) auto
    with s show ?thesis by (simp add: append_message_db)
  qed
qed

lemma create_thread_inv:
  "create_thread db now i ca ch root by dm = Some (x, db') \<Longrightarrow> thread_inv db \<Longrightarrow> thread_inv db'"
  by (auto simp: create_thread_def thread_inv_def feed_seqs_def last_seq_def keys_distinct_def
      split: if_splits)

lemma thread_step_inv: "thread_step db e db' \<Longrightarrow> thread_inv db \<Longrightarrow> thread_inv db'"
  by (induction rule: thread_step.induct)
    (auto intro: create_thread_inv append_message_inv same_feed_inv same_feed_ops)

text \<open>
  The feed only grows, threads stay in their org, and memberships are not the store's to change.
\<close>

definition thread_orgs :: "thread_db \<Rightarrow> (uuid \<times> uuid) list" where
  "thread_orgs db = map (\<lambda>t. (th_id t, th_org t)) (td_threads db)"

definition feed_le :: "thread_db \<Rightarrow> thread_db \<Rightarrow> bool" where
  "feed_le db db' \<longleftrightarrow> (\<exists>ms. td_messages db' = td_messages db @ ms)
     \<and> (\<exists>ts. thread_orgs db' = thread_orgs db @ ts) \<and> td_members db' = td_members db"

lemma feed_le_refl: "feed_le db db"
  by (simp add: feed_le_def)

lemma feed_le_trans: "feed_le db db' \<Longrightarrow> feed_le db' db'' \<Longrightarrow> feed_le db db''"
  by (auto simp: feed_le_def)

lemma append_message_le: "feed_le db (snd (append_message db now i ca th m))"
proof -
  obtain x db' where s: "append_statement db now i (ca_user ca) th m = (x, db')" by (meson surj_pair)
  then show ?thesis
    by (cases rule: append_statement_cases)
      (simp_all add: append_message_db feed_le_def s thread_orgs_def map_update_where)
qed

lemma thread_step_le: "thread_step db e db' \<Longrightarrow> feed_le db db'"
proof (induction rule: thread_step.induct)
  case (create db now i ca ch root "by" dm x db')
  then show ?case by (auto simp: create_thread_def feed_le_def thread_orgs_def split: if_splits)
next
  case (append db now i ca th m)
  show ?case by (rule append_message_le)
qed (use same_feed_ops in \<open>auto simp: same_feed_def feed_le_def thread_orgs_def\<close>)

lemma thread_visible_le:
  assumes "thread_visible db user th = Some t" "feed_le db db'" "distinct (map th_id (td_threads db'))"
  obtains t' where "thread_visible db' user th = Some t'" "th_org t' = th_org t"
proof -
  note t = thread_visible_Some [OF assms(1)]
  from t have "(th, th_org t) \<in> set (thread_orgs db)" by (auto simp: thread_orgs_def)
  with assms(2) have "(th, th_org t) \<in> set (thread_orgs db')" by (auto simp: feed_le_def)
  then obtain t' where t': "t' \<in> set (td_threads db')" "th_id t' = th" "th_org t' = th_org t"
    by (auto simp: thread_orgs_def)
  have mem: "td_is_member db' user (th_org t)"
    using t assms(2) by (simp add: td_is_member_def feed_le_def)
  obtain u where u: "thread_visible db' user th = Some u"
    using t' mem by (cases "thread_visible db' user th") (auto simp: thread_visible_def find_None_mem)
  have "u = t'"
    using thread_visible_Some [OF u] t' by (auto intro: distinct_map_inj [OF assms(3)])
  with u t' that show ?thesis by blast
qed

lemma thread_init_inv: "thread_init db \<Longrightarrow> thread_inv db"
  by (simp add: thread_init_def thread_inv_def feed_seqs_def keys_distinct_def)

interpretation feed: monotone_system thread_init thread_step thread_inv feed_le
  by unfold_locales
    (blast intro: thread_init_inv thread_step_inv feed_le_refl feed_le_trans thread_step_le)+

section \<open>Idempotent append\<close>

definition keyed_row :: "thread_db \<Rightarrow> caller \<Rightarrow> idempotency_key \<Rightarrow> message_row option" where
  "keyed_row db ca key = find (\<lambda>r. ms_org r = ca_org ca \<and> ms_idempotency_key r = Some key
     \<and> td_is_member db (ca_user ca) (ms_org r)) (td_messages db)"

lemma keyed_row_le: "keyed_row db ca key = Some r \<Longrightarrow> feed_le db db' \<Longrightarrow> keyed_row db' ca key = Some r"
  by (auto simp: keyed_row_def feed_le_def td_is_member_def find_append)

lemma keyed_row_taken: "keyed_row db ca key = Some r \<Longrightarrow> key_taken db (ca_org ca) (Some key)"
  by (auto simp: keyed_row_def key_taken_def dest: find_Some_mem)

lemma append_ok_row:
  assumes app: "append_message db now i ca th m = (Inr rid, db')"
    and key: "nm_idempotency_key m = Some k"
    and t: "thread_visible db (ca_user ca) th = Some t" "th_org t = ca_org ca"
  shows "\<exists>r. keyed_row db' ca k = Some r \<and> ms_id r = rid" "message_admitted m"
proof -
  obtain x db1 where s: "append_statement db now i (ca_user ca) th m = (x, db1)" by (meson surj_pair)
  then have db1: "db' = db1" using append_message_db [of db now i ca th m] app by simp
  from s have "(\<exists>r. keyed_row db' ca k = Some r \<and> ms_id r = rid) \<and> message_admitted m"
  proof (cases rule: append_statement_cases)
    case same
    with app s t show ?thesis by (cases x) (auto simp: append_message_def split: bool.splits)
  next
    case (taken u)
    with s app key obtain r where "keyed_row db ca k = Some r" "ms_id r = rid"
      by (auto simp: append_message_def keyed_row_def split: option.splits)
    with taken db1 show ?thesis by (auto simp: keyed_row_def td_is_member_def)
  next
    case (inserted u)
    have u: "u = t" using inserted(1) t by simp
    have "find (\<lambda>r. ms_org r = ca_org ca \<and> ms_idempotency_key r = Some k
       \<and> td_is_member db (ca_user ca) (ms_org r)) (td_messages db) = None"
      using inserted(4) key t u by (auto simp: find_None_mem key_taken_def)
    then have "keyed_row db' ca k = Some (message_row_of i th (th_org t) (last_seq db th + 1) now m)"
      using inserted(5) db1 u key t thread_visible_Some [OF t(1)]
      by (simp add: keyed_row_def find_append td_is_member_def message_row_of_def)
    moreover have "rid = i" using app s inserted by (simp add: append_message_def)
    ultimately show ?thesis using inserted(3) by (simp add: message_row_of_def)
  qed
  then show "\<exists>r. keyed_row db' ca k = Some r \<and> ms_id r = rid" "message_admitted m" by simp_all
qed

lemma append_again:
  assumes row: "keyed_row db ca k = Some r" and key: "nm_idempotency_key m = Some k"
    and t: "thread_visible db (ca_user ca) th = Some t" "th_org t = ca_org ca"
    and adm: "message_admitted m" and room: "int (last_seq db th + 1) \<le> i64_max"
  shows "fst (append_message db now i ca th m) = Inr (ms_id r)
    \<and> td_messages (snd (append_message db now i ca th m)) = td_messages db"
proof -
  have "append_statement db now i (ca_user ca) th m =
      (Inr False, db\<lparr>td_seq := (td_seq db)(th \<mapsto> last_seq db th + 1)\<rparr>)"
    using t key adm room keyed_row_taken [OF row] by (simp add: append_statement_def Let_def)
  with row key show ?thesis by (simp add: append_message_def keyed_row_def)
qed

section \<open>Repairing tool pairs\<close>

definition strip :: "(feed_seq \<times> message_kind \<times> chat_message) list \<Rightarrow> (feed_seq \<times> chat_message) list" where
  "strip rows = map (\<lambda>(s, k, m). (s, m)) rows"

text \<open>\<open>closed\<close>: reading the rows from a state that awaits nothing ends in one that awaits nothing.\<close>

fun awaits :: "bool \<Rightarrow> (feed_seq \<times> message_kind \<times> chat_message) list \<Rightarrow> bool" where
  "awaits a [] = a"
| "awaits a ((s, k, m) # rows) =
     awaits (if a then k \<noteq> KToolResult else k = KToolUse) rows"

definition closed :: "(feed_seq \<times> message_kind \<times> chat_message) list \<Rightarrow> bool" where
  "closed rows \<longleftrightarrow> \<not> awaits False rows"

lemma repair_out: "repair_loop (out @ xs) d a rows = out @ repair_loop xs d a rows"
  by (induction rows arbitrary: xs d a) auto

lemma repair_out': "repair_loop out d a rows = out @ repair_loop [] d a rows"
  using repair_out [of out "[]"] by simp

lemma repair_awaiting:
  "\<forall>(s, k, m) \<in> set mid. k \<noteq> KToolResult \<Longrightarrow>
   repair_loop out d True (mid @ (s, KToolResult, r) # post) =
   repair_loop (out @ [(s, r)] @ d @ strip mid) [] False post"
  by (induction mid arbitrary: d) (auto simp: strip_def)

lemma repair_closed:
  "(a \<or> d = []) \<Longrightarrow> \<not> awaits a pre \<Longrightarrow>
   repair_loop out d a (pre @ rest) = repair_loop (repair_loop out d a pre) [] False rest"
  by (induction pre arbitrary: out d a) (auto split: if_splits)

lemma repair_mset:
  "mset (repair_loop out d a rows) = mset out + mset d + mset (strip rows)"
  by (induction out d a rows rule: repair_loop.induct) (auto simp: strip_def)

lemma set_repair: "set (repair_tool_pairs rows) = set (strip rows)"
proof -
  have "mset (repair_tool_pairs rows) = mset (strip rows)"
    by (simp add: repair_tool_pairs_def repair_mset)
  then show ?thesis by (rule mset_eq_setD)
qed

lemma length_repair: "length (repair_tool_pairs rows) = length rows"
proof -
  have "mset (repair_tool_pairs rows) = mset (strip rows)"
    by (simp add: repair_tool_pairs_def repair_mset)
  then show ?thesis by (metis length_map mset_eq_length strip_def)
qed

section \<open>Context rows\<close>

lemma length_last_n: "length (last_n k xs) \<le> k"
  by (simp add: last_n_def)

lemma set_last_n: "set (last_n k xs) \<subseteq> set xs"
  by (simp add: last_n_def set_drop_subset)

lemma context_rows_mem:
  "m \<in> set (context_rows db thread agent since) \<Longrightarrow>
   m \<in> set (td_messages db) \<and> context_row thread agent since m"
  using set_last_n by (fastforce simp: context_rows_def)

lemma call_ids_drop_orphans:
  "call_ids (drop_orphan_tool_results rows) = call_ids rows"
proof -
  have "call_ids (filter P rows) = call_ids rows"
    if "\<And>s bs. P (s, Assistant bs)" for P :: "feed_seq \<times> chat_message \<Rightarrow> bool"
    using that by (induction rows) (auto simp: call_ids_def split: prod.splits chat_message.splits)
  then show ?thesis by (simp add: drop_orphan_tool_results_def)
qed

section \<open>Artifact pages\<close>

lemma substr_page:
  assumes "0 < start" "0 \<le> len"
  shows "substr s start len = take_chars (nat len) (drop_chars (nat (start - 1)) s)"
proof -
  have "max start 1 = start" using assms(1) by simp
  then show ?thesis by (simp add: substr_def)
qed

lemma take_chars_add: "take_chars (m + n) s = take_chars m s @ take_chars n (drop_chars m s)"
proof (induction m s rule: take_chars.induct)
  case (2 m c s)
  then show ?case by (cases m) auto
qed simp

lemma drop_chars_add: "drop_chars n (drop_chars m s) = drop_chars (m + n) s"
proof (induction m s rule: drop_chars.induct)
  case (2 m c s)
  then show ?case by (cases m; cases n) auto
qed simp

lemma pages_concat:
  assumes "s = [] \<or> \<not> is_cont (hd s)"
  shows "concat (map (\<lambda>k. take_chars L (drop_chars (k * L) s)) [0..<n]) = take_chars (n * L) s"
proof (induction n)
  case 0
  show ?case using assms by (cases s) auto
next
  case (Suc n)
  then show ?case by (simp add: take_chars_add add.commute [of L])
qed

end
