(* ===== verification/Thread_Properties.thy ===== *)
theory Thread_Properties
  imports Thread_Laws
begin

text \<open>
  The properties of the thread store: the order of a feed, the retry of an append, what a context
  window may contain, how tool pairs are repaired and when that goes wrong, and the pages of an
  offloaded tool result. The witnesses run the store on one thread of one org.
\<close>

section \<open>A sample feed\<close>

definition sample_caller :: caller where "sample_caller = \<lparr>ca_user = 10, ca_org = 1\<rparr>"

definition sample_thread_db0 :: thread_db where
  "sample_thread_db0 = \<lparr>td_threads = [], td_seq = Map.empty, td_messages = [], td_participation = [],
     td_compactions = Map.empty, td_checkpoints = Map.empty, td_artifacts = Map.empty,
     td_users = [5 \<mapsto> 10], td_channel_members = [], td_archived = [], td_members = [(10, 1)]\<rparr>"

definition sample_thread_db1 :: thread_db where
  "sample_thread_db1 = sample_thread_db0\<lparr>td_threads :=
     [\<lparr>th_id = 7, th_org = 1, th_channel = None, th_root_message = None, th_created_by = 5,
       th_dm_counterpart = Some 6, th_created_at = 100, th_last_activity_at = 100\<rparr>]\<rparr>"

definition posted :: "uuid \<Rightarrow> string \<Rightarrow> idempotency_key option \<Rightarrow> new_message" where
  "posted sender txt key = \<lparr>nm_kind = Posted, nm_sender = Some sender, nm_owner_agent = None,
     nm_receiver = None, nm_body = User [UText txt], nm_request = None, nm_idempotency_key = key\<rparr>"

definition private_row :: "message_kind \<Rightarrow> uuid \<Rightarrow> chat_message \<Rightarrow> new_message" where
  "private_row kind agent body = \<lparr>nm_kind = kind, nm_sender = None, nm_owner_agent = Some agent,
     nm_receiver = None, nm_body = body, nm_request = None, nm_idempotency_key = None\<rparr>"

definition sample_call :: "string \<Rightarrow> chat_message" where
  "sample_call i = Assistant [CToolCall \<lparr>tc_id = i, tc_name = ''todo'', tc_input = JNull\<rparr>]"

definition sample_result :: "string \<Rightarrow> chat_message" where
  "sample_result i = User [UToolResult \<lparr>tr_call_id = i, tr_output = ''ok'', tr_is_error = False\<rparr>]"

definition append_to :: "thread_db \<Rightarrow> uuid \<Rightarrow> new_message \<Rightarrow> thread_db" where
  "append_to db i m = snd (append_message db 200 i sample_caller 7 m)"

definition sample_thread_db2 :: thread_db where
  "sample_thread_db2 = append_to sample_thread_db1 21 (posted 5 ''hi'' (Some ''k''))"

text \<open>A turn that is cut off after its tool call is stored; then another message and another turn.\<close>

definition sample_cut_off_db :: thread_db where
  "sample_cut_off_db =
     append_to (append_to (append_to (append_to sample_thread_db2
       22 (private_row KToolUse 6 (sample_call ''a'')))
       23 (posted 5 ''still there?'' None))
       24 (private_row KToolUse 6 (sample_call ''b'')))
       25 (private_row KToolResult 6 (sample_result ''b''))"

lemma append_to_reach:
  "reach thread_init thread_step db \<Longrightarrow> reach thread_init thread_step (append_to db i m)"
  unfolding append_to_def by (rule reach.reach_step, assumption, rule thread_step.append)

lemma feed_reach1: "reach thread_init thread_step sample_thread_db1"
proof (rule reach.reach_step)
  show "reach thread_init thread_step sample_thread_db0"
    by (rule reach.reach_init) (simp add: thread_init_def sample_thread_db0_def)
  have "create_thread sample_thread_db0 100 7 sample_caller None None 5 (Some 6) =
      Some (Inr 7, sample_thread_db1)"
    by (simp add: create_thread_def sample_thread_db0_def sample_thread_db1_def sample_caller_def
        td_is_member_def)
  then show "thread_step sample_thread_db0 (TeCreate 100 7 sample_caller None None 5 (Some 6)) sample_thread_db1"
    by (rule thread_step.create)
qed

lemma feed_reach2: "reach thread_init thread_step sample_thread_db2"
  unfolding sample_thread_db2_def by (intro append_to_reach feed_reach1)

lemma sample_cut_off_reach: "reach thread_init thread_step sample_cut_off_db"
  unfolding sample_cut_off_db_def by (intro append_to_reach feed_reach2)

lemma sample_append2:
  "append_message sample_thread_db1 200 21 sample_caller 7 (posted 5 ''hi'' (Some ''k'')) =
    (Inr 21, sample_thread_db2)"
proof -
  have "fst (append_message sample_thread_db1 200 21 sample_caller 7 (posted 5 ''hi'' (Some ''k''))) = Inr 21"
    by code_simp
  then show ?thesis by (simp add: sample_thread_db2_def append_to_def prod_eq_iff)
qed

lemma sample_feed: "td_messages sample_cut_off_db =
   [message_row_of 21 7 1 1 200 (posted 5 ''hi'' (Some ''k'')),
    message_row_of 22 7 1 2 200 (private_row KToolUse 6 (sample_call ''a'')),
    message_row_of 23 7 1 3 200 (posted 5 ''still there?'' None),
    message_row_of 24 7 1 4 200 (private_row KToolUse 6 (sample_call ''b'')),
    message_row_of 25 7 1 5 200 (private_row KToolResult 6 (sample_result ''b''))]"
  by code_simp

lemma sample_context: "map (map_context_row Map.empty Map.empty 6) (context_rows sample_cut_off_db 7 6 0) =
   [(1, Posted, User [UText ''hi'']), (2, KToolUse, sample_call ''a''),
    (3, Posted, User [UText ''still there?'']), (4, KToolUse, sample_call ''b''),
    (5, KToolResult, sample_result ''b'')]"
proof -
  have rows: "context_rows sample_cut_off_db 7 6 0 = td_messages sample_cut_off_db"
    by (simp add: context_rows_def sample_feed context_row_def message_row_of_def posted_def
        private_row_def last_n_def MAX_CONTEXT_MESSAGES_def)
  have small: "cap_tool_result_output ''ok'' n = None" for n
    by (simp add: cap_tool_result_output_def Let_def MAX_TOOL_RESULT_CHARS_def)
  show ?thesis
    by (simp add: rows sample_feed map_context_row_def message_row_of_def posted_def private_row_def
        map_row_for_viewer_def prefix_sender_label_def cap_tool_results_in_place_def sample_call_def
        sample_result_def small)
qed

lemma sample_tail: "context_tail Map.empty sample_cut_off_db 7 6 6 0 Map.empty =
   [\<lparr>tl_seq = 1, tl_message = User [UText ''hi'']\<rparr>, \<lparr>tl_seq = 2, tl_message = sample_call ''a''\<rparr>,
    \<lparr>tl_seq = 5, tl_message = sample_result ''b''\<rparr>,
    \<lparr>tl_seq = 3, tl_message = User [UText ''still there?'']\<rparr>, \<lparr>tl_seq = 4, tl_message = sample_call ''b''\<rparr>]"
  unfolding context_tail_def sample_context
  by (simp add: repair_tool_pairs_def drop_orphan_tool_results_def call_ids_def
      sample_result_def sample_call_def List.map_filter_simps)

section \<open>Order and idempotency\<close>

text \<open>
  C15. However appends, creations, participations and compactions of any callers interleave, the
  messages of a thread carry strictly increasing ordinals in the order they were stored, no two
  messages of an org share an idempotency key, every message is in the org of its thread, and it
  is private to an agent exactly when it is not a posted one.
\<close>

theorem feed_is_ordered:
  assumes "reach thread_init thread_step db"
  shows "sorted_wrt (<) (map ms_seq (filter (\<lambda>m. ms_thread m = th) (td_messages db)))
    \<and> distinct (map (\<lambda>m. (ms_org m, ms_idempotency_key m))
         (filter (\<lambda>m. ms_idempotency_key m \<noteq> None) (td_messages db)))
    \<and> (\<forall>m \<in> set (td_messages db). \<exists>t \<in> set (td_threads db). th_id t = ms_thread m \<and> th_org t = ms_org m)
    \<and> (\<forall>m \<in> set (td_messages db). ms_kind m = Posted \<longleftrightarrow> ms_owner_agent m = None)"
  using feed.reach_inv [OF assms] by (simp add: thread_inv_def keys_distinct_def feed_seqs_def)

theorem feed_is_ordered_witness:
  "sorted_wrt (<) (map ms_seq (filter (\<lambda>m. ms_thread m = 7) (td_messages sample_cut_off_db)))
    \<and> length (td_messages sample_cut_off_db) = 5"
proof
  show "length (td_messages sample_cut_off_db) = 5" by code_simp
qed (use feed_is_ordered [OF sample_cut_off_reach, of 7] in simp)

text \<open>
  An append with an idempotency key that succeeded once, by a caller in the org of the
  thread, can be retried at any later state of the store with the same key, by the same caller on
  the same thread: it answers the id of the first message and adds nothing to the feed.
\<close>

theorem append_retry_is_idempotent:
  assumes "reach thread_init thread_step db"
    and "thread_visible db (ca_user ca) th = Some t" and "th_org t = ca_org ca"
    and "nm_idempotency_key m = Some k"
    and "append_message db now i ca th m = (Inr rid, db1)"
    and "steps thread_step db1 es db2" and "int (last_seq db2 th + 1) \<le> i64_max"
  shows "fst (append_message db2 now' i' ca th m) = Inr rid
    \<and> td_messages (snd (append_message db2 now' i' ca th m)) = td_messages db2"
proof -
  have inv: "thread_inv db" by (rule feed.reach_inv [OF assms(1)])
  have inv1: "thread_inv db1" using append_message_inv [OF inv, of now i ca th m] assms(5) by simp
  have le1: "feed_le db db1" using append_message_le [of db now i ca th m] assms(5) by simp
  have le2: "feed_le db1 db2" by (rule feed.steps_le [OF assms(6) inv1])
  have "thread_inv db2" by (rule feed.steps_inv [OF assms(6) inv1])
  then have dist: "distinct (map th_id (td_threads db2))" by (simp add: thread_inv_def)
  obtain t' where t': "thread_visible db2 (ca_user ca) th = Some t'" "th_org t' = ca_org ca"
    using thread_visible_le [OF assms(2) feed_le_trans [OF le1 le2] dist] assms(3) by metis
  obtain r where r: "keyed_row db1 ca k = Some r" "ms_id r = rid"
    using append_ok_row(1) [OF assms(5,4,2,3)] by blast
  have "keyed_row db2 ca k = Some r" by (rule keyed_row_le [OF r(1) le2])
  from append_again [OF this assms(4) t' append_ok_row(2) [OF assms(5,4,2,3)] assms(7)] r(2)
  show ?thesis by simp
qed

theorem append_retry_is_idempotent_witness:
  "fst (append_message sample_thread_db2 300 99 sample_caller 7 (posted 5 ''hi'' (Some ''k''))) = Inr 21"
proof -
  have "fst (append_message sample_thread_db2 300 99 sample_caller 7 (posted 5 ''hi'' (Some ''k''))) = Inr 21
    \<and> td_messages (snd (append_message sample_thread_db2 300 99 sample_caller 7 (posted 5 ''hi'' (Some ''k''))))
      = td_messages sample_thread_db2"
  proof (rule append_retry_is_idempotent [OF feed_reach1 _ _ _ sample_append2 steps_nil])
    show "thread_visible sample_thread_db1 (ca_user sample_caller) 7 = Some (hd (td_threads sample_thread_db1))"
      by (simp add: thread_visible_def sample_thread_db1_def sample_thread_db0_def sample_caller_def
          td_is_member_def)
    show "th_org (hd (td_threads sample_thread_db1)) = ca_org sample_caller"
      by (simp add: sample_thread_db1_def sample_caller_def)
    show "int (last_seq sample_thread_db2 7 + 1) \<le> i64_max" by code_simp
  qed (simp add: posted_def)
  then show ?thesis by simp
qed

section \<open>What an agent reads\<close>

text \<open>
  C16. The context an agent reads of a thread has at most 200 rows; each is a stored message of
  that thread after the given ordinal that is posted or the agent's own artifact, never another
  agent's; a posted message reads as the assistant's exactly when the viewer sent it; and no row
  opens with a tool result whose call is not in the window.
\<close>

theorem context_is_private:
  "length (context_tail names db th agent viewer since ov) \<le> MAX_CONTEXT_MESSAGES
    \<and> (\<forall>r \<in> set (context_tail names db th agent viewer since ov).
         \<exists>m \<in> set (td_messages db). ms_thread m = th \<and> ms_seq m = tl_seq r \<and> since < tl_seq r
           \<and> (ms_kind m = Posted \<or> ms_owner_agent m = Some agent)
           \<and> (ms_kind m = Posted \<longrightarrow> (message_role (tl_message r) = RAssistant \<longleftrightarrow> ms_sender m = Some viewer)))
    \<and> (\<forall>r \<in> set (context_tail names db th agent viewer since ov). \<forall>res bs.
         tl_message r = User (UToolResult res # bs) \<longrightarrow>
         tr_call_id res \<in> call_ids (map (\<lambda>r. (tl_seq r, tl_message r))
           (context_tail names db th agent viewer since ov)))"
proof (intro conjI ballI)
  let ?rows = "map (map_context_row names ov viewer) (context_rows db th agent since)"
  let ?kept = "drop_orphan_tool_results (repair_tool_pairs ?rows)"
  have tail: "map (\<lambda>r. (tl_seq r, tl_message r)) (context_tail names db th agent viewer since ov) = ?kept"
    by (simp add: context_tail_def o_def case_prod_unfold)
  have "length ?kept \<le> length (repair_tool_pairs ?rows)"
    unfolding drop_orphan_tool_results_def by (rule length_filter_le)
  also have "\<dots> \<le> MAX_CONTEXT_MESSAGES"
    by (simp add: length_repair context_rows_def length_last_n)
  finally show "length (context_tail names db th agent viewer since ov) \<le> MAX_CONTEXT_MESSAGES"
    by (simp add: context_tail_def)
  fix r assume r: "r \<in> set (context_tail names db th agent viewer since ov)"
  then have "(tl_seq r, tl_message r) \<in> set ?kept" unfolding tail [symmetric] by auto
  then have "(tl_seq r, tl_message r) \<in> set (strip ?rows)"
    by (auto simp: drop_orphan_tool_results_def set_repair)
  then obtain m where m: "m \<in> set (context_rows db th agent since)"
    "tl_seq r = ms_seq m" "tl_message r = snd (snd (map_context_row names ov viewer m))"
    by (auto simp: strip_def case_prod_unfold map_context_row_def Let_def)
  have role: "message_role (cap_tool_results_in_place x s) = message_role x" for x s
    by (cases x) (simp_all add: cap_tool_results_in_place_def)
  have "ms_kind m = Posted \<longrightarrow> (message_role (tl_message r) = RAssistant \<longleftrightarrow> ms_sender m = Some viewer)"
    unfolding m(3) by (simp add: map_context_row_def Let_def role map_row_for_viewer_def split: chat_message.split)
  with context_rows_mem [OF m(1)] m(2)
  show "\<exists>m \<in> set (td_messages db). ms_thread m = th \<and> ms_seq m = tl_seq r \<and> since < tl_seq r
           \<and> (ms_kind m = Posted \<or> ms_owner_agent m = Some agent)
           \<and> (ms_kind m = Posted \<longrightarrow> (message_role (tl_message r) = RAssistant \<longleftrightarrow> ms_sender m = Some viewer))"
    by (auto simp: context_row_def)
next
  fix r assume r: "r \<in> set (context_tail names db th agent viewer since ov)"
  let ?rows = "map (map_context_row names ov viewer) (context_rows db th agent since)"
  let ?kept = "drop_orphan_tool_results (repair_tool_pairs ?rows)"
  have tail: "map (\<lambda>r. (tl_seq r, tl_message r)) (context_tail names db th agent viewer since ov) = ?kept"
    by (simp add: context_tail_def o_def case_prod_unfold)
  have mem: "(tl_seq r, tl_message r) \<in> set ?kept" using r unfolding tail [symmetric] by auto
  show "\<forall>res bs. tl_message r = User (UToolResult res # bs) \<longrightarrow> tr_call_id res \<in> call_ids
      (map (\<lambda>r. (tl_seq r, tl_message r)) (context_tail names db th agent viewer since ov))"
    unfolding tail call_ids_drop_orphans using mem by (auto simp: drop_orphan_tool_results_def)
qed

theorem context_is_private_witness:
  "\<exists>r \<in> set (context_tail Map.empty sample_cut_off_db 7 6 6 0 Map.empty).
     tl_seq r = 1 \<and> message_role (tl_message r) = RUser"
proof -
  have "length (context_tail Map.empty sample_cut_off_db 7 6 6 0 Map.empty) \<le> MAX_CONTEXT_MESSAGES"
    using context_is_private [of Map.empty sample_cut_off_db 7 6 6 0 Map.empty] by blast
  then show ?thesis by (simp add: sample_tail)
qed

section \<open>Repairing tool pairs\<close>

text \<open>
  When the rows before a tool call leave no other call open and no result stands between the
  call and its result, the repair moves the result right behind the call, whatever was posted in
  between follows it in order, and the rows before and after are repaired on their own: no row is
  lost, and every pair of a well-bracketed feed ends up adjacent.
\<close>

theorem repair_joins_pairs:
  assumes "closed pre" and "\<forall>(s, k, m) \<in> set mid. k \<noteq> KToolResult"
  shows "repair_tool_pairs (pre @ (s, KToolUse, u) # mid @ (s', KToolResult, r) # post) =
     repair_tool_pairs pre @ [(s, u), (s', r)] @ strip mid @ repair_tool_pairs post"
proof -
  have "repair_tool_pairs (pre @ (s, KToolUse, u) # mid @ (s', KToolResult, r) # post)
      = repair_loop (repair_tool_pairs pre) [] False ((s, KToolUse, u) # mid @ (s', KToolResult, r) # post)"
    using assms(1) by (simp add: repair_tool_pairs_def repair_closed closed_def)
  also have "\<dots> = repair_loop (repair_tool_pairs pre @ [(s, u)]) [] True (mid @ (s', KToolResult, r) # post)"
    by simp
  also have "\<dots> = repair_loop ((repair_tool_pairs pre @ [(s, u)]) @ [(s', r)] @ [] @ strip mid) [] False post"
    by (rule repair_awaiting [OF assms(2)])
  also have "\<dots> = (repair_tool_pairs pre @ [(s, u)] @ [(s', r)] @ strip mid) @ repair_loop [] [] False post"
    by (subst repair_out') simp
  finally show ?thesis by (simp add: repair_tool_pairs_def)
qed

theorem repair_joins_pairs_witness:
  "repair_tool_pairs [(1, KToolUse, sample_call ''a''), (2, Posted, User []), (3, KToolResult, sample_result ''a'')]
    = [(1, sample_call ''a''), (3, sample_result ''a''), (2, User [])]"
  using repair_joins_pairs [of "[]" "[(2, Posted, User [])]" 1 "sample_call ''a''" 3 "sample_result ''a''" "[]"]
  by (simp add: closed_def strip_def repair_tool_pairs_def)

text \<open>
  A turn that is cut off after its tool call was stored (a cancel, a timeout, a refused
  batch) leaves the call without a result. From then on the repair takes the next turn's result
  for the missing one: in the reachable feed below, the result of call \<open>b\<close> is placed behind call
  \<open>a\<close>, and call \<open>b\<close> is left without a result next to it, so every later request of this agent
  carries a call that no result follows.
\<close>

theorem cut_off_call_steals_the_next_result:
  "reach thread_init thread_step sample_cut_off_db
    \<and> map tl_seq (context_tail Map.empty sample_cut_off_db 7 6 6 0 Map.empty) = [1, 2, 5, 3, 4]
    \<and> map tl_message (drop 1 (context_tail Map.empty sample_cut_off_db 7 6 6 0 Map.empty)) =
        [sample_call ''a'', sample_result ''b'', User [UText ''still there?''], sample_call ''b'']"
  by (simp add: sample_cut_off_reach sample_tail)

section \<open>Pages of an offloaded result\<close>

lemma page_slice:
  assumes "td_artifacts db (org, h) = Some a" "0 < L" "L \<le> MAX_ARTIFACT_SLICE"
    and "int (off + 1) \<le> i32_max"
  shows "load_tool_artifact_slice dbg db org h (Page off L) = Some (take_chars L (drop_chars off (ar_body a)))"
proof -
  have "saturating_add_usize off 1 = off + 1"
    using assms(4) by (simp add: saturating_add_usize_def i32_max_def u64_max_def)
  moreover have "saturating_i32 (off + 1) = int off + 1" "saturating_i32 (min L MAX_ARTIFACT_SLICE) = int L"
    using assms by (simp_all add: saturating_i32_def i32_max_def MAX_ARTIFACT_SLICE_def)
  ultimately show ?thesis using assms(1) by (simp add: load_tool_artifact_slice_def substr_page)
qed

text \<open>
  Reading an offloaded tool result page by page loses nothing: for any page size up to the
  slice bound, the first \<open>n\<close> pages put together are the first \<open>n * L\<close> characters of the stored body
  (the whole body, for enough pages), and no page is longer than \<open>L\<close> characters.
\<close>

theorem artifact_pages_recover_the_body:
  assumes "td_artifacts db (org, h) = Some a" and "0 < L" and "L \<le> MAX_ARTIFACT_SLICE"
    and "ar_body a = [] \<or> \<not> is_cont (hd (ar_body a))" and "int (n * L) \<le> i32_max"
  shows "concat (map (\<lambda>k. the (load_tool_artifact_slice dbg db org h (Page (k * L) L))) [0..<n]) =
      take_chars (n * L) (ar_body a)
    \<and> (\<forall>k < n. \<exists>page. load_tool_artifact_slice dbg db org h (Page (k * L) L) = Some page
         \<and> chars_count page \<le> L)
    \<and> (chars_count (ar_body a) \<le> n * L \<longrightarrow> take_chars (n * L) (ar_body a) = ar_body a)"
proof -
  have slice: "load_tool_artifact_slice dbg db org h (Page (k * L) L) =
      Some (take_chars L (drop_chars (k * L) (ar_body a)))" if "k < n" for k
  proof (rule page_slice [OF assms(1-3)])
    have "Suc (k * L) \<le> n * L"
      using that assms(2) mult_le_mono1 [of "Suc k" n L] by simp
    with assms(5) show "int (k * L + 1) \<le> i32_max" by linarith
  qed
  have "map (\<lambda>k. the (load_tool_artifact_slice dbg db org h (Page (k * L) L))) [0..<n] =
      map (\<lambda>k. take_chars L (drop_chars (k * L) (ar_body a))) [0..<n]"
    by (rule map_cong) (simp_all add: slice)
  then have "concat (map (\<lambda>k. the (load_tool_artifact_slice dbg db org h (Page (k * L) L))) [0..<n]) =
      take_chars (n * L) (ar_body a)"
    by (simp only: pages_concat [OF assms(4)])
  then show ?thesis using slice by (simp add: take_chars_all)
qed

definition sample_artifact_db :: thread_db where
  "sample_artifact_db = save_tool_artifact sample_thread_db1 1 ''h'' ''abcde'' 2 ''shell''"

theorem artifact_pages_recover_the_body_witness:
  "concat (map (\<lambda>k. the (load_tool_artifact_slice (\<lambda>s. s) sample_artifact_db 1 ''h'' (Page (k * 2) 2))) [0..<3])
    = ''abcde''"
proof -
  have "td_artifacts sample_artifact_db (1, ''h'') = Some \<lparr>ar_body = ''abcde'', ar_tokens = 2, ar_tool = ''shell''\<rparr>"
    by (simp add: sample_artifact_db_def save_tool_artifact_def sample_thread_db1_def sample_thread_db0_def)
  from artifact_pages_recover_the_body [OF this, of 2 3 "\<lambda>s. s"]
  have "concat (map (\<lambda>k. the (load_tool_artifact_slice (\<lambda>s. s) sample_artifact_db 1 ''h'' (Page (k * 2) 2))) [0..<3])
    = take_chars (3 * 2) ''abcde''"
    by (simp add: MAX_ARTIFACT_SLICE_def i32_max_def is_cont_def)
  moreover have "take_chars (3 * 2) ''abcde'' = ''abcde''" by code_simp
  ultimately show ?thesis by simp
qed

text \<open>
  The pattern search has no such bound: its header repeats the pattern, so a pattern longer than
  the slice bound yields a slice longer than the bound.
\<close>

lemma grep_slice_exceeds:
  assumes "find_str pattern body \<noteq> None" "pattern \<noteq> []" "MAX_ARTIFACT_SLICE < chars_count (dbg pattern)"
  shows "MAX_ARTIFACT_SLICE < chars_count (grep_slice dbg body pattern k)"
  using assms by (auto simp: grep_slice_def Let_def)

end
