(* ===== verification/Model_Catalog.thy ===== *)
theory Model_Catalog
  imports Chat_Types "HOL-Library.Product_Lexorder"
begin

text \<open>
  The model catalog (\<open>provider/catalog.rs\<close>, \<open>provider/id.rs\<close>), the token prices
  (\<open>billing/pricing.rs\<close>), the platform registry and the per-org overlay of own keys
  (\<open>provider/registry.rs\<close>, \<open>provider/overlay.rs\<close>), and the three places that route on them: the
  resolver of an agent's model (\<open>agents/model_resolver.rs\<close>), the route of a turn and the
  summarizer chain (\<open>agent_core/core.rs\<close>). A provider client is opaque here: the type variable
  \<open>'p\<close>.
\<close>

section \<open>Providers and models\<close>

datatype provider_id = Anthropic | Openai | Deepseek

definition provider_id_all :: "provider_id list" where
  "provider_id_all = [Anthropic, Openai, Deepseek]"

fun provider_id_as_str :: "provider_id \<Rightarrow> string" where
  "provider_id_as_str Anthropic = ''anthropic''"
| "provider_id_as_str Openai = ''openai''"
| "provider_id_as_str Deepseek = ''deepseek''"

interpretation provider_id: str_enum provider_id_all provider_id_as_str
proof unfold_locales
  show "v \<in> set provider_id_all" for v by (cases v) (simp_all add: provider_id_all_def)
  show "provider_id_as_str v = provider_id_as_str w \<Longrightarrow> v = w" for v w
    by (cases v; cases w) simp_all
qed

definition provider_id_try_from :: "string \<Rightarrow> (provider_id, parse_error) result" where
  "provider_id_try_from raw =
     (if raw = ''anthropic'' then Inr Anthropic
      else if raw = ''openai'' then Inr Openai
      else if raw = ''deepseek'' then Inr Deepseek
      else Inl (Malformed ''provider_id'' ''unknown provider''))"

definition context_window_try_from :: "nat \<Rightarrow> (nat, unit) result" where
  "context_window_try_from raw = (if raw = 0 then Inl () else Inr raw)"

record model_capabilities =
  cap_images :: bool
  cap_pdf :: bool
  cap_office :: bool
  cap_text :: bool

definition TEXT_ONLY :: model_capabilities where
  "TEXT_ONLY = \<lparr>cap_images = False, cap_pdf = False, cap_office = False, cap_text = True\<rparr>"

definition ALL_CAPS :: model_capabilities where
  "ALL_CAPS = \<lparr>cap_images = True, cap_pdf = True, cap_office = True, cap_text = True\<rparr>"

definition capability_accepts :: "model_capabilities \<Rightarrow> attachment_mime \<Rightarrow> bool" where
  "capability_accepts c mime =
     (if is_image mime then cap_images c
      else if is_pdf mime then cap_pdf c
      else if is_text mime then cap_text c
      else cap_office c)"

record catalog_entry =
  ce_name :: string
  ce_provider :: provider_id
  ce_context_window :: nat
  ce_capabilities :: model_capabilities

definition entry :: "string \<Rightarrow> provider_id \<Rightarrow> nat \<Rightarrow> model_capabilities \<Rightarrow> catalog_entry" where
  "entry n p w c = \<lparr>ce_name = n, ce_provider = p, ce_context_window = w, ce_capabilities = c\<rparr>"

definition MODEL_CATALOG :: "catalog_entry list" where
  "MODEL_CATALOG =
     [entry ''claude-opus-4-7'' Anthropic 200000 ALL_CAPS,
      entry ''claude-sonnet-4-6'' Anthropic 200000 ALL_CAPS,
      entry ''claude-haiku-4-5'' Anthropic 200000 ALL_CAPS,
      entry ''claude-sonnet-4-5'' Anthropic 200000 ALL_CAPS,
      entry ''gpt-5.5'' Openai 400000 ALL_CAPS,
      entry ''gpt-5.4'' Openai 400000 ALL_CAPS,
      entry ''gpt-5.4-mini'' Openai 400000 ALL_CAPS,
      entry ''gpt-5.4-nano'' Openai 400000 ALL_CAPS,
      entry ''gpt-4o-mini'' Openai 128000 ALL_CAPS,
      entry ''deepseek-v4-pro'' Deepseek 1000000 TEXT_ONLY,
      entry ''deepseek-v4-flash'' Deepseek 1000000 TEXT_ONLY]"

text \<open>A \<open>Model\<close> is a reference to a catalog entry; \<open>TryFrom\<close> is the only way to one.\<close>

type_synonym model = catalog_entry

definition model_try_from :: "string \<Rightarrow> (model, string) result" where
  "model_try_from raw = ok_or (find (\<lambda>e. ce_name e = raw) MODEL_CATALOG) raw"

section \<open>Prices\<close>

text \<open>Rates are micro-USD per million tokens.\<close>

record price =
  pr_input :: int
  pr_output :: int
  pr_cache_write :: int
  pr_cache_read :: int

definition price_new :: "int \<Rightarrow> int \<Rightarrow> int \<Rightarrow> int \<Rightarrow> price" where
  "price_new i out cw cr = \<lparr>pr_input = i, pr_output = out, pr_cache_write = cw, pr_cache_read = cr\<rparr>"

definition FALLBACK_PRICE :: price where
  "FALLBACK_PRICE = price_new 20000000 80000000 25000000 2000000"

definition price_for_name :: "string \<Rightarrow> price" where
  "price_for_name name =
     (if name = ''claude-opus-4-7'' then price_new 5000000 25000000 6250000 500000
      else if name = ''claude-sonnet-4-6'' \<or> name = ''claude-sonnet-4-5''
        then price_new 3000000 15000000 3750000 300000
      else if name = ''claude-haiku-4-5'' then price_new 1000000 5000000 1250000 100000
      else if name = ''gpt-5.5'' then price_new 5000000 30000000 5000000 500000
      else if name = ''gpt-5.4'' then price_new 2500000 15000000 2500000 250000
      else if name = ''gpt-5.4-mini'' then price_new 250000 2000000 250000 25000
      else if name = ''gpt-5.4-nano'' then price_new 50000 400000 50000 5000
      else if name = ''gpt-4o-mini'' then price_new 150000 600000 150000 15000
      else if name = ''deepseek-v4-pro'' then price_new 1740000 3480000 1740000 174000
      else if name = ''deepseek-v4-flash'' then price_new 140000 280000 140000 14000
      else FALLBACK_PRICE)"

definition price_for :: "model \<Rightarrow> price" where
  "price_for m = price_for_name (ce_name m)"

text \<open>
  Rust's integer division truncates; the counts are \<open>u32\<close> and the table's rates are positive, so
  it is \<open>div\<close> here. \<open>None\<close> is the failed \<open>expect\<close> of a total above \<open>i64\<close>.
\<close>

definition lane_cost :: "nat \<Rightarrow> int \<Rightarrow> int" where
  "lane_cost tokens rate = int tokens * rate div 1000000"

definition unwrap_or_zero :: "nat option \<Rightarrow> nat" where
  "unwrap_or_zero x = (case x of None \<Rightarrow> 0 | Some n \<Rightarrow> n)"

definition cost_total :: "price \<Rightarrow> usage \<Rightarrow> int" where
  "cost_total p u = lane_cost (input_tokens u) (pr_input p)
     + lane_cost (output_tokens u) (pr_output p)
     + lane_cost (unwrap_or_zero (cache_creation_input_tokens u)) (pr_cache_write p)
     + lane_cost (unwrap_or_zero (cache_read_input_tokens u)) (pr_cache_read p)"

definition turn_cost :: "price \<Rightarrow> usage \<Rightarrow> int option" where
  "turn_cost p u = (let total = cost_total p u in
     if 0 \<le> total \<and> total \<le> i64_max then Some total else None)"

section \<open>Registry, overlay, resolution\<close>

type_synonym 'p registry = "provider_id \<rightharpoonup> 'p"

record 'p org_entry =
  oe_providers :: "provider_id \<rightharpoonup> 'p"
  oe_default_model :: "model option"

type_synonym 'p overlay = "uuid \<rightharpoonup> 'p org_entry"

definition overlay_get :: "'p overlay \<Rightarrow> uuid \<Rightarrow> provider_id \<Rightarrow> 'p option" where
  "overlay_get ov org p = (case ov org of None \<Rightarrow> None | Some e \<Rightarrow> oe_providers e p)"

definition overlay_has_key :: "'p overlay \<Rightarrow> uuid \<Rightarrow> provider_id \<Rightarrow> bool" where
  "overlay_has_key ov org p = (case ov org of None \<Rightarrow> False | Some e \<Rightarrow> oe_providers e p \<noteq> None)"

definition overlay_default_model :: "'p overlay \<Rightarrow> uuid \<Rightarrow> model option" where
  "overlay_default_model ov org = (case ov org of None \<Rightarrow> None | Some e \<Rightarrow> oe_default_model e)"

definition MAX_ORGS_OVERLAY :: nat where "MAX_ORGS_OVERLAY = 4096"

text \<open>
  The state under construction is an association list in insertion order, so that the cap can
  be checked by its length.
\<close>

type_synonym 'p overlay_state = "(uuid \<times> 'p org_entry) list \<times> nat"

definition empty_entry :: "'p org_entry" where
  "empty_entry = \<lparr>oe_providers = Map.empty, oe_default_model = None\<rparr>"

definition entry_for :: "nat \<Rightarrow> uuid \<Rightarrow> ('p org_entry \<Rightarrow> 'p org_entry) \<Rightarrow> 'p overlay_state \<Rightarrow> 'p overlay_state" where
  "entry_for cap org f st = (case st of (orgs, dropped) \<Rightarrow>
     if map_of orgs org = None
     then if length orgs \<ge> cap then (orgs, dropped + 1) else (orgs @ [(org, f empty_entry)], dropped)
     else (map (\<lambda>(k, e). if k = org then (k, f e) else (k, e)) orgs, dropped))"

text \<open>\<open>build\<close> makes a client from a credential; a failed build is skipped.\<close>

definition overlay_refresh ::
  "('c \<Rightarrow> 'p option) \<Rightarrow> nat \<Rightarrow> (uuid \<times> model) list \<Rightarrow> (uuid \<times> provider_id \<times> 'c) list \<Rightarrow> 'p overlay_state" where
  "overlay_refresh build cap defaults creds =
     (let st1 = fold (\<lambda>(org, m). entry_for cap org (\<lambda>e. e\<lparr>oe_default_model := Some m\<rparr>)) defaults ([], 0)
      in fold (\<lambda>(org, p, c). entry_for cap org (\<lambda>e. case build c of
             None \<Rightarrow> e | Some client \<Rightarrow> e\<lparr>oe_providers := (oe_providers e)(p \<mapsto> client)\<rparr>)) creds st1)"

definition usable :: "'p registry \<Rightarrow> 'p overlay \<Rightarrow> uuid \<Rightarrow> model \<Rightarrow> bool" where
  "usable reg ov org m \<longleftrightarrow> reg (ce_provider m) \<noteq> None \<or> overlay_has_key ov org (ce_provider m)"

definition resolve_model :: "model \<Rightarrow> 'p registry \<Rightarrow> 'p overlay \<Rightarrow> uuid \<Rightarrow> model option \<Rightarrow> model" where
  "resolve_model workspace_default reg ov org pinned =
     (let def = (case overlay_default_model ov org of None \<Rightarrow> workspace_default | Some m \<Rightarrow> m) in
      case pinned of
        Some m \<Rightarrow> if usable reg ov org m then m else def
      | None \<Rightarrow> def)"

text \<open>\<open>None\<close> is the failed \<open>expect\<close> of a model no client serves.\<close>

definition route :: "'p registry \<Rightarrow> 'p overlay \<Rightarrow> uuid \<Rightarrow> model \<Rightarrow> ('p \<times> bool) option" where
  "route reg ov org m =
     (case overlay_get ov org (ce_provider m) of
        Some byo \<Rightarrow> Some (byo, True)
      | None \<Rightarrow> map_option (\<lambda>p. (p, False)) (reg (ce_provider m)))"

definition provider_for :: "'p registry \<Rightarrow> 'p overlay \<Rightarrow> uuid \<Rightarrow> model \<Rightarrow> 'p option" where
  "provider_for reg ov org m =
     (case overlay_get ov org (ce_provider m) of
        Some byo \<Rightarrow> Some byo | None \<Rightarrow> reg (ce_provider m))"

text \<open>\<open>sort_by_key\<close> is stable; pairs are compared lexicographically.\<close>

definition price_key :: "model \<Rightarrow> int \<times> int" where
  "price_key m = (pr_input (price_for m), pr_output (price_for m))"

fun pick_chain :: "(model \<Rightarrow> 'p option) \<Rightarrow> (model \<times> 'p) option \<Rightarrow> model list \<Rightarrow> (model \<times> 'p) list" where
  "pick_chain pf first [] = (case first of None \<Rightarrow> [] | Some mp \<Rightarrow> [mp])"
| "pick_chain pf first (m # ms) =
     (case pf m of
        None \<Rightarrow> pick_chain pf first ms
      | Some p \<Rightarrow>
          (case first of
             None \<Rightarrow> pick_chain pf (Some (m, p)) ms
           | Some (m0, p0) \<Rightarrow>
               if ce_provider m0 \<noteq> ce_provider m then [(m0, p0), (m, p)]
               else pick_chain pf first ms))"

definition SUMMARIZER_INPUT_BUDGET :: nat where "SUMMARIZER_INPUT_BUDGET = 24000"

definition summarizer_chain :: "'p registry \<Rightarrow> 'p overlay \<Rightarrow> uuid \<Rightarrow> (model \<times> 'p) list" where
  "summarizer_chain reg ov org =
     pick_chain (provider_for reg ov org) None
       (sort_key price_key
         (filter (\<lambda>m. ce_context_window m \<ge> SUMMARIZER_INPUT_BUDGET * 2)
           (filter (usable reg ov org) MODEL_CATALOG)))"

end
