(* ===== verification/Provider_Credentials.thy ===== *)
theory Provider_Credentials
  imports Model_Catalog "HOL-Library.AList"
begin

text \<open>
  The keys an org brings for itself (\<open>provider/credentials.rs\<close>, \<open>provider/pg_credentials.rs\<close>, the
  handlers of \<open>http/routes/provider_credentials.rs\<close>) and the overlay built from them. Keys are
  sealed in the store by \<open>crypto\<close>, whose round trip is assumed; the model keeps them in the clear.
\<close>

definition MAX_PROVIDER_API_KEY_BYTES :: nat where "MAX_PROVIDER_API_KEY_BYTES = 1024"
definition MAX_PROVIDER_BASE_URL_BYTES :: nat where "MAX_PROVIDER_BASE_URL_BYTES = 512"

definition provider_api_key_try_from :: "string \<Rightarrow> (string, parse_error) result" where
  "provider_api_key_try_from raw =
     (if length raw > MAX_PROVIDER_API_KEY_BYTES
        then Inl (TooLong ''provider_api_key'' MAX_PROVIDER_API_KEY_BYTES (length raw))
      else if raw = [] then Inl (Empty ''provider_api_key'')
      else Inr raw)"

definition bullet :: string where "bullet = bytes [226, 128, 162]"

text \<open>\<open>None\<close> is the panic of a slice off a character boundary.\<close>

definition masked :: "string \<Rightarrow> string option" where
  "masked raw = (let keep = min (length raw) 4 in
     if length raw \<le> keep then Some (concat (replicate (length raw) bullet))
     else if is_char_boundary raw (length raw - keep)
       then Some (concat (replicate 8 bullet) @ drop (length raw - keep) raw)
     else None)"

definition strip_prefix :: "string \<Rightarrow> string \<Rightarrow> string option" where
  "strip_prefix p s = (if is_prefix p s then Some (drop (length p) s) else None)"

definition provider_base_url_try_from :: "string \<Rightarrow> (string, parse_error) result" where
  "provider_base_url_try_from raw =
     (if raw = [] then Inl (Empty ''provider_base_url'')
      else if length raw > MAX_PROVIDER_BASE_URL_BYTES
        then Inl (TooLong ''provider_base_url'' MAX_PROVIDER_BASE_URL_BYTES (length raw))
      else
        (case (case strip_prefix ''https://'' raw of Some r \<Rightarrow> Some r
               | None \<Rightarrow> strip_prefix ''http://'' raw) of
           None \<Rightarrow> Inl (Malformed ''provider_base_url'' ''must start with http:// or https://'')
         | Some rest \<Rightarrow>
             if rest = [] \<or> is_prefix ''/'' rest
             then Inl (Malformed ''provider_base_url'' ''missing host'') else Inr raw))"

record credential =
  cd_api_key :: string
  cd_base_url :: "string option"
  cd_validated :: "timestamp option"

text \<open>\<open>cs_defaults\<close> is the \<open>default_model\<close> column of \<open>organizations\<close>, by name.\<close>

record credential_store =
  cs_creds :: "((uuid \<times> provider_id) \<times> credential) list"
  cs_defaults :: "(uuid \<times> string) list"

definition upsert_credential ::
  "credential_store \<Rightarrow> uuid \<Rightarrow> provider_id \<Rightarrow> string \<Rightarrow> string option \<Rightarrow> credential_store" where
  "upsert_credential cs org p key url =
     cs\<lparr>cs_creds := AList.update (org, p)
         \<lparr>cd_api_key = key, cd_base_url = url, cd_validated = None\<rparr> (cs_creds cs)\<rparr>"

definition delete_credential :: "credential_store \<Rightarrow> uuid \<Rightarrow> provider_id \<Rightarrow> credential_store" where
  "delete_credential cs org p = cs\<lparr>cs_creds := AList.delete (org, p) (cs_creds cs)\<rparr>"

definition set_default_model :: "credential_store \<Rightarrow> uuid \<Rightarrow> model \<Rightarrow> credential_store" where
  "set_default_model cs org m = cs\<lparr>cs_defaults := AList.update org (ce_name m) (cs_defaults cs)\<rparr>"

definition list_for_org :: "credential_store \<Rightarrow> uuid \<Rightarrow> (provider_id \<times> credential) list" where
  "list_for_org cs org = List.map_filter (\<lambda>((o', p), c). if o' = org then Some (p, c) else None) (cs_creds cs)"

definition list_default_models :: "credential_store \<Rightarrow> (uuid \<times> model) list" where
  "list_default_models cs = List.map_filter (\<lambda>(org, name).
     case model_try_from name of Inr m \<Rightarrow> Some (org, m) | Inl _ \<Rightarrow> None) (cs_defaults cs)"

definition list_all_credentials :: "credential_store \<Rightarrow> (uuid \<times> provider_id \<times> credential) list" where
  "list_all_credentials cs = map (\<lambda>((org, p), c). (org, p, c)) (cs_creds cs)"

text \<open>\<open>PUT\<close>, after the admin check; an unknown model is a bad request.\<close>

datatype put_error = PutParse parse_error | PutBadModel string

definition put_credential ::
  "credential_store \<Rightarrow> uuid \<Rightarrow> string \<Rightarrow> string \<Rightarrow> string option \<Rightarrow> string option
   \<Rightarrow> (unit, put_error) result \<times> credential_store" where
  "put_credential cs org provider_raw key url default_name =
     (case provider_id_try_from provider_raw of Inl e \<Rightarrow> (Inl (PutParse e), cs) | Inr p \<Rightarrow>
      (case provider_api_key_try_from key of Inl e \<Rightarrow> (Inl (PutParse e), cs) | Inr k \<Rightarrow>
       (case (case url of None \<Rightarrow> Inr None
              | Some u \<Rightarrow> (case provider_base_url_try_from u of Inl e \<Rightarrow> Inl e | Inr v \<Rightarrow> Inr (Some v))) of
          Inl e \<Rightarrow> (Inl (PutParse e), cs)
        | Inr u \<Rightarrow>
            (case default_name of
               None \<Rightarrow> (Inr (), upsert_credential cs org p k u)
             | Some raw \<Rightarrow>
                 (case model_try_from raw of
                    Inl e \<Rightarrow> (Inl (PutBadModel e), cs)
                  | Inr m \<Rightarrow>
                      (let cs1 = if list_for_org cs org = [] then set_default_model cs org m else cs
                       in (Inr (), upsert_credential cs1 org p k u)))))))"

text \<open>The overlay of a store: \<open>build\<close> makes a client for a provider from a key and base URL.\<close>

definition refreshed_overlay ::
  "(provider_id \<Rightarrow> string \<Rightarrow> string option \<Rightarrow> 'p option) \<Rightarrow> credential_store \<Rightarrow> 'p overlay" where
  "refreshed_overlay build cs =
     map_of (fst (overlay_refresh (\<lambda>(p, c). build p (cd_api_key c) (cd_base_url c)) MAX_ORGS_OVERLAY
       (list_default_models cs)
       (map (\<lambda>(org, p, c). (org, p, (p, c))) (list_all_credentials cs))))"

end
