(* ===== verification/Provider_Properties.thy ===== *)
theory Provider_Properties
  imports Provider_Credentials
begin

text \<open>
  The properties of the catalog, the prices and the routing: every catalog model parses back and
  has a real price, the summarizer chain is the cheapest usable one, and when a resolved model
  has a client at all.
\<close>

section \<open>The catalog and its prices\<close>

definition dominates :: "price \<Rightarrow> price \<Rightarrow> bool" where
  "dominates p q \<longleftrightarrow> pr_input q \<le> pr_input p \<and> pr_output q \<le> pr_output p
     \<and> pr_cache_write q \<le> pr_cache_write p \<and> pr_cache_read q \<le> pr_cache_read p"

definition rates_nonneg :: "price \<Rightarrow> bool" where
  "rates_nonneg p \<longleftrightarrow> 0 \<le> pr_input p \<and> 0 \<le> pr_output p \<and> 0 \<le> pr_cache_write p \<and> 0 \<le> pr_cache_read p"

lemma price_for_name_bounds: "rates_nonneg (price_for_name n) \<and> dominates FALLBACK_PRICE (price_for_name n)"
  by (simp add: price_for_name_def rates_nonneg_def dominates_def FALLBACK_PRICE_def price_new_def)

lemma lane_cost_mono:
  assumes "0 \<le> r" "r \<le> r'" "n \<le> N"
  shows "0 \<le> lane_cost n r \<and> lane_cost n r \<le> lane_cost N r'"
proof -
  have "int n * r \<le> int N * r'" using assms by (intro mult_mono) simp_all
  with assms(1) show ?thesis
    by (simp add: lane_cost_def zdiv_mono1 pos_imp_zdiv_nonneg_iff)
qed

lemma lane_cost_nonneg: "0 \<le> r \<Longrightarrow> 0 \<le> lane_cost n r"
  using lane_cost_mono [of r r n n] by simp

definition usage_u32 :: "usage \<Rightarrow> bool" where
  "usage_u32 u \<longleftrightarrow> input_tokens u \<le> u32_max \<and> output_tokens u \<le> u32_max
     \<and> unwrap_or_zero (cache_creation_input_tokens u) \<le> u32_max
     \<and> unwrap_or_zero (cache_read_input_tokens u) \<le> u32_max"

lemma fallback_lane_sum:
  "lane_cost u32_max (pr_input FALLBACK_PRICE) + lane_cost u32_max (pr_output FALLBACK_PRICE)
    + lane_cost u32_max (pr_cache_write FALLBACK_PRICE) + lane_cost u32_max (pr_cache_read FALLBACK_PRICE) \<le> i64_max"
  by (simp add: lane_cost_def u32_max_def i64_max_def FALLBACK_PRICE_def price_new_def)

text \<open>
  Every model of the catalog parses back from its name and is priced by an entry of the
  table, never by the fallback; the fallback is at least every price in every lane; and the cost
  of a turn whose token counts fit the provider's \<open>u32\<close> fields is computed without a panic, is
  not negative, and is at most what the fallback would charge for the same usage.
\<close>

theorem prices_are_total_and_bounded:
  "(\<forall>e \<in> set MODEL_CATALOG. model_try_from (ce_name e) = Inr e \<and> price_for e \<noteq> FALLBACK_PRICE)
   \<and> (usage_u32 u \<longrightarrow> (\<exists>c. turn_cost (price_for m) u = Some c \<and> 0 \<le> c \<and> c \<le> cost_total FALLBACK_PRICE u))"
proof
  show "\<forall>e \<in> set MODEL_CATALOG. model_try_from (ce_name e) = Inr e \<and> price_for e \<noteq> FALLBACK_PRICE"
    unfolding MODEL_CATALOG_def model_try_from_def
    by (simp add: entry_def price_for_def price_for_name_def FALLBACK_PRICE_def price_new_def)
  show "usage_u32 u \<longrightarrow> (\<exists>c. turn_cost (price_for m) u = Some c \<and> 0 \<le> c \<and> c \<le> cost_total FALLBACK_PRICE u)"
  proof
    assume u: "usage_u32 u"
    let ?p = "price_for m"
    note b = price_for_name_bounds [of "ce_name m", folded price_for_def,
        unfolded rates_nonneg_def dominates_def]
    have lo: "0 \<le> cost_total ?p u"
      unfolding cost_total_def using b by (intro add_nonneg_nonneg) (simp_all add: lane_cost_nonneg)
    have fb: "cost_total ?p u \<le> cost_total FALLBACK_PRICE u"
      unfolding cost_total_def using b by (intro add_mono) (simp_all add: lane_cost_mono)
    have "cost_total FALLBACK_PRICE u \<le> i64_max"
    proof -
      have "cost_total FALLBACK_PRICE u \<le>
        lane_cost u32_max (pr_input FALLBACK_PRICE) + lane_cost u32_max (pr_output FALLBACK_PRICE)
        + lane_cost u32_max (pr_cache_write FALLBACK_PRICE) + lane_cost u32_max (pr_cache_read FALLBACK_PRICE)"
        unfolding cost_total_def using u
        by (intro add_mono) (simp_all add: usage_u32_def lane_cost_mono FALLBACK_PRICE_def price_new_def)
      with fallback_lane_sum show ?thesis by linarith
    qed
    with lo fb show "\<exists>c. turn_cost ?p u = Some c \<and> 0 \<le> c \<and> c \<le> cost_total FALLBACK_PRICE u"
      by (simp add: turn_cost_def Let_def)
  qed
qed

definition sample_usage :: usage where
  "sample_usage = \<lparr>input_tokens = 1000, output_tokens = 200, cache_creation_input_tokens = None,
     cache_read_input_tokens = Some 50\<rparr>"

theorem prices_are_total_and_bounded_witness:
  "\<exists>c. turn_cost (price_for (hd MODEL_CATALOG)) sample_usage = Some c \<and> 0 \<le> c"
proof -
  have "usage_u32 sample_usage"
    by (simp add: usage_u32_def sample_usage_def u32_max_def unwrap_or_zero_def)
  with prices_are_total_and_bounded [of sample_usage "hd MODEL_CATALOG"] show ?thesis by blast
qed

section \<open>The summarizer chain\<close>

definition candidates :: "'p registry \<Rightarrow> 'p overlay \<Rightarrow> uuid \<Rightarrow> model set" where
  "candidates reg ov org = {m \<in> set MODEL_CATALOG. usable reg ov org m \<and> SUMMARIZER_INPUT_BUDGET * 2 \<le> ce_context_window m}"

lemma usable_iff: "usable reg ov org m \<longleftrightarrow> provider_for reg ov org m \<noteq> None"
  by (auto simp: usable_def provider_for_def overlay_has_key_def overlay_get_def split: option.splits)

lemma pick_chain_Some:
  assumes "\<forall>m \<in> set ms. pf m \<noteq> None"
  shows "pick_chain pf (Some (m0, p0)) ms =
    (case find (\<lambda>m. ce_provider m \<noteq> ce_provider m0) ms of
       None \<Rightarrow> [(m0, p0)] | Some m \<Rightarrow> [(m0, p0), (m, the (pf m))])"
  using assms by (induction ms) auto

lemma pick_chain_None:
  assumes "\<forall>m \<in> set ms. pf m \<noteq> None"
  shows "pick_chain pf None ms = (case ms of [] \<Rightarrow> [] | m0 # ms' \<Rightarrow>
    (case find (\<lambda>m. ce_provider m \<noteq> ce_provider m0) ms' of
       None \<Rightarrow> [(m0, the (pf m0))] | Some m \<Rightarrow> [(m0, the (pf m0)), (m, the (pf m))]))"
  using assms by (cases ms) (auto simp: pick_chain_Some split: option.split)

lemma find_sorted_least:
  "sorted (map f xs) \<Longrightarrow> find P xs = Some x \<Longrightarrow> y \<in> set xs \<Longrightarrow> P y \<Longrightarrow> f x \<le> f y"
  by (induction xs) (auto split: if_splits)

text \<open>
  The summarizer chain has at most two entries, each a catalog model of a wide enough window
  with a client the org can use (its own key before the platform's); it is empty exactly when
  there is none. Its first entry is a cheapest one by input then output price; its second, if
  any, is a cheapest one among those of another provider, and there is none only when every
  candidate is of the first one's provider.
\<close>

theorem summarizer_chain_is_cheapest:
  "(\<forall>(m, p) \<in> set (summarizer_chain reg ov org). m \<in> candidates reg ov org \<and> provider_for reg ov org m = Some p)
   \<and> (case summarizer_chain reg ov org of
        [] \<Rightarrow> candidates reg ov org = {}
      | [(m, p)] \<Rightarrow> (\<forall>c \<in> candidates reg ov org. price_key m \<le> price_key c \<and> ce_provider c = ce_provider m)
      | [(m, p), (m2, p2)] \<Rightarrow> (\<forall>c \<in> candidates reg ov org. price_key m \<le> price_key c) \<and> ce_provider m2 \<noteq> ce_provider m
          \<and> (\<forall>c \<in> candidates reg ov org. ce_provider c \<noteq> ce_provider m \<longrightarrow> price_key m2 \<le> price_key c)
      | _ \<Rightarrow> False)"
proof -
  define ms where "ms = sort_key price_key
     (filter (\<lambda>m. ce_context_window m \<ge> SUMMARIZER_INPUT_BUDGET * 2) (filter (usable reg ov org) MODEL_CATALOG))"
  have set: "set ms = candidates reg ov org" by (auto simp: ms_def candidates_def)
  have sorted: "sorted (map price_key ms)" by (simp add: ms_def)
  have clients: "\<forall>m \<in> set ms. provider_for reg ov org m \<noteq> None"
    unfolding set by (simp add: candidates_def usable_iff)
  have chain: "summarizer_chain reg ov org = pick_chain (provider_for reg ov org) None ms"
    by (simp add: summarizer_chain_def ms_def)
  show ?thesis
  proof (cases ms)
    case Nil
    with chain set show ?thesis by simp
  next
    case (Cons m0 ms')
    have least: "\<forall>c \<in> candidates reg ov org. price_key m0 \<le> price_key c"
      using sorted Cons unfolding set [symmetric] by auto
    have client: "m \<in> candidates reg ov org \<and> provider_for reg ov org m = Some (the (provider_for reg ov org m))"
      if "m \<in> set ms" for m using that clients set by auto
    show ?thesis
    proof (cases "find (\<lambda>m. ce_provider m \<noteq> ce_provider m0) ms'")
      case None
      then have one: "\<forall>c \<in> candidates reg ov org. ce_provider c = ce_provider m0"
        using Cons unfolding set [symmetric] by (auto simp: find_None_mem)
      have eq: "summarizer_chain reg ov org = [(m0, the (provider_for reg ov org m0))]"
        unfolding chain pick_chain_None [OF clients] by (simp add: Cons None)
      have "\<forall>(m, p) \<in> set [(m0, the (provider_for reg ov org m0))].
          m \<in> candidates reg ov org \<and> provider_for reg ov org m = Some p"
        using client [of m0] Cons by simp
      then show ?thesis unfolding eq list.case prod.case using one least by blast
    next
      case (Some m2)
      have m2: "m2 \<in> set ms'" "ce_provider m2 \<noteq> ce_provider m0" using find_Some_mem [OF Some] by auto
      have sorted': "sorted (map price_key ms')" using sorted Cons by simp
      have "price_key m2 \<le> price_key c" if "c \<in> candidates reg ov org" "ce_provider c \<noteq> ce_provider m0" for c
      proof -
        have "c \<in> set ms'" using that Cons unfolding set [symmetric] by auto
        then show ?thesis by (rule find_sorted_least [OF sorted' Some _ that(2)])
      qed
      moreover have eq: "summarizer_chain reg ov org =
          [(m0, the (provider_for reg ov org m0)), (m2, the (provider_for reg ov org m2))]"
        unfolding chain pick_chain_None [OF clients] by (simp add: Cons Some)
      moreover have "\<forall>(m, p) \<in> set [(m0, the (provider_for reg ov org m0)), (m2, the (provider_for reg ov org m2))].
          m \<in> candidates reg ov org \<and> provider_for reg ov org m = Some p"
        using client [of m0] client [of m2] m2(1) Cons by simp
      ultimately show ?thesis unfolding eq list.case prod.case using m2(2) least by blast
    qed
  qed
qed

theorem summarizer_chain_is_cheapest_witness:
  "set (summarizer_chain [Openai \<mapsto> (0::nat), Deepseek \<mapsto> 1] Map.empty 1)
     \<subseteq> {(m, p). provider_for [Openai \<mapsto> 0, Deepseek \<mapsto> 1] Map.empty 1 m = Some p}"
  using summarizer_chain_is_cheapest [of "[Openai \<mapsto> (0::nat), Deepseek \<mapsto> 1]" Map.empty 1] by fast

section \<open>Routing\<close>

text \<open>
  The model the resolver picks is the pinned one when a client serves it, else the org's
  default, else the workspace's; and the route of the turn panics exactly when neither the pin
  nor that default has a client. The resolver does not check the default.
\<close>

theorem route_panics_iff_default_unusable:
  "route reg ov org (resolve_model ws reg ov org pinned) = None \<longleftrightarrow>
     (\<forall>m. pinned = Some m \<longrightarrow> \<not> usable reg ov org m)
     \<and> \<not> usable reg ov org (case overlay_default_model ov org of None \<Rightarrow> ws | Some d \<Rightarrow> d)"
proof -
  have route: "route reg ov org m = None \<longleftrightarrow> \<not> usable reg ov org m" for m
    by (auto simp: route_def usable_def overlay_has_key_def overlay_get_def split: option.splits)
  show ?thesis by (auto simp: route resolve_model_def Let_def split: option.splits)
qed

text \<open>
  An admin stores a first key for OpenAI with a default model, and later deletes the key: the
  default stays, and on a platform with only Anthropic configured the agent's next turn panics.
\<close>

definition sample_store :: credential_store where
  "sample_store = snd (put_credential \<lparr>cs_creds = [], cs_defaults = []\<rparr> 1 ''openai'' ''sk-1'' None (Some ''gpt-5.5''))"

theorem route_panics_iff_default_unusable_witness:
  "route [Anthropic \<mapsto> (0::nat)] (refreshed_overlay (\<lambda>_ _ _. Some 1) (delete_credential sample_store 1 Openai)) 1
     (resolve_model (hd MODEL_CATALOG) [Anthropic \<mapsto> (0::nat)]
       (refreshed_overlay (\<lambda>_ _ _. Some (1::nat)) (delete_credential sample_store 1 Openai)) 1 None) = None"
proof -
  have store: "delete_credential sample_store 1 Openai = \<lparr>cs_creds = [], cs_defaults = [(1, ''gpt-5.5'')]\<rparr>"
    by (simp add: sample_store_def put_credential_def provider_id_try_from_def provider_api_key_try_from_def
        MAX_PROVIDER_API_KEY_BYTES_def model_try_from_def MODEL_CATALOG_def entry_def list_for_org_def
        List.map_filter_simps set_default_model_def upsert_credential_def delete_credential_def Let_def)
  have "list_default_models \<lparr>cs_creds = [], cs_defaults = [(1, ''gpt-5.5'')]\<rparr> =
      [(1, entry ''gpt-5.5'' Openai 400000 ALL_CAPS)]"
    by (simp add: list_default_models_def model_try_from_def MODEL_CATALOG_def entry_def)
  then have ov: "refreshed_overlay (\<lambda>_ _ _. Some (1::nat)) (delete_credential sample_store 1 Openai)
      = [1 \<mapsto> empty_entry\<lparr>oe_default_model := Some (entry ''gpt-5.5'' Openai 400000 ALL_CAPS)\<rparr>]"
    unfolding store by (simp add: refreshed_overlay_def overlay_refresh_def list_all_credentials_def entry_for_def
        Let_def MAX_ORGS_OVERLAY_def)
  show ?thesis
    unfolding route_panics_iff_default_unusable ov
    by (simp add: overlay_default_model_def usable_def overlay_has_key_def entry_def empty_entry_def)
qed

text \<open>A stored key whose last bytes cut a multi-byte character cannot be listed.\<close>

lemma masked_key_panics: "provider_api_key_try_from (''sk-a'' @ bytes [195, 169] @ ''bcd'') = Inr (''sk-a'' @ bytes [195, 169] @ ''bcd'')
    \<and> masked (''sk-a'' @ bytes [195, 169] @ ''bcd'') = None"
  by (simp add: provider_api_key_try_from_def MAX_PROVIDER_API_KEY_BYTES_def masked_def Let_def
      is_char_boundary_def bytes_def is_cont_def)

end
