(* ===== verification/Compaction_Properties.thy ===== *)
theory Compaction_Properties
  imports Compaction Thread_Properties
begin

text \<open>
  The properties of context compaction: the cut never separates a tool call from its result, the
  summary keeps its cap and its sections, a fold pass is bounded and folds what it was given, a
  successful compaction serves exactly the rows its watermark does not cover, and the case where
  the watermark covers a row nobody summarised.
\<close>

section \<open>The cut\<close>

lemma cut_le: "tool_safe_cut_index tail k \<le> length tail"
  by (simp add: tool_safe_cut_index_def Let_def)

lemma call_no_result_head: "assistant_calls m i \<Longrightarrow> tool_result_head m = None"
  by (cases m) (simp_all add: assistant_calls_def tool_result_head_def)

text \<open>
  C17. The cut splits the tail in two without losing or reordering a message, keeps at least the
  wanted number of messages (all, when there are fewer) and at most one more, and never puts a
  tool call last in the overflow with its result first in what is kept.
\<close>

theorem cut_never_separates_a_pair:
  assumes "cut_at_tool_safe_boundary tail k = (overflow, keep)"
  shows "overflow @ keep = tail
    \<and> min k (length tail) \<le> length keep \<and> length keep \<le> min k (length tail) + 1
    \<and> (overflow \<noteq> [] \<and> keep \<noteq> [] \<longrightarrow>
        (case tool_result_head (hd keep) of None \<Rightarrow> True | Some i \<Rightarrow> \<not> assistant_calls (last overflow) i))"
proof -
  define c where "c = tool_safe_cut_index tail k"
  have ov: "overflow = take c tail" and kp: "keep = drop c tail"
    using assms by (simp_all add: cut_at_tool_safe_boundary_def c_def Let_def)
  let ?cut = "length tail - k"
  let ?bad = "\<lambda>n. case tool_result_head (tail ! n) of None \<Rightarrow> False | Some i \<Rightarrow> assistant_calls (tail ! (n - 1)) i"
  have c: "c = (if 0 < ?cut \<and> ?cut < length tail \<and> ?bad ?cut then ?cut - 1 else ?cut)"
    by (simp add: c_def tool_safe_cut_index_def Let_def)
  have safe: "\<not> ?bad c" if "0 < c" "c < length tail"
  proof (cases "0 < ?cut \<and> ?cut < length tail \<and> ?bad ?cut")
    case True
    then obtain i where "assistant_calls (tail ! (?cut - 1)) i" by (auto split: option.splits)
    then have "tool_result_head (tail ! c) = None" using True c by (simp add: call_no_result_head)
    then show ?thesis by simp
  next
    case False
    then have eq: "c = ?cut" using c by (simp only: if_False)
    show ?thesis using False that unfolding eq by blast
  qed
  have "overflow \<noteq> [] \<and> keep \<noteq> [] \<longrightarrow>
      (case tool_result_head (hd keep) of None \<Rightarrow> True | Some i \<Rightarrow> \<not> assistant_calls (last overflow) i)"
  proof
    assume "overflow \<noteq> [] \<and> keep \<noteq> []"
    then have n: "0 < c" "c < length tail" by (auto simp: ov kp)
    have "hd keep = tail ! c" using n by (simp add: kp hd_drop_conv_nth)
    moreover have "last overflow = tail ! (c - 1)"
      using n by (subst last_conv_nth) (auto simp: ov min_absorb2)
    ultimately show "case tool_result_head (hd keep) of None \<Rightarrow> True | Some i \<Rightarrow> \<not> assistant_calls (last overflow) i"
      using safe [OF n] by (auto split: option.splits)
  qed
  moreover have "length keep = length tail - c" by (simp add: kp)
  ultimately show ?thesis using c by (auto simp: ov kp)
qed

theorem cut_never_separates_a_pair_witness:
  "cut_at_tool_safe_boundary [User [], sample_call ''a'', sample_result ''a''] 1
     = ([User []], [sample_call ''a'', sample_result ''a''])
   \<and> length [sample_call ''a'', sample_result ''a''] \<le> min 1 3 + 1"
proof
  show eq: "cut_at_tool_safe_boundary [User [], sample_call ''a'', sample_result ''a''] 1
     = ([User []], [sample_call ''a'', sample_result ''a''])" by code_simp
  show "length [sample_call ''a'', sample_result ''a''] \<le> min 1 3 + 1"
    using cut_never_separates_a_pair [OF eq] by simp
qed

section \<open>The summary\<close>

fun in_order :: "string \<Rightarrow> string list \<Rightarrow> bool" where
  "in_order s [] = True"
| "in_order s (h # hs) = (\<exists>a b. s = a @ h @ b \<and> in_order b hs)"

lemma in_order_prefix: "in_order s hs \<Longrightarrow> in_order (p @ s) hs"
proof (cases hs)
  case (Cons h hs')
  assume "in_order s hs"
  then obtain a b where "s = a @ h @ b" "in_order b hs'" using Cons by auto
  then have "p @ s = (p @ a) @ h @ b" by simp
  with \<open>in_order b hs'\<close> Cons show ?thesis by (auto intro: exI [of _ "p @ a"] exI [of _ b])
qed simp

lemma find_str_first: "find_str p (a @ p @ b) = Some i \<Longrightarrow> i \<le> length a"
proof (induction a arbitrary: i)
  case Nil
  have "is_prefix p (p @ b)" by (auto simp: is_prefix_iff)
  with Nil show ?case by (cases "p @ b") (auto split: if_splits)
next
  case (Cons x a)
  then show ?case by (auto split: if_splits)
qed

lemma find_str_exists: "find_str p (a @ p @ b) \<noteq> None"
proof (induction a)
  case Nil
  have "is_prefix p (p @ b)" by (auto simp: is_prefix_iff)
  then show ?case by (cases "p @ b") (auto split: if_splits)
qed simp

lemma section_starts_iff: "section_starts text from hs \<noteq> None \<longleftrightarrow> in_order (drop from text) hs"
proof (induction hs arbitrary: "from")
  case (Cons h hs)
  show ?case
  proof (cases "find_str h (drop from text)")
    case None
    have "\<not> in_order (drop from text) (h # hs)"
      using None find_str_exists [of h] by (auto simp del: not_None_eq)
    with None show ?thesis by simp
  next
    case (Some i)
    define rest where "rest = drop (from + i + length h) text"
    have "take (length h) (drop i (drop from text)) = h" using find_str_Some [OF Some] by simp
    then have split: "drop from text = take i (drop from text) @ h @ rest"
      unfolding rest_def by (metis append_take_drop_id drop_drop add.commute add.assoc)
    have "in_order rest hs" if "in_order (drop from text) (h # hs)"
    proof -
      from that obtain a b where ab: "drop from text = a @ h @ b" "in_order b hs" by auto
      have i: "i \<le> length a" using find_str_first [of h a b i] Some ab(1) by simp
      have "rest = drop (i + length h) (a @ h @ b)" unfolding rest_def ab(1) [symmetric]
        by (simp add: ac_simps)
      also have "\<dots> = drop (i + length h) (a @ h) @ b" using i by simp
      finally show ?thesis by (simp only: in_order_prefix [OF ab(2)])
    qed
    moreover have "in_order (drop from text) (h # hs)" if "in_order rest hs"
      using split that by auto
    ultimately show ?thesis using Some Cons.IH [of "from + i + length h"]
      by (auto simp: rest_def simp del: in_order.simps(2))
  qed
qed simp

lemma in_order_join: "in_order (join_str sep (map (\<lambda>(h, b). h @ f b) (zip hs bs))) hs" if "length bs = length hs"
  using that
proof (induction hs arbitrary: bs)
  case (Cons h hs)
  then obtain b bs' where bs: "bs = b # bs'" "length bs' = length hs" by (cases bs) auto
  show ?case
  proof (cases "zip hs bs'")
    case Nil
    with bs have "hs = []" by (cases hs; cases bs') auto
    with bs show ?thesis by (auto intro: exI [of _ "[]"])
  next
    case (Cons hb hbs)
    then have "join_str sep (map (\<lambda>(h, b). h @ f b) (zip (h # hs) bs)) =
        [] @ h @ ((f b @ sep) @ join_str sep (map (\<lambda>(h, b). h @ f b) (zip hs bs')))"
      using bs by simp
    with Cons.IH bs in_order_prefix show ?thesis
      by (smt (verit) in_order.simps(2))
  qed
qed simp

lemma chars_count_join:
  "chars_count (join_str sep ss) = sum_list (map chars_count ss) + (length ss - 1) * chars_count sep"
proof (induction sep ss rule: join_str.induct)
  case (3 sep s s' ss)
  then show ?case by (simp add: algebra_simps)
qed simp_all

lemma share_sum:
  fixes ls :: "nat list"
  shows "sum_list (map (\<lambda>l. min (b * l div t) l) ls) * t \<le> b * sum_list ls"
proof (induction ls)
  case (Cons l ls)
  have "min (b * l div t) l * t \<le> b * l"
    by (meson div_times_less_eq_dividend le_trans min.cobounded1 mult_le_mono1)
  with Cons show ?case by (simp add: algebra_simps)
qed simp

lemma header_chars: "map chars_count SUMMARY_SECTIONS = [6, 10, 12, 11, 9]"
  by (simp add: SUMMARY_SECTIONS_def is_cont_def)

lemma clamp_within_sections_bound:
  assumes "clamp_within_sections text cap = Some s"
  shows "chars_count s \<le> cap" "in_order s SUMMARY_SECTIONS"
proof -
  obtain starts where starts: "section_starts text 0 SUMMARY_SECTIONS = Some starts"
    using assms by (auto simp: clamp_within_sections_def split: option.splits)
  define bodies where "bodies = section_bodies text starts"
  define total where "total = sum_list (map chars_count bodies)"
  define budget where "budget = cap - 52"
  have len: "length bodies = 5" by (simp add: bodies_def section_bodies_def)
  have secs: "length SUMMARY_SECTIONS = 5" by (simp add: SUMMARY_SECTIONS_def)
  have pos: "total \<noteq> 0" "budget \<noteq> 0"
    and s: "s = join_str newline (map (\<lambda>(h, b). h @ take_chars (budget * chars_count b div total) b)
      (zip SUMMARY_SECTIONS bodies))"
    using assms starts
    by (auto simp: clamp_within_sections_def Let_def bodies_def total_def budget_def header_chars secs
        split: if_splits)
  show "in_order s SUMMARY_SECTIONS" unfolding s by (rule in_order_join) (simp add: len secs)
  have "chars_count s = sum_list (map (\<lambda>(h, b). chars_count h + min (budget * chars_count b div total) (chars_count b))
      (zip SUMMARY_SECTIONS bodies)) + 4"
    unfolding s chars_count_join by (simp add: o_def case_prod_unfold len secs newline_def is_cont_def)
  also have "\<dots> = sum_list (map chars_count SUMMARY_SECTIONS)
      + sum_list (map (\<lambda>b. min (budget * chars_count b div total) (chars_count b)) bodies) + 4"
    by (simp add: sum_list_addf case_prod_unfold map_fst_zip map_snd_zip len secs
        flip: map_map [unfolded o_def, where f = chars_count and g = fst]
          map_map [unfolded o_def, where f = "\<lambda>b. min (budget * chars_count b div total) (chars_count b)" and g = snd])
  also have "\<dots> \<le> 48 + budget + 4"
  proof -
    have "sum_list (map (\<lambda>l. min (budget * l div total) l) (map chars_count bodies)) * total \<le> budget * total"
      unfolding total_def by (rule share_sum)
    then have "sum_list (map (\<lambda>b. min (budget * chars_count b div total) (chars_count b)) bodies) \<le> budget"
      using pos by (simp add: o_def)
    then show ?thesis by (simp add: header_chars)
  qed
  finally show "chars_count s \<le> cap" using pos by (simp add: budget_def)
qed

text \<open>
  A clamped summary has at most 16,000 characters, clamping again changes nothing, a summary
  within the cap is kept as it is, and one in the five-section shape with some content still has
  its five headers in order after the clamp.
\<close>

theorem clamp_keeps_cap_and_sections:
  "chars_count (clamp t) \<le> summary_cap_chars \<and> clamp (clamp t) = clamp t
    \<and> (chars_count t \<le> summary_cap_chars \<longrightarrow> clamp t = t)
    \<and> (\<forall>starts. section_starts t 0 SUMMARY_SECTIONS = Some starts
         \<and> sum_list (map chars_count (section_bodies t starts)) \<noteq> 0 \<longrightarrow>
         section_starts (clamp t) 0 SUMMARY_SECTIONS \<noteq> None)"
proof -
  have bound: "chars_count (clamp t) \<le> summary_cap_chars"
    by (auto simp: clamp_def dest: clamp_within_sections_bound split: option.splits)
  moreover from bound have "clamp (clamp t) = clamp t" by (simp add: clamp_def [of "clamp t"])
  moreover have "section_starts (clamp t) 0 SUMMARY_SECTIONS \<noteq> None"
    if starts: "section_starts t 0 SUMMARY_SECTIONS = Some starts"
      "sum_list (map chars_count (section_bodies t starts)) \<noteq> 0" for starts
  proof (cases "chars_count t \<le> summary_cap_chars")
    case True
    with starts show ?thesis by (simp add: clamp_def)
  next
    case False
    have "length SUMMARY_SECTIONS = 5" by (simp add: SUMMARY_SECTIONS_def)
    with starts obtain s where s: "clamp_within_sections t summary_cap_chars = Some s"
      by (simp add: clamp_within_sections_def Let_def header_chars summary_cap_chars_def
          MAX_SUMMARY_TOKENS_def CHARS_PER_TOKEN_def)
    then have "in_order s SUMMARY_SECTIONS" by (rule clamp_within_sections_bound)
    with s False show ?thesis unfolding section_starts_iff by (simp add: clamp_def)
  qed
  ultimately show ?thesis by (auto simp: clamp_def)
qed

theorem clamp_keeps_cap_and_sections_witness:
  "section_starts (clamp (''Facts:Decisions:Constraints:Open items:Progress:x'')) 0 SUMMARY_SECTIONS \<noteq> None"
proof -
  let ?t = "''Facts:Decisions:Constraints:Open items:Progress:x''"
  have "section_starts ?t 0 SUMMARY_SECTIONS = Some [0, 6, 16, 28, 39]
    \<and> sum_list (map chars_count (section_bodies ?t [0, 6, 16, 28, 39])) \<noteq> 0" by code_simp
  with clamp_keeps_cap_and_sections [of ?t] show ?thesis by blast
qed

section \<open>A fold pass\<close>

lemma split_concat: "concat (split_loop js b cur acc ms) = cur @ ms"
  by (induction js b cur acc ms rule: split_loop.induct) auto

lemma split_bounds:
  assumes "b < u32_max"
  shows "acc = min u32_max (sum_list (map (message_tokens js) cur)) \<Longrightarrow>
    length cur \<le> 1 \<or> sum_list (map (message_tokens js) cur) \<le> b \<Longrightarrow>
    \<forall>c \<in> set (split_loop js b cur acc ms). c \<noteq> [] \<and> (length c \<le> 1 \<or> sum_list (map (message_tokens js) c) \<le> b)"
proof (induction ms arbitrary: cur acc)
  case (Cons m ms)
  let ?t = "message_tokens js m" and ?sum = "\<lambda>c. sum_list (map (message_tokens js) c)"
  show ?case
  proof (cases "saturating_add_u32 acc ?t > b \<and> cur \<noteq> []")
    case True
    have "\<forall>c \<in> set (split_loop js b [m] (saturating_add_u32 0 ?t) ms). c \<noteq> [] \<and> (length c \<le> 1 \<or> ?sum c \<le> b)"
      by (rule Cons.IH) (simp_all add: saturating_add_u32_def)
    with True Cons.prems show ?thesis by simp
  next
    case False
    have sat: "saturating_add_u32 acc ?t = min u32_max (?sum (cur @ [m]))"
      using Cons.prems(1) by (simp add: saturating_add_u32_def min_def)
    have "cur = [] \<or> ?sum (cur @ [m]) \<le> b"
      using False assms unfolding sat by (auto simp: min_def split: if_splits)
    then have "length (cur @ [m]) \<le> 1 \<or> ?sum (cur @ [m]) \<le> b" by auto
    from Cons.IH [OF sat this] False show ?thesis by simp
  qed
qed auto

lemma fold_loop_result:
  "fold_loop late reply st i acc chunks = (r, samples) \<Longrightarrow> length samples \<le> length chunks
    \<and> (\<forall>out. r = Inr out \<longrightarrow> length samples = length chunks
         \<and> (if samples = [] then out = acc else extract_text (last samples) = Some out))"
proof (induction late reply st i acc chunks arbitrary: r samples rule: fold_loop.induct)
  case (2 late reply st i acc chunk chunks)
  show ?case
  proof (cases "late i")
    case True
    with 2(2) show ?thesis by auto
  next
    case running: False
    show ?thesis
    proof (cases "reply i (fs_fold_request st acc chunk)")
      case (Reply response)
      show ?thesis
      proof (cases "extract_text response")
        case None
        with 2(2) running Reply show ?thesis by auto
      next
        case (Some acc')
        obtain r' ss where rec: "fold_loop late reply st (i + 1) acc' chunks = (r', ss)" by (meson surj_pair)
        from 2(1) [OF running Reply Some rec] 2(2) running Reply Some rec show ?thesis
          by (auto split: if_splits)
      qed
    qed (use 2(2) running in auto)
  qed
qed auto

text \<open>
  A fold pass calls the model at most eight times. Its chunks, put together, are the messages
  it was given; none is empty, and one of several messages is within the input budget; what it
  folds is the newest chunks up to eight. When it succeeds it folded each of those, and its
  result is the text of the last answer (the seed, when there was nothing to fold).
\<close>

theorem fold_pass_is_bounded:
  assumes "run_fold_pass js late reply st prev overflow = (r, samples)"
    and "fs_input_budget st < u32_max"
    and "chunks = split_chunks js overflow (fs_input_budget st)"
  shows "length samples \<le> MAX_COMPACTION_CHUNKS \<and> concat chunks = overflow
    \<and> (\<forall>c \<in> set chunks. c \<noteq> [] \<and>
         (length c \<le> 1 \<or> sum_list (map (message_tokens js) c) \<le> fs_input_budget st))
    \<and> (\<exists>dropped. chunks = dropped @ bounded_chunks chunks \<and>
         (length chunks \<le> MAX_COMPACTION_CHUNKS \<longrightarrow> dropped = []))
    \<and> (\<forall>out. r = Inr out \<longrightarrow> length samples = length (bounded_chunks chunks)
         \<and> (if samples = [] then out = fs_seed st prev else extract_text (last samples) = Some out))"
proof -
  have loop: "fold_loop late reply st 0 (fs_seed st prev) (bounded_chunks chunks) = (r, samples)"
    using assms(1,3) by (simp add: run_fold_pass_def)
  have "length (bounded_chunks chunks) \<le> MAX_COMPACTION_CHUNKS" by (simp add: bounded_chunks_def)
  moreover have "\<exists>dropped. chunks = dropped @ bounded_chunks chunks \<and>
      (length chunks \<le> MAX_COMPACTION_CHUNKS \<longrightarrow> dropped = [])"
    by (intro exI [of _ "take (length chunks - MAX_COMPACTION_CHUNKS) chunks"]) (simp add: bounded_chunks_def)
  moreover have "concat chunks = overflow" by (simp add: assms(3) split_chunks_def split_concat)
  moreover have "\<forall>c \<in> set chunks. c \<noteq> [] \<and> (length c \<le> 1 \<or> sum_list (map (message_tokens js) c) \<le> fs_input_budget st)"
    unfolding assms(3) split_chunks_def by (rule split_bounds [OF assms(2)]) simp_all
  ultimately show ?thesis using fold_loop_result [OF loop] by auto
qed

definition fold_usage :: usage where
  "fold_usage = \<lparr>input_tokens = 10, output_tokens = 5, cache_creation_input_tokens = None,
     cache_read_input_tokens = None\<rparr>"

definition sample_response :: chat_response where
  "sample_response = \<lparr>resp_content = [CText ''Facts: a''], resp_stop_reason = EndTurn,
     resp_usage = fold_usage, resp_model = None\<rparr>"

lemma sample_extract: "extract_text sample_response = Some ''Facts: a''"
proof -
  have "trim ''Facts: a'' = ''Facts: a''" by code_simp
  then show ?thesis by (simp add: extract_text_def sample_response_def List.map_filter_simps)
qed

lemma sample_fold_pass:
  "run_fold_pass (\<lambda>_. []) (\<lambda>_. False) (\<lambda>_ _. Reply sample_response)
      (compaction_fold sys m n) None [User [UText ''x'']] = (Inr ''Facts: a'', [sample_response])"
  by (simp add: run_fold_pass_def split_chunks_def bounded_chunks_def sample_extract MAX_COMPACTION_CHUNKS_def)

theorem fold_pass_is_bounded_witness:
  "length [sample_response] \<le> MAX_COMPACTION_CHUNKS
    \<and> concat (split_chunks (\<lambda>_. []) [User [UText ''x'']] SUMMARIZER_INPUT_BUDGET) = [User [UText ''x'']]"
  using fold_pass_is_bounded [OF sample_fold_pass [of "[]" "hd MODEL_CATALOG" 100] _ refl]
  by (simp add: compaction_fold_def SUMMARIZER_INPUT_BUDGET_def u32_max_def)

section \<open>Compacting the overflow\<close>

definition anchored :: "tail_row \<Rightarrow> bool" where
  "anchored r \<longleftrightarrow> tl_seq r \<le> SEED_ANCHOR_MSGS"

lemma fold_covers:
  "fold (\<lambda>(s, m) c. Some (case c of None \<Rightarrow> s | Some d \<Rightarrow> max d s)) xs (Some (c0 :: nat)) =
   Some (Max (insert c0 (fst ` set xs)))"
proof (induction xs arbitrary: c0)
  case (Cons x xs)
  then show ?case by (cases x; cases "xs = []") (simp_all add: max.assoc insert_commute)
qed simp

lemma peel_rows:
  "peel_seed_anchor (map tl_seq rs) (map tl_message rs) =
    (map tl_message (filter anchored rs), map tl_message (filter (\<lambda>r. \<not> anchored r) rs),
     if filter (\<lambda>r. \<not> anchored r) rs = [] then None
     else Some (Max (tl_seq ` set (filter (\<lambda>r. \<not> anchored r) rs))))"
proof -
  have z: "zip (map tl_seq rs) (map tl_message rs) = map (\<lambda>r. (tl_seq r, tl_message r)) rs"
    by (induction rs) simp_all
  have f: "fold (\<lambda>(s, m) c. Some (case c of None \<Rightarrow> s | Some d \<Rightarrow> max d s)) (map (\<lambda>r. (tl_seq r, tl_message r)) qs) None
     = (if qs = [] then None else Some (Max (tl_seq ` set qs)))" for qs
  proof (cases qs)
    case (Cons q qs')
    then show ?thesis by (simp add: fold_covers image_image)
  qed simp
  show ?thesis
    unfolding peel_seed_anchor_def Let_def z filter_map f [symmetric]
    by (simp add: o_def case_prod_unfold anchored_def [abs_def])
qed

lemma served_rows:
  assumes "sorted_wrt (<) (map tl_seq (pre @ suf))" "filter (\<lambda>r. \<not> anchored r) pre \<noteq> []"
    and c: "c = Max (tl_seq ` set (filter (\<lambda>r. \<not> anchored r) pre))"
  shows "filter (\<lambda>r. anchored r \<or> c < tl_seq r) (pre @ suf) = filter anchored pre @ suf"
    "filter (\<lambda>r. \<not> anchored r \<and> tl_seq r \<le> c) (pre @ suf) = filter (\<lambda>r. \<not> anchored r) pre"
proof -
  have le: "tl_seq r \<le> c" if "r \<in> set pre" "\<not> anchored r" for r
    unfolding c using that by (intro Max_ge) auto
  have "c \<in> tl_seq ` set (filter (\<lambda>r. \<not> anchored r) pre)"
    unfolding c using assms(2) by (intro Max_in) (simp_all del: set_filter)
  then obtain q where q: "q \<in> set pre" "tl_seq q = c" by auto
  have gt: "c < tl_seq r" if "r \<in> set suf" for r
    using assms(1) q that by (auto simp: sorted_wrt_append sorted_wrt_map)
  have "filter (\<lambda>r. anchored r \<or> c < tl_seq r) pre = filter anchored pre"
    using le by (intro filter_cong refl) (meson not_le)
  moreover have "filter (\<lambda>r. anchored r \<or> c < tl_seq r) suf = suf" using gt by simp
  ultimately show "filter (\<lambda>r. anchored r \<or> c < tl_seq r) (pre @ suf) = filter anchored pre @ suf" by simp
  have "filter (\<lambda>r. \<not> anchored r \<and> tl_seq r \<le> c) pre = filter (\<lambda>r. \<not> anchored r) pre"
    using le by (intro filter_cong) auto
  moreover have "filter (\<lambda>r. \<not> anchored r \<and> tl_seq r \<le> c) suf = []"
    using gt by (auto simp: filter_empty_conv not_le)
  ultimately show "filter (\<lambda>r. \<not> anchored r \<and> tl_seq r \<le> c) (pre @ suf) = filter (\<lambda>r. \<not> anchored r) pre" by simp
qed

definition covered :: "thread_db \<Rightarrow> uuid \<Rightarrow> uuid \<Rightarrow> string \<times> int" where
  "covered db th ag = (case td_compactions db (th, ag) of None \<Rightarrow> ([], 0) | Some r \<Rightarrow> (cr_summary r, cr_covers r))"

lemma failure_keeps_covered: "covered (handle_compaction_failure db now th ag) th ag = covered db th ag"
  by (simp add: covered_def handle_compaction_failure_def bump_cooldown_def split: option.split)

lemma summarize_folds:
  assumes "summarize env prev rest = (Inr summary, samples)"
  defines "chunks \<equiv> split_chunks (fe_js env) rest SUMMARIZER_INPUT_BUDGET"
  shows "length samples = length (bounded_chunks chunks)"
    and "\<exists>skipped. rest = skipped @ concat (bounded_chunks chunks) \<and> (length chunks \<le> MAX_COMPACTION_CHUNKS \<longrightarrow> skipped = [])"
proof -
  let ?st = "compaction_fold (fold_system (fe_persona env)) (fe_model env) (fe_max_output_tokens env)"
  obtain acc where run: "run_fold_pass (fe_js env) (fe_late env) (fe_reply env) ?st prev rest = (Inr acc, samples)"
    using assms(1) by (auto simp: summarize_def split: prod.splits sum.splits)
  have bud: "fs_input_budget ?st = SUMMARIZER_INPUT_BUDGET" by (simp add: compaction_fold_def)
  have "fold_loop (fe_late env) (fe_reply env) ?st 0 (fs_seed ?st prev) (bounded_chunks chunks) = (Inr acc, samples)"
    using run by (simp add: run_fold_pass_def bud chunks_def)
  from fold_loop_result [OF this] show "length samples = length (bounded_chunks chunks)" by blast
  have "chunks = take (length chunks - MAX_COMPACTION_CHUNKS) chunks @ bounded_chunks chunks" by (simp add: bounded_chunks_def)
  then have "concat chunks = concat (take (length chunks - MAX_COMPACTION_CHUNKS) chunks) @ concat (bounded_chunks chunks)"
    by (metis concat_append)
  moreover have "concat chunks = rest" by (simp add: chunks_def split_chunks_def split_concat)
  ultimately show "\<exists>skipped. rest = skipped @ concat (bounded_chunks chunks) \<and> (length chunks \<le> MAX_COMPACTION_CHUNKS \<longrightarrow> skipped = [])"
    by (intro exI [of _ "concat (take (length chunks - MAX_COMPACTION_CHUNKS) chunks)"]) simp
qed

text \<open>
  C18. On a tail whose ordinals are increasing, compaction always serves the seed anchor and the rows
  after some ordinal \<open>c\<close>, in order; the rest, the rows after the anchor up to \<open>c\<close>, is out of this turn's
  context. Three outcomes: the rest is empty and nothing is stored; or the summarizer failed on it, the
  summary shown is the one before, and the stored summary and watermark stay, so that the next turn reads
  the rest again; or it succeeded, the summary shown and stored is its answer and \<open>c\<close> the stored watermark.
  A success folds the rest one answer per chunk: all of it, or the newest eight chunks where there are more.
\<close>

theorem compaction_serves_what_it_does_not_cover:
  assumes "compact_overflow env db now th ag prev rows = (ctx, db', samples)"
    and "sorted_wrt (<) (map tl_seq rows)"
  shows "\<exists>c rest. rest = map tl_message (filter (\<lambda>r. \<not> anchored r \<and> tl_seq r \<le> c) rows)
    \<and> ac_messages ctx = map tl_message (filter (\<lambda>r. anchored r \<or> c < tl_seq r) rows)
    \<and> (rest = [] \<and> db' = db \<and> samples = [] \<and> ac_summary ctx = map_option clamp prev
     \<or> (\<exists>e. summarize env prev rest = (Inl e, samples) \<and> ac_summary ctx = map_option clamp prev
          \<and> db' = handle_compaction_failure db now th ag \<and> covered db' th ag = covered db th ag)
     \<or> (\<exists>summary skipped. summarize env prev rest = (Inr summary, samples) \<and> ac_summary ctx = Some summary
          \<and> db' = persist_compaction db th ag (Some c) summary \<and> covered db' th ag = (summary, int c)
          \<and> (let chunks = split_chunks (fe_js env) rest SUMMARIZER_INPUT_BUDGET in
               rest = skipped @ concat (bounded_chunks chunks) \<and> length samples = length (bounded_chunks chunks)
               \<and> (length chunks \<le> MAX_COMPACTION_CHUNKS \<longrightarrow> skipped = []))))"
proof -
  define cut where "cut = tool_safe_cut_index (map tl_message rows)
    (keep_count (fe_js env) rows (context_token_budget (fe_model env) div 2))"
  define pre where "pre = take cut rows"
  define suf where "suf = drop cut rows"
  have rows: "rows = pre @ suf" by (simp add: pre_def suf_def)
  have peel: "peel_seed_anchor (take cut (map tl_seq rows)) (take cut (map tl_message rows)) =
    (map tl_message (filter anchored pre), map tl_message (filter (\<lambda>r. \<not> anchored r) pre),
     if filter (\<lambda>r. \<not> anchored r) pre = [] then None
     else Some (Max (tl_seq ` set (filter (\<lambda>r. \<not> anchored r) pre))))"
    unfolding take_map pre_def by (rule peel_rows)
  note run = assms(1) [unfolded compact_overflow_def Let_def, folded cut_def, unfolded peel prod.case]
  have dr: "drop cut (map tl_message rows) = map tl_message suf" by (simp add: suf_def drop_map)
  have none: "filter (\<lambda>r. \<not> anchored r \<and> tl_seq r \<le> 0) rows = []" "filter (\<lambda>r. anchored r \<or> 0 < tl_seq r) rows = rows"
    by (auto simp: filter_empty_conv filter_id_conv anchored_def)
  show ?thesis
  proof (cases "cut = 0 \<or> filter (\<lambda>r. \<not> anchored r) pre = []")
    case True
    have "filter anchored pre = pre" if "filter (\<lambda>r. \<not> anchored r) pre = []"
      using that by (auto simp: filter_empty_conv filter_id_conv)
    with run True dr rows have "ac_messages ctx = map tl_message rows" "db' = db" "samples = []" "ac_summary ctx = map_option clamp prev"
      by (auto split: if_splits)
    then show ?thesis by (intro exI [of _ 0] exI [of _ "[]"]) (simp add: none [unfolded le_zero_eq])
  next
    case False
    then have cut: "cut \<noteq> 0" and ne: "filter (\<lambda>r. \<not> anchored r) pre \<noteq> []" by simp_all
    define c where "c = Max (tl_seq ` set (filter (\<lambda>r. \<not> anchored r) pre))"
    define overflow where "overflow = map tl_message (filter (\<lambda>r. \<not> anchored r) pre)"
    have served: "filter (\<lambda>r. anchored r \<or> c < tl_seq r) rows = filter anchored pre @ suf"
      and folded: "filter (\<lambda>r. \<not> anchored r \<and> tl_seq r \<le> c) rows = filter (\<lambda>r. \<not> anchored r) pre"
      using served_rows [OF assms(2) [unfolded rows] ne c_def] rows by simp_all
    have ov: "overflow \<noteq> []" using ne by (simp add: overflow_def)
    note run' = run [folded overflow_def c_def, unfolded dr]
    obtain r ss where sum: "summarize env prev overflow = (r, ss)" by (meson surj_pair)
    have kept: "ac_messages ctx = map tl_message (filter (\<lambda>r. anchored r \<or> c < tl_seq r) rows)" and ss: "ss = samples"
      using run' cut ov ne sum served by (auto split: sum.splits)
    have rest: "overflow = map tl_message (filter (\<lambda>r. \<not> anchored r \<and> tl_seq r \<le> c) rows)" by (simp add: overflow_def folded)
    show ?thesis
    proof (cases r)
      case (Inl e)
      with run' cut ov ne sum have "ac_summary ctx = map_option clamp prev" "db' = handle_compaction_failure db now th ag" by auto
      then show ?thesis using kept rest sum ss Inl failure_keeps_covered
        by (intro exI [of _ c] exI [of _ overflow] conjI disjI2 [OF disjI1] exI [of _ e]) simp_all
    next
      case (Inr summary)
      with run' cut ov ne sum have res: "ac_summary ctx = Some summary" "db' = persist_compaction db th ag (Some c) summary" by auto
      have "covered db' th ag = (summary, int c)"
        by (simp add: res(2) covered_def persist_compaction_def save_compaction_def)
      moreover obtain skipped where "overflow = skipped @ concat (bounded_chunks (split_chunks (fe_js env) overflow SUMMARIZER_INPUT_BUDGET))"
        "length (split_chunks (fe_js env) overflow SUMMARIZER_INPUT_BUDGET) \<le> MAX_COMPACTION_CHUNKS \<longrightarrow> skipped = []"
        using summarize_folds(2) [OF sum [unfolded Inr]] by blast
      moreover note summarize_folds(1) [OF sum [unfolded Inr]]
      ultimately have "\<exists>summary skipped. summarize env prev overflow = (Inr summary, samples) \<and> ac_summary ctx = Some summary
          \<and> db' = persist_compaction db th ag (Some c) summary \<and> covered db' th ag = (summary, int c)
          \<and> (let chunks = split_chunks (fe_js env) overflow SUMMARIZER_INPUT_BUDGET in
               overflow = skipped @ concat (bounded_chunks chunks) \<and> length samples = length (bounded_chunks chunks)
               \<and> (length chunks \<le> MAX_COMPACTION_CHUNKS \<longrightarrow> skipped = []))"
        using res sum ss Inr unfolding Let_def by (intro exI [of _ summary] exI [of _ skipped]) simp
      with kept rest show ?thesis by (intro exI [of _ c] exI [of _ overflow] conjI) simp_all
    qed
  qed
qed

definition sample_fold_env :: fold_env where
  "sample_fold_env = \<lparr>fe_js = (\<lambda>_. []), fe_late = (\<lambda>_. False), fe_reply = (\<lambda>_ _. Reply sample_response),
     fe_model = entry ''test-model'' Anthropic 2000 ALL_CAPS, fe_max_output_tokens = 100, fe_persona = None\<rparr>"

definition big_text :: string where "big_text = replicate 2100 (CHR ''x'')"

text \<open>A tail of four rows whose result has the ordinal \<open>k\<close> and whose last message has \<open>k'\<close>.\<close>

definition sample_rows :: "nat \<Rightarrow> nat \<Rightarrow> tail_row list" where
  "sample_rows k k' = [\<lparr>tl_seq = 1, tl_message = User [UText ''hi'']\<rparr>,
     \<lparr>tl_seq = 2, tl_message = sample_call ''a''\<rparr>, \<lparr>tl_seq = k, tl_message = sample_result ''a''\<rparr>,
     \<lparr>tl_seq = k', tl_message = User [UText big_text]\<rparr>]"

lemma big_tokens: "message_tokens js (User [UText big_text]) = 525"
proof -
  have "chars_count big_text = 2100"
    by (simp add: big_text_def chars_count_def is_cont_def filter_replicate)
  then show ?thesis
    by (simp add: message_tokens_def message_chars_def user_content_chars_def tokens_of_chars_def
        saturating_add_usize_def CHARS_PER_TOKEN_def u32_max_def u64_max_def)
qed

lemma sample_keep: "keep_count js (sample_rows k k') 500 = 1"
proof -
  have "message_tokens js (sample_result ''a'') = 0"
    by (simp add: message_tokens_def message_chars_def user_content_chars_def tokens_of_chars_def
        saturating_add_usize_def CHARS_PER_TOKEN_def u64_max_def sample_result_def is_cont_def)
  then have "keep_loop js 500 525 1 [sample_result ''a'', sample_call ''a'', User [UText ''hi'']] = 1"
    by (simp add: Let_def saturating_add_u32_def u32_max_def is_important_row_def sample_result_def)
  then show ?thesis
    by (simp add: keep_count_def sample_rows_def Let_def saturating_add_u32_def u32_max_def big_tokens)
qed

lemma sample_summarize: "length ms = 2 \<Longrightarrow> \<forall>m \<in> set ms. message_tokens (\<lambda>_. []) m = 0 \<Longrightarrow>
    summarize sample_fold_env None ms = (Inr ''Facts: a'', [sample_response])"
proof -
  assume "length ms = 2" "\<forall>m \<in> set ms. message_tokens (\<lambda>_. []) m = 0"
  then obtain x y where ms: "ms = [x, y]" "message_tokens (\<lambda>_. []) x = 0" "message_tokens (\<lambda>_. []) y = 0"
    by (auto simp: length_Suc_conv numeral_2_eq_2)
  have "clamp ''Facts: a'' = ''Facts: a''"
    by (simp add: clamp_def summary_cap_chars_def MAX_SUMMARY_TOKENS_def CHARS_PER_TOKEN_def)
  with ms show ?thesis
    by (simp add: summarize_def run_fold_pass_def split_chunks_def bounded_chunks_def sample_extract
        MAX_COMPACTION_CHUNKS_def sample_fold_env_def saturating_add_u32_def compaction_fold_def)
qed

lemma sample_compaction:
  assumes "1 < k"
  shows "compact_overflow sample_fold_env db now th ag None (sample_rows k k') =
    (\<lparr>ac_summary = Some ''Facts: a'', ac_messages = [User [UText ''hi''], User [UText big_text]]\<rparr>,
     persist_compaction db th ag (Some (max 2 k)) ''Facts: a'', [sample_response])"
proof -
  let ?ms = "[sample_call ''a'', sample_result ''a'']"
  have budget: "context_token_budget (fe_model sample_fold_env) div 2 = 500"
    by (simp add: context_token_budget_def sample_fold_env_def entry_def CONTEXT_TOKEN_BUDGET_DIVISOR_def)
  have cut: "tool_safe_cut_index (map tl_message (sample_rows k k')) 1 = 3"
    by (simp add: tool_safe_cut_index_def sample_rows_def Let_def tool_result_head_def)
  have sum: "summarize sample_fold_env None ?ms = (Inr ''Facts: a'', [sample_response])"
    by (rule sample_summarize) (simp_all add: message_tokens_def message_chars_def user_content_chars_def
        assistant_content_chars_def tokens_of_chars_def saturating_add_usize_def CHARS_PER_TOKEN_def
        u64_max_def sample_result_def sample_call_def is_cont_def)
  have peel: "peel_seed_anchor (take 3 (map tl_seq (sample_rows k k'))) (take 3 (map tl_message (sample_rows k k'))) =
      ([User [UText ''hi'']], ?ms, Some (max 2 k))"
    using assms by (simp add: sample_rows_def peel_seed_anchor_def SEED_ANCHOR_MSGS_def)
  have "drop 3 (map tl_message (sample_rows k k')) = [User [UText big_text]]" by (simp add: sample_rows_def)
  then show ?thesis
    unfolding compact_overflow_def Let_def budget sample_keep cut peel by (simp add: sum)
qed

theorem compaction_serves_what_it_does_not_cover_witness:
  "\<exists>ctx db' samples summary c.
     compact_overflow sample_fold_env sample_thread_db1 0 7 6 None (sample_rows 3 4) = (ctx, db', samples)
     \<and> covered db' 7 6 = (summary, int c)
     \<and> ac_messages ctx = map tl_message (filter (\<lambda>r. anchored r \<or> c < tl_seq r) (sample_rows 3 4))"
proof -
  let ?ctx = "\<lparr>ac_summary = Some ''Facts: a'', ac_messages = [User [UText ''hi''], User [UText big_text]]\<rparr>"
  let ?db = "persist_compaction sample_thread_db1 7 6 (Some 3) ''Facts: a''"
  have run: "compact_overflow sample_fold_env sample_thread_db1 0 7 6 None (sample_rows 3 4) = (?ctx, ?db, [sample_response])"
    using sample_compaction [of 3 sample_thread_db1 0 7 6 4] by simp
  have "sorted_wrt (<) (map tl_seq (sample_rows 3 4))" by (simp add: sample_rows_def)
  from compaction_serves_what_it_does_not_cover [OF run this] obtain c rest where c:
    "rest = map tl_message (filter (\<lambda>r. \<not> anchored r \<and> tl_seq r \<le> c) (sample_rows 3 4))"
    "ac_messages ?ctx = map tl_message (filter (\<lambda>r. anchored r \<or> c < tl_seq r) (sample_rows 3 4))"
    "samples \<noteq> [] \<and> samples = [sample_response] \<longrightarrow> (\<exists>summary. covered ?db 7 6 = (summary, int c))
       \<or> covered ?db 7 6 = covered sample_thread_db1 7 6" for samples
    by blast
  moreover have "covered ?db 7 6 \<noteq> covered sample_thread_db1 7 6"
    by (simp add: covered_def persist_compaction_def save_compaction_def sample_thread_db1_def sample_thread_db0_def)
  ultimately have "\<exists>summary c. covered ?db 7 6 = (summary, int c)
     \<and> ac_messages ?ctx = map tl_message (filter (\<lambda>r. anchored r \<or> c < tl_seq r) (sample_rows 3 4))"
    by (metis list.distinct(1))
  with run show ?thesis by blast
qed

text \<open>
  A failing summarizer does not serve the windowing floor: the rows it could not fold are missing
  from the turn's prompt.
\<close>

lemma failure_drops_the_overflow:
  assumes "compact_overflow env db now th ag prev rows = (ctx, handle_compaction_failure db now th ag, samples)"
    and "db \<noteq> handle_compaction_failure db now th ag"
  shows "length (ac_messages ctx) < length rows"
proof -
  define cut where "cut = tool_safe_cut_index (map tl_message rows)
    (keep_count (fe_js env) rows (context_token_budget (fe_model env) div 2))"
  define pre where "pre = take cut rows"
  have peel: "peel_seed_anchor (take cut (map tl_seq rows)) (take cut (map tl_message rows)) =
    (map tl_message (filter anchored pre), map tl_message (filter (\<lambda>r. \<not> anchored r) pre),
     if filter (\<lambda>r. \<not> anchored r) pre = [] then None
     else Some (Max (tl_seq ` set (filter (\<lambda>r. \<not> anchored r) pre))))"
    unfolding take_map pre_def by (rule peel_rows)
  note run = assms(1) [unfolded compact_overflow_def Let_def, folded cut_def, unfolded peel prod.case]
  have ne: "filter (\<lambda>r. \<not> anchored r) pre \<noteq> []" and cut: "cut \<noteq> 0" using run assms(2) by (auto split: if_splits)
  have split: "length (filter anchored pre) + length (filter (\<lambda>r. \<not> anchored r) pre) = length pre"
    by (rule sum_length_filter_compl)
  obtain r ss where sum: "summarize env prev (map tl_message (filter (\<lambda>r. \<not> anchored r) pre)) = (r, ss)"
    by (meson surj_pair)
  have msgs: "ac_messages ctx = map tl_message (filter anchored pre) @ drop cut (map tl_message rows)"
    using run ne cut sum by (cases r) auto
  have "0 < length (filter (\<lambda>r. \<not> anchored r) pre)" using ne by (cases "filter (\<lambda>r. \<not> anchored r) pre") simp_all
  moreover have "length pre + length (drop cut (map tl_message rows)) = length rows"
    by (simp add: pre_def)
  ultimately show ?thesis using split unfolding msgs length_append length_map by linarith
qed

section \<open>A reordered row\<close>

text \<open>A message posted between a tool call and its result.\<close>

definition sample_reordered_db :: thread_db where
  "sample_reordered_db =
     append_to (append_to (append_to sample_thread_db2
       22 (private_row KToolUse 6 (sample_call ''a'')))
       23 (posted 5 big_text None))
       25 (private_row KToolResult 6 (sample_result ''a''))"

lemma sample_reordered_reach: "reach thread_init thread_step sample_reordered_db"
  unfolding sample_reordered_db_def by (intro append_to_reach feed_reach2)

lemma sample_reordered_feed: "td_messages sample_reordered_db =
   [message_row_of 21 7 1 1 200 (posted 5 ''hi'' (Some ''k'')),
    message_row_of 22 7 1 2 200 (private_row KToolUse 6 (sample_call ''a'')),
    message_row_of 23 7 1 3 200 (posted 5 big_text None),
    message_row_of 25 7 1 4 200 (private_row KToolResult 6 (sample_result ''a''))]"
  by (simp add: sample_reordered_db_def sample_thread_db2_def append_to_def append_message_db
      append_statement_def thread_visible_def sample_thread_db1_def sample_thread_db0_def
      sample_caller_def td_is_member_def last_seq_def i64_max_def message_admitted_def posted_def
      private_row_def key_taken_def message_row_of_def Let_def update_where_def)

lemma sample_reordered_rows: "context_rows sample_reordered_db 7 6 0 = td_messages sample_reordered_db"
  "context_rows sample_reordered_db 7 6 4 = []"
  by (simp_all add: context_rows_def sample_reordered_feed context_row_def message_row_of_def posted_def
      private_row_def last_n_def MAX_CONTEXT_MESSAGES_def)

lemma sample_reordered_tail:
  "context_tail Map.empty sample_reordered_db 7 6 6 0 Map.empty = sample_rows 4 3"
  "context_tail Map.empty sample_reordered_db 7 6 6 4 Map.empty = []"
proof -
  have small: "cap_tool_result_output ''ok'' n = None" for n
    by (simp add: cap_tool_result_output_def Let_def MAX_TOOL_RESULT_CHARS_def)
  show "context_tail Map.empty sample_reordered_db 7 6 6 4 Map.empty = []"
    by (simp add: context_tail_def sample_reordered_rows repair_tool_pairs_def drop_orphan_tool_results_def)
  show "context_tail Map.empty sample_reordered_db 7 6 6 0 Map.empty = sample_rows 4 3"
    unfolding context_tail_def sample_reordered_rows sample_reordered_feed
    by (simp add: map_context_row_def message_row_of_def posted_def private_row_def
        map_row_for_viewer_def prefix_sender_label_def cap_tool_results_in_place_def sample_call_def
        sample_result_def small repair_tool_pairs_def drop_orphan_tool_results_def call_ids_def
        List.map_filter_simps sample_rows_def)
qed

text \<open>
  The repair of tool pairs reorders rows, and the watermark is the greatest ordinal folded.
  In the reachable feed below a message with ordinal 3 was posted between a tool call and its
  result (ordinals 2 and 4). The turn that compacts folds the pair, serves the message, and moves
  the watermark to 4; from the next turn on the agent reads neither the message nor a summary
  that ever saw it.
\<close>

theorem compaction_loses_a_reordered_row:
  "reach thread_init thread_step sample_reordered_db
   \<and> (\<exists>ctx db' samples ctx2.
        resolve_agent_context sample_fold_env Map.empty sample_reordered_db 0 (Some 1500) 7 6 6 Map.empty
          = (Inr ctx, db', samples)
        \<and> ac_messages ctx = [User [UText ''hi''], User [UText big_text]]
        \<and> summarize sample_fold_env None [sample_call ''a'', sample_result ''a''] = (Inr (the (ac_summary ctx)), samples)
        \<and> resolve_agent_context sample_fold_env Map.empty db' 1 (Some 500) 7 6 6 Map.empty = (Inr ctx2, db', [])
        \<and> ac_messages ctx2 = [] \<and> ac_summary ctx2 = ac_summary ctx)"
proof (intro conjI sample_reordered_reach)
  let ?db = "persist_compaction sample_reordered_db 7 6 (Some 4) ''Facts: a''"
  let ?ctx = "\<lparr>ac_summary = Some ''Facts: a'', ac_messages = [User [UText ''hi''], User [UText big_text]]\<rparr>"
  let ?ctx2 = "\<lparr>ac_summary = Some ''Facts: a'', ac_messages = []\<rparr>"
  have fresh: "td_compactions sample_reordered_db = Map.empty"
    by (simp add: sample_reordered_db_def sample_thread_db2_def append_to_def append_message_db
      append_statement_def thread_visible_def sample_thread_db1_def sample_thread_db0_def
      sample_caller_def td_is_member_def last_seq_def i64_max_def message_admitted_def posted_def
      private_row_def key_taken_def message_row_of_def Let_def update_where_def)
  have budget: "context_token_budget (fe_model sample_fold_env) = 1000"
    by (simp add: context_token_budget_def sample_fold_env_def entry_def CONTEXT_TOKEN_BUDGET_DIVISOR_def)
  have run: "compact_overflow sample_fold_env sample_reordered_db 0 7 6 None (sample_rows 4 3) = (?ctx, ?db, [sample_response])"
    using sample_compaction [of 4 sample_reordered_db 0 7 6 3] by simp
  have first: "resolve_agent_context sample_fold_env Map.empty sample_reordered_db 0 (Some 1500) 7 6 6 Map.empty
      = (Inr ?ctx, ?db, [sample_response])"
    by (simp add: resolve_agent_context_def load_compaction_def fresh sample_reordered_tail budget run)
  have tail2: "context_tail Map.empty ?db 7 6 6 4 Map.empty = context_tail Map.empty sample_reordered_db 7 6 6 4 Map.empty"
    by (simp add: context_tail_def context_rows_def persist_compaction_def save_compaction_def)
  have "clamp ''Facts: a'' = ''Facts: a''"
    by (simp add: clamp_def summary_cap_chars_def MAX_SUMMARY_TOKENS_def CHARS_PER_TOKEN_def)
  then have second: "resolve_agent_context sample_fold_env Map.empty ?db 1 (Some 500) 7 6 6 Map.empty = (Inr ?ctx2, ?db, [])"
    using tail2 sample_reordered_tail(2)
    by (simp add: resolve_agent_context_def load_compaction_def persist_compaction_def save_compaction_def
        seq_try_from_def budget floor_context_def Let_def)
  have sum: "summarize sample_fold_env None [sample_call ''a'', sample_result ''a''] = (Inr ''Facts: a'', [sample_response])"
    by (rule sample_summarize) (simp_all add: message_tokens_def message_chars_def user_content_chars_def
        assistant_content_chars_def tokens_of_chars_def saturating_add_usize_def CHARS_PER_TOKEN_def
        u64_max_def sample_result_def sample_call_def is_cont_def)
  show "\<exists>ctx db' samples ctx2.
        resolve_agent_context sample_fold_env Map.empty sample_reordered_db 0 (Some 1500) 7 6 6 Map.empty
          = (Inr ctx, db', samples)
        \<and> ac_messages ctx = [User [UText ''hi''], User [UText big_text]]
        \<and> summarize sample_fold_env None [sample_call ''a'', sample_result ''a''] = (Inr (the (ac_summary ctx)), samples)
        \<and> resolve_agent_context sample_fold_env Map.empty db' 1 (Some 500) 7 6 6 Map.empty = (Inr ctx2, db', [])
        \<and> ac_messages ctx2 = [] \<and> ac_summary ctx2 = ac_summary ctx"
    using first second sum by (intro exI [of _ ?ctx] exI [of _ ?db] exI [of _ "[sample_response]"] exI [of _ ?ctx2]) simp
qed

end
