(* ===== verification/Hex.thy ===== *)
theory Hex
  imports Rust_Strings "HOL-Library.Word"
begin

text \<open>
  Hex encoding of 32-byte buffers (\<open>hex.rs\<close>), shared by the signed tokens of the chat platforms
  and the content addresses of offloaded tool results. Bytes are 8-bit words.
\<close>

unbundle bit_operations_syntax

type_synonym byte = "8 word"

definition byte_of_char :: "char \<Rightarrow> byte" where "byte_of_char c = of_nat (of_char c)"

definition nibble :: "byte \<Rightarrow> byte option" where
  "nibble b =
     (if 48 \<le> b \<and> b \<le> 57 then Some (b - 48)
      else if 97 \<le> b \<and> b \<le> 102 then Some (b - 97 + 10)
      else if 65 \<le> b \<and> b \<le> 70 then Some (b - 65 + 10)
      else None)"

fun decode_bytes :: "byte list \<Rightarrow> byte list option" where
  "decode_bytes (a # b # bs) =
     (case nibble a of None \<Rightarrow> None | Some hi \<Rightarrow>
      (case nibble b of None \<Rightarrow> None | Some lo \<Rightarrow>
        map_option (Cons (push_bit 4 hi OR lo)) (decode_bytes bs)))"
| "decode_bytes _ = Some []"

definition decode_32 :: "string \<Rightarrow> byte list option" where
  "decode_32 s = (if length s \<noteq> 64 then None else decode_bytes (map byte_of_char s))"

text \<open>\<open>{byte:02x}\<close>\<close>

definition hex_digit :: "nat \<Rightarrow> char" where "hex_digit n = ''0123456789abcdef'' ! n"

definition hex_byte :: "byte \<Rightarrow> string" where
  "hex_byte b = [hex_digit (unat b div 16), hex_digit (unat b mod 16)]"

definition encode_32 :: "byte list \<Rightarrow> string" where
  "encode_32 bs = concat (map hex_byte bs)"

lemma nat_16_cases: "n < 16 \<Longrightarrow> n \<in> {0, 1, 2, 3, 4, 5, 6, 7, 8, 9, 10, 11, 12, 13, 14, 15 :: nat}"
  by (auto simp: numeral_eq_Suc less_Suc_eq)

lemma nibble_hex_digit: "n < 16 \<Longrightarrow> nibble (byte_of_char (hex_digit n)) = Some (of_nat n)"
proof -
  have "\<forall>n \<in> {0, 1, 2, 3, 4, 5, 6, 7, 8, 9, 10, 11, 12, 13, 14, 15}.
      nibble (byte_of_char (hex_digit n)) = Some (of_nat n)"
    by (simp add: hex_digit_def byte_of_char_def nibble_def)
  then show "n < 16 \<Longrightarrow> nibble (byte_of_char (hex_digit n)) = Some (of_nat n)"
    using nat_16_cases by blast
qed

lemma unat_byte: "unat (b :: byte) < 256"
  using unsigned_less [of b] by simp

lemma join_nibbles:
  fixes b :: byte
  shows "push_bit 4 (of_nat (unat b div 16)) OR (of_nat (unat b mod 16)) = b"
proof -
  have "of_nat (unat b div 16) = (drop_bit 4 b :: byte)"
    using unat_byte [of b] by (simp add: word_unat_eq_iff unat_of_nat drop_bit_eq_div unat_div_distrib)
  moreover have "of_nat (unat b mod 16) = (take_bit 4 b :: byte)"
    using unat_byte [of b] by (simp add: word_unat_eq_iff unat_of_nat take_bit_eq_mod unat_mod_distrib)
  moreover have "push_bit 4 (drop_bit 4 b) OR take_bit 4 b = b"
    by (rule bit_word_eqI) (auto simp: bit_simps)
  ultimately show ?thesis by simp
qed

lemma decode_encode_bytes: "decode_bytes (map byte_of_char (encode_32 bs)) = Some bs"
proof (induction bs)
  case (Cons b bs)
  have "unat b div 16 < 16" "unat b mod 16 < 16" using unat_byte [of b] by simp_all
  then show ?case
    using Cons by (simp add: encode_32_def hex_byte_def nibble_hex_digit join_nibbles)
qed (simp add: encode_32_def)

lemma length_encode: "length (encode_32 bs) = 2 * length bs"
  by (induction bs) (simp_all add: encode_32_def hex_byte_def)

lemma decode_encode: "length bs = 32 \<Longrightarrow> decode_32 (encode_32 bs) = Some bs"
  by (simp add: decode_32_def length_encode decode_encode_bytes)

text \<open>Decoding accepts both cases of a digit; encoding writes the lower one.\<close>

lemma byte_cases: "byte_of_char c = b \<Longrightarrow> c = char_of (unat b)"
  by (auto simp: byte_of_char_def unat_of_nat)

lemma nibble_range:
  "nibble (byte_of_char c) = Some n \<Longrightarrow> (of_char c :: nat) \<in> set ([48..<58] @ [97..<103] @ [65..<71])"
proof -
  assume "nibble (byte_of_char c) = Some n"
  then have "48 \<le> (of_char c :: nat) \<and> (of_char c :: nat) \<le> 57 \<or> 97 \<le> (of_char c :: nat) \<and> (of_char c :: nat) \<le> 102
      \<or> 65 \<le> (of_char c :: nat) \<and> (of_char c :: nat) \<le> 70"
    by (simp add: nibble_def byte_of_char_def word_le_nat_alt unat_of_nat split: if_splits)
  then show ?thesis by (auto simp only: set_append set_upt Un_iff atLeastLessThan_iff)
qed

lemma nibble_Some:
  assumes "nibble (byte_of_char c) = Some n"
  shows "unat n < 16 \<and> hex_digit (unat n) = ascii_lower c"
proof -
  have "\<forall>k \<in> set ([48..<58] @ [97..<103] @ [65..<71]).
      (case nibble (of_nat k :: byte) of None \<Rightarrow> True
       | Some n \<Rightarrow> unat n < 16 \<and> hex_digit (unat n) = ascii_lower (char_of k))"
    by code_simp
  with nibble_range [OF assms] have "case nibble (of_nat (of_char c) :: byte) of None \<Rightarrow> True
       | Some n \<Rightarrow> unat n < 16 \<and> hex_digit (unat n) = ascii_lower (char_of (of_char c :: nat))"
    by blast
  with assms show ?thesis by (simp add: byte_of_char_def)
qed

lemma unat_join:
  assumes "unat (hi :: byte) < 16" "unat (lo :: byte) < 16"
  shows "unat (push_bit 4 hi OR lo) = 16 * unat hi + unat lo"
proof -
  have "unat hi * 16 < 256" using assms by linarith
  then have "unat (push_bit 4 hi) = 16 * unat hi"
    by (simp add: push_bit_eq_mult unat_word_ariths)
  moreover have "push_bit 4 hi AND lo = 0"
  proof (rule bit_word_eqI)
    fix n assume "n < LENGTH(8)"
    have "lo = take_bit 4 lo"
      using assms(2) by (simp add: word_unat_eq_iff take_bit_eq_mod unat_mod_distrib)
    then have "\<not> bit lo n" if "4 \<le> n" using that by (metis bit_take_bit_iff not_less)
    then show "bit (push_bit 4 hi AND lo) n = bit (0 :: byte) n" by (auto simp: bit_simps)
  qed
  then have "push_bit 4 hi OR lo = push_bit 4 hi + lo" by (simp add: disjunctive_add_eq_or)
  ultimately show ?thesis using assms by (simp add: unat_word_ariths)
qed

lemma encode_decode_bytes:
  "decode_bytes (map byte_of_char s) = Some bs \<Longrightarrow> even (length s) \<Longrightarrow> encode_32 bs = to_ascii_lowercase s"
proof (induction s arbitrary: bs rule: induct_list012)
  case (3 a b s)
  from 3(3) obtain hi lo bs' where n: "nibble (byte_of_char a) = Some hi" "nibble (byte_of_char b) = Some lo"
    "decode_bytes (map byte_of_char s) = Some bs'" "bs = (push_bit 4 hi OR lo) # bs'"
    by (auto split: option.splits)
  from 3(4) have "even (length s)" by simp
  from 3(1) [OF n(3) this] n nibble_Some [OF n(1)] nibble_Some [OF n(2)] show ?case
    by (simp add: encode_32_def hex_byte_def unat_join to_ascii_lowercase_def)
qed (simp_all add: encode_32_def to_ascii_lowercase_def)

lemma encode_decode: "decode_32 s = Some bs \<Longrightarrow> encode_32 bs = to_ascii_lowercase s"
  by (simp add: decode_32_def encode_decode_bytes split: if_splits)

lemma nibble_upper: "65 \<le> n \<Longrightarrow> n \<le> 90 \<Longrightarrow> nibble (of_nat n + 32) = nibble (of_nat n)"
proof -
  assume n: "65 \<le> n" "n \<le> 90"
  have "(of_nat n + 32 :: byte) = of_nat (n + 32)" by simp
  then have u: "unat (of_nat n + 32 :: byte) = n + 32" using n by (simp only: unat_of_nat) simp
  have v: "unat (of_nat n :: byte) = n" using n by (simp add: unat_of_nat)
  show ?thesis using n by (simp add: nibble_def word_le_nat_alt u v)
qed

lemma nibble_lower: "nibble (byte_of_char (ascii_lower c)) = nibble (byte_of_char c)"
proof (cases "65 \<le> (of_char c :: int) \<and> (of_char c :: int) \<le> 90")
  case True
  have i: "(of_char c :: int) = int (of_char c)" by (rule of_nat_of_char [symmetric])
  with True have n: "65 \<le> (of_char c :: nat)" "(of_char c :: nat) \<le> 90" by linarith+
  have "ascii_lower c = char_of ((of_char c :: int) + 32)"
    using True unfolding ascii_lower_def by (simp only: if_True simp_thms)
  also have "(of_char c :: int) + 32 = int (of_char c + 32)" using i by linarith
  finally have "ascii_lower c = char_of (of_char c + 32 :: nat)" by (simp only: char_of_nat)
  then have "byte_of_char (ascii_lower c) = of_nat (of_char c) + 32"
    using n by (simp add: byte_of_char_def)
  with nibble_upper [OF n] show ?thesis by (simp add: byte_of_char_def)
next
  case False
  then have "ascii_lower c = c" by (auto simp: ascii_lower_def)
  then show ?thesis by simp
qed

lemma decode_lower: "decode_32 (to_ascii_lowercase s) = decode_32 s"
proof -
  have "decode_bytes (map byte_of_char (map ascii_lower s)) = decode_bytes (map byte_of_char s)"
    by (induction s rule: induct_list012) (simp_all add: nibble_lower split: option.split)
  then show ?thesis by (simp add: decode_32_def to_ascii_lowercase_def)
qed

end
