(* ===== verification/Reduction_Properties.thy ===== *)
theory Reduction_Properties
  imports Tool_Reduction Compaction_Properties
begin

text \<open>
  The property of tool-result reduction: whatever the reduction shows in the feed, the full body
  is either still there or stored under an address the feed shows and the agent can echo back.
\<close>

lemma body_pieces_concat: "concat (body_pieces p buf n cs) = buf @ concat cs"
  by (induction p buf n cs rule: body_pieces.induct) auto

lemma chunk_text_of_pieces: "render_chunk_text (map (\<lambda>t. User [UText t]) ts) = concat ts"
  by (induction ts) (simp_all add: render_chunk_text_def List.map_filter_simps)

lemma chunk_messages_lossless: "render_chunk_text (body_into_chunk_messages body) = body"
  by (simp add: body_into_chunk_messages_def chunk_text_of_pieces body_pieces_concat)

lemma is_cont_digit: "\<not> is_cont (hex_digit n)" if "n < 16"
proof -
  have "\<forall>k \<in> {0, 1, 2, 3, 4, 5, 6, 7, 8, 9, 10, 11, 12, 13, 14, 15}. \<not> is_cont (hex_digit k)"
    by (simp add: hex_digit_def is_cont_def)
  with nat_16_cases [OF that] show ?thesis by blast
qed

lemma chars_hex: "chars_count (encode_32 bs) = 2 * length bs"
proof (induction bs)
  case (Cons b bs)
  have "unat b div 16 < 16" "unat b mod 16 < 16" using unat_byte [of b] by simp_all
  with Cons show ?case by (simp add: encode_32_def hex_byte_def is_cont_digit)
qed (simp add: encode_32_def)

lemma handle_echo: "length (sha body) = 32 \<Longrightarrow>
    artifact_handle_try_from (content_address sha body) = Inr (content_address sha body)"
  by (simp add: artifact_handle_try_from_def content_address_def decode_encode)

lemma length_show_nat: "n < 10 ^ Suc k \<Longrightarrow> length (show_nat n) \<le> Suc k"
proof (induction k arbitrary: n)
  case 0
  then show ?case by (simp add: show_nat.simps [of n])
next
  case (Suc k)
  show ?case
  proof (cases "n < 10")
    case False
    have "n div 10 < 10 ^ Suc k" using Suc.prems by (simp add: less_mult_imp_div_less mult.commute)
    from Suc.IH [OF this] False show ?thesis by (simp add: show_nat.simps [of n])
  qed (simp add: show_nat.simps [of n])
qed

lemma contains_str_infix: "contains_str p (a @ p @ b)"
  using find_str_exists [of p a b] by (simp add: contains_str_def)

lemma preview_shows_handle: "contains_str h (render_preview body h total_chars)"
proof -
  have "\<exists>a b. render_preview body h total_chars = a @ h @ b"
    unfolding render_preview_def Let_def by (metis append.assoc)
  then show ?thesis using contains_str_infix by metis
qed

lemma summary_shows_handle: "contains_str h (render_summary s h total_chars)"
proof -
  have "\<exists>a b. render_summary s h total_chars = a @ h @ b"
    unfolding render_summary_def by (metis append.assoc)
  then show ?thesis using contains_str_infix by metis
qed

lemma chars_show_nat: "n \<le> u64_max \<Longrightarrow> chars_count (show_nat n) \<le> 20"
proof -
  assume "n \<le> u64_max"
  then have "n < 10 ^ Suc 19" by (simp add: u64_max_def)
  then show ?thesis using length_show_nat [of n 19] chars_count_le_length [of "show_nat n"] by simp
qed

lemma preview_bound:
  assumes "total_chars = chars_count body" "total_chars \<le> u64_max" "chars_count h = 64"
  shows "chars_count (render_preview body h total_chars) \<le> 4400"
proof -
  have "chars_count (show_nat (chars_count body - 4000)) \<le> 20" "chars_count (show_nat 0) \<le> 20"
    using assms by (auto intro: chars_show_nat)
  then show ?thesis
    using assms(1,3)
    by (simp add: render_preview_def Let_def PREVIEW_HEAD_CHARS_def PREVIEW_TAIL_CHARS_def is_cont_def
        newline_def ellipsis_def middle_dot_def bytes_def)
qed

text \<open>
  C19. Reducing an oversized tool result loses nothing. When the full body cannot be offloaded it
  stays in the feed unchanged. Otherwise it is stored, byte for byte, under its content address;
  the visible body contains that address; the address parses back, whatever the case it is echoed
  in; and a preview (the fallback of a failed summary) is far below the reduction threshold, so
  it is never reduced again. That no different body was stored under the same address before is
  assumed of SHA-256.
\<close>

theorem reduction_is_lossless:
  assumes "reduce_and_offload env db org call policy out = (res, db', samples)"
    and "length (re_sha env out) = 32" and "chars_count out \<le> u64_max"
    and "h = content_address (re_sha env) out"
    and "\<And>a. td_artifacts db (org, h) = Some a \<Longrightarrow> ar_body a = out"
  shows "tr_call_id res = tc_id call \<and>
    (tr_output res = out \<and> db' = db \<and> samples = []
     \<or> (\<exists>a. td_artifacts db' (org, h) = Some a \<and> ar_body a = out)
       \<and> contains_str h (tr_output res) \<and> artifact_handle_try_from h = Inr h
       \<and> (\<forall>echo. artifact_handle_try_from echo = Inr h \<longleftrightarrow> length echo = 64 \<and> to_ascii_lowercase echo = h)
       \<and> (tr_output res = render_preview out h (chars_count out) \<longrightarrow>
           chars_count (tr_output res) < TOOL_RESULT_REDUCE_THRESHOLD))"
proof -
  have h64: "chars_count h = 64" using assms(2,4) by (simp add: content_address_def chars_hex)
  have preview: "chars_count (render_preview out h (chars_count out)) < TOOL_RESULT_REDUCE_THRESHOLD"
    using preview_bound [OF refl assms(3) h64]
    by (simp add: TOOL_RESULT_REDUCE_THRESHOLD_def MAX_TOOL_RESULT_CHARS_def)
  have handle: "artifact_handle_try_from h = Inr h" unfolding assms(4) by (rule handle_echo) (rule assms(2))
  have echo: "artifact_handle_try_from e = Inr h \<longleftrightarrow> length e = 64 \<and> to_ascii_lowercase e = h" for e
  proof
    assume "artifact_handle_try_from e = Inr h"
    then obtain bs where bs: "decode_32 e = Some bs" "encode_32 bs = h"
      by (auto simp: artifact_handle_try_from_def split: option.splits)
    then show "length e = 64 \<and> to_ascii_lowercase e = h"
      using encode_decode [OF bs(1)] by (simp add: decode_32_def split: if_splits)
  next
    assume e: "length e = 64 \<and> to_ascii_lowercase e = h"
    obtain bs where bs: "decode_32 h = Some bs"
      using handle by (auto simp: artifact_handle_try_from_def split: option.splits)
    have "decode_32 e = Some bs" using e bs decode_lower [of e] by metis
    with e encode_decode [OF this] show "artifact_handle_try_from e = Inr h"
      by (simp add: artifact_handle_try_from_def)
  qed
  show ?thesis
  proof (cases "offload_artifact env db org h out (tc_name call)")
    case (Pair ok db1)
    show ?thesis
    proof (cases ok)
      case False
      with Pair have "db1 = db" by (simp add: offload_artifact_def split: if_splits)
      with False Pair assms(1,4) show ?thesis by (auto simp: reduce_and_offload_def Let_def)
    next
      case True
      with Pair have db1: "db1 = save_tool_artifact db org h out (saturating_i32 (chars_count out div CHARS_PER_TOKEN)) (tc_name call)"
        by (simp add: offload_artifact_def split: if_splits)
      have stored: "\<exists>a. td_artifacts db1 (org, h) = Some a \<and> ar_body a = out"
        using assms(5) by (auto simp: db1 save_tool_artifact_def split: option.splits)
      from True Pair assms(1,4) have "db' = db1" "tr_call_id res = tc_id call"
        "tr_output res = render_preview out h (chars_count out) \<or> (\<exists>s. tr_output res = render_summary s h (chars_count out))"
        by (auto simp: reduce_and_offload_def Let_def split: result_policy.splits prod.splits option.splits)
      then show ?thesis
        using stored handle echo preview preview_shows_handle summary_shows_handle by metis
    qed
  qed
qed

definition sample_reduce_env :: reduce_env where
  "sample_reduce_env = \<lparr>re_js = (\<lambda>_. []), re_sha = (\<lambda>_. replicate 32 7), re_late = (\<lambda>_ _. False),
     re_reply = (\<lambda>_ _ _. ReplyTimeout), re_chain = [], re_store = True, re_save_ok = (\<lambda>_. True)\<rparr>"

definition sample_tool_call :: tool_call where
  "sample_tool_call = \<lparr>tc_id = ''a'', tc_name = ''fetch'', tc_input = JNull\<rparr>"

theorem reduction_is_lossless_witness:
  "\<exists>a. td_artifacts (fst (snd (reduce_and_offload sample_reduce_env sample_thread_db1 1 sample_tool_call Paginate ''big'')))
        (1, content_address (re_sha sample_reduce_env) ''big'') = Some a \<and> ar_body a = ''big''"
proof -
  let ?h = "content_address (re_sha sample_reduce_env) ''big''"
  obtain res db' samples where run:
    "reduce_and_offload sample_reduce_env sample_thread_db1 1 sample_tool_call Paginate ''big'' = (res, db', samples)"
    by (meson prod_cases3)
  have "length (re_sha sample_reduce_env ''big'') = 32" "chars_count ''big'' \<le> u64_max"
    "\<And>a. td_artifacts sample_thread_db1 (1, ?h) = Some a \<Longrightarrow> ar_body a = ''big''"
    by (simp_all add: sample_reduce_env_def u64_max_def is_cont_def sample_thread_db1_def sample_thread_db0_def)
  from reduction_is_lossless [OF run this(1,2) refl this(3)]
  have "tr_output res = ''big'' \<and> db' = sample_thread_db1 \<or>
      (\<exists>a. td_artifacts db' (1, ?h) = Some a \<and> ar_body a = ''big'')" by blast
  moreover have "db' \<noteq> sample_thread_db1"
  proof -
    have "db' = save_tool_artifact sample_thread_db1 1 ?h ''big'' 0 ''fetch''"
      using run by (simp add: reduce_and_offload_def Let_def offload_artifact_def sample_reduce_env_def
          sample_tool_call_def is_cont_def CHARS_PER_TOKEN_def saturating_i32_def i32_max_def)
    then have "td_artifacts db' (1, ?h) \<noteq> td_artifacts sample_thread_db1 (1, ?h)"
      by (simp add: save_tool_artifact_def sample_thread_db1_def sample_thread_db0_def)
    then show ?thesis by auto
  qed
  ultimately show ?thesis using run by auto
qed

end
