(* ===== verification/Billing.thy ===== *)
theory Billing
  imports Model_Catalog
begin

text \<open>
  The spend budget and the credit ledger (\<open>billing/service.rs\<close>, \<open>billing/types.rs\<close>), the
  entitlement seam it consults (\<open>entitlements\<close>) and the two calls an agent turn makes to it
  (\<open>agent_core/turn.rs\<close>: \<open>billing_gate\<close> before the provider call, \<open>billing_settle\<close> after).

  The four tables are one record. A call is one transaction: an error and a panic (\<open>None\<close>, a
  failed \<open>assert!\<close>) leave the tables as they were. Amounts are \<open>int\<close> with Postgres' \<open>BIGINT\<close> range
  checked where a statement adds. The billing period of an instant is computed by the calendar
  library, so the current period is a parameter.
\<close>

section \<open>Money\<close>

definition cost_micros_try_from :: "int \<Rightarrow> (int, parse_error) result" where
  "cost_micros_try_from raw =
     (if raw < 0 then Inl (OutOfRange ''cost_micros'' ''must be >= 0'') else Inr raw)"

definition cost_micros_try_from_i128 :: "int \<Rightarrow> (int, parse_error) result" where
  "cost_micros_try_from_i128 raw =
     (if raw < 0 then Inl (OutOfRange ''cost_micros'' ''must be >= 0'')
      else if raw > i64_max then Inl (OutOfRange ''cost_micros'' ''exceeds i64'')
      else Inr raw)"

definition monthly_cap_try_from :: "int \<Rightarrow> (int, parse_error) result" where
  "monthly_cap_try_from raw =
     (if raw \<le> 0 then Inl (OutOfRange ''monthly_cap_micro_usd'' ''must be > 0'') else Inr raw)"

definition grant_amount_try_from :: "int \<Rightarrow> (int, parse_error) result" where
  "grant_amount_try_from raw =
     (if raw \<le> 0 then Inl (OutOfRange ''grant_amount_micro_usd'' ''must be > 0'') else Inr raw)"

definition WARN_FULL :: nat where "WARN_FULL = 10000"
definition DEFAULT_WARN_BPS :: nat where "DEFAULT_WARN_BPS = 8000"
definition MAX_SINGLE_TURN_COST_MICROS :: int where "MAX_SINGLE_TURN_COST_MICROS = 100000000"
definition MAX_LEDGER_READ :: int where "MAX_LEDGER_READ = 50"

definition warn_threshold_bps_try_from :: "nat \<Rightarrow> (nat, parse_error) result" where
  "warn_threshold_bps_try_from raw =
     (if raw = 0 then Inl (OutOfRange ''warn_threshold_bps'' ''must be > 0'')
      else if raw > WARN_FULL then Inl (OutOfRange ''warn_threshold_bps'' ''must be <= 10000'')
      else Inr raw)"

definition delta_of_grant :: "int \<Rightarrow> int" where "delta_of_grant g = g"
definition delta_of_cost :: "int \<Rightarrow> int" where "delta_of_cost c = - c"

datatype ledger_kind = Grant | Debit | Adjustment

definition ledger_kind_all :: "ledger_kind list" where
  "ledger_kind_all = [Grant, Debit, Adjustment]"

fun ledger_kind_as_str :: "ledger_kind \<Rightarrow> string" where
  "ledger_kind_as_str Grant = ''grant''"
| "ledger_kind_as_str Debit = ''debit''"
| "ledger_kind_as_str Adjustment = ''adjustment''"

interpretation ledger_kind: str_enum ledger_kind_all ledger_kind_as_str
proof unfold_locales
  fix v w
  show "v \<in> set ledger_kind_all" by (cases v) (simp_all add: ledger_kind_all_def)
  show "v = w" if "ledger_kind_as_str v = ledger_kind_as_str w"
    using that by (cases v; cases w) simp_all
qed

datatype ledger_reason = SignupBonus | Promo | Referral | Manual | Refund | Usage

definition ledger_reason_all :: "ledger_reason list" where
  "ledger_reason_all = [SignupBonus, Promo, Referral, Manual, Refund, Usage]"

fun ledger_reason_as_str :: "ledger_reason \<Rightarrow> string" where
  "ledger_reason_as_str SignupBonus = ''signup_bonus''"
| "ledger_reason_as_str Promo = ''promo''"
| "ledger_reason_as_str Referral = ''referral''"
| "ledger_reason_as_str Manual = ''manual''"
| "ledger_reason_as_str Refund = ''refund''"
| "ledger_reason_as_str Usage = ''usage''"

interpretation ledger_reason: str_enum ledger_reason_all ledger_reason_as_str
proof unfold_locales
  fix v w
  show "v \<in> set ledger_reason_all" by (cases v) (simp_all add: ledger_reason_all_def)
  show "v = w" if "ledger_reason_as_str v = ledger_reason_as_str w"
    using that by (cases v; cases w) simp_all
qed

section \<open>Entitlements\<close>

datatype agent_limit = Unlimited | Max nat

datatype feature = Reserved

fun feature_as_str :: "feature \<Rightarrow> string" where
  "feature_as_str Reserved = ''reserved''"

datatype license_error = FeatureNotLicensed feature | AgentLimitReached nat

text \<open>The trait \<open>Entitlements\<close>: the policy object, and its permissive default.\<close>

record entitlements =
  en_agent_limit :: "uuid \<Rightarrow> agent_limit"
  en_allows :: "uuid \<Rightarrow> feature \<Rightarrow> bool"
  en_credit_gate_active :: "uuid \<Rightarrow> bool"
  en_signup_grant :: "uuid \<Rightarrow> int option"

definition unlimited_entitlements :: entitlements where
  "unlimited_entitlements =
     \<lparr>en_agent_limit = (\<lambda>_. Unlimited), en_allows = (\<lambda>_ _. True),
      en_credit_gate_active = (\<lambda>_. False), en_signup_grant = (\<lambda>_. None)\<rparr>"

definition require_agent_capacity :: "entitlements \<Rightarrow> uuid \<Rightarrow> nat \<Rightarrow> (unit, license_error) result" where
  "require_agent_capacity ent org current =
     (case en_agent_limit ent org of
        Unlimited \<Rightarrow> Inr ()
      | Max cap \<Rightarrow> if current < cap then Inr () else Inl (AgentLimitReached cap))"

definition require_feature :: "entitlements \<Rightarrow> uuid \<Rightarrow> feature \<Rightarrow> (unit, license_error) result" where
  "require_feature ent org f = (if en_allows ent org f then Inr () else Inl (FeatureNotLicensed f))"

section \<open>Tables\<close>

record org_billing =
  ob_cap :: "int option"
  ob_warn_bps :: int

record usage_row =
  us_used :: int
  us_warned_at :: "timestamp option"

record credits_row =
  cr_balance :: int
  cr_granted :: int
  cr_used :: int

record ledger_row =
  lr_id :: uuid
  lr_org :: uuid
  lr_delta :: int
  lr_kind :: ledger_kind
  lr_reason :: ledger_reason
  lr_key :: "idempotency_key option"
  lr_actor :: "uuid option"
  lr_created_at :: timestamp

record billing_db =
  bd_orgs :: "uuid list"
  bd_members :: "(uuid \<times> uuid) list"
  bd_billing :: "uuid \<rightharpoonup> org_billing"
  bd_usage :: "uuid \<times> int \<rightharpoonup> usage_row"
  bd_credits :: "uuid \<rightharpoonup> credits_row"
  bd_ledger :: "ledger_row list"

datatype billing_error =
    Exceeded uuid int int
  | OutOfCredit uuid int
  | BillingDb db_error

record billing_env =
  be_now :: timestamp
  be_period :: int
  be_entitlements :: entitlements

text \<open>\<open>None\<close> is the privileged transaction, \<open>Some user\<close> the row-level secured one.\<close>

definition bd_visible :: "billing_db \<Rightarrow> uuid option \<Rightarrow> uuid \<Rightarrow> bool" where
  "bd_visible db actor org =
     (case actor of None \<Rightarrow> True | Some u \<Rightarrow> (u, org) \<in> set (bd_members db))"

definition see :: "bool \<Rightarrow> 'a option \<Rightarrow> 'a option" where
  "see v x = (if v then x else None)"

section \<open>The gate\<close>

record usage_snapshot =
  sn_used :: int
  sn_cap :: "int option"

definition decide :: "usage_snapshot \<Rightarrow> uuid \<Rightarrow> (unit, billing_error) result option" where
  "decide s org =
     (case sn_cap s of
        None \<Rightarrow> Some (Inr ())
      | Some cap \<Rightarrow>
          if \<not> (cap > 0 \<and> sn_used s \<ge> 0) then None
          else if sn_used s \<ge> cap then Some (Inl (Exceeded org (sn_used s) cap))
          else Some (Inr ()))"

definition read_snapshot ::
  "billing_db \<Rightarrow> uuid option \<Rightarrow> uuid \<Rightarrow> int \<Rightarrow> usage_snapshot \<times> int" where
  "read_snapshot db actor org period =
     (let v = bd_visible db actor org;
          cap = (case see v (bd_billing db org) of None \<Rightarrow> None | Some b \<Rightarrow> ob_cap b);
          used = (case see v (bd_usage db (org, period)) of None \<Rightarrow> 0 | Some u \<Rightarrow> us_used u);
          balance = (case see v (bd_credits db org) of None \<Rightarrow> 0 | Some c \<Rightarrow> cr_balance c)
      in (\<lparr>sn_used = used, sn_cap = cap\<rparr>, balance))"

definition gate ::
  "billing_env \<Rightarrow> billing_db \<Rightarrow> uuid option \<Rightarrow> uuid \<Rightarrow> (unit, billing_error) result option" where
  "gate env db actor org =
     (case read_snapshot db actor org (be_period env) of
        (snapshot, balance) \<Rightarrow>
          (case decide snapshot org of
             None \<Rightarrow> None
           | Some (Inl e) \<Rightarrow> Some (Inl e)
           | Some (Inr _) \<Rightarrow>
               if en_credit_gate_active (be_entitlements env) org \<and> balance \<le> 0
               then Some (Inl (OutOfCredit org balance)) else Some (Inr ())))"

definition check_or_fail :: "billing_env \<Rightarrow> billing_db \<Rightarrow> uuid \<Rightarrow> (unit, billing_error) result option" where
  "check_or_fail env db org = gate env db None org"

definition check_or_fail_for_user ::
  "billing_env \<Rightarrow> billing_db \<Rightarrow> uuid \<Rightarrow> uuid \<Rightarrow> (unit, billing_error) result option" where
  "check_or_fail_for_user env db user org = gate env db (Some user) org"

section \<open>Settle\<close>

text \<open>
  Rust divides an \<open>i128\<close>: exact, truncating; both factors are positive. The first \<open>None\<close> is a
  failed assertion, the second the failed conversion back to \<open>i64\<close>.
\<close>

definition warn_threshold_micros :: "int \<Rightarrow> int \<Rightarrow> int option" where
  "warn_threshold_micros cap bps =
     (if \<not> (cap > 0 \<and> bps > 0) then None
      else let t = cap * bps div int WARN_FULL in if t > i64_max then None else Some t)"

definition fits_i64 :: "int \<Rightarrow> bool" where
  "fits_i64 n \<longleftrightarrow> - i64_max - 1 \<le> n \<and> n \<le> i64_max"

text \<open>\<open>SETTLE\<close>: the upsert of the period total.\<close>

definition add_usage ::
  "billing_db \<Rightarrow> uuid \<Rightarrow> int \<Rightarrow> int \<Rightarrow> (int \<times> billing_db, db_error) result" where
  "add_usage db org period cost =
     (case bd_usage db (org, period) of
        None \<Rightarrow>
          if org \<notin> set (bd_orgs db) then Inl ForeignKeyViolation
          else if cost < 0 then Inl CheckViolation
          else Inr (cost, db\<lparr>bd_usage := (bd_usage db)((org, period) \<mapsto> \<lparr>us_used = cost, us_warned_at = None\<rparr>)\<rparr>)
      | Some u \<Rightarrow>
          let used = us_used u + cost in
          if \<not> fits_i64 used then Inl NumericOutOfRange
          else if used < 0 then Inl CheckViolation
          else Inr (used, db\<lparr>bd_usage := (bd_usage db)((org, period) \<mapsto> u\<lparr>us_used := used\<rparr>)\<rparr>))"

definition mark_warned :: "billing_db \<Rightarrow> uuid \<Rightarrow> int \<Rightarrow> timestamp \<Rightarrow> bool \<times> billing_db" where
  "mark_warned db org period now =
     (case bd_usage db (org, period) of
        Some u \<Rightarrow>
          if us_warned_at u = None
          then (True, db\<lparr>bd_usage := (bd_usage db)((org, period) \<mapsto> u\<lparr>us_warned_at := Some now\<rparr>)\<rparr>)
          else (False, db)
      | None \<Rightarrow> (False, db))"

definition fire_warn_once ::
  "billing_db \<Rightarrow> uuid \<Rightarrow> int \<Rightarrow> int \<Rightarrow> timestamp \<Rightarrow> (bool \<times> billing_db) option" where
  "fire_warn_once db org period used now =
     (case bd_billing db org of
        None \<Rightarrow> Some (False, db)
      | Some b \<Rightarrow>
          (case ob_cap b of
             None \<Rightarrow> Some (False, db)
           | Some cap \<Rightarrow>
               (case warn_threshold_micros cap (ob_warn_bps b) of
                  None \<Rightarrow> None
                | Some t \<Rightarrow> if used < t then Some (False, db) else Some (mark_warned db org period now))))"

definition key_used :: "billing_db \<Rightarrow> idempotency_key option \<Rightarrow> bool" where
  "key_used db k \<longleftrightarrow> k \<noteq> None \<and> (\<exists>r \<in> set (bd_ledger db). lr_key r = k)"

definition ledger_id_taken :: "billing_db \<Rightarrow> uuid \<Rightarrow> bool" where
  "ledger_id_taken db i \<longleftrightarrow> (\<exists>r \<in> set (bd_ledger db). lr_id r = i)"

text \<open>The assertions made on the totals a statement returns.\<close>

definition totals_ok :: "credits_row \<Rightarrow> bool" where
  "totals_ok c \<longleftrightarrow> cr_granted c \<ge> 0 \<and> cr_used c \<ge> 0 \<and> cr_balance c = cr_granted c - cr_used c"

text \<open>\<open>SETTLE_DEBIT_CREDITS\<close>; outer \<open>None\<close> is a failed assertion.\<close>

definition debit_credits ::
  "billing_env \<Rightarrow> billing_db \<Rightarrow> uuid \<Rightarrow> uuid \<Rightarrow> int \<Rightarrow> idempotency_key option
   \<Rightarrow> (billing_db, db_error) result option" where
  "debit_credits env db lid org cost key =
     (if \<not> en_credit_gate_active (be_entitlements env) org \<or> cost = 0 then Some (Inr db)
      else (case bd_credits db org of
          None \<Rightarrow> Some (Inr db)
        | Some c \<Rightarrow>
            if key_used db key then Some (Inr db)
            else if ledger_id_taken db lid then Some (Inl UniqueViolation)
            else
              (let c' = c\<lparr>cr_balance := cr_balance c - cost, cr_used := cr_used c + cost\<rparr>;
                   row = \<lparr>lr_id = lid, lr_org = org, lr_delta = - cost, lr_kind = Debit, lr_reason = Usage,
                     lr_key = key, lr_actor = None, lr_created_at = be_now env\<rparr>
               in if \<not> (fits_i64 (cr_balance c') \<and> fits_i64 (cr_used c')) then Some (Inl NumericOutOfRange)
                  else if cr_used c' < 0 then Some (Inl CheckViolation)
                  else if \<not> totals_ok c' then None
                  else Some (Inr (db\<lparr>bd_credits := (bd_credits db)(org \<mapsto> c'),
                                    bd_ledger := bd_ledger db @ [row]\<rparr>)))))"

definition settle ::
  "billing_env \<Rightarrow> billing_db \<Rightarrow> uuid \<Rightarrow> uuid \<Rightarrow> int \<Rightarrow> idempotency_key option
   \<Rightarrow> (unit, billing_error) result option \<times> billing_db" where
  "settle env db lid org cost key =
     (case add_usage db org (be_period env) cost of
        Inl e \<Rightarrow> (Some (Inl (BillingDb e)), db)
      | Inr (used, db1) \<Rightarrow>
          if used < 0 then (None, db)
          else (case fire_warn_once db1 org (be_period env) used (be_now env) of
              None \<Rightarrow> (None, db)
            | Some (_, db2) \<Rightarrow>
                (case debit_credits env db2 lid org cost key of
                   None \<Rightarrow> (None, db)
                 | Some (Inl e) \<Rightarrow> (Some (Inl (BillingDb e)), db)
                 | Some (Inr db3) \<Rightarrow> (Some (Inr ()), db3))))"

section \<open>Grants\<close>

text \<open>\<open>GRANT_UPSERT_CREDITS\<close>\<close>

definition upsert_credits :: "billing_db \<Rightarrow> uuid \<Rightarrow> int \<Rightarrow> (credits_row, db_error) result" where
  "upsert_credits db org amount =
     (case bd_credits db org of
        None \<Rightarrow> Inr \<lparr>cr_balance = amount, cr_granted = amount, cr_used = 0\<rparr>
      | Some c \<Rightarrow>
          if \<not> (fits_i64 (cr_balance c + amount) \<and> fits_i64 (cr_granted c + amount)) then Inl NumericOutOfRange
          else Inr (c\<lparr>cr_balance := cr_balance c + amount, cr_granted := cr_granted c + amount\<rparr>))"

definition grant_credit ::
  "billing_env \<Rightarrow> billing_db \<Rightarrow> uuid \<Rightarrow> uuid \<Rightarrow> int \<Rightarrow> ledger_reason \<Rightarrow> idempotency_key \<Rightarrow> uuid option
   \<Rightarrow> (unit, billing_error) result option \<times> billing_db" where
  "grant_credit env db lid org amount reason key actor =
     (if \<not> delta_of_grant amount > 0 then (None, db)
      else if key_used db (Some key) then (Some (Inr ()), db)
      else if ledger_id_taken db lid then (Some (Inl (BillingDb UniqueViolation)), db)
      else if org \<notin> set (bd_orgs db) then (Some (Inl (BillingDb ForeignKeyViolation)), db)
      else
        (let row = \<lparr>lr_id = lid, lr_org = org, lr_delta = delta_of_grant amount, lr_kind = Grant,
               lr_reason = reason, lr_key = Some key, lr_actor = actor, lr_created_at = be_now env\<rparr>
         in (case upsert_credits db org amount of
               Inl e \<Rightarrow> (Some (Inl (BillingDb e)), db)
             | Inr c \<Rightarrow>
                 if \<not> totals_ok c then (None, db)
                 else (Some (Inr ()), db\<lparr>bd_credits := (bd_credits db)(org \<mapsto> c),
                                        bd_ledger := bd_ledger db @ [row]\<rparr>))))"

section \<open>Reads and configuration\<close>

record credit_summary =
  cs_balance :: int
  cs_granted :: int
  cs_used :: int
  cs_recent :: "ledger_row list"

definition read_credits ::
  "billing_db \<Rightarrow> uuid \<Rightarrow> uuid \<Rightarrow> int \<Rightarrow> credit_summary option" where
  "read_credits db user org limit =
     (if \<not> limit > 0 then None
      else
        (let v = bd_visible db (Some user) org;
             c = (case see v (bd_credits db org) of
                    Some c \<Rightarrow> c | None \<Rightarrow> \<lparr>cr_balance = 0, cr_granted = 0, cr_used = 0\<rparr>);
             recent = take (nat limit)
               (sort_key (\<lambda>r. - lr_created_at r) (filter (\<lambda>r. lr_org r = org \<and> v) (bd_ledger db)))
         in if \<not> (cr_granted c \<ge> 0 \<and> cr_used c \<ge> 0) then None
            else Some \<lparr>cs_balance = cr_balance c, cs_granted = cr_granted c, cs_used = cr_used c,
                       cs_recent = recent\<rparr>))"

record billing_config =
  bc_cap :: "int option"
  bc_warn_bps :: nat
  bc_used :: int
  bc_warned_at :: "timestamp option"
  bc_period :: int

definition read_config :: "billing_db \<Rightarrow> uuid \<Rightarrow> uuid \<Rightarrow> int \<Rightarrow> billing_config option" where
  "read_config db user org period =
     (let v = bd_visible db (Some user) org;
          b = see v (bd_billing db org);
          u = see v (bd_usage db (org, period));
          used = (case u of None \<Rightarrow> 0 | Some u \<Rightarrow> us_used u);
          bps = (case b of None \<Rightarrow> DEFAULT_WARN_BPS
                 | Some b \<Rightarrow> if 0 \<le> ob_warn_bps b \<and> ob_warn_bps b < 2 ^ 16
                             then nat (ob_warn_bps b) else DEFAULT_WARN_BPS)
      in if \<not> used \<ge> 0 then None
         else Some \<lparr>bc_cap = (case b of None \<Rightarrow> None | Some b \<Rightarrow> ob_cap b), bc_warn_bps = bps,
                    bc_used = used, bc_warned_at = (case u of None \<Rightarrow> None | Some u \<Rightarrow> us_warned_at u),
                    bc_period = period\<rparr>)"

definition get_config :: "billing_env \<Rightarrow> billing_db \<Rightarrow> uuid \<Rightarrow> uuid \<Rightarrow> billing_config option" where
  "get_config env db user org = read_config db user org (be_period env)"

text \<open>\<open>WRITE_CONFIG\<close> is checked against the policy of both the new row and the one it updates.\<close>

definition set_config ::
  "billing_env \<Rightarrow> billing_db \<Rightarrow> uuid \<Rightarrow> uuid \<Rightarrow> int option \<Rightarrow> nat
   \<Rightarrow> (billing_config, billing_error) result option \<times> billing_db" where
  "set_config env db user org cap warn =
     (if \<not> bd_visible db (Some user) org then (Some (Inl (BillingDb RlsViolation)), db)
      else if org \<notin> set (bd_orgs db) then (Some (Inl (BillingDb ForeignKeyViolation)), db)
      else
        (let db' = db\<lparr>bd_billing := (bd_billing db)(org \<mapsto> \<lparr>ob_cap = cap, ob_warn_bps = int warn\<rparr>)\<rparr>
         in (case read_config db' user org (be_period env) of
               None \<Rightarrow> (None, db)
             | Some c \<Rightarrow> (Some (Inr c), db'))))"

section \<open>The turn's calls\<close>

datatype turn_gate_error = TurnBillingExceeded uuid | TurnOutOfCredit uuid

text \<open>Outer \<open>None\<close> is a panic of the gate. A database error lets the turn through.\<close>

definition billing_gate ::
  "billing_env option \<Rightarrow> billing_db \<Rightarrow> uuid \<Rightarrow> bool \<Rightarrow> (unit, turn_gate_error) result option" where
  "billing_gate wired db org is_byo =
     (if is_byo then Some (Inr ())
      else (case wired of
          None \<Rightarrow> Some (Inr ())
        | Some env \<Rightarrow>
            (case check_or_fail env db org of
               None \<Rightarrow> None
             | Some (Inr _) \<Rightarrow> Some (Inr ())
             | Some (Inl (Exceeded _ _ _)) \<Rightarrow> Some (Inl (TurnBillingExceeded org))
             | Some (Inl (OutOfCredit _ _)) \<Rightarrow> Some (Inl (TurnOutOfCredit org))
             | Some (Inl (BillingDb _)) \<Rightarrow> Some (Inr ()))))"

definition usage_key :: "(uuid \<Rightarrow> string) \<Rightarrow> uuid \<Rightarrow> nat \<Rightarrow> idempotency_key option" where
  "usage_key uuid_str request index =
     (case idempotency_key_try_from (''usage:'' @ uuid_str request @ '':'' @ show_nat index) of
        Inl _ \<Rightarrow> None | Inr k \<Rightarrow> Some k)"

text \<open>\<open>False\<close> is a panic; an error is logged and dropped.\<close>

definition billing_settle ::
  "(uuid \<Rightarrow> string) \<Rightarrow> billing_env option \<Rightarrow> billing_db \<Rightarrow> uuid \<Rightarrow> model \<Rightarrow> uuid \<Rightarrow> uuid \<Rightarrow> nat \<Rightarrow> usage
   \<Rightarrow> bool \<Rightarrow> bool \<times> billing_db" where
  "billing_settle uuid_str wired db lid m org request index u is_byo =
     (case turn_cost (price_for m) u of
        None \<Rightarrow> (False, db)
      | Some cost \<Rightarrow>
          if is_byo then (True, db)
          else (case wired of
              None \<Rightarrow> (True, db)
            | Some env \<Rightarrow>
                (case settle env db lid org cost (usage_key uuid_str request index) of
                   (None, db') \<Rightarrow> (False, db')
                 | (Some _, db') \<Rightarrow> (True, db'))))"

end
