(* ===== verification/Billing_Laws.thy ===== *)
theory Billing_Laws
  imports Billing
begin

text \<open>
  The billing tables as a transition system: what each operation keeps of the table invariant
  (the materialized credit totals agree with the ledger) and the order no operation leaves (the
  ledger is append-only, a period's total never falls, its warning is never unset).
\<close>

section \<open>Invariant\<close>

definition ledger_sum :: "ledger_kind \<Rightarrow> uuid \<Rightarrow> ledger_row list \<Rightarrow> int" where
  "ledger_sum k org rows = sum_list (map lr_delta (filter (\<lambda>r. lr_org r = org \<and> lr_kind r = k) rows))"

lemma ledger_sum_snoc:
  "ledger_sum k org (rows @ [r]) =
     ledger_sum k org rows + (if lr_org r = org \<and> lr_kind r = k then lr_delta r else 0)"
  by (simp add: ledger_sum_def)

definition entry_ok :: "ledger_row \<Rightarrow> bool" where
  "entry_ok r \<longleftrightarrow> lr_kind r = Grant \<and> lr_delta r > 0 \<or> lr_kind r = Debit \<and> lr_delta r < 0 \<and> lr_reason r = Usage"

definition entry_keys :: "ledger_row list \<Rightarrow> idempotency_key option list" where
  "entry_keys rows = map lr_key (filter (\<lambda>r. lr_key r \<noteq> None) rows)"

definition credits_agree :: "ledger_row list \<Rightarrow> uuid \<Rightarrow> credits_row option \<Rightarrow> bool" where
  "credits_agree rows org c = (case c of
      None \<Rightarrow> (\<forall>r \<in> set rows. lr_org r \<noteq> org)
    | Some c \<Rightarrow> cr_granted c = ledger_sum Grant org rows \<and> cr_used c = - ledger_sum Debit org rows
        \<and> cr_balance c = cr_granted c - cr_used c)"

definition ledger_inv :: "billing_db \<Rightarrow> bool" where
  "ledger_inv db \<longleftrightarrow> distinct (map lr_id (bd_ledger db)) \<and> distinct (entry_keys (bd_ledger db))
     \<and> (\<forall>r \<in> set (bd_ledger db). entry_ok r)
     \<and> (\<forall>org. credits_agree (bd_ledger db) org (bd_credits db org))"

definition config_inv :: "billing_db \<Rightarrow> bool" where
  "config_inv db \<longleftrightarrow> (\<forall>org b. bd_billing db org = Some b \<longrightarrow>
     0 < ob_warn_bps b \<and> ob_warn_bps b \<le> int WARN_FULL
     \<and> (\<forall>cap. ob_cap b = Some cap \<longrightarrow> 0 < cap \<and> cap \<le> i64_max))"

definition usage_inv :: "billing_db \<Rightarrow> bool" where
  "usage_inv db \<longleftrightarrow> (\<forall>k u. bd_usage db k = Some u \<longrightarrow> 0 \<le> us_used u)"

definition billing_inv :: "billing_db \<Rightarrow> bool" where
  "billing_inv db \<longleftrightarrow> ledger_inv db \<and> config_inv db \<and> usage_inv db"

definition billing_init :: "billing_db \<Rightarrow> bool" where
  "billing_init db \<longleftrightarrow> bd_billing db = Map.empty \<and> bd_usage db = Map.empty
     \<and> bd_credits db = Map.empty \<and> bd_ledger db = []"

lemma billing_init_inv: "billing_init db \<Longrightarrow> billing_inv db"
  by (simp add: billing_init_def billing_inv_def ledger_inv_def config_inv_def usage_inv_def
      entry_keys_def credits_agree_def)

lemma sum_list_nonneg_map: "(\<And>r. r \<in> set xs \<Longrightarrow> 0 \<le> (f r :: int)) \<Longrightarrow> 0 \<le> sum_list (map f xs)"
  by (induction xs) (auto intro: add_nonneg_nonneg)

lemma sum_list_nonpos_map: "(\<And>r. r \<in> set xs \<Longrightarrow> (f r :: int) \<le> 0) \<Longrightarrow> sum_list (map f xs) \<le> 0"
  by (induction xs) (auto intro: add_nonpos_nonpos)

lemma ledger_sum_signs:
  assumes "\<forall>r \<in> set rows. entry_ok r"
  shows "0 \<le> ledger_sum Grant org rows" "ledger_sum Debit org rows \<le> 0"
proof -
  show "0 \<le> ledger_sum Grant org rows"
    unfolding ledger_sum_def using assms by (intro sum_list_nonneg_map) (auto simp: entry_ok_def)
  show "ledger_sum Debit org rows \<le> 0"
    unfolding ledger_sum_def using assms by (intro sum_list_nonpos_map) (auto simp: entry_ok_def)
qed

lemma ledger_inv_totals:
  assumes "ledger_inv db" and "bd_credits db org = Some c"
  shows "0 \<le> cr_granted c" "0 \<le> cr_used c" "cr_balance c = cr_granted c - cr_used c"
  using assms ledger_sum_signs [of "bd_ledger db" org]
  by (auto simp: ledger_inv_def credits_agree_def split: option.splits dest!: spec [of _ org])

section \<open>One entry at a time\<close>

lemma key_used_iff: "key_used db k \<longleftrightarrow> k \<in> set (entry_keys (bd_ledger db))"
  by (auto simp: key_used_def entry_keys_def)

lemma append_entry_inv:
  assumes inv: "ledger_inv db" and row: "entry_ok r" "lr_org r = org"
    and fresh: "\<not> ledger_id_taken db (lr_id r)" "\<not> key_used db (lr_key r)"
    and agree: "credits_agree (bd_ledger db @ [r]) org (Some c)"
  shows "ledger_inv (db\<lparr>bd_credits := (bd_credits db)(org \<mapsto> c), bd_ledger := bd_ledger db @ [r]\<rparr>)"
proof -
  have other: "credits_agree (bd_ledger db @ [r]) o' x"
    if "o' \<noteq> org" "credits_agree (bd_ledger db) o' x" for o' x
    using that row(2) by (cases x) (auto simp: credits_agree_def ledger_sum_snoc)
  have keys: "distinct (entry_keys (bd_ledger db @ [r]))"
    using inv fresh(2) by (auto simp: ledger_inv_def key_used_iff entry_keys_def)
  show ?thesis
    using inv row fresh(1) agree other keys
    by (auto simp: ledger_inv_def ledger_id_taken_def)
qed

text \<open>Operations that move neither credits nor ledger.\<close>

definition same_ledger :: "billing_db \<Rightarrow> billing_db \<Rightarrow> bool" where
  "same_ledger db db' \<longleftrightarrow> bd_credits db' = bd_credits db \<and> bd_ledger db' = bd_ledger db
     \<and> bd_billing db' = bd_billing db \<and> bd_orgs db' = bd_orgs db \<and> bd_members db' = bd_members db"

lemma same_ledger_inv:
  "same_ledger db db' \<Longrightarrow> ledger_inv db \<Longrightarrow> ledger_inv db'"
  "same_ledger db db' \<Longrightarrow> config_inv db \<Longrightarrow> config_inv db'"
  by (simp_all add: same_ledger_def ledger_inv_def config_inv_def)

text \<open>How a period's total may move.\<close>

definition usage_row_le :: "usage_row \<Rightarrow> usage_row \<Rightarrow> bool" where
  "usage_row_le u u' \<longleftrightarrow> us_used u \<le> us_used u'
     \<and> (us_warned_at u \<noteq> None \<longrightarrow> us_warned_at u' = us_warned_at u)"

definition usage_le :: "billing_db \<Rightarrow> billing_db \<Rightarrow> bool" where
  "usage_le db db' \<longleftrightarrow> (\<forall>k u. bd_usage db k = Some u \<longrightarrow>
     (\<exists>u'. bd_usage db' k = Some u' \<and> usage_row_le u u'))"

lemma usage_row_le_refl: "usage_row_le u u"
  by (simp add: usage_row_le_def)

lemma usage_row_le_trans: "usage_row_le u v \<Longrightarrow> usage_row_le v w \<Longrightarrow> usage_row_le u w"
  by (auto simp: usage_row_le_def)

lemma usage_le_refl: "usage_le db db"
  by (simp add: usage_le_def usage_row_le_refl)

lemma usage_le_trans: "usage_le a b \<Longrightarrow> usage_le b c \<Longrightarrow> usage_le a c"
  unfolding usage_le_def by (blast intro: usage_row_le_trans)

lemma add_usage_Inr:
  assumes "add_usage db org period cost = Inr (used, db')" and "0 \<le> cost" and "usage_inv db"
  shows "usage_inv db'" "usage_le db db'" "same_ledger db db'" "0 \<le> used"
    "bd_usage db' = (bd_usage db)((org, period) \<mapsto>
       (case bd_usage db (org, period) of None \<Rightarrow> \<lparr>us_used = cost, us_warned_at = None\<rparr>
        | Some u \<Rightarrow> u\<lparr>us_used := us_used u + cost\<rparr>))"
    "used = (case bd_usage db (org, period) of None \<Rightarrow> cost | Some u \<Rightarrow> us_used u + cost)"
  using assms by (auto simp: add_usage_def Let_def usage_inv_def usage_le_def usage_row_le_def same_ledger_def
      split: option.splits if_splits)

lemma mark_warned_keeps:
  assumes "mark_warned db org period now = (b, db')" and "usage_inv db"
  shows "usage_inv db'" "usage_le db db'" "same_ledger db db'"
    "map_option us_used \<circ> bd_usage db' = map_option us_used \<circ> bd_usage db"
  using assms by (auto simp: mark_warned_def usage_inv_def usage_le_def usage_row_le_def same_ledger_def fun_eq_iff
      split: option.splits if_splits)

lemma fire_warn_keeps:
  assumes "fire_warn_once db org period used now = Some (b, db')" and "usage_inv db"
  shows "usage_inv db'" "usage_le db db'" "same_ledger db db'"
    "map_option us_used \<circ> bd_usage db' = map_option us_used \<circ> bd_usage db"
proof -
  have "db' = db \<or> mark_warned db org period now = (b, db')"
    using assms(1) by (auto simp: fire_warn_once_def split: option.splits if_splits)
  then show "usage_inv db'" "usage_le db db'" "same_ledger db db'"
    "map_option us_used \<circ> bd_usage db' = map_option us_used \<circ> bd_usage db"
    using mark_warned_keeps assms(2) by (auto simp: usage_le_refl same_ledger_def)
qed

text \<open>The warning threshold is at most the cap, so it never overflows.\<close>

lemma warn_threshold_le_cap:
  assumes "0 < cap" "0 < bps" "bps \<le> int WARN_FULL"
  shows "0 \<le> cap * bps div int WARN_FULL" "cap * bps div int WARN_FULL \<le> cap"
proof -
  have "cap * bps \<le> cap * int WARN_FULL" using assms by (intro mult_left_mono) auto
  then have "cap * bps div int WARN_FULL \<le> cap * int WARN_FULL div int WARN_FULL"
    by (intro zdiv_mono1) (simp_all add: WARN_FULL_def)
  then show "cap * bps div int WARN_FULL \<le> cap" by (simp add: WARN_FULL_def)
  show "0 \<le> cap * bps div int WARN_FULL"
    using assms by (intro pos_imp_zdiv_nonneg_iff [THEN iffD2]) (auto simp: WARN_FULL_def)
qed

lemma fire_warn_total:
  assumes "config_inv db"
  shows "fire_warn_once db org period used now \<noteq> None"
proof (cases "bd_billing db org")
  case (Some b)
  show ?thesis
  proof (cases "ob_cap b")
    case (Some cap)
    have b: "0 < cap" "cap \<le> i64_max" "0 < ob_warn_bps b" "ob_warn_bps b \<le> int WARN_FULL"
      using assms \<open>bd_billing db org = Some b\<close> Some by (auto simp: config_inv_def)
    show ?thesis
      using warn_threshold_le_cap [OF b(1,3,4)] b \<open>bd_billing db org = Some b\<close> Some
      by (auto simp: fire_warn_once_def warn_threshold_micros_def Let_def)
  qed (simp add: fire_warn_once_def \<open>bd_billing db org = Some b\<close>)
qed (simp add: fire_warn_once_def)

section \<open>Debit, settle, grant\<close>

lemma debit_credits_cases:
  assumes "ledger_inv db" and "0 \<le> cost"
  shows "debit_credits env db lid org cost key \<noteq> None"
    and "debit_credits env db lid org cost key = Some (Inr db') \<Longrightarrow>
      db' = db \<or> (\<exists>c. bd_credits db org = Some c \<and> \<not> key_used db key \<and> \<not> ledger_id_taken db lid \<and> 0 < cost
        \<and> db' = db\<lparr>bd_credits := (bd_credits db)(org \<mapsto>
              c\<lparr>cr_balance := cr_balance c - cost, cr_used := cr_used c + cost\<rparr>),
            bd_ledger := bd_ledger db @ [\<lparr>lr_id = lid, lr_org = org, lr_delta = - cost, lr_kind = Debit,
              lr_reason = Usage, lr_key = key, lr_actor = None, lr_created_at = be_now env\<rparr>]\<rparr>)"
  using assms ledger_inv_totals [OF assms(1), of org]
  by (auto simp: debit_credits_def Let_def totals_ok_def split: option.splits if_splits)

lemma debit_credits_inv:
  assumes inv: "ledger_inv db" and cost: "0 \<le> cost"
    and run: "debit_credits env db lid org cost key = Some (Inr db')"
  shows "ledger_inv db'"
  using debit_credits_cases(2) [OF inv cost run]
proof (elim disjE exE conjE)
  fix c
  assume c: "bd_credits db org = Some c" and fresh: "\<not> key_used db key" "\<not> ledger_id_taken db lid" "0 < cost"
    and db': "db' = db\<lparr>bd_credits := (bd_credits db)(org \<mapsto>
              c\<lparr>cr_balance := cr_balance c - cost, cr_used := cr_used c + cost\<rparr>),
            bd_ledger := bd_ledger db @ [\<lparr>lr_id = lid, lr_org = org, lr_delta = - cost, lr_kind = Debit,
              lr_reason = Usage, lr_key = key, lr_actor = None, lr_created_at = be_now env\<rparr>]\<rparr>"
  have "credits_agree (bd_ledger db) org (Some c)"
    using inv c by (auto simp: ledger_inv_def dest!: spec [of _ org])
  then show ?thesis
    unfolding db' using fresh by (intro append_entry_inv [OF inv])
      (auto simp: entry_ok_def credits_agree_def ledger_sum_snoc)
qed (simp add: inv)

lemma debit_credits_frame:
  assumes "ledger_inv db" "0 \<le> cost" "debit_credits env db lid org cost key = Some (Inr db')"
  shows "bd_usage db' = bd_usage db" "bd_billing db' = bd_billing db"
    "\<exists>rows. bd_ledger db' = bd_ledger db @ rows"
  using debit_credits_cases(2) [OF assms] by auto

text \<open>A settle that goes through: the stages it goes through.\<close>

lemma settle_okE:
  assumes "settle env db lid org cost key = (Some (Inr ()), db')"
  obtains used db1 b db2 where
    "add_usage db org (be_period env) cost = Inr (used, db1)"
    "fire_warn_once db1 org (be_period env) used (be_now env) = Some (b, db2)"
    "debit_credits env db2 lid org cost key = Some (Inr db')"
  using assms by (auto simp: settle_def split: sum.splits prod.splits option.splits if_splits)

lemma settle_err: "fst (settle env db lid org cost key) \<noteq> Some (Inr ()) \<Longrightarrow>
    snd (settle env db lid org cost key) = db"
  by (auto simp: settle_def split: sum.splits prod.splits option.splits if_splits)

lemma settle_no_panic:
  assumes "billing_inv db" "0 \<le> cost"
  shows "fst (settle env db lid org cost key) \<noteq> None"
proof (cases "add_usage db org (be_period env) cost")
  case (Inr x)
  obtain used db1 where x: "x = (used, db1)" by (cases x)
  have inv: "ledger_inv db" "config_inv db" "usage_inv db" using assms(1) by (auto simp: billing_inv_def)
  note add = add_usage_Inr [OF Inr [unfolded x] assms(2) inv(3)]
  note inv1 = same_ledger_inv [OF add(3)]
  obtain b db2 where warn: "fire_warn_once db1 org (be_period env) used (be_now env) = Some (b, db2)"
    using fire_warn_total [OF inv1(2) [OF inv(2)]] by fastforce
  have "ledger_inv db2"
    by (rule same_ledger_inv(1) [OF fire_warn_keeps(3) [OF warn add(1)] inv1(1) [OF inv(1)]])
  then have "debit_credits env db2 lid org cost key \<noteq> None"
    by (rule debit_credits_cases(1) [OF _ assms(2)])
  then show ?thesis
    using Inr x add(4) warn by (auto simp: settle_def split: option.splits sum.splits)
qed (simp add: settle_def)

lemma settle_inv:
  assumes "billing_inv db" "0 \<le> cost"
  shows "billing_inv (snd (settle env db lid org cost key))"
    and "usage_le db (snd (settle env db lid org cost key))"
    and "\<exists>rows. bd_ledger (snd (settle env db lid org cost key)) = bd_ledger db @ rows"
proof -
  let ?s = "settle env db lid org cost key"
  have inv: "ledger_inv db" "config_inv db" "usage_inv db" using assms(1) by (auto simp: billing_inv_def)
  have "billing_inv (snd ?s) \<and> usage_le db (snd ?s) \<and> (\<exists>rows. bd_ledger (snd ?s) = bd_ledger db @ rows)"
  proof (cases "fst ?s = Some (Inr ())")
    case True
    then have s: "?s = (Some (Inr ()), snd ?s)" by (cases ?s) simp
    from settle_okE [OF s] obtain used db1 b db2 where
      add: "add_usage db org (be_period env) cost = Inr (used, db1)" and
      warn: "fire_warn_once db1 org (be_period env) used (be_now env) = Some (b, db2)" and
      debit: "debit_credits env db2 lid org cost key = Some (Inr (snd ?s))" by blast
    note a = add_usage_Inr [OF add assms(2) inv(3)]
    note w = fire_warn_keeps [OF warn a(1)]
    have l2: "ledger_inv db2" "config_inv db2"
      using same_ledger_inv a(3) w(3) inv by blast+
    note d = debit_credits_frame [OF l2(1) assms(2) debit]
    have "usage_inv (snd ?s)" "config_inv (snd ?s)"
      using w(1) l2(2) d(1,2) by (simp_all add: usage_inv_def config_inv_def)
    moreover have "usage_le db (snd ?s)"
      using usage_le_trans [OF a(2) w(2)] d(1) by (simp add: usage_le_def)
    moreover have "bd_ledger db2 = bd_ledger db" using a(3) w(3) by (simp add: same_ledger_def)
    ultimately show ?thesis
      using debit_credits_inv [OF l2(1) assms(2) debit] d(3) by (simp add: billing_inv_def)
  next
    case False
    then show ?thesis using assms(1) by (simp add: settle_err usage_le_refl)
  qed
  then show "billing_inv (snd ?s)" "usage_le db (snd ?s)" "\<exists>rows. bd_ledger (snd ?s) = bd_ledger db @ rows"
    by blast+
qed

lemma grant_credit_cases:
  assumes "ledger_inv db" "0 < amount"
  shows "fst (grant_credit env db lid org amount reason key actor) \<noteq> None"
    and "ledger_inv (snd (grant_credit env db lid org amount reason key actor))"
    and "bd_usage (snd (grant_credit env db lid org amount reason key actor)) = bd_usage db"
    and "bd_billing (snd (grant_credit env db lid org amount reason key actor)) = bd_billing db"
    and "\<exists>rows. bd_ledger (snd (grant_credit env db lid org amount reason key actor)) = bd_ledger db @ rows"
proof -
  let ?g = "grant_credit env db lid org amount reason key actor"
  let ?row = "\<lparr>lr_id = lid, lr_org = org, lr_delta = amount, lr_kind = Grant, lr_reason = reason,
    lr_key = Some key, lr_actor = actor, lr_created_at = be_now env\<rparr>"
  have agree: "credits_agree (bd_ledger db) org (bd_credits db org)"
    using assms(1) by (simp add: ledger_inv_def)
  have up: "totals_ok c" "credits_agree (bd_ledger db @ [?row]) org (Some c)"
    if "upsert_credits db org amount = Inr c" for c
    using that agree assms(2) ledger_inv_totals [OF assms(1), of org]
    by (auto simp: upsert_credits_def totals_ok_def credits_agree_def ledger_sum_snoc ledger_sum_def
        filter_empty_conv Let_def split: option.splits if_splits)
  show "fst ?g \<noteq> None"
    using up(1) assms(2) by (auto simp: grant_credit_def delta_of_grant_def Let_def split: sum.splits)
  have "snd ?g = db \<or> (\<exists>c. upsert_credits db org amount = Inr c \<and> \<not> key_used db (Some key)
      \<and> \<not> ledger_id_taken db lid
      \<and> snd ?g = db\<lparr>bd_credits := (bd_credits db)(org \<mapsto> c), bd_ledger := bd_ledger db @ [?row]\<rparr>)"
    by (auto simp: grant_credit_def delta_of_grant_def Let_def split: sum.splits)
  then show "ledger_inv (snd ?g)" "bd_usage (snd ?g) = bd_usage db" "bd_billing (snd ?g) = bd_billing db"
    "\<exists>rows. bd_ledger (snd ?g) = bd_ledger db @ rows"
    using assms up(2) by (auto intro!: append_entry_inv simp: entry_ok_def)
qed

lemma set_config_cases:
  assumes "config_inv db" "0 < warn" "warn \<le> WARN_FULL" "\<And>c. cap = Some c \<Longrightarrow> 0 < c \<and> c \<le> i64_max"
  shows "config_inv (snd (set_config env db user org cap warn))"
    and "bd_usage (snd (set_config env db user org cap warn)) = bd_usage db"
    and "bd_credits (snd (set_config env db user org cap warn)) = bd_credits db"
    and "bd_ledger (snd (set_config env db user org cap warn)) = bd_ledger db"
  using assms by (auto simp: set_config_def Let_def config_inv_def split: option.splits)

section \<open>Billing as a transition system\<close>

datatype billing_event =
    BSettle billing_env uuid uuid int "idempotency_key option"
  | BGrant billing_env uuid uuid int ledger_reason idempotency_key "uuid option"
  | BConfig billing_env uuid uuid "int option" nat

text \<open>The arguments are values of the newtypes, so within their bounds.\<close>

inductive billing_step :: "billing_db \<Rightarrow> billing_event \<Rightarrow> billing_db \<Rightarrow> bool" where
  settle: "0 \<le> cost \<Longrightarrow> cost \<le> i64_max \<Longrightarrow>
    billing_step db (BSettle env lid org cost key) (snd (settle env db lid org cost key))"
| grant: "0 < amount \<Longrightarrow> amount \<le> i64_max \<Longrightarrow>
    billing_step db (BGrant env lid org amount reason key actor)
      (snd (grant_credit env db lid org amount reason key actor))"
| config: "0 < warn \<Longrightarrow> warn \<le> WARN_FULL \<Longrightarrow> (\<And>c. cap = Some c \<Longrightarrow> 0 < c \<and> c \<le> i64_max) \<Longrightarrow>
    billing_step db (BConfig env user org cap warn) (snd (set_config env db user org cap warn))"

inductive_cases billing_settleE: "billing_step db (BSettle env lid org cost key) db'"
inductive_cases billing_grantE: "billing_step db (BGrant env lid org amount reason key actor) db'"

definition billing_le :: "billing_db \<Rightarrow> billing_db \<Rightarrow> bool" where
  "billing_le db db' \<longleftrightarrow> usage_le db db' \<and> (\<exists>rows. bd_ledger db' = bd_ledger db @ rows)"

lemma billing_step_inv: "billing_step db e db' \<Longrightarrow> billing_inv db \<Longrightarrow> billing_inv db'"
proof (induction rule: billing_step.induct)
  case (settle cost db env lid org key)
  then show ?case by (intro settle_inv)
next
  case (grant amount db env lid org reason key actor)
  then show ?case
    using grant_credit_cases [of db amount env lid org reason key actor]
    by (simp add: billing_inv_def config_inv_def usage_inv_def)
next
  case (config warn cap db env user org)
  then show ?case
    using set_config_cases [of db warn cap env user org]
    by (simp add: billing_inv_def ledger_inv_def usage_inv_def)
qed

lemma billing_step_le: "billing_step db e db' \<Longrightarrow> billing_inv db \<Longrightarrow> billing_le db db'"
proof (induction rule: billing_step.induct)
  case (settle cost db env lid org key)
  then show ?case using settle_inv(2,3) by (simp add: billing_le_def)
next
  case (grant amount db env lid org reason key actor)
  then show ?case
    using grant_credit_cases [of db amount env lid org reason key actor]
    by (simp add: billing_inv_def billing_le_def usage_le_def usage_row_le_refl)
next
  case (config warn cap db env user org)
  then show ?case
    using set_config_cases [of db warn cap env user org]
    by (simp add: billing_inv_def billing_le_def usage_le_def usage_row_le_refl)
qed

lemma billing_le_refl: "billing_le db db"
  by (simp add: billing_le_def usage_le_refl)

lemma billing_le_trans: "billing_le a b \<Longrightarrow> billing_le b c \<Longrightarrow> billing_le a c"
  unfolding billing_le_def by (metis append_assoc usage_le_trans)

interpretation billing: monotone_system billing_init billing_step billing_inv billing_le
  by unfold_locales
    (blast intro: billing_init_inv billing_step_inv billing_le_refl billing_le_trans billing_step_le)+

end
