(* ===== verification/Billing_Properties.thy ===== *)
theory Billing_Properties
  imports Billing_Laws
begin

text \<open>
  What the billing service promises: the materialized credits are the ledger's, a monthly cap is
  overrun by at most the turns in flight, and a settle is debited once per key, which is more
  often than a turn is run.
\<close>

section \<open>A sample organisation\<close>

definition sample_billing_env :: billing_env where
  "sample_billing_env = \<lparr>be_now = 5, be_period = 1,
     be_entitlements = unlimited_entitlements\<lparr>en_credit_gate_active := (\<lambda>_. True)\<rparr>\<rparr>"

definition sample_billing_db0 :: billing_db where
  "sample_billing_db0 = \<lparr>bd_orgs = [1], bd_members = [(10, 1)], bd_billing = Map.empty,
     bd_usage = Map.empty, bd_credits = Map.empty, bd_ledger = []\<rparr>"

definition sample_billing_db :: billing_db where
  "sample_billing_db = snd (grant_credit sample_billing_env sample_billing_db0 100 1 2000000 SignupBonus ''signup:1'' (Some 10))"

lemma sample_billing_reach: "reach billing_init billing_step sample_billing_db"
  unfolding sample_billing_db_def
proof (rule reach.reach_step)
  show "reach billing_init billing_step sample_billing_db0"
    by (rule reach.reach_init) (simp add: billing_init_def sample_billing_db0_def)
  show "billing_step sample_billing_db0
      (BGrant sample_billing_env 100 1 2000000 SignupBonus ''signup:1'' (Some 10))
      (snd (grant_credit sample_billing_env sample_billing_db0 100 1 2000000 SignupBonus ''signup:1'' (Some 10)))"
    by (rule billing_step.grant) (simp_all add: i64_max_def)
qed

lemma sample_billing_credits:
  "bd_credits sample_billing_db 1 = Some \<lparr>cr_balance = 2000000, cr_granted = 2000000, cr_used = 0\<rparr>"
  "map lr_id (bd_ledger sample_billing_db) = [100]"
  "map lr_key (bd_ledger sample_billing_db) = [Some ''signup:1'']"
  "bd_usage sample_billing_db = Map.empty" "bd_billing sample_billing_db = Map.empty"
  "bd_orgs sample_billing_db = [1]"
  by (simp_all add: sample_billing_db_def sample_billing_db0_def grant_credit_def delta_of_grant_def
      key_used_def ledger_id_taken_def upsert_credits_def totals_ok_def Let_def)

section \<open>The ledger and the balance\<close>

lemma ledger_total:
  assumes "\<forall>r \<in> set rows. entry_ok r"
  shows "sum_list (map lr_delta (filter (\<lambda>r. lr_org r = org) rows)) = ledger_sum Grant org rows + ledger_sum Debit org rows"
  using assms by (induction rows) (auto simp: ledger_sum_def entry_ok_def)

lemma gate_no_panic:
  assumes "billing_inv db"
  shows "gate env db actor org \<noteq> None"
proof -
  have "0 < cap" if "bd_billing db org = Some b" "ob_cap b = Some cap" for b cap
    using assms that by (auto simp: billing_inv_def config_inv_def)
  moreover have "0 \<le> us_used u" if "bd_usage db k = Some u" for k u
    using assms that by (cases k) (simp add: billing_inv_def usage_inv_def)
  ultimately show ?thesis
    by (auto simp: gate_def read_snapshot_def decide_def see_def Let_def
        split: option.splits sum.splits if_splits dest: leD)
qed

text \<open>
  C20. However settles, grants and configuration changes of any organisations interleave, an
  organisation without a credit row has no ledger entry, and one with a row has the sum of its
  entries as its balance, which is what was granted less what was used, both never negative. No
  idempotency key is in the ledger twice. No assertion of the gate, of a settle or of a grant fails.
\<close>

theorem credits_match_ledger:
  assumes "reach billing_init billing_step db"
  shows "(case bd_credits db org of
        None \<Rightarrow> filter (\<lambda>r. lr_org r = org) (bd_ledger db) = []
      | Some c \<Rightarrow> cr_balance c = sum_list (map lr_delta (filter (\<lambda>r. lr_org r = org) (bd_ledger db)))
          \<and> cr_balance c = cr_granted c - cr_used c \<and> 0 \<le> cr_granted c \<and> 0 \<le> cr_used c)
    \<and> distinct (map lr_key (filter (\<lambda>r. lr_key r \<noteq> None) (bd_ledger db)))
    \<and> gate env db actor org \<noteq> None
    \<and> (0 \<le> cost \<longrightarrow> fst (settle env db lid org cost key) \<noteq> None)
    \<and> (0 < amount \<longrightarrow> fst (grant_credit env db lid org amount reason gkey user) \<noteq> None)"
proof -
  have inv: "billing_inv db" by (rule billing.reach_inv [OF assms])
  then have l: "ledger_inv db" by (simp add: billing_inv_def)
  have agree: "credits_agree (bd_ledger db) org (bd_credits db org)" and ok: "\<forall>r \<in> set (bd_ledger db). entry_ok r"
    and keys: "distinct (entry_keys (bd_ledger db))"
    using l by (simp_all add: ledger_inv_def)
  have "case bd_credits db org of
        None \<Rightarrow> filter (\<lambda>r. lr_org r = org) (bd_ledger db) = []
      | Some c \<Rightarrow> cr_balance c = sum_list (map lr_delta (filter (\<lambda>r. lr_org r = org) (bd_ledger db)))
          \<and> cr_balance c = cr_granted c - cr_used c \<and> 0 \<le> cr_granted c \<and> 0 \<le> cr_used c"
    using agree ledger_inv_totals [OF l, of org]
    by (auto simp: credits_agree_def ledger_total [OF ok] filter_empty_conv split: option.splits)
  then show ?thesis
    using keys gate_no_panic [OF inv] settle_no_panic [OF inv] grant_credit_cases(1) [OF l]
    by (auto simp: entry_keys_def)
qed

theorem credits_match_ledger_witness:
  "sum_list (map lr_delta (filter (\<lambda>r. lr_org r = 1) (bd_ledger sample_billing_db))) = 2000000"
  using conjunct1 [OF credits_match_ledger [OF sample_billing_reach, of 1]]
  unfolding sample_billing_credits(1) option.case by simp

section \<open>How far a cap can be overrun\<close>

definition period_used :: "billing_db \<Rightarrow> uuid \<Rightarrow> int \<Rightarrow> int" where
  "period_used db org p = (case bd_usage db (org, p) of None \<Rightarrow> 0 | Some u \<Rightarrow> us_used u)"

text \<open>
  The turns of one organisation in one billing period: at most \<open>C\<close> run at once, each is admitted
  by the gate, costs at most \<open>T\<close> and settles when it ends, or ends without settling. Meanwhile the
  other organisations do what they like. The state is the tables and the number of running turns.
\<close>

datatype spend_event = Admit billing_env | Finish billing_env uuid int "idempotency_key option" | Drop | Other billing_event

fun about :: "uuid \<Rightarrow> int \<Rightarrow> billing_event \<Rightarrow> bool" where
  "about org p (BSettle env lid o' cost key) = (o' = org \<and> be_period env = p)"
| "about org p (BConfig env user o' cap warn) = (o' = org)"
| "about org p _ = False"

inductive spend_step :: "nat \<Rightarrow> nat \<Rightarrow> uuid \<Rightarrow> int \<Rightarrow> billing_db \<times> nat \<Rightarrow> spend_event \<Rightarrow> billing_db \<times> nat \<Rightarrow> bool"
  for C :: nat and T :: nat and org :: uuid and p :: int where
  admit: "n < C \<Longrightarrow> be_period env = p \<Longrightarrow> check_or_fail env db org = Some (Inr ()) \<Longrightarrow>
    spend_step C T org p (db, n) (Admit env) (db, Suc n)"
| finish: "be_period env = p \<Longrightarrow> 0 \<le> cost \<Longrightarrow> cost \<le> int T \<Longrightarrow> cost \<le> i64_max \<Longrightarrow>
    spend_step C T org p (db, Suc n) (Finish env lid cost key) (snd (settle env db lid org cost key), n)"
| drop: "spend_step C T org p (db, Suc n) Drop (db, n)"
| other: "billing_step db e db' \<Longrightarrow> \<not> about org p e \<Longrightarrow> spend_step C T org p (db, n) (Other e) (db', n)"

definition capped :: "billing_db \<Rightarrow> uuid \<Rightarrow> int \<Rightarrow> bool" where
  "capped db org cap \<longleftrightarrow> (\<exists>b. bd_billing db org = Some b \<and> ob_cap b = Some cap)"

text \<open>The period starts unspent, perhaps with turns of the previous one still running.\<close>

definition spend_init :: "nat \<Rightarrow> uuid \<Rightarrow> int \<Rightarrow> int \<Rightarrow> billing_db \<times> nat \<Rightarrow> bool" where
  "spend_init C org p cap s \<longleftrightarrow> billing_inv (fst s) \<and> capped (fst s) org cap
     \<and> bd_usage (fst s) (org, p) = None \<and> snd s \<le> C"

definition spend_inv :: "nat \<Rightarrow> nat \<Rightarrow> uuid \<Rightarrow> int \<Rightarrow> int \<Rightarrow> billing_db \<times> nat \<Rightarrow> bool" where
  "spend_inv C T org p cap s \<longleftrightarrow> billing_inv (fst s) \<and> capped (fst s) org cap \<and> snd s \<le> C
     \<and> period_used (fst s) org p + int (T * snd s) \<le> cap - 1 + int (T * C)"

lemma spend_init_inv:
  assumes "spend_init C org p cap s"
  shows "spend_inv C T org p cap s"
proof -
  have "0 < cap" using assms
    by (auto simp: spend_init_def capped_def billing_inv_def config_inv_def)
  moreover have "int (T * snd s) \<le> int (T * C)" using assms by (simp add: spend_init_def mult_le_mono2 del: of_nat_mult)
  ultimately have "int (T * snd s) \<le> cap - 1 + int (T * C)" by linarith
  then show ?thesis
    using assms by (auto simp: spend_init_def spend_inv_def period_used_def simp del: of_nat_mult)
qed

lemma admitted_under_cap:
  assumes "check_or_fail env db org = Some (Inr ())" "capped db org cap"
  shows "period_used db org (be_period env) < cap"
  using assms by (auto simp: check_or_fail_def gate_def read_snapshot_def decide_def see_def bd_visible_def
      capped_def period_used_def Let_def split: option.splits sum.splits if_splits)

lemma map_option_used: "map_option us_used \<circ> bd_usage db' = map_option us_used \<circ> bd_usage db \<Longrightarrow>
    period_used db' org p = period_used db org p"
  unfolding period_used_def
  by (drule fun_cong [of _ _ "(org, p)"]) (auto split: option.splits)

lemma settle_used:
  assumes "billing_inv db" "0 \<le> cost" "settle env db lid org cost key = (Some (Inr ()), db')"
  shows "period_used db' org (be_period env) = period_used db org (be_period env) + cost"
    and "(o', q) \<noteq> (org, be_period env) \<Longrightarrow> period_used db' o' q = period_used db o' q"
    and "bd_billing db' = bd_billing db"
proof -
  from settle_okE [OF assms(3)] obtain used db1 b db2 where
    add: "add_usage db org (be_period env) cost = Inr (used, db1)" and
    warn: "fire_warn_once db1 org (be_period env) used (be_now env) = Some (b, db2)" and
    debit: "debit_credits env db2 lid org cost key = Some (Inr db')" by blast
  have inv: "usage_inv db" "ledger_inv db" using assms(1) by (simp_all add: billing_inv_def)
  note a = add_usage_Inr [OF add assms(2) inv(1)]
  note w = fire_warn_keeps [OF warn a(1)]
  have "ledger_inv db2" using same_ledger_inv(1) a(3) w(3) inv(2) by blast
  note d = debit_credits_frame [OF this assms(2) debit]
  have eq: "period_used db' ox q = period_used db1 ox q" for ox q
    using map_option_used [OF w(4)] d(1) by (simp add: period_used_def)
  show "period_used db' org (be_period env) = period_used db org (be_period env) + cost"
    unfolding eq using a(5) by (auto simp: period_used_def split: option.splits)
  show "period_used db' o' q = period_used db o' q" if "(o', q) \<noteq> (org, be_period env)"
    unfolding eq using a(5) that by (auto simp: period_used_def)
  show "bd_billing db' = bd_billing db" using a(3) w(3) d(2) by (simp add: same_ledger_def)
qed

lemma other_keeps:
  assumes "billing_step db e db'" "\<not> about org p e" "billing_inv db"
  shows "period_used db' org p = period_used db org p" "bd_billing db' org = bd_billing db org"
proof -
  have "period_used db' org p = period_used db org p \<and> bd_billing db' org = bd_billing db org"
    using assms
  proof (induction rule: billing_step.induct)
    case (settle cost db env lid o' key)
    show ?case
    proof (cases "fst (Billing.settle env db lid o' cost key) = Some (Inr ())")
      case True
      then have "Billing.settle env db lid o' cost key = (Some (Inr ()), snd (Billing.settle env db lid o' cost key))"
        by (metis prod.collapse)
      then show ?thesis using settle_used [OF settle(4,1)] settle(3) by auto
    next
      case False
      then show ?thesis by (simp add: settle_err)
    qed
  next
    case (grant amount db env lid o' reason key actor)
    then show ?case using grant_credit_cases [of db amount] by (simp add: billing_inv_def period_used_def)
  next
    case (config warn cap db env user o')
    then show ?case by (auto simp: set_config_def period_used_def Let_def split: option.splits)
  qed
  then show "period_used db' org p = period_used db org p" "bd_billing db' org = bd_billing db org" by auto
qed

lemma spend_step_inv:
  "spend_step C T org p s e s' \<Longrightarrow> spend_inv C T org p cap s \<Longrightarrow> spend_inv C T org p cap s'"
proof (induction rule: spend_step.induct)
  case (admit n env db)
  have "period_used db org p \<le> cap - 1"
    using admitted_under_cap [of env db org cap] admit by (simp add: spend_inv_def)
  moreover have "int (T * Suc n) \<le> int (T * C)"
    using admit by (simp add: mult_le_mono2 del: of_nat_mult mult_Suc_right)
  ultimately have "period_used db org p + int (T * Suc n) \<le> cap - 1 + int (T * C)" by linarith
  then show ?case using admit by (simp add: spend_inv_def del: of_nat_mult mult_Suc_right)
next
  case (finish env cost db n lid key)
  let ?s = "settle env db lid org cost key"
  have inv: "billing_inv db" "capped db org cap" using finish by (simp_all add: spend_inv_def)
  have "period_used (snd ?s) org p \<le> period_used db org p + int T \<and> bd_billing (snd ?s) = bd_billing db"
  proof (cases "fst ?s = Some (Inr ())")
    case True
    then have "?s = (Some (Inr ()), snd ?s)" by (metis prod.collapse)
    then show ?thesis using settle_used(1,3) [OF inv(1) finish(2)] finish(1,3) by fastforce
  qed (use finish in \<open>simp add: settle_err\<close>)
  then show ?case
    using settle_inv(1) [OF inv(1) finish(2)] finish(5) inv(2)
    by (auto simp: spend_inv_def capped_def algebra_simps)
next
  case (drop db n)
  then show ?case by (auto simp: spend_inv_def algebra_simps)
next
  case (other db e db' n)
  then show ?case
    using other_keeps [OF other(1,2)] billing_step_inv [OF other(1)] by (simp add: spend_inv_def capped_def)
qed

interpretation spend: transition_system "spend_init C org p cap" "spend_step C T org p" "spend_inv C T org p cap"
  by unfold_locales (blast intro: spend_init_inv spend_step_inv)+

text \<open>
  C21. The cap is soft, but not by much. In a period that starts unspent, with at most \<open>C\<close> turns
  of the organisation running at once and each costing at most \<open>T\<close>, what is spent stays below the
  cap plus \<open>C * T\<close>, whatever the order in which the gate, the settles and other tenants' calls run.
\<close>

theorem overrun_is_bounded:
  assumes "reach (spend_init C org p cap) (spend_step C T org p) (db, n)"
  shows "period_used db org p < cap + int (C * T)"
proof -
  have "period_used db org p + int (T * n) \<le> cap - 1 + int (T * C)"
    using spend.reach_inv [OF assms] by (simp add: spend_inv_def del: of_nat_mult)
  moreover have "0 \<le> int (T * n)" by simp
  ultimately have "period_used db org p < cap + int (T * C)" by linarith
  then show ?thesis by (simp add: mult.commute)
qed

definition sample_capped_db :: billing_db where
  "sample_capped_db = sample_billing_db0\<lparr>bd_billing := [1 \<mapsto> \<lparr>ob_cap = Some 100, ob_warn_bps = 8000\<rparr>]\<rparr>"

definition sample_oss_env :: billing_env where
  "sample_oss_env = \<lparr>be_now = 5, be_period = 1, be_entitlements = unlimited_entitlements\<rparr>"

definition sample_spent_db :: billing_db where
  "sample_spent_db = snd (settle sample_oss_env (snd (settle sample_oss_env sample_capped_db 101 1 60 None)) 102 1 60 None)"

lemmas sample_spend_defs = sample_spent_db_def sample_capped_db_def sample_billing_db0_def sample_oss_env_def
  settle_def add_usage_def fire_warn_once_def warn_threshold_micros_def WARN_FULL_def mark_warned_def
  debit_credits_def unlimited_entitlements_def fits_i64_def i64_max_def

lemma sample_spent_used: "period_used sample_spent_db 1 1 = 120"
  by (simp add: sample_spend_defs period_used_def Let_def)

lemma sample_spend_reach:
  "reach (spend_init 1 1 1 100) (spend_step 1 60 1 1) (sample_spent_db, 0)"
proof -
  let ?R = "reach (spend_init 1 1 1 100) (spend_step 1 60 1 1)"
  let ?db1 = "snd (settle sample_oss_env sample_capped_db 101 1 60 None)"
  have p: "be_period sample_oss_env = 1" by (simp add: sample_oss_env_def)
  have "spend_init 1 1 1 100 (sample_capped_db, 0)"
    by (auto simp: spend_init_def sample_capped_db_def sample_billing_db0_def capped_def billing_inv_def
        ledger_inv_def config_inv_def usage_inv_def entry_keys_def credits_agree_def WARN_FULL_def i64_max_def)
  then have 0: "?R (sample_capped_db, 0)" by (rule reach.reach_init)
  have ok: "check_or_fail sample_oss_env sample_capped_db 1 = Some (Inr ())"
    "check_or_fail sample_oss_env ?db1 1 = Some (Inr ())"
    by (simp_all add: sample_spend_defs check_or_fail_def gate_def read_snapshot_def decide_def see_def
        bd_visible_def Let_def)
  have fin: "spend_step 1 60 1 1 (db, Suc 0) (Finish sample_oss_env i 60 None) (snd (settle sample_oss_env db i 1 60 None), 0)" for db i
    by (rule spend_step.finish [OF p]) (simp_all add: i64_max_def)
  have adm: "spend_step 1 60 1 1 (db, 0) (Admit sample_oss_env) (db, Suc 0)"
    if "check_or_fail sample_oss_env db 1 = Some (Inr ())" for db
    by (rule spend_step.admit [OF _ p that]) simp
  have "?R (?db1, 0)" by (blast intro: reach.reach_step 0 adm [OF ok(1)] fin)
  then show ?thesis
    unfolding sample_spent_db_def by (blast intro: reach.reach_step adm [OF ok(2)] fin)
qed

theorem overrun_is_bounded_witness:
  "100 < period_used sample_spent_db 1 1 \<and> period_used sample_spent_db 1 1 < 100 + int (1 * 60)"
  using overrun_is_bounded [OF sample_spend_reach] sample_spent_used by linarith

section \<open>A settle is debited once per key\<close>

lemma key_used_mono: "billing_le db db' \<Longrightarrow> key_used db k \<Longrightarrow> key_used db' k"
  by (auto simp: billing_le_def key_used_def)

lemma settle_replay:
  assumes "billing_inv db" "0 \<le> cost" "key_used db (Some k)"
  shows "bd_credits (snd (settle env db lid org cost (Some k))) = bd_credits db"
    and "bd_ledger (snd (settle env db lid org cost (Some k))) = bd_ledger db"
proof -
  let ?s = "settle env db lid org cost (Some k)"
  have "bd_credits (snd ?s) = bd_credits db \<and> bd_ledger (snd ?s) = bd_ledger db"
  proof (cases "fst ?s = Some (Inr ())")
    case True
    then have "?s = (Some (Inr ()), snd ?s)" by (metis prod.collapse)
    from settle_okE [OF this] obtain used db1 b db2 where
      add: "add_usage db org (be_period env) cost = Inr (used, db1)" and
      warn: "fire_warn_once db1 org (be_period env) used (be_now env) = Some (b, db2)" and
      debit: "debit_credits env db2 lid org cost (Some k) = Some (Inr (snd ?s))" by blast
    have inv: "usage_inv db" using assms(1) by (simp add: billing_inv_def)
    note a = add_usage_Inr [OF add assms(2) inv]
    note w = fire_warn_keeps [OF warn a(1)]
    have same: "bd_credits db2 = bd_credits db" "bd_ledger db2 = bd_ledger db"
      using a(3) w(3) by (simp_all add: same_ledger_def)
    then have "key_used db2 (Some k)" using assms(3) by (simp add: key_used_def)
    then have "snd ?s = db2" using debit by (auto simp: debit_credits_def split: option.splits if_splits)
    with same show ?thesis by simp
  qed (simp add: settle_err)
  then show "bd_credits (snd ?s) = bd_credits db" "bd_ledger (snd ?s) = bd_ledger db" by auto
qed

lemma billing_settle_run:
  assumes "turn_cost (price_for m) u = Some cost"
  shows "billing_settle us (Some env) db lid m org request index u False =
    (fst (settle env db lid org cost (usage_key us request index)) \<noteq> None,
     snd (settle env db lid org cost (usage_key us request index)))"
  using assms by (auto simp: billing_settle_def split: prod.splits option.splits)

lemma turn_cost_nonneg: "turn_cost p u = Some cost \<Longrightarrow> 0 \<le> cost \<and> cost \<le> i64_max"
  by (auto simp: turn_cost_def Let_def split: if_splits)

text \<open>A settle that is not refused puts its key into the ledger, if it is to be debited at all.\<close>

lemma settle_records_key:
  assumes inv: "billing_inv db" and cost: "0 < cost" and c: "bd_credits db org = Some c"
    and gate: "en_credit_gate_active (be_entitlements env) org"
    and run: "fst (settle env db lid org cost (Some k)) = Some (Inr ())"
  shows "key_used (snd (settle env db lid org cost (Some k))) (Some k)"
proof -
  let ?s = "settle env db lid org cost (Some k)"
  have "?s = (Some (Inr ()), snd ?s)" using run by (metis prod.collapse)
  from settle_okE [OF this] obtain used db1 b db2 where
    add: "add_usage db org (be_period env) cost = Inr (used, db1)" and
    warn: "fire_warn_once db1 org (be_period env) used (be_now env) = Some (b, db2)" and
    debit: "debit_credits env db2 lid org cost (Some k) = Some (Inr (snd ?s))" by blast
  have uinv: "usage_inv db" using inv by (simp add: billing_inv_def)
  note a = add_usage_Inr [OF add less_imp_le [OF cost] uinv]
  have "bd_credits db2 org = Some c"
    using a(3) fire_warn_keeps(3) [OF warn a(1)] c by (simp add: same_ledger_def)
  then have "key_used d (Some k)" if "debit_credits env db2 lid org cost (Some k) = Some (Inr d)" for d
    using that gate cost by (auto simp: debit_credits_def key_used_def Let_def split: if_splits)
  then show ?thesis using debit .
qed

text \<open>
  A turn's debit is keyed by its request and its index in the run, and a key is debited once:
  after a settle that went through, whatever other billing calls follow, settling the same
  request and index again moves neither the credits nor the ledger, for any model and any usage.
  The worker runs an agent that sent no message again from index 0 under the same request, so the
  provider calls of that second run are free of credit, though they still count towards the cap.
\<close>

theorem second_run_is_not_debited:
  assumes "reach billing_init billing_step db" and "bd_credits db org = Some c"
    and "en_credit_gate_active (be_entitlements env) org"
    and "turn_cost (price_for m) u = Some cost" and "0 < cost" and "usage_key us request index = Some k"
    and "fst (settle env db lid org cost (Some k)) = Some (Inr ())"
    and "billing_settle us (Some env) db lid m org request index u False = (ok, db1)"
    and "steps billing_step db1 es db2"
    and "billing_settle us (Some env') db2 lid' m' org request index u' False = (ok', db3)"
  shows "bd_credits db3 = bd_credits db2 \<and> bd_ledger db3 = bd_ledger db2
    \<and> (\<forall>cost'. turn_cost (price_for m') u' = Some cost'
          \<and> fst (settle env' db2 lid' org cost' (Some k)) = Some (Inr ()) \<longrightarrow>
        period_used db3 org (be_period env') = period_used db2 org (be_period env') + cost')"
proof -
  note inv = billing.reach_inv [OF assms(1)]
  have db1: "db1 = snd (settle env db lid org cost (Some k))"
    using assms(8) billing_settle_run [OF assms(4)] assms(6) by simp
  have "billing_inv db1" unfolding db1 using settle_inv(1) [OF inv] assms(5) by simp
  then have inv2: "billing_inv db2" and le: "billing_le db1 db2"
    using billing.steps_inv billing.steps_le assms(9) by blast+
  have used: "key_used db2 (Some k)"
    using key_used_mono [OF le] settle_records_key [OF inv assms(5,2,3,7)] db1 by simp
  show ?thesis
  proof (cases "turn_cost (price_for m') u'")
    case None
    then show ?thesis using assms(10) by (simp add: billing_settle_def)
  next
    case (Some cost')
    have db3: "db3 = snd (settle env' db2 lid' org cost' (Some k))"
      using assms(10) billing_settle_run [OF Some] assms(6) by simp
    have cost': "0 \<le> cost'" using turn_cost_nonneg [OF Some] by simp
    have "period_used db3 org (be_period env') = period_used db2 org (be_period env') + cost'"
      if "fst (settle env' db2 lid' org cost' (Some k)) = Some (Inr ())"
    proof (rule settle_used(1) [OF inv2 cost'])
      show "settle env' db2 lid' org cost' (Some k) = (Some (Inr ()), db3)"
        using that db3 by (metis prod.collapse)
    qed
    then show ?thesis using settle_replay [OF inv2 cost' used] db3 Some by simp
  qed
qed

definition sample_settle_usage :: usage where
  "sample_settle_usage = \<lparr>input_tokens = 1000000, output_tokens = 0,
     cache_creation_input_tokens = None, cache_read_input_tokens = None\<rparr>"

definition sample_run :: "billing_db \<Rightarrow> uuid \<Rightarrow> bool \<times> billing_db" where
  "sample_run db lid = billing_settle (\<lambda>_. ''r'') (Some sample_billing_env) db lid (hd MODEL_CATALOG) 1 60 0
     sample_settle_usage False"

lemma sample_cost: "turn_cost (price_for (hd MODEL_CATALOG)) sample_settle_usage = Some 5000000"
  by (simp add: turn_cost_def Let_def cost_total_def lane_cost_def sample_settle_usage_def unwrap_or_zero_def
      MODEL_CATALOG_def entry_def price_for_def price_for_name_def price_new_def i64_max_def)

lemma sample_key: "usage_key (\<lambda>_. ''r'') 60 0 = Some ''usage:r:0''"
  by (simp add: usage_key_def idempotency_key_try_from_def MAX_IDEMPOTENCY_KEY_BYTES_def show_nat.simps digit_char_def)

lemma sample_settled:
  "fst (settle sample_billing_env sample_billing_db 200 1 5000000 (Some ''usage:r:0'')) = Some (Inr ())"
  "map_option cr_balance (bd_credits (snd (settle sample_billing_env sample_billing_db 200 1 5000000 (Some ''usage:r:0''))) 1)
     = Some (- 3000000)"
  using sample_billing_credits
  by (auto simp: settle_def add_usage_def fire_warn_once_def debit_credits_def sample_billing_env_def
      unlimited_entitlements_def fits_i64_def i64_max_def key_used_def ledger_id_taken_def totals_ok_def Let_def)

theorem second_run_is_not_debited_witness:
  "map_option cr_balance (bd_credits (snd (sample_run (snd (sample_run sample_billing_db 200)) 201)) 1)
     = Some (- 3000000)"
proof -
  have first: "snd (sample_run sample_billing_db 200)
      = snd (settle sample_billing_env sample_billing_db 200 1 5000000 (Some ''usage:r:0''))"
    using billing_settle_run [OF sample_cost] sample_key by (simp add: sample_run_def)
  have gate: "en_credit_gate_active (be_entitlements sample_billing_env) 1"
    by (simp add: sample_billing_env_def)
  have "bd_credits (snd (sample_run (snd (sample_run sample_billing_db 200)) 201))
      = bd_credits (snd (sample_run sample_billing_db 200))"
    using second_run_is_not_debited [OF sample_billing_reach sample_billing_credits(1) gate sample_cost _
        sample_key sample_settled(1) _ steps.steps_nil]
    unfolding sample_run_def by (metis prod.collapse zero_less_numeral)
  then show ?thesis using first sample_settled(2) by simp
qed

text \<open>
  A cross-tenant organisation reads as unlimited spend, but with the credit gate active also as
  zero credit: the admission gate refuses it as out of credit.
\<close>

lemma other_org_is_out_of_credit:
  assumes "(user, org) \<notin> set (bd_members db)" "en_credit_gate_active (be_entitlements env) org"
  shows "check_or_fail_for_user env db user org = Some (Inl (OutOfCredit org 0))"
  using assms by (simp add: check_or_fail_for_user_def gate_def read_snapshot_def see_def bd_visible_def
      decide_def Let_def)

end
