(* ===== verification/Participants.thy ===== *)
theory Participants
  imports Rust_Strings Runtime_Types
begin

text \<open>
  The ends of a conversation (\<open>types/participant.rs\<close>) and the directory entries behind them
  (\<open>colleagues/types.rs\<close>): the decode of the joined columns, the canonical order of a pair, and
  the pairing of a colleague's kind with its satellite key.
\<close>

section \<open>Participants\<close>

datatype participant =
    PHuman uuid uuid   \<comment> \<open>colleague, user\<close>
  | PAgent uuid uuid   \<comment> \<open>colleague, agent\<close>
  | PSystem

datatype participant_kind = PkHuman | PkAgent | PkSystem

definition participant_kind_all :: "participant_kind list" where
  "participant_kind_all = [PkHuman, PkAgent, PkSystem]"

fun participant_kind_as_str :: "participant_kind \<Rightarrow> string" where
  "participant_kind_as_str PkHuman = ''human''"
| "participant_kind_as_str PkAgent = ''agent''"
| "participant_kind_as_str PkSystem = ''system''"

interpretation participant_kind: str_enum participant_kind_all participant_kind_as_str
proof unfold_locales
  fix v w
  show "v \<in> set participant_kind_all" by (cases v) (simp_all add: participant_kind_all_def)
  show "v = w" if "participant_kind_as_str v = participant_kind_as_str w"
    using that by (cases v; cases w) simp_all
qed

fun participant_kind_of :: "participant \<Rightarrow> participant_kind" where
  "participant_kind_of (PHuman _ _) = PkHuman"
| "participant_kind_of (PAgent _ _) = PkAgent"
| "participant_kind_of PSystem = PkSystem"

fun participant_colleague :: "participant \<Rightarrow> uuid option" where
  "participant_colleague (PHuman c _) = Some c"
| "participant_colleague (PAgent c _) = Some c"
| "participant_colleague PSystem = None"

fun participant_agent :: "participant \<Rightarrow> uuid option" where
  "participant_agent (PAgent _ a) = Some a"
| "participant_agent _ = None"

fun participant_user :: "participant \<Rightarrow> uuid option" where
  "participant_user (PHuman _ u) = Some u"
| "participant_user _ = None"

fun participant_display :: "(uuid \<Rightarrow> string) \<Rightarrow> participant \<Rightarrow> string" where
  "participant_display us (PHuman c _) = ''human('' @ us c @ '')''"
| "participant_display us (PAgent c _) = ''agent('' @ us c @ '')''"
| "participant_display us PSystem = ''system''"

section \<open>The canonical pair\<close>

datatype ordering = Less | Equal | Greater

definition compare :: "nat \<Rightarrow> nat \<Rightarrow> ordering" where
  "compare a b = (if a < b then Less else if a = b then Equal else Greater)"

definition canonical_cmp :: "participant \<Rightarrow> participant \<Rightarrow> ordering" where
  "canonical_cmp l r =
     (case (participant_colleague l, participant_colleague r) of
        (Some a, Some b) \<Rightarrow> compare a b
      | (Some _, None) \<Rightarrow> Less
      | (None, Some _) \<Rightarrow> Greater
      | (None, None) \<Rightarrow> Equal)"

definition canonical_pair :: "participant \<Rightarrow> participant \<Rightarrow> (participant \<times> participant) option" where
  "canonical_pair l r =
     (case canonical_cmp l r of Less \<Rightarrow> Some (l, r) | Greater \<Rightarrow> Some (r, l) | Equal \<Rightarrow> None)"

text \<open>
  The pair is one for both directions, its ends are ordered, the system end sorts last, and there
  is none exactly for two participants of one colleague.
\<close>

lemma canonical_pair_comm: "canonical_pair l r = canonical_pair r l"
  by (auto simp: canonical_pair_def canonical_cmp_def compare_def split: option.splits)

lemma canonical_pair_None: "canonical_pair l r = None \<longleftrightarrow> participant_colleague l = participant_colleague r"
  by (auto simp: canonical_pair_def canonical_cmp_def compare_def split: option.splits)

lemma canonical_pair_Some:
  "canonical_pair l r = Some (a, b) \<Longrightarrow> {a, b} = {l, r} \<and> canonical_cmp a b = Less \<and> participant_colleague a \<noteq> None"
  by (auto simp: canonical_pair_def canonical_cmp_def compare_def split: option.splits if_splits)

lemma canonical_cmp_trans:
  "canonical_cmp a b = Less \<Longrightarrow> canonical_cmp b c = Less \<Longrightarrow> canonical_cmp a c = Less"
  by (auto simp: canonical_cmp_def compare_def split: option.splits if_splits)

section \<open>Colleagues\<close>

datatype colleague_kind = CkHuman | CkAgent

definition colleague_kind_all :: "colleague_kind list" where
  "colleague_kind_all = [CkHuman, CkAgent]"

fun colleague_kind_as_str :: "colleague_kind \<Rightarrow> string" where
  "colleague_kind_as_str CkHuman = ''human''"
| "colleague_kind_as_str CkAgent = ''agent''"

interpretation colleague_kind: str_enum colleague_kind_all colleague_kind_as_str
proof unfold_locales
  fix v w
  show "v \<in> set colleague_kind_all" by (cases v) (simp_all add: colleague_kind_all_def)
  show "v = w" if "colleague_kind_as_str v = colleague_kind_as_str w"
    using that by (cases v; cases w) simp_all
qed

definition COLLEAGUE_NAME_MAX_LEN :: nat where "COLLEAGUE_NAME_MAX_LEN = 200"

definition colleague_name_try_from :: "string \<Rightarrow> (string, parse_error) result" where
  "colleague_name_try_from raw =
     (if raw = [] then Inl (Empty ''colleague_name'')
      else if length raw > COLLEAGUE_NAME_MAX_LEN
        then Inl (TooLong ''colleague_name'' COLLEAGUE_NAME_MAX_LEN (length raw))
      else Inr raw)"

record colleague =
  cg_id :: uuid
  cg_org :: uuid
  cg_kind :: colleague_kind
  cg_display_name :: string
  cg_user :: "uuid option"
  cg_agent :: "uuid option"

datatype colleague_error =
    ColleagueNotFound uuid
  | KindSatelliteMismatch
  | SatelliteUnmapped colleague_kind
  | ColleagueParse parse_error
  | ColleagueDb db_error

definition colleague_try_new ::
  "uuid \<Rightarrow> uuid \<Rightarrow> colleague_kind \<Rightarrow> string \<Rightarrow> uuid option \<Rightarrow> uuid option \<Rightarrow> (colleague, colleague_error) result" where
  "colleague_try_new i org kind name user agent =
     (let consistent = (case kind of CkHuman \<Rightarrow> user \<noteq> None \<and> agent = None
                                   | CkAgent \<Rightarrow> agent \<noteq> None \<and> user = None)
      in if \<not> consistent then Inl KindSatelliteMismatch
         else Inr \<lparr>cg_id = i, cg_org = org, cg_kind = kind, cg_display_name = name,
                   cg_user = user, cg_agent = agent\<rparr>)"

text \<open>\<open>None\<close> is the failed \<open>expect\<close> of a colleague without its satellite.\<close>

definition participant_of_colleague :: "colleague \<Rightarrow> participant option" where
  "participant_of_colleague c =
     (case cg_kind c of
        CkHuman \<Rightarrow> map_option (PHuman (cg_id c)) (cg_user c)
      | CkAgent \<Rightarrow> map_option (PAgent (cg_id c)) (cg_agent c))"

definition participant_of_columns ::
  "uuid option \<times> colleague_kind option \<times> uuid option \<times> uuid option \<Rightarrow> (participant, parse_error) result" where
  "participant_of_columns cols =
     (case cols of (cid, kind, user, agent) \<Rightarrow>
        (case (cid, kind) of
           (None, _) \<Rightarrow> Inr PSystem
         | (Some c, Some CkHuman) \<Rightarrow>
             (case user of Some u \<Rightarrow> Inr (PHuman c u)
              | None \<Rightarrow> Inl (Malformed ''participant.user_id'' ''human colleague without user_id''))
         | (Some c, Some CkAgent) \<Rightarrow>
             (case agent of Some a \<Rightarrow> Inr (PAgent c a)
              | None \<Rightarrow> Inl (Malformed ''participant.agent_id'' ''agent colleague without agent_id''))
         | (Some c, None) \<Rightarrow> Inl (Malformed ''participant.kind'' ''colleague read without joined kind'')))"

text \<open>The columns a directory row joins to.\<close>

definition columns_of_colleague :: "colleague \<Rightarrow> uuid option \<times> colleague_kind option \<times> uuid option \<times> uuid option" where
  "columns_of_colleague c = (Some (cg_id c), Some (cg_kind c), cg_user c, cg_agent c)"

text \<open>A colleague that passed its constructor projects and decodes to the same participant.\<close>

lemma colleague_decodes:
  assumes "colleague_try_new i org kind name user agent = Inr c"
  obtains p where "participant_of_colleague c = Some p"
    "participant_of_columns (columns_of_colleague c) = Inr p" "participant_colleague p = Some i"
  using assms that
  by (cases kind) (auto simp: colleague_try_new_def participant_of_colleague_def participant_of_columns_def
      columns_of_colleague_def Let_def split: if_splits)

section \<open>Senders\<close>

datatype message_sender = MsHuman uuid uuid | MsAgent uuid uuid | MsSystem

fun sender_of_participant :: "participant \<Rightarrow> message_sender" where
  "sender_of_participant (PHuman c u) = MsHuman c u"
| "sender_of_participant (PAgent c a) = MsAgent c a"
| "sender_of_participant PSystem = MsSystem"

fun sender_colleague :: "message_sender \<Rightarrow> uuid option" where
  "sender_colleague (MsHuman c _) = Some c"
| "sender_colleague (MsAgent c _) = Some c"
| "sender_colleague MsSystem = None"

lemma sender_of_participant_colleague [simp]:
  "sender_colleague (sender_of_participant p) = participant_colleague p"
  by (cases p) simp_all

lemma sender_of_participant_inj: "sender_of_participant p = sender_of_participant q \<Longrightarrow> p = q"
  by (cases p; cases q) simp_all

end
