(* ===== verification/Approvals.thy ===== *)
theory Approvals
  imports Thread_Feed Dag_Budget Participants
begin

text \<open>
  Human approval of gated tools (\<open>approvals/\<close>): the types, the store of approval rows with the
  whitelist of approvers and the per-agent list of gated tools, the hard gate that the dispatch of
  a tool call consults, and the decision with the resume of the agent. The foreign keys of the
  tables are not modelled: the ids come from rows that were read.
\<close>

section \<open>Types\<close>

definition APPROVAL_SUMMARY_MAX :: nat where "APPROVAL_SUMMARY_MAX = 2048"
definition MAX_APPROVERS :: nat where "MAX_APPROVERS = 16"
definition APPROVAL_SWEEP_BATCH :: nat where "APPROVAL_SWEEP_BATCH = 256"
definition PLATFORM_MESSAGE_ID_MAX :: nat where "PLATFORM_MESSAGE_ID_MAX = 128"

definition action_summary_try_from :: "string \<Rightarrow> (string, parse_error) result" where
  "action_summary_try_from raw =
     (if raw = [] then Inl (Empty ''action_summary'')
      else if length raw > APPROVAL_SUMMARY_MAX
        then Inl (TooLong ''action_summary'' APPROVAL_SUMMARY_MAX (length raw))
      else Inr raw)"

definition platform_message_id_try_from :: "string \<Rightarrow> (string, parse_error) result" where
  "platform_message_id_try_from raw =
     (if raw = [] then Inl (Empty ''platform_message_id'')
      else if length raw > PLATFORM_MESSAGE_ID_MAX
        then Inl (TooLong ''platform_message_id'' PLATFORM_MESSAGE_ID_MAX (length raw))
      else Inr raw)"

datatype approval_status = ApPending | ApApproved | ApDenied | ApExpired

definition approval_status_all :: "approval_status list" where
  "approval_status_all = [ApPending, ApApproved, ApDenied, ApExpired]"

fun approval_status_as_str :: "approval_status \<Rightarrow> string" where
  "approval_status_as_str ApPending = ''pending''"
| "approval_status_as_str ApApproved = ''approved''"
| "approval_status_as_str ApDenied = ''denied''"
| "approval_status_as_str ApExpired = ''expired''"

interpretation approval_status: str_enum approval_status_all approval_status_as_str
proof unfold_locales
  show "v \<in> set approval_status_all" for v by (cases v) (simp_all add: approval_status_all_def)
  show "approval_status_as_str v = approval_status_as_str w \<Longrightarrow> v = w" for v w by (cases v; cases w) simp_all
qed

datatype platform = Discord | Lark | Web

definition platform_all :: "platform list" where "platform_all = [Discord, Lark, Web]"

fun platform_as_str :: "platform \<Rightarrow> string" where
  "platform_as_str Discord = ''discord''"
| "platform_as_str Lark = ''lark''"
| "platform_as_str Web = ''web''"

interpretation platform: str_enum platform_all platform_as_str
proof unfold_locales
  show "v \<in> set platform_all" for v by (cases v) (simp_all add: platform_all_def)
  show "platform_as_str v = platform_as_str w \<Longrightarrow> v = w" for v w by (cases v; cases w) simp_all
qed

datatype approver_kind = AkAnyone | AkColleague | AkOneOf

definition approver_kind_all :: "approver_kind list" where
  "approver_kind_all = [AkAnyone, AkColleague, AkOneOf]"

fun approver_kind_as_str :: "approver_kind \<Rightarrow> string" where
  "approver_kind_as_str AkAnyone = ''anyone''"
| "approver_kind_as_str AkColleague = ''colleague''"
| "approver_kind_as_str AkOneOf = ''one_of''"

interpretation approver_kind: str_enum approver_kind_all approver_kind_as_str
proof unfold_locales
  show "v \<in> set approver_kind_all" for v by (cases v) (simp_all add: approver_kind_all_def)
  show "approver_kind_as_str v = approver_kind_as_str w \<Longrightarrow> v = w" for v w by (cases v; cases w) simp_all
qed

datatype approver_policy = Anyone | Colleague uuid | OneOf "uuid list"

text \<open>The first occurrence of each id is kept.\<close>

fun dedupe :: "uuid list \<Rightarrow> uuid list \<Rightarrow> uuid list" where
  "dedupe seen [] = []"
| "dedupe seen (x # xs) = (if x \<in> set seen then dedupe seen xs else x # dedupe (x # seen) xs)"

definition policy_from_ids :: "uuid list \<Rightarrow> (approver_policy, parse_error) result" where
  "policy_from_ids ids =
     (if ids = [] then Inr Anyone
      else (let deduped = dedupe [] ids in
        if length deduped > MAX_APPROVERS then Inl (OutOfRange ''approvers'' ''too many approvers'')
        else Inr (OneOf deduped)))"

fun policy_kind :: "approver_policy \<Rightarrow> approver_kind" where
  "policy_kind Anyone = AkAnyone" | "policy_kind (Colleague _) = AkColleague" | "policy_kind (OneOf _) = AkOneOf"

fun policy_pinned :: "approver_policy \<Rightarrow> uuid option" where
  "policy_pinned (Colleague c) = Some c" | "policy_pinned _ = None"

fun policy_members :: "approver_policy \<Rightarrow> uuid list" where
  "policy_members (OneOf cs) = cs" | "policy_members _ = []"

definition policy_allows :: "approver_kind \<Rightarrow> uuid option \<Rightarrow> uuid list \<Rightarrow> uuid \<Rightarrow> bool" where
  "policy_allows kind pinned one_of clicker =
     (case kind of AkAnyone \<Rightarrow> True | AkColleague \<Rightarrow> pinned = Some clicker | AkOneOf \<Rightarrow> clicker \<in> set one_of)"

datatype decision = DApproved | DDenied

fun decision_status :: "decision \<Rightarrow> approval_status" where
  "decision_status DApproved = ApApproved" | "decision_status DDenied = ApDenied"

fun decision_tag :: "decision \<Rightarrow> char" where
  "decision_tag DApproved = CHR ''a''" | "decision_tag DDenied = CHR ''d''"

definition decision_from_tag :: "string \<Rightarrow> decision option" where
  "decision_from_tag tag = (if tag = ''a'' then Some DApproved else if tag = ''d'' then Some DDenied else None)"

lemma decision_tag_roundtrip: "decision_from_tag [decision_tag d] = Some d"
  by (cases d) (simp_all add: decision_from_tag_def)

datatype platform_target =
    WebTarget
  | DiscordTarget string string "string option"
  | LarkTarget string string "string option"

fun target_platform :: "platform_target \<Rightarrow> platform" where
  "target_platform WebTarget = Web"
| "target_platform (DiscordTarget _ _ _) = Discord"
| "target_platform (LarkTarget _ _ _) = Lark"

fun target_columns :: "platform_target \<Rightarrow> string option \<times> string option \<times> string option" where
  "target_columns WebTarget = (None, None, None)"
| "target_columns (DiscordTarget app container reply_to) = (Some app, Some container, reply_to)"
| "target_columns (LarkTarget app chat reply_to) = (Some app, Some chat, reply_to)"

datatype approval_error =
    ApNotFound
  | ApNotPending
  | ApUnauthorized
  | ApExpiredErr
  | ApBackend string
  | ApParse parse_error
  | ApDb db_error

definition http_status :: "approval_error \<Rightarrow> nat" where
  "http_status e =
     (case e of
        ApNotFound \<Rightarrow> 404
      | ApNotPending \<Rightarrow> 409
      | ApExpiredErr \<Rightarrow> 409
      | ApUnauthorized \<Rightarrow> 403
      | _ \<Rightarrow> 500)"

section \<open>The store\<close>

record approval =
  ap_id :: uuid
  ap_org :: uuid
  ap_thread :: uuid
  ap_requesting_agent :: uuid
  ap_requesting_colleague :: uuid
  ap_root :: uuid
  ap_action :: string
  ap_gated_tool :: string
  ap_kind :: approver_kind
  ap_colleague :: "uuid option"
  ap_status :: approval_status
  ap_platform :: platform
  ap_target :: "string option \<times> string option \<times> string option"
  ap_message_id :: "string option"
  ap_decided_by :: "uuid option"
  ap_decided_at :: "timestamp option"
  ap_expires_at :: timestamp
  ap_created_at :: timestamp

text \<open>A row of \<open>pending_approval\<close> has the key of its creation besides.\<close>

record approval_row = approval +
  ap_key :: string

record new_approval =
  na_id :: uuid
  na_thread :: uuid
  na_agent :: uuid
  na_colleague :: uuid
  na_root :: uuid
  na_action :: string
  na_gated_tool :: string
  na_approvers :: approver_policy
  na_target :: platform_target
  na_key :: string
  na_expires_at :: timestamp

record approval_db =
  ad_rows :: "approval_row list"
  ad_approvers :: "(uuid \<times> uuid) list"
  ad_gated :: "((uuid \<times> string) \<times> uuid) list"
  ad_members :: "(uuid \<times> uuid) list"

text \<open>\<open>ad_approvers\<close> pairs an approval and a colleague; \<open>ad_gated\<close> maps (agent, tool) to its org.\<close>

definition record_from_row :: "approval_row \<Rightarrow> (approval, approval_error) result" where
  "record_from_row r =
     (case action_summary_try_from (ap_action r) of
        Inl e \<Rightarrow> Inl (ApParse e)
      | Inr _ \<Rightarrow>
          (case tool_name_try_from (ap_gated_tool r) of
             Inl e \<Rightarrow> Inl (ApParse e)
           | Inr _ \<Rightarrow>
               (case ap_message_id r of
                  None \<Rightarrow> Inr (approval.truncate r)
                | Some m \<Rightarrow>
                    (case platform_message_id_try_from m of
                       Inl e \<Rightarrow> Inl (ApParse e) | Inr _ \<Rightarrow> Inr (approval.truncate r)))))"

definition ad_is_member :: "approval_db \<Rightarrow> uuid \<Rightarrow> uuid \<Rightarrow> bool" where
  "ad_is_member db user org \<longleftrightarrow> (user, org) \<in> set (ad_members db)"

definition row_of_new :: "new_approval \<Rightarrow> uuid \<Rightarrow> timestamp \<Rightarrow> approval_row" where
  "row_of_new n org now =
     \<lparr>ap_id = na_id n, ap_org = org, ap_thread = na_thread n, ap_requesting_agent = na_agent n,
      ap_requesting_colleague = na_colleague n, ap_root = na_root n, ap_action = na_action n,
      ap_gated_tool = na_gated_tool n, ap_kind = policy_kind (na_approvers n),
      ap_colleague = policy_pinned (na_approvers n), ap_status = ApPending,
      ap_platform = target_platform (na_target n), ap_target = target_columns (na_target n),
      ap_message_id = None, ap_decided_by = None, ap_decided_at = None,
      ap_expires_at = na_expires_at n, ap_created_at = now, ap_key = na_key n\<rparr>"

text \<open>\<open>Inr None\<close> is the idempotency conflict.\<close>

definition insert_row ::
  "approval_db \<Rightarrow> uuid \<Rightarrow> new_approval \<Rightarrow> uuid \<Rightarrow> timestamp \<Rightarrow> (approval_row option, db_error) result \<times> approval_db" where
  "insert_row db user n org now =
     (let row = row_of_new n org now in
      if \<not> ad_is_member db user org then (Inl RlsViolation, db)
      else if \<exists>r \<in> set (ad_rows db). ap_org r = org \<and> ap_key r = na_key n then (Inr None, db)
      else if \<exists>r \<in> set (ad_rows db). ap_id r = na_id n then (Inl UniqueViolation, db)
      else (Inr (Some row), db\<lparr>ad_rows := ad_rows db @ [row]\<rparr>))"

definition insert_approvers :: "approval_db \<Rightarrow> new_approval \<Rightarrow> approval_db" where
  "insert_approvers db n =
     db\<lparr>ad_approvers := fold (\<lambda>c t. if (na_id n, c) \<in> set t then t else t @ [(na_id n, c)])
         (policy_members (na_approvers n)) (ad_approvers db)\<rparr>"

definition select_by_idem :: "approval_db \<Rightarrow> uuid \<Rightarrow> uuid \<Rightarrow> string \<Rightarrow> approval_row option" where
  "select_by_idem db user org key =
     find (\<lambda>r. ap_org r = org \<and> ap_key r = key \<and> ad_is_member db user (ap_org r)) (ad_rows db)"

definition select_approver_ids :: "approval_db \<Rightarrow> uuid \<Rightarrow> uuid list" where
  "select_approver_ids db i = map snd (filter (\<lambda>(a, c). a = i) (ad_approvers db))"

datatype create_outcome = Created approval | Existing approval
datatype decide_outcome = Decided approval | AlreadyDecided approval

fun create_record :: "create_outcome \<Rightarrow> approval" where
  "create_record (Created r) = r" | "create_record (Existing r) = r"

fun decide_record :: "decide_outcome \<Rightarrow> approval" where
  "decide_record (Decided r) = r" | "decide_record (AlreadyDecided r) = r"

definition create_approval ::
  "approval_db \<Rightarrow> timestamp \<Rightarrow> caller \<Rightarrow> new_approval \<Rightarrow> (create_outcome, approval_error) result \<times> approval_db" where
  "create_approval db now ca n =
     (case insert_row db (ca_user ca) n (ca_org ca) now of
        (Inl e, _) \<Rightarrow> (Inl (ApDb e), db)
      | (Inr (Some row), db1) \<Rightarrow>
          (case record_from_row row of
             Inl e \<Rightarrow> (Inl e, db) | Inr rec \<Rightarrow> (Inr (Created rec), insert_approvers db1 n))
      | (Inr None, _) \<Rightarrow>
          (case select_by_idem db (ca_user ca) (ca_org ca) (na_key n) of
             None \<Rightarrow> (Inl ApNotFound, db)
           | Some row \<Rightarrow> (map_sum id Existing (record_from_row row), db)))"

definition attach_message ::
  "approval_db \<Rightarrow> caller \<Rightarrow> uuid \<Rightarrow> string \<Rightarrow> (unit, approval_error) result \<times> approval_db" where
  "attach_message db ca i m =
     (let hit = (\<lambda>r. ap_id r = i \<and> ap_org r = ca_org ca \<and> ad_is_member db (ca_user ca) (ap_org r)) in
      if \<not> list_ex hit (ad_rows db) then (Inl ApNotFound, db)
      else (Inr (), db\<lparr>ad_rows := update_where hit (\<lambda>r. r\<lparr>ap_message_id := Some m\<rparr>) (ad_rows db)\<rparr>))"

definition find_approval :: "approval_db \<Rightarrow> uuid \<Rightarrow> uuid \<Rightarrow> approval_row option" where
  "find_approval db org i = find (\<lambda>r. ap_id r = i \<and> ap_org r = org) (ad_rows db)"

definition read_approval :: "approval_db \<Rightarrow> uuid \<Rightarrow> uuid \<Rightarrow> (approval, approval_error) result" where
  "read_approval db org i =
     (case find_approval db org i of None \<Rightarrow> Inl ApNotFound | Some r \<Rightarrow> record_from_row r)"

definition decide_approval ::
  "approval_db \<Rightarrow> uuid \<Rightarrow> uuid \<Rightarrow> decision \<Rightarrow> uuid \<Rightarrow> timestamp
   \<Rightarrow> (decide_outcome, approval_error) result \<times> approval_db" where
  "decide_approval db org i d clicker now =
     (case find_approval db org i of
        None \<Rightarrow> (Inl ApNotFound, db)
      | Some row \<Rightarrow>
          (case record_from_row row of
             Inl e \<Rightarrow> (Inl e, db)
           | Inr rec \<Rightarrow>
               if ap_status rec = ApApproved \<or> ap_status rec = ApDenied then (Inr (AlreadyDecided rec), db)
               else if ap_status rec = ApExpired \<or> ap_expires_at rec \<le> now then (Inl ApExpiredErr, db)
               else (let one_of = (if ap_kind rec = AkOneOf then select_approver_ids db i else []) in
                 if \<not> policy_allows (ap_kind rec) (ap_colleague rec) one_of clicker then (Inl ApUnauthorized, db)
                 else (let upd = (\<lambda>r. r\<lparr>ap_status := decision_status d, ap_decided_by := Some clicker,
                                     ap_decided_at := Some now\<rparr>)
                       in (case record_from_row (upd row) of
                             Inl e \<Rightarrow> (Inl e, db)
                           | Inr rec' \<Rightarrow> (Inr (Decided rec'), db\<lparr>ad_rows :=
                               update_where (\<lambda>r. ap_id r = i \<and> ap_org r = org \<and> ap_status r = ApPending) upd (ad_rows db)\<rparr>))))))"

text \<open>\<open>locked\<close> are the rows another transaction holds, which the sweep skips.\<close>

definition due_ids :: "approval_db \<Rightarrow> (uuid \<Rightarrow> bool) \<Rightarrow> timestamp \<Rightarrow> uuid list" where
  "due_ids db locked now = take APPROVAL_SWEEP_BATCH (map ap_id (sort_key ap_expires_at
     (filter (\<lambda>r. ap_status r = ApPending \<and> ap_expires_at r \<le> now \<and> \<not> locked (ap_id r)) (ad_rows db))))"

definition expire_due :: "approval_db \<Rightarrow> (uuid \<Rightarrow> bool) \<Rightarrow> timestamp \<Rightarrow> nat \<times> approval_db" where
  "expire_due db locked now =
     (let ids = due_ids db locked now in
      (length (filter (\<lambda>r. ap_id r \<in> set ids) (ad_rows db)),
       db\<lparr>ad_rows := update_where (\<lambda>r. ap_id r \<in> set ids) (\<lambda>r. r\<lparr>ap_status := ApExpired\<rparr>) (ad_rows db)\<rparr>))"

definition has_approved_for_dag :: "approval_db \<Rightarrow> uuid \<Rightarrow> uuid \<Rightarrow> string \<Rightarrow> bool" where
  "has_approved_for_dag db org root tool \<longleftrightarrow>
     (\<exists>r \<in> set (ad_rows db). ap_root r = root \<and> ap_org r = org \<and> ap_status r = ApApproved \<and> ap_gated_tool r = tool)"

section \<open>Gated tools\<close>

definition is_gated :: "approval_db \<Rightarrow> uuid \<Rightarrow> uuid \<Rightarrow> string \<Rightarrow> bool" where
  "is_gated db org agent tool \<longleftrightarrow> ((agent, tool), org) \<in> set (ad_gated db)"

definition set_gated :: "approval_db \<Rightarrow> caller \<Rightarrow> uuid \<Rightarrow> string \<Rightarrow> (unit, approval_error) result \<times> approval_db" where
  "set_gated db ca agent tool =
     (if \<not> ad_is_member db (ca_user ca) (ca_org ca) then (Inl (ApDb RlsViolation), db)
      else if map_of (ad_gated db) (agent, tool) \<noteq> None then (Inr (), db)
      else (Inr (), db\<lparr>ad_gated := ad_gated db @ [((agent, tool), ca_org ca)]\<rparr>))"

definition unset_gated :: "approval_db \<Rightarrow> caller \<Rightarrow> uuid \<Rightarrow> string \<Rightarrow> (unit, approval_error) result \<times> approval_db" where
  "unset_gated db ca agent tool =
     (Inr (), db\<lparr>ad_gated := filter (\<lambda>e. \<not> (e = ((agent, tool), ca_org ca)
         \<and> ad_is_member db (ca_user ca) (ca_org ca))) (ad_gated db)\<rparr>)"

section \<open>The hard gate\<close>

datatype gate_outcome = Allowed | Blocked string

definition blocked_message :: "string \<Rightarrow> string" where
  "blocked_message tool =
     ''`'' @ tool @ ''` is an approval-gated action. Call `ask_approval` with `gated_tool` set to `''
     @ tool @ ''`, wait for a human to approve, then retry '' @ bytes [226, 128, 148]
     @ '' it cannot run without an approved decision in this conversation.''"

text \<open>\<open>config_ok\<close> and \<open>approvals_ok\<close>: whether the two reads reach the database.\<close>

definition gate_check ::
  "bool \<Rightarrow> bool \<Rightarrow> approval_db \<Rightarrow> uuid \<Rightarrow> uuid \<Rightarrow> uuid \<Rightarrow> string \<Rightarrow> gate_outcome" where
  "gate_check config_ok approvals_ok db org agent root tool =
     (if \<not> config_ok then Blocked (blocked_message tool)
      else if \<not> is_gated db org agent tool then Allowed
      else if \<not> approvals_ok then Blocked (blocked_message tool)
      else if has_approved_for_dag db org root tool then Allowed
      else Blocked (blocked_message tool))"

section \<open>Resuming the agent\<close>

text \<open>
  The collaborators of the resume: the directory, the renderings of errors and ids, the ids the
  stores mint, the clock and the ambient trace header.
\<close>

record resume_env =
  rs_colleague :: "uuid \<Rightarrow> (colleague, string) result"
  rs_show_thread :: "thread_error \<Rightarrow> string"
  rs_show_prompt :: "prompt_error \<Rightarrow> string"
  rs_uuid_str :: "uuid \<Rightarrow> string"
  rs_state_id :: uuid
  rs_note_id :: uuid
  rs_request_id :: uuid
  rs_now :: timestamp
  rs_traceparent :: "string option"

definition resume_note :: "string \<Rightarrow> approval \<Rightarrow> string \<Rightarrow> idempotency_key \<Rightarrow> new_message" where
  "resume_note label rec decider_name key =
     \<lparr>nm_kind = SystemNote, nm_sender = None, nm_owner_agent = Some (ap_requesting_agent rec), nm_receiver = None,
      nm_body = User [UText (''APPROVAL '' @ label @ '' for: '' @ ap_action rec @ ''. Decided by '' @ decider_name @ ''.'')],
      nm_request = Some (ap_root rec), nm_idempotency_key = Some key\<rparr>"

definition resume_trigger :: "approval \<Rightarrow> uuid \<Rightarrow> uuid \<Rightarrow> uuid \<Rightarrow> uuid \<Rightarrow> idempotency_key \<Rightarrow> new_trigger" where
  "resume_trigger rec acting state decided_by note key =
     \<lparr>nt_org = ap_org rec, nt_acting_user = acting, nt_thread = Some (ap_thread rec), nt_state_id = Some state,
      nt_background_turn_id = None, nt_sender = decided_by, nt_receiver_agent = ap_requesting_agent rec,
      nt_root = Some (ap_root rec), nt_trigger_message = Some note, nt_idempotency_key = key, nt_payload = PNormal\<rparr>"

text \<open>Who decided, with the user behind; \<open>Inl\<close> is the answer of a resume that cannot go on.\<close>

definition resume_decider :: "resume_env \<Rightarrow> approval \<Rightarrow> (uuid \<times> string \<times> colleague \<times> uuid, approval_error) result" where
  "resume_decider env rec =
     (case ap_decided_by rec of
        None \<Rightarrow> Inl (ApBackend ''resume called on a non-decided approval'')
      | Some decided_by \<Rightarrow>
          (case ap_status rec of
             ApPending \<Rightarrow> Inl (ApBackend ''resume called on an unresolved approval'')
           | ApExpired \<Rightarrow> Inl (ApBackend ''resume called on an unresolved approval'')
           | st \<Rightarrow>
               (case rs_colleague env decided_by of
                  Inl e \<Rightarrow> Inl (ApBackend (''resume: read decider: '' @ e))
                | Inr c \<Rightarrow>
                    (case cg_user c of
                       None \<Rightarrow> Inl (ApBackend ''resume: decider colleague has no user'')
                     | Some u \<Rightarrow> Inr (decided_by, if st = ApApproved then ''approved'' else ''denied'', c, u)))))"

text \<open>\<open>None\<close> is a failed assertion of the budget. Every call commits on its own.\<close>

definition resume ::
  "resume_env \<Rightarrow> approval \<Rightarrow> thread_db \<Rightarrow> queue_db \<Rightarrow> (unit, approval_error) result option \<times> thread_db \<times> queue_db" where
  "resume env rec td qd =
     (case resume_decider env rec of
        Inl e \<Rightarrow> (Some (Inl e), td, qd)
      | Inr (decided_by, label, c, user) \<Rightarrow>
          (let ca = \<lparr>ca_user = user, ca_org = ap_org rec\<rparr> in
           case resolve_participation td (rs_now env) (rs_state_id env) ca (ap_thread rec) (ap_requesting_agent rec) of
             (Inl e, td1) \<Rightarrow> (Some (Inl (ApBackend (''resume: participation: '' @ rs_show_thread env e))), td1, qd)
           | (Inr state, td1) \<Rightarrow>
               (case idempotency_key_try_from (''apv-note-'' @ rs_uuid_str env (ap_id rec)) of
                  Inl e \<Rightarrow> (Some (Inl (ApParse e)), td1, qd)
                | Inr note_key \<Rightarrow>
                    (case append_message td1 (rs_now env) (rs_note_id env) ca (ap_thread rec)
                        (resume_note label rec (cg_display_name c) note_key) of
                       (Inl e, td2) \<Rightarrow> (Some (Inl (ApBackend (''resume: append note: '' @ rs_show_thread env e))), td2, qd)
                     | (Inr note, td2) \<Rightarrow>
                         (case bump_or_fail_for_user qd user (ap_root rec) of
                            (None, _) \<Rightarrow> (None, td2, qd)
                          | (Some _, qd1) \<Rightarrow>
                              (case idempotency_key_try_from (''apv-resume-'' @ rs_uuid_str env (ap_id rec)) of
                                 Inl e \<Rightarrow> (Some (Inl (ApParse e)), td2, qd1)
                               | Inr key \<Rightarrow>
                                   (case enqueue_trigger qd1 (rs_now env) (rs_request_id env) (rs_traceparent env)
                                       (resume_trigger rec user state decided_by note key) of
                                      (Inl e, qd2) \<Rightarrow>
                                        (Some (Inl (ApBackend (''resume: enqueue: '' @ rs_show_prompt env e))), td2, qd2)
                                    | (Inr _, qd2) \<Rightarrow> (Some (Inr ()), td2, qd2))))))))"

text \<open>The click: decide, and resume the agent on the first decision only.\<close>

definition decide_and_resume ::
  "resume_env \<Rightarrow> uuid \<Rightarrow> uuid \<Rightarrow> decision \<Rightarrow> uuid \<Rightarrow> approval_db \<Rightarrow> thread_db \<Rightarrow> queue_db
   \<Rightarrow> (decide_outcome, approval_error) result option \<times> approval_db \<times> thread_db \<times> queue_db" where
  "decide_and_resume env org i d clicker ad td qd =
     (case decide_approval ad org i d clicker (rs_now env) of
        (Inl e, ad1) \<Rightarrow> (Some (Inl e), ad1, td, qd)
      | (Inr (AlreadyDecided rec), ad1) \<Rightarrow> (Some (Inr (AlreadyDecided rec)), ad1, td, qd)
      | (Inr (Decided rec), ad1) \<Rightarrow>
          (case resume env rec td qd of
             (None, td1, qd1) \<Rightarrow> (None, ad1, td1, qd1)
           | (Some (Inl e), td1, qd1) \<Rightarrow> (Some (Inl e), ad1, td1, qd1)
           | (Some (Inr _), td1, qd1) \<Rightarrow> (Some (Inr (Decided rec)), ad1, td1, qd1)))"

end
