(* ===== verification/Approval_Properties.thy ===== *)
theory Approval_Properties
  imports Approvals
begin

text \<open>
  The approval store as a transition system: the invariant of its rows, what no step changes of a
  row that exists, and what the gate and the click promise on top of them.
\<close>

section \<open>The system\<close>

datatype approval_event =
    SCreate timestamp caller new_approval
  | SAttach caller uuid string
  | SDecide uuid uuid decision uuid timestamp
  | SExpire "uuid \<Rightarrow> bool" timestamp
  | SGate caller uuid string
  | SUngate caller uuid string
  | SMembers "(uuid \<times> uuid) list"

fun approval_next :: "approval_db \<Rightarrow> approval_event \<Rightarrow> approval_db" where
  "approval_next db (SCreate now ca n) = snd (create_approval db now ca n)"
| "approval_next db (SAttach ca i m) = snd (attach_message db ca i m)"
| "approval_next db (SDecide org i d clicker now) = snd (decide_approval db org i d clicker now)"
| "approval_next db (SExpire locked now) = snd (expire_due db locked now)"
| "approval_next db (SGate ca agent tool) = snd (set_gated db ca agent tool)"
| "approval_next db (SUngate ca agent tool) = snd (unset_gated db ca agent tool)"
| "approval_next db (SMembers ms) = db\<lparr>ad_members := ms\<rparr>"

inductive approval_step :: "approval_db \<Rightarrow> approval_event \<Rightarrow> approval_db \<Rightarrow> bool" where
  "approval_step db e (approval_next db e)"

inductive_simps approval_step_iff: "approval_step db e db'"

definition approval_init :: "approval_db \<Rightarrow> bool" where
  "approval_init db \<longleftrightarrow> ad_rows db = [] \<and> ad_approvers db = [] \<and> ad_gated db = []"

definition row_ok :: "approval_db \<Rightarrow> approval_row \<Rightarrow> bool" where
  "row_ok db r \<longleftrightarrow>
     (ap_colleague r \<noteq> None \<longleftrightarrow> ap_kind r = AkColleague)
     \<and> (case (ap_decided_by r, ap_decided_at r) of
          (None, None) \<Rightarrow> ap_status r \<in> {ApPending, ApExpired}
        | (Some c, Some t) \<Rightarrow> ap_status r \<in> {ApApproved, ApDenied} \<and> t < ap_expires_at r
            \<and> policy_allows (ap_kind r) (ap_colleague r) (select_approver_ids db (ap_id r)) c
        | _ \<Rightarrow> False)"

definition approval_inv :: "approval_db \<Rightarrow> bool" where
  "approval_inv db \<longleftrightarrow> distinct (map ap_id (ad_rows db))
     \<and> distinct (map (\<lambda>r. (ap_org r, ap_key r)) (ad_rows db))
     \<and> fst ` set (ad_approvers db) \<subseteq> ap_id ` set (ad_rows db)
     \<and> (\<forall>r \<in> set (ad_rows db). row_ok db r)"

text \<open>What is asked never changes, and a row that left \<open>pending\<close> never changes its outcome.\<close>

definition same_request :: "approval_row \<Rightarrow> approval_row \<Rightarrow> bool" where
  "same_request r r' \<longleftrightarrow> ap_id r' = ap_id r \<and> ap_org r' = ap_org r \<and> ap_root r' = ap_root r
     \<and> ap_gated_tool r' = ap_gated_tool r \<and> ap_action r' = ap_action r \<and> ap_kind r' = ap_kind r
     \<and> ap_colleague r' = ap_colleague r \<and> ap_expires_at r' = ap_expires_at r
     \<and> ap_requesting_agent r' = ap_requesting_agent r \<and> ap_key r' = ap_key r"

definition outcome_kept :: "approval_row \<Rightarrow> approval_row \<Rightarrow> bool" where
  "outcome_kept r r' \<longleftrightarrow> (ap_status r \<noteq> ApPending \<longrightarrow> ap_status r' = ap_status r
     \<and> ap_decided_by r' = ap_decided_by r \<and> ap_decided_at r' = ap_decided_at r)"

definition approval_le :: "approval_db \<Rightarrow> approval_db \<Rightarrow> bool" where
  "approval_le db db' \<longleftrightarrow> (\<forall>r \<in> set (ad_rows db).
     select_approver_ids db' (ap_id r) = select_approver_ids db (ap_id r)
     \<and> (\<exists>r' \<in> set (ad_rows db'). same_request r r' \<and> outcome_kept r r'))"

section \<open>The steps\<close>

lemma select_approver_ids_cong: "ad_approvers db' = ad_approvers db \<Longrightarrow> select_approver_ids db' = select_approver_ids db"
  by (simp add: select_approver_ids_def fun_eq_iff)

lemma row_ok_cong: "select_approver_ids db' (ap_id r) = select_approver_ids db (ap_id r) \<Longrightarrow> row_ok db' r = row_ok db r"
  by (simp add: row_ok_def split: option.split)

text \<open>A step that rewrites rows in place.\<close>

lemma map_rows_keeps:
  assumes "approval_inv db" "ad_rows db' = map f (ad_rows db)" "ad_approvers db' = ad_approvers db"
    and "\<And>r. r \<in> set (ad_rows db) \<Longrightarrow> row_ok db r \<Longrightarrow>
      same_request r (f r) \<and> outcome_kept r (f r) \<and> row_ok db (f r)"
  shows "approval_inv db' \<and> approval_le db db'"
proof -
  have s: "select_approver_ids db' = select_approver_ids db" using assms(3) by (rule select_approver_ids_cong)
  have k: "row_ok db' r = row_ok db r" for r by (rule row_ok_cong) (simp add: s)
  have ok: "\<forall>r \<in> set (ad_rows db). row_ok db r" using assms(1) by (simp add: approval_inv_def)
  have f: "same_request r (f r)" "outcome_kept r (f r)" "row_ok db' (f r)" if "r \<in> set (ad_rows db)" for r
    using assms(4) [OF that] ok that unfolding k by blast+
  then have m: "map ap_id (map f (ad_rows db)) = map ap_id (ad_rows db)"
    "map (\<lambda>r. (ap_org r, ap_key r)) (map f (ad_rows db)) = map (\<lambda>r. (ap_org r, ap_key r)) (ad_rows db)"
    by (auto simp: same_request_def)
  then have i: "ap_id ` f ` set (ad_rows db) = ap_id ` set (ad_rows db)" by (metis set_map)
  have "approval_inv db'"
    using assms(1) f(3) unfolding approval_inv_def assms(2,3) m set_map i by blast
  moreover have "approval_le db db'"
    using f(1,2) unfolding approval_le_def assms(2) s set_map by blast
  ultimately show ?thesis ..
qed

lemma same_request_refl [simp]: "same_request r r" by (simp add: same_request_def)
lemma outcome_kept_refl [simp]: "outcome_kept r r" by (simp add: outcome_kept_def)

lemma approval_le_refl: "approval_le db db"
  unfolding approval_le_def using same_request_refl outcome_kept_refl by blast

lemma same_rows_keeps:
  assumes "approval_inv db" "ad_rows db' = ad_rows db" "ad_approvers db' = ad_approvers db"
  shows "approval_inv db' \<and> approval_le db db'"
  using assms by (intro map_rows_keeps [where f = "\<lambda>r. r"]) auto

text \<open>The whitelist of a new approval is kept apart from those of the others.\<close>

lemma insert_approvers_other:
  "i \<noteq> na_id n \<Longrightarrow> select_approver_ids (insert_approvers db n) i = select_approver_ids db i"
proof -
  assume i: "i \<noteq> na_id n"
  have "filter (\<lambda>(a, c). a = i) (fold (\<lambda>c t. if (na_id n, c) \<in> set t then t else t @ [(na_id n, c)]) cs t)
      = filter (\<lambda>(a, c). a = i) t" for cs :: "uuid list" and t
    using i by (induct cs arbitrary: t) auto
  then show ?thesis by (simp add: select_approver_ids_def insert_approvers_def)
qed

lemma insert_approvers_ids:
  "fst ` set (ad_approvers (insert_approvers db n)) \<subseteq> insert (na_id n) (fst ` set (ad_approvers db))"
proof -
  have "fst ` set (fold (\<lambda>c t. if (na_id n, c) \<in> set t then t else t @ [(na_id n, c)]) cs t)
      \<subseteq> insert (na_id n) (fst ` set t)" for cs :: "uuid list" and t
  proof (induct cs arbitrary: t)
    case (Cons c cs)
    show ?case using Cons [of "if (na_id n, c) \<in> set t then t else t @ [(na_id n, c)]"]
      by (auto split: if_splits)
  qed auto
  then show ?thesis by (simp add: insert_approvers_def)
qed

lemma create_cases:
  obtains "snd (create_approval db now ca n) = db"
  | "snd (create_approval db now ca n) = insert_approvers (db\<lparr>ad_rows := ad_rows db @ [row_of_new n (ca_org ca) now]\<rparr>) n"
    "\<forall>r \<in> set (ad_rows db). ap_id r \<noteq> na_id n \<and> \<not> (ap_org r = ca_org ca \<and> ap_key r = na_key n)"
proof (cases "snd (create_approval db now ca n) = db")
  case False
  then obtain row db1 where ins: "insert_row db (ca_user ca) n (ca_org ca) now = (Inr (Some row), db1)"
    by (cases "insert_row db (ca_user ca) n (ca_org ca) now")
      (auto simp: create_approval_def split: sum.splits option.splits)
  moreover from this have "row = row_of_new n (ca_org ca) now"
    "db1 = db\<lparr>ad_rows := ad_rows db @ [row_of_new n (ca_org ca) now]\<rparr>"
    "\<forall>r \<in> set (ad_rows db). ap_id r \<noteq> na_id n \<and> \<not> (ap_org r = ca_org ca \<and> ap_key r = na_key n)"
    by (auto simp: insert_row_def Let_def split: if_splits)
  ultimately show thesis using that(2) False
    by (cases "record_from_row row") (simp_all add: create_approval_def)
qed (use that(1) in blast)

lemma create_keeps:
  assumes "approval_inv db"
  shows "approval_inv (snd (create_approval db now ca n)) \<and> approval_le db (snd (create_approval db now ca n))"
proof (cases rule: create_cases [of db now ca n])
  case 1
  then show ?thesis using assms same_rows_keeps [of db db] by simp
next
  case 2
  let ?row = "row_of_new n (ca_org ca) now"
  let ?db' = "insert_approvers (db\<lparr>ad_rows := ad_rows db @ [?row]\<rparr>) n"
  have rows: "ad_rows ?db' = ad_rows db @ [?row]" by (simp add: insert_approvers_def)
  have s: "select_approver_ids ?db' (ap_id r) = select_approver_ids db (ap_id r)" if "r \<in> set (ad_rows db)" for r
    using insert_approvers_other [of "ap_id r" n] 2(2) that by (simp add: select_approver_ids_def)
  have "row_ok ?db' ?row" by (cases "na_approvers n") (simp_all add: row_ok_def row_of_new_def)
  moreover have "row_ok ?db' r" if "r \<in> set (ad_rows db)" for r
    using assms that row_ok_cong [OF s [OF that]] by (simp add: approval_inv_def)
  moreover have "ap_id ?row = na_id n" "ap_org ?row = ca_org ca" "ap_key ?row = na_key n"
    by (simp_all add: row_of_new_def)
  moreover have "fst ` set (ad_approvers ?db') \<subseteq> insert (na_id n) (ap_id ` set (ad_rows db))"
    using insert_approvers_ids [of "db\<lparr>ad_rows := ad_rows db @ [?row]\<rparr>" n] assms by (auto simp: approval_inv_def)
  ultimately have "approval_inv ?db'" using assms 2(2) by (auto simp: approval_inv_def rows)
  moreover have "approval_le db ?db'" using s same_request_refl outcome_kept_refl unfolding approval_le_def rows by (metis Un_iff set_append)
  ultimately show ?thesis using 2(1) by simp
qed

lemma truncate_simps [simp]:
  "ap_status (approval.truncate r) = ap_status r" "ap_expires_at (approval.truncate r) = ap_expires_at r"
  "ap_kind (approval.truncate r) = ap_kind r" "ap_colleague (approval.truncate r) = ap_colleague r"
  by (simp_all add: approval.truncate_def)

lemma record_from_row_Inr: "record_from_row row = Inr rec \<Longrightarrow> rec = approval.truncate row"
  by (auto simp: record_from_row_def split: sum.splits option.splits)

lemma decide_cases:
  obtains "snd (decide_approval db org i d clicker now) = db"
  | row where "find_approval db org i = Some row" "ap_status row = ApPending" "now < ap_expires_at row"
    "policy_allows (ap_kind row) (ap_colleague row) (select_approver_ids db i) clicker"
    "snd (decide_approval db org i d clicker now) = db\<lparr>ad_rows :=
       update_where (\<lambda>r. ap_id r = i \<and> ap_org r = org \<and> ap_status r = ApPending)
         (\<lambda>r. r\<lparr>ap_status := decision_status d, ap_decided_by := Some clicker, ap_decided_at := Some now\<rparr>) (ad_rows db)\<rparr>"
proof (cases "snd (decide_approval db org i d clicker now) = db")
  case False
  then obtain row where row: "find_approval db org i = Some row"
    by (cases "find_approval db org i") (simp_all add: decide_approval_def)
  with False obtain rec where rec: "record_from_row row = Inr rec"
    by (cases "record_from_row row") (simp_all add: decide_approval_def)
  note tr = record_from_row_Inr [OF rec]
  let ?one_of = "if ap_kind row = AkOneOf then select_approver_ids db i else []"
  have st: "ap_status row = ApPending" "now < ap_expires_at row"
    using False row rec tr by (cases "ap_status row"; simp add: decide_approval_def split: if_splits)+
  have pol: "policy_allows (ap_kind row) (ap_colleague row) ?one_of clicker"
    using False row rec tr st by (simp add: decide_approval_def Let_def split: if_splits)
  then have pol': "policy_allows (ap_kind row) (ap_colleague row) (select_approver_ids db i) clicker"
    by (simp add: policy_allows_def split: approver_kind.splits if_splits)
  show thesis
    using that(2) [OF row st pol'] False row rec tr st pol
    by (simp add: decide_approval_def Let_def split: if_splits sum.splits)
qed (use that(1) in blast)

lemma find_approval_mem: "find_approval db org i = Some row \<Longrightarrow> row \<in> set (ad_rows db) \<and> ap_id row = i \<and> ap_org row = org"
  by (auto simp: find_approval_def find_Some_iff)

lemma decide_keeps:
  assumes inv: "approval_inv db"
  shows "approval_inv (snd (decide_approval db org i d clicker now))
    \<and> approval_le db (snd (decide_approval db org i d clicker now))"
proof (cases rule: decide_cases [of db org i d clicker now])
  case 1
  then show ?thesis using inv same_rows_keeps [of db db] by simp
next
  case (2 row)
  note row = find_approval_mem [OF 2(1)]
  have eq: "r = row" if "r \<in> set (ad_rows db)" "ap_id r = i" for r
    using inv row that by (auto simp: approval_inv_def distinct_map inj_on_def)
  let ?f = "\<lambda>r. if ap_id r = i \<and> ap_org r = org \<and> ap_status r = ApPending
    then r\<lparr>ap_status := decision_status d, ap_decided_by := Some clicker, ap_decided_at := Some now\<rparr> else r"
  have "same_request r (?f r) \<and> outcome_kept r (?f r) \<and> row_ok db (?f r)"
    if "r \<in> set (ad_rows db)" "row_ok db r" for r
  proof (cases "ap_id r = i \<and> ap_org r = org \<and> ap_status r = ApPending")
    case True
    then have "r = row" using eq that(1) by blast
    then show ?thesis using 2(2-4) that(2) True
      by (cases d) (simp_all add: same_request_def outcome_kept_def row_ok_def)
  next
    case False
    then show ?thesis using that(2) by auto
  qed
  then show ?thesis using inv unfolding 2(5)
    by (intro map_rows_keeps [where f = ?f]) (simp_all add: update_where_def)
qed

lemma expire_keeps:
  assumes "approval_inv db"
  shows "approval_inv (snd (expire_due db locked now)) \<and> approval_le db (snd (expire_due db locked now))"
proof -
  let ?f = "\<lambda>r. if ap_id r \<in> set (due_ids db locked now) then r\<lparr>ap_status := ApExpired\<rparr> else r"
  have pending: "ap_status r = ApPending" if r: "r \<in> set (ad_rows db)" and i: "ap_id r \<in> set (due_ids db locked now)" for r
  proof -
    obtain r' where "r' \<in> set (ad_rows db)" "ap_status r' = ApPending" "ap_id r' = ap_id r"
      using i by (auto simp: due_ids_def dest!: in_set_takeD)
    then show ?thesis using assms r by (auto simp: approval_inv_def distinct_map inj_on_def)
  qed
  have "same_request r (?f r) \<and> outcome_kept r (?f r) \<and> row_ok db (?f r)"
    if "r \<in> set (ad_rows db)" "row_ok db r" for r
    using that pending [OF that(1)]
    by (auto simp: same_request_def outcome_kept_def row_ok_def split: option.splits)
  then show ?thesis using assms
    by (intro map_rows_keeps [where f = ?f]) (simp_all add: expire_due_def update_where_def Let_def)
qed

lemma row_ok_message [simp]: "row_ok db (r\<lparr>ap_message_id := x\<rparr>) = row_ok db r"
  by (simp add: row_ok_def split: option.split)

lemma attach_keeps:
  assumes "approval_inv db"
  shows "approval_inv (snd (attach_message db ca i m)) \<and> approval_le db (snd (attach_message db ca i m))"
proof (cases "snd (attach_message db ca i m) = db")
  case True
  then show ?thesis using assms same_rows_keeps [of db db] by simp
next
  case False
  let ?f = "\<lambda>r. if ap_id r = i \<and> ap_org r = ca_org ca \<and> ad_is_member db (ca_user ca) (ap_org r)
    then r\<lparr>ap_message_id := Some m\<rparr> else r"
  have "snd (attach_message db ca i m) = db\<lparr>ad_rows := map ?f (ad_rows db)\<rparr>"
    using False by (simp add: attach_message_def Let_def update_where_def split: if_splits)
  then show ?thesis using assms
    by (intro map_rows_keeps [where f = ?f]) (auto simp: same_request_def outcome_kept_def)
qed

lemma same_rows_step:
  "ad_rows db' = ad_rows db \<and> ad_approvers db' = ad_approvers db \<Longrightarrow> approval_inv db \<Longrightarrow> approval_inv db' \<and> approval_le db db'"
  using same_rows_keeps by blast

lemma approval_step_keeps: "approval_inv db \<Longrightarrow> approval_inv (approval_next db e) \<and> approval_le db (approval_next db e)"
proof (cases e)
  case (SGate ca agent tool)
  then show "approval_inv db \<Longrightarrow> ?thesis" by (intro same_rows_step) (auto simp: set_gated_def)
next
  case (SUngate ca agent tool)
  then show "approval_inv db \<Longrightarrow> ?thesis" by (intro same_rows_step) (auto simp: unset_gated_def)
next
  case (SMembers ms)
  then show "approval_inv db \<Longrightarrow> ?thesis" by (intro same_rows_step) auto
qed (simp_all add: create_keeps attach_keeps decide_keeps expire_keeps)

lemma approval_le_trans: "approval_le a b \<Longrightarrow> approval_le b c \<Longrightarrow> approval_le a c"
  unfolding approval_le_def
proof (intro ballI conjI)
  fix r assume ab: "\<forall>r\<in>set (ad_rows a). select_approver_ids b (ap_id r) = select_approver_ids a (ap_id r)
      \<and> (\<exists>r'\<in>set (ad_rows b). same_request r r' \<and> outcome_kept r r')"
    and bc: "\<forall>r\<in>set (ad_rows b). select_approver_ids c (ap_id r) = select_approver_ids b (ap_id r)
      \<and> (\<exists>r'\<in>set (ad_rows c). same_request r r' \<and> outcome_kept r r')"
    and r: "r \<in> set (ad_rows a)"
  obtain r1 where r1: "r1 \<in> set (ad_rows b)" "same_request r r1" "outcome_kept r r1" using ab r by blast
  obtain r2 where r2: "r2 \<in> set (ad_rows c)" "same_request r1 r2" "outcome_kept r1 r2" using bc r1(1) by blast
  show "select_approver_ids c (ap_id r) = select_approver_ids a (ap_id r)"
    using ab bc r r1 by (metis same_request_def)
  have "same_request r r2" using r1(2) r2(2) by (simp add: same_request_def)
  moreover have "outcome_kept r r2" using r1(3) r2(3) by (auto simp: outcome_kept_def)
  ultimately show "\<exists>r'\<in>set (ad_rows c). same_request r r' \<and> outcome_kept r r'" using r2(1) by blast
qed

interpretation approvals: monotone_system approval_init approval_step approval_inv approval_le
proof unfold_locales
  show "approval_inv db" if "approval_init db" for db using that by (simp add: approval_init_def approval_inv_def)
  show "approval_inv db'" if "approval_inv db" "approval_step db e db'" for db e db'
    using that approval_step_keeps by (auto simp: approval_step_iff)
  show "approval_le db db'" if "approval_inv db" "approval_step db e db'" for db e db'
    using that approval_step_keeps by (auto simp: approval_step_iff)
  show "approval_le db db" for db by (rule approval_le_refl)
  show "approval_le a c" if "approval_le a b" "approval_le b c" for a b c using that by (rule approval_le_trans)
qed

lemmas approvals_reach_inv = approvals.reach_inv

lemma find_map_kept:
  "find P xs = Some x \<Longrightarrow> (\<And>r. P (g r) = P r) \<Longrightarrow> find P (map g xs) = Some (g x)"
  by (induct xs) (auto split: if_splits)

section \<open>Properties\<close>

text \<open>
  A call of a gated tool passes the hard gate only if, in its conversation and organisation, an
  approval of that tool was decided in favour before its deadline by a colleague its policy allows;
  and whenever one of the two reads fails the call is refused.
\<close>

lemma gate_needs_allowed_approval:
  assumes "reach approval_init approval_step db" "is_gated db org agent tool"
    and "gate_check config_ok approvals_ok db org agent root tool = Allowed"
  shows "config_ok \<and> approvals_ok \<and> (\<exists>r c t. r \<in> set (ad_rows db) \<and> ap_org r = org \<and> ap_root r = root
    \<and> ap_gated_tool r = tool \<and> ap_status r = ApApproved \<and> ap_decided_by r = Some c \<and> ap_decided_at r = Some t
    \<and> t < ap_expires_at r \<and> policy_allows (ap_kind r) (ap_colleague r) (select_approver_ids db (ap_id r)) c)"
proof -
  have ok: config_ok approvals_ok "has_approved_for_dag db org root tool"
    using assms(2,3) by (auto simp: gate_check_def split: if_splits)
  obtain r where r: "r \<in> set (ad_rows db)" "ap_org r = org" "ap_root r = root" "ap_gated_tool r = tool"
    "ap_status r = ApApproved" using ok(3) by (auto simp: has_approved_for_dag_def)
  moreover have "row_ok db r" using approvals_reach_inv [OF assms(1)] r(1) by (simp add: approval_inv_def)
  ultimately show ?thesis using ok(1,2)
    by (auto simp: row_ok_def split: option.splits intro!: exI [of _ r])
qed

text \<open>
  C10. A decision is final: once an approval is approved or denied, no sequence of store operations
  changes the outcome, and every later click answers with it and changes nothing.
\<close>

theorem decision_is_final:
  assumes "reach approval_init approval_step db" "find_approval db org i = Some row"
    and "ap_status row = ApApproved \<or> ap_status row = ApDenied" "steps approval_step db es db'"
  shows "(\<exists>row'. find_approval db' org i = Some row' \<and> ap_status row' = ap_status row
      \<and> ap_decided_by row' = ap_decided_by row \<and> ap_decided_at row' = ap_decided_at row)
    \<and> (snd (decide_approval db' org i d clicker now) = db')"
proof -
  note inv = approvals_reach_inv [OF assms(1)]
  note inv' = approvals.steps_inv [OF assms(4) inv] and le = approvals.steps_le [OF assms(4) inv]
  note row = find_approval_mem [OF assms(2)]
  obtain r' where r': "r' \<in> set (ad_rows db')" "same_request row r'" "outcome_kept row r'"
    using le row by (auto simp: approval_le_def)
  have "find_approval db' org i = Some r'"
  proof (cases "find_approval db' org i")
    case None
    then show ?thesis using r' row by (auto simp: find_approval_def find_None_iff same_request_def)
  next
    case (Some x)
    then show ?thesis using find_approval_mem [OF Some] r' row inv'
      by (auto simp: approval_inv_def distinct_map inj_on_def same_request_def)
  qed
  moreover from this have "snd (decide_approval db' org i d clicker now) = db'"
    using r'(3) assms(3) by (cases rule: decide_cases [of db' org i d clicker now]) (auto simp: outcome_kept_def)
  ultimately show ?thesis using r'(3) assms(3) by (auto simp: outcome_kept_def)
qed

text \<open>
  An approval opens its tool for the rest of the conversation: once one request for a tool is
  approved, then whatever happens later the gate lets every call of that tool through, by any agent
  of the organisation and with any arguments, although what the approver was shown is one action.
\<close>

theorem approval_opens_the_whole_tool:
  assumes "reach approval_init approval_step db" "row \<in> set (ad_rows db)" "ap_status row = ApApproved"
    and "steps approval_step db es db'"
  shows "gate_check True True db' (ap_org row) agent (ap_root row) (ap_gated_tool row) = Allowed"
proof -
  note inv = approvals_reach_inv [OF assms(1)]
  obtain r' where "r' \<in> set (ad_rows db')" "same_request row r'" "outcome_kept row r'"
    using approvals.steps_le [OF assms(4) inv] assms(2) by (auto simp: approval_le_def)
  then have "has_approved_for_dag db' (ap_org row) (ap_root row) (ap_gated_tool row)"
    using assms(3) by (auto simp: has_approved_for_dag_def same_request_def outcome_kept_def)
  then show ?thesis by (simp add: gate_check_def)
qed

text \<open>
  The resume of the agent is attempted once: when the click that recorded the decision failed to
  resume, every later click answers that the approval is already decided and touches neither the
  thread nor the queue.
\<close>

lemma failed_resume_is_not_repeated:
  assumes "decide_and_resume env org i d clicker ad td qd = (Some (Inl e), ad1, td1, qd1)" and "ad1 \<noteq> ad"
  shows "\<exists>rec. decide_and_resume env' org i d' clicker' ad1 td' qd' = (Some (Inr (AlreadyDecided rec)), ad1, td', qd')"
proof -
  obtain row rec where row: "find_approval ad org i = Some row" "record_from_row row = Inr rec"
    using assms by (auto simp: decide_and_resume_def decide_approval_def split: option.splits sum.splits)
  let ?upd = "\<lambda>r. r\<lparr>ap_status := decision_status d, ap_decided_by := Some clicker, ap_decided_at := Some (rs_now env)\<rparr>"
  have ad1: "ad1 = snd (decide_approval ad org i d clicker (rs_now env))"
    using assms(1) by (auto simp: decide_and_resume_def split: prod.splits sum.splits decide_outcome.splits option.splits)
  with assms(2) have pend: "ap_status row = ApPending"
    and ad1': "ad1 = ad\<lparr>ad_rows := update_where (\<lambda>r. ap_id r = i \<and> ap_org r = org \<and> ap_status r = ApPending) ?upd (ad_rows ad)\<rparr>"
    using row(1) by (cases rule: decide_cases [of ad org i d clicker "rs_now env"]; simp)+
  have "find_approval ad1 org i = Some (?upd row)"
    using row(1) pend find_approval_mem [OF row(1)] unfolding find_approval_def ad1'
    by (simp add: update_where_def find_map_kept)
  moreover have "record_from_row (?upd row) = Inr (approval.truncate (?upd row))"
    using row(2) by (auto simp: record_from_row_def split: sum.splits option.splits)
  ultimately show ?thesis
    by (cases d) (simp_all add: decide_and_resume_def decide_approval_def)
qed

section \<open>The properties at work\<close>

text \<open>One organisation, a refund asked for and approved by colleague 7 of a whitelist of two.\<close>

definition ex_new :: new_approval where
  "ex_new = \<lparr>na_id = 1, na_thread = 2, na_agent = 3, na_colleague = 4, na_root = 5, na_action = ''refund 40'',
     na_gated_tool = ''refund'', na_approvers = OneOf [7, 8], na_target = WebTarget, na_key = ''k'', na_expires_at = 100\<rparr>"

definition ex_caller :: caller where "ex_caller = \<lparr>ca_user = 9, ca_org = 6\<rparr>"

definition ex_init :: approval_db where
  "ex_init = \<lparr>ad_rows = [], ad_approvers = [], ad_gated = [], ad_members = [(9, 6)]\<rparr>"

definition ex_pending :: approval_db where
  "ex_pending = approval_next (approval_next ex_init (SCreate 10 ex_caller ex_new)) (SGate ex_caller 3 ''refund'')"

definition ex_approved :: approval_db where
  "ex_approved = approval_next ex_pending (SDecide 6 1 DApproved 7 20)"

definition ex_row :: approval_row where
  "ex_row = (row_of_new ex_new 6 10)\<lparr>ap_status := ApApproved, ap_decided_by := Some 7, ap_decided_at := Some 20\<rparr>"

lemmas ex_defs = ex_new_def ex_caller_def ex_init_def row_of_new_def

lemma ex_pending_eq: "ex_pending = \<lparr>ad_rows = [row_of_new ex_new 6 10], ad_approvers = [(1, 7), (1, 8)],
    ad_gated = [((3, ''refund''), 6)], ad_members = [(9, 6)]\<rparr>"
  by (simp add: ex_pending_def ex_defs create_approval_def insert_row_def ad_is_member_def Let_def
      record_from_row_def action_summary_try_from_def tool_name_try_from_def is_ascii_alphanumeric_def
      APPROVAL_SUMMARY_MAX_def TOOL_NAME_MAX_LEN_def insert_approvers_def set_gated_def)

lemma ex_approved_eq: "ex_approved = ex_pending\<lparr>ad_rows := [ex_row]\<rparr>"
  by (simp add: ex_approved_def ex_pending_eq ex_row_def ex_defs decide_approval_def find_approval_def
      record_from_row_def action_summary_try_from_def tool_name_try_from_def is_ascii_alphanumeric_def Let_def
      APPROVAL_SUMMARY_MAX_def TOOL_NAME_MAX_LEN_def approval.truncate_def policy_allows_def select_approver_ids_def
      update_where_def)

lemma ex_init_reach: "reach approval_init approval_step ex_init"
  by (rule reach.reach_init) (simp add: approval_init_def ex_init_def)

lemma approvals_reach_next:
  "reach approval_init approval_step db \<Longrightarrow> reach approval_init approval_step (approval_next db e)"
  by (blast intro: reach.reach_step approval_step.intros)

lemma ex_approved_reach: "reach approval_init approval_step ex_approved"
  unfolding ex_approved_def ex_pending_def
  by (rule approvals_reach_next)+ (rule ex_init_reach)

lemma ex_approved_stays: "steps approval_step ex_approved [SExpire (\<lambda>_. False) 1000] (approval_next ex_approved (SExpire (\<lambda>_. False) 1000))"
  by (rule steps.steps_cons [OF _ steps.steps_nil]) (rule approval_step.intros)

lemma gate_allows_approved:
  "gate_check True True ex_approved 6 3 5 ''refund'' = Allowed \<and> gate_check True True ex_pending 6 3 5 ''refund'' \<noteq> Allowed
   \<and> (\<exists>r c t. r \<in> set (ad_rows ex_approved) \<and> ap_org r = 6 \<and> ap_root r = 5
    \<and> ap_gated_tool r = ''refund'' \<and> ap_status r = ApApproved \<and> ap_decided_by r = Some c \<and> ap_decided_at r = Some t
    \<and> t < ap_expires_at r \<and> policy_allows (ap_kind r) (ap_colleague r) (select_approver_ids ex_approved (ap_id r)) c)"
proof -
  have g: "is_gated ex_approved 6 3 ''refund''" by (simp add: is_gated_def ex_approved_eq ex_pending_eq)
  have a: "gate_check True True ex_approved 6 3 5 ''refund'' = Allowed"
    by (simp add: gate_check_def has_approved_for_dag_def ex_approved_eq ex_row_def ex_defs)
  have p: "gate_check True True ex_pending 6 3 5 ''refund'' \<noteq> Allowed"
    by (simp add: gate_check_def has_approved_for_dag_def is_gated_def ex_pending_eq ex_defs)
  show ?thesis using a p gate_needs_allowed_approval [OF ex_approved_reach g a] by blast
qed

lemma ex_find: "find_approval ex_approved 6 1 = Some ex_row"
  by (simp add: find_approval_def ex_approved_eq ex_row_def ex_defs)

lemma decision_is_final_witness:
  "snd (decide_approval (approval_next ex_approved (SExpire (\<lambda>_. False) 1000)) 6 1 DDenied 8 30)
     = approval_next ex_approved (SExpire (\<lambda>_. False) 1000)"
  using decision_is_final [OF ex_approved_reach ex_find _ ex_approved_stays, of DDenied 8 30]
  by (simp add: ex_row_def)

lemma approval_opens_the_whole_tool_witness:
  "gate_check True True (approval_next ex_approved (SExpire (\<lambda>_. False) 1000)) 6 12345 5 ''refund'' = Allowed"
  using approval_opens_the_whole_tool [OF ex_approved_reach, of ex_row, OF _ _ ex_approved_stays, of 12345]
  by (simp add: ex_approved_eq ex_row_def ex_defs)

definition ex_resume :: resume_env where
  "ex_resume = \<lparr>rs_colleague = (\<lambda>_. Inl ''down''), rs_show_thread = (\<lambda>_. []), rs_show_prompt = (\<lambda>_. []),
     rs_uuid_str = (\<lambda>_. ''u''), rs_state_id = 30, rs_note_id = 31, rs_request_id = 32, rs_now = 20, rs_traceparent = None\<rparr>"

lemma ex_changed: "ex_approved \<noteq> ex_pending"
  by (simp add: ex_approved_eq ex_pending_eq ex_row_def ex_defs)

lemma ex_resume_fails:
  "decide_and_resume ex_resume 6 1 DApproved 7 ex_pending td qd
     = (Some (Inl (ApBackend ''resume: read decider: down'')), ex_approved, td, qd)"
proof -
  have d: "decide_approval ex_pending 6 1 DApproved 7 20 = (Inr (Decided (approval.truncate ex_row)), ex_approved)"
    by (simp add: ex_approved_eq ex_pending_eq ex_row_def ex_defs decide_approval_def find_approval_def
      record_from_row_def action_summary_try_from_def tool_name_try_from_def is_ascii_alphanumeric_def Let_def
      APPROVAL_SUMMARY_MAX_def TOOL_NAME_MAX_LEN_def approval.truncate_def policy_allows_def select_approver_ids_def
      update_where_def)
  have "resume_decider ex_resume (approval.truncate ex_row) = Inl (ApBackend ''resume: read decider: down'')"
    by (simp add: resume_decider_def ex_resume_def ex_row_def ex_defs approval.truncate_def)
  then show ?thesis using d by (simp add: decide_and_resume_def resume_def ex_resume_def)
qed

lemma failed_resume_is_not_repeated_witness:
  "\<forall>td qd. \<exists>rec. decide_and_resume (ex_resume\<lparr>rs_now := 30\<rparr>) 6 1 DApproved 8 ex_approved td qd
     = (Some (Inr (AlreadyDecided rec)), ex_approved, td, qd)"
  using failed_resume_is_not_repeated [OF ex_resume_fails ex_changed] by blast

end
