(* ===== verification/Toolbox.thy ===== *)
theory Toolbox
  imports Tool_Reduction Participants "HOL-Library.Word" "HOL-Library.Char_ord" "HOL-Library.List_Lexorder"
begin

text \<open>
  What an agent can call (\<open>tools/modes.rs\<close>, \<open>tools/registry.rs\<close>, \<open>tools/toolbox.rs\<close>): a tool declares
  the request kinds it is available in as a bit set, the registry is frozen at start-up, and the
  toolbox puts it before a dynamic source. Also the classes of the calls of a turn and their
  batches (\<open>agent_core/turn.rs\<close>). A tool's \<open>execute\<close> is not part of it.
\<close>

unbundle bit_operations_syntax

section \<open>Modes\<close>

type_synonym request_kind_modes = "8 word"

definition modes_none :: request_kind_modes where "modes_none = 0"
definition modes_normal :: request_kind_modes where "modes_normal = push_bit 0 1"
definition modes_reflection :: request_kind_modes where "modes_reflection = push_bit 1 1"
definition modes_resolution :: request_kind_modes where "modes_resolution = push_bit 2 1"
definition modes_all :: request_kind_modes where "modes_all = 7"

fun modes_for_kind :: "request_kind \<Rightarrow> request_kind_modes" where
  "modes_for_kind Normal = modes_normal"
| "modes_for_kind Reflection = modes_reflection"
| "modes_for_kind Resolution = modes_resolution"

definition modes_includes :: "request_kind_modes \<Rightarrow> request_kind \<Rightarrow> bool" where
  "modes_includes m k \<longleftrightarrow> m AND modes_for_kind k \<noteq> 0"

definition modes_union :: "request_kind_modes \<Rightarrow> request_kind_modes \<Rightarrow> request_kind_modes" where
  "modes_union a b = a OR b"

lemmas modes_defs = modes_none_def modes_normal_def modes_reflection_def modes_resolution_def modes_all_def

lemma modes_includes_all: "modes_includes modes_all k"
  by (cases k) (simp_all add: modes_includes_def modes_defs)

lemma modes_includes_none: "\<not> modes_includes modes_none k"
  by (simp add: modes_includes_def modes_none_def)

lemma modes_includes_single: "modes_includes (modes_for_kind k) k' \<longleftrightarrow> k = k'"
  by (cases k; cases k') (simp_all add: modes_includes_def modes_defs)

lemma modes_includes_union: "modes_includes (modes_union a b) k \<longleftrightarrow> modes_includes a k \<or> modes_includes b k"
  by (simp add: modes_includes_def modes_union_def bit.conj_disj_distrib2 or_eq_0_iff)

section \<open>What a call carries and how it fails\<close>

record tool_ctx =
  tx_claim_key :: uuid
  tx_thread_id :: "uuid option"
  tx_state_id :: "uuid option"
  tx_viewer :: participant
  tx_root_request_id :: uuid
  tx_request_id :: uuid
  tx_kind_payload :: request_kind_payload
  tx_acting_user_id :: uuid
  tx_org_id :: uuid

text \<open>The wrapped errors carry their own rendering.\<close>

datatype tool_error =
    InvalidInput string
  | ToolBackend string
  | DisallowedUrl string
  | ToolHttp string
  | Upstream nat string
  | ResultTooLarge nat
  | ToolJson string

fun tool_error_display :: "tool_error \<Rightarrow> string" where
  "tool_error_display (InvalidInput s) = ''invalid input: '' @ s"
| "tool_error_display (ToolBackend s) = ''backend error: '' @ s"
| "tool_error_display (DisallowedUrl s) = ''disallowed url: '' @ s"
| "tool_error_display (ToolHttp s) = ''http error: '' @ s"
| "tool_error_display (Upstream status body) = ''upstream returned status '' @ show_nat status @ '': '' @ body"
| "tool_error_display (ResultTooLarge m) =
     ''tool returned a result that exceeded the size cap ('' @ show_nat m @ '' bytes)''"
| "tool_error_display (ToolJson s) = s"

section \<open>The registry\<close>

text \<open>A tool as the record of what its trait methods return; \<open>to_policy\<close> takes the input of the call.\<close>

record tool =
  to_name :: string
  to_description :: string
  to_schema :: json
  to_modes :: request_kind_modes
  to_concurrency_safe :: bool
  to_policy :: "json \<Rightarrow> result_policy"

definition spec_of :: "tool \<Rightarrow> tool_spec" where
  "spec_of t = \<lparr>ts_name = to_name t, ts_description = to_description t, ts_input_schema = to_schema t\<rparr>"

text \<open>
  The entries are in registration order; the code keeps them in a hash map by name, whose iteration
  order no result depends on, because every listing is sorted by the unique name.
\<close>

record tool_registry =
  reg_tools :: "tool list"
  reg_specs :: "tool_spec list"

definition registry_build :: "tool list \<Rightarrow> tool_registry option" where
  "registry_build ts =
     (if distinct (map to_name ts)
      then Some \<lparr>reg_tools = ts, reg_specs = sort_key ts_name (map spec_of ts)\<rparr>
      else None)"

definition registry_empty :: tool_registry where
  "registry_empty = \<lparr>reg_tools = [], reg_specs = []\<rparr>"

definition registry_get :: "tool_registry \<Rightarrow> string \<Rightarrow> tool option" where
  "registry_get r name = find (\<lambda>t. to_name t = name) (reg_tools r)"

definition registry_get_for :: "tool_registry \<Rightarrow> request_kind \<Rightarrow> string \<Rightarrow> tool option" where
  "registry_get_for r k name =
     (case registry_get r name of
        None \<Rightarrow> None | Some t \<Rightarrow> if modes_includes (to_modes t) k then Some t else None)"

definition registry_specs_for :: "tool_registry \<Rightarrow> request_kind \<Rightarrow> tool_spec list" where
  "registry_specs_for r k =
     (if list_all (\<lambda>t. modes_includes (to_modes t) k) (reg_tools r) then reg_specs r
      else sort_key ts_name (map spec_of (filter (\<lambda>t. modes_includes (to_modes t) k) (reg_tools r))))"

section \<open>The toolbox\<close>

text \<open>The dynamic source as the record of the methods the toolbox calls.\<close>

record dynamic_source =
  ds_specs_for :: "request_kind \<Rightarrow> tool_spec list"
  ds_get_for :: "request_kind \<Rightarrow> string \<Rightarrow> tool option"
  ds_server_id_for :: "string \<Rightarrow> uuid option"

definition empty_source :: dynamic_source where
  "empty_source = \<lparr>ds_specs_for = (\<lambda>_. []), ds_get_for = (\<lambda>_ _. None), ds_server_id_for = (\<lambda>_. None)\<rparr>"

record toolbox =
  tb_builtins :: tool_registry
  tb_dynamic :: dynamic_source

definition toolbox_specs_for :: "toolbox \<Rightarrow> request_kind \<Rightarrow> tool_spec list" where
  "toolbox_specs_for tb k =
     (let builtins = registry_specs_for (tb_builtins tb) k; dynamic = ds_specs_for (tb_dynamic tb) k
      in if dynamic = [] then builtins else if builtins = [] then dynamic else builtins @ dynamic)"

definition toolbox_get_for :: "toolbox \<Rightarrow> request_kind \<Rightarrow> string \<Rightarrow> tool option" where
  "toolbox_get_for tb k name =
     (case registry_get_for (tb_builtins tb) k name of
        Some t \<Rightarrow> Some t | None \<Rightarrow> ds_get_for (tb_dynamic tb) k name)"

definition toolbox_server_id_for :: "toolbox \<Rightarrow> string \<Rightarrow> uuid option" where
  "toolbox_server_id_for tb name =
     (if registry_get (tb_builtins tb) name \<noteq> None then None else ds_server_id_for (tb_dynamic tb) name)"

lemma registry_get_name: "registry_get r name = Some t \<Longrightarrow> to_name t = name \<and> t \<in> set (reg_tools r)"
  by (auto simp: registry_get_def find_Some_iff)

lemma registry_get_unique:
  assumes "registry_build ts = Some r" "t \<in> set ts"
  shows "registry_get r (to_name t) = Some t"
proof -
  have r: "distinct (map to_name ts)" "reg_tools r = ts"
    using assms(1) by (auto simp: registry_build_def split: if_splits)
  obtain u where u: "registry_get r (to_name t) = Some u"
    using assms(2) r(2) by (cases "registry_get r (to_name t)") (auto simp: registry_get_def find_None_iff)
  with registry_get_name [OF u] r assms(2) show ?thesis
    by (auto simp: distinct_map inj_on_def)
qed

text \<open>The specifications shown for a kind are those of the tools that can be dispatched in it.\<close>

lemma registry_specs_for_eq:
  assumes "registry_build ts = Some r"
  shows "registry_specs_for r k = sort_key ts_name (map spec_of (filter (\<lambda>t. modes_includes (to_modes t) k) ts))"
  using assms by (auto simp: registry_specs_for_def registry_build_def list_all_iff split: if_splits
      intro!: arg_cong [where f = "\<lambda>xs. sort_key ts_name (map spec_of xs)"] filter_True [symmetric])

lemma registry_shows_what_it_runs:
  assumes "registry_build ts = Some r"
  shows "set (registry_specs_for r k) = {spec_of t | t name. registry_get_for r k name = Some t}"
proof -
  have "reg_tools r = ts" using assms by (auto simp: registry_build_def split: if_splits)
  then show ?thesis
    using registry_get_unique [OF assms] registry_get_name [of r]
    by (fastforce simp: registry_specs_for_eq [OF assms] registry_get_for_def split: option.splits if_splits)
qed

section \<open>Batches\<close>

datatype call_class = Safe tool | Unsafe tool | Unknown

definition classify :: "tool option \<Rightarrow> call_class" where
  "classify resolved =
     (case resolved of None \<Rightarrow> Unknown
      | Some t \<Rightarrow> if to_concurrency_safe t then Safe t else Unsafe t)"

fun class_is_safe :: "call_class \<Rightarrow> bool" where
  "class_is_safe (Safe _) = True" | "class_is_safe (Unsafe _) = False" | "class_is_safe Unknown = False"

fun class_tool :: "call_class \<Rightarrow> tool option" where
  "class_tool (Safe t) = Some t" | "class_tool (Unsafe t) = Some t" | "class_tool Unknown = None"

lemma class_tool_classify [simp]: "class_tool (classify r) = r"
  by (simp add: classify_def split: option.split)

text \<open>The inner loop: the end of the run of safe calls from \<open>j\<close>.\<close>

function run_end :: "bool list \<Rightarrow> nat \<Rightarrow> nat" where
  "run_end cs j = (if j < length cs \<and> cs ! j then run_end cs (j + 1) else j)"
  by pat_completeness auto
termination by (relation "measure (\<lambda>(cs, j). length cs - j)") auto

declare run_end.simps [simp del]

lemma run_end_ge: "j \<le> run_end cs j"
  by (induct cs j rule: run_end.induct) (subst run_end.simps, force)

lemma run_end_le: "j \<le> length cs \<Longrightarrow> run_end cs j \<le> length cs"
  by (induct cs j rule: run_end.induct) (subst run_end.simps, force)

lemma run_end_all: "j \<le> i \<Longrightarrow> i < run_end cs j \<Longrightarrow> cs ! i"
proof (induct cs j rule: run_end.induct)
  case (1 cs j)
  show ?case
  proof (cases "j < length cs \<and> cs ! j")
    case True
    then have "i < run_end cs (j + 1)" using 1(3) by (simp add: run_end.simps [of cs j])
    then show ?thesis using 1(1,2) True by (cases "i = j") auto
  next
    case False
    then show ?thesis using 1(2,3) by (simp add: run_end.simps [of cs j] split: if_splits)
  qed
qed

lemma run_end_stop: "run_end cs j < length cs \<Longrightarrow> \<not> cs ! run_end cs j"
proof (induct cs j rule: run_end.induct)
  case (1 cs j)
  then show ?case by (subst run_end.simps) (auto simp: run_end.simps [of cs j] split: if_splits)
qed

definition batch_end :: "bool list \<Rightarrow> nat \<Rightarrow> nat" where
  "batch_end cs i = (if cs ! i then run_end cs (i + 1) else i + 1)"

lemma batch_end_gt: "i < batch_end cs i"
  using run_end_ge [of "i + 1" cs] by (simp add: batch_end_def)

lemma batch_end_le: "i < length cs \<Longrightarrow> batch_end cs i \<le> length cs"
  using run_end_le [of "i + 1" cs] by (simp add: batch_end_def)

text \<open>A range is the pair of its bounds, the second exclusive.\<close>

function plan_loop :: "bool list \<Rightarrow> nat \<Rightarrow> (nat \<times> nat) list" where
  "plan_loop cs i = (if i < length cs then (i, batch_end cs i) # plan_loop cs (batch_end cs i) else [])"
  by pat_completeness auto
termination
  by (relation "measure (\<lambda>(cs, i). length cs - i)") (auto intro: diff_less_mono2 batch_end_gt)

declare plan_loop.simps [simp del]

definition plan_batches :: "bool list \<Rightarrow> (nat \<times> nat) list" where
  "plan_batches cs = plan_loop cs 0"

definition batch_indices :: "nat \<times> nat \<Rightarrow> nat list" where
  "batch_indices b = [fst b..<snd b]"

lemma plan_loop_covers: "i \<le> length cs \<Longrightarrow> concat (map batch_indices (plan_loop cs i)) = [i..<length cs]"
proof (induct cs i rule: plan_loop.induct)
  case (1 cs i)
  show ?case
  proof (cases "i < length cs")
    case True
    have e: "i \<le> batch_end cs i" "batch_end cs i \<le> length cs"
      using batch_end_gt [of i cs] batch_end_le [OF True] by simp_all
    have "concat (map batch_indices (plan_loop cs i)) = [i..<batch_end cs i] @ [batch_end cs i..<length cs]"
      using 1(1) [OF True e(2)] True by (simp add: plan_loop.simps [of cs i] batch_indices_def [of "(i, batch_end cs i)"])
    also have "\<dots> = [i..<length cs]" using e upt_add_eq_append [of i "batch_end cs i" "length cs - batch_end cs i"] by simp
    finally show ?thesis .
  next
    case False
    then show ?thesis using 1(2) by (simp add: plan_loop.simps)
  qed
qed

lemma plan_batches_covers: "concat (map batch_indices (plan_batches cs)) = [0..<length cs]"
  using plan_loop_covers [of 0 cs] by (simp add: plan_batches_def)

text \<open>A batch is a single call or all safe, and a batch of safe calls ends at a call that is not.\<close>

lemma plan_loop_batch:
  assumes "(a, b) \<in> set (plan_loop cs i)"
  shows "i \<le> a \<and> a < b \<and> b \<le> length cs \<and> (b = a + 1 \<or> (\<forall>k. a \<le> k \<and> k < b \<longrightarrow> cs ! k))
    \<and> (cs ! a \<and> b < length cs \<longrightarrow> \<not> cs ! b)"
  using assms
proof (induct cs i rule: plan_loop.induct)
  case (1 cs i)
  then have i: "i < length cs" by (simp add: plan_loop.simps [of cs i] split: if_splits)
  show ?case
  proof (cases "(a, b) = (i, batch_end cs i)")
    case True
    have "\<forall>k. i \<le> k \<and> k < batch_end cs i \<longrightarrow> cs ! k" if "cs ! i"
    proof (intro allI impI)
      fix k assume k: "i \<le> k \<and> k < batch_end cs i"
      show "cs ! k" using that k run_end_all [of "i + 1" k cs] by (cases "k = i") (simp_all add: batch_end_def)
    qed
    moreover have "batch_end cs i = i + 1" if "\<not> cs ! i" using that by (simp add: batch_end_def)
    moreover have "\<not> cs ! batch_end cs i" if "cs ! i" "batch_end cs i < length cs"
      using that run_end_stop [of cs "i + 1"] by (simp add: batch_end_def)
    ultimately show ?thesis using True batch_end_gt [of i cs] batch_end_le [OF i] by blast
  next
    case False
    then have "(a, b) \<in> set (plan_loop cs (batch_end cs i))" using 1(2) i by (auto simp: plan_loop.simps [of cs i])
    then show ?thesis using 1(1) [OF i] batch_end_gt [of i cs] by simp
  qed
qed

lemmas plan_batches_batch = plan_loop_batch [where i = 0, folded plan_batches_def]

text \<open>A reference definition on the list itself: split off the leading run, or one call.\<close>

function group_safe :: "bool list \<Rightarrow> bool list list" where
  "group_safe [] = []"
| "group_safe (c # cs) =
     (if c then (c # takeWhile (\<lambda>x. x) cs) # group_safe (dropWhile (\<lambda>x. x) cs) else [c] # group_safe cs)"
  by pat_completeness auto
termination by (relation "measure length") (auto intro: le_imp_less_Suc length_dropWhile_le)

lemma run_end_eq: "j \<le> length cs \<Longrightarrow> run_end cs j = j + length (takeWhile (\<lambda>x. x) (drop j cs))"
proof (induct cs j rule: run_end.induct)
  case (1 cs j)
  then show ?case
    by (cases "j < length cs")
      (auto simp: run_end.simps [of cs j] run_end.simps [of cs "length cs"] Cons_nth_drop_Suc [symmetric])
qed

lemma plan_loop_groups:
  "i \<le> length cs \<Longrightarrow> map (\<lambda>b. map ((!) cs) (batch_indices b)) (plan_loop cs i) = group_safe (drop i cs)"
proof (induct cs i rule: plan_loop.induct)
  case (1 cs i)
  show ?case
  proof (cases "i < length cs")
    case True
    define e where "e = batch_end cs i"
    have e: "i < e" "e \<le> length cs" using batch_end_gt batch_end_le True by (auto simp: e_def)
    have h: "drop i cs = cs ! i # drop (i + 1) cs" using True by (simp add: Cons_nth_drop_Suc)
    have g: "map ((!) cs) [i..<e] = take (e - i) (drop i cs)"
      using e by (intro nth_equalityI) auto
    have "group_safe (drop i cs) = take (e - i) (drop i cs) # group_safe (drop e cs)"
    proof (cases "cs ! i")
      case True
      let ?n = "length (takeWhile (\<lambda>x. x) (drop (i + 1) cs))"
      have n: "e = i + 1 + ?n" using True \<open>i < length cs\<close> by (simp add: e_def batch_end_def run_end_eq)
      have "takeWhile (\<lambda>x. x) (drop (i + 1) cs) = take ?n (drop (i + 1) cs)"
        by (rule takeWhile_eq_take)
      moreover have "dropWhile (\<lambda>x. x) (drop (i + 1) cs) = drop e cs"
        by (subst dropWhile_eq_drop) (simp add: n add.commute)
      ultimately show ?thesis using True h n by simp
    next
      case False
      then show ?thesis using h by (simp add: e_def batch_end_def)
    qed
    then show ?thesis using 1(1) [OF True] e g True
      by (simp add: plan_loop.simps [of cs i] batch_indices_def e_def)
  next
    case False
    then show ?thesis by (simp add: plan_loop.simps)
  qed
qed

lemma plan_batches_groups: "map (\<lambda>b. map ((!) cs) (batch_indices b)) (plan_batches cs) = group_safe cs"
  using plan_loop_groups [of 0 cs] by (simp add: plan_batches_def)

end
