(* ===== verification/Todos.thy ===== *)
theory Todos
  imports Toolbox "HOL-Library.AList"
begin

text \<open>
  The agent's durable task list (\<open>tools/system/todos/\<close>): the types with their gates, the list as it
  is folded into the system prompt, the store of one row per participation, the counter that caps
  the writes of a reply, and the \<open>todo_write\<close> tool.
\<close>

definition MAX_TODOS_PER_LIST :: nat where "MAX_TODOS_PER_LIST = 50"
definition MAX_TODO_CONTENT_BYTES :: nat where "MAX_TODO_CONTENT_BYTES = 512"
definition MAX_TODO_ID_BYTES :: nat where "MAX_TODO_ID_BYTES = 32"
definition MAX_TODO_WRITES_PER_TURN :: nat where "MAX_TODO_WRITES_PER_TURN = 20"

section \<open>Types\<close>

definition todo_id_try_from :: "string \<Rightarrow> (string, parse_error) result" where
  "todo_id_try_from raw =
     (if raw = [] then Inl (Empty ''todo.id'')
      else if length raw > MAX_TODO_ID_BYTES then Inl (TooLong ''todo.id'' MAX_TODO_ID_BYTES (length raw))
      else if \<not> list_all (\<lambda>c. is_ascii_alphanumeric c \<or> c = CHR ''-'' \<or> c = CHR ''_'') raw
        then Inl (Malformed ''todo.id'' ''only [a-zA-Z0-9_-] permitted'')
      else Inr raw)"

definition todo_content_try_from :: "string \<Rightarrow> (string, parse_error) result" where
  "todo_content_try_from raw =
     (if raw = [] then Inl (Empty ''todo.content'')
      else if length raw > MAX_TODO_CONTENT_BYTES
        then Inl (TooLong ''todo.content'' MAX_TODO_CONTENT_BYTES (length raw))
      else Inr raw)"

datatype todo_status = TPending | TInProgress | TCompleted

fun todo_status_as_str :: "todo_status \<Rightarrow> string" where
  "todo_status_as_str TPending = ''pending''"
| "todo_status_as_str TInProgress = ''in_progress''"
| "todo_status_as_str TCompleted = ''completed''"

record todo_item =
  ti_id :: string
  ti_content :: string
  ti_status :: todo_status

text \<open>The loop over the items: a repeated id fails at once, the count is tested after it.\<close>

fun todo_scan :: "string list \<Rightarrow> nat \<Rightarrow> todo_item list \<Rightarrow> (nat, parse_error) result" where
  "todo_scan seen k [] = Inr k"
| "todo_scan seen k (i # is) =
     (if ti_id i \<in> set seen then Inl (Malformed ''todo.items'' ''duplicate id'')
      else todo_scan (ti_id i # seen) (if ti_status i = TInProgress then k + 1 else k) is)"

definition todo_list_try_from :: "todo_item list \<Rightarrow> (todo_item list, parse_error) result" where
  "todo_list_try_from items =
     (if length items > MAX_TODOS_PER_LIST
        then Inl (TooLong ''todo.items'' MAX_TODOS_PER_LIST (length items))
      else (case todo_scan [] 0 items of
          Inl e \<Rightarrow> Inl e
        | Inr k \<Rightarrow> if k > 1 then Inl (Malformed ''todo.items'' ''at most one item may be in_progress'')
                   else Inr items))"

definition in_progress :: "todo_item list \<Rightarrow> nat" where
  "in_progress items = length (filter (\<lambda>i. ti_status i = TInProgress) items)"

definition todo_list_ok :: "todo_item list \<Rightarrow> bool" where
  "todo_list_ok items \<longleftrightarrow> length items \<le> MAX_TODOS_PER_LIST \<and> distinct (map ti_id items) \<and> in_progress items \<le> 1"

lemma todo_scan_iff:
  "todo_scan seen k items = Inr n \<longleftrightarrow>
     distinct (map ti_id items) \<and> set seen \<inter> ti_id ` set items = {} \<and> n = k + in_progress items"
  by (induct seen k items rule: todo_scan.induct) (auto simp: in_progress_def)

lemma todo_list_try_from_Inr: "todo_list_try_from items = Inr l \<longleftrightarrow> l = items \<and> todo_list_ok items"
proof (cases "todo_scan [] 0 items")
  case (Inl e)
  then have "\<not> distinct (map ti_id items)" using todo_scan_iff [of "[]" 0 items "in_progress items"] by auto
  then show ?thesis using Inl by (auto simp: todo_list_try_from_def todo_list_ok_def)
next
  case (Inr k)
  then show ?thesis using todo_scan_iff [of "[]" 0 items k]
    by (auto simp: todo_list_try_from_def todo_list_ok_def)
qed

section \<open>Rendering\<close>

text \<open>The escaped characters are ASCII, which in UTF-8 are the bytes below 128 themselves.\<close>

definition escape_byte :: "char \<Rightarrow> string" where
  "escape_byte c =
     (if c = CHR ''&'' then ''&amp;'' else if c = CHR ''<'' then ''&lt;'' else if c = CHR ''>'' then ''&gt;''
      else if c = CHR 0x0A \<or> c = CHR 0x0D then '' '' else [c])"

definition escape_envelope_text :: "string \<Rightarrow> string" where
  "escape_envelope_text raw = concat (map escape_byte raw)"

definition todo_line :: "todo_item \<Rightarrow> string" where
  "todo_line i = ''- ['' @ todo_status_as_str (ti_status i) @ ''] ('' @ ti_id i @ '') ''
     @ escape_envelope_text (ti_content i)"

definition render_section :: "todo_item list \<Rightarrow> string" where
  "render_section items =
     (if items = [] then []
      else ''<todos>'' @ newline @ concat (map (\<lambda>i. todo_line i @ newline) items) @ ''</todos>'')"

text \<open>No line of the block can open or close the envelope or start another line.\<close>

definition envelope_safe :: "string \<Rightarrow> bool" where
  "envelope_safe s \<longleftrightarrow> list_all (\<lambda>c. c \<notin> {CHR ''<'', CHR ''>'', CHR 0x0A, CHR 0x0D}) s"

lemma envelope_safe_simps [simp]:
  "envelope_safe []"
  "envelope_safe (c # s) \<longleftrightarrow> c \<notin> {CHR ''<'', CHR ''>'', CHR 0x0A, CHR 0x0D} \<and> envelope_safe s"
  by (simp_all add: envelope_safe_def)

lemma envelope_safe_append [simp]: "envelope_safe (s @ t) \<longleftrightarrow> envelope_safe s \<and> envelope_safe t"
  by (simp add: envelope_safe_def)

lemma envelope_safe_escape [simp]: "envelope_safe (escape_envelope_text raw)"
  by (induct raw) (auto simp: escape_envelope_text_def escape_byte_def envelope_safe_def)

lemma envelope_safe_status [simp]: "envelope_safe (todo_status_as_str st)"
  by (cases st) (simp_all add: envelope_safe_def)

lemma envelope_safe_id: "todo_id_try_from raw = Inr i \<Longrightarrow> envelope_safe i"
  by (auto simp: todo_id_try_from_def envelope_safe_def is_ascii_alphanumeric_def Let_def list_all_iff split: if_splits)

lemma envelope_safe_line: "todo_id_try_from raw = Inr (ti_id i) \<Longrightarrow> envelope_safe (todo_line i)"
  using envelope_safe_id [of raw "ti_id i"] by (simp add: todo_line_def)

section \<open>The store\<close>

record todo_row =
  tdr_org :: uuid
  tdr_items :: "todo_item list"
  tdr_updated_at :: timestamp
  tdr_request :: uuid

type_synonym todo_db = "uuid \<rightharpoonup> todo_row"

datatype todo_store_error = TodoInvariant parse_error | TodoDb db_error

text \<open>
  The table's trigger pins the row to the org of its participation, the row-level policy to an org
  of the acting user, and the \<open>CHECK\<close> bounds the list; \<open>db\<close> is the thread store with both.
\<close>

definition participation_org :: "thread_db \<Rightarrow> uuid \<Rightarrow> uuid option" where
  "participation_org db state = map_option ats_org (find (\<lambda>p. ats_id p = state) (td_participation db))"

definition todos_replace ::
  "thread_db \<Rightarrow> todo_db \<Rightarrow> timestamp \<Rightarrow> uuid \<Rightarrow> uuid \<Rightarrow> uuid \<Rightarrow> uuid \<Rightarrow> todo_item list
   \<Rightarrow> (todo_item list, todo_store_error) result \<times> todo_db" where
  "todos_replace db todos now user state org request items =
     (if participation_org db state \<noteq> Some org then (Inl (TodoDb RaisedException), todos)
      else if \<not> td_is_member db user org then (Inl (TodoDb RlsViolation), todos)
      else if length items > MAX_TODOS_PER_LIST then (Inl (TodoDb CheckViolation), todos)
      else (Inr items, todos(state \<mapsto> \<lparr>tdr_org = org, tdr_items = items, tdr_updated_at = now, tdr_request = request\<rparr>)))"

definition todos_get :: "todo_db \<Rightarrow> uuid \<Rightarrow> (todo_item list, todo_store_error) result" where
  "todos_get todos state =
     (case todos state of
        None \<Rightarrow> Inr []
      | Some r \<Rightarrow> (case todo_list_try_from (tdr_items r) of Inl e \<Rightarrow> Inl (TodoInvariant e) | Inr l \<Rightarrow> Inr l))"

lemma todos_get_replace:
  assumes "todos_replace db todos now user state org request items = (Inr l, todos')" "todo_list_ok items"
  shows "todos_get todos' state = Inr items" "state' \<noteq> state \<Longrightarrow> todos_get todos' state' = todos_get todos state'"
  using assms todo_list_try_from_Inr [of items items]
  by (auto simp: todos_replace_def todos_get_def split: if_splits)

section \<open>The cap on writes\<close>

text \<open>
  The counter's map as its list of entries. \<open>victim\<close> is the key the iteration of the hash map yields
  first, which the code does not choose.
\<close>

definition COUNTER_MAX_ENTRIES :: nat where "COUNTER_MAX_ENTRIES = 1024"

definition try_increment ::
  "(uuid list \<Rightarrow> uuid) \<Rightarrow> nat \<Rightarrow> (uuid \<times> nat) list \<Rightarrow> uuid \<Rightarrow> (nat, nat) result \<times> (uuid \<times> nat) list" where
  "try_increment victim cap m request =
     (let m1 = (if length m \<ge> COUNTER_MAX_ENTRIES \<and> map_of m request = None
                then filter (\<lambda>(k, n). k \<noteq> victim (map fst m)) m else m);
          n = (case map_of m1 request of None \<Rightarrow> 0 | Some n \<Rightarrow> n)
      in if n \<ge> cap then (Inl cap, AList.update request n m1)
         else (Inr (n + 1), AList.update request (n + 1) m1))"

definition counter_ok :: "nat \<Rightarrow> (uuid \<times> nat) list \<Rightarrow> bool" where
  "counter_ok cap m \<longleftrightarrow> distinct (map fst m) \<and> length m \<le> COUNTER_MAX_ENTRIES \<and> (\<forall>(k, n) \<in> set m. n \<le> cap)"

lemma length_AList_update:
  "length (AList.update k v m) = (if map_of m k = None then length m + 1 else length m)"
  by (induct m) auto

lemma set_AList_update: "set (AList.update k v m) \<subseteq> insert (k, v) (set m)"
  by (induct m) auto

lemma counter_ok_step:
  assumes "counter_ok cap m" "\<And>ks. ks \<noteq> [] \<Longrightarrow> victim ks \<in> set ks"
  shows "counter_ok cap (snd (try_increment victim cap m request))"
proof -
  let ?full = "length m \<ge> COUNTER_MAX_ENTRIES \<and> map_of m request = None"
  let ?m1 = "if ?full then filter (\<lambda>(k, n). k \<noteq> victim (map fst m)) m else m"
  have "length ?m1 < COUNTER_MAX_ENTRIES" if full: ?full
  proof -
    have "m \<noteq> []" using full by (auto simp: COUNTER_MAX_ENTRIES_def)
    then obtain n where "(victim (map fst m), n) \<in> set m" using assms(2) [of "map fst m"] by auto
    then have "length (filter (\<lambda>(k, n). k \<noteq> victim (map fst m)) m) < length m"
      by (auto intro!: length_filter_less)
    then show ?thesis using full assms(1) by (simp add: counter_ok_def)
  qed
  then have len: "map_of ?m1 request = None \<Longrightarrow> length ?m1 < COUNTER_MAX_ENTRIES" "length ?m1 \<le> COUNTER_MAX_ENTRIES"
    using assms(1) by (auto simp: counter_ok_def split: if_splits)
  have "distinct (map fst ?m1)" "\<forall>(k, n) \<in> set ?m1. n \<le> cap"
    using assms(1) by (auto simp: counter_ok_def distinct_map_filter)
  then have upd: "counter_ok cap (AList.update request v ?m1)" if "v \<le> cap" for v
    using that len set_AList_update [of request v ?m1]
    unfolding counter_ok_def length_AList_update by (fastforce simp: distinct_update split: if_splits)
  show ?thesis
  proof (cases "cap \<le> (case map_of ?m1 request of None \<Rightarrow> 0 | Some n \<Rightarrow> n)")
    case True
    have "(case map_of ?m1 request of None \<Rightarrow> 0 | Some n \<Rightarrow> n) \<le> cap"
      using \<open>\<forall>(k, n) \<in> set ?m1. n \<le> cap\<close> by (fastforce dest: map_of_SomeD split: option.split)
    then show ?thesis using upd True by (simp add: try_increment_def Let_def del: if_split_asm)
  next
    case False
    then show ?thesis using upd by (simp add: try_increment_def Let_def)
  qed
qed

section \<open>The tool\<close>

text \<open>
  \<open>parse\<close> is \<open>serde_json\<close>'s reading of the input as a list of raw items, whose strings then pass the
  gates of the types; an error of either is the JSON error. \<open>show\<close> and \<open>show_db\<close> render errors.
\<close>

fun todo_items_of_raw :: "(parse_error \<Rightarrow> string) \<Rightarrow> (string \<times> string \<times> todo_status) list \<Rightarrow> (todo_item list, string) result" where
  "todo_items_of_raw show [] = Inr []"
| "todo_items_of_raw show ((i, c, st) # raws) =
     (case todo_id_try_from i of
        Inl e \<Rightarrow> Inl (show e)
      | Inr i' \<Rightarrow>
          (case todo_content_try_from c of
             Inl e \<Rightarrow> Inl (show e)
           | Inr c' \<Rightarrow>
               map_sum id (Cons \<lparr>ti_id = i', ti_content = c', ti_status = st\<rparr>) (todo_items_of_raw show raws)))"

record todo_output =
  tdo_items :: "todo_item list"
  tdo_count :: nat
  tdo_note :: string

definition check_cap ::
  "(uuid list \<Rightarrow> uuid) \<Rightarrow> (uuid \<times> nat) list \<Rightarrow> uuid \<Rightarrow> (unit, tool_error) result \<times> (uuid \<times> nat) list" where
  "check_cap victim m request =
     (case try_increment victim MAX_TODO_WRITES_PER_TURN m request of
        (Inr _, m') \<Rightarrow> (Inr (), m')
      | (Inl cap, m') \<Rightarrow> (Inl (InvalidInput (''todo_write cap exceeded for this turn (max ''
            @ show_nat cap @ '' writes)'')), m'))"

text \<open>A call that passes is counted, and every other count stays but for the one dropped to make room.\<close>

lemma map_of_dropped: "map_of (filter (\<lambda>(k, n). k \<noteq> v) m) r = (if r = v then None else map_of m r)"
  by (induction m) auto

lemma check_cap_counts:
  assumes "check_cap victim m request = (Inr (), m')"
  shows "\<exists>n < MAX_TODO_WRITES_PER_TURN. n = (case map_of m request of None \<Rightarrow> 0 | Some k \<Rightarrow> k) \<and> map_of m' request = Some (n + 1)"
    "\<forall>r. r \<noteq> request \<longrightarrow> map_of m' r = map_of m r
       \<or> length m \<ge> COUNTER_MAX_ENTRIES \<and> map_of m request = None \<and> r = victim (map fst m) \<and> map_of m' r = None"
  using assms
  by (auto simp: check_cap_def try_increment_def Let_def update_conv' map_of_dropped split: sum.splits prod.splits if_splits option.splits)

definition todo_write ::
  "(json \<Rightarrow> ((string \<times> string \<times> todo_status) list, string) result) \<Rightarrow> (parse_error \<Rightarrow> string) \<Rightarrow> (db_error \<Rightarrow> string)
   \<Rightarrow> (uuid list \<Rightarrow> uuid) \<Rightarrow> thread_db \<Rightarrow> timestamp \<Rightarrow> tool_ctx \<Rightarrow> json \<Rightarrow> (uuid \<times> nat) list \<times> todo_db
   \<Rightarrow> (todo_output, tool_error) result \<times> (uuid \<times> nat) list \<times> todo_db" where
  "todo_write parse show show_db victim db now ctx input st = (case st of (m, todos) \<Rightarrow>
     (case (case parse input of Inl e \<Rightarrow> Inl e | Inr raws \<Rightarrow> todo_items_of_raw show raws) of
        Inl e \<Rightarrow> (Inl (ToolJson e), m, todos)
      | Inr items \<Rightarrow>
          (case tx_state_id ctx of
             None \<Rightarrow> (Inr \<lparr>tdo_items = [], tdo_count = 0,
                 tdo_note = ''Todo list is unavailable on this turn (background cognition).''\<rparr>, m, todos)
           | Some state \<Rightarrow>
               (case check_cap victim m (tx_request_id ctx) of
                  (Inl e, m1) \<Rightarrow> (Inl e, m1, todos)
                | (Inr _, m1) \<Rightarrow>
                    (case todo_list_try_from items of
                       Inl e \<Rightarrow> (Inl (InvalidInput (show e)), m1, todos)
                     | Inr l \<Rightarrow>
                         (case todos_replace db todos now (tx_acting_user_id ctx) state (tx_org_id ctx) (tx_request_id ctx) l of
                            (Inl (TodoInvariant p), todos') \<Rightarrow> (Inl (InvalidInput (show p)), m1, todos')
                          | (Inl (TodoDb d), todos') \<Rightarrow> (Inl (ToolBackend (show_db d)), m1, todos')
                          | (Inr stored, todos') \<Rightarrow> (Inr \<lparr>tdo_items = stored, tdo_count = length l,
                              tdo_note = ''Todo list saved. It will be re-shown to you at the top of every ''
                                @ ''future turn in this session.''\<rparr>, m1, todos')))))))"

lemma todo_items_of_raw_ids:
  "todo_items_of_raw show raws = Inr items \<Longrightarrow> i \<in> set items \<Longrightarrow> todo_id_try_from (ti_id i) = Inr (ti_id i)"
proof (induct raws arbitrary: items)
  case (Cons r raws)
  obtain a c st where r: "r = (a, c, st)" by (cases r)
  obtain i' c' rest where *: "todo_id_try_from a = Inr i'" "todo_content_try_from c = Inr c'"
    "todo_items_of_raw show raws = Inr rest" "items = \<lparr>ti_id = i', ti_content = c', ti_status = st\<rparr> # rest"
    using Cons(2) r by (auto simp: map_sum_def split: sum.splits)
  moreover have "i' = a" using *(1) by (auto simp: todo_id_try_from_def split: if_splits)
  ultimately show ?case using Cons(1,3) by auto
qed simp

end
