(* ===== verification/Turn_Records.thy ===== *)
theory Turn_Records
  imports Todos Approvals
begin

text \<open>
  What a turn leaves beside the feed: the \<open>turn_metrics\<close> row of each model call
  (\<open>agent_core/turn_metrics/\<close>), the \<open>tool_calls\<close> row of each dispatched tool
  (\<open>tools/recorder.rs\<close>, \<open>tools/pg_recorder.rs\<close>), and the private log of a background turn
  (\<open>background/\<close>). A write that cannot reach the database is a parameter.
\<close>

section \<open>Metrics\<close>

definition input_tokens_try_from :: "nat \<Rightarrow> (int, parse_error) result" where
  "input_tokens_try_from raw =
     (if int raw > i32_max then Inl (OutOfRange ''input_tokens'' ''must fit in i32'') else Inr (int raw))"

definition output_tokens_try_from :: "nat \<Rightarrow> (int, parse_error) result" where
  "output_tokens_try_from raw =
     (if int raw > i32_max then Inl (OutOfRange ''output_tokens'' ''must fit in i32'') else Inr (int raw))"

definition saturating_from_millis :: "nat \<Rightarrow> int" where
  "saturating_from_millis ms = (if int ms \<ge> i32_max then i32_max else int ms)"

definition STOP_LABEL_MAX_BYTES :: nat where "STOP_LABEL_MAX_BYTES = 64"

definition stop_label_from_truncated :: "string \<Rightarrow> string" where
  "stop_label_from_truncated raw =
     (if raw = [] then ''unknown''
      else if length raw \<le> STOP_LABEL_MAX_BYTES then raw
      else truncate_to_char_boundary raw STOP_LABEL_MAX_BYTES)"

fun stop_reason_label :: "stop_reason \<Rightarrow> string" where
  "stop_reason_label EndTurn = ''end_turn''"
| "stop_reason_label ToolUse = ''tool_use''"
| "stop_reason_label MaxTokens = ''length''"
| "stop_reason_label (OtherStop detail) = ''other:'' @ detail"

record metrics_row =
  mr_id :: uuid
  mr_request_id :: uuid
  mr_org_id :: uuid
  mr_state_id :: uuid
  mr_agent_id :: uuid
  mr_prompt_version_id :: uuid
  mr_kind :: metric_kind
  mr_model :: model
  mr_provider :: provider_id
  mr_input_tokens :: int
  mr_output_tokens :: int
  mr_cache_creation_tokens :: "int option"
  mr_cache_read_tokens :: "int option"
  mr_duration_ms :: int
  mr_stop_reason :: string
  mr_started_at :: timestamp

text \<open>The insert; its trigger wants the org of the participation the row names.\<close>

definition metrics_record :: "thread_db \<Rightarrow> metrics_row list \<Rightarrow> metrics_row \<Rightarrow> (unit, db_error) result \<times> metrics_row list" where
  "metrics_record db rows r =
     (if participation_org db (mr_state_id r) \<noteq> Some (mr_org_id r) then (Inl RaisedException, rows)
      else if \<exists>q \<in> set rows. mr_id q = mr_id r then (Inl UniqueViolation, rows)
      else (Inr (), rows @ [r]))"

definition latest_full_prompt_input_tokens :: "metrics_row list \<Rightarrow> uuid \<Rightarrow> nat option" where
  "latest_full_prompt_input_tokens rows state =
     map_option (\<lambda>r. nat (mr_input_tokens r))
       (first_min_by (\<lambda>r. - mr_started_at r) (filter (\<lambda>r. mr_state_id r = state \<and> mr_kind r \<noteq> MCompaction) rows))"

lemma saturating_from_millis_range: "0 \<le> saturating_from_millis ms \<and> saturating_from_millis ms \<le> i32_max"
  by (simp add: saturating_from_millis_def i32_max_def)

lemma stop_label_bounded: "stop_label_from_truncated raw \<noteq> [] \<Longrightarrow> length (stop_label_from_truncated raw) \<le> STOP_LABEL_MAX_BYTES"
  using length_truncate [of raw STOP_LABEL_MAX_BYTES] by (simp add: stop_label_from_truncated_def STOP_LABEL_MAX_BYTES_def)

section \<open>Tool calls\<close>

definition MAX_TOOL_CALL_DURATION_MS :: int where "MAX_TOOL_CALL_DURATION_MS = i32_max"
definition MAX_TOOL_CALL_ERROR_MESSAGE_BYTES :: nat where "MAX_TOOL_CALL_ERROR_MESSAGE_BYTES = 2048"

record tool_call_row =
  tcr_id :: uuid
  tcr_org_id :: uuid
  tcr_state_id :: uuid
  tcr_request_id :: uuid
  tcr_agent_id :: uuid
  tcr_mcp_server_id :: "uuid option"
  tcr_tool_name :: string
  tcr_started_at :: timestamp
  tcr_duration_ms :: nat
  tcr_is_error :: bool
  tcr_error_message :: "string option"

definition clip_error_message :: "string \<Rightarrow> string" where
  "clip_error_message s =
     (if length s \<le> MAX_TOOL_CALL_ERROR_MESSAGE_BYTES then s
      else truncate_to_char_boundary s MAX_TOOL_CALL_ERROR_MESSAGE_BYTES)"

text \<open>The cap is the width of the column, so no conversion of the code fails.\<close>

definition saturating_duration_ms :: "nat \<Rightarrow> int" where
  "saturating_duration_ms ms = (if int ms > MAX_TOOL_CALL_DURATION_MS then MAX_TOOL_CALL_DURATION_MS else int ms)"

text \<open>\<open>None\<close> is the failed assertion on a message without an error.\<close>

definition tool_calls_record ::
  "thread_db \<Rightarrow> tool_call_row list \<Rightarrow> tool_call_row \<Rightarrow> ((unit, db_error) result \<times> tool_call_row list) option" where
  "tool_calls_record db rows r =
     (if \<not> (tcr_is_error r \<or> tcr_error_message r = None) then None
      else Some
        (if participation_org db (tcr_state_id r) \<noteq> Some (tcr_org_id r) then (Inl RaisedException, rows)
         else if \<exists>q \<in> set rows. tcr_id q = tcr_id r then (Inl UniqueViolation, rows)
         else (Inr (), rows @ [r\<lparr>tcr_duration_ms := nat (saturating_duration_ms (tcr_duration_ms r))\<rparr>])))"

lemma clip_error_message_bounded: "length (clip_error_message s) \<le> MAX_TOOL_CALL_ERROR_MESSAGE_BYTES"
  using length_truncate [of s MAX_TOOL_CALL_ERROR_MESSAGE_BYTES] by (simp add: clip_error_message_def)

section \<open>The log of a background turn\<close>

record background_message =
  bm_turn :: uuid
  bm_seq :: int
  bm_sender :: "uuid option"
  bm_body :: chat_message
  bm_request :: "uuid option"
  bm_org :: uuid
  bm_created_at :: timestamp

record background_turn =
  bt_id :: uuid
  bt_agent :: uuid
  bt_org :: uuid
  bt_created_at :: timestamp

record background_db =
  bg_turns :: "background_turn list"
  bg_messages :: "background_message list"
  bg_members :: "(uuid \<times> uuid) list"

datatype background_error = BgNotFound uuid | BgBackend string | BgDb db_error

record new_background_message =
  nb_sender :: "uuid option"
  nb_body :: chat_message
  nb_request :: "uuid option"

definition bg_is_member :: "background_db \<Rightarrow> uuid \<Rightarrow> uuid \<Rightarrow> bool" where
  "bg_is_member db user org \<longleftrightarrow> (user, org) \<in> set (bg_members db)"

definition create_turn ::
  "background_db \<Rightarrow> timestamp \<Rightarrow> uuid \<Rightarrow> caller \<Rightarrow> uuid \<Rightarrow> (uuid, background_error) result \<times> background_db" where
  "create_turn db now i ca agent =
     (if \<not> bg_is_member db (ca_user ca) (ca_org ca) then (Inl (BgDb RlsViolation), db)
      else if \<exists>t \<in> set (bg_turns db). bt_id t = i then (Inl (BgDb UniqueViolation), db)
      else (Inr i, db\<lparr>bg_turns := bg_turns db @ [\<lparr>bt_id = i, bt_agent = agent, bt_org = ca_org ca, bt_created_at = now\<rparr>]\<rparr>))"

text \<open>The rows of a turn that the user's transaction sees.\<close>

definition bg_rows :: "background_db \<Rightarrow> uuid \<Rightarrow> uuid \<Rightarrow> background_message list" where
  "bg_rows db user turn = filter (\<lambda>m. bm_turn m = turn \<and> bg_is_member db user (bm_org m)) (bg_messages db)"

definition append_background_message ::
  "background_db \<Rightarrow> timestamp \<Rightarrow> caller \<Rightarrow> uuid \<Rightarrow> new_background_message \<Rightarrow> (int, background_error) result \<times> background_db" where
  "append_background_message db now ca turn m =
     (case find (\<lambda>t. bt_id t = turn \<and> bg_is_member db (ca_user ca) (bt_org t)) (bg_turns db) of
        None \<Rightarrow> (Inl (BgNotFound turn), db)
      | Some t \<Rightarrow>
          (let rows = bg_rows db (ca_user ca) turn;
               seq = (if rows = [] then 0 else Max (set (map bm_seq rows))) + 1 in
           if \<exists>q \<in> set (bg_messages db). bm_turn q = turn \<and> bm_seq q = seq then (Inl (BgDb UniqueViolation), db)
           else (Inr seq, db\<lparr>bg_messages := bg_messages db @
             [\<lparr>bm_turn = turn, bm_seq = seq, bm_sender = nb_sender m, bm_body = nb_body m, bm_request = nb_request m,
               bm_org = bt_org t, bm_created_at = now\<rparr>]\<rparr>)))"

definition background_context :: "background_db \<Rightarrow> caller \<Rightarrow> uuid \<Rightarrow> chat_message list" where
  "background_context db ca turn = map bm_body (sort_key bm_seq (bg_rows db (ca_user ca) turn))"

lemma insort_key_snoc: "f y \<le> f x \<Longrightarrow> insort_key f y (ys @ [x]) = insort_key f y ys @ [x]"
  by (induct ys) auto

lemma sort_key_snoc: "\<forall>y \<in> set xs. f y \<le> f x \<Longrightarrow> sort_key f (xs @ [x]) = sort_key f xs @ [x]"
  by (induct xs) (simp_all add: insort_key_snoc)

text \<open>What is appended is read back last.\<close>

lemma background_context_append:
  assumes "append_background_message db now ca turn m = (Inr n, db')"
  shows "background_context db' ca turn = background_context db ca turn @ [nb_body m]"
proof -
  let ?rows = "bg_rows db (ca_user ca) turn"
  obtain row where row: "db' = db\<lparr>bg_messages := bg_messages db @ [row]\<rparr>" "bm_body row = nb_body m" "bm_turn row = turn"
    "bm_seq row = (if ?rows = [] then 0 else Max (set (map bm_seq ?rows))) + 1" "bg_is_member db (ca_user ca) (bm_org row)"
    using assms by (auto simp: append_background_message_def Let_def find_Some_iff split: option.splits if_splits)
  have rows': "bg_rows db' (ca_user ca) turn = ?rows @ [row]"
    using row(1,3,5) by (simp add: bg_rows_def bg_is_member_def)
  have "\<forall>y \<in> set ?rows. bm_seq y \<le> bm_seq row"
  proof
    fix y assume y: "y \<in> set ?rows"
    then have "bm_seq y \<le> Max (set (map bm_seq ?rows))" by simp
    moreover have "?rows \<noteq> []" using y by force
    ultimately show "bm_seq y \<le> bm_seq row" using row(4) by simp
  qed
  then show ?thesis using row(2) by (simp add: background_context_def rows' sort_key_snoc)
qed

end
