(* ===== verification/Agent_Turn.thy ===== *)
theory Agent_Turn
  imports Turn_Records Billing Worker
begin

text \<open>
  One turn of an agent and the loop around it (\<open>agent_core/turn.rs\<close>, \<open>agent_core/core.rs\<close>): hooks,
  route, spending gate, request, model call, metering, the tool calls in batches and the artifacts
  appended to the feed or to the private log of a background turn. What is not this code is the
  record \<open>turn_env\<close>: the model's answers, the tools' own work, the memory's texts, clocks, minted
  ids, when cancellation is seen, and \<open>te_gap\<close>, what everybody else does to the stores between two
  awaits. \<open>'p\<close> is the type of provider clients.
\<close>

section \<open>Bounds\<close>

definition MAX_OUTPUT_TOKENS_CAP :: nat where "MAX_OUTPUT_TOKENS_CAP = 200000"
definition MAX_TURNS_CAP :: nat where "MAX_TURNS_CAP = 128"
definition MAX_TOOL_CALLS_PER_TURN :: nat where "MAX_TOOL_CALLS_PER_TURN = 16"
definition TOOL_RESULT_MAX_BYTES :: nat where "TOOL_RESULT_MAX_BYTES = 256 * 1024"

definition max_output_tokens_try_from :: "nat \<Rightarrow> (nat, parse_error) result" where
  "max_output_tokens_try_from n =
     (if n = 0 then Inl (OutOfRange ''max_output_tokens'' ''must be > 0'')
      else if n > MAX_OUTPUT_TOKENS_CAP then Inl (OutOfRange ''max_output_tokens'' ''exceeds ceiling'')
      else Inr n)"

definition max_turns_try_from :: "nat \<Rightarrow> (nat, parse_error) result" where
  "max_turns_try_from n =
     (if n = 0 then Inl (OutOfRange ''max_turns'' ''must be > 0'')
      else if n > MAX_TURNS_CAP then Inl (OutOfRange ''max_turns'' ''exceeds ceiling'')
      else Inr n)"

definition turn_index_try_from :: "nat \<Rightarrow> (nat, parse_error) result" where
  "turn_index_try_from n =
     (if n \<ge> MAX_TURNS_CAP then Inl (OutOfRange ''turn_index'' ''exceeds ceiling'') else Inr n)"

definition turn_index_next :: "nat \<Rightarrow> nat option" where
  "turn_index_next n = (if n + 1 \<ge> MAX_TURNS_CAP then None else Some (n + 1))"

lemma turn_index_of_loop:
  "max_turns_try_from n = Inr m \<Longrightarrow> t < m \<Longrightarrow> turn_index_try_from t = Inr t"
  by (auto simp: max_turns_try_from_def turn_index_try_from_def split: if_splits)

definition tool_is_egress :: "string \<Rightarrow> bool" where
  "tool_is_egress name \<longleftrightarrow> name = ''send_message'' \<or> name = ''ask_approval''"

section \<open>Hooks\<close>

datatype hook_decision = Continue | Deny string

type_synonym hook_result = "(hook_decision, string) result"

record hook =
  hk_before_turn :: "nat \<Rightarrow> hook_result"
  hk_after_turn :: "nat \<Rightarrow> chat_response \<Rightarrow> hook_result"
  hk_before_tool :: "nat \<Rightarrow> tool_call \<Rightarrow> hook_result"
  hk_after_tool :: "nat \<Rightarrow> tool_call \<Rightarrow> tool_result \<Rightarrow> hook_result"

text \<open>The first hook that fails or does not let pass decides.\<close>

fun hook_chain :: "hook_result list \<Rightarrow> hook_result" where
  "hook_chain [] = Inr Continue"
| "hook_chain (Inl e # hs) = Inl e"
| "hook_chain (Inr (Deny reason) # hs) = Inr (Deny reason)"
| "hook_chain (Inr Continue # hs) = hook_chain hs"

fun hook_verdict :: "hook_result \<Rightarrow> (unit, agent_error) result" where
  "hook_verdict (Inl e) = Inl (AeHook e)"
| "hook_verdict (Inr (Deny reason)) = Inl (AeHookDenied reason)"
| "hook_verdict (Inr Continue) = Inr ()"

lemma hook_verdict_ok: "hook_verdict (hook_chain rs) = Inr () \<longleftrightarrow> (\<forall>r \<in> set rs. r = Inr Continue)"
  by (induct rs rule: hook_chain.induct) auto

section \<open>The stores and the environment of a turn\<close>

datatype observed = OnAssistant assistant_content | OnToolResult tool_result

record turn_world =
  tw_threads :: thread_db
  tw_billing :: billing_db
  tw_background :: background_db
  tw_todos :: todo_db
  tw_approvals :: approval_db
  tw_metrics :: "metrics_row list"
  tw_calls :: "tool_call_row list"
  tw_observed :: "observed list"

datatype send_result = SendCancelled | SendTimeout | SendError string | SendOk chat_response
datatype exec_outcome = ExecCancelled | ExecTimeout | ExecErr tool_error | ExecOk string
datatype todo_read = TodosUnwired | TodosTimeout | TodosRead

record 'p agent =
  ag_org :: uuid
  ag_registry :: "'p registry"
  ag_model :: model
  ag_max_output_tokens :: nat
  ag_max_turns :: nat
  ag_hooks :: "hook list"
  ag_toolbox :: toolbox
  ag_metrics :: "(uuid \<times> uuid) option"   \<comment> \<open>agent, prompt version\<close>
  ag_call_store :: bool
  ag_gate :: bool
  ag_observer :: bool

text \<open>
  The first argument of a component is the index of the turn, the second the index of a call, of a
  fold or of a program point. A sample is the start and the length in milliseconds of a model call.
\<close>

record 'p turn_env =
  te_gap :: "nat \<Rightarrow> nat \<Rightarrow> turn_world \<Rightarrow> turn_world"
  te_overlay :: "nat \<Rightarrow> 'p overlay"
  te_billing :: "nat \<Rightarrow> billing_env option"
  te_ledger_id :: "nat \<Rightarrow> uuid"
  te_now :: "nat \<Rightarrow> timestamp"
  te_send :: "nat \<Rightarrow> 'p \<Rightarrow> chat_request \<Rightarrow> send_result"
  te_fold :: "nat \<Rightarrow> 'p \<Rightarrow> fold_env"
  te_names :: "uuid \<rightharpoonup> string"
  te_overrides :: "nat \<Rightarrow> uuid \<rightharpoonup> string"
  te_system :: "nat \<Rightarrow> (string, string) result"
  te_participants :: "nat \<Rightarrow> string"
  te_todos :: "nat \<Rightarrow> todo_read"
  te_measure_ok :: "nat \<Rightarrow> bool"
  te_metrics_ok :: "nat \<Rightarrow> nat \<Rightarrow> nat \<Rightarrow> bool"
  te_metric_id :: "nat \<Rightarrow> nat \<Rightarrow> nat \<Rightarrow> uuid"
  te_sample :: "nat \<Rightarrow> nat \<Rightarrow> nat \<Rightarrow> timestamp \<times> nat"
  te_message_id :: "nat \<Rightarrow> nat \<Rightarrow> uuid"
  te_cancelled :: "nat \<Rightarrow> nat \<Rightarrow> bool"
  te_exec :: "nat \<Rightarrow> nat \<Rightarrow> tool \<Rightarrow> json \<Rightarrow> tool_ctx \<Rightarrow> turn_world \<Rightarrow> exec_outcome \<times> turn_world"
  te_rank :: "nat \<Rightarrow> nat \<Rightarrow> nat"
  te_call_sample :: "nat \<Rightarrow> nat \<Rightarrow> timestamp \<times> nat"
  te_call_id :: "nat \<Rightarrow> nat \<Rightarrow> uuid"
  te_call_ok :: "nat \<Rightarrow> nat \<Rightarrow> bool"
  te_gate_ok :: "nat \<Rightarrow> nat \<Rightarrow> bool \<times> bool"
  te_reduce :: "nat \<Rightarrow> nat \<Rightarrow> reduce_env"
  te_uuid_str :: "uuid \<Rightarrow> string"
  te_show_thread :: "thread_error \<Rightarrow> string"
  te_show_background :: "background_error \<Rightarrow> string"
  te_show_todos :: "todo_store_error \<Rightarrow> string"

text \<open>What the worker hands over: the claimed participation or background turn and its trigger.\<close>

record job =
  jb_claim_key :: uuid
  jb_thread :: "uuid option"
  jb_viewer :: participant
  jb_request :: uuid
  jb_root :: uuid
  jb_caller :: caller
  jb_payload :: request_kind_payload

section \<open>Outcomes\<close>

text \<open>A panic, an error of the turn, or a value; a step returns it with the stores it leaves.\<close>

datatype 'a outcome = Panicked | Failed agent_error | Val 'a

definition and_then ::
  "'a outcome \<times> 'w \<Rightarrow> ('a \<Rightarrow> 'w \<Rightarrow> 'b outcome \<times> 'w) \<Rightarrow> 'b outcome \<times> 'w" where
  "and_then r f = (case r of (Panicked, w) \<Rightarrow> (Panicked, w) | (Failed e, w) \<Rightarrow> (Failed e, w) | (Val a, w) \<Rightarrow> f a w)"

definition of_result :: "('a, agent_error) result \<Rightarrow> 'a outcome" where
  "of_result r = (case r of Inl e \<Rightarrow> Failed e | Inr a \<Rightarrow> Val a)"

lemma and_then_simps [simp]:
  "and_then (Panicked, w) f = (Panicked, w)" "and_then (Failed e, w) f = (Failed e, w)"
  "and_then (Val a, w) f = f a w"
  by (simp_all add: and_then_def)

lemma and_then_Val:
  "and_then r f = (Val b, w') \<longleftrightarrow> (\<exists>a w. r = (Val a, w) \<and> f a w = (Val b, w'))"
  by (cases r; cases "fst r") (auto simp: and_then_def)

lemma of_result_Val [simp]: "of_result r = Val a \<longleftrightarrow> r = Inr a"
  by (cases r) (auto simp: of_result_def)

section \<open>Metering\<close>

definition record_turn_metrics ::
  "('p, 'b) turn_env_scheme \<Rightarrow> 'p agent \<Rightarrow> nat \<Rightarrow> nat \<Rightarrow> nat \<Rightarrow> uuid \<Rightarrow> uuid option \<Rightarrow> uuid \<Rightarrow> metric_kind
   \<Rightarrow> chat_response \<Rightarrow> turn_world \<Rightarrow> turn_world" where
  "record_turn_metrics env ag t src k request state org kind resp w =
     (case (ag_metrics ag, state) of
        (Some (agent, version), Some st) \<Rightarrow>
          (case (input_tokens_try_from (input_tokens (resp_usage resp)), output_tokens_try_from (output_tokens (resp_usage resp))) of
             (Inr inp, Inr out) \<Rightarrow>
               (let cache = (\<lambda>n. case n of None \<Rightarrow> None | Some m \<Rightarrow>
                        (case input_tokens_try_from m of Inl _ \<Rightarrow> None | Inr v \<Rightarrow> Some v));
                    row = \<lparr>mr_id = te_metric_id env t src k, mr_request_id = request, mr_org_id = org, mr_state_id = st,
                      mr_agent_id = agent, mr_prompt_version_id = version, mr_kind = kind, mr_model = ag_model ag,
                      mr_provider = ce_provider (ag_model ag), mr_input_tokens = inp, mr_output_tokens = out,
                      mr_cache_creation_tokens = cache (cache_creation_input_tokens (resp_usage resp)),
                      mr_cache_read_tokens = cache (cache_read_input_tokens (resp_usage resp)),
                      mr_duration_ms = saturating_from_millis (snd (te_sample env t src k)),
                      mr_stop_reason = stop_label_from_truncated (stop_reason_label (resp_stop_reason resp)),
                      mr_started_at = fst (te_sample env t src k)\<rparr>
                in if te_metrics_ok env t src k
                   then w\<lparr>tw_metrics := snd (metrics_record (tw_threads w) (tw_metrics w) row)\<rparr> else w)
           | _ \<Rightarrow> w)
      | _ \<Rightarrow> w)"

text \<open>The source of a turn's own call is 0, that of its context folds 1, that of call \<open>i\<close> \<open>2 + i\<close>.\<close>

definition meter_fold_samples ::
  "('p, 'b) turn_env_scheme \<Rightarrow> 'p agent \<Rightarrow> nat \<Rightarrow> nat \<Rightarrow> uuid \<Rightarrow> uuid option \<Rightarrow> uuid \<Rightarrow> chat_response list
   \<Rightarrow> turn_world \<Rightarrow> turn_world" where
  "meter_fold_samples env ag t src request state org samples w =
     fold (\<lambda>(k, resp). record_turn_metrics env ag t src k request state org MCompaction resp)
       (enumerate 0 samples) w"

definition last_full_prompt_tokens :: "('p, 'b) turn_env_scheme \<Rightarrow> 'p agent \<Rightarrow> nat \<Rightarrow> uuid \<Rightarrow> turn_world \<Rightarrow> nat option" where
  "last_full_prompt_tokens env ag t state w =
     (if ag_metrics ag = None \<or> \<not> te_measure_ok env t then None
      else latest_full_prompt_input_tokens (tw_metrics w) state)"

section \<open>The request\<close>

text \<open>The todo list of the participation, rendered; a read is only made where a store is wired.\<close>

definition todos_block :: "('p, 'b) turn_env_scheme \<Rightarrow> nat \<Rightarrow> uuid \<Rightarrow> turn_world \<Rightarrow> (string, agent_error) result" where
  "todos_block env t state w =
     (case te_todos env t of
        TodosUnwired \<Rightarrow> Inr []
      | TodosTimeout \<Rightarrow> Inl AeTodosLoadTimeout
      | TodosRead \<Rightarrow>
          (case todos_get (tw_todos w) state of
             Inl e \<Rightarrow> Inl (AeTodos (te_show_todos env e)) | Inr l \<Rightarrow> Inr (render_section l)))"

definition compose_system :: "string \<Rightarrow> string \<Rightarrow> string \<Rightarrow> string option \<Rightarrow> string" where
  "compose_system memory participants todos summary =
     (if participants = [] \<and> todos = [] \<and> summary = None then memory
      else memory @ (if participants \<noteq> [] then newline @ participants else [])
        @ (if todos \<noteq> [] then newline @ todos else [])
        @ (case summary of None \<Rightarrow> []
           | Some s \<Rightarrow> newline @ newline @ ''## Earlier conversation (compacted)'' @ newline @ s))"

definition request_of :: "'p agent \<Rightarrow> request_kind_payload \<Rightarrow> string \<Rightarrow> chat_message list \<Rightarrow> chat_request" where
  "request_of ag payload system messages =
     \<lparr>rq_model = ag_model ag, rq_system = system, rq_messages = messages,
      rq_tools = toolbox_specs_for (ag_toolbox ag) (payload_kind payload),
      rq_max_output_tokens = ag_max_output_tokens ag\<rparr>"

text \<open>
  The context, the memory's prompt and the participants are read concurrently; the error of the
  context is reported first. A failed assertion is \<open>Panicked\<close>.
\<close>

definition build_thread_request ::
  "('p, 'b) turn_env_scheme \<Rightarrow> 'p agent \<Rightarrow> job \<Rightarrow> nat \<Rightarrow> uuid \<Rightarrow> 'p \<Rightarrow> turn_world \<Rightarrow> chat_request outcome \<times> turn_world" where
  "build_thread_request env ag jb t thread client w =
     (case (participant_agent (jb_viewer jb), participant_colleague (jb_viewer jb)) of
        (None, _) \<Rightarrow> (Failed (AeInternal ''build_thread_request requires an agent viewer''), w)
      | (Some _, None) \<Rightarrow> (Failed (AeInternal ''build_thread_request agent viewer has no colleague''), w)
      | (Some agent, Some colleague) \<Rightarrow>
          (case resolve_agent_context (te_fold env t client) (te_names env) (tw_threads w) (te_now env t)
              (last_full_prompt_tokens env ag t (jb_claim_key jb) w) thread agent colleague (te_overrides env t) of
             (res, db, samples) \<Rightarrow>
               (let w1 = meter_fold_samples env ag t 1 (jb_request jb) (Some (jb_claim_key jb)) (ca_org (jb_caller jb))
                      samples (w\<lparr>tw_threads := db\<rparr>)
                in (case (res, te_system env t) of
                   (Inl e, _) \<Rightarrow> (Failed (AeThread (te_show_thread env e)), w1)
                 | (Inr _, Inl e) \<Rightarrow> (Failed (AeMemory e), w1)
                 | (Inr ctx, Inr memory) \<Rightarrow>
                     if ac_messages ctx = [] \<or> length (ac_messages ctx) > MAX_CONTEXT_MESSAGES then (Panicked, w1)
                     else (case todos_block env t (jb_claim_key jb) w1 of
                         Inl e \<Rightarrow> (Failed e, w1)
                       | Inr todos \<Rightarrow>
                           (Val (request_of ag (jb_payload jb)
                              (compose_system memory (te_participants env t) todos (ac_summary ctx)) (ac_messages ctx)), w1))))))"

definition build_background_request ::
  "('p, 'b) turn_env_scheme \<Rightarrow> 'p agent \<Rightarrow> job \<Rightarrow> nat \<Rightarrow> turn_world \<Rightarrow> chat_request outcome \<times> turn_world" where
  "build_background_request env ag jb t w =
     (let messages = background_context (tw_background w) (jb_caller jb) (jb_claim_key jb) in
      if messages = [] then (Panicked, w)
      else (case te_system env t of
          Inl e \<Rightarrow> (Failed (AeMemory e), w)
        | Inr memory \<Rightarrow> (Val (request_of ag (jb_payload jb) memory messages), w)))"

definition call_provider :: "send_result \<Rightarrow> (chat_response, agent_error) result" where
  "call_provider r =
     (case r of
        SendCancelled \<Rightarrow> Inl AeCancelled
      | SendTimeout \<Rightarrow> Inl AeProviderTimeout
      | SendError e \<Rightarrow> Inl (AeProvider e)
      | SendOk resp \<Rightarrow> Inr resp)"

definition gate_error :: "turn_gate_error \<Rightarrow> agent_error" where
  "gate_error e = (case e of TurnBillingExceeded org \<Rightarrow> AeBillingExceeded org | TurnOutOfCredit org \<Rightarrow> AeOutOfCredit org)"

section \<open>Tool calls\<close>

definition error_result :: "string \<Rightarrow> string \<Rightarrow> tool_result" where
  "error_result call_id message =
     \<lparr>tr_call_id = call_id,
      tr_output = (if length message > TOOL_RESULT_MAX_BYTES
                   then truncate_to_char_boundary message TOOL_RESULT_MAX_BYTES else message),
      tr_is_error = True\<rparr>"

definition approval_blocked ::
  "('p, 'b) turn_env_scheme \<Rightarrow> 'p agent \<Rightarrow> nat \<Rightarrow> nat \<Rightarrow> tool_ctx \<Rightarrow> string \<Rightarrow> turn_world \<Rightarrow> string option" where
  "approval_blocked env ag t i ctx tool w =
     (case (ag_gate ag, participant_agent (tx_viewer ctx)) of
        (True, Some agent) \<Rightarrow>
          (case gate_check (fst (te_gate_ok env t i)) (snd (te_gate_ok env t i)) (tw_approvals w)
              (tx_org_id ctx) agent (tx_root_request_id ctx) tool of
             Allowed \<Rightarrow> None | Blocked reason \<Rightarrow> Some reason)
      | _ \<Rightarrow> None)"

text \<open>The byte length is tested first; it bounds the number of characters.\<close>

definition run_one_tool ::
  "('p, 'b) turn_env_scheme \<Rightarrow> 'p agent \<Rightarrow> nat \<Rightarrow> nat \<Rightarrow> tool_call \<Rightarrow> tool option \<Rightarrow> tool_ctx \<Rightarrow> turn_world
   \<Rightarrow> tool_result \<times> turn_world" where
  "run_one_tool env ag t i call tool ctx w =
     (case tool of
        None \<Rightarrow> (error_result (tc_id call) (''unknown tool for kind=''
            @ request_kind_as_str (payload_kind (tx_kind_payload ctx)) @ '': '' @ tc_name call), w)
      | Some tool' \<Rightarrow>
          (case approval_blocked env ag t i ctx (tc_name call) w of
             Some reason \<Rightarrow> (error_result (tc_id call) reason, w)
           | None \<Rightarrow>
               (case te_exec env t i tool' (tc_input call) ctx w of
                  (ExecCancelled, w1) \<Rightarrow> (error_result (tc_id call) ''cancelled'', w1)
                | (ExecTimeout, w1) \<Rightarrow> (error_result (tc_id call) (''tool `'' @ tc_name call @ ''` timed out''), w1)
                | (ExecErr e, w1) \<Rightarrow> (error_result (tc_id call) (tool_error_display e), w1)
                | (ExecOk out, w1) \<Rightarrow>
                    if length out > TOOL_RESULT_REDUCE_THRESHOLD \<and> chars_count out > TOOL_RESULT_REDUCE_THRESHOLD
                    then (case reduce_and_offload (te_reduce env t i) (tw_threads w1) (tx_org_id ctx) call
                            (to_policy tool' (tc_input call)) out of
                        (res, db, samples) \<Rightarrow>
                          (res, meter_fold_samples env ag t (2 + i) (tx_request_id ctx) (tx_state_id ctx) (tx_org_id ctx)
                             samples (w1\<lparr>tw_threads := db\<rparr>)))
                    else (\<lparr>tr_call_id = tc_id call, tr_output = out, tr_is_error = False\<rparr>, w1))))"

definition run_call_with_hooks ::
  "('p, 'b) turn_env_scheme \<Rightarrow> 'p agent \<Rightarrow> nat \<Rightarrow> nat \<Rightarrow> tool_call \<Rightarrow> tool option \<Rightarrow> tool_ctx \<Rightarrow> turn_world
   \<Rightarrow> (tool_result, agent_error) result \<times> turn_world" where
  "run_call_with_hooks env ag t i call tool ctx w =
     (case hook_verdict (hook_chain (map (\<lambda>h. hk_before_tool h t call) (ag_hooks ag))) of
        Inl e \<Rightarrow> (Inl e, w)
      | Inr _ \<Rightarrow>
          (case run_one_tool env ag t i call tool ctx w of
             (res, w1) \<Rightarrow>
               (case hook_verdict (hook_chain (map (\<lambda>h. hk_after_tool h t call res) (ag_hooks ag))) of
                  Inl e \<Rightarrow> (Inl e, w1) | Inr _ \<Rightarrow> (Inr res, w1))))"

text \<open>Only a row with an error has a message, so the assertion of the recorder holds.\<close>

definition record_tool_call ::
  "('p, 'b) turn_env_scheme \<Rightarrow> 'p agent \<Rightarrow> nat \<Rightarrow> nat \<Rightarrow> tool_ctx \<Rightarrow> tool_call \<Rightarrow> tool_result \<Rightarrow> turn_world \<Rightarrow> turn_world" where
  "record_tool_call env ag t i ctx call res w =
     (case (ag_call_store ag, participant_agent (tx_viewer ctx), tx_state_id ctx) of
        (True, Some agent, Some state) \<Rightarrow>
          (let row = \<lparr>tcr_id = te_call_id env t i, tcr_org_id = tx_org_id ctx, tcr_state_id = state,
                 tcr_request_id = tx_request_id ctx, tcr_agent_id = agent,
                 tcr_mcp_server_id = toolbox_server_id_for (ag_toolbox ag) (tc_name call),
                 tcr_tool_name = tc_name call, tcr_started_at = fst (te_call_sample env t i),
                 tcr_duration_ms = snd (te_call_sample env t i), tcr_is_error = tr_is_error res,
                 tcr_error_message = (if tr_is_error res then Some (clip_error_message (tr_output res)) else None)\<rparr>
           in (case tool_calls_record (tw_threads w) (tw_calls w) row of
                 Some (_, rows) \<Rightarrow> if te_call_ok env t i then w\<lparr>tw_calls := rows\<rparr> else w
               | None \<Rightarrow> w))
      | _ \<Rightarrow> w)"

text \<open>
  A batch runs its calls concurrently: they are executed one after the other in the order of their
  ranks, any order being possible, and their results are merged in call order.
\<close>

fun exec_calls ::
  "('p, 'b) turn_env_scheme \<Rightarrow> 'p agent \<Rightarrow> nat \<Rightarrow> tool_call list \<Rightarrow> call_class list \<Rightarrow> tool_ctx \<Rightarrow> nat list \<Rightarrow> turn_world
   \<Rightarrow> (nat \<times> (tool_result, agent_error) result) list \<times> turn_world" where
  "exec_calls env ag t calls classes ctx [] w = ([], w)"
| "exec_calls env ag t calls classes ctx (i # is) w =
     (case run_call_with_hooks env ag t i (calls ! i) (class_tool (classes ! i)) ctx w of
        (r, w1) \<Rightarrow> (case exec_calls env ag t calls classes ctx is w1 of (rs, w2) \<Rightarrow> ((i, r) # rs, w2)))"

fun merge_results ::
  "('p, 'b) turn_env_scheme \<Rightarrow> 'p agent \<Rightarrow> nat \<Rightarrow> tool_call list \<Rightarrow> tool_ctx
   \<Rightarrow> (nat \<times> (tool_result, agent_error) result) list \<Rightarrow> turn_world \<Rightarrow> tool_result list outcome \<times> turn_world" where
  "merge_results env ag t calls ctx [] w = (Val [], w)"
| "merge_results env ag t calls ctx ((i, Inl e) # rs) w = (Failed e, w)"
| "merge_results env ag t calls ctx ((i, Inr res) # rs) w =
     (let w1 = (if ag_observer ag then w\<lparr>tw_observed := tw_observed w @ [OnToolResult res]\<rparr> else w)
      in and_then (merge_results env ag t calls ctx rs (record_tool_call env ag t i ctx (calls ! i) res w1))
           (\<lambda>out w2. (Val (res # out), w2)))"

definition run_batch ::
  "('p, 'b) turn_env_scheme \<Rightarrow> 'p agent \<Rightarrow> nat \<Rightarrow> tool_call list \<Rightarrow> call_class list \<Rightarrow> tool_ctx \<Rightarrow> nat \<times> nat \<Rightarrow> turn_world
   \<Rightarrow> tool_result list outcome \<times> turn_world" where
  "run_batch env ag t calls classes ctx batch w =
     (case exec_calls env ag t calls classes ctx (sort_key (te_rank env t) (batch_indices batch)) w of
        (rs, w1) \<Rightarrow> merge_results env ag t calls ctx (sort_key fst rs) w1)"

fun run_batches ::
  "('p, 'b) turn_env_scheme \<Rightarrow> 'p agent \<Rightarrow> nat \<Rightarrow> tool_call list \<Rightarrow> call_class list \<Rightarrow> tool_ctx \<Rightarrow> nat \<Rightarrow> (nat \<times> nat) list
   \<Rightarrow> turn_world \<Rightarrow> tool_result list outcome \<times> turn_world" where
  "run_batches env ag t calls classes ctx b [] w = (Val [], w)"
| "run_batches env ag t calls classes ctx b (batch # bs) w =
     (if te_cancelled env t (b + 1) then (Failed AeCancelled, w)
      else and_then (run_batch env ag t calls classes ctx batch w)
        (\<lambda>out w1. and_then (run_batches env ag t calls classes ctx (b + 1) bs w1)
          (\<lambda>out' w2. (Val (out @ out'), w2))))"

definition run_tools ::
  "('p, 'b) turn_env_scheme \<Rightarrow> 'p agent \<Rightarrow> nat \<Rightarrow> tool_call list \<Rightarrow> tool_ctx \<Rightarrow> turn_world
   \<Rightarrow> tool_result list outcome \<times> turn_world" where
  "run_tools env ag t calls ctx w =
     (let classes = map (\<lambda>c. classify (toolbox_get_for (ag_toolbox ag) (payload_kind (tx_kind_payload ctx)) (tc_name c))) calls
      in run_batches env ag t calls classes ctx 0 (plan_batches (map class_is_safe classes)) w)"

section \<open>A turn\<close>

definition count_egress :: "tool_call list \<Rightarrow> nat" where
  "count_egress calls = length (filter (\<lambda>c. tool_is_egress (tc_name c)) calls)"

definition append_private ::
  "('p, 'b) turn_env_scheme \<Rightarrow> job \<Rightarrow> nat \<Rightarrow> nat \<Rightarrow> uuid \<Rightarrow> message_kind \<Rightarrow> uuid option \<Rightarrow> uuid \<Rightarrow> chat_message \<Rightarrow> turn_world
   \<Rightarrow> unit outcome \<times> turn_world" where
  "append_private env jb t k thread kind sender owner body w =
     (case append_message (tw_threads w) (te_now env t) (te_message_id env t k) (jb_caller jb) thread
         \<lparr>nm_kind = kind, nm_sender = sender, nm_owner_agent = Some owner, nm_receiver = None, nm_body = body,
          nm_request = Some (jb_request jb), nm_idempotency_key = None\<rparr> of
        (Inl e, db) \<Rightarrow> (Failed (AeThread (te_show_thread env e)), w\<lparr>tw_threads := db\<rparr>)
      | (Inr _, db) \<Rightarrow> (Val (), w\<lparr>tw_threads := db\<rparr>))"

definition append_background ::
  "('p, 'b) turn_env_scheme \<Rightarrow> job \<Rightarrow> nat \<Rightarrow> uuid option \<Rightarrow> chat_message \<Rightarrow> turn_world \<Rightarrow> unit outcome \<times> turn_world" where
  "append_background env jb t sender body w =
     (case append_background_message (tw_background w) (te_now env t) (jb_caller jb) (jb_claim_key jb)
         \<lparr>nb_sender = sender, nb_body = body, nb_request = Some (jb_request jb)\<rparr> of
        (Inl e, db) \<Rightarrow> (Failed (AeBackground (te_show_background env e)), w\<lparr>tw_background := db\<rparr>)
      | (Inr _, db) \<Rightarrow> (Val (), w\<lparr>tw_background := db\<rparr>))"

text \<open>From the first hook to the answer of the model, over the route resolved once.\<close>

definition open_turn ::
  "('p, 'b) turn_env_scheme \<Rightarrow> 'p agent \<Rightarrow> job \<Rightarrow> nat \<Rightarrow> ('p \<Rightarrow> turn_world \<Rightarrow> chat_request outcome \<times> turn_world)
   \<Rightarrow> turn_world \<Rightarrow> (chat_response \<times> bool) outcome \<times> turn_world" where
  "open_turn env ag jb t build w =
     (case hook_verdict (hook_chain (map (\<lambda>h. hk_before_turn h t) (ag_hooks ag))) of
        Inl e \<Rightarrow> (Failed e, w)
      | Inr _ \<Rightarrow>
          (case route (ag_registry ag) (te_overlay env t) (ag_org ag) (ag_model ag) of
             None \<Rightarrow> (Panicked, w)
           | Some (client, is_byo) \<Rightarrow>
               (case billing_gate (te_billing env t) (tw_billing w) (ca_org (jb_caller jb)) is_byo of
                  None \<Rightarrow> (Panicked, w)
                | Some (Inl e) \<Rightarrow> (Failed (gate_error e), w)
                | Some (Inr _) \<Rightarrow>
                    and_then (build client (te_gap env t 0 w))
                      (\<lambda>request w1. and_then (of_result (call_provider (te_send env t client request)), te_gap env t 1 w1)
                        (\<lambda>resp w2. (Val (resp, is_byo), w2))))))"

text \<open>Metering, the debit, the hooks after the turn and the observer; \<open>state\<close> is where metrics are kept.\<close>

definition close_turn ::
  "('p, 'b) turn_env_scheme \<Rightarrow> 'p agent \<Rightarrow> job \<Rightarrow> nat \<Rightarrow> uuid option \<Rightarrow> chat_response \<Rightarrow> bool \<Rightarrow> turn_world
   \<Rightarrow> unit outcome \<times> turn_world" where
  "close_turn env ag jb t state resp is_byo w =
     (let w1 = record_turn_metrics env ag t 0 0 (jb_request jb) state (ca_org (jb_caller jb))
            (metric_kind_from (payload_kind (jb_payload jb))) resp w in
      (case billing_settle (te_uuid_str env) (te_billing env t) (tw_billing w1) (te_ledger_id env t) (ag_model ag)
           (ca_org (jb_caller jb)) (jb_request jb) t (resp_usage resp) is_byo of
         (False, b) \<Rightarrow> (Panicked, w1)
       | (True, b) \<Rightarrow>
           (let w2 = w1\<lparr>tw_billing := b\<rparr> in
            (case hook_verdict (hook_chain (map (\<lambda>h. hk_after_turn h t resp) (ag_hooks ag))) of
               Inl e \<Rightarrow> (Failed e, w2)
             | Inr _ \<Rightarrow> (Val (), if ag_observer ag
                  then w2\<lparr>tw_observed := tw_observed w2 @ map OnAssistant (resp_content resp)\<rparr> else w2)))))"

text \<open>
  The rest of a turn after the assistant's message is stored: the final answer, or the tool calls
  with their results stored by \<open>store\<close>. The count of egress calls goes up before they run.
\<close>

definition finish_turn ::
  "('p, 'b) turn_env_scheme \<Rightarrow> 'p agent \<Rightarrow> nat \<Rightarrow> tool_ctx \<Rightarrow> (chat_message \<Rightarrow> turn_world \<Rightarrow> unit outcome \<times> turn_world)
   \<Rightarrow> chat_response \<Rightarrow> nat \<Rightarrow> turn_world \<Rightarrow> (string option \<times> nat) outcome \<times> turn_world" where
  "finish_turn env ag t ctx store resp egress w =
     (let calls = tool_calls resp in
      if calls = []
      then (if response_text resp = [] then (Failed AeEmptyReply, w) else (Val (Some (response_text resp), egress), w))
      else if length calls > MAX_TOOL_CALLS_PER_TURN then (Failed (AeTooManyToolCalls MAX_TOOL_CALLS_PER_TURN), w)
      else and_then (run_tools env ag t calls ctx w)
        (\<lambda>results w1. and_then (store (User (map UToolResult results)) (te_gap env t 2 w1))
          (\<lambda>_ w2. (Val (None, egress + count_egress calls), w2))))"

definition run_thread_turn ::
  "('p, 'b) turn_env_scheme \<Rightarrow> 'p agent \<Rightarrow> job \<Rightarrow> uuid \<Rightarrow> nat \<Rightarrow> nat \<Rightarrow> turn_world \<Rightarrow> (string option \<times> nat) outcome \<times> turn_world" where
  "run_thread_turn env ag jb thread t egress w =
     and_then (open_turn env ag jb t (build_thread_request env ag jb t thread) w)
       (\<lambda>(resp, is_byo) w1. and_then (close_turn env ag jb t (Some (jb_claim_key jb)) resp is_byo w1)
         (\<lambda>_ w2. (case participant_agent (jb_viewer jb) of
             None \<Rightarrow> (Failed (AeInternal ''run_thread_turn requires an agent viewer''), w2)
           | Some agent \<Rightarrow>
               and_then (append_private env jb t 0 thread (if tool_calls resp = [] then Reasoning else KToolUse)
                   (participant_colleague (jb_viewer jb)) agent (Assistant (resp_content resp)) w2)
                 (\<lambda>_ w3. finish_turn env ag t
                   \<lparr>tx_claim_key = jb_claim_key jb, tx_thread_id = Some thread, tx_state_id = Some (jb_claim_key jb),
                    tx_viewer = jb_viewer jb, tx_root_request_id = jb_root jb, tx_request_id = jb_request jb,
                    tx_kind_payload = jb_payload jb, tx_acting_user_id = ca_user (jb_caller jb), tx_org_id = ca_org (jb_caller jb)\<rparr>
                   (append_private env jb t 1 thread KToolResult None agent) resp egress w3))))"

definition run_background_turn ::
  "('p, 'b) turn_env_scheme \<Rightarrow> 'p agent \<Rightarrow> job \<Rightarrow> nat \<Rightarrow> nat \<Rightarrow> turn_world \<Rightarrow> (string option \<times> nat) outcome \<times> turn_world" where
  "run_background_turn env ag jb t egress w =
     and_then (open_turn env ag jb t (\<lambda>_. build_background_request env ag jb t) w)
       (\<lambda>(resp, is_byo) w1. and_then (close_turn env ag jb t None resp is_byo w1)
         (\<lambda>_ w2. (case participant_agent (jb_viewer jb) of
             None \<Rightarrow> (Failed (AeInternal ''run_background_turn requires an agent viewer''), w2)
           | Some agent \<Rightarrow>
               and_then (append_background env jb t (participant_colleague (jb_viewer jb)) (Assistant (resp_content resp)) w2)
                 (\<lambda>_ w3. finish_turn env ag t
                   \<lparr>tx_claim_key = jb_claim_key jb, tx_thread_id = None, tx_state_id = None,
                    tx_viewer = jb_viewer jb, tx_root_request_id = jb_request jb, tx_request_id = jb_request jb,
                    tx_kind_payload = jb_payload jb, tx_acting_user_id = ca_user (jb_caller jb), tx_org_id = ca_org (jb_caller jb)\<rparr>
                   (append_background env jb t None) resp egress w3))))"

section \<open>The loop\<close>

text \<open>\<open>n\<close> turns are left; \<open>turn\<close> is the body of one.\<close>

fun turn_loop ::
  "('p, 'b) turn_env_scheme \<Rightarrow> 'p agent \<Rightarrow> (nat \<Rightarrow> nat \<Rightarrow> turn_world \<Rightarrow> (string option \<times> nat) outcome \<times> turn_world)
   \<Rightarrow> nat \<Rightarrow> nat \<Rightarrow> nat \<Rightarrow> turn_world \<Rightarrow> agent_reply outcome \<times> turn_world" where
  "turn_loop env ag turn t 0 egress w = (Failed (AeMaxTurnsExceeded (ag_max_turns ag)), w)"
| "turn_loop env ag turn t (Suc n) egress w =
     (if te_cancelled env t 0 then (Failed AeCancelled, w)
      else (case turn_index_try_from t of
          Inl _ \<Rightarrow> (Panicked, w)
        | Inr _ \<Rightarrow> and_then (turn t egress w)
            (\<lambda>(text, egress') w1. (case text of
                Some s \<Rightarrow> (Val \<lparr>rp_final_text = s, rp_send_message_calls = egress'\<rparr>, w1)
              | None \<Rightarrow> turn_loop env ag turn (t + 1) n egress' w1))))"

definition run_thread_loop ::
  "('p, 'b) turn_env_scheme \<Rightarrow> 'p agent \<Rightarrow> job \<Rightarrow> uuid \<Rightarrow> turn_world \<Rightarrow> agent_reply outcome \<times> turn_world" where
  "run_thread_loop env ag jb thread w =
     turn_loop env ag (run_thread_turn env ag jb thread) 0 (ag_max_turns ag) 0 w"

definition run_background_loop ::
  "('p, 'b) turn_env_scheme \<Rightarrow> 'p agent \<Rightarrow> job \<Rightarrow> turn_world \<Rightarrow> agent_reply outcome \<times> turn_world" where
  "run_background_loop env ag jb w =
     turn_loop env ag (run_background_turn env ag jb) 0 (ag_max_turns ag) 0 w"

fun error_label :: "agent_error \<Rightarrow> string" where
  "error_label AeCancelled = ''cancelled''"
| "error_label AeProviderTimeout = ''provider_timeout''"
| "error_label (AeProvider _) = ''provider_error''"
| "error_label (AeToolTimeout _) = ''tool_timeout''"
| "error_label (AeUnknownTool _) = ''tool_unknown''"
| "error_label (AeTooManyToolCalls _) = ''tool_calls_exceeded''"
| "error_label (AeMaxTurnsExceeded _) = ''max_turns''"
| "error_label AeEmptyReply = ''empty_reply''"
| "error_label (AeBillingExceeded _) = ''billing_exceeded''"
| "error_label (AeOutOfCredit _) = ''out_of_credit''"
| "error_label (AeHookDenied _) = ''hook_denied''"
| "error_label (AeHook _) = ''hook_error''"
| "error_label (AeInternal _) = ''internal_error''"
| "error_label (AeThread _) = ''thread_error''"
| "error_label (AeBackground _) = ''background_error''"
| "error_label (AeMemory _) = ''memory_error''"
| "error_label (AeTodos _) = ''todos_error''"
| "error_label AeTodosLoadTimeout = ''todos_load_timeout''"

end
