(* ===== verification/Agent_Laws.thy ===== *)
theory Agent_Laws
  imports Agent_Turn Approval_Properties
begin

text \<open>
  Facts of a turn: what a call is answered with, that a batch answers its calls in order whatever
  order they run in, the rows a turn appends, and the unrolling of the loop.
\<close>

section \<open>One call\<close>

lemma error_result_id [simp]: "tr_call_id (error_result i m) = i"
  by (simp add: error_result_def)

lemma error_result_is_error [simp]: "tr_is_error (error_result i m)"
  by (simp add: error_result_def)

lemma error_result_bounded: "length (tr_output (error_result i m)) \<le> TOOL_RESULT_MAX_BYTES"
  using length_truncate [of m TOOL_RESULT_MAX_BYTES] by (simp add: error_result_def)

lemma reduce_and_offload_id [simp]: "tr_call_id (fst (reduce_and_offload env db org call policy out)) = tc_id call"
  by (simp add: reduce_and_offload_def Let_def split: prod.split bool.split result_policy.split option.split)

lemma run_one_tool_id: "tr_call_id (fst (run_one_tool env ag t i call tool ctx w)) = tc_id call"
  using reduce_and_offload_id
  by (auto simp: run_one_tool_def split: option.split prod.split exec_outcome.split dest!: arg_cong [where f = fst])

lemma run_call_id: "fst (run_call_with_hooks env ag t i call tool ctx w) = Inr res \<Longrightarrow> tr_call_id res = tc_id call"
  using run_one_tool_id [of env ag t i call tool ctx w]
  by (auto simp: run_call_with_hooks_def split: sum.splits prod.splits)

section \<open>A batch\<close>

lemma exec_calls_keys: "map fst (fst (exec_calls env ag t calls classes ctx is w)) = is"
  by (induct env ag t calls classes ctx "is" w rule: exec_calls.induct) (auto split: prod.splits)

lemma exec_calls_ids:
  "(i, Inr res) \<in> set (fst (exec_calls env ag t calls classes ctx is w)) \<Longrightarrow> tr_call_id res = tc_id (calls ! i)"
proof (induct env ag t calls classes ctx "is" w rule: exec_calls.induct)
  case (2 env ag t calls classes ctx j js w)
  then show ?case
    using run_call_id [of env ag t j "calls ! j" "class_tool (classes ! j)" ctx w res]
    by (auto split: prod.splits)
qed simp

lemma merge_results_ids:
  assumes "merge_results env ag t calls ctx rs w = (Val out, w')"
    and "\<And>i res. (i, Inr res) \<in> set rs \<Longrightarrow> tr_call_id res = tc_id (calls ! i)"
  shows "map tr_call_id out = map (\<lambda>i. tc_id (calls ! i)) (map fst rs)"
  using assms
proof (induct env ag t calls ctx rs w arbitrary: out w' rule: merge_results.induct)
  case (3 env ag t calls ctx i res rs w)
  from 3(2) obtain out1 w1 where
    "merge_results env ag t calls ctx rs (record_tool_call env ag t i ctx (calls ! i) res
       (if ag_observer ag then w\<lparr>tw_observed := tw_observed w @ [OnToolResult res]\<rparr> else w)) = (Val out1, w1)"
    "out = res # out1"
    by (auto simp: and_then_Val Let_def)
  with 3(1,3) show ?case by (auto simp: Let_def)
qed simp_all

lemma map_fst_insort: "map fst (insort_key fst r rs) = insort (fst r) (map fst rs)"
  by (induct rs) auto

lemma map_fst_sort: "map fst (sort_key fst rs) = sort (map fst rs)"
  by (induct rs) (simp_all add: map_fst_insort)

lemma sort_by_fst: "sort_key fst (map (\<lambda>i. (i, r i)) is) = map (\<lambda>i. (i, r i)) (sort is)"
proof -
  have "insort_key fst (i, r i) (map (\<lambda>i. (i, r i)) js) = map (\<lambda>i. (i, r i)) (insort i js)" for i js
    by (induct js) auto
  then show ?thesis by (induct "is") simp_all
qed

lemma sort_rank_indices: "sort (sort_key f (batch_indices b)) = batch_indices b"
  by (rule properties_for_sort) (simp_all add: batch_indices_def)

lemma run_batch_ids:
  assumes "run_batch env ag t calls classes ctx b w = (Val out, w')"
  shows "map tr_call_id out = map (\<lambda>i. tc_id (calls ! i)) (batch_indices b)"
proof -
  let ?is = "sort_key (te_rank env t) (batch_indices b)"
  obtain rs w1 where rs: "exec_calls env ag t calls classes ctx ?is w = (rs, w1)"
    "merge_results env ag t calls ctx (sort_key fst rs) w1 = (Val out, w')"
    using assms by (auto simp: run_batch_def split: prod.splits)
  have "map fst (sort_key fst rs) = batch_indices b"
    using exec_calls_keys [of env ag t calls classes ctx ?is w] rs(1)
    by (simp add: map_fst_sort sort_rank_indices)
  then show ?thesis
    using merge_results_ids [OF rs(2)] exec_calls_ids [of _ _ env ag t calls classes ctx ?is w] rs(1) by simp
qed

lemma run_batches_ids:
  "run_batches env ag t calls classes ctx k bs w = (Val out, w') \<Longrightarrow>
     map tr_call_id out = map (\<lambda>i. tc_id (calls ! i)) (concat (map batch_indices bs))"
proof (induct env ag t calls classes ctx k bs w arbitrary: out w' rule: run_batches.induct)
  case (2 env ag t calls classes ctx k b bs w)
  from 2(2) obtain out1 w1 out2 where
    *: "\<not> te_cancelled env t (k + 1)" "run_batch env ag t calls classes ctx b w = (Val out1, w1)"
    "run_batches env ag t calls classes ctx (k + 1) bs w1 = (Val out2, w')" "out = out1 @ out2"
    by (auto simp: and_then_Val split: if_splits)
  then show ?case using run_batch_ids [OF *(2)] 2(1) by auto
qed simp

text \<open>Every call is answered once, in the order of the calls.\<close>

lemma run_tools_ids:
  assumes "run_tools env ag t calls ctx w = (Val out, w')"
  shows "map tr_call_id out = map tc_id calls"
proof -
  have "map tr_call_id out = map (\<lambda>i. tc_id (calls ! i)) [0..<length calls]"
    using run_batches_ids [OF assms [unfolded run_tools_def Let_def]] by (simp add: plan_batches_covers)
  also have "\<dots> = map tc_id (map ((!) calls) [0..<length calls])" by simp
  finally show ?thesis by (simp only: map_nth)
qed

section \<open>Schedules\<close>

text \<open>
  The contract of a tool that declares itself safe for concurrency: it leaves the stores alone and
  its result does not depend on what the other calls of the batch do to them.
\<close>

definition safe_contract :: "('p, 'b) turn_env_scheme \<Rightarrow> bool" where
  "safe_contract env \<longleftrightarrow> (\<forall>t i tool input ctx w w'. to_concurrency_safe tool \<longrightarrow>
     snd (te_exec env t i tool input ctx w) = w
     \<and> fst (te_exec env t i tool input ctx w) = fst (te_exec env t i tool input ctx w'))"

text \<open>What the merge of a batch reads, none of which the calls of a safe batch change.\<close>

definition merge_eq :: "turn_world \<Rightarrow> turn_world \<Rightarrow> bool" where
  "merge_eq w w' \<longleftrightarrow> tw_observed w = tw_observed w' \<and> tw_calls w = tw_calls w' \<and> tw_approvals w = tw_approvals w'
     \<and> td_participation (tw_threads w) = td_participation (tw_threads w')"

lemma merge_eq_refl [simp]: "merge_eq w w" by (simp add: merge_eq_def)
lemma merge_eq_sym: "merge_eq w w' \<Longrightarrow> merge_eq w' w" by (simp add: merge_eq_def)
lemma merge_eq_trans: "merge_eq u v \<Longrightarrow> merge_eq v w \<Longrightarrow> merge_eq u w" by (simp add: merge_eq_def)

lemma record_turn_metrics_only:
  "record_turn_metrics env ag t src k request state org kind resp w
     = w\<lparr>tw_metrics := tw_metrics (record_turn_metrics env ag t src k request state org kind resp w)\<rparr>"
  unfolding record_turn_metrics_def Let_def by (simp split: option.split sum.split)

lemma record_turn_metrics_keeps [simp]:
  "merge_eq (record_turn_metrics env ag t src k request state org kind resp w) w'
     \<longleftrightarrow> merge_eq w w'"
  by (subst record_turn_metrics_only) (simp add: merge_eq_def)

lemma meter_fold_samples_keeps [simp]:
  "merge_eq (meter_fold_samples env ag t src request state org samples w) w' \<longleftrightarrow> merge_eq w w'"
proof -
  have "merge_eq (fold (\<lambda>(k, resp). record_turn_metrics env ag t src k request state org MCompaction resp) xs w) w'
      \<longleftrightarrow> merge_eq w w'" for xs
  proof (induct xs arbitrary: w)
    case (Cons x xs)
    show ?case by (cases x) (simp add: Cons)
  qed simp
  then show ?thesis by (simp add: meter_fold_samples_def)
qed

lemma reduce_db: "fst (reduce_and_offload env db org call policy out) = fst (reduce_and_offload env db' org call policy out)"
  by (simp add: reduce_and_offload_def offload_artifact_def Let_def split: result_policy.split prod.split option.split)

lemma reduce_participation [simp]:
  "td_participation (fst (snd (reduce_and_offload env db org call policy out))) = td_participation db"
  by (simp add: reduce_and_offload_def offload_artifact_def save_tool_artifact_def Let_def
      split: result_policy.split prod.split option.split)

lemma approval_blocked_eq: "merge_eq w w' \<Longrightarrow> approval_blocked env ag t i ctx name w = approval_blocked env ag t i ctx name w'"
  by (simp add: approval_blocked_def merge_eq_def split: bool.split option.split)

lemma run_one_tool_safe:
  assumes "safe_contract env" "merge_eq w w'" "case tool of None \<Rightarrow> True | Some tool' \<Rightarrow> to_concurrency_safe tool'"
  shows "fst (run_one_tool env ag t i call tool ctx w) = fst (run_one_tool env ag t i call tool ctx w')"
    and "merge_eq (snd (run_one_tool env ag t i call tool ctx w)) w"
proof -
  have "fst (run_one_tool env ag t i call tool ctx w) = fst (run_one_tool env ag t i call tool ctx w')
    \<and> merge_eq (snd (run_one_tool env ag t i call tool ctx w)) w"
  proof (cases tool)
    case None
    then show ?thesis by (simp add: run_one_tool_def)
  next
    case (Some tool')
    define oc where "oc = fst (te_exec env t i tool' (tc_input call) ctx w)"
    have e: "te_exec env t i tool' (tc_input call) ctx w = (oc, w)" "te_exec env t i tool' (tc_input call) ctx w' = (oc, w')"
      using assms(1,3) Some unfolding safe_contract_def oc_def by (metis option.simps(5) prod.collapse)+
    show ?thesis
    proof (cases "approval_blocked env ag t i ctx (tc_name call) w")
      case (Some reason)
      moreover from this have "approval_blocked env ag t i ctx (tc_name call) w' = Some reason"
        using approval_blocked_eq [OF assms(2)] by metis
      ultimately show ?thesis using \<open>tool = Some tool'\<close> by (simp add: run_one_tool_def)
    next
      case None
      then have b: "approval_blocked env ag t i ctx (tc_name call) w' = None" using approval_blocked_eq [OF assms(2)] by metis
      show ?thesis
      proof (cases oc)
        case (ExecOk out)
        let ?r = "\<lambda>w. reduce_and_offload (te_reduce env t i) (tw_threads w) (tx_org_id ctx) call (to_policy tool' (tc_input call)) out"
        obtain res db samples where r: "?r w = (res, db, samples)" by (cases "?r w")
        obtain res' db' samples' where r': "?r w' = (res', db', samples')" by (cases "?r w'")
        have "res' = res"
          using reduce_db [of "te_reduce env t i" "tw_threads w'" "tx_org_id ctx" call "to_policy tool' (tc_input call)" out "tw_threads w"]
          unfolding r r' by simp
        moreover have "td_participation db = td_participation (tw_threads w)"
          using reduce_participation [of "te_reduce env t i" "tw_threads w" "tx_org_id ctx" call "to_policy tool' (tc_input call)" out]
          unfolding r by simp
        ultimately show ?thesis using e ExecOk None b \<open>tool = Some tool'\<close> r r'
          by (simp add: run_one_tool_def) (simp add: merge_eq_def)
      qed (use e None b \<open>tool = Some tool'\<close> in \<open>simp_all add: run_one_tool_def\<close>)
    qed
  qed
  then show "fst (run_one_tool env ag t i call tool ctx w) = fst (run_one_tool env ag t i call tool ctx w')"
    "merge_eq (snd (run_one_tool env ag t i call tool ctx w)) w" by blast+
qed

lemma run_call_safe:
  assumes "safe_contract env" "merge_eq w w'" "case tool of None \<Rightarrow> True | Some tool' \<Rightarrow> to_concurrency_safe tool'"
  shows "fst (run_call_with_hooks env ag t i call tool ctx w) = fst (run_call_with_hooks env ag t i call tool ctx w')"
    "merge_eq (snd (run_call_with_hooks env ag t i call tool ctx w)) w"
  using run_one_tool_safe [OF assms, of ag t i call ctx]
  by (auto simp: run_call_with_hooks_def split: sum.split prod.split)

text \<open>Whatever their order, the calls of a safe batch have the results they have alone.\<close>

lemma exec_calls_safe:
  assumes "safe_contract env" "\<forall>i \<in> set is. case class_tool (classes ! i) of None \<Rightarrow> True | Some tool' \<Rightarrow> to_concurrency_safe tool'"
    and "merge_eq w w0"
  shows "fst (exec_calls env ag t calls classes ctx is w)
      = map (\<lambda>i. (i, fst (run_call_with_hooks env ag t i (calls ! i) (class_tool (classes ! i)) ctx w0))) is
    \<and> merge_eq (snd (exec_calls env ag t calls classes ctx is w)) w0"
  using assms(2,3)
proof (induct "is" arbitrary: w)
  case (Cons i "is")
  obtain r w1 where r: "run_call_with_hooks env ag t i (calls ! i) (class_tool (classes ! i)) ctx w = (r, w1)" by fastforce
  obtain rs w2 where rs: "exec_calls env ag t calls classes ctx is w1 = (rs, w2)" by fastforce
  have safe: "case class_tool (classes ! i) of None \<Rightarrow> True | Some tool' \<Rightarrow> to_concurrency_safe tool'"
    using Cons.prems(1) by simp
  have s: "r = fst (run_call_with_hooks env ag t i (calls ! i) (class_tool (classes ! i)) ctx w0)" "merge_eq w1 w"
    using run_call_safe [OF assms(1) Cons.prems(2) safe, of ag t i "calls ! i" ctx] r by simp_all
  then have "merge_eq w1 w0" using Cons.prems(2) merge_eq_trans by blast
  from Cons.hyps [OF _ this] Cons.prems(1) show ?case using r rs s(1) by simp
qed simp

lemma record_tool_call_eq:
  assumes "merge_eq w w'"
  shows "merge_eq (record_tool_call env ag t i ctx call res w) (record_tool_call env ag t i ctx call res w')"
proof -
  have "tool_calls_record (tw_threads w) rows r = tool_calls_record (tw_threads w') rows r" for rows r
    using assms by (simp add: tool_calls_record_def participation_org_def merge_eq_def)
  then show ?thesis using assms
    by (auto simp: record_tool_call_def Let_def merge_eq_def split: bool.split option.split prod.split)
qed

lemma merge_results_eq:
  assumes "merge_eq w w'"
  shows "fst (merge_results env ag t calls ctx rs w) = fst (merge_results env ag t calls ctx rs w')
    \<and> merge_eq (snd (merge_results env ag t calls ctx rs w)) (snd (merge_results env ag t calls ctx rs w'))"
  using assms
proof (induct env ag t calls ctx rs w arbitrary: w' rule: merge_results.induct)
  case (3 env ag t calls ctx i res rs w)
  let ?o = "\<lambda>w. if ag_observer ag then w\<lparr>tw_observed := tw_observed w @ [OnToolResult res]\<rparr> else w"
  have o: "merge_eq (?o w) (?o w')" using 3(2) by (simp add: merge_eq_def)
  let ?m = "\<lambda>w. merge_results env ag t calls ctx rs (record_tool_call env ag t i ctx (calls ! i) res (?o w))"
  obtain x v x' v' where m: "?m w = (x, v)" "?m w' = (x', v')" by fastforce
  have "x' = x" "merge_eq v v'" using 3(1) [OF refl record_tool_call_eq [OF o]] m by simp_all
  then show ?case using m by (cases x) (simp_all add: Let_def)
qed simp_all

text \<open>Only the batch reads the ranks.\<close>

lemma record_turn_metrics_rank [simp]: "record_turn_metrics (env\<lparr>te_rank := r\<rparr>) = record_turn_metrics env"
  by (intro ext) (simp add: record_turn_metrics_def cong: option.case_cong sum.case_cong prod.case_cong bool.case_cong exec_outcome.case_cong)

lemma approval_blocked_rank [simp]: "approval_blocked (env\<lparr>te_rank := r\<rparr>) = approval_blocked env"
  by (intro ext) (simp add: approval_blocked_def cong: option.case_cong sum.case_cong prod.case_cong bool.case_cong exec_outcome.case_cong)

lemma meter_fold_samples_rank [simp]: "meter_fold_samples (env\<lparr>te_rank := r\<rparr>) = meter_fold_samples env"
  unfolding meter_fold_samples_def record_turn_metrics_rank ..

lemma run_one_tool_rank [simp]: "run_one_tool (env\<lparr>te_rank := r\<rparr>) = run_one_tool env"
proof -
  have "te_exec (env\<lparr>te_rank := r\<rparr>) = te_exec env" "te_reduce (env\<lparr>te_rank := r\<rparr>) = te_reduce env" by simp_all
  then show ?thesis unfolding run_one_tool_def approval_blocked_rank meter_fold_samples_rank by (simp only:)
qed

lemma run_call_rank [simp]: "run_call_with_hooks (env\<lparr>te_rank := r\<rparr>) = run_call_with_hooks env"
  unfolding run_call_with_hooks_def run_one_tool_rank ..

lemma exec_calls_rank [simp]:
  "exec_calls (env\<lparr>te_rank := r\<rparr>) ag t calls classes ctx is w = exec_calls env ag t calls classes ctx is w"
  by (induct "is" arbitrary: w) simp_all

lemma record_tool_call_rank [simp]: "record_tool_call (env\<lparr>te_rank := r\<rparr>) = record_tool_call env"
  by (intro ext) (simp add: record_tool_call_def cong: option.case_cong sum.case_cong prod.case_cong bool.case_cong exec_outcome.case_cong)

lemma merge_results_rank [simp]:
  "merge_results (env\<lparr>te_rank := r\<rparr>) ag t calls ctx rs w = merge_results env ag t calls ctx rs w"
  by (induct env ag t calls ctx rs w rule: merge_results.induct) simp_all

section \<open>The gate\<close>

text \<open>A gated call that is not approved is refused without its tool being run.\<close>

lemma blocked_call_is_not_run:
  assumes "approval_blocked env ag t i ctx (tc_name call) w = Some reason"
  shows "run_one_tool env ag t i call tool ctx w
    = (error_result (tc_id call) (case tool of None \<Rightarrow> ''unknown tool for kind=''
         @ request_kind_as_str (payload_kind (tx_kind_payload ctx)) @ '': '' @ tc_name call | Some _ \<Rightarrow> reason), w)"
  using assms by (simp add: run_one_tool_def split: option.split)

lemma approval_blocked_exec [simp]: "approval_blocked (env\<lparr>te_exec := f\<rparr>) = approval_blocked env"
  by (intro ext) (simp add: approval_blocked_def cong: option.case_cong sum.case_cong prod.case_cong bool.case_cong exec_outcome.case_cong)

lemma run_not_blocked:
  assumes "run_one_tool (env\<lparr>te_exec := f\<rparr>) ag t i call tool ctx w \<noteq> run_one_tool (env\<lparr>te_exec := g\<rparr>) ag t i call tool ctx w"
  shows "approval_blocked env ag t i ctx (tc_name call) w = None"
proof (cases "approval_blocked env ag t i ctx (tc_name call) w")
  case (Some reason)
  then have "run_one_tool (env\<lparr>te_exec := h\<rparr>) ag t i call tool ctx w
    = (error_result (tc_id call) (case tool of None \<Rightarrow> ''unknown tool for kind=''
         @ request_kind_as_str (payload_kind (tx_kind_payload ctx)) @ '': '' @ tc_name call | Some _ \<Rightarrow> reason), w)" for h
    by (intro blocked_call_is_not_run) simp
  with assms show ?thesis by simp
qed

section \<open>The feed\<close>

text \<open>The feed is append-only for everybody else: the tools and the interference only add rows.\<close>

definition grows :: "turn_world \<Rightarrow> turn_world \<Rightarrow> bool" where
  "grows w w' \<longleftrightarrow> (\<exists>ys. td_messages (tw_threads w') = td_messages (tw_threads w) @ ys)"

definition append_only :: "('p, 'b) turn_env_scheme \<Rightarrow> bool" where
  "append_only env \<longleftrightarrow> (\<forall>t k w. grows w (te_gap env t k w))
     \<and> (\<forall>t i tool input ctx w. grows w (snd (te_exec env t i tool input ctx w)))"

lemma grows_refl [simp]: "grows w w" by (simp add: grows_def)
lemma grows_trans: "grows u v \<Longrightarrow> grows v w \<Longrightarrow> grows u w" by (auto simp: grows_def)

lemma same_messages_grows:
  "td_messages (tw_threads w') = td_messages (tw_threads w) \<Longrightarrow> grows w w'"
  by (simp add: grows_def)

lemma record_turn_metrics_threads [simp]:
  "tw_threads (record_turn_metrics env ag t src k request state org kind resp w) = tw_threads w"
  by (subst record_turn_metrics_only) simp

lemma meter_fold_samples_threads [simp]:
  "tw_threads (meter_fold_samples env ag t src request state org samples w) = tw_threads w"
proof -
  have "tw_threads (fold (\<lambda>(k, resp). record_turn_metrics env ag t src k request state org MCompaction resp) xs w)
      = tw_threads w" for xs
  proof (induct xs arbitrary: w)
    case (Cons x xs)
    show ?case by (cases x) (simp add: Cons)
  qed simp
  then show ?thesis by (simp add: meter_fold_samples_def)
qed

lemma reduce_messages [simp]:
  "td_messages (fst (snd (reduce_and_offload env db org call policy out))) = td_messages db"
  by (simp add: reduce_and_offload_def offload_artifact_def save_tool_artifact_def Let_def
      split: result_policy.split prod.split option.split)

lemma run_one_tool_grows:
  assumes "append_only env"
  shows "grows w (snd (run_one_tool env ag t i call tool ctx w))"
proof (cases "tool = None \<or> approval_blocked env ag t i ctx (tc_name call) w \<noteq> None")
  case True
  then show ?thesis by (auto simp: run_one_tool_def split: option.split)
next
  case False
  then obtain tool' where t: "tool = Some tool'" "approval_blocked env ag t i ctx (tc_name call) w = None" by auto
  obtain oc w1 where e: "te_exec env t i tool' (tc_input call) ctx w = (oc, w1)" by fastforce
  then have g: "grows w w1" using assms by (metis append_only_def snd_conv)
  show ?thesis
  proof (cases oc)
    case (ExecOk out)
    obtain res db samples where r:
      "reduce_and_offload (te_reduce env t i) (tw_threads w1) (tx_org_id ctx) call (to_policy tool' (tc_input call)) out
        = (res, db, samples)" by (metis prod_cases3)
    then have "td_messages db = td_messages (tw_threads w1)"
      using reduce_messages [of "te_reduce env t i" "tw_threads w1" "tx_org_id ctx" call "to_policy tool' (tc_input call)" out] by simp
    then show ?thesis using t e g ExecOk r by (simp add: run_one_tool_def) (simp add: grows_def)
  qed (use t e g in \<open>simp_all add: run_one_tool_def\<close>)
qed

lemma run_call_grows: "append_only env \<Longrightarrow> grows w (snd (run_call_with_hooks env ag t i call tool ctx w))"
  using run_one_tool_grows [of env w ag t i call tool ctx]
  by (auto simp: run_call_with_hooks_def split: sum.split prod.split)

lemma exec_calls_grows: "append_only env \<Longrightarrow> grows w (snd (exec_calls env ag t calls classes ctx is w))"
proof (induct "is" arbitrary: w)
  case (Cons i "is")
  obtain r w1 where r: "run_call_with_hooks env ag t i (calls ! i) (class_tool (classes ! i)) ctx w = (r, w1)" by fastforce
  obtain rs w2 where rs: "exec_calls env ag t calls classes ctx is w1 = (rs, w2)" by fastforce
  have "grows w w1" using run_call_grows [OF Cons(2), of w ag t i "calls ! i" "class_tool (classes ! i)" ctx] r by simp
  moreover have "grows w1 w2" using Cons(1) [OF Cons(2), of w1] rs by simp
  ultimately show ?case using r rs by (simp add: grows_trans)
qed simp

lemma record_tool_call_threads [simp]: "tw_threads (record_tool_call env ag t i ctx call res w) = tw_threads w"
  by (simp add: record_tool_call_def Let_def split: option.split bool.split prod.split)

lemma merge_results_threads [simp]: "tw_threads (snd (merge_results env ag t calls ctx rs w)) = tw_threads w"
proof (induct env ag t calls ctx rs w rule: merge_results.induct)
  case (3 env ag t calls ctx i res rs w)
  let ?o = "if ag_observer ag then w\<lparr>tw_observed := tw_observed w @ [OnToolResult res]\<rparr> else w"
  obtain x v where m: "merge_results env ag t calls ctx rs (record_tool_call env ag t i ctx (calls ! i) res ?o) = (x, v)" by fastforce
  then show ?case using 3 [OF refl] by (cases x) (auto simp: Let_def split: if_splits)
qed simp_all

lemma run_batch_grows: "append_only env \<Longrightarrow> grows w (snd (run_batch env ag t calls classes ctx b w))"
  using exec_calls_grows [of env w ag t calls classes ctx "sort_key (te_rank env t) (batch_indices b)"]
  by (simp add: run_batch_def grows_def split: prod.split) (metis snd_conv)

lemma run_batches_grows: "append_only env \<Longrightarrow> grows w (snd (run_batches env ag t calls classes ctx k bs w))"
proof (induct bs arbitrary: k w)
  case (Cons b bs)
  obtain x w1 where x: "run_batch env ag t calls classes ctx b w = (x, w1)" by fastforce
  obtain y w2 where y: "run_batches env ag t calls classes ctx (k + 1) bs w1 = (y, w2)" by fastforce
  have g: "grows w w1" "grows w1 w2" using run_batch_grows [OF Cons(2), of w ag t calls classes ctx b] x
      Cons(1) [OF Cons(2), of w1 "k + 1"] y by simp_all
  have "snd (run_batches env ag t calls classes ctx k (b # bs) w) \<in> {w, w1, w2}"
    using x y by (cases x; cases y) simp_all
  then show ?case using g grows_trans [OF g] by auto
qed simp

lemma run_tools_grows: "append_only env \<Longrightarrow> grows w (snd (run_tools env ag t calls ctx w))"
  unfolding run_tools_def Let_def by (rule run_batches_grows)

section \<open>A turn\<close>

text \<open>The row a private append adds, at the end of the feed.\<close>

definition stored_row :: "job \<Rightarrow> uuid \<Rightarrow> message_kind \<Rightarrow> uuid \<Rightarrow> chat_message \<Rightarrow> message_row \<Rightarrow> bool" where
  "stored_row jb thread kind owner body m \<longleftrightarrow> ms_thread m = thread \<and> ms_kind m = kind \<and> ms_owner_agent m = Some owner
     \<and> ms_receiver m = None \<and> ms_body m = body \<and> ms_request m = Some (jb_request jb)"

lemma append_message_new:
  assumes "append_message db now i ca thread m = (Inr r, db')" "nm_idempotency_key m = None"
  shows "\<exists>org n. td_messages db' = td_messages db @ [message_row_of i thread org n now m]"
  using assms
  by (auto simp: append_message_def append_statement_def Let_def split: prod.splits sum.splits bool.splits option.splits if_splits)
    blast

lemma append_private_Val:
  assumes "append_private env jb t k thread kind sender owner body w = (Val (), w')"
  shows "\<exists>m. td_messages (tw_threads w') = td_messages (tw_threads w) @ [m] \<and> stored_row jb thread kind owner body m"
proof -
  let ?m = "\<lparr>nm_kind = kind, nm_sender = sender, nm_owner_agent = Some owner, nm_receiver = None, nm_body = body,
          nm_request = Some (jb_request jb), nm_idempotency_key = None\<rparr>"
  obtain r db where r: "append_message (tw_threads w) (te_now env t) (te_message_id env t k) (jb_caller jb) thread ?m
      = (r, db)" by fastforce
  with assms obtain i where i: "r = Inr i" "w' = w\<lparr>tw_threads := db\<rparr>"
    by (cases r) (auto simp: append_private_def)
  obtain org n where "td_messages db = td_messages (tw_threads w)
      @ [message_row_of (te_message_id env t k) thread org n (te_now env t) ?m]"
    using append_message_new [OF r [unfolded i]] by auto
  then show ?thesis by (simp add: i stored_row_def message_row_of_def)
qed

text \<open>A turn that gives a value has stored the model's answer, which is the reply or was followed.\<close>

lemma run_thread_turn_Val:
  assumes "run_thread_turn env ag jb thread t egress w = (Val out, w')"
  obtains resp agent w3 rows m and ctx :: tool_ctx where "participant_agent (jb_viewer jb) = Some agent"
    "td_messages (tw_threads w3) = rows @ [m]"
    "stored_row jb thread (if tool_calls resp = [] then Reasoning else KToolUse) agent (Assistant (resp_content resp)) m"
    "finish_turn env ag t ctx (append_private env jb t 1 thread KToolResult None agent) resp egress w3 = (Val out, w')"
proof -
  note found = that
  let ?ctx = "\<lparr>tx_claim_key = jb_claim_key jb, tx_thread_id = Some thread, tx_state_id = Some (jb_claim_key jb),
      tx_viewer = jb_viewer jb, tx_root_request_id = jb_root jb, tx_request_id = jb_request jb,
      tx_kind_payload = jb_payload jb, tx_acting_user_id = ca_user (jb_caller jb), tx_org_id = ca_org (jb_caller jb)\<rparr>"
  from assms obtain answer w1 where "open_turn env ag jb t (build_thread_request env ag jb t thread) w = (Val answer, w1)"
    unfolding run_thread_turn_def and_then_Val by blast
  moreover obtain resp byo where "answer = (resp, byo)" by (cases answer)
  ultimately obtain w2 where 1: "(case participant_agent (jb_viewer jb) of
      None \<Rightarrow> (Failed (AeInternal ''run_thread_turn requires an agent viewer''), w2)
    | Some agent \<Rightarrow>
        and_then (append_private env jb t 0 thread (if tool_calls resp = [] then Reasoning else KToolUse)
            (participant_colleague (jb_viewer jb)) agent (Assistant (resp_content resp)) w2)
          (\<lambda>_. finish_turn env ag t ?ctx (append_private env jb t 1 thread KToolResult None agent) resp egress))
      = (Val out, w')"
    using assms unfolding run_thread_turn_def
    by (simp only: and_then_simps prod.case) (simp only: and_then_Val, blast)
  show thesis
  proof (cases "participant_agent (jb_viewer jb)")
    case (Some agent)
    with 1 obtain w3 where w3: "append_private env jb t 0 thread (if tool_calls resp = [] then Reasoning else KToolUse)
         (participant_colleague (jb_viewer jb)) agent (Assistant (resp_content resp)) w2 = (Val (), w3)"
      and fin: "finish_turn env ag t ?ctx (append_private env jb t 1 thread KToolResult None agent) resp egress w3 = (Val out, w')"
      by (auto simp: and_then_Val)
    obtain m where "td_messages (tw_threads w3) = td_messages (tw_threads w2) @ [m]"
      "stored_row jb thread (if tool_calls resp = [] then Reasoning else KToolUse) agent (Assistant (resp_content resp)) m"
      using append_private_Val [OF w3] by blast
    then show thesis by (rule found [OF Some _ _ fin])
  qed (use 1 in simp)
qed

lemma finish_turn_reply:
  "finish_turn env ag t ctx store resp egress w = (Val (Some s, e), w') \<longleftrightarrow>
     tool_calls resp = [] \<and> s = response_text resp \<and> s \<noteq> [] \<and> e = egress \<and> w' = w"
  by (auto simp: finish_turn_def Let_def and_then_Val split: if_splits)

lemma finish_turn_continues:
  assumes "finish_turn env ag t ctx store resp egress w = (Val (None, e), w')"
  obtains results w1 where "tool_calls resp \<noteq> []" "length (tool_calls resp) \<le> MAX_TOOL_CALLS_PER_TURN"
    "run_tools env ag t (tool_calls resp) ctx w = (Val results, w1)"
    "store (User (map UToolResult results)) (te_gap env t 2 w1) = (Val (), w')"
    "e = egress + count_egress (tool_calls resp)"
  using assms by (auto simp: finish_turn_def Let_def and_then_Val split: if_splits)

lemma count_egress_le: "count_egress calls \<le> length calls"
  by (simp add: count_egress_def)

lemma run_thread_turn_egress:
  assumes "run_thread_turn env ag jb thread t egress w = (Val (None, e), w')"
  shows "e \<le> egress + MAX_TOOL_CALLS_PER_TURN"
proof -
  obtain resp agent w3 ctx where
    "finish_turn env ag t ctx (append_private env jb t 1 thread KToolResult None agent) resp egress w3 = (Val (None, e), w')"
    using run_thread_turn_Val [OF assms] by metis
  then obtain "length (tool_calls resp) \<le> MAX_TOOL_CALLS_PER_TURN" "e = egress + count_egress (tool_calls resp)"
    by (rule finish_turn_continues)
  then show ?thesis using count_egress_le [of "tool_calls resp"] by simp
qed

section \<open>The loop\<close>

lemma turn_loop_Val:
  assumes "turn_loop env ag turn t n egress w = (Val reply, w')"
    and "\<forall>t e w e' w'. turn t e w = (Val (None, e'), w') \<longrightarrow> e' \<le> e + c"
  shows "\<exists>k e w1. k < n \<and> e \<le> egress + k * c \<and> \<not> te_cancelled env (t + k) 0
    \<and> turn (t + k) e w1 = (Val (Some (rp_final_text reply), rp_send_message_calls reply), w')"
  using assms(1)
proof (induct n arbitrary: t egress w)
  case (Suc n)
  then obtain answer e1 w1 where
    1: "\<not> te_cancelled env t 0" "turn t egress w = (Val (answer, e1), w1)"
    "(case answer of Some s \<Rightarrow> (Val \<lparr>rp_final_text = s, rp_send_message_calls = e1\<rparr>, w1)
       | None \<Rightarrow> turn_loop env ag turn (t + 1) n e1 w1) = (Val reply, w')"
    by (auto simp: and_then_Val split: if_splits sum.splits)
  show ?case
  proof (cases answer)
    case None
    with 1(3) Suc.hyps [of "t + 1" e1 w1] obtain k e w2 where
      "k < n" "e \<le> e1 + k * c" "\<not> te_cancelled env (t + 1 + k) 0"
      "turn (t + 1 + k) e w2 = (Val (Some (rp_final_text reply), rp_send_message_calls reply), w')" by auto
    moreover have "e1 \<le> egress + c" using assms(2) 1(2) None by blast
    ultimately show ?thesis by (intro exI [of _ "Suc k"] exI [of _ e] exI [of _ w2]) simp
  next
    case (Some s)
    then show ?thesis using 1 by (intro exI [of _ 0] exI [of _ egress] exI [of _ w]) auto
  qed
qed simp

end
