(* ===== verification/Agent_Properties.thy ===== *)
theory Agent_Properties
  imports Agent_Laws Thread_Properties
begin

text \<open>
  The properties of an agent's turn: when a gated tool runs, that the order in which a batch of safe
  calls runs is not observable, that every call stored in the feed is followed by its result, what a
  reply is, and that the task list an agent writes is the one its later turns are shown.
\<close>

section \<open>Gated tools\<close>

text \<open>
  C6. A gated tool takes effect only with an approval: if what a call of it does depends on the
  tool's own work at all, then in the conversation and organisation of the call an approval of that
  tool was decided in favour, before its deadline, by a colleague the approval's policy allows.
\<close>

theorem gated_tool_runs_only_approved:
  assumes "reach approval_init approval_step (tw_approvals w)" "ag_gate ag"
    and "participant_agent (tx_viewer ctx) = Some agent"
    and "is_gated (tw_approvals w) (tx_org_id ctx) agent (tc_name call)"
    and "run_one_tool (env\<lparr>te_exec := f\<rparr>) ag t i call tool ctx w \<noteq> run_one_tool (env\<lparr>te_exec := g\<rparr>) ag t i call tool ctx w"
  shows "\<exists>r c d. r \<in> set (ad_rows (tw_approvals w)) \<and> ap_org r = tx_org_id ctx \<and> ap_root r = tx_root_request_id ctx
    \<and> ap_gated_tool r = tc_name call \<and> ap_status r = ApApproved \<and> ap_decided_by r = Some c \<and> ap_decided_at r = Some d
    \<and> d < ap_expires_at r
    \<and> policy_allows (ap_kind r) (ap_colleague r) (select_approver_ids (tw_approvals w) (ap_id r)) c"
proof -
  have "approval_blocked env ag t i ctx (tc_name call) w = None" by (rule run_not_blocked [OF assms(5)])
  then have "gate_check (fst (te_gate_ok env t i)) (snd (te_gate_ok env t i)) (tw_approvals w) (tx_org_id ctx) agent
      (tx_root_request_id ctx) (tc_name call) = Allowed"
    using assms(2,3) by (simp add: approval_blocked_def split: gate_outcome.splits)
  from gate_needs_allowed_approval [OF assms(1,4) this] show ?thesis by blast
qed

section \<open>Batches\<close>

lemma safe_contract_rank [simp]: "safe_contract (env\<lparr>te_rank := r\<rparr>) \<longleftrightarrow> safe_contract env"
  by (simp add: safe_contract_def)

text \<open>A safe batch answers as if each of its calls had run alone, in call order.\<close>

lemma run_batch_safe:
  fixes ag t calls ctx w
  assumes "safe_contract env"
    and "\<forall>i \<in> set (batch_indices b). case class_tool (classes ! i) of None \<Rightarrow> True | Some tool \<Rightarrow> to_concurrency_safe tool"
  defines "alone \<equiv> map (\<lambda>i. (i, fst (run_call_with_hooks env ag t i (calls ! i) (class_tool (classes ! i)) ctx w))) (batch_indices b)"
  shows "fst (run_batch env ag t calls classes ctx b w) = fst (merge_results env ag t calls ctx alone w)
    \<and> merge_eq (snd (run_batch env ag t calls classes ctx b w)) (snd (merge_results env ag t calls ctx alone w))"
proof -
  let ?is = "sort_key (te_rank env t) (batch_indices b)"
  obtain rs w1 where rs: "exec_calls env ag t calls classes ctx ?is w = (rs, w1)" by fastforce
  have "\<forall>i \<in> set ?is. case class_tool (classes ! i) of None \<Rightarrow> True | Some tool \<Rightarrow> to_concurrency_safe tool"
    using assms(2) by simp
  from exec_calls_safe [OF assms(1) this merge_eq_refl [of w], of ag t calls ctx] rs
  have "rs = map (\<lambda>i. (i, fst (run_call_with_hooks env ag t i (calls ! i) (class_tool (classes ! i)) ctx w))) ?is"
    and eq: "merge_eq w1 w" by simp_all
  moreover have "distinct (map fst rs)"
    using exec_calls_keys [of env ag t calls classes ctx ?is w] rs by (simp add: batch_indices_def)
  ultimately have "sort_key fst rs = alone" by (simp add: sort_by_fst sort_rank_indices alone_def comp_def)
  then show ?thesis using merge_results_eq [OF eq, of env ag t calls ctx alone] rs by (simp add: run_batch_def)
qed

text \<open>
  C9. Concurrency is not observable: whatever the order in which the calls of a batch happen to run,
  the batch gives the same results in the same order, the same rows of the call log and the same
  notifications, provided the tools that declare themselves safe leave the stores alone.
\<close>

theorem batch_is_schedule_independent:
  fixes t ctx w
  assumes "safe_contract env"
    and "classes = map (\<lambda>c. classify (toolbox_get_for (ag_toolbox ag) k (tc_name c))) calls"
    and "b \<in> set (plan_batches (map class_is_safe classes))"
  defines "run \<equiv> (\<lambda>rank. run_batch (env\<lparr>te_rank := rank\<rparr>) ag t calls classes ctx b w)"
  shows "fst (run rank) = fst (run rank')
    \<and> tw_observed (snd (run rank)) = tw_observed (snd (run rank'))
    \<and> tw_calls (snd (run rank)) = tw_calls (snd (run rank'))"
proof -
  obtain i j where b: "b = (i, j)" by (cases b)
  have plan: "j = i + 1 \<or> (\<forall>k. i \<le> k \<and> k < j \<longrightarrow> class_is_safe (classes ! k))" "j \<le> length classes"
    using plan_batches_batch [of i j "map class_is_safe classes"] assms(3) b by auto
  show ?thesis
  proof (cases "j = i + 1")
    case True
    then have "batch_indices b = [i]" by (simp add: batch_indices_def b)
    then show ?thesis by (simp add: run_def run_batch_def split: prod.split)
  next
    case False
    have "case class_tool (classes ! l) of None \<Rightarrow> True | Some tool \<Rightarrow> to_concurrency_safe tool"
      if "l \<in> set (batch_indices b)" for l
      using that plan False assms(2)
      by (auto simp: batch_indices_def b classify_def split: option.splits if_splits)
    then have safe: "\<forall>l \<in> set (batch_indices b). case class_tool (classes ! l) of None \<Rightarrow> True | Some tool \<Rightarrow> to_concurrency_safe tool"
      by blast
    have "fst (run r) = fst (run_batch env ag t calls classes ctx b w)
        \<and> merge_eq (snd (run r)) (snd (run_batch env ag t calls classes ctx b w))" for r
      using run_batch_safe [OF assms(1) safe, of ag t calls ctx w]
        run_batch_safe [of "env\<lparr>te_rank := r\<rparr>", OF _ safe, of ag t calls ctx w] assms(1)
      by (auto simp: run_def intro: merge_eq_trans merge_eq_sym)
    then show ?thesis by (simp add: merge_eq_def)
  qed
qed

section \<open>Turns and replies\<close>

text \<open>
  C7. Calls and results come in pairs: when a turn goes on to the next one, it has stored the model's
  calls as one row of the feed and, as the last row, one result for every call, in the order of the
  calls; both rows are private to the agent. Everybody else may add rows in between, not change any.
\<close>

theorem every_call_is_paired:
  assumes "append_only env" "run_thread_turn env ag jb thread t egress w = (Val (None, egress'), w')"
  shows "\<exists>resp results agent rows use between res.
      td_messages (tw_threads w') = rows @ [use] @ between @ [res]
    \<and> stored_row jb thread KToolUse agent (Assistant (resp_content resp)) use
    \<and> stored_row jb thread KToolResult agent (User (map UToolResult results)) res
    \<and> map tr_call_id results = map tc_id (tool_calls resp) \<and> tool_calls resp \<noteq> []
    \<and> length (tool_calls resp) \<le> MAX_TOOL_CALLS_PER_TURN
    \<and> egress' = egress + count_egress (tool_calls resp) \<and> participant_agent (jb_viewer jb) = Some agent"
proof -
  obtain resp agent w3 rows m ctx where m: "participant_agent (jb_viewer jb) = Some agent"
    "td_messages (tw_threads w3) = rows @ [m]"
    "stored_row jb thread (if tool_calls resp = [] then Reasoning else KToolUse) agent (Assistant (resp_content resp)) m"
    "finish_turn env ag t ctx (append_private env jb t 1 thread KToolResult None agent) resp egress w3 = (Val (None, egress'), w')"
    by (rule run_thread_turn_Val [OF assms(2)])
  obtain results w1 where f: "tool_calls resp \<noteq> []" "length (tool_calls resp) \<le> MAX_TOOL_CALLS_PER_TURN"
    "run_tools env ag t (tool_calls resp) ctx w3 = (Val results, w1)"
    "append_private env jb t 1 thread KToolResult None agent (User (map UToolResult results)) (te_gap env t 2 w1) = (Val (), w')"
    "egress' = egress + count_egress (tool_calls resp)"
    using m(4) by (rule finish_turn_continues)
  have "grows w3 (te_gap env t 2 w1)"
    using run_tools_grows [OF assms(1), of w3 ag t "tool_calls resp" ctx] f(3) assms(1)
    by (auto simp: append_only_def intro: grows_trans)
  then obtain between where "td_messages (tw_threads (te_gap env t 2 w1)) = rows @ [m] @ between"
    using m(2) by (auto simp: grows_def)
  moreover obtain res where "td_messages (tw_threads w') = td_messages (tw_threads (te_gap env t 2 w1)) @ [res]"
    "stored_row jb thread KToolResult agent (User (map UToolResult results)) res"
    using append_private_Val [OF f(4)] by blast
  moreover have "map tr_call_id results = map tc_id (tool_calls resp)" using f(3) by (rule run_tools_ids)
  ultimately show ?thesis using m(1,3) f(1,2,5)
    by (intro exI [of _ resp] exI [of _ results] exI [of _ agent] exI [of _ rows] exI [of _ m]
        exI [of _ between] exI [of _ res]) simp
qed

text \<open>
  C8. A reply is earned: the loop gives one only from a turn within its budget whose answer calls no
  tool and says something; that answer is the last row of the feed, as the agent's private reasoning,
  and the reply counts at most sixteen outgoing messages for every turn before it.
\<close>

theorem reply_is_earned:
  assumes "run_thread_loop env ag jb thread w = (Val reply, w')"
  shows "\<exists>resp agent rows m t. t < ag_max_turns ag \<and> tool_calls resp = [] \<and> rp_final_text reply = response_text resp
    \<and> response_text resp \<noteq> [] \<and> rp_send_message_calls reply \<le> t * MAX_TOOL_CALLS_PER_TURN
    \<and> participant_agent (jb_viewer jb) = Some agent \<and> td_messages (tw_threads w') = rows @ [m]
    \<and> stored_row jb thread Reasoning agent (Assistant (resp_content resp)) m"
proof -
  have b: "\<forall>t e v e' v'. run_thread_turn env ag jb thread t e v = (Val (None, e'), v') \<longrightarrow> e' \<le> e + MAX_TOOL_CALLS_PER_TURN"
    using run_thread_turn_egress by blast
  obtain k e w1 where k: "k < ag_max_turns ag" "e \<le> k * MAX_TOOL_CALLS_PER_TURN"
    "run_thread_turn env ag jb thread k e w1 = (Val (Some (rp_final_text reply), rp_send_message_calls reply), w')"
    using turn_loop_Val [OF assms [unfolded run_thread_loop_def] b] by auto
  obtain resp agent w3 rows m ctx where m: "participant_agent (jb_viewer jb) = Some agent"
    "td_messages (tw_threads w3) = rows @ [m]"
    "stored_row jb thread (if tool_calls resp = [] then Reasoning else KToolUse) agent (Assistant (resp_content resp)) m"
    "finish_turn env ag k ctx (append_private env jb k 1 thread KToolResult None agent) resp e w3
       = (Val (Some (rp_final_text reply), rp_send_message_calls reply), w')"
    by (rule run_thread_turn_Val [OF k(3)])
  from m(4) have "tool_calls resp = []" "rp_final_text reply = response_text resp" "response_text resp \<noteq> []"
    "rp_send_message_calls reply = e" "w' = w3"
    unfolding finish_turn_reply by auto
  with k m show ?thesis
    by (intro exI [of _ resp] exI [of _ agent] exI [of _ rows] exI [of _ m] exI [of _ k]) simp
qed

section \<open>The task list\<close>

text \<open>
  C11. The task list survives: after a write on a turn with a participation the stored list has at
  most fifty items, no repeated id and at most one in progress; a later turn is shown exactly it, in
  lines that cannot break out of their envelope; the lists of others are as before. The write is
  counted for its request, whose count was below twenty, and no other count changes; only the count
  of one other request may be dropped, by a request that is new when 1024 are counted.
\<close>

theorem todo_list_survives:
  assumes "todo_write parse show show_db victim db now ctx input (writes, todos) = (Inr out, writes', todos')"
    and "tx_state_id ctx = Some state"
    and "tw_todos w = todos'" "te_todos env t = TodosRead"
  shows "todos_block env t state w = Inr (render_section (tdo_items out)) \<and> todo_list_ok (tdo_items out)
    \<and> list_all (\<lambda>i. envelope_safe (todo_line i)) (tdo_items out)
    \<and> (state' \<noteq> state \<longrightarrow> todos_get todos' state' = todos_get todos state')
    \<and> (\<exists>n < MAX_TODO_WRITES_PER_TURN. n = (case map_of writes (tx_request_id ctx) of None \<Rightarrow> 0 | Some k \<Rightarrow> k)
         \<and> map_of writes' (tx_request_id ctx) = Some (n + 1))
    \<and> (\<forall>r. r \<noteq> tx_request_id ctx \<longrightarrow> map_of writes' r = map_of writes r
         \<or> length writes \<ge> COUNTER_MAX_ENTRIES \<and> map_of writes (tx_request_id ctx) = None
           \<and> r = victim (map fst writes) \<and> map_of writes' r = None)"
proof -
  obtain raws items where items: "todo_items_of_raw show raws = Inr items" "parse input = Inr raws"
    using assms(1) by (auto simp: todo_write_def split: sum.splits)
  obtain l where cap: "check_cap victim writes (tx_request_id ctx) = (Inr (), writes')"
    and l: "todo_list_try_from items = Inr l"
    and stored: "todos_replace db todos now (tx_acting_user_id ctx) state (tx_org_id ctx) (tx_request_id ctx) l
        = (Inr (tdo_items out), todos')"
    using assms(1,2) items
    by (auto simp: todo_write_def split: sum.splits prod.splits todo_store_error.splits)
  have ok: "l = items" "todo_list_ok items" using l by (simp_all add: todo_list_try_from_Inr)
  have "tdo_items out = items" using stored ok(1) by (auto simp: todos_replace_def split: if_splits)
  moreover have "list_all (\<lambda>i. envelope_safe (todo_line i)) items"
    using todo_items_of_raw_ids [OF items(1)] envelope_safe_line by (fastforce simp: list_all_iff)
  moreover note counted = check_cap_counts [OF cap]
  ultimately show ?thesis
    using todos_get_replace [OF stored [unfolded ok(1)] ok(2)] ok(2) assms(3,4) by (simp add: todos_block_def)
qed

section \<open>The properties at work\<close>

text \<open>
  Agent 3, colleague 6 of organisation 1, answers in thread 7; \<open>cs\<close> is the answer of its model.
\<close>

definition ex_tool :: "string \<Rightarrow> bool \<Rightarrow> tool" where
  "ex_tool name safe = \<lparr>to_name = name, to_description = [], to_schema = JNull, to_modes = modes_all,
     to_concurrency_safe = safe, to_policy = (\<lambda>_. Paginate)\<rparr>"

definition ex_call :: "string \<Rightarrow> string \<Rightarrow> tool_call" where
  "ex_call i name = \<lparr>tc_id = i, tc_name = name, tc_input = JNull\<rparr>"

lemma ex_call_sel: "tc_id (ex_call i name) = i" "tc_name (ex_call i name) = name" by (simp_all add: ex_call_def)

definition ex_calls :: "tool_call list" where
  "ex_calls = [ex_call ''a'' ''lookup'', ex_call ''b'' ''send_message'']"

definition ex_usage :: usage where
  "ex_usage = \<lparr>input_tokens = 10, output_tokens = 5, cache_creation_input_tokens = None, cache_read_input_tokens = None\<rparr>"

definition ex_answer :: "assistant_content list \<Rightarrow> chat_response" where
  "ex_answer cs = \<lparr>resp_content = cs, resp_stop_reason = EndTurn, resp_usage = ex_usage, resp_model = None\<rparr>"

definition ex_model :: model where "ex_model = entry ''test-model'' Anthropic 2000 ALL_CAPS"

definition ex_agent :: "unit agent" where
  "ex_agent = \<lparr>ag_org = 1, ag_registry = [Anthropic \<mapsto> ()], ag_model = ex_model, ag_max_output_tokens = 100,
     ag_max_turns = 2, ag_hooks = [],
     ag_toolbox = \<lparr>tb_builtins = \<lparr>reg_tools = [ex_tool ''lookup'' True, ex_tool ''refund'' False], reg_specs = []\<rparr>,
       tb_dynamic = empty_source\<rparr>,
     ag_metrics = None, ag_call_store = False, ag_gate = True, ag_observer = True\<rparr>"

definition ex_fold :: fold_env where
  "ex_fold = \<lparr>fe_js = (\<lambda>_. []), fe_late = (\<lambda>_. False), fe_reply = (\<lambda>_ _. fold_reply.Reply (ex_answer [])),
     fe_model = ex_model, fe_max_output_tokens = 100, fe_persona = None\<rparr>"

definition ex_env :: "assistant_content list \<Rightarrow> unit turn_env" where
  "ex_env cs = \<lparr>te_gap = (\<lambda>_ _ w. w), te_overlay = (\<lambda>_. Map.empty), te_billing = (\<lambda>_. None), te_ledger_id = (\<lambda>_. 0),
     te_now = (\<lambda>t. 300 + int t), te_send = (\<lambda>_ _ _. SendOk (ex_answer cs)), te_fold = (\<lambda>_ _. ex_fold), te_names = Map.empty,
     te_overrides = (\<lambda>_. Map.empty), te_system = (\<lambda>_. Inr ''you are 3''), te_participants = (\<lambda>_. []),
     te_todos = (\<lambda>_. TodosRead), te_measure_ok = (\<lambda>_. True), te_metrics_ok = (\<lambda>_ _ _. True), te_metric_id = (\<lambda>_ _ _. 0),
     te_sample = (\<lambda>_ _ _. (300, 0)), te_message_id = (\<lambda>t k. 100 + 2 * t + k), te_cancelled = (\<lambda>_ _. False),
     te_exec = (\<lambda>_ i _ _ _ w. (ExecOk ''found'', w)), te_rank = (\<lambda>_ i. i), te_call_sample = (\<lambda>_ _. (300, 0)),
     te_call_id = (\<lambda>_ _. 0), te_call_ok = (\<lambda>_ _. True), te_gate_ok = (\<lambda>_ _. (True, True)),
     te_reduce = (\<lambda>_ _. \<lparr>re_js = (\<lambda>_. []), re_sha = (\<lambda>_. []), re_late = (\<lambda>_ _. False), re_reply = (\<lambda>_ _ _. fold_reply.Reply (ex_answer [])),
       re_chain = [], re_store = False, re_save_ok = (\<lambda>_. False)\<rparr>),
     te_uuid_str = (\<lambda>_. []), te_show_thread = (\<lambda>_. []), te_show_background = (\<lambda>_. []), te_show_todos = (\<lambda>_. [])\<rparr>"

definition ex_job :: job where
  "ex_job = \<lparr>jb_claim_key = 30, jb_thread = Some 7, jb_viewer = PAgent 6 3, jb_request = 31, jb_root = 5,
     jb_caller = sample_caller, jb_payload = PNormal\<rparr>"

definition ex_world :: turn_world where
  "ex_world = \<lparr>tw_threads = sample_thread_db2,
     tw_billing = \<lparr>bd_orgs = [], bd_members = [], bd_billing = Map.empty, bd_usage = Map.empty, bd_credits = Map.empty, bd_ledger = []\<rparr>,
     tw_background = \<lparr>bg_turns = [], bg_messages = [], bg_members = []\<rparr>, tw_todos = Map.empty, tw_approvals = ex_approved,
     tw_metrics = [], tw_calls = [], tw_observed = []\<rparr>"

lemma ex_feed: "sample_thread_db2 = sample_thread_db1\<lparr>td_seq := [7 \<mapsto> 1],
    td_messages := [message_row_of 21 7 1 1 200 (posted 5 ''hi'' (Some ''k''))],
    td_threads := update_where (\<lambda>t. th_id t = 7) (\<lambda>t. t\<lparr>th_last_activity_at := 200\<rparr>) (td_threads sample_thread_db1)\<rparr>"
  by (simp add: sample_thread_db2_def append_to_def append_message_def append_statement_def thread_visible_def
     sample_thread_db1_def sample_thread_db0_def sample_caller_def td_is_member_def Let_def last_seq_def i64_max_def message_admitted_def
     posted_def key_taken_def chars_count_def is_cont_def)

lemma ex_context: "context_tail Map.empty sample_thread_db2 7 3 6 0 Map.empty = [\<lparr>tl_seq = 1, tl_message = User [UText ''hi'']\<rparr>]"
  by (simp add: context_tail_def context_rows_def ex_feed context_row_def message_row_of_def posted_def last_n_def
    MAX_CONTEXT_MESSAGES_def map_context_row_def map_row_for_viewer_def prefix_sender_label_def cap_tool_results_in_place_def
    repair_tool_pairs_def drop_orphan_tool_results_def call_ids_def List.map_filter_simps)

lemma ex_resolve: "resolve_agent_context ex_fold Map.empty sample_thread_db2 300 None 7 3 6 Map.empty
   = (Inr \<lparr>ac_summary = None, ac_messages = [User [UText ''hi'']]\<rparr>, sample_thread_db2, [])"
proof -
  have "td_compactions sample_thread_db2 (7, 3) = None" by (simp add: ex_feed sample_thread_db1_def sample_thread_db0_def)
  then show ?thesis
  by (simp add: resolve_agent_context_def load_compaction_def ex_context estimate_tokens_def ex_fold_def tokens_of_chars_def
     message_chars_def user_content_chars_def saturating_add_usize_def context_token_budget_def ex_model_def entry_def
     CONTEXT_TOKEN_BUDGET_DIVISOR_def chars_count_def is_cont_def
     MAX_CONTEXT_MESSAGES_def floor_context_def CHARS_PER_TOKEN_def u32_max_def)
qed

lemma ex_request: "build_thread_request (ex_env cs) ex_agent ex_job 0 7 c ex_world
   = (Val (request_of ex_agent PNormal ''you are 3'' [User [UText ''hi'']]), ex_world)"
  by (simp add: build_thread_request_def ex_job_def ex_env_def ex_world_def ex_agent_def last_full_prompt_tokens_def ex_resolve
     meter_fold_samples_def MAX_CONTEXT_MESSAGES_def todos_block_def todos_get_def render_section_def compose_system_def
     enumerate_eq_zip)


lemma ex_env_sel [simp]:
  "te_gap (ex_env cs) t k w = w" "te_overlay (ex_env cs) t = Map.empty" "te_billing (ex_env cs) t = None"
  "te_send (ex_env cs) t c r = SendOk (ex_answer cs)" "te_cancelled (ex_env cs) t b = False"
  "te_gate_ok (ex_env cs) t i = (True, True)" "te_exec (ex_env cs) t i tool input ctx w = (ExecOk ''found'', w)"
  "te_rank (ex_env cs) t i = i" "te_todos (ex_env cs) t = TodosRead"
  by (simp_all add: ex_env_def)

lemma ex_agent_sel [simp]:
  "ag_hooks ex_agent = []" "ag_registry ex_agent = [Anthropic \<mapsto> ()]" "ag_model ex_agent = ex_model" "ag_max_turns ex_agent = Suc (Suc 0)"
  "ag_metrics ex_agent = None" "ag_call_store ex_agent = False" "ag_gate ex_agent = True" "ag_observer ex_agent = True"
  by (simp_all add: ex_agent_def)

lemma ex_job_sel [simp]:
  "participant_agent (jb_viewer ex_job) = Some 3" "participant_colleague (jb_viewer ex_job) = Some 6"
  "jb_claim_key ex_job = 30" "jb_payload ex_job = PNormal"
  by (simp_all add: ex_job_def)

lemma ex_open: "open_turn (ex_env cs) ex_agent ex_job 0 (build_thread_request (ex_env cs) ex_agent ex_job 0 7) ex_world
   = (Val (ex_answer cs, False), ex_world)"
  by (simp add: open_turn_def ex_request ex_model_def entry_def route_def overlay_get_def billing_gate_def call_provider_def of_result_def)

lemma ex_cost: "turn_cost (price_for ex_model) ex_usage = Some 600"
  by (simp add: turn_cost_def cost_total_def lane_cost_def unwrap_or_zero_def price_for_def price_for_name_def ex_model_def
     entry_def FALLBACK_PRICE_def price_new_def ex_usage_def i64_max_def)

lemma ex_close: "close_turn (ex_env cs) ex_agent ex_job 0 (Some 30) (ex_answer cs) False ex_world
   = (Val (), ex_world\<lparr>tw_observed := map OnAssistant cs\<rparr>)"
  by (simp add: close_turn_def record_turn_metrics_def billing_settle_def ex_agent_def ex_answer_def ex_cost ex_env_def ex_world_def)

definition ex_stored :: "message_kind \<Rightarrow> chat_message \<Rightarrow> thread_db" where
  "ex_stored kind body = sample_thread_db2\<lparr>td_seq := [7 \<mapsto> Suc (Suc 0)],
     td_messages := td_messages sample_thread_db2 @ [\<lparr>ms_id = 100, ms_thread = 7, ms_seq = Suc (Suc 0), ms_kind = kind, ms_sender = Some 6,
       ms_owner_agent = Some 3, ms_receiver = None, ms_body = body, ms_request = Some 31, ms_org = 1, ms_created_at = 300,
       ms_idempotency_key = None\<rparr>],
     td_threads := update_where (\<lambda>t. th_id t = 7) (\<lambda>t. t\<lparr>th_last_activity_at := 300\<rparr>) (td_threads sample_thread_db2)\<rparr>"

lemma ex_append: "kind \<noteq> Posted \<Longrightarrow> append_private (ex_env cs) ex_job 0 0 7 kind (Some 6) 3 body (ex_world\<lparr>tw_observed := ob\<rparr>)
   = (Val (), ex_world\<lparr>tw_observed := ob, tw_threads := ex_stored kind body\<rparr>)"
  by (simp add: append_private_def append_message_def append_statement_def ex_env_def ex_world_def ex_job_def ex_feed sample_thread_db1_def
     sample_thread_db0_def sample_caller_def thread_visible_def td_is_member_def last_seq_def i64_max_def message_admitted_def
     key_taken_def message_row_of_def posted_def ex_stored_def update_where_def)

lemma ex_append_results:
  assumes "tw_threads w = ex_stored KToolUse body'"
  shows "fst (append_private (ex_env cs) ex_job 0 1 7 KToolResult None 3 body w) = Val ()"
  using assms
  by (simp add: append_private_def append_message_def append_statement_def ex_env_def ex_job_def ex_feed sample_thread_db1_def
     sample_thread_db0_def sample_caller_def thread_visible_def td_is_member_def last_seq_def i64_max_def message_admitted_def
     key_taken_def message_row_of_def posted_def ex_stored_def update_where_def)

lemma fst_and_then: "fst r = Val () \<Longrightarrow> fst (and_then r (\<lambda>_ w. (Val x, w))) = Val x"
  by (cases r) simp

lemma ex_lookup: "classify (toolbox_get_for (ag_toolbox ex_agent) Normal ''lookup'') = Safe (ex_tool ''lookup'' True)"
  "classify (toolbox_get_for (ag_toolbox ex_agent) Normal ''send_message'') = Unknown"
  by (simp_all add: ex_agent_def toolbox_get_for_def registry_get_for_def registry_get_def ex_tool_def modes_includes_all empty_source_def
     classify_def)

definition ex_found :: tool_result where
  "ex_found = \<lparr>tr_call_id = ''a'', tr_output = ''found'', tr_is_error = False\<rparr>"

definition ex_unknown :: tool_result where
  "ex_unknown = error_result ''b'' ''unknown tool for kind=normal: send_message''"

lemma ex_run_lookup:
  assumes "tw_approvals w = ex_approved"
  shows "run_one_tool (ex_env cs) ex_agent t i (ex_call ''a'' ''lookup'') (Some (ex_tool ''lookup'' True)) ctx w = (ex_found, w)"
  using assms
  by (simp add: run_one_tool_def ex_call_def ex_found_def approval_blocked_def gate_check_def is_gated_def ex_approved_eq ex_pending_eq
      TOOL_RESULT_REDUCE_THRESHOLD_def MAX_TOOL_RESULT_CHARS_def split: option.split)

lemma ex_run_unknown:
  assumes "tx_kind_payload ctx = PNormal"
  shows "run_one_tool (ex_env cs) ex_agent t i (ex_call ''b'' ''send_message'') None ctx w = (ex_unknown, w)"
  using assms by (simp add: run_one_tool_def ex_call_def ex_unknown_def)

lemma ex_plan: "plan_batches [True, False] = [(0, 1), (1, 2)]" by code_simp

lemma ex_record: "record_tool_call (ex_env cs) ex_agent t i ctx call res w = w"
  by (simp add: record_tool_call_def)

lemma ex_tools:
  assumes "tw_approvals w = ex_approved" "tx_kind_payload ctx = PNormal"
  shows "run_tools (ex_env cs) ex_agent t ex_calls ctx w
     = (Val [ex_found, ex_unknown], w\<lparr>tw_observed := tw_observed w @ [OnToolResult ex_found, OnToolResult ex_unknown]\<rparr>)"
  using assms
  by (simp add: run_tools_def ex_calls_def ex_call_sel Let_def ex_lookup ex_plan run_batch_def batch_indices_def upt_rec
    run_call_with_hooks_def ex_run_lookup ex_run_unknown ex_record)

lemma ex_turn: "fst (run_thread_turn (ex_env (map CToolCall ex_calls)) ex_agent ex_job 7 0 0 ex_world) = Val (None, 1)"
proof -
  have c: "tool_calls (ex_answer (map CToolCall ex_calls)) = ex_calls"
    by (simp add: tool_calls_def ex_answer_def ex_calls_def List.map_filter_simps)
  have n: "ex_calls \<noteq> []" "\<not> length ex_calls > MAX_TOOL_CALLS_PER_TURN" "count_egress ex_calls = 1"
    by (simp_all add: ex_calls_def MAX_TOOL_CALLS_PER_TURN_def count_egress_def tool_is_egress_def ex_call_sel)
  have a: "tw_approvals ex_world = ex_approved" by (simp add: ex_world_def)
  show ?thesis
    by (simp add: run_thread_turn_def ex_open ex_close c ex_append finish_turn_def n ex_tools a Let_def
        fst_and_then [OF ex_append_results [simplified]])
qed

lemma ex_loop: "fst (run_thread_loop (ex_env [CText ''ok'']) ex_agent ex_job 7 ex_world) = Val \<lparr>rp_final_text = ''ok'', rp_send_message_calls = 0\<rparr>"
proof -
  have c: "tool_calls (ex_answer [CText ''ok'']) = []" "response_text (ex_answer [CText ''ok'']) = ''ok''"
    by (simp_all add: tool_calls_def ex_answer_def List.map_filter_simps response_text_def)
  show ?thesis
    by (simp add: run_thread_loop_def turn_index_try_from_def MAX_TURNS_CAP_def run_thread_turn_def ex_open ex_close c ex_append finish_turn_def)
qed

definition ex_ctx :: tool_ctx where
  "ex_ctx = \<lparr>tx_claim_key = 30, tx_thread_id = Some 7, tx_state_id = Some 30, tx_viewer = PAgent 4 3, tx_root_request_id = 5,
     tx_request_id = 31, tx_kind_payload = PNormal, tx_acting_user_id = 10, tx_org_id = 6\<rparr>"

lemma ex_refund:
  "run_one_tool ((ex_env [])\<lparr>te_exec := (\<lambda>_ _ _ _ _ w. (ExecTimeout, w))\<rparr>) ex_agent 0 0 (ex_call ''c'' ''refund'')
     (Some (ex_tool ''refund'' False)) ex_ctx ex_world = (error_result ''c'' ''tool `refund` timed out'', ex_world)"
  "run_one_tool ((ex_env [])\<lparr>te_exec := (\<lambda>_ _ _ _ _ w. (ExecCancelled, w))\<rparr>) ex_agent 0 0 (ex_call ''c'' ''refund'')
     (Some (ex_tool ''refund'' False)) ex_ctx ex_world = (error_result ''c'' ''cancelled'', ex_world)"
  by (simp_all add: run_one_tool_def ex_call_def approval_blocked_def ex_ctx_def gate_check_def has_approved_for_dag_def
      ex_world_def ex_approved_eq ex_row_def ex_defs)

lemma gated_tool_runs_only_approved_witness:
  "\<exists>r c d. r \<in> set (ad_rows ex_approved) \<and> ap_gated_tool r = ''refund'' \<and> ap_status r = ApApproved
    \<and> ap_decided_by r = Some c \<and> ap_decided_at r = Some d \<and> d < ap_expires_at r"
proof -
  have w: "tw_approvals ex_world = ex_approved" by (simp add: ex_world_def)
  have g: "is_gated (tw_approvals ex_world) (tx_org_id ex_ctx) 3 (tc_name (ex_call ''c'' ''refund''))"
    by (simp add: w is_gated_def ex_approved_eq ex_pending_eq ex_ctx_def ex_call_def)
  have v: "participant_agent (tx_viewer ex_ctx) = Some 3" by (simp add: ex_ctx_def)
  have r: "reach approval_init approval_step (tw_approvals ex_world)" by (simp add: w ex_approved_reach)
  have d: "run_one_tool ((ex_env [])\<lparr>te_exec := (\<lambda>_ _ _ _ _ w. (ExecTimeout, w))\<rparr>) ex_agent 0 0 (ex_call ''c'' ''refund'')
      (Some (ex_tool ''refund'' False)) ex_ctx ex_world
    \<noteq> run_one_tool ((ex_env [])\<lparr>te_exec := (\<lambda>_ _ _ _ _ w. (ExecCancelled, w))\<rparr>) ex_agent 0 0 (ex_call ''c'' ''refund'')
      (Some (ex_tool ''refund'' False)) ex_ctx ex_world"
    unfolding ex_refund by (simp add: error_result_def TOOL_RESULT_MAX_BYTES_def)
  show ?thesis using gated_tool_runs_only_approved [OF r _ v g d] by (auto simp: w ex_call_sel)
qed

lemma ex_safe_contract: "safe_contract (ex_env cs)" by (simp add: safe_contract_def)

lemma ex_append_only: "append_only (ex_env cs)" by (simp add: append_only_def)

definition ex_pair :: "tool_call list" where
  "ex_pair = [ex_call ''a'' ''lookup'', ex_call ''b'' ''lookup'']"

lemma batch_is_schedule_independent_witness:
  "fst (run_batch ((ex_env [])\<lparr>te_rank := (\<lambda>_ i. 1 - i)\<rparr>) ex_agent 0 ex_pair
       (map (\<lambda>c. classify (toolbox_get_for (ag_toolbox ex_agent) Normal (tc_name c))) ex_pair) ex_ctx (0, 2) ex_world)
   = fst (run_batch ((ex_env [])\<lparr>te_rank := (\<lambda>_ i. i)\<rparr>) ex_agent 0 ex_pair
       (map (\<lambda>c. classify (toolbox_get_for (ag_toolbox ex_agent) Normal (tc_name c))) ex_pair) ex_ctx (0, 2) ex_world)"
proof -
  have p: "plan_batches [True, True] = [(0, 2)]" by code_simp
  have "(0, 2) \<in> set (plan_batches (map class_is_safe
      (map (\<lambda>c. classify (toolbox_get_for (ag_toolbox ex_agent) Normal (tc_name c))) ex_pair)))"
    by (simp add: ex_pair_def ex_call_sel ex_lookup p)
  from batch_is_schedule_independent [OF ex_safe_contract refl this] show ?thesis by blast
qed

lemma every_call_is_paired_witness:
  "\<exists>w' resp results rows use between res.
      run_thread_turn (ex_env (map CToolCall ex_calls)) ex_agent ex_job 7 0 0 ex_world = (Val (None, 1), w')
    \<and> td_messages (tw_threads w') = rows @ [use] @ between @ [res]
    \<and> stored_row ex_job 7 KToolUse 3 (Assistant (resp_content resp)) use
    \<and> stored_row ex_job 7 KToolResult 3 (User (map UToolResult results)) res
    \<and> map tr_call_id results = map tc_id (tool_calls resp) \<and> count_egress (tool_calls resp) = 1"
proof -
  obtain w' where w': "run_thread_turn (ex_env (map CToolCall ex_calls)) ex_agent ex_job 7 0 0 ex_world = (Val (None, 1), w')"
    using ex_turn by (metis prod.collapse)
  obtain resp results agent rows use between res where *: "td_messages (tw_threads w') = rows @ [use] @ between @ [res]"
    "stored_row ex_job 7 KToolUse agent (Assistant (resp_content resp)) use"
    "stored_row ex_job 7 KToolResult agent (User (map UToolResult results)) res"
    "map tr_call_id results = map tc_id (tool_calls resp)" "1 = 0 + count_egress (tool_calls resp)" "Some 3 = Some agent"
    using every_call_is_paired [OF ex_append_only w'] unfolding ex_job_sel by blast
  then show ?thesis using w' by (intro exI conjI) (assumption | simp)+
qed

lemma reply_is_earned_witness:
  "\<exists>w' resp rows m. run_thread_loop (ex_env [CText ''ok'']) ex_agent ex_job 7 ex_world
      = (Val \<lparr>rp_final_text = ''ok'', rp_send_message_calls = 0\<rparr>, w')
    \<and> tool_calls resp = [] \<and> response_text resp = ''ok'' \<and> td_messages (tw_threads w') = rows @ [m]
    \<and> stored_row ex_job 7 Reasoning 3 (Assistant (resp_content resp)) m"
proof -
  obtain w' where w': "run_thread_loop (ex_env [CText ''ok'']) ex_agent ex_job 7 ex_world
      = (Val \<lparr>rp_final_text = ''ok'', rp_send_message_calls = 0\<rparr>, w')"
    using ex_loop by (metis prod.collapse)
  from reply_is_earned [OF this] show ?thesis using w' by auto
qed

definition ex_todo_db :: thread_db where
  "ex_todo_db = sample_thread_db0\<lparr>td_participation :=
     [\<lparr>ats_id = 30, ats_thread = 7, ats_agent = 3, ats_org = 1, ats_created_at = 100\<rparr>]\<rparr>"

definition ex_todos :: "todo_item list" where
  "ex_todos = [\<lparr>ti_id = ''a'', ti_content = ''ship <it>'', ti_status = TInProgress\<rparr>]"

lemma ex_todo_write:
  "\<exists>out m todos. todo_write (\<lambda>_. Inr [(''a'', ''ship <it>'', TInProgress)]) (\<lambda>_. []) (\<lambda>_. []) hd ex_todo_db 300
     (ex_ctx\<lparr>tx_org_id := 1\<rparr>) JNull ([], Map.empty) = (Inr out, m, todos) \<and> tdo_items out = ex_todos"
  by (simp add: todo_write_def ex_todos_def todo_id_try_from_def is_ascii_alphanumeric_def MAX_TODO_ID_BYTES_def
      todo_content_try_from_def MAX_TODO_CONTENT_BYTES_def ex_ctx_def check_cap_def try_increment_def COUNTER_MAX_ENTRIES_def
      MAX_TODO_WRITES_PER_TURN_def todo_list_try_from_def MAX_TODOS_PER_LIST_def todos_replace_def participation_org_def
      ex_todo_db_def td_is_member_def sample_thread_db0_def Let_def)

lemma todo_list_survives_witness:
  "\<exists>todos. todos_block (ex_env []) 1 30 (ex_world\<lparr>tw_todos := todos\<rparr>)
     = Inr (''<todos>'' @ newline @ ''- [in_progress] (a) ship &lt;it&gt;'' @ newline @ ''</todos>'')"
proof -
  obtain out m todos where *: "todo_write (\<lambda>_. Inr [(''a'', ''ship <it>'', TInProgress)]) (\<lambda>_. []) (\<lambda>_. []) hd ex_todo_db 300
     (ex_ctx\<lparr>tx_org_id := 1\<rparr>) JNull ([], Map.empty) = (Inr out, m, todos)" "tdo_items out = ex_todos"
    using ex_todo_write by blast
  have "todos_block (ex_env []) 1 30 (ex_world\<lparr>tw_todos := todos\<rparr>) = Inr (render_section (tdo_items out))"
    using todo_list_survives [OF *(1), of 30 "ex_world\<lparr>tw_todos := todos\<rparr>" "ex_env []" 1] by (simp add: ex_ctx_def)
  then show ?thesis using *(2)
    by (auto simp: ex_todos_def render_section_def todo_line_def escape_envelope_text_def escape_byte_def)
qed

end
