(* ===== verification/Rust_Numbers.thy ===== *)
theory Rust_Numbers
  imports Rust_Strings "HOL-Library.Word"
begin

text \<open>
  Rust's \<open>str::parse\<close> for the integer types and the padded \<open>Display\<close> of the numbers the code
  prints: the standard library's algorithm (an optional sign, at least one digit, overflow is an
  error) over the bytes of the string.
\<close>

definition digit_val :: "char \<Rightarrow> nat option" where
  "digit_val c = (let n = (of_char c :: int) in if 48 \<le> n \<and> n \<le> 57 then Some (nat (n - 48)) else None)"

fun parse_digits :: "nat \<Rightarrow> nat \<Rightarrow> string \<Rightarrow> nat option" where
  "parse_digits hi acc [] = Some acc"
| "parse_digits hi acc (c # cs) =
     (case digit_val c of
        None \<Rightarrow> None
      | Some d \<Rightarrow> if acc * 10 + d > hi then None else parse_digits hi (acc * 10 + d) cs)"

text \<open>\<open>parse::<uN>()\<close> with \<open>hi\<close> the type's maximum: a leading plus is accepted, a minus is not.\<close>

definition parse_uint :: "nat \<Rightarrow> string \<Rightarrow> nat option" where
  "parse_uint hi s =
     (case s of
        [] \<Rightarrow> None
      | c # cs \<Rightarrow> if c = CHR ''+'' then (if cs = [] then None else parse_digits hi 0 cs)
                 else parse_digits hi 0 (c # cs))"

text \<open>\<open>parse::<i64>()\<close>\<close>

definition parse_i64 :: "string \<Rightarrow> int option" where
  "parse_i64 s =
     (case s of
        [] \<Rightarrow> None
      | c # cs \<Rightarrow>
          if c = CHR ''-'' then (if cs = [] then None
            else map_option (\<lambda>n. - int n) (parse_digits (2 ^ 63) 0 cs))
          else map_option int (parse_uint (nat i64_max) s))"

definition show_int :: "int \<Rightarrow> string" where
  "show_int n = (if n < 0 then CHR ''-'' # show_nat (nat (- n)) else show_nat (nat n))"

text \<open>\<open>{:02}\<close>\<close>

definition pad2 :: "nat \<Rightarrow> string" where
  "pad2 n = (if n < 10 then CHR ''0'' # show_nat n else show_nat n)"

section \<open>Printing and parsing agree\<close>

lemma digit_val_digit_char: "d < 10 \<Longrightarrow> digit_val (digit_char d) = Some d"
proof -
  assume "d < 10"
  then have "d \<in> set [0..<10]" by simp
  moreover have "list_all (\<lambda>d. digit_val (digit_char d) = Some d) [0..<10]" by code_simp
  ultimately show ?thesis by (simp add: list_all_iff)
qed

lemma parse_digits_append:
  "parse_digits hi acc (s @ t) = Option.bind (parse_digits hi acc s) (\<lambda>a. parse_digits hi a t)"
  by (induction s arbitrary: acc) (auto split: option.splits)

lemma parse_digits_show_nat: "n \<le> hi \<Longrightarrow> parse_digits hi 0 (show_nat n) = Some n"
proof (induction n rule: show_nat.induct)
  case (1 n)
  show ?case
  proof (cases "n < 10")
    case True
    with 1(2) show ?thesis by (subst show_nat.simps) (simp add: digit_val_digit_char)
  next
    case False
    have le: "n div 10 \<le> hi" using 1(2) by (meson div_le_dividend le_trans)
    have "parse_digits hi 0 (show_nat (n div 10)) = Some (n div 10)" using 1(1) [OF False le] .
    moreover have "n div 10 * 10 + n mod 10 = n" by simp
    ultimately show ?thesis using False 1(2)
      by (subst show_nat.simps) (simp add: parse_digits_append digit_val_digit_char del: div_mult_mod_eq)
  qed
qed

lemma show_nat_ne: "show_nat n \<noteq> []"
  by (subst show_nat.simps) simp

lemma digit_char_neq: "d < 10 \<Longrightarrow> digit_char d \<noteq> CHR ''+'' \<and> digit_char d \<noteq> CHR ''-''"
proof -
  assume "d < 10"
  then have "d \<in> set [0..<10]" by simp
  moreover have "list_all (\<lambda>d. digit_char d \<noteq> CHR ''+'' \<and> digit_char d \<noteq> CHR ''-'') [0..<10]" by code_simp
  ultimately show ?thesis by (simp add: list_all_iff)
qed

lemma hd_show_nat: "hd (show_nat n) \<noteq> CHR ''+'' \<and> hd (show_nat n) \<noteq> CHR ''-''"
proof (induction n rule: show_nat.induct)
  case (1 n)
  show ?case
  proof (cases "n < 10")
    case True
    then show ?thesis by (subst (1 2) show_nat.simps) (simp add: digit_char_neq)
  next
    case False
    have "hd (show_nat n) = hd (show_nat (n div 10))"
      using False by (subst show_nat.simps) (simp add: show_nat_ne)
    with 1 [OF False] show ?thesis by simp
  qed
qed

lemma parse_uint_show_nat: "n \<le> hi \<Longrightarrow> parse_uint hi (show_nat n) = Some n"
  using parse_digits_show_nat [of n hi] hd_show_nat [of n] show_nat_ne [of n]
  by (cases "show_nat n") (auto simp: parse_uint_def)

lemma parse_uint_le: "parse_uint hi s = Some n \<Longrightarrow> n \<le> hi"
proof -
  have *: "acc \<le> hi \<Longrightarrow> parse_digits hi acc s = Some n \<Longrightarrow> n \<le> hi" for acc s
    by (induction s arbitrary: acc) (auto split: option.splits if_splits simp: not_less)
  assume "parse_uint hi s = Some n"
  then show ?thesis by (auto simp: parse_uint_def not_less intro: * split: list.splits if_splits option.splits)
qed

lemma parse_i64_show_int:
  assumes "- (2 ^ 63) \<le> n" "n \<le> i64_max"
  shows "parse_i64 (show_int n) = Some n"
proof (cases "n < 0")
  case True
  then have "nat (- n) \<le> 2 ^ 63" using assms by simp
  from parse_digits_show_nat [OF this] True show_nat_ne [of "nat (- n)"] show ?thesis
    by (simp add: parse_i64_def show_int_def)
next
  case False
  then have "nat n \<le> nat i64_max" using assms by simp
  from parse_uint_show_nat [OF this] False hd_show_nat [of "nat n"] show_nat_ne [of "nat n"] show ?thesis
    by (cases "show_nat (nat n)") (auto simp: parse_i64_def show_int_def)
qed

lemma parse_uint_pad2: "n < 100 \<Longrightarrow> 99 \<le> hi \<Longrightarrow> parse_uint hi (pad2 n) = Some n"
proof -
  assume n: "n < 100" and hi: "99 \<le> hi"
  have "digit_val (CHR ''0'') = Some 0" by code_simp
  then show ?thesis using n hi parse_uint_show_nat [of n hi] parse_digits_show_nat [of n hi]
    by (simp add: pad2_def parse_uint_def)
qed

lemma length_pad2: "n < 100 \<Longrightarrow> length (pad2 n) = 2"
  by (auto simp: pad2_def show_nat.simps [of n] show_nat.simps [of "n div 10"])

end
