(* ===== verification/Schedule_Spec.thy ===== *)
theory Schedule_Spec
  imports Rust_Numbers Runtime_Types
begin

text \<open>
  When a scheduled task fires (\<open>scheduling/types.rs\<close>, \<open>scheduling/limits.rs\<close>): the name and the
  prompt of a task, the weekday set as one byte, the wall-clock time, and \<open>next_after\<close>, which walks
  the local calendar for the next fire instant. Days are counted from 1970-01-01. The time zone
  database (\<open>chrono_tz\<close>) is third-party: a \<open>zone\<close> is the two functions of it the code calls, and
  \<open>zone_laws\<close> states what they promise.
\<close>

section \<open>Limits, name and prompt\<close>

definition SCHEDULED_TASK_NAME_MAX_LEN :: nat where "SCHEDULED_TASK_NAME_MAX_LEN = 200"
definition MAX_SCHEDULED_TASKS_PER_AGENT :: nat where "MAX_SCHEDULED_TASKS_PER_AGENT = 50"
definition MAX_ONESHOT_HORIZON_DAYS :: int where "MAX_ONESHOT_HORIZON_DAYS = 365"
definition SCHEDULED_TASK_BATCH_LIMIT :: nat where "SCHEDULED_TASK_BATCH_LIMIT = 20"
definition PROMPT_MAX_BYTES :: nat where "PROMPT_MAX_BYTES = 64 * 1024"

definition scheduled_task_name_try_from :: "string \<Rightarrow> (string, parse_error) result" where
  "scheduled_task_name_try_from raw =
     (if raw = [] then Inl (Empty ''scheduled_task_name'')
      else if length raw > SCHEDULED_TASK_NAME_MAX_LEN
        then Inl (TooLong ''scheduled_task_name'' SCHEDULED_TASK_NAME_MAX_LEN (length raw))
      else Inr raw)"

definition scheduled_prompt_try_from :: "string \<Rightarrow> (string, parse_error) result" where
  "scheduled_prompt_try_from raw =
     (if trim raw = [] then Inl (Empty ''scheduled_prompt'')
      else if length raw > PROMPT_MAX_BYTES
        then Inl (TooLong ''scheduled_prompt'' PROMPT_MAX_BYTES (length raw))
      else Inr raw)"

section \<open>Weekdays\<close>

datatype weekday = Mon | Tue | Wed | Thu | Fri | Sat | Sun

definition weekday_all :: "weekday list" where
  "weekday_all = [Mon, Tue, Wed, Thu, Fri, Sat, Sun]"

fun weekday_as_str :: "weekday \<Rightarrow> string" where
  "weekday_as_str Mon = ''mon''"
| "weekday_as_str Tue = ''tue''"
| "weekday_as_str Wed = ''wed''"
| "weekday_as_str Thu = ''thu''"
| "weekday_as_str Fri = ''fri''"
| "weekday_as_str Sat = ''sat''"
| "weekday_as_str Sun = ''sun''"

interpretation weekday: str_enum weekday_all weekday_as_str
proof unfold_locales
  show "v \<in> set weekday_all" for v by (cases v) (simp_all add: weekday_all_def)
  show "weekday_as_str v = weekday_as_str w \<Longrightarrow> v = w" for v w by (cases v; cases w) simp_all
qed

fun weekday_bit :: "weekday \<Rightarrow> nat" where
  "weekday_bit Mon = 0"
| "weekday_bit Tue = 1"
| "weekday_bit Wed = 2"
| "weekday_bit Thu = 3"
| "weekday_bit Fri = 4"
| "weekday_bit Sat = 5"
| "weekday_bit Sun = 6"

text \<open>The weekday of a calendar date; day 0 was a Thursday.\<close>

definition weekday_of :: "int \<Rightarrow> weekday" where
  "weekday_of d = weekday_all ! nat ((d + 3) mod 7)"

type_synonym weekdays = "8 word"

definition WEEKDAYS_ALL :: weekdays where "WEEKDAYS_ALL = 0x7F"
definition WORKDAYS :: weekdays where "WORKDAYS = 0x1F"
definition WEEKENDS :: weekdays where "WEEKENDS = 0x60"

definition weekday_mask :: "weekday \<Rightarrow> weekdays" where
  "weekday_mask w = push_bit (weekday_bit w) 1"

definition weekdays_try_from_iter :: "weekday list \<Rightarrow> (weekdays, parse_error) result" where
  "weekdays_try_from_iter ws =
     (let bits = fold (\<lambda>w b. or b (weekday_mask w)) ws 0
      in if bits = 0 then Inl (Empty ''weekdays'') else Inr bits)"

definition weekdays_is_empty :: "weekdays \<Rightarrow> bool" where "weekdays_is_empty ws \<longleftrightarrow> ws = 0"

definition weekdays_contains :: "weekdays \<Rightarrow> weekday \<Rightarrow> bool" where
  "weekdays_contains ws w \<longleftrightarrow> and ws (weekday_mask w) \<noteq> 0"

definition weekdays_iter :: "weekdays \<Rightarrow> weekday list" where
  "weekdays_iter ws = filter (weekdays_contains ws) weekday_all"

section \<open>Time of day\<close>

record time_of_day =
  tod_hour :: nat
  tod_minute :: nat

definition time_of_day_try_new :: "nat \<Rightarrow> nat \<Rightarrow> (time_of_day, parse_error) result" where
  "time_of_day_try_new h m =
     (if h > 23 then Inl (OutOfRange ''time_of_day.hour'' ''0..=23'')
      else if m > 59 then Inl (OutOfRange ''time_of_day.minute'' ''0..=59'')
      else Inr \<lparr>tod_hour = h, tod_minute = m\<rparr>)"

definition time_of_day_display :: "time_of_day \<Rightarrow> string" where
  "time_of_day_display t = pad2 (tod_hour t) @ '':'' @ pad2 (tod_minute t)"

text \<open>\<open>None\<close> is the deserialiser's error.\<close>

definition time_of_day_parse :: "string \<Rightarrow> time_of_day option" where
  "time_of_day_parse raw =
     (if length raw \<noteq> 5 \<or> raw ! 2 \<noteq> CHR '':'' then None
      else (case parse_uint u8_max (take 2 raw) of
              None \<Rightarrow> None
            | Some h \<Rightarrow>
                (case parse_uint u8_max (drop 3 raw) of
                   None \<Rightarrow> None
                 | Some m \<Rightarrow> (case time_of_day_try_new h m of Inl _ \<Rightarrow> None | Inr t \<Rightarrow> Some t))))"

section \<open>Time zones\<close>

definition USECS_PER_DAY :: int where "USECS_PER_DAY = 86400000000"

text \<open>\<open>chrono::offset::MappedLocalTime\<close>\<close>

datatype mapped_local_time = LNone | LSingle timestamp | LAmbiguous timestamp timestamp

text \<open>
  \<open>zn_offset\<close> is the offset from UTC in force at an instant, \<open>zn_local\<close> the instants that show a
  wall time (\<open>with_ymd_and_hms\<close>); a wall time is its microseconds since 1970-01-01 00:00 local.
\<close>

record zone =
  zn_offset :: "timestamp \<Rightarrow> int"
  zn_local :: "int \<Rightarrow> mapped_local_time"

definition local_of :: "zone \<Rightarrow> timestamp \<Rightarrow> int" where
  "local_of z t = t + zn_offset z t"

definition local_day :: "zone \<Rightarrow> timestamp \<Rightarrow> int" where
  "local_day z t = local_of z t div USECS_PER_DAY"

definition wall :: "int \<Rightarrow> time_of_day \<Rightarrow> int" where
  "wall d t = d * USECS_PER_DAY + int (tod_hour t) * 3600000000 + int (tod_minute t) * 60000000"

text \<open>The instant the code takes: none in a gap, the earlier of two.\<close>

definition first_at :: "zone \<Rightarrow> int \<Rightarrow> timestamp option" where
  "first_at z w = (case zn_local z w of
      LNone \<Rightarrow> None
    | LSingle t \<Rightarrow> Some t
    | LAmbiguous earliest _ \<Rightarrow> Some earliest)"

section \<open>The schedule\<close>

text \<open>The zone of a recurring schedule is stored by its name.\<close>

datatype schedule_spec =
    Once timestamp
  | Recurring weekdays time_of_day string

function next_recurring_from ::
  "timestamp \<Rightarrow> weekdays \<Rightarrow> time_of_day \<Rightarrow> zone \<Rightarrow> int \<Rightarrow> int \<Rightarrow> timestamp option" where
  "next_recurring_from now ws t z today offset =
     (if offset > 8 then None
      else if \<not> weekdays_contains ws (weekday_of (today + offset))
        then next_recurring_from now ws t z today (offset + 1)
      else (case first_at z (wall (today + offset) t) of
              None \<Rightarrow> next_recurring_from now ws t z today (offset + 1)
            | Some u \<Rightarrow> if u > now then Some u else next_recurring_from now ws t z today (offset + 1)))"
  by pat_completeness auto
termination by (relation "measure (\<lambda>(now, ws, t, z, today, offset). nat (9 - offset))") auto

declare next_recurring_from.simps [simp del]

definition next_recurring :: "timestamp \<Rightarrow> weekdays \<Rightarrow> time_of_day \<Rightarrow> zone \<Rightarrow> timestamp option" where
  "next_recurring now ws t z = next_recurring_from now ws t z (local_day z now) 0"

definition next_after :: "(string \<Rightarrow> zone) \<Rightarrow> schedule_spec \<Rightarrow> timestamp \<Rightarrow> timestamp option" where
  "next_after tz spec now =
     (case spec of
        Once run_at \<Rightarrow> if run_at > now then Some run_at else None
      | Recurring ws t name \<Rightarrow> if weekdays_is_empty ws then None else next_recurring now ws t (tz name))"

section \<open>The byte of weekdays\<close>

lemma weekday_bit_less: "weekday_bit w < 7"
  by (cases w) simp_all

lemma weekday_bit_inj: "weekday_bit v = weekday_bit w \<Longrightarrow> v = w"
  by (cases v; cases w) simp_all

lemma weekday_bit_surj: "n < 7 \<Longrightarrow> \<exists>w. weekday_bit w = n"
proof -
  assume "n < 7"
  then have "n \<in> set [0..<7]" by simp
  moreover have "list_all (\<lambda>n. weekday_bit (weekday_all ! n) = n) [0..<7]" by code_simp
  ultimately show ?thesis by (auto simp: list_all_iff)
qed

lemma bit_weekday_mask: "bit (weekday_mask w) n \<longleftrightarrow> n = weekday_bit w"
  using weekday_bit_less [of w] by (auto simp: weekday_mask_def bit_simps)

lemma contains_bit: "weekdays_contains ws w \<longleftrightarrow> bit ws (weekday_bit w)"
proof -
  have "weekdays_contains ws w \<longleftrightarrow> (\<exists>n. bit (and ws (weekday_mask w)) n)"
    unfolding weekdays_contains_def by (metis bit_0_eq bit_eqI bot_apply bot_bool_def)
  then show ?thesis by (simp add: bit_and_iff bit_weekday_mask)
qed

lemma bit_fold_weekdays:
  "bit (fold (\<lambda>w b. or b (weekday_mask w)) ws b) n
     \<longleftrightarrow> bit b n \<or> (\<exists>w \<in> set ws. weekday_bit w = n)"
  by (induction ws arbitrary: b) (auto simp: bit_or_iff bit_weekday_mask)

lemma try_from_iter_contains:
  "weekdays_try_from_iter ws = Inr b \<Longrightarrow> weekdays_contains b w \<longleftrightarrow> w \<in> set ws"
  by (auto simp: weekdays_try_from_iter_def Let_def contains_bit bit_fold_weekdays
      dest: weekday_bit_inj split: if_splits)

lemma try_from_iter_empty: "weekdays_try_from_iter ws = Inl e \<longleftrightarrow> ws = [] \<and> e = Empty ''weekdays''"
proof -
  have "fold (\<lambda>w b. or b (weekday_mask w)) ws 0 = 0 \<longleftrightarrow> ws = []" (is "?l = 0 \<longleftrightarrow> _")
  proof
    assume "?l = 0"
    then have "\<not> bit ?l n" for n by simp
    then show "ws = []" by (cases ws) (auto simp: bit_fold_weekdays simp del: fold.simps)
  qed simp
  then show ?thesis by (auto simp: weekdays_try_from_iter_def Let_def)
qed

lemma set_weekdays_iter: "set (weekdays_iter ws) = {w. weekdays_contains ws w}"
  using weekday.complete by (auto simp: weekdays_iter_def)

lemma weekdays_iter_roundtrip:
  assumes "ws \<noteq> 0" "\<not> bit ws 7"
  shows "weekdays_try_from_iter (weekdays_iter ws) = Inr ws"
proof -
  have eq: "fold (\<lambda>w b. or b (weekday_mask w)) (weekdays_iter ws) 0 = ws"
  proof (rule bit_eqI)
    fix n
    assume "possible_bit TYPE(8 word) n"
    then have "n < 8" by (simp add: possible_bit_word)
    then consider "n < 7" | "n = 7" by linarith
    then show "bit (fold (\<lambda>w b. or b (weekday_mask w)) (weekdays_iter ws) 0) n = bit ws n"
    proof cases
      case 1
      then obtain w where "weekday_bit w = n" using weekday_bit_surj by blast
      then show ?thesis by (auto simp: bit_fold_weekdays set_weekdays_iter contains_bit dest: weekday_bit_inj)
    next
      case 2
      with assms weekday_bit_less show ?thesis
        by (auto simp: bit_fold_weekdays) (metis less_irrefl)
    qed
  qed
  show ?thesis using assms(1) by (simp add: weekdays_try_from_iter_def Let_def eq)
qed

lemma weekday_of_period: "weekday_of (d + 7) = weekday_of d"
proof -
  have "(d + 7 + 3) mod 7 = (d + 3) mod 7" by (metis add.assoc add.commute mod_add_self2)
  then show ?thesis by (simp add: weekday_of_def)
qed

text \<open>Any seven days in a row show every weekday.\<close>

lemma weekday_in_week: "\<exists>k. 0 \<le> k \<and> k < 7 \<and> weekday_of (d + k) = w"
proof -
  define i where "i = weekday_bit w"
  have i: "i < 7" "weekday_all ! i = w"
    unfolding i_def by (cases w; simp add: weekday_all_def)+
  define k where "k = (int i - (d + 3)) mod 7"
  have "(d + 3 + k) mod 7 = (d + 3 + (int i - (d + 3))) mod 7" unfolding k_def by (rule mod_add_right_eq)
  then have "(d + k + 3) mod 7 = int i mod 7" by (simp add: ac_simps)
  then have "weekday_of (d + k) = w" using i by (simp add: weekday_of_def)
  then show ?thesis unfolding k_def by (intro exI conjI) simp_all
qed

section \<open>What the time zone database promises\<close>

text \<open>
  \<open>zone_laws\<close>: \<open>zn_local\<close> finds exactly the instants that show a wall time (the documented meaning of
  \<open>MappedLocalTime\<close>), the first occurrences of wall times are in the order of the wall times, and a
  clock is never put back by a day or more.
\<close>

definition zone_maps :: "zone \<Rightarrow> int \<Rightarrow> bool" where
  "zone_maps z w \<longleftrightarrow> (case zn_local z w of
      LNone \<Rightarrow> \<forall>t. local_of z t \<noteq> w
    | LSingle t \<Rightarrow> \<forall>s. local_of z s = w \<longleftrightarrow> s = t
    | LAmbiguous a b \<Rightarrow> a < b \<and> (\<forall>s. local_of z s = w \<longleftrightarrow> s = a \<or> s = b))"

definition zone_laws :: "zone \<Rightarrow> bool" where
  "zone_laws z \<longleftrightarrow> (\<forall>w. zone_maps z w)
     \<and> (\<forall>v w s t. v < w \<longrightarrow> first_at z v = Some s \<longrightarrow> first_at z w = Some t \<longrightarrow> s < t)
     \<and> (\<forall>s t. s \<le> t \<longrightarrow> local_of z s < local_of z t + USECS_PER_DAY)"

lemma zone_maps_first:
  assumes "zone_laws z"
  shows "first_at z w = Some t \<Longrightarrow> local_of z t = w"
    and "local_of z s = w \<Longrightarrow> \<exists>t. first_at z w = Some t \<and> t \<le> s"
proof -
  have m: "zone_maps z w" using assms unfolding zone_laws_def by blast
  then show "first_at z w = Some t \<Longrightarrow> local_of z t = w"
    by (cases "zn_local z w") (simp_all add: zone_maps_def first_at_def)
  from m show "local_of z s = w \<Longrightarrow> \<exists>t. first_at z w = Some t \<and> t \<le> s"
    by (cases "zn_local z w") (auto simp: zone_maps_def first_at_def)
qed

lemma first_at_mono:
  "zone_laws z \<Longrightarrow> v < w \<Longrightarrow> first_at z v = Some s \<Longrightarrow> first_at z w = Some t \<Longrightarrow> s < t"
  unfolding zone_laws_def by blast

lemma never_back_a_day: "zone_laws z \<Longrightarrow> s \<le> t \<Longrightarrow> local_of z s < local_of z t + USECS_PER_DAY"
  unfolding zone_laws_def by blast

text \<open>A zone with one change of offset, at the instant \<open>T\<close>.\<close>

definition shift_zone :: "int \<Rightarrow> int \<Rightarrow> timestamp \<Rightarrow> zone" where
  "shift_zone o1 o2 T =
     \<lparr>zn_offset = (\<lambda>t. if t < T then o1 else o2),
      zn_local = (\<lambda>w. if w - o1 < T then (if T \<le> w - o2 then LAmbiguous (w - o1) (w - o2) else LSingle (w - o1))
                     else if T \<le> w - o2 then LSingle (w - o2) else LNone)\<rparr>"

lemma shift_zone_laws:
  assumes "\<bar>o1 - o2\<bar> < USECS_PER_DAY"
  shows "zone_laws (shift_zone o1 o2 T)"
  unfolding zone_laws_def
proof (intro conjI allI impI)
  show "zone_maps (shift_zone o1 o2 T) w" for w
    by (auto simp: zone_maps_def shift_zone_def local_of_def)
  show "s < t" if "v < w" "first_at (shift_zone o1 o2 T) v = Some s" "first_at (shift_zone o1 o2 T) w = Some t"
    for v w s t
    using that by (auto simp: shift_zone_def first_at_def split: if_splits)
  show "local_of (shift_zone o1 o2 T) s < local_of (shift_zone o1 o2 T) t + USECS_PER_DAY"
    if "s \<le> t" for s t
    using that assms by (auto simp: shift_zone_def local_of_def USECS_PER_DAY_def)
qed

section \<open>The next fire is the least one in the future\<close>

text \<open>The fires of a recurring schedule: on each chosen weekday, the first instant showing the time.\<close>

definition fires_on :: "weekdays \<Rightarrow> time_of_day \<Rightarrow> zone \<Rightarrow> int \<Rightarrow> timestamp \<Rightarrow> bool" where
  "fires_on ws t z d u \<longleftrightarrow> weekdays_contains ws (weekday_of d) \<and> first_at z (wall d t) = Some u"

definition tod_ok :: "time_of_day \<Rightarrow> bool" where
  "tod_ok t \<longleftrightarrow> tod_hour t \<le> 23 \<and> tod_minute t \<le> 59"

lemma time_of_day_try_new_ok: "time_of_day_try_new h m = Inr t \<Longrightarrow> tod_ok t"
  by (auto simp: time_of_day_try_new_def tod_ok_def split: if_splits)

lemma wall_mono: "d < e \<Longrightarrow> tod_ok t \<Longrightarrow> wall d t < wall e t"
  by (simp add: wall_def USECS_PER_DAY_def)

lemma wall_of_day: "tod_ok t \<Longrightarrow> wall d t div USECS_PER_DAY = d"
proof -
  assume "tod_ok t"
  define x where "x = int (tod_hour t) * 3600000000 + int (tod_minute t) * 60000000"
  have x: "0 \<le> x" "x < USECS_PER_DAY"
    using \<open>tod_ok t\<close> by (simp_all add: x_def tod_ok_def USECS_PER_DAY_def)
  have "wall d t = x + d * USECS_PER_DAY" by (simp add: wall_def x_def)
  with x show ?thesis by (simp add: div_pos_pos_trivial)
qed

lemma next_recurring_from_Some:
  assumes "next_recurring_from now ws t z today k = Some u"
  shows "\<exists>j. k \<le> j \<and> j \<le> 8 \<and> fires_on ws t z (today + j) u \<and> now < u
     \<and> (\<forall>i v. k \<le> i \<and> i < j \<and> fires_on ws t z (today + i) v \<longrightarrow> v \<le> now)"
  using assms
proof (induction now ws t z today k rule: next_recurring_from.induct)
  case (1 now ws t z today k)
  let ?here = "next_recurring_from now ws t z today k"
  have later: ?case if "next_recurring_from now ws t z today (k + 1) = Some u"
    and "k \<le> 8" and "\<And>v. fires_on ws t z (today + k) v \<Longrightarrow> v \<le> now"
    and "\<exists>j. k + 1 \<le> j \<and> j \<le> 8 \<and> fires_on ws t z (today + j) u \<and> now < u
           \<and> (\<forall>i v. k + 1 \<le> i \<and> i < j \<and> fires_on ws t z (today + i) v \<longrightarrow> v \<le> now)"
  proof -
    from that(4) obtain j where j: "k + 1 \<le> j" "j \<le> 8" "fires_on ws t z (today + j) u" "now < u"
      and before: "\<forall>i v. k + 1 \<le> i \<and> i < j \<and> fires_on ws t z (today + i) v \<longrightarrow> v \<le> now" by blast
    have "\<forall>i v. k \<le> i \<and> i < j \<and> fires_on ws t z (today + i) v \<longrightarrow> v \<le> now"
      using before that(3) by (metis add.commute dual_order.order_iff_strict zless_imp_add1_zle)
    with j show ?thesis by (intro exI [of _ j]) simp
  qed
  have k: "k \<le> 8" using "1.prems" by (subst (asm) next_recurring_from.simps) (simp split: if_splits)
  show ?case
  proof (cases "weekdays_contains ws (weekday_of (today + k))")
    case False
    have "next_recurring_from now ws t z today (k + 1) = Some u"
      using "1.prems" False k by (subst (asm) next_recurring_from.simps) simp
    from later [OF this k] "1.IH"(1) [OF _ _ this] False k show ?thesis by (simp add: fires_on_def)
  next
    case True
    show ?thesis
    proof (cases "first_at z (wall (today + k) t)")
      case None
      have "next_recurring_from now ws t z today (k + 1) = Some u"
        using "1.prems" True None k by (subst (asm) next_recurring_from.simps) simp
      from later [OF this k] "1.IH"(2) [OF _ _ None this] True None k show ?thesis by (simp add: fires_on_def)
    next
      case (Some v)
      show ?thesis
      proof (cases "v > now")
        case hit: True
        then have "u = v" using "1.prems" True Some k by (subst (asm) next_recurring_from.simps) simp
        with hit True Some k show ?thesis by (intro exI [of _ k]) (auto simp: fires_on_def)
      next
        case False
        have "next_recurring_from now ws t z today (k + 1) = Some u"
          using "1.prems" True Some False k by (subst (asm) next_recurring_from.simps) simp
        from later [OF this k] "1.IH"(3) [OF _ _ Some False this] True Some False k show ?thesis
          by (simp add: fires_on_def)
      qed
    qed
  qed
qed

lemma next_recurring_from_None:
  "next_recurring_from now ws t z today k = None \<Longrightarrow> k \<le> i \<Longrightarrow> i \<le> 8
   \<Longrightarrow> fires_on ws t z (today + i) v \<Longrightarrow> v \<le> now"
proof (induction now ws t z today k rule: next_recurring_from.induct)
  case (1 now ws t z today k)
  show ?case
  proof (cases "i = k")
    case True
    with "1.prems" show ?thesis
      by (subst (asm) next_recurring_from.simps) (auto simp: fires_on_def split: if_splits)
  next
    case False
    with "1.prems" have i: "k + 1 \<le> i" and k: "\<not> k > 8" by simp_all
    from "1.prems"(1) k have none: "next_recurring_from now ws t z today (k + 1) = None"
      by (subst (asm) next_recurring_from.simps) (auto split: if_splits option.splits)
    show ?thesis
    proof (cases "weekdays_contains ws (weekday_of (today + k))")
      case False
      then show ?thesis by (rule "1.IH"(1) [OF k _ none i "1.prems"(3,4)])
    next
      case True
      show ?thesis
      proof (cases "first_at z (wall (today + k) t)")
        case None
        from "1.IH"(2) [OF k _ None none i "1.prems"(3,4)] True show ?thesis by simp
      next
        case (Some u)
        with "1.prems"(1) True k have "\<not> now < u" by (subst (asm) next_recurring_from.simps) (simp split: if_splits)
        from "1.IH"(3) [OF k _ Some this none i "1.prems"(3,4)] True show ?thesis by simp
      qed
    qed
  qed
qed

text \<open>A fire on an earlier local day is over; fires on later days come later.\<close>

lemma fire_before_today:
  assumes "zone_laws z" "tod_ok t" "fires_on ws t z d u" "d < local_day z now"
  shows "u < now"
proof -
  have "wall d t < local_of z now"
    using wall_of_day [OF assms(2), of d] assms(4) unfolding local_day_def
    by (metis linorder_not_less zdiv_mono1 USECS_PER_DAY_def zero_less_numeral)
  moreover obtain s where "first_at z (local_of z now) = Some s" "s \<le> now"
    using zone_maps_first(2) [OF assms(1) refl] by blast
  ultimately show ?thesis using first_at_mono [OF assms(1)] assms(3) unfolding fires_on_def by fastforce
qed

lemma fire_on_later_day:
  "zone_laws z \<Longrightarrow> tod_ok t \<Longrightarrow> d < e \<Longrightarrow> fires_on ws t z d u \<Longrightarrow> fires_on ws t z e v \<Longrightarrow> u < v"
  unfolding fires_on_def using wall_mono first_at_mono by blast

lemma next_recurring_least:
  assumes "zone_laws z" "tod_ok t" "next_recurring now ws t z = Some u"
  shows "now < u \<and> (\<exists>d. fires_on ws t z d u) \<and> (\<forall>d v. fires_on ws t z d v \<and> now < v \<longrightarrow> u \<le> v)"
proof -
  let ?today = "local_day z now"
  from next_recurring_from_Some [OF assms(3) [unfolded next_recurring_def]]
  obtain j where j: "0 \<le> j" "fires_on ws t z (?today + j) u" "now < u"
    and before: "\<forall>i v. 0 \<le> i \<and> i < j \<and> fires_on ws t z (?today + i) v \<longrightarrow> v \<le> now" by blast
  have "u \<le> v" if v: "fires_on ws t z d v" "now < v" for d v
  proof -
    consider "d < ?today" | "?today \<le> d" "d < ?today + j" | "d = ?today + j" | "?today + j < d" by linarith
    then show ?thesis
    proof cases
      case 1
      from fire_before_today [OF assms(1,2) v(1) this] v(2) show ?thesis by simp
    next
      case 2
      with before [rule_format, of "d - ?today" v] v show ?thesis by simp
    next
      case 3
      with j v show ?thesis by (simp add: fires_on_def)
    next
      case 4
      from fire_on_later_day [OF assms(1,2) this j(2) v(1)] show ?thesis by simp
    qed
  qed
  with j show ?thesis by blast
qed

lemma fire_after_two_days:
  assumes laws: "zone_laws z" and d: "local_day z now + 2 \<le> d" and u: "first_at z (wall d t) = Some u"
  shows "now < u"
proof (rule ccontr)
  assume "\<not> now < u"
  then have "local_of z u < local_of z now + USECS_PER_DAY" by (intro never_back_a_day [OF laws]) simp
  moreover have "local_of z u = wall d t" using zone_maps_first(1) [OF laws u] .
  moreover have "(local_day z now + 2) * USECS_PER_DAY \<le> wall d t"
  proof -
    have "(local_day z now + 2) * USECS_PER_DAY \<le> d * USECS_PER_DAY" using d by (simp add: USECS_PER_DAY_def)
    also have "\<dots> \<le> wall d t" by (simp add: wall_def)
    finally show ?thesis .
  qed
  moreover have "local_of z now < (local_day z now + 1) * USECS_PER_DAY"
    unfolding local_day_def USECS_PER_DAY_def by presburger
  ultimately show False by (simp add: USECS_PER_DAY_def)
qed

text \<open>When the time exists on every chosen day there is always a next fire.\<close>

lemma next_recurring_live:
  assumes "zone_laws z" "tod_ok t" "weekdays_contains ws w"
    and exists: "\<And>d. weekday_of d = w \<Longrightarrow> first_at z (wall d t) \<noteq> None"
  shows "next_recurring now ws t z \<noteq> None"
proof
  assume none: "next_recurring now ws t z = None"
  let ?today = "local_day z now"
  obtain k where k: "0 \<le> k" "k < 7" "weekday_of (?today + 2 + k) = w" using weekday_in_week by blast
  then obtain u where u: "first_at z (wall (?today + 2 + k) t) = Some u" using exists by blast
  have "fires_on ws t z (?today + (2 + k)) u" using u k assms(3) by (simp add: fires_on_def add.assoc)
  from next_recurring_from_None [OF none [unfolded next_recurring_def] _ _ this] k have "u \<le> now" by simp
  moreover have "now < u" by (rule fire_after_two_days [OF assms(1) _ u]) (use k in simp)
  ultimately show False by simp
qed

text \<open>The wire form of a time of day reads back.\<close>

lemma time_of_day_roundtrip:
  assumes "tod_ok t"
  shows "time_of_day_parse (time_of_day_display t) = Some t"
proof -
  have h: "tod_hour t < 100" "tod_minute t < 100" using assms by (simp_all add: tod_ok_def)
  have "length (time_of_day_display t) = 5" "time_of_day_display t ! 2 = CHR '':''"
    "take 2 (time_of_day_display t) = pad2 (tod_hour t)" "drop 3 (time_of_day_display t) = pad2 (tod_minute t)"
    using h by (simp_all add: time_of_day_display_def length_pad2 nth_append)
  then show ?thesis using h assms
    by (simp add: time_of_day_parse_def parse_uint_pad2 u8_max_def time_of_day_try_new_def tod_ok_def)
qed

lemma time_of_day_parse_ok: "time_of_day_parse raw = Some t \<Longrightarrow> tod_ok t"
  by (auto simp: time_of_day_parse_def dest: time_of_day_try_new_ok split: option.splits sum.splits if_splits)

lemma weekday_of_weeks: "weekday_of (d + 7 * k) = weekday_of d"
proof -
  have "(d + 7 * k + 3) mod 7 = (d + 3) mod 7" by presburger
  then show ?thesis by (simp add: weekday_of_def)
qed

text \<open>Days of one weekday are weeks apart.\<close>

lemma weekday_of_inj: "weekday_of (d + j) = weekday_of d \<Longrightarrow> j mod 7 = 0"
proof -
  have ix: "0 \<le> (e + 3) mod 7 \<and> (e + 3) mod 7 < (7 :: int)" for e by simp
  have d: "distinct weekday_all" "length weekday_all = 7" by (simp_all add: weekday_all_def)
  assume "weekday_of (d + j) = weekday_of d"
  then have "nat ((d + j + 3) mod 7) = nat ((d + 3) mod 7)"
    unfolding weekday_of_def using ix [of "d + j"] ix [of d] d by (simp add: nth_eq_iff_index_eq)
  then have "(d + 3 + j) mod 7 = (d + 3) mod 7" using ix [of "d + j"] ix [of d] by (simp add: ac_simps)
  then show ?thesis by presburger
qed

end
