(* ===== verification/Colleagues.thy ===== *)
theory Colleagues
  imports Participants
begin

text \<open>
  The colleague directory (\<open>colleagues/pg_store.rs\<close>) and the blocks an agent's prompt shows of it
  (\<open>colleagues/render.rs\<close>). A directory row holds no name: reads join the agent's or the user's
  current one. The locale-dependent \<open>ORDER BY lower(name)\<close> of the database is the argument
  \<open>collate\<close>, the text of a UUID the argument \<open>us\<close>.
\<close>

section \<open>The store\<close>

definition COLLEAGUE_ROSTER_FETCH_MAX :: nat where "COLLEAGUE_ROSTER_FETCH_MAX = 1024"
definition MAX_ROSTER_INLINE :: nat where "MAX_ROSTER_INLINE = 256"

record directory_row =
  dy_id :: uuid
  dy_org :: uuid
  dy_kind :: colleague_kind
  dy_user :: "uuid option"
  dy_agent :: "uuid option"

text \<open>\<open>dr_agents\<close> is \<open>agents.name\<close>, \<open>dr_users\<close> the display name and the address of a user.\<close>

record directory =
  dr_rows :: "directory_row list"
  dr_agents :: "uuid \<rightharpoonup> string"
  dr_users :: "uuid \<rightharpoonup> string option \<times> string"

record colleague_ref =
  rf_id :: uuid
  rf_kind :: colleague_kind
  rf_name :: string

text \<open>\<open>COALESCE(a.name, u.display_name, split_part(u.email, '@', 1))\<close>; \<open>None\<close> is \<open>NULL\<close>.\<close>

definition display_name_expr :: "directory \<Rightarrow> directory_row \<Rightarrow> string option" where
  "display_name_expr dir r =
     (case Option.bind (dy_agent r) (dr_agents dir) of
        Some n \<Rightarrow> Some n
      | None \<Rightarrow> (case Option.bind (dy_user r) (dr_users dir) of
          None \<Rightarrow> None
        | Some (Some n, _) \<Rightarrow> Some n
        | Some (None, email) \<Rightarrow> Some (takeWhile (\<lambda>c. c \<noteq> CHR ''@'') email)))"

definition colleague_ref_of :: "directory \<Rightarrow> directory_row \<Rightarrow> (colleague_ref, colleague_error) result" where
  "colleague_ref_of dir r =
     (case display_name_expr dir r of
        None \<Rightarrow> Inl (ColleagueDb ColumnDecode)
      | Some n \<Rightarrow>
          (case colleague_name_try_from n of
             Inl e \<Rightarrow> Inl (ColleagueParse e)
           | Inr name \<Rightarrow> Inr \<lparr>rf_id = dy_id r, rf_kind = dy_kind r, rf_name = name\<rparr>))"

text \<open>\<open>collect::<Result<Vec<_>, _>>()\<close>: the first error, or every value in order.\<close>

fun collect_results :: "('a, 'e) result list \<Rightarrow> ('a list, 'e) result" where
  "collect_results [] = Inr []"
| "collect_results (Inl e # rs) = Inl e"
| "collect_results (Inr v # rs) = (case collect_results rs of Inl e \<Rightarrow> Inl e | Inr vs \<Rightarrow> Inr (v # vs))"

lemma collect_results_map_Inr [simp]: "collect_results (map Inr vs) = Inr vs"
  by (induction vs) simp_all

lemma collect_results_Inr: "collect_results rs = Inr vs \<longleftrightarrow> rs = map Inr vs"
proof
  show "collect_results rs = Inr vs \<Longrightarrow> rs = map Inr vs"
    by (induction rs arbitrary: vs rule: collect_results.induct) (auto split: sum.splits)
qed simp

definition list_colleagues ::
  "(string option \<Rightarrow> 'k :: linorder) \<Rightarrow> directory \<Rightarrow> uuid \<Rightarrow> (colleague_ref list, colleague_error) result" where
  "list_colleagues collate dir org =
     (let rows = take COLLEAGUE_ROSTER_FETCH_MAX
         (sort_key (\<lambda>r. collate (display_name_expr dir r)) (filter (\<lambda>r. dy_org r = org) (dr_rows dir))) in
      if list_ex (\<lambda>r. display_name_expr dir r = None) rows then Inl (ColleagueDb ColumnDecode)
      else collect_results (map (colleague_ref_of dir) rows))"

definition read_colleague :: "directory \<Rightarrow> uuid \<Rightarrow> (colleague, colleague_error) result" where
  "read_colleague dir i =
     (case find (\<lambda>r. dy_id r = i) (dr_rows dir) of
        None \<Rightarrow> Inl (ColleagueNotFound i)
      | Some r \<Rightarrow>
          (case colleague_ref_of dir r of
             Inl e \<Rightarrow> Inl e
           | Inr ref \<Rightarrow> colleague_try_new (dy_id r) (dy_org r) (dy_kind r) (rf_name ref) (dy_user r) (dy_agent r)))"

definition resolve_agent :: "directory \<Rightarrow> uuid \<Rightarrow> uuid \<Rightarrow> (uuid, colleague_error) result" where
  "resolve_agent dir org agent =
     (case find (\<lambda>r. dy_org r = org \<and> dy_agent r = Some agent) (dr_rows dir) of
        None \<Rightarrow> Inl (SatelliteUnmapped CkAgent) | Some r \<Rightarrow> Inr (dy_id r))"

definition resolve_user :: "directory \<Rightarrow> uuid \<Rightarrow> uuid \<Rightarrow> (uuid, colleague_error) result" where
  "resolve_user dir org user =
     (case find (\<lambda>r. dy_org r = org \<and> dy_user r = Some user) (dr_rows dir) of
        None \<Rightarrow> Inl (SatelliteUnmapped CkHuman) | Some r \<Rightarrow> Inr (dy_id r))"

text \<open>The constraints of the table (migration 58).\<close>

definition directory_ok :: "directory \<Rightarrow> bool" where
  "directory_ok dir \<longleftrightarrow> distinct (map dy_id (dr_rows dir))
     \<and> (\<forall>r \<in> set (dr_rows dir). case dy_kind r of
          CkHuman \<Rightarrow> dy_user r \<noteq> None \<and> dy_agent r = None | CkAgent \<Rightarrow> dy_agent r \<noteq> None \<and> dy_user r = None)
     \<and> (\<forall>r \<in> set (dr_rows dir). \<forall>s \<in> set (dr_rows dir). dy_org r = dy_org s
          \<longrightarrow> (dy_user r = dy_user s \<and> dy_user r \<noteq> None \<or> dy_agent r = dy_agent s \<and> dy_agent r \<noteq> None) \<longrightarrow> r = s)"

lemma directory_row_unique:
  assumes "directory_ok dir" "r \<in> set (dr_rows dir)" "s \<in> set (dr_rows dir)" "dy_org r = dy_org s"
    "dy_user r = dy_user s \<and> dy_user r \<noteq> None \<or> dy_agent r = dy_agent s \<and> dy_agent r \<noteq> None"
  shows "r = s"
  using assms unfolding directory_ok_def by blast

text \<open>What is resolved is what is read: a resolved user is the human participant of that user.\<close>

lemma resolve_user_read:
  assumes ok: "directory_ok dir" and res: "resolve_user dir org user = Inr c"
    and rd: "read_colleague dir c = Inr col"
  shows "cg_id col = c \<and> cg_org col = org \<and> participant_of_colleague col = Some (PHuman c user)"
proof -
  from res obtain r where f: "find (\<lambda>r. dy_org r = org \<and> dy_user r = Some user) (dr_rows dir) = Some r"
    and c: "c = dy_id r"
    by (auto simp: resolve_user_def split: option.splits)
  then have r: "r \<in> set (dr_rows dir)" "dy_org r = org" "dy_user r = Some user" by (auto dest: find_Some_mem)
  have "case dy_kind r of CkHuman \<Rightarrow> dy_user r \<noteq> None \<and> dy_agent r = None
      | CkAgent \<Rightarrow> dy_agent r \<noteq> None \<and> dy_user r = None"
    using ok r(1) unfolding directory_ok_def by blast
  with r(3) have k: "dy_kind r = CkHuman" by (cases "dy_kind r") simp_all
  have "find (\<lambda>s. dy_id s = c) (dr_rows dir) = Some r"
    using ok r(1) unfolding c directory_ok_def by (intro find_key_unique) auto
  with rd r k c show ?thesis
    by (auto simp: read_colleague_def colleague_try_new_def participant_of_colleague_def Let_def split: sum.splits if_splits)
qed

section \<open>What the prompt shows\<close>

definition ROSTER_TAG_OPEN :: string where "ROSTER_TAG_OPEN = ''<colleagues>'' @ newline"
definition ROSTER_TAG_CLOSE :: string where "ROSTER_TAG_CLOSE = newline @ ''</colleagues>''"
definition SPEAKING_WITH_TAG_OPEN :: string where "SPEAKING_WITH_TAG_OPEN = ''<speaking-with>'' @ newline"
definition SPEAKING_WITH_TAG_CLOSE :: string where "SPEAKING_WITH_TAG_CLOSE = newline @ ''</speaking-with>''"

definition em_dash_bytes :: string where "em_dash_bytes = bytes [226, 128, 148]"

definition render_speaking_with :: "(uuid \<Rightarrow> string) \<Rightarrow> colleague_ref \<Rightarrow> string" where
  "render_speaking_with us c =
     SPEAKING_WITH_TAG_OPEN @ ''You are talking with '' @ rf_name c @ '' '' @ em_dash_bytes @ '' ''
     @ colleague_kind_as_str (rf_kind c) @ '', id '' @ us (rf_id c)
     @ ''. When you record something you learn about them, pass this id as `memory_write`'' @ [CHR 0x27]
     @ ''s `subject`; for a fact about a different colleague, use that colleague'' @ [CHR 0x27]
     @ ''s id from the <colleagues> roster instead.'' @ SPEAKING_WITH_TAG_CLOSE"

definition roster_line :: "(uuid \<Rightarrow> string) \<Rightarrow> (uuid \<rightharpoonup> string) \<Rightarrow> colleague_ref \<Rightarrow> string" where
  "roster_line us overrides c =
     ''- '' @ (case overrides (rf_id c) of None \<Rightarrow> rf_name c | Some n \<Rightarrow> n) @ '' '' @ em_dash_bytes @ '' ''
     @ colleague_kind_as_str (rf_kind c) @ '', id '' @ us (rf_id c)"

definition roster_peers :: "colleague_ref list \<Rightarrow> uuid \<Rightarrow> colleague_ref list" where
  "roster_peers roster viewer = filter (\<lambda>c. rf_id c \<noteq> viewer) roster"

definition render_roster_block ::
  "(uuid \<Rightarrow> string) \<Rightarrow> colleague_ref list \<Rightarrow> uuid \<Rightarrow> (uuid \<rightharpoonup> string) \<Rightarrow> string" where
  "render_roster_block us roster viewer overrides =
     (let peers = roster_peers roster viewer in
      if peers = [] then []
      else if length peers > MAX_ROSTER_INLINE
        then ROSTER_TAG_OPEN @ show_nat (length peers)
          @ '' colleagues available; use `search_colleague` to find one.'' @ ROSTER_TAG_CLOSE
      else ROSTER_TAG_OPEN
        @ ''Your colleagues. Address one with `send_message` (by id), record what you learn about one with ''
        @ ''`memory_write` (pass its id as `subject`), or look one up with `search_colleague`:'' @ newline
        @ join_str newline (map (roster_line us overrides) peers) @ ROSTER_TAG_CLOSE)"

text \<open>The roster is bounded, and the peers are its entries less the viewer.\<close>

lemma list_colleagues_bounded:
  "list_colleagues collate dir org = Inr refs \<Longrightarrow> length refs \<le> COLLEAGUE_ROSTER_FETCH_MAX"
  by (auto simp: list_colleagues_def collect_results_Inr Let_def dest!: arg_cong [of _ _ length] split: if_splits)

lemma list_colleagues_of_org:
  assumes "list_colleagues collate dir org = Inr refs" "c \<in> set refs"
  shows "\<exists>r \<in> set (dr_rows dir). dy_org r = org \<and> dy_id r = rf_id c"
proof -
  let ?rows = "take COLLEAGUE_ROSTER_FETCH_MAX
      (sort_key (\<lambda>r. collate (display_name_expr dir r)) (filter (\<lambda>r. dy_org r = org) (dr_rows dir)))"
  have "map (colleague_ref_of dir) ?rows = map Inr refs"
    using assms(1) by (simp add: list_colleagues_def collect_results_Inr Let_def split: if_splits)
  from arg_cong [OF this, of set] assms(2) have "Inr c \<in> colleague_ref_of dir ` set ?rows" by auto
  then obtain r where "colleague_ref_of dir r = Inr c" "r \<in> set (dr_rows dir)" "dy_org r = org"
    by (auto dest!: in_set_takeD)
  then show ?thesis
    by (intro bexI [of _ r]) (auto simp: colleague_ref_of_def split: option.splits sum.splits)
qed

end
