(* ===== verification/Scheduling.thy ===== *)
theory Scheduling
  imports Schedule_Spec Colleagues Prompt_Queue Thread_Feed Toolbox
begin

text \<open>
  Scheduled tasks: the store (\<open>scheduling/pg_store.rs\<close>), the scheduler that initiates a thread
  and wakes the owning agent when a task is due (\<open>scheduling/scheduler.rs\<close>), the three agent
  tools (\<open>tools/system/scheduling\<close>) and the operator's HTTP view (\<open>http/routes/scheduling.rs\<close>).
  A store operation is one transaction; a fire is a sequence of transactions on the thread feed,
  the prompt queue and the task table, each committed on its own.
\<close>

section \<open>Types\<close>

datatype scheduled_task_state = TaskActive | TaskDone | TaskCancelled

definition scheduled_task_state_all :: "scheduled_task_state list" where
  "scheduled_task_state_all = [TaskActive, TaskDone, TaskCancelled]"

fun scheduled_task_state_as_str :: "scheduled_task_state \<Rightarrow> string" where
  "scheduled_task_state_as_str TaskActive = ''active''"
| "scheduled_task_state_as_str TaskDone = ''done''"
| "scheduled_task_state_as_str TaskCancelled = ''cancelled''"

interpretation scheduled_task_state: str_enum scheduled_task_state_all scheduled_task_state_as_str
proof unfold_locales
  show "v \<in> set scheduled_task_state_all" for v by (cases v) (simp_all add: scheduled_task_state_all_def)
  show "scheduled_task_state_as_str v = scheduled_task_state_as_str w \<Longrightarrow> v = w" for v w
    by (cases v; cases w) simp_all
qed

record scheduled_task =
  sk_id :: uuid
  sk_owner_agent :: uuid
  sk_org :: uuid
  sk_created_by :: uuid
  sk_channel :: "uuid option"
  sk_name :: string
  sk_prompt :: string
  sk_schedule :: schedule_spec
  sk_next_run_at :: "timestamp option"
  sk_last_fired_at :: "timestamp option"
  sk_last_request :: "uuid option"
  sk_state :: scheduled_task_state
  sk_created_at :: timestamp
  sk_updated_at :: timestamp

record new_scheduled_task =
  nk_owner_agent :: uuid
  nk_org :: uuid
  nk_created_by :: uuid
  nk_channel :: "uuid option"
  nk_name :: string
  nk_prompt :: string
  nk_schedule :: schedule_spec
  nk_next_run_at :: "timestamp option"

datatype scheduled_task_error =
    TaskNotFound uuid
  | PerAgentCapExceeded uuid nat
  | TaskParse parse_error
  | TaskQueue prompt_error
  | TaskThread thread_error
  | TaskDecode
  | TaskDb db_error
  | TaskBackend string

section \<open>The store\<close>

text \<open>\<open>sd_agents\<close> is \<open>agents.org_id\<close>, \<open>sd_members\<close> the org memberships the row policies read.\<close>

record sched_db =
  sd_tasks :: "scheduled_task list"
  sd_agents :: "uuid \<rightharpoonup> uuid"
  sd_members :: "(uuid \<times> uuid) list"

definition sd_is_member :: "sched_db \<Rightarrow> uuid \<Rightarrow> uuid \<Rightarrow> bool" where
  "sd_is_member db user org \<longleftrightarrow> (user, org) \<in> set (sd_members db)"

text \<open>
  The decode of a row re-validates the name, the prompt and the schedule: a weekday set of the
  wire cannot be empty, and \<open>tz_known\<close> says which zone names the linked database parses.
\<close>

definition schedule_decodes :: "(string \<Rightarrow> bool) \<Rightarrow> schedule_spec \<Rightarrow> bool" where
  "schedule_decodes tz_known spec =
     (case spec of Once _ \<Rightarrow> True
      | Recurring ws _ name \<Rightarrow> weekdays_iter ws \<noteq> [] \<and> tz_known name)"

definition row_to_record ::
  "(string \<Rightarrow> bool) \<Rightarrow> scheduled_task \<Rightarrow> (scheduled_task, scheduled_task_error) result" where
  "row_to_record tz_known r =
     (case scheduled_task_name_try_from (sk_name r) of
        Inl e \<Rightarrow> Inl (TaskParse e)
      | Inr _ \<Rightarrow>
          (case scheduled_prompt_try_from (sk_prompt r) of
             Inl e \<Rightarrow> Inl (TaskParse e)
           | Inr _ \<Rightarrow> if schedule_decodes tz_known (sk_schedule r) then Inr r else Inl TaskDecode))"

definition row_of_payload :: "uuid \<Rightarrow> timestamp \<Rightarrow> new_scheduled_task \<Rightarrow> scheduled_task" where
  "row_of_payload i now p =
     \<lparr>sk_id = i, sk_owner_agent = nk_owner_agent p, sk_org = nk_org p, sk_created_by = nk_created_by p,
      sk_channel = nk_channel p, sk_name = nk_name p, sk_prompt = nk_prompt p, sk_schedule = nk_schedule p,
      sk_next_run_at = nk_next_run_at p, sk_last_fired_at = None, sk_last_request = None,
      sk_state = TaskActive, sk_created_at = now, sk_updated_at = now\<rparr>"

text \<open>
  \<open>sees\<close> is the row policy of the open transaction: every org when it is privileged, the orgs of
  the acting user otherwise.
\<close>

definition active_count :: "sched_db \<Rightarrow> (uuid \<Rightarrow> bool) \<Rightarrow> uuid \<Rightarrow> nat" where
  "active_count db sees owner =
     length (filter (\<lambda>r. sees (sk_org r) \<and> sk_owner_agent r = owner \<and> sk_state r = TaskActive) (sd_tasks db))"

text \<open>What the table demands of an inserted row: the parent-org trigger, the row policy, the checks, the key.\<close>

definition tasks_admit :: "sched_db \<Rightarrow> (uuid \<Rightarrow> bool) \<Rightarrow> scheduled_task \<Rightarrow> db_error option" where
  "tasks_admit db sees r =
     (case sd_agents db (sk_owner_agent r) of
        None \<Rightarrow> Some RaisedException
      | Some org \<Rightarrow>
          if \<not> sees org \<or> org \<noteq> sk_org r then Some RaisedException
          else if \<not> sees (sk_org r) then Some RlsViolation
          else if \<not> (1 \<le> length (sk_name r) \<and> length (sk_name r) \<le> 200) then Some CheckViolation
          else if \<not> (1 \<le> length (sk_prompt r) \<and> length (sk_prompt r) \<le> 65536) then Some CheckViolation
          else if \<exists>s \<in> set (sd_tasks db). sk_id s = sk_id r then Some UniqueViolation
          else None)"

definition create_in_tx ::
  "(string \<Rightarrow> bool) \<Rightarrow> sched_db \<Rightarrow> (uuid \<Rightarrow> bool) \<Rightarrow> timestamp \<Rightarrow> uuid \<Rightarrow> new_scheduled_task
   \<Rightarrow> (scheduled_task, scheduled_task_error) result \<times> sched_db" where
  "create_in_tx tz_known db sees now i p =
     (if active_count db sees (nk_owner_agent p) \<ge> MAX_SCHEDULED_TASKS_PER_AGENT
        then (Inl (PerAgentCapExceeded (nk_owner_agent p) MAX_SCHEDULED_TASKS_PER_AGENT), db)
      else (let row = row_of_payload i now p in
        case tasks_admit db sees row of
          Some e \<Rightarrow> (Inl (TaskDb e), db)
        | None \<Rightarrow>
            (case row_to_record tz_known row of
               Inl e \<Rightarrow> (Inl e, db)
             | Inr rec \<Rightarrow> (Inr rec, db\<lparr>sd_tasks := sd_tasks db @ [row]\<rparr>))))"

definition create_for_user ::
  "(string \<Rightarrow> bool) \<Rightarrow> sched_db \<Rightarrow> timestamp \<Rightarrow> uuid \<Rightarrow> uuid \<Rightarrow> new_scheduled_task
   \<Rightarrow> (scheduled_task, scheduled_task_error) result \<times> sched_db" where
  "create_for_user tz_known db now i user p =
     create_in_tx tz_known db (sd_is_member db user) now i (p\<lparr>nk_created_by := user\<rparr>)"

definition cancel_in_tx ::
  "sched_db \<Rightarrow> (uuid \<Rightarrow> bool) \<Rightarrow> timestamp \<Rightarrow> uuid \<Rightarrow> uuid
   \<Rightarrow> (unit, scheduled_task_error) result \<times> sched_db" where
  "cancel_in_tx db sees now task owner =
     (case find (\<lambda>r. sees (sk_org r) \<and> sk_id r = task \<and> sk_owner_agent r = owner) (sd_tasks db) of
        None \<Rightarrow> (Inl (TaskNotFound task), db)
      | Some r \<Rightarrow>
          if sk_state r \<noteq> TaskActive then (Inr (), db)
          else (Inr (), db\<lparr>sd_tasks := update_where (\<lambda>r. sees (sk_org r) \<and> sk_id r = task)
            (\<lambda>r. r\<lparr>sk_state := TaskCancelled, sk_next_run_at := None, sk_updated_at := now\<rparr>) (sd_tasks db)\<rparr>))"

definition cancel_for_user ::
  "sched_db \<Rightarrow> timestamp \<Rightarrow> uuid \<Rightarrow> uuid \<Rightarrow> uuid \<Rightarrow> (unit, scheduled_task_error) result \<times> sched_db" where
  "cancel_for_user db now user task owner = cancel_in_tx db (sd_is_member db user) now task owner"

definition list_for_agent ::
  "(string \<Rightarrow> bool) \<Rightarrow> sched_db \<Rightarrow> uuid \<Rightarrow> (scheduled_task list, scheduled_task_error) result" where
  "list_for_agent tz_known db owner =
     collect_results (map (row_to_record tz_known)
       (take MAX_SCHEDULED_TASKS_PER_AGENT (sort_key sk_created_at
         (filter (\<lambda>r. sk_owner_agent r = owner \<and> sk_state r = TaskActive) (sd_tasks db)))))"

definition is_due :: "timestamp \<Rightarrow> scheduled_task \<Rightarrow> bool" where
  "is_due now r \<longleftrightarrow> sk_state r = TaskActive \<and>
     (case sk_next_run_at r of None \<Rightarrow> False | Some t \<Rightarrow> t \<le> now)"

definition due_rows :: "sched_db \<Rightarrow> timestamp \<Rightarrow> nat \<Rightarrow> scheduled_task list" where
  "due_rows db now limit =
     take limit (sort_key (\<lambda>r. case sk_next_run_at r of None \<Rightarrow> 0 | Some t \<Rightarrow> t)
       (filter (is_due now) (sd_tasks db)))"

definition claim_due ::
  "(string \<Rightarrow> bool) \<Rightarrow> sched_db \<Rightarrow> timestamp \<Rightarrow> nat \<Rightarrow> (scheduled_task list, scheduled_task_error) result" where
  "claim_due tz_known db now limit = collect_results (map (row_to_record tz_known) (due_rows db now limit))"

definition record_fired ::
  "sched_db \<Rightarrow> timestamp \<Rightarrow> uuid \<Rightarrow> uuid \<Rightarrow> timestamp \<Rightarrow> timestamp option \<Rightarrow> sched_db" where
  "record_fired db now task request fired_at next =
     db\<lparr>sd_tasks := update_where (\<lambda>r. sk_id r = task)
        (\<lambda>r. r\<lparr>sk_last_fired_at := Some fired_at, sk_last_request := Some request, sk_next_run_at := next,
              sk_state := (if next \<noteq> None then TaskActive else TaskDone), sk_updated_at := now\<rparr>)
        (sd_tasks db)\<rparr>"

section \<open>The scheduler\<close>

text \<open>
  The collaborators of a fire: the time zone database, the directory, the printers of ids, errors
  and instants (\<open>to_rfc3339\<close>), and what this run of the scheduler meets: whether the directory
  lookup times out, which of the two joined statements completes first, the ids the stores mint for
  a task and the ambient trace header.
\<close>

record minted =
  mi_thread :: uuid
  mi_state :: uuid
  mi_seed :: uuid
  mi_request :: uuid

record sched_env =
  se_tz :: "string \<Rightarrow> zone"
  se_tz_known :: "string \<Rightarrow> bool"
  se_dir :: directory
  se_uuid :: "uuid \<Rightarrow> string"
  se_rfc3339 :: "timestamp \<Rightarrow> string"
  se_show_colleague_error :: "colleague_error \<Rightarrow> string"
  se_resolve_times_out :: "uuid \<Rightarrow> bool"
  se_append_first :: "uuid \<Rightarrow> bool"
  se_mint :: "uuid \<Rightarrow> minted"
  se_traceparent :: "string option"

record sched_world =
  sw_tasks :: sched_db
  sw_threads :: thread_db
  sw_queue :: queue_db

definition seed_prompt_text :: "(timestamp \<Rightarrow> string) \<Rightarrow> scheduled_task \<Rightarrow> string" where
  "seed_prompt_text rfc3339 task =
     (if sk_channel task = None then sk_prompt task
      else (let since = (case sk_last_fired_at task of None \<Rightarrow> sk_created_at task | Some t \<Rightarrow> t) in
        sk_prompt task @ newline @ newline @ ''<digest-window since='' @ [CHR 0x22] @ rfc3339 since @ [CHR 0x22]
        @ ''/>'' @ newline @ ''Messages since the last run are those at or after this timestamp; ''
        @ ''pass it as `since` when you read a channel.''))"

definition seed_message :: "(timestamp \<Rightarrow> string) \<Rightarrow> scheduled_task \<Rightarrow> new_message" where
  "seed_message rfc3339 task =
     \<lparr>nm_kind = SystemNote, nm_sender = None, nm_owner_agent = Some (sk_owner_agent task), nm_receiver = None,
      nm_body = User [UText (seed_prompt_text rfc3339 task)], nm_request = None, nm_idempotency_key = None\<rparr>"

text \<open>
  \<open>tokio::try_join!\<close> of the participation and the seed: the two statements touch disjoint tables,
  the first that fails cancels the other.
\<close>

definition join_participation_and_seed ::
  "sched_env \<Rightarrow> timestamp \<Rightarrow> scheduled_task \<Rightarrow> caller \<Rightarrow> uuid \<Rightarrow> thread_db
   \<Rightarrow> (uuid \<times> uuid, thread_error) result \<times> thread_db" where
  "join_participation_and_seed env now task ca thread td =
     (let mint = se_mint env (sk_id task);
          resolve = (\<lambda>td. resolve_participation td now (mi_state mint) ca thread (sk_owner_agent task));
          append = (\<lambda>td. append_message td now (mi_seed mint) ca thread (seed_message (se_rfc3339 env) task)) in
      if se_append_first env (sk_id task) then
        (case append td of
           (Inl e, td1) \<Rightarrow> (Inl e, td1)
         | (Inr seed, td1) \<Rightarrow> (case resolve td1 of
             (Inl e, td2) \<Rightarrow> (Inl e, td2) | (Inr state, td2) \<Rightarrow> (Inr (state, seed), td2)))
      else
        (case resolve td of
           (Inl e, td1) \<Rightarrow> (Inl e, td1)
         | (Inr state, td1) \<Rightarrow> (case append td1 of
             (Inl e, td2) \<Rightarrow> (Inl e, td2) | (Inr seed, td2) \<Rightarrow> (Inr (state, seed), td2))))"

text \<open>\<open>None\<close> is a failed assertion of \<open>create_thread\<close>.\<close>

definition initiate_thread ::
  "sched_env \<Rightarrow> timestamp \<Rightarrow> scheduled_task \<Rightarrow> caller \<Rightarrow> uuid \<Rightarrow> thread_db
   \<Rightarrow> ((uuid \<times> uuid \<times> uuid, scheduled_task_error) result \<times> thread_db) option" where
  "initiate_thread env now task ca human td =
     (let counterpart = (case sk_channel task of
            Some _ \<Rightarrow> Inr None
          | None \<Rightarrow> (case resolve_agent (se_dir env) (sk_org task) (sk_owner_agent task) of
              Inl e \<Rightarrow> Inl (TaskBackend (''resolve agent colleague: '' @ se_show_colleague_error env e))
            | Inr c \<Rightarrow> Inr (Some c))) in
      case counterpart of
        Inl e \<Rightarrow> Some (Inl e, td)
      | Inr cp \<Rightarrow>
          (case create_thread td now (mi_thread (se_mint env (sk_id task))) ca (sk_channel task) None human cp of
             None \<Rightarrow> None
           | Some (Inl e, td1) \<Rightarrow> Some (Inl (TaskThread e), td1)
           | Some (Inr thread, td1) \<Rightarrow>
               (case join_participation_and_seed env now task ca thread td1 of
                  (Inl e, td2) \<Rightarrow> Some (Inl (TaskThread e), td2)
                | (Inr (state, seed), td2) \<Rightarrow> Some (Inr (thread, state, seed), td2))))"

definition fire_key :: "sched_env \<Rightarrow> scheduled_task \<Rightarrow> timestamp \<Rightarrow> string" where
  "fire_key env task fire_at =
     ''sched-'' @ se_uuid env (sk_id task) @ ''-'' @ show_int (fire_at div 1000000)"

definition fire_trigger :: "scheduled_task \<Rightarrow> uuid \<Rightarrow> uuid \<Rightarrow> uuid \<Rightarrow> uuid \<Rightarrow> idempotency_key \<Rightarrow> new_trigger" where
  "fire_trigger task human thread state seed key =
     \<lparr>nt_org = sk_org task, nt_acting_user = sk_created_by task, nt_thread = Some thread, nt_state_id = Some state,
      nt_background_turn_id = None, nt_sender = human, nt_receiver_agent = sk_owner_agent task, nt_root = None,
      nt_trigger_message = Some seed, nt_idempotency_key = key, nt_payload = PNormal\<rparr>"

definition fire_human :: "sched_env \<Rightarrow> scheduled_task \<Rightarrow> (uuid, scheduled_task_error) result" where
  "fire_human env task =
     (if se_resolve_times_out env (sk_id task) then Inl (TaskBackend ''resolve human colleague: timeout'')
      else (case resolve_user (se_dir env) (sk_org task) (sk_created_by task) of
              Inl e \<Rightarrow> Inl (TaskBackend (''resolve human colleague: '' @ se_show_colleague_error env e))
            | Inr c \<Rightarrow> Inr c))"

definition fire_at_of :: "scheduled_task \<Rightarrow> timestamp \<Rightarrow> timestamp" where
  "fire_at_of task now = (case sk_next_run_at task of Some t \<Rightarrow> t | None \<Rightarrow> now)"

text \<open>
  The queue's org trigger reads the \<open>org_id\<close> column of the participation table, so the enqueue
  sees the row the fire has just inserted.
\<close>

definition participation_view :: "thread_db \<Rightarrow> queue_db \<Rightarrow> queue_db" where
  "participation_view td qd =
     qd\<lparr>state_org := (\<lambda>k. map_option ats_org (find (\<lambda>p. ats_id p = k) (td_participation td)))\<rparr>"

text \<open>Everything of a fire up to the trigger in the queue.\<close>

definition wake_agent ::
  "sched_env \<Rightarrow> timestamp \<Rightarrow> scheduled_task \<Rightarrow> sched_world
   \<Rightarrow> ((uuid, scheduled_task_error) result \<times> sched_world) option" where
  "wake_agent env now task w =
     (case fire_human env task of
        Inl e \<Rightarrow> Some (Inl e, w)
      | Inr human \<Rightarrow>
          (case initiate_thread env now task \<lparr>ca_user = sk_created_by task, ca_org = sk_org task\<rparr> human (sw_threads w) of
             None \<Rightarrow> None
           | Some (Inl e, td) \<Rightarrow> Some (Inl e, w\<lparr>sw_threads := td\<rparr>)
           | Some (Inr (thread, state, seed), td) \<Rightarrow>
               (case idempotency_key_try_from (fire_key env task (fire_at_of task now)) of
                  Inl e \<Rightarrow> Some (Inl (TaskParse e), w\<lparr>sw_threads := td\<rparr>)
                | Inr key \<Rightarrow>
                    (case enqueue_trigger (participation_view td (sw_queue w)) now (mi_request (se_mint env (sk_id task)))
                        (se_traceparent env) (fire_trigger task human thread state seed key) of
                       (Inl e, qd) \<Rightarrow> Some (Inl (TaskQueue e), w\<lparr>sw_threads := td, sw_queue := qd\<rparr>)
                     | (Inr request, qd) \<Rightarrow> Some (Inr request, w\<lparr>sw_threads := td, sw_queue := qd\<rparr>)))))"

text \<open>The outbound delivery is attached best-effort in between; it touches none of the three stores.\<close>

definition fire ::
  "sched_env \<Rightarrow> timestamp \<Rightarrow> scheduled_task \<Rightarrow> sched_world
   \<Rightarrow> ((unit, scheduled_task_error) result \<times> sched_world) option" where
  "fire env now task w =
     (case wake_agent env now task w of
        None \<Rightarrow> None
      | Some (Inl e, w1) \<Rightarrow> Some (Inl e, w1)
      | Some (Inr request, w1) \<Rightarrow>
          Some (Inr (), w1\<lparr>sw_tasks := record_fired (sw_tasks w1) now (sk_id task) request (fire_at_of task now)
            (next_after (se_tz env) (sk_schedule task) now)\<rparr>))"

fun fire_all :: "sched_env \<Rightarrow> timestamp \<Rightarrow> scheduled_task list \<Rightarrow> nat \<Rightarrow> sched_world \<Rightarrow> (nat \<times> sched_world) option" where
  "fire_all env now [] fired w = Some (fired, w)"
| "fire_all env now (task # tasks) fired w =
     (case fire env now task w of
        None \<Rightarrow> None
      | Some (Inr _, w1) \<Rightarrow> fire_all env now tasks (fired + 1) w1
      | Some (Inl _, w1) \<Rightarrow> fire_all env now tasks fired w1)"

definition tick ::
  "sched_env \<Rightarrow> timestamp \<Rightarrow> sched_world \<Rightarrow> ((nat, scheduled_task_error) result \<times> sched_world) option" where
  "tick env now w =
     (case claim_due (se_tz_known env) (sw_tasks w) now SCHEDULED_TASK_BATCH_LIMIT of
        Inl e \<Rightarrow> Some (Inl e, w)
      | Inr due \<Rightarrow>
          (case fire_all env now due 0 w of None \<Rightarrow> None | Some (n, w1) \<Rightarrow> Some (Inr n, w1)))"

section \<open>The agent's tools\<close>

datatype schedule_input =
    OnceInput timestamp
  | RecurringInput weekdays time_of_day "string option"

fun materialize_schedule :: "string \<Rightarrow> schedule_input \<Rightarrow> schedule_spec" where
  "materialize_schedule default_tz (OnceInput run_at) = Once run_at"
| "materialize_schedule default_tz (RecurringInput ws t tz) =
     Recurring ws t (case tz of None \<Rightarrow> default_tz | Some z \<Rightarrow> z)"

definition beyond_horizon :: "schedule_spec \<Rightarrow> timestamp \<Rightarrow> bool" where
  "beyond_horizon spec now =
     (case spec of Once run_at \<Rightarrow> run_at - now > MAX_ONESHOT_HORIZON_DAYS * USECS_PER_DAY | Recurring _ _ _ \<Rightarrow> False)"

text \<open>\<open>chrono::Duration::num_days\<close> truncates; a duration that fails the check is positive.\<close>

definition horizon_error :: "schedule_spec \<Rightarrow> timestamp \<Rightarrow> string" where
  "horizon_error spec now =
     (case spec of
        Once run_at \<Rightarrow> ''schedule_task: oneshot '' @ show_int ((run_at - now) div USECS_PER_DAY)
          @ '' days in the future exceeds horizon of '' @ show_int MAX_ONESHOT_HORIZON_DAYS @ '' days''
      | Recurring _ _ _ \<Rightarrow> [])"

record schedule_tool_env =
  sv_tz :: "string \<Rightarrow> zone"
  sv_tz_known :: "string \<Rightarrow> bool"
  sv_default_tz :: string
  sv_show_parse :: "parse_error \<Rightarrow> string"
  sv_show_task :: "scheduled_task_error \<Rightarrow> string"
  sv_show_thread :: "thread_error \<Rightarrow> string"

text \<open>\<open>channel_of\<close>: a privileged read of the thread's channel.\<close>

definition channel_of :: "thread_db \<Rightarrow> uuid \<Rightarrow> (uuid option, thread_error) result" where
  "channel_of td thread =
     (case find (\<lambda>t. th_id t = thread) (td_threads td) of
        None \<Rightarrow> Inl (ThreadNotFound thread) | Some t \<Rightarrow> Inr (th_channel t))"

definition target_channel ::
  "schedule_tool_env \<Rightarrow> thread_db \<Rightarrow> tool_ctx \<Rightarrow> (uuid option, tool_error) result" where
  "target_channel env td ctx =
     (case tx_thread_id ctx of
        None \<Rightarrow> Inr None
      | Some thread \<Rightarrow>
          (case channel_of td thread of
             Inl e \<Rightarrow> Inl (ToolBackend (''schedule_task: resolve channel: '' @ sv_show_thread env e))
           | Inr c \<Rightarrow> Inr c))"

record schedule_output =
  so_task :: uuid
  so_name :: string
  so_next_run_at :: timestamp

definition schedule_payload ::
  "uuid \<Rightarrow> tool_ctx \<Rightarrow> uuid option \<Rightarrow> string \<Rightarrow> string \<Rightarrow> schedule_spec \<Rightarrow> timestamp \<Rightarrow> new_scheduled_task" where
  "schedule_payload owner ctx channel name prompt spec next =
     \<lparr>nk_owner_agent = owner, nk_org = tx_org_id ctx, nk_created_by = tx_acting_user_id ctx, nk_channel = channel,
      nk_name = name, nk_prompt = prompt, nk_schedule = spec, nk_next_run_at = Some next\<rparr>"

definition schedule_task ::
  "schedule_tool_env \<Rightarrow> timestamp \<Rightarrow> uuid \<Rightarrow> thread_db \<Rightarrow> tool_ctx \<Rightarrow> string \<Rightarrow> string \<Rightarrow> schedule_input \<Rightarrow> sched_db
   \<Rightarrow> (schedule_output, tool_error) result \<times> sched_db" where
  "schedule_task env now i td ctx raw_name raw_prompt input db =
     (case participant_agent (tx_viewer ctx) of
        None \<Rightarrow> (Inl (InvalidInput ''schedule_task: caller must be an agent''), db)
      | Some owner \<Rightarrow>
     (case scheduled_task_name_try_from raw_name of
        Inl e \<Rightarrow> (Inl (InvalidInput (''schedule_task: name: '' @ sv_show_parse env e)), db)
      | Inr name \<Rightarrow>
     (case scheduled_prompt_try_from raw_prompt of
        Inl e \<Rightarrow> (Inl (InvalidInput (''schedule_task: prompt: '' @ sv_show_parse env e)), db)
      | Inr prompt \<Rightarrow>
          (let spec = materialize_schedule (sv_default_tz env) input in
           if beyond_horizon spec now then (Inl (InvalidInput (horizon_error spec now)), db)
           else (case next_after (sv_tz env) spec now of
              None \<Rightarrow> (Inl (InvalidInput ''schedule_task: schedule produces no future fire time''), db)
            | Some next \<Rightarrow>
           (case target_channel env td ctx of
              Inl e \<Rightarrow> (Inl e, db)
            | Inr channel \<Rightarrow>
                (case create_for_user (sv_tz_known env) db now i (tx_acting_user_id ctx)
                    (schedule_payload owner ctx channel name prompt spec next) of
                   (Inr row, db1) \<Rightarrow> (Inr \<lparr>so_task = sk_id row, so_name = sk_name row, so_next_run_at = next\<rparr>, db1)
                 | (Inl (PerAgentCapExceeded _ m), db1) \<Rightarrow>
                     (Inl (InvalidInput (''schedule_task: per-agent cap '' @ show_nat m
                       @ '' reached; cancel an existing task before scheduling a new one'')), db1)
                 | (Inl e, db1) \<Rightarrow>
                     (Inl (ToolBackend (''schedule_task: create failed: '' @ sv_show_task env e)), db1))))))))"

definition cancel_scheduled_task ::
  "schedule_tool_env \<Rightarrow> (uuid \<Rightarrow> string) \<Rightarrow> timestamp \<Rightarrow> tool_ctx \<Rightarrow> uuid \<Rightarrow> sched_db
   \<Rightarrow> (uuid, tool_error) result \<times> sched_db" where
  "cancel_scheduled_task env us now ctx task db =
     (case participant_agent (tx_viewer ctx) of
        None \<Rightarrow> (Inl (InvalidInput ''cancel_scheduled_task: caller must be an agent''), db)
      | Some owner \<Rightarrow>
          (let not_found = InvalidInput (''cancel_scheduled_task: task '' @ us task @ '' not found'') in
           if \<not> (\<exists>r \<in> set (sd_tasks db). sk_id r = task \<and> sk_owner_agent r = owner
                  \<and> sd_is_member db (tx_acting_user_id ctx) (sk_org r)) then (Inl not_found, db)
           else (case cancel_for_user db now (tx_acting_user_id ctx) task owner of
                   (Inr _, db1) \<Rightarrow> (Inr task, db1)
                 | (Inl (TaskNotFound _), db1) \<Rightarrow> (Inl not_found, db1)
                 | (Inl e, db1) \<Rightarrow> (Inl (ToolBackend (''cancel_scheduled_task: '' @ sv_show_task env e)), db1))))"

record listed_task =
  lt_task :: uuid
  lt_name :: string
  lt_schedule :: schedule_spec
  lt_next_run_at :: "timestamp option"

definition listed_of :: "scheduled_task \<Rightarrow> listed_task" where
  "listed_of r = \<lparr>lt_task = sk_id r, lt_name = sk_name r, lt_schedule = sk_schedule r, lt_next_run_at = sk_next_run_at r\<rparr>"

definition list_scheduled_tasks ::
  "schedule_tool_env \<Rightarrow> tool_ctx \<Rightarrow> sched_db \<Rightarrow> (listed_task list, tool_error) result" where
  "list_scheduled_tasks env ctx db =
     (case participant_agent (tx_viewer ctx) of
        None \<Rightarrow> Inl (InvalidInput ''list_scheduled_tasks: caller must be an agent'')
      | Some owner \<Rightarrow>
          (case sd_agents db owner of
             None \<Rightarrow> Inr []
           | Some org \<Rightarrow>
               if \<not> sd_is_member db (tx_acting_user_id ctx) org then Inr []
               else (case list_for_agent (sv_tz_known env) db owner of
                       Inl e \<Rightarrow> Inl (ToolBackend (''list_scheduled_tasks: '' @ sv_show_task env e))
                     | Inr rows \<Rightarrow> Inr (map listed_of rows))))"

section \<open>The operator's view\<close>

definition DEFAULT_SCHEDULED_TASKS_PAGE :: nat where "DEFAULT_SCHEDULED_TASKS_PAGE = 20"
definition MAX_SCHEDULED_TASKS_PAGE :: nat where "MAX_SCHEDULED_TASKS_PAGE = 50"

datatype task_route_error = RouteNotFound | RouteInternal

text \<open>The two \<open>strftime\<close> patterns and the name of a decoded zone are the library's.\<close>

record label_env =
  le_instant :: "timestamp \<Rightarrow> string"
  le_once :: "timestamp \<Rightarrow> string"
  le_tz_known :: "string \<Rightarrow> bool"
  le_agent_name :: "uuid \<Rightarrow> string"

fun weekday_short :: "weekday \<Rightarrow> string" where
  "weekday_short Mon = ''Mon''"
| "weekday_short Tue = ''Tue''"
| "weekday_short Wed = ''Wed''"
| "weekday_short Thu = ''Thu''"
| "weekday_short Fri = ''Fri''"
| "weekday_short Sat = ''Sat''"
| "weekday_short Sun = ''Sun''"

definition days_label :: "weekdays \<Rightarrow> string" where
  "days_label w =
     (if w = WEEKDAYS_ALL then ''day''
      else if w = WORKDAYS then ''weekday''
      else if w = WEEKENDS then ''weekend''
      else join_str '', '' (map weekday_short (weekdays_iter w)))"

definition tz_suffix :: "string \<Rightarrow> string" where
  "tz_suffix name = (if name = ''UTC'' then ''UTC'' else ''('' @ name @ '')'')"

definition schedule_labels :: "label_env \<Rightarrow> schedule_spec \<Rightarrow> string \<times> string" where
  "schedule_labels env spec =
     (case spec of
        Once run_at \<Rightarrow> (''Once: '' @ le_once env run_at @ '' UTC'', ''Once at '' @ le_once env run_at @ '' UTC'')
      | Recurring ws t name \<Rightarrow>
          (''Every '' @ days_label ws @ '', '' @ time_of_day_display t @ '' '' @ tz_suffix name,
           ''Every '' @ days_label ws @ '' at '' @ time_of_day_display t @ '' '' @ tz_suffix name))"

fun task_status_str :: "scheduled_task_state \<Rightarrow> string" where
  "task_status_str TaskActive = ''active''"
| "task_status_str TaskDone = ''completed''"
| "task_status_str TaskCancelled = ''cancelled''"

fun task_kind_str :: "schedule_spec \<Rightarrow> string" where
  "task_kind_str (Once _) = ''one_time''"
| "task_kind_str (Recurring _ _ _) = ''recurring''"

record task_response =
  rp_id :: uuid
  rp_agent :: uuid
  rp_agent_name :: string
  rp_name :: string
  rp_status :: string
  rp_kind :: string
  rp_label :: string
  rp_full :: string
  rp_next_run :: "string option"
  rp_last_run :: "string option"

definition into_response :: "label_env \<Rightarrow> scheduled_task \<Rightarrow> (task_response, task_route_error) result" where
  "into_response env r =
     (if \<not> schedule_decodes (le_tz_known env) (sk_schedule r) then Inl RouteInternal
      else Inr \<lparr>rp_id = sk_id r, rp_agent = sk_owner_agent r, rp_agent_name = le_agent_name env (sk_owner_agent r),
        rp_name = sk_name r, rp_status = task_status_str (sk_state r), rp_kind = task_kind_str (sk_schedule r),
        rp_label = fst (schedule_labels env (sk_schedule r)), rp_full = snd (schedule_labels env (sk_schedule r)),
        rp_next_run = (if sk_state r = TaskActive then map_option (le_instant env) (sk_next_run_at r) else None),
        rp_last_run = map_option (le_instant env) (sk_last_fired_at r)\<rparr>)"

definition agent_visible :: "sched_db \<Rightarrow> caller \<Rightarrow> uuid \<Rightarrow> bool" where
  "agent_visible db ca agent \<longleftrightarrow> sd_agents db agent = Some (ca_org ca) \<and> sd_is_member db (ca_user ca) (ca_org ca)"

definition state_count :: "sched_db \<Rightarrow> caller \<Rightarrow> uuid \<Rightarrow> scheduled_task_state \<Rightarrow> nat" where
  "state_count db ca agent st =
     min u32_max (length (filter (\<lambda>r. sd_is_member db (ca_user ca) (sk_org r) \<and> sk_owner_agent r = agent
        \<and> sk_state r = st) (sd_tasks db)))"

definition page_size :: "nat option \<Rightarrow> nat" where
  "page_size per_page = max 1 (min MAX_SCHEDULED_TASKS_PAGE
     (case per_page of None \<Rightarrow> DEFAULT_SCHEDULED_TASKS_PAGE | Some n \<Rightarrow> n))"

definition http_list_tasks ::
  "label_env \<Rightarrow> sched_db \<Rightarrow> caller \<Rightarrow> uuid \<Rightarrow> nat option \<Rightarrow> nat option
   \<Rightarrow> (task_response list \<times> nat \<times> nat \<times> nat, task_route_error) result" where
  "http_list_tasks env db ca agent page per_page =
     (if \<not> agent_visible db ca agent then Inl RouteNotFound
      else (let n = page_size per_page;
                offset = (max 1 (case page of None \<Rightarrow> 1 | Some p \<Rightarrow> p) - 1) * n;
                rows = take n (drop offset (sort_key sk_created_at
                  (filter (\<lambda>r. sd_is_member db (ca_user ca) (sk_org r) \<and> sk_owner_agent r = agent) (sd_tasks db)))) in
        case collect_results (map (into_response env) rows) of
          Inl e \<Rightarrow> Inl e
        | Inr items \<Rightarrow> Inr (items, state_count db ca agent TaskActive, state_count db ca agent TaskDone,
            state_count db ca agent TaskCancelled)))"

text \<open>The route's \<open>UPDATE\<close> does not look at the state the task is in.\<close>

definition http_cancel_task ::
  "label_env \<Rightarrow> sched_db \<Rightarrow> timestamp \<Rightarrow> caller \<Rightarrow> uuid \<Rightarrow> uuid
   \<Rightarrow> (task_response, task_route_error) result \<times> sched_db" where
  "http_cancel_task env db now ca agent task =
     (if \<not> agent_visible db ca agent then (Inl RouteNotFound, db)
      else (let hit = (\<lambda>r. sd_is_member db (ca_user ca) (sk_org r) \<and> sk_id r = task \<and> sk_owner_agent r = agent);
                cancel = (\<lambda>r. r\<lparr>sk_state := TaskCancelled, sk_next_run_at := None, sk_updated_at := now\<rparr>) in
        case find hit (sd_tasks db) of
          None \<Rightarrow> (Inl RouteNotFound, db)
        | Some r \<Rightarrow> (into_response env (cancel r), db\<lparr>sd_tasks := update_where hit cancel (sd_tasks db)\<rparr>)))"

end
