(* ===== verification/Scheduling_Laws.thy ===== *)
theory Scheduling_Laws
  imports Scheduling Thread_Laws Prompt_Queue_Laws
begin

text \<open>
  What the task store keeps under every sequence of its operations, what a fire does to the three
  stores, and in which order due tasks are served.
\<close>

section \<open>The store as a transition system\<close>

datatype sched_event =
    SeCreate timestamp uuid uuid new_scheduled_task
  | SeCancel timestamp uuid uuid uuid
  | SeFired timestamp uuid uuid timestamp "timestamp option"
  | SeHttpCancel timestamp caller uuid uuid

text \<open>Every caller of the create passes the next fire instant it has computed.\<close>

inductive sched_step :: "(string \<Rightarrow> bool) \<Rightarrow> label_env \<Rightarrow> sched_db \<Rightarrow> sched_event \<Rightarrow> sched_db \<Rightarrow> bool"
  for known :: "string \<Rightarrow> bool" and le :: label_env where
  sched_create: "nk_next_run_at p \<noteq> None \<Longrightarrow>
    sched_step known le db (SeCreate now i user p) (snd (create_for_user known db now i user p))"
| sched_cancel: "sched_step known le db (SeCancel now user task owner) (snd (cancel_for_user db now user task owner))"
| sched_fired: "sched_step known le db (SeFired now task req at next) (record_fired db now task req at next)"
| sched_http: "sched_step known le db (SeHttpCancel now ca agent task) (snd (http_cancel_task le db now ca agent task))"

definition sched_init :: "sched_db \<Rightarrow> bool" where
  "sched_init db \<longleftrightarrow> sd_tasks db = []"

definition task_ok :: "sched_db \<Rightarrow> scheduled_task \<Rightarrow> bool" where
  "task_ok db r \<longleftrightarrow> (sk_state r = TaskActive \<longleftrightarrow> sk_next_run_at r \<noteq> None)
     \<and> sd_agents db (sk_owner_agent r) = Some (sk_org r)
     \<and> scheduled_task_name_try_from (sk_name r) = Inr (sk_name r)
     \<and> scheduled_prompt_try_from (sk_prompt r) = Inr (sk_prompt r)"

definition sched_inv :: "sched_db \<Rightarrow> bool" where
  "sched_inv db \<longleftrightarrow> distinct (map sk_id (sd_tasks db)) \<and> (\<forall>r \<in> set (sd_tasks db). task_ok db r)"

definition task_le :: "scheduled_task \<Rightarrow> scheduled_task \<Rightarrow> bool" where
  "task_le r r' \<longleftrightarrow> sk_id r' = sk_id r \<and> sk_owner_agent r' = sk_owner_agent r \<and> sk_org r' = sk_org r
     \<and> sk_created_by r' = sk_created_by r \<and> sk_channel r' = sk_channel r \<and> sk_name r' = sk_name r
     \<and> sk_prompt r' = sk_prompt r \<and> sk_schedule r' = sk_schedule r \<and> sk_created_at r' = sk_created_at r"

definition sched_le :: "sched_db \<Rightarrow> sched_db \<Rightarrow> bool" where
  "sched_le db db' \<longleftrightarrow> (\<forall>r \<in> set (sd_tasks db). \<exists>r' \<in> set (sd_tasks db'). task_le r r')"

lemma task_le_refl [simp]: "task_le r r"
  by (simp add: task_le_def)

lemma task_le_trans: "task_le r s \<Longrightarrow> task_le s t \<Longrightarrow> task_le r t"
  by (simp add: task_le_def)

lemma sched_le_refl [simp]: "sched_le db db"
  unfolding sched_le_def by (meson task_le_refl)

lemma sched_le_trans: "sched_le a b \<Longrightarrow> sched_le b c \<Longrightarrow> sched_le a c"
  unfolding sched_le_def by (meson task_le_trans)

text \<open>The row updates of the store keep what identifies a task.\<close>

lemma update_rows:
  assumes inv: "sched_inv db" and f: "\<And>r. task_le r (f r)"
    and st: "\<And>r. sk_state (f r) = TaskActive \<longleftrightarrow> sk_next_run_at (f r) \<noteq> None"
  shows "sched_inv (db\<lparr>sd_tasks := update_where p f (sd_tasks db)\<rparr>)"
    and "sched_le db (db\<lparr>sd_tasks := update_where p f (sd_tasks db)\<rparr>)"
proof -
  have ids: "map sk_id (update_where p f (sd_tasks db)) = map sk_id (sd_tasks db)"
    by (rule map_update_where) (use f in \<open>simp add: task_le_def\<close>)
  have ok: "task_ok db r \<Longrightarrow> task_ok (db\<lparr>sd_tasks := ts\<rparr>) (f r)" for r ts
    using f [of r] st [of r] by (simp add: task_ok_def task_le_def)
  have same: "task_ok (db\<lparr>sd_tasks := ts\<rparr>) r = task_ok db r" for r ts by (simp add: task_ok_def)
  show "sched_inv (db\<lparr>sd_tasks := update_where p f (sd_tasks db)\<rparr>)"
    using inv ok by (auto simp: sched_inv_def ids set_update_where same)
  show "sched_le db (db\<lparr>sd_tasks := update_where p f (sd_tasks db)\<rparr>)"
    unfolding sched_le_def by (auto simp: set_update_where intro: f task_le_refl)
qed

lemma create_in_tx_cases:
  assumes "create_in_tx known db sees now i p = (x, db')"
  obtains (refused) e where "x = Inl e" "db' = db"
  | (created) "x = Inr (row_of_payload i now p)" "db' = db\<lparr>sd_tasks := sd_tasks db @ [row_of_payload i now p]\<rparr>"
      "tasks_admit db sees (row_of_payload i now p) = None"
      "row_to_record known (row_of_payload i now p) = Inr (row_of_payload i now p)"
      "active_count db sees (nk_owner_agent p) < MAX_SCHEDULED_TASKS_PER_AGENT"
proof -
  let ?row = "row_of_payload i now p"
  have rr: "row_to_record known r = Inr rec \<Longrightarrow> rec = r" for r rec
    by (auto simp: row_to_record_def split: sum.splits if_splits)
  note unfolded = assms [unfolded create_in_tx_def Let_def]
  show ?thesis
  proof (cases "row_to_record known ?row")
    case (Inl e)
    with unfolded have "(\<exists>e. x = Inl e) \<and> db' = db"
      by (cases x) (auto simp del: Inl_Inr_False split: if_splits option.splits)
    with refused show ?thesis by blast
  next
    case (Inr rec)
    with rr have row: "row_to_record known ?row = Inr ?row" by blast
    show ?thesis
    proof (cases "active_count db sees (nk_owner_agent p) < MAX_SCHEDULED_TASKS_PER_AGENT
        \<and> tasks_admit db sees ?row = None")
      case True
      with unfolded row show ?thesis by (intro created) simp_all
    next
      case False
      with unfolded row have "(\<exists>e. x = Inl e) \<and> db' = db" by (auto split: if_splits option.splits)
      with refused show ?thesis by blast
    qed
  qed
qed

lemma create_inv:
  assumes inv: "sched_inv db" and has_next: "nk_next_run_at p \<noteq> None"
  shows "sched_inv (snd (create_in_tx known db sees now i p))"
    and "sched_le db (snd (create_in_tx known db sees now i p))"
proof -
  obtain x db' where c: "create_in_tx known db sees now i p = (x, db')" by (meson surj_pair)
  from c have "sched_inv db' \<and> sched_le db db'"
  proof (cases rule: create_in_tx_cases)
    case created
    let ?r = "row_of_payload i now p"
    have fresh: "\<forall>s \<in> set (sd_tasks db). sk_id s \<noteq> sk_id ?r"
      and org: "sd_agents db (sk_owner_agent ?r) = Some (sk_org ?r)"
      using created(3) by (auto simp: tasks_admit_def split: option.splits if_splits)
    have "task_ok db ?r"
      using created(4) has_next org
      by (auto simp: task_ok_def row_to_record_def row_of_payload_def scheduled_task_name_try_from_def
          scheduled_prompt_try_from_def split: sum.splits if_splits)
    moreover have "task_ok db' r = task_ok db r" for r using created by (simp add: task_ok_def)
    ultimately show ?thesis using inv fresh created
      by (auto simp: sched_inv_def sched_le_def image_iff intro: task_le_refl)
  qed (use inv in simp)
  then show "sched_inv (snd (create_in_tx known db sees now i p))"
    "sched_le db (snd (create_in_tx known db sees now i p))" by (simp_all add: c)
qed

lemma cancel_inv:
  assumes "sched_inv db"
  shows "sched_inv (snd (cancel_in_tx db sees now task owner)) \<and> sched_le db (snd (cancel_in_tx db sees now task owner))"
proof -
  have *: "task_le r (r\<lparr>sk_state := TaskCancelled, sk_next_run_at := None, sk_updated_at := now\<rparr>)" for r
    by (simp add: task_le_def)
  show ?thesis using assms update_rows [OF assms *]
    by (auto simp: cancel_in_tx_def split: option.splits)
qed

lemma record_fired_inv:
  assumes "sched_inv db"
  shows "sched_inv (record_fired db now task req at next) \<and> sched_le db (record_fired db now task req at next)"
proof -
  have *: "task_le r (r\<lparr>sk_last_fired_at := Some at, sk_last_request := Some req, sk_next_run_at := next,
      sk_state := (if next \<noteq> None then TaskActive else TaskDone), sk_updated_at := now\<rparr>)" for r
    by (simp add: task_le_def)
  show ?thesis using update_rows [OF assms *] by (simp add: record_fired_def)
qed

lemma http_cancel_inv:
  assumes "sched_inv db"
  shows "sched_inv (snd (http_cancel_task le db now ca agent task))
     \<and> sched_le db (snd (http_cancel_task le db now ca agent task))"
proof -
  have *: "task_le r (r\<lparr>sk_state := TaskCancelled, sk_next_run_at := None, sk_updated_at := now\<rparr>)" for r
    by (simp add: task_le_def)
  show ?thesis using assms update_rows [OF assms *]
    by (auto simp: http_cancel_task_def Let_def split: option.splits)
qed

lemma sched_step_keeps: "sched_step known le db e db' \<Longrightarrow> sched_inv db \<Longrightarrow> sched_inv db' \<and> sched_le db db'"
  by (induction rule: sched_step.induct)
    (simp_all add: create_for_user_def cancel_for_user_def create_inv cancel_inv record_fired_inv http_cancel_inv)

interpretation tasks: monotone_system sched_init "sched_step known le" sched_inv sched_le
proof unfold_locales
  show "sched_init s \<Longrightarrow> sched_inv s" for s by (simp add: sched_init_def sched_inv_def)
  show "sched_inv s \<Longrightarrow> sched_step known le s e t \<Longrightarrow> sched_inv t" for s e t using sched_step_keeps by blast
  show "sched_le s s" for s by simp
  show "sched_le s t \<Longrightarrow> sched_le t u \<Longrightarrow> sched_le s u" for s t u by (rule sched_le_trans)
  show "sched_inv s \<Longrightarrow> sched_step known le s e t \<Longrightarrow> sched_le s t" for s e t using sched_step_keeps by blast
qed

lemma sched_inv_distinct: "sched_inv db \<Longrightarrow> distinct (map sk_id (sd_tasks db))"
  by (simp add: sched_inv_def)

section \<open>Which tasks are served\<close>

lemma row_to_record_Inr: "row_to_record known r = Inr rec \<Longrightarrow> rec = r"
  by (auto simp: row_to_record_def split: sum.splits if_splits)

lemma claim_due_Inr: "claim_due known db now limit = Inr due \<Longrightarrow> due = due_rows db now limit"
proof -
  assume "claim_due known db now limit = Inr due"
  then have m: "map (row_to_record known) (due_rows db now limit) = map Inr due"
    by (simp add: claim_due_def collect_results_Inr)
  have eq: "map (row_to_record known) xs = map Inr ys \<Longrightarrow> xs = ys" for xs ys
    by (induction xs arbitrary: ys) (auto dest: row_to_record_Inr)
  from eq [OF m] show ?thesis by simp
qed

lemma claim_due_mem:
  "claim_due known db now limit = Inr due \<Longrightarrow> r \<in> set due \<Longrightarrow> r \<in> set (sd_tasks db) \<and> is_due now r"
  by (auto dest!: claim_due_Inr in_set_takeD simp: due_rows_def)

lemma sort_key_split: "sort_key k xs = sort_key k (filter (\<lambda>x. k x \<le> t) xs) @ sort_key k (filter (\<lambda>x. \<not> k x \<le> t) xs)"
proof (rule properties_for_sort_key)
  have stable: "filter (\<lambda>y. k x = k y) (sort_key k ys) = filter (\<lambda>y. k x = k y) ys" for x ys
    using sort_key_stable [of k "k x" ys] by (simp add: eq_commute)
  show "mset (sort_key k (filter (\<lambda>x. k x \<le> t) xs) @ sort_key k (filter (\<lambda>x. \<not> k x \<le> t) xs)) = mset xs"
    by simp
  show "filter (\<lambda>y. k x = k y) (sort_key k (filter (\<lambda>x. k x \<le> t) xs) @ sort_key k (filter (\<lambda>x. \<not> k x \<le> t) xs))
      = filter (\<lambda>y. k x = k y) xs" if "x \<in> set (sort_key k (filter (\<lambda>x. k x \<le> t) xs) @ sort_key k (filter (\<lambda>x. \<not> k x \<le> t) xs))" for x
  proof (cases "k x \<le> t")
    case True
    have "filter (\<lambda>y. k x = k y \<and> k y \<le> t) xs = filter (\<lambda>y. k x = k y) xs"
      "filter (\<lambda>y. k x = k y \<and> \<not> k y \<le> t) xs = []"
      using True by (auto intro: filter_cong simp: filter_empty_conv)
    then show ?thesis by (simp add: stable conj_commute)
  next
    case False
    have "filter (\<lambda>y. k x = k y \<and> k y \<le> t) xs = []"
      "filter (\<lambda>y. k x = k y \<and> \<not> k y \<le> t) xs = filter (\<lambda>y. k x = k y) xs"
      using False by (auto intro: filter_cong simp: filter_empty_conv)
    then show ?thesis by (simp add: stable conj_commute)
  qed
  show "sorted (map k (sort_key k (filter (\<lambda>x. k x \<le> t) xs) @ sort_key k (filter (\<lambda>x. \<not> k x \<le> t) xs)))"
    by (auto simp: sorted_append)
qed

text \<open>A full batch of older due tasks shuts out every other one.\<close>

lemma due_rows_older:
  assumes late: "t \<le> now" and full: "length (filter (is_due t) (sd_tasks db)) = limit"
  shows "set (due_rows db now limit) = {r \<in> set (sd_tasks db). is_due t r}"
proof -
  let ?k = "\<lambda>r. case sk_next_run_at r of None \<Rightarrow> 0 | Some u \<Rightarrow> u"
  let ?old = "filter (is_due t) (sd_tasks db)"
  have le: "filter (\<lambda>r. ?k r \<le> t) (filter (is_due now) (sd_tasks db)) = ?old"
    unfolding filter_filter by (rule filter_cong) (use late in \<open>auto simp: is_due_def split: option.splits\<close>)
  have "due_rows db now limit = take limit (sort_key ?k ?old
      @ sort_key ?k (filter (\<lambda>r. \<not> ?k r \<le> t) (filter (is_due now) (sd_tasks db))))"
    unfolding due_rows_def by (subst sort_key_split [where t = t]) (simp only: le)
  also have "\<dots> = sort_key ?k ?old" using full by simp
  finally show ?thesis by auto
qed

section \<open>What a fire does\<close>

lemma wake_agentE:
  assumes "wake_agent env now task w = Some (Inr req, w')"
  obtains human thread state seed td key qd where
    "fire_human env task = Inr human"
    "initiate_thread env now task \<lparr>ca_user = sk_created_by task, ca_org = sk_org task\<rparr> human (sw_threads w)
       = Some (Inr (thread, state, seed), td)"
    "idempotency_key_try_from (fire_key env task (fire_at_of task now)) = Inr key"
    "enqueue_trigger (participation_view td (sw_queue w)) now (mi_request (se_mint env (sk_id task)))
       (se_traceparent env) (fire_trigger task human thread state seed key) = (Inr req, qd)"
    "w' = w\<lparr>sw_threads := td, sw_queue := qd\<rparr>"
  using assms unfolding wake_agent_def
  by (auto split: sum.splits option.splits prod.splits)

lemma idempotency_key_try_from_eq: "idempotency_key_try_from raw = Inr key \<Longrightarrow> key = raw"
  by (auto simp: idempotency_key_try_from_def split: if_splits)

lemma fireE:
  assumes "fire env now task w = Some (Inr (), w')"
  obtains req w1 where "wake_agent env now task w = Some (Inr req, w1)"
    "w' = w1\<lparr>sw_tasks := record_fired (sw_tasks w1) now (sk_id task) req (fire_at_of task now)
            (next_after (se_tz env) (sk_schedule task) now)\<rparr>"
  using assms unfolding fire_def by (auto split: sum.splits option.splits prod.splits)

lemma wake_agent_tasks: "wake_agent env now task w = Some (x, w') \<Longrightarrow> sw_tasks w' = sw_tasks w"
  unfolding wake_agent_def by (auto split: sum.splits option.splits prod.splits)

text \<open>The assertions of \<open>create_thread\<close> hold: a channel and a counterpart exclude each other.\<close>

lemma initiate_thread_total: "initiate_thread env now task ca human td \<noteq> None"
  unfolding initiate_thread_def
  by (cases "sk_channel task") (auto simp: create_thread_def Let_def split: sum.splits option.splits prod.splits)

lemma fire_total: "fire env now task w \<noteq> None"
  by (auto simp: fire_def wake_agent_def initiate_thread_total split: sum.splits option.splits prod.splits)

lemma fire_all_total: "fire_all env now tasks n w \<noteq> None"
proof (induction tasks arbitrary: n w)
  case (Cons task tasks)
  obtain x w' where "fire env now task w = Some (x, w')" using fire_total by (metis option.exhaust prod.exhaust)
  with Cons show ?case by (cases x) simp_all
qed simp

lemma fire_failed: "fire env now task w = Some (Inl e, w') \<Longrightarrow> sw_tasks w' = sw_tasks w"
  unfolding fire_def by (auto dest: wake_agent_tasks split: sum.splits option.splits prod.splits)

section \<open>The thread a fire initiates\<close>

lemma create_thread_ok:
  "create_thread td now i ca channel root by cp = Some (Inr th, td') \<Longrightarrow>
     th = i \<and> i \<notin> th_id ` set (td_threads td)
     \<and> td' = td\<lparr>td_threads := td_threads td @
        [\<lparr>th_id = i, th_org = ca_org ca, th_channel = channel, th_root_message = root, th_created_by = by,
          th_dm_counterpart = cp, th_created_at = now, th_last_activity_at = now\<rparr>]\<rparr>"
  by (auto simp: create_thread_def split: if_splits)

lemma resolve_participation_ok:
  "resolve_participation td now i ca th agent = (Inr st, td') \<Longrightarrow>
     (\<exists>p \<in> set (td_participation td'). ats_id p = st \<and> ats_thread p = th \<and> ats_agent p = agent)
     \<and> td_threads td' = td_threads td \<and> td_messages td' = td_messages td"
  by (auto simp: resolve_participation_def dest: find_Some_mem split: option.splits)

lemma append_message_ok:
  assumes "append_message td now i ca th m = (Inr sd, td')" "nm_idempotency_key m = None"
  shows "sd = i \<and> td_participation td' = td_participation td
     \<and> (\<exists>r. td_messages td' = td_messages td @ [r] \<and> ms_id r = i \<and> ms_thread r = th \<and> ms_kind r = nm_kind m
          \<and> ms_owner_agent r = nm_owner_agent m \<and> ms_body r = nm_body m)
     \<and> td_threads td' = update_where (\<lambda>t. th_id t = th) (\<lambda>t. t\<lparr>th_last_activity_at := now\<rparr>) (td_threads td)"
proof -
  obtain x td1 where s: "append_statement td now i (ca_user ca) th m = (x, td1)" by (meson surj_pair)
  then have "x = Inr True \<and> sd = i \<and> td' = td1"
    using assms by (cases x) (auto simp: append_message_def split: bool.splits)
  with s show ?thesis by (auto simp: message_row_of_def elim!: append_statement_cases)
qed

definition initiated :: "(timestamp \<Rightarrow> string) \<Rightarrow> scheduled_task \<Rightarrow> uuid \<Rightarrow> thread_db \<Rightarrow> uuid \<Rightarrow> uuid \<Rightarrow> uuid \<Rightarrow> thread_db \<Rightarrow> bool" where
  "initiated rfc3339 task human td thread state seed td' \<longleftrightarrow>
     map th_id (td_threads td') = map th_id (td_threads td) @ [thread]
     \<and> thread \<notin> th_id ` set (td_threads td)
     \<and> (\<exists>t \<in> set (td_threads td'). th_id t = thread \<and> th_org t = sk_org task \<and> th_channel t = sk_channel task
          \<and> th_created_by t = human \<and> (th_dm_counterpart t = None \<longleftrightarrow> sk_channel task \<noteq> None))
     \<and> (\<exists>p \<in> set (td_participation td'). ats_id p = state \<and> ats_thread p = thread \<and> ats_agent p = sk_owner_agent task)
     \<and> (\<exists>m. td_messages td' = td_messages td @ [m] \<and> ms_id m = seed \<and> ms_thread m = thread \<and> ms_kind m = SystemNote
          \<and> ms_owner_agent m = Some (sk_owner_agent task)
          \<and> ms_body m = User [UText (seed_prompt_text rfc3339 task)])"

lemma update_where_memI: "r \<in> set t \<Longrightarrow> (if p r then f r else r) \<in> set (update_where p f t)"
  unfolding set_update_where by (rule imageI)

lemma join_ok:
  assumes "join_participation_and_seed env now task ca th td = (Inr (state, seed), td')"
  shows "map th_id (td_threads td') = map th_id (td_threads td)"
    and "t \<in> set (td_threads td) \<Longrightarrow> \<exists>t' \<in> set (td_threads td'). th_id t' = th_id t \<and> th_org t' = th_org t
           \<and> th_channel t' = th_channel t \<and> th_created_by t' = th_created_by t \<and> th_dm_counterpart t' = th_dm_counterpart t"
    and "\<exists>p \<in> set (td_participation td'). ats_id p = state \<and> ats_thread p = th \<and> ats_agent p = sk_owner_agent task"
    and "\<exists>m. td_messages td' = td_messages td @ [m] \<and> ms_id m = seed \<and> ms_thread m = th \<and> ms_kind m = SystemNote
          \<and> ms_owner_agent m = Some (sk_owner_agent task) \<and> ms_body m = User [UText (seed_prompt_text (se_rfc3339 env) task)]"
proof -
  let ?msg = "seed_message (se_rfc3339 env) task"
  let ?resolve = "\<lambda>td. resolve_participation td now (mi_state (se_mint env (sk_id task))) ca th (sk_owner_agent task)"
  let ?append = "\<lambda>td. append_message td now (mi_seed (se_mint env (sk_id task))) ca th ?msg"
  have key: "nm_idempotency_key ?msg = None" by (simp add: seed_message_def)
  obtain td1 where "(?append td = (Inr seed, td1) \<and> ?resolve td1 = (Inr state, td'))
      \<or> (?resolve td = (Inr state, td1) \<and> ?append td1 = (Inr seed, td'))"
    using assms unfolding join_participation_and_seed_def Let_def
    by (auto split: if_splits sum.splits prod.splits)
  then have main: "td_threads td' = update_where (\<lambda>t. th_id t = th) (\<lambda>t. t\<lparr>th_last_activity_at := now\<rparr>) (td_threads td)
      \<and> (\<exists>p \<in> set (td_participation td'). ats_id p = state \<and> ats_thread p = th \<and> ats_agent p = sk_owner_agent task)
      \<and> (\<exists>r. td_messages td' = td_messages td @ [r] \<and> ms_id r = seed \<and> ms_thread r = th \<and> ms_kind r = nm_kind ?msg
          \<and> ms_owner_agent r = nm_owner_agent ?msg \<and> ms_body r = nm_body ?msg)"
    by (auto dest!: append_message_ok [OF _ key] resolve_participation_ok)
  then show "map th_id (td_threads td') = map th_id (td_threads td)"
    by (simp add: map_update_where)
  show "\<exists>t' \<in> set (td_threads td'). th_id t' = th_id t \<and> th_org t' = th_org t
      \<and> th_channel t' = th_channel t \<and> th_created_by t' = th_created_by t \<and> th_dm_counterpart t' = th_dm_counterpart t"
    if "t \<in> set (td_threads td)"
  proof (rule bexI)
    show "(if th_id t = th then t\<lparr>th_last_activity_at := now\<rparr> else t) \<in> set (td_threads td')"
      using conjunct1 [OF main] update_where_memI [OF that, of "\<lambda>t. th_id t = th"] by simp
  qed simp
  show "\<exists>p \<in> set (td_participation td'). ats_id p = state \<and> ats_thread p = th \<and> ats_agent p = sk_owner_agent task"
    using main by blast
  show "\<exists>m. td_messages td' = td_messages td @ [m] \<and> ms_id m = seed \<and> ms_thread m = th \<and> ms_kind m = SystemNote
      \<and> ms_owner_agent m = Some (sk_owner_agent task) \<and> ms_body m = User [UText (seed_prompt_text (se_rfc3339 env) task)]"
    using main by (auto simp: seed_message_def)
qed

lemma initiate_thread_ok:
  assumes "initiate_thread env now task ca human td = Some (Inr (thread, state, seed), td')" "ca_org ca = sk_org task"
  shows "initiated (se_rfc3339 env) task human td thread state seed td'"
proof -
  obtain cp td1 where c: "create_thread td now (mi_thread (se_mint env (sk_id task))) ca (sk_channel task) None human cp
      = Some (Inr thread, td1)"
    and j: "join_participation_and_seed env now task ca thread td1 = (Inr (state, seed), td')"
    and cp: "cp = None \<longleftrightarrow> sk_channel task \<noteq> None"
    using assms(1) unfolding initiate_thread_def Let_def
    by (auto split: sum.splits option.splits prod.splits)
  note made = create_thread_ok [OF c] and joined = join_ok [OF j]
  show ?thesis unfolding initiated_def
    using made joined(1,3,4) joined(2) [of "last (td_threads td1)"] cp assms(2) by auto
qed

section \<open>The trigger of a fire\<close>

lemma enqueue_new_row:
  assumes "enqueue_trigger qd now rid tp trig = (Inr i, qd')"
    and "\<not> (\<exists>r \<in> set (prompt_requests qd). same_idempotency (nt_org trig) (nt_idempotency_key trig) r)"
  obtains receiver where "i = rid" "resolve_agent_colleague qd (nt_acting_user trig) (nt_org trig) (nt_receiver_agent trig) = Inr receiver"
    "prompt_requests qd' = prompt_requests qd @ [trigger_row now rid tp receiver trig]"
proof -
  have "find (same_idempotency (nt_org trig) (nt_idempotency_key trig)) (prompt_requests qd) = None"
    using assms(2) by (auto simp: find_None_mem)
  with assms(1) show ?thesis
    by (auto simp: enqueue_trigger_def Let_def seed_dag_def split: sum.splits option.splits if_splits intro: that)
qed

lemma enqueue_known_row:
  assumes "enqueue_trigger qd now rid tp trig = (Inr i, qd')" "queue_inv qd"
    and "r \<in> set (prompt_requests qd)" "same_idempotency (nt_org trig) (nt_idempotency_key trig) r"
  shows "i = pr_id r \<and> qd' = qd"
proof -
  let ?key = "\<lambda>r. (pr_org r, pr_idempotency_key r)"
  have "same_idempotency (nt_org trig) (nt_idempotency_key trig) = (\<lambda>s. ?key s = ?key r)"
    using assms(4) by (auto simp: same_idempotency_def fun_eq_iff)
  moreover have "find (\<lambda>s. ?key s = ?key r) (prompt_requests qd) = Some r"
    using assms(2,3) by (intro find_key_unique) (simp_all add: queue_inv_def)
  ultimately show ?thesis using assms(1)
    by (auto simp: enqueue_trigger_def Let_def split: sum.splits option.splits if_splits)
qed

lemma participation_view_frames [simp]:
  "prompt_requests (participation_view td qd) = prompt_requests qd"
  "queue_inv (participation_view td qd) = queue_inv qd"
proof -
  have "row_seq_ok (participation_view td qd) = row_seq_ok qd" "seq_of (participation_view td qd) = seq_of qd"
    by (simp_all add: fun_eq_iff row_seq_ok_def seq_of_def participation_view_def cong: option.case_cong)
  then show "queue_inv (participation_view td qd) = queue_inv qd"
    by (simp add: queue_inv_def participation_view_def)
qed (simp add: participation_view_def)

section \<open>A fire that cannot start\<close>

text \<open>Without the membership of the task's user the thread is refused, and nothing has changed.\<close>

lemma fire_without_member:
  assumes "\<not> td_is_member (sw_threads w) (sk_created_by task) (sk_org task)"
  shows "\<exists>e. fire env now task w = Some (Inl e, w)"
proof (cases "fire_human env task")
  case (Inl e)
  then show ?thesis by (simp add: fire_def wake_agent_def)
next
  case (Inr human)
  let ?ca = "\<lparr>ca_user = sk_created_by task, ca_org = sk_org task\<rparr>"
  have refused: "create_thread (sw_threads w) now i ?ca (sk_channel task) None human cp
      = Some (Inl (ThreadDb RlsViolation), sw_threads w)" if "cp = None \<longleftrightarrow> sk_channel task \<noteq> None" for i cp
    using assms that by (auto simp: create_thread_def)
  have "\<exists>e. initiate_thread env now task ?ca human (sw_threads w) = Some (Inl e, sw_threads w)"
  proof (cases "sk_channel task")
    case (Some c)
    with refused [of None] show ?thesis by (simp add: initiate_thread_def Let_def)
  next
    case None
    then show ?thesis using refused [of "Some _"]
      by (cases "resolve_agent (se_dir env) (sk_org task) (sk_owner_agent task)") (simp_all add: initiate_thread_def Let_def)
  qed
  then show ?thesis by (auto simp: fire_def wake_agent_def Inr)
qed

lemma fire_all_failing:
  "\<forall>task \<in> set tasks. \<exists>e. fire env now task w = Some (Inl e, w) \<Longrightarrow> fire_all env now tasks n w = Some (n, w)"
  by (induction tasks arbitrary: n) auto

section \<open>Counting the active tasks\<close>

lemma filter_update_one:
  assumes "distinct (map g t)" "r \<in> set t" "\<not> q r" "q (f r)" "\<And>s. p s \<longleftrightarrow> g s = g r"
  shows "length (filter q (update_where p f t)) = Suc (length (filter q t))"
  using assms(1,2)
proof (induction t)
  case (Cons s t)
  show ?case
  proof (cases "s = r")
    case True
    with Cons.prems assms(5) have "update_where p f t = t" by (intro update_where_id) (auto simp: image_iff)
    moreover have "p r" by (simp add: assms(5))
    ultimately show ?thesis using True assms(3,4) by simp
  next
    case False
    with Cons assms(5) show ?thesis by (auto simp: image_iff)
  qed
qed simp

end
