(* ===== verification/Scheduling_Properties.thy ===== *)
theory Scheduling_Properties
  imports Scheduling_Laws Queue_Properties
begin

text \<open>
  The properties of scheduled tasks, each with an instance on one org with one user and one agent.
\<close>

section \<open>A small world\<close>

definition sun_0230 :: time_of_day where "sun_0230 = \<lparr>tod_hour = 2, tod_minute = 30\<rparr>"

text \<open>US Eastern time around the change of 2026-03-08, 07:00 UTC.\<close>

definition eastern :: zone where
  "eastern = shift_zone (- 18000000000) (- 14400000000) 1772953200000000"

lemma eastern_laws: "zone_laws eastern"
  unfolding eastern_def by (rule shift_zone_laws) (simp add: USECS_PER_DAY_def)

definition sundays :: weekdays where "sundays = 0x40"

lemma sundays_contains: "weekdays_contains sundays w \<longleftrightarrow> w = Sun"
  by (cases w) (simp_all add: weekdays_contains_def weekday_mask_def sundays_def)

definition sample_task :: scheduled_task where
  "sample_task = \<lparr>sk_id = 5, sk_owner_agent = 20, sk_org = 7, sk_created_by = 10, sk_channel = None,
     sk_name = ''retro'', sk_prompt = ''prepare'', sk_schedule = Recurring sundays sun_0230 ''eastern'',
     sk_next_run_at = Some 1772350200000000, sk_last_fired_at = None, sk_last_request = None,
     sk_state = TaskActive, sk_created_at = 0, sk_updated_at = 0\<rparr>"

definition sample_directory :: directory where
  "sample_directory = \<lparr>dr_rows = [\<lparr>dy_id = 30, dy_org = 7, dy_kind = CkAgent, dy_user = None, dy_agent = Some 20\<rparr>,
       \<lparr>dy_id = 31, dy_org = 7, dy_kind = CkHuman, dy_user = Some 10, dy_agent = None\<rparr>],
     dr_agents = [20 \<mapsto> ''clerk''], dr_users = [10 \<mapsto> (None, ''tom@x'')]\<rparr>"

definition sample_env :: "uuid \<Rightarrow> sched_env" where
  "sample_env base = \<lparr>se_tz = (\<lambda>_. eastern), se_tz_known = (\<lambda>n. n = ''eastern''), se_dir = sample_directory,
     se_uuid = show_nat, se_rfc3339 = show_int, se_show_colleague_error = (\<lambda>_. ''unmapped''),
     se_resolve_times_out = (\<lambda>_. False), se_append_first = (\<lambda>_. False),
     se_mint = (\<lambda>_. \<lparr>mi_thread = base, mi_state = base + 1, mi_seed = base + 2, mi_request = base + 3\<rparr>),
     se_traceparent = None\<rparr>"

definition empty_threads :: thread_db where
  "empty_threads = \<lparr>td_threads = [], td_seq = Map.empty, td_messages = [], td_participation = [],
     td_compactions = Map.empty, td_checkpoints = Map.empty, td_artifacts = Map.empty, td_users = [31 \<mapsto> 10],
     td_channel_members = [], td_archived = [], td_members = [(10, 7)]\<rparr>"

definition sched_queue :: queue_db where
  "sched_queue = \<lparr>prompt_requests = [], claim_leases = Map.empty, claim_seq = Map.empty, dags = Map.empty,
     colleagues = [\<lparr>co_id = 30, co_org = 7, co_agent = Some 20\<rparr>, \<lparr>co_id = 31, co_org = 7, co_agent = None\<rparr>],
     state_org = Map.empty, background_org = Map.empty, org_members = [(10, 7)]\<rparr>"

definition sample_tasks :: sched_db where
  "sample_tasks = \<lparr>sd_tasks = [sample_task], sd_agents = [20 \<mapsto> 7], sd_members = [(10, 7)]\<rparr>"

definition sample_sched_world :: sched_world where
  "sample_sched_world = \<lparr>sw_tasks = sample_tasks, sw_threads = empty_threads, sw_queue = sched_queue\<rparr>"

definition sunday :: timestamp where "sunday = 1772350205000000"

section \<open>The next fire\<close>

lemma weekdays_empty_contains: "weekdays_is_empty ws \<Longrightarrow> \<not> weekdays_contains ws w"
  by (simp add: weekdays_is_empty_def weekdays_contains_def)

lemma next_after_recurring:
  "next_after tz (Recurring ws t name) now = (if weekdays_is_empty ws then None else next_recurring now ws t (tz name))"
  by (simp add: next_after_def)

text \<open>
  C22. The next fire of a recurring schedule is the least of its fires in the future, a fire being
  the first instant at which a clock in the zone shows the time on a chosen weekday; and when the
  time exists on every day of some chosen weekday, there is always a next fire.
\<close>

theorem next_fire_is_the_least:
  assumes "zone_laws (tz name)" "tod_ok t"
  shows "(\<forall>u. next_after tz (Recurring ws t name) now = Some u \<longrightarrow>
        now < u \<and> (\<exists>d. fires_on ws t (tz name) d u) \<and> (\<forall>d v. fires_on ws t (tz name) d v \<and> now < v \<longrightarrow> u \<le> v))
    \<and> (\<forall>w. weekdays_contains ws w \<and> (\<forall>d. weekday_of d = w \<longrightarrow> first_at (tz name) (wall d t) \<noteq> None)
        \<longrightarrow> next_after tz (Recurring ws t name) now \<noteq> None)"
proof (intro conjI allI impI)
  fix u
  assume "next_after tz (Recurring ws t name) now = Some u"
  then have "next_recurring now ws t (tz name) = Some u" by (simp add: next_after_recurring split: if_splits)
  from next_recurring_least [OF assms this]
  show "now < u" "\<exists>d. fires_on ws t (tz name) d u" by simp_all
next
  fix u d v
  assume n: "next_after tz (Recurring ws t name) now = Some u" and v: "fires_on ws t (tz name) d v \<and> now < v"
  from n have "next_recurring now ws t (tz name) = Some u" by (simp add: next_after_recurring split: if_splits)
  from next_recurring_least [OF assms this] v show "u \<le> v" by blast
next
  fix w
  assume w: "weekdays_contains ws w \<and> (\<forall>d. weekday_of d = w \<longrightarrow> first_at (tz name) (wall d t) \<noteq> None)"
  then have "\<not> weekdays_is_empty ws" using weekdays_empty_contains by blast
  with next_recurring_live [OF assms, of ws w now] w
  show "next_after tz (Recurring ws t name) now \<noteq> None" by (simp add: next_after_recurring)
qed

text \<open>Two Sundays before the change the next fire is a week away, at half past two.\<close>

theorem next_fire_is_the_least_witness:
  "next_after (\<lambda>_. eastern) (Recurring sundays sun_0230 ''eastern'') (sunday - 604800000000) = Some 1772350200000000
   \<and> fires_on sundays sun_0230 eastern 20513 1772350200000000
   \<and> 1772350200000000 \<le> (1773556200000000 :: int)"
proof -
  note defs = next_after_def weekdays_is_empty_def sundays_def [symmetric] next_recurring_def local_day_def local_of_def
    eastern_def shift_zone_def sunday_def USECS_PER_DAY_def sundays_contains weekday_of_def weekday_all_def
    wall_def sun_0230_def first_at_def next_recurring_from.simps
  have ne: "sundays \<noteq> 0" by (simp add: sundays_def)
  have nxt: "next_after (\<lambda>_. eastern) (Recurring sundays sun_0230 ''eastern'') (sunday - 604800000000) = Some 1772350200000000"
    using ne by (simp add: defs)
  have later: "fires_on sundays sun_0230 eastern 20527 1773556200000000"
    by (simp add: fires_on_def defs)
  have "tod_ok sun_0230" by (simp add: tod_ok_def sun_0230_def)
  from next_fire_is_the_least [of "\<lambda>_. eastern" "''eastern''", OF eastern_laws this, of sundays "sunday - 604800000000"] nxt later
  have "1772350200000000 \<le> (1773556200000000 :: int)" by (auto simp: sunday_def)
  moreover have "fires_on sundays sun_0230 eastern 20513 1772350200000000" by (simp add: fires_on_def defs)
  ultimately show ?thesis using nxt by blast
qed

section \<open>A fire of the small world\<close>

lemmas world_defs = sample_task_def sample_directory_def sample_env_def empty_threads_def sample_tasks_def
  sample_sched_world_def sched_queue_def sunday_def
lemmas fire_defs = fire_human_def resolve_user_def initiate_thread_def resolve_agent_def create_thread_def
  join_participation_and_seed_def resolve_participation_def append_message_def append_statement_def
  thread_visible_def td_is_member_def message_admitted_def seed_message_def seed_prompt_text_def key_taken_def
  last_seq_def message_row_of_def i64_max_def fire_trigger_def participation_view_def fire_at_of_def

lemma sample_fire_key:
  "sk_id task = 5 \<Longrightarrow> sk_next_run_at task = Some 1772350200000000 \<Longrightarrow>
   idempotency_key_try_from (fire_key (sample_env b) task (fire_at_of task now)) = Inr ''sched-5-1772350200''"
proof -
  have "show_nat 5 = ''5''" "show_nat 1772350200 = ''1772350200''"
    by (simp_all add: show_nat.simps digit_char_def)
  then have "show_int (1772350200000000 div 1000000) = ''1772350200''" "show_nat 5 = ''5''"
    by (simp_all add: show_int_def)
  moreover assume "sk_id task = 5" "sk_next_run_at task = Some 1772350200000000"
  ultimately show ?thesis
    by (simp add: fire_key_def sample_env_def fire_at_of_def idempotency_key_try_from_def MAX_IDEMPOTENCY_KEY_BYTES_def)
qed

definition sample_thread :: "timestamp \<Rightarrow> thread_row" where
  "sample_thread now = \<lparr>th_id = 100, th_org = 7, th_channel = None, th_root_message = None, th_created_by = 31,
     th_dm_counterpart = Some 30, th_created_at = now, th_last_activity_at = now\<rparr>"

definition sample_note :: "timestamp \<Rightarrow> message_row" where
  "sample_note now = \<lparr>ms_id = 102, ms_thread = 100, ms_seq = 1, ms_kind = SystemNote, ms_sender = None,
     ms_owner_agent = Some 20, ms_receiver = None, ms_body = User [UText ''prepare''], ms_request = None,
     ms_org = 7, ms_created_at = now, ms_idempotency_key = None\<rparr>"

definition sample_woken_threads :: "timestamp \<Rightarrow> thread_db" where
  "sample_woken_threads now = empty_threads\<lparr>td_threads := [sample_thread now], td_seq := [100 \<mapsto> 1], td_messages := [sample_note now],
     td_participation := [\<lparr>ats_id = 101, ats_thread = 100, ats_agent = 20, ats_org = 7, ats_created_at = now\<rparr>]\<rparr>"

definition sample_woken_queue :: "timestamp \<Rightarrow> queue_db" where
  "sample_woken_queue now = snd (enqueue_trigger (participation_view (sample_woken_threads now) sched_queue) now 103 None
     (fire_trigger sample_task 31 100 101 102 ''sched-5-1772350200''))"

lemma sample_human: "fire_human (sample_env b) sample_task = Inr 31"
  by (simp add: fire_human_def sample_env_def resolve_user_def sample_directory_def sample_task_def)

lemma sample_create:
  "create_thread empty_threads now 100 \<lparr>ca_user = 10, ca_org = 7\<rparr> None None 31 (Some 30)
     = Some (Inr 100, empty_threads\<lparr>td_threads := [sample_thread now]\<rparr>)"
  by (simp add: create_thread_def empty_threads_def td_is_member_def sample_thread_def)

lemma sample_resolve:
  "resolve_participation (empty_threads\<lparr>td_threads := [sample_thread now]\<rparr>) now 101 \<lparr>ca_user = 10, ca_org = 7\<rparr> 100 20
     = (Inr 101, empty_threads\<lparr>td_threads := [sample_thread now],
          td_participation := [\<lparr>ats_id = 101, ats_thread = 100, ats_agent = 20, ats_org = 7, ats_created_at = now\<rparr>]\<rparr>)"
  by (simp add: resolve_participation_def thread_visible_def td_is_member_def empty_threads_def sample_thread_def)

lemma sample_append:
  "append_message (empty_threads\<lparr>td_threads := [sample_thread now],
      td_participation := [\<lparr>ats_id = 101, ats_thread = 100, ats_agent = 20, ats_org = 7, ats_created_at = now\<rparr>]\<rparr>)
     now 102 \<lparr>ca_user = 10, ca_org = 7\<rparr> 100 (seed_message show_int sample_task) = (Inr 102, sample_woken_threads now)"
  by (simp add: append_message_def append_statement_def thread_visible_def td_is_member_def empty_threads_def
      sample_thread_def seed_message_def seed_prompt_text_def message_admitted_def key_taken_def last_seq_def
      message_row_of_def i64_max_def sample_task_def sample_woken_threads_def sample_note_def)

lemma sample_initiate:
  "initiate_thread (sample_env 100) now sample_task \<lparr>ca_user = 10, ca_org = 7\<rparr> 31 empty_threads
     = Some (Inr (100, 101, 102), sample_woken_threads now)"
proof -
  have env: "se_mint (sample_env 100) 5 = \<lparr>mi_thread = 100, mi_state = 101, mi_seed = 102, mi_request = 103\<rparr>"
    "se_rfc3339 (sample_env 100) = show_int" "\<not> se_append_first (sample_env 100) 5"
    "resolve_agent (se_dir (sample_env 100)) 7 20 = Inr 30"
    by (simp_all add: sample_env_def resolve_agent_def sample_directory_def)
  have task: "sk_channel sample_task = None" "sk_org sample_task = 7" "sk_owner_agent sample_task = 20" "sk_id sample_task = 5"
    by (simp_all add: sample_task_def)
  show ?thesis
    by (simp add: initiate_thread_def task env sample_create join_participation_and_seed_def sample_resolve sample_append)
qed

lemma sample_enqueue_fire:
  "enqueue_trigger (participation_view (sample_woken_threads now) sched_queue) now 103 None
     (fire_trigger sample_task 31 100 101 102 ''sched-5-1772350200'') = (Inr 103, sample_woken_queue now)"
  by (simp add: sample_woken_queue_def participation_view_def sample_woken_threads_def sched_queue_def fire_trigger_def
      sample_task_def enqueue_defs)

lemma sample_wake:
  assumes w: "sw_threads w = empty_threads" "sw_queue w = sched_queue"
  shows "wake_agent (sample_env 100) now sample_task w
    = Some (Inr 103, w\<lparr>sw_threads := sample_woken_threads now, sw_queue := sample_woken_queue now\<rparr>)"
proof -
  have task: "sk_created_by sample_task = 10" "sk_org sample_task = 7" "sk_id sample_task = 5"
    "sk_next_run_at sample_task = Some 1772350200000000" by (simp_all add: sample_task_def)
  have env: "se_mint (sample_env 100) 5 = \<lparr>mi_thread = 100, mi_state = 101, mi_seed = 102, mi_request = 103\<rparr>"
    "se_traceparent (sample_env 100) = None" by (simp_all add: sample_env_def)
  show ?thesis
    by (simp add: wake_agent_def sample_human task w sample_initiate sample_fire_key env sample_enqueue_fire)
qed

lemma sample_world_sel: "sw_threads sample_sched_world = empty_threads" "sw_queue sample_sched_world = sched_queue"
  "sw_tasks sample_sched_world = sample_tasks"
  by (simp_all add: sample_sched_world_def)

lemma sample_fire:
  assumes "sw_threads w = empty_threads" "sw_queue w = sched_queue"
  shows "\<exists>w1. fire (sample_env 100) now sample_task w = Some (Inr (), w1)"
  by (simp add: fire_def sample_wake [OF assms])

section \<open>The hour that does not exist\<close>

text \<open>
  A weekly task whose time falls into next week's spring-forward gap dies: the fire before it
  finds no next one and marks the task done, although later weeks have their fires.
\<close>

theorem weekly_task_dies_in_the_gap:
  assumes laws: "zone_laws (se_tz env name)"
    and spec: "sk_schedule task = Recurring ws t name"
    and single: "\<forall>w. weekdays_contains ws w \<longleftrightarrow> w = weekday_of (local_day (se_tz env name) now)"
    and today: "first_at (se_tz env name) (wall (local_day (se_tz env name) now) t) = Some f" "f \<le> now"
    and gap: "first_at (se_tz env name) (wall (local_day (se_tz env name) now + 7) t) = None"
    and fire: "fire env now task w = Some (Inr (), w')"
  shows "(\<forall>r \<in> set (sd_tasks (sw_tasks w')). sk_id r = sk_id task \<longrightarrow> sk_state r = TaskDone \<and> sk_next_run_at r = None)
    \<and> (\<forall>k u. 2 \<le> k \<and> first_at (se_tz env name) (wall (local_day (se_tz env name) now + 7 * k) t) = Some u
         \<longrightarrow> fires_on ws t (se_tz env name) (local_day (se_tz env name) now + 7 * k) u \<and> now < u)"
proof (intro conjI allI impI)
  let ?z = "se_tz env name" and ?d = "local_day (se_tz env name) now"
  have "next_recurring now ws t ?z = None"
  proof (rule ccontr)
    assume "next_recurring now ws t ?z \<noteq> None"
    then obtain u where "next_recurring now ws t ?z = Some u" by blast
    from next_recurring_from_Some [OF this [unfolded next_recurring_def]]
    obtain j where j: "0 \<le> j" "j \<le> 8" "fires_on ws t ?z (?d + j) u" "now < u" by blast
    then have "j mod 7 = 0" using single by (intro weekday_of_inj [of ?d]) (simp add: fires_on_def)
    with j have "j = 0 \<or> j = 7" by presburger
    with j today gap show False by (auto simp: fires_on_def)
  qed
  then have none: "next_after (se_tz env) (sk_schedule task) now = None" by (simp add: spec next_after_recurring)
  from fireE [OF fire] obtain req w1
    where "w' = w1\<lparr>sw_tasks := record_fired (sw_tasks w1) now (sk_id task) req (fire_at_of task now) None\<rparr>"
    unfolding none by blast
  then show "\<forall>r \<in> set (sd_tasks (sw_tasks w')). sk_id r = sk_id task \<longrightarrow> sk_state r = TaskDone \<and> sk_next_run_at r = None"
    by (auto simp: record_fired_def set_update_where)
  fix k u
  assume "2 \<le> k \<and> first_at ?z (wall (?d + 7 * k) t) = Some u"
  moreover have "weekday_of (?d + 7 * k) = weekday_of ?d" by (rule weekday_of_weeks)
  ultimately show "fires_on ws t ?z (?d + 7 * k) u" "now < u"
    using single fire_after_two_days [OF laws, of now "?d + 7 * k" t u] by (simp_all add: fires_on_def)
qed

text \<open>Sunday 02:30 in New York, fired a week before the change of 2026.\<close>

theorem weekly_task_dies_in_the_gap_witness:
  "\<exists>w'. fire (sample_env 100) sunday sample_task sample_sched_world = Some (Inr (), w')
     \<and> map sk_state (sd_tasks (sw_tasks w')) = [TaskDone]
     \<and> fires_on sundays sun_0230 eastern 20527 1773556200000000 \<and> sunday < 1773556200000000"
proof -
  note defs = local_day_def local_of_def eastern_def shift_zone_def sunday_def USECS_PER_DAY_def weekday_of_def
    weekday_all_def wall_def sun_0230_def first_at_def
  have z: "se_tz (sample_env 100) ''eastern'' = eastern" by (simp add: sample_env_def)
  have spec: "sk_schedule sample_task = Recurring sundays sun_0230 ''eastern''" by (simp add: sample_task_def)
  have d: "local_day eastern sunday = 20513" by (simp add: defs)
  have single: "\<forall>w. weekdays_contains sundays w \<longleftrightarrow> w = weekday_of (local_day eastern sunday)"
    unfolding d sundays_contains by (simp add: weekday_of_def weekday_all_def)
  have today: "first_at eastern (wall (local_day eastern sunday) sun_0230) = Some 1772350200000000"
    "1772350200000000 \<le> sunday" unfolding d by (simp_all add: defs)
  have gap: "first_at eastern (wall (local_day eastern sunday + 7) sun_0230) = None" unfolding d by (simp add: defs)
  have later: "first_at eastern (wall (local_day eastern sunday + 7 * 2) sun_0230) = Some 1773556200000000"
    unfolding d by (simp add: defs)
  obtain w' where f: "fire (sample_env 100) sunday sample_task sample_sched_world = Some (Inr (), w')"
    using sample_fire [OF sample_world_sel(1,2)] by blast
  have rows: "map sk_id (sd_tasks (sw_tasks w')) = [5]"
  proof -
    from fireE [OF f] obtain req w1 where "wake_agent (sample_env 100) sunday sample_task sample_sched_world = Some (Inr req, w1)"
      and w': "w' = w1\<lparr>sw_tasks := record_fired (sw_tasks w1) sunday (sk_id sample_task) req
        (fire_at_of sample_task sunday) (next_after (se_tz (sample_env 100)) (sk_schedule sample_task) sunday)\<rparr>" .
    from wake_agent_tasks [OF this(1)] have "sw_tasks w1 = sample_tasks" by (simp add: sample_sched_world_def)
    then show ?thesis unfolding w'
      by (simp add: record_fired_def map_update_where sample_tasks_def) (simp add: sample_task_def)
  qed
  note allD = HOL.spec
  note dies = weekly_task_dies_in_the_gap [where env = "sample_env 100" and name = "''eastern''", unfolded z,
      OF eastern_laws spec single today gap f]
  have finished: "map sk_state (sd_tasks (sw_tasks w')) = [TaskDone]"
    using dies rows by (auto simp: map_eq_Cons_conv sample_task_def)
  have "fires_on sundays sun_0230 eastern (local_day eastern sunday + 7 * 2) 1773556200000000 \<and> sunday < 1773556200000000"
    using mp [OF allD [OF allD [OF conjunct2 [OF dies], of 2], of 1773556200000000]] later by simp
  then have "fires_on sundays sun_0230 eastern 20527 1773556200000000 \<and> sunday < 1773556200000000"
    by (simp add: d)
  with f finished show ?thesis by (intro exI [of _ w'] conjI) simp_all
qed

section \<open>A fire wakes the owner\<close>

lemma enqueue_trigger_kept:
  "find (same_idempotency (nt_org trig) (nt_idempotency_key trig)) (prompt_requests q) \<noteq> None
   \<Longrightarrow> prompt_requests (snd (enqueue_trigger q now rid tp trig)) = prompt_requests q"
  by (auto simp: enqueue_trigger_def Let_def split: sum.splits option.splits)

lemma participation_view_requests: "prompt_requests (participation_view td q) = prompt_requests q"
  by (simp add: participation_view_def)

text \<open>
  C23. A fire that succeeds has initiated one new thread in the task's place, with the owning agent
  in it and the prompt as its private note, and the queue holds one trigger of this fire, in the
  task's tenancy. If no trigger had its key before, it is the one new row, a pending, fresh conversation
  for the owner in that thread. If one had, as on the retry of a fire whose record was lost, the queue is
  unchanged and the new thread has no trigger of its own. The task remembers the fire, and its next run is the schedule's next fire
  after now; without one it is done.
\<close>

theorem fire_wakes_the_owner:
  assumes fire: "fire env now task w = Some (Inr (), w')" and inv: "sched_inv (sw_tasks w)"
    and row: "task \<in> set (sd_tasks (sw_tasks w))"
  shows "\<exists>human thread state seed request.
     resolve_user (se_dir env) (sk_org task) (sk_created_by task) = Inr human
     \<and> initiated (se_rfc3339 env) task human (sw_threads w) thread state seed (sw_threads w')
     \<and> (\<exists>r \<in> set (prompt_requests (sw_queue w')). pr_id r = request
          \<and> same_idempotency (sk_org task) (fire_key env task (fire_at_of task now)) r)
     \<and> ((\<forall>r \<in> set (prompt_requests (sw_queue w)). \<not> same_idempotency (sk_org task) (fire_key env task (fire_at_of task now)) r)
          \<longrightarrow> (\<exists>r receiver. prompt_requests (sw_queue w') = prompt_requests (sw_queue w) @ [r]
             \<and> pr_status r = Pending \<and> pr_kind r = Normal \<and> pr_root r = pr_id r \<and> pr_thread r = Some thread
             \<and> pr_state_id r = Some state \<and> pr_trigger_message r = Some seed \<and> pr_sender r = human
             \<and> pr_acting_user r = Some (sk_created_by task)
             \<and> resolve_agent_colleague (sw_queue w) (sk_created_by task) (sk_org task) (sk_owner_agent task) = Inr receiver
             \<and> pr_receiver r = receiver))
     \<and> ((\<exists>r \<in> set (prompt_requests (sw_queue w)). same_idempotency (sk_org task) (fire_key env task (fire_at_of task now)) r)
          \<longrightarrow> prompt_requests (sw_queue w') = prompt_requests (sw_queue w))
     \<and> (let next = next_after (se_tz env) (sk_schedule task) now in
          \<forall>r \<in> set (sd_tasks (sw_tasks w')). sk_id r = sk_id task \<longrightarrow>
            r = task\<lparr>sk_last_fired_at := Some (fire_at_of task now), sk_last_request := Some request,
              sk_next_run_at := next, sk_state := (if next \<noteq> None then TaskActive else TaskDone), sk_updated_at := now\<rparr>)"
proof -
  from fireE [OF fire] obtain req w1 where wake: "wake_agent env now task w = Some (Inr req, w1)"
    and w': "w' = w1\<lparr>sw_tasks := record_fired (sw_tasks w1) now (sk_id task) req (fire_at_of task now)
            (next_after (se_tz env) (sk_schedule task) now)\<rparr>" .
  from wake_agentE [OF wake] obtain human thread state seed td key qd where
    h: "fire_human env task = Inr human" and
    i: "initiate_thread env now task \<lparr>ca_user = sk_created_by task, ca_org = sk_org task\<rparr> human (sw_threads w)
       = Some (Inr (thread, state, seed), td)" and
    k: "idempotency_key_try_from (fire_key env task (fire_at_of task now)) = Inr key" and
    e: "enqueue_trigger (participation_view td (sw_queue w)) now (mi_request (se_mint env (sk_id task)))
       (se_traceparent env) (fire_trigger task human thread state seed key) = (Inr req, qd)" and
    w1: "w1 = w\<lparr>sw_threads := td, sw_queue := qd\<rparr>" .
  have key: "key = fire_key env task (fire_at_of task now)" using k by (rule idempotency_key_try_from_eq)
  have trig: "nt_org (fire_trigger task human thread state seed key) = sk_org task"
    "nt_idempotency_key (fire_trigger task human thread state seed key) = fire_key env task (fire_at_of task now)"
    by (simp_all add: fire_trigger_def key)
  have human: "resolve_user (se_dir env) (sk_org task) (sk_created_by task) = Inr human"
    using h by (auto simp: fire_human_def split: if_splits sum.splits)
  have init: "initiated (se_rfc3339 env) task human (sw_threads w) thread state seed td"
    by (rule initiate_thread_ok [OF i]) simp
  have row_in: "\<exists>r \<in> set (prompt_requests qd). pr_id r = req \<and> same_idempotency (sk_org task) (fire_key env task (fire_at_of task now)) r"
    using enqueue_trigger_row [OF e] unfolding trig .
  have new: "\<exists>r receiver. prompt_requests qd = prompt_requests (sw_queue w) @ [r]
      \<and> pr_status r = Pending \<and> pr_kind r = Normal \<and> pr_root r = pr_id r \<and> pr_thread r = Some thread
      \<and> pr_state_id r = Some state \<and> pr_trigger_message r = Some seed \<and> pr_sender r = human
      \<and> pr_acting_user r = Some (sk_created_by task)
      \<and> resolve_agent_colleague (sw_queue w) (sk_created_by task) (sk_org task) (sk_owner_agent task) = Inr receiver
      \<and> pr_receiver r = receiver"
    if "\<forall>r \<in> set (prompt_requests (sw_queue w)). \<not> same_idempotency (sk_org task) (fire_key env task (fire_at_of task now)) r"
  proof -
    from that have fresh: "\<not> (\<exists>r \<in> set (prompt_requests (participation_view td (sw_queue w))).
        same_idempotency (nt_org (fire_trigger task human thread state seed key))
          (nt_idempotency_key (fire_trigger task human thread state seed key)) r)" unfolding trig by simp
    from enqueue_new_row [OF e fresh] show ?thesis
      by (fastforce simp: trigger_row_def fire_trigger_def resolve_agent_colleague_def participation_view_def
          app_user_is_member_def)
  qed
  have again: "prompt_requests qd = prompt_requests (sw_queue w)"
    if "\<exists>r \<in> set (prompt_requests (sw_queue w)). same_idempotency (sk_org task) (fire_key env task (fire_at_of task now)) r"
  proof -
    have "find (same_idempotency (nt_org (fire_trigger task human thread state seed key))
        (nt_idempotency_key (fire_trigger task human thread state seed key))) (prompt_requests (participation_view td (sw_queue w))) \<noteq> None"
      using that unfolding trig by (auto simp: find_None_mem)
    from enqueue_trigger_kept [OF this] e show ?thesis by (metis participation_view_requests snd_conv)
  qed
  have upd: "r = task\<lparr>sk_last_fired_at := Some (fire_at_of task now), sk_last_request := Some req,
      sk_next_run_at := next_after (se_tz env) (sk_schedule task) now,
      sk_state := (if next_after (se_tz env) (sk_schedule task) now \<noteq> None then TaskActive else TaskDone), sk_updated_at := now\<rparr>"
    if r: "r \<in> set (sd_tasks (sw_tasks w'))" "sk_id r = sk_id task" for r
  proof -
    from r(1) obtain s where s: "s \<in> set (sd_tasks (sw_tasks w))" "r = (if sk_id s = sk_id task
        then s\<lparr>sk_last_fired_at := Some (fire_at_of task now), sk_last_request := Some req,
          sk_next_run_at := next_after (se_tz env) (sk_schedule task) now,
          sk_state := (if next_after (se_tz env) (sk_schedule task) now \<noteq> None then TaskActive else TaskDone),
          sk_updated_at := now\<rparr> else s)"
      unfolding w' record_fired_def w1 by (auto simp: set_update_where)
    with r(2) have "sk_id s = sk_id task" by (simp split: if_splits)
    with s row inv have "s = task" by (meson distinct_map_inj sched_inv_distinct)
    with s show ?thesis by simp
  qed
  show ?thesis
    using human init row_in new again upd unfolding Let_def w' w1
    by (intro exI [of _ human] exI [of _ thread] exI [of _ state] exI [of _ seed] exI [of _ req]) simp
qed

lemma sample_inv: "sched_inv sample_tasks"
proof -
  have "trim ''prepare'' \<noteq> []" by code_simp
  then show ?thesis
    by (simp add: sched_inv_def sample_tasks_def task_ok_def sample_task_def scheduled_task_name_try_from_def
        SCHEDULED_TASK_NAME_MAX_LEN_def scheduled_prompt_try_from_def PROMPT_MAX_BYTES_def)
qed

lemma sample_row_decodes:
  assumes "sk_name r = sk_name sample_task" "sk_prompt r = sk_prompt sample_task" "sk_schedule r = sk_schedule sample_task"
  shows "row_to_record (se_tz_known (sample_env 100)) r = Inr r"
proof -
  have "task_ok sample_tasks sample_task" using sample_inv by (simp add: sched_inv_def sample_tasks_def)
  then have ok: "scheduled_task_name_try_from (sk_name sample_task) = Inr (sk_name sample_task)"
    "scheduled_prompt_try_from (sk_prompt sample_task) = Inr (sk_prompt sample_task)" by (simp_all add: task_ok_def)
  have "Sun \<in> set (weekdays_iter sundays)" by (simp add: set_weekdays_iter sundays_contains)
  then have "weekdays_iter sundays \<noteq> []" by (metis empty_iff empty_set)
  moreover have "sk_schedule sample_task = Recurring sundays sun_0230 ''eastern''" by (simp add: sample_task_def)
  moreover have "se_tz_known (sample_env 100) ''eastern''" by (simp add: sample_env_def)
  ultimately show ?thesis by (simp add: row_to_record_def assms ok schedule_decodes_def)
qed

theorem fire_wakes_the_owner_witness:
  "\<exists>w' thread state seed. fire (sample_env 100) sunday sample_task sample_sched_world = Some (Inr (), w')
     \<and> initiated show_int sample_task 31 empty_threads thread state seed (sw_threads w')
     \<and> map sk_last_fired_at (sd_tasks (sw_tasks w')) = [Some 1772350200000000]"
proof -
  obtain w' where f: "fire (sample_env 100) sunday sample_task sample_sched_world = Some (Inr (), w')"
    using sample_fire [OF sample_world_sel(1,2)] by blast
  have w: "sw_tasks sample_sched_world = sample_tasks" "sw_threads sample_sched_world = empty_threads"
    "se_rfc3339 (sample_env 100) = show_int" "sd_tasks sample_tasks = [sample_task]"
    by (simp_all add: sample_sched_world_def sample_env_def sample_tasks_def)
  have res: "resolve_user (se_dir (sample_env 100)) (sk_org sample_task) (sk_created_by sample_task) = Inr 31"
    by (simp add: sample_env_def resolve_user_def sample_directory_def sample_task_def)
  have "sched_inv (sw_tasks sample_sched_world)" "sample_task \<in> set (sd_tasks (sw_tasks sample_sched_world))"
    by (simp_all add: w sample_inv)
  note woke = fire_wakes_the_owner [OF f this, unfolded w res Let_def]
  have "map sk_id (sd_tasks (sw_tasks w')) = [5]"
  proof -
    from fireE [OF f] obtain req w1 where "wake_agent (sample_env 100) sunday sample_task sample_sched_world = Some (Inr req, w1)"
      and w': "w' = w1\<lparr>sw_tasks := record_fired (sw_tasks w1) sunday (sk_id sample_task) req
        (fire_at_of sample_task sunday) (next_after (se_tz (sample_env 100)) (sk_schedule sample_task) sunday)\<rparr>" .
    from wake_agent_tasks [OF this(1)] have "sw_tasks w1 = sample_tasks" by (simp add: w)
    then show ?thesis unfolding w'
      by (simp add: record_fired_def map_update_where sample_tasks_def) (simp add: sample_task_def)
  qed
  moreover have at: "fire_at_of sample_task sunday = 1772350200000000" "sk_id sample_task = 5"
    by (simp_all add: fire_at_of_def sample_task_def)
  ultimately have "map sk_last_fired_at (sd_tasks (sw_tasks w')) = [Some 1772350200000000]"
    using woke by (fastforce simp: map_eq_Cons_conv)
  moreover from woke have "\<exists>thread state seed. initiated show_int sample_task 31 empty_threads thread state seed (sw_threads w')"
    by (elim exE conjE) (drule Inr_inject, hypsubst, blast)
  ultimately show ?thesis using f by (elim exE) (intro exI conjI; assumption)
qed

section \<open>A fire that is retried\<close>

text \<open>
  When the record of a fire is lost, the next tick fires the task again for the same instant:
  the queue answers the first trigger and gets no new one, whatever it did in between; the second
  thread, with its seed, stays behind.
\<close>

theorem retried_fire_wakes_once:
  assumes first: "wake_agent env now task w = Some (Inr req, w1)"
    and between: "queue_inv (sw_queue w2)" "db_le (sw_queue w1) (sw_queue w2)"
    and again: "wake_agent env' now' task' w2 = Some (Inr req', w3)"
    and same: "sk_id task' = sk_id task" "sk_org task' = sk_org task" "se_uuid env' = se_uuid env"
      "sk_next_run_at task = Some at" "sk_next_run_at task' = Some at"
  shows "req' = req \<and> prompt_requests (sw_queue w3) = prompt_requests (sw_queue w2)
    \<and> (\<exists>thread. map th_id (td_threads (sw_threads w3)) = map th_id (td_threads (sw_threads w2)) @ [thread])
    \<and> (\<exists>seed. td_messages (sw_threads w3) = td_messages (sw_threads w2) @ [seed])"
proof -
  have key: "fire_key env' task' (fire_at_of task' now') = fire_key env task (fire_at_of task now)"
    using same by (simp add: fire_key_def fire_at_of_def)
  from wake_agentE [OF first] obtain human thread state seed td key qd where
    k: "idempotency_key_try_from (fire_key env task (fire_at_of task now)) = Inr key" and
    e: "enqueue_trigger (participation_view td (sw_queue w)) now (mi_request (se_mint env (sk_id task)))
       (se_traceparent env) (fire_trigger task human thread state seed key) = (Inr req, qd)" and
    w1: "w1 = w\<lparr>sw_threads := td, sw_queue := qd\<rparr>" .
  from wake_agentE [OF again] obtain human' thread' state' seed' td' key' qd' where
    i': "initiate_thread env' now' task' \<lparr>ca_user = sk_created_by task', ca_org = sk_org task'\<rparr> human' (sw_threads w2)
       = Some (Inr (thread', state', seed'), td')" and
    k': "idempotency_key_try_from (fire_key env' task' (fire_at_of task' now')) = Inr key'" and
    e': "enqueue_trigger (participation_view td' (sw_queue w2)) now' (mi_request (se_mint env' (sk_id task')))
       (se_traceparent env') (fire_trigger task' human' thread' state' seed' key') = (Inr req', qd')" and
    w3: "w3 = w2\<lparr>sw_threads := td', sw_queue := qd'\<rparr>" .
  have kk: "key' = key" using k k' key by simp
  from enqueue_trigger_row [OF e] obtain r where
    r: "r \<in> set (prompt_requests (sw_queue w1))" "pr_id r = req" "same_idempotency (sk_org task) key r"
    unfolding w1 by (auto simp: fire_trigger_def)
  from between(2) r(1) obtain r2 where r2: "r2 \<in> set (prompt_requests (sw_queue w2))" "row_le r r2"
    unfolding db_le_def by blast
  then have sid: "pr_id r2 = req" "same_idempotency (sk_org task) key r2"
    using r by (simp_all add: row_le_def same_idempotency_def)
  have "req' = pr_id r2 \<and> qd' = participation_view td' (sw_queue w2)"
    by (rule enqueue_known_row [OF e']) (use between(1) r2(1) sid(2) same kk in \<open>simp_all add: fire_trigger_def\<close>)
  moreover have "initiated (se_rfc3339 env') task' human' (sw_threads w2) thread' state' seed' td'"
    by (rule initiate_thread_ok [OF i']) simp
  ultimately show ?thesis using sid(1) unfolding w3 initiated_def by auto
qed

text \<open>The record of the fire was lost; half a minute later the next tick fires again.\<close>

lemma sample_again:
  "\<exists>w3. wake_agent (sample_env 200) (sunday + 30000000) sample_task
     (sample_sched_world\<lparr>sw_threads := sample_woken_threads sunday, sw_queue := sample_woken_queue sunday\<rparr>) = Some (Inr 103, w3)"
proof -
  let ?td = "sample_woken_threads sunday" and ?now = "sunday + 30000000" and ?ca = "\<lparr>ca_user = 10, ca_org = 7\<rparr>"
  let ?th = "\<lparr>th_id = 200, th_org = 7, th_channel = None, th_root_message = None, th_created_by = 31,
     th_dm_counterpart = Some 30, th_created_at = ?now, th_last_activity_at = ?now\<rparr>"
  let ?part = "\<lparr>ats_id = 201, ats_thread = 200, ats_agent = 20, ats_org = 7, ats_created_at = ?now\<rparr>"
  let ?td1 = "?td\<lparr>td_threads := td_threads ?td @ [?th]\<rparr>"
  let ?td2 = "?td1\<lparr>td_participation := td_participation ?td @ [?part]\<rparr>"
  have td: "td_threads ?td = [sample_thread sunday]" "td_members ?td = [(10, 7)]" "td_seq ?td = [100 \<mapsto> 1]"
    "td_messages ?td = [sample_note sunday]"
    "td_participation ?td = [\<lparr>ats_id = 101, ats_thread = 100, ats_agent = 20, ats_org = 7, ats_created_at = sunday\<rparr>]"
    by (simp_all add: sample_woken_threads_def empty_threads_def)
  have rows: "th_id (sample_thread sunday) = 100" "ms_id (sample_note sunday) = 102" "ms_thread (sample_note sunday) = 100"
    by (simp_all add: sample_thread_def sample_note_def)
  have c: "create_thread ?td ?now 200 ?ca None None 31 (Some 30) = Some (Inr 200, ?td1)"
    by (simp add: create_thread_def td_is_member_def td rows)
  have r: "resolve_participation ?td1 ?now 201 ?ca 200 20 = (Inr 201, ?td2)"
    by (simp add: resolve_participation_def thread_visible_def td_is_member_def td rows)
  obtain td3 where a: "append_message ?td2 ?now 202 ?ca 200 (seed_message show_int sample_task) = (Inr 202, td3)"
    by (simp add: append_message_def append_statement_def thread_visible_def td_is_member_def td rows last_seq_def
        seed_message_def message_admitted_def key_taken_def i64_max_def)
  from append_message_ok [OF a] have parts: "td_participation td3 = td_participation ?td @ [?part]"
    by (simp add: seed_message_def)
  have env: "se_mint (sample_env 200) 5 = \<lparr>mi_thread = 200, mi_state = 201, mi_seed = 202, mi_request = 203\<rparr>"
    "se_rfc3339 (sample_env 200) = show_int" "\<not> se_append_first (sample_env 200) 5"
    "resolve_agent (se_dir (sample_env 200)) 7 20 = Inr 30" "se_traceparent (sample_env 200) = None"
    by (simp_all add: sample_env_def resolve_agent_def sample_directory_def)
  have task: "sk_channel sample_task = None" "sk_org sample_task = 7" "sk_owner_agent sample_task = 20" "sk_id sample_task = 5"
    "sk_created_by sample_task = 10" "sk_next_run_at sample_task = Some 1772350200000000"
    by (simp_all add: sample_task_def)
  have i: "initiate_thread (sample_env 200) ?now sample_task ?ca 31 ?td = Some (Inr (200, 201, 202), td3)"
    by (simp add: initiate_thread_def task env c join_participation_and_seed_def r a)
  have q: "prompt_requests (sample_woken_queue sunday) \<noteq> []
     \<and> same_idempotency 7 ''sched-5-1772350200'' (hd (prompt_requests (sample_woken_queue sunday)))
     \<and> pr_id (hd (prompt_requests (sample_woken_queue sunday))) = 103
     \<and> pr_org (hd (prompt_requests (sample_woken_queue sunday))) = 7
     \<and> org_members (sample_woken_queue sunday) = [(10, 7)] \<and> colleagues (sample_woken_queue sunday) = colleagues sched_queue"
    by (simp add: sample_woken_queue_def participation_view_def sample_woken_threads_def sched_queue_def fire_trigger_def
      sample_task_def enqueue_defs)
  then obtain row rest where pr: "prompt_requests (sample_woken_queue sunday) = row # rest"
    by (cases "prompt_requests (sample_woken_queue sunday)") auto
  define V where "V = participation_view td3 (sample_woken_queue sunday)"
  have v: "prompt_requests V = row # rest" "org_members V = [(10, 7)]" "state_org V 201 = Some 7"
    "colleagues V = colleagues sched_queue"
    using q by (simp_all add: V_def participation_view_def pr parts td)
  have e: "enqueue_trigger V ?now 203 None (fire_trigger sample_task 31 200 201 202 ''sched-5-1772350200'') = (Inr 103, V)"
    using q unfolding pr
    by (simp add: v fire_trigger_def task enqueue_trigger_def resolve_agent_colleague_def app_user_is_member_def
        prompt_requests_admit_def claim_parent_org_def trigger_row_def sched_queue_def Let_def)
  note e = e [unfolded V_def]
  show ?thesis
    by (simp add: wake_agent_def sample_human task i sample_fire_key env e)
qed

theorem retried_fire_wakes_once_witness:
  "\<exists>w1 w3. wake_agent (sample_env 100) sunday sample_task sample_sched_world = Some (Inr 103, w1)
     \<and> wake_agent (sample_env 200) (sunday + 30000000) sample_task w1 = Some (Inr 103, w3)
     \<and> prompt_requests (sw_queue w3) = prompt_requests (sw_queue w1)
     \<and> length (td_threads (sw_threads w3)) = Suc (length (td_threads (sw_threads w1)))"
proof -
  let ?w1 = "sample_sched_world\<lparr>sw_threads := sample_woken_threads sunday, sw_queue := sample_woken_queue sunday\<rparr>"
  have first: "wake_agent (sample_env 100) sunday sample_task sample_sched_world = Some (Inr 103, ?w1)"
    by (rule sample_wake [OF sample_world_sel(1,2)])
  obtain w3 where again: "wake_agent (sample_env 200) (sunday + 30000000) sample_task ?w1 = Some (Inr 103, w3)"
    using sample_again by blast
  have "queue_inv sched_queue" by (rule queue_init_inv) (simp add: queue_init_def sched_queue_def)
  then have "queue_inv (participation_view (sample_woken_threads sunday) sched_queue)" by simp
  then have inv: "queue_inv (sw_queue ?w1)"
    unfolding sched_world.simps sample_woken_queue_def by (simp add: enqueue_trigger_inv)
  have le: "db_le (sw_queue ?w1) (sw_queue ?w1)" by simp
  have uu: "se_uuid (sample_env 200) = se_uuid (sample_env 100)" "sk_next_run_at sample_task = Some 1772350200000000"
    by (simp_all add: sample_env_def sample_task_def)
  from retried_fire_wakes_once [OF first inv le again refl refl uu uu(2)]
  have "prompt_requests (sw_queue w3) = prompt_requests (sw_queue ?w1)"
    and th: "\<exists>thread. map th_id (td_threads (sw_threads w3)) = map th_id (td_threads (sw_threads ?w1)) @ [thread]" by blast+
  moreover from th have "length (td_threads (sw_threads w3)) = Suc (length (td_threads (sw_threads ?w1)))"
    by (metis length_append_singleton length_map)
  ultimately show ?thesis using first again by (intro exI conjI)
qed

section \<open>A cancelled task that comes back\<close>

text \<open>
  A task cancelled while the scheduler is firing it is active again afterwards: the record of
  the fire does not look at the state, so the cancellation is lost, the next run is due in time,
  and the agent has one active task more than the cap has counted.
\<close>

theorem cancelled_task_returns:
  assumes inv: "sched_inv (sw_tasks w)"
    and claimed: "claim_due (se_tz_known env) (sw_tasks w) now limit = Inr due" "task \<in> set due"
    and cancelled: "cancel_for_user (sw_tasks w) t user (sk_id task) (sk_owner_agent task) = (Inr (), db1)"
    and fired: "fire env now task (w\<lparr>sw_tasks := db1\<rparr>) = Some (Inr (), w')"
    and more: "next_after (se_tz env) (sk_schedule task) now = Some nxt"
  shows "(\<exists>r \<in> set (sd_tasks db1). sk_id r = sk_id task \<and> sk_state r = TaskCancelled)
    \<and> (\<exists>r \<in> set (sd_tasks (sw_tasks w')). sk_id r = sk_id task \<and> is_due nxt r)
    \<and> active_count (sw_tasks w') (\<lambda>_. True) (sk_owner_agent task)
        = Suc (active_count db1 (\<lambda>_. True) (sk_owner_agent task))"
proof -
  from claim_due_mem [OF claimed] have task: "task \<in> set (sd_tasks (sw_tasks w))" "sk_state task = TaskActive"
    by (simp_all add: is_due_def)
  let ?cancel = "\<lambda>r. r\<lparr>sk_state := TaskCancelled, sk_next_run_at := None, sk_updated_at := t\<rparr>"
  let ?hit = "\<lambda>r. sd_is_member (sw_tasks w) user (sk_org r) \<and> sk_id r = sk_id task"
  obtain r0 where r0: "find (\<lambda>r. sd_is_member (sw_tasks w) user (sk_org r) \<and> sk_id r = sk_id task
      \<and> sk_owner_agent r = sk_owner_agent task) (sd_tasks (sw_tasks w)) = Some r0"
    using cancelled by (auto simp: cancel_for_user_def cancel_in_tx_def split: option.splits)
  with find_Some_mem [OF r0] task inv have "r0 = task" by (meson distinct_map_inj sched_inv_distinct)
  with find_Some_mem [OF r0] have hit: "?hit task" by simp
  have db1: "db1 = (sw_tasks w)\<lparr>sd_tasks := update_where ?hit ?cancel (sd_tasks (sw_tasks w))\<rparr>"
    using cancelled r0 \<open>r0 = task\<close> task by (simp add: cancel_for_user_def cancel_in_tx_def)
  define gone where "gone = ?cancel task"
  have gone: "gone \<in> set (sd_tasks db1)"
    using update_where_memI [OF task(1), of ?hit ?cancel] hit by (simp add: db1 gone_def)
  have inv1: "sched_inv db1" using cancel_inv [OF inv] cancelled unfolding cancel_for_user_def by (metis snd_conv)
  from fireE [OF fired] obtain req w1 where
    wake: "wake_agent env now task (w\<lparr>sw_tasks := db1\<rparr>) = Some (Inr req, w1)" and
    w': "w' = w1\<lparr>sw_tasks := record_fired (sw_tasks w1) now (sk_id task) req (fire_at_of task now) (Some nxt)\<rparr>"
    unfolding more by blast
  have w1: "sw_tasks w1 = db1" using wake_agent_tasks [OF wake] by simp
  let ?rec = "\<lambda>r. r\<lparr>sk_last_fired_at := Some (fire_at_of task now), sk_last_request := Some req, sk_next_run_at := Some nxt,
      sk_state := TaskActive, sk_updated_at := now\<rparr>"
  have rows: "sd_tasks (sw_tasks w') = update_where (\<lambda>r. sk_id r = sk_id task) ?rec (sd_tasks db1)"
    by (simp add: w' w1 record_fired_def)
  have "?rec gone \<in> set (sd_tasks (sw_tasks w'))"
    unfolding rows using update_where_memI [OF gone, of "\<lambda>r. sk_id r = sk_id task" ?rec] by (simp add: gone_def)
  then have "\<exists>r \<in> set (sd_tasks (sw_tasks w')). sk_id r = sk_id task \<and> is_due nxt r"
    by (rule bexI [rotated]) (simp add: gone_def is_due_def)
  moreover have "active_count (sw_tasks w') (\<lambda>_. True) (sk_owner_agent task)
      = Suc (active_count db1 (\<lambda>_. True) (sk_owner_agent task))"
    unfolding active_count_def rows
    by (rule filter_update_one [OF sched_inv_distinct [OF inv1] gone]) (simp_all add: gone_def)
  moreover have "sk_id gone = sk_id task" "sk_state gone = TaskCancelled" by (simp_all add: gone_def)
  ultimately show ?thesis using gone by blast
qed

text \<open>The scheduler was down for a week; the user cancels while the overdue task is being fired.\<close>

theorem cancelled_task_returns_witness:
  "\<exists>db1 w'. cancel_for_user sample_tasks 0 10 5 20 = (Inr (), db1) \<and> map sk_state (sd_tasks db1) = [TaskCancelled]
     \<and> fire (sample_env 100) 1772956800000000 sample_task (sample_sched_world\<lparr>sw_tasks := db1\<rparr>) = Some (Inr (), w')
     \<and> (\<exists>r \<in> set (sd_tasks (sw_tasks w')). sk_id r = 5 \<and> is_due 1773556200000000 r)"
proof -
  let ?now = "1772956800000000 :: int"
  note defs = next_after_def weekdays_is_empty_def next_recurring_def local_day_def local_of_def
    eastern_def shift_zone_def USECS_PER_DAY_def sundays_contains weekday_of_def weekday_all_def
    wall_def sun_0230_def first_at_def next_recurring_from.simps
  have task: "sk_id sample_task = 5" "sk_owner_agent sample_task = 20" by (simp_all add: sample_task_def)
  have inv: "sched_inv (sw_tasks sample_sched_world)" by (simp add: sample_world_sel sample_inv)
  have "sundays \<noteq> 0" by (simp add: sundays_def)
  then have nxt: "next_after (se_tz (sample_env 100)) (sk_schedule sample_task) ?now = Some 1773556200000000"
    by (simp add: sample_env_def sample_task_def defs)
  have rec: "row_to_record (se_tz_known (sample_env 100)) sample_task = Inr sample_task"
    by (rule sample_row_decodes) simp_all
  have "due_rows sample_tasks ?now 20 = [sample_task]"
    by (simp add: due_rows_def sample_tasks_def is_due_def) (simp add: sample_task_def)
  then have claim: "claim_due (se_tz_known (sample_env 100)) (sw_tasks sample_sched_world) ?now 20 = Inr [sample_task]"
    by (simp add: claim_due_def sample_world_sel rec)
  have mem: "sd_is_member sample_tasks 10 7" by (simp add: sample_tasks_def sd_is_member_def)
  have rows: "sd_tasks sample_tasks = [sample_task]" by (simp add: sample_tasks_def)
  have sel: "sk_org sample_task = 7" "sk_state sample_task = TaskActive" by (simp_all add: sample_task_def)
  obtain db1 where c: "cancel_for_user sample_tasks 0 10 5 20 = (Inr (), db1)"
    by (simp add: cancel_for_user_def cancel_in_tx_def rows task sel mem)
  then have st: "map sk_state (sd_tasks db1) = [TaskCancelled]"
    by (auto simp add: cancel_for_user_def cancel_in_tx_def rows task sel mem)
  have "sw_threads (sample_sched_world\<lparr>sw_tasks := db1\<rparr>) = empty_threads" "sw_queue (sample_sched_world\<lparr>sw_tasks := db1\<rparr>) = sched_queue"
    by (simp_all add: sample_world_sel)
  from sample_fire [OF this] obtain w' where
    f: "fire (sample_env 100) ?now sample_task (sample_sched_world\<lparr>sw_tasks := db1\<rparr>) = Some (Inr (), w')" by blast
  have c': "cancel_for_user (sw_tasks sample_sched_world) 0 10 (sk_id sample_task) (sk_owner_agent sample_task) = (Inr (), db1)"
    using c by (simp add: sample_world_sel task)
  from cancelled_task_returns [OF inv claim _ c' f nxt] task
  have "\<exists>r \<in> set (sd_tasks (sw_tasks w')). sk_id r = 5 \<and> is_due 1773556200000000 r" by simp
  with c st f show ?thesis by (intro exI conjI)
qed

section \<open>Starvation\<close>

text \<open>
  Twenty due tasks of users who have left their organisations stop the scheduler for every
  tenant: each of their fires is refused before it changes anything, they stay the oldest due
  tasks, and no tick ever reaches another one.
\<close>

theorem ex_members_starve_the_scheduler:
  assumes readable: "\<forall>r \<in> set (sd_tasks (sw_tasks w)). row_to_record (se_tz_known env) r = Inr r"
    and full: "length (filter (is_due t) (sd_tasks (sw_tasks w))) = SCHEDULED_TASK_BATCH_LIMIT"
    and left: "\<forall>r \<in> set (sd_tasks (sw_tasks w)). is_due t r \<longrightarrow> \<not> td_is_member (sw_threads w) (sk_created_by r) (sk_org r)"
    and late: "t \<le> now"
  shows "tick env now w = Some (Inr 0, w)"
proof -
  let ?due = "due_rows (sw_tasks w) now SCHEDULED_TASK_BATCH_LIMIT"
  have due: "set ?due = {r \<in> set (sd_tasks (sw_tasks w)). is_due t r}" by (rule due_rows_older [OF late full])
  have "map (row_to_record (se_tz_known env)) ?due = map Inr ?due"
    using due readable by (intro map_cong) auto
  then have claim: "claim_due (se_tz_known env) (sw_tasks w) now SCHEDULED_TASK_BATCH_LIMIT = Inr ?due"
    unfolding claim_due_def by (simp only: collect_results_map_Inr)
  have "fire_all env now ?due 0 w = Some (0, w)"
    by (rule fire_all_failing) (use due left fire_without_member in blast)
  with claim show ?thesis by (simp add: tick_def)
qed

definition orphaned_world :: sched_world where
  "orphaned_world = sample_sched_world\<lparr>
     sw_tasks := sample_tasks\<lparr>sd_tasks := map (\<lambda>i. sample_task\<lparr>sk_id := i\<rparr>) [0..<20]
       @ [sample_task\<lparr>sk_id := 99, sk_created_by := 11, sk_next_run_at := Some 1772350200000001\<rparr>]\<rparr>,
     sw_threads := empty_threads\<lparr>td_members := [(11, 7)]\<rparr>\<rparr>"

text \<open>User 10 has left; the task of user 11 is due and is never fired.\<close>

theorem ex_members_starve_the_scheduler_witness:
  "tick (sample_env 100) sunday orphaned_world = Some (Inr 0, orphaned_world)
   \<and> is_due sunday (last (sd_tasks (sw_tasks orphaned_world)))"
proof -
  let ?t = "1772350200000000 :: int"
  have rows: "sd_tasks (sw_tasks orphaned_world) = map (\<lambda>i. sample_task\<lparr>sk_id := i\<rparr>) [0..<20]
       @ [sample_task\<lparr>sk_id := 99, sk_created_by := 11, sk_next_run_at := Some 1772350200000001\<rparr>]"
    and mem: "td_members (sw_threads orphaned_world) = [(11, 7)]"
    by (simp_all add: orphaned_world_def)
  have task: "sk_state sample_task = TaskActive" "sk_next_run_at sample_task = Some ?t" "sk_created_by sample_task = 10"
    "sk_org sample_task = 7" by (simp_all add: sample_task_def)
  have "\<forall>r \<in> set (sd_tasks (sw_tasks orphaned_world)). row_to_record (se_tz_known (sample_env 100)) r = Inr r"
    unfolding rows by (auto intro: sample_row_decodes)
  moreover have "length (filter (is_due ?t) (sd_tasks (sw_tasks orphaned_world))) = SCHEDULED_TASK_BATCH_LIMIT"
    unfolding rows by (simp add: is_due_def task filter_map comp_def SCHEDULED_TASK_BATCH_LIMIT_def)
  moreover have "\<forall>r \<in> set (sd_tasks (sw_tasks orphaned_world)). is_due ?t r
      \<longrightarrow> \<not> td_is_member (sw_threads orphaned_world) (sk_created_by r) (sk_org r)"
    unfolding rows by (auto simp: is_due_def task td_is_member_def mem)
  ultimately have "tick (sample_env 100) sunday orphaned_world = Some (Inr 0, orphaned_world)"
    by (rule ex_members_starve_the_scheduler) (simp add: sunday_def)
  moreover have "is_due sunday (last (sd_tasks (sw_tasks orphaned_world)))"
    unfolding rows by (simp add: is_due_def task sunday_def)
  ultimately show ?thesis ..
qed

end
