(* ===== verification/Ttl_Cache.thy ===== *)
theory Ttl_Cache
  imports Patom_Prelude "HOL-Library.AList" "HOL-Library.Multiset"
begin

text \<open>
  The shared in-memory cache (\<open>cache.rs\<close>) with its epoch fence. A lookup that misses remembers the
  epoch, loads without the lock and inserts only if the epoch has not moved; an invalidation bumps
  the epoch first and removes the entry after. Both are sequences of atomic steps on the shared
  state, so the cache is a step system in which loads, writes of the source and invalidations
  interleave freely. \<open>HashMap\<close> iterates in no particular order: the argument \<open>perm\<close> is the order an
  eviction sees.
\<close>

section \<open>The cache\<close>

record 'v cache_entry =
  ce_value :: 'v
  ce_fetched_at :: nat

record ('k, 'v) ttl_cache =
  tc_state :: "('k \<times> 'v cache_entry) list"
  tc_epoch :: nat
  tc_cap :: nat
  tc_ttl :: nat

text \<open>\<open>None\<close> is a failed assertion.\<close>

definition cache_new :: "nat \<Rightarrow> nat \<Rightarrow> ('k, 'v) ttl_cache option" where
  "cache_new cap ttl =
     (if cap = 0 \<or> ttl = 0 then None
      else Some \<lparr>tc_state = [], tc_epoch = 0, tc_cap = cap, tc_ttl = ttl\<rparr>)"

definition expired :: "nat \<Rightarrow> nat \<Rightarrow> 'v cache_entry \<Rightarrow> bool" where
  "expired now ttl e \<longleftrightarrow> now - ce_fetched_at e \<ge> ttl"

definition lookup_fresh :: "('k, 'v) ttl_cache \<Rightarrow> 'k \<Rightarrow> nat \<Rightarrow> 'v option" where
  "lookup_fresh c k now =
     (case map_of (tc_state c) k of
        None \<Rightarrow> None
      | Some e \<Rightarrow> if expired now (tc_ttl c) e then None else Some (ce_value e))"

fun evict_scan :: "nat \<Rightarrow> nat \<Rightarrow> ('k \<times> nat) option \<Rightarrow> ('k \<times> 'v cache_entry) list \<Rightarrow> 'k option" where
  "evict_scan now ttl oldest [] = map_option fst oldest"
| "evict_scan now ttl oldest ((k, e) # es) =
     (if expired now ttl e then Some k
      else (case oldest of
              None \<Rightarrow> evict_scan now ttl (Some (k, ce_fetched_at e)) es
            | Some (_, ts) \<Rightarrow>
                evict_scan now ttl (if ce_fetched_at e < ts then Some (k, ce_fetched_at e) else oldest) es))"

definition cache_evict_one ::
  "(('k \<times> 'v cache_entry) list \<Rightarrow> ('k \<times> 'v cache_entry) list) \<Rightarrow> nat \<Rightarrow> nat
   \<Rightarrow> ('k \<times> 'v cache_entry) list \<Rightarrow> ('k \<times> 'v cache_entry) list" where
  "cache_evict_one perm now ttl es =
     (case evict_scan now ttl None (perm es) of None \<Rightarrow> es | Some k \<Rightarrow> AList.delete k es)"

definition insert_if_epoch ::
  "(('k \<times> 'v cache_entry) list \<Rightarrow> ('k \<times> 'v cache_entry) list) \<Rightarrow> ('k, 'v) ttl_cache
   \<Rightarrow> 'k \<Rightarrow> 'v \<Rightarrow> nat \<Rightarrow> nat \<Rightarrow> ('k, 'v) ttl_cache option" where
  "insert_if_epoch perm c k v now started_at_epoch =
     (if tc_epoch c \<noteq> started_at_epoch then Some c
      else (let full = length (tc_state c) \<ge> tc_cap c \<and> map_of (tc_state c) k = None;
                es = (if full then cache_evict_one perm now (tc_ttl c) (tc_state c) else tc_state c) in
        if full \<and> \<not> length es < tc_cap c then None
        else Some (c\<lparr>tc_state := AList.update k \<lparr>ce_value = v, ce_fetched_at = now\<rparr> es\<rparr>)))"

definition cache_bump :: "('k, 'v) ttl_cache \<Rightarrow> ('k, 'v) ttl_cache" where
  "cache_bump c = c\<lparr>tc_epoch := tc_epoch c + 1\<rparr>"

text \<open>What \<open>clear\<close> (no key) and \<open>invalidate\<close> do under the lock, after the bump.\<close>

definition cache_drop :: "'k option \<Rightarrow> ('k, 'v) ttl_cache \<Rightarrow> ('k, 'v) ttl_cache" where
  "cache_drop key c =
     (case key of None \<Rightarrow> c\<lparr>tc_state := []\<rparr> | Some k \<Rightarrow> c\<lparr>tc_state := AList.delete k (tc_state c)\<rparr>)"

definition cache_clear :: "('k, 'v) ttl_cache \<Rightarrow> ('k, 'v) ttl_cache" where
  "cache_clear c = cache_drop None (cache_bump c)"

definition cache_invalidate :: "('k, 'v) ttl_cache \<Rightarrow> 'k \<Rightarrow> ('k, 'v) ttl_cache" where
  "cache_invalidate c k = cache_drop (Some k) (cache_bump c)"

section \<open>The bound\<close>

definition cache_ok :: "('k, 'v) ttl_cache \<Rightarrow> bool" where
  "cache_ok c \<longleftrightarrow> distinct (map fst (tc_state c)) \<and> length (tc_state c) \<le> tc_cap c \<and> 0 < tc_cap c"

lemma evict_scan_mem:
  "evict_scan now ttl oldest es = Some k \<Longrightarrow> k \<in> fst ` set es \<or> (\<exists>ts. oldest = Some (k, ts))"
proof (induction now ttl oldest es rule: evict_scan.induct)
  case (2 now ttl oldest k' e es)
  show ?case
  proof (cases oldest)
    case None
    with 2 show ?thesis by (auto split: if_splits)
  next
    case (Some o')
    with 2 show ?thesis by (cases o') (fastforce split: if_splits)
  qed
qed auto

lemma evict_scan_some: "es \<noteq> [] \<or> oldest \<noteq> None \<Longrightarrow> evict_scan now ttl oldest es \<noteq> None"
  by (induction now ttl oldest es rule: evict_scan.induct) (auto split: option.splits)

lemma length_delete: "distinct (map fst es) \<Longrightarrow> k \<in> fst ` set es \<Longrightarrow> length (AList.delete k es) < length es"
proof -
  assume "distinct (map fst es)" "k \<in> fst ` set es"
  then obtain x where "x \<in> set es" "fst x = k" by auto
  then show ?thesis unfolding AList.delete_eq by (auto intro: length_filter_less)
qed

lemma evict_makes_room:
  assumes "mset (perm es) = mset es" "distinct (map fst es)" "es \<noteq> []"
  shows "length (cache_evict_one perm now ttl es) < length es"
proof -
  have ne: "perm es \<noteq> []" and set: "set (perm es) = set es"
    using assms(1,3) by (auto dest: mset_eq_setD)
  then obtain k where k: "evict_scan now ttl None (perm es) = Some k"
    using evict_scan_some [of "perm es" None now ttl] by auto
  from evict_scan_mem [OF this] set have "k \<in> fst ` set es" by simp
  with length_delete [OF assms(2)] k show ?thesis by (simp add: cache_evict_one_def)
qed

lemma distinct_evict: "distinct (map fst es) \<Longrightarrow> distinct (map fst (cache_evict_one perm now ttl es))"
  by (auto simp: cache_evict_one_def distinct_delete split: option.splits)

lemma length_update_le: "length (AList.update k v es) \<le> (if map_of es k = None then Suc (length es) else length es)"
  by (induction es) auto

lemma insert_if_epoch_ok:
  assumes perm: "\<And>es. mset (perm es) = mset es" and ok: "cache_ok c"
  shows "\<exists>c'. insert_if_epoch perm c k v now e = Some c' \<and> cache_ok c' \<and> tc_epoch c' = tc_epoch c"
proof (cases "tc_epoch c = e")
  case True
  let ?full = "length (tc_state c) \<ge> tc_cap c \<and> map_of (tc_state c) k = None"
  let ?es = "if ?full then cache_evict_one perm now (tc_ttl c) (tc_state c) else tc_state c"
  have room: "length ?es < tc_cap c" if ?full
  proof -
    from that ok have "tc_state c \<noteq> []" by (auto simp: cache_ok_def)
    with evict_makes_room [of perm "tc_state c" now "tc_ttl c"] perm ok that show ?thesis
      by (auto simp: cache_ok_def)
  qed
  have d: "distinct (map fst ?es)" using ok distinct_evict by (auto simp: cache_ok_def)
  have "length (AList.update k \<lparr>ce_value = v, ce_fetched_at = now\<rparr> ?es) \<le> tc_cap c"
  proof (cases ?full)
    case True
    with room length_update_le [of k "\<lparr>ce_value = v, ce_fetched_at = now\<rparr>" ?es] show ?thesis by (auto split: if_splits)
  next
    case False
    with ok length_update_le [of k "\<lparr>ce_value = v, ce_fetched_at = now\<rparr>" "tc_state c"] show ?thesis
      by (auto simp: cache_ok_def split: if_splits)
  qed
  with d ok have "cache_ok (c\<lparr>tc_state := AList.update k \<lparr>ce_value = v, ce_fetched_at = now\<rparr> ?es\<rparr>)"
    by (simp add: cache_ok_def distinct_update)
  with True room show ?thesis by (simp add: insert_if_epoch_def Let_def)
qed (use ok in \<open>simp add: insert_if_epoch_def\<close>)

lemma cache_ok_frames: "cache_ok c \<Longrightarrow> cache_ok (cache_bump c)" "cache_ok c \<Longrightarrow> cache_ok (cache_drop key c)"
  by (auto simp: cache_ok_def cache_bump_def cache_drop_def distinct_delete split: option.split
      intro: le_trans [OF length_delete_le])

section \<open>Loads, writes and invalidations interleave\<close>

text \<open>
  \<open>cs_source\<close> is what the loaders read. A load passes through: begun at an epoch after a miss,
  value read, insert. A writer changes the source and then invalidates the keys it has touched in
  two steps. Every load and every writer has a number of its own.
\<close>

datatype ('k, 'v) load_state = Begun 'k nat | Loaded 'k nat 'v
datatype 'k write_state = Written "'k option" | Bumped "'k option"

record ('k, 'v) cache_system =
  cs_cache :: "('k, 'v) ttl_cache"
  cs_source :: "'k \<Rightarrow> 'v"
  cs_loads :: "nat \<Rightarrow> ('k, 'v) load_state option"
  cs_writes :: "nat \<Rightarrow> 'k write_state option"

datatype ('k, 'v) cache_event =
    CeBegin nat 'k nat
  | CeRead nat
  | CeInsert nat nat "('k \<times> 'v cache_entry) list \<Rightarrow> ('k \<times> 'v cache_entry) list"
  | CeFail nat
  | CeWrite nat "'k option" "'k \<Rightarrow> 'v"
  | CeBump nat
  | CeDrop nat

text \<open>A write that clears may change any key, one that invalidates a key changes this key.\<close>

inductive cache_step :: "('k, 'v) cache_system \<Rightarrow> ('k, 'v) cache_event \<Rightarrow> ('k, 'v) cache_system \<Rightarrow> bool" where
  cs_begin: "cs_loads s i = None \<Longrightarrow> lookup_fresh (cs_cache s) k now = None \<Longrightarrow>
    cache_step s (CeBegin i k now) (s\<lparr>cs_loads := (cs_loads s)(i \<mapsto> Begun k (tc_epoch (cs_cache s)))\<rparr>)"
| cs_read: "cs_loads s i = Some (Begun k e) \<Longrightarrow>
    cache_step s (CeRead i) (s\<lparr>cs_loads := (cs_loads s)(i \<mapsto> Loaded k e (cs_source s k))\<rparr>)"
| cs_fail: "cs_loads s i = Some (Begun k e) \<Longrightarrow>
    cache_step s (CeFail i) (s\<lparr>cs_loads := (cs_loads s)(i := None)\<rparr>)"
| cs_insert: "cs_loads s i = Some (Loaded k e v) \<Longrightarrow> (\<forall>es. mset (perm es) = mset es) \<Longrightarrow>
    insert_if_epoch perm (cs_cache s) k v now e = Some c \<Longrightarrow>
    cache_step s (CeInsert i now perm) (s\<lparr>cs_cache := c, cs_loads := (cs_loads s)(i := None)\<rparr>)"
| cs_write: "cs_writes s j = None \<Longrightarrow> (\<forall>k. key = Some k \<longrightarrow> (\<forall>k'. k' \<noteq> k \<longrightarrow> src k' = cs_source s k')) \<Longrightarrow>
    cache_step s (CeWrite j key src) (s\<lparr>cs_source := src, cs_writes := (cs_writes s)(j \<mapsto> Written key)\<rparr>)"
| cs_bump: "cs_writes s j = Some (Written key) \<Longrightarrow>
    cache_step s (CeBump j) (s\<lparr>cs_cache := cache_bump (cs_cache s), cs_writes := (cs_writes s)(j \<mapsto> Bumped key)\<rparr>)"
| cs_drop: "cs_writes s j = Some (Bumped key) \<Longrightarrow>
    cache_step s (CeDrop j) (s\<lparr>cs_cache := cache_drop key (cs_cache s), cs_writes := (cs_writes s)(j := None)\<rparr>)"

definition cache_init :: "('k, 'v) cache_system \<Rightarrow> bool" where
  "cache_init s \<longleftrightarrow> cache_new (tc_cap (cs_cache s)) (tc_ttl (cs_cache s)) = Some (cs_cache s)
     \<and> cs_loads s = Map.empty \<and> cs_writes s = Map.empty"

text \<open>\<open>touches key k\<close>: an invalidation of \<open>key\<close> covers \<open>k\<close>.\<close>

definition touches :: "'k option \<Rightarrow> 'k \<Rightarrow> bool" where
  "touches key k \<longleftrightarrow> key = None \<or> key = Some k"

definition unbumped :: "('k, 'v) cache_system \<Rightarrow> 'k \<Rightarrow> bool" where
  "unbumped s k \<longleftrightarrow> (\<exists>j key. cs_writes s j = Some (Written key) \<and> touches key k)"

definition undropped :: "('k, 'v) cache_system \<Rightarrow> 'k \<Rightarrow> bool" where
  "undropped s k \<longleftrightarrow> (\<exists>j key. (cs_writes s j = Some (Written key) \<or> cs_writes s j = Some (Bumped key)) \<and> touches key k)"

definition cache_inv :: "('k, 'v) cache_system \<Rightarrow> bool" where
  "cache_inv s \<longleftrightarrow> cache_ok (cs_cache s)
     \<and> (\<forall>k e. map_of (tc_state (cs_cache s)) k = Some e \<longrightarrow> ce_value e = cs_source s k \<or> undropped s k)
     \<and> (\<forall>i k e v. cs_loads s i = Some (Loaded k e v) \<longrightarrow> e \<le> tc_epoch (cs_cache s)
          \<and> (e = tc_epoch (cs_cache s) \<longrightarrow> v = cs_source s k \<or> unbumped s k))
     \<and> (\<forall>i k e. cs_loads s i = Some (Begun k e) \<longrightarrow> e \<le> tc_epoch (cs_cache s))"

lemma map_of_evict:
  "map_of (cache_evict_one perm now ttl es) k = Some e \<Longrightarrow> map_of es k = Some e"
  by (auto simp: cache_evict_one_def delete_conv' split: option.splits if_splits)

lemma insert_if_epoch_entries:
  assumes "insert_if_epoch perm c k v now e = Some c'" "map_of (tc_state c') k' = Some en"
  shows "map_of (tc_state c) k' = Some en \<or> (k' = k \<and> ce_value en = v \<and> tc_epoch c = e)"
  using assms by (auto simp: insert_if_epoch_def Let_def update_conv' split: if_splits dest: map_of_evict)

lemma cache_inv_init: "cache_init s \<Longrightarrow> cache_inv s"
  by (cases "cs_cache s") (auto simp: cache_init_def cache_new_def cache_inv_def cache_ok_def split: if_splits)

lemma cache_inv_step: "cache_step s ev t \<Longrightarrow> cache_inv s \<Longrightarrow> cache_inv t"
proof (induction rule: cache_step.induct)
  case (cs_begin s i k now)
  then show ?case by (auto simp: cache_inv_def unbumped_def undropped_def)
next
  case (cs_read s i k e)
  then show ?case by (auto simp: cache_inv_def unbumped_def undropped_def)
next
  case (cs_fail s i k e)
  then show ?case by (auto simp: cache_inv_def unbumped_def undropped_def)
next
  case (cs_insert s i k e v perm now c)
  let ?t = "s\<lparr>cs_cache := c, cs_loads := (cs_loads s)(i := None)\<rparr>"
  from insert_if_epoch_ok [of perm "cs_cache s" k v now e] cs_insert
  have c: "cache_ok c" "tc_epoch c = tc_epoch (cs_cache s)" by (auto simp: cache_inv_def)
  have same: "unbumped ?t = unbumped s" "undropped ?t = undropped s" by (simp_all add: fun_eq_iff unbumped_def undropped_def)
  have "ce_value en = cs_source s k' \<or> undropped s k'" if "map_of (tc_state c) k' = Some en" for k' en
  proof -
    have "undropped s k'" if "unbumped s k'" using that by (auto simp: unbumped_def undropped_def)
    then show ?thesis
      using insert_if_epoch_entries [OF cs_insert(3) that] cs_insert(1,4) unfolding cache_inv_def by blast
  qed
  with c same cs_insert(4) show ?case by (simp add: cache_inv_def)
next
  case (cs_write s j key src)
  let ?t = "s\<lparr>cs_source := src, cs_writes := (cs_writes s)(j \<mapsto> Written key)\<rparr>"
  have keep: "undropped s k \<Longrightarrow> undropped ?t k" "unbumped s k \<Longrightarrow> unbumped ?t k" for k
    using cs_write(1) by (auto simp: undropped_def unbumped_def) (metis option.distinct(1))+
  have new: "touches key k \<Longrightarrow> undropped ?t k \<and> unbumped ?t k" for k by (auto simp: undropped_def unbumped_def)
  have same: "\<not> touches key k \<Longrightarrow> src k = cs_source s k" for k
    using cs_write(2) by (cases key) (auto simp: touches_def)
  from cs_write(3) keep new same show ?case by (simp add: cache_inv_def) metis
next
  case (cs_bump s j key)
  let ?t = "s\<lparr>cs_cache := cache_bump (cs_cache s), cs_writes := (cs_writes s)(j \<mapsto> Bumped key)\<rparr>"
  have keep: "undropped s k \<Longrightarrow> undropped ?t k" for k
    using cs_bump(1) by (auto simp: undropped_def) (metis option.inject write_state.inject(1) write_state.distinct(1))+
  from cs_bump(2) have le: "cs_loads s i = Some (Loaded k e v) \<Longrightarrow> e \<le> tc_epoch (cs_cache s)"
    "cs_loads s i = Some (Begun k e) \<Longrightarrow> e \<le> tc_epoch (cs_cache s)" for i k e v by (auto simp: cache_inv_def)
  have sel: "tc_state (cache_bump (cs_cache s)) = tc_state (cs_cache s)"
    "tc_epoch (cache_bump (cs_cache s)) = Suc (tc_epoch (cs_cache s))" by (simp_all add: cache_bump_def)
  have "ce_value e = cs_source s k \<or> undropped ?t k" if "map_of (tc_state (cs_cache s)) k = Some e" for k e
    using cs_bump(2) keep that unfolding cache_inv_def by blast
  moreover have "cache_ok (cache_bump (cs_cache s))" using cs_bump(2) by (simp add: cache_inv_def cache_ok_frames)
  moreover have "e \<le> Suc (tc_epoch (cs_cache s)) \<and> e \<noteq> Suc (tc_epoch (cs_cache s))" if "cs_loads s i = Some (Loaded k e v)" for i k e v
    using le(1) [OF that] by simp
  moreover have "e \<le> Suc (tc_epoch (cs_cache s))" if "cs_loads s i = Some (Begun k e)" for i k e
    using le(2) [OF that] by simp
  moreover define t where "t = ?t"
  moreover from t_def have "cs_cache t = cache_bump (cs_cache s)" "cs_loads t = cs_loads s" "cs_source t = cs_source s" by simp_all
  ultimately have "cache_inv t" unfolding cache_inv_def by (simp add: sel)
  then show ?case unfolding t_def .
next
  case (cs_drop s j key)
  let ?t = "s\<lparr>cs_cache := cache_drop key (cs_cache s), cs_writes := (cs_writes s)(j := None)\<rparr>"
  have gone: "touches key k \<Longrightarrow> map_of (tc_state (cache_drop key (cs_cache s))) k = None" for k
    by (cases key) (auto simp: touches_def cache_drop_def delete_conv')
  have sub: "map_of (tc_state (cache_drop key (cs_cache s))) k = Some e \<Longrightarrow> map_of (tc_state (cs_cache s)) k = Some e" for k e
    by (cases key) (auto simp: cache_drop_def delete_conv' split: if_splits)
  have keep: "undropped ?t k" if "undropped s k" "\<not> touches key k" for k
  proof -
    from that(1) obtain i key' where i: "cs_writes s i = Some (Written key') \<or> cs_writes s i = Some (Bumped key')"
      "touches key' k" unfolding undropped_def by blast
    with that(2) cs_drop(1) have "i \<noteq> j" by auto
    with i show ?thesis unfolding undropped_def by (intro exI [of _ i] exI [of _ key']) simp
  qed
  have keep2: "unbumped ?t k" if "unbumped s k" for k
  proof -
    from that obtain i key' where i: "cs_writes s i = Some (Written key')" "touches key' k" unfolding unbumped_def by blast
    with cs_drop(1) have "i \<noteq> j" by auto
    with i show ?thesis unfolding unbumped_def by (intro exI [of _ i] exI [of _ key']) simp
  qed
  have ep: "tc_epoch (cache_drop key (cs_cache s)) = tc_epoch (cs_cache s)"
    by (simp add: cache_drop_def split: option.split)
  have "ce_value e = cs_source s k \<or> undropped ?t k" if "map_of (tc_state (cache_drop key (cs_cache s))) k = Some e" for k e
    using gone [of k] sub [OF that] that keep [of k] cs_drop(2) unfolding cache_inv_def by fastforce
  with cs_drop(2) keep2 ep show ?case by (simp add: cache_inv_def cache_ok_frames) metis
qed

interpretation ttl: transition_system cache_init cache_step cache_inv
  by unfold_locales (auto intro: cache_inv_init cache_inv_step)

section \<open>A hit is current\<close>

text \<open>
  C24. Whatever loads, writes and invalidations interleave, a hit returns the source's present value
  unless an invalidation that covers the key is still under way; and the cache never exceeds its
  capacity.
\<close>

theorem hit_is_current:
  assumes "reach cache_init cache_step s" "lookup_fresh (cs_cache s) k now = Some v" "\<not> undropped s k"
  shows "v = cs_source s k \<and> length (tc_state (cs_cache s)) \<le> tc_cap (cs_cache s)"
proof -
  have inv: "cache_inv s" using assms(1) by (rule ttl.reach_inv)
  obtain e where e: "map_of (tc_state (cs_cache s)) k = Some e" "v = ce_value e"
    using assms(2) by (auto simp: lookup_fresh_def split: option.splits if_splits)
  have "ce_value e = cs_source s k" using inv e(1) assms(3) unfolding cache_inv_def by blast
  with e inv show ?thesis by (simp add: cache_inv_def cache_ok_def)
qed

text \<open>A load that read the old value is overtaken by an invalidation; the next load is served.\<close>

definition race0 :: "(nat, nat) cache_system" where
  "race0 = \<lparr>cs_cache = \<lparr>tc_state = [], tc_epoch = 0, tc_cap = 1, tc_ttl = 60\<rparr>, cs_source = (\<lambda>_. 5),
     cs_loads = Map.empty, cs_writes = Map.empty\<rparr>"

definition race1 :: "(nat, nat) cache_system" where
  "race1 = race0\<lparr>cs_loads := [0 \<mapsto> Loaded 7 0 5]\<rparr>"

definition race2 :: "(nat, nat) cache_system" where
  "race2 = race1\<lparr>cs_source := (\<lambda>_. 6), cs_cache := (cs_cache race0)\<lparr>tc_epoch := 1\<rparr>\<rparr>"

definition race3 :: "(nat, nat) cache_system" where
  "race3 = race2\<lparr>cs_loads := Map.empty, cs_cache := (cs_cache race0)\<lparr>tc_epoch := 1,
     tc_state := [(7, \<lparr>ce_value = 6, ce_fetched_at = 10\<rparr>)]\<rparr>\<rparr>"

lemma race_reach: "reach cache_init cache_step race3"
proof -
  note defs = race0_def race1_def race2_def race3_def lookup_fresh_def cache_bump_def cache_drop_def insert_if_epoch_def
  have r0: "reach cache_init cache_step race0"
    by (rule reach.reach_init) (simp add: cache_init_def cache_new_def race0_def)
  have "cache_step race0 (CeBegin 0 7 0) (race0\<lparr>cs_loads := [0 \<mapsto> Begun 7 0]\<rparr>)"
    using cs_begin [of race0 0 7 0] by (simp add: defs)
  note r = reach.reach_step [OF r0 this]
  have "cache_step (race0\<lparr>cs_loads := [0 \<mapsto> Begun 7 0]\<rparr>) (CeRead 0) race1"
    using cs_read [of "race0\<lparr>cs_loads := [0 \<mapsto> Begun 7 0]\<rparr>" 0 7 0] by (simp add: defs)
  note r1 = reach.reach_step [OF r this]
  have "cache_step race1 (CeWrite 3 None (\<lambda>_. 6)) (race1\<lparr>cs_source := (\<lambda>_. 6), cs_writes := [3 \<mapsto> Written None]\<rparr>)"
    using cs_write [of race1 3 None "\<lambda>_. 6"] by (simp add: defs)
  note rw = reach.reach_step [OF r1 this]
  have "cache_step (race1\<lparr>cs_source := (\<lambda>_. 6), cs_writes := [3 \<mapsto> Written None]\<rparr>) (CeBump 3)
      (race2\<lparr>cs_writes := [3 \<mapsto> Bumped None]\<rparr>)"
    using cs_bump [of "race1\<lparr>cs_source := (\<lambda>_. 6), cs_writes := [3 \<mapsto> Written None]\<rparr>" 3 None] by (simp add: defs)
  note rb = reach.reach_step [OF rw this]
  have "cache_step (race2\<lparr>cs_writes := [3 \<mapsto> Bumped None]\<rparr>) (CeDrop 3) race2"
    using cs_drop [of "race2\<lparr>cs_writes := [3 \<mapsto> Bumped None]\<rparr>" 3 None] by (simp add: defs)
  note r2 = reach.reach_step [OF rb this]
  have "cache_step race2 (CeInsert 0 5 id) (race2\<lparr>cs_loads := Map.empty\<rparr>)"
    using cs_insert [of race2 0 7 0 5 id 5 "cs_cache race2"] by (simp add: defs)
  note r3 = reach.reach_step [OF r2 this]
  have "cache_step (race2\<lparr>cs_loads := Map.empty\<rparr>) (CeBegin 1 7 9) (race2\<lparr>cs_loads := [1 \<mapsto> Begun 7 1]\<rparr>)"
    using cs_begin [of "race2\<lparr>cs_loads := Map.empty\<rparr>" 1 7 9] by (simp add: defs)
  note r4 = reach.reach_step [OF r3 this]
  have "cache_step (race2\<lparr>cs_loads := [1 \<mapsto> Begun 7 1]\<rparr>) (CeRead 1) (race2\<lparr>cs_loads := [1 \<mapsto> Loaded 7 1 6]\<rparr>)"
    using cs_read [of "race2\<lparr>cs_loads := [1 \<mapsto> Begun 7 1]\<rparr>" 1 7 1] by (simp add: defs)
  note r5 = reach.reach_step [OF r4 this]
  have "cache_step (race2\<lparr>cs_loads := [1 \<mapsto> Loaded 7 1 6]\<rparr>) (CeInsert 1 10 id) race3"
    using cs_insert [of "race2\<lparr>cs_loads := [1 \<mapsto> Loaded 7 1 6]\<rparr>" 1 7 1 6 id 10 "cs_cache race3"]
    by (simp add: defs)
  then show ?thesis by (rule reach.reach_step [OF r5])
qed

theorem hit_is_current_witness:
  "lookup_fresh (cs_cache race3) 7 11 = Some 6 \<and> 6 = cs_source race3 7
   \<and> length (tc_state (cs_cache race3)) \<le> tc_cap (cs_cache race3)"
proof -
  have hit: "lookup_fresh (cs_cache race3) 7 11 = Some 6"
    by (simp add: race3_def lookup_fresh_def race0_def expired_def)
  have "\<not> undropped race3 7" by (simp add: undropped_def race3_def race2_def race1_def race0_def)
  from hit_is_current [OF race_reach hit this] hit show ?thesis by simp
qed

end
