(* ===== verification/Lark_Frames.thy ===== *)
theory Lark_Frames
  imports Rust_Numbers
begin

text \<open>
  The frames of Lark's long connection (\<open>lark/pbbp2.rs\<close>) and the reassembly of messages that
  arrive in fragments (\<open>lark/codec.rs\<close>). The protobuf encoding itself is the library \<open>prost\<close>; a
  frame is the record it decodes to, a payload its bytes.
\<close>

section \<open>Frames\<close>

definition METHOD_CONTROL :: int where "METHOD_CONTROL = 0"
definition METHOD_DATA :: int where "METHOD_DATA = 1"
definition LARK_FRAME_REASSEMBLY_MAX :: nat where "LARK_FRAME_REASSEMBLY_MAX = 64"
definition LARK_FRAME_MAX_FRAGMENTS :: int where "LARK_FRAME_MAX_FRAGMENTS = 256"

definition HEADER_TYPE :: string where "HEADER_TYPE = ''type''"
definition HEADER_MESSAGE_ID :: string where "HEADER_MESSAGE_ID = ''message_id''"
definition HEADER_SUM :: string where "HEADER_SUM = ''sum''"
definition HEADER_SEQ :: string where "HEADER_SEQ = ''seq''"
definition HEADER_BIZ_RT :: string where "HEADER_BIZ_RT = ''biz_rt''"
definition TYPE_PING :: string where "TYPE_PING = ''ping''"

record frame_header =
  hd_key :: string
  hd_value :: string

record frame =
  fr_seq_id :: nat
  fr_log_id :: nat
  fr_service :: int
  fr_method :: int
  fr_headers :: "frame_header list"
  fr_payload_encoding :: string
  fr_payload_type :: string
  fr_payload :: string
  fr_log_id_new :: string

definition default_frame :: frame where
  "default_frame = \<lparr>fr_seq_id = 0, fr_log_id = 0, fr_service = 0, fr_method = 0, fr_headers = [],
     fr_payload_encoding = [], fr_payload_type = [], fr_payload = [], fr_log_id_new = []\<rparr>"

definition header :: "frame \<Rightarrow> string \<Rightarrow> string option" where
  "header f key = map_option hd_value (find (\<lambda>h. hd_key h = key) (fr_headers f))"

definition header_int :: "frame \<Rightarrow> string \<Rightarrow> int option" where
  "header_int f key = Option.bind (header f key) parse_i64"

definition msg_type :: "frame \<Rightarrow> string option" where "msg_type f = header f HEADER_TYPE"
definition message_id :: "frame \<Rightarrow> string option" where "message_id f = header f HEADER_MESSAGE_ID"

definition ping_frame :: "int \<Rightarrow> frame" where
  "ping_frame service = default_frame\<lparr>fr_method := METHOD_CONTROL, fr_service := service,
     fr_headers := [\<lparr>hd_key = HEADER_TYPE, hd_value = TYPE_PING\<rparr>]\<rparr>"

definition into_ack :: "frame \<Rightarrow> int \<Rightarrow> int \<Rightarrow> frame" where
  "into_ack f code biz_rt_ms = f\<lparr>
     fr_headers := fr_headers f @ [\<lparr>hd_key = HEADER_BIZ_RT, hd_value = show_int biz_rt_ms\<rparr>],
     fr_payload := ''{'' @ [CHR 0x22] @ ''code'' @ [CHR 0x22] @ '':'' @ show_int code @ ''}'',
     fr_payload_encoding := [], fr_payload_type := []\<rparr>"

section \<open>Reassembly\<close>

datatype frame_error =
    BadFragment int int
  | MissingHeader string

record partial =
  pt_message_id :: string
  pt_sum :: nat
  pt_fragments :: "string option list"
  pt_filled :: nat

fun position :: "('a \<Rightarrow> bool) \<Rightarrow> 'a list \<Rightarrow> nat option" where
  "position p [] = None"
| "position p (x # xs) = (if p x then Some 0 else map_option Suc (position p xs))"

definition remove_at :: "nat \<Rightarrow> 'a list \<Rightarrow> 'a list" where
  "remove_at i xs = take i xs @ drop (Suc i) xs"

text \<open>The partial of a message, begun at the back when there is none; a full buffer drops its front.\<close>

definition locate_partial :: "partial list \<Rightarrow> string \<Rightarrow> nat \<Rightarrow> nat \<times> partial list" where
  "locate_partial ps mid n =
     (case position (\<lambda>p. pt_message_id p = mid) ps of
        Some i \<Rightarrow> (i, ps)
      | None \<Rightarrow>
          (let ps1 = (if length ps \<ge> LARK_FRAME_REASSEMBLY_MAX then tl ps else ps);
               ps2 = ps1 @ [\<lparr>pt_message_id = mid, pt_sum = n, pt_fragments = replicate n None, pt_filled = 0\<rparr>]
           in (length ps2 - 1, ps2)))"

definition fill_fragment :: "partial \<Rightarrow> nat \<Rightarrow> string \<Rightarrow> partial" where
  "fill_fragment p seq body =
     (if pt_fragments p ! seq = None
      then p\<lparr>pt_fragments := (pt_fragments p)[seq := Some body], pt_filled := pt_filled p + 1\<rparr> else p)"

definition accept_fragment ::
  "partial list \<Rightarrow> string \<Rightarrow> nat \<Rightarrow> nat \<Rightarrow> string \<Rightarrow> (string option, frame_error) result \<times> partial list" where
  "accept_fragment ps mid n seq body =
     (case locate_partial ps mid n of
        (i, ps1) \<Rightarrow>
          if pt_sum (ps1 ! i) \<noteq> n then (Inl (BadFragment (int n) (int seq)), remove_at i ps1)
          else (let p = fill_fragment (ps1 ! i) seq body; ps2 = ps1[i := p] in
            if pt_filled p < pt_sum p then (Inr None, ps2)
            else (Inr (Some (concat (List.map_filter id (pt_fragments p)))), remove_at i ps2)))"

definition accept :: "partial list \<Rightarrow> frame \<Rightarrow> (string option, frame_error) result \<times> partial list" where
  "accept ps f =
     (let sum = (case header_int f HEADER_SUM of None \<Rightarrow> 1 | Some n \<Rightarrow> n);
          seq = (case header_int f HEADER_SEQ of None \<Rightarrow> 0 | Some n \<Rightarrow> n) in
      if sum \<le> 1 then (Inr (Some (fr_payload f)), ps)
      else if sum > LARK_FRAME_MAX_FRAGMENTS \<or> seq < 0 \<or> seq \<ge> sum then (Inl (BadFragment sum seq), ps)
      else (case message_id f of
              None \<Rightarrow> (Inl (MissingHeader HEADER_MESSAGE_ID), ps)
            | Some mid \<Rightarrow> accept_fragment ps mid (nat sum) (nat seq) (fr_payload f)))"

fun accept_all :: "partial list \<Rightarrow> frame list \<Rightarrow> partial list" where
  "accept_all ps [] = ps"
| "accept_all ps (f # fs) = accept_all (snd (accept ps f)) fs"

section \<open>Lists\<close>

lemma position_Some: "position p xs = Some i \<Longrightarrow> i < length xs \<and> p (xs ! i) \<and> (\<forall>j < i. \<not> p (xs ! j))"
proof (induction xs arbitrary: i)
  case (Cons x xs)
  then show ?case by (auto simp: nth_Cons split: if_splits nat.splits)
qed simp

lemma position_None: "position p xs = None \<longleftrightarrow> (\<forall>x \<in> set xs. \<not> p x)"
  by (induction xs) auto

lemma remove_at_split: "i < length xs \<Longrightarrow> xs = take i xs @ xs ! i # drop (Suc i) xs"
  by (simp add: id_take_nth_drop [symmetric])

lemma set_remove_at: "set (remove_at i xs) \<subseteq> set xs"
  by (auto simp: remove_at_def dest: in_set_takeD in_set_dropD)

lemma length_remove_at: "i < length xs \<Longrightarrow> length (remove_at i xs) = length xs - 1"
  by (simp add: remove_at_def)

lemma distinct_remove_at: "distinct (map g xs) \<Longrightarrow> distinct (map g (remove_at i xs))"
proof -
  assume d: "distinct (map g xs)"
  show ?thesis
  proof (cases "i < length xs")
    case True
    then have "map g xs = map g (take i xs) @ g (xs ! i) # map g (drop (Suc i) xs)"
      by (metis id_take_nth_drop list.simps(9) map_append)
    with d show ?thesis by (simp add: remove_at_def)
  qed (use d in \<open>simp add: remove_at_def\<close>)
qed

section \<open>The buffer\<close>

definition fragments_agree :: "partial \<Rightarrow> bool" where
  "fragments_agree p \<longleftrightarrow> length (pt_fragments p) = pt_sum p
     \<and> pt_filled p = length (filter (\<lambda>x. x \<noteq> None) (pt_fragments p))"

definition partial_ok :: "partial \<Rightarrow> bool" where
  "partial_ok p \<longleftrightarrow> fragments_agree p \<and> pt_filled p < pt_sum p \<and> int (pt_sum p) \<le> LARK_FRAME_MAX_FRAGMENTS"

definition buffer_ok :: "partial list \<Rightarrow> bool" where
  "buffer_ok ps \<longleftrightarrow> distinct (map pt_message_id ps) \<and> length ps \<le> LARK_FRAME_REASSEMBLY_MAX \<and> (\<forall>p \<in> set ps. partial_ok p)"

lemma fill_fragment_agree:
  assumes "fragments_agree p" "seq < pt_sum p"
  shows "fragments_agree (fill_fragment p seq body)" "pt_sum (fill_fragment p seq body) = pt_sum p"
    "pt_message_id (fill_fragment p seq body) = pt_message_id p"
proof -
  let ?fs = "pt_fragments p"
  have "length (filter (\<lambda>x. x \<noteq> None) (?fs[seq := Some body])) = Suc (length (filter (\<lambda>x. x \<noteq> None) ?fs))"
    if "?fs ! seq = None"
  proof -
    have n: "seq < length ?fs" using assms by (simp add: fragments_agree_def)
    have fs: "?fs = take seq ?fs @ None # drop (Suc seq) ?fs" using id_take_nth_drop [OF n] that by simp
    show ?thesis unfolding upd_conv_take_nth_drop [OF n] by (subst (3) fs) simp
  qed
  then show "fragments_agree (fill_fragment p seq body)" using assms by (auto simp: fill_fragment_def fragments_agree_def)
  show "pt_sum (fill_fragment p seq body) = pt_sum p" "pt_message_id (fill_fragment p seq body) = pt_message_id p"
    by (simp_all add: fill_fragment_def)
qed

definition new_partial :: "string \<Rightarrow> nat \<Rightarrow> partial" where
  "new_partial mid n = \<lparr>pt_message_id = mid, pt_sum = n, pt_fragments = replicate n None, pt_filled = 0\<rparr>"

definition make_room :: "partial list \<Rightarrow> partial list" where
  "make_room ps = (if length ps \<ge> LARK_FRAME_REASSEMBLY_MAX then tl ps else ps)"

lemma locate_partial_eq:
  "locate_partial ps mid n =
     (case position (\<lambda>p. pt_message_id p = mid) ps of
        Some i \<Rightarrow> (i, ps) | None \<Rightarrow> (length (make_room ps), make_room ps @ [new_partial mid n]))"
  by (simp add: locate_partial_def make_room_def new_partial_def Let_def split: option.split)

lemma new_partial_agree: "fragments_agree (new_partial mid n)"
  by (simp add: fragments_agree_def new_partial_def)

lemma fill_new:
  "seq < n \<Longrightarrow> pt_filled (fill_fragment (new_partial mid n) seq body) = 1"
  by (simp add: fill_fragment_def new_partial_def)

lemma accept_fragment_cases:
  assumes acc: "accept_fragment ps mid n seq body = (x, ps')" and ok: "buffer_ok ps"
    and n: "2 \<le> n" "int n \<le> LARK_FRAME_MAX_FRAGMENTS" "seq < n"
  obtains (kept) i q where "i < length ps" "pt_message_id (ps ! i) = mid" "ps' = ps[i := q]" "pt_message_id q = mid" "partial_ok q"
  | (removed) i where "i < length ps" "pt_message_id (ps ! i) = mid" "ps' = remove_at i ps"
  | (pushed) q where "\<forall>p \<in> set ps. pt_message_id p \<noteq> mid" "ps' = make_room ps @ [q]" "pt_message_id q = mid" "partial_ok q"
proof (cases "position (\<lambda>p. pt_message_id p = mid) ps")
  case None
  let ?q = "fill_fragment (new_partial mid n) seq body"
  have sum: "pt_sum (new_partial mid n) = n" "pt_message_id (new_partial mid n) = mid" by (simp_all add: new_partial_def)
  note q = fill_fragment_agree [OF new_partial_agree, of seq mid n body, unfolded sum, OF n(3)]
  have "ps' = make_room ps @ [?q]"
    using acc n q(2) fill_new [OF n(3)] unfolding accept_fragment_def locate_partial_eq None
    by (auto simp: sum Let_def)
  moreover have "partial_ok ?q" using q n fill_new [OF n(3)] by (simp add: partial_ok_def)
  ultimately show ?thesis using None q(3) by (intro pushed [of ?q]) (auto simp: position_None)
next
  case (Some i)
  from position_Some [OF Some] have i: "i < length ps" "pt_message_id (ps ! i) = mid" by simp_all
  with ok have p: "partial_ok (ps ! i)" by (simp add: buffer_ok_def)
  let ?q = "fill_fragment (ps ! i) seq body"
  show ?thesis
  proof (cases "pt_sum (ps ! i) = n")
    case False
    with acc Some have "ps' = remove_at i ps" by (auto simp: accept_fragment_def locate_partial_eq)
    with i show ?thesis by (intro removed)
  next
    case True
    note q = fill_fragment_agree [of "ps ! i" seq body]
    show ?thesis
    proof (cases "pt_filled ?q < pt_sum ?q")
      case True
      with acc Some \<open>pt_sum (ps ! i) = n\<close> have "ps' = ps[i := ?q]"
        by (auto simp: accept_fragment_def locate_partial_eq Let_def)
      with i p q n True \<open>pt_sum (ps ! i) = n\<close> show ?thesis by (intro kept [of i ?q]) (auto simp: partial_ok_def)
    next
      case False
      with acc Some \<open>pt_sum (ps ! i) = n\<close> have "ps' = remove_at i (ps[i := ?q])"
        by (auto simp: accept_fragment_def locate_partial_eq Let_def)
      then have "ps' = remove_at i ps" by (simp add: remove_at_def)
      with i show ?thesis by (intro removed)
    qed
  qed
qed

text \<open>What a frame can do to the buffer.\<close>

lemma accept_cases:
  assumes "accept ps f = (x, ps')"
  obtains (same) "ps' = ps"
  | (fragment) mid n seq where "message_id f = Some mid" "accept_fragment ps mid n seq (fr_payload f) = (x, ps')"
      "2 \<le> n" "int n \<le> LARK_FRAME_MAX_FRAGMENTS" "seq < n"
proof -
  define sum where "sum = (case header_int f HEADER_SUM of None \<Rightarrow> 1 | Some n \<Rightarrow> n)"
  define seq where "seq = (case header_int f HEADER_SEQ of None \<Rightarrow> 0 | Some n \<Rightarrow> n)"
  note unfolded = assms [unfolded accept_def Let_def, folded sum_def seq_def]
  show ?thesis
  proof (cases "sum \<le> 1 \<or> sum > LARK_FRAME_MAX_FRAGMENTS \<or> seq < 0 \<or> seq \<ge> sum \<or> message_id f = None")
    case True
    with unfolded show ?thesis by (intro same) (auto split: if_splits)
  next
    case False
    then obtain mid where m: "message_id f = Some mid" by blast
    with False unfolded have "accept_fragment ps mid (nat sum) (nat seq) (fr_payload f) = (x, ps')" by simp
    with m False show ?thesis by (intro fragment [of mid "nat sum" "nat seq"]) auto
  qed
qed

lemma set_make_room: "set (make_room ps) \<subseteq> set ps"
  by (cases ps) (auto simp: make_room_def)

lemma accept_buffer_ok:
  assumes ok: "buffer_ok ps"
  shows "buffer_ok (snd (accept ps f))"
proof -
  obtain x ps' where a: "accept ps f = (x, ps')" by (meson surj_pair)
  from a have "buffer_ok ps'"
  proof (cases rule: accept_cases)
    case same
    with ok show ?thesis by simp
  next
    case (fragment mid n seq)
    from fragment(2) ok fragment(3-5) show ?thesis
    proof (cases rule: accept_fragment_cases)
      case (kept i q)
      then have "map pt_message_id ps' = map pt_message_id ps"
        by (metis list_update_id map_update)
      moreover have "set ps' \<subseteq> insert q (set ps)" using kept by (simp add: set_update_subset_insert)
      ultimately show ?thesis using ok kept by (auto simp: buffer_ok_def)
    next
      case (removed i)
      then show ?thesis using ok set_remove_at [of i ps] length_remove_at [of i ps] distinct_remove_at [of pt_message_id ps i]
        by (auto simp: buffer_ok_def)
    next
      case (pushed q)
      have "length (make_room ps) < LARK_FRAME_REASSEMBLY_MAX"
        using ok by (auto simp: make_room_def buffer_ok_def LARK_FRAME_REASSEMBLY_MAX_def)
      moreover have "distinct (map pt_message_id (make_room ps))"
        using ok by (cases ps) (auto simp: make_room_def buffer_ok_def)
      ultimately show ?thesis using ok pushed set_make_room [of ps] by (auto simp: buffer_ok_def)
    qed
  qed
  with a show ?thesis by simp
qed

end
