(* ===== verification/Lark_Properties.thy ===== *)
theory Lark_Properties
  imports Lark_Frames
begin

text \<open>
  A fragmented message is reassembled: the state of its partial while other messages come in
  between, and the last fragment returning the payload.
\<close>

section \<open>A message in assembly\<close>

definition fragment_of :: "string \<Rightarrow> string list \<Rightarrow> nat \<Rightarrow> frame \<Rightarrow> bool" where
  "fragment_of mid chunks i f \<longleftrightarrow> i < length chunks \<and> message_id f = Some mid
     \<and> header_int f HEADER_SUM = Some (int (length chunks)) \<and> header_int f HEADER_SEQ = Some (int i)
     \<and> fr_payload f = chunks ! i"

definition seen :: "string list \<Rightarrow> nat set \<Rightarrow> string option list" where
  "seen chunks S = map (\<lambda>i. if i \<in> S then Some (chunks ! i) else None) [0..<length chunks]"

definition assembling :: "string \<Rightarrow> string list \<Rightarrow> nat set \<Rightarrow> nat \<Rightarrow> partial list \<Rightarrow> bool" where
  "assembling mid chunks S k ps \<longleftrightarrow>
     (\<exists>pre p post. ps = pre @ p # post \<and> pt_message_id p = mid \<and> pt_sum p = length chunks
        \<and> (\<forall>q \<in> set pre \<union> set post. pt_message_id q \<noteq> mid)
        \<and> pt_fragments p = seen chunks S \<and> pt_filled p = card S \<and> length post \<le> k)"

definition absent :: "string \<Rightarrow> partial list \<Rightarrow> bool" where
  "absent mid ps \<longleftrightarrow> (\<forall>p \<in> set ps. pt_message_id p \<noteq> mid)"

lemma seen_nth: "i < length chunks \<Longrightarrow> seen chunks S ! i = (if i \<in> S then Some (chunks ! i) else None)"
  by (simp add: seen_def)

lemma seen_insert: "i < length chunks \<Longrightarrow> (seen chunks S)[i := Some (chunks ! i)] = seen chunks (insert i S)"
  by (rule nth_equalityI) (auto simp: seen_def nth_list_update)

lemma seen_empty: "seen chunks {} = replicate (length chunks) None"
  by (rule nth_equalityI) (auto simp: seen_def)

lemma seen_all: "{..<length chunks} \<subseteq> S \<Longrightarrow> concat (List.map_filter id (seen chunks S)) = concat chunks"
proof -
  assume "{..<length chunks} \<subseteq> S"
  then have "seen chunks S = map Some chunks" by (intro nth_equalityI) (auto simp: seen_def)
  then show ?thesis by (simp add: map_filter_def comp_def)
qed

lemma accept_own:
  assumes "fragment_of mid chunks i f" "2 \<le> length chunks" "int (length chunks) \<le> LARK_FRAME_MAX_FRAGMENTS"
  shows "accept ps f = accept_fragment ps mid (length chunks) i (chunks ! i)"
  using assms by (simp add: accept_def fragment_of_def Let_def)

text \<open>The first fragment of a message opens a partial at the back.\<close>

lemma accept_first:
  assumes f: "fragment_of mid chunks i f" and n: "2 \<le> length chunks" "int (length chunks) \<le> LARK_FRAME_MAX_FRAGMENTS"
    and absent: "absent mid ps"
  shows "\<exists>ps'. accept ps f = (Inr None, ps') \<and> assembling mid chunks {i} k ps'"
proof -
  have i: "i < length chunks" using f by (simp add: fragment_of_def)
  have pos: "position (\<lambda>p. pt_message_id p = mid) ps = None" using absent by (simp add: position_None absent_def)
  let ?q = "fill_fragment (new_partial mid (length chunks)) i (chunks ! i)"
  have q: "pt_fragments ?q = seen chunks {i}" "pt_filled ?q = 1" "pt_sum ?q = length chunks" "pt_message_id ?q = mid"
    using i seen_insert [OF i, of "{}"] by (simp_all add: fill_fragment_def new_partial_def seen_empty)
  have "accept ps f = (Inr None, make_room ps @ [?q])"
    using n q unfolding accept_own [OF f n] accept_fragment_def locate_partial_eq pos
    by (simp add: new_partial_def Let_def)
  moreover have "assembling mid chunks {i} k (make_room ps @ [?q])"
    unfolding assembling_def using q absent set_make_room [of ps]
    by (intro exI [of _ "make_room ps"] exI [of _ ?q] exI [of _ "[]"]) (auto simp: absent_def)
  ultimately show ?thesis by blast
qed

lemma accept_located:
  assumes "position (\<lambda>p. pt_message_id p = mid) ps = Some i" "i < length ps" "pt_sum (ps ! i) = n"
  shows "accept_fragment ps mid n seq body =
    (let p = fill_fragment (ps ! i) seq body in
      if pt_filled p < pt_sum p then (Inr None, ps[i := p])
      else (Inr (Some (concat (List.map_filter id (pt_fragments p)))), remove_at i (ps[i := p])))"
  using assms by (simp add: accept_fragment_def locate_partial_eq Let_def)

lemma position_pre:
  "\<forall>q \<in> set pre. \<not> P q \<Longrightarrow> P p \<Longrightarrow> position P (pre @ p # post) = Some (length pre)"
  by (induction pre) auto

lemma accept_next:
  assumes f: "fragment_of mid chunks i f" and n: "2 \<le> length chunks" "int (length chunks) \<le> LARK_FRAME_MAX_FRAGMENTS"
    and S: "S \<subseteq> {..<length chunks}" and asm: "assembling mid chunks S k ps"
  shows "if insert i S = {..<length chunks}
    then \<exists>ps'. accept ps f = (Inr (Some (concat chunks)), ps') \<and> absent mid ps'
    else \<exists>ps'. accept ps f = (Inr None, ps') \<and> assembling mid chunks (insert i S) k ps'"
proof -
  have i: "i < length chunks" using f by (simp add: fragment_of_def)
  have fin: "finite S" "insert i S \<subseteq> {..<length chunks}" using S i by (auto intro: finite_subset)
  obtain pre p post where ps: "ps = pre @ p # post" and p: "pt_message_id p = mid" "pt_sum p = length chunks"
    "pt_fragments p = seen chunks S" "pt_filled p = card S"
    and others: "\<forall>q \<in> set pre \<union> set post. pt_message_id q \<noteq> mid" and k: "length post \<le> k"
    using asm unfolding assembling_def by blast
  let ?q = "fill_fragment p i (chunks ! i)"
  have q: "pt_fragments ?q = seen chunks (insert i S)" "pt_filled ?q = card (insert i S)" "pt_sum ?q = length chunks"
    "pt_message_id ?q = mid"
  proof -
    show "pt_fragments ?q = seen chunks (insert i S)" "pt_filled ?q = card (insert i S)"
      using p i fin by (auto simp: fill_fragment_def seen_nth seen_insert insert_absorb)
  qed (use p in \<open>simp_all add: fill_fragment_def\<close>)
  have pos: "position (\<lambda>p. pt_message_id p = mid) ps = Some (length pre)"
    unfolding ps using others p by (intro position_pre) auto
  have nth: "ps ! length pre = p" and upd: "ps[length pre := ?q] = pre @ ?q # post"
    unfolding ps by (simp_all add: nth_append list_update_append)
  have rem: "remove_at (length pre) (pre @ ?q # post) = pre @ post" by (simp add: remove_at_def)
  have card: "card (insert i S) < length chunks \<longleftrightarrow> insert i S \<noteq> {..<length chunks}"
    using fin(2) card_subset_eq [of "{..<length chunks}" "insert i S"] card_mono [of "{..<length chunks}" "insert i S"]
    by fastforce
  have len: "length pre < length ps" unfolding ps by simp
  have acc: "accept ps f = (if card (insert i S) < length chunks then (Inr None, pre @ ?q # post)
      else (Inr (Some (concat (List.map_filter id (seen chunks (insert i S))))), pre @ post))"
    unfolding accept_own [OF f n] accept_located [OF pos len p(2) [folded nth]] nth upd Let_def q rem by (rule refl)
  show ?thesis
  proof (cases "insert i S = {..<length chunks}")
    case True
    then have "accept ps f = (Inr (Some (concat chunks)), pre @ post)"
      using card seen_all [of chunks "insert i S"] unfolding acc by (simp del: card_insert_if)
    moreover have "absent mid (pre @ post)" using others by (auto simp: absent_def)
    ultimately show ?thesis using True by simp
  next
    case False
    then have "accept ps f = (Inr None, pre @ ?q # post)" using card unfolding acc by simp
    moreover have "assembling mid chunks (insert i S) k (pre @ ?q # post)"
      unfolding assembling_def using q others k
      by (intro exI [of _ pre] exI [of _ ?q] exI [of _ post]) auto
    ultimately show ?thesis using False by simp
  qed
qed

section \<open>Frames of other messages\<close>

lemma remove_at_append:
  "remove_at i (pre @ p # post) = (if i < length pre then remove_at i pre @ p # post
     else if i = length pre then pre @ post else pre @ p # remove_at (i - Suc (length pre)) post)"
proof -
  consider "i < length pre" | "i = length pre" | j where "i = Suc (length pre) + j"
    by (metis add.commute le_Suc_ex le_eq_less_or_eq linorder_neqE_nat not_less_eq_eq)
  then show ?thesis by cases (auto simp: remove_at_def)
qed

lemma accept_foreign_absent:
  assumes "buffer_ok ps" "message_id f \<noteq> Some mid" "absent mid ps"
  shows "absent mid (snd (accept ps f))"
proof -
  obtain x ps' where a: "accept ps f = (x, ps')" by (meson surj_pair)
  from a have "absent mid ps'"
  proof (cases rule: accept_cases)
    case (fragment mid' n seq)
    with assms have ne: "mid' \<noteq> mid" by simp
    from fragment(2) assms(1) fragment(3-5) show ?thesis
    proof (cases rule: accept_fragment_cases)
      case (kept i q)
      then show ?thesis using assms(3) ne set_update_subset_insert [of ps i q] by (auto simp: absent_def)
    next
      case (removed i)
      then show ?thesis using assms(3) set_remove_at [of i ps] by (auto simp: absent_def)
    next
      case (pushed q)
      then show ?thesis using assms(3) ne set_make_room [of ps] by (auto simp: absent_def)
    qed
  qed (use assms in simp)
  with a show ?thesis by simp
qed

lemma accept_foreign:
  assumes ok: "buffer_ok ps" and foreign: "message_id f \<noteq> Some mid" and asm: "assembling mid chunks S k ps"
    and k: "Suc k < LARK_FRAME_REASSEMBLY_MAX"
  shows "assembling mid chunks S (Suc k) (snd (accept ps f))"
proof -
  obtain x ps' where a: "accept ps f = (x, ps')" by (meson surj_pair)
  obtain pre p post where ps: "ps = pre @ p # post" and p: "pt_message_id p = mid" "pt_sum p = length chunks"
    "pt_fragments p = seen chunks S" "pt_filled p = card S"
    and others: "\<forall>q \<in> set pre \<union> set post. pt_message_id q \<noteq> mid" and post: "length post \<le> k"
    using asm unfolding assembling_def by blast
  have build: "assembling mid chunks S (Suc k) (pre' @ p # post')"
    if "\<forall>q \<in> set pre' \<union> set post'. pt_message_id q \<noteq> mid" "length post' \<le> Suc k" for pre' post'
    unfolding assembling_def using p that by (intro exI [of _ pre'] exI [of _ p] exI [of _ post']) auto
  from a have "assembling mid chunks S (Suc k) ps'"
  proof (cases rule: accept_cases)
    case same
    with build others post show ?thesis unfolding ps by simp
  next
    case (fragment mid' n seq)
    with foreign have ne: "mid' \<noteq> mid" by simp
    from fragment(2) ok fragment(3-5) show ?thesis
    proof (cases rule: accept_fragment_cases)
      case (kept i q)
      have "i \<noteq> length pre" using kept p ne unfolding ps by (auto simp: nth_append)
      then consider "i < length pre" | "length pre < i" by linarith
      then show ?thesis
      proof cases
        case 1
        then have "ps' = pre[i := q] @ p # post" using kept(3) unfolding ps by (simp add: list_update_append)
        with build [of "pre[i := q]" post] others post kept(4) ne set_update_subset_insert [of pre i q] show ?thesis by auto
      next
        case 2
        then obtain j where j: "i = length pre + Suc j" by (metis less_imp_Suc_add add_Suc_right)
        then have "ps' = pre @ p # post[i - Suc (length pre) := q]" using kept(3) unfolding ps
          by (simp add: list_update_append)
        with build [of pre "post[i - Suc (length pre) := q]"] others post kept(4) ne
          set_update_subset_insert [of post "i - Suc (length pre)" q] show ?thesis by auto
      qed
    next
      case (removed i)
      have "i \<noteq> length pre" using removed p ne unfolding ps by (auto simp: nth_append)
      then consider "i < length pre" | "length pre < i" by linarith
      then show ?thesis
      proof cases
        case 1
        then have "ps' = remove_at i pre @ p # post" using removed unfolding ps by (simp add: remove_at_append)
        with build [of "remove_at i pre" post] others post set_remove_at [of i pre] show ?thesis by auto
      next
        case 2
        let ?post = "remove_at (i - Suc (length pre)) post"
        have "ps' = pre @ p # ?post" using 2 removed unfolding ps by (simp add: remove_at_append)
        moreover have "length ?post \<le> Suc k" using post by (simp add: remove_at_def)
        ultimately show ?thesis
          using build [of pre ?post] others set_remove_at [of "i - Suc (length pre)" post] by auto
      qed
    next
      case (pushed q)
      have len: "length ps \<le> LARK_FRAME_REASSEMBLY_MAX" using ok by (simp add: buffer_ok_def)
      obtain pre' where room: "make_room ps = pre' @ p # post" "set pre' \<subseteq> set pre"
      proof (cases pre)
        case Nil
        with len post k show ?thesis by (intro that [of "[]"]) (auto simp: make_room_def ps)
      next
        case (Cons a as)
        then show ?thesis by (intro that [of "if length ps \<ge> LARK_FRAME_REASSEMBLY_MAX then as else pre"])
          (auto simp: make_room_def ps)
      qed
      with pushed build [of pre' "post @ [q]"] others post ne show ?thesis by auto
    qed
  qed
  with a show ?thesis by simp
qed

section \<open>The payload\<close>

definition own_index :: "frame \<Rightarrow> nat" where
  "own_index f = (case header_int f HEADER_SEQ of Some i \<Rightarrow> nat i | None \<Rightarrow> 0)"

lemma own_index_fragment: "fragment_of mid chunks i f \<Longrightarrow> own_index f = i"
  by (simp add: own_index_def fragment_of_def)

lemma accept_all_assembling:
  assumes "2 \<le> length chunks" "int (length chunks) \<le> LARK_FRAME_MAX_FRAGMENTS"
    and "buffer_ok ps" "if S = {} then absent mid ps else assembling mid chunks S k ps"
    and "\<And>f. f \<in> set fs \<Longrightarrow> message_id f = Some mid \<Longrightarrow> fragment_of mid chunks (own_index f) f \<and> own_index f \<noteq> j"
    and "j < length chunks" "S \<subseteq> {..<length chunks} - {j}"
    and "k + length (filter (\<lambda>f. message_id f \<noteq> Some mid) fs) < LARK_FRAME_REASSEMBLY_MAX"
  shows "\<exists>k'. let S' = S \<union> own_index ` {f \<in> set fs. message_id f = Some mid} in
    if S' = {} then absent mid (accept_all ps fs) else assembling mid chunks S' k' (accept_all ps fs)"
  using assms(3-)
proof (induction fs arbitrary: ps S k)
  case Nil
  then show ?case by (cases "S = {}") auto
next
  case (Cons f fs)
  let ?ps = "snd (accept ps f)"
  have ok: "buffer_ok ?ps" using Cons.prems(1) by (rule accept_buffer_ok)
  show ?case
  proof (cases "message_id f = Some mid")
    case True
    let ?i = "own_index f"
    have f: "fragment_of mid chunks ?i f" "?i \<noteq> j" using Cons.prems(3) [of f] True by simp_all
    have "assembling mid chunks (insert ?i S) k ?ps"
    proof (cases "S = {}")
      case True
      then have "absent mid ps" using Cons.prems(2) by simp
      from accept_first [OF f(1) assms(1,2) this] obtain ps' where
        "accept ps f = (Inr None, ps')" "assembling mid chunks {?i} k ps'" by blast
      with True show ?thesis by simp
    next
      case False
      have "j \<notin> insert ?i S" "j \<in> {..<length chunks}" using Cons.prems(4,5) f(2) by auto
      then have ne: "insert ?i S \<noteq> {..<length chunks}" by metis
      have sub: "S \<subseteq> {..<length chunks}" using Cons.prems(5) by blast
      have asm: "assembling mid chunks S k ps" using False Cons.prems(2) by simp
      from accept_next [OF f(1) assms(1,2) sub asm, unfolded if_not_P [OF ne]] show ?thesis by (elim exE conjE) simp
    qed
    then have asm: "if insert ?i S = {} then absent mid ?ps else assembling mid chunks (insert ?i S) k ?ps" by simp
    have sub: "insert ?i S \<subseteq> {..<length chunks} - {j}" using Cons.prems(5) f by (auto simp: fragment_of_def)
    have eq: "insert ?i S \<union> own_index ` {f \<in> set fs. message_id f = Some mid}
        = S \<union> own_index ` {g \<in> set (f # fs). message_id g = Some mid}" using True by auto
    have few: "k + length (filter (\<lambda>f. message_id f \<noteq> Some mid) fs) < LARK_FRAME_REASSEMBLY_MAX"
      using Cons.prems(6) True by simp
    from Cons.IH [OF ok asm Cons.prems(3) Cons.prems(4) sub few] show ?thesis
      unfolding eq accept_all.simps by simp
  next
    case False
    have asm: "if S = {} then absent mid ?ps else assembling mid chunks S (Suc k) ?ps"
      using Cons.prems False accept_foreign_absent [of ps f mid] accept_foreign [of ps f mid chunks S k] by auto
    have eq: "{g \<in> set (f # fs). message_id g = Some mid} = {f \<in> set fs. message_id f = Some mid}" using False by auto
    have few: "Suc k + length (filter (\<lambda>f. message_id f \<noteq> Some mid) fs) < LARK_FRAME_REASSEMBLY_MAX"
      using Cons.prems(6) False by simp
    from Cons.IH [OF ok asm Cons.prems(3) Cons.prems(4,5) few] show ?thesis
      unfolding eq accept_all.simps by simp
  qed
qed

text \<open>
  C25. A message Lark sends in 2 to 256 fragments is reassembled: whatever order its fragments arrive
  in, however often one of them is repeated before the last missing one, and with fewer than 64 frames that
  are not its own in between, the frame that brings the missing fragment returns the concatenation of the
  chunks in their order, and nothing of the message stays behind. With 64 or more other messages begun in
  between the buffer may evict it.
\<close>

theorem reassembly_recovers_the_payload:
  assumes n: "2 \<le> length chunks" "int (length chunks) \<le> LARK_FRAME_MAX_FRAGMENTS"
    and ok: "buffer_ok ps" "absent mid ps"
    and own: "\<And>f. f \<in> set fs \<Longrightarrow> message_id f = Some mid \<Longrightarrow> fragment_of mid chunks (own_index f) f \<and> own_index f \<noteq> j"
    and complete: "\<And>i. i < length chunks \<Longrightarrow> i \<noteq> j \<Longrightarrow> \<exists>f \<in> set fs. fragment_of mid chunks i f"
    and foreign: "length (filter (\<lambda>f. message_id f \<noteq> Some mid) fs) < LARK_FRAME_REASSEMBLY_MAX"
    and f: "fragment_of mid chunks j f"
  shows "\<exists>ps'. accept (accept_all ps fs) f = (Inr (Some (concat chunks)), ps') \<and> absent mid ps'"
proof -
  define S where "S = own_index ` {f \<in> set fs. message_id f = Some mid}"
  have j: "j < length chunks" using f by (simp add: fragment_of_def)
  have sub: "S \<subseteq> {..<length chunks} - {j}" using own by (auto simp: S_def fragment_of_def)
  have "i \<in> S" if "i < length chunks" "i \<noteq> j" for i
    using complete [OF that] own_index_fragment unfolding S_def fragment_of_def by force
  with sub have S: "S = {..<length chunks} - {j}" by blast
  have "(if j = 0 then 1 else 0) \<in> S" using n(1) unfolding S by auto
  then have "S \<noteq> {}" by blast
  have start: "if {} = {} then absent mid ps else assembling mid chunks {} 0 ps" using ok by simp
  have few: "0 + length (filter (\<lambda>f. message_id f \<noteq> Some mid) fs) < LARK_FRAME_REASSEMBLY_MAX" using foreign by simp
  have empty: "{} \<subseteq> {..<length chunks} - {j}" by simp
  note assembled = accept_all_assembling [OF n ok(1) start own j empty few]
  from assembled obtain k where "assembling mid chunks S k (accept_all ps fs)"
    using \<open>S \<noteq> {}\<close> unfolding Let_def S_def [symmetric] Un_empty_left by auto
  moreover have "insert j S = {..<length chunks}" using j unfolding S by blast
  ultimately show ?thesis using accept_next [OF f n, of S k] sub by auto
qed

definition sample_frame :: "string \<Rightarrow> string \<Rightarrow> string \<Rightarrow> string \<Rightarrow> frame" where
  "sample_frame mid n i body = default_frame\<lparr>fr_headers :=
     [\<lparr>hd_key = HEADER_MESSAGE_ID, hd_value = mid\<rparr>, \<lparr>hd_key = HEADER_SUM, hd_value = n\<rparr>,
      \<lparr>hd_key = HEADER_SEQ, hd_value = i\<rparr>], fr_payload := body\<rparr>"

lemmas sample_frame_defs = sample_frame_def default_frame_def header_int_def header_def message_id_def
  HEADER_MESSAGE_ID_def HEADER_SUM_def HEADER_SEQ_def

lemma sample_frame_fields:
  "message_id (sample_frame mid n i body) = Some mid"
  "header_int (sample_frame mid n i body) HEADER_SUM = parse_i64 n"
  "header_int (sample_frame mid n i body) HEADER_SEQ = parse_i64 i"
  "fr_payload (sample_frame mid n i body) = body"
  by (simp_all add: sample_frame_defs)

lemma sample_numbers:
  "parse_i64 ''0'' = Some 0" "parse_i64 ''1'' = Some 1" "parse_i64 ''2'' = Some 2" "parse_i64 ''3'' = Some 3"
  by (simp_all add: parse_i64_def parse_uint_def digit_val_def i64_max_def)

lemma sample_fragments:
  "fragment_of ''m'' [''he'', ''llo'', ''!''] 0 (sample_frame ''m'' ''3'' ''0'' ''he'')"
  "fragment_of ''m'' [''he'', ''llo'', ''!''] 1 (sample_frame ''m'' ''3'' ''1'' ''llo'')"
  "fragment_of ''m'' [''he'', ''llo'', ''!''] 2 (sample_frame ''m'' ''3'' ''2'' ''!'')"
  "own_index (sample_frame ''m'' ''3'' ''0'' ''he'') = 0" "own_index (sample_frame ''m'' ''3'' ''2'' ''!'') = 2"
  by (simp_all add: fragment_of_def own_index_def sample_frame_fields sample_numbers)

definition sample_frames :: "frame list" where
  "sample_frames = [sample_frame ''m'' ''3'' ''2'' ''!'', sample_frame ''x'' ''3'' ''0'' ''?'',
     sample_frame ''m'' ''3'' ''0'' ''he'', sample_frame ''m'' ''3'' ''2'' ''!'']"

lemma sample_frames_set:
  "set sample_frames = {sample_frame ''m'' ''3'' ''2'' ''!'', sample_frame ''x'' ''3'' ''0'' ''?'',
     sample_frame ''m'' ''3'' ''0'' ''he''}"
  unfolding sample_frames_def by auto

lemma reassembly_recovers_the_payload_witness:
  "\<exists>ps'. accept (accept_all [] sample_frames) (sample_frame ''m'' ''3'' ''1'' ''llo'')
    = (Inr (Some (concat [''he'', ''llo'', ''!''])), ps') \<and> absent ''m'' ps'"
proof (rule reassembly_recovers_the_payload)
  fix i assume "i < length [''he'', ''llo'', ''!'']" "i \<noteq> 1"
  then have "i = 0 \<or> i = 2" by auto
  then show "\<exists>f \<in> set sample_frames. fragment_of ''m'' [''he'', ''llo'', ''!''] i f"
    unfolding sample_frames_set using sample_fragments by blast
next
  fix f assume "f \<in> set sample_frames" "message_id f = Some ''m''"
  then consider "f = sample_frame ''m'' ''3'' ''2'' ''!''" | "f = sample_frame ''m'' ''3'' ''0'' ''he''"
    unfolding sample_frames_set by (auto simp: sample_frame_fields)
  then show "fragment_of ''m'' [''he'', ''llo'', ''!''] (own_index f) f \<and> own_index f \<noteq> 1"
    by cases (simp_all add: sample_fragments)
next
  show "length (filter (\<lambda>f. message_id f \<noteq> Some ''m'') sample_frames) < LARK_FRAME_REASSEMBLY_MAX"
    by (simp add: sample_frames_def sample_frame_fields LARK_FRAME_REASSEMBLY_MAX_def)
qed (simp_all add: sample_fragments [unfolded One_nat_def] buffer_ok_def absent_def LARK_FRAME_MAX_FRAGMENTS_def)

end
