(* ===== verification/Channels.thy ===== *)
theory Channels
  imports Thread_Laws Colleagues Toolbox
begin

text \<open>
  Channels and their members (\<open>channels/types.rs\<close>, \<open>http/routes/channels.rs\<close> and the membership
  queries of \<open>threads/pg_store.rs\<close>). A handler runs in a transaction that sees the rows of the
  organisations the caller belongs to; \<open>now\<close> is the clock, \<open>i\<close> a minted channel id. The profile
  fields joined to a member roster are read from the user table and not modelled.
\<close>

section \<open>Names\<close>

definition CHANNEL_NAME_MAX_LEN :: nat where "CHANNEL_NAME_MAX_LEN = 63"
definition MAX_CHANNELS_PER_ORG :: nat where "MAX_CHANNELS_PER_ORG = 500"
definition CHANNEL_LIST_FETCH_MAX :: nat where "CHANNEL_LIST_FETCH_MAX = 1024"
definition MAX_CHANNELS_FOR_COLLEAGUE :: nat where "MAX_CHANNELS_FOR_COLLEAGUE = 100"

definition slug_char :: "char \<Rightarrow> bool" where
  "slug_char c \<longleftrightarrow> (let n = (of_char c :: int) in 97 \<le> n \<and> n \<le> 122 \<or> 48 \<le> n \<and> n \<le> 57)"

definition channel_name_try_from :: "string \<Rightarrow> (string, parse_error) result" where
  "channel_name_try_from raw =
     (case to_ascii_lowercase (trim raw) of
        [] \<Rightarrow> Inl (Empty ''channel_name'')
      | c # cs \<Rightarrow>
          if length (c # cs) > CHANNEL_NAME_MAX_LEN
            then Inl (TooLong ''channel_name'' CHANNEL_NAME_MAX_LEN (length (c # cs)))
          else if \<not> slug_char c then Inl (Malformed ''channel_name'' ''must start with [a-z0-9]'')
          else if \<not> list_all (\<lambda>d. slug_char d \<or> d = CHR ''-'') cs
            then Inl (Malformed ''channel_name'' ''only [a-z0-9-] after the first char'')
          else Inr (c # cs))"

text \<open>The \<open>CHECK\<close> of the column, \<open>^[a-z0-9][a-z0-9-]{0,62}$\<close>.\<close>

definition channel_name_check :: "string \<Rightarrow> bool" where
  "channel_name_check s \<longleftrightarrow>
     (case s of [] \<Rightarrow> False | c # cs \<Rightarrow> slug_char c \<and> list_all (\<lambda>d. slug_char d \<or> d = CHR ''-'') cs \<and> length cs \<le> 62)"

lemma channel_name_checked: "channel_name_try_from raw = Inr n \<Longrightarrow> channel_name_check n"
  by (auto simp: channel_name_try_from_def channel_name_check_def CHANNEL_NAME_MAX_LEN_def split: list.splits if_splits)

section \<open>Tables\<close>

record channel_row =
  cl_id :: uuid
  cl_org :: uuid
  cl_name :: string
  cl_created_by :: "uuid option"
  cl_created_at :: timestamp
  cl_archived_at :: "timestamp option"

record channel_member =
  cm_channel :: uuid
  cm_user :: uuid
  cm_org :: uuid
  cm_added_at :: timestamp

record channel_agent =
  ca_channel :: uuid
  ca_colleague :: uuid
  ca_agent_org :: uuid

record channel_db =
  cd_channels :: "channel_row list"
  cd_members :: "channel_member list"
  cd_agents :: "channel_agent list"
  cd_org_members :: "(uuid \<times> uuid) list"

definition cd_is_member :: "channel_db \<Rightarrow> uuid \<Rightarrow> uuid \<Rightarrow> bool" where
  "cd_is_member db user org \<longleftrightarrow> (user, org) \<in> set (cd_org_members db)"

text \<open>What the visibility predicates of the thread store read of these tables.\<close>

definition channel_view :: "channel_db \<Rightarrow> thread_db \<Rightarrow> thread_db" where
  "channel_view cd td =
     td\<lparr>td_channel_members := map (\<lambda>m. (cm_channel m, cm_user m)) (cd_members cd),
        td_archived := map cl_id (filter (\<lambda>c. cl_archived_at c \<noteq> None) (cd_channels cd))\<rparr>"

section \<open>Membership as agents see it\<close>

definition colleague_in_channel :: "directory \<Rightarrow> channel_db \<Rightarrow> uuid \<Rightarrow> uuid \<Rightarrow> bool" where
  "colleague_in_channel dir db ch colleague \<longleftrightarrow>
     (\<exists>a \<in> set (cd_agents db). ca_channel a = ch \<and> ca_colleague a = colleague)
     \<or> (\<exists>m \<in> set (cd_members db). cm_channel m = ch
          \<and> (\<exists>r \<in> set (dr_rows dir). dy_id r = colleague \<and> dy_user r = Some (cm_user m) \<and> dy_org r = cm_org m))"

record channel_ref =
  cf_id :: uuid
  cf_name :: string

definition channel_ref_of :: "(parse_error \<Rightarrow> string) \<Rightarrow> channel_row \<Rightarrow> (channel_ref, thread_error) result" where
  "channel_ref_of show_parse c =
     (case channel_name_try_from (cl_name c) of
        Inl e \<Rightarrow> Inl (ThreadBackend (''invalid channel name: '' @ show_parse e))
      | Inr n \<Rightarrow> Inr \<lparr>cf_id = cl_id c, cf_name = n\<rparr>)"

definition channels_for_colleague ::
  "(parse_error \<Rightarrow> string) \<Rightarrow> (string \<Rightarrow> 'k :: linorder) \<Rightarrow> directory \<Rightarrow> channel_db \<Rightarrow> uuid \<Rightarrow> uuid
   \<Rightarrow> (channel_ref list, thread_error) result" where
  "channels_for_colleague show_parse collate dir db org colleague =
     collect_results (map (channel_ref_of show_parse)
       (take MAX_CHANNELS_FOR_COLLEAGUE (sort_key (\<lambda>c. collate (cl_name c))
         (filter (\<lambda>c. cl_org c = org \<and> cl_archived_at c = None \<and> colleague_in_channel dir db (cl_id c) colleague)
           (cd_channels db)))))"

definition add_agent_to_channel :: "channel_db \<Rightarrow> uuid \<Rightarrow> uuid \<Rightarrow> uuid \<Rightarrow> (unit, thread_error) result \<times> channel_db" where
  "add_agent_to_channel db org ch colleague =
     (if \<exists>a \<in> set (cd_agents db). ca_channel a = ch \<and> ca_colleague a = colleague then (Inr (), db)
      else if \<not> (\<exists>c \<in> set (cd_channels db). cl_id c = ch \<and> cl_org c = org) then (Inl (ThreadDb ForeignKeyViolation), db)
      else (Inr (), db\<lparr>cd_agents := cd_agents db @ [\<lparr>ca_channel = ch, ca_colleague = colleague, ca_agent_org = org\<rparr>]\<rparr>))"

section \<open>The web routes\<close>

datatype route_error =
    RtNotFound
  | RtForbidden string
  | RtConflict string
  | RtBadRequest string
  | RtParse parse_error
  | RtInternal
  | RtAuth db_error

record channel_response =
  cs_id :: uuid
  cs_name :: string
  cs_system :: bool
  cs_can_manage :: bool
  cs_created_at :: timestamp
  cs_archived_at :: "timestamp option"

definition channel_response_of :: "channel_row \<Rightarrow> uuid \<Rightarrow> (channel_response, route_error) result" where
  "channel_response_of c user =
     (case channel_name_try_from (cl_name c) of
        Inl _ \<Rightarrow> Inl RtInternal
      | Inr n \<Rightarrow> Inr \<lparr>cs_id = cl_id c, cs_name = n, cs_system = (cl_created_by c = None),
          cs_can_manage = (cl_created_by c = Some user), cs_created_at = cl_created_at c,
          cs_archived_at = cl_archived_at c\<rparr>)"

definition name_conflict_or_auth :: "db_error \<Rightarrow> route_error" where
  "name_conflict_or_auth e = (if e = UniqueViolation then RtConflict ''channel.name_taken'' else RtAuth e)"

definition active_channels :: "channel_db \<Rightarrow> uuid \<Rightarrow> channel_row list" where
  "active_channels db org = filter (\<lambda>c. cl_org c = org \<and> cl_archived_at c = None) (cd_channels db)"

definition name_taken :: "channel_db \<Rightarrow> uuid \<Rightarrow> uuid \<Rightarrow> string \<Rightarrow> bool" where
  "name_taken db i org name \<longleftrightarrow> (\<exists>c \<in> set (active_channels db org). cl_id c \<noteq> i \<and> cl_name c = name)"

text \<open>The statement of the channel, then the one of its first member, in one transaction.\<close>

definition create_channel ::
  "channel_db \<Rightarrow> timestamp \<Rightarrow> uuid \<Rightarrow> caller \<Rightarrow> string \<Rightarrow> (channel_response, route_error) result \<times> channel_db" where
  "create_channel db now i p raw =
     (case channel_name_try_from raw of
        Inl e \<Rightarrow> (Inl (RtParse e), db)
      | Inr name \<Rightarrow>
          (let org = ca_org p; member = cd_is_member db (ca_user p) org;
               active = (if member then length (active_channels db org) else 0) in
           if active \<ge> MAX_CHANNELS_PER_ORG then (Inl (RtConflict ''channel.limit_reached''), db)
           else if \<not> member then (Inl (name_conflict_or_auth RlsViolation), db)
           else if (\<exists>c \<in> set (cd_channels db). cl_id c = i) \<or> name_taken db i org name
             then (Inl (name_conflict_or_auth UniqueViolation), db)
           else (Inr \<lparr>cs_id = i, cs_name = name, cs_system = False, cs_can_manage = True, cs_created_at = now,
                  cs_archived_at = None\<rparr>,
             db\<lparr>cd_channels := cd_channels db @ [\<lparr>cl_id = i, cl_org = org, cl_name = name,
                    cl_created_by = Some (ca_user p), cl_created_at = now, cl_archived_at = None\<rparr>],
                cd_members := cd_members db @ [\<lparr>cm_channel = i, cm_user = ca_user p, cm_org = org, cm_added_at = now\<rparr>]\<rparr>)))"

definition list_channels :: "channel_db \<Rightarrow> caller \<Rightarrow> (channel_response list, route_error) result" where
  "list_channels db p =
     collect_results (map (\<lambda>c. channel_response_of c (ca_user p))
       (take CHANNEL_LIST_FETCH_MAX
         (sort_key (\<lambda>c. (if cl_created_by c = None then 0 else 1 :: nat)) (sort_key cl_created_at
           (filter (\<lambda>c. cl_org c = ca_org p \<and> cd_is_member db (ca_user p) (cl_org c) \<and> cl_archived_at c = None
               \<and> (\<exists>m \<in> set (cd_members db). cm_channel m = cl_id c \<and> cm_user m = ca_user p))
             (cd_channels db))))))"

definition load_channel :: "channel_db \<Rightarrow> caller \<Rightarrow> uuid \<Rightarrow> (channel_row, route_error) result" where
  "load_channel db p i =
     (case find (\<lambda>c. cl_id c = i \<and> cl_org c = ca_org p \<and> cd_is_member db (ca_user p) (cl_org c)) (cd_channels db) of
        None \<Rightarrow> Inl RtNotFound | Some c \<Rightarrow> Inr c)"

definition ensure_creator :: "channel_row \<Rightarrow> uuid \<Rightarrow> (unit, route_error) result" where
  "ensure_creator c user = (if cl_created_by c = Some user then Inr () else Inl (RtForbidden ''channel.not_owner''))"

text \<open>The two gates every change of a channel passes first.\<close>

definition as_creator ::
  "channel_db \<Rightarrow> caller \<Rightarrow> uuid \<Rightarrow> (channel_row \<Rightarrow> ('a, route_error) result \<times> channel_db) \<Rightarrow> ('a, route_error) result \<times> channel_db" where
  "as_creator db p i k =
     (case load_channel db p i of
        Inl e \<Rightarrow> (Inl e, db)
      | Inr c \<Rightarrow> (case ensure_creator c (ca_user p) of Inl e \<Rightarrow> (Inl e, db) | Inr _ \<Rightarrow> k c))"

definition updated_channel :: "timestamp \<Rightarrow> string option \<Rightarrow> bool option \<Rightarrow> channel_row \<Rightarrow> channel_row" where
  "updated_channel now name archived c =
     c\<lparr>cl_name := (case name of None \<Rightarrow> cl_name c | Some n \<Rightarrow> n),
       cl_archived_at := (case archived of None \<Rightarrow> cl_archived_at c | Some True \<Rightarrow> Some now | Some False \<Rightarrow> None)\<rparr>"

definition update_channel ::
  "channel_db \<Rightarrow> timestamp \<Rightarrow> caller \<Rightarrow> uuid \<Rightarrow> string option \<Rightarrow> bool option
   \<Rightarrow> (channel_response, route_error) result \<times> channel_db" where
  "update_channel db now p i raw archived =
     (case (case raw of None \<Rightarrow> Inr None | Some r \<Rightarrow> map_sum id Some (channel_name_try_from r)) of
        Inl e \<Rightarrow> (Inl (RtParse e), db)
      | Inr name \<Rightarrow> as_creator db p i (\<lambda>c.
          let c1 = updated_channel now name archived c in
          if cl_archived_at c1 = None \<and> name_taken db i (cl_org c1) (cl_name c1)
            then (Inl (name_conflict_or_auth UniqueViolation), db)
          else (channel_response_of c1 (ca_user p),
                db\<lparr>cd_channels := update_where (\<lambda>c. cl_id c = i) (updated_channel now name archived) (cd_channels db)\<rparr>)))"

record channel_member_view =
  mv_user :: uuid
  mv_added_at :: timestamp
  mv_colleague :: "uuid option"

definition list_members :: "directory \<Rightarrow> channel_db \<Rightarrow> caller \<Rightarrow> uuid \<Rightarrow> (channel_member_view list, route_error) result" where
  "list_members dir db p i =
     (let visible = filter (\<lambda>m. cm_channel m = i \<and> cm_org m = ca_org p \<and> cd_is_member db (ca_user p) (cm_org m)) (cd_members db) in
      if \<not> list_ex (\<lambda>m. cm_user m = ca_user p) visible then Inl RtNotFound
      else Inr (map (\<lambda>m. \<lparr>mv_user = cm_user m, mv_added_at = cm_added_at m,
          mv_colleague = map_option dy_id (find (\<lambda>r. dy_user r = Some (cm_user m) \<and> dy_org r = cm_org m) (dr_rows dir))\<rparr>)
        (take CHANNEL_LIST_FETCH_MAX (sort_key cm_added_at visible))))"

definition add_member :: "channel_db \<Rightarrow> timestamp \<Rightarrow> caller \<Rightarrow> uuid \<Rightarrow> uuid \<Rightarrow> (unit, route_error) result \<times> channel_db" where
  "add_member db now p i target = as_creator db p i (\<lambda>c.
     if \<not> cd_is_member db target (ca_org p) then (Inl (RtBadRequest ''user.not_in_org''), db)
     else if \<exists>m \<in> set (cd_members db). cm_channel m = i \<and> cm_user m = target then (Inr (), db)
     else (Inr (), db\<lparr>cd_members := cd_members db @
       [\<lparr>cm_channel = i, cm_user = target, cm_org = ca_org p, cm_added_at = now\<rparr>]\<rparr>))"

definition remove_member :: "channel_db \<Rightarrow> caller \<Rightarrow> uuid \<Rightarrow> uuid \<Rightarrow> (unit, route_error) result \<times> channel_db" where
  "remove_member db p i target = as_creator db p i (\<lambda>c.
     (Inr (), db\<lparr>cd_members := filter (\<lambda>m. \<not> (cm_channel m = i \<and> cm_user m = target)) (cd_members db)\<rparr>))"

end
