(* ===== verification/Channel_Laws.thy ===== *)
theory Channel_Laws
  imports Channels
begin

text \<open>
  The channel tables as a transition system of the route handlers: what they keep, and that only
  the creator of a channel changes it.
\<close>

datatype channel_event =
    ChCreate timestamp uuid caller string
  | ChUpdate timestamp caller uuid "string option" "bool option"
  | ChAdd timestamp caller uuid uuid
  | ChRemove caller uuid uuid
  | ChAgent uuid uuid uuid

inductive channel_step :: "channel_db \<Rightarrow> channel_event \<Rightarrow> channel_db \<Rightarrow> bool" where
  ch_create: "channel_step db (ChCreate now i p raw) (snd (create_channel db now i p raw))"
| ch_update: "channel_step db (ChUpdate now p i raw archived) (snd (update_channel db now p i raw archived))"
| ch_add: "channel_step db (ChAdd now p i u) (snd (add_member db now p i u))"
| ch_remove: "channel_step db (ChRemove p i u) (snd (remove_member db p i u))"
| ch_agent: "channel_step db (ChAgent org i c) (snd (add_agent_to_channel db org i c))"

inductive_cases channel_stepE: "channel_step db e db'"

text \<open>A membership trigger of the database seeds the system channel of an organisation.\<close>

definition channel_ok :: "channel_db \<Rightarrow> bool" where
  "channel_ok db \<longleftrightarrow> distinct (map cl_id (cd_channels db))
     \<and> (\<forall>org. distinct (map cl_name (active_channels db org)))
     \<and> (\<forall>c \<in> set (cd_channels db). channel_name_check (cl_name c))
     \<and> distinct (map (\<lambda>m. (cm_channel m, cm_user m)) (cd_members db))
     \<and> (\<forall>m \<in> set (cd_members db). \<exists>c \<in> set (cd_channels db). cl_id c = cm_channel m \<and> cl_org c = cm_org m)"

definition channel_seed :: "channel_db \<Rightarrow> bool" where
  "channel_seed db \<longleftrightarrow> channel_ok db \<and> (\<forall>c \<in> set (cd_channels db). cl_created_by c = None)"

lemma as_creatorE:
  assumes "snd (as_creator db p i k) = db'"
  obtains "db' = db"
  | c where "c \<in> set (cd_channels db)" "cl_id c = i" "cl_org c = ca_org p" "cl_created_by c = Some (ca_user p)" "db' = snd (k c)"
  using assms
  by (auto simp: as_creator_def load_channel_def ensure_creator_def find_Some_iff split: option.splits sum.splits if_splits
      dest: nth_mem)

lemma update_by_id:
  assumes "distinct (map cl_id cs)" "c \<in> set cs"
  shows "set (update_where (\<lambda>d. cl_id d = cl_id c) f cs) = insert (f c) (set cs - {c})"
proof -
  have "cl_id d = cl_id c \<longleftrightarrow> d = c" if "d \<in> set cs" for d using assms that by (auto simp: distinct_map dest: inj_onD)
  then have "set (update_where (\<lambda>d. cl_id d = cl_id c) f cs) = (\<lambda>d. if d = c then f c else d) ` set cs"
    unfolding set_update_where by (intro image_cong) auto
  then show ?thesis using assms(2) by auto
qed

lemma updated_channel_fields [simp]:
  "cl_id (updated_channel now n a c) = cl_id c" "cl_org (updated_channel now n a c) = cl_org c"
  "cl_created_by (updated_channel now n a c) = cl_created_by c"
  by (simp_all add: updated_channel_def)

text \<open>The unique index over the active names survives a change that \<open>name_taken\<close> let through.\<close>

lemma active_names_update:
  assumes ids: "distinct (map cl_id cs)" and names: "distinct (map cl_name (filter (\<lambda>c. cl_org c = org \<and> cl_archived_at c = None) cs))"
    and c: "c \<in> set cs" and free: "cl_archived_at (updated_channel now n a c) = None \<Longrightarrow>
      \<not> (\<exists>d \<in> set cs. cl_org d = cl_org c \<and> cl_archived_at d = None \<and> cl_id d \<noteq> cl_id c \<and> cl_name d = cl_name (updated_channel now n a c))"
  shows "distinct (map cl_name (filter (\<lambda>c. cl_org c = org \<and> cl_archived_at c = None)
    (update_where (\<lambda>d. cl_id d = cl_id c) (updated_channel now n a) cs)))"
proof -
  let ?P = "\<lambda>c. cl_org c = org \<and> cl_archived_at c = None" and ?u = "updated_channel now n a"
  obtain xs ys where cs: "cs = xs @ c # ys" using split_list [OF c] by blast
  have others: "update_where (\<lambda>d. cl_id d = cl_id c) ?u xs = xs" "update_where (\<lambda>d. cl_id d = cl_id c) ?u ys = ys"
  proof -
    have ne: "cl_id c \<notin> cl_id ` set xs" "cl_id c \<notin> cl_id ` set ys" using ids unfolding cs by auto
    show "update_where (\<lambda>d. cl_id d = cl_id c) ?u xs = xs" by (rule update_where_id) (metis ne(1) image_eqI)
    show "update_where (\<lambda>d. cl_id d = cl_id c) ?u ys = ys" by (rule update_where_id) (metis ne(2) image_eqI)
  qed
  have upd: "update_where (\<lambda>d. cl_id d = cl_id c) ?u cs = xs @ ?u c # ys" unfolding cs by (simp add: others)
  have d: "distinct (map cl_name (filter ?P (xs @ ys)))" using names unfolding cs by (auto split: if_splits)
  show ?thesis
  proof (cases "?P (?u c)")
    case True
    have "cl_name (?u c) \<notin> cl_name ` set (filter ?P (xs @ ys))"
    proof
      assume "cl_name (?u c) \<in> cl_name ` set (filter ?P (xs @ ys))"
      then obtain d where "d \<in> set (xs @ ys)" "?P d" "cl_name d = cl_name (?u c)" by fastforce
      moreover from this(1) have "cl_id d \<noteq> cl_id c" using ids unfolding cs by (auto simp: image_iff)
      ultimately show False using free True unfolding cs by auto
    qed
    then show ?thesis using d True unfolding upd by auto
  qed (use d in \<open>auto simp: upd\<close>)
qed

lemma updated_name_checked:
  assumes "(case raw of None \<Rightarrow> Inr None | Some r \<Rightarrow> map_sum id Some (channel_name_try_from r)) = Inr name"
    and "channel_name_check (cl_name c)"
  shows "channel_name_check (cl_name (updated_channel now name a c))"
  using assms channel_name_checked by (cases raw; cases name) (auto simp: updated_channel_def map_sum_def split: sum.splits)

lemma update_channelE:
  assumes "snd (update_channel db now p i raw archived) = db'"
  obtains "db' = db"
  | c name where "c \<in> set (cd_channels db)" "cl_id c = i" "cl_org c = ca_org p" "cl_created_by c = Some (ca_user p)"
    "(case raw of None \<Rightarrow> Inr None | Some r \<Rightarrow> map_sum id Some (channel_name_try_from r)) = (Inr name :: (string option, parse_error) result)"
    "cl_archived_at (updated_channel now name archived c) = None \<Longrightarrow> \<not> name_taken db i (cl_org c) (cl_name (updated_channel now name archived c))"
    "db' = db\<lparr>cd_channels := update_where (\<lambda>c. cl_id c = i) (updated_channel now name archived) (cd_channels db)\<rparr>"
proof (cases "case raw of None \<Rightarrow> Inr None | Some r \<Rightarrow> map_sum id Some (channel_name_try_from r)")
  case (Inl e)
  with assms that(1) show ?thesis by (simp add: update_channel_def)
next
  case (Inr name)
  let ?k = "\<lambda>c. let c1 = updated_channel now name archived c in
          if cl_archived_at c1 = None \<and> name_taken db i (cl_org c1) (cl_name c1)
            then (Inl (name_conflict_or_auth UniqueViolation), db)
          else (channel_response_of c1 (ca_user p),
                db\<lparr>cd_channels := update_where (\<lambda>c. cl_id c = i) (updated_channel now name archived) (cd_channels db)\<rparr>)"
  have "snd (as_creator db p i ?k) = db'" using assms Inr by (simp add: update_channel_def)
  then show ?thesis
  proof (cases rule: as_creatorE)
    case 1
    with that(1) show ?thesis by simp
  next
    case (2 c)
    let ?c = "updated_channel now name archived c"
    show ?thesis
    proof (cases "cl_archived_at ?c = None \<and> name_taken db i (cl_org c) (cl_name ?c)")
      case True
      with 2(5) have "db' = db" by (simp add: Let_def)
      with that(1) show ?thesis by simp
    next
      case False
      with 2(5) have db': "db' = db\<lparr>cd_channels := update_where (\<lambda>c. cl_id c = i) (updated_channel now name archived) (cd_channels db)\<rparr>"
        by (simp add: Let_def)
      show ?thesis by (rule that(2) [OF 2(1-4) Inr _ db']) (use False in blast)
    qed
  qed
qed

lemma create_channelE:
  assumes "snd (create_channel db now i p raw) = db'"
  obtains "db' = db"
  | name where "channel_name_try_from raw = Inr name" "\<not> (\<exists>c \<in> set (cd_channels db). cl_id c = i)"
    "\<not> name_taken db i (ca_org p) name" "length (active_channels db (ca_org p)) < MAX_CHANNELS_PER_ORG"
    "db' = db\<lparr>cd_channels := cd_channels db @ [\<lparr>cl_id = i, cl_org = ca_org p, cl_name = name,
                    cl_created_by = Some (ca_user p), cl_created_at = now, cl_archived_at = None\<rparr>],
                cd_members := cd_members db @ [\<lparr>cm_channel = i, cm_user = ca_user p, cm_org = ca_org p, cm_added_at = now\<rparr>]\<rparr>"
proof (cases "channel_name_try_from raw")
  case (Inl e)
  with assms that(1) show ?thesis by (simp add: create_channel_def)
next
  case (Inr name)
  consider "length (active_channels db (ca_org p)) \<ge> MAX_CHANNELS_PER_ORG \<or> \<not> cd_is_member db (ca_user p) (ca_org p)
      \<or> (\<exists>c \<in> set (cd_channels db). cl_id c = i) \<or> name_taken db i (ca_org p) name"
    | "length (active_channels db (ca_org p)) < MAX_CHANNELS_PER_ORG" "cd_is_member db (ca_user p) (ca_org p)"
      "\<not> (\<exists>c \<in> set (cd_channels db). cl_id c = i)" "\<not> name_taken db i (ca_org p) name"
    using not_le by blast
  then show ?thesis
  proof cases
    case 1
    then have "db' = db" using assms Inr by (simp add: create_channel_def Let_def split: if_splits) 
    with that(1) show ?thesis by simp
  next
    case 2
    have "\<not> MAX_CHANNELS_PER_ORG \<le> length (active_channels db (ca_org p))" using 2(1) by simp
    with 2 assms Inr show ?thesis by (intro that(2) [OF Inr 2(3,4,1)]) (simp add: create_channel_def Let_def)
  qed
qed

lemma channel_event_ok:
  assumes ok: "channel_ok db" and step: "channel_step db e db'"
  shows "channel_ok db'"
  using step
proof (cases rule: channel_step.cases)
  case (ch_create now i p raw)
  then have "snd (create_channel db now i p raw) = db'" by simp
  then show ?thesis
  proof (cases rule: create_channelE)
    case 1
    with ok show ?thesis by simp
  next
    case (2 name)
    have new: "(i, u) \<notin> (\<lambda>m. (cm_channel m, cm_user m)) ` set (cd_members db)" for u
      using ok 2(2) by (fastforce simp: channel_ok_def)
    have act: "active_channels db' org = active_channels db org @ (if ca_org p = org
        then [\<lparr>cl_id = i, cl_org = org, cl_name = name, cl_created_by = Some (ca_user p), cl_created_at = now, cl_archived_at = None\<rparr>]
        else [])" for org
      by (simp add: 2(5) active_channels_def)
    have fresh: "name \<notin> cl_name ` set (active_channels db (ca_org p))"
      using 2(2,3) by (auto simp: name_taken_def active_channels_def)
    show ?thesis using ok 2(2) new fresh channel_name_checked [OF 2(1)]
      by (auto simp: channel_ok_def 2(5) act [unfolded 2(5)])
  qed
next
  case (ch_update now p i raw archived)
  then have "snd (update_channel db now p i raw archived) = db'" by simp
  then show ?thesis
  proof (cases rule: update_channelE)
    case 1
    with ok show ?thesis by simp
  next
    case (2 c name)
    let ?u = "updated_channel now name archived"
    have ids: "distinct (map cl_id (cd_channels db))" using ok by (simp add: channel_ok_def)
    have cs: "cd_channels db' = update_where (\<lambda>d. cl_id d = cl_id c) ?u (cd_channels db)" "cd_members db' = cd_members db"
      by (simp_all add: 2)
    have "distinct (map cl_name (active_channels db' org))" for org
      unfolding active_channels_def cs
      by (rule active_names_update [OF ids _ 2(1)])
        (use ok 2(2,6) in \<open>auto simp: channel_ok_def active_channels_def name_taken_def\<close>)
    moreover have "distinct (map cl_id (cd_channels db'))" unfolding cs using ids by (simp add: map_update_where)
    moreover have "\<forall>d \<in> set (cd_channels db'). channel_name_check (cl_name d)"
      unfolding cs set_update_where using ok updated_name_checked [OF 2(5)] by (auto simp: channel_ok_def)
    moreover have "\<forall>m \<in> set (cd_members db'). \<exists>d \<in> set (cd_channels db'). cl_id d = cm_channel m \<and> cl_org d = cm_org m"
    proof
      fix m assume "m \<in> set (cd_members db')"
      then obtain d where "d \<in> set (cd_channels db)" "cl_id d = cm_channel m" "cl_org d = cm_org m"
        using ok unfolding cs channel_ok_def by blast
      then show "\<exists>d \<in> set (cd_channels db'). cl_id d = cm_channel m \<and> cl_org d = cm_org m"
        unfolding cs set_update_where by (intro bexI [of _ "if cl_id d = cl_id c then ?u d else d"]) auto
    qed
    ultimately show ?thesis using ok by (simp add: channel_ok_def cs)
  qed
next
  case (ch_add now p i u)
  then have "snd (add_member db now p i u) = db'" by simp
  then show ?thesis unfolding add_member_def
  proof (cases rule: as_creatorE)
    case (2 c)
    then show ?thesis using ok by (auto simp: channel_ok_def active_channels_def split: if_splits)
  qed (use ok in simp)
next
  case (ch_remove p i u)
  then have "snd (remove_member db p i u) = db'" by simp
  then show ?thesis unfolding remove_member_def
  proof (cases rule: as_creatorE)
    case (2 c)
    then show ?thesis using ok by (auto simp: channel_ok_def active_channels_def distinct_map inj_on_def)
  qed (use ok in simp)
next
  case (ch_agent org i c)
  with ok show ?thesis by (auto simp: add_agent_to_channel_def channel_ok_def active_channels_def split: if_splits)
qed

interpretation channels: transition_system channel_seed channel_step channel_ok
  by unfold_locales (use channel_event_ok in \<open>auto simp: channel_seed_def\<close>)

fun acting :: "channel_event \<Rightarrow> uuid option" where
  "acting (ChCreate _ _ p _) = Some (ca_user p)"
| "acting (ChUpdate _ p _ _ _) = Some (ca_user p)"
| "acting (ChAdd _ p _ _) = Some (ca_user p)"
| "acting (ChRemove p _ _) = Some (ca_user p)"
| "acting (ChAgent _ _ _) = None"

definition roster :: "channel_db \<Rightarrow> uuid \<Rightarrow> channel_member list" where
  "roster db i = filter (\<lambda>m. cm_channel m = i) (cd_members db)"

text \<open>
  C26. Only its creator changes a channel: in every reachable state a handler leaves a channel and its
  members as they are unless the caller created it; a system channel, which nobody created, is never
  renamed or archived and loses no member. Channel names stay well-formed and unique among the
  active channels of an organisation.
\<close>

theorem only_the_creator_changes_a_channel:
  assumes "reach channel_seed channel_step db" "channel_step db e db'" "c \<in> set (cd_channels db)"
    and other: "cl_created_by c = None \<or> cl_created_by c \<noteq> acting e"
  shows "c \<in> set (cd_channels db') \<and> roster db' (cl_id c) = roster db (cl_id c)
    \<and> (\<forall>d \<in> set (cd_channels db'). channel_name_check (cl_name d))
    \<and> (\<forall>org. distinct (map cl_name (active_channels db' org)))"
proof -
  have ok: "channel_ok db" using assms(1) by (rule channels.reach_inv)
  have ok': "channel_ok db'" using channel_event_ok [OF ok assms(2)] .
  have same: "d = c" if "d \<in> set (cd_channels db)" "cl_id d = cl_id c" for d
    using that assms(3) ok by (auto simp: channel_ok_def distinct_map dest: inj_onD)
  have ne: "cl_id c \<noteq> i"
    if d: "d \<in> set (cd_channels db)" "cl_id d = i" "cl_created_by d = Some u" and u: "acting e = Some u" for d i u
  proof
    assume "cl_id c = i"
    with d have "d = c" by (intro same) simp_all
    with d u other show False by simp
  qed
  have "c \<in> set (cd_channels db') \<and> roster db' (cl_id c) = roster db (cl_id c)"
    using assms(2)
  proof (cases rule: channel_step.cases)
    case (ch_create now i p raw)
    then have "snd (create_channel db now i p raw) = db'" by simp
    then show ?thesis by (cases rule: create_channelE) (use assms(3) in \<open>auto simp: roster_def\<close>)
  next
    case (ch_update now p i raw archived)
    then have "snd (update_channel db now p i raw archived) = db'" by simp
    then show ?thesis
    proof (cases rule: update_channelE)
      case (2 d name)
      have "cl_id c \<noteq> i" by (rule ne [OF 2(1,2,4)]) (simp add: ch_update)
      then have "c \<in> set (update_where (\<lambda>c. cl_id c = i) (updated_channel now name archived) (cd_channels db))"
        using imageI [OF assms(3), of "\<lambda>r. if cl_id r = i then updated_channel now name archived r else r"]
        by (simp add: set_update_where)
      then show ?thesis by (simp add: 2(7) roster_def)
    qed (use assms(3) in simp)
  next
    case (ch_add now p i u)
    then have "snd (add_member db now p i u) = db'" by simp
    then show ?thesis unfolding add_member_def
    proof (cases rule: as_creatorE)
      case (2 d)
      have "cl_id c \<noteq> i" by (rule ne [OF 2(1,2,4)]) (simp add: ch_add)
      then show ?thesis using 2(5) assms(3) by (auto simp: roster_def split: if_splits)
    qed (use assms(3) in simp)
  next
    case (ch_remove p i u)
    then have "snd (remove_member db p i u) = db'" by simp
    then show ?thesis unfolding remove_member_def
    proof (cases rule: as_creatorE)
      case (2 d)
      have "cl_id c \<noteq> i" by (rule ne [OF 2(1,2,4)]) (simp add: ch_remove)
      then have "filter (\<lambda>m. cm_channel m = cl_id c \<and> (cm_channel m = i \<longrightarrow> cm_user m \<noteq> u)) (cd_members db) = roster db (cl_id c)"
        unfolding roster_def by (intro filter_cong) auto
      then show ?thesis using 2(5) assms(3) by (simp add: roster_def conj_commute)
    qed (use assms(3) in simp)
  next
    case (ch_agent org i k)
    then show ?thesis using assms(3) by (auto simp: add_agent_to_channel_def roster_def split: if_splits)
  qed
  with ok' show ?thesis by (simp add: channel_ok_def)
qed

definition sample_channels :: channel_db where
  "sample_channels = \<lparr>cd_channels = [\<lparr>cl_id = 1, cl_org = 7, cl_name = ''general'', cl_created_by = None,
       cl_created_at = 0, cl_archived_at = None\<rparr>],
     cd_members = [\<lparr>cm_channel = 1, cm_user = 10, cm_org = 7, cm_added_at = 0\<rparr>,
       \<lparr>cm_channel = 1, cm_user = 11, cm_org = 7, cm_added_at = 0\<rparr>],
     cd_agents = [], cd_org_members = [(10, 7), (11, 7)]\<rparr>"

text \<open>A member creates \<open>Ops\<close>; another member can neither rename it nor the system channel.\<close>

theorem only_the_creator_changes_a_channel_witness:
  "let made = create_channel sample_channels 5 2 \<lparr>ca_user = 10, ca_org = 7\<rparr> '' Ops'';
       tried = update_channel (snd made) 6 \<lparr>ca_user = 11, ca_org = 7\<rparr> 2 (Some ''mine'') (Some True) in
   map cl_name (cd_channels (snd made)) = [''general'', ''ops''] \<and> fst tried = Inl (RtForbidden ''channel.not_owner'')
   \<and> (\<exists>c. cl_name c = ''ops'' \<and> cl_created_by c = Some 10 \<and> c \<in> set (cd_channels (snd tried))
        \<and> roster (snd tried) (cl_id c) = roster (snd made) (cl_id c))"
proof -
  let ?p = "\<lparr>ca_user = 10, ca_org = 7\<rparr>" and ?q = "\<lparr>ca_user = 11, ca_org = 7\<rparr>"
  let ?c = "\<lparr>cl_id = 2, cl_org = 7, cl_name = ''ops'', cl_created_by = Some 10, cl_created_at = 5, cl_archived_at = None\<rparr>"
  let ?db = "snd (create_channel sample_channels 5 2 ?p '' Ops'')"
  let ?e = "ChUpdate 6 ?q 2 (Some ''mine'') (Some True)"
  have names: "channel_name_try_from '' Ops'' = Inr ''ops''" "channel_name_try_from ''mine'' = Inr ''mine''" by code_simp+
  have rows: "cd_channels ?db = cd_channels sample_channels @ [?c]" "cd_org_members ?db = [(10, 7), (11, 7)]"
    by (simp_all add: create_channel_def names sample_channels_def cd_is_member_def active_channels_def name_taken_def
        MAX_CHANNELS_PER_ORG_def Let_def)
  have "channel_name_check ''general''" by code_simp
  then have "channel_seed sample_channels"
    by (simp add: channel_seed_def channel_ok_def sample_channels_def active_channels_def)
  then have "reach channel_seed channel_step ?db"
    by (metis reach.reach_init reach.reach_step ch_create)
  moreover have "channel_step ?db ?e (snd (update_channel ?db 6 ?q 2 (Some ''mine'') (Some True)))" by (rule ch_update)
  moreover have "?c \<in> set (cd_channels ?db)" using rows by simp
  moreover have "cl_created_by ?c = None \<or> cl_created_by ?c \<noteq> acting ?e" by simp
  ultimately have "?c \<in> set (cd_channels (snd (update_channel ?db 6 ?q 2 (Some ''mine'') (Some True))))
    \<and> roster (snd (update_channel ?db 6 ?q 2 (Some ''mine'') (Some True))) (cl_id ?c) = roster ?db (cl_id ?c)"
    using only_the_creator_changes_a_channel by blast
  moreover have "fst (update_channel ?db 6 ?q 2 (Some ''mine'') (Some True)) = Inl (RtForbidden ''channel.not_owner'')"
    using rows by (simp add: update_channel_def names as_creator_def load_channel_def ensure_creator_def cd_is_member_def
        sample_channels_def)
  moreover have "map cl_name (cd_channels ?db) = [''general'', ''ops'']" using rows by (simp add: sample_channels_def)
  moreover have "cl_name ?c = ''ops''" "cl_created_by ?c = Some 10" by simp_all
  ultimately show ?thesis unfolding Let_def by blast
qed

end
