(* ===== verification/Send_Message.thy ===== *)
theory Send_Message
  imports Channels Scheduling_Laws Response_Sink
begin

text \<open>
  The tool \<open>send_message\<close> (\<open>tools/system/send_message.rs\<close>), the one way an agent speaks: a post to the
  current thread, to a new thread of a channel or to a direct message, and for an agent receiver the
  trigger that wakes it, paid for out of the conversation's turn budget. The statements of a call run
  one after the other here; the two that the code joins touch disjoint tables. The delivery to a
  chat surface at the end touches none of the stores.
\<close>

datatype send_target = ToChannel uuid | ToDm uuid

record send_input =
  si_receiver :: "uuid option"
  si_content :: string
  si_to :: "send_target option"

record send_output =
  so_thread :: uuid
  so_request :: "uuid option"

definition delivery :: "send_output \<Rightarrow> string" where
  "delivery out = (if so_request out \<noteq> None then ''queued'' else ''posted'')"

definition ERR_SYSTEM_RECEIVER :: string where
  "ERR_SYSTEM_RECEIVER = ''send_message: cannot deliver to System''"

definition prompt_try_from :: "string \<Rightarrow> (string, parse_error) result" where
  "prompt_try_from raw =
     (if trim raw = [] then Inl (Empty ''prompt'')
      else if length raw > PROMPT_MAX_BYTES then Inl (TooLong ''prompt'' PROMPT_MAX_BYTES (length raw))
      else Inr raw)"

text \<open>The ids the stores mint during the call, the tables it only reads, and the printers.\<close>

record send_env =
  sx_now :: timestamp
  sx_dir :: directory
  sx_channels :: channel_db
  sx_new_thread :: uuid
  sx_new_own_state :: uuid
  sx_new_message :: uuid
  sx_new_state :: uuid
  sx_new_request :: uuid
  sx_traceparent :: "string option"
  sx_slot_cap :: nat
  sx_json :: "json \<Rightarrow> string"
  sx_uuid :: "uuid \<Rightarrow> string"
  sx_show_parse :: "parse_error \<Rightarrow> string"
  sx_show_colleague :: "colleague_error \<Rightarrow> string"
  sx_show_thread :: "thread_error \<Rightarrow> string"
  sx_show_prompt :: "prompt_error \<Rightarrow> string"

record send_world =
  mw_threads :: thread_db
  mw_queue :: queue_db
  mw_hub :: response_hub

section \<open>Checking the input\<close>

text \<open>\<open>None\<close> is a panic: a colleague row whose kind has no satellite.\<close>

definition resolve_colleague :: "send_env \<Rightarrow> tool_ctx \<Rightarrow> uuid \<Rightarrow> (participant, tool_error) result option" where
  "resolve_colleague env ctx i =
     (let unknown = InvalidInput (''send_message: unknown colleague '' @ sx_uuid env i) in
      case read_colleague (sx_dir env) i of
        Inl (ColleagueNotFound _) \<Rightarrow> Some (Inl unknown)
      | Inl e \<Rightarrow> Some (Inl (ToolBackend (''send_message: colleague lookup: '' @ sx_show_colleague env e)))
      | Inr c \<Rightarrow> if cg_org c \<noteq> tx_org_id ctx then Some (Inl unknown) else map_option Inr (participant_of_colleague c))"

definition validate_send ::
  "send_env \<Rightarrow> tool_ctx \<Rightarrow> string \<Rightarrow> uuid option \<Rightarrow> (string \<times> participant option \<times> uuid, tool_error) result option" where
  "validate_send env ctx content receiver =
     (case prompt_try_from content of
        Inl e \<Rightarrow> Some (Inl (InvalidInput (sx_show_parse env e)))
      | Inr content \<Rightarrow>
          (case participant_agent (tx_viewer ctx) of
             None \<Rightarrow> Some (Inl (InvalidInput ''send_message: caller must be an agent''))
           | Some from \<Rightarrow>
               (case receiver of
                  None \<Rightarrow> Some (Inr (content, None, from))
                | Some i \<Rightarrow>
                    (case resolve_colleague env ctx i of
                       None \<Rightarrow> None
                     | Some (Inl e) \<Rightarrow> Some (Inl e)
                     | Some (Inr r) \<Rightarrow>
                         if r = tx_viewer ctx then Some (Inl (InvalidInput ''send_message: receiver equals caller''))
                         else if r = PSystem then Some (Inl (InvalidInput ERR_SYSTEM_RECEIVER))
                         else Some (Inr (content, Some r, from))))))"

section \<open>Where to deliver\<close>

definition target_place ::
  "send_env \<Rightarrow> tool_ctx \<Rightarrow> uuid \<Rightarrow> send_target \<Rightarrow> (uuid option \<times> uuid option, tool_error) result option" where
  "target_place env ctx creator target =
     (case target of
        ToChannel ch \<Rightarrow>
          if colleague_in_channel (sx_dir env) (sx_channels env) ch creator then Some (Inr (Some ch, None))
          else Some (Inl (InvalidInput ''send_message: you are not a member of that channel''))
      | ToDm i \<Rightarrow>
          (case resolve_colleague env ctx i of
             None \<Rightarrow> None
           | Some (Inl e) \<Rightarrow> Some (Inl e)
           | Some (Inr (PHuman c _)) \<Rightarrow> Some (Inr (None, Some c))
           | Some (Inr _) \<Rightarrow> Some (Inl (InvalidInput ''send_message: a dm target must be a human colleague''))))"

definition resolve_or_create_target ::
  "send_env \<Rightarrow> tool_ctx \<Rightarrow> caller \<Rightarrow> uuid \<Rightarrow> send_target option \<Rightarrow> thread_db
   \<Rightarrow> ((uuid, tool_error) result \<times> thread_db) option" where
  "resolve_or_create_target env ctx ca from to td =
     (case to of
        None \<Rightarrow> Some (case tx_thread_id ctx of
            None \<Rightarrow> (Inl (ToolBackend ''send_message: no thread context on this call''), td)
          | Some t \<Rightarrow> (Inr t, td))
      | Some target \<Rightarrow>
          (case participant_colleague (tx_viewer ctx) of
             None \<Rightarrow> Some (Inl (InvalidInput ''send_message: caller must be a colleague''), td)
           | Some creator \<Rightarrow>
               (case target_place env ctx creator target of
                  None \<Rightarrow> None
                | Some (Inl e) \<Rightarrow> Some (Inl e, td)
                | Some (Inr (channel, counterpart)) \<Rightarrow>
                    (case create_thread td (sx_now env) (sx_new_thread env) ca channel None creator counterpart of
                       None \<Rightarrow> None
                     | Some (Inl e, td1) \<Rightarrow>
                         Some (Inl (ToolBackend (''send_message: create thread: '' @ sx_show_thread env e)), td1)
                     | Some (Inr thread, td1) \<Rightarrow>
                         (case resolve_participation td1 (sx_now env) (sx_new_own_state env) ca thread from of
                            (Inl e, td2) \<Rightarrow>
                              Some (Inl (ToolBackend (''send_message: resolve participation: '' @ sx_show_thread env e)), td2)
                          | (Inr _, td2) \<Rightarrow> Some (Inr thread, td2))))))"

section \<open>Posting\<close>

definition egress_message :: "uuid option \<Rightarrow> uuid option \<Rightarrow> string \<Rightarrow> uuid \<Rightarrow> new_message" where
  "egress_message sender receiver content request =
     \<lparr>nm_kind = Posted, nm_sender = sender, nm_owner_agent = None, nm_receiver = receiver,
      nm_body = User [UText content], nm_request = Some request, nm_idempotency_key = None\<rparr>"

definition post_egress ::
  "send_env \<Rightarrow> caller \<Rightarrow> uuid \<Rightarrow> uuid \<Rightarrow> uuid option \<Rightarrow> uuid option \<Rightarrow> string \<Rightarrow> uuid \<Rightarrow> send_world
   \<Rightarrow> (uuid, tool_error) result \<times> send_world" where
  "post_egress env ca thread from sender receiver content request w =
     (case append_message (mw_threads w) (sx_now env) (sx_new_message env) ca thread
             (egress_message sender receiver content request) of
        (Inl e, td) \<Rightarrow> (Inl (ToolBackend (''send_message: post failed: '' @ sx_show_thread env e)), w\<lparr>mw_threads := td\<rparr>)
      | (Inr i, td) \<Rightarrow>
          (Inr i, w\<lparr>mw_threads := td,
             mw_hub := snd (publish_as (sx_slot_cap env) (sx_json env) (mw_queue w) (sx_now env) (ActingUser (ca_user ca))
               (mw_hub w) request (RcAgentMessage from thread content receiver))\<rparr>))"

definition deliver_to_human ::
  "send_env \<Rightarrow> tool_ctx \<Rightarrow> caller \<Rightarrow> uuid \<Rightarrow> uuid \<Rightarrow> uuid option \<Rightarrow> uuid \<Rightarrow> uuid \<Rightarrow> string \<Rightarrow> send_world
   \<Rightarrow> (send_output, tool_error) result \<times> send_world" where
  "deliver_to_human env ctx ca thread from sender colleague user content w =
     (case is_channel_member (channel_view (sx_channels env) (mw_threads w)) thread user of
        Inl e \<Rightarrow> (Inl (ToolBackend (''send_message: membership check failed: '' @ sx_show_thread env e)), w)
      | Inr member \<Rightarrow>
          if \<not> member then (Inl (InvalidInput ''send_message: recipient is not a member of this channel''), w)
          else (case post_egress env ca thread from sender (Some colleague) content (tx_request_id ctx) w of
                  (Inl e, w1) \<Rightarrow> (Inl e, w1)
                | (Inr _, w1) \<Rightarrow> (Inr \<lparr>so_thread = thread, so_request = None\<rparr>, w1)))"

section \<open>Waking an agent\<close>

text \<open>\<open>None\<close> is the panic on a counter that does not fit; publish and close are best-effort.\<close>

definition bump_dag_budget :: "send_env \<Rightarrow> tool_ctx \<Rightarrow> send_world \<Rightarrow> ((unit, tool_error) result \<times> send_world) option" where
  "bump_dag_budget env ctx w =
     (let user = tx_acting_user_id ctx; root = tx_root_request_id ctx in
      case bump_or_fail_for_user (mw_queue w) user root of
        (None, _) \<Rightarrow> None
      | (Some (Inr _), qd) \<Rightarrow> Some (Inr (), w\<lparr>mw_queue := qd\<rparr>)
      | (Some (Inl (DagBudgetExceededErr r used cap)), qd) \<Rightarrow>
          (let hub1 = snd (publish_as (sx_slot_cap env) (sx_json env) qd (sx_now env) (ActingUser user) (mw_hub w) root
                 (from_failure DagBudgetExceeded));
               hub2 = snd (close_as (sx_slot_cap env) qd (ActingUser user) hub1 root) in
           Some (Inl (InvalidInput (''send_message: dag budget exceeded: '' @
                   sx_show_prompt env (DagBudgetExceededErr r used cap))),
                 w\<lparr>mw_queue := qd, mw_hub := hub2\<rparr>))
      | (Some (Inl e), qd) \<Rightarrow>
          Some (Inl (ToolBackend (''send_message: dag bump failed: '' @ sx_show_prompt env e)), w\<lparr>mw_queue := qd\<rparr>))"

definition tag_key :: "send_env \<Rightarrow> uuid \<Rightarrow> uuid \<Rightarrow> uuid \<Rightarrow> string" where
  "tag_key env thread agent message =
     ''tag:'' @ sx_uuid env thread @ '':'' @ sx_uuid env agent @ '':'' @ sx_uuid env message"

definition tag_trigger :: "tool_ctx \<Rightarrow> uuid \<Rightarrow> uuid \<Rightarrow> uuid \<Rightarrow> uuid \<Rightarrow> uuid \<Rightarrow> idempotency_key \<Rightarrow> new_trigger" where
  "tag_trigger ctx thread state agent sender message key =
     \<lparr>nt_org = tx_org_id ctx, nt_acting_user = tx_acting_user_id ctx, nt_thread = Some thread, nt_state_id = Some state,
      nt_background_turn_id = None, nt_sender = sender, nt_receiver_agent = agent,
      nt_root = Some (tx_root_request_id ctx), nt_trigger_message = Some message, nt_idempotency_key = key,
      nt_payload = PNormal\<rparr>"

definition enqueue_agent_trigger ::
  "send_env \<Rightarrow> tool_ctx \<Rightarrow> uuid \<Rightarrow> uuid \<Rightarrow> uuid \<Rightarrow> uuid option \<Rightarrow> uuid \<Rightarrow> send_world
   \<Rightarrow> (uuid, tool_error) result \<times> send_world" where
  "enqueue_agent_trigger env ctx thread state agent sender message w =
     (case sender of
        None \<Rightarrow> (Inl (ToolBackend ''send_message: agent caller missing colleague''), w)
      | Some s \<Rightarrow>
          (case idempotency_key_try_from (tag_key env thread agent message) of
             Inl e \<Rightarrow> (Inl (ToolBackend (''send_message: bad idempotency: '' @ sx_show_parse env e)), w)
           | Inr key \<Rightarrow>
               (case enqueue_trigger (participation_view (mw_threads w) (mw_queue w)) (sx_now env) (sx_new_request env)
                       (sx_traceparent env) (tag_trigger ctx thread state agent s message key) of
                  (Inl e, qd) \<Rightarrow>
                    (Inl (ToolBackend (''send_message: enqueue failed: '' @ sx_show_prompt env e)), w\<lparr>mw_queue := qd\<rparr>)
                | (Inr i, qd) \<Rightarrow> (Inr i, w\<lparr>mw_queue := qd\<rparr>))))"

definition deliver_to_agent ::
  "send_env \<Rightarrow> tool_ctx \<Rightarrow> caller \<Rightarrow> uuid \<Rightarrow> uuid \<Rightarrow> uuid option \<Rightarrow> uuid \<Rightarrow> uuid \<Rightarrow> string \<Rightarrow> send_world
   \<Rightarrow> ((send_output, tool_error) result \<times> send_world) option" where
  "deliver_to_agent env ctx ca thread from sender colleague agent content w =
     (case post_egress env ca thread from sender (Some colleague) content (tx_request_id ctx) w of
        (posted, w1) \<Rightarrow>
          (case resolve_participation (mw_threads w1) (sx_now env) (sx_new_state env) ca thread agent of
             (resolved, td) \<Rightarrow>
               (let w2 = w1\<lparr>mw_threads := td\<rparr> in
                case posted of
                  Inl e \<Rightarrow> Some (Inl e, w2)
                | Inr message \<Rightarrow>
                    (case resolved of
                       Inl e \<Rightarrow> Some (Inl (ToolBackend (''send_message: resolve participation: '' @ sx_show_thread env e)), w2)
                     | Inr state \<Rightarrow>
                         (case bump_dag_budget env ctx w2 of
                            None \<Rightarrow> None
                          | Some (Inl e, w3) \<Rightarrow> Some (Inl e, w3)
                          | Some (Inr _, w3) \<Rightarrow>
                              Some (case enqueue_agent_trigger env ctx thread state agent sender message w3 of
                                  (Inl e, w4) \<Rightarrow> (Inl e, w4)
                                | (Inr i, w4) \<Rightarrow> (Inr \<lparr>so_thread = thread, so_request = Some i\<rparr>, w4)))))))"

section \<open>The handler\<close>

definition send_message ::
  "send_env \<Rightarrow> tool_ctx \<Rightarrow> send_input \<Rightarrow> send_world \<Rightarrow> ((send_output, tool_error) result \<times> send_world) option" where
  "send_message env ctx input w =
     (case validate_send env ctx (si_content input) (si_receiver input) of
        None \<Rightarrow> None
      | Some (Inl e) \<Rightarrow> Some (Inl e, w)
      | Some (Inr (content, receiver, from)) \<Rightarrow>
          (let ca = \<lparr>ca_user = tx_acting_user_id ctx, ca_org = tx_org_id ctx\<rparr> in
           case resolve_or_create_target env ctx ca from (si_to input) (mw_threads w) of
             None \<Rightarrow> None
           | Some (Inl e, td) \<Rightarrow> Some (Inl e, w\<lparr>mw_threads := td\<rparr>)
           | Some (Inr thread, td) \<Rightarrow>
               (let w1 = w\<lparr>mw_threads := td\<rparr>; sender = participant_colleague (tx_viewer ctx) in
                case receiver of
                  None \<Rightarrow>
                    Some (case post_egress env ca thread from sender None content (tx_request_id ctx) w1 of
                        (Inl e, w2) \<Rightarrow> (Inl e, w2)
                      | (Inr _, w2) \<Rightarrow> (Inr \<lparr>so_thread = thread, so_request = None\<rparr>, w2))
                | Some (PHuman c u) \<Rightarrow> Some (deliver_to_human env ctx ca thread from sender c u content w1)
                | Some (PAgent c a) \<Rightarrow> deliver_to_agent env ctx ca thread from sender c a content w1
                | Some PSystem \<Rightarrow> Some (Inl (InvalidInput ERR_SYSTEM_RECEIVER), w1))))"

end
