(* ===== verification/Send_Properties.thy ===== *)
theory Send_Properties
  imports Send_Message
begin

text \<open>
  What a call of \<open>send_message\<close> leaves behind: one post, where the agent may post and to whom it may
  be addressed; and one paid wake-up for an agent receiver.
\<close>

section \<open>The steps of a call\<close>

lemma append_no_key_cases:
  assumes "append_message db now i ca thread m = (x, db')" "nm_idempotency_key m = None"
  obtains (refused) e where "x = Inl e" "td_messages db' = td_messages db" "td_participation db' = td_participation db"
      "td_threads db' = td_threads db" "td_members db' = td_members db"
  | (posted) t where "x = Inr i" "thread_visible db (ca_user ca) thread = Some t"
      "td_messages db' = td_messages db @ [message_row_of i thread (th_org t) (last_seq db thread + 1) now m]"
      "td_participation db' = td_participation db" "map th_id (td_threads db') = map th_id (td_threads db)"
      "td_members db' = td_members db"
proof -
  obtain y db1 where s: "append_statement db now i (ca_user ca) thread m = (y, db1)" by (meson surj_pair)
  then show ?thesis
  proof (cases rule: append_statement_cases)
    case same
    then have "db' = db \<and> (\<exists>e. x = Inl e)"
      using assms s by (auto simp: append_message_def split: sum.splits bool.splits)
    then show ?thesis by (auto intro: refused)
  next
    case (taken t)
    then show ?thesis using assms by (simp add: key_taken_def)
  next
    case (inserted t)
    then show ?thesis using assms s
      by (intro posted [of t]) (auto simp: append_message_def map_update_where)
  qed
qed

lemma egress_fields [simp]:
  "nm_idempotency_key (egress_message s r c q) = None" "nm_kind (egress_message s r c q) = Posted"
  "nm_sender (egress_message s r c q) = s" "nm_receiver (egress_message s r c q) = r"
  "nm_body (egress_message s r c q) = User [UText c]"
  by (simp_all add: egress_message_def)

definition egress_row :: "send_env \<Rightarrow> tool_ctx \<Rightarrow> uuid \<Rightarrow> uuid option \<Rightarrow> string \<Rightarrow> message_row \<Rightarrow> bool" where
  "egress_row env ctx thread receiver content m \<longleftrightarrow> ms_id m = sx_new_message env \<and> ms_thread m = thread
     \<and> ms_kind m = Posted \<and> ms_sender m = participant_colleague (tx_viewer ctx) \<and> ms_receiver m = receiver
     \<and> ms_body m = User [UText content]"

lemma post_egress_cases:
  assumes "post_egress env ca thread from (participant_colleague (tx_viewer ctx)) receiver content request w = (x, w')"
  obtains (refused) e where "x = Inl e" "mw_queue w' = mw_queue w"
      "td_messages (mw_threads w') = td_messages (mw_threads w)" "td_threads (mw_threads w') = td_threads (mw_threads w)"
  | (posted) m where "x = Inr (sx_new_message env)" "mw_queue w' = mw_queue w"
      "td_messages (mw_threads w') = td_messages (mw_threads w) @ [m]" "egress_row env ctx thread receiver content m"
proof (cases "append_message (mw_threads w) (sx_now env) (sx_new_message env) ca thread
    (egress_message (participant_colleague (tx_viewer ctx)) receiver content request)")
  case (Pair y td)
  from Pair egress_fields(1) show ?thesis
  proof (cases rule: append_no_key_cases)
    case (refused e)
    with assms Pair have "w' = w\<lparr>mw_threads := td\<rparr>" "\<exists>e. x = Inl e" by (auto simp: post_egress_def)
    with refused that(1) show ?thesis by auto
  next
    case (posted t)
    with assms Pair have "mw_threads w' = td" "mw_queue w' = mw_queue w" "x = Inr (sx_new_message env)"
      by (auto simp: post_egress_def)
    with posted that(2) show ?thesis by (auto simp: egress_row_def message_row_of_def)
  qed
qed

lemma resolve_participation_messages:
  "resolve_participation db now i ca th a = (x, db') \<Longrightarrow>
   td_messages db' = td_messages db \<and> td_threads db' = td_threads db"
  by (auto simp: resolve_participation_def split: option.splits)

lemma resolve_participation_row:
  "resolve_participation db now i ca th a = (Inr state, db') \<Longrightarrow>
   \<exists>p \<in> set (td_participation db'). ats_id p = state \<and> ats_thread p = th \<and> ats_agent p = a"
  by (auto simp: resolve_participation_def dest: find_Some_mem split: option.splits)

lemma create_thread_messages:
  "create_thread db now i ca ch r by cp = Some (x, db') \<Longrightarrow> td_messages db' = td_messages db"
  by (auto simp: create_thread_def split: if_splits)

lemma create_thread_id:
  "create_thread db now i ca ch r by cp = Some (Inr t, db') \<Longrightarrow> t = i"
  by (auto simp: create_thread_def split: if_splits)

section \<open>Nothing panics\<close>

lemma read_colleague_participant:
  assumes "read_colleague dir i = Inr c"
  shows "\<exists>p. participant_of_colleague c = Some p \<and> p \<noteq> PSystem \<and> participant_colleague p = Some i
    \<and> (\<exists>r \<in> set (dr_rows dir). dy_id r = i \<and> dy_org r = cg_org c
        \<and> (case p of PHuman _ u \<Rightarrow> dy_user r = Some u | PAgent _ a \<Rightarrow> dy_agent r = Some a | PSystem \<Rightarrow> False))"
proof -
  obtain r where r: "find (\<lambda>r. dy_id r = i) (dr_rows dir) = Some r"
    using assms by (auto simp: read_colleague_def split: option.splits)
  with assms have "\<exists>name. colleague_try_new (dy_id r) (dy_org r) (dy_kind r) name (dy_user r) (dy_agent r) = Inr c"
    by (auto simp: read_colleague_def split: sum.splits)
  then obtain name where c: "colleague_try_new (dy_id r) (dy_org r) (dy_kind r) name (dy_user r) (dy_agent r) = Inr c" ..
  from r have "r \<in> set (dr_rows dir)" "dy_id r = i" by (auto dest: find_Some_mem)
  with c show ?thesis
    by (cases "dy_kind r") (auto simp: colleague_try_new_def participant_of_colleague_def Let_def split: if_splits
        intro!: bexI [of _ r])
qed

lemma resolve_colleague_total: "resolve_colleague env ctx i \<noteq> None"
  using read_colleague_participant [of "sx_dir env" i]
  by (fastforce simp: resolve_colleague_def Let_def split: sum.splits colleague_error.splits)

lemma resolve_colleague_Inr:
  assumes "resolve_colleague env ctx i = Some (Inr p)"
  shows "p \<noteq> PSystem \<and> participant_colleague p = Some i
    \<and> (\<exists>r \<in> set (dr_rows (sx_dir env)). dy_id r = i \<and> dy_org r = tx_org_id ctx
        \<and> (case p of PHuman _ u \<Rightarrow> dy_user r = Some u | PAgent _ a \<Rightarrow> dy_agent r = Some a | PSystem \<Rightarrow> False))"
proof -
  from assms obtain c where c: "read_colleague (sx_dir env) i = Inr c" "cg_org c = tx_org_id ctx" "participant_of_colleague c = Some p"
    by (auto simp: resolve_colleague_def Let_def split: sum.splits colleague_error.splits if_splits)
  from read_colleague_participant [OF c(1)] c(2,3) show ?thesis by auto
qed

lemma validate_send_Inr:
  assumes "validate_send env ctx content receiver = Some (Inr (c, r, from))"
  shows "c = content \<and> participant_agent (tx_viewer ctx) = Some from \<and> trim content \<noteq> []
    \<and> length content \<le> PROMPT_MAX_BYTES
    \<and> (case r of None \<Rightarrow> receiver = None
       | Some p \<Rightarrow> receiver = participant_colleague p \<and> p \<noteq> PSystem \<and> p \<noteq> tx_viewer ctx
           \<and> (\<exists>i. receiver = Some i \<and> resolve_colleague env ctx i = Some (Inr p)))"
proof -
  have p: "prompt_try_from content = Inr c" "participant_agent (tx_viewer ctx) = Some from"
    using assms by (auto simp: validate_send_def split: sum.splits option.splits if_splits)
  then have c: "c = content" "trim content \<noteq> []" "length content \<le> PROMPT_MAX_BYTES"
    by (auto simp: prompt_try_from_def split: if_splits)
  show ?thesis
  proof (cases receiver)
    case None
    with assms p c show ?thesis by (simp add: validate_send_def)
  next
    case (Some i)
    with assms p obtain q where q: "resolve_colleague env ctx i = Some (Inr q)" "r = Some q" "q \<noteq> tx_viewer ctx"
      by (auto simp: validate_send_def split: option.splits sum.splits if_splits)
    from resolve_colleague_Inr [OF q(1)] q p(2) c Some show ?thesis by auto
  qed
qed

lemma validate_send_total: "validate_send env ctx content receiver \<noteq> None"
proof (cases receiver)
  case (Some i)
  with resolve_colleague_total obtain r where "resolve_colleague env ctx i = Some r" by blast
  with Some show ?thesis by (cases r) (simp_all add: validate_send_def split: sum.splits option.splits)
qed (simp add: validate_send_def split: sum.splits option.splits)

lemma resolve_target_cases:
  assumes "resolve_or_create_target env ctx ca from to td = Some (x, td')" "participant_agent (tx_viewer ctx) = Some from"
  shows "td_messages td' = td_messages td
    \<and> (\<forall>thread. x = Inr thread \<longrightarrow>
        (case to of
           None \<Rightarrow> tx_thread_id ctx = Some thread \<and> td' = td
         | Some (ToChannel ch) \<Rightarrow> thread = sx_new_thread env
             \<and> (\<exists>c. participant_colleague (tx_viewer ctx) = Some c \<and> colleague_in_channel (sx_dir env) (sx_channels env) ch c)
         | Some (ToDm i) \<Rightarrow> thread = sx_new_thread env
             \<and> (\<exists>d \<in> set (dr_rows (sx_dir env)). dy_id d = i \<and> dy_org d = tx_org_id ctx \<and> dy_user d \<noteq> None)))"
proof (cases to)
  case None
  with assms show ?thesis by (auto split: option.splits simp: resolve_or_create_target_def)
next
  case (Some target)
  from assms(2) obtain creator where creator: "participant_colleague (tx_viewer ctx) = Some creator"
    by (cases "tx_viewer ctx") simp_all
  show ?thesis
  proof (cases "target_place env ctx creator target")
    case (Some p)
    show ?thesis
    proof (cases p)
      case (Inl e)
      with assms Some \<open>to = Some target\<close> creator show ?thesis by (auto simp: resolve_or_create_target_def)
    next
      case (Inr cp)
      obtain ch dm where cp: "cp = (ch, dm)" by (cases cp)
      note place = Some [unfolded Inr cp]
      let ?made = "create_thread td (sx_now env) (sx_new_thread env) ca ch None creator dm"
      obtain y td1 where made: "?made = Some (y, td1)"
        using assms(1) \<open>to = Some target\<close> creator place
        by (cases ?made) (auto simp: resolve_or_create_target_def)
      have msgs: "td_messages td1 = td_messages td" by (rule create_thread_messages [OF made])
      have td': "td_messages td' = td_messages td \<and> (\<forall>thread. x = Inr thread \<longrightarrow> thread = sx_new_thread env)"
      proof (cases y)
        case (Inl e)
        then show ?thesis using assms(1) \<open>to = Some target\<close> creator place made msgs
          by (auto simp: resolve_or_create_target_def)
      next
        case (Inr thread)
        obtain z td2 where r: "resolve_participation td1 (sx_now env) (sx_new_own_state env) ca thread from = (z, td2)"
          by (meson surj_pair)
        from create_thread_id [OF made [unfolded Inr]] resolve_participation_messages [OF r]
        show ?thesis using assms(1) \<open>to = Some target\<close> creator place made msgs Inr r
          by (cases z) (auto simp: resolve_or_create_target_def)
      qed
      show ?thesis
      proof (cases target)
        case (ToChannel k)
        with place td' creator \<open>to = Some target\<close> show ?thesis by (auto simp: target_place_def split: if_splits)
      next
        case (ToDm i)
        with place obtain c u where h: "resolve_colleague env ctx i = Some (Inr (PHuman c u))"
          by (auto simp: target_place_def split: option.splits sum.splits participant.splits)
        from resolve_colleague_Inr [OF h] ToDm td' \<open>to = Some target\<close> show ?thesis by auto
      qed
    qed
  qed (use assms \<open>to = Some target\<close> creator in \<open>simp add: resolve_or_create_target_def\<close>)
qed

lemma bump_dag_budget_threads:
  "bump_dag_budget env ctx w = Some (x, w') \<Longrightarrow> mw_threads w' = mw_threads w"
  by (auto simp: bump_dag_budget_def Let_def split: prod.splits option.splits sum.splits prompt_error.splits)

lemma enqueue_agent_trigger_threads:
  "enqueue_agent_trigger env ctx th st a s m w = (x, w') \<Longrightarrow> mw_threads w' = mw_threads w"
  by (auto simp: enqueue_agent_trigger_def split: option.splits sum.splits prod.splits)

section \<open>What a wake-up costs\<close>

lemma bump_dag_budget_cases:
  assumes "bump_dag_budget env ctx w = Some (x, w')"
  obtains (spent) d where "x = Inr ()" "dags (mw_queue w) (tx_root_request_id ctx) = Some d"
      "dag_turns_used d < dag_turns_cap d" "mw_queue w' = bump_dag (mw_queue w) (tx_root_request_id ctx) d"
  | (refused) e where "x = Inl e" "mw_queue w' = mw_queue w"
proof -
  let ?root = "tx_root_request_id ctx" and ?user = "tx_acting_user_id ctx"
  obtain r qd where b: "bump_or_fail_for_user (mw_queue w) ?user ?root = (r, qd)" by (meson surj_pair)
  with assms obtain y where y: "r = Some y" by (cases r) (auto simp: bump_dag_budget_def)
  show ?thesis
  proof (cases y)
    case (Inl e)
    have "qd = mw_queue w" using b unfolding y Inl
      by (auto simp: bump_or_fail_for_user_def bump_or_fail_in_tx_def bumped_of_def split: option.splits if_splits)
    with assms b y Inl that(2) show ?thesis
      by (cases e) (auto simp: bump_dag_budget_def Let_def)
  next
    case (Inr v)
    obtain d where "dags (mw_queue w) ?root = Some d" "dag_turns_used d < dag_turns_cap d" "qd = bump_dag (mw_queue w) ?root d"
      using b unfolding y Inr
      by (auto simp: bump_or_fail_for_user_def bump_or_fail_in_tx_def exceeded_of_def split: option.splits if_splits)
    with assms b y Inr that(1) show ?thesis by (auto simp: bump_dag_budget_def)
  qed
qed

lemma enqueue_root_cases:
  assumes "enqueue_trigger qd now rid tp trig = (x, qd')" "nt_root trig = Some root"
  shows "dags qd' = dags qd \<and> (prompt_requests qd' = prompt_requests qd
    \<or> (\<exists>rc. x = Inr rid \<and> resolve_agent_colleague qd (nt_acting_user trig) (nt_org trig) (nt_receiver_agent trig) = Inr rc
         \<and> prompt_requests qd' = prompt_requests qd @ [trigger_row now rid tp rc trig]))"
  using assms by (auto simp: enqueue_trigger_def Let_def split: sum.splits option.splits if_splits)

definition conversation_turns :: "queue_db \<Rightarrow> uuid \<Rightarrow> int" where
  "conversation_turns qd root = int (length (filter (\<lambda>r. pr_root r = root) (prompt_requests qd)))"

text \<open>From one queue to the other, the triggers added to a conversation are paid by its counter.\<close>

definition paid :: "uuid \<Rightarrow> queue_db \<Rightarrow> queue_db \<Rightarrow> bool" where
  "paid root qd qd' \<longleftrightarrow> (\<forall>d. dags qd root = Some d \<and> dag_turns_used d \<le> dag_turns_cap d \<longrightarrow>
     (\<exists>d'. dags qd' root = Some d' \<and> dag_turns_cap d' = dag_turns_cap d \<and> dag_turns_used d' \<le> dag_turns_cap d'
        \<and> dag_turns_used d \<le> dag_turns_used d'
        \<and> conversation_turns qd' root - conversation_turns qd root \<le> dag_turns_used d' - dag_turns_used d))"

lemma paid_refl: "dags qd' = dags qd \<Longrightarrow> prompt_requests qd' = prompt_requests qd \<Longrightarrow> paid root qd qd'"
  by (simp add: paid_def conversation_turns_def)

lemma paid_trans: "paid root a b \<Longrightarrow> paid root b c \<Longrightarrow> paid root a c"
  unfolding paid_def by (fastforce)

lemma participation_view_fields [simp]:
  "prompt_requests (participation_view td qd) = prompt_requests qd" "dags (participation_view td qd) = dags qd"
  "resolve_agent_colleague (participation_view td qd) u g a = resolve_agent_colleague qd u g a"
  by (simp_all add: participation_view_def resolve_agent_colleague_def app_user_is_member_def)

lemma bump_dag_fields [simp]:
  "prompt_requests (bump_dag qd root d) = prompt_requests qd"
  "resolve_agent_colleague (bump_dag qd root d) u g a = resolve_agent_colleague qd u g a"
  by (simp_all add: bump_dag_def resolve_agent_colleague_def app_user_is_member_def)

lemma tag_trigger_fields [simp]:
  "nt_root (tag_trigger ctx th st a s m key) = Some (tx_root_request_id ctx)"
  "nt_acting_user (tag_trigger ctx th st a s m key) = tx_acting_user_id ctx"
  "nt_org (tag_trigger ctx th st a s m key) = tx_org_id ctx"
  "nt_receiver_agent (tag_trigger ctx th st a s m key) = a"
  by (simp_all add: tag_trigger_def)

lemma enqueue_agent_trigger_cases:
  assumes "enqueue_agent_trigger env ctx thread state agent sender message w = (x, w')"
  shows "dags (mw_queue w') = dags (mw_queue w)
    \<and> (prompt_requests (mw_queue w') = prompt_requests (mw_queue w)
       \<or> (\<exists>s rc key. sender = Some s \<and> key = tag_key env thread agent message \<and> x = Inr (sx_new_request env)
            \<and> resolve_agent_colleague (mw_queue w) (tx_acting_user_id ctx) (tx_org_id ctx) agent = Inr rc
            \<and> prompt_requests (mw_queue w') = prompt_requests (mw_queue w)
               @ [trigger_row (sx_now env) (sx_new_request env) (sx_traceparent env) rc (tag_trigger ctx thread state agent s message key)]))"
proof (cases sender)
  case None
  with assms show ?thesis by (simp add: enqueue_agent_trigger_def)
next
  case (Some s)
  show ?thesis
  proof (cases "idempotency_key_try_from (tag_key env thread agent message)")
    case (Inl e)
    with assms Some show ?thesis by (simp add: enqueue_agent_trigger_def)
  next
    case (Inr key)
    then have key: "key = tag_key env thread agent message" by (rule idempotency_key_try_from_eq)
    let ?view = "participation_view (mw_threads w) (mw_queue w)"
    obtain y qd where e: "enqueue_trigger ?view (sx_now env) (sx_new_request env) (sx_traceparent env)
        (tag_trigger ctx thread state agent s message key) = (y, qd)" by (meson surj_pair)
    have w': "mw_queue w' = qd" "\<And>i. y = Inr i \<Longrightarrow> x = Inr i" using assms Some Inr e
      by (auto simp: enqueue_agent_trigger_def split: sum.splits)
    from enqueue_root_cases [OF e tag_trigger_fields(1)] w' key Some show ?thesis by auto
  qed
qed

text \<open>A delivery to an agent: a post that failed, a post whose wake-up failed, or both done.\<close>

lemma deliver_to_agent_cases:
  assumes "deliver_to_agent env ctx ca thread from (participant_colleague (tx_viewer ctx)) colleague agent content w = Some (x, w')"
  obtains (unsent) e where "x = Inl e" "td_messages (mw_threads w') = td_messages (mw_threads w)" "mw_queue w' = mw_queue w"
  | (unpaid) m e where "x = Inl e" "td_messages (mw_threads w') = td_messages (mw_threads w) @ [m]"
      "egress_row env ctx thread (Some colleague) content m" "mw_queue w' = mw_queue w"
  | (sent) m d state where "td_messages (mw_threads w') = td_messages (mw_threads w) @ [m]"
      "egress_row env ctx thread (Some colleague) content m"
      "dags (mw_queue w) (tx_root_request_id ctx) = Some d" "dag_turns_used d < dag_turns_cap d"
      "dags (mw_queue w') = dags (bump_dag (mw_queue w) (tx_root_request_id ctx) d)"
      "prompt_requests (mw_queue w') = prompt_requests (mw_queue w) \<or>
        (\<exists>s rc. participant_colleague (tx_viewer ctx) = Some s \<and> x = Inr \<lparr>so_thread = thread, so_request = Some (sx_new_request env)\<rparr>
          \<and> resolve_agent_colleague (mw_queue w) (tx_acting_user_id ctx) (tx_org_id ctx) agent = Inr rc
          \<and> prompt_requests (mw_queue w') = prompt_requests (mw_queue w)
             @ [trigger_row (sx_now env) (sx_new_request env) (sx_traceparent env) rc
                 (tag_trigger ctx thread state agent s (sx_new_message env) (tag_key env thread agent (sx_new_message env)))])"
      "\<forall>out. x = Inr out \<longrightarrow> so_thread out = thread \<and> so_request out \<noteq> None"
      "\<exists>p \<in> set (td_participation (mw_threads w')). ats_id p = state \<and> ats_thread p = thread \<and> ats_agent p = agent"
proof -
  let ?sender = "participant_colleague (tx_viewer ctx)"
  obtain posted w1 where p: "post_egress env ca thread from ?sender (Some colleague) content (tx_request_id ctx) w = (posted, w1)"
    by (meson surj_pair)
  obtain resolved td where r: "resolve_participation (mw_threads w1) (sx_now env) (sx_new_state env) ca thread agent = (resolved, td)"
    by (meson surj_pair)
  note msgs = resolve_participation_messages [OF r]
  note unfolded = assms [unfolded deliver_to_agent_def p prod.case r Let_def]
  from p show ?thesis
  proof (cases rule: post_egress_cases)
    case (refused e)
    with unfolded msgs show ?thesis by (intro unsent) auto
  next
    case (posted m)
    show ?thesis
    proof (cases resolved)
      case (Inl e)
      with posted unfolded msgs show ?thesis by (intro unpaid) auto
    next
      case (Inr state)
      let ?w2 = "w1\<lparr>mw_threads := td\<rparr>"
      obtain y w3 where b: "bump_dag_budget env ctx ?w2 = Some (y, w3)"
        using unfolded posted Inr by (cases "bump_dag_budget env ctx ?w2") auto
      from bump_dag_budget_threads [OF b] have t3: "mw_threads w3 = td" by simp
      from b show ?thesis
      proof (cases rule: bump_dag_budget_cases)
        case (refused e)
        with unfolded posted Inr b msgs t3 show ?thesis by (intro unpaid [of _ m]) auto
      next
        case (spent d)
        obtain z w4 where q: "enqueue_agent_trigger env ctx thread state agent ?sender (sx_new_message env) w3 = (z, w4)"
          by (meson surj_pair)
        have x: "x = (case z of Inl e \<Rightarrow> Inl e | Inr i \<Rightarrow> Inr \<lparr>so_thread = thread, so_request = Some i\<rparr>)" "w' = w4"
          using unfolded posted Inr b spent q by (auto split: sum.splits)
        have "mw_queue w3 = bump_dag (mw_queue w) (tx_root_request_id ctx) d" using spent(4) posted by simp
        note queue = enqueue_agent_trigger_cases [OF q, unfolded this]
        show ?thesis
          by (rule sent [where m = m and d = d and state = state])
            (use spent posted msgs t3 enqueue_agent_trigger_threads [OF q] queue x resolve_participation_row [OF r [unfolded Inr]]
              in \<open>auto split: sum.splits\<close>)
      qed
    qed
  qed
qed

section \<open>Where a post lands\<close>

text \<open>
  The threads an agent may post to, and the check of a human receiver: that he is a member of the thread's
  channel, archived or not, or a party of the direct message.
\<close>

definition may_post :: "send_env \<Rightarrow> tool_ctx \<Rightarrow> send_target option \<Rightarrow> uuid \<Rightarrow> bool" where
  "may_post env ctx to thread \<longleftrightarrow>
     (case to of
        None \<Rightarrow> tx_thread_id ctx = Some thread
      | Some (ToChannel ch) \<Rightarrow> thread = sx_new_thread env
          \<and> (\<exists>c. participant_colleague (tx_viewer ctx) = Some c \<and> colleague_in_channel (sx_dir env) (sx_channels env) ch c)
      | Some (ToDm i) \<Rightarrow> thread = sx_new_thread env
          \<and> (\<exists>d \<in> set (dr_rows (sx_dir env)). dy_id d = i \<and> dy_org d = tx_org_id ctx \<and> dy_user d \<noteq> None))"

definition admitted_human :: "send_env \<Rightarrow> thread_db \<Rightarrow> uuid \<Rightarrow> participant \<Rightarrow> bool" where
  "admitted_human env td thread p \<longleftrightarrow>
     (\<forall>c u. p = PHuman c u \<longrightarrow> is_channel_member (channel_view (sx_channels env) td) thread u = Inr True)"

lemma is_channel_member_append:
  assumes "append_message db now i ca th m = (x, db')"
  shows "is_channel_member (channel_view cd db') thread u = is_channel_member (channel_view cd db) thread u"
proof -
  let ?touch = "\<lambda>t. t\<lparr>th_last_activity_at := now\<rparr>"
  have found: "find (\<lambda>t. th_id t = thread) (update_where (\<lambda>t. th_id t = th) ?touch ts)
      = map_option (\<lambda>t. if th_id t = th then ?touch t else t) (find (\<lambda>t. th_id t = thread) ts)" for ts
    by (induction ts) auto
  have users: "td_users db' = td_users db"
    and "td_threads db' = td_threads db \<or> td_threads db' = update_where (\<lambda>t. th_id t = th) ?touch (td_threads db)"
    using append_message_db [of db now i ca th m] assms
    by (auto simp: append_statement_def Let_def split: option.splits if_splits)
  then consider "td_threads db' = td_threads db" | "td_threads db' = update_where (\<lambda>t. th_id t = th) ?touch (td_threads db)"
    by blast
  then show ?thesis
  proof cases
    case 1
    with users show ?thesis by (simp add: is_channel_member_def channel_view_def dm_visible_to_def in_channel_def split: option.split)
  next
    case 2
    then show ?thesis
      by (cases "find (\<lambda>t. th_id t = thread) (td_threads db)")
        (simp_all add: is_channel_member_def channel_view_def dm_visible_to_def in_channel_def users found split: option.split)
  qed
qed

lemma deliver_to_human_cases:
  assumes "deliver_to_human env ctx ca thread from (participant_colleague (tx_viewer ctx)) colleague user content w = (x, w')"
  obtains (unsent) e where "x = Inl e" "td_messages (mw_threads w') = td_messages (mw_threads w)" "mw_queue w' = mw_queue w"
  | (sent) m where "x = Inr \<lparr>so_thread = thread, so_request = None\<rparr>" "mw_queue w' = mw_queue w"
      "td_messages (mw_threads w') = td_messages (mw_threads w) @ [m]" "egress_row env ctx thread (Some colleague) content m"
      "is_channel_member (channel_view (sx_channels env) (mw_threads w')) thread user = Inr True"
proof -
  let ?member = "is_channel_member (channel_view (sx_channels env) (mw_threads w)) thread user"
  show ?thesis
  proof (cases "?member = Inr True")
    case False
    with assms have "w' = w \<and> (\<exists>e. x = Inl e)" by (auto simp: deliver_to_human_def split: sum.splits if_splits)
    then show ?thesis by (auto intro: unsent)
  next
    case True
    obtain y w1 where p: "post_egress env ca thread from (participant_colleague (tx_viewer ctx)) (Some colleague) content
        (tx_request_id ctx) w = (y, w1)" by (meson surj_pair)
    have x: "w' = w1" "x = (case y of Inl e \<Rightarrow> Inl e | Inr _ \<Rightarrow> Inr \<lparr>so_thread = thread, so_request = None\<rparr>)"
      using assms True p by (auto simp: deliver_to_human_def split: sum.splits)
    obtain z td where a: "append_message (mw_threads w) (sx_now env) (sx_new_message env) ca thread
        (egress_message (participant_colleague (tx_viewer ctx)) (Some colleague) content (tx_request_id ctx)) = (z, td)"
      by (meson surj_pair)
    have "mw_threads w1 = td" using p a by (auto simp: post_egress_def split: sum.splits)
    with is_channel_member_append [OF a] True x
    have member: "is_channel_member (channel_view (sx_channels env) (mw_threads w')) thread user = Inr True" by simp
    from p show ?thesis by (cases rule: post_egress_cases) (use x member in \<open>auto intro: unsent sent\<close>)
  qed
qed

lemma send_messageE:
  assumes "send_message env ctx input w = Some (x, w')"
  obtains (refused) e where "x = Inl e" "td_messages (mw_threads w') = td_messages (mw_threads w)" "mw_queue w' = mw_queue w"
  | (went) receiver author thread td ca where
      "validate_send env ctx (si_content input) (si_receiver input) = Some (Inr (si_content input, receiver, author))"
      "may_post env ctx (si_to input) thread" "td_messages td = td_messages (mw_threads w)"
      "(case receiver of
          None \<Rightarrow> Some (case post_egress env ca thread author (participant_colleague (tx_viewer ctx)) None (si_content input)
              (tx_request_id ctx) (w\<lparr>mw_threads := td\<rparr>) of
              (Inl e, w2) \<Rightarrow> (Inl e, w2) | (Inr _, w2) \<Rightarrow> (Inr \<lparr>so_thread = thread, so_request = None\<rparr>, w2))
        | Some (PHuman c u) \<Rightarrow> Some (deliver_to_human env ctx ca thread author (participant_colleague (tx_viewer ctx)) c u
            (si_content input) (w\<lparr>mw_threads := td\<rparr>))
        | Some (PAgent c a) \<Rightarrow> deliver_to_agent env ctx ca thread author (participant_colleague (tx_viewer ctx)) c a
            (si_content input) (w\<lparr>mw_threads := td\<rparr>)
        | Some PSystem \<Rightarrow> Some (Inl (InvalidInput ERR_SYSTEM_RECEIVER), w\<lparr>mw_threads := td\<rparr>)) = Some (x, w')"
proof -
  obtain v where v: "validate_send env ctx (si_content input) (si_receiver input) = Some v"
    using validate_send_total by blast
  show ?thesis
  proof (cases v)
    case (Inl e)
    with assms v have "x = Inl e" "w' = w" by (simp_all add: send_message_def)
    then show ?thesis by (intro refused) simp_all
  next
    case (Inr crf)
    obtain content receiver author where crf: "crf = (content, receiver, author)" by (metis surj_pair)
    from validate_send_Inr [OF v [unfolded Inr crf]]
    have c: "content = si_content input" "participant_agent (tx_viewer ctx) = Some author" by simp_all
    let ?ca = "\<lparr>ca_user = tx_acting_user_id ctx, ca_org = tx_org_id ctx\<rparr>"
    obtain y td where t: "resolve_or_create_target env ctx ?ca author (si_to input) (mw_threads w) = Some (y, td)"
      using assms v Inr crf
      by (cases "resolve_or_create_target env ctx ?ca author (si_to input) (mw_threads w)") (auto simp: send_message_def)
    note target = resolve_target_cases [OF t c(2)]
    show ?thesis
    proof (cases y)
      case (Inl e)
      with assms v \<open>v = Inr crf\<close> crf t target that(1) show ?thesis by (auto simp: send_message_def)
    next
      case (Inr thread)
      show ?thesis
      proof (rule that(2) [of receiver author thread td ?ca])
        show "validate_send env ctx (si_content input) (si_receiver input) = Some (Inr (si_content input, receiver, author))"
          using v \<open>v = Inr crf\<close> crf c by simp
        show "may_post env ctx (si_to input) thread"
          using target Inr by (auto simp: may_post_def split: option.splits send_target.splits)
        show "td_messages td = td_messages (mw_threads w)" using target by simp
      qed (use assms v \<open>v = Inr crf\<close> crf t Inr c in \<open>simp add: send_message_def Let_def\<close>)
    qed
  qed
qed

text \<open>
  C27. A call of send_message adds at most one message, a post of the calling agent with the given
  text and receiver: to the thread of the call, to a new thread of a channel the agent is a member
  of, or to a new direct message with a human of its organisation. A human is addressed only where he is
  a member of the channel or a party of the direct message; whether the channel is archived is not looked
  at. An agent is addressed anywhere. A call that succeeds has posted; it wakes nobody unless the receiver
  is an agent, and then that agent takes part in the thread and the trigger carries the post, the
  conversation and the acting user on.
\<close>

theorem send_posts_once_where_allowed:
  assumes "send_message env ctx input w = Some (x, w')"
  shows "(\<exists>e. x = Inl e) \<and> td_messages (mw_threads w') = td_messages (mw_threads w) \<and> mw_queue w' = mw_queue w
    \<or> (\<exists>m. td_messages (mw_threads w') = td_messages (mw_threads w) @ [m]
        \<and> egress_row env ctx (ms_thread m) (si_receiver input) (si_content input) m
        \<and> may_post env ctx (si_to input) (ms_thread m)
        \<and> (\<forall>i. si_receiver input = Some i \<longrightarrow> (\<exists>p. resolve_colleague env ctx i = Some (Inr p) \<and> p \<noteq> tx_viewer ctx
             \<and> admitted_human env (mw_threads w') (ms_thread m) p))
        \<and> (\<forall>out. x = Inr out \<longrightarrow> so_thread out = ms_thread m)
        \<and> (prompt_requests (mw_queue w') = prompt_requests (mw_queue w)
           \<or> (\<exists>r i c a. prompt_requests (mw_queue w') = prompt_requests (mw_queue w) @ [r]
                \<and> x = Inr \<lparr>so_thread = ms_thread m, so_request = Some (pr_id r)\<rparr>
                \<and> si_receiver input = Some i \<and> resolve_colleague env ctx i = Some (Inr (PAgent c a))
                \<and> resolve_agent_colleague (mw_queue w) (tx_acting_user_id ctx) (tx_org_id ctx) a = Inr (pr_receiver r)
                \<and> pr_status r = Pending \<and> pr_kind r = Normal \<and> pr_thread r = Some (ms_thread m)
                \<and> (\<exists>p \<in> set (td_participation (mw_threads w')). pr_state_id r = Some (ats_id p)
                     \<and> ats_thread p = ms_thread m \<and> ats_agent p = a)
                \<and> pr_trigger_message r = Some (ms_id m) \<and> pr_root r = tx_root_request_id ctx
                \<and> pr_acting_user r = Some (tx_acting_user_id ctx) \<and> pr_org r = tx_org_id ctx)))"
  using assms
proof (cases rule: send_messageE)
  case (refused e)
  then show ?thesis by blast
next
  case (went receiver author thread td ca)
  let ?content = "si_content input"
  note valid = validate_send_Inr [OF went(1)]
  have rc: "\<exists>p. resolve_colleague env ctx i = Some (Inr p) \<and> p \<noteq> tx_viewer ctx \<and> receiver = Some p"
    if "si_receiver input = Some i" for i using valid that by (auto split: option.splits)
  show ?thesis
  proof (cases receiver)
    case None
    obtain y w2 where p: "post_egress env ca thread author (participant_colleague (tx_viewer ctx)) None ?content
        (tx_request_id ctx) (w\<lparr>mw_threads := td\<rparr>) = (y, w2)" by (meson surj_pair)
    have x: "w' = w2" "x = (case y of Inl e \<Rightarrow> Inl e | Inr _ \<Rightarrow> Inr \<lparr>so_thread = thread, so_request = None\<rparr>)"
      using went(4) p None by (auto split: sum.splits)
    from p show ?thesis
    proof (cases rule: post_egress_cases)
      case (refused e)
      with x went(3) show ?thesis by simp
    next
      case (posted m)
      with x went(2,3) valid None show ?thesis by (intro disjI2 exI [of _ m]) (auto simp: egress_row_def)
    qed
  next
    case (Some p)
    show ?thesis
    proof (cases p)
      case (PHuman c u)
      then have "deliver_to_human env ctx ca thread author (participant_colleague (tx_viewer ctx)) c u ?content
          (w\<lparr>mw_threads := td\<rparr>) = (x, w')" using went(4) Some by simp
      then show ?thesis
      proof (cases rule: deliver_to_human_cases)
        case (unsent e)
        with went(3) show ?thesis by simp
      next
        case (sent m)
        have "admitted_human env (mw_threads w') (ms_thread m) p"
          using sent PHuman by (simp add: admitted_human_def egress_row_def)
        with sent went(2,3) valid Some PHuman rc show ?thesis
          by (intro disjI2 exI [of _ m]) (auto simp: egress_row_def)
      qed
    next
      case (PAgent c a)
      then have "deliver_to_agent env ctx ca thread author (participant_colleague (tx_viewer ctx)) c a ?content
          (w\<lparr>mw_threads := td\<rparr>) = Some (x, w')" using went(4) Some by simp
      then show ?thesis
      proof (cases rule: deliver_to_agent_cases)
        case (unsent e)
        with went(3) show ?thesis by simp
      next
        case (unpaid m e)
        have "admitted_human env (mw_threads w') (ms_thread m) p" using PAgent by (simp add: admitted_human_def)
        with unpaid went(2,3) valid Some PAgent rc show ?thesis
          by (intro disjI2 exI [of _ m]) (auto simp: egress_row_def)
      next
        case (sent m d state)
        have "admitted_human env (mw_threads w') (ms_thread m) p" using PAgent by (simp add: admitted_human_def)
        moreover have "prompt_requests (mw_queue w') = prompt_requests (mw_queue w)
           \<or> (\<exists>r i c a. prompt_requests (mw_queue w') = prompt_requests (mw_queue w) @ [r]
                \<and> x = Inr \<lparr>so_thread = ms_thread m, so_request = Some (pr_id r)\<rparr>
                \<and> si_receiver input = Some i \<and> resolve_colleague env ctx i = Some (Inr (PAgent c a))
                \<and> resolve_agent_colleague (mw_queue w) (tx_acting_user_id ctx) (tx_org_id ctx) a = Inr (pr_receiver r)
                \<and> pr_status r = Pending \<and> pr_kind r = Normal \<and> pr_thread r = Some (ms_thread m)
                \<and> (\<exists>p \<in> set (td_participation (mw_threads w')). pr_state_id r = Some (ats_id p)
                     \<and> ats_thread p = ms_thread m \<and> ats_agent p = a)
                \<and> pr_trigger_message r = Some (ms_id m) \<and> pr_root r = tx_root_request_id ctx
                \<and> pr_acting_user r = Some (tx_acting_user_id ctx) \<and> pr_org r = tx_org_id ctx)"
          using sent(2,6,8) valid Some PAgent
          by (elim disjE) (auto simp: trigger_row_def tag_trigger_def egress_row_def)
        ultimately show ?thesis using sent(1,2,7) went(2,3) valid Some PAgent rc
          by (intro disjI2 exI [of _ m]) (auto simp: egress_row_def)
      qed
    qed (use valid Some in simp)
  qed
qed

section \<open>The budget of a conversation\<close>

lemma paid_one:
  assumes "dags qd root = Some d" "dag_turns_used d < dag_turns_cap d" "dags qd' = dags (bump_dag qd root d)"
    and "prompt_requests qd' = prompt_requests qd \<or> (\<exists>r. prompt_requests qd' = prompt_requests qd @ [r] \<and> pr_root r = root)"
  shows "paid root' qd qd'"
  using assms by (auto simp: paid_def bump_dag_def conversation_turns_def)

lemma send_message_paid:
  assumes "send_message env ctx input w = Some (x, w')"
  shows "paid root (mw_queue w) (mw_queue w')"
  using assms
proof (cases rule: send_messageE)
  case (refused e)
  then show ?thesis by (simp add: paid_refl)
next
  case (went receiver author thread td ca)
  let ?sender = "participant_colleague (tx_viewer ctx)" and ?content = "si_content input"
  note valid = validate_send_Inr [OF went(1)]
  show ?thesis
  proof (cases receiver)
    case None
    obtain y w2 where p: "post_egress env ca thread author ?sender None ?content (tx_request_id ctx) (w\<lparr>mw_threads := td\<rparr>) = (y, w2)"
      by (meson surj_pair)
    have "w' = w2" using went(4) p None by (auto split: sum.splits)
    with p show ?thesis by (cases rule: post_egress_cases) (simp_all add: paid_refl)
  next
    case (Some p)
    show ?thesis
    proof (cases p)
      case (PHuman c u)
      then have "deliver_to_human env ctx ca thread author ?sender c u ?content (w\<lparr>mw_threads := td\<rparr>) = (x, w')"
        using went(4) Some by simp
      then show ?thesis by (cases rule: deliver_to_human_cases) (simp_all add: paid_refl)
    next
      case (PAgent c a)
      then have "deliver_to_agent env ctx ca thread author ?sender c a ?content (w\<lparr>mw_threads := td\<rparr>) = Some (x, w')"
        using went(4) Some by simp
      then show ?thesis
      proof (cases rule: deliver_to_agent_cases)
        case (sent m d state)
        have "prompt_requests (mw_queue w') = prompt_requests (mw_queue w)
            \<or> (\<exists>r. prompt_requests (mw_queue w') = prompt_requests (mw_queue w) @ [r] \<and> pr_root r = tx_root_request_id ctx)"
          using sent(6) by (elim disjE) (auto simp: trigger_row_def tag_trigger_def)
        with sent(3-5) show ?thesis by (intro paid_one [where root = "tx_root_request_id ctx"]) simp_all
      qed (simp_all add: paid_refl)
    qed (use valid Some in simp)
  qed
qed

fun send_all :: "(send_env \<times> tool_ctx \<times> send_input) list \<Rightarrow> send_world \<Rightarrow> send_world option" where
  "send_all [] w = Some w"
| "send_all ((env, ctx, input) # calls) w =
     (case send_message env ctx input w of None \<Rightarrow> None | Some (_, w1) \<Rightarrow> send_all calls w1)"

text \<open>
  C28. The agents of a conversation cannot wake each other for ever: whatever messages any agents
  send, the turns added to a conversation are at most the budget its counter has moved, and the
  counter stays within the cap it had; so what is left of the budget bounds all further wake-ups.
\<close>

theorem wakeups_stay_within_the_budget:
  assumes run: "send_all calls w = Some w'"
    and dag: "dags (mw_queue w) root = Some d" "dag_turns_used d \<le> dag_turns_cap d"
  shows "\<exists>d'. dags (mw_queue w') root = Some d' \<and> dag_turns_cap d' = dag_turns_cap d
    \<and> dag_turns_used d \<le> dag_turns_used d' \<and> dag_turns_used d' \<le> dag_turns_cap d
    \<and> conversation_turns (mw_queue w') root - conversation_turns (mw_queue w) root \<le> dag_turns_used d' - dag_turns_used d"
proof -
  have "paid root (mw_queue w) (mw_queue w')"
    using run
  proof (induction calls arbitrary: w)
    case Nil
    then show ?case by (simp add: paid_refl)
  next
    case (Cons call calls)
    obtain env ctx input where call: "call = (env, ctx, input)" by (metis surj_pair)
    with Cons.prems obtain x w1 where s: "send_message env ctx input w = Some (x, w1)" "send_all calls w1 = Some w'"
      by (auto split: option.splits)
    from paid_trans [OF send_message_paid [OF s(1)] Cons.IH [OF s(2)]] show ?case .
  qed
  with dag show ?thesis unfolding paid_def by fastforce
qed

text \<open>No call panics while the counters fit their type.\<close>

lemma bump_dag_budget_total:
  assumes "\<And>d. dags (mw_queue w) (tx_root_request_id ctx) = Some d \<Longrightarrow>
    0 \<le> dag_turns_used d \<and> dag_turns_used d < int u32_max \<and> 0 \<le> dag_turns_cap d \<and> dag_turns_cap d \<le> int u32_max"
  shows "bump_dag_budget env ctx w \<noteq> None"
  using assms
  by (auto simp: bump_dag_budget_def bump_or_fail_for_user_def bump_or_fail_in_tx_def bumped_of_def exceeded_of_def
      u32_or_invariant_def Let_def split: option.splits if_splits)

lemma target_place_one:
  "target_place env ctx creator target = Some (Inr (ch, dm)) \<Longrightarrow> (ch = None) \<noteq> (dm = None)"
  by (auto simp: target_place_def split: send_target.splits if_splits option.splits sum.splits participant.splits)

lemma target_place_total: "target_place env ctx creator target \<noteq> None"
proof (cases target)
  case (ToDm i)
  with resolve_colleague_total obtain r where "resolve_colleague env ctx i = Some r" by blast
  with ToDm show ?thesis by (auto simp: target_place_def split: sum.splits participant.splits)
qed (simp add: target_place_def)

lemma resolve_target_total: "resolve_or_create_target env ctx ca author to td \<noteq> None"
proof (cases "to = None \<or> participant_colleague (tx_viewer ctx) = None")
  case True
  then show ?thesis by (auto simp: resolve_or_create_target_def split: option.splits)
next
  case False
  then obtain target creator where t: "to = Some target" "participant_colleague (tx_viewer ctx) = Some creator" by auto
  obtain p where p: "target_place env ctx creator target = Some p" using target_place_total by blast
  show ?thesis
  proof (cases p)
    case (Inl e)
    with t p show ?thesis by (simp add: resolve_or_create_target_def)
  next
    case (Inr cp)
    obtain ch dm where cp: "cp = (ch, dm)" by (cases cp)
    have "create_thread td (sx_now env) (sx_new_thread env) ca ch None creator dm \<noteq> None"
      using target_place_one [OF p [unfolded Inr cp]] by (auto simp: create_thread_def)
    with t p Inr cp show ?thesis
      by (auto simp: resolve_or_create_target_def split: sum.splits prod.splits)
  qed
qed

section \<open>A conversation of two agents\<close>

definition sample_send_directory :: directory where
  "sample_send_directory = \<lparr>dr_rows = [
       \<lparr>dy_id = 31, dy_org = 7, dy_kind = CkHuman, dy_user = Some 10, dy_agent = None\<rparr>,
       \<lparr>dy_id = 30, dy_org = 7, dy_kind = CkAgent, dy_user = None, dy_agent = Some 20\<rparr>,
       \<lparr>dy_id = 32, dy_org = 7, dy_kind = CkAgent, dy_user = None, dy_agent = Some 21\<rparr>],
     dr_agents = [20 \<mapsto> ''ada'', 21 \<mapsto> ''bob''], dr_users = [10 \<mapsto> (Some ''eve'', ''eve@x'')]\<rparr>"

definition sample_send_env :: send_env where
  "sample_send_env = \<lparr>sx_now = 9, sx_dir = sample_send_directory,
     sx_channels = \<lparr>cd_channels = [], cd_members = [], cd_agents = [], cd_org_members = [(10, 7)]\<rparr>,
     sx_new_thread = 500, sx_new_own_state = 501, sx_new_message = 502, sx_new_state = 503, sx_new_request = 504,
     sx_traceparent = None, sx_slot_cap = 4, sx_json = (\<lambda>_. []), sx_uuid = (\<lambda>_. ''u''), sx_show_parse = (\<lambda>_. []),
     sx_show_colleague = (\<lambda>_. []), sx_show_thread = (\<lambda>_. []), sx_show_prompt = (\<lambda>_. [])\<rparr>"

definition sample_send_ctx :: tool_ctx where
  "sample_send_ctx = \<lparr>tx_claim_key = 60, tx_thread_id = Some 100, tx_state_id = Some 60, tx_viewer = PAgent 30 20,
     tx_root_request_id = 70, tx_request_id = 70, tx_kind_payload = PNormal, tx_acting_user_id = 10, tx_org_id = 7\<rparr>"

definition sample_send_input :: send_input where
  "sample_send_input = \<lparr>si_receiver = Some 32, si_content = ''help'', si_to = None\<rparr>"

definition sample_send_threads :: thread_db where
  "sample_send_threads = \<lparr>td_threads = [\<lparr>th_id = 100, th_org = 7, th_channel = None, th_root_message = None,
       th_created_by = 31, th_dm_counterpart = Some 30, th_created_at = 0, th_last_activity_at = 0\<rparr>],
     td_seq = Map.empty, td_messages = [], td_participation = [], td_compactions = Map.empty, td_checkpoints = Map.empty,
     td_artifacts = Map.empty, td_users = [31 \<mapsto> 10], td_channel_members = [], td_archived = [], td_members = [(10, 7)]\<rparr>"

definition sample_send_queue :: queue_db where
  "sample_send_queue = \<lparr>prompt_requests = [], claim_leases = Map.empty, claim_seq = Map.empty,
     dags = [70 \<mapsto> \<lparr>dag_org = 7, dag_turns_used = 2, dag_turns_cap = 3, dag_created_at = 0\<rparr>],
     colleagues = [\<lparr>co_id = 30, co_org = 7, co_agent = Some 20\<rparr>, \<lparr>co_id = 32, co_org = 7, co_agent = Some 21\<rparr>],
     state_org = Map.empty, background_org = Map.empty, org_members = [(10, 7)]\<rparr>"

definition sample_send_world :: send_world where
  "sample_send_world = \<lparr>mw_threads = sample_send_threads, mw_queue = sample_send_queue, mw_hub = empty_hub\<rparr>"

lemma sample_validate:
  "validate_send sample_send_env sample_send_ctx ''help'' (Some 32) = Some (Inr (''help'', Some (PAgent 32 21), 20))"
proof -
  have p: "prompt_try_from ''help'' = Inr ''help''"
  proof -
    have "trim ''help'' = ''help''" by code_simp
    then show ?thesis by (simp add: prompt_try_from_def PROMPT_MAX_BYTES_def)
  qed
  have r: "resolve_colleague sample_send_env sample_send_ctx 32 = Some (Inr (PAgent 32 21))"
    by (simp add: resolve_colleague_def read_colleague_def sample_send_env_def sample_send_directory_def colleague_ref_of_def
        display_name_expr_def colleague_name_try_from_def COLLEAGUE_NAME_MAX_LEN_def colleague_try_new_def
        participant_of_colleague_def sample_send_ctx_def Let_def)
  have "tx_viewer sample_send_ctx = PAgent 30 20" by (simp add: sample_send_ctx_def)
  then show ?thesis by (simp add: validate_send_def p r)
qed

definition sample_sent_threads :: thread_db where
  "sample_sent_threads = snd (append_message sample_send_threads 9 502 \<lparr>ca_user = 10, ca_org = 7\<rparr> 100
     (egress_message (Some 30) (Some 32) ''help'' 70))"

lemma sample_sent:
  "append_message sample_send_threads 9 502 \<lparr>ca_user = 10, ca_org = 7\<rparr> 100 (egress_message (Some 30) (Some 32) ''help'' 70)
    = (Inr 502, sample_sent_threads)"
  "thread_visible sample_sent_threads 10 100 \<noteq> None" "td_participation sample_sent_threads = []"
  by (simp_all add: sample_sent_threads_def append_message_def append_statement_def sample_send_threads_def thread_visible_def
      td_is_member_def message_admitted_def egress_message_def key_taken_def last_seq_def i64_max_def)

lemma sample_state:
  "resolve_participation sample_sent_threads 9 503 \<lparr>ca_user = 10, ca_org = 7\<rparr> 100 21
    = (Inr 503, sample_sent_threads\<lparr>td_participation := [\<lparr>ats_id = 503, ats_thread = 100, ats_agent = 21,
        ats_org = th_org (the (thread_visible sample_sent_threads 10 100)), ats_created_at = 9\<rparr>]\<rparr>)"
  using sample_sent(2,3) by (auto simp: resolve_participation_def)

lemma sample_thread_org: "th_org (the (thread_visible sample_sent_threads 10 100)) = 7"
  by (simp add: sample_sent_threads_def append_message_def append_statement_def sample_send_threads_def thread_visible_def
      td_is_member_def message_admitted_def egress_message_def key_taken_def last_seq_def i64_max_def)

definition sample_sent_queue :: queue_db where
  "sample_sent_queue = (bump_dag sample_send_queue 70 (the (dags sample_send_queue 70)))\<lparr>state_org := [503 \<mapsto> 7],
     prompt_requests := [trigger_row 9 504 None 32 (tag_trigger sample_send_ctx 100 503 21 30 502 ''tag:u:u:u'')]\<rparr>"

lemma sample_send:
  "\<exists>w'. send_message sample_send_env sample_send_ctx sample_send_input sample_send_world
      = Some (Inr \<lparr>so_thread = 100, so_request = Some 504\<rparr>, w') \<and> mw_queue w' = sample_sent_queue"
proof -
  let ?ca = "\<lparr>ca_user = 10, ca_org = 7\<rparr>"
  note env = sample_send_env_def sample_send_ctx_def sample_send_world_def
  have sels: "sx_now sample_send_env = 9" "sx_new_state sample_send_env = 503" "tx_request_id sample_send_ctx = 70"
    by (simp_all add: env)
  have post: "\<exists>hub. post_egress sample_send_env ?ca 100 20 (Some 30) (Some 32) ''help'' 70 sample_send_world
      = (Inr 502, sample_send_world\<lparr>mw_threads := sample_sent_threads, mw_hub := hub\<rparr>)"
    using sample_sent(1) by (simp add: post_egress_def env)
  then obtain hub where post: "post_egress sample_send_env ?ca 100 20 (Some 30) (Some 32) ''help'' 70 sample_send_world
      = (Inr 502, sample_send_world\<lparr>mw_threads := sample_sent_threads, mw_hub := hub\<rparr>)" ..
  let ?td = "sample_sent_threads\<lparr>td_participation := [\<lparr>ats_id = 503, ats_thread = 100, ats_agent = 21, ats_org = 7, ats_created_at = 9\<rparr>]\<rparr>"
  let ?w = "sample_send_world\<lparr>mw_hub := hub, mw_threads := ?td\<rparr>"
  let ?qd = "bump_dag sample_send_queue 70 (the (dags sample_send_queue 70))"
  have bump: "bump_dag_budget sample_send_env sample_send_ctx ?w = Some (Inr (), ?w\<lparr>mw_queue := ?qd\<rparr>)"
    by (simp add: bump_dag_budget_def bump_or_fail_for_user_def bump_or_fail_in_tx_def bumped_of_def u32_or_invariant_def
        u32_max_def app_user_is_member_def env sample_send_queue_def)
  have key: "idempotency_key_try_from (tag_key sample_send_env 100 21 502) = Inr ''tag:u:u:u''"
    by (simp add: tag_key_def env idempotency_key_try_from_def MAX_IDEMPOTENCY_KEY_BYTES_def)
  have enqueue: "enqueue_agent_trigger sample_send_env sample_send_ctx 100 503 21 (Some 30) 502 (?w\<lparr>mw_queue := ?qd\<rparr>)
      = (Inr 504, ?w\<lparr>mw_queue := sample_sent_queue\<rparr>)"
    by (simp add: enqueue_agent_trigger_def key)
      (simp add: env participation_view_def sample_send_queue_def sample_sent_queue_def bump_dag_def tag_trigger_def
        enqueue_trigger_def resolve_agent_colleague_def app_user_is_member_def prompt_requests_admit_def claim_parent_org_def
        trigger_row_def Let_def fun_eq_iff)
  have "deliver_to_agent sample_send_env sample_send_ctx ?ca 100 20 (Some 30) 32 21 ''help'' sample_send_world
      = Some (Inr \<lparr>so_thread = 100, so_request = Some 504\<rparr>, ?w\<lparr>mw_queue := sample_sent_queue\<rparr>)"
    using post bump enqueue sample_state [unfolded sample_thread_org]
    by (simp add: deliver_to_agent_def sels)
  moreover have "tx_thread_id sample_send_ctx = Some 100" "participant_colleague (tx_viewer sample_send_ctx) = Some 30"
    "tx_acting_user_id sample_send_ctx = 10" "tx_org_id sample_send_ctx = 7"
    by (simp_all add: sample_send_ctx_def)
  ultimately show ?thesis
    by (simp add: send_message_def sample_send_input_def sample_validate resolve_or_create_target_def)
qed

lemma send_posts_once_where_allowed_witness:
  "\<exists>w' m r. send_message sample_send_env sample_send_ctx sample_send_input sample_send_world
      = Some (Inr \<lparr>so_thread = 100, so_request = Some 504\<rparr>, w')
    \<and> td_messages (mw_threads w') = [m] \<and> ms_thread m = 100 \<and> ms_receiver m = Some 32
    \<and> prompt_requests (mw_queue w') = [r] \<and> pr_id r = 504 \<and> pr_trigger_message r = Some (ms_id m)"
proof -
  obtain w' where run: "send_message sample_send_env sample_send_ctx sample_send_input sample_send_world
      = Some (Inr \<lparr>so_thread = 100, so_request = Some 504\<rparr>, w')" and q: "mw_queue w' = sample_sent_queue"
    using sample_send by blast
  have rows: "td_messages (mw_threads sample_send_world) = []" "prompt_requests (mw_queue sample_send_world) = []"
    by (simp_all add: sample_send_world_def sample_send_threads_def sample_send_queue_def)
  have "\<exists>m. td_messages (mw_threads w') = [m] \<and> egress_row sample_send_env sample_send_ctx (ms_thread m) (Some 32) ''help'' m
      \<and> may_post sample_send_env sample_send_ctx None (ms_thread m)"
    using send_posts_once_where_allowed [OF run] by (auto simp: rows sample_send_input_def)
  then obtain m where "td_messages (mw_threads w') = [m]" "ms_thread m = 100" "ms_receiver m = Some 32" "ms_id m = 502"
    by (auto simp: egress_row_def may_post_def sample_send_ctx_def sample_send_env_def)
  with run q show ?thesis by (simp add: sample_sent_queue_def trigger_row_def tag_trigger_def)
qed

text \<open>The one turn that was left of the budget is spent.\<close>

lemma wakeups_stay_within_the_budget_witness:
  "\<exists>w'. send_all [(sample_send_env, sample_send_ctx, sample_send_input)] sample_send_world = Some w'
    \<and> conversation_turns (mw_queue w') 70 = 1
    \<and> (\<exists>d'. dags (mw_queue w') 70 = Some d' \<and> dag_turns_used d' = 3 \<and> dag_turns_cap d' = 3)"
proof -
  obtain w' where run: "send_message sample_send_env sample_send_ctx sample_send_input sample_send_world
      = Some (Inr \<lparr>so_thread = 100, so_request = Some 504\<rparr>, w')" and q: "mw_queue w' = sample_sent_queue"
    using sample_send by blast
  then have all: "send_all [(sample_send_env, sample_send_ctx, sample_send_input)] sample_send_world = Some w'" by simp
  have dag: "dags (mw_queue sample_send_world) 70 = Some \<lparr>dag_org = 7, dag_turns_used = 2, dag_turns_cap = 3, dag_created_at = 0\<rparr>"
    "conversation_turns (mw_queue sample_send_world) 70 = 0"
    by (simp_all add: sample_send_world_def sample_send_queue_def conversation_turns_def)
  have one: "conversation_turns (mw_queue w') 70 = 1"
    by (simp add: q sample_sent_queue_def conversation_turns_def trigger_row_def tag_trigger_def sample_send_ctx_def)
  from wakeups_stay_within_the_budget [OF all dag(1)] dag(2) one
  obtain d' where "dags (mw_queue w') 70 = Some d'" "dag_turns_used d' \<le> 3" "1 \<le> dag_turns_used d' - 2" "dag_turns_cap d' = 3"
    by auto
  moreover from this have "dag_turns_used d' = 3" by linarith
  ultimately show ?thesis using all one by blast
qed

end
