(* ===== verification/Thread_Reads.thy ===== *)
theory Thread_Reads
  imports Channels Agent_Turn
begin

text \<open>
  What clients and agents read of the threads (\<open>threads/pg_store.rs\<close>): the feed of a thread in pages,
  the thread lists of a channel and of direct messages, a channel's history and the tool that renders
  it (\<open>tools/system/read_channel.rs\<close>). \<open>value_text\<close> is the JSON text of a content block that is not
  plain text, \<open>show_parse\<close> the rendering of a parse error.
\<close>

definition MAX_THREAD_LIST :: nat where "MAX_THREAD_LIST = 200"
definition MAX_THREAD_FEED :: nat where "MAX_THREAD_FEED = 500"
definition ROOT_SNIPPET_MAX_CHARS :: nat where "ROOT_SNIPPET_MAX_CHARS = 160"
definition MAX_READ_CHANNEL_MESSAGES :: int where "MAX_READ_CHANNEL_MESSAGES = 200"
definition DEFAULT_READ_CHANNEL_MESSAGES :: int where "DEFAULT_READ_CHANNEL_MESSAGES = 50"
definition READ_CHANNEL_BODY_MAX_CHARS :: nat where "READ_CHANNEL_BODY_MAX_CHARS = 280"
definition MAX_PARTICIPANTS_INLINE :: nat where "MAX_PARTICIPANTS_INLINE = 32"

section \<open>The feed of a thread\<close>

record feed_message =
  fm_seq :: feed_seq
  fm_kind :: message_kind
  fm_sender :: message_sender
  fm_owner_agent :: "uuid option"
  fm_receiver :: "participant option"
  fm_body :: chat_message
  fm_request :: "uuid option"
  fm_client_key :: "idempotency_key option"
  fm_created_at :: timestamp

text \<open>The columns a \<open>LEFT JOIN colleagues\<close> gives for a colleague id.\<close>

definition joined_columns :: "directory \<Rightarrow> uuid option \<Rightarrow> uuid option \<times> colleague_kind option \<times> uuid option \<times> uuid option" where
  "joined_columns dir c =
     (case Option.bind c (\<lambda>i. find (\<lambda>r. dy_id r = i) (dr_rows dir)) of
        None \<Rightarrow> (c, None, None, None)
      | Some r \<Rightarrow> (c, Some (dy_kind r), dy_user r, dy_agent r))"

definition decode_participant ::
  "(parse_error \<Rightarrow> string) \<Rightarrow> directory \<Rightarrow> uuid option \<Rightarrow> (participant, thread_error) result" where
  "decode_participant show_parse dir c =
     (case participant_of_columns (joined_columns dir c) of
        Inl e \<Rightarrow> Inl (ThreadBackend (''decode feed participant: '' @ show_parse e))
      | Inr p \<Rightarrow> Inr p)"

definition feed_row_to_message ::
  "(parse_error \<Rightarrow> string) \<Rightarrow> directory \<Rightarrow> message_row \<Rightarrow> (feed_message, thread_error) result" where
  "feed_row_to_message show_parse dir m =
     (case decode_participant show_parse dir (ms_sender m) of
        Inl e \<Rightarrow> Inl e
      | Inr sender \<Rightarrow>
          (case (case ms_receiver m of
                   None \<Rightarrow> Inr None
                 | Some r \<Rightarrow> (case decode_participant show_parse dir (Some r) of Inl e \<Rightarrow> Inl e | Inr p \<Rightarrow> Inr (Some p))) of
             Inl e \<Rightarrow> Inl e
           | Inr receiver \<Rightarrow>
               Inr \<lparr>fm_seq = ms_seq m, fm_kind = ms_kind m, fm_sender = sender_of_participant sender,
                 fm_owner_agent = ms_owner_agent m, fm_receiver = receiver, fm_body = ms_body m,
                 fm_request = ms_request m, fm_client_key = ms_idempotency_key m, fm_created_at = ms_created_at m\<rparr>))"

definition feed_cap :: "nat \<Rightarrow> nat" where
  "feed_cap limit = max 1 (min limit MAX_THREAD_FEED)"

text \<open>\<open>FEED_SQL\<close>: descending for the limit, then reversed.\<close>

definition feed_rows :: "thread_db \<Rightarrow> caller \<Rightarrow> uuid \<Rightarrow> int option \<Rightarrow> nat \<Rightarrow> message_row list" where
  "feed_rows db ca thread before limit =
     last_n (feed_cap limit) (sort_key ms_seq (filter (\<lambda>m. ms_thread m = thread \<and> visible_to db ca thread
       \<and> (case before of None \<Rightarrow> True | Some b \<Rightarrow> int (ms_seq m) < b)) (td_messages db)))"

definition feed ::
  "(parse_error \<Rightarrow> string) \<Rightarrow> directory \<Rightarrow> thread_db \<Rightarrow> caller \<Rightarrow> uuid \<Rightarrow> int option \<Rightarrow> nat
   \<Rightarrow> (feed_message list, thread_error) result" where
  "feed show_parse dir db ca thread before limit =
     collect_results (map (feed_row_to_message show_parse dir) (feed_rows db ca thread before limit))"

section \<open>Lists of threads\<close>

datatype thread_scope = ScChannel uuid | ScDms "uuid option"

record root_summary =
  rs_snippet :: string
  rs_sender :: message_sender
  rs_created_at :: timestamp

record thread_list_item =
  li_thread :: uuid
  li_channel :: "uuid option"
  li_last_activity_at :: timestamp
  li_root :: "root_summary option"
  li_reply_count :: int

text \<open>\<open>LEFT(m.body->'contents'->0->>'value', n)\<close>; \<open>None\<close> is \<open>NULL\<close>, a body without blocks.\<close>

definition body_preview :: "(user_content + assistant_content \<Rightarrow> string) \<Rightarrow> nat \<Rightarrow> chat_message \<Rightarrow> string option" where
  "body_preview value_text n body =
     map_option (take_chars n)
       (case body of
          User [] \<Rightarrow> None
        | User (UText t # _) \<Rightarrow> Some t
        | User (b # _) \<Rightarrow> Some (value_text (Inl b))
        | Assistant [] \<Rightarrow> None
        | Assistant (CText t # _) \<Rightarrow> Some t
        | Assistant (b # _) \<Rightarrow> Some (value_text (Inr b)))"

definition posted_rows :: "thread_db \<Rightarrow> uuid \<Rightarrow> message_row list" where
  "posted_rows db thread = sort_key ms_seq (filter (\<lambda>m. ms_thread m = thread \<and> ms_kind m = Posted) (td_messages db))"

definition scope_admits :: "thread_db \<Rightarrow> uuid \<Rightarrow> thread_scope \<Rightarrow> thread_row \<Rightarrow> bool" where
  "scope_admits db user scope t \<longleftrightarrow>
     (case scope of
        ScChannel ch \<Rightarrow> th_channel t = Some ch \<and> in_channel db ch user \<and> ch \<notin> set (td_archived db)
      | ScDms c \<Rightarrow> th_channel t = None \<and> dm_visible_to db t user
          \<and> (c = None \<or> th_dm_counterpart t = c \<or> Some (th_created_by t) = c))"

definition list_row_to_item ::
  "(parse_error \<Rightarrow> string) \<Rightarrow> (user_content + assistant_content \<Rightarrow> string) \<Rightarrow> directory \<Rightarrow> thread_db \<Rightarrow> thread_row
   \<Rightarrow> (thread_list_item, thread_error) result" where
  "list_row_to_item show_parse value_text dir db t =
     (let posted = posted_rows db (th_id t);
          item = (\<lambda>root. \<lparr>li_thread = th_id t, li_channel = th_channel t, li_last_activity_at = th_last_activity_at t,
              li_root = root, li_reply_count = max (int (length posted) - 1) 0\<rparr>) in
      case posted of
        [] \<Rightarrow> Inr (item None)
      | m # _ \<Rightarrow>
          (case decode_participant show_parse dir (ms_sender m) of
             Inl e \<Rightarrow> Inl e
           | Inr p \<Rightarrow> Inr (item (Some \<lparr>
                 rs_snippet = (case body_preview value_text ROOT_SNIPPET_MAX_CHARS (ms_body m) of None \<Rightarrow> [] | Some s \<Rightarrow> s),
                 rs_sender = sender_of_participant p, rs_created_at = ms_created_at m\<rparr>))))"

definition listed_threads :: "thread_db \<Rightarrow> caller \<Rightarrow> thread_scope \<Rightarrow> thread_row list" where
  "listed_threads db ca scope =
     take MAX_THREAD_LIST (sort_key (\<lambda>t. - th_last_activity_at t)
       (filter (\<lambda>t. th_org t = ca_org ca \<and> td_is_member db (ca_user ca) (th_org t) \<and> scope_admits db (ca_user ca) scope t)
         (td_threads db)))"

definition list_threads ::
  "(parse_error \<Rightarrow> string) \<Rightarrow> (user_content + assistant_content \<Rightarrow> string) \<Rightarrow> directory \<Rightarrow> thread_db \<Rightarrow> caller \<Rightarrow> thread_scope
   \<Rightarrow> (thread_list_item list, thread_error) result" where
  "list_threads show_parse value_text dir db ca scope =
     collect_results (map (list_row_to_item show_parse value_text dir db) (listed_threads db ca scope))"

section \<open>Point reads\<close>

definition dm_counterpart :: "thread_db \<Rightarrow> uuid \<Rightarrow> (uuid option, thread_error) result" where
  "dm_counterpart db thread =
     (case find (\<lambda>t. th_id t = thread) (td_threads db) of
        None \<Rightarrow> Inl (ThreadNotFound thread) | Some t \<Rightarrow> Inr (th_dm_counterpart t))"

record thread_participants =
  tp_creator :: "uuid option"
  tp_senders :: "uuid list"

text \<open>\<open>GROUP BY sender ORDER BY MIN(seq)\<close>: the senders at their first post.\<close>

definition first_seen :: "'a list \<Rightarrow> 'a list" where
  "first_seen xs = rev (remdups (rev xs))"

definition participants_of_thread :: "thread_db \<Rightarrow> uuid \<Rightarrow> thread_participants" where
  "participants_of_thread db thread =
     \<lparr>tp_creator = map_option th_created_by (find (\<lambda>t. th_id t = thread) (td_threads db)),
      tp_senders = take MAX_PARTICIPANTS_INLINE (first_seen (List.map_filter ms_sender (posted_rows db thread)))\<rparr>"

section \<open>A channel's history\<close>

record channel_feed_row =
  cfr_created_at :: timestamp
  cfr_author :: "string option"
  cfr_preview :: string

definition sender_name :: "directory \<Rightarrow> uuid option \<Rightarrow> string option" where
  "sender_name dir c =
     Option.bind c (\<lambda>i. Option.bind (find (\<lambda>r. dy_id r = i) (dr_rows dir)) (display_name_expr dir))"

definition channel_rows :: "thread_db \<Rightarrow> uuid \<Rightarrow> timestamp option \<Rightarrow> message_row list" where
  "channel_rows db ch since =
     sort_key ms_created_at (sort_key ms_id (filter (\<lambda>m. ms_kind m = Posted
       \<and> (\<exists>t \<in> set (td_threads db). th_id t = ms_thread m \<and> th_channel t = Some ch)
       \<and> (case since of None \<Rightarrow> True | Some s \<Rightarrow> s \<le> ms_created_at m)) (td_messages db)))"

definition channel_feed ::
  "(user_content + assistant_content \<Rightarrow> string) \<Rightarrow> directory \<Rightarrow> thread_db \<Rightarrow> uuid \<Rightarrow> timestamp option \<Rightarrow> int
   \<Rightarrow> channel_feed_row list" where
  "channel_feed value_text dir db ch since limit =
     map (\<lambda>m. \<lparr>cfr_created_at = ms_created_at m, cfr_author = sender_name dir (ms_sender m),
         cfr_preview = (case body_preview value_text READ_CHANNEL_BODY_MAX_CHARS (ms_body m) of None \<Rightarrow> [] | Some s \<Rightarrow> s)\<rparr>)
       (last_n (nat (max 1 (min limit MAX_READ_CHANNEL_MESSAGES))) (channel_rows db ch since))"

definition read_channel_limit_try_from :: "int \<Rightarrow> (int, parse_error) result" where
  "read_channel_limit_try_from n =
     (if 1 \<le> n \<and> n \<le> MAX_READ_CHANNEL_MESSAGES then Inr n
      else Inl (OutOfRange ''read_channel_limit'' ''1..=MAX_READ_CHANNEL_MESSAGES''))"

definition render_channel_line :: "(timestamp \<Rightarrow> string) \<Rightarrow> channel_feed_row \<Rightarrow> string" where
  "render_channel_line rfc3339 r =
     rfc3339 (cfr_created_at r) @ '' '' @ (case cfr_author r of None \<Rightarrow> ''system'' | Some a \<Rightarrow> a) @ '': ''
     @ (if cfr_preview r = [] then ''(no readable content)'' else cfr_preview r) @ newline"

definition render_channel :: "(timestamp \<Rightarrow> string) \<Rightarrow> channel_feed_row list \<Rightarrow> string" where
  "render_channel rfc3339 rows =
     truncate_to_char_boundary (concat (map (render_channel_line rfc3339) rows)) TOOL_RESULT_MAX_BYTES"

definition read_channel ::
  "(timestamp \<Rightarrow> string) \<Rightarrow> (user_content + assistant_content \<Rightarrow> string) \<Rightarrow> directory \<Rightarrow> channel_db \<Rightarrow> thread_db \<Rightarrow> tool_ctx
   \<Rightarrow> uuid \<Rightarrow> timestamp option \<Rightarrow> int \<Rightarrow> (string, tool_error) result" where
  "read_channel rfc3339 value_text dir cd td ctx ch since limit =
     (case (if participant_agent (tx_viewer ctx) \<noteq> None then participant_colleague (tx_viewer ctx) else None) of
        None \<Rightarrow> Inl (InvalidInput ''read_channel: caller must be an agent'')
      | Some viewer \<Rightarrow>
          if \<not> colleague_in_channel dir cd ch viewer
            then Inl (InvalidInput ''read_channel: you are not a member of that channel'')
          else (let rows = channel_feed value_text dir td ch since limit in
            Inr (if rows = [] then ''(no messages in that window)'' else render_channel rfc3339 rows)))"

end
