(* ===== verification/Thread_Read_Laws.thy ===== *)
theory Thread_Read_Laws
  imports Thread_Reads Thread_Properties
begin

text \<open>
  The pages of a feed put together are the feed, and no read of a thread, a list or a channel shows
  what its gate does not admit.
\<close>

section \<open>Pages\<close>

lemma thread_rows_sorted:
  assumes "thread_inv db"
  shows "sorted_wrt (\<lambda>m m'. ms_seq m < ms_seq m') (filter (\<lambda>m. ms_thread m = thread) (td_messages db))"
proof -
  have "sorted_wrt (<) (feed_seqs db thread)" using assms by (simp add: thread_inv_def)
  then show ?thesis by (simp add: feed_seqs_def sorted_wrt_map)
qed

lemma sort_key_strict:
  "sorted_wrt (\<lambda>m m'. f m < f m') xs \<Longrightarrow> sort_key f xs = (xs :: 'a list)" for f :: "'a \<Rightarrow> 'b :: linorder"
proof (rule sort_key_id_if_sorted)
  assume "sorted_wrt (\<lambda>m m'. f m < f m') xs"
  then have "sorted_wrt (\<lambda>m m'. f m \<le> f m') xs" by (rule sorted_wrt_mono_rel [rotated]) simp
  then show "sorted (map f xs)" by (simp add: sorted_wrt_map)
qed

definition thread_rows :: "thread_db \<Rightarrow> uuid \<Rightarrow> message_row list" where
  "thread_rows db thread = filter (\<lambda>m. ms_thread m = thread) (td_messages db)"

definition below :: "int option \<Rightarrow> message_row \<Rightarrow> bool" where
  "below b m \<longleftrightarrow> (case b of None \<Rightarrow> True | Some b \<Rightarrow> int (ms_seq m) < b)"

lemma feed_rows_visible:
  assumes inv: "thread_inv db" and vis: "visible_to db ca thread"
  shows "feed_rows db ca thread before limit = last_n (feed_cap limit) (filter (below before) (thread_rows db thread))"
proof -
  have "filter (\<lambda>m. ms_thread m = thread \<and> visible_to db ca thread
       \<and> (case before of None \<Rightarrow> True | Some b \<Rightarrow> int (ms_seq m) < b)) (td_messages db) = filter (below before) (thread_rows db thread)"
    using vis by (simp add: thread_rows_def below_def conj_commute)
  moreover have "sorted_wrt (\<lambda>m m'. ms_seq m < ms_seq m') (filter (below before) (thread_rows db thread))"
    unfolding thread_rows_def by (rule sorted_wrt_filter) (rule thread_rows_sorted [OF inv])
  ultimately show ?thesis by (simp add: feed_rows_def sort_key_strict)
qed

text \<open>The client reads back from the newest page: the next page ends before the first row it has.\<close>

fun feed_pages :: "nat \<Rightarrow> thread_db \<Rightarrow> caller \<Rightarrow> uuid \<Rightarrow> int option \<Rightarrow> nat \<Rightarrow> message_row list list" where
  "feed_pages 0 db ca thread before limit = []"
| "feed_pages (Suc n) db ca thread before limit =
     (case feed_rows db ca thread before limit of
        [] \<Rightarrow> []
      | m # ms \<Rightarrow> feed_pages n db ca thread (Some (int (ms_seq m))) limit @ [m # ms])"

lemma filter_below_prefix:
  assumes "sorted_wrt (\<lambda>m m'. ms_seq m < ms_seq m') (xs @ m # ys)"
  shows "filter (below (Some (int (ms_seq m)))) (xs @ m # ys) = xs"
proof -
  have "\<forall>x \<in> set xs. ms_seq x < ms_seq m" "\<forall>y \<in> set ys. ms_seq m < ms_seq y"
    using assms by (auto simp: sorted_wrt_append)
  then have "filter (below (Some (int (ms_seq m)))) xs = xs" "filter (below (Some (int (ms_seq m)))) ys = []"
    by (auto simp: below_def filter_id_conv filter_empty_conv)
  then show ?thesis by (simp add: below_def)
qed

lemma feed_pages_prefix:
  assumes inv: "thread_inv db" and vis: "visible_to db ca thread"
    and "thread_rows db thread = filter (below before) (thread_rows db thread) @ rest"
    and "length (filter (below before) (thread_rows db thread)) \<le> n"
  shows "concat (feed_pages n db ca thread before limit) = filter (below before) (thread_rows db thread)"
  using assms(3,4)
proof (induction n arbitrary: before rest)
  case 0
  then show ?case by simp
next
  case (Suc n)
  let ?rows = "filter (below before) (thread_rows db thread)" and ?cap = "feed_cap limit"
  have page: "feed_rows db ca thread before limit = last_n ?cap ?rows" by (rule feed_rows_visible [OF inv vis])
  show ?case
  proof (cases "last_n ?cap ?rows")
    case Nil
    moreover have "1 \<le> ?cap" by (simp add: feed_cap_def)
    ultimately have "length ?rows = 0" by (simp add: last_n_def del: length_0_conv)
    then have "?rows = []" by simp
    with page show ?thesis by (simp add: last_n_def)
  next
    case (Cons m ms)
    define xs where "xs = take (length ?rows - ?cap) ?rows"
    have rows: "?rows = xs @ m # ms" unfolding xs_def by (metis Cons append_take_drop_id last_n_def)
    then have all: "thread_rows db thread = xs @ m # (ms @ rest)" using Suc.prems(1) by simp
    have "sorted_wrt (\<lambda>m m'. ms_seq m < ms_seq m') (thread_rows db thread)"
      using thread_rows_sorted [OF inv] by (simp add: thread_rows_def)
    then have next_rows: "filter (below (Some (int (ms_seq m)))) (thread_rows db thread) = xs"
      unfolding all by (rule filter_below_prefix)
    have "length xs \<le> n" using Suc.prems(2) unfolding rows by simp
    with Suc.IH [of "Some (int (ms_seq m))" "m # ms @ rest"] next_rows all
    have "concat (feed_pages n db ca thread (Some (int (ms_seq m))) limit) = xs" by simp
    then show ?thesis using page Cons rows by simp
  qed
qed

lemma last_n_length: "length (last_n k xs) \<le> k"
  by (simp add: last_n_def)

lemma feed_rows_bounded: "length (feed_rows db ca thread before limit) \<le> feed_cap limit"
  by (simp add: feed_rows_def last_n_length)

lemma feed_pages_bounded: "page \<in> set (feed_pages n db ca thread before limit) \<Longrightarrow> length page \<le> feed_cap limit"
proof (induction n arbitrary: before)
  case (Suc n)
  show ?case
  proof (cases "feed_rows db ca thread before limit")
    case (Cons m ms)
    with Suc.prems consider "page \<in> set (feed_pages n db ca thread (Some (int (ms_seq m))) limit)" | "page = m # ms" by auto
    then show ?thesis
    proof cases
      case 2
      with Cons feed_rows_bounded [of db ca thread before limit] show ?thesis by simp
    qed (rule Suc.IH)
  qed (use Suc.prems in simp)
qed simp

text \<open>
  C29. Reading a thread's feed back page by page gives every message of the thread once and in order,
  in pages of at most 500, to a caller who may see the thread; every other caller gets nothing.
\<close>

theorem feed_pages_recover_the_thread:
  assumes "thread_inv db" "length (td_messages db) \<le> n"
  shows "concat (feed_pages n db ca thread None limit) = (if visible_to db ca thread then thread_rows db thread else [])
    \<and> (\<forall>page \<in> set (feed_pages n db ca thread None limit). length page \<le> MAX_THREAD_FEED)"
proof
  show "concat (feed_pages n db ca thread None limit) = (if visible_to db ca thread then thread_rows db thread else [])"
  proof (cases "visible_to db ca thread")
    case True
    have all: "filter (below None) (thread_rows db thread) = thread_rows db thread" by (simp add: below_def)
    have "length (thread_rows db thread) \<le> n"
      unfolding thread_rows_def using assms(2) length_filter_le le_trans by blast
    with feed_pages_prefix [OF assms(1) True, of None "[]" n limit] all True show ?thesis by simp
  next
    case False
    then have "feed_rows db ca thread None limit = []" by (simp add: feed_rows_def last_n_def)
    with False show ?thesis by (cases n) simp_all
  qed
  have "feed_cap limit \<le> MAX_THREAD_FEED" by (simp add: feed_cap_def MAX_THREAD_FEED_def)
  then show "\<forall>page \<in> set (feed_pages n db ca thread None limit). length page \<le> MAX_THREAD_FEED"
    using feed_pages_bounded le_trans by blast
qed

lemma feed_pages_recover_the_thread_witness:
  "length (concat (feed_pages 1 sample_thread_db2 sample_caller 7 None 500)) = 1"
proof -
  have inv: "thread_inv sample_thread_db2" by (rule feed.reach_inv [OF feed_reach2])
  have rows: "length (td_messages sample_thread_db2) = 1" "length (thread_rows sample_thread_db2 7) = 1"
    "visible_to sample_thread_db2 sample_caller 7" by code_simp+
  then have "length (td_messages sample_thread_db2) \<le> 1" by simp
  from feed_pages_recover_the_thread [OF inv this, of sample_caller 7 500] rows show ?thesis by simp
qed

section \<open>Gates\<close>

lemma listed_threads_visible:
  assumes "t \<in> set (listed_threads db ca scope)"
  shows "visible_to db ca (th_id t)"
proof -
  from assms have "t \<in> set (filter (\<lambda>t. th_org t = ca_org ca \<and> td_is_member db (ca_user ca) (th_org t)
      \<and> scope_admits db (ca_user ca) scope t) (td_threads db))"
    unfolding listed_threads_def by (metis in_set_takeD set_sort)
  then have "t \<in> set (td_threads db)" "th_org t = ca_org ca" "td_is_member db (ca_user ca) (th_org t)"
    "scope_admits db (ca_user ca) scope t" by auto
  then show ?thesis by (auto simp: visible_to_def scope_admits_def split: thread_scope.splits)
qed

lemma read_channel_gated:
  assumes "read_channel rfc3339 value_text dir cd td ctx ch since limit = Inr out"
  shows "(\<exists>c. participant_colleague (tx_viewer ctx) = Some c \<and> colleague_in_channel dir cd ch c)
    \<and> length out \<le> TOOL_RESULT_MAX_BYTES"
proof -
  have "length (render_channel rfc3339 rows) \<le> TOOL_RESULT_MAX_BYTES" for rows
    unfolding render_channel_def using length_truncate by (meson le_trans min.cobounded1)
  moreover have "length ''(no messages in that window)'' \<le> TOOL_RESULT_MAX_BYTES" by (simp add: TOOL_RESULT_MAX_BYTES_def)
  ultimately show ?thesis using assms
    by (auto simp: read_channel_def Let_def split: option.splits if_splits)
qed

text \<open>
  An archived channel still takes posts: the gate of the agent does not look at the archive, and no
  user sees the thread the post starts.
\<close>

lemma archived_channel_hides_threads:
  assumes "t \<in> set (td_threads (channel_view cd td))" "distinct (map th_id (td_threads td))" "th_channel t = Some ch"
    and "c \<in> set (cd_channels cd)" "cl_id c = ch" "cl_archived_at c \<noteq> None"
  shows "\<not> visible_to (channel_view cd td) ca (th_id t)"
proof
  assume "visible_to (channel_view cd td) ca (th_id t)"
  then obtain s where s: "s \<in> set (td_threads td)" "th_id s = th_id t"
    "case th_channel s of None \<Rightarrow> dm_visible_to (channel_view cd td) s (ca_user ca)
       | Some k \<Rightarrow> in_channel (channel_view cd td) k (ca_user ca) \<and> k \<notin> set (td_archived (channel_view cd td))"
    unfolding visible_to_def by (auto simp: channel_view_def)
  have "s = t" using s(1,2) assms(1,2) by (auto simp: distinct_map channel_view_def dest: inj_onD)
  with s(3) assms(3-6) show False by (auto simp: channel_view_def)
qed

end
