(* ===== verification/Memory_Types.thy ===== *)
theory Memory_Types
  imports Runtime_Types Rust_Numbers
begin

text \<open>
  The values of the memory component (\<open>memory/types.rs\<close>, \<open>memory/limits.rs\<close> and the value types of
  \<open>memory/store.rs\<close>): what a memory is about, how far it is trusted, who changes it, its text, and
  the short handles by which a prompt names it.
\<close>

section \<open>Limits\<close>

definition MEMORY_CONTENT_MAX_BYTES :: nat where "MEMORY_CONTENT_MAX_BYTES = 4096"
definition CONTRADICTION_REASON_MAX_BYTES :: nat where "CONTRADICTION_REASON_MAX_BYTES = 1024"
definition VALIDATION_EVIDENCE_MAX_BYTES :: nat where "VALIDATION_EVIDENCE_MAX_BYTES = 1024"
definition MAX_MEMORIES_PER_AGENT :: nat where "MAX_MEMORIES_PER_AGENT = 1024"
definition MAX_EVENTS_PER_PAGE :: nat where "MAX_EVENTS_PER_PAGE = 1024"
definition STABLE_LAYER_MAX_BYTES :: nat where "STABLE_LAYER_MAX_BYTES = 4096"
definition CONTEXTUAL_LAYER_MAX_BYTES :: nat where "CONTEXTUAL_LAYER_MAX_BYTES = 4096"
definition RENDER_LINE_OVERHEAD_BYTES :: nat where "RENDER_LINE_OVERHEAD_BYTES = 32"
definition MAX_MEMORY_MUTATIONS_PER_TURN :: nat where "MAX_MEMORY_MUTATIONS_PER_TURN = 8"
definition MAX_RECALL_CALLS_PER_TURN :: nat where "MAX_RECALL_CALLS_PER_TURN = 6"
definition MAX_SIMILAR_PAIRS_PER_AGENT :: nat where "MAX_SIMILAR_PAIRS_PER_AGENT = 256"
definition RECALL_MAX_RESULTS :: nat where "RECALL_MAX_RESULTS = 8"
definition RECALL_DEFAULT_RESULTS :: nat where "RECALL_DEFAULT_RESULTS = 4"

section \<open>Enumerations\<close>

datatype memory_kind = MkIdentity | MkOther | MkCollaborator | MkProcedure | MkOpen

definition memory_kind_all :: "memory_kind list" where
  "memory_kind_all = [MkIdentity, MkOther, MkCollaborator, MkProcedure, MkOpen]"

fun memory_kind_as_str :: "memory_kind \<Rightarrow> string" where
  "memory_kind_as_str MkIdentity = ''self''"
| "memory_kind_as_str MkOther = ''other''"
| "memory_kind_as_str MkCollaborator = ''collaborator''"
| "memory_kind_as_str MkProcedure = ''procedure''"
| "memory_kind_as_str MkOpen = ''open''"

interpretation memory_kind: str_enum memory_kind_all memory_kind_as_str
proof
  fix v w :: memory_kind
  show "v \<in> set memory_kind_all" by (cases v) (simp_all add: memory_kind_all_def)
  show "memory_kind_as_str v = memory_kind_as_str w \<Longrightarrow> v = w" by (cases v; cases w) simp_all
qed

fun display_label :: "memory_kind \<Rightarrow> string" where
  "display_label MkIdentity = ''Self''"
| "display_label MkOther = ''Other''"
| "display_label MkCollaborator = ''Collaborator''"
| "display_label MkProcedure = ''Procedure''"
| "display_label MkOpen = ''Open''"

datatype memory_state = MsCore | MsValidated | MsHeld | MsTentative

definition memory_state_all :: "memory_state list" where
  "memory_state_all = [MsCore, MsValidated, MsHeld, MsTentative]"

fun memory_state_as_str :: "memory_state \<Rightarrow> string" where
  "memory_state_as_str MsCore = ''core''"
| "memory_state_as_str MsValidated = ''validated''"
| "memory_state_as_str MsHeld = ''held''"
| "memory_state_as_str MsTentative = ''tentative''"

interpretation memory_state: str_enum memory_state_all memory_state_as_str
proof
  fix v w :: memory_state
  show "v \<in> set memory_state_all" by (cases v) (simp_all add: memory_state_all_def)
  show "memory_state_as_str v = memory_state_as_str w \<Longrightarrow> v = w" by (cases v; cases w) simp_all
qed

fun state_priority :: "memory_state \<Rightarrow> nat" where
  "state_priority MsCore = 4"
| "state_priority MsValidated = 3"
| "state_priority MsHeld = 2"
| "state_priority MsTentative = 1"

datatype mutation_source_kind = SkTurn | SkOperator | SkLibrarian

definition mutation_source_kind_all :: "mutation_source_kind list" where
  "mutation_source_kind_all = [SkTurn, SkOperator, SkLibrarian]"

fun mutation_source_kind_as_str :: "mutation_source_kind \<Rightarrow> string" where
  "mutation_source_kind_as_str SkTurn = ''turn''"
| "mutation_source_kind_as_str SkOperator = ''operator''"
| "mutation_source_kind_as_str SkLibrarian = ''librarian''"

interpretation mutation_source_kind: str_enum mutation_source_kind_all mutation_source_kind_as_str
proof
  fix v w :: mutation_source_kind
  show "v \<in> set mutation_source_kind_all" by (cases v) (simp_all add: mutation_source_kind_all_def)
  show "mutation_source_kind_as_str v = mutation_source_kind_as_str w \<Longrightarrow> v = w" by (cases v; cases w) simp_all
qed

datatype mutation_kind = MuWrite | MuUpdate | MuForget

definition mutation_kind_all :: "mutation_kind list" where
  "mutation_kind_all = [MuWrite, MuUpdate, MuForget]"

fun mutation_kind_as_str :: "mutation_kind \<Rightarrow> string" where
  "mutation_kind_as_str MuWrite = ''write''"
| "mutation_kind_as_str MuUpdate = ''update''"
| "mutation_kind_as_str MuForget = ''forget''"

interpretation mutation_kind: str_enum mutation_kind_all mutation_kind_as_str
proof
  fix v w :: mutation_kind
  show "v \<in> set mutation_kind_all" by (cases v) (simp_all add: mutation_kind_all_def)
  show "mutation_kind_as_str v = mutation_kind_as_str w \<Longrightarrow> v = w" by (cases v; cases w) simp_all
qed

section \<open>Text, handles, limits of a recall\<close>

definition memory_content_try_from :: "string \<Rightarrow> (string, parse_error) result" where
  "memory_content_try_from raw =
     (if trim raw = [] then Inl (Empty ''memory_content'')
      else if length raw > MEMORY_CONTENT_MAX_BYTES
        then Inl (TooLong ''memory_content'' MEMORY_CONTENT_MAX_BYTES (length raw))
      else Inr raw)"

lemma memory_content_try_from_Inr:
  "memory_content_try_from raw = Inr c \<longleftrightarrow> c = raw \<and> trim raw \<noteq> [] \<and> length raw \<le> MEMORY_CONTENT_MAX_BYTES"
  by (auto simp: memory_content_try_from_def)

text \<open>A handle is its number, a \<open>u32\<close>; it is shown as \<open>M-n\<close>.\<close>

definition MEMORY_HANDLE_MAX :: nat where "MEMORY_HANDLE_MAX = 9999"

definition memory_handle_try_from :: "nat \<Rightarrow> (nat, parse_error) result" where
  "memory_handle_try_from n =
     (if n = 0 \<or> n > MEMORY_HANDLE_MAX then Inl (OutOfRange ''memory_handle'' ''1..=9999'') else Inr n)"

definition memory_handle_show :: "nat \<Rightarrow> string" where
  "memory_handle_show h = ''M-'' @ show_nat h"

definition memory_handle_parse :: "string \<Rightarrow> (nat, parse_error) result" where
  "memory_handle_parse raw =
     (if \<not> is_prefix ''M-'' raw then Inl (Malformed ''memory_handle'' ''expected `M-<n>` form'')
      else case parse_uint u32_max (drop 2 raw) of
             None \<Rightarrow> Inl (Malformed ''memory_handle'' ''non-numeric handle suffix'')
           | Some n \<Rightarrow> memory_handle_try_from n)"

lemma memory_handle_round_trip:
  "memory_handle_try_from n = Inr h \<Longrightarrow> memory_handle_parse (memory_handle_show h) = Inr h"
  by (auto simp: memory_handle_try_from_def memory_handle_parse_def memory_handle_show_def is_prefix_iff
      MEMORY_HANDLE_MAX_def u32_max_def parse_uint_show_nat split: if_splits)

lemma memory_handle_parse_bounds: "memory_handle_parse raw = Inr h \<Longrightarrow> 1 \<le> h \<and> h \<le> MEMORY_HANDLE_MAX"
  by (auto simp: memory_handle_parse_def memory_handle_try_from_def split: if_splits option.splits)

definition recall_limit_try_from :: "nat \<Rightarrow> (nat, parse_error) result" where
  "recall_limit_try_from n =
     (if n = 0 \<or> n > RECALL_MAX_RESULTS then Inl (OutOfRange ''recall_limit'' ''1..=RECALL_MAX_RESULTS'') else Inr n)"

definition resolution_reason_try_from :: "string \<Rightarrow> (string, parse_error) result" where
  "resolution_reason_try_from raw =
     (if length raw = 0 then Inl (Empty ''resolution_reason'')
      else if length raw > CONTRADICTION_REASON_MAX_BYTES
        then Inl (TooLong ''resolution_reason'' CONTRADICTION_REASON_MAX_BYTES (length raw))
      else Inr raw)"

definition memory_evidence_try_from :: "string \<Rightarrow> (string, parse_error) result" where
  "memory_evidence_try_from raw =
     (if length raw = 0 then Inl (Empty ''memory_evidence'')
      else if length raw > VALIDATION_EVIDENCE_MAX_BYTES
        then Inl (TooLong ''memory_evidence'' VALIDATION_EVIDENCE_MAX_BYTES (length raw))
      else Inr raw)"

section \<open>Where a change comes from\<close>

datatype mutation_source = SrcTurn uuid | SrcOperator | SrcLibrarian

fun source_kind :: "mutation_source \<Rightarrow> mutation_source_kind" where
  "source_kind (SrcTurn _) = SkTurn"
| "source_kind SrcOperator = SkOperator"
| "source_kind SrcLibrarian = SkLibrarian"

fun source_turn_id :: "mutation_source \<Rightarrow> uuid option" where
  "source_turn_id (SrcTurn i) = Some i"
| "source_turn_id _ = None"

definition bypasses_pin :: "mutation_source \<Rightarrow> bool" where
  "bypasses_pin s \<longleftrightarrow> s = SrcOperator"

datatype validation_source = VsExternalConfirmation | VsOperatorEndorsement

fun validation_source_as_str :: "validation_source \<Rightarrow> string" where
  "validation_source_as_str VsExternalConfirmation = ''external_confirmation''"
| "validation_source_as_str VsOperatorEndorsement = ''operator_endorsement''"

datatype validation_origin = VoAgent uuid | VoOperator

fun origin_source :: "validation_origin \<Rightarrow> validation_source" where
  "origin_source (VoAgent _) = VsExternalConfirmation"
| "origin_source VoOperator = VsOperatorEndorsement"

fun origin_mutation_source :: "validation_origin \<Rightarrow> mutation_source" where
  "origin_mutation_source (VoAgent i) = SrcTurn i"
| "origin_mutation_source VoOperator = SrcOperator"

end
