(* ===== verification/Memory_Store.thy ===== *)
theory Memory_Store
  imports Complex_Main Memory_Types Response_Hub "HOL-Library.Product_Lexorder"
begin

text \<open>
  The Postgres memory store (\<open>memory/store.rs\<close>, \<open>memory/pg_store.rs\<close>): the journal \<open>memory_events\<close>,
  the table \<open>agent_memories\<close> derived from it, the log of validations and the pairs the librarian
  flagged. A call is one transaction: an error leaves the tables as they were, so a call answers an
  error or a value with the tables after it; \<open>None\<close> is a panic. The ids a call mints are arguments;
  an embedding is its vector. Deleting a row of \<open>agent_memories\<close> deletes its validations
  (\<open>ON DELETE CASCADE\<close>, migration 9). Agents, colleagues and members are not changed by the store.
\<close>

section \<open>Tables\<close>

type_synonym embedding = "real list"

record memory_row =
  mr_id :: uuid
  mr_agent :: uuid
  mr_org :: uuid
  mr_kind :: memory_kind
  mr_content :: string
  mr_state :: memory_state
  mr_pinned :: bool
  mr_subject :: "uuid option"
  mr_source_turn :: "uuid option"
  mr_created_at :: timestamp
  mr_last_validated_at :: timestamp
  mr_last_accessed_at :: timestamp
  mr_access_count :: nat
  mr_embedding :: "embedding option"

datatype event_payload =
    PlWrite string memory_kind memory_state bool "uuid option"
  | PlUpdate string string memory_kind memory_state bool   \<comment> \<open>before, after\<close>
  | PlForget string

fun event_payload_kind :: "event_payload \<Rightarrow> mutation_kind" where
  "event_payload_kind (PlWrite _ _ _ _ _) = MuWrite"
| "event_payload_kind (PlUpdate _ _ _ _ _) = MuUpdate"
| "event_payload_kind (PlForget _) = MuForget"

record memory_event =
  ev_id :: uuid
  ev_agent :: uuid
  ev_org :: uuid
  ev_target :: uuid
  ev_source :: mutation_source
  ev_created_at :: timestamp
  ev_payload :: event_payload

record validation_event =
  ve_id :: uuid
  ve_agent :: uuid
  ve_org :: uuid
  ve_memory :: uuid
  ve_source :: validation_source
  ve_detail :: "string option"
  ve_created_at :: timestamp

record contradiction_row =
  ct_id :: uuid
  ct_agent :: uuid
  ct_org :: uuid
  ct_memory_a :: uuid
  ct_memory_b :: uuid
  ct_reason :: string
  ct_created_at :: timestamp
  ct_resolved_at :: "timestamp option"
  ct_resolution_event :: "uuid option"
  ct_resolution_reason :: "string option"

record memory_db =
  md_rows :: "memory_row list"
  md_events :: "memory_event list"
  md_validations :: "validation_event list"
  md_contradictions :: "contradiction_row list"
  md_agent_org :: "uuid \<rightharpoonup> uuid"
  md_colleague_org :: "uuid \<rightharpoonup> uuid"
  md_members :: "(uuid \<times> uuid) list"

datatype memory_store_error =
    MemNotFound uuid
  | MemEventNotFound uuid
  | ContradictionNotFound uuid
  | WrongAgent uuid uuid
  | PinnedImmutable uuid
  | SubjectRequiredForCollaborator
  | SubjectNotInOrg uuid
  | MemParse parse_error
  | MemDb db_error
  | MemBackend string
  | MemProvider string

text \<open>What a transaction sees of the rows of an organisation, and of an agent's own row.\<close>

definition memory_sees :: "memory_db \<Rightarrow> db_actor \<Rightarrow> uuid \<Rightarrow> bool" where
  "memory_sees db actor org =
     (case actor of Privileged \<Rightarrow> True | ActingUser u \<Rightarrow> (u, org) \<in> set (md_members db))"

definition agent_org :: "memory_db \<Rightarrow> db_actor \<Rightarrow> uuid \<Rightarrow> uuid option" where
  "agent_org db actor agent =
     (case md_agent_org db agent of
        None \<Rightarrow> None
      | Some org \<Rightarrow> if memory_sees db actor org then Some org else None)"

section \<open>Statements\<close>

definition decode_memory_row :: "memory_row \<Rightarrow> (memory_row, memory_store_error) result" where
  "decode_memory_row r =
     (case memory_content_try_from (mr_content r) of Inl e \<Rightarrow> Inl (MemParse e) | Inr _ \<Rightarrow> Inr r)"

fun payload_contents :: "event_payload \<Rightarrow> string list" where
  "payload_contents (PlWrite c _ _ _ _) = [c]"
| "payload_contents (PlUpdate before after _ _ _) = [before, after]"
| "payload_contents (PlForget before) = [before]"

fun first_parse_error :: "string list \<Rightarrow> parse_error option" where
  "first_parse_error [] = None"
| "first_parse_error (c # cs) =
     (case memory_content_try_from c of Inl e \<Rightarrow> Some e | Inr _ \<Rightarrow> first_parse_error cs)"

definition decode_memory_event :: "memory_event \<Rightarrow> (memory_event, memory_store_error) result" where
  "decode_memory_event e =
     (case first_parse_error (payload_contents (ev_payload e)) of Some p \<Rightarrow> Inl (MemParse p) | None \<Rightarrow> Inr e)"

fun payload_admitted :: "event_payload \<Rightarrow> bool" where
  "payload_admitted (PlWrite _ k _ _ subject) \<longleftrightarrow> subject = None \<or> k = MkCollaborator"
| "payload_admitted _ \<longleftrightarrow> True"

text \<open>
  The parity trigger reads the parent agent under the policies of the transaction: an agent it cannot
  see is a missing agent. The checks on the shape of an event hold by the constructors.
\<close>

definition insert_event ::
  "memory_db \<Rightarrow> db_actor \<Rightarrow> uuid \<Rightarrow> uuid \<Rightarrow> uuid \<Rightarrow> mutation_source \<Rightarrow> timestamp \<Rightarrow> event_payload
   \<Rightarrow> (memory_db, memory_store_error) result" where
  "insert_event db actor event agent target source now payload =
     (case agent_org db actor agent of
        None \<Rightarrow> Inl (MemDb RaisedException)
      | Some org \<Rightarrow>
          if \<not> payload_admitted payload then Inl (MemDb CheckViolation)
          else Inr (db\<lparr>md_events := md_events db @ [\<lparr>ev_id = event, ev_agent = agent, ev_org = org, ev_target = target,
                  ev_source = source, ev_created_at = now, ev_payload = payload\<rparr>]\<rparr>))"

definition delete_rows :: "memory_db \<Rightarrow> (memory_row \<Rightarrow> bool) \<Rightarrow> memory_db" where
  "delete_rows db p =
     db\<lparr>md_rows := filter (\<lambda>r. \<not> p r) (md_rows db),
        md_validations := filter (\<lambda>v. \<forall>r \<in> set (md_rows db). mr_id r = ve_memory v \<longrightarrow> \<not> p r) (md_validations db)\<rparr>"

definition fresh_row ::
  "uuid \<Rightarrow> uuid \<Rightarrow> uuid \<Rightarrow> string \<Rightarrow> memory_kind \<Rightarrow> memory_state \<Rightarrow> bool \<Rightarrow> uuid option \<Rightarrow> uuid option
   \<Rightarrow> timestamp \<Rightarrow> embedding option \<Rightarrow> memory_row" where
  "fresh_row i agent org content k state pinned subject turn now emb =
     \<lparr>mr_id = i, mr_agent = agent, mr_org = org, mr_kind = k, mr_content = content, mr_state = state,
      mr_pinned = pinned, mr_subject = subject, mr_source_turn = turn, mr_created_at = now,
      mr_last_validated_at = now, mr_last_accessed_at = now, mr_access_count = 0, mr_embedding = emb\<rparr>"

text \<open>\<open>lock_existing\<close>: the row with its owner and its pin checked.\<close>

definition lock_existing ::
  "memory_db \<Rightarrow> db_actor \<Rightarrow> uuid \<Rightarrow> uuid \<Rightarrow> mutation_source \<Rightarrow> (memory_row, memory_store_error) result" where
  "lock_existing db actor agent target source =
     (case find (\<lambda>r. mr_id r = target \<and> memory_sees db actor (mr_org r)) (md_rows db) of
        None \<Rightarrow> Inl (MemNotFound target)
      | Some row \<Rightarrow>
          (case decode_memory_row row of
             Inl e \<Rightarrow> Inl e
           | Inr r \<Rightarrow>
               if mr_agent r \<noteq> agent then Inl (WrongAgent target agent)
               else if mr_pinned r \<and> \<not> bypasses_pin source then Inl (PinnedImmutable target)
               else Inr r))"

section \<open>Mutations\<close>

datatype memory_mutation =
    MWrite uuid memory_kind string memory_state bool "uuid option" mutation_source
  | MUpdate uuid uuid string memory_state mutation_source   \<comment> \<open>agent, target\<close>
  | MForget uuid uuid mutation_source

fun mutation_agent :: "memory_mutation \<Rightarrow> uuid" where
  "mutation_agent (MWrite agent _ _ _ _ _ _) = agent"
| "mutation_agent (MUpdate agent _ _ _ _) = agent"
| "mutation_agent (MForget agent _ _) = agent"

fun mutation_source_of :: "memory_mutation \<Rightarrow> mutation_source" where
  "mutation_source_of (MWrite _ _ _ _ _ _ source) = source"
| "mutation_source_of (MUpdate _ _ _ _ source) = source"
| "mutation_source_of (MForget _ _ source) = source"

fun mutation_kind_of :: "memory_mutation \<Rightarrow> mutation_kind" where
  "mutation_kind_of (MWrite _ _ _ _ _ _ _) = MuWrite"
| "mutation_kind_of (MUpdate _ _ _ _ _) = MuUpdate"
| "mutation_kind_of (MForget _ _ _) = MuForget"

text \<open>\<open>None\<close> is the assertion that only a collaborator memory carries a subject.\<close>

fun ensure_subject_consistency :: "memory_mutation \<Rightarrow> (unit, memory_store_error) result option" where
  "ensure_subject_consistency (MWrite _ k _ _ _ subject _) =
     (if k = MkCollaborator \<and> subject = None then Some (Inl SubjectRequiredForCollaborator)
      else if k = MkCollaborator \<or> subject = None then Some (Inr ())
      else None)"
| "ensure_subject_consistency _ = Some (Inr ())"

record mutation_outcome =
  mo_event :: uuid
  mo_memory :: uuid
  mo_row :: "memory_row option"

definition subject_in_org :: "memory_db \<Rightarrow> db_actor \<Rightarrow> uuid \<Rightarrow> uuid \<Rightarrow> bool" where
  "subject_in_org db actor agent s =
     (case agent_org db actor agent of None \<Rightarrow> False | Some org \<Rightarrow> md_colleague_org db s = Some org)"

definition apply_write ::
  "memory_db \<Rightarrow> db_actor \<Rightarrow> timestamp \<Rightarrow> uuid \<Rightarrow> uuid \<Rightarrow> uuid \<Rightarrow> memory_kind \<Rightarrow> string \<Rightarrow> memory_state \<Rightarrow> bool
   \<Rightarrow> uuid option \<Rightarrow> mutation_source \<Rightarrow> embedding \<Rightarrow> (mutation_outcome \<times> memory_db, memory_store_error) result" where
  "apply_write db actor now memory event agent k content state pinned subject source emb =
     (case (case subject of None \<Rightarrow> None | Some s \<Rightarrow> if subject_in_org db actor agent s then None else Some s) of
        Some s \<Rightarrow> Inl (SubjectNotInOrg s)
      | None \<Rightarrow>
          (case insert_event db actor event agent memory source now (PlWrite content k state pinned subject) of
             Inl e \<Rightarrow> Inl e
           | Inr db1 \<Rightarrow>
               (case agent_org db1 actor agent of
                  None \<Rightarrow> Inl (MemDb RaisedException)
                | Some org \<Rightarrow>
                    if memory \<in> mr_id ` set (md_rows db1) then Inl (MemDb UniqueViolation)
                    else let row = fresh_row memory agent org content k state pinned subject (source_turn_id source) now (Some emb) in
                      Inr (\<lparr>mo_event = event, mo_memory = memory, mo_row = Some row\<rparr>,
                           db1\<lparr>md_rows := md_rows db1 @ [row]\<rparr>))))"

definition set_row :: "memory_db \<Rightarrow> uuid \<Rightarrow> (memory_row \<Rightarrow> memory_row) \<Rightarrow> memory_db" where
  "set_row db target f = db\<lparr>md_rows := update_where (\<lambda>r. mr_id r = target) f (md_rows db)\<rparr>"

definition apply_update ::
  "memory_db \<Rightarrow> db_actor \<Rightarrow> timestamp \<Rightarrow> uuid \<Rightarrow> uuid \<Rightarrow> uuid \<Rightarrow> string \<Rightarrow> memory_state \<Rightarrow> mutation_source \<Rightarrow> embedding
   \<Rightarrow> (mutation_outcome \<times> memory_db, memory_store_error) result" where
  "apply_update db actor now event agent target content state source emb =
     (case lock_existing db actor agent target source of
        Inl e \<Rightarrow> Inl e
      | Inr prior \<Rightarrow>
          (case insert_event db actor event agent target source now
                  (PlUpdate (mr_content prior) content (mr_kind prior) state (mr_pinned prior)) of
             Inl e \<Rightarrow> Inl e
           | Inr db1 \<Rightarrow>
               (let f = (\<lambda>r. r\<lparr>mr_content := content, mr_state := state, mr_embedding := Some emb\<rparr>) in
                Inr (\<lparr>mo_event = event, mo_memory = target, mo_row = Some (f prior)\<rparr>, set_row db1 target f))))"

definition apply_forget ::
  "memory_db \<Rightarrow> db_actor \<Rightarrow> timestamp \<Rightarrow> uuid \<Rightarrow> uuid \<Rightarrow> uuid \<Rightarrow> mutation_source
   \<Rightarrow> (mutation_outcome \<times> memory_db, memory_store_error) result" where
  "apply_forget db actor now event agent target source =
     (case lock_existing db actor agent target source of
        Inl e \<Rightarrow> Inl e
      | Inr prior \<Rightarrow>
          (case insert_event db actor event agent target source now (PlForget (mr_content prior)) of
             Inl e \<Rightarrow> Inl e
           | Inr db1 \<Rightarrow>
               Inr (\<lparr>mo_event = event, mo_memory = target, mo_row = None\<rparr>, delete_rows db1 (\<lambda>r. mr_id r = target))))"

text \<open>
  \<open>apply\<close> is this with \<open>Privileged\<close>, \<open>apply_for_user\<close> with the acting user. \<open>embedder\<close> is the embedding
  service; a forget does not call it.
\<close>

definition apply_as ::
  "(string \<Rightarrow> (embedding, string) result) \<Rightarrow> memory_db \<Rightarrow> db_actor \<Rightarrow> timestamp \<Rightarrow> uuid \<Rightarrow> uuid \<Rightarrow> memory_mutation
   \<Rightarrow> (mutation_outcome \<times> memory_db, memory_store_error) result option" where
  "apply_as embedder db actor now memory event m =
     (case ensure_subject_consistency m of
        None \<Rightarrow> None
      | Some (Inl e) \<Rightarrow> Some (Inl e)
      | Some (Inr _) \<Rightarrow> Some
          (case m of
             MWrite agent k content state pinned subject source \<Rightarrow>
               (case embedder content of
                  Inl e \<Rightarrow> Inl (MemProvider e)
                | Inr emb \<Rightarrow> apply_write db actor now memory event agent k content state pinned subject source emb)
           | MUpdate agent target content state source \<Rightarrow>
               (case embedder content of
                  Inl e \<Rightarrow> Inl (MemProvider e)
                | Inr emb \<Rightarrow> apply_update db actor now event agent target content state source emb)
           | MForget agent target source \<Rightarrow> apply_forget db actor now event agent target source))"

end
