(* ===== verification/Memory_Lifecycle.thy ===== *)
theory Memory_Lifecycle
  imports Memory_Store
begin

text \<open>
  The rest of the memory store (\<open>memory/pg_store.rs\<close>): its reads, the replay of the journal, the
  operator's revert and pin, the validation clock, the sweeps the librarian runs, and the
  contradictions it files. \<open>mint\<close> gives the ids of the events a sweep appends.
\<close>

section \<open>Reads\<close>

fun decode_all :: "('r \<Rightarrow> ('a, 'e) result) \<Rightarrow> 'r list \<Rightarrow> ('a list, 'e) result" where
  "decode_all f [] = Inr []"
| "decode_all f (r # rs) =
     (case f r of Inl e \<Rightarrow> Inl e | Inr x \<Rightarrow> (case decode_all f rs of Inl e \<Rightarrow> Inl e | Inr xs \<Rightarrow> Inr (x # xs)))"

text \<open>One row past the cap is read so that the assertion (\<open>None\<close>) sees an agent above it.\<close>

definition capped_rows :: "memory_row list \<Rightarrow> (memory_row list, memory_store_error) result option" where
  "capped_rows rows =
     (let page = take (MAX_MEMORIES_PER_AGENT + 1) rows in
      if length page > MAX_MEMORIES_PER_AGENT then None else Some (decode_all decode_memory_row page))"

definition list_memories :: "memory_db \<Rightarrow> uuid \<Rightarrow> (memory_row list, memory_store_error) result option" where
  "list_memories db agent =
     capped_rows (sort_key (\<lambda>r. (mr_created_at r, mr_id r)) (filter (\<lambda>r. mr_agent r = agent) (md_rows db)))"

definition collaborator_memories_for_subjects ::
  "nat \<Rightarrow> memory_db \<Rightarrow> uuid \<Rightarrow> uuid list \<Rightarrow> (memory_row list, memory_store_error) result option" where
  "collaborator_memories_for_subjects max_participants db agent subjects =
     (if subjects = [] then Some (Inr [])
      else if length subjects > max_participants then None
      else capped_rows (rev (sort_key (\<lambda>r. (mr_created_at r, mr_id r))
             (filter (\<lambda>r. mr_agent r = agent \<and> mr_kind r = MkCollaborator
                        \<and> (case mr_subject r of None \<Rightarrow> False | Some s \<Rightarrow> s \<in> set subjects)) (md_rows db)))))"

definition get_memory :: "memory_db \<Rightarrow> uuid \<Rightarrow> (memory_row option, memory_store_error) result" where
  "get_memory db i =
     (case find (\<lambda>r. mr_id r = i) (md_rows db) of
        None \<Rightarrow> Inr None
      | Some row \<Rightarrow> (case decode_memory_row row of Inl e \<Rightarrow> Inl e | Inr r \<Rightarrow> Inr (Some r)))"

definition journal_of :: "memory_db \<Rightarrow> uuid \<Rightarrow> memory_event list" where
  "journal_of db agent = sort_key (\<lambda>e. (ev_created_at e, ev_id e)) (filter (\<lambda>e. ev_agent e = agent) (md_events db))"

definition list_events :: "memory_db \<Rightarrow> uuid \<Rightarrow> (memory_event list, memory_store_error) result" where
  "list_events db agent = decode_all decode_memory_event (take MAX_EVENTS_PER_PAGE (journal_of db agent))"

text \<open>\<open>distance\<close> is the cosine distance of pgvector, \<open>narrow\<close> the rounding of its \<open>f64\<close> to \<open>f32\<close>.\<close>

record search_filter =
  sf_kinds :: "memory_kind list option"
  sf_min_state :: "memory_state option"

definition filter_admits :: "search_filter \<Rightarrow> memory_row \<Rightarrow> bool" where
  "filter_admits sf r \<longleftrightarrow>
     (case sf_kinds sf of None \<Rightarrow> True | Some ks \<Rightarrow> ks = [] \<or> mr_kind r \<in> set ks)
     \<and> (case sf_min_state sf of None \<Rightarrow> True | Some s \<Rightarrow> state_priority (mr_state r) \<ge> state_priority s)"

definition search_by_embedding ::
  "(embedding \<Rightarrow> embedding \<Rightarrow> real) \<Rightarrow> (real \<Rightarrow> real) \<Rightarrow> memory_db \<Rightarrow> uuid \<Rightarrow> embedding \<Rightarrow> nat \<Rightarrow> search_filter
   \<Rightarrow> ((memory_row \<times> real) list, memory_store_error) result" where
  "search_by_embedding distance narrow db agent query k sf =
     (if query = [] \<or> k = 0 then Inr []
      else decode_all (\<lambda>(d, r). case decode_memory_row r of Inl e \<Rightarrow> Inl e | Inr r \<Rightarrow> Inr (r, narrow (1 - d)))
        (take (min k MAX_MEMORIES_PER_AGENT)
          (sort_key fst
            (concat (map (\<lambda>r. case mr_embedding r of None \<Rightarrow> [] | Some v \<Rightarrow> [(distance v query, r)])
              (filter (\<lambda>r. mr_agent r = agent \<and> filter_admits sf r) (md_rows db)))))))"

record pair_candidate =
  pc_a :: memory_row
  pc_b :: memory_row
  pc_similarity :: real

definition close_pairs ::
  "(embedding \<Rightarrow> embedding \<Rightarrow> real) \<Rightarrow> real \<Rightarrow> memory_row list \<Rightarrow> (real \<times> memory_row \<times> memory_row) list" where
  "close_pairs distance threshold base =
     concat (map (\<lambda>a. concat (map (\<lambda>b.
         case (mr_embedding a, mr_embedding b) of
           (Some v, Some w) \<Rightarrow> if mr_id a < mr_id b \<and> 1 - distance v w \<ge> threshold then [(1 - distance v w, a, b)] else []
         | _ \<Rightarrow> []) base)) base)"

definition similar_pairs ::
  "(embedding \<Rightarrow> embedding \<Rightarrow> real) \<Rightarrow> (real \<Rightarrow> real) \<Rightarrow> memory_db \<Rightarrow> uuid \<Rightarrow> real \<Rightarrow> nat
   \<Rightarrow> (pair_candidate list, memory_store_error) result" where
  "similar_pairs distance narrow db agent threshold max_pairs =
     decode_all (\<lambda>(s, a, b). case (decode_memory_row a, decode_memory_row b) of
           (Inl e, _) \<Rightarrow> Inl e | (_, Inl e) \<Rightarrow> Inl e
         | (Inr a, Inr b) \<Rightarrow> Inr \<lparr>pc_a = a, pc_b = b, pc_similarity = narrow s\<rparr>)
       (take (min max_pairs MAX_SIMILAR_PAIRS_PER_AGENT)
         (sort_key (\<lambda>(s, a, b). - s) (close_pairs distance threshold (filter (\<lambda>r. mr_agent r = agent) (md_rows db)))))"

section \<open>Replaying the journal\<close>

definition apply_replay :: "uuid \<Rightarrow> memory_db \<Rightarrow> memory_event \<Rightarrow> (memory_db, memory_store_error) result" where
  "apply_replay agent db e =
     (case ev_payload e of
        PlWrite content k state pinned subject \<Rightarrow>
          (case md_agent_org db agent of
             None \<Rightarrow> Inl (MemDb RaisedException)
           | Some org \<Rightarrow>
               if ev_target e \<in> mr_id ` set (md_rows db) then Inl (MemDb UniqueViolation)
               else Inr (db\<lparr>md_rows := md_rows db @ [fresh_row (ev_target e) agent org content k state pinned subject
                      (source_turn_id (ev_source e)) (ev_created_at e) None]\<rparr>))
      | PlUpdate before after k state pinned \<Rightarrow>
          Inr (set_row db (ev_target e) (\<lambda>r. r\<lparr>mr_content := after, mr_state := state, mr_pinned := pinned\<rparr>))
      | PlForget before \<Rightarrow> Inr (delete_rows db (\<lambda>r. mr_id r = ev_target e)))"

fun replay_events :: "uuid \<Rightarrow> memory_db \<Rightarrow> memory_event list \<Rightarrow> (memory_db, memory_store_error) result" where
  "replay_events agent db [] = Inr db"
| "replay_events agent db (e # es) =
     (case decode_memory_event e of
        Inl x \<Rightarrow> Inl x
      | Inr e \<Rightarrow> (case apply_replay agent db e of Inl x \<Rightarrow> Inl x | Inr db' \<Rightarrow> replay_events agent db' es))"

definition restore_embeddings :: "(uuid \<times> embedding) list \<Rightarrow> memory_row list \<Rightarrow> memory_row list" where
  "restore_embeddings snapshot rows =
     fold (\<lambda>(i, v). update_where (\<lambda>r. mr_id r = i) (\<lambda>r. r\<lparr>mr_embedding := Some v\<rparr>)) snapshot rows"

definition embedding_snapshot :: "memory_db \<Rightarrow> uuid \<Rightarrow> (uuid \<times> embedding) list" where
  "embedding_snapshot db agent =
     concat (map (\<lambda>r. case mr_embedding r of None \<Rightarrow> [] | Some v \<Rightarrow> [(mr_id r, v)])
       (filter (\<lambda>r. mr_agent r = agent) (md_rows db)))"

definition rebuild_materialized :: "memory_db \<Rightarrow> uuid \<Rightarrow> (memory_db, memory_store_error) result" where
  "rebuild_materialized db agent =
     (case replay_events agent (delete_rows db (\<lambda>r. mr_agent r = agent)) (journal_of db agent) of
        Inl e \<Rightarrow> Inl e
      | Inr db' \<Rightarrow> Inr (db'\<lparr>md_rows := restore_embeddings (embedding_snapshot db agent) (md_rows db')\<rparr>))"

section \<open>Sweeps of the librarian\<close>

text \<open>The loop \<open>decay_validated\<close> and \<open>mature_tentative\<close> share: journal the row as held, then hold it.\<close>

fun hold_rows ::
  "memory_db \<Rightarrow> timestamp \<Rightarrow> (nat \<Rightarrow> uuid) \<Rightarrow> nat \<Rightarrow> memory_row list \<Rightarrow> (nat \<times> memory_db, memory_store_error) result" where
  "hold_rows db now mint n [] = Inr (n, db)"
| "hold_rows db now mint n (row # rows) =
     (case decode_memory_row row of
        Inl e \<Rightarrow> Inl e
      | Inr r \<Rightarrow>
          (case insert_event db Privileged (mint n) (mr_agent r) (mr_id r) SrcLibrarian now
                  (PlUpdate (mr_content r) (mr_content r) (mr_kind r) MsHeld (mr_pinned r)) of
             Inl e \<Rightarrow> Inl e
           | Inr db1 \<Rightarrow> hold_rows (set_row db1 (mr_id r) (\<lambda>r. r\<lparr>mr_state := MsHeld\<rparr>)) now mint (n + 1) rows))"

definition decay_validated ::
  "memory_db \<Rightarrow> timestamp \<Rightarrow> (nat \<Rightarrow> uuid) \<Rightarrow> uuid \<Rightarrow> timestamp \<Rightarrow> (nat \<times> memory_db, memory_store_error) result" where
  "decay_validated db now mint agent cutoff =
     hold_rows db now mint 0
       (filter (\<lambda>r. mr_agent r = agent \<and> mr_state r = MsValidated \<and> \<not> mr_pinned r \<and> mr_last_validated_at r < cutoff)
         (md_rows db))"

definition contested :: "memory_db \<Rightarrow> uuid \<Rightarrow> bool" where
  "contested db i \<longleftrightarrow>
     (\<exists>c \<in> set (md_contradictions db). ct_resolved_at c = None \<and> (ct_memory_a c = i \<or> ct_memory_b c = i))"

definition mature_tentative ::
  "memory_db \<Rightarrow> timestamp \<Rightarrow> (nat \<Rightarrow> uuid) \<Rightarrow> uuid \<Rightarrow> timestamp \<Rightarrow> (nat \<times> memory_db, memory_store_error) result" where
  "mature_tentative db now mint agent cutoff =
     hold_rows db now mint 0
       (filter (\<lambda>r. mr_agent r = agent \<and> mr_state r = MsTentative \<and> \<not> mr_pinned r \<and> mr_created_at r < cutoff
                  \<and> \<not> contested db (mr_id r))
         (md_rows db))"

fun forget_rows ::
  "memory_db \<Rightarrow> timestamp \<Rightarrow> (nat \<Rightarrow> uuid) \<Rightarrow> nat \<Rightarrow> uuid \<Rightarrow> memory_row list \<Rightarrow> (uuid list \<times> memory_db, memory_store_error) result" where
  "forget_rows db now mint n agent [] = Inr ([], db)"
| "forget_rows db now mint n agent (row # rows) =
     (case decode_memory_row row of
        Inl e \<Rightarrow> Inl e
      | Inr r \<Rightarrow>
          (case insert_event db Privileged (mint n) agent (mr_id r) SrcLibrarian now (PlForget (mr_content r)) of
             Inl e \<Rightarrow> Inl e
           | Inr db1 \<Rightarrow>
               (case forget_rows (delete_rows db1 (\<lambda>s. mr_id s = mr_id r)) now mint (n + 1) agent rows of
                  Inl e \<Rightarrow> Inl e
                | Inr (ids, db2) \<Rightarrow> Inr (mr_id r # ids, db2))))"

definition eviction_key :: "memory_row \<Rightarrow> nat \<times> timestamp \<times> nat" where
  "eviction_key r = (state_priority (mr_state r), mr_last_accessed_at r, mr_access_count r)"

definition evict_overflow ::
  "memory_db \<Rightarrow> timestamp \<Rightarrow> (nat \<Rightarrow> uuid) \<Rightarrow> uuid \<Rightarrow> nat \<Rightarrow> (uuid list \<times> memory_db, memory_store_error) result" where
  "evict_overflow db now mint agent quota =
     (let held = length (filter (\<lambda>r. mr_agent r = agent) (md_rows db)) in
      if held \<le> quota then Inr ([], db)
      else forget_rows db now mint 0 agent
        (take (held - quota) (sort_key eviction_key (filter (\<lambda>r. mr_agent r = agent \<and> \<not> mr_pinned r) (md_rows db)))))"

section \<open>Validation and access\<close>

fun validated_state :: "memory_state \<Rightarrow> memory_state" where
  "validated_state MsTentative = MsHeld"
| "validated_state MsHeld = MsValidated"
| "validated_state s = s"

definition record_validation_as ::
  "memory_db \<Rightarrow> db_actor \<Rightarrow> timestamp \<Rightarrow> uuid \<Rightarrow> uuid \<Rightarrow> uuid \<Rightarrow> uuid \<Rightarrow> validation_origin \<Rightarrow> string option
   \<Rightarrow> (memory_row \<times> memory_db, memory_store_error) result" where
  "record_validation_as db actor now validation event agent memory origin detail =
     (case lock_existing db actor agent memory (origin_mutation_source origin) of
        Inl e \<Rightarrow> Inl e
      | Inr prior \<Rightarrow>
          (case agent_org db actor agent of
             None \<Rightarrow> Inl (MemDb RaisedException)
           | Some org \<Rightarrow>
               if (case detail of None \<Rightarrow> False | Some d \<Rightarrow> length d = 0 \<or> length d > VALIDATION_EVIDENCE_MAX_BYTES)
               then Inl (MemDb CheckViolation)
               else let db1 = db\<lparr>md_validations := md_validations db @ [\<lparr>ve_id = validation, ve_agent = agent, ve_org = org,
                          ve_memory = memory, ve_source = origin_source origin, ve_detail = detail, ve_created_at = now\<rparr>]\<rparr>;
                        state = validated_state (mr_state prior) in
                 (case insert_event db1 actor event agent memory (origin_mutation_source origin) now
                         (PlUpdate (mr_content prior) (mr_content prior) (mr_kind prior) state (mr_pinned prior)) of
                    Inl e \<Rightarrow> Inl e
                  | Inr db2 \<Rightarrow>
                      (let f = (\<lambda>r. r\<lparr>mr_state := state, mr_last_validated_at := now\<rparr>) in
                       Inr (f prior, set_row db2 memory f)))))"

text \<open>\<open>None\<close> is the assertion on the size of the batch.\<close>

definition record_access_as :: "memory_db \<Rightarrow> db_actor \<Rightarrow> timestamp \<Rightarrow> uuid list \<Rightarrow> memory_db option" where
  "record_access_as db actor now ids =
     (if ids = [] then Some db
      else if length ids > MAX_MEMORIES_PER_AGENT then None
      else Some (db\<lparr>md_rows := update_where (\<lambda>r. mr_id r \<in> set ids \<and> memory_sees db actor (mr_org r))
             (\<lambda>r. r\<lparr>mr_last_accessed_at := now, mr_access_count := mr_access_count r + 1\<rparr>) (md_rows db)\<rparr>))"

section \<open>Contradictions\<close>

definition unresolved_pair :: "uuid \<Rightarrow> uuid \<Rightarrow> uuid \<Rightarrow> contradiction_row \<Rightarrow> bool" where
  "unresolved_pair agent lo hi c \<longleftrightarrow>
     ct_agent c = agent \<and> ct_memory_a c = lo \<and> ct_memory_b c = hi \<and> ct_resolved_at c = None"

definition record_contradiction ::
  "memory_db \<Rightarrow> timestamp \<Rightarrow> uuid \<Rightarrow> uuid \<Rightarrow> uuid \<Rightarrow> uuid \<Rightarrow> string \<Rightarrow> (uuid \<times> memory_db, memory_store_error) result" where
  "record_contradiction db now new agent a b reason =
     (let lo = (if a < b then a else b); hi = (if a < b then b else a) in
      case first_min_by (\<lambda>c. - ct_created_at c) (filter (unresolved_pair agent lo hi) (md_contradictions db)) of
        Some c \<Rightarrow> Inr (ct_id c, db)
      | None \<Rightarrow>
          (case md_agent_org db agent of
             None \<Rightarrow> Inl (MemDb RaisedException)
           | Some org \<Rightarrow>
               if lo = hi \<or> length reason = 0 \<or> length reason > CONTRADICTION_REASON_MAX_BYTES
               then Inl (MemDb CheckViolation)
               else Inr (new, db\<lparr>md_contradictions := md_contradictions db @ [\<lparr>ct_id = new, ct_agent = agent, ct_org = org,
                      ct_memory_a = lo, ct_memory_b = hi, ct_reason = reason, ct_created_at = now, ct_resolved_at = None,
                      ct_resolution_event = None, ct_resolution_reason = None\<rparr>]\<rparr>)))"

definition unresolved_contradictions :: "memory_db \<Rightarrow> uuid \<Rightarrow> contradiction_row list" where
  "unresolved_contradictions db agent =
     take MAX_SIMILAR_PAIRS_PER_AGENT (sort_key ct_created_at
       (filter (\<lambda>c. ct_agent c = agent \<and> ct_resolved_at c = None) (md_contradictions db)))"

definition read_contradiction :: "memory_db \<Rightarrow> uuid \<Rightarrow> contradiction_row option" where
  "read_contradiction db i = find (\<lambda>c. ct_id c = i) (md_contradictions db)"

datatype resolution_outcome = ResMutation uuid | ResNoAction string

definition resolve_contradiction_as ::
  "memory_db \<Rightarrow> db_actor \<Rightarrow> timestamp \<Rightarrow> uuid \<Rightarrow> resolution_outcome \<Rightarrow> (memory_db, memory_store_error) result" where
  "resolve_contradiction_as db actor now i res =
     (let visible = (\<lambda>c. ct_id c = i \<and> memory_sees db actor (ct_org c));
          close = (\<lambda>c. c\<lparr>ct_resolved_at := Some now,
             ct_resolution_event := (case res of ResMutation e \<Rightarrow> Some e | ResNoAction _ \<Rightarrow> None),
             ct_resolution_reason := (case res of ResMutation _ \<Rightarrow> None | ResNoAction t \<Rightarrow> Some t)\<rparr>) in
      if \<exists>c \<in> set (md_contradictions db). visible c \<and> ct_resolved_at c = None
      then Inr (db\<lparr>md_contradictions := update_where (\<lambda>c. visible c \<and> ct_resolved_at c = None) close (md_contradictions db)\<rparr>)
      else if \<exists>c \<in> set (md_contradictions db). visible c then Inr db
      else Inl (ContradictionNotFound i))"

section \<open>The operator's revert and pin\<close>

definition set_pinned ::
  "memory_db \<Rightarrow> timestamp \<Rightarrow> uuid \<Rightarrow> uuid \<Rightarrow> uuid \<Rightarrow> bool \<Rightarrow> (memory_row \<times> memory_db, memory_store_error) result" where
  "set_pinned db now event agent memory pinned =
     (case lock_existing db Privileged agent memory SrcOperator of
        Inl e \<Rightarrow> Inl e
      | Inr prior \<Rightarrow>
          (case insert_event db Privileged event agent memory SrcOperator now
                  (PlUpdate (mr_content prior) (mr_content prior) (mr_kind prior) (mr_state prior) pinned) of
             Inl e \<Rightarrow> Inl e
           | Inr db1 \<Rightarrow> Inr (prior\<lparr>mr_pinned := pinned\<rparr>, set_row db1 memory (\<lambda>r. r\<lparr>mr_pinned := pinned\<rparr>))))"

definition load_event :: "memory_db \<Rightarrow> uuid \<Rightarrow> uuid \<Rightarrow> (memory_event, memory_store_error) result" where
  "load_event db agent event =
     (case find (\<lambda>e. ev_id e = event \<and> ev_agent e = agent) (md_events db) of
        None \<Rightarrow> Inl (MemEventNotFound event)
      | Some e \<Rightarrow> decode_memory_event e)"

fun payload_attrs :: "event_payload \<Rightarrow> (memory_kind \<times> memory_state \<times> bool) option" where
  "payload_attrs (PlWrite _ k state pinned _) = Some (k, state, pinned)"
| "payload_attrs (PlUpdate _ _ k state pinned) = Some (k, state, pinned)"
| "payload_attrs (PlForget _) = None"

fun payload_subject :: "event_payload \<Rightarrow> uuid option" where
  "payload_subject (PlWrite _ _ _ _ subject) = subject"
| "payload_subject _ = None"

record restored_attrs =
  ra_kind :: memory_kind
  ra_state :: memory_state
  ra_pinned :: bool
  ra_subject :: "uuid option"

text \<open>\<open>ORDER BY created_at DESC, id DESC LIMIT 1\<close>.\<close>

definition latest_event :: "memory_db \<Rightarrow> (memory_event \<Rightarrow> bool) \<Rightarrow> memory_event option" where
  "latest_event db p =
     (case rev (sort_key (\<lambda>e. (ev_created_at e, ev_id e)) (filter p (md_events db))) of [] \<Rightarrow> None | e # _ \<Rightarrow> Some e)"

definition restore_attrs_for :: "memory_db \<Rightarrow> uuid \<Rightarrow> uuid \<Rightarrow> (restored_attrs, memory_store_error) result" where
  "restore_attrs_for db agent target =
     (case latest_event db (\<lambda>e. ev_agent e = agent \<and> ev_target e = target \<and> payload_attrs (ev_payload e) \<noteq> None) of
        None \<Rightarrow> Inl (MemNotFound target)
      | Some e \<Rightarrow>
          (case payload_attrs (ev_payload e) of
             None \<Rightarrow> Inl (MemNotFound target)
           | Some (k, state, pinned) \<Rightarrow>
               Inr \<lparr>ra_kind = k, ra_state = state, ra_pinned = pinned,
                 ra_subject = (case latest_event db (\<lambda>e. ev_agent e = agent \<and> ev_target e = target
                                      \<and> event_payload_kind (ev_payload e) = MuWrite) of
                     None \<Rightarrow> None | Some w \<Rightarrow> payload_subject (ev_payload w))\<rparr>))"

definition revert_write ::
  "memory_db \<Rightarrow> timestamp \<Rightarrow> uuid \<Rightarrow> uuid \<Rightarrow> uuid \<Rightarrow> (memory_db, memory_store_error) result" where
  "revert_write db now undo agent target =
     (case lock_existing db Privileged agent target SrcOperator of
        Inl e \<Rightarrow> Inl e
      | Inr prior \<Rightarrow>
          (case insert_event db Privileged undo agent target SrcOperator now (PlForget (mr_content prior)) of
             Inl e \<Rightarrow> Inl e
           | Inr db1 \<Rightarrow> Inr (delete_rows db1 (\<lambda>r. mr_id r = target))))"

definition revert_update ::
  "memory_db \<Rightarrow> timestamp \<Rightarrow> uuid \<Rightarrow> uuid \<Rightarrow> uuid \<Rightarrow> string \<Rightarrow> memory_kind \<Rightarrow> memory_state \<Rightarrow> bool
   \<Rightarrow> (memory_db, memory_store_error) result" where
  "revert_update db now undo agent target before k state pinned =
     (case lock_existing db Privileged agent target SrcOperator of
        Inl e \<Rightarrow> Inl e
      | Inr prior \<Rightarrow>
          (case insert_event db Privileged undo agent target SrcOperator now
                  (PlUpdate (mr_content prior) before k state pinned) of
             Inl e \<Rightarrow> Inl e
           | Inr db1 \<Rightarrow> Inr (set_row db1 target (\<lambda>r. r\<lparr>mr_content := before, mr_state := state, mr_pinned := pinned\<rparr>))))"

text \<open>\<open>ON CONFLICT (id) DO NOTHING\<close>: the journal takes the write, the table may not.\<close>

definition revert_forget ::
  "memory_db \<Rightarrow> timestamp \<Rightarrow> uuid \<Rightarrow> uuid \<Rightarrow> uuid \<Rightarrow> string \<Rightarrow> (memory_db, memory_store_error) result" where
  "revert_forget db now undo agent target before =
     (case restore_attrs_for db agent target of
        Inl e \<Rightarrow> Inl e
      | Inr ra \<Rightarrow>
          (case insert_event db Privileged undo agent target SrcOperator now
                  (PlWrite before (ra_kind ra) (ra_state ra) (ra_pinned ra) (ra_subject ra)) of
             Inl e \<Rightarrow> Inl e
           | Inr db1 \<Rightarrow>
               (case md_agent_org db1 agent of
                  None \<Rightarrow> Inl (MemDb RaisedException)
                | Some org \<Rightarrow>
                    if target \<in> mr_id ` set (md_rows db1) then Inr db1
                    else Inr (db1\<lparr>md_rows := md_rows db1 @ [fresh_row target agent org before (ra_kind ra) (ra_state ra)
                           (ra_pinned ra) (ra_subject ra) None now None]\<rparr>))))"

definition revert_event ::
  "memory_db \<Rightarrow> timestamp \<Rightarrow> uuid \<Rightarrow> uuid \<Rightarrow> uuid \<Rightarrow> (memory_row option \<times> memory_db, memory_store_error) result" where
  "revert_event db now undo agent event =
     (case load_event db agent event of
        Inl e \<Rightarrow> Inl e
      | Inr e \<Rightarrow>
          (case (case ev_payload e of
                   PlWrite _ _ _ _ _ \<Rightarrow> revert_write db now undo agent (ev_target e)
                 | PlUpdate before _ k state pinned \<Rightarrow> revert_update db now undo agent (ev_target e) before k state pinned
                 | PlForget before \<Rightarrow> revert_forget db now undo agent (ev_target e) before) of
             Inl x \<Rightarrow> Inl x
           | Inr db' \<Rightarrow>
               (case get_memory db' (ev_target e) of Inl x \<Rightarrow> Inl x | Inr row \<Rightarrow> Inr (row, db'))))"

end
