(* ===== verification/Memory_Librarian.thy ===== *)
theory Memory_Librarian
  imports Turn_Records Colleagues Schedule_Spec Memory_Lifecycle
begin

text \<open>
  The librarian (\<open>memory/librarian.rs\<close>): the mechanical sweep of one agent, the prompt of a resolution
  turn, and the hourly tick that sweeps the agents and queues a turn per unresolved contradiction.
\<close>

definition LIBRARIAN_BATCH_LIMIT :: nat where "LIBRARIAN_BATCH_LIMIT = 32"
definition VALIDATION_DECAY :: int where "VALIDATION_DECAY = 30 * USECS_PER_DAY"
definition MATURATION_WINDOW :: int where "MATURATION_WINDOW = 7 * USECS_PER_DAY"
definition DEDUP_SIMILARITY_THRESHOLD :: real where "DEDUP_SIMILARITY_THRESHOLD = 95 / 100"
definition CONTRADICTION_SIMILARITY_THRESHOLD :: real where "CONTRADICTION_SIMILARITY_THRESHOLD = 85 / 100"

section \<open>Judging a pair\<close>

definition pick_dedup_loser :: "pair_candidate \<Rightarrow> memory_row" where
  "pick_dedup_loser pair =
     (let a = pc_a pair; b = pc_b pair; prio_a = state_priority (mr_state a); prio_b = state_priority (mr_state b);
          a_wins = (if prio_a > prio_b then True else if prio_a < prio_b then False
            else if mr_created_at a < mr_created_at b then True else if mr_created_at a > mr_created_at b then False
            else mr_id a < mr_id b) in
      if a_wins then b else a)"

definition negation_tokens :: "string list" where
  "negation_tokens = [''not '', ''n'' @ [CHR 0x27] @ ''t '', ''never '', '' no '', '' avoid '', '' forbid '', ''do not'',
     ''don'' @ [CHR 0x27] @ ''t'', ''shouldn'' @ [CHR 0x27] @ ''t'', ''won'' @ [CHR 0x27] @ ''t'']"

definition has_negation :: "string \<Rightarrow> bool" where
  "has_negation text = (let lower = to_ascii_lowercase text in list_ex (\<lambda>t. contains_str t lower) negation_tokens)"

definition contradicts :: "string \<Rightarrow> string \<Rightarrow> bool" where
  "contradicts a b \<longleftrightarrow> has_negation a \<noteq> has_negation b"

section \<open>The sweep of one agent\<close>

text \<open>
  What a sweep meets outside the store: the vector distance, the rounding to \<open>f32\<close> (also of the
  thresholds), the printer of a similarity (\<open>{:.3}\<close>), and for the \<open>n\<close>-th call of the store the clock
  of its transaction and the ids it mints.
\<close>

record sweep_env =
  we_distance :: "embedding \<Rightarrow> embedding \<Rightarrow> real"
  we_narrow :: "real \<Rightarrow> real"
  we_show :: "real \<Rightarrow> string"
  we_now :: "nat \<Rightarrow> timestamp"
  we_mint :: "nat \<Rightarrow> nat \<Rightarrow> uuid"

record sweep_report =
  sp_deduped :: nat
  sp_matured :: nat
  sp_demoted :: nat
  sp_evicted :: nat
  sp_contradictions :: nat

text \<open>The loop answers the memories forgotten and the number of calls made.\<close>

fun dedup_loop ::
  "sweep_env \<Rightarrow> uuid \<Rightarrow> memory_db \<Rightarrow> uuid list \<Rightarrow> nat \<Rightarrow> pair_candidate list
   \<Rightarrow> (uuid list \<times> nat, memory_store_error) result \<times> memory_db" where
  "dedup_loop env agent db forgotten n [] = (Inr (forgotten, n), db)"
| "dedup_loop env agent db forgotten n (pair # pairs) =
     (if mr_id (pc_a pair) \<in> set forgotten \<or> mr_id (pc_b pair) \<in> set forgotten
      then dedup_loop env agent db forgotten n pairs
      else let loser = pick_dedup_loser pair in
        if mr_pinned loser then dedup_loop env agent db forgotten n pairs
        else (case apply_forget db Privileged (we_now env n) (we_mint env n 0) agent (mr_id loser) SrcLibrarian of
            Inl e \<Rightarrow> (Inl e, db)
          | Inr (_, db') \<Rightarrow> dedup_loop env agent db' (mr_id loser # forgotten) (n + 1) pairs))"

definition contradiction_reason :: "sweep_env \<Rightarrow> real \<Rightarrow> string" where
  "contradiction_reason env s =
     ''high embedding similarity ('' @ we_show env s @ '') with opposing textual cues''"

fun contradiction_loop ::
  "sweep_env \<Rightarrow> uuid \<Rightarrow> uuid list \<Rightarrow> memory_db \<Rightarrow> nat \<Rightarrow> nat \<Rightarrow> pair_candidate list
   \<Rightarrow> (nat, memory_store_error) result \<times> memory_db" where
  "contradiction_loop env agent forgotten db n flagged [] = (Inr flagged, db)"
| "contradiction_loop env agent forgotten db n flagged (pair # pairs) =
     (if mr_id (pc_a pair) \<in> set forgotten \<or> mr_id (pc_b pair) \<in> set forgotten
         \<or> pc_similarity pair \<ge> we_narrow env DEDUP_SIMILARITY_THRESHOLD
         \<or> \<not> contradicts (mr_content (pc_a pair)) (mr_content (pc_b pair))
      then contradiction_loop env agent forgotten db n flagged pairs
      else (case record_contradiction db (we_now env n) (we_mint env n 0) agent (mr_id (pc_a pair)) (mr_id (pc_b pair))
                  (contradiction_reason env (pc_similarity pair)) of
          Inl e \<Rightarrow> (Inl e, db)
        | Inr (_, db') \<Rightarrow> contradiction_loop env agent forgotten db' (n + 1) (flagged + 1) pairs))"

text \<open>
  Each forget, each flagged contradiction and each of the three passes between them is a transaction of
  its own: an error ends the sweep and keeps what was committed, so the tables come back beside the
  answer, from the loops too.
\<close>

definition run_librarian_sweep ::
  "sweep_env \<Rightarrow> memory_db \<Rightarrow> uuid \<Rightarrow> timestamp \<Rightarrow> (sweep_report, memory_store_error) result \<times> memory_db" where
  "run_librarian_sweep env db agent now =
     (let pairs = (\<lambda>db t. similar_pairs (we_distance env) (we_narrow env) db agent (we_narrow env t) MAX_SIMILAR_PAIRS_PER_AGENT) in
      case pairs db DEDUP_SIMILARITY_THRESHOLD of
        Inl e \<Rightarrow> (Inl e, db)
      | Inr dups \<Rightarrow>
      (case dedup_loop env agent db [] 0 dups of
        (Inl e, db1) \<Rightarrow> (Inl e, db1)
      | (Inr (forgotten, n), db1) \<Rightarrow>
      (case mature_tentative db1 (we_now env n) (we_mint env n) agent (now - MATURATION_WINDOW) of
        Inl e \<Rightarrow> (Inl e, db1)
      | Inr (matured, db2) \<Rightarrow>
      (case decay_validated db2 (we_now env (n + 1)) (we_mint env (n + 1)) agent (now - VALIDATION_DECAY) of
        Inl e \<Rightarrow> (Inl e, db2)
      | Inr (demoted, db3) \<Rightarrow>
      (case evict_overflow db3 (we_now env (n + 2)) (we_mint env (n + 2)) agent MAX_MEMORIES_PER_AGENT of
        Inl e \<Rightarrow> (Inl e, db3)
      | Inr (evicted, db4) \<Rightarrow>
      (case pairs db4 CONTRADICTION_SIMILARITY_THRESHOLD of
        Inl e \<Rightarrow> (Inl e, db4)
      | Inr close \<Rightarrow>
      (case contradiction_loop env agent forgotten db4 (n + 3) 0 close of
        (Inl e, db5) \<Rightarrow> (Inl e, db5)
      | (Inr flagged, db5) \<Rightarrow>
          (Inr \<lparr>sp_deduped = length forgotten, sp_matured = matured, sp_demoted = demoted,
                sp_evicted = length evicted, sp_contradictions = flagged\<rparr>, db5))))))))"

section \<open>The prompt of a background turn\<close>

text \<open>Too long a body loses its head, behind a notice.\<close>

definition prompt_within_cap :: "string \<Rightarrow> string \<Rightarrow> string \<Rightarrow> string" where
  "prompt_within_cap header notice body =
     (if length header + length body \<le> PROMPT_MAX_BYTES then header @ body
      else header @ notice @ truncate_from_start body (PROMPT_MAX_BYTES - (length header + length notice)))"

lemma length_prompt_within_cap:
  "length header + length notice \<le> PROMPT_MAX_BYTES \<Longrightarrow> length (prompt_within_cap header notice body) \<le> PROMPT_MAX_BYTES"
  using length_truncate_from_start [of body "PROMPT_MAX_BYTES - (length header + length notice)"]
  by (simp add: prompt_within_cap_def) linarith

record render_env =
  re_uuid :: "uuid \<Rightarrow> string"
  re_rfc3339 :: "timestamp \<Rightarrow> string"

definition bool_str :: "bool \<Rightarrow> string" where "bool_str b = (if b then ''true'' else ''false'')"

definition render_pair_entry :: "render_env \<Rightarrow> string \<Rightarrow> uuid \<Rightarrow> memory_row option \<Rightarrow> string" where
  "render_pair_entry env label i row =
     label @ '':'' @ newline @ ''  Id: '' @ re_uuid env i @ newline
     @ (case row of
          None \<Rightarrow> ''  [no longer exists '' @ em_dash_bytes @ '' likely forgotten before resolution]'' @ newline
        | Some r \<Rightarrow>
            ''  Content: '' @ mr_content r @ newline
            @ ''  Kind: '' @ memory_kind_as_str (mr_kind r) @ ''   State: '' @ memory_state_as_str (mr_state r)
            @ ''   Pinned: '' @ bool_str (mr_pinned r) @ newline
            @ ''  Created: '' @ re_rfc3339 env (mr_created_at r) @ newline
            @ ''  Last validated: '' @ re_rfc3339 env (mr_last_validated_at r) @ newline
            @ ''  Access count: '' @ show_nat (mr_access_count r) @ newline
            @ (case mr_source_turn r of
                 Some turn \<Rightarrow> ''  Source turn: '' @ re_uuid env turn @ newline
               | None \<Rightarrow> ''  Source turn: (operator note or librarian merge)'' @ newline))"

definition resolution_header :: string where
  "resolution_header = ''Two of your memories were flagged as contradicting. Decide what to do.'' @ newline @ newline"

definition resolution_notice :: string where
  "resolution_notice = ''[earlier content trimmed to fit prompt cap]'' @ newline"

definition build_resolution_prompt ::
  "render_env \<Rightarrow> contradiction_row \<Rightarrow> memory_row option \<Rightarrow> memory_row option \<Rightarrow> string" where
  "build_resolution_prompt env ev a b =
     prompt_within_cap resolution_header resolution_notice
       (''Reason flagged: '' @ ct_reason ev @ newline @ newline
        @ render_pair_entry env ''Memory A (M-1)'' (ct_memory_a ev) a @ newline
        @ render_pair_entry env ''Memory B (M-2)'' (ct_memory_b ev) b)"

text \<open>The parse of a prompt into a \<open>Prompt\<close> asserts this bound.\<close>

lemma length_resolution_prompt: "length (build_resolution_prompt env ev a b) \<le> PROMPT_MAX_BYTES"
  unfolding build_resolution_prompt_def
  by (rule length_prompt_within_cap)
    (simp add: resolution_header_def resolution_notice_def newline_def PROMPT_MAX_BYTES_def)

section \<open>The tick\<close>

record background_world =
  bw_memory :: memory_db
  bw_background :: background_db
  bw_queue :: queue_db

text \<open>
  A background turn is created, seeded with its prompt and queued: three transactions, the first that
  fails ends the sequence (its own text, which is only logged, is left out). The queue reads the
  organisation of the turn it is given.
\<close>

definition queue_background_turn ::
  "timestamp \<Rightarrow> uuid \<Rightarrow> uuid \<Rightarrow> string option \<Rightarrow> caller \<Rightarrow> uuid \<Rightarrow> uuid \<Rightarrow> string \<Rightarrow> idempotency_key \<Rightarrow> request_kind_payload
   \<Rightarrow> background_db \<times> queue_db \<Rightarrow> (uuid, memory_store_error) result \<times> background_db \<times> queue_db" where
  "queue_background_turn now turn rid traceparent ca agent agent_colleague content key payload bq =
     (let (bg, q) = bq in
      case create_turn bg now turn ca agent of
        (Inl e, bg1) \<Rightarrow> (Inl (MemBackend ''create background turn''), bg1, q)
      | (Inr turn, bg1) \<Rightarrow>
          (let q1 = q\<lparr>background_org := (background_org q)(turn \<mapsto> ca_org ca)\<rparr> in
           case append_background_message bg1 now ca turn
                  \<lparr>nb_sender = None, nb_body = User [UText content], nb_request = None\<rparr> of
             (Inl e, bg2) \<Rightarrow> (Inl (MemBackend ''seed background turn''), bg2, q1)
           | (Inr _, bg2) \<Rightarrow>
               (case enqueue_trigger q1 now rid traceparent
                       \<lparr>nt_org = ca_org ca, nt_acting_user = ca_user ca, nt_thread = None, nt_state_id = None,
                        nt_background_turn_id = Some turn, nt_sender = agent_colleague, nt_receiver_agent = agent,
                        nt_root = None, nt_trigger_message = None, nt_idempotency_key = key, nt_payload = payload\<rparr> of
                  (Inl e, q2) \<Rightarrow> (Inl (MemBackend ''enqueue trigger''), bg2, q2)
                | (Inr r, q2) \<Rightarrow> (Inr r, bg2, q2))))"

text \<open>The agents with the eldest member of their organisation, oldest agent first.\<close>

definition list_agents ::
  "nat \<Rightarrow> (uuid \<times> uuid \<times> timestamp) list \<Rightarrow> (uuid \<times> uuid \<times> timestamp) list \<Rightarrow> (uuid \<times> uuid \<times> uuid) list" where
  "list_agents limit agents members =
     take limit (concat (map (\<lambda>(a, org, _). case first_min_by (\<lambda>(_, _, t). t) (filter (\<lambda>(g, _, _). g = org) members) of
           None \<Rightarrow> [] | Some (_, user, _) \<Rightarrow> [(a, org, user)])
       (sort_key (\<lambda>(_, _, t). t) agents)))"

text \<open>The collaborators of a tick; \<open>te_sweep\<close> and \<open>te_mint\<close> give each agent's sweep and turns their clocks and ids.\<close>

record tick_env =
  te_sweep :: "uuid \<Rightarrow> sweep_env"
  te_render :: render_env
  te_dir :: directory
  te_show_colleague_error :: "colleague_error \<Rightarrow> string"
  te_mint :: "uuid \<Rightarrow> uuid \<times> uuid"   \<comment> \<open>turn and request for a contradiction\<close>
  te_traceparent :: "string option"

fun enqueue_resolutions ::
  "tick_env \<Rightarrow> timestamp \<Rightarrow> uuid \<Rightarrow> uuid \<Rightarrow> uuid \<Rightarrow> background_world \<Rightarrow> contradiction_row list
   \<Rightarrow> (unit, memory_store_error) result \<times> background_world" where
  "enqueue_resolutions env now agent org owner w [] = (Inr (), w)"
| "enqueue_resolutions env now agent org owner w (ev # evs) =
     (case resolve_agent (te_dir env) org agent of
        Inl e \<Rightarrow> (Inl (MemBackend (''resolve agent colleague: '' @ te_show_colleague_error env e)), w)
      | Inr agent_colleague \<Rightarrow>
          (case (get_memory (bw_memory w) (ct_memory_a ev), get_memory (bw_memory w) (ct_memory_b ev)) of
             (Inl e, _) \<Rightarrow> (Inl e, w)
           | (_, Inl e) \<Rightarrow> (Inl e, w)
           | (Inr a, Inr b) \<Rightarrow>
               (let (turn, rid) = te_mint env (ct_id ev);
                    (_, bg, q) = queue_background_turn now turn rid (te_traceparent env) \<lparr>ca_user = owner, ca_org = org\<rparr> agent
                      agent_colleague (build_resolution_prompt (te_render env) ev a b)
                      (''resolve-'' @ re_uuid (te_render env) (ct_id ev)) (PResolution (ct_id ev))
                      (bw_background w, bw_queue w) in
                enqueue_resolutions env now agent org owner (w\<lparr>bw_background := bg, bw_queue := q\<rparr>) evs)))"

text \<open>A failed sweep skips the agent's contradictions; every failure is logged and the tick goes on.\<close>

fun librarian_agents :: "tick_env \<Rightarrow> timestamp \<Rightarrow> background_world \<Rightarrow> (uuid \<times> uuid \<times> uuid) list \<Rightarrow> background_world" where
  "librarian_agents env now w [] = w"
| "librarian_agents env now w ((agent, org, owner) # rest) =
     (let (swept, db) = run_librarian_sweep (te_sweep env agent) (bw_memory w) agent now; w1 = w\<lparr>bw_memory := db\<rparr> in
      case swept of
        Inl _ \<Rightarrow> librarian_agents env now w1 rest
      | Inr _ \<Rightarrow> librarian_agents env now
          (snd (enqueue_resolutions env now agent org owner w1 (unresolved_contradictions (bw_memory w1) agent))) rest)"

definition librarian_tick ::
  "tick_env \<Rightarrow> timestamp \<Rightarrow> (uuid \<times> uuid \<times> timestamp) list \<Rightarrow> (uuid \<times> uuid \<times> timestamp) list \<Rightarrow> background_world \<Rightarrow> background_world" where
  "librarian_tick env now agents members w =
     librarian_agents env now w (take LIBRARIAN_BATCH_LIMIT (list_agents LIBRARIAN_BATCH_LIMIT agents members))"

end
