(* ===== verification/Memory_Laws.thy ===== *)
theory Memory_Laws
  imports "HOL-Library.Multiset" Memory_Lifecycle
begin

text \<open>
  The journal determines the table. \<open>project\<close> is the abstract reading of a journal: the rows it
  derives, without the counters and vectors the journal does not record. The invariant says that
  whenever an agent's events have a projection, it is the agent's rows; the order of the rows of a table
  means nothing, so they are compared as multisets. Events of one memory must carry increasing stamps;
  nothing is asked of the ids and times of events of different memories, whose replay commutes.
\<close>

section \<open>The projection of a journal\<close>

definition core_of :: "memory_row \<Rightarrow> memory_row" where
  "core_of r = r\<lparr>mr_last_validated_at := mr_created_at r, mr_last_accessed_at := mr_created_at r,
     mr_access_count := 0, mr_embedding := None\<rparr>"

lemma core_of_sel [simp]:
  "mr_id (core_of r) = mr_id r" "mr_agent (core_of r) = mr_agent r" "mr_org (core_of r) = mr_org r"
  "mr_content (core_of r) = mr_content r" "mr_pinned (core_of r) = mr_pinned r" "mr_state (core_of r) = mr_state r"
  "mr_kind (core_of r) = mr_kind r" "mr_created_at (core_of r) = mr_created_at r" "core_of (core_of r) = core_of r"
  by (simp_all add: core_of_def)

lemma core_of_fresh_row [simp]:
  "core_of (fresh_row i a g c k s p u t n v) = fresh_row i a g c k s p u t n None"
  by (simp add: core_of_def fresh_row_def)

lemma fresh_row_sel [simp]:
  "mr_id (fresh_row i a g c k s p u t n v) = i" "mr_agent (fresh_row i a g c k s p u t n v) = a"
  "mr_org (fresh_row i a g c k s p u t n v) = g" "mr_content (fresh_row i a g c k s p u t n v) = c"
  "mr_pinned (fresh_row i a g c k s p u t n v) = p"
  by (simp_all add: fresh_row_def)

definition replay_row :: "uuid \<Rightarrow> memory_row list \<Rightarrow> memory_event \<Rightarrow> memory_row list option" where
  "replay_row org rows e =
     (case ev_payload e of
        PlWrite c k s p u \<Rightarrow>
          if ev_target e \<in> mr_id ` set rows then None
          else Some (rows @ [fresh_row (ev_target e) (ev_agent e) org c k s p u (source_turn_id (ev_source e))
                 (ev_created_at e) None])
      | PlUpdate _ c _ s p \<Rightarrow>
          Some (update_where (\<lambda>r. mr_id r = ev_target e) (\<lambda>r. r\<lparr>mr_content := c, mr_state := s, mr_pinned := p\<rparr>) rows)
      | PlForget _ \<Rightarrow> Some (filter (\<lambda>r. mr_id r \<noteq> ev_target e) rows))"

fun project :: "uuid \<Rightarrow> memory_row list \<Rightarrow> memory_event list \<Rightarrow> memory_row list option" where
  "project org rows [] = Some rows"
| "project org rows (e # es) = (case replay_row org rows e of None \<Rightarrow> None | Some rows' \<Rightarrow> project org rows' es)"

lemma project_append:
  "project org rows (es @ fs) = (case project org rows es of None \<Rightarrow> None | Some rows' \<Rightarrow> project org rows' fs)"
  by (induction es arbitrary: rows) (auto split: option.split)

text \<open>The journal gives no rows exactly when it writes a memory again that it has not forgotten.\<close>

fun writes_live :: "uuid set \<Rightarrow> memory_event list \<Rightarrow> bool" where
  "writes_live live [] = False"
| "writes_live live (e # es) =
     (case ev_payload e of
        PlWrite _ _ _ _ _ \<Rightarrow> ev_target e \<in> live \<or> writes_live (insert (ev_target e) live) es
      | PlUpdate _ _ _ _ _ \<Rightarrow> writes_live live es
      | PlForget _ \<Rightarrow> writes_live (live - {ev_target e}) es)"

lemma update_where_ids:
  assumes "\<And>r. mr_id (f r) = mr_id r"
  shows "mr_id ` set (update_where p f rows) = mr_id ` set rows"
  using assms by (induction rows) auto

lemma project_None_iff: "project org rows es = None \<longleftrightarrow> writes_live (mr_id ` set rows) es"
proof (induction es arbitrary: rows)
  case (Cons e es)
  have del: "mr_id ` {r \<in> set rows. mr_id r \<noteq> t} = mr_id ` set rows - {t}" for t by auto
  have new: "mr_id ` set (rows @ [fresh_row t a g c k s p u b n v]) = insert t (mr_id ` set rows)" for t a g c k s p u b n v
    by simp
  show ?case
  proof (cases "ev_payload e")
    case (PlUpdate b c k s p)
    have "mr_id ` set (update_where (\<lambda>r. mr_id r = ev_target e) (\<lambda>r. r\<lparr>mr_content := c, mr_state := s, mr_pinned := p\<rparr>) rows)
        = mr_id ` set rows" by (rule update_where_ids) simp
    with PlUpdate show ?thesis by (simp add: replay_row_def Cons.IH del: set_update_where)
  qed (simp_all add: replay_row_def Cons.IH new del del: set_append)
qed simp

section \<open>Replay and the order of rows and events\<close>

definition same_rows :: "memory_row list option \<Rightarrow> memory_row list option \<Rightarrow> bool" where
  "same_rows = rel_option (\<lambda>rs rs'. mset rs = mset rs')"

lemma same_rows_refl [simp]: "same_rows r r" by (simp add: same_rows_def option.rel_refl)

lemma same_rows_trans: "same_rows r s \<Longrightarrow> same_rows s t \<Longrightarrow> same_rows r t"
  by (cases r; cases s; cases t) (simp_all add: same_rows_def)

lemma same_rows_Some [simp]: "same_rows (Some rs) r \<longleftrightarrow> (\<exists>rs'. r = Some rs' \<and> mset rs = mset rs')"
  by (cases r) (auto simp: same_rows_def)

lemma same_rows_None [simp]: "same_rows None r \<longleftrightarrow> r = None"
  by (cases r) (simp_all add: same_rows_def)

lemma mset_update_where: "mset (update_where p f rows) = image_mset (\<lambda>r. if p r then f r else r) (mset rows)"
  by (induction rows) auto

lemma replay_row_perm: "mset rs = mset rs' \<Longrightarrow> same_rows (replay_row org rs e) (replay_row org rs' e)"
  by (auto simp: replay_row_def mset_update_where same_rows_def split: event_payload.split dest: mset_eq_setD)

lemma project_perm: "mset rs = mset rs' \<Longrightarrow> same_rows (project org rs es) (project org rs' es)"
proof (induction es arbitrary: rs rs')
  case (Cons e es)
  have "same_rows (replay_row org rs e) (replay_row org rs' e)" using Cons.prems by (rule replay_row_perm)
  then show ?case by (cases "replay_row org rs e") (auto intro: Cons.IH)
qed simp

text \<open>Two events of different memories commute.\<close>

lemma update_where_swap:
  assumes "\<And>r. mr_id (f r) = mr_id r" "\<And>r. mr_id (g r) = mr_id r" "i \<noteq> j"
  shows "update_where (\<lambda>r. mr_id r = i) f (update_where (\<lambda>r. mr_id r = j) g rows)
    = update_where (\<lambda>r. mr_id r = j) g (update_where (\<lambda>r. mr_id r = i) f rows)"
  using assms by (induction rows) auto

lemma filter_update_where:
  assumes "\<And>r. mr_id (f r) = mr_id r"
  shows "filter (\<lambda>r. mr_id r \<noteq> j) (update_where (\<lambda>r. mr_id r = i) f rows)
    = update_where (\<lambda>r. mr_id r = i) f (filter (\<lambda>r. mr_id r \<noteq> j) rows)"
  using assms by (induction rows) auto

definition writes :: "memory_event \<Rightarrow> bool" where
  "writes e \<longleftrightarrow> (case ev_payload e of PlWrite _ _ _ _ _ \<Rightarrow> True | _ \<Rightarrow> False)"

lemma replay_row_None_iff: "replay_row org rs e = None \<longleftrightarrow> writes e \<and> ev_target e \<in> mr_id ` set rs"
  by (simp add: replay_row_def writes_def split: event_payload.split)

lemma replay_row_other:
  assumes "replay_row org rs e = Some re" "i \<noteq> ev_target e"
  shows "i \<in> mr_id ` set re \<longleftrightarrow> i \<in> mr_id ` set rs"
proof (cases "ev_payload e")
  case (PlUpdate b c k s p)
  with assms(1) show ?thesis
    using update_where_ids [of "\<lambda>r. r\<lparr>mr_content := c, mr_state := s, mr_pinned := p\<rparr>" "\<lambda>r. mr_id r = ev_target e" rs]
    by (simp add: replay_row_def del: set_update_where image_iff)
qed (use assms in \<open>auto simp: replay_row_def split: if_splits\<close>)

lemma replay_swap_None:
  assumes "ev_target e \<noteq> ev_target f" "replay_row org rs e = Some re"
  shows "replay_row org re f = None \<longleftrightarrow> replay_row org rs f = None"
  using replay_row_other [OF assms(2), of "ev_target f"] assms(1) by (metis replay_row_None_iff)

lemma replay_swap:
  assumes "ev_target e \<noteq> ev_target f" "replay_row org rs e = Some re" "replay_row org rs f = Some rf"
  shows "same_rows (replay_row org re f) (replay_row org rf e)"
proof -
  have "replay_row org re f \<noteq> None" using replay_swap_None [OF assms(1,2)] assms(3) by simp
  moreover have "replay_row org rf e \<noteq> None" using replay_swap_None [OF assms(1) [symmetric] assms(3)] assms(2) by simp
  ultimately obtain x y where xy: "replay_row org re f = Some x" "replay_row org rf e = Some y" by blast
  have "mset x = mset y"
    using assms xy
    by (cases "ev_payload e"; cases "ev_payload f")
      (auto simp: replay_row_def update_where_swap filter_update_where conj_commute simp del: mset_filter split: if_splits)
  with xy show ?thesis by simp
qed

lemma project_swap:
  assumes "ev_target e \<noteq> ev_target f"
  shows "same_rows (project org rs (e # f # es)) (project org rs (f # e # es))"
proof (cases "replay_row org rs e"; cases "replay_row org rs f")
  fix re rf assume e: "replay_row org rs e = Some re" and f: "replay_row org rs f = Some rf"
  have "same_rows (replay_row org re f) (replay_row org rf e)" using assms e f by (rule replay_swap)
  then show ?thesis using e f by (cases "replay_row org re f") (auto intro: project_perm)
next
  fix re assume e: "replay_row org rs e = Some re" and f: "replay_row org rs f = None"
  then show ?thesis using replay_swap_None [OF assms e] by simp
next
  fix rf assume e: "replay_row org rs e = None" and f: "replay_row org rs f = Some rf"
  then show ?thesis using replay_swap_None [OF assms [symmetric] f] by simp
qed simp

text \<open>So the events may be replayed in any order that keeps the events of each memory in theirs.\<close>

lemma project_insort:
  assumes "\<forall>x \<in> set es. k x < k e \<longrightarrow> ev_target x \<noteq> ev_target e"
  shows "same_rows (project org rs (e # es)) (project org rs (insort_key k e es))"
  using assms
proof (induction es arbitrary: rs)
  case (Cons x es)
  show ?case
  proof (cases "k e \<le> k x")
    case False
    then have "ev_target e \<noteq> ev_target x" using Cons.prems by (metis list.set_intros(1) not_le)
    then have swap: "same_rows (project org rs (e # x # es)) (project org rs (x # e # es))" by (rule project_swap)
    have "same_rows (project org rs (x # e # es)) (project org rs (x # insort_key k e es))"
      using Cons.IH Cons.prems by (simp del: project.simps(2) add: project.simps(2) [of _ _ x] split: option.split)
    with swap have "same_rows (project org rs (e # x # es)) (project org rs (x # insort_key k e es))"
      by (rule same_rows_trans)
    with False show ?thesis by simp
  qed simp
qed simp

lemma project_sort:
  assumes "sorted_wrt (\<lambda>e f. ev_target e = ev_target f \<longrightarrow> k e < k f) es"
  shows "same_rows (project org rs es) (project org rs (sort_key k es))"
  using assms
proof (induction es arbitrary: rs)
  case (Cons e es)
  have "same_rows (project org rs (e # es)) (project org rs (e # sort_key k es))"
    using Cons.IH Cons.prems by (simp split: option.split)
  moreover have "same_rows (project org rs (e # sort_key k es)) (project org rs (insort_key k e (sort_key k es)))"
    by (rule project_insort) (use Cons.prems in force)
  ultimately show ?case unfolding sort_key_simps by (rule same_rows_trans)
qed simp

definition rows_of :: "memory_db \<Rightarrow> uuid \<Rightarrow> memory_row list" where
  "rows_of db agent = filter (\<lambda>r. mr_agent r = agent) (md_rows db)"

definition events_of :: "memory_db \<Rightarrow> uuid \<Rightarrow> memory_event list" where
  "events_of db agent = filter (\<lambda>e. ev_agent e = agent) (md_events db)"

section \<open>The invariant\<close>

definition stamp :: "memory_event \<Rightarrow> timestamp \<times> uuid" where
  "stamp e = (ev_created_at e, ev_id e)"

definition content_ok :: "string \<Rightarrow> bool" where
  "content_ok c \<longleftrightarrow> memory_content_try_from c = Inr c"

text \<open>Of two events of one memory the one journalled first has the smaller stamp.\<close>

definition stamps_ordered :: "memory_event list \<Rightarrow> bool" where
  "stamps_ordered = sorted_wrt (\<lambda>e f. ev_target e = ev_target f \<longrightarrow> stamp e < stamp f)"

lemma stamps_ordered_snoc: "stamps_ordered (es @ [e]) \<longleftrightarrow> stamps_ordered es \<and> (\<forall>f \<in> set es. ev_target f = ev_target e \<longrightarrow> stamp f < stamp e)"
  by (auto simp: stamps_ordered_def sorted_wrt_append)

definition event_ok :: "memory_event \<Rightarrow> bool" where
  "event_ok e \<longleftrightarrow> (\<forall>c \<in> set (payload_contents (ev_payload e)). content_ok c)"

definition projected :: "memory_db \<Rightarrow> bool" where
  "projected db \<longleftrightarrow> (\<forall>agent org. md_agent_org db agent = Some org \<longrightarrow>
     (\<forall>rs. project org [] (events_of db agent) = Some rs \<longrightarrow> mset rs = mset (map core_of (rows_of db agent))))"

definition memory_inv :: "memory_db \<Rightarrow> bool" where
  "memory_inv db \<longleftrightarrow> distinct (map mr_id (md_rows db))
     \<and> stamps_ordered (md_events db)
     \<and> (\<forall>r \<in> set (md_rows db). content_ok (mr_content r) \<and> md_agent_org db (mr_agent r) = Some (mr_org r))
     \<and> (\<forall>e \<in> set (md_events db). event_ok e)
     \<and> (\<forall>e \<in> set (md_events db). \<forall>r \<in> set (md_rows db). ev_target e = mr_id r \<longrightarrow> ev_agent e = mr_agent r)
     \<and> (\<forall>e \<in> set (md_events db). \<forall>f \<in> set (md_events db). ev_target e = ev_target f \<longrightarrow> ev_agent e = ev_agent f)
     \<and> projected db"

lemma memory_invD:
  assumes "memory_inv db"
  shows "distinct (map mr_id (md_rows db))" "stamps_ordered (md_events db)"
    "r \<in> set (md_rows db) \<Longrightarrow> content_ok (mr_content r)" "r \<in> set (md_rows db) \<Longrightarrow> md_agent_org db (mr_agent r) = Some (mr_org r)"
    "e \<in> set (md_events db) \<Longrightarrow> event_ok e"
    "e \<in> set (md_events db) \<Longrightarrow> r \<in> set (md_rows db) \<Longrightarrow> ev_target e = mr_id r \<Longrightarrow> ev_agent e = mr_agent r"
    "e \<in> set (md_events db) \<Longrightarrow> f \<in> set (md_events db) \<Longrightarrow> ev_target e = ev_target f \<Longrightarrow> ev_agent e = ev_agent f"
    "projected db"
  using assms unfolding memory_inv_def by blast+

lemma memory_invI:
  assumes "distinct (map mr_id (md_rows db))" "stamps_ordered (md_events db)"
    and "\<And>r. r \<in> set (md_rows db) \<Longrightarrow> content_ok (mr_content r)"
    and "\<And>r. r \<in> set (md_rows db) \<Longrightarrow> md_agent_org db (mr_agent r) = Some (mr_org r)"
    and "\<And>e. e \<in> set (md_events db) \<Longrightarrow> event_ok e"
    and "\<And>e r. e \<in> set (md_events db) \<Longrightarrow> r \<in> set (md_rows db) \<Longrightarrow> ev_target e = mr_id r \<Longrightarrow> ev_agent e = mr_agent r"
    and "\<And>e f. e \<in> set (md_events db) \<Longrightarrow> f \<in> set (md_events db) \<Longrightarrow> ev_target e = ev_target f \<Longrightarrow> ev_agent e = ev_agent f"
    and "projected db"
  shows "memory_inv db"
  unfolding memory_inv_def using assms(1,2,8) by (intro conjI ballI impI) (assumption | rule assms; assumption)+

lemma decode_memory_row_ok: "content_ok (mr_content r) \<Longrightarrow> decode_memory_row r = Inr r"
  by (simp add: decode_memory_row_def content_ok_def)

lemma first_parse_error_ok: "(\<forall>c \<in> set cs. content_ok c) \<Longrightarrow> first_parse_error cs = None"
  by (induction cs) (auto simp: content_ok_def)

lemma decode_memory_event_ok: "event_ok e \<Longrightarrow> decode_memory_event e = Inr e"
  by (simp add: decode_memory_event_def event_ok_def first_parse_error_ok)

text \<open>One journalled change: an event is appended and the rows of its agent follow it.\<close>

definition journalled :: "memory_db \<Rightarrow> memory_event \<Rightarrow> memory_db \<Rightarrow> bool" where
  "journalled db e db' \<longleftrightarrow> md_events db' = md_events db @ [e] \<and> md_agent_org db' = md_agent_org db
     \<and> md_members db' = md_members db \<and> md_colleague_org db' = md_colleague_org db
     \<and> event_ok e \<and> (\<forall>f \<in> set (md_events db). ev_target f = ev_target e \<longrightarrow> stamp f < stamp e)
     \<and> (\<forall>f \<in> set (md_events db). ev_target f = ev_target e \<longrightarrow> ev_agent f = ev_agent e)
     \<and> (\<forall>r \<in> set (md_rows db). mr_id r = ev_target e \<longrightarrow> mr_agent r = ev_agent e)
     \<and> (\<forall>r \<in> set (md_rows db'). mr_id r \<noteq> ev_target e \<longrightarrow> r \<in> set (md_rows db))
     \<and> (\<forall>r \<in> set (md_rows db). mr_id r \<noteq> ev_target e \<longrightarrow> r \<in> set (md_rows db'))
     \<and> (\<forall>r \<in> set (md_rows db'). mr_id r = ev_target e \<longrightarrow> mr_agent r = ev_agent e)
     \<and> distinct (map mr_id (md_rows db'))
     \<and> (\<forall>r \<in> set (md_rows db'). content_ok (mr_content r) \<and> md_agent_org db (mr_agent r) = Some (mr_org r))
     \<and> (\<forall>b. b \<noteq> ev_agent e \<longrightarrow> rows_of db' b = rows_of db b)
     \<and> (\<exists>org. md_agent_org db (ev_agent e) = Some org
          \<and> replay_row org (map core_of (rows_of db (ev_agent e))) e = Some (map core_of (rows_of db' (ev_agent e))))"

lemma events_of_append: "md_events db' = md_events db @ [e] \<Longrightarrow>
    events_of db' agent = events_of db agent @ (if ev_agent e = agent then [e] else [])"
  by (simp add: events_of_def)

lemma journalled_inv:
  assumes inv: "memory_inv db" and j: "journalled db e db'"
  shows "memory_inv db'"
proof -
  from j have ev: "md_events db' = md_events db @ [e]" "md_agent_org db' = md_agent_org db" by (auto simp: journalled_def)
  have "projected db'"
    unfolding projected_def
  proof (intro allI impI)
    fix agent org rs assume org: "md_agent_org db' agent = Some org" and rs: "project org [] (events_of db' agent) = Some rs"
    have old: "mset rs0 = mset (map core_of (rows_of db agent))" if "project org [] (events_of db agent) = Some rs0" for rs0
      using memory_invD(8) [OF inv] ev org that by (simp add: projected_def)
    show "mset rs = mset (map core_of (rows_of db' agent))"
    proof (cases "ev_agent e = agent")
      case True
      then have new: "replay_row org (map core_of (rows_of db agent)) e = Some (map core_of (rows_of db' agent))"
        using j org ev by (auto simp: journalled_def)
      from rs True obtain rs0 where rs0: "project org [] (events_of db agent) = Some rs0" "replay_row org rs0 e = Some rs"
        by (auto simp: events_of_append [OF ev(1)] project_append split: option.splits)
      from replay_row_perm [OF old [OF rs0(1)], of org e] show ?thesis by (simp add: new rs0(2))
    next
      case False
      then have "rows_of db' agent = rows_of db agent" using j by (auto simp: journalled_def)
      then show ?thesis using False old rs by (simp add: events_of_append [OF ev(1)])
    qed
  qed
  have targets: "ev_agent f = mr_agent r"
    if "f \<in> set (md_events db')" "r \<in> set (md_rows db')" "ev_target f = mr_id r" for f r
  proof (cases "mr_id r = ev_target e")
    case True
    then have "mr_agent r = ev_agent e" "ev_agent f = ev_agent e"
      using j that by (auto simp: journalled_def)
    then show ?thesis by simp
  next
    case False
    with j that(2) have "r \<in> set (md_rows db)" by (auto simp: journalled_def)
    moreover from False that ev(1) have "f \<in> set (md_events db)" by auto
    ultimately show ?thesis using memory_invD(6) [OF inv] that(3) by blast
  qed
  have owners: "ev_agent f = ev_agent g"
    if "f \<in> set (md_events db')" "g \<in> set (md_events db')" "ev_target f = ev_target g" for f g
  proof -
    have old: "ev_agent h = ev_agent e" if "h \<in> set (md_events db)" "ev_target h = ev_target e" for h
      using j that by (simp add: journalled_def)
    from that(1,2) consider "f \<in> set (md_events db)" "g \<in> set (md_events db)" | "f = e" | "g = e" by (auto simp: ev)
    then show ?thesis
    proof cases
      case 1
      then show ?thesis using memory_invD(7) [OF inv] that(3) by blast
    next
      case 2
      then show ?thesis using that(2,3) old [of g] by (cases "g = e") (auto simp: ev)
    next
      case 3
      then show ?thesis using that(1,3) old [of f] by (cases "f = e") (auto simp: ev)
    qed
  qed
  show ?thesis
  proof (rule memory_invI)
    show "stamps_ordered (md_events db')"
      using memory_invD(2) [OF inv] j by (simp add: ev stamps_ordered_snoc journalled_def)
    show "event_ok f" if "f \<in> set (md_events db')" for f
      using that j memory_invD(5) [OF inv] by (auto simp: journalled_def)
    show "distinct (map mr_id (md_rows db'))" using j by (simp add: journalled_def)
    show "content_ok (mr_content r)" "md_agent_org db' (mr_agent r) = Some (mr_org r)" if "r \<in> set (md_rows db')" for r
      using j that by (simp_all add: journalled_def)
  qed (fact \<open>projected db'\<close> | erule (2) targets owners)+
qed

text \<open>A change may touch no event and no core, or, when it is silent, no row at all.\<close>

definition same_cores :: "memory_db \<Rightarrow> memory_db \<Rightarrow> bool" where
  "same_cores db db' \<longleftrightarrow> md_events db' = md_events db \<and> md_agent_org db' = md_agent_org db
     \<and> md_members db' = md_members db \<and> md_colleague_org db' = md_colleague_org db
     \<and> map core_of (md_rows db') = map core_of (md_rows db)"

lemma same_cores_rows:
  assumes "same_cores db db'" "r \<in> set (md_rows db')"
  obtains s where "s \<in> set (md_rows db)" "core_of r = core_of s"
proof -
  have "core_of r \<in> core_of ` set (md_rows db')" using assms(2) by simp
  also have "core_of ` set (md_rows db') = core_of ` set (md_rows db)"
    using assms(1) unfolding same_cores_def by (metis list.set_map)
  finally show ?thesis using that by auto
qed

lemma core_of_eqD:
  assumes "core_of r = core_of s"
  shows "mr_id r = mr_id s" "mr_agent r = mr_agent s" "mr_org r = mr_org s" "mr_content r = mr_content s"
    "mr_pinned r = mr_pinned s" "mr_state r = mr_state s" "mr_kind r = mr_kind s"
  using assms by (metis core_of_sel)+

lemma map_core_rows_of: "map core_of (rows_of db agent) = filter (\<lambda>r. mr_agent r = agent) (map core_of (md_rows db))"
  by (simp add: rows_of_def filter_map o_def)

lemma map_core_ids: "map mr_id (map core_of rows) = map mr_id rows"
  by simp

lemma same_cores_rows_of: "same_cores db db' \<Longrightarrow> map core_of (rows_of db' b) = map core_of (rows_of db b)"
  by (simp add: map_core_rows_of same_cores_def)

lemma same_cores_inv:
  assumes inv: "memory_inv db" and s: "same_cores db db'"
  shows "memory_inv db'"
proof -
  from s have eq: "md_events db' = md_events db" "md_agent_org db' = md_agent_org db"
    "map core_of (md_rows db') = map core_of (md_rows db)" by (auto simp: same_cores_def)
  have ids: "map mr_id (md_rows db') = map mr_id (md_rows db)" by (metis eq(3) map_core_ids)
  have "map core_of (rows_of db' agent) = map core_of (rows_of db agent)" for agent
    by (simp only: map_core_rows_of eq)
  then have proj: "projected db'" using memory_invD(8) [OF inv] eq by (simp add: projected_def events_of_def)
  have row: "content_ok (mr_content r)" "md_agent_org db' (mr_agent r) = Some (mr_org r)"
      "e \<in> set (md_events db) \<Longrightarrow> ev_target e = mr_id r \<Longrightarrow> ev_agent e = mr_agent r"
    if r: "r \<in> set (md_rows db')" for r e
  proof -
    obtain t where t: "t \<in> set (md_rows db)" "core_of r = core_of t" using s r by (rule same_cores_rows)
    then show "content_ok (mr_content r)" "md_agent_org db' (mr_agent r) = Some (mr_org r)"
      "e \<in> set (md_events db) \<Longrightarrow> ev_target e = mr_id r \<Longrightarrow> ev_agent e = mr_agent r"
      using memory_invD(3,4) [OF inv t(1)] memory_invD(6) [OF inv _ t(1)] core_of_eqD [OF t(2)] eq by auto
  qed
  show ?thesis
  proof (rule memory_invI)
    show "distinct (map mr_id (md_rows db'))" unfolding ids by (rule memory_invD(1) [OF inv])
    show "stamps_ordered (md_events db')" unfolding eq by (rule memory_invD(2) [OF inv])
    show "event_ok e" if "e \<in> set (md_events db')" for e using that unfolding eq by (rule memory_invD(5) [OF inv])
    show "ev_agent e = ev_agent f" if "e \<in> set (md_events db')" "f \<in> set (md_events db')" "ev_target e = ev_target f" for e f
      using that unfolding eq by (rule memory_invD(7) [OF inv])
    show "ev_agent e = mr_agent r" if "e \<in> set (md_events db')" "r \<in> set (md_rows db')" "ev_target e = mr_id r" for e r
      using row(3) [OF that(2)] that(1,3) by (simp add: eq)
  qed (use proj row in \<open>simp_all\<close>)
qed

definition silent :: "memory_db \<Rightarrow> memory_db \<Rightarrow> bool" where
  "silent db db' \<longleftrightarrow> same_cores db db' \<and> md_rows db' = md_rows db"

lemma silentD:
  assumes "silent db db'"
  shows "same_cores db db'" "md_rows db' = md_rows db" "rows_of db' b = rows_of db b"
  using assms by (simp_all add: silent_def rows_of_def)

section \<open>Changes made for one agent\<close>

text \<open>
  What a call does for \<open>agent\<close> in the name of \<open>source\<close>: silent changes and journalled ones. Only the
  operator's events may touch a pinned row.
\<close>

inductive changes :: "uuid \<Rightarrow> mutation_source \<Rightarrow> memory_db \<Rightarrow> memory_db \<Rightarrow> bool" for agent source where
  changes_refl: "changes agent source db db"
| changes_silent: "changes agent source db db1 \<Longrightarrow> silent db1 db2 \<Longrightarrow> changes agent source db db2"
| changes_journal: "changes agent source db db1 \<Longrightarrow> journalled db1 e db2 \<Longrightarrow> ev_agent e = agent \<Longrightarrow> ev_source e = source
    \<Longrightarrow> (\<And>r. source \<noteq> SrcOperator \<Longrightarrow> r \<in> set (md_rows db1) \<Longrightarrow> mr_id r = ev_target e \<Longrightarrow> \<not> mr_pinned r)
    \<Longrightarrow> changes agent source db db2"

lemma changes_trans: "changes agent source db1 db2 \<Longrightarrow> changes agent source db db1 \<Longrightarrow> changes agent source db db2"
  by (induction rule: changes.induct) (blast intro: changes.intros)+

lemma changes_inv: "changes agent source db db' \<Longrightarrow> memory_inv db \<Longrightarrow> memory_inv db'"
  by (induction rule: changes.induct) (blast intro: same_cores_inv silentD(1) journalled_inv)+

lemma changes_orgs: "changes agent source db db' \<Longrightarrow> md_agent_org db' = md_agent_org db"
  by (induction rule: changes.induct) (simp_all add: silent_def same_cores_def journalled_def)

lemma changes_journal_grows:
  "changes agent source db db' \<Longrightarrow> \<exists>es. md_events db' = md_events db @ es \<and> (\<forall>e \<in> set es. ev_agent e = agent \<and> ev_source e = source)"
proof (induction rule: changes.induct)
  case (changes_silent db db1 db2)
  then show ?case by (simp add: silent_def same_cores_def)
next
  case (changes_journal db db1 e db2)
  then obtain es where "md_events db1 = md_events db @ es" "\<forall>e \<in> set es. ev_agent e = agent \<and> ev_source e = source" by blast
  with changes_journal(2-4) have "md_events db2 = md_events db @ (es @ [e])"
    "\<forall>f \<in> set (es @ [e]). ev_agent f = agent \<and> ev_source f = source" by (auto simp: journalled_def)
  then show ?case by blast
qed simp

lemma changes_others: "changes agent source db db' \<Longrightarrow> b \<noteq> agent \<Longrightarrow> rows_of db' b = rows_of db b"
proof (induction rule: changes.induct)
  case (changes_silent db db1 db2)
  then show ?case by (simp add: silentD)
next
  case (changes_journal db db1 e db2)
  then show ?case by (simp add: journalled_def)
qed simp

lemma changes_pinned:
  "changes agent source db db' \<Longrightarrow> source \<noteq> SrcOperator \<Longrightarrow> r \<in> set (md_rows db) \<Longrightarrow> mr_pinned r \<Longrightarrow> r \<in> set (md_rows db')"
proof (induction rule: changes.induct)
  case (changes_silent db db1 db2)
  then show ?case by (simp add: silentD(2))
next
  case (changes_journal db db1 e db2)
  then have r: "r \<in> set (md_rows db1)" by simp
  then have "mr_id r \<noteq> ev_target e" using changes_journal(5) changes_journal.prems(1,3) by blast
  then show ?case using r changes_journal(2) by (simp add: journalled_def)
qed simp

text \<open>A journalled change never makes the journal write a live memory again.\<close>

lemma journalled_projects:
  assumes inv: "memory_inv db" and j: "journalled db e db'" and org: "md_agent_org db b = Some org"
    and old: "project org [] (events_of db b) \<noteq> None"
  shows "project org [] (events_of db' b) \<noteq> None"
proof (cases "ev_agent e = b")
  case True
  from old obtain rs where rs: "project org [] (events_of db b) = Some rs" by blast
  then have "mset (map core_of (rows_of db b)) = mset rs" using memory_invD(8) [OF inv] org by (simp add: projected_def)
  then have "same_rows (replay_row org (map core_of (rows_of db b)) e) (replay_row org rs e)" by (rule replay_row_perm)
  moreover have "replay_row org (map core_of (rows_of db b)) e \<noteq> None" using j True org by (auto simp: journalled_def)
  ultimately have "replay_row org rs e \<noteq> None" by auto
  then show ?thesis using rs True j by (auto simp: journalled_def events_of_append project_append)
next
  case False
  then show ?thesis using old j by (simp add: journalled_def events_of_append)
qed

lemma changes_projects:
  "changes agent source db db' \<Longrightarrow> memory_inv db \<Longrightarrow> md_agent_org db b = Some org
   \<Longrightarrow> project org [] (events_of db b) \<noteq> None \<Longrightarrow> project org [] (events_of db' b) \<noteq> None"
proof (induction rule: changes.induct)
  case (changes_silent db db1 db2)
  then show ?case by (simp add: silent_def same_cores_def events_of_def)
next
  case (changes_journal db db1 e db2)
  have "md_agent_org db1 b = Some org" using changes_orgs [OF changes_journal(1)] changes_journal.prems(2) by simp
  then show ?case
    using journalled_projects [OF changes_inv [OF changes_journal(1) changes_journal.prems(1)] changes_journal(2)]
      changes_journal.IH changes_journal.prems by blast
qed simp

section \<open>Restoring a memory that is there\<close>

text \<open>The operator's revert of a forget whose memory is back journals a write and leaves the rows alone.\<close>

definition doubles :: "uuid \<Rightarrow> memory_db \<Rightarrow> memory_db \<Rightarrow> bool" where
  "doubles agent db db' \<longleftrightarrow> (\<exists>e. md_events db' = md_events db @ [e] \<and> md_rows db' = md_rows db
     \<and> md_agent_org db' = md_agent_org db \<and> md_members db' = md_members db \<and> md_colleague_org db' = md_colleague_org db
     \<and> event_ok e \<and> writes e \<and> ev_agent e = agent \<and> ev_source e = SrcOperator
     \<and> ev_target e \<in> mr_id ` set (rows_of db agent)
     \<and> (\<forall>f \<in> set (md_events db). ev_target f = ev_target e \<longrightarrow> stamp f < stamp e \<and> ev_agent f = agent))"

lemma doubles_projection:
  assumes inv: "memory_inv db" and r: "doubles agent db db'" and org: "md_agent_org db agent = Some org"
  shows "project org [] (events_of db' agent) = None"
proof -
  obtain e where e: "md_events db' = md_events db @ [e]" "ev_agent e = agent" "writes e"
      "ev_target e \<in> mr_id ` set (rows_of db agent)" using r by (auto simp: doubles_def)
  show ?thesis
  proof (cases "project org [] (events_of db agent)")
    case None
    then show ?thesis by (simp add: events_of_append [OF e(1)] project_append)
  next
    case (Some rs)
    then have "mset (map core_of (rows_of db agent)) = mset rs" using memory_invD(8) [OF inv] org by (simp add: projected_def)
    then have "same_rows (replay_row org (map core_of (rows_of db agent)) e) (replay_row org rs e)" by (rule replay_row_perm)
    moreover have "replay_row org (map core_of (rows_of db agent)) e = None"
      using e(3,4) by (simp add: replay_row_None_iff image_image)
    ultimately show ?thesis using Some e(2) by (simp add: events_of_append [OF e(1)] project_append)
  qed
qed

lemma doubles_inv:
  assumes inv: "memory_inv db" and r: "doubles agent db db'"
  shows "memory_inv db'"
proof -
  obtain e where e: "md_events db' = md_events db @ [e]" "md_rows db' = md_rows db" "md_agent_org db' = md_agent_org db"
      "event_ok e" "ev_agent e = agent" "ev_target e \<in> mr_id ` set (rows_of db agent)"
    and old: "\<forall>f \<in> set (md_events db). ev_target f = ev_target e \<longrightarrow> stamp f < stamp e \<and> ev_agent f = agent"
    using r by (auto simp: doubles_def)
  obtain s where s: "s \<in> set (md_rows db)" "mr_id s = ev_target e" "mr_agent s = agent"
    using e(6) by (auto simp: rows_of_def)
  have proj: "projected db'"
    unfolding projected_def
  proof (intro allI impI)
    fix b org rs assume b: "md_agent_org db' b = Some org" and rs: "project org [] (events_of db' b) = Some rs"
    have "b \<noteq> agent" using doubles_projection [OF inv r, of org] b rs e(3) by auto
    then have "events_of db' b = events_of db b" using e(5) by (simp add: events_of_append [OF e(1)])
    then show "mset rs = mset (map core_of (rows_of db' b))"
      using memory_invD(8) [OF inv] b rs e(2,3) by (simp add: projected_def rows_of_def)
  qed
  have targets: "ev_agent f = mr_agent x" if "f \<in> set (md_events db')" "x \<in> set (md_rows db')" "ev_target f = mr_id x" for f x
  proof (cases "f = e")
    case True
    then have "x = s" using that(2,3) s distinct_map_inj [OF memory_invD(1) [OF inv]] by (metis e(2))
    then show ?thesis using True s(3) e(5) by simp
  qed (use that memory_invD(6) [OF inv] e(1,2) in auto)
  have owners: "ev_agent f = ev_agent g"
    if "f \<in> set (md_events db')" "g \<in> set (md_events db')" "ev_target f = ev_target g" for f g
  proof -
    have mine: "ev_agent h = agent" if "h \<in> set (md_events db')" "ev_target h = ev_target e" for h
      using that old e(1,5) by auto
    show ?thesis
    proof (cases "ev_target f = ev_target e")
      case True
      then show ?thesis using mine [of f] mine [of g] that by simp
    next
      case False
      then have "f \<in> set (md_events db)" "g \<in> set (md_events db)" using that e(1) by auto
      then show ?thesis using memory_invD(7) [OF inv] that(3) by blast
    qed
  qed
  show ?thesis
  proof (rule memory_invI)
    show "stamps_ordered (md_events db')" using memory_invD(2) [OF inv] old by (simp add: e(1) stamps_ordered_snoc)
    show "event_ok f" if "f \<in> set (md_events db')" for f using that memory_invD(5) [OF inv] e(1,4) by auto
    show "distinct (map mr_id (md_rows db'))" unfolding e(2) by (rule memory_invD(1) [OF inv])
    show "content_ok (mr_content x)" "md_agent_org db' (mr_agent x) = Some (mr_org x)" if "x \<in> set (md_rows db')" for x
      using memory_invD(3,4) [OF inv] that by (simp_all add: e(2,3))
  qed (fact proj | erule (2) targets owners)+
qed

end
