(* ===== verification/Memory_Steps.thy ===== *)
theory Memory_Steps
  imports Memory_Laws
begin

text \<open>
  Every operation of the memory store is a silent change or a sequence of journalled ones; hence the
  store is a transition system that keeps \<open>memory_inv\<close>.
\<close>

section \<open>The three journalled changes\<close>

lemma agent_org_Some: "agent_org db actor agent = Some org \<Longrightarrow> md_agent_org db agent = Some org \<and> memory_sees db actor org"
  by (auto simp: agent_org_def split: option.splits if_splits)

lemma memory_sees_events [simp]: "memory_sees (db\<lparr>md_events := es\<rparr>) actor org = memory_sees db actor org"
  by (cases actor) (simp_all add: memory_sees_def)

lemma agent_org_events [simp]: "agent_org (db\<lparr>md_events := es\<rparr>) actor agent = agent_org db actor agent"
  by (simp add: agent_org_def split: option.split)

definition event_row ::
  "uuid \<Rightarrow> uuid \<Rightarrow> uuid \<Rightarrow> uuid \<Rightarrow> mutation_source \<Rightarrow> timestamp \<Rightarrow> event_payload \<Rightarrow> memory_event" where
  "event_row event agent org target source now payload =
     \<lparr>ev_id = event, ev_agent = agent, ev_org = org, ev_target = target, ev_source = source, ev_created_at = now,
      ev_payload = payload\<rparr>"

lemma event_row_sel [simp]:
  "ev_id (event_row i a g t s n p) = i" "ev_agent (event_row i a g t s n p) = a" "ev_target (event_row i a g t s n p) = t"
  "ev_source (event_row i a g t s n p) = s" "ev_created_at (event_row i a g t s n p) = n"
  "ev_payload (event_row i a g t s n p) = p" "stamp (event_row i a g t s n p) = (n, i)"
  by (simp_all add: event_row_def stamp_def)

lemma insert_event_Inr:
  "insert_event db actor event agent target source now payload = Inr db1 \<longleftrightarrow>
   (\<exists>org. agent_org db actor agent = Some org \<and> payload_admitted payload
      \<and> db1 = db\<lparr>md_events := md_events db @ [event_row event agent org target source now payload]\<rparr>)"
  by (auto simp: insert_event_def event_row_def split: option.splits)

lemma lock_existing_Inr:
  assumes "lock_existing db actor agent target source = Inr r"
  shows "r \<in> set (md_rows db)" "mr_id r = target" "mr_agent r = agent" "memory_sees db actor (mr_org r)"
    "mr_pinned r \<Longrightarrow> source = SrcOperator"
  using assms
  by (auto simp: lock_existing_def decode_memory_row_def bypasses_pin_def split: option.splits sum.splits if_splits
      dest!: find_Some_mem)

text \<open>An event of a memory is later than the events this memory has already.\<close>

definition stamped :: "memory_db \<Rightarrow> uuid \<Rightarrow> timestamp \<Rightarrow> uuid \<Rightarrow> bool" where
  "stamped db target now event \<longleftrightarrow> (\<forall>f \<in> set (md_events db). ev_target f = target \<longrightarrow> stamp f < (now, event))"

lemma memory_update_rows:
  assumes "\<forall>x \<in> set rows. mr_id x = target \<longrightarrow> x = r" "mr_id r = target" "mr_agent r = agent"
    and f: "core_of (f r) = g (core_of r)" "mr_agent (f r) = agent" "mr_id (f r) = target"
  shows "map core_of (filter (\<lambda>x. mr_agent x = agent) (update_where (\<lambda>x. mr_id x = target) f rows))
      = update_where (\<lambda>x. mr_id x = target) g (map core_of (filter (\<lambda>x. mr_agent x = agent) rows))"
    and "b \<noteq> agent \<Longrightarrow> filter (\<lambda>x. mr_agent x = b) (update_where (\<lambda>x. mr_id x = target) f rows)
      = filter (\<lambda>x. mr_agent x = b) rows"
    and "map mr_id (update_where (\<lambda>x. mr_id x = target) f rows) = map mr_id rows"
proof -
  show "map core_of (filter (\<lambda>x. mr_agent x = agent) (update_where (\<lambda>x. mr_id x = target) f rows))
      = update_where (\<lambda>x. mr_id x = target) g (map core_of (filter (\<lambda>x. mr_agent x = agent) rows))"
    using assms(1)
  proof (induction rows)
    case (Cons x rows)
    from Cons.prems have xr: "mr_id x = target \<Longrightarrow> x = r" by simp
    from Cons.prems have "\<forall>x \<in> set rows. mr_id x = target \<longrightarrow> x = r" by simp
    note IH = Cons.IH [OF this]
    show ?case
    proof (cases "mr_id x = target")
      case True
      then have x: "x = r" by (rule xr)
      show ?thesis unfolding x by (simp add: IH f assms(2,3))
    qed (simp add: IH)
  qed simp
  show "filter (\<lambda>x. mr_agent x = b) (update_where (\<lambda>x. mr_id x = target) f rows)
      = filter (\<lambda>x. mr_agent x = b) rows" if "b \<noteq> agent"
    using assms(1)
  proof (induction rows)
    case (Cons x rows)
    from Cons.prems have xr: "mr_id x = target \<Longrightarrow> x = r" by simp
    from Cons.prems have "\<forall>x \<in> set rows. mr_id x = target \<longrightarrow> x = r" by simp
    note IH = Cons.IH [OF this]
    show ?case
    proof (cases "mr_id x = target")
      case True
      then have x: "x = r" by (rule xr)
      show ?thesis unfolding x by (simp add: IH f assms(2,3) \<open>b \<noteq> agent\<close> [symmetric])
    qed (simp add: IH)
  qed simp
  show "map mr_id (update_where (\<lambda>x. mr_id x = target) f rows) = map mr_id rows"
    using assms(1)
  proof (induction rows)
    case (Cons x rows)
    from Cons.prems have xr: "mr_id x = target \<Longrightarrow> x = r" by simp
    from Cons.prems have "\<forall>x \<in> set rows. mr_id x = target \<longrightarrow> x = r" by simp
    note IH = Cons.IH [OF this]
    show ?case
    proof (cases "mr_id x = target")
      case True
      then have x: "x = r" by (rule xr)
      show ?thesis unfolding x by (simp add: IH f assms(2,3))
    qed (simp add: IH)
  qed simp
qed

lemma row_unique: "memory_inv db \<Longrightarrow> r \<in> set (md_rows db) \<Longrightarrow> x \<in> set (md_rows db) \<Longrightarrow> mr_id x = mr_id r \<Longrightarrow> x = r"
  using memory_invD(1) distinct_map_inj by metis

lemma only_row:
  assumes "memory_inv db" "r \<in> set (md_rows db)" "mr_id r = target"
  shows "\<forall>x \<in> set (md_rows db). mr_id x = target \<longrightarrow> x = r"
  using row_unique [OF assms(1,2)] assms(3) by metis

lemma journalled_set:
  assumes inv: "memory_inv db" and r: "r \<in> set (md_rows db)" "mr_id r = target" "mr_agent r = agent"
    and st: "stamped db target now event" and ok: "content_ok before" "content_ok after"
    and f: "core_of (f r) = (core_of r)\<lparr>mr_content := after, mr_state := s, mr_pinned := p\<rparr>"
  shows "journalled db (event_row event agent org target source now (PlUpdate before after k s p))
    (set_row (db\<lparr>md_events := md_events db @ [event_row event agent org target source now (PlUpdate before after k s p)]\<rparr>)
       target f)" (is "journalled db ?e ?db")
proof -
  let ?rows = "update_where (\<lambda>x. mr_id x = target) f (md_rows db)"
  have only: "\<forall>x \<in> set (md_rows db). mr_id x = target \<longrightarrow> x = r" by (rule only_row [OF inv r(1,2)])
  have keep: "mr_agent (f r) = agent" "mr_id (f r) = target" "mr_org (f r) = mr_org r" "mr_content (f r) = after"
    using arg_cong [OF f, of mr_agent] arg_cong [OF f, of mr_id] arg_cong [OF f, of mr_org] arg_cong [OF f, of mr_content] r
    by simp_all
  note up = memory_update_rows [OF only r(2,3), where f = f and g = "\<lambda>r. r\<lparr>mr_content := after, mr_state := s, mr_pinned := p\<rparr>",
      OF f keep(1,2)]
  have mem: "x \<in> set (md_rows db) \<and> mr_id x \<noteq> target \<or> x = f r" if x: "x \<in> set ?rows" for x
  proof -
    obtain y where y: "y \<in> set (md_rows db)" "x = (if mr_id y = target then f y else y)"
      using x by (rule update_where_memE)
    show ?thesis
    proof (cases "mr_id y = target")
      case True
      with only y(1) have "y = r" by blast
      with y(2) True show ?thesis by simp
    qed (use y in simp)
  qed
  have org: "md_agent_org db agent = Some (mr_org r)" using memory_invD(4) [OF inv r(1)] r(3) by simp
  have same: "\<forall>f \<in> set (md_events db). ev_target f = target \<longrightarrow> ev_agent f = agent"
    using memory_invD(6) [OF inv _ r(1)] r by auto
  have "replay_row (mr_org r) (map core_of (rows_of db agent)) ?e = Some (map core_of (rows_of ?db agent))"
    using up(1) by (simp add: replay_row_def rows_of_def set_row_def)
  moreover have "\<forall>b. b \<noteq> agent \<longrightarrow> rows_of ?db b = rows_of db b" using up(2) by (simp add: rows_of_def set_row_def)
  moreover have "\<forall>x \<in> set ?rows. mr_id x \<noteq> target \<longrightarrow> x \<in> set (md_rows db)" using mem keep by blast
  moreover have "\<forall>x \<in> set ?rows. mr_id x = target \<longrightarrow> mr_agent x = agent" using mem keep by blast
  moreover have "\<forall>x \<in> set (md_rows db). mr_id x \<noteq> target \<longrightarrow> x \<in> set ?rows" by (auto simp: set_update_where)
  moreover have "content_ok (mr_content x)" "md_agent_org db (mr_agent x) = Some (mr_org x)" if "x \<in> set ?rows" for x
  proof -
    from mem [OF that] consider "x \<in> set (md_rows db)" | "x = f r" by blast
    then show "content_ok (mr_content x)" "md_agent_org db (mr_agent x) = Some (mr_org x)"
      using memory_invD(3,4) [OF inv, of x] keep org ok(2) by (cases; simp)+
  qed
  moreover have "distinct (map mr_id ?rows)" unfolding up(3) by (rule memory_invD(1) [OF inv])
  moreover have "\<forall>x \<in> set (md_rows db). mr_id x = target \<longrightarrow> mr_agent x = agent" using only r(3) by blast
  ultimately show ?thesis
    using st ok org same by (simp add: journalled_def set_row_def event_ok_def stamped_def)
qed

lemma journalled_forget:
  assumes inv: "memory_inv db" and r: "r \<in> set (md_rows db)" "mr_id r = target" "mr_agent r = agent"
    and st: "stamped db target now event" and ok: "content_ok before"
  shows "journalled db (event_row event agent org target source now (PlForget before))
    (delete_rows (db\<lparr>md_events := md_events db @ [event_row event agent org target source now (PlForget before)]\<rparr>)
       (\<lambda>x. mr_id x = target))" (is "journalled db ?e ?db")
proof -
  have only: "\<forall>x \<in> set (md_rows db). mr_id x = target \<longrightarrow> x = r" by (rule only_row [OF inv r(1,2)])
  have org: "md_agent_org db agent = Some (mr_org r)" using memory_invD(4) [OF inv r(1)] r(3) by simp
  have same: "\<forall>f \<in> set (md_events db). ev_target f = target \<longrightarrow> ev_agent f = agent"
    using memory_invD(6) [OF inv _ r(1)] r by auto
  have "filter (\<lambda>x. mr_id x \<noteq> target) (map core_of (rows_of db agent)) = map core_of (rows_of ?db agent)"
    by (simp add: rows_of_def delete_rows_def filter_map o_def conj_commute)
  then have "replay_row (mr_org r) (map core_of (rows_of db agent)) ?e = Some (map core_of (rows_of ?db agent))"
    by (simp add: replay_row_def)
  moreover have "rows_of ?db b = rows_of db b" if "b \<noteq> agent" for b
  proof -
    have "\<forall>x \<in> set (md_rows db). mr_agent x = b \<longrightarrow> mr_id x \<noteq> target" using only r(3) that by blast
    then show ?thesis by (auto simp: rows_of_def delete_rows_def intro: filter_cong)
  qed
  moreover have "distinct (map mr_id (md_rows ?db))"
    using memory_invD(1) [OF inv] by (simp add: delete_rows_def distinct_map_filter)
  moreover have "\<forall>x \<in> set (md_rows db). mr_id x = target \<longrightarrow> mr_agent x = agent" using only r(3) by blast
  moreover have "\<forall>x \<in> set (md_rows ?db). content_ok (mr_content x) \<and> md_agent_org db (mr_agent x) = Some (mr_org x)"
    using memory_invD(3,4) [OF inv] by (simp add: delete_rows_def)
  ultimately show ?thesis
    using st ok org same by (simp add: journalled_def delete_rows_def event_ok_def stamped_def)
qed

lemma journalled_write:
  assumes inv: "memory_inv db" and new: "target \<notin> mr_id ` set (md_rows db)"
    and own: "\<forall>f \<in> set (md_events db). ev_target f = target \<longrightarrow> ev_agent f = agent"
    and org: "md_agent_org db agent = Some org"
    and st: "stamped db target now event" and ok: "content_ok content"
  shows "journalled db (event_row event agent org target source now (PlWrite content k s p u))
    (db\<lparr>md_events := md_events db @ [event_row event agent org target source now (PlWrite content k s p u)],
        md_rows := md_rows db @ [fresh_row target agent org content k s p u (source_turn_id source) now v]\<rparr>)"
    (is "journalled db ?e ?db")
proof -
  have "target \<notin> mr_id ` set (map core_of (rows_of db agent))" using new by (auto simp: rows_of_def)
  then have "replay_row org (map core_of (rows_of db agent)) ?e = Some (map core_of (rows_of ?db agent))"
    by (simp add: replay_row_def rows_of_def)
  moreover have "\<forall>b. b \<noteq> agent \<longrightarrow> rows_of ?db b = rows_of db b" by (simp add: rows_of_def)
  moreover have "distinct (map mr_id (md_rows ?db))" using memory_invD(1) [OF inv] new by auto
  moreover have "\<forall>x \<in> set (md_rows ?db). content_ok (mr_content x) \<and> md_agent_org db (mr_agent x) = Some (mr_org x)"
    using memory_invD(3,4) [OF inv] org ok by auto
  moreover have "\<forall>x \<in> set (md_rows db). mr_id x \<noteq> target" using new by auto
  ultimately show ?thesis
    using st ok org own by (auto simp: journalled_def event_ok_def stamped_def)
qed

section \<open>Operations as changes\<close>

lemma journalled_changes:
  assumes "journalled db e db'" "ev_agent e = agent" "ev_source e = source"
    and "\<And>r. source \<noteq> SrcOperator \<Longrightarrow> r \<in> set (md_rows db) \<Longrightarrow> mr_id r = ev_target e \<Longrightarrow> \<not> mr_pinned r"
  shows "changes agent source db db'"
  by (rule changes_journal [OF changes_refl assms])

lemma silent_changes: "silent db db' \<Longrightarrow> changes agent source db db'"
  by (rule changes_silent [OF changes_refl])

lemma locked_unpinned:
  assumes inv: "memory_inv db" and lock: "lock_existing db actor agent target source = Inr r"
    and x: "source \<noteq> SrcOperator" "x \<in> set (md_rows db)" "mr_id x = target"
  shows "\<not> mr_pinned x"
proof -
  have "x = r" using only_row [OF inv lock_existing_Inr(1) [OF lock] lock_existing_Inr(2) [OF lock]] x(2,3) by blast
  then show ?thesis using lock_existing_Inr(5) [OF lock] x(1) by blast
qed

text \<open>A locked row changed along an update event, or forgotten along a forget event.\<close>

lemma locked_set:
  assumes inv: "memory_inv db" and lock: "lock_existing db actor agent target source = Inr r"
    and st: "stamped db target now event" and ok: "content_ok after"
    and ins: "insert_event db actor' event agent target source now (PlUpdate (mr_content r) after k s p) = Inr db1"
    and f: "core_of (f r) = (core_of r)\<lparr>mr_content := after, mr_state := s, mr_pinned := p\<rparr>"
  shows "changes agent source db (set_row db1 target f)"
proof -
  note r = lock_existing_Inr [OF lock]
  from ins obtain org where db1: "db1 = db\<lparr>md_events := md_events db @
      [event_row event agent org target source now (PlUpdate (mr_content r) after k s p)]\<rparr>"
    by (auto simp: insert_event_Inr)
  have "journalled db (event_row event agent org target source now (PlUpdate (mr_content r) after k s p))
      (set_row db1 target f)"
    unfolding db1 by (rule journalled_set [OF inv r(1-3) st memory_invD(3) [OF inv r(1)] ok, where f = f, OF f])
  then show ?thesis
    by (rule journalled_changes) (use locked_unpinned [OF inv lock] in simp_all)
qed

lemma locked_forget:
  assumes inv: "memory_inv db" and lock: "lock_existing db actor agent target source = Inr r"
    and st: "stamped db target now event"
    and ins: "insert_event db actor' event agent target source now (PlForget (mr_content r)) = Inr db1"
  shows "changes agent source db (delete_rows db1 (\<lambda>x. mr_id x = target))"
proof -
  note r = lock_existing_Inr [OF lock]
  from ins obtain org where db1: "db1 = db\<lparr>md_events := md_events db @
      [event_row event agent org target source now (PlForget (mr_content r))]\<rparr>"
    by (auto simp: insert_event_Inr)
  have "journalled db (event_row event agent org target source now (PlForget (mr_content r)))
      (delete_rows db1 (\<lambda>x. mr_id x = target))"
    unfolding db1 by (rule journalled_forget [OF inv r(1-3) st memory_invD(3) [OF inv r(1)]])
  then show ?thesis
    by (rule journalled_changes) (use locked_unpinned [OF inv lock] in simp_all)
qed

fun mutation_ok :: "memory_mutation \<Rightarrow> bool" where
  "mutation_ok (MWrite _ _ c _ _ _ _) = content_ok c"
| "mutation_ok (MUpdate _ _ c _ _) = content_ok c"
| "mutation_ok (MForget _ _ _) = True"

text \<open>The memory a mutation is about: the one it mints or the one it names.\<close>

fun mutation_target :: "uuid \<Rightarrow> memory_mutation \<Rightarrow> uuid" where
  "mutation_target memory (MWrite _ _ _ _ _ _ _) = memory"
| "mutation_target memory (MUpdate _ target _ _ _) = target"
| "mutation_target memory (MForget _ target _) = target"

definition unused :: "memory_db \<Rightarrow> uuid \<Rightarrow> bool" where
  "unused db i \<longleftrightarrow> i \<notin> mr_id ` set (md_rows db) \<and> i \<notin> ev_target ` set (md_events db)"

lemma apply_write_changes:
  assumes inv: "memory_inv db" and st: "stamped db memory now event" and new: "unused db memory" and ok: "content_ok content"
    and run: "apply_write db actor now memory event agent k content state pinned subject source emb = Inr (out, db')"
  shows "changes agent source db db'"
proof -
  from run obtain db1 where ins: "insert_event db actor event agent memory source now (PlWrite content k state pinned subject) = Inr db1"
    by (auto simp: apply_write_def Let_def split: option.splits sum.splits if_splits)
  then obtain org where org: "agent_org db actor agent = Some org"
    and db1: "db1 = db\<lparr>md_events := md_events db @
       [event_row event agent org memory source now (PlWrite content k state pinned subject)]\<rparr>"
    by (auto simp: insert_event_Inr)
  have "agent_org db1 actor agent = Some org" using org by (simp add: db1)
  then have db': "db' = db1\<lparr>md_rows := md_rows db1 @
      [fresh_row memory agent org content k state pinned subject (source_turn_id source) now (Some emb)]\<rparr>"
    using run ins by (auto simp: apply_write_def Let_def split: option.splits if_splits)
  have eq: "db' = db\<lparr>md_events := md_events db @ [event_row event agent org memory source now (PlWrite content k state pinned subject)],
      md_rows := md_rows db @ [fresh_row memory agent org content k state pinned subject (source_turn_id source) now (Some emb)]\<rparr>"
    by (simp add: db' db1)
  have "journalled db (event_row event agent org memory source now (PlWrite content k state pinned subject)) db'"
    unfolding eq
    by (rule journalled_write [OF inv _ _ _ st ok]) (use new agent_org_Some [OF org] in \<open>auto simp: unused_def\<close>)
  then show ?thesis by (rule journalled_changes) (use new in \<open>auto simp: unused_def\<close>)
qed

lemma apply_as_changes:
  assumes inv: "memory_inv db" and st: "stamped db (mutation_target memory m) now event" and new: "unused db memory" and ok: "mutation_ok m"
    and run: "apply_as embedder db actor now memory event m = Some (Inr (out, db'))"
  shows "changes (mutation_agent m) (mutation_source_of m) db db'"
proof (cases m)
  case (MWrite agent k content state pinned subject source)
  with run obtain emb where
    "apply_write db actor now memory event agent k content state pinned subject source emb = Inr (out, db')"
    by (auto simp: apply_as_def split: option.splits sum.splits if_splits)
  then show ?thesis using apply_write_changes [OF inv _ new] st MWrite ok by simp
next
  case (MUpdate agent target content state source)
  with run obtain emb where
    "apply_update db actor now event agent target content state source emb = Inr (out, db')"
    by (auto simp: apply_as_def split: option.splits sum.splits if_splits)
  then obtain r db1 where lock: "lock_existing db actor agent target source = Inr r"
    and ins: "insert_event db actor event agent target source now
        (PlUpdate (mr_content r) content (mr_kind r) state (mr_pinned r)) = Inr db1"
    and db': "db' = set_row db1 target (\<lambda>r. r\<lparr>mr_content := content, mr_state := state, mr_embedding := Some emb\<rparr>)"
    by (auto simp: apply_update_def Let_def split: sum.splits)
  have "changes agent source db db'"
    unfolding db' by (rule locked_set [OF inv lock _ _ ins]) (use ok st MUpdate in \<open>simp_all add: core_of_def\<close>)
  then show ?thesis by (simp add: MUpdate)
next
  case (MForget agent target source)
  with run have "apply_forget db actor now event agent target source = Inr (out, db')"
    by (auto simp: apply_as_def split: option.splits sum.splits if_splits)
  then obtain r db1 where lock: "lock_existing db actor agent target source = Inr r"
    and ins: "insert_event db actor event agent target source now (PlForget (mr_content r)) = Inr db1"
    and db': "db' = delete_rows db1 (\<lambda>x. mr_id x = target)"
    by (auto simp: apply_forget_def split: sum.splits)
  show ?thesis unfolding db' MForget using locked_forget [OF inv lock _ ins] st by (simp add: MForget)
qed

end
