(* ===== verification/Memory_Sweeps.thy ===== *)
theory Memory_Sweeps
  imports Memory_Steps
begin

text \<open>
  The sweeps, the validation clock, the operator's revert and pin as changes, and the store as a
  transition system.
\<close>

section \<open>Loops\<close>

text \<open>
  The clock of one call stands still while it journals events of several memories, under ids in no
  particular order; it is later than the events these memories have.
\<close>

definition later_than :: "memory_db \<Rightarrow> timestamp \<Rightarrow> uuid set \<Rightarrow> bool" where
  "later_than db now targets \<longleftrightarrow> (\<forall>f \<in> set (md_events db). ev_target f \<in> targets \<longrightarrow> ev_created_at f < now)"

lemma later_stamped: "later_than db now targets \<Longrightarrow> target \<in> targets \<Longrightarrow> stamped db target now event"
  by (auto simp: later_than_def stamped_def stamp_def less_prod_def)

lemma later_next:
  assumes "later_than db now targets" "md_events db' = md_events db @ [event_row event agent org target source now payload]"
    and "rest \<subseteq> targets" "target \<notin> rest"
  shows "later_than db' now rest"
  using assms by (auto simp: later_than_def)

lemma insert_event_events:
  "insert_event db actor event agent target source now payload = Inr db1 \<Longrightarrow>
   \<exists>org. md_events db1 = md_events db @ [event_row event agent org target source now payload] \<and> md_rows db1 = md_rows db"
  by (auto simp: insert_event_Inr)

lemma lock_existing_self:
  assumes inv: "memory_inv db" and r: "r \<in> set (md_rows db)" "\<not> mr_pinned r"
  shows "lock_existing db Privileged (mr_agent r) (mr_id r) source = Inr r"
proof -
  have "find (\<lambda>x. mr_id x = mr_id r) (md_rows db) = Some r"
    using find_key_unique [OF memory_invD(1) [OF inv] r(1)] .
  then show ?thesis
    using r(2) decode_memory_row_ok [OF memory_invD(3) [OF inv r(1)]] by (simp add: lock_existing_def memory_sees_def)
qed

lemma hold_rows_changes:
  assumes "memory_inv db" "later_than db now (mr_id ` set rows)" "set rows \<subseteq> set (md_rows db)" "distinct (map mr_id rows)"
    and "\<forall>r \<in> set rows. mr_agent r = agent \<and> \<not> mr_pinned r" "hold_rows db now mint n rows = Inr (k, db')"
  shows "changes agent SrcLibrarian db db'"
  using assms
proof (induction rows arbitrary: db n)
  case Nil
  then show ?case by (simp add: changes_refl)
next
  case (Cons r rows)
  let ?p = "PlUpdate (mr_content r) (mr_content r) (mr_kind r) MsHeld (mr_pinned r)"
  let ?f = "\<lambda>r. r\<lparr>mr_state := MsHeld\<rparr>"
  have r: "r \<in> set (md_rows db)" "mr_agent r = agent" "\<not> mr_pinned r" using Cons.prems(3,5) by auto
  note inv = Cons.prems(1) and ok = memory_invD(3) [OF Cons.prems(1) r(1)]
  from Cons.prems(6) obtain db1 where ins: "insert_event db Privileged (mint n) agent (mr_id r) SrcLibrarian now ?p = Inr db1"
    and rest: "hold_rows (set_row db1 (mr_id r) ?f) now mint (n + 1) rows = Inr (k, db')"
    using decode_memory_row_ok [OF ok] r(2) by (auto split: sum.splits)
  have ch: "changes agent SrcLibrarian db (set_row db1 (mr_id r) ?f)"
    using locked_set [OF inv lock_existing_self [OF inv r(1,3)] _ ok ins [folded r(2)], of ?f] later_stamped [OF Cons.prems(2)] r(2)
    by (simp add: core_of_def)
  have "changes agent SrcLibrarian (set_row db1 (mr_id r) ?f) db'"
  proof (rule Cons.IH [OF changes_inv [OF ch inv] _ _ _ _ rest])
    obtain org where ev: "md_events db1 = md_events db @ [event_row (mint n) agent org (mr_id r) SrcLibrarian now ?p]"
      using insert_event_events [OF ins] by blast
    show "later_than (set_row db1 (mr_id r) ?f) now (mr_id ` set rows)"
      by (rule later_next [OF Cons.prems(2)]) (use ev Cons.prems(4) in \<open>auto simp: set_row_def\<close>)
    show "set rows \<subseteq> set (md_rows (set_row db1 (mr_id r) ?f))"
    proof
      fix x assume x: "x \<in> set rows"
      then have "x \<in> set (md_rows db)" "mr_id x \<noteq> mr_id r" using Cons.prems(3,4) by (auto, metis imageI)
      then show "x \<in> set (md_rows (set_row db1 (mr_id r) ?f))"
        using insert_event_events [OF ins] by (force simp: set_row_def set_update_where)
    qed
  qed (use Cons.prems in auto)
  then show ?case using ch by (rule changes_trans)
qed

lemma forget_rows_changes:
  assumes "memory_inv db" "later_than db now (mr_id ` set rows)" "set rows \<subseteq> set (md_rows db)" "distinct (map mr_id rows)"
    and "\<forall>r \<in> set rows. mr_agent r = agent \<and> \<not> mr_pinned r" "forget_rows db now mint n agent rows = Inr (ids, db')"
  shows "changes agent SrcLibrarian db db' \<and> ids = map mr_id rows
    \<and> md_rows db' = filter (\<lambda>r. mr_id r \<notin> mr_id ` set rows) (md_rows db)"
  using assms
proof (induction rows arbitrary: db n ids)
  case Nil
  then show ?case by (simp add: changes_refl)
next
  case (Cons r rows)
  have r: "r \<in> set (md_rows db)" "mr_agent r = agent" "\<not> mr_pinned r" using Cons.prems(3,5) by auto
  note inv = Cons.prems(1) and ok = memory_invD(3) [OF Cons.prems(1) r(1)]
  from Cons.prems(6) obtain db1 js where ins: "insert_event db Privileged (mint n) agent (mr_id r) SrcLibrarian now (PlForget (mr_content r)) = Inr db1"
    and rest: "forget_rows (delete_rows db1 (\<lambda>s. mr_id s = mr_id r)) now mint (n + 1) agent rows = Inr (js, db')"
    and ids: "ids = mr_id r # js"
    using decode_memory_row_ok [OF ok] by (auto split: sum.splits)
  let ?db2 = "delete_rows db1 (\<lambda>s. mr_id s = mr_id r)"
  have rows2: "md_rows ?db2 = filter (\<lambda>s. mr_id s \<noteq> mr_id r) (md_rows db)" "md_events ?db2 = md_events db1"
    using insert_event_events [OF ins] by (auto simp: delete_rows_def)
  have ch: "changes agent SrcLibrarian db ?db2"
    using locked_forget [OF inv lock_existing_self [OF inv r(1,3)] _ ins [folded r(2)]] later_stamped [OF Cons.prems(2)] r(2)
    by simp
  have "changes agent SrcLibrarian ?db2 db' \<and> js = map mr_id rows
      \<and> md_rows db' = filter (\<lambda>r. mr_id r \<notin> mr_id ` set rows) (md_rows ?db2)"
  proof (rule Cons.IH [OF changes_inv [OF ch inv] _ _ _ _ rest])
    obtain org where ev: "md_events ?db2 = md_events db @ [event_row (mint n) agent org (mr_id r) SrcLibrarian now (PlForget (mr_content r))]"
      using insert_event_events [OF ins] rows2(2) by metis
    show "later_than ?db2 now (mr_id ` set rows)"
      by (rule later_next [OF Cons.prems(2) ev]) (use Cons.prems(4) in auto)
    show "set rows \<subseteq> set (md_rows ?db2)" using Cons.prems(3,4) by (auto simp: rows2, metis imageI)
  qed (use Cons.prems in auto)
  moreover have "filter (\<lambda>x. mr_id x \<notin> mr_id ` set rows) (md_rows ?db2)
      = filter (\<lambda>x. mr_id x \<notin> mr_id ` set (r # rows)) (md_rows db)"
    unfolding rows2 filter_filter by (rule filter_cong) auto
  ultimately show ?case using changes_trans [OF _ ch] ids by simp
qed

lemma distinct_ids_filter: "memory_inv db \<Longrightarrow> distinct (map mr_id (filter p (md_rows db)))"
  by (simp add: memory_invD(1) distinct_map_filter)

text \<open>A sweep's call is later than everything journalled for its agent.\<close>

definition ahead :: "memory_db \<Rightarrow> uuid \<Rightarrow> timestamp \<Rightarrow> bool" where
  "ahead db agent now \<longleftrightarrow> (\<forall>f \<in> set (events_of db agent). ev_created_at f < now)"

lemma ahead_later:
  assumes "memory_inv db" "ahead db agent now" "set rows \<subseteq> set (rows_of db agent)"
  shows "later_than db now (mr_id ` set rows)"
  unfolding later_than_def
proof (intro ballI impI)
  fix f assume f: "f \<in> set (md_events db)" "ev_target f \<in> mr_id ` set rows"
  then obtain r where "r \<in> set (md_rows db)" "mr_agent r = agent" "ev_target f = mr_id r"
    using assms(3) by (auto simp: rows_of_def)
  then have "ev_agent f = agent" using memory_invD(6) [OF assms(1) f(1)] by simp
  then show "ev_created_at f < now" using assms(2) f(1) by (simp add: ahead_def events_of_def)
qed

lemma decay_changes:
  assumes "memory_inv db" "ahead db agent now" "decay_validated db now mint agent cutoff = Inr (k, db')"
  shows "changes agent SrcLibrarian db db'"
  using assms(3) unfolding decay_validated_def
  by (rule hold_rows_changes [OF assms(1) ahead_later [OF assms(1,2)] _ distinct_ids_filter [OF assms(1)], rotated 3])
    (auto simp: rows_of_def)

lemma mature_changes:
  assumes "memory_inv db" "ahead db agent now" "mature_tentative db now mint agent cutoff = Inr (k, db')"
  shows "changes agent SrcLibrarian db db'"
  using assms(3) unfolding mature_tentative_def
  by (rule hold_rows_changes [OF assms(1) ahead_later [OF assms(1,2)] _ distinct_ids_filter [OF assms(1)], rotated 3])
    (auto simp: rows_of_def)

lemma evict_changes:
  assumes inv: "memory_inv db" and st: "ahead db agent now" and run: "evict_overflow db now mint agent quota = Inr (ids, db')"
  shows "changes agent SrcLibrarian db db'"
proof (cases "length (filter (\<lambda>r. mr_agent r = agent) (md_rows db)) \<le> quota")
  case True
  with run show ?thesis by (simp add: evict_overflow_def changes_refl)
next
  case False
  define victims where "victims = take (length (filter (\<lambda>r. mr_agent r = agent) (md_rows db)) - quota)
      (sort_key eviction_key (filter (\<lambda>r. mr_agent r = agent \<and> \<not> mr_pinned r) (md_rows db)))"
  have mem: "set victims \<subseteq> set (filter (\<lambda>r. mr_agent r = agent \<and> \<not> mr_pinned r) (md_rows db))"
    unfolding victims_def by (rule order_trans [OF set_take_subset]) simp
  have "distinct (map mr_id (sort_key eviction_key (filter (\<lambda>r. mr_agent r = agent \<and> \<not> mr_pinned r) (md_rows db))))"
    using distinct_ids_filter [OF inv] by (simp add: distinct_map)
  then have dist: "distinct (map mr_id victims)" unfolding victims_def by (simp add: take_map [symmetric])
  have fr: "forget_rows db now mint 0 agent victims = Inr (ids, db')"
    using run False by (simp add: evict_overflow_def Let_def victims_def)
  have sub: "set victims \<subseteq> set (md_rows db)" and free: "\<forall>r \<in> set victims. mr_agent r = agent \<and> \<not> mr_pinned r"
    using mem by auto
  have own: "set victims \<subseteq> set (rows_of db agent)" using mem by (auto simp: rows_of_def)
  show ?thesis by (rule conjunct1 [OF forget_rows_changes [OF inv ahead_later [OF inv st own] sub dist free fr]])
qed

section \<open>Validation, access, contradictions, the operator\<close>

lemma validation_changes:
  assumes inv: "memory_inv db" and st: "stamped db memory now event"
    and run: "record_validation_as db actor now validation event agent memory origin detail = Inr (row, db')"
  shows "changes agent (origin_mutation_source origin) db db'"
proof -
  let ?src = "origin_mutation_source origin"
  from run obtain r vs db2 where lock: "lock_existing db actor agent memory ?src = Inr r"
    and ins: "insert_event (db\<lparr>md_validations := vs\<rparr>) actor event agent memory ?src now
        (PlUpdate (mr_content r) (mr_content r) (mr_kind r) (validated_state (mr_state r)) (mr_pinned r)) = Inr db2"
    and db': "db' = set_row db2 memory (\<lambda>x. x\<lparr>mr_state := validated_state (mr_state r), mr_last_validated_at := now\<rparr>)"
    by (auto simp: record_validation_as_def Let_def split: sum.splits option.splits if_splits)
  let ?db1 = "db\<lparr>md_validations := vs\<rparr>"
  have s: "silent db ?db1" by (simp add: silent_def same_cores_def)
  have lock1: "lock_existing ?db1 actor agent memory ?src = Inr r"
    using lock by (cases actor) (simp_all add: lock_existing_def memory_sees_def)
  have "changes agent ?src ?db1 db'"
    unfolding db'
    by (rule locked_set [OF same_cores_inv [OF inv silentD(1) [OF s]] lock1 _ memory_invD(3) [OF inv lock_existing_Inr(1) [OF lock]] ins])
      (use st in \<open>simp_all add: stamped_def core_of_def\<close>)
  then show ?thesis using silent_changes [OF s] by (rule changes_trans)
qed

text \<open>Recording a recall changes when and how often a memory was read, and nothing else.\<close>

definition unread :: "memory_row \<Rightarrow> memory_row" where
  "unread r = r\<lparr>mr_last_accessed_at := 0, mr_access_count := 0\<rparr>"

lemma core_of_unread: "unread r = unread s \<Longrightarrow> core_of r = core_of s"
  by (cases r; cases s) (simp add: unread_def core_of_def)

lemma access_same_cores:
  assumes "record_access_as db actor now ids = Some db'"
  shows "same_cores db db'" "map unread (md_rows db') = map unread (md_rows db)"
  using assms by (auto simp: record_access_as_def same_cores_def core_of_def unread_def update_where_def split: if_splits)

lemma contradiction_silent: "record_contradiction db now new agent a b reason = Inr (i, db') \<Longrightarrow> silent db db'"
  by (auto simp: record_contradiction_def Let_def silent_def same_cores_def split: option.splits if_splits)

lemma resolve_silent: "resolve_contradiction_as db actor now i res = Inr db' \<Longrightarrow> silent db db'"
  by (auto simp: resolve_contradiction_as_def Let_def silent_def same_cores_def split: if_splits)

lemma pin_changes:
  assumes inv: "memory_inv db" and st: "stamped db memory now event" and run: "set_pinned db now event agent memory pinned = Inr (row, db')"
  shows "changes agent SrcOperator db db'"
proof -
  from run obtain r db1 where lock: "lock_existing db Privileged agent memory SrcOperator = Inr r"
    and ins: "insert_event db Privileged event agent memory SrcOperator now
        (PlUpdate (mr_content r) (mr_content r) (mr_kind r) (mr_state r) pinned) = Inr db1"
    and db': "db' = set_row db1 memory (\<lambda>x. x\<lparr>mr_pinned := pinned\<rparr>)"
    by (auto simp: set_pinned_def split: sum.splits)
  show ?thesis
    unfolding db'
    by (rule locked_set [OF inv lock st memory_invD(3) [OF inv lock_existing_Inr(1) [OF lock]] ins])
      (simp add: core_of_def)
qed

text \<open>A revert of a forget whose memory is there again.\<close>

definition restores_live :: "memory_db \<Rightarrow> memory_event \<Rightarrow> bool" where
  "restores_live db e \<longleftrightarrow> event_payload_kind (ev_payload e) = MuForget \<and> ev_target e \<in> mr_id ` set (md_rows db)"

lemma load_event_Inr:
  assumes "load_event db agent event = Inr e"
  shows "e \<in> set (md_events db)" "ev_id e = event" "ev_agent e = agent"
  using assms by (auto simp: load_event_def decode_memory_event_def split: option.splits dest!: find_Some_mem)

lemma revert_forget_Inr:
  assumes "revert_forget db now undo agent target before = Inr db'"
  shows "\<exists>(ra :: restored_attrs) db1 org. insert_event db Privileged undo agent target SrcOperator now
        (PlWrite before (ra_kind ra) (ra_state ra) (ra_pinned ra) (ra_subject ra)) = Inr db1
    \<and> md_agent_org db1 agent = Some org
    \<and> db' = (if target \<in> mr_id ` set (md_rows db1) then db1
        else db1\<lparr>md_rows := md_rows db1 @ [fresh_row target agent org before (ra_kind ra) (ra_state ra)
             (ra_pinned ra) (ra_subject ra) None now None]\<rparr>)"
proof -
  from assms obtain ra where ra: "restore_attrs_for db agent target = Inr ra"
    by (auto simp: revert_forget_def split: sum.splits)
  from assms ra obtain db1 where ins: "insert_event db Privileged undo agent target SrcOperator now
        (PlWrite before (ra_kind ra) (ra_state ra) (ra_pinned ra) (ra_subject ra)) = Inr db1"
    by (auto simp: revert_forget_def split: sum.splits)
  from assms ra ins obtain org where org: "md_agent_org db1 agent = Some org"
    by (auto simp: revert_forget_def split: option.splits)
  from assms ra ins org have eq: "db' = (if target \<in> mr_id ` set (md_rows db1) then db1
        else db1\<lparr>md_rows := md_rows db1 @ [fresh_row target agent org before (ra_kind ra) (ra_state ra)
             (ra_pinned ra) (ra_subject ra) None now None]\<rparr>)"
    by (simp add: revert_forget_def split: if_splits)
  show ?thesis
    by (rule exI [of _ ra], rule exI [of _ db1], rule exI [of _ org]) (rule conjI [OF ins conjI [OF org eq]])
qed

lemma revert_changes:
  assumes inv: "memory_inv db" and load: "load_event db agent event = Inr e" and st: "stamped db (ev_target e) now undo"
    and safe: "\<not> restores_live db e" and run: "revert_event db now undo agent event = Inr (row, db')"
  shows "changes agent SrcOperator db db'"
proof -
  note e = load_event_Inr [OF load]
  have ok: "event_ok e" by (rule memory_invD(5) [OF inv e(1)])
  show ?thesis
  proof (cases "ev_payload e")
    case (PlWrite c k s p u)
    with run load have "revert_write db now undo agent (ev_target e) = Inr db'"
      by (auto simp: revert_event_def split: sum.splits)
    then obtain r db1 where lock: "lock_existing db Privileged agent (ev_target e) SrcOperator = Inr r"
      and ins: "insert_event db Privileged undo agent (ev_target e) SrcOperator now (PlForget (mr_content r)) = Inr db1"
      and db': "db' = delete_rows db1 (\<lambda>x. mr_id x = ev_target e)"
      by (auto simp: revert_write_def split: sum.splits)
    show ?thesis unfolding db' by (rule locked_forget [OF inv lock st ins])
  next
    case (PlUpdate before after k s p)
    with run load have "revert_update db now undo agent (ev_target e) before k s p = Inr db'"
      by (auto simp: revert_event_def split: sum.splits)
    then obtain r db1 where lock: "lock_existing db Privileged agent (ev_target e) SrcOperator = Inr r"
      and ins: "insert_event db Privileged undo agent (ev_target e) SrcOperator now (PlUpdate (mr_content r) before k s p) = Inr db1"
      and db': "db' = set_row db1 (ev_target e) (\<lambda>x. x\<lparr>mr_content := before, mr_state := s, mr_pinned := p\<rparr>)"
      by (auto simp: revert_update_def split: sum.splits)
    show ?thesis
      unfolding db' by (rule locked_set [OF inv lock st _ ins]) (use ok PlUpdate in \<open>simp_all add: event_ok_def core_of_def\<close>)
  next
    case (PlForget before)
    with run load have "revert_forget db now undo agent (ev_target e) before = Inr db'"
      by (auto simp: revert_event_def split: sum.splits)
    moreover have gone: "ev_target e \<notin> mr_id ` set (md_rows db)" using safe PlForget by (simp add: restores_live_def)
    ultimately obtain ra :: restored_attrs and db1 g where ins: "insert_event db Privileged undo agent (ev_target e) SrcOperator now
          (PlWrite before (ra_kind ra) (ra_state ra) (ra_pinned ra) (ra_subject ra)) = Inr db1"
      and g: "md_agent_org db1 agent = Some g"
      and db1: "db' = (if ev_target e \<in> mr_id ` set (md_rows db1) then db1
          else db1\<lparr>md_rows := md_rows db1 @ [fresh_row (ev_target e) agent g before (ra_kind ra) (ra_state ra)
             (ra_pinned ra) (ra_subject ra) None now None]\<rparr>)"
      using revert_forget_Inr by metis
    from ins obtain org where org: "md_agent_org db agent = Some org"
      and db1': "db1 = db\<lparr>md_events := md_events db @ [event_row undo agent org (ev_target e) SrcOperator now
            (PlWrite before (ra_kind ra) (ra_state ra) (ra_pinned ra) (ra_subject ra))]\<rparr>"
      by (auto simp: insert_event_Inr dest: agent_org_Some)
    have db': "db' = db\<lparr>md_events := md_events db @ [event_row undo agent org (ev_target e) SrcOperator now
            (PlWrite before (ra_kind ra) (ra_state ra) (ra_pinned ra) (ra_subject ra))],
          md_rows := md_rows db @ [fresh_row (ev_target e) agent org before (ra_kind ra) (ra_state ra) (ra_pinned ra)
            (ra_subject ra) (source_turn_id SrcOperator) now None]\<rparr>"
      using db1 gone org g by (simp add: db1')
    have own: "\<forall>f \<in> set (md_events db). ev_target f = ev_target e \<longrightarrow> ev_agent f = agent"
      using memory_invD(7) [OF inv _ e(1)] e(3) by blast
    have c: "content_ok before" using ok PlForget by (simp add: event_ok_def)
    have "journalled db (event_row undo agent org (ev_target e) SrcOperator now
            (PlWrite before (ra_kind ra) (ra_state ra) (ra_pinned ra) (ra_subject ra))) db'"
      unfolding db' by (rule journalled_write [OF inv gone own org st c])
    then show ?thesis by (rule journalled_changes) simp_all
  qed
qed

lemma revert_live:
  assumes inv: "memory_inv db" and load: "load_event db agent event = Inr e" and st: "stamped db (ev_target e) now undo"
    and live: "restores_live db e" and run: "revert_event db now undo agent event = Inr (row, db')"
  shows "doubles agent db db'"
proof -
  note e = load_event_Inr [OF load]
  obtain before where pl: "ev_payload e = PlForget before"
    using live by (cases "ev_payload e") (auto simp: restores_live_def)
  have "revert_forget db now undo agent (ev_target e) before = Inr db'"
    using run load pl by (auto simp: revert_event_def split: sum.splits)
  then obtain ra :: restored_attrs where ins: "insert_event db Privileged undo agent (ev_target e) SrcOperator now
        (PlWrite before (ra_kind ra) (ra_state ra) (ra_pinned ra) (ra_subject ra)) = Inr db'"
    using revert_forget_Inr live insert_event_events unfolding restores_live_def by (metis (no_types, lifting))
  then obtain org where db': "db' = db\<lparr>md_events := md_events db @ [event_row undo agent org (ev_target e) SrcOperator now
            (PlWrite before (ra_kind ra) (ra_state ra) (ra_pinned ra) (ra_subject ra))]\<rparr>"
    by (auto simp: insert_event_Inr)
  have "event_ok e" by (rule memory_invD(5) [OF inv e(1)])
  then have c: "content_ok before" by (simp add: event_ok_def pl)
  obtain r where r: "r \<in> set (md_rows db)" "ev_target e = mr_id r" using live by (auto simp: restores_live_def)
  then have "mr_agent r = agent" using memory_invD(6) [OF inv e(1) r(1)] e(3) by simp
  then have mine: "ev_target e \<in> mr_id ` set (rows_of db agent)" using r by (auto simp: rows_of_def)
  have "ev_agent f = agent" if "f \<in> set (md_events db)" "ev_target f = ev_target e" for f
    using memory_invD(7) [OF inv that(1) e(1) that(2)] e(3) by simp
  then show ?thesis
    unfolding doubles_def db'
    by (intro exI [of _ "event_row undo agent org (ev_target e) SrcOperator now
            (PlWrite before (ra_kind ra) (ra_state ra) (ra_pinned ra) (ra_subject ra))"])
      (use c mine st in \<open>auto simp: event_ok_def writes_def stamped_def\<close>)
qed

end
