(* ===== verification/Memory_Rebuild.thy ===== *)
theory Memory_Rebuild
  imports Memory_Sweeps
begin

text \<open>
  Replaying the journal over the tables is the projection, so a rebuild gives an agent its rows back,
  or fails where the journal writes a live memory again.
\<close>

section \<open>Replay is the projection\<close>

definition same_frame :: "memory_db \<Rightarrow> memory_db \<Rightarrow> bool" where
  "same_frame db db' \<longleftrightarrow> md_events db' = md_events db \<and> md_agent_org db' = md_agent_org db
     \<and> md_members db' = md_members db \<and> md_colleague_org db' = md_colleague_org db
     \<and> md_contradictions db' = md_contradictions db"

definition foreign_to :: "uuid \<Rightarrow> memory_row list \<Rightarrow> memory_event list \<Rightarrow> bool" where
  "foreign_to agent others es \<longleftrightarrow>
     (\<forall>e \<in> set es. ev_agent e = agent \<and> event_ok e \<and> ev_target e \<notin> mr_id ` set others)"

lemma apply_replay_row:
  assumes rows: "md_rows d = others @ rs" and org: "md_agent_org d agent = Some org"
    and e: "ev_agent e = agent" "ev_target e \<notin> mr_id ` set others"
  shows "case replay_row org rs e of
      None \<Rightarrow> apply_replay agent d e = Inl (MemDb UniqueViolation)
    | Some rs' \<Rightarrow> \<exists>d'. apply_replay agent d e = Inr d' \<and> md_rows d' = others @ rs' \<and> same_frame d d'"
proof (cases "ev_payload e")
  case (PlWrite c k s p u)
  have "ev_target e \<in> mr_id ` set (md_rows d) \<longleftrightarrow> ev_target e \<in> mr_id ` set rs"
    using e(2) unfolding rows set_append image_Un by blast
  with PlWrite show ?thesis
    using rows org e(1) by (simp add: replay_row_def apply_replay_def same_frame_def del: image_iff)
next
  case (PlUpdate b c k s p)
  have "\<forall>x \<in> set others. mr_id x \<noteq> ev_target e" using e(2) by (metis imageI)
  then have "update_where (\<lambda>r. mr_id r = ev_target e) f others = others" for f
    by (intro update_where_id) blast
  then show ?thesis
    using PlUpdate rows by (simp add: replay_row_def apply_replay_def set_row_def same_frame_def)
next
  case (PlForget b)
  have "\<forall>x \<in> set others. mr_id x \<noteq> ev_target e" using e(2) by (metis imageI)
  then have "filter (\<lambda>r. mr_id r \<noteq> ev_target e) others = others" by (simp add: filter_id_conv)
  then show ?thesis
    using PlForget rows by (simp add: replay_row_def apply_replay_def delete_rows_def same_frame_def)
qed

lemma same_frame_trans: "same_frame d d' \<Longrightarrow> same_frame d' d'' \<Longrightarrow> same_frame d d''"
  by (simp add: same_frame_def)

lemma replay_events_project:
  assumes "md_rows d = others @ rs" "md_agent_org d agent = Some org" "foreign_to agent others es"
  shows "case project org rs es of
      None \<Rightarrow> replay_events agent d es = Inl (MemDb UniqueViolation)
    | Some rs' \<Rightarrow> \<exists>d'. replay_events agent d es = Inr d' \<and> md_rows d' = others @ rs' \<and> same_frame d d'"
  using assms
proof (induction es arbitrary: d rs)
  case Nil
  then show ?case by (simp add: same_frame_def)
next
  case (Cons e es)
  have e: "ev_agent e = agent" "ev_target e \<notin> mr_id ` set others" "decode_memory_event e = Inr e"
    and es: "foreign_to agent others es"
    using Cons.prems(3) by (simp_all add: foreign_to_def decode_memory_event_ok)
  note step = apply_replay_row [OF Cons.prems(1,2) e(1,2)]
  show ?case
  proof (cases "replay_row org rs e")
    case None
    with step e(3) show ?thesis by simp
  next
    case (Some rs1)
    with step obtain d1 where d1: "apply_replay agent d e = Inr d1" "md_rows d1 = others @ rs1" "same_frame d d1" by auto
    then have "md_agent_org d1 agent = Some org" using Cons.prems(2) by (simp add: same_frame_def)
    from Cons.IH [OF d1(2) this es] show ?thesis
      using Some d1 e(3) by (auto intro: same_frame_trans split: option.splits)
  qed
qed

text \<open>The journal is read in the order of its stamps, which need not be the order it was written in.\<close>

lemma journal_projects:
  assumes "stamps_ordered (md_events db)"
  shows "same_rows (project org rs (events_of db agent)) (project org rs (journal_of db agent))"
proof -
  have "sorted_wrt (\<lambda>e f. ev_target e = ev_target f \<longrightarrow> stamp e < stamp f) (events_of db agent)"
    using assms unfolding stamps_ordered_def events_of_def by (rule sorted_wrt_filter)
  from project_sort [OF this] show ?thesis
    by (simp add: journal_of_def events_of_def [symmetric] stamp_def [abs_def])
qed

definition others_of :: "memory_db \<Rightarrow> uuid \<Rightarrow> memory_row list" where
  "others_of db agent = filter (\<lambda>r. mr_agent r \<noteq> agent) (md_rows db)"

lemma cleared_rows: "md_rows (delete_rows db (\<lambda>r. mr_agent r = agent)) = others_of db agent @ []"
  "md_agent_org (delete_rows db (\<lambda>r. mr_agent r = agent)) = md_agent_org db"
  "same_frame db (delete_rows db (\<lambda>r. mr_agent r = agent))"
  by (simp_all add: delete_rows_def others_of_def same_frame_def)

lemma foreign_events: "memory_inv db \<Longrightarrow> foreign_to agent (others_of db agent) (journal_of db agent)"
  unfolding foreign_to_def others_of_def journal_of_def
  using memory_invD(5,6) by (fastforce simp: image_iff)

section \<open>Vectors\<close>

lemma embedding_snapshot_map_of:
  assumes "distinct (map mr_id rows)" "r \<in> set rows"
  shows "map_of (concat (map (\<lambda>r. case mr_embedding r of None \<Rightarrow> [] | Some v \<Rightarrow> [(mr_id r, v)]) rows)) (mr_id r) = mr_embedding r"
  using assms
proof (induction rows)
  case (Cons x rows)
  have other: "map_of (concat (map (\<lambda>r. case mr_embedding r of None \<Rightarrow> [] | Some v \<Rightarrow> [(mr_id r, v)]) rows)) i = None"
    if "i \<notin> mr_id ` set rows" for i
    using that by (auto simp: map_of_eq_None_iff split: option.splits)
  show ?case
  proof (cases "r = x")
    case True
    with Cons.prems(1) other [of "mr_id x"] show ?thesis by (auto split: option.split)
  next
    case False
    with Cons.prems(2) have r: "r \<in> set rows" by simp
    then have "mr_id r \<in> mr_id ` set rows" by (rule imageI)
    then have "mr_id r \<noteq> mr_id x" using Cons.prems(1) by auto
    with Cons.IH [OF _ r] Cons.prems(1) show ?thesis by (auto split: option.split)
  qed
qed simp

lemma snapshot_ids_distinct:
  "distinct (map mr_id rows) \<Longrightarrow>
   distinct (map fst (concat (map (\<lambda>r. case mr_embedding r of None \<Rightarrow> [] | Some v \<Rightarrow> [(mr_id r, v)]) rows)))"
proof (induction rows)
  case (Cons x rows)
  have "set (map fst (concat (map (\<lambda>r. case mr_embedding r of None \<Rightarrow> [] | Some v \<Rightarrow> [(mr_id r, v)]) rows))) \<subseteq> mr_id ` set rows"
    by (auto split: option.splits)
  with Cons show ?case by (auto split: option.split)
qed simp

lemma restore_embeddings_map:
  "distinct (map fst snap) \<Longrightarrow> restore_embeddings snap rows =
     map (\<lambda>r. case map_of snap (mr_id r) of None \<Rightarrow> r | Some v \<Rightarrow> r\<lparr>mr_embedding := Some v\<rparr>) rows"
proof (induction snap arbitrary: rows)
  case Nil
  then show ?case by (simp add: restore_embeddings_def)
next
  case (Cons iv snap)
  obtain i v where iv: "iv = (i, v)" by force
  have new: "map_of snap i = None" using Cons.prems iv by (auto simp: map_of_eq_None_iff)
  have "restore_embeddings (iv # snap) rows
      = restore_embeddings snap (update_where (\<lambda>r. mr_id r = i) (\<lambda>r. r\<lparr>mr_embedding := Some v\<rparr>) rows)"
    by (simp add: restore_embeddings_def iv)
  also have "\<dots> = map (\<lambda>r. case map_of snap (mr_id r) of None \<Rightarrow> r | Some v \<Rightarrow> r\<lparr>mr_embedding := Some v\<rparr>)
      (update_where (\<lambda>r. mr_id r = i) (\<lambda>r. r\<lparr>mr_embedding := Some v\<rparr>) rows)"
    using Cons.IH Cons.prems by simp
  also have "\<dots> = map (\<lambda>r. case map_of (iv # snap) (mr_id r) of None \<Rightarrow> r | Some v \<Rightarrow> r\<lparr>mr_embedding := Some v\<rparr>) rows"
    using new by (induction rows) (auto simp: iv)
  finally show ?case .
qed

section \<open>What a rebuild gives\<close>

text \<open>The counters start afresh; the vector is kept.\<close>

definition rebuilt :: "memory_row \<Rightarrow> memory_row" where
  "rebuilt r = (core_of r)\<lparr>mr_embedding := mr_embedding r\<rparr>"

lemma rebuilt_sel [simp]:
  "core_of (rebuilt r) = core_of r" "mr_id (rebuilt r) = mr_id r" "mr_agent (rebuilt r) = mr_agent r"
  "mr_org (rebuilt r) = mr_org r" "mr_content (rebuilt r) = mr_content r" "mr_embedding (rebuilt r) = mr_embedding r"
  "mr_pinned (rebuilt r) = mr_pinned r"
  by (simp_all add: rebuilt_def core_of_def)

lemma snapshot_lookup:
  assumes inv: "memory_inv db"
  shows "r \<in> set (rows_of db agent) \<Longrightarrow> map_of (embedding_snapshot db agent) (mr_id r) = mr_embedding r"
    and "x \<in> set (others_of db agent) \<Longrightarrow> map_of (embedding_snapshot db agent) (mr_id x) = None"
    and "distinct (map fst (embedding_snapshot db agent))"
proof -
  have dist: "distinct (map mr_id (rows_of db agent))"
    unfolding rows_of_def by (rule distinct_ids_filter [OF inv])
  show "r \<in> set (rows_of db agent) \<Longrightarrow> map_of (embedding_snapshot db agent) (mr_id r) = mr_embedding r"
    unfolding embedding_snapshot_def rows_of_def [symmetric] by (rule embedding_snapshot_map_of [OF dist])
  show "distinct (map fst (embedding_snapshot db agent))"
    unfolding embedding_snapshot_def rows_of_def [symmetric] by (rule snapshot_ids_distinct [OF dist])
  show "map_of (embedding_snapshot db agent) (mr_id x) = None" if x: "x \<in> set (others_of db agent)"
  proof -
    have "mr_id x \<noteq> mr_id r" if "r \<in> set (rows_of db agent)" for r
      using that x row_unique [OF inv, of r x] by (auto simp: rows_of_def others_of_def)
    then have "mr_id x \<notin> mr_id ` set (rows_of db agent)" by (metis imageE)
    moreover have "fst ` set (embedding_snapshot db agent) \<subseteq> mr_id ` set (rows_of db agent)"
      unfolding embedding_snapshot_def rows_of_def by (auto split: option.splits)
    ultimately show ?thesis unfolding map_of_eq_None_iff by blast
  qed
qed

definition rebuild_result :: "uuid \<Rightarrow> memory_db \<Rightarrow> memory_db \<Rightarrow> bool" where
  "rebuild_result agent db db' \<longleftrightarrow> same_frame db db' \<and> (\<exists>rs. md_rows db' = others_of db agent @ rs
     \<and> mset rs = mset (map rebuilt (rows_of db agent)))"

lemma rebuild_rows:
  assumes inv: "memory_inv db" and org: "md_agent_org db agent = Some org"
    and proj: "project org [] (events_of db agent) \<noteq> None"
  shows "\<exists>db'. rebuild_materialized db agent = Inr db' \<and> rebuild_result agent db db'"
proof -
  let ?d = "delete_rows db (\<lambda>r. mr_agent r = agent)"
  from proj obtain rs0 where rs0: "project org [] (events_of db agent) = Some rs0" by blast
  then have "mset rs0 = mset (map core_of (rows_of db agent))"
    using memory_invD(8) [OF inv] org by (simp add: projected_def)
  with journal_projects [OF memory_invD(2) [OF inv], of org "[]" agent] rs0
  obtain rs where rs: "project org [] (journal_of db agent) = Some rs" "mset rs = mset (map core_of (rows_of db agent))" by auto
  have "md_agent_org ?d agent = Some org" using org by (simp add: cleared_rows)
  from replay_events_project [OF cleared_rows(1) this foreign_events [OF inv]] rs(1)
  obtain d1 where d1: "replay_events agent ?d (journal_of db agent) = Inr d1"
      "md_rows d1 = others_of db agent @ rs" "same_frame ?d d1" by auto
  have frame: "same_frame db d1" by (rule same_frame_trans [OF cleared_rows(3) d1(3)])
  let ?f = "\<lambda>r. case map_of (embedding_snapshot db agent) (mr_id r) of None \<Rightarrow> r | Some v \<Rightarrow> r\<lparr>mr_embedding := Some v\<rparr>"
  have "restore_embeddings (embedding_snapshot db agent) (md_rows d1) = map ?f (md_rows d1)"
    by (rule restore_embeddings_map [OF snapshot_lookup(3) [OF inv]])
  also have "\<dots> = map ?f (others_of db agent) @ map ?f rs" by (simp add: d1(2))
  also have "map ?f (others_of db agent) = others_of db agent"
    by (rule map_idI) (simp add: snapshot_lookup(2) [OF inv])
  finally have rows: "restore_embeddings (embedding_snapshot db agent) (md_rows d1) = others_of db agent @ map ?f rs" .
  have "map (?f \<circ> core_of) (rows_of db agent) = map rebuilt (rows_of db agent)"
    by (rule map_cong [OF refl]) (simp add: snapshot_lookup(1) [OF inv] rebuilt_def core_of_def split: option.split)
  moreover have "mset (map ?f rs) = mset (map (?f \<circ> core_of) (rows_of db agent))"
    using arg_cong [OF rs(2), of "image_mset ?f"] by (simp only: mset_map [symmetric] map_map)
  ultimately have "mset (map ?f rs) = mset (map rebuilt (rows_of db agent))" by (simp only:)
  then show ?thesis
    using d1(1) frame rows by (auto simp: rebuild_materialized_def rebuild_result_def same_frame_def)
qed

lemma rebuild_fails:
  assumes inv: "memory_inv db" and org: "md_agent_org db agent = Some org"
    and proj: "project org [] (events_of db agent) = None"
  shows "rebuild_materialized db agent = Inl (MemDb UniqueViolation)"
proof -
  have none: "project org [] (journal_of db agent) = None"
    using journal_projects [OF memory_invD(2) [OF inv], of org "[]" agent] proj by simp
  have "md_agent_org (delete_rows db (\<lambda>r. mr_agent r = agent)) agent = Some org" using org by (simp add: cleared_rows)
  from replay_events_project [OF cleared_rows(1) this foreign_events [OF inv]] none
  show ?thesis by (simp add: rebuild_materialized_def)
qed

lemma rebuild_result:
  assumes inv: "memory_inv db" and org: "md_agent_org db agent = Some org"
    and run: "rebuild_materialized db agent = Inr db'"
  shows "rebuild_result agent db db'"
  using rebuild_rows [OF inv org] rebuild_fails [OF inv org] run by fastforce

lemma rebuild_result_rows:
  assumes "rebuild_result agent db db'"
  shows "b \<noteq> agent \<Longrightarrow> rows_of db' b = rows_of db b"
    and "mset (rows_of db' agent) = mset (map rebuilt (rows_of db agent))"
proof -
  obtain rs where rs: "md_rows db' = others_of db agent @ rs" "mset rs = mset (map rebuilt (rows_of db agent))"
    using assms by (auto simp: rebuild_result_def)
  have "set rs = set (map rebuilt (rows_of db agent))" using rs(2) by (metis set_mset_mset)
  then have mine: "\<forall>r \<in> set rs. mr_agent r = agent" by (auto simp: rows_of_def)
  show "rows_of db' b = rows_of db b" if "b \<noteq> agent"
    using that rs(1) mine by (auto simp: rows_of_def others_of_def filter_empty_conv intro: filter_cong)
  have "rows_of db' agent = rs"
    using rs(1) mine by (simp add: rows_of_def others_of_def filter_id_conv)
  then show "mset (rows_of db' agent) = mset (map rebuilt (rows_of db agent))" using rs(2) by simp
qed

lemma rebuild_result_mem:
  assumes "rebuild_result agent db db'" "r \<in> set (md_rows db')"
  obtains s where "s \<in> set (md_rows db)" "core_of r = core_of s"
proof -
  obtain rs where rs: "md_rows db' = others_of db agent @ rs" "mset rs = mset (map rebuilt (rows_of db agent))"
    using assms(1) by (auto simp: rebuild_result_def)
  have "set rs = set (map rebuilt (rows_of db agent))" using rs(2) by (metis set_mset_mset)
  then show thesis using rs(1) assms(2) that by (auto simp: others_of_def rows_of_def)
qed

lemma rebuild_inv:
  assumes inv: "memory_inv db" and res: "rebuild_result agent db db'"
  shows "memory_inv db'"
proof -
  have eq: "md_events db' = md_events db" "md_agent_org db' = md_agent_org db"
    using res by (simp_all add: rebuild_result_def same_frame_def)
  have cores: "mset (map core_of (rows_of db' b)) = mset (map core_of (rows_of db b))" for b
  proof (cases "b = agent")
    case True
    have "image_mset core_of (mset (rows_of db' agent)) = image_mset core_of (mset (map rebuilt (rows_of db agent)))"
      by (simp only: rebuild_result_rows(2) [OF res])
    then show ?thesis unfolding True by (simp only: mset_map [symmetric] map_map) (simp add: o_def)
  qed (simp add: rebuild_result_rows(1) [OF res])
  then have proj: "projected db'" using memory_invD(8) [OF inv] by (simp add: projected_def events_of_def eq del: mset_map)
  obtain rs where rs: "md_rows db' = others_of db agent @ rs" "mset rs = mset (map rebuilt (rows_of db agent))"
    using res by (auto simp: rebuild_result_def)
  have "mset (map mr_id rs) = mset (map mr_id (rows_of db agent))"
    using arg_cong [OF rs(2), of "image_mset mr_id"] by (simp only: mset_map [symmetric] map_map) (simp add: o_def)
  moreover have "mset (map mr_id (others_of db agent) @ map mr_id (rows_of db agent)) = mset (map mr_id (md_rows db))"
    by (simp add: others_of_def rows_of_def flip: image_mset_union)
  ultimately have "mset (map mr_id (md_rows db')) = mset (map mr_id (md_rows db))" by (simp add: rs(1))
  then have dist: "distinct (map mr_id (md_rows db'))" using memory_invD(1) [OF inv] by (metis mset_eq_imp_distinct_iff)
  have row: "content_ok (mr_content r)" "md_agent_org db' (mr_agent r) = Some (mr_org r)"
      "e \<in> set (md_events db) \<Longrightarrow> ev_target e = mr_id r \<Longrightarrow> ev_agent e = mr_agent r"
    if mem: "r \<in> set (md_rows db')" for r e
  proof -
    obtain t where t: "t \<in> set (md_rows db)" "core_of r = core_of t" using res mem by (rule rebuild_result_mem)
    then show "content_ok (mr_content r)" "md_agent_org db' (mr_agent r) = Some (mr_org r)"
      "e \<in> set (md_events db) \<Longrightarrow> ev_target e = mr_id r \<Longrightarrow> ev_agent e = mr_agent r"
      using memory_invD(3,4) [OF inv t(1)] memory_invD(6) [OF inv _ t(1)] core_of_eqD [OF t(2)] eq by auto
  qed
  show ?thesis
  proof (rule memory_invI)
    show "stamps_ordered (md_events db')" unfolding eq by (rule memory_invD(2) [OF inv])
    show "event_ok e" if "e \<in> set (md_events db')" for e using that unfolding eq by (rule memory_invD(5) [OF inv])
    show "ev_agent e = ev_agent f" if "e \<in> set (md_events db')" "f \<in> set (md_events db')" "ev_target e = ev_target f" for e f
      using that unfolding eq by (rule memory_invD(7) [OF inv])
    show "ev_agent e = mr_agent r" if "e \<in> set (md_events db')" "r \<in> set (md_rows db')" "ev_target e = mr_id r" for e r
      using row(3) [OF that(2)] that(1,3) by (simp add: eq)
  qed (use proj row dist in \<open>simp_all\<close>)
qed

end
