(* ===== verification/Memory_Properties.thy ===== *)
theory Memory_Properties
  imports Memory_Rebuild
begin

text \<open>
  The memory store as a transition system, and what holds of it: the table is the projection of the
  journal and a rebuild restores it; only the operator touches pinned memories; restoring a forgotten
  memory twice breaks the journal.
\<close>

section \<open>The store as a transition system\<close>

text \<open>
  A step is one committed call of the store: one made for an agent in the name of a source, the record
  of a recall (whose memories may be several agents'), or a rebuild. The operator's revert takes any
  event. Ids may come in any order; a new memory's id is fresh, and an event is later than the events
  its memory has.
\<close>

datatype memory_call = CallFor uuid mutation_source | CallRecall | CallRebuild uuid

inductive memory_step ::
  "(string \<Rightarrow> (embedding, string) result) \<Rightarrow> memory_db \<Rightarrow> memory_call \<Rightarrow> memory_db \<Rightarrow> bool" for embedder where
  mem_mutate: "stamped db (mutation_target memory m) now event \<Longrightarrow> unused db memory \<Longrightarrow> mutation_ok m
     \<Longrightarrow> apply_as embedder db actor now memory event m = Some (Inr (out, db'))
     \<Longrightarrow> memory_step embedder db (CallFor (mutation_agent m) (mutation_source_of m)) db'"
| mem_decay: "ahead db agent now \<Longrightarrow> decay_validated db now mint agent cutoff = Inr (n, db')
     \<Longrightarrow> memory_step embedder db (CallFor agent SrcLibrarian) db'"
| mem_mature: "ahead db agent now \<Longrightarrow> mature_tentative db now mint agent cutoff = Inr (n, db')
     \<Longrightarrow> memory_step embedder db (CallFor agent SrcLibrarian) db'"
| mem_evict: "ahead db agent now \<Longrightarrow> evict_overflow db now mint agent quota = Inr (ids, db')
     \<Longrightarrow> memory_step embedder db (CallFor agent SrcLibrarian) db'"
| mem_validate: "stamped db memory now event
     \<Longrightarrow> record_validation_as db actor now validation event agent memory origin detail = Inr (row, db')
     \<Longrightarrow> memory_step embedder db (CallFor agent (origin_mutation_source origin)) db'"
| mem_access: "record_access_as db actor now ids = Some db' \<Longrightarrow> memory_step embedder db CallRecall db'"
| mem_contradict: "record_contradiction db now new agent a b reason = Inr (i, db')
     \<Longrightarrow> memory_step embedder db (CallFor agent source) db'"
| mem_resolve: "resolve_contradiction_as db actor now i res = Inr db' \<Longrightarrow> memory_step embedder db (CallFor agent source) db'"
| mem_pin: "stamped db memory now event \<Longrightarrow> set_pinned db now event agent memory pinned = Inr (row, db')
     \<Longrightarrow> memory_step embedder db (CallFor agent SrcOperator) db'"
| mem_revert: "load_event db agent event = Inr e \<Longrightarrow> stamped db (ev_target e) now undo
     \<Longrightarrow> revert_event db now undo agent event = Inr (row, db')
     \<Longrightarrow> memory_step embedder db (CallFor agent SrcOperator) db'"
| mem_rebuild: "md_agent_org db agent = Some org \<Longrightarrow> rebuild_materialized db agent = Inr db'
     \<Longrightarrow> memory_step embedder db (CallRebuild agent) db'"

definition memory_seed :: "memory_db \<Rightarrow> bool" where
  "memory_seed db \<longleftrightarrow> md_rows db = [] \<and> md_events db = [] \<and> md_validations db = [] \<and> md_contradictions db = []"

lemma memory_step_cases:
  assumes "memory_inv db" "memory_step embedder db call db'"
  obtains (changed) agent source where "call = CallFor agent source" "changes agent source db db'"
    | (restored) agent event e now undo row where "call = CallFor agent SrcOperator" "load_event db agent event = Inr e"
      "restores_live db e" "revert_event db now undo agent event = Inr (row, db')" "doubles agent db db'"
    | (recalled) "call = CallRecall" "same_cores db db'" "map unread (md_rows db') = map unread (md_rows db)"
    | (rebuilt) agent where "call = CallRebuild agent" "rebuild_result agent db db'"
  using assms(2)
proof (cases rule: memory_step.cases)
  case (mem_mutate memory m now event actor out)
  then show ?thesis using apply_as_changes [OF assms(1) mem_mutate(2-4,5)] changed by blast
next
  case (mem_decay agent now mint cutoff n)
  then show ?thesis using decay_changes [OF assms(1)] changed by blast
next
  case (mem_mature agent now mint cutoff n)
  then show ?thesis using mature_changes [OF assms(1)] changed by blast
next
  case (mem_evict agent now mint quota ids)
  then show ?thesis using evict_changes [OF assms(1)] changed by blast
next
  case (mem_validate memory now event actor validation agent origin detail row)
  then show ?thesis using validation_changes [OF assms(1)] changed by blast
next
  case (mem_access actor now ids)
  then show ?thesis using access_same_cores recalled by blast
next
  case (mem_contradict now new agent a b reason i source)
  then show ?thesis using silent_changes [OF contradiction_silent] changed by blast
next
  case (mem_resolve actor now i res agent source)
  then show ?thesis using silent_changes [OF resolve_silent] changed by blast
next
  case (mem_pin memory now event agent pinned row)
  then show ?thesis using pin_changes [OF assms(1)] changed by blast
next
  case (mem_revert agent event e now undo row)
  show ?thesis
  proof (cases "restores_live db e")
    case True
    show ?thesis by (rule restored [OF mem_revert(1,2) True mem_revert(4) revert_live [OF assms(1) mem_revert(2,3) True mem_revert(4)]])
  next
    case False
    show ?thesis by (rule changed [OF mem_revert(1) revert_changes [OF assms(1) mem_revert(2,3) False mem_revert(4)]])
  qed
next
  case (mem_rebuild agent org)
  then show ?thesis using rebuild_result [OF assms(1)] rebuilt by blast
qed

lemma memory_step_inv: "memory_inv db \<Longrightarrow> memory_step embedder db call db' \<Longrightarrow> memory_inv db'"
  by (metis memory_step_cases changes_inv doubles_inv same_cores_inv rebuild_inv)

lemma memory_seed_inv: "memory_seed db \<Longrightarrow> memory_inv db"
  by (simp add: memory_seed_def memory_inv_def projected_def events_of_def rows_of_def stamps_ordered_def)

interpretation memory: transition_system memory_seed "memory_step embedder" memory_inv for embedder
  by unfold_locales (auto intro: memory_seed_inv memory_step_inv)

section \<open>The table is derived from the journal\<close>

lemma same_cores_events: "same_cores db db' \<Longrightarrow> events_of db' agent = events_of db agent"
  by (simp add: same_cores_def events_of_def)

lemma step_keeps_projection:
  assumes inv: "memory_inv db" and org: "md_agent_org db agent = Some org"
    and step: "memory_step embedder db call db'" and old: "project org [] (events_of db agent) \<noteq> None"
    and new: "project org [] (events_of db' agent) = None"
  shows "\<exists>now undo event e row. load_event db agent event = Inr e \<and> restores_live db e
    \<and> revert_event db now undo agent event = Inr (row, db')"
  using inv step
proof (cases rule: memory_step_cases)
  case (changed b source)
  then show ?thesis using changes_projects [OF _ inv org old] new by blast
next
  case (restored b event e now undo row)
  have "b = agent"
  proof (rule ccontr)
    assume "b \<noteq> agent"
    then have "events_of db' agent = events_of db agent" using restored(5) by (auto simp: doubles_def events_of_append)
    with old new show False by simp
  qed
  with restored show ?thesis by blast
next
  case recalled
  then show ?thesis using old new same_cores_events by metis
next
  case (rebuilt b)
  then have "events_of db' agent = events_of db agent" by (simp add: rebuild_result_def same_frame_def events_of_def)
  with old new show ?thesis by simp
qed

text \<open>
  C30. The memory table is a view of the journal. In every state the store's calls can reach, an agent
  whose journal never writes a memory that is there has as rows, up to their counters and vectors, the
  projection of its events; a rebuild succeeds, gives back the same memories with the vectors they had,
  and touches neither the journal nor another agent. Only one call can make a journal write a memory
  that is there, the operator's revert of a forget whose memory is back; from then on a rebuild fails
  with a unique violation.
\<close>

theorem rebuild_restores_memory:
  assumes "reach memory_seed (memory_step embedder) db" "md_agent_org db agent = Some org"
  shows "(if writes_live {} (events_of db agent) then rebuild_materialized db agent = Inl (MemDb UniqueViolation)
     else (\<exists>rs. project org [] (events_of db agent) = Some rs \<and> mset rs = mset (map core_of (rows_of db agent)))
        \<and> (\<exists>db'. rebuild_materialized db agent = Inr db' \<and> md_events db' = md_events db
            \<and> mset (map (\<lambda>r. (core_of r, mr_embedding r)) (rows_of db' agent))
              = mset (map (\<lambda>r. (core_of r, mr_embedding r)) (rows_of db agent))
            \<and> (\<forall>b. b \<noteq> agent \<longrightarrow> rows_of db' b = rows_of db b))
        \<and> (\<forall>call db'. memory_step embedder db call db' \<and> writes_live {} (events_of db' agent) \<longrightarrow>
             (\<exists>now undo event e row. load_event db agent event = Inr e \<and> restores_live db e
               \<and> revert_event db now undo agent event = Inr (row, db'))))"
proof -
  have inv: "memory_inv db" using assms(1) by (rule memory.reach_inv)
  have live: "writes_live {} (events_of d agent) \<longleftrightarrow> project org [] (events_of d agent) = None" for d
    using project_None_iff [of org "[]"] by simp
  show ?thesis
  proof (cases "project org [] (events_of db agent)")
    case None
    then show ?thesis using rebuild_fails [OF inv assms(2)] by (simp add: live)
  next
    case (Some rs)
    obtain db' where db': "rebuild_materialized db agent = Inr db'" "rebuild_result agent db db'"
      using rebuild_rows [OF inv assms(2)] Some by auto
    let ?v = "\<lambda>r. (core_of r, mr_embedding r)"
    have "image_mset ?v (mset (rows_of db' agent)) = image_mset ?v (mset (map rebuilt (rows_of db agent)))"
      by (simp only: rebuild_result_rows(2) [OF db'(2)])
    then have rows: "mset (map ?v (rows_of db' agent)) = mset (map ?v (rows_of db agent))"
      by (simp only: mset_map [symmetric] map_map) (simp add: o_def)
    have "md_events db' = md_events db" using db'(2) by (simp add: rebuild_result_def same_frame_def)
    moreover have "mset rs = mset (map core_of (rows_of db agent))"
      using memory_invD(8) [OF inv] assms(2) Some by (simp add: projected_def)
    ultimately show ?thesis
      using db'(1) rows rebuild_result_rows(1) [OF db'(2)] step_keeps_projection [OF inv assms(2)] Some live by auto
  qed
qed

definition sample_memory :: memory_db where
  "sample_memory = \<lparr>md_rows = [], md_events = [], md_validations = [], md_contradictions = [],
     md_agent_org = [1 \<mapsto> 7], md_colleague_org = [5 \<mapsto> 7], md_members = [(9, 7)]\<rparr>"

abbreviation sample_write :: memory_mutation where
  "sample_write \<equiv> MWrite 1 MkOther ''tea at 4'' MsTentative False None (SrcTurn 3)"

definition sample_written :: memory_db where
  "sample_written = sample_memory\<lparr>
     md_rows := [fresh_row 20 1 7 ''tea at 4'' MkOther MsTentative False None (Some 3) 100 (Some [1])],
     md_events := [event_row 30 1 7 20 (SrcTurn 3) 100 (PlWrite ''tea at 4'' MkOther MsTentative False None)]\<rparr>"

lemma sample_write_run:
  "apply_as (\<lambda>_. Inr [1]) sample_memory (ActingUser 9) 100 20 30 sample_write
     = Some (Inr (\<lparr>mo_event = 30, mo_memory = 20, mo_row = Some (hd (md_rows sample_written))\<rparr>, sample_written))"
  by (simp add: apply_as_def apply_write_def insert_event_def event_row_def agent_org_def memory_sees_def sample_memory_def
      sample_written_def Let_def)

lemma sample_text [simp]: "memory_content_try_from ''tea at 4'' = Inr ''tea at 4''"
  by code_simp

lemma sample_content: "content_ok ''tea at 4''" by (simp add: content_ok_def)

lemma sample_write_step: "memory_step (\<lambda>_. Inr [1]) sample_memory (CallFor 1 (SrcTurn 3)) sample_written"
  using mem_mutate [of sample_memory 20 sample_write 100 30, OF _ _ _ sample_write_run] sample_content
  by (simp add: stamped_def unused_def sample_memory_def)

lemma sample_written_reach: "reach memory_seed (memory_step (\<lambda>_. Inr [1])) sample_written"
proof (rule reach.reach_step)
  show "reach memory_seed (memory_step (\<lambda>_. Inr [1])) sample_memory"
    by (rule reach.reach_init) (simp add: memory_seed_def sample_memory_def)
qed (rule sample_write_step)

theorem rebuild_restores_memory_witness:
  "\<exists>db'. rebuild_materialized sample_written 1 = Inr db' \<and> length (rows_of db' 1) = 1
    \<and> map mr_embedding (rows_of db' 1) = [Some [1]]"
proof -
  have "md_agent_org sample_written 1 = Some 7" by (simp add: sample_written_def sample_memory_def)
  note sound = rebuild_restores_memory [OF sample_written_reach this]
  have "\<not> writes_live {} (events_of sample_written 1)"
    by (simp add: events_of_def sample_written_def sample_memory_def event_row_def)
  with sound obtain db' where db': "rebuild_materialized sample_written 1 = Inr db'"
    "mset (map (\<lambda>r. (core_of r, mr_embedding r)) (rows_of db' 1))
      = mset (map (\<lambda>r. (core_of r, mr_embedding r)) (rows_of sample_written 1))" by auto
  have "rows_of sample_written 1 = [fresh_row 20 1 7 ''tea at 4'' MkOther MsTentative False None (Some 3) 100 (Some [1])]"
    by (simp add: rows_of_def sample_written_def sample_memory_def)
  then have "map (\<lambda>r. (core_of r, mr_embedding r)) (rows_of sample_written 1)
      = [(fresh_row 20 1 7 ''tea at 4'' MkOther MsTentative False None (Some 3) 100 None, Some [1])]" by (simp add: fresh_row_def core_of_def)
  with db'(2) have "map (\<lambda>r. (core_of r, mr_embedding r)) (rows_of db' 1)
      = [(fresh_row 20 1 7 ''tea at 4'' MkOther MsTentative False None (Some 3) 100 None, Some [1])]"
    by (simp del: mset_map)
  then obtain r where "rows_of db' 1 = [r]" "mr_embedding r = Some [1]" by auto
  with db'(1) show ?thesis by simp
qed

section \<open>Pinned and foreign memories\<close>

text \<open>
  C31. A call made for one agent in the name of a source only appends to the journal, under its agent
  and its source, and leaves the rows of every other agent exactly as they are; unless the source is
  the operator, every pinned row is left exactly as it is: the agent and the librarian's sweeps can
  neither change nor forget it. The record of a recall changes no more than when and how often rows
  were read, whoever they belong to; a rebuild touches its own agent's rows only.
\<close>

theorem pinned_memories_are_the_operators:
  assumes "reach memory_seed (memory_step embedder) db" "memory_step embedder db call db'"
  shows "case call of
      CallFor agent source \<Rightarrow>
        (\<exists>es. md_events db' = md_events db @ es \<and> (\<forall>e \<in> set es. ev_agent e = agent \<and> ev_source e = source))
        \<and> (\<forall>b. b \<noteq> agent \<longrightarrow> rows_of db' b = rows_of db b)
        \<and> (source \<noteq> SrcOperator \<longrightarrow> (\<forall>r \<in> set (md_rows db). mr_pinned r \<longrightarrow> r \<in> set (md_rows db')))
    | CallRecall \<Rightarrow> md_events db' = md_events db \<and> map unread (md_rows db') = map unread (md_rows db)
    | CallRebuild agent \<Rightarrow> md_events db' = md_events db \<and> (\<forall>b. b \<noteq> agent \<longrightarrow> rows_of db' b = rows_of db b)"
proof -
  have inv: "memory_inv db" using assms(1) by (rule memory.reach_inv)
  from inv assms(2) show ?thesis
  proof (cases rule: memory_step_cases)
    case (changed agent source)
    then show ?thesis using changes_journal_grows [OF changed(2)] changes_others [OF changed(2)] changes_pinned [OF changed(2)] by simp
  next
    case (restored agent event e now undo row)
    then show ?thesis by (auto simp: doubles_def rows_of_def)
  next
    case recalled
    then show ?thesis by (simp add: same_cores_def)
  next
    case (rebuilt agent)
    have "md_events db' = md_events db" using rebuilt(2) by (simp add: rebuild_result_def same_frame_def)
    then show ?thesis using rebuild_result_rows(1) [OF rebuilt(2)] rebuilt(1) by simp
  qed
qed

definition sample_pinned :: memory_db where
  "sample_pinned = sample_written\<lparr>
     md_rows := [(fresh_row 20 1 7 ''tea at 4'' MkOther MsTentative False None (Some 3) 100 (Some [1]))\<lparr>mr_pinned := True\<rparr>],
     md_events := md_events sample_written
       @ [event_row 31 1 7 20 SrcOperator 110 (PlUpdate ''tea at 4'' ''tea at 4'' MkOther MsTentative True)]\<rparr>"

lemma sample_pin_run:
  "set_pinned sample_written 110 31 1 20 True = Inr (hd (md_rows sample_pinned), sample_pinned)"
  by (simp add: set_pinned_def lock_existing_def sample_pinned_def sample_written_def sample_memory_def memory_sees_def
      decode_memory_row_def fresh_row_def insert_event_def
      event_row_def agent_org_def set_row_def bypasses_pin_def)

lemma sample_pinned_reach: "reach memory_seed (memory_step (\<lambda>_. Inr [1])) sample_pinned"
proof (rule reach.reach_step [OF sample_written_reach])
  show "memory_step (\<lambda>_. Inr [1]) sample_written (CallFor 1 SrcOperator) sample_pinned"
    by (rule mem_pin [OF _ sample_pin_run]) (simp add: stamped_def sample_written_def less_prod_def)
qed

text \<open>With a quota of none, the eviction leaves the pinned memory where it is.\<close>

theorem pinned_memories_are_the_operators_witness:
  "\<exists>r \<in> set (md_rows sample_pinned). mr_pinned r \<and>
     (\<exists>db'. evict_overflow sample_pinned 120 (\<lambda>n. 40 - n) 1 0 = Inr ([], db') \<and> r \<in> set (md_rows db'))"
proof -
  have run: "evict_overflow sample_pinned 120 (\<lambda>n. 40 - n) 1 0 = Inr ([], sample_pinned)"
    by (simp add: evict_overflow_def sample_pinned_def fresh_row_def)
  have "ahead sample_pinned 1 120"
    by (simp add: ahead_def events_of_def sample_pinned_def sample_written_def sample_memory_def)
  then have step: "memory_step (\<lambda>_. Inr [1]) sample_pinned (CallFor 1 SrcLibrarian) sample_pinned"
    by (rule mem_evict [OF _ run])
  let ?r = "hd (md_rows sample_pinned)"
  have r: "?r \<in> set (md_rows sample_pinned)" "mr_pinned ?r" by (simp_all add: sample_pinned_def)
  have "?r \<in> set (md_rows sample_pinned)"
    using pinned_memories_are_the_operators [OF sample_pinned_reach step] r by simp
  with r run show ?thesis by blast
qed

section \<open>Restoring a forgotten memory twice\<close>

lemma project_None_append: "project org rows es = None \<Longrightarrow> project org rows (es @ fs) = None"
  by (simp add: project_append)

text \<open>
  C32. A code defect. \<open>revert_event\<close> on a \<open>Forget\<close> whose memory is back (reverted before, for one)
  answers success and leaves the table alone, but journals a second \<open>Write\<close> of the live memory: from
  then on, whatever is journalled later, the agent's journal has no projection and a rebuild of its
  table fails with a unique violation.
\<close>

theorem second_restore_breaks_the_journal:
  assumes reach: "reach memory_seed (memory_step embedder) db" and org: "md_agent_org db agent = Some org"
    and load: "load_event db agent event = Inr e" "ev_payload e = PlForget before"
    and live: "ev_target e \<in> mr_id ` set (md_rows db)" and st: "stamped db (ev_target e) now undo"
    and run: "revert_event db now undo agent event = Inr (row, db')"
  shows "md_rows db' = md_rows db \<and> project org [] (events_of db' agent @ later) = None
    \<and> rebuild_materialized db' agent = Inl (MemDb UniqueViolation)"
proof -
  have inv: "memory_inv db" using reach by (rule memory.reach_inv)
  have "restores_live db e" using load(2) live by (simp add: restores_live_def)
  then have d: "doubles agent db db'" by (rule revert_live [OF inv load(1) st _ run])
  note none = doubles_projection [OF inv d org]
  have "md_agent_org db' agent = Some org" "md_rows db' = md_rows db" using d org by (auto simp: doubles_def)
  then show ?thesis
    using rebuild_fails [OF doubles_inv [OF inv d] _ none] project_None_append [OF none] by simp
qed

definition sample_forgotten :: memory_db where
  "sample_forgotten = sample_written\<lparr>md_rows := [],
     md_events := md_events sample_written @ [event_row 31 1 7 20 (SrcTurn 3) 110 (PlForget ''tea at 4'')]\<rparr>"

definition sample_restored :: memory_db where
  "sample_restored = sample_forgotten\<lparr>
     md_rows := [fresh_row 20 1 7 ''tea at 4'' MkOther MsTentative False None None 120 None],
     md_events := md_events sample_forgotten
       @ [event_row 32 1 7 20 SrcOperator 120 (PlWrite ''tea at 4'' MkOther MsTentative False None)]\<rparr>"

lemmas sample_restore_simps = sample_restored_def sample_forgotten_def sample_written_def sample_memory_def
  revert_event_def load_event_def decode_memory_event_def
  revert_forget_def restore_attrs_for_def latest_event_def insert_event_def event_row_def agent_org_def memory_sees_def
  get_memory_def decode_memory_row_def

lemma sample_forget_run:
  "apply_as (\<lambda>_. Inr [1]) sample_written (ActingUser 9) 110 99 31 (MForget 1 20 (SrcTurn 3))
     = Some (Inr (\<lparr>mo_event = 31, mo_memory = 20, mo_row = None\<rparr>, sample_forgotten))"
  by (simp add: sample_restore_simps apply_as_def apply_forget_def lock_existing_def fresh_row_def delete_rows_def)

lemma sample_restore_run: "revert_event sample_forgotten 120 32 1 31 = Inr (Some (hd (md_rows sample_restored)), sample_restored)"
  by (simp add: sample_restore_simps fresh_row_def del: not_None_eq)

lemma sample_restore_load: "load_event sample_forgotten 1 31 = Inr (event_row 31 1 7 20 (SrcTurn 3) 110 (PlForget ''tea at 4''))"
  by (simp add: sample_restore_simps)

lemma sample_restored_reach: "reach memory_seed (memory_step (\<lambda>_. Inr [1])) sample_restored"
proof (rule reach.reach_step)
  show "memory_step (\<lambda>_. Inr [1]) sample_forgotten (CallFor 1 SrcOperator) sample_restored"
    by (rule mem_revert [OF sample_restore_load _ sample_restore_run])
      (simp add: stamped_def stamp_def sample_restore_simps less_prod_def)
  have "memory_step (\<lambda>_. Inr [1]) sample_written (CallFor 1 (SrcTurn 3)) sample_forgotten"
    using mem_mutate [of sample_written 99 "MForget 1 20 (SrcTurn 3)" 110 31, OF _ _ _ sample_forget_run]
    by (simp add: stamped_def unused_def sample_written_def sample_memory_def less_prod_def)
  then show "reach memory_seed (memory_step (\<lambda>_. Inr [1])) sample_forgotten"
    by (rule reach.reach_step [OF sample_written_reach])
qed

theorem second_restore_breaks_the_journal_witness:
  "\<exists>row db'. revert_event sample_restored 130 33 1 31 = Inr (row, db') \<and> row \<noteq> None
     \<and> rebuild_materialized db' 1 = Inl (MemDb UniqueViolation)"
proof -
  have run: "revert_event sample_restored 130 33 1 31 = Inr (Some (hd (md_rows sample_restored)), sample_restored\<lparr>md_events :=
      md_events sample_restored @ [event_row 33 1 7 20 SrcOperator 130 (PlWrite ''tea at 4'' MkOther MsTentative False None)]\<rparr>)"
    by (simp add: sample_restore_simps fresh_row_def del: not_None_eq)
  obtain e where load: "load_event sample_restored 1 31 = Inr e" "ev_payload e = PlForget ''tea at 4''" "ev_target e = 20"
    by (simp add: sample_restore_simps)
  have "md_agent_org sample_restored 1 = Some 7" "ev_target e \<in> mr_id ` set (md_rows sample_restored)"
      "stamped sample_restored (ev_target e) 130 33"
    using load(3) by (simp_all add: stamped_def sample_restored_def sample_forgotten_def sample_written_def sample_memory_def less_prod_def)
  with second_restore_breaks_the_journal [OF sample_restored_reach _ load(1,2) _ _ run] run
  show ?thesis by blast
qed

end
