(* ===== verification/Memory_Sweep_Laws.thy ===== *)
theory Memory_Sweep_Laws
  imports Memory_Librarian Memory_Properties
begin

text \<open>
  What a sweep of the librarian does to an agent's memories: duplicates are merged whoever they are
  about, the quota holds afterwards for all but pinned memories, and nobody else is touched.
\<close>

section \<open>Ids and times\<close>

definition ids_of :: "memory_db \<Rightarrow> uuid set" where
  "ids_of db = mr_id ` set (md_rows db)"

definition written_at :: "timestamp \<Rightarrow> memory_db \<Rightarrow> memory_db \<Rightarrow> bool" where
  "written_at now db db' \<longleftrightarrow> ids_of db' \<subseteq> ids_of db
     \<and> (\<forall>e \<in> set (md_events db'). e \<in> set (md_events db) \<or> ev_created_at e = now)"

lemma written_ids: "written_at now db db' \<Longrightarrow> ids_of db' \<subseteq> ids_of db" by (simp add: written_at_def)

lemma written_at_refl: "written_at now db db" by (simp add: written_at_def)

lemma written_at_trans: "written_at now db db1 \<Longrightarrow> written_at now db1 db2 \<Longrightarrow> written_at now db db2"
  unfolding written_at_def by blast

lemma decode_memory_row_Inr: "decode_memory_row r = Inr s \<Longrightarrow> s = r"
  by (auto simp: decode_memory_row_def split: sum.splits)

lemma ids_of_set_row:
  assumes "\<And>r. mr_id (f r) = mr_id r"
  shows "ids_of (set_row db i f) = ids_of db"
proof -
  have "mr_id ` set (update_where (\<lambda>r. mr_id r = i) f rows) = mr_id ` set rows" for rows
    using assms by (induction rows) auto
  then show ?thesis by (simp add: ids_of_def set_row_def)
qed

lemma hold_rows_written: "hold_rows db now mint n rows = Inr (k, db') \<Longrightarrow> written_at now db db'"
proof (induction rows arbitrary: db n)
  case (Cons row rows)
  from Cons.prems obtain r where r: "decode_memory_row row = Inr r" by (cases "decode_memory_row row") auto
  with Cons.prems obtain db1 where
    ins: "insert_event db Privileged (mint n) (mr_agent r) (mr_id r) SrcLibrarian now
        (PlUpdate (mr_content r) (mr_content r) (mr_kind r) MsHeld (mr_pinned r)) = Inr db1"
    and rest: "hold_rows (set_row db1 (mr_id r) (\<lambda>r. r\<lparr>mr_state := MsHeld\<rparr>)) now mint (n + 1) rows = Inr (k, db')"
    by (auto split: sum.splits)
  have "written_at now db (set_row db1 (mr_id r) (\<lambda>r. r\<lparr>mr_state := MsHeld\<rparr>))"
    using insert_event_events [OF ins] ids_of_set_row [of "\<lambda>r. r\<lparr>mr_state := MsHeld\<rparr>" db1 "mr_id r"]
    by (auto simp: written_at_def ids_of_def set_row_def)
  then show ?case using Cons.IH [OF rest] by (rule written_at_trans)
qed (simp add: written_at_refl)

lemma forget_rows_written: "forget_rows db now mint n agent rows = Inr (ids, db') \<Longrightarrow> written_at now db db'"
proof (induction rows arbitrary: db n ids)
  case (Cons row rows)
  from Cons.prems obtain r where r: "decode_memory_row row = Inr r" by (cases "decode_memory_row row") auto
  with Cons.prems obtain db1 js where
    ins: "insert_event db Privileged (mint n) agent (mr_id r) SrcLibrarian now (PlForget (mr_content r)) = Inr db1"
    and rest: "forget_rows (delete_rows db1 (\<lambda>s. mr_id s = mr_id r)) now mint (n + 1) agent rows = Inr (js, db')"
    by (auto split: sum.splits)
  have "written_at now db (delete_rows db1 (\<lambda>s. mr_id s = mr_id r))"
    using insert_event_events [OF ins] by (auto simp: written_at_def ids_of_def delete_rows_def)
  then show ?case using Cons.IH [OF rest] by (rule written_at_trans)
qed (simp add: written_at_refl)

lemma evict_written: "evict_overflow db now mint agent quota = Inr (ids, db') \<Longrightarrow> written_at now db db'"
  by (auto simp: evict_overflow_def Let_def written_at_refl dest: forget_rows_written split: if_splits)

lemma apply_forget_Inr:
  assumes "apply_forget db actor now event agent target source = Inr (out, db')"
  shows "\<exists>(r :: memory_row) db1. lock_existing db actor agent target source = Inr r
    \<and> insert_event db actor event agent target source now (PlForget (mr_content r)) = Inr db1
    \<and> db' = delete_rows db1 (\<lambda>x. mr_id x = target)"
  using assms by (auto simp: apply_forget_def split: sum.splits)

lemma apply_forget_written:
  assumes "apply_forget db actor now event agent target source = Inr (out, db')"
  shows "written_at now db db'" "target \<notin> ids_of db'"
proof -
  obtain r :: memory_row and db1 where ins: "insert_event db actor event agent target source now (PlForget (mr_content r)) = Inr db1"
    and db': "db' = delete_rows db1 (\<lambda>x. mr_id x = target)" using apply_forget_Inr [OF assms] by blast
  show "written_at now db db'" "target \<notin> ids_of db'"
    using insert_event_events [OF ins] by (auto simp: db' written_at_def ids_of_def delete_rows_def)
qed

lemma silent_ids: "silent db db' \<Longrightarrow> ids_of db' = ids_of db"
  by (simp add: ids_of_def silentD(2))

lemma contradiction_loop_silent:
  "contradiction_loop env agent forgotten db n k pairs = (res, db') \<Longrightarrow> silent db db'"
proof (induction pairs arbitrary: db n k)
  case (Cons pair pairs)
  consider (skip) "contradiction_loop env agent forgotten db n k pairs = (res, db')"
    | (failed) "db' = db"
    | (flagged) i db1 where
      "record_contradiction db (we_now env n) (we_mint env n 0) agent (mr_id (pc_a pair)) (mr_id (pc_b pair))
        (contradiction_reason env (pc_similarity pair)) = Inr (i, db1)"
      "contradiction_loop env agent forgotten db1 (n + 1) (k + 1) pairs = (res, db')"
    using Cons.prems by (auto split: sum.splits if_splits)
  then show ?case
  proof cases
    case skip
    then show ?thesis by (rule Cons.IH)
  next
    case failed
    then show ?thesis by (simp add: silent_def same_cores_def)
  next
    case flagged
    from contradiction_silent [OF flagged(1)] Cons.IH [OF flagged(2)] show ?thesis by (simp add: silent_def same_cores_def)
  qed
qed (simp add: silent_def same_cores_def)

section \<open>Duplicates\<close>

lemma dedup_loop_ids:
  "dedup_loop env agent db forgotten n pairs = (Inr (forgotten', n'), db') \<Longrightarrow>
   set forgotten \<subseteq> set forgotten' \<and> ids_of db' \<subseteq> ids_of db \<and> (set forgotten' - set forgotten) \<inter> ids_of db' = {}
   \<and> (\<forall>p \<in> set pairs. mr_id (pc_a p) \<in> set forgotten' \<or> mr_id (pc_b p) \<in> set forgotten' \<or> mr_pinned (pick_dedup_loser p))"
proof (induction pairs arbitrary: db forgotten n)
  case (Cons p pairs)
  consider (skip) "dedup_loop env agent db forgotten n pairs = (Inr (forgotten', n'), db')"
      "mr_id (pc_a p) \<in> set forgotten \<or> mr_id (pc_b p) \<in> set forgotten \<or> mr_pinned (pick_dedup_loser p)"
    | (merge) out db1 where
      "apply_forget db Privileged (we_now env n) (we_mint env n 0) agent (mr_id (pick_dedup_loser p)) SrcLibrarian = Inr (out, db1)"
      "dedup_loop env agent db1 (mr_id (pick_dedup_loser p) # forgotten) (n + 1) pairs = (Inr (forgotten', n'), db')"
    using Cons.prems by (auto simp: Let_def split: sum.splits if_splits)
  then show ?case
  proof cases
    case skip
    from Cons.IH [OF skip(1)] skip(2) show ?thesis by auto
  next
    case merge
    note w = apply_forget_written [OF merge(1)]
    have "mr_id (pick_dedup_loser p) = mr_id (pc_a p) \<or> mr_id (pick_dedup_loser p) = mr_id (pc_b p)"
      by (simp add: pick_dedup_loser_def Let_def)
    then show ?thesis using Cons.IH [OF merge(2)] w by (auto simp: written_at_def)
  qed
qed simp

lemma decode_all_mem: "decode_all f xs = Inr ys \<Longrightarrow> x \<in> set xs \<Longrightarrow> \<exists>y \<in> set ys. f x = Inr y"
proof (induction xs arbitrary: ys)
  case (Cons z xs)
  then obtain y ys' where "f z = Inr y" "decode_all f xs = Inr ys'" "ys = y # ys'" by (auto split: sum.splits)
  with Cons.IH [of ys'] Cons.prems(2) show ?case by auto
qed simp

text \<open>The rows the pairs are read from.\<close>

lemma similar_pairs_mem:
  assumes run: "similar_pairs distance narrow db agent t MAX_SIMILAR_PAIRS_PER_AGENT = Inr pairs"
    and a: "a \<in> set (rows_of db agent)" "mr_embedding a = Some v"
    and b: "b \<in> set (rows_of db agent)" "mr_embedding b = Some w"
    and close: "mr_id a < mr_id b" "1 - distance v w \<ge> t"
    and few: "length (close_pairs distance t (rows_of db agent)) \<le> MAX_SIMILAR_PAIRS_PER_AGENT"
  shows "\<exists>p \<in> set pairs. pc_a p = a \<and> pc_b p = b"
proof -
  let ?x = "(1 - distance v w, a, b)"
  have "?x \<in> set (close_pairs distance t (rows_of db agent))"
    using a b close by (force simp: close_pairs_def)
  then have "?x \<in> set (take MAX_SIMILAR_PAIRS_PER_AGENT (sort_key (\<lambda>(s, a, b). - s) (close_pairs distance t (rows_of db agent))))"
    using few by simp
  from decode_all_mem [OF run [unfolded similar_pairs_def min.idem rows_of_def [symmetric]] this]
  obtain p where p: "p \<in> set pairs"
    "(case (decode_memory_row a, decode_memory_row b) of (Inl e, _) \<Rightarrow> Inl e | (Inr _, Inl e) \<Rightarrow> Inl e
       | (Inr a, Inr b) \<Rightarrow> Inr \<lparr>pc_a = a, pc_b = b, pc_similarity = narrow (1 - distance v w)\<rparr>) = Inr p" by auto
  from p(2) have "pc_a p = a \<and> pc_b p = b" by (auto split: sum.splits dest!: decode_memory_row_Inr)
  with p(1) show ?thesis by blast
qed

lemma sweep_Inr:
  assumes "run_librarian_sweep env db agent now = (Inr report, db')"
  obtains dups db1 forgotten n k2 db2 k3 db3 ids db4 close flagged where
    "similar_pairs (we_distance env) (we_narrow env) db agent (we_narrow env DEDUP_SIMILARITY_THRESHOLD)
       MAX_SIMILAR_PAIRS_PER_AGENT = Inr dups"
    "dedup_loop env agent db [] 0 dups = (Inr (forgotten, n), db1)"
    "mature_tentative db1 (we_now env n) (we_mint env n) agent (now - MATURATION_WINDOW) = Inr (k2, db2)"
    "decay_validated db2 (we_now env (n + 1)) (we_mint env (n + 1)) agent (now - VALIDATION_DECAY) = Inr (k3, db3)"
    "evict_overflow db3 (we_now env (n + 2)) (we_mint env (n + 2)) agent MAX_MEMORIES_PER_AGENT = Inr (ids, db4)"
    "contradiction_loop env agent forgotten db4 (n + 3) 0 close = (Inr flagged, db')"
  using assms unfolding run_librarian_sweep_def Let_def
  by (auto split: sum.splits prod.splits intro: that)

text \<open>
  C33. A sweep that ends well leaves no two unpinned near-duplicates of one agent (as long as it has at most 256 such
  pairs). The comparison looks at the text's vector only: of two memories with the same text about
  different colleagues one is forgotten, as the witness shows.
\<close>

theorem sweep_merges_duplicates:
  assumes run: "run_librarian_sweep env db agent now = (Inr report, db')"
    and a: "a \<in> set (rows_of db agent)" "mr_embedding a = Some v" "\<not> mr_pinned a"
    and b: "b \<in> set (rows_of db agent)" "mr_embedding b = Some w" "\<not> mr_pinned b"
    and close: "mr_id a < mr_id b" "1 - we_distance env v w \<ge> we_narrow env DEDUP_SIMILARITY_THRESHOLD"
    and few: "length (close_pairs (we_distance env) (we_narrow env DEDUP_SIMILARITY_THRESHOLD) (rows_of db agent))
      \<le> MAX_SIMILAR_PAIRS_PER_AGENT"
  shows "\<not> {mr_id a, mr_id b} \<subseteq> mr_id ` set (md_rows db')"
  using run
proof (rule sweep_Inr)
  fix dups db1 forgotten n k2 db2 k3 db3 ids db4 close' flagged
  assume s: "similar_pairs (we_distance env) (we_narrow env) db agent (we_narrow env DEDUP_SIMILARITY_THRESHOLD)
       MAX_SIMILAR_PAIRS_PER_AGENT = Inr dups"
    "dedup_loop env agent db [] 0 dups = (Inr (forgotten, n), db1)"
    "mature_tentative db1 (we_now env n) (we_mint env n) agent (now - MATURATION_WINDOW) = Inr (k2, db2)"
    "decay_validated db2 (we_now env (n + 1)) (we_mint env (n + 1)) agent (now - VALIDATION_DECAY) = Inr (k3, db3)"
    "evict_overflow db3 (we_now env (n + 2)) (we_mint env (n + 2)) agent MAX_MEMORIES_PER_AGENT = Inr (ids, db4)"
    "contradiction_loop env agent forgotten db4 (n + 3) 0 close' = (Inr flagged, db')"
  obtain p where p: "p \<in> set dups" "pc_a p = a" "pc_b p = b"
    using similar_pairs_mem [OF s(1) a(1,2) b(1,2) close few] by blast
  have "\<not> mr_pinned (pick_dedup_loser p)" using a(3) b(3) p by (simp add: pick_dedup_loser_def Let_def)
  then have "mr_id a \<in> set forgotten \<or> mr_id b \<in> set forgotten" using dedup_loop_ids [OF s(2)] p by blast
  moreover have "set forgotten \<inter> ids_of db1 = {}" using dedup_loop_ids [OF s(2)] by simp
  moreover have "ids_of db' \<subseteq> ids_of db1"
  proof -
    have "ids_of db' = ids_of db4" by (rule silent_ids [OF contradiction_loop_silent [OF s(6)]])
    also have "\<dots> \<subseteq> ids_of db3" by (rule written_ids [OF evict_written [OF s(5)]])
    also have "\<dots> \<subseteq> ids_of db2" by (rule written_ids [OF hold_rows_written [OF s(4) [unfolded decay_validated_def]]])
    also have "\<dots> \<subseteq> ids_of db1" by (rule written_ids [OF hold_rows_written [OF s(3) [unfolded mature_tentative_def]]])
    finally show ?thesis .
  qed
  ultimately show ?thesis unfolding ids_of_def [symmetric] by (metis disjoint_iff insert_subset subsetD)
qed

definition sample_sweep_env :: sweep_env where
  "sample_sweep_env = \<lparr>we_distance = (\<lambda>v w. 0), we_narrow = (\<lambda>x. x), we_show = (\<lambda>_. ''1''),
     we_now = (\<lambda>n. 200 + int n), we_mint = (\<lambda>n k. 1000 + 100 * n + k)\<rparr>"

definition sample_twins :: memory_db where
  "sample_twins = sample_memory\<lparr>md_rows :=
     [fresh_row 20 1 7 ''tea at 4'' MkCollaborator MsHeld False (Some 5) None 100 (Some [1]),
      fresh_row 21 1 7 ''tea at 4'' MkCollaborator MsHeld False (Some 6) None 110 (Some [1])]\<rparr>"

lemmas sample_sweep_simps = run_librarian_sweep_def similar_pairs_def close_pairs_def decode_memory_row_def fresh_row_def
  sample_sweep_env_def MAX_SIMILAR_PAIRS_PER_AGENT_def mature_tentative_def decay_validated_def evict_overflow_def
  MAX_MEMORIES_PER_AGENT_def DEDUP_SIMILARITY_THRESHOLD_def CONTRADICTION_SIMILARITY_THRESHOLD_def

text \<open>One belief about colleague 5, the same about colleague 6: the sweep keeps one of them.\<close>

theorem sweep_merges_duplicates_witness:
  "map mr_subject (md_rows sample_twins) = [Some 5, Some 6]
   \<and> (\<exists>report db'. run_librarian_sweep sample_sweep_env sample_twins 1 300 = (Inr report, db')
        \<and> \<not> {20, 21} \<subseteq> mr_id ` set (md_rows db'))"
proof -
  obtain report db' where run: "run_librarian_sweep sample_sweep_env sample_twins 1 300 = (Inr report, db')"
    by (simp add: sample_sweep_simps sample_twins_def sample_memory_def Let_def pick_dedup_loser_def apply_forget_def
        lock_existing_def insert_event_def agent_org_def memory_sees_def delete_rows_def)
  let ?a = "fresh_row 20 1 7 ''tea at 4'' MkCollaborator MsHeld False (Some 5) None 100 (Some [1])"
  let ?b = "fresh_row 21 1 7 ''tea at 4'' MkCollaborator MsHeld False (Some 6) None 110 (Some [1])"
  have rows: "rows_of sample_twins 1 = [?a, ?b]" by (simp add: rows_of_def sample_twins_def)
  have ma: "?a \<in> set (rows_of sample_twins 1)" and mb: "?b \<in> set (rows_of sample_twins 1)"
    unfolding rows by simp_all
  have few: "length (close_pairs (we_distance sample_sweep_env) (we_narrow sample_sweep_env DEDUP_SIMILARITY_THRESHOLD)
      (rows_of sample_twins 1)) \<le> MAX_SIMILAR_PAIRS_PER_AGENT"
    unfolding rows by (simp add: close_pairs_def fresh_row_def sample_sweep_env_def MAX_SIMILAR_PAIRS_PER_AGENT_def
        DEDUP_SIMILARITY_THRESHOLD_def)
  have "\<not> {mr_id ?a, mr_id ?b} \<subseteq> mr_id ` set (md_rows db')"
    by (rule sweep_merges_duplicates [OF run ma _ _ mb, where v = "[1]" and w = "[1]"])
      (use few in \<open>simp_all add: fresh_row_def sample_sweep_env_def DEDUP_SIMILARITY_THRESHOLD_def\<close>)
  then have "\<not> {20, 21} \<subseteq> mr_id ` set (md_rows db')" by simp
  with run show ?thesis by (simp add: sample_twins_def fresh_row_def)
qed

section \<open>The quota\<close>

text \<open>Each call of a sweep has a later clock than the one before; the ids it mints come in any order.\<close>

definition before :: "sweep_env \<Rightarrow> nat \<Rightarrow> memory_db \<Rightarrow> bool" where
  "before env n db \<longleftrightarrow> (\<forall>e \<in> set (md_events db). ev_created_at e < we_now env n)"

definition sweep_clock :: "sweep_env \<Rightarrow> bool" where
  "sweep_clock env \<longleftrightarrow> strict_mono (we_now env)"

lemma before_stamps:
  assumes "before env n db"
  shows "ahead db agent (we_now env n)" "stamped db target (we_now env n) event"
  using assms by (auto simp: before_def ahead_def events_of_def stamped_def stamp_def less_prod_def)

lemma before_next:
  assumes "sweep_clock env" "before env n db" "written_at (we_now env n) db db'"
  shows "before env (n + 1) db'"
proof -
  have "we_now env n < we_now env (n + 1)" using assms(1) by (simp add: sweep_clock_def strict_mono_def)
  then show ?thesis using assms(2,3) unfolding before_def written_at_def by (metis order.strict_trans)
qed

lemma dedup_loop_changes:
  assumes "sweep_clock env" "memory_inv db" "before env n db" "dedup_loop env agent db forgotten n pairs = (res, db')"
  shows "changes agent SrcLibrarian db db' \<and> (\<forall>f n'. res = Inr (f, n') \<longrightarrow> before env n' db')"
  using assms(2-)
proof (induction pairs arbitrary: db forgotten n)
  case (Cons p pairs)
  consider (skip) "dedup_loop env agent db forgotten n pairs = (res, db')"
    | (failed) e where "res = Inl e" "db' = db"
    | (merge) out db1 where
      "apply_forget db Privileged (we_now env n) (we_mint env n 0) agent (mr_id (pick_dedup_loser p)) SrcLibrarian = Inr (out, db1)"
      "dedup_loop env agent db1 (mr_id (pick_dedup_loser p) # forgotten) (n + 1) pairs = (res, db')"
    using Cons.prems(3) by (auto simp: Let_def split: sum.splits if_splits)
  then show ?case
  proof cases
    case skip
    then show ?thesis by (rule Cons.IH [OF Cons.prems(1,2)])
  next
    case failed
    then show ?thesis by (simp add: changes_refl)
  next
    case merge
    obtain r :: memory_row and db2 where
      lock: "lock_existing db Privileged agent (mr_id (pick_dedup_loser p)) SrcLibrarian = Inr r"
      and ins: "insert_event db Privileged (we_mint env n 0) agent (mr_id (pick_dedup_loser p)) SrcLibrarian (we_now env n)
        (PlForget (mr_content r)) = Inr db2"
      and db1: "db1 = delete_rows db2 (\<lambda>x. mr_id x = mr_id (pick_dedup_loser p))"
      using apply_forget_Inr [OF merge(1)] by blast
    have ch: "changes agent SrcLibrarian db db1"
      unfolding db1 by (rule locked_forget [OF Cons.prems(1) lock before_stamps(2) [OF Cons.prems(2)] ins])
    have "before env (n + 1) db1" by (rule before_next [OF assms(1) Cons.prems(2) apply_forget_written(1) [OF merge(1)]])
    from Cons.IH [OF changes_inv [OF ch Cons.prems(1)] this merge(2)] show ?thesis using changes_trans [OF _ ch] by blast
  qed
qed (auto simp: changes_refl)

lemma length_without:
  assumes "distinct (map mr_id rows)" "distinct (map mr_id victims)" "set victims \<subseteq> set rows"
  shows "length (filter (\<lambda>r. mr_id r \<notin> mr_id ` set victims) rows) + length victims = length rows"
proof -
  have "set (filter (\<lambda>r. mr_id r \<in> mr_id ` set victims) rows) = set victims"
  proof
    show "set (filter (\<lambda>r. mr_id r \<in> mr_id ` set victims) rows) \<subseteq> set victims"
    proof
      fix r assume "r \<in> set (filter (\<lambda>r. mr_id r \<in> mr_id ` set victims) rows)"
      then obtain v where "v \<in> set victims" "mr_id v = mr_id r" "r \<in> set rows" by auto
      then show "r \<in> set victims" using assms(1,3) distinct_map_inj by (metis subsetD)
    qed
  qed (use assms(3) in auto)
  moreover have "distinct rows" "distinct victims" using assms(1,2) by (simp_all add: distinct_map)
  ultimately have "length (filter (\<lambda>r. mr_id r \<in> mr_id ` set victims) rows) = length victims"
    by (metis distinct_card distinct_filter)
  then show ?thesis using sum_length_filter_compl [of "\<lambda>r. mr_id r \<in> mr_id ` set victims" rows] by simp
qed

definition pinned_count :: "memory_db \<Rightarrow> uuid \<Rightarrow> nat" where
  "pinned_count db agent = length (filter mr_pinned (rows_of db agent))"

lemma evict_quota:
  assumes inv: "memory_inv db" and st: "ahead db agent now" and run: "evict_overflow db now mint agent quota = Inr (ids, db')"
  shows "length (rows_of db' agent) \<le> max quota (pinned_count db' agent)"
proof (cases "length (rows_of db agent) \<le> quota")
  case True
  with run show ?thesis by (simp add: evict_overflow_def rows_of_def)
next
  case False
  define free where "free = filter (\<lambda>r. \<not> mr_pinned r) (rows_of db agent)"
  define victims where "victims = take (length (rows_of db agent) - quota) (sort_key eviction_key free)"
  have free_eq: "free = filter (\<lambda>r. mr_agent r = agent \<and> \<not> mr_pinned r) (md_rows db)"
    by (simp add: free_def rows_of_def conj_commute)
  have dist: "distinct (map mr_id (rows_of db agent))" unfolding rows_of_def by (rule distinct_ids_filter [OF inv])
  then have "distinct (map mr_id (sort_key eviction_key free))" by (simp add: free_def distinct_map distinct_map_filter inj_on_def)
  then have dv: "distinct (map mr_id victims)" unfolding victims_def by (simp add: take_map [symmetric])
  have mem: "set victims \<subseteq> set free" unfolding victims_def by (rule order_trans [OF set_take_subset]) simp
  then have sub: "set victims \<subseteq> set (rows_of db agent)" "\<forall>r \<in> set victims. mr_agent r = agent \<and> \<not> mr_pinned r"
    by (auto simp: free_def rows_of_def)
  have fr: "forget_rows db now mint 0 agent victims = Inr (ids, db')"
    using run False by (simp add: evict_overflow_def Let_def victims_def free_eq rows_of_def)
  have "md_rows db' = filter (\<lambda>r. mr_id r \<notin> mr_id ` set victims) (md_rows db)"
    using forget_rows_changes [OF inv ahead_later [OF inv st sub(1)] _ dv sub(2) fr] sub(1) by (auto simp: rows_of_def)
  then have rows: "rows_of db' agent = filter (\<lambda>r. mr_id r \<notin> mr_id ` set victims) (rows_of db agent)"
    by (simp add: rows_of_def conj_commute)
  have len: "length (rows_of db' agent) + length victims = length (rows_of db agent)"
    unfolding rows by (rule length_without [OF dist dv sub(1)])
  have "filter mr_pinned (rows_of db' agent) = filter mr_pinned (rows_of db agent)"
    unfolding rows filter_filter
  proof (rule filter_cong [OF refl])
    fix r assume r: "r \<in> set (rows_of db agent)"
    have "r = v" if "v \<in> set victims" "mr_id v = mr_id r" for v
      using distinct_map_inj [OF dist] r that sub(1) by (metis subsetD)
    then show "(mr_id r \<notin> mr_id ` set victims \<and> mr_pinned r) = mr_pinned r"
      using sub(2) by (metis imageE)
  qed
  then have "pinned_count db' agent + length free = length (rows_of db agent)"
    by (simp add: pinned_count_def free_def sum_length_filter_compl)
  moreover have "length victims = min (length (rows_of db agent) - quota) (length free)" by (simp add: victims_def min.commute)
  ultimately show ?thesis using len False by linarith
qed

text \<open>How far a sweep came before it ended.\<close>

lemma sweep_stages:
  assumes "run_librarian_sweep env db agent now = (res, db')"
  obtains (unread_pairs) e where "db' = db" "res = Inl e"
    | (dedup) dups e where "dedup_loop env agent db [] 0 dups = (Inl e, db')" "res = Inl e"
    | (mature) dups db1 f n e where "dedup_loop env agent db [] 0 dups = (Inr (f, n), db1)" "db' = db1" "res = Inl e"
    | (decay) dups db1 f n k2 e where "dedup_loop env agent db [] 0 dups = (Inr (f, n), db1)"
        "mature_tentative db1 (we_now env n) (we_mint env n) agent (now - MATURATION_WINDOW) = Inr (k2, db')" "res = Inl e"
    | (evict) dups db1 f n k2 db2 k3 e where "dedup_loop env agent db [] 0 dups = (Inr (f, n), db1)"
        "mature_tentative db1 (we_now env n) (we_mint env n) agent (now - MATURATION_WINDOW) = Inr (k2, db2)"
        "decay_validated db2 (we_now env (n + 1)) (we_mint env (n + 1)) agent (now - VALIDATION_DECAY) = Inr (k3, db')" "res = Inl e"
    | (evicted) dups db1 f n k2 db2 k3 db3 ids db4 where "dedup_loop env agent db [] 0 dups = (Inr (f, n), db1)"
        "mature_tentative db1 (we_now env n) (we_mint env n) agent (now - MATURATION_WINDOW) = Inr (k2, db2)"
        "decay_validated db2 (we_now env (n + 1)) (we_mint env (n + 1)) agent (now - VALIDATION_DECAY) = Inr (k3, db3)"
        "evict_overflow db3 (we_now env (n + 2)) (we_mint env (n + 2)) agent MAX_MEMORIES_PER_AGENT = Inr (ids, db4)"
        "silent db4 db'"
proof -
  have refl: "silent d d" for d by (simp add: silent_def same_cores_def)
  show thesis
    using assms unfolding run_librarian_sweep_def Let_def
    by (auto split: sum.splits prod.splits intro: that refl contradiction_loop_silent)
qed

text \<open>
  C34. A sweep that ends well leaves an agent at most 1024 memories, unless more than that are pinned.
  However it ends, pinned memories and the memories of every other agent come through exactly as they
  were. Its calls read later and later clocks; the ids they mint are arbitrary.
\<close>

theorem sweep_keeps_the_quota:
  assumes reach: "reach memory_seed (memory_step embedder) db" and clock: "sweep_clock env" "before env 0 db"
    and run: "run_librarian_sweep env db agent now = (res, db')"
  shows "(res = Inr report \<longrightarrow> length (rows_of db' agent) \<le> max MAX_MEMORIES_PER_AGENT (pinned_count db' agent))
    \<and> (\<forall>r \<in> set (md_rows db). mr_pinned r \<longrightarrow> r \<in> set (md_rows db'))
    \<and> (\<forall>b. b \<noteq> agent \<longrightarrow> rows_of db' b = rows_of db b)"
proof -
  have inv: "memory_inv db" using reach by (rule memory.reach_inv)
  have d: "changes agent SrcLibrarian db d1 \<and> (\<forall>f n. r1 = Inr (f, n) \<longrightarrow> before env n d1)"
    if "dedup_loop env agent db [] 0 dups = (r1, d1)" for dups r1 d1
    by (rule dedup_loop_changes [OF clock(1) inv clock(2) that])
  have m: "changes agent SrcLibrarian db d2 \<and> before env (n + 1) d2"
    if "dedup_loop env agent db [] 0 dups = (Inr (f, n), d1)"
      "mature_tentative d1 (we_now env n) (we_mint env n) agent cutoff = Inr (k, d2)" for dups f n d1 k d2 cutoff
  proof -
    have d1: "changes agent SrcLibrarian db d1" "before env n d1" using d [OF that(1)] by auto
    show ?thesis
      using changes_trans [OF mature_changes [OF changes_inv [OF d1(1) inv] before_stamps(1) [OF d1(2)] that(2)] d1(1)]
        before_next [OF clock(1) d1(2) hold_rows_written [OF that(2) [unfolded mature_tentative_def]]] by simp
  qed
  have y: "changes agent SrcLibrarian db d3 \<and> before env (n + 2) d3"
    if "changes agent SrcLibrarian db d2" "before env (n + 1) d2"
      "decay_validated d2 (we_now env (n + 1)) (we_mint env (n + 1)) agent cutoff = Inr (k, d3)" for n d2 k d3 cutoff
    using changes_trans [OF decay_changes [OF changes_inv [OF that(1) inv] before_stamps(1) [OF that(2)] that(3)] that(1)]
      before_next [OF clock(1) that(2) hold_rows_written [OF that(3) [unfolded decay_validated_def]]] by simp
  have "changes agent SrcLibrarian db db'
      \<and> (res = Inr report \<longrightarrow> length (rows_of db' agent) \<le> max MAX_MEMORIES_PER_AGENT (pinned_count db' agent))"
    using run
  proof (cases rule: sweep_stages)
    case (evict dups db1 f n k2 db2 k3 e)
    then show ?thesis using y [OF _ _ evict(3)] m [OF evict(1,2)] by auto
  next
    case (evicted dups db1 f n k2 db2 k3 db3 ids db4)
    have c3: "changes agent SrcLibrarian db db3" "before env (n + 2) db3"
      using y [OF _ _ evicted(3)] m [OF evicted(1,2)] by auto
    note st = changes_inv [OF c3(1) inv] before_stamps(1) [OF c3(2)]
    have "changes agent SrcLibrarian db db'"
      by (rule changes_trans [OF silent_changes [OF evicted(5)] changes_trans [OF evict_changes [OF st evicted(4)] c3(1)]])
    moreover have "rows_of db' agent = rows_of db4 agent" by (rule silentD(3) [OF evicted(5)])
    ultimately show ?thesis using evict_quota [OF st evicted(4)] by (simp add: pinned_count_def)
  qed (use d m y in \<open>auto simp: changes_refl\<close>)
  then show ?thesis using changes_pinned changes_others by blast
qed

theorem sweep_keeps_the_quota_witness:
  "\<exists>report db'. run_librarian_sweep sample_sweep_env sample_pinned 1 300 = (Inr report, db')
     \<and> length (rows_of db' 1) \<le> max MAX_MEMORIES_PER_AGENT (pinned_count db' 1)"
proof -
  have run: "run_librarian_sweep sample_sweep_env sample_pinned 1 300
      = (Inr \<lparr>sp_deduped = 0, sp_matured = 0, sp_demoted = 0, sp_evicted = 0, sp_contradictions = 0\<rparr>, sample_pinned)"
    by (simp add: sample_sweep_simps sample_pinned_def sample_written_def sample_memory_def Let_def)
  have "sweep_clock sample_sweep_env" by (simp add: sweep_clock_def sample_sweep_env_def strict_mono_def)
  moreover have "before sample_sweep_env 0 sample_pinned"
    by (simp add: before_def sample_sweep_env_def sample_pinned_def sample_written_def sample_memory_def)
  ultimately show ?thesis using sweep_keeps_the_quota [OF sample_pinned_reach _ _ run] run by blast
qed

end
