(* ===== verification/Reflection.thy ===== *)
theory Reflection
  imports Memory_Librarian Thread_Feed
begin

text \<open>
  The reflection scheduler (\<open>memory/reflection_scheduler.rs\<close>): which pairs of an agent and a thread are
  due, the slice of the feed a reflection reads, its prompt, and the tick that queues it as a
  background turn; and the checkpoint a finished reflection leaves (\<open>threads/pg_store.rs\<close>).
\<close>

definition REFLECTION_IDLE_TIMEOUT :: int where "REFLECTION_IDLE_TIMEOUT = 30 * 60 * 1000000"
definition REFLECTION_SCHEDULER_BATCH_LIMIT :: nat where "REFLECTION_SCHEDULER_BATCH_LIMIT = 32"

section \<open>Tables\<close>

text \<open>\<open>rw_checkpoint_at\<close> is \<open>created_at\<close> of \<open>reflection_checkpoints\<close>, by agent and thread.\<close>

record reflection_world =
  rw_threads :: thread_db
  rw_checkpoint_at :: "uuid \<times> uuid \<rightharpoonup> timestamp"
  rw_background :: background_db
  rw_queue :: queue_db

text \<open>The upsert of a finished reflection: on conflict only \<open>last_message_id\<close> is set.\<close>

definition upsert_checkpoint :: "reflection_world \<Rightarrow> timestamp \<Rightarrow> uuid \<Rightarrow> uuid \<Rightarrow> uuid \<Rightarrow> reflection_world" where
  "upsert_checkpoint w now agent thread up_to =
     w\<lparr>rw_threads := store_reflection_checkpoint (rw_threads w) agent thread up_to,
       rw_checkpoint_at := (case rw_checkpoint_at w (agent, thread) of
          Some _ \<Rightarrow> rw_checkpoint_at w | None \<Rightarrow> (rw_checkpoint_at w)((agent, thread) \<mapsto> now))\<rparr>"

section \<open>Candidates\<close>

record reflection_candidate =
  rl_agent :: uuid
  rl_thread :: uuid
  rl_last_message :: uuid
  rl_latest_at :: timestamp
  rl_previous :: "uuid option"
  rl_org :: uuid
  rl_user :: uuid

definition posted_in :: "thread_db \<Rightarrow> uuid \<Rightarrow> message_row list" where
  "posted_in td thread = filter (\<lambda>m. ms_thread m = thread \<and> ms_kind m = Posted) (td_messages td)"

text \<open>The CTE \<open>latest_per_thread\<close>, of a thread with a posted message.\<close>

definition latest_seq :: "thread_db \<Rightarrow> uuid \<Rightarrow> feed_seq" where
  "latest_seq td thread = Max (set (map ms_seq (posted_in td thread)))"

definition latest_at :: "thread_db \<Rightarrow> uuid \<Rightarrow> timestamp" where
  "latest_at td thread = Max (set (map ms_created_at (posted_in td thread)))"

definition under_reflection :: "queue_db \<Rightarrow> uuid \<Rightarrow> bool" where
  "under_reflection q thread \<longleftrightarrow>
     (\<exists>r \<in> set (prompt_requests q). (case pr_payload r of PReflection th _ \<Rightarrow> th = thread | _ \<Rightarrow> False)
        \<and> (pr_status r = Pending \<or> pr_status r = Processing))"

definition candidate_of :: "reflection_world \<Rightarrow> timestamp \<Rightarrow> participation_row \<Rightarrow> reflection_candidate option" where
  "candidate_of w cutoff ats =
     (let td = rw_threads w; thread = ats_thread ats; agent = ats_agent ats in
      if posted_in td thread = [] then None
      else
        (case (find (\<lambda>m. ms_thread m = thread \<and> ms_seq m = latest_seq td thread) (td_messages td),
               find (\<lambda>t. th_id t = thread) (td_threads td)) of
          (Some lm, Some t) \<Rightarrow>
            (case td_users td (th_created_by t) of
               None \<Rightarrow> None
             | Some user \<Rightarrow>
                 if latest_at td thread \<le> cutoff
                    \<and> (case rw_checkpoint_at w (agent, thread) of None \<Rightarrow> True | Some since \<Rightarrow> since < latest_at td thread)
                    \<and> \<not> under_reflection (rw_queue w) thread
                 then Some \<lparr>rl_agent = agent, rl_thread = thread, rl_last_message = ms_id lm, rl_latest_at = latest_at td thread,
                        rl_previous = td_checkpoints td (agent, thread), rl_org = th_org t, rl_user = user\<rparr>
                 else None)
        | _ \<Rightarrow> None))"

definition due_pairs :: "reflection_world \<Rightarrow> timestamp \<Rightarrow> reflection_candidate list" where
  "due_pairs w cutoff = sort_key rl_latest_at (List.map_filter (candidate_of w cutoff) (td_participation (rw_threads w)))"

definition find_candidates :: "nat \<Rightarrow> reflection_world \<Rightarrow> timestamp \<Rightarrow> reflection_candidate list" where
  "find_candidates batch w cutoff = take batch (due_pairs w cutoff)"

section \<open>The slice and its prompt\<close>

text \<open>The collaborators of a tick: the directory, the printer of JSON and ids, and the ids it mints for a candidate.\<close>

record reflection_env =
  ne_dir :: directory
  ne_show_json :: "json \<Rightarrow> string"
  ne_uuid :: "uuid \<Rightarrow> string"
  ne_mint :: "timestamp \<Rightarrow> reflection_candidate \<Rightarrow> uuid \<times> uuid"   \<comment> \<open>turn, request\<close>
  ne_traceparent :: "string option"

definition tool_result_text :: "string \<Rightarrow> tool_result \<Rightarrow> string" where
  "tool_result_text sep r = ''[tool-result '' @ tr_call_id r @ sep @ (if tr_is_error r then ''err]'' else ''ok]'')"

definition tool_call_text :: "(json \<Rightarrow> string) \<Rightarrow> tool_call \<Rightarrow> string" where
  "tool_call_text show c = ''[tool-call '' @ tc_name c @ ''('' @ show (tc_input c) @ '')]''"

fun map_for_viewer :: "(json \<Rightarrow> string) \<Rightarrow> chat_message \<Rightarrow> bool \<Rightarrow> chat_message" where
  "map_for_viewer show (Assistant bs) True = Assistant bs"
| "map_for_viewer show (User bs) False = User bs"
| "map_for_viewer show (User bs) True = Assistant (map (\<lambda>b. case b of
       UText t \<Rightarrow> CText t
     | UToolResult r \<Rightarrow> CText (tool_result_text '': '' r)
     | UImage a \<Rightarrow> CText (''[image: '' @ att_filename a @ '']'')
     | UFile a \<Rightarrow> CText (''[file: '' @ att_filename a @ '']'')) bs)"
| "map_for_viewer show (Assistant bs) False = User (map (\<lambda>b. case b of
       CText t \<Rightarrow> UText t
     | CReasoning t \<Rightarrow> UText t
     | CToolCall c \<Rightarrow> UText (tool_call_text show c)) bs)"

definition message_seq :: "thread_db \<Rightarrow> uuid option \<Rightarrow> int" where
  "message_seq td i =
     (case i of None \<Rightarrow> -1
      | Some i \<Rightarrow> (case find (\<lambda>m. ms_id m = i) (td_messages td) of None \<Rightarrow> -1 | Some m \<Rightarrow> int (ms_seq m)))"

definition slice_rows :: "thread_db \<Rightarrow> uuid \<Rightarrow> uuid option \<Rightarrow> uuid \<Rightarrow> message_row list" where
  "slice_rows td thread previous up_to =
     sort_key ms_seq (filter (\<lambda>m. message_seq td previous < int (ms_seq m) \<and> int (ms_seq m) \<le> message_seq td (Some up_to))
       (posted_in td thread))"

definition sender_agent :: "directory \<Rightarrow> message_row \<Rightarrow> uuid option" where
  "sender_agent dir m =
     (case ms_sender m of None \<Rightarrow> None
      | Some s \<Rightarrow> (case find (\<lambda>r. dy_id r = s) (dr_rows dir) of None \<Rightarrow> None | Some r \<Rightarrow> dy_agent r))"

definition fetch_slice :: "reflection_env \<Rightarrow> thread_db \<Rightarrow> uuid \<Rightarrow> uuid \<Rightarrow> uuid option \<Rightarrow> uuid \<Rightarrow> chat_message list" where
  "fetch_slice env td thread agent previous up_to =
     map (\<lambda>m. map_for_viewer (ne_show_json env) (ms_body m) (sender_agent (ne_dir env) m = Some agent))
       (slice_rows td thread previous up_to)"

fun render_user_block :: "user_content \<Rightarrow> string" where
  "render_user_block (UText t) = t"
| "render_user_block (UToolResult r) = tool_result_text '': '' r"
| "render_user_block (UImage a) = ''[image: '' @ att_filename a @ '']''"
| "render_user_block (UFile a) = ''[file: '' @ att_filename a @ '']''"

fun render_assistant_block :: "(json \<Rightarrow> string) \<Rightarrow> assistant_content \<Rightarrow> string" where
  "render_assistant_block show (CText t) = t"
| "render_assistant_block show (CReasoning t) = t"
| "render_assistant_block show (CToolCall c) = tool_call_text show c"

fun render_chat_message :: "(json \<Rightarrow> string) \<Rightarrow> chat_message \<Rightarrow> string" where
  "render_chat_message show (User bs) = ''User: '' @ concat (map render_user_block bs) @ newline"
| "render_chat_message show (Assistant bs) = ''Assistant: '' @ concat (map (render_assistant_block show) bs) @ newline"

definition reflection_header :: string where
  "reflection_header = ''Reflect on the conversation below. Identify what should be remembered, updated, or forgotten.''
     @ newline @ newline @ ''## Conversation'' @ newline"

definition reflection_notice :: string where
  "reflection_notice = ''[earlier turns truncated to fit prompt cap]'' @ newline"

definition reflection_fallback :: string where
  "reflection_fallback = ''Reflect on this session. No new turns are available since the last checkpoint; ''
     @ ''review existing memory instead.''"

definition build_reflection_prompt :: "(json \<Rightarrow> string) \<Rightarrow> chat_message list \<Rightarrow> string" where
  "build_reflection_prompt show rows =
     (let transcript = concat (map (render_chat_message show) rows) in
      if trim transcript = [] then reflection_fallback
      else prompt_within_cap reflection_header reflection_notice transcript)"

lemma length_reflection_prompt: "length (build_reflection_prompt show rows) \<le> PROMPT_MAX_BYTES"
  using length_prompt_within_cap [of reflection_header reflection_notice "concat (map (render_chat_message show) rows)"]
  by (simp add: build_reflection_prompt_def Let_def reflection_header_def reflection_notice_def reflection_fallback_def
      newline_def PROMPT_MAX_BYTES_def)

section \<open>The tick\<close>

definition reflection_key :: "reflection_env \<Rightarrow> reflection_candidate \<Rightarrow> idempotency_key" where
  "reflection_key env c =
     ''reflect-'' @ ne_uuid env (rl_agent c) @ ''-'' @ ne_uuid env (rl_thread c) @ ''-'' @ ne_uuid env (rl_last_message c)"

definition enqueue_reflection :: "reflection_env \<Rightarrow> timestamp \<Rightarrow> reflection_candidate \<Rightarrow> reflection_world \<Rightarrow> reflection_world" where
  "enqueue_reflection env now c w =
     (case resolve_agent (ne_dir env) (rl_org c) (rl_agent c) of
        Inl e \<Rightarrow> w
      | Inr agent_colleague \<Rightarrow>
          (let prompt = build_reflection_prompt (ne_show_json env)
                 (fetch_slice env (rw_threads w) (rl_thread c) (rl_agent c) (rl_previous c) (rl_last_message c));
               (turn, rid) = ne_mint env now c;
               (_, bg, q) = queue_background_turn now turn rid (ne_traceparent env) \<lparr>ca_user = rl_user c, ca_org = rl_org c\<rparr>
                 (rl_agent c) agent_colleague prompt (reflection_key env c)
                 (PReflection (rl_thread c) (rl_last_message c)) (rw_background w, rw_queue w) in
           w\<lparr>rw_background := bg, rw_queue := q\<rparr>))"

definition reflection_tick :: "reflection_env \<Rightarrow> nat \<Rightarrow> timestamp \<Rightarrow> reflection_world \<Rightarrow> reflection_world" where
  "reflection_tick env batch now w =
     fold (enqueue_reflection env now) (find_candidates batch w (now - REFLECTION_IDLE_TIMEOUT)) w"

end
