(* ===== verification/Reflection_Properties.thy ===== *)
theory Reflection_Properties
  imports Reflection Thread_Properties
begin

text \<open>
  The rows of a slice. The checkpoint of a pair keeps the time of
  its first reflection, so a pair reflected twice stays due for ever: its ticks queue nothing, but
  keep its place in the batch.
\<close>

section \<open>Slices\<close>

lemma strict_sort_key:
  fixes f :: "'a \<Rightarrow> 'b :: linorder"
  assumes "sorted_wrt (<) (map f xs)"
  shows "sort_key f xs = xs"
proof (rule sort_key_id_if_sorted)
  show "sorted (map f xs)" using assms by (rule strict_sorted_imp_sorted)
qed

lemma posted_sorted:
  assumes "thread_inv td"
  shows "sorted_wrt (<) (map ms_seq (posted_in td thread))"
proof -
  have "sorted_wrt (<) (map ms_seq (filter (\<lambda>m. ms_thread m = thread) (td_messages td)))"
    using assms by (simp add: thread_inv_def feed_seqs_def)
  then have "sorted_wrt (\<lambda>m n. ms_seq m < ms_seq n) (filter (\<lambda>m. ms_kind m = Posted) (filter (\<lambda>m. ms_thread m = thread) (td_messages td)))"
    unfolding sorted_wrt_map by (rule sorted_wrt_filter)
  then show ?thesis by (simp add: posted_in_def sorted_wrt_map conj_commute)
qed

lemma slice_rows_filter:
  assumes "thread_inv td"
  shows "slice_rows td thread previous up_to
    = filter (\<lambda>m. message_seq td previous < int (ms_seq m) \<and> int (ms_seq m) \<le> message_seq td (Some up_to)) (posted_in td thread)"
  unfolding slice_rows_def
  by (rule strict_sort_key) (use posted_sorted [OF assms] in \<open>simp add: sorted_wrt_map sorted_wrt_filter\<close>)

section \<open>The checkpoint of a finished reflection\<close>

lemma candidate_of_Some:
  "candidate_of w cutoff ats = Some c \<Longrightarrow> rl_agent c = ats_agent ats \<and> rl_thread c = ats_thread ats
    \<and> rl_latest_at c \<le> cutoff \<and> rl_previous c = td_checkpoints (rw_threads w) (rl_agent c, rl_thread c)
    \<and> rl_latest_at c = latest_at (rw_threads w) (rl_thread c)"
  by (auto simp: candidate_of_def Let_def split: if_splits option.splits)

lemma checkpoint_frame [simp]:
  "td_messages (store_reflection_checkpoint td a t m) = td_messages td" "td_threads (store_reflection_checkpoint td a t m) = td_threads td"
  "td_users (store_reflection_checkpoint td a t m) = td_users td"
  "td_participation (store_reflection_checkpoint td a t m) = td_participation td"
  "posted_in (store_reflection_checkpoint td a t m) th = posted_in td th"
  "latest_seq (store_reflection_checkpoint td a t m) th = latest_seq td th"
  "latest_at (store_reflection_checkpoint td a t m) th = latest_at td th"
  "td_checkpoints (store_reflection_checkpoint td a t m) = (td_checkpoints td)((a, t) \<mapsto> m)"
  by (simp_all add: store_reflection_checkpoint_def posted_in_def latest_seq_def latest_at_def)

lemma candidate_after_checkpoint:
  assumes "candidate_of w cutoff ats = Some c" "rw_checkpoint_at w (rl_agent c, rl_thread c) \<noteq> None"
  shows "candidate_of (upsert_checkpoint w now (rl_agent c) (rl_thread c) m) cutoff ats = Some (c\<lparr>rl_previous := Some m\<rparr>)"
  using assms candidate_of_Some [OF assms(1)]
  by (auto simp: candidate_of_def Let_def upsert_checkpoint_def split: if_splits option.splits)

lemma due_pairs_mem: "c \<in> set (due_pairs w cutoff) \<longleftrightarrow> (\<exists>ats \<in> set (td_participation (rw_threads w)). candidate_of w cutoff ats = Some c)"
  by (force simp: due_pairs_def List.map_filter_def image_iff)

text \<open>
  C36. A code defect. Only the first reflection of a pair settles it: the upsert of the checkpoint
  leaves \<open>created_at\<close> as the first reflection wrote it, and the scheduler compares that time with the
  latest message. A pair that had a checkpoint before its reflection is due again right after it,
  with nothing left to read.
\<close>

theorem only_the_first_reflection_settles_a_pair:
  assumes due: "c \<in> set (due_pairs w cutoff)" and after: "rl_latest_at c \<le> now"
  shows "if rw_checkpoint_at w (rl_agent c, rl_thread c) = None
    then \<forall>d \<in> set (due_pairs (upsert_checkpoint w now (rl_agent c) (rl_thread c) (rl_last_message c)) cutoff').
           (rl_agent d, rl_thread d) \<noteq> (rl_agent c, rl_thread c)
    else c\<lparr>rl_previous := Some (rl_last_message c)\<rparr>
           \<in> set (due_pairs (upsert_checkpoint w now (rl_agent c) (rl_thread c) (rl_last_message c)) cutoff)
         \<and> slice_rows (rw_threads w) (rl_thread c) (Some (rl_last_message c)) (rl_last_message c) = []"
proof -
  let ?w = "upsert_checkpoint w now (rl_agent c) (rl_thread c) (rl_last_message c)"
  obtain ats where ats: "ats \<in> set (td_participation (rw_threads w))" "candidate_of w cutoff ats = Some c"
    using due by (auto simp: due_pairs_mem)
  show ?thesis
  proof (cases "rw_checkpoint_at w (rl_agent c, rl_thread c)")
    case None
    then have stored: "rw_checkpoint_at ?w (rl_agent c, rl_thread c) = Some now" by (simp add: upsert_checkpoint_def)
    have latest: "latest_at (rw_threads ?w) (rl_thread c) \<le> now"
      using candidate_of_Some [OF ats(2)] after by (simp add: upsert_checkpoint_def)
    have "candidate_of ?w cutoff' a = None" if "ats_agent a = rl_agent c" "ats_thread a = rl_thread c" for a
      using stored latest that by (auto simp: candidate_of_def Let_def split: option.splits)
    then have "(rl_agent d, rl_thread d) \<noteq> (rl_agent c, rl_thread c)" if "d \<in> set (due_pairs ?w cutoff')" for d
      using that candidate_of_Some unfolding due_pairs_mem by (metis Pair_inject option.distinct(1))
    with None show ?thesis by simp
  next
    case (Some since)
    then have "candidate_of ?w cutoff ats = Some (c\<lparr>rl_previous := Some (rl_last_message c)\<rparr>)"
      by (intro candidate_after_checkpoint [OF ats(2)]) simp
    moreover have "td_participation (rw_threads ?w) = td_participation (rw_threads w)" by (simp add: upsert_checkpoint_def)
    ultimately have "c\<lparr>rl_previous := Some (rl_last_message c)\<rparr> \<in> set (due_pairs ?w cutoff)"
      using ats(1) by (auto simp: due_pairs_mem)
    moreover have "slice_rows (rw_threads w) (rl_thread c) (Some (rl_last_message c)) (rl_last_message c) = []"
      by (auto simp: slice_rows_def filter_empty_conv)
    ultimately show ?thesis using Some by simp
  qed
qed

section \<open>A batch of settled pairs\<close>

text \<open>The trigger of a settled pair's last message is in the queue already, and no longer at work.\<close>

definition already_queued :: "reflection_env \<Rightarrow> queue_db \<Rightarrow> reflection_candidate \<Rightarrow> bool" where
  "already_queued env q c \<longleftrightarrow> find (same_idempotency (rl_org c) (reflection_key env c)) (prompt_requests q) \<noteq> None"

lemma settled_cong: "prompt_requests q = prompt_requests q' \<Longrightarrow> already_queued env q c = already_queued env q' c"
  by (simp add: already_queued_def)

lemma enqueue_trigger_again:
  "find (same_idempotency (nt_org trig) (nt_idempotency_key trig)) (prompt_requests q) \<noteq> None
   \<Longrightarrow> prompt_requests (snd (enqueue_trigger q now rid tp trig)) = prompt_requests q"
  by (auto simp: enqueue_trigger_def Let_def split: sum.splits option.splits)

lemma enqueue_reflection_settled:
  assumes "already_queued env (rw_queue w) c"
  shows "prompt_requests (rw_queue (enqueue_reflection env now c w)) = prompt_requests (rw_queue w)"
    and "rw_threads (enqueue_reflection env now c w) = rw_threads w"
    and "rw_checkpoint_at (enqueue_reflection env now c w) = rw_checkpoint_at w"
proof -
  have again: "prompt_requests (snd (snd (queue_background_turn now turn rid tp \<lparr>ca_user = rl_user c, ca_org = rl_org c\<rparr> agent k prompt
      (reflection_key env c) p (bg, rw_queue w)))) = prompt_requests (rw_queue w)" for turn rid tp agent k prompt p bg
    using assms
    by (auto simp: queue_background_turn_def Let_def already_queued_def split: prod.splits sum.splits
        dest!: arg_cong [of "enqueue_trigger _ _ _ _ _" _ "\<lambda>x. prompt_requests (snd x)"])
      (simp_all add: enqueue_trigger_again)
  show "prompt_requests (rw_queue (enqueue_reflection env now c w)) = prompt_requests (rw_queue w)"
    using again by (auto simp: enqueue_reflection_def Let_def split: sum.splits prod.splits) (metis snd_conv)
qed (auto simp: enqueue_reflection_def Let_def split: sum.splits prod.splits)

lemma due_pairs_queue: "prompt_requests q = prompt_requests (rw_queue w) \<Longrightarrow> rw_threads v = rw_threads w
    \<Longrightarrow> rw_checkpoint_at v = rw_checkpoint_at w \<Longrightarrow> rw_queue v = q \<Longrightarrow> due_pairs v cutoff = due_pairs w cutoff"
  unfolding due_pairs_def
  by (rule arg_cong [where f = "sort_key rl_latest_at"], rule arg_cong2 [where f = List.map_filter])
    (auto simp: candidate_of_def under_reflection_def Let_def fun_eq_iff split: option.splits)

definition same_queue :: "reflection_world \<Rightarrow> reflection_world \<Rightarrow> bool" where
  "same_queue v w \<longleftrightarrow> prompt_requests (rw_queue v) = prompt_requests (rw_queue w) \<and> rw_threads v = rw_threads w
     \<and> rw_checkpoint_at v = rw_checkpoint_at w"

lemma enqueue_all_settled:
  "\<forall>c \<in> set cs. already_queued env (rw_queue w) c \<Longrightarrow> same_queue (fold (enqueue_reflection env now) cs w) w"
proof (induction cs arbitrary: w)
  case (Cons c cs)
  then have one: "same_queue (enqueue_reflection env now c w) w" using enqueue_reflection_settled by (simp add: same_queue_def)
  have "\<forall>d \<in> set cs. already_queued env (rw_queue (enqueue_reflection env now c w)) d"
  proof
    fix d assume d: "d \<in> set cs"
    have "already_queued env (rw_queue (enqueue_reflection env now c w)) d = already_queued env (rw_queue w) d"
      by (rule settled_cong) (use one in \<open>simp add: same_queue_def\<close>)
    with Cons.prems d show "already_queued env (rw_queue (enqueue_reflection env now c w)) d" by simp
  qed
  from Cons.IH [OF this] one show ?case by (simp add: same_queue_def)
qed (simp add: same_queue_def)

lemma take_prefix_below:
  "sorted (map f xs) \<Longrightarrow> n \<le> length (filter (\<lambda>x. f x \<le> c) xs) \<Longrightarrow> take n (filter (\<lambda>x. f x \<le> c) xs) = take n xs"
proof (induction xs arbitrary: n)
  case (Cons x xs)
  show ?case
  proof (cases "f x \<le> c")
    case True
    with Cons show ?thesis by (cases n) auto
  next
    case False
    then have "filter (\<lambda>x. f x \<le> c) (x # xs) = []" using Cons.prems(1) by (auto simp: filter_empty_conv)
    with Cons.prems(2) show ?thesis by simp
  qed
qed simp

lemma due_pairs_earlier:
  assumes "cutoff \<le> cutoff'"
  shows "due_pairs w cutoff = filter (\<lambda>c. rl_latest_at c \<le> cutoff) (due_pairs w cutoff')"
proof -
  have step: "candidate_of w cutoff ats
      = (case candidate_of w cutoff' ats of None \<Rightarrow> None | Some c \<Rightarrow> if rl_latest_at c \<le> cutoff then Some c else None)" for ats
    using assms by (auto simp: candidate_of_def Let_def split: option.splits)
  have "List.map_filter (candidate_of w cutoff) xs = filter (\<lambda>c. rl_latest_at c \<le> cutoff) (List.map_filter (candidate_of w cutoff') xs)" for xs
    by (induction xs) (auto simp: step map_filter_simps split: option.splits)
  then show ?thesis by (simp add: due_pairs_def filter_sort)
qed

text \<open>
  What goes on meanwhile leaves the oldest due pairs and their triggers alone: a post in any other
  thread does, as does a queue that only works on other requests.
\<close>

definition undisturbed :: "reflection_env \<Rightarrow> nat \<Rightarrow> timestamp \<Rightarrow> reflection_world \<Rightarrow> reflection_world \<Rightarrow> bool" where
  "undisturbed env batch cutoff w w' \<longleftrightarrow> find_candidates batch w' cutoff = find_candidates batch w cutoff
     \<and> (\<forall>c \<in> set (find_candidates batch w cutoff). already_queued env (rw_queue w) c \<longrightarrow> already_queued env (rw_queue w') c)"

inductive starving :: "reflection_env \<Rightarrow> nat \<Rightarrow> timestamp \<Rightarrow> reflection_world \<Rightarrow> reflection_world \<Rightarrow> bool"
  for env batch cutoff w where
  starve_start: "starving env batch cutoff w w"
| starve_tick: "starving env batch cutoff w v \<Longrightarrow> cutoff \<le> now - REFLECTION_IDLE_TIMEOUT
     \<Longrightarrow> starving env batch cutoff w (reflection_tick env batch now v)"
| starve_other: "starving env batch cutoff w v \<Longrightarrow> undisturbed env batch cutoff v v' \<Longrightarrow> starving env batch cutoff w v'"

lemma find_candidates_later:
  assumes full: "length (find_candidates batch w cutoff) = batch" and le: "cutoff \<le> cutoff'"
  shows "find_candidates batch w cutoff' = find_candidates batch w cutoff"
proof -
  have "sorted (map rl_latest_at (due_pairs w cutoff'))" by (simp add: due_pairs_def)
  moreover have "batch \<le> length (due_pairs w cutoff)" using full by (simp add: find_candidates_def)
  ultimately show ?thesis
    using take_prefix_below [of rl_latest_at "due_pairs w cutoff'" batch cutoff]
    by (simp add: find_candidates_def due_pairs_earlier [OF le])
qed

lemma tick_same_queue:
  assumes "length (find_candidates batch w cutoff) = batch" "cutoff \<le> now - REFLECTION_IDLE_TIMEOUT"
    and "\<forall>c \<in> set (find_candidates batch w cutoff). already_queued env (rw_queue w) c"
  shows "same_queue (reflection_tick env batch now w) w"
  unfolding reflection_tick_def find_candidates_later [OF assms(1,2)] using assms(3) by (rule enqueue_all_settled)

lemma same_queue_due: "same_queue v w \<Longrightarrow> due_pairs v cutoff = due_pairs w cutoff"
  using due_pairs_queue [of "rw_queue v" w v] by (simp add: same_queue_def)

lemma same_queue_undisturbed:
  assumes "same_queue v w"
  shows "undisturbed env batch cutoff w v"
proof -
  have "already_queued env (rw_queue v) c = already_queued env (rw_queue w) c" for c
    by (rule settled_cong) (use assms in \<open>simp add: same_queue_def\<close>)
  then show ?thesis by (simp add: undisturbed_def find_candidates_def same_queue_due [OF assms])
qed

lemma starving_batch:
  assumes "starving env batch cutoff w v" "length (find_candidates batch w cutoff) = batch"
    and "\<forall>c \<in> set (find_candidates batch w cutoff). already_queued env (rw_queue w) c"
  shows "find_candidates batch v cutoff = find_candidates batch w cutoff
    \<and> (\<forall>c \<in> set (find_candidates batch w cutoff). already_queued env (rw_queue v) c)"
  using assms
proof (induction rule: starving.induct)
  case (starve_tick v now)
  note v = starve_tick.IH [OF starve_tick.prems]
  have "undisturbed env batch cutoff v (reflection_tick env batch now v)"
    by (rule same_queue_undisturbed, rule tick_same_queue [OF _ starve_tick.hyps(2)])
      (use v starve_tick.prems in \<open>metis+\<close>)
  with v show ?case unfolding undisturbed_def by metis
next
  case (starve_other v v')
  from starve_other.IH [OF starve_other.prems] starve_other.hyps(2) show ?case unfolding undisturbed_def by metis
qed simp

text \<open>A post in another thread only makes that thread younger.\<close>

lemma take_filter_kept:
  "\<forall>x \<in> set (take n xs). p x \<Longrightarrow> take n (filter p xs) = take n xs"
proof (induction xs arbitrary: n)
  case (Cons x xs)
  then show ?case by (cases n) auto
qed simp

lemma candidate_of_cong:
  assumes "posted_in (rw_threads w') (ats_thread ats) = posted_in (rw_threads w) (ats_thread ats)"
    and "posted_in (rw_threads w) (ats_thread ats) \<noteq> [] \<Longrightarrow>
      find (\<lambda>m. ms_thread m = ats_thread ats \<and> ms_seq m = latest_seq (rw_threads w) (ats_thread ats)) (td_messages (rw_threads w'))
      = find (\<lambda>m. ms_thread m = ats_thread ats \<and> ms_seq m = latest_seq (rw_threads w) (ats_thread ats)) (td_messages (rw_threads w))"
    and "map_option (\<lambda>t. (th_org t, th_created_by t)) (find (\<lambda>t. th_id t = ats_thread ats) (td_threads (rw_threads w')))
      = map_option (\<lambda>t. (th_org t, th_created_by t)) (find (\<lambda>t. th_id t = ats_thread ats) (td_threads (rw_threads w)))"
    and "td_users (rw_threads w') = td_users (rw_threads w)" "td_checkpoints (rw_threads w') = td_checkpoints (rw_threads w)"
    and "rw_checkpoint_at w' = rw_checkpoint_at w" "rw_queue w' = rw_queue w"
  shows "candidate_of w' cutoff ats = candidate_of w cutoff ats"
proof (cases "posted_in (rw_threads w) (ats_thread ats) = []")
  case True
  then show ?thesis using assms(1) by (simp add: candidate_of_def)
next
  case False
  have "latest_seq (rw_threads w') (ats_thread ats) = latest_seq (rw_threads w) (ats_thread ats)"
    "latest_at (rw_threads w') (ats_thread ats) = latest_at (rw_threads w) (ats_thread ats)"
    using assms(1) by (simp_all add: latest_seq_def latest_at_def)
  then show ?thesis
    using assms(1) assms(2) [OF False] assms(3-)
    by (auto simp: candidate_of_def Let_def split: option.splits)
qed

lemma find_latest_append:
  assumes "posted_in td thread \<noteq> []"
  shows "find (\<lambda>m. ms_thread m = thread \<and> ms_seq m = latest_seq td thread) (td_messages td @ rows)
    = find (\<lambda>m. ms_thread m = thread \<and> ms_seq m = latest_seq td thread) (td_messages td)"
proof -
  have "latest_seq td thread \<in> set (map ms_seq (posted_in td thread))"
    unfolding latest_seq_def using assms by (intro Max_in) auto
  then have "find (\<lambda>m. ms_thread m = thread \<and> ms_seq m = latest_seq td thread) (td_messages td) \<noteq> None"
    by (auto simp: posted_in_def find_None_iff)
  then show ?thesis by (auto simp: find_append)
qed

lemma candidate_of_post:
  assumes now: "cutoff < now" and post: "w' = w\<lparr>rw_threads := snd (append_message (rw_threads w) now i ca th m)\<rparr>"
  shows "(\<forall>ats. candidate_of w' cutoff ats = candidate_of w cutoff ats)
    \<or> (\<forall>ats. candidate_of w' cutoff ats = (if ats_thread ats = th then None else candidate_of w cutoff ats))"
proof -
  obtain x td where s: "append_statement (rw_threads w) now i (ca_user ca) th m = (x, td)" by (meson surj_pair)
  then have w': "w' = w\<lparr>rw_threads := td\<rparr>" by (simp add: post append_message_db)
  from s show ?thesis
  proof (cases rule: append_statement_cases)
    case (taken t)
    then have "candidate_of w' cutoff ats = candidate_of w cutoff ats" for ats
      by (intro candidate_of_cong) (simp_all add: w' posted_in_def)
    then show ?thesis by blast
  next
    case (inserted t)
    let ?r = "message_row_of i th (th_org t) (last_seq (rw_threads w) th + 1) now m"
    have same: "candidate_of w' cutoff ats = candidate_of w cutoff ats" if "ats_thread ats \<noteq> th \<or> nm_kind m \<noteq> Posted" for ats
    proof (rule candidate_of_cong)
      show "posted_in (rw_threads w') (ats_thread ats) = posted_in (rw_threads w) (ats_thread ats)"
        using that by (auto simp: w' inserted(5) posted_in_def message_row_of_def)
    qed (auto simp: w' inserted(5) find_latest_append find_update_where option.map_comp o_def intro!: option.map_cong)
    show ?thesis
    proof (cases "nm_kind m = Posted")
      case True
      have "candidate_of w' cutoff ats = None" if at: "ats_thread ats = th" for ats
      proof -
        have "?r \<in> set (posted_in td th)" using True by (simp add: inserted(5) posted_in_def message_row_of_def)
        then have "ms_created_at ?r \<le> latest_at td th" unfolding latest_at_def by (intro Max_ge) auto
        then have "\<not> latest_at td th \<le> cutoff" using now by (simp add: message_row_of_def)
        then show ?thesis by (simp add: candidate_of_def Let_def at w' split: option.split)
      qed
      with same show ?thesis by auto
    qed (use same in blast)
  qed (simp add: w')
qed

lemma post_elsewhere_undisturbed:
  assumes "cutoff < now" "\<forall>c \<in> set (find_candidates batch w cutoff). rl_thread c \<noteq> th"
  shows "undisturbed env batch cutoff w (w\<lparr>rw_threads := snd (append_message (rw_threads w) now i ca th m)\<rparr>)"
    (is "undisturbed _ _ _ _ ?w'")
proof -
  have part: "td_participation (snd (append_message (rw_threads w) now i ca th m)) = td_participation (rw_threads w)"
  proof -
    obtain x td where s: "append_statement (rw_threads w) now i (ca_user ca) th m = (x, td)" by (meson surj_pair)
    then show ?thesis by (cases rule: append_statement_cases) (simp_all add: append_message_db s)
  qed
  from candidate_of_post [OF assms(1) refl, of w i ca th m]
  have "find_candidates batch ?w' cutoff = find_candidates batch w cutoff"
  proof
    assume "\<forall>ats. candidate_of ?w' cutoff ats = candidate_of w cutoff ats"
    then have "candidate_of ?w' cutoff = candidate_of w cutoff" by blast
    then show ?thesis by (simp add: find_candidates_def due_pairs_def part)
  next
    assume all: "\<forall>ats. candidate_of ?w' cutoff ats = (if ats_thread ats = th then None else candidate_of w cutoff ats)"
    have step: "candidate_of ?w' cutoff ats
        = (case candidate_of w cutoff ats of None \<Rightarrow> None | Some c \<Rightarrow> if rl_thread c \<noteq> th then Some c else None)" for ats
      using all candidate_of_Some [of w cutoff ats] by (auto split: option.split)
    have "List.map_filter (candidate_of ?w' cutoff) xs = filter (\<lambda>c. rl_thread c \<noteq> th) (List.map_filter (candidate_of w cutoff) xs)" for xs
      by (induction xs) (auto simp: step map_filter_simps split: option.splits)
    then have "due_pairs ?w' cutoff = filter (\<lambda>c. rl_thread c \<noteq> th) (due_pairs w cutoff)"
      by (simp add: due_pairs_def filter_sort part)
    then show ?thesis using take_filter_kept [of batch "due_pairs w cutoff" "\<lambda>c. rl_thread c \<noteq> th"] assms(2)
      by (simp add: find_candidates_def)
  qed
  then show ?thesis by (simp add: undisturbed_def)
qed

text \<open>
  C37. A code defect, following from the one above. When the oldest due pairs fill a batch and each
  has its trigger in the queue already, no tick queues anything and every due pair stays due, however
  many there are and however long they have been idle. So it is at any later time, through any number
  of ticks and whatever else happens in between, as long as the oldest due pairs stay the oldest and
  their triggers stay in the queue; posts in other threads change nothing about that.
\<close>

theorem settled_pairs_starve_reflection:
  assumes full: "length (find_candidates batch w cutoff) = batch"
    and old: "\<forall>c \<in> set (find_candidates batch w cutoff). already_queued env (rw_queue w) c"
    and run: "starving env batch cutoff w v" and later: "cutoff \<le> now - REFLECTION_IDLE_TIMEOUT"
  shows "prompt_requests (rw_queue (reflection_tick env batch now v)) = prompt_requests (rw_queue v)
    \<and> due_pairs (reflection_tick env batch now v) cutoff' = due_pairs v cutoff'
    \<and> starving env batch cutoff w (reflection_tick env batch now v)"
proof -
  note v = starving_batch [OF run full old]
  have same: "same_queue (reflection_tick env batch now v) v"
    by (rule tick_same_queue [OF _ later]) (use v full in \<open>metis+\<close>)
  then have "prompt_requests (rw_queue (reflection_tick env batch now v)) = prompt_requests (rw_queue v)"
    unfolding same_queue_def by blast
  then show ?thesis by (intro conjI same_queue_due [OF same] starve_tick [OF run later])
qed

section \<open>Samples\<close>

text \<open>One thread with two posted messages; agent 6 has taken part and reflected on it at 150.\<close>

definition sample_reflection_env :: reflection_env where
  "sample_reflection_env = \<lparr>ne_dir = \<lparr>dr_rows = [], dr_agents = Map.empty, dr_users = Map.empty\<rparr>, ne_show_json = (\<lambda>_. []), ne_uuid = show_nat,
     ne_mint = (\<lambda>_ _. (500, 501)), ne_traceparent = None\<rparr>"

definition sample_reflection_world :: reflection_world where
  "sample_reflection_world = \<lparr>rw_threads = sample_cut_off_db\<lparr>td_participation :=
       [\<lparr>ats_id = 40, ats_thread = 7, ats_agent = 6, ats_org = 1, ats_created_at = 100\<rparr>],
       td_checkpoints := [(6, 7) \<mapsto> 21]\<rparr>,
     rw_checkpoint_at = [(6, 7) \<mapsto> 150],
     rw_background = \<lparr>bg_turns = [], bg_messages = [], bg_members = []\<rparr>,
     rw_queue = \<lparr>prompt_requests = [], claim_leases = Map.empty, claim_seq = Map.empty, dags = Map.empty, colleagues = [],
       state_org = Map.empty, background_org = Map.empty, org_members = []\<rparr>\<rparr>"

definition sample_candidate :: reflection_candidate where
  "sample_candidate = \<lparr>rl_agent = 6, rl_thread = 7, rl_last_message = 23, rl_latest_at = 200, rl_previous = Some 21,
     rl_org = 1, rl_user = 10\<rparr>"

lemma sample_due: "due_pairs sample_reflection_world 300 = [sample_candidate]"
  by code_simp

theorem only_the_first_reflection_settles_a_pair_witness:
  "sample_candidate\<lparr>rl_previous := Some 23\<rparr> \<in> set (due_pairs (upsert_checkpoint sample_reflection_world 400 6 7 23) 300)"
proof -
  have "sample_candidate \<in> set (due_pairs sample_reflection_world 300)" by (simp add: sample_due)
  from only_the_first_reflection_settles_a_pair [OF this, of 400] show ?thesis
    by (simp add: sample_candidate_def sample_reflection_world_def)
qed

text \<open>The trigger of that reflection, done long ago.\<close>

definition sample_settled_world :: reflection_world where
  "sample_settled_world = sample_reflection_world\<lparr>rw_queue := (rw_queue sample_reflection_world)\<lparr>prompt_requests :=
     [(trigger_row 210 60 None 6 \<lparr>nt_org = 1, nt_acting_user = 10, nt_thread = None, nt_state_id = None,
         nt_background_turn_id = Some 61, nt_sender = 6, nt_receiver_agent = 6, nt_root = None, nt_trigger_message = None,
         nt_idempotency_key = ''reflect-6-7-23'', nt_payload = PReflection 7 23\<rparr>)\<lparr>pr_status := Done\<rparr>]\<rparr>\<rparr>"

text \<open>Agent 6 has taken part in a second thread too, where the last message is younger.\<close>

definition sample_starve_env :: reflection_env where
  "sample_starve_env = sample_reflection_env\<lparr>ne_dir :=
     \<lparr>dr_rows = [\<lparr>dy_id = 16, dy_org = 1, dy_kind = CkAgent, dy_user = None, dy_agent = Some 6\<rparr>], dr_agents = Map.empty, dr_users = Map.empty\<rparr>\<rparr>"

definition sample_starve_world :: reflection_world where
  "sample_starve_world = sample_settled_world\<lparr>
     rw_threads := (rw_threads sample_settled_world)\<lparr>
       td_threads := td_threads (rw_threads sample_settled_world) @ [\<lparr>th_id = 8, th_org = 1, th_channel = None, th_root_message = None,
         th_created_by = 5, th_dm_counterpart = Some 6, th_created_at = 240, th_last_activity_at = 250\<rparr>],
       td_messages := td_messages (rw_threads sample_settled_world) @ [message_row_of 31 8 1 1 250 (posted 5 ''new'' None)],
       td_participation := td_participation (rw_threads sample_settled_world)
         @ [\<lparr>ats_id = 41, ats_thread = 8, ats_agent = 6, ats_org = 1, ats_created_at = 240\<rparr>]\<rparr>,
     rw_background := \<lparr>bg_turns = [], bg_messages = [], bg_members = [(10, 1)]\<rparr>,
     rw_queue := (rw_queue sample_settled_world)\<lparr>colleagues := [\<lparr>co_id = 16, co_org = 1, co_agent = Some 6\<rparr>], org_members := [(10, 1)]\<rparr>\<rparr>"

definition starved_candidate :: reflection_candidate where
  "starved_candidate = \<lparr>rl_agent = 6, rl_thread = 8, rl_last_message = 31, rl_latest_at = 250, rl_previous = None, rl_org = 1, rl_user = 10\<rparr>"

lemma starve_due: "due_pairs sample_starve_world 300 = [sample_candidate, starved_candidate]" by code_simp

lemma sample_digits: "show_nat 6 = ''6''" "show_nat 8 = ''8''" "show_nat 31 = ''31''" by code_simp+

text \<open>Queued by itself, the second pair's reflection would go through.\<close>

lemma starved_would_run:
  "length (prompt_requests (rw_queue (enqueue_reflection sample_starve_env 2000000000 starved_candidate sample_starve_world))) = 2"
  by (simp add: enqueue_reflection_def sample_starve_env_def sample_reflection_env_def resolve_agent_def starved_candidate_def
      sample_starve_world_def sample_settled_world_def sample_reflection_world_def queue_background_turn_def create_turn_def
      bg_is_member_def append_background_message_def bg_rows_def enqueue_trigger_def resolve_agent_colleague_def
      app_user_is_member_def prompt_requests_admit_def claim_parent_org_def trigger_row_def same_idempotency_def
      reflection_key_def seed_dag_def sample_digits Let_def)

theorem settled_pairs_starve_reflection_witness:
  "starved_candidate \<in> set (due_pairs sample_starve_world 300)
   \<and> length (prompt_requests (rw_queue (enqueue_reflection sample_starve_env 2000000000 starved_candidate sample_starve_world))) = 2
   \<and> length (prompt_requests (rw_queue (reflection_tick sample_starve_env 1 4000000000
       (reflection_tick sample_starve_env 1 2000000000 sample_starve_world)))) = 1"
proof -
  have cands: "find_candidates 1 sample_starve_world 300 = [sample_candidate]"
    by (simp add: find_candidates_def starve_due)
  have queued: "already_queued sample_starve_env (rw_queue sample_starve_world) sample_candidate" by code_simp
  let ?one = "reflection_tick sample_starve_env 1 2000000000 sample_starve_world"
  have full: "length (find_candidates 1 sample_starve_world 300) = 1"
    and old: "\<forall>c \<in> set (find_candidates 1 sample_starve_world 300). already_queued sample_starve_env (rw_queue sample_starve_world) c"
    unfolding cands using queued by simp_all
  have late: "300 \<le> 2000000000 - REFLECTION_IDLE_TIMEOUT" "300 \<le> 4000000000 - REFLECTION_IDLE_TIMEOUT"
    by (simp_all add: REFLECTION_IDLE_TIMEOUT_def)
  note first = settled_pairs_starve_reflection [OF full old starve_start late(1)]
  note second = settled_pairs_starve_reflection [OF full old conjunct2 [OF conjunct2 [OF first]] late(2)]
  have "length (prompt_requests (rw_queue sample_starve_world)) = 1"
    by (simp add: sample_starve_world_def sample_settled_world_def)
  then show ?thesis using first second starved_would_run by (simp add: starve_due)
qed

end
