(* ===== verification/Reflection_Runs.thy ===== *)
theory Reflection_Runs
  imports Reflection_Properties
begin

text \<open>
  The reflections of one agent on one thread, while the feed grows: what they have read so far, and
  what the next one is given, is the posted feed.
\<close>

section \<open>Windows of a feed\<close>

lemma filter_window:
  fixes f :: "'a \<Rightarrow> int"
  assumes "sorted_wrt (<) (map f xs)" "a \<le> b" "b \<le> c"
  shows "filter (\<lambda>x. a < f x \<and> f x \<le> b) xs @ filter (\<lambda>x. b < f x \<and> f x \<le> c) xs = filter (\<lambda>x. a < f x \<and> f x \<le> c) xs"
  using assms(1)
proof (induction xs)
  case (Cons x xs)
  then have IH: "filter (\<lambda>x. a < f x \<and> f x \<le> b) xs @ filter (\<lambda>x. b < f x \<and> f x \<le> c) xs = filter (\<lambda>x. a < f x \<and> f x \<le> c) xs"
    and above: "\<forall>y \<in> set xs. f x < f y" by simp_all
  show ?case
  proof (cases "b < f x")
    case True
    then have "filter (\<lambda>x. a < f x \<and> f x \<le> b) (x # xs) = []" using above by (auto simp: filter_empty_conv)
    moreover have "filter (\<lambda>x. b < f x \<and> f x \<le> c) (x # xs) = filter (\<lambda>x. a < f x \<and> f x \<le> c) (x # xs)"
      using True above assms(2) by (intro filter_cong) auto
    ultimately show ?thesis by simp
  qed (use IH assms(3) in auto)
qed simp

definition reflected :: "reflection_env \<Rightarrow> uuid \<Rightarrow> message_row list \<Rightarrow> chat_message list" where
  "reflected env agent rows = map (\<lambda>m. map_for_viewer (ne_show_json env) (ms_body m) (sender_agent (ne_dir env) m = Some agent)) rows"

text \<open>The posted rows of a thread up to a cursor.\<close>

definition read_upto :: "thread_db \<Rightarrow> uuid \<Rightarrow> uuid option \<Rightarrow> message_row list" where
  "read_upto td thread cursor = filter (\<lambda>m. int (ms_seq m) \<le> message_seq td cursor) (posted_in td thread)"

definition cursor_ok :: "thread_db \<Rightarrow> uuid \<Rightarrow> uuid option \<Rightarrow> bool" where
  "cursor_ok td thread cursor \<longleftrightarrow> (case cursor of None \<Rightarrow> True | Some i \<Rightarrow> \<exists>m \<in> set (posted_in td thread). ms_id m = i)"

definition ids_distinct :: "thread_db \<Rightarrow> bool" where
  "ids_distinct td \<longleftrightarrow> distinct (map ms_id (td_messages td))"

lemma ids_distinct_step:
  assumes "ids_distinct td" "thread_step td e td'"
  shows "ids_distinct td'"
  using assms(2,1)
proof (induction rule: thread_step.induct)
  case (create db now i ca ch root "by" dm x db')
  then show ?case by (auto simp: create_thread_def ids_distinct_def split: if_splits)
next
  case (append db now i ca th m)
  obtain x db' where s: "append_statement db now i (ca_user ca) th m = (x, db')" by (meson surj_pair)
  have new: "i \<notin> ms_id ` set (td_messages db)" if "x = Inr True"
    using s that by (auto simp: append_statement_def Let_def split: option.splits if_splits)
  from s show ?case
    by (cases rule: append_statement_cases)
      (use append new in \<open>auto simp: append_message_db s ids_distinct_def message_row_of_def\<close>)
qed (use same_feed_ops in \<open>auto simp: same_feed_def ids_distinct_def\<close>)

text \<open>A cursor points at the same place of a feed that has grown.\<close>

lemma cursor_seq:
  assumes "ids_distinct td" "m \<in> set (td_messages td)"
  shows "message_seq td (Some (ms_id m)) = int (ms_seq m)"
  using find_key_unique [of ms_id, OF assms(1) [unfolded ids_distinct_def] assms(2)] by (simp add: message_seq_def)

lemma posted_in_mem: "m \<in> set (posted_in td thread) \<longleftrightarrow> m \<in> set (td_messages td) \<and> ms_thread m = thread \<and> ms_kind m = Posted"
  by (auto simp: posted_in_def)

lemma posted_grows:
  assumes "feed_le td td'"
  obtains ms where "posted_in td' thread = posted_in td thread @ ms"
proof -
  obtain ms where "td_messages td' = td_messages td @ ms" using assms by (auto simp: feed_le_def)
  then have "posted_in td' thread = posted_in td thread @ filter (\<lambda>m. ms_thread m = thread \<and> ms_kind m = Posted) ms"
    by (simp add: posted_in_def)
  then show thesis by (rule that)
qed

lemma cursor_grows:
  assumes "cursor_ok td thread cursor" "feed_le td td'" "ids_distinct td'"
  shows "cursor_ok td' thread cursor" "message_seq td' cursor = message_seq td cursor"
proof -
  obtain ms where ms: "td_messages td' = td_messages td @ ms" using assms(2) by (auto simp: feed_le_def)
  then have dist: "ids_distinct td" using assms(3) by (simp add: ids_distinct_def)
  show "cursor_ok td' thread cursor" using assms(1) ms by (auto simp: cursor_ok_def posted_in_def split: option.splits)
  show "message_seq td' cursor = message_seq td cursor"
  proof (cases cursor)
    case (Some i)
    then obtain m where m: "m \<in> set (td_messages td)" "ms_id m = i" using assms(1) by (auto simp: cursor_ok_def posted_in_mem)
    then have "m \<in> set (td_messages td')" using ms by simp
    then show ?thesis using cursor_seq [OF dist m(1)] cursor_seq [OF assms(3), of m] m(2) Some by simp
  qed (simp add: message_seq_def)
qed

lemma window_grows:
  assumes inv: "thread_inv td'" "ids_distinct td'" and le: "feed_le td td'" and ok: "cursor_ok td thread cursor"
  shows "filter (\<lambda>m. p m \<and> int (ms_seq m) \<le> message_seq td' cursor) (posted_in td' thread)
    = filter (\<lambda>m. p m \<and> int (ms_seq m) \<le> message_seq td cursor) (posted_in td thread)"
proof -
  obtain ms where ms: "posted_in td' thread = posted_in td thread @ ms" using le by (rule posted_grows)
  have above: "message_seq td cursor < int (ms_seq x)" if x: "x \<in> set ms" for x
  proof (cases cursor)
    case (Some i)
    then obtain m where m: "m \<in> set (posted_in td thread)" "ms_id m = i" using ok by (auto simp: cursor_ok_def)
    have "ms_seq m < ms_seq x"
      using posted_sorted [OF inv(1), of thread] m(1) x unfolding ms by (simp add: sorted_wrt_append)
    moreover have "message_seq td' (Some i) = int (ms_seq m)"
      using cursor_seq [OF inv(2), of m] m ms posted_in_mem [of m td' thread] by auto
    moreover have "message_seq td' cursor = message_seq td cursor" by (rule cursor_grows(2) [OF ok le inv(2)])
    ultimately show ?thesis using Some by simp
  qed (simp add: message_seq_def)
  have "filter (\<lambda>m. p m \<and> int (ms_seq m) \<le> message_seq td cursor) ms = []"
    using above by (force simp: filter_empty_conv)
  then show ?thesis by (simp add: cursor_grows(2) [OF ok le inv(2)] ms)
qed

section \<open>The reflections of a pair\<close>

text \<open>
  \<open>rn_running\<close> is the reflection that is queued or at work, with the slice it was given; \<open>rn_read\<close> is
  what the finished ones were given, in the order they finished.
\<close>

record reflection_run =
  rn_feed :: thread_db
  rn_running :: "(reflection_candidate \<times> chat_message list) option"
  rn_read :: "chat_message list"

datatype run_event = RnFeed thread_event | RnQueued | RnFinished | RnFailed

text \<open>
  A reflection is queued from a candidate of the scheduler, whose queue holds the one that is queued or
  at work as pending or processing; it finishes with the upsert of the checkpoint, or fails without.
  Meanwhile the feed takes any operation of its store; only a finished reflection of the pair moves the
  pair's checkpoint.
\<close>

inductive run_step :: "reflection_env \<Rightarrow> uuid \<Rightarrow> uuid \<Rightarrow> reflection_run \<Rightarrow> run_event \<Rightarrow> reflection_run \<Rightarrow> bool"
  for env agent thread where
  run_feed: "thread_step (rn_feed r) e td \<Longrightarrow> (\<And>i. e \<noteq> TeCheckpoint agent thread i)
     \<Longrightarrow> run_step env agent thread r (RnFeed e) (r\<lparr>rn_feed := td\<rparr>)"
| run_queue: "rw_threads w = rn_feed r \<Longrightarrow> (rn_running r \<noteq> None \<Longrightarrow> under_reflection (rw_queue w) thread)
     \<Longrightarrow> c \<in> set (due_pairs w cutoff) \<Longrightarrow> rl_agent c = agent \<Longrightarrow> rl_thread c = thread
     \<Longrightarrow> run_step env agent thread r RnQueued
           (r\<lparr>rn_running := Some (c, fetch_slice env (rn_feed r) thread agent (rl_previous c) (rl_last_message c))\<rparr>)"
| run_finish: "rn_running r = Some (c, given) \<Longrightarrow> rw_threads w = rn_feed r
     \<Longrightarrow> run_step env agent thread r RnFinished
           \<lparr>rn_feed = rw_threads (upsert_checkpoint w now agent thread (rl_last_message c)), rn_running = None,
            rn_read = rn_read r @ given\<rparr>"
| run_fail: "run_step env agent thread r RnFailed (r\<lparr>rn_running := None\<rparr>)"

definition run_init :: "uuid \<Rightarrow> uuid \<Rightarrow> reflection_run \<Rightarrow> bool" where
  "run_init agent thread r \<longleftrightarrow> thread_init (rn_feed r) \<and> td_checkpoints (rn_feed r) (agent, thread) = None
     \<and> rn_running r = None \<and> rn_read r = []"

definition run_inv :: "reflection_env \<Rightarrow> uuid \<Rightarrow> uuid \<Rightarrow> reflection_run \<Rightarrow> bool" where
  "run_inv env agent thread r \<longleftrightarrow>
     (let td = rn_feed r; cursor = td_checkpoints td (agent, thread) in
        thread_inv td \<and> ids_distinct td \<and> cursor_ok td thread cursor
        \<and> rn_read r = reflected env agent (read_upto td thread cursor)
        \<and> (\<forall>c given. rn_running r = Some (c, given) \<longrightarrow>
             cursor_ok td thread (Some (rl_last_message c)) \<and> message_seq td cursor \<le> message_seq td (Some (rl_last_message c))
             \<and> given = reflected env agent (filter (\<lambda>m. message_seq td cursor < int (ms_seq m)
                 \<and> int (ms_seq m) \<le> message_seq td (Some (rl_last_message c))) (posted_in td thread))))"

lemma run_invD:
  assumes "run_inv env agent thread r"
  shows "thread_inv (rn_feed r)" "ids_distinct (rn_feed r)"
    "cursor_ok (rn_feed r) thread (td_checkpoints (rn_feed r) (agent, thread))"
    "rn_read r = reflected env agent (read_upto (rn_feed r) thread (td_checkpoints (rn_feed r) (agent, thread)))"
    "rn_running r = Some (c, given) \<Longrightarrow> cursor_ok (rn_feed r) thread (Some (rl_last_message c))
       \<and> message_seq (rn_feed r) (td_checkpoints (rn_feed r) (agent, thread)) \<le> message_seq (rn_feed r) (Some (rl_last_message c))
       \<and> given = reflected env agent (filter (\<lambda>m. message_seq (rn_feed r) (td_checkpoints (rn_feed r) (agent, thread)) < int (ms_seq m)
           \<and> int (ms_seq m) \<le> message_seq (rn_feed r) (Some (rl_last_message c))) (posted_in (rn_feed r) thread))"
  using assms by (simp_all add: run_inv_def Let_def)

text \<open>Two windows one after the other.\<close>

lemma read_upto_next:
  assumes inv: "thread_inv td" and le: "message_seq td cursor \<le> message_seq td next_cursor"
  shows "read_upto td thread cursor @ filter (\<lambda>m. message_seq td cursor < int (ms_seq m)
      \<and> int (ms_seq m) \<le> message_seq td next_cursor) (posted_in td thread) = read_upto td thread next_cursor"
proof -
  have sorted: "sorted_wrt (<) (map (\<lambda>m. int (ms_seq m)) (posted_in td thread))"
    using posted_sorted [OF inv, of thread] by (simp add: sorted_wrt_map)
  have low: "-1 \<le> message_seq td cursor" by (simp add: message_seq_def split: option.split)
  have "read_upto td thread k = filter (\<lambda>m. -1 < int (ms_seq m) \<and> int (ms_seq m) \<le> message_seq td k) (posted_in td thread)" for k
    by (simp add: read_upto_def)
  then show ?thesis using filter_window [OF sorted low le] by simp
qed

text \<open>The last message of a candidate is the last posted row of its thread.\<close>

lemma candidate_last:
  assumes inv: "thread_inv (rw_threads w)" "ids_distinct (rw_threads w)" and c: "c \<in> set (due_pairs w cutoff)"
  shows "cursor_ok (rw_threads w) (rl_thread c) (Some (rl_last_message c))"
    and "m \<in> set (posted_in (rw_threads w) (rl_thread c)) \<Longrightarrow> int (ms_seq m) \<le> message_seq (rw_threads w) (Some (rl_last_message c))"
    and "rl_previous c = td_checkpoints (rw_threads w) (rl_agent c, rl_thread c)"
    and "\<not> under_reflection (rw_queue w) (rl_thread c)"
proof -
  let ?td = "rw_threads w"
  obtain ats where ats: "candidate_of w cutoff ats = Some c" using c by (auto simp: due_pairs_mem)
  then obtain lm where lm: "find (\<lambda>m. ms_thread m = rl_thread c \<and> ms_seq m = latest_seq ?td (rl_thread c)) (td_messages ?td) = Some lm"
    "rl_last_message c = ms_id lm" and some: "posted_in ?td (rl_thread c) \<noteq> []"
    and free: "\<not> under_reflection (rw_queue w) (rl_thread c)"
    by (auto simp: candidate_of_def Let_def split: if_splits option.splits)
  have row: "lm \<in> set (td_messages ?td)" "ms_thread lm = rl_thread c" "ms_seq lm = latest_seq ?td (rl_thread c)"
    using find_Some_mem [OF lm(1)] by auto
  have "latest_seq ?td (rl_thread c) \<in> set (map ms_seq (posted_in ?td (rl_thread c)))"
    unfolding latest_seq_def using some by (intro Max_in) auto
  then obtain p where p: "p \<in> set (posted_in ?td (rl_thread c))" "ms_seq p = ms_seq lm" by (auto simp: row(3))
  have "distinct (map ms_seq (filter (\<lambda>m. ms_thread m = rl_thread c) (td_messages ?td)))"
    using inv(1) strict_sorted_iff by (auto simp: thread_inv_def feed_seqs_def)
  then have "p = lm" by (rule distinct_map_inj) (use p row in \<open>auto simp: posted_in_mem\<close>)
  then show "cursor_ok ?td (rl_thread c) (Some (rl_last_message c))" using p(1) lm(2) by (auto simp: cursor_ok_def)
  show "int (ms_seq m) \<le> message_seq ?td (Some (rl_last_message c))" if "m \<in> set (posted_in ?td (rl_thread c))"
  proof -
    have "ms_seq m \<le> latest_seq ?td (rl_thread c)" unfolding latest_seq_def using that by (intro Max_ge) auto
    then show ?thesis using cursor_seq [OF inv(2) row(1)] row(3) lm(2) by simp
  qed
  show "rl_previous c = td_checkpoints ?td (rl_agent c, rl_thread c)" using candidate_of_Some [OF ats] by simp
  show "\<not> under_reflection (rw_queue w) (rl_thread c)" by (rule free)
qed

lemma candidate_slice:
  assumes inv: "thread_inv (rw_threads w)" and c: "c \<in> set (due_pairs w cutoff)"
  shows "fetch_slice env (rw_threads w) (rl_thread c) agent (rl_previous c) (rl_last_message c)
    = reflected env agent (filter (\<lambda>m. message_seq (rw_threads w) (rl_previous c) < int (ms_seq m)
        \<and> int (ms_seq m) \<le> message_seq (rw_threads w) (Some (rl_last_message c))) (posted_in (rw_threads w) (rl_thread c)))"
  by (simp add: fetch_slice_def reflected_def slice_rows_filter [OF inv])

lemma cursor_below_last:
  assumes inv: "thread_inv (rw_threads w)" "ids_distinct (rw_threads w)" and c: "c \<in> set (due_pairs w cutoff)"
    and ok: "cursor_ok (rw_threads w) (rl_thread c) cursor"
  shows "message_seq (rw_threads w) cursor \<le> message_seq (rw_threads w) (Some (rl_last_message c))"
proof (cases cursor)
  case None
  then show ?thesis by (simp add: message_seq_def split: option.split)
next
  case (Some i)
  then obtain m where m: "m \<in> set (posted_in (rw_threads w) (rl_thread c))" "ms_id m = i" using ok by (auto simp: cursor_ok_def)
  then show ?thesis
    using candidate_last(2) [OF inv c m(1)] cursor_seq [OF inv(2), of m] Some by (simp add: posted_in_mem)
qed

lemma checkpoints_step:
  assumes "thread_step td e td'" "\<And>i. e \<noteq> TeCheckpoint agent thread i"
  shows "td_checkpoints td' (agent, thread) = td_checkpoints td (agent, thread)"
  using assms
proof (induction rule: thread_step.induct)
  case (create db now i ca ch root "by" dm x db')
  then show ?case by (auto simp: create_thread_def split: if_splits)
next
  case (append db now i ca th m)
  obtain x db' where s: "append_statement db now i (ca_user ca) th m = (x, db')" by (meson surj_pair)
  then show ?case by (cases rule: append_statement_cases) (simp_all add: append_message_db s)
qed (auto simp: resolve_participation_def store_reflection_checkpoint_def save_compaction_def bump_cooldown_def
    save_tool_artifact_def split: option.split)

lemma run_feed_inv:
  assumes inv: "run_inv env agent thread r" and st: "thread_step (rn_feed r) e td" "\<And>i. e \<noteq> TeCheckpoint agent thread i"
  shows "run_inv env agent thread (r\<lparr>rn_feed := td\<rparr>)"
proof -
  note I = run_invD [OF inv]
  have td: "thread_inv td" "ids_distinct td" "feed_le (rn_feed r) td"
    using thread_step_inv [OF st(1) I(1)] ids_distinct_step [OF I(2) st(1)] thread_step_le [OF st(1)] by simp_all
  have cp: "td_checkpoints td (agent, thread) = td_checkpoints (rn_feed r) (agent, thread)" by (rule checkpoints_step [OF st])
  note cur = cursor_grows [OF I(3) td(3,2)] and win = window_grows [OF td(1,2,3)]
  have upto: "read_upto td thread (td_checkpoints td (agent, thread)) = read_upto (rn_feed r) thread (td_checkpoints (rn_feed r) (agent, thread))"
    using win [OF I(3), of "\<lambda>_. True"] by (simp add: read_upto_def cp)
  show ?thesis
    unfolding run_inv_def Let_def
  proof (intro conjI allI impI)
    fix c given assume "rn_running (r\<lparr>rn_feed := td\<rparr>) = Some (c, given)"
    then have run: "rn_running r = Some (c, given)" by simp
    note J = I(5) [OF run]
    note last_cur = cursor_grows [OF conjunct1 [OF J] td(3,2)]
    show "cursor_ok (rn_feed (r\<lparr>rn_feed := td\<rparr>)) thread (Some (rl_last_message c))" using last_cur(1) by simp
    show "message_seq (rn_feed (r\<lparr>rn_feed := td\<rparr>)) (td_checkpoints (rn_feed (r\<lparr>rn_feed := td\<rparr>)) (agent, thread))
        \<le> message_seq (rn_feed (r\<lparr>rn_feed := td\<rparr>)) (Some (rl_last_message c))"
      using J by (simp add: cp cur(2) last_cur(2))
    show "given = reflected env agent (filter (\<lambda>m. message_seq (rn_feed (r\<lparr>rn_feed := td\<rparr>))
          (td_checkpoints (rn_feed (r\<lparr>rn_feed := td\<rparr>)) (agent, thread)) < int (ms_seq m)
        \<and> int (ms_seq m) \<le> message_seq (rn_feed (r\<lparr>rn_feed := td\<rparr>)) (Some (rl_last_message c)))
          (posted_in (rn_feed (r\<lparr>rn_feed := td\<rparr>)) thread))"
      using J win [OF conjunct1 [OF J], of "\<lambda>m. message_seq (rn_feed r) (td_checkpoints (rn_feed r) (agent, thread)) < int (ms_seq m)"]
      by (simp add: cp cur(2))
  qed (use td cur(1) I(4) upto in \<open>simp_all add: cp\<close>)
qed

lemma run_queue_inv:
  assumes inv: "run_inv env agent thread r" and w: "rw_threads w = rn_feed r"
    and c: "c \<in> set (due_pairs w cutoff)" "rl_agent c = agent" "rl_thread c = thread"
  shows "run_inv env agent thread (r\<lparr>rn_running := Some (c,
    fetch_slice env (rn_feed r) thread agent (rl_previous c) (rl_last_message c))\<rparr>)"
proof -
  note I = run_invD [OF inv]
  note last_msg = candidate_last [OF _ _ c(1), unfolded w c(2,3), OF I(1,2)]
  have below: "message_seq (rn_feed r) (td_checkpoints (rn_feed r) (agent, thread)) \<le> message_seq (rn_feed r) (Some (rl_last_message c))"
    using cursor_below_last [OF _ _ c(1), unfolded w c(3), OF I(1,2,3)] .
  have "fetch_slice env (rn_feed r) thread agent (rl_previous c) (rl_last_message c)
    = reflected env agent (filter (\<lambda>m. message_seq (rn_feed r) (td_checkpoints (rn_feed r) (agent, thread)) < int (ms_seq m)
        \<and> int (ms_seq m) \<le> message_seq (rn_feed r) (Some (rl_last_message c))) (posted_in (rn_feed r) thread))"
    using candidate_slice [OF _ c(1), of env agent] last_msg(3) I(1) by (simp add: w c(3))
  then show ?thesis using I(1-4) last_msg(1) below by (simp add: run_inv_def Let_def)
qed

lemma run_finish_inv:
  assumes inv: "run_inv env agent thread r" and run: "rn_running r = Some (c, given)" and w: "rw_threads w = rn_feed r"
  shows "run_inv env agent thread \<lparr>rn_feed = rw_threads (upsert_checkpoint w now agent thread (rl_last_message c)),
    rn_running = None, rn_read = rn_read r @ given\<rparr>"
proof -
  note I = run_invD(1-4) [OF inv] and J = run_invD(5) [OF inv run]
  let ?td = "store_reflection_checkpoint (rn_feed r) agent thread (rl_last_message c)"
  have td: "rw_threads (upsert_checkpoint w now agent thread (rl_last_message c)) = ?td" by (simp add: upsert_checkpoint_def w)
  have same: "message_seq ?td k = message_seq (rn_feed r) k" "cursor_ok ?td thread k = cursor_ok (rn_feed r) thread k"
    "read_upto ?td thread k = read_upto (rn_feed r) thread k" "ids_distinct ?td" "thread_inv ?td" for k
    unfolding message_seq_def cursor_ok_def read_upto_def ids_distinct_def checkpoint_frame
    using I(1,2) same_feed_inv [OF same_feed_ops(2)] by (simp_all add: ids_distinct_def)
  have "rn_read r @ given = reflected env agent (read_upto (rn_feed r) thread (Some (rl_last_message c)))"
    using J I(4) read_upto_next [OF I(1), of "td_checkpoints (rn_feed r) (agent, thread)" "Some (rl_last_message c)"]
    by (simp add: reflected_def map_append [symmetric] del: map_append)
  then show ?thesis using J by (simp add: run_inv_def Let_def td same)
qed

interpretation runs: transition_system "run_init agent thread" "run_step env agent thread" "run_inv env agent thread"
  for env agent thread
proof
  show "run_inv env agent thread r" if "run_init agent thread r" for r
    using that thread_init_inv by (simp add: run_init_def run_inv_def Let_def ids_distinct_def thread_init_def cursor_ok_def
        read_upto_def posted_in_def reflected_def)
  show "run_inv env agent thread r'" if "run_inv env agent thread r" "run_step env agent thread r e r'" for r e r'
    using that(2,1)
  proof (cases rule: run_step.cases)
    case (run_feed e td)
    then show ?thesis using run_feed_inv [OF that(1) run_feed(3)] by blast
  next
    case (run_queue w c cutoff)
    show ?thesis unfolding run_queue(2) by (rule run_queue_inv [OF that(1) run_queue(3,5-7)])
  next
    case (run_finish c given w now)
    show ?thesis unfolding run_finish(2) by (rule run_finish_inv [OF that(1) run_finish(3,4)])
  next
    case run_fail
    then show ?thesis using run_invD(1-4) [OF that(1)] by (simp add: run_inv_def Let_def)
  qed
qed

text \<open>
  C35. Reflections read the feed once. However the feed of a thread grows while an agent's reflections
  on it are queued, finish or fail: what the finished ones were given is, message by message and in
  order, every posted message up to the agent's checkpoint, whoever sent it, the system included; and
  the slice of the next due candidate is exactly the rest, so that both together are the whole posted
  feed. Nothing is given twice and nothing is left out.
\<close>

theorem reflections_read_the_feed_once:
  assumes "reach (run_init agent thread) (run_step env agent thread) r"
  shows "rn_read r = reflected env agent (filter (\<lambda>m. int (ms_seq m)
        \<le> message_seq (rn_feed r) (td_checkpoints (rn_feed r) (agent, thread))) (posted_in (rn_feed r) thread))
    \<and> (\<forall>w cutoff c. rw_threads w = rn_feed r \<and> c \<in> set (due_pairs w cutoff) \<and> rl_agent c = agent \<and> rl_thread c = thread
        \<longrightarrow> rn_read r @ fetch_slice env (rn_feed r) thread agent (rl_previous c) (rl_last_message c)
            = reflected env agent (posted_in (rn_feed r) thread))"
proof -
  have inv: "run_inv env agent thread r" using assms by (rule runs.reach_inv)
  note I = run_invD(1-4) [OF inv]
  have "rn_read r @ fetch_slice env (rn_feed r) thread agent (rl_previous c) (rl_last_message c)
      = reflected env agent (posted_in (rn_feed r) thread)"
    if w: "rw_threads w = rn_feed r" and c: "c \<in> set (due_pairs w cutoff)" "rl_agent c = agent" "rl_thread c = thread" for w cutoff c
  proof -
    note last_msg = candidate_last [OF _ _ c(1), unfolded w c(2,3), OF I(1,2)]
    let ?cursor = "td_checkpoints (rn_feed r) (agent, thread)"
    have below: "message_seq (rn_feed r) ?cursor \<le> message_seq (rn_feed r) (Some (rl_last_message c))"
      using cursor_below_last [OF _ _ c(1), unfolded w c(3), OF I(1,2,3)] .
    have given: "fetch_slice env (rn_feed r) thread agent (rl_previous c) (rl_last_message c)
      = reflected env agent (filter (\<lambda>m. message_seq (rn_feed r) ?cursor < int (ms_seq m)
          \<and> int (ms_seq m) \<le> message_seq (rn_feed r) (Some (rl_last_message c))) (posted_in (rn_feed r) thread))"
      using candidate_slice [OF _ c(1), of env agent] last_msg(3) I(1) by (simp add: w c(3))
    have "read_upto (rn_feed r) thread (Some (rl_last_message c)) = posted_in (rn_feed r) thread"
      unfolding read_upto_def using last_msg(2) by (simp add: filter_id_conv)
    with read_upto_next [OF I(1) below] show ?thesis
      unfolding given I(4) by (simp add: reflected_def map_append [symmetric] del: map_append)
  qed
  then show ?thesis using I(4) by (auto simp: read_upto_def)
qed

text \<open>
  Agent 6 takes part in a thread, reflects on its one message, and is due again after a message of the
  system.
\<close>

definition sample_joined_db :: thread_db where
  "sample_joined_db = snd (resolve_participation sample_thread_db1 150 40 sample_caller 7 6)"

definition sample_first_db :: thread_db where
  "sample_first_db = append_to sample_joined_db 21 (posted 5 ''hi'' (Some ''k''))"

definition sample_second_db :: thread_db where
  "sample_second_db = append_to (store_reflection_checkpoint sample_first_db 6 7 21) 22
     \<lparr>nm_kind = Posted, nm_sender = None, nm_owner_agent = None, nm_receiver = None, nm_body = User [UText ''fired''],
      nm_request = None, nm_idempotency_key = None\<rparr>"

definition world_over :: "thread_db \<Rightarrow> reflection_world" where
  "world_over td = sample_reflection_world\<lparr>rw_threads := td, rw_checkpoint_at := Map.empty\<rparr>"

definition fresh_run :: "thread_db \<Rightarrow> reflection_run" where
  "fresh_run td = \<lparr>rn_feed = td, rn_running = None, rn_read = []\<rparr>"

definition first_candidate :: reflection_candidate where
  "first_candidate = \<lparr>rl_agent = 6, rl_thread = 7, rl_last_message = 21, rl_latest_at = 200, rl_previous = None, rl_org = 1, rl_user = 10\<rparr>"

definition second_candidate :: reflection_candidate where
  "second_candidate = first_candidate\<lparr>rl_last_message := 22, rl_previous := Some 21\<rparr>"

lemma first_due: "due_pairs (world_over sample_first_db) 300 = [first_candidate]" by code_simp

lemma second_due: "due_pairs (world_over sample_second_db) 300 = [second_candidate]" by code_simp

lemma first_slice: "fetch_slice sample_reflection_env sample_first_db 7 6 None 21 = [User [UText ''hi'']]" by code_simp

abbreviation sample_reach :: "reflection_run \<Rightarrow> bool" where
  "sample_reach \<equiv> reach (run_init 6 7) (run_step sample_reflection_env 6 7)"

lemma run_feed_reach:
  assumes "sample_reach \<lparr>rn_feed = td, rn_running = None, rn_read = rs\<rparr>" "thread_step td e td'" "\<And>i. e \<noteq> TeCheckpoint 6 7 i"
  shows "sample_reach \<lparr>rn_feed = td', rn_running = None, rn_read = rs\<rparr>"
  using reach_step [OF assms(1) run_feed [of "\<lparr>rn_feed = td, rn_running = None, rn_read = rs\<rparr>", OF _ assms(3)]] assms(2) by simp

lemma append_run_reach:
  assumes "sample_reach \<lparr>rn_feed = td, rn_running = None, rn_read = rs\<rparr>"
  shows "sample_reach \<lparr>rn_feed = append_to td i m, rn_running = None, rn_read = rs\<rparr>"
  using run_feed_reach [OF assms thread_step.append [of td 200 i sample_caller 7 m]] by (simp add: append_to_def)

lemma first_reach: "sample_reach (fresh_run sample_first_db)"
proof -
  have start: "sample_reach \<lparr>rn_feed = sample_thread_db0, rn_running = None, rn_read = []\<rparr>"
    by (rule reach_init) (simp add: run_init_def thread_init_def sample_thread_db0_def)
  have "create_thread sample_thread_db0 100 7 sample_caller None None 5 (Some 6) = Some (Inr 7, sample_thread_db1)"
    by (simp add: create_thread_def sample_thread_db0_def sample_thread_db1_def sample_caller_def td_is_member_def)
  then have "sample_reach \<lparr>rn_feed = sample_thread_db1, rn_running = None, rn_read = []\<rparr>"
    using run_feed_reach [OF start thread_step.create] by blast
  then have "sample_reach \<lparr>rn_feed = sample_joined_db, rn_running = None, rn_read = []\<rparr>"
    unfolding sample_joined_db_def by (rule run_feed_reach [OF _ thread_step.resolve]) simp
  then show ?thesis unfolding fresh_run_def sample_first_db_def by (rule append_run_reach)
qed

lemma second_reach: "reach (run_init 6 7) (run_step sample_reflection_env 6 7)
    \<lparr>rn_feed = sample_second_db, rn_running = None, rn_read = [User [UText ''hi'']]\<rparr>"
proof -
  let ?q = "\<lparr>rn_feed = sample_first_db, rn_running = Some (first_candidate, [User [UText ''hi'']]), rn_read = []\<rparr>"
  have "first_candidate \<in> set (due_pairs (world_over sample_first_db) 300)" by (simp add: first_due)
  then have "run_step sample_reflection_env 6 7 (fresh_run sample_first_db) RnQueued ?q"
    using run_queue [of "world_over sample_first_db" "fresh_run sample_first_db" 7 first_candidate 300 6 sample_reflection_env]
    by (simp add: fresh_run_def world_over_def first_candidate_def first_slice)
  with first_reach have queued: "reach (run_init 6 7) (run_step sample_reflection_env 6 7) ?q" by (rule reach_step)
  have "run_step sample_reflection_env 6 7 ?q RnFinished
      \<lparr>rn_feed = store_reflection_checkpoint sample_first_db 6 7 21, rn_running = None, rn_read = [User [UText ''hi'']]\<rparr>"
    using run_finish [of ?q first_candidate "[User [UText ''hi'']]" "world_over sample_first_db" sample_reflection_env 6 7 250]
    by (simp add: world_over_def upsert_checkpoint_def first_candidate_def)
  with queued have finished: "reach (run_init 6 7) (run_step sample_reflection_env 6 7)
      \<lparr>rn_feed = store_reflection_checkpoint sample_first_db 6 7 21, rn_running = None, rn_read = [User [UText ''hi'']]\<rparr>"
    by (rule reach_step)
  show ?thesis
    unfolding sample_second_db_def by (rule append_run_reach [OF finished])
qed

theorem reflections_read_the_feed_once_witness:
  "fetch_slice sample_reflection_env sample_second_db 7 6 (Some 21) 22 = [User [UText ''fired'']]
   \<and> [User [UText ''hi'']] @ fetch_slice sample_reflection_env sample_second_db 7 6 (Some 21) 22
      = reflected sample_reflection_env 6 (posted_in sample_second_db 7)
   \<and> map ms_sender (posted_in sample_second_db 7) = [Some 5, None]"
proof -
  have one: "fetch_slice sample_reflection_env sample_second_db 7 6 (Some 21) 22 = [User [UText ''fired'']]"
    "map ms_sender (posted_in sample_second_db 7) = [Some 5, None]" by code_simp+
  have "second_candidate \<in> set (due_pairs (world_over sample_second_db) 300)" by (simp add: second_due)
  then have "[User [UText ''hi'']] @ fetch_slice sample_reflection_env sample_second_db 7 6 (rl_previous second_candidate) (rl_last_message second_candidate)
      = reflected sample_reflection_env 6 (posted_in sample_second_db 7)"
    using reflections_read_the_feed_once [OF second_reach] by (force simp: world_over_def second_candidate_def first_candidate_def)
  then show ?thesis using one by (simp add: second_candidate_def)
qed

end
