(* ===== verification/Memory_Compose.thy ===== *)
theory Memory_Compose
  imports Turn_Records Colleagues Memory_Lifecycle
begin

text \<open>
  The memory section of a system prompt (\<open>memory/composer.rs\<close>, \<open>memory/loader.rs\<close>): which memories
  it shows, within which budget, under which handles, and how a handle of the model is read back.
\<close>

section \<open>Choosing rows\<close>

fun trim_loop :: "nat \<Rightarrow> nat \<Rightarrow> memory_row list \<Rightarrow> memory_row list" where
  "trim_loop budget used [] = []"
| "trim_loop budget used (r # rs) =
     (let line = length (mr_content r) + RENDER_LINE_OVERHEAD_BYTES in
      if used + line > budget then [] else r # trim_loop budget (used + line) rs)"

definition trim_to_budget :: "memory_row list \<Rightarrow> nat \<Rightarrow> memory_row list" where
  "trim_to_budget rows budget = trim_loop budget 0 rows"

definition stable_candidate :: "memory_row \<Rightarrow> bool" where
  "stable_candidate r \<longleftrightarrow> mr_pinned r \<or> mr_kind r = MkIdentity"

definition trust_order :: "memory_row list \<Rightarrow> memory_row list" where
  "trust_order = sort_key (\<lambda>r. (- int (state_priority (mr_state r)), - mr_created_at r))"

definition select_stable_layer :: "memory_row list \<Rightarrow> memory_row list" where
  "select_stable_layer rows = trim_to_budget (trust_order (filter stable_candidate rows)) STABLE_LAYER_MAX_BYTES"

section \<open>Handles\<close>

record memory_section =
  sec_text :: string
  sec_handles :: "(nat \<times> uuid) list"

text \<open>\<open>None\<close> is the failed invariant on the number of handles.\<close>

fun bind_reserved_handles :: "nat \<Rightarrow> uuid list \<Rightarrow> ((nat \<times> uuid) list \<times> nat) option" where
  "bind_reserved_handles n [] = Some ([], n)"
| "bind_reserved_handles n (i # rest) =
     (case memory_handle_try_from n of
        Inl e \<Rightarrow> None
      | Inr h \<Rightarrow> (case bind_reserved_handles (n + 1) rest of None \<Rightarrow> None | Some (hs, m) \<Rightarrow> Some ((h, i) # hs, m)))"

fun mint_handles :: "uuid list \<Rightarrow> nat \<Rightarrow> memory_row list \<Rightarrow> (nat \<times> memory_row) list option" where
  "mint_handles reserved n [] = Some []"
| "mint_handles reserved n (r # rs) =
     (if mr_id r \<in> set reserved then mint_handles reserved n rs
      else (case memory_handle_try_from n of
          Inl e \<Rightarrow> None
        | Inr h \<Rightarrow> (case mint_handles reserved (n + 1) rs of None \<Rightarrow> None | Some hs \<Rightarrow> Some ((h, r) # hs))))"

definition resolve_section_handle :: "memory_section \<Rightarrow> nat \<Rightarrow> uuid option" where
  "resolve_section_handle s h = map_of (sec_handles s) h"

section \<open>Rendering\<close>

definition MEMORY_TAG_OPEN :: string where "MEMORY_TAG_OPEN = ''<memory>'' @ newline"
definition MEMORY_TAG_CLOSE :: string where "MEMORY_TAG_CLOSE = newline @ ''</memory>''"

definition KIND_ORDER :: "memory_kind list" where
  "KIND_ORDER = [MkIdentity, MkOther, MkCollaborator, MkProcedure, MkOpen]"

definition memory_preamble :: string where
  "memory_preamble = ''## Memory'' @ newline
     @ ''Facts you previously remembered. Each entry has an `M-NN` handle '' @ em_dash_bytes
     @ '' pass it to `memory_update`, `memory_forget`, or `memory_validate` to revise the entry. ''
     @ ''Use `recall` to search for memories not listed below.'' @ newline"

definition render_entry :: "(uuid \<rightharpoonup> string) \<Rightarrow> memory_kind \<Rightarrow> nat \<times> memory_row \<Rightarrow> string" where
  "render_entry subjects k e =
     (case e of (h, r) \<Rightarrow>
        ''- ['' @ memory_handle_show h @ '', '' @ memory_state_as_str (mr_state r) @ ''] ''
        @ (if k = MkCollaborator
           then (case Option.bind (mr_subject r) subjects of None \<Rightarrow> [] | Some name \<Rightarrow> ''(about '' @ name @ '') '')
           else [])
        @ mr_content r @ newline)"

definition render_memory_text :: "(uuid \<rightharpoonup> string) \<Rightarrow> (nat \<times> memory_row) list \<Rightarrow> string" where
  "render_memory_text subjects entries =
     MEMORY_TAG_OPEN @ memory_preamble
     @ concat (map (\<lambda>k. case filter (\<lambda>(h, r). mr_kind r = k) entries of
           [] \<Rightarrow> []
         | es \<Rightarrow> newline @ ''### '' @ display_label k @ newline @ concat (map (render_entry subjects k) es)) KIND_ORDER)
     @ MEMORY_TAG_CLOSE"

definition render_memory_section ::
  "memory_row list \<Rightarrow> memory_row list \<Rightarrow> uuid list \<Rightarrow> (uuid \<rightharpoonup> string) \<Rightarrow> memory_section option" where
  "render_memory_section layer contextual reserved subjects =
     (case bind_reserved_handles 1 reserved of
        None \<Rightarrow> None
      | Some (handles, n) \<Rightarrow>
          (case mint_handles reserved n (layer @ contextual) of
             None \<Rightarrow> None
           | Some minted \<Rightarrow> Some
               \<lparr>sec_text = (if minted = [] then [] else render_memory_text subjects minted),
                sec_handles = handles @ map (\<lambda>(h, r). (h, mr_id r)) minted\<rparr>))"

definition compose_memory_section ::
  "memory_row list \<Rightarrow> memory_row list \<Rightarrow> uuid list \<Rightarrow> (uuid \<rightharpoonup> string) \<Rightarrow> memory_section option" where
  "compose_memory_section rows contextual reserved subjects =
     (let layer = select_stable_layer rows in
      render_memory_section layer
        (trim_to_budget (filter (\<lambda>r. mr_id r \<notin> mr_id ` set layer) contextual) CONTEXTUAL_LAYER_MAX_BYTES)
        reserved subjects)"

section \<open>Loading\<close>

datatype memory_error =
    MeBackend string
  | MeAgent string
  | MeColleague colleague_error
  | MeLanguage string
  | MeRule string

text \<open>The names of the subjects, of the roster of the organisation; read only when some row has one.\<close>

definition hydrate_subjects ::
  "(uuid \<Rightarrow> (colleague_ref list, colleague_error) result) \<Rightarrow> memory_row list \<Rightarrow> (uuid \<rightharpoonup> string, memory_error) result" where
  "hydrate_subjects roster_of rows =
     (let named = filter (\<lambda>r. mr_subject r \<noteq> None) rows in
      if named = [] then Inr Map.empty
      else (case roster_of (mr_org (last named)) of
          Inl e \<Rightarrow> Inl (MeColleague e)
        | Inr roster \<Rightarrow> Inr (map_of (rev (map (\<lambda>c. (rf_id c, rf_name c))
              (filter (\<lambda>c. Some (rf_id c) \<in> mr_subject ` set named) roster))))))"

definition resolve_reserved_pair :: "memory_db \<Rightarrow> uuid option \<Rightarrow> uuid list" where
  "resolve_reserved_pair db contradiction =
     (case contradiction of
        None \<Rightarrow> []
      | Some i \<Rightarrow> (case read_contradiction db i of None \<Rightarrow> [] | Some c \<Rightarrow> [ct_memory_a c, ct_memory_b c]))"

definition contradiction_of :: "request_kind_payload \<Rightarrow> uuid option" where
  "contradiction_of p = (case p of PResolution c \<Rightarrow> Some c | _ \<Rightarrow> None)"

text \<open>The roster cache, and the printer of store errors.\<close>

record section_env =
  ce_roster :: "uuid \<Rightarrow> (colleague_ref list, colleague_error) result"
  ce_show :: "memory_store_error \<Rightarrow> string"

text \<open>\<open>None\<close> is a panic: an agent above the cap of memories, or of handles.\<close>

definition load_stable ::
  "section_env \<Rightarrow> memory_db \<Rightarrow> uuid \<Rightarrow> request_kind_payload \<Rightarrow> (memory_section, memory_error) result option" where
  "load_stable env db agent payload =
     (case list_memories db agent of
        None \<Rightarrow> None
      | Some (Inl e) \<Rightarrow> Some (Inl (MeBackend (ce_show env e)))
      | Some (Inr rows) \<Rightarrow>
          (case hydrate_subjects (ce_roster env) rows of
             Inl e \<Rightarrow> Some (Inl e)
           | Inr subjects \<Rightarrow>
               map_option Inr (compose_memory_section rows [] (resolve_reserved_pair db (contradiction_of payload)) subjects)))"

definition loader_resolve_handle ::
  "section_env \<Rightarrow> memory_db \<Rightarrow> uuid \<Rightarrow> request_kind_payload \<Rightarrow> nat \<Rightarrow> (uuid option, memory_error) result option" where
  "loader_resolve_handle env db agent payload h =
     (case load_stable env db agent payload of
        None \<Rightarrow> None
      | Some (Inl e) \<Rightarrow> Some (Inl e)
      | Some (Inr s) \<Rightarrow> Some (Inr (resolve_section_handle s h)))"

end
