(* ===== verification/Memory_Tools.thy ===== *)
theory Memory_Tools
  imports Memory_Compose Toolbox "HOL-Library.AList"
begin

text \<open>
  The memory tools of an agent (\<open>tools/system/memory/\<close>): the counter that caps the calls of a turn,
  the reading of a handle, and the five tools. Each returns its answer with the state it leaves;
  \<open>None\<close> is a panic, of the prompt's composition or of the store's assertion on subjects.
\<close>

section \<open>The cap on calls\<close>

text \<open>The counter's map as its list of entries.\<close>

definition CALL_COUNTER_MAX_ENTRIES :: nat where "CALL_COUNTER_MAX_ENTRIES = 1024"

definition counter_increment :: "nat \<Rightarrow> (uuid \<times> nat) list \<Rightarrow> uuid \<Rightarrow> (nat, nat) result \<times> (uuid \<times> nat) list" where
  "counter_increment cap m request =
     (let m1 = (if length m \<ge> CALL_COUNTER_MAX_ENTRIES \<and> map_of m request = None then [] else m);
          n = (case map_of m1 request of None \<Rightarrow> 0 | Some n \<Rightarrow> n)
      in if n \<ge> cap then (Inl cap, AList.update request n m1)
         else (Inr (n + 1), AList.update request (n + 1) m1))"

record memory_tools =
  mt_counter :: "(uuid \<times> nat) list"
  mt_recalls :: "(uuid \<times> nat) list"
  mt_db :: memory_db

definition expect_agent :: "tool_ctx \<Rightarrow> (uuid, tool_error) result" where
  "expect_agent ctx = 
     ok_or (participant_agent (tx_viewer ctx)) (ToolBackend ''memory tool invoked with non-agent viewer'')"

definition check_mutation_cap :: "(uuid \<times> nat) list \<Rightarrow> uuid \<Rightarrow> (unit, tool_error) result \<times> (uuid \<times> nat) list" where
  "check_mutation_cap m request =
     (case counter_increment MAX_MEMORY_MUTATIONS_PER_TURN m request of
        (Inr _, m') \<Rightarrow> (Inr (), m')
      | (Inl cap, m') \<Rightarrow> (Inl (InvalidInput (''memory mutation cap exceeded for this turn (max ''
            @ show_nat cap @ '' mutations)'')), m'))"

section \<open>What the tools call\<close>

text \<open>
  The section's environment, the printers of errors, the embedding service, the distance of
  pgvector and its rounding.
\<close>

record memory_tool_env = section_env +
  ce_show_parse :: "parse_error \<Rightarrow> string"
  ce_show_memory :: "memory_error \<Rightarrow> string"
  ce_embed :: "string \<Rightarrow> (embedding, string) result"
  ce_distance :: "embedding \<Rightarrow> embedding \<Rightarrow> real"
  ce_narrow :: "real \<Rightarrow> real"

fun store_to_tool_err :: "(memory_store_error \<Rightarrow> string) \<Rightarrow> memory_store_error \<Rightarrow> tool_error" where
  "store_to_tool_err show (MemDb d) = ToolBackend (show (MemDb d))"
| "store_to_tool_err show (MemProvider s) = ToolBackend (show (MemProvider s))"
| "store_to_tool_err show (MemBackend s) = ToolBackend (show (MemBackend s))"
| "store_to_tool_err show e = InvalidInput (show e)"

definition maybe_close_resolution ::
  "memory_tool_env \<Rightarrow> memory_db \<Rightarrow> tool_ctx \<Rightarrow> timestamp \<Rightarrow> uuid \<Rightarrow> (unit, tool_error) result \<times> memory_db" where
  "maybe_close_resolution env db ctx now event =
     (case tx_kind_payload ctx of
        PResolution c \<Rightarrow>
          (case resolve_contradiction_as db (ActingUser (tx_acting_user_id ctx)) now c (ResMutation event) of
             Inl e \<Rightarrow> (Inl (store_to_tool_err (ce_show env) e), db)
           | Inr db' \<Rightarrow> (Inr (), db'))
      | _ \<Rightarrow> (Inr (), db))"

definition resolve_handle ::
  "memory_tool_env \<Rightarrow> memory_db \<Rightarrow> uuid \<Rightarrow> request_kind_payload \<Rightarrow> nat \<Rightarrow> (uuid, tool_error) result option" where
  "resolve_handle env db agent payload h =
     (case loader_resolve_handle (section_env.truncate env) db agent payload h of
        None \<Rightarrow> None
      | Some (Inl e) \<Rightarrow> Some (Inl (ToolBackend (ce_show_memory env e)))
      | Some (Inr None) \<Rightarrow> Some (Inl (InvalidInput (''unknown memory handle '' @ memory_handle_show h
            @ ''; check the `## Memory` section in your system prompt for valid handles'')))
      | Some (Inr (Some i)) \<Rightarrow> Some (Inr i))"

section \<open>Writing\<close>

text \<open>\<open>parse\<close> is \<open>serde_json\<close>'s reading of the input into the tool's fields.\<close>

record memory_write_input =
  wi_kind :: memory_kind
  wi_content :: string
  wi_subject :: "uuid option"

record memory_write_output =
  wo_memory :: uuid
  wo_kind :: string
  wo_state :: string
  wo_note :: string

definition memory_write ::
  "(json \<Rightarrow> (memory_write_input, string) result) \<Rightarrow> memory_tool_env \<Rightarrow> timestamp \<Rightarrow> uuid \<Rightarrow> uuid \<Rightarrow> tool_ctx \<Rightarrow> json
   \<Rightarrow> memory_tools \<Rightarrow> ((memory_write_output, tool_error) result \<times> memory_tools) option" where
  "memory_write parse env now memory event ctx input st =
     (case parse input of
        Inl e \<Rightarrow> Some (Inl (ToolJson e), st)
      | Inr inp \<Rightarrow>
     (case expect_agent ctx of
        Inl e \<Rightarrow> Some (Inl e, st)
      | Inr agent \<Rightarrow>
     (case check_mutation_cap (mt_counter st) (tx_request_id ctx) of
        (Inl e, m) \<Rightarrow> Some (Inl e, st\<lparr>mt_counter := m\<rparr>)
      | (Inr _, m) \<Rightarrow>
     (let st1 = st\<lparr>mt_counter := m\<rparr> in
      case memory_content_try_from (wi_content inp) of
        Inl e \<Rightarrow> Some (Inl (InvalidInput (ce_show_parse env e)), st1)
      | Inr content \<Rightarrow>
     (case apply_as (ce_embed env) (mt_db st) (ActingUser (tx_acting_user_id ctx)) now memory event
             (MWrite agent (wi_kind inp) content MsTentative False (wi_subject inp) (SrcTurn (tx_request_id ctx))) of
        None \<Rightarrow> None
      | Some (Inl e) \<Rightarrow> Some (Inl (store_to_tool_err (ce_show env) e), st1)
      | Some (Inr (outcome, db')) \<Rightarrow>
          Some (Inr \<lparr>wo_memory = mo_memory outcome, wo_kind = memory_kind_as_str (wi_kind inp),
                  wo_state = memory_state_as_str MsTentative,
                  wo_note = ''Memory written. The new entry will appear under a stable handle on your next session.''\<rparr>,
                st1\<lparr>mt_db := db'\<rparr>))))))"

section \<open>Revising\<close>

record memory_update_input =
  ui_handle :: string
  ui_content :: string

record memory_update_output =
  uo_memory :: uuid
  uo_handle :: string
  uo_state :: string

definition memory_update ::
  "(json \<Rightarrow> (memory_update_input, string) result) \<Rightarrow> memory_tool_env \<Rightarrow> timestamp \<Rightarrow> uuid \<Rightarrow> tool_ctx \<Rightarrow> json
   \<Rightarrow> memory_tools \<Rightarrow> ((memory_update_output, tool_error) result \<times> memory_tools) option" where
  "memory_update parse env now event ctx input st =
     (case parse input of
        Inl e \<Rightarrow> Some (Inl (ToolJson e), st)
      | Inr inp \<Rightarrow>
     (case expect_agent ctx of
        Inl e \<Rightarrow> Some (Inl e, st)
      | Inr agent \<Rightarrow>
     (case check_mutation_cap (mt_counter st) (tx_request_id ctx) of
        (Inl e, m) \<Rightarrow> Some (Inl e, st\<lparr>mt_counter := m\<rparr>)
      | (Inr _, m) \<Rightarrow>
     (let st1 = st\<lparr>mt_counter := m\<rparr> in
      case memory_handle_parse (ui_handle inp) of
        Inl e \<Rightarrow> Some (Inl (InvalidInput (ce_show_parse env e)), st1)
      | Inr h \<Rightarrow>
     (case resolve_handle env (mt_db st) agent (tx_kind_payload ctx) h of
        None \<Rightarrow> None
      | Some (Inl e) \<Rightarrow> Some (Inl e, st1)
      | Some (Inr target) \<Rightarrow>
     (case memory_content_try_from (ui_content inp) of
        Inl e \<Rightarrow> Some (Inl (InvalidInput (ce_show_parse env e)), st1)
      | Inr content \<Rightarrow>
     (case apply_as (ce_embed env) (mt_db st) (ActingUser (tx_acting_user_id ctx)) now target event
             (MUpdate agent target content MsTentative (SrcTurn (tx_request_id ctx))) of
        None \<Rightarrow> None
      | Some (Inl e) \<Rightarrow> Some (Inl (store_to_tool_err (ce_show env) e), st1)
      | Some (Inr (outcome, db1)) \<Rightarrow>
     (case maybe_close_resolution env db1 ctx now (mo_event outcome) of
        (Inl e, db2) \<Rightarrow> Some (Inl e, st1\<lparr>mt_db := db2\<rparr>)
      | (Inr _, db2) \<Rightarrow>
          Some (Inr \<lparr>uo_memory = mo_memory outcome, uo_handle = memory_handle_show h,
                  uo_state = memory_state_as_str MsTentative\<rparr>, st1\<lparr>mt_db := db2\<rparr>)))))))))"

record memory_forget_output =
  fo_memory :: uuid
  fo_handle :: string
  fo_status :: string

definition memory_forget ::
  "(json \<Rightarrow> (string, string) result) \<Rightarrow> memory_tool_env \<Rightarrow> timestamp \<Rightarrow> uuid \<Rightarrow> tool_ctx \<Rightarrow> json
   \<Rightarrow> memory_tools \<Rightarrow> ((memory_forget_output, tool_error) result \<times> memory_tools) option" where
  "memory_forget parse env now event ctx input st =
     (case parse input of
        Inl e \<Rightarrow> Some (Inl (ToolJson e), st)
      | Inr raw \<Rightarrow>
     (case expect_agent ctx of
        Inl e \<Rightarrow> Some (Inl e, st)
      | Inr agent \<Rightarrow>
     (case check_mutation_cap (mt_counter st) (tx_request_id ctx) of
        (Inl e, m) \<Rightarrow> Some (Inl e, st\<lparr>mt_counter := m\<rparr>)
      | (Inr _, m) \<Rightarrow>
     (let st1 = st\<lparr>mt_counter := m\<rparr> in
      case memory_handle_parse raw of
        Inl e \<Rightarrow> Some (Inl (InvalidInput (ce_show_parse env e)), st1)
      | Inr h \<Rightarrow>
     (case resolve_handle env (mt_db st) agent (tx_kind_payload ctx) h of
        None \<Rightarrow> None
      | Some (Inl e) \<Rightarrow> Some (Inl e, st1)
      | Some (Inr target) \<Rightarrow>
     (case apply_as (ce_embed env) (mt_db st) (ActingUser (tx_acting_user_id ctx)) now target event
             (MForget agent target (SrcTurn (tx_request_id ctx))) of
        None \<Rightarrow> None
      | Some (Inl e) \<Rightarrow> Some (Inl (store_to_tool_err (ce_show env) e), st1)
      | Some (Inr (outcome, db1)) \<Rightarrow>
     (case maybe_close_resolution env db1 ctx now (mo_event outcome) of
        (Inl e, db2) \<Rightarrow> Some (Inl e, st1\<lparr>mt_db := db2\<rparr>)
      | (Inr _, db2) \<Rightarrow>
          Some (Inr \<lparr>fo_memory = mo_memory outcome, fo_handle = memory_handle_show h, fo_status = ''forgotten''\<rparr>,
                st1\<lparr>mt_db := db2\<rparr>))))))))"

record memory_validate_input =
  vi_handle :: string
  vi_evidence :: string

record memory_validate_output =
  vo_memory :: uuid
  vo_handle :: string
  vo_state :: string

definition memory_validate ::
  "(json \<Rightarrow> (memory_validate_input, string) result) \<Rightarrow> memory_tool_env \<Rightarrow> timestamp \<Rightarrow> uuid \<Rightarrow> uuid \<Rightarrow> tool_ctx \<Rightarrow> json
   \<Rightarrow> memory_tools \<Rightarrow> ((memory_validate_output, tool_error) result \<times> memory_tools) option" where
  "memory_validate parse env now validation event ctx input st =
     (case parse input of
        Inl e \<Rightarrow> Some (Inl (ToolJson e), st)
      | Inr inp \<Rightarrow>
     (case expect_agent ctx of
        Inl e \<Rightarrow> Some (Inl e, st)
      | Inr agent \<Rightarrow>
     (case check_mutation_cap (mt_counter st) (tx_request_id ctx) of
        (Inl e, m) \<Rightarrow> Some (Inl e, st\<lparr>mt_counter := m\<rparr>)
      | (Inr _, m) \<Rightarrow>
     (let st1 = st\<lparr>mt_counter := m\<rparr> in
      case memory_handle_parse (vi_handle inp) of
        Inl e \<Rightarrow> Some (Inl (InvalidInput (ce_show_parse env e)), st1)
      | Inr h \<Rightarrow>
     (case resolve_handle env (mt_db st) agent (tx_kind_payload ctx) h of
        None \<Rightarrow> None
      | Some (Inl e) \<Rightarrow> Some (Inl e, st1)
      | Some (Inr target) \<Rightarrow>
     (case memory_evidence_try_from (vi_evidence inp) of
        Inl e \<Rightarrow> Some (Inl (InvalidInput (ce_show_parse env e)), st1)
      | Inr evidence \<Rightarrow>
     (case record_validation_as (mt_db st) (ActingUser (tx_acting_user_id ctx)) now validation event agent target
             (VoAgent (tx_request_id ctx)) (Some evidence) of
        Inl e \<Rightarrow> Some (Inl (store_to_tool_err (ce_show env) e), st1)
      | Inr (row, db1) \<Rightarrow>
          Some (Inr \<lparr>vo_memory = mr_id row, vo_handle = memory_handle_show h,
                  vo_state = memory_state_as_str (mr_state row)\<rparr>, st1\<lparr>mt_db := db1\<rparr>))))))))"

section \<open>Recalling\<close>

record recall_input =
  ri_query :: string
  ri_kind :: "memory_kind option"
  ri_limit :: nat

record recall_item =
  rc_memory :: uuid
  rc_kind :: string
  rc_state :: string
  rc_content :: string
  rc_similarity :: real

text \<open>The limit has passed \<open>recall_limit_try_from\<close>; a failure of the access counters is only logged.\<close>

definition recall ::
  "(json \<Rightarrow> (recall_input, string) result) \<Rightarrow> memory_tool_env \<Rightarrow> timestamp \<Rightarrow> tool_ctx \<Rightarrow> json
   \<Rightarrow> memory_tools \<Rightarrow> ((recall_item list, tool_error) result \<times> memory_tools) option" where
  "recall parse env now ctx input st =
     (case (case parse input of
              Inl e \<Rightarrow> Inl e
            | Inr inp \<Rightarrow> (case recall_limit_try_from (ri_limit inp) of Inl e \<Rightarrow> Inl (ce_show_parse env e) | Inr _ \<Rightarrow> Inr inp)) of
        Inl e \<Rightarrow> Some (Inl (ToolJson e), st)
      | Inr inp \<Rightarrow>
     (case expect_agent ctx of
        Inl e \<Rightarrow> Some (Inl e, st)
      | Inr agent \<Rightarrow>
     (case counter_increment MAX_RECALL_CALLS_PER_TURN (mt_recalls st) (tx_request_id ctx) of
        (Inl _, m) \<Rightarrow> Some (Inl (InvalidInput (''recall call cap exceeded for this turn (max ''
              @ show_nat MAX_RECALL_CALLS_PER_TURN @ '' calls)'')), st\<lparr>mt_recalls := m\<rparr>)
      | (Inr _, m) \<Rightarrow>
     (let st1 = st\<lparr>mt_recalls := m\<rparr> in
      case ce_embed env (ri_query inp) of
        Inl e \<Rightarrow> Some (Inl (ToolBackend (''embedding query failed: '' @ e)), st1)
      | Inr query \<Rightarrow>
     (case search_by_embedding (ce_distance env) (ce_narrow env) (mt_db st) agent query (ri_limit inp)
             \<lparr>sf_kinds = map_option (\<lambda>k. [k]) (ri_kind inp), sf_min_state = None\<rparr> of
        Inl e \<Rightarrow> Some (Inl (store_to_tool_err (ce_show env) e), st1)
      | Inr results \<Rightarrow>
     (case record_access_as (mt_db st) (ActingUser (tx_acting_user_id ctx)) now (map (mr_id \<circ> fst) results) of
        None \<Rightarrow> None
      | Some db1 \<Rightarrow>
          Some (Inr (map (\<lambda>(r, s). \<lparr>rc_memory = mr_id r, rc_kind = memory_kind_as_str (mr_kind r),
                   rc_state = memory_state_as_str (mr_state r), rc_content = mr_content r, rc_similarity = s\<rparr>) results),
                st1\<lparr>mt_db := db1\<rparr>)))))))"

end
