(* ===== verification/Memory_Tool_Laws.thy ===== *)
theory Memory_Tool_Laws
  imports Memory_Tools Memory_Properties
begin

text \<open>
  What the memory tools can reach. Handles name the memories of the composed section, which outside
  a resolution turn are the pinned and the identity memories; the store refuses pinned ones.
\<close>

section \<open>Sections\<close>

lemma trim_loop_mem: "r \<in> set (trim_loop budget used rs) \<Longrightarrow> r \<in> set rs"
  by (induction rs arbitrary: used) (auto simp: Let_def split: if_splits)

lemma stable_layer_mem: "r \<in> set (select_stable_layer rows) \<Longrightarrow> r \<in> set rows \<and> stable_candidate r"
  by (auto simp: select_stable_layer_def trim_to_budget_def trust_order_def dest: trim_loop_mem)

lemma trim_loop_budget:
  "used \<le> budget \<Longrightarrow> used + sum_list (map (\<lambda>r. length (mr_content r) + RENDER_LINE_OVERHEAD_BYTES) (trim_loop budget used rs)) \<le> budget"
proof (induction rs arbitrary: used)
  case (Cons r rs)
  show ?case
  proof (cases "used + (length (mr_content r) + RENDER_LINE_OVERHEAD_BYTES) \<le> budget")
    case True
    then show ?thesis using Cons.IH [OF True] by (simp add: Let_def)
  qed (use Cons.prems in \<open>simp add: Let_def\<close>)
qed simp

lemma trim_to_budget_length: "length (trim_to_budget rows budget) * RENDER_LINE_OVERHEAD_BYTES \<le> budget"
proof -
  have "length rs * RENDER_LINE_OVERHEAD_BYTES
      \<le> sum_list (map (\<lambda>r. length (mr_content r) + RENDER_LINE_OVERHEAD_BYTES) rs)" for rs :: "memory_row list"
    by (induction rs) auto
  from le_trans [OF this] show ?thesis
    using trim_loop_budget [of 0 budget rows] unfolding trim_to_budget_def by simp
qed

lemma mint_handles_mem: "mint_handles reserved n rs = Some hs \<Longrightarrow> (h, r) \<in> set hs \<Longrightarrow> r \<in> set rs \<and> mr_id r \<notin> set reserved"
proof (induction rs arbitrary: n hs)
  case (Cons a rs)
  show ?case
  proof (cases "mr_id a \<in> set reserved")
    case True
    then show ?thesis using Cons.IH [of n hs] Cons.prems by simp
  next
    case False
    then obtain x hs' where "memory_handle_try_from n = Inr x" "mint_handles reserved (n + 1) rs = Some hs'" "hs = (x, a) # hs'"
      using Cons.prems(1) by (auto split: sum.splits option.splits)
    then show ?thesis using Cons.IH [of "n + 1" hs'] Cons.prems(2) False by auto
  qed
qed simp

lemma mint_handles_total:
  "1 \<le> n \<Longrightarrow> n + length rs \<le> Suc MEMORY_HANDLE_MAX \<Longrightarrow> \<exists>hs. mint_handles reserved n rs = Some hs"
proof (induction rs arbitrary: n)
  case (Cons a rs)
  have "memory_handle_try_from n = Inr n" using Cons.prems by (simp add: memory_handle_try_from_def)
  moreover obtain hs hs' where "mint_handles reserved n rs = Some hs" "mint_handles reserved (n + 1) rs = Some hs'"
    using Cons.IH [of n] Cons.IH [of "n + 1"] Cons.prems by fastforce
  ultimately show ?case by simp
qed simp

text \<open>The budgets keep the handles far below their cap: composing a section cannot panic.\<close>

lemma section_always_composes:
  assumes "length reserved \<le> 2"
  shows "\<exists>s. compose_memory_section rows contextual reserved subjects = Some s"
proof -
  have le: "length (trim_to_budget rs 4096) \<le> 128" for rs
    using trim_to_budget_length [of rs 4096] by (simp add: RENDER_LINE_OVERHEAD_BYTES_def)
  obtain hs n where b: "bind_reserved_handles 1 reserved = Some (hs, n)" "1 \<le> n" "n \<le> 3"
    using assms by (cases reserved rule: remdups_adj.cases)
      (auto simp: memory_handle_try_from_def MEMORY_HANDLE_MAX_def)
  let ?rest = "trim_to_budget (filter (\<lambda>r. mr_id r \<notin> mr_id ` set (select_stable_layer rows)) contextual) CONTEXTUAL_LAYER_MAX_BYTES"
  have "n + length (select_stable_layer rows @ ?rest) \<le> Suc MEMORY_HANDLE_MAX"
    using le [of "trust_order (filter stable_candidate rows)"]
      le [of "filter (\<lambda>r. mr_id r \<notin> mr_id ` set (select_stable_layer rows)) contextual"] b(3)
    by (simp add: select_stable_layer_def STABLE_LAYER_MAX_BYTES_def CONTEXTUAL_LAYER_MAX_BYTES_def MEMORY_HANDLE_MAX_def)
  then obtain minted where "mint_handles reserved n (select_stable_layer rows @ ?rest) = Some minted"
    using mint_handles_total [OF b(2)] by blast
  then show ?thesis
    using b(1) by (simp add: compose_memory_section_def render_memory_section_def Let_def)
qed

lemma decode_all_eq:
  "(\<And>x y. f x = Inr y \<Longrightarrow> y = x) \<Longrightarrow> decode_all f xs = Inr ys \<Longrightarrow> ys = xs"
  by (induction xs arbitrary: ys) (auto split: sum.splits)

lemma decoded_row: "decode_memory_row r = Inr x \<Longrightarrow> x = r"
  by (auto simp: decode_memory_row_def split: sum.splits)

lemma list_memories_mem:
  assumes "list_memories db agent = Some (Inr rows)" "r \<in> set rows"
  shows "r \<in> set (md_rows db) \<and> mr_agent r = agent"
proof -
  let ?all = "sort_key (\<lambda>r. (mr_created_at r, mr_id r)) (filter (\<lambda>r. mr_agent r = agent) (md_rows db))"
  have "decode_all decode_memory_row (take (MAX_MEMORIES_PER_AGENT + 1) ?all) = Inr rows"
    using assms(1) by (simp add: list_memories_def capped_rows_def Let_def split: if_split_asm del: take_all_iff)
  from decode_all_eq [OF decoded_row this] have "r \<in> set ?all" using assms(2) by (auto dest: in_set_takeD)
  then show ?thesis by simp
qed

section \<open>What a handle names\<close>

lemma plain_section_handle:
  assumes "compose_memory_section rows [] [] subjects = Some s" "resolve_section_handle s h = Some i"
  shows "\<exists>r \<in> set rows. mr_id r = i \<and> stable_candidate r"
proof -
  obtain minted where m: "mint_handles [] 1 (select_stable_layer rows) = Some minted"
      "sec_handles s = map (\<lambda>(h, r). (h, mr_id r)) minted"
    using assms(1) by (auto simp: compose_memory_section_def render_memory_section_def trim_to_budget_def Let_def split: option.splits)
  have "(h, i) \<in> set (sec_handles s)" using assms(2) by (auto simp: resolve_section_handle_def dest: map_of_SomeD)
  then obtain r where "(h, r) \<in> set minted" "mr_id r = i" using m(2) by auto
  then show ?thesis using mint_handles_mem [OF m(1)] stable_layer_mem by metis
qed

lemma loader_handle:
  assumes "loader_resolve_handle env db agent payload h = Some (Inr (Some i))" "contradiction_of payload = None"
  shows "\<exists>r \<in> set (md_rows db). mr_id r = i \<and> mr_agent r = agent \<and> stable_candidate r"
proof -
  obtain rows subjects s where *: "list_memories db agent = Some (Inr rows)"
      "compose_memory_section rows [] [] subjects = Some s" "resolve_section_handle s h = Some i"
    using assms by (auto simp: loader_resolve_handle_def load_stable_def resolve_reserved_pair_def split: option.splits sum.splits)
  show ?thesis using plain_section_handle [OF *(2,3)] list_memories_mem [OF *(1)] by blast
qed

lemma resolved_handle:
  assumes "resolve_handle env db agent payload h = Some (Inr i)" "contradiction_of payload = None"
  shows "\<exists>r \<in> set (md_rows db). mr_id r = i \<and> mr_agent r = agent \<and> stable_candidate r"
proof -
  have "loader_resolve_handle (section_env.truncate env) db agent payload h = Some (Inr (Some i))"
    using assms(1) by (auto simp: resolve_handle_def split: option.splits sum.splits)
  then show ?thesis by (rule loader_handle) (rule assms(2))
qed

section \<open>What the tools revise\<close>

text \<open>A call of one of the three revising tools that succeeds on \<open>target\<close>.\<close>

definition tool_revises :: "memory_tool_env \<Rightarrow> tool_ctx \<Rightarrow> memory_tools \<Rightarrow> uuid \<Rightarrow> bool" where
  "tool_revises env ctx st target \<longleftrightarrow>
     (\<exists>parse now event input out st'. memory_update parse env now event ctx input st = Some (Inr out, st') \<and> uo_memory out = target)
   \<or> (\<exists>parse now event input out st'. memory_forget parse env now event ctx input st = Some (Inr out, st') \<and> fo_memory out = target)
   \<or> (\<exists>parse now validation event input out st'.
        memory_validate parse env now validation event ctx input st = Some (Inr out, st') \<and> vo_memory out = target)"

lemma apply_update_lock:
  "apply_as embedder db actor now i event (MUpdate agent target content state source) = Some (Inr (out, db'))
   \<Longrightarrow> mo_memory out = target \<and> (\<exists>r. lock_existing db actor agent target source = Inr r)"
  by (auto simp: apply_as_def apply_update_def Let_def split: sum.splits)

lemma apply_forget_lock:
  "apply_as embedder db actor now i event (MForget agent target source) = Some (Inr (out, db'))
   \<Longrightarrow> mo_memory out = target \<and> (\<exists>r. lock_existing db actor agent target source = Inr r)"
  by (auto simp: apply_as_def apply_forget_def split: sum.splits)

lemma validation_lock:
  "record_validation_as db actor now validation event agent target origin detail = Inr (row, db')
   \<Longrightarrow> mr_id row = target \<and> (\<exists>r. lock_existing db actor agent target (origin_mutation_source origin) = Inr r)"
  by (auto simp: record_validation_as_def Let_def split: sum.splits option.splits if_splits dest: lock_existing_Inr(2))

lemma tool_revises_locks:
  assumes "tool_revises env ctx st target"
  obtains agent h r where "participant_agent (tx_viewer ctx) = Some agent"
    "resolve_handle env (mt_db st) agent (tx_kind_payload ctx) h = Some (Inr target)"
    "lock_existing (mt_db st) (ActingUser (tx_acting_user_id ctx)) agent target (SrcTurn (tx_request_id ctx)) = Inr r"
proof -
  consider (update) parse now event input out st' where
      "memory_update parse env now event ctx input st = Some (Inr out, st')" "uo_memory out = target"
    | (forget) parse now event input out st' where
      "memory_forget parse env now event ctx input st = Some (Inr out, st')" "fo_memory out = target"
    | (validate) parse now validation event input out st' where
      "memory_validate parse env now validation event ctx input st = Some (Inr out, st')" "vo_memory out = target"
    using assms unfolding tool_revises_def by metis
  then show thesis
  proof cases
    case update
    then show ?thesis
      by (auto simp: memory_update_def expect_agent_def ok_or_def Let_def
          split: sum.splits option.splits prod.splits dest!: apply_update_lock intro: that)
  next
    case forget
    then show ?thesis
      by (auto simp: memory_forget_def expect_agent_def ok_or_def Let_def
          split: sum.splits option.splits prod.splits dest!: apply_forget_lock intro: that)
  next
    case validate
    then show ?thesis
      by (auto simp: memory_validate_def expect_agent_def ok_or_def Let_def
          split: sum.splits option.splits prod.splits dest!: validation_lock intro: that)
  qed
qed

section \<open>The cap on mutations\<close>

text \<open>How many of the calls \<open>rs\<close> the counter accepts for \<open>request\<close>.\<close>

fun accepted :: "nat \<Rightarrow> (uuid \<times> nat) list \<Rightarrow> uuid \<Rightarrow> uuid list \<Rightarrow> nat" where
  "accepted cap m request [] = 0"
| "accepted cap m request (r # rs) =
     (case counter_increment cap m r of
        (Inl _, m') \<Rightarrow> accepted cap m' request rs
      | (Inr _, m') \<Rightarrow> (if r = request then 1 else 0) + accepted cap m' request rs)"

definition counted :: "(uuid \<times> nat) list \<Rightarrow> uuid \<Rightarrow> nat" where
  "counted m request = (case map_of m request of None \<Rightarrow> 0 | Some n \<Rightarrow> n)"

lemma counter_increment_room:
  assumes "length m < CALL_COUNTER_MAX_ENTRIES \<or> map_of m r \<noteq> None"
  shows "counter_increment cap m r =
    (if cap \<le> counted m r then (Inl cap, AList.update r (counted m r) m)
     else (Inr (counted m r + 1), AList.update r (counted m r + 1) m))"
  using assms by (auto simp: counter_increment_def counted_def Let_def)

lemma accepted_within_cap:
  assumes "distinct (map fst m)" "card (set (map fst m) \<union> set rs) \<le> CALL_COUNTER_MAX_ENTRIES" "counted m request \<le> cap"
  shows "counted m request + accepted cap m request rs \<le> cap"
  using assms
proof (induction rs arbitrary: m)
  case (Cons r rs)
  have room: "length m < CALL_COUNTER_MAX_ENTRIES \<or> map_of m r \<noteq> None"
  proof (rule ccontr)
    assume "\<not> ?thesis"
    then have "CALL_COUNTER_MAX_ENTRIES \<le> length m" "r \<notin> set (map fst m)" by (auto simp: map_of_eq_None_iff)
    then have "CALL_COUNTER_MAX_ENTRIES < card (insert r (set (map fst m)))"
      using distinct_card [OF Cons.prems(1)] by (simp del: set_map)
    also have "\<dots> \<le> card (set (map fst m) \<union> set (r # rs))" by (intro card_mono) auto
    finally show False using Cons.prems(2) by simp
  qed
  have next_run: "counted (AList.update r n m) request + accepted cap (AList.update r n m) request rs \<le> cap"
    if "counted (AList.update r n m) request \<le> cap" for n
  proof (rule Cons.IH [OF _ _ that])
    show "distinct (map fst (AList.update r n m))" using Cons.prems(1) by (rule distinct_update)
    have "set (map fst (AList.update r n m)) \<union> set rs = set (map fst m) \<union> set (r # rs)"
      using dom_update [of r n m] by auto
    then show "card (set (map fst (AList.update r n m)) \<union> set rs) \<le> CALL_COUNTER_MAX_ENTRIES"
      using Cons.prems(2) by (simp only:)
  qed
  have upd: "counted (AList.update r n m) request = (if r = request then n else counted m request)" for n
    by (simp add: counted_def update_conv')
  show ?case
  proof (cases "cap \<le> counted m r")
    case True
    then show ?thesis
      using next_run [of "counted m r"] counter_increment_room [OF room, of cap] Cons.prems(3) upd
      by (cases "r = request") simp_all
  next
    case False
    then show ?thesis
      using next_run [of "counted m r + 1"] counter_increment_room [OF room, of cap] Cons.prems(3) upd
      by (cases "r = request") simp_all
  qed
qed simp

text \<open>A turn makes at most eight mutations as long as no more than 1024 turns are counted.\<close>

lemma mutations_within_cap:
  "card (set rs) \<le> CALL_COUNTER_MAX_ENTRIES \<Longrightarrow> accepted MAX_MEMORY_MUTATIONS_PER_TURN [] request rs \<le> MAX_MEMORY_MUTATIONS_PER_TURN"
  using accepted_within_cap [of "[]" rs request MAX_MEMORY_MUTATIONS_PER_TURN] by (simp add: counted_def)

text \<open>The turn after the 1024th forgets all counts: a turn that had used its eight mutations gets eight more.\<close>

lemma full_counter_forgets_the_cap:
  assumes "CALL_COUNTER_MAX_ENTRIES \<le> length m" "map_of m request = Some MAX_MEMORY_MUTATIONS_PER_TURN" "map_of m other = None"
  shows "fst (check_mutation_cap m request) \<noteq> Inr ()"
    and "fst (check_mutation_cap (snd (check_mutation_cap m other)) request) = Inr ()"
  using assms by (auto simp: check_mutation_cap_def counter_increment_def MAX_MEMORY_MUTATIONS_PER_TURN_def
      CALL_COUNTER_MAX_ENTRIES_def Let_def)

section \<open>Outside a resolution turn\<close>

text \<open>
  C39. In a turn that does not resolve a contradiction the tools \<open>memory_update\<close>, \<open>memory_forget\<close> and
  \<open>memory_validate\<close> succeed on the agent's own unpinned memories about itself and on no other: what
  it wrote about others, collaborators, procedures or open questions it can neither correct nor forget.
\<close>

theorem agents_revise_only_their_identity:
  assumes "reach memory_seed (memory_step embedder) (mt_db st)" "tool_revises env ctx st target"
    and "contradiction_of (tx_kind_payload ctx) = None"
  shows "\<exists>r \<in> set (md_rows (mt_db st)). mr_id r = target \<and> participant_agent (tx_viewer ctx) = Some (mr_agent r)
           \<and> mr_kind r = MkIdentity \<and> \<not> mr_pinned r"
proof -
  have inv: "memory_inv (mt_db st)" using assms(1) by (rule memory.reach_inv)
  obtain agent h p where *: "participant_agent (tx_viewer ctx) = Some agent"
      "resolve_handle env (mt_db st) agent (tx_kind_payload ctx) h = Some (Inr target)"
      "lock_existing (mt_db st) (ActingUser (tx_acting_user_id ctx)) agent target (SrcTurn (tx_request_id ctx)) = Inr p"
    by (rule tool_revises_locks [OF assms(2)])
  obtain r where r: "r \<in> set (md_rows (mt_db st))" "mr_id r = target" "mr_agent r = agent" "stable_candidate r"
    using resolved_handle [OF *(2) assms(3)] by blast
  have "\<not> mr_pinned r" using locked_unpinned [OF inv *(3) _ r(1,2)] by simp
  then show ?thesis using r *(1) by (auto simp: stable_candidate_def)
qed

abbreviation sample_self :: memory_mutation where
  "sample_self \<equiv> MWrite 1 MkIdentity ''tea at 4'' MsTentative False None (SrcTurn 3)"

definition sample_self_db :: memory_db where
  "sample_self_db = sample_memory\<lparr>
     md_rows := [fresh_row 20 1 7 ''tea at 4'' MkIdentity MsTentative False None (Some 3) 100 (Some [1])],
     md_events := [event_row 30 1 7 20 (SrcTurn 3) 100 (PlWrite ''tea at 4'' MkIdentity MsTentative False None)]\<rparr>"

lemma sample_self_run:
  "apply_as (\<lambda>_. Inr [1]) sample_memory (ActingUser 9) 100 20 30 sample_self
     = Some (Inr (\<lparr>mo_event = 30, mo_memory = 20, mo_row = Some (hd (md_rows sample_self_db))\<rparr>, sample_self_db))"
  by (simp add: apply_as_def apply_write_def insert_event_def event_row_def agent_org_def memory_sees_def sample_memory_def
      sample_self_db_def Let_def)

lemma sample_self_reach: "reach memory_seed (memory_step (\<lambda>_. Inr [1])) sample_self_db"
proof (rule reach_step)
  show "reach memory_seed (memory_step (\<lambda>_. Inr [1])) sample_memory"
    by (rule reach_init) (simp add: memory_seed_def sample_memory_def)
  show "memory_step (\<lambda>_. Inr [1]) sample_memory
      (CallFor (mutation_agent sample_self) (mutation_source_of sample_self)) sample_self_db"
    by (rule mem_mutate [OF _ _ _ sample_self_run])
       (simp_all add: stamped_def unused_def sample_memory_def sample_content)
qed

definition sample_tools :: memory_tools where
  "sample_tools = \<lparr>mt_counter = [], mt_recalls = [], mt_db = sample_self_db\<rparr>"

definition sample_tool_env :: memory_tool_env where
  "sample_tool_env = \<lparr>ce_roster = (\<lambda>_. Inr []), ce_show = (\<lambda>_. []), ce_show_parse = (\<lambda>_. []), ce_show_memory = (\<lambda>_. []),
     ce_embed = (\<lambda>_. Inr [1]), ce_distance = (\<lambda>v w. 0), ce_narrow = (\<lambda>x. x)\<rparr>"

definition sample_tool_ctx :: tool_ctx where
  "sample_tool_ctx = \<lparr>tx_claim_key = 40, tx_thread_id = None, tx_state_id = None, tx_viewer = PAgent 5 1, tx_root_request_id = 41,
     tx_request_id = 42, tx_kind_payload = PNormal, tx_acting_user_id = 9, tx_org_id = 7\<rparr>"

lemma sample_handle:
  shows "memory_handle_try_from 1 = Inr 1" and "memory_handle_show 1 = ''M-1''" and "memory_handle_parse ''M-1'' = Inr 1"
proof -
  show "memory_handle_try_from 1 = Inr 1" by (simp add: memory_handle_try_from_def MEMORY_HANDLE_MAX_def)
  have "show_nat 1 = ''1''" by (subst show_nat.simps) (simp add: digit_char_def)
  then show "memory_handle_show 1 = ''M-1''" by (simp add: memory_handle_show_def)
  then show "memory_handle_parse ''M-1'' = Inr 1"
    using memory_handle_round_trip [OF \<open>memory_handle_try_from 1 = Inr 1\<close>] by metis
qed

lemma sample_loaded:
  "list_memories sample_self_db 1 = Some (Inr (md_rows sample_self_db))"
  "hydrate_subjects f (md_rows sample_self_db) = Inr Map.empty"
  by (simp_all add: list_memories_def capped_rows_def MAX_MEMORIES_PER_AGENT_def decode_memory_row_def hydrate_subjects_def
      sample_self_db_def fresh_row_def)

lemma sample_resolved: "resolve_handle sample_tool_env sample_self_db 1 PNormal 1 = Some (Inr 20)"
  using sample_loaded sample_handle(1) [unfolded One_nat_def]
  by (simp add: resolve_handle_def loader_resolve_handle_def load_stable_def contradiction_of_def resolve_reserved_pair_def
      compose_memory_section_def render_memory_section_def resolve_section_handle_def select_stable_layer_def trust_order_def
      trim_to_budget_def stable_candidate_def RENDER_LINE_OVERHEAD_BYTES_def STABLE_LAYER_MAX_BYTES_def sample_self_db_def
      fresh_row_def Let_def section_env.defs sample_tool_env_def)

lemma sample_forget_call:
  "\<exists>st'. memory_forget (\<lambda>_. Inr ''M-1'') sample_tool_env 101 31 sample_tool_ctx input sample_tools
     = Some (Inr \<lparr>fo_memory = 20, fo_handle = ''M-1'', fo_status = ''forgotten''\<rparr>, st')"
  using sample_resolved sample_handle
  by (simp add: memory_forget_def expect_agent_def check_mutation_cap_def counter_increment_def sample_tool_ctx_def sample_tools_def
      MAX_MEMORY_MUTATIONS_PER_TURN_def CALL_COUNTER_MAX_ENTRIES_def Let_def apply_as_def apply_forget_def lock_existing_def
      insert_event_def agent_org_def memory_sees_def decode_memory_row_def maybe_close_resolution_def sample_memory_def
      fresh_row_def sample_self_db_def event_row_def)

theorem agents_revise_only_their_identity_witness:
  "tool_revises sample_tool_env sample_tool_ctx sample_tools 20
    \<and> (\<exists>r \<in> set (md_rows sample_self_db). mr_id r = 20 \<and> mr_kind r = MkIdentity)"
proof -
  have *: "tool_revises sample_tool_env sample_tool_ctx sample_tools 20"
    using sample_forget_call [of undefined] unfolding tool_revises_def
    by (metis memory_forget_output.select_convs(1))
  have db: "mt_db sample_tools = sample_self_db" by (simp add: sample_tools_def)
  have "contradiction_of (tx_kind_payload sample_tool_ctx) = None" by (simp add: contradiction_of_def sample_tool_ctx_def)
  from agents_revise_only_their_identity [OF _ * this, unfolded db, OF sample_self_reach] * show ?thesis by blast
qed

end
