(* ===== verification/Profiles.thy ===== *)
theory Profiles
  imports Thread_Reads Toolbox Memory_Store
begin

text \<open>
  The profile board of an organisation (\<open>colleagues/profile/\<close>) with its two tools
  (\<open>tools/system/profile_write.rs\<close>, \<open>search_colleague.rs\<close>), and the participants block a prompt shows.
  Embeddings and their distance are arguments.
\<close>

section \<open>Values\<close>

definition MAX_ROLE :: nat where "MAX_ROLE = 200"
definition MAX_EXPERTISE :: nat where "MAX_EXPERTISE = 2048"
definition MAX_PREFERENCES :: nat where "MAX_PREFERENCES = 2048"
definition MAX_PROFILE_TEXT :: nat where "MAX_PROFILE_TEXT = 5120"
definition MAX_PROFILE_FETCH :: nat where "MAX_PROFILE_FETCH = 256"
definition PROFILE_SNIPPET_LEN :: nat where "PROFILE_SNIPPET_LEN = 160"
definition MAX_NOTES_PER_PARTICIPANT :: nat where "MAX_NOTES_PER_PARTICIPANT = 3"
definition SEARCH_COLLEAGUE_K :: nat where "SEARCH_COLLEAGUE_K = 8"

definition bounded_str :: "string \<Rightarrow> nat \<Rightarrow> string \<Rightarrow> (string, parse_error) result" where
  "bounded_str field cap raw =
     (if trim raw = [] then Inl (Empty field)
      else if length raw > cap then Inl (TooLong field cap (length raw))
      else Inr raw)"

definition role_try_from :: "string \<Rightarrow> (string, parse_error) result" where
  "role_try_from = bounded_str ''role'' MAX_ROLE"

definition expertise_try_from :: "string \<Rightarrow> (string, parse_error) result" where
  "expertise_try_from = bounded_str ''expertise'' MAX_EXPERTISE"

definition preferences_try_from :: "string \<Rightarrow> (string, parse_error) result" where
  "preferences_try_from = bounded_str ''preferences'' MAX_PREFERENCES"

definition profile_text_try_from :: "string \<Rightarrow> (string, parse_error) result" where
  "profile_text_try_from = bounded_str ''profile_text'' MAX_PROFILE_TEXT"

record colleague_profile =
  cp_colleague :: uuid
  cp_role :: "string option"
  cp_expertise :: "string option"
  cp_preferences :: "string option"
  cp_updated_by :: "uuid option"

definition labelled :: "string \<Rightarrow> string option \<Rightarrow> string list" where
  "labelled label v = (case v of None \<Rightarrow> [] | Some s \<Rightarrow> [label @ '': '' @ s])"

definition compose_profile_text :: "colleague_profile \<Rightarrow> (string, parse_error) result" where
  "compose_profile_text p =
     profile_text_try_from (join_str newline
       (labelled ''Role'' (cp_role p) @ labelled ''Expertise'' (cp_expertise p) @ labelled ''Prefers'' (cp_preferences p)))"

datatype profile_error =
    ProfileNotFound uuid
  | ProfileSubjectNotInOrg uuid
  | ProfileParse parse_error
  | ProfileEmbed string
  | ProfileDb db_error

section \<open>The store\<close>

record profile_row =
  pf_colleague :: uuid
  pf_org :: uuid
  pf_role :: "string option"
  pf_expertise :: "string option"
  pf_preferences :: "string option"
  pf_text :: string
  pf_embedding :: "embedding option"
  pf_updated_by :: "uuid option"
  pf_created_at :: timestamp
  pf_updated_at :: timestamp

text \<open>With the directory, and the description of each agent with its vector.\<close>

record profile_db =
  pd_rows :: "profile_row list"
  pd_directory :: directory
  pd_cards :: "uuid \<rightharpoonup> string \<times> embedding option"

definition stored_profile :: "profile_db \<Rightarrow> uuid \<Rightarrow> profile_row option" where
  "stored_profile db i = find (\<lambda>r. pf_colleague r = i) (pd_rows db)"

text \<open>The first transaction: whether the subject is of the organisation, and whether its vector can stay.\<close>

definition pre_upsert :: "profile_db \<Rightarrow> uuid \<Rightarrow> uuid \<Rightarrow> bool \<times> string option \<times> bool option" where
  "pre_upsert db org subject =
     (\<exists>r \<in> set (dr_rows (pd_directory db)). dy_id r = subject \<and> dy_org r = org,
      map_option pf_text (stored_profile db subject),
      map_option (\<lambda>r. pf_embedding r \<noteq> None) (stored_profile db subject))"

text \<open>The second: \<open>ON CONFLICT\<close> replaces every field, and keeps the vector where none is given.\<close>

definition upsert_row ::
  "profile_db \<Rightarrow> uuid \<Rightarrow> colleague_profile \<Rightarrow> string \<Rightarrow> embedding option \<Rightarrow> timestamp \<Rightarrow> profile_db" where
  "upsert_row db org p ptext emb now =
     (let row = \<lparr>pf_colleague = cp_colleague p, pf_org = org, pf_role = cp_role p, pf_expertise = cp_expertise p,
            pf_preferences = cp_preferences p, pf_text = ptext, pf_embedding = emb, pf_updated_by = cp_updated_by p,
            pf_created_at = now, pf_updated_at = now\<rparr> in
      if stored_profile db (cp_colleague p) = None then db\<lparr>pd_rows := pd_rows db @ [row]\<rparr>
      else db\<lparr>pd_rows := update_where (\<lambda>r. pf_colleague r = cp_colleague p)
             (\<lambda>r. row\<lparr>pf_embedding := (case emb of None \<Rightarrow> pf_embedding r | Some v \<Rightarrow> Some v), pf_created_at := pf_created_at r\<rparr>)
             (pd_rows db)\<rparr>)"

definition upsert_profile ::
  "(string \<Rightarrow> (embedding, string) result) \<Rightarrow> profile_db \<Rightarrow> timestamp \<Rightarrow> uuid \<Rightarrow> colleague_profile
   \<Rightarrow> (profile_db, profile_error) result" where
  "upsert_profile embedder db now org p =
     (case compose_profile_text p of
        Inl e \<Rightarrow> Inl (ProfileParse e)
      | Inr ptext \<Rightarrow>
     (case pre_upsert db org (cp_colleague p) of (in_org, existing_text, has_emb) \<Rightarrow>
        if \<not> in_org then Inl (ProfileSubjectNotInOrg (cp_colleague p))
        else if has_emb = Some True \<and> existing_text = Some ptext then Inr (upsert_row db org p ptext None now)
        else (case embedder ptext of
            Inl e \<Rightarrow> Inl (ProfileEmbed e)
          | Inr v \<Rightarrow> Inr (upsert_row db org p ptext (Some v) now))))"

definition parse_field :: "(string \<Rightarrow> (string, parse_error) result) \<Rightarrow> string option \<Rightarrow> (string option, parse_error) result" where
  "parse_field f v = (case v of None \<Rightarrow> Inr None | Some s \<Rightarrow> map_sum id Some (f s))"

definition profile_of_row :: "profile_row \<Rightarrow> (colleague_profile, profile_error) result" where
  "profile_of_row r =
     (case parse_field role_try_from (pf_role r) of
        Inl e \<Rightarrow> Inl (ProfileParse e)
      | Inr ro \<Rightarrow>
     (case parse_field expertise_try_from (pf_expertise r) of
        Inl e \<Rightarrow> Inl (ProfileParse e)
      | Inr ex \<Rightarrow>
     (case parse_field preferences_try_from (pf_preferences r) of
        Inl e \<Rightarrow> Inl (ProfileParse e)
      | Inr pr \<Rightarrow> Inr \<lparr>cp_colleague = pf_colleague r, cp_role = ro, cp_expertise = ex, cp_preferences = pr,
                    cp_updated_by = pf_updated_by r\<rparr>)))"

definition get_many :: "profile_db \<Rightarrow> uuid list \<Rightarrow> (uuid \<rightharpoonup> colleague_profile, profile_error) result" where
  "get_many db ids =
     (case collect_results (map profile_of_row (filter (\<lambda>r. pf_colleague r \<in> set (take MAX_PROFILE_FETCH ids)) (pd_rows db))) of
        Inl e \<Rightarrow> Inl e
      | Inr ps \<Rightarrow> Inr (map_of (map (\<lambda>p. (cp_colleague p, p)) ps)))"

section \<open>Search\<close>

record colleague_match =
  cmt_colleague :: uuid
  cmt_kind :: colleague_kind
  cmt_name :: string
  cmt_snippet :: string

definition org_of_viewer :: "directory \<Rightarrow> uuid \<Rightarrow> uuid option" where
  "org_of_viewer dir viewer = map_option dy_org (find (\<lambda>r. dy_id r = viewer) (dr_rows dir))"

text \<open>The rows of the two halves: distance, colleague, kind, name (\<open>None\<close> is \<open>NULL\<close>) and excerpt.\<close>

definition agent_hits ::
  "(embedding \<Rightarrow> embedding \<Rightarrow> real) \<Rightarrow> profile_db \<Rightarrow> embedding \<Rightarrow> uuid \<Rightarrow> (real \<times> uuid \<times> colleague_kind \<times> string option \<times> string) list" where
  "agent_hits distance db query viewer =
     concat (map (\<lambda>c. case Option.bind (dy_agent c) (pd_cards db) of
         Some (description, Some v) \<Rightarrow>
           if dy_id c \<noteq> viewer \<and> org_of_viewer (pd_directory db) viewer = Some (dy_org c)
           then [(distance v query, dy_id c, CkAgent, Option.bind (dy_agent c) (dr_agents (pd_directory db)),
                  take_chars PROFILE_SNIPPET_LEN description)]
           else []
       | _ \<Rightarrow> []) (dr_rows (pd_directory db)))"

definition user_name :: "directory \<Rightarrow> directory_row \<Rightarrow> string option" where
  "user_name dir c =
     (case Option.bind (dy_user c) (dr_users dir) of
        None \<Rightarrow> None
      | Some (Some n, _) \<Rightarrow> Some n
      | Some (None, email) \<Rightarrow> Some (takeWhile (\<lambda>x. x \<noteq> CHR ''@'') email))"

definition profile_hits ::
  "(embedding \<Rightarrow> embedding \<Rightarrow> real) \<Rightarrow> profile_db \<Rightarrow> embedding \<Rightarrow> uuid \<Rightarrow> (real \<times> uuid \<times> colleague_kind \<times> string option \<times> string) list" where
  "profile_hits distance db query viewer =
     concat (map (\<lambda>p. case (pf_embedding p, find (\<lambda>c. dy_id c = pf_colleague p) (dr_rows (pd_directory db))) of
         (Some v, Some c) \<Rightarrow>
           if pf_colleague p \<noteq> viewer \<and> org_of_viewer (pd_directory db) viewer = Some (pf_org p)
           then [(distance v query, pf_colleague p, CkHuman, user_name (pd_directory db) c,
                  take_chars PROFILE_SNIPPET_LEN (pf_text p))]
           else []
       | _ \<Rightarrow> []) (pd_rows db))"

text \<open>The rows are decoded as a whole, where a \<open>NULL\<close> name fails, and then one by one.\<close>

definition search_colleagues ::
  "(embedding \<Rightarrow> embedding \<Rightarrow> real) \<Rightarrow> profile_db \<Rightarrow> embedding \<Rightarrow> uuid \<Rightarrow> nat \<Rightarrow> (colleague_match list, profile_error) result" where
  "search_colleagues distance db query viewer k =
     (if query = [] \<or> k = 0 then Inr []
      else let rows = take k (sort_key fst (agent_hits distance db query viewer @ profile_hits distance db query viewer)) in
        if list_ex (\<lambda>(_, _, _, name, _). name = None) rows then Inl (ProfileDb ColumnDecode)
        else collect_results (map (\<lambda>(_, i, knd, name, snippet).
            case colleague_name_try_from (the name) of
              Inl e \<Rightarrow> Inl (ProfileParse e)
            | Inr n \<Rightarrow> Inr \<lparr>cmt_colleague = i, cmt_kind = knd, cmt_name = n, cmt_snippet = snippet\<rparr>) rows))"

section \<open>The tools\<close>

record profile_write_input =
  pw_subject :: uuid
  pw_role :: "string option"
  pw_expertise :: "string option"
  pw_preferences :: "string option"

fun profile_err_to_tool :: "(profile_error \<Rightarrow> string) \<Rightarrow> profile_error \<Rightarrow> tool_error" where
  "profile_err_to_tool show (ProfileSubjectNotInOrg i) = InvalidInput (show (ProfileSubjectNotInOrg i))"
| "profile_err_to_tool show (ProfileParse p) = InvalidInput (show (ProfileParse p))"
| "profile_err_to_tool show e = ToolBackend (show e)"

text \<open>The answer is the subject, with a constant note. \<open>parse\<close> is \<open>serde_json\<close>.\<close>

definition profile_write ::
  "(json \<Rightarrow> (profile_write_input, string) result) \<Rightarrow> (parse_error \<Rightarrow> string) \<Rightarrow> (profile_error \<Rightarrow> string)
   \<Rightarrow> (string \<Rightarrow> (embedding, string) result) \<Rightarrow> timestamp \<Rightarrow> tool_ctx \<Rightarrow> json \<Rightarrow> profile_db
   \<Rightarrow> (uuid, tool_error) result \<times> profile_db" where
  "profile_write parse show_parse show embedder now ctx input db =
     (case parse input of
        Inl e \<Rightarrow> (Inl (ToolJson e), db)
      | Inr inp \<Rightarrow>
     (if participant_agent (tx_viewer ctx) = None then (Inl (InvalidInput ''profile_write must be called by an agent''), db)
      else case parse_field role_try_from (pw_role inp) of
        Inl e \<Rightarrow> (Inl (InvalidInput (show_parse e)), db)
      | Inr ro \<Rightarrow>
     (case parse_field expertise_try_from (pw_expertise inp) of
        Inl e \<Rightarrow> (Inl (InvalidInput (show_parse e)), db)
      | Inr ex \<Rightarrow>
     (case parse_field preferences_try_from (pw_preferences inp) of
        Inl e \<Rightarrow> (Inl (InvalidInput (show_parse e)), db)
      | Inr pr \<Rightarrow>
          if ro = None \<and> ex = None \<and> pr = None
          then (Inl (InvalidInput ''profile_write needs at least one of role, expertise, or preferences''), db)
          else (case upsert_profile embedder db now (tx_org_id ctx)
                   \<lparr>cp_colleague = pw_subject inp, cp_role = ro, cp_expertise = ex, cp_preferences = pr,
                    cp_updated_by = participant_colleague (tx_viewer ctx)\<rparr> of
              Inl e \<Rightarrow> (Inl (profile_err_to_tool show e), db)
            | Inr db' \<Rightarrow> (Inr (pw_subject inp), db'))))))"

definition search_colleague_limit_try_from :: "nat \<Rightarrow> (nat, parse_error) result" where
  "search_colleague_limit_try_from n =
     (if n = 0 \<or> n > SEARCH_COLLEAGUE_K then Inl (OutOfRange ''search_colleague_limit'' ''1..=SEARCH_COLLEAGUE_K'') else Inr n)"

definition search_colleague ::
  "(json \<Rightarrow> (string \<times> nat, string) result) \<Rightarrow> (parse_error \<Rightarrow> string) \<Rightarrow> (profile_error \<Rightarrow> string)
   \<Rightarrow> (string \<Rightarrow> (embedding, string) result) \<Rightarrow> (embedding \<Rightarrow> embedding \<Rightarrow> real) \<Rightarrow> profile_db \<Rightarrow> tool_ctx \<Rightarrow> json
   \<Rightarrow> (colleague_match list, tool_error) result" where
  "search_colleague parse show_parse show embedder distance db ctx input =
     (case (case parse input of
              Inl e \<Rightarrow> Inl e
            | Inr (q, n) \<Rightarrow> (case search_colleague_limit_try_from n of Inl e \<Rightarrow> Inl (show_parse e) | Inr k \<Rightarrow> Inr (q, k))) of
        Inl e \<Rightarrow> Inl (ToolJson e)
      | Inr (q, k) \<Rightarrow>
     (case participant_colleague (tx_viewer ctx) of
        None \<Rightarrow> Inl (ToolBackend ''search_colleague invoked with non-colleague viewer'')
      | Some viewer \<Rightarrow>
     (case embedder q of
        Inl e \<Rightarrow> Inl (ToolBackend (''embedding query failed: '' @ e))
      | Inr v \<Rightarrow>
     (case search_colleagues distance db v viewer k of
        Inl e \<Rightarrow> Inl (ToolBackend (''search_colleague store: '' @ show e))
      | Inr cards \<Rightarrow> Inr cards))))"

section \<open>The participants block\<close>

definition PARTICIPANTS_TAG_OPEN :: string where "PARTICIPANTS_TAG_OPEN = ''<participants>'' @ newline"
definition PARTICIPANTS_TAG_CLOSE :: string where "PARTICIPANTS_TAG_CLOSE = newline @ ''</participants>''"

definition cap_to_snippet :: "string \<Rightarrow> string" where
  "cap_to_snippet s = truncate_to_char_boundary s PROFILE_SNIPPET_LEN"

definition notes_from_ordered :: "string list \<Rightarrow> string list" where
  "notes_from_ordered notes = map cap_to_snippet (take MAX_NOTES_PER_PARTICIPANT notes)"

record participant_line =
  pl_name :: string
  pl_kind :: colleague_kind
  pl_snippet :: "string option"
  pl_notes :: "string list"
  pl_raised :: bool

definition present :: "'a option \<Rightarrow> 'a list" where
  "present v = (case v of None \<Rightarrow> [] | Some x \<Rightarrow> [x])"

definition profile_snippet :: "colleague_profile \<Rightarrow> string option" where
  "profile_snippet p =
     (let parts = present (cp_role p) @ present (cp_expertise p) @ present (cp_preferences p) in
      if parts = [] then None else Some (cap_to_snippet (join_str ''; '' parts)))"

definition bullet_bytes :: string where "bullet_bytes = bytes [226, 128, 162]"

definition render_participant :: "participant_line \<Rightarrow> string" where
  "render_participant l =
     newline @ ''- '' @ pl_name l @ '' ('' @ colleague_kind_as_str (pl_kind l) @ '')''
     @ (case pl_snippet l of None \<Rightarrow> [] | Some s \<Rightarrow> '' '' @ em_dash_bytes @ '' '' @ s)
     @ (if pl_raised l then '' '' @ em_dash_bytes @ '' raised this thread'' else [])
     @ concat (map (\<lambda>n. newline @ ''  '' @ bullet_bytes @ '' (you noted) '' @ n) (pl_notes l))"

definition render_participants_block :: "participant_line list \<Rightarrow> string" where
  "render_participants_block entries =
     (if entries = [] then []
      else PARTICIPANTS_TAG_OPEN
        @ (case find pl_raised entries of
             Some l \<Rightarrow> ''People in this conversation. This thread was raised by '' @ pl_name l @ ''.''
           | None \<Rightarrow> ''People in this conversation.'')
        @ concat (map render_participant (take MAX_PARTICIPANTS_INLINE entries))
        @ PARTICIPANTS_TAG_CLOSE)"

end
