(* ===== verification/Profile_Laws.thy ===== *)
theory Profile_Laws
  imports Profiles
begin

text \<open>
  What holds of the profile board: a profile fits its bounds, its vector is that of its text, a
  write replaces the fields it leaves out, and one profile of an agent breaks the search.
\<close>

section \<open>Values\<close>

lemma bounded_str_Inr: "bounded_str field cap raw = Inr s \<longleftrightarrow> s = raw \<and> trim raw \<noteq> [] \<and> length raw \<le> cap"
  by (auto simp: bounded_str_def)

lemma parse_field_Inr:
  assumes "parse_field (bounded_str field cap) v = Inr w"
  shows "w = v" and "case v of None \<Rightarrow> True | Some s \<Rightarrow> trim s \<noteq> [] \<and> length s \<le> cap"
  using assms by (auto simp: parse_field_def map_sum_def bounded_str_Inr split: option.splits sum.splits)

text \<open>What the constructors of the fields guarantee of a profile.\<close>

definition profile_ok :: "colleague_profile \<Rightarrow> bool" where
  "profile_ok p \<longleftrightarrow> (\<forall>s. cp_role p = Some s \<longrightarrow> trim s \<noteq> [] \<and> length s \<le> MAX_ROLE)
     \<and> (\<forall>s. cp_expertise p = Some s \<longrightarrow> trim s \<noteq> [] \<and> length s \<le> MAX_EXPERTISE)
     \<and> (\<forall>s. cp_preferences p = Some s \<longrightarrow> trim s \<noteq> [] \<and> length s \<le> MAX_PREFERENCES)"

lemma labelled_parts:
  "labelled label None = []" "labelled label (Some s) = [label @ '': '' @ s]"
  by (simp_all add: labelled_def)

lemma trim_visible:
  assumes "utf8_chars s = x # xs" "\<not> is_white_space x" "x \<noteq> []"
  shows "trim s \<noteq> []"
proof -
  have *: "dropWhile is_white_space (utf8_chars s) = x # xs" using assms by simp
  have "x \<in> set (trimmed_chars s)"
    unfolding trimmed_chars_def * by (induction xs rule: rev_induct) (use assms(2) in \<open>auto simp: dropWhile_append\<close>)
  then show ?thesis using assms(3) by (auto simp: trim_eq)
qed

lemma trim_head: "\<not> is_white_space [c] \<Longrightarrow> \<not> is_cont d \<Longrightarrow> trim (c # d # s) \<noteq> []"
  by (rule trim_visible [of _ "[c]" "utf8_chars (d # s)"]) (simp_all del: utf8_chars.simps(2) add: utf8_chars.simps(2) [of c])

lemma trim_label:
  "trim (''Role: '' @ s) \<noteq> []" "trim (''Expertise: '' @ s) \<noteq> []" "trim (''Prefers: '' @ s) \<noteq> []"
proof -
  have "\<not> is_white_space ''R''" "\<not> is_white_space ''E''" "\<not> is_white_space ''P''"
    "\<not> is_cont CHR ''o''" "\<not> is_cont CHR ''x''" "\<not> is_cont CHR ''r''"
    by code_simp+
  then show "trim (''Role: '' @ s) \<noteq> []" "trim (''Expertise: '' @ s) \<noteq> []" "trim (''Prefers: '' @ s) \<noteq> []"
    by (simp_all add: trim_head)
qed

text \<open>A profile with a field always has its text: the bounds of the fields fit the bound of the text.\<close>

lemma compose_total:
  assumes ok: "profile_ok p" and some: "cp_role p \<noteq> None \<or> cp_expertise p \<noteq> None \<or> cp_preferences p \<noteq> None"
  shows "\<exists>t. compose_profile_text p = Inr t"
proof -
  let ?parts = "labelled ''Role'' (cp_role p) @ labelled ''Expertise'' (cp_expertise p) @ labelled ''Prefers'' (cp_preferences p)"
  have "trim (join_str newline ?parts) \<noteq> []"
    using some trim_label by (auto simp: labelled_def split: option.splits)
  moreover have "length (join_str newline ?parts) \<le> MAX_PROFILE_TEXT"
    using ok by (auto simp: labelled_def profile_ok_def newline_def MAX_PROFILE_TEXT_def MAX_ROLE_def MAX_EXPERTISE_def
        MAX_PREFERENCES_def split: option.splits)
  ultimately show ?thesis by (auto simp: compose_profile_text_def profile_text_try_from_def bounded_str_def)
qed

section \<open>What a write leaves\<close>

lemma stored_append: "stored_profile db i = None \<Longrightarrow> pf_colleague row = i \<Longrightarrow> stored_profile (db\<lparr>pd_rows := pd_rows db @ [row]\<rparr>) i = Some row"
  by (auto simp: stored_profile_def find_append)

lemma stored_update:
  assumes "stored_profile db i = Some r" "\<And>x. pf_colleague x = i \<Longrightarrow> pf_colleague (f x) = i"
  shows "stored_profile (db\<lparr>pd_rows := update_where (\<lambda>r. pf_colleague r = i) f (pd_rows db)\<rparr>) i = Some (f r)"
proof -
  have "pf_colleague r = i" using assms(1) by (auto simp: stored_profile_def dest: find_Some_mem)
  then show ?thesis
    using assms find_update_where [of "\<lambda>r. pf_colleague r = i" pf_colleague f i "pd_rows db"]
    by (simp add: stored_profile_def)
qed

text \<open>A write stores its own fields, those it leaves out as absent, and leaves every other profile.\<close>

lemma upsert_row_stored:
  "\<exists>r. stored_profile (upsert_row db org p t emb now) (cp_colleague p) = Some r
     \<and> pf_colleague r = cp_colleague p \<and> pf_org r = org \<and> pf_role r = cp_role p \<and> pf_expertise r = cp_expertise p
     \<and> pf_preferences r = cp_preferences p \<and> pf_text r = t
     \<and> pf_embedding r = (case emb of Some v \<Rightarrow> Some v | None \<Rightarrow> Option.bind (stored_profile db (cp_colleague p)) pf_embedding)"
proof (cases "stored_profile db (cp_colleague p)")
  case None
  then show ?thesis by (auto simp: upsert_row_def Let_def stored_append split: option.splits)
next
  case (Some r)
  then show ?thesis by (auto simp: upsert_row_def Let_def stored_update split: option.splits)
qed

text \<open>What a successful upsert leaves, whether or not the vector is reused.\<close>

lemma upsert_profileE:
  assumes "upsert_profile embedder db now org p = Inr db'"
  obtains t emb where "compose_profile_text p = Inr t" "db' = upsert_row db org p t emb now"
    and "emb = None \<Longrightarrow> \<exists>r. stored_profile db (cp_colleague p) = Some r \<and> pf_text r = t \<and> pf_embedding r \<noteq> None"
    and "\<And>v. emb = Some v \<Longrightarrow> embedder t = Inr v"
    and "\<exists>r \<in> set (dr_rows (pd_directory db)). dy_id r = cp_colleague p \<and> dy_org r = org"
  using assms unfolding upsert_profile_def pre_upsert_def
  by (auto split: sum.splits if_splits intro: that)

lemma upsert_stored:
  assumes "upsert_profile embedder db now org p = Inr db'"
  shows "\<exists>r. stored_profile db' (cp_colleague p) = Some r \<and> pf_org r = org \<and> pf_role r = cp_role p
    \<and> pf_expertise r = cp_expertise p \<and> pf_preferences r = cp_preferences p \<and> pf_embedding r \<noteq> None"
proof -
  obtain t emb where *: "db' = upsert_row db org p t emb now"
      "emb = None \<Longrightarrow> \<exists>r. stored_profile db (cp_colleague p) = Some r \<and> pf_text r = t \<and> pf_embedding r \<noteq> None"
    by (rule upsert_profileE [OF assms]) blast
  obtain r where r: "stored_profile db' (cp_colleague p) = Some r" "pf_org r = org" "pf_role r = cp_role p"
      "pf_expertise r = cp_expertise p" "pf_preferences r = cp_preferences p"
      "pf_embedding r = (case emb of Some v \<Rightarrow> Some v | None \<Rightarrow> Option.bind (stored_profile db (cp_colleague p)) pf_embedding)"
    using upsert_row_stored [of db org p t emb now] *(1) by blast
  have "pf_embedding r \<noteq> None" using r(6) *(2) by (cases emb) auto
  then show ?thesis using r by blast
qed

lemma upsert_directory [simp]:
  "pd_directory (upsert_row db org p t emb now) = pd_directory db" "pd_cards (upsert_row db org p t emb now) = pd_cards db"
  by (simp_all add: upsert_row_def Let_def)

text \<open>In a sequence of writes every vector is that of its text; one embedding of each text is assumed.\<close>

definition vectors_ok :: "(string \<Rightarrow> (embedding, string) result) \<Rightarrow> profile_db \<Rightarrow> bool" where
  "vectors_ok embedder db \<longleftrightarrow> distinct (map pf_colleague (pd_rows db))
     \<and> (\<forall>r \<in> set (pd_rows db). \<forall>v. pf_embedding r = Some v \<longrightarrow> embedder (pf_text r) = Inr v)"

lemma stored_profile_unique:
  "distinct (map pf_colleague (pd_rows db)) \<Longrightarrow> x \<in> set (pd_rows db) \<Longrightarrow> stored_profile db (pf_colleague x) = Some x"
  unfolding stored_profile_def by (rule find_key_unique) auto

lemma upsert_vectors:
  assumes inv: "vectors_ok embedder db" and up: "upsert_profile embedder db now org p = Inr db'"
  shows "vectors_ok embedder db'"
proof -
  obtain t emb where *: "db' = upsert_row db org p t emb now"
      "emb = None \<Longrightarrow> \<exists>r. stored_profile db (cp_colleague p) = Some r \<and> pf_text r = t \<and> pf_embedding r \<noteq> None"
      "\<And>v. emb = Some v \<Longrightarrow> embedder t = Inr v"
    by (rule upsert_profileE [OF up]) blast
  show ?thesis
  proof (cases "stored_profile db (cp_colleague p)")
    case None
    then have "cp_colleague p \<notin> pf_colleague ` set (pd_rows db)"
      by (auto simp: stored_profile_def find_None_mem)
    moreover have "emb = None \<Longrightarrow> False" using *(2) None by simp
    ultimately show ?thesis using inv *(1,3) None by (auto simp: vectors_ok_def upsert_row_def Let_def)
  next
    case (Some r)
    let ?p = "\<lambda>x. pf_colleague x = cp_colleague p"
    have r: "x = r" if "x \<in> set (pd_rows db)" "?p x" for x
      using stored_profile_unique [of db x] inv that Some by (simp add: vectors_ok_def)
    have vec: "embedder t = Inr v" if "x \<in> set (pd_rows db)" "?p x"
      "(case emb of None \<Rightarrow> pf_embedding x | Some w \<Rightarrow> Some w) = Some v" for x v
    proof (cases emb)
      case None
      then obtain y where "stored_profile db (cp_colleague p) = Some y" "pf_text y = t" using *(2) by blast
      then have "pf_text x = t" using r [OF that(1,2)] Some by simp
      then show ?thesis using None that inv by (auto simp: vectors_ok_def)
    qed (use that(3) *(3) in auto)
    have "map pf_colleague (pd_rows db') = map pf_colleague (pd_rows db)"
      using *(1) Some by (auto simp: upsert_row_def Let_def intro!: map_update_where)
    then show ?thesis
      using inv *(1) Some by (auto simp: vectors_ok_def upsert_row_def Let_def elim!: update_where_memE)
        (rule vec, assumption+)
  qed
qed

text \<open>Between its two transactions another write may land: then the vector kept is that of the other text.\<close>

lemma overlapping_upserts_keep_a_stale_vector:
  assumes "stored_profile db1 (cp_colleague p) = Some r" "pf_embedding r = Some v" "embedder t \<noteq> Inr v"
  shows "\<exists>s. stored_profile (upsert_row db1 org p t None now) (cp_colleague p) = Some s
           \<and> pf_text s = t \<and> pf_embedding s = Some v \<and> embedder (pf_text s) \<noteq> Inr v"
  using upsert_row_stored [of db1 org p t None now] assms by auto

section \<open>The search\<close>

lemma profile_hit:
  assumes "directory_ok (pd_directory db)" "c \<in> set (dr_rows (pd_directory db))" "stored_profile db (dy_id c) = Some r"
    and "pf_embedding r = Some v" "dy_id c \<noteq> viewer" "org_of_viewer (pd_directory db) viewer = Some (pf_org r)"
  shows "(distance v query, dy_id c, CkHuman, user_name (pd_directory db) c, take_chars PROFILE_SNIPPET_LEN (pf_text r))
           \<in> set (profile_hits distance db query viewer)"
proof -
  have r: "r \<in> set (pd_rows db)" "pf_colleague r = dy_id c" using assms(3) by (auto simp: stored_profile_def dest: find_Some_mem)
  have "find (\<lambda>x. dy_id x = dy_id c) (dr_rows (pd_directory db)) = Some c"
    using assms(1,2) by (intro find_key_unique) (auto simp: directory_ok_def)
  then show ?thesis using r assms(4-6) unfolding profile_hits_def by (auto intro!: bexI [of _ r])
qed

lemma sorted_filter_take:
  assumes "sorted (map f ys)"
  shows "filter (\<lambda>y. f y \<le> c) ys = take (length (filter (\<lambda>y. f y \<le> c) ys)) ys"
  using assms
proof (induction ys)
  case (Cons y ys)
  show ?case
  proof (cases "f y \<le> c")
    case False
    then have "filter (\<lambda>y. f y \<le> c) (y # ys) = []" using Cons.prems by (auto simp: filter_empty_conv)
    then show ?thesis by simp
  qed (use Cons in simp)
qed simp

text \<open>A row is among the first \<open>k\<close> when at most \<open>k\<close> rows are as close as it.\<close>

lemma among_nearest:
  assumes "x \<in> set xs" "length (filter (\<lambda>y. f y \<le> f x) xs) \<le> k"
  shows "x \<in> set (take k (sort_key f xs))"
proof -
  let ?n = "length (filter (\<lambda>y. f y \<le> f x) (sort_key f xs))"
  have "x \<in> set (filter (\<lambda>y. f y \<le> f x) (sort_key f xs))" using assms(1) by simp
  then have "x \<in> set (take ?n (sort_key f xs))" using sorted_filter_take [of f "sort_key f xs" "f x"] by simp
  moreover have "?n \<le> k" using assms(2) by (simp add: filter_sort)
  ultimately show ?thesis using set_take_subset_set_take [of ?n k "sort_key f xs"] by blast
qed

lemma search_fails_on_null:
  assumes "query \<noteq> []" "0 < k"
    and "(d, i, knd, None, s) \<in> set (take k (sort_key fst (agent_hits distance db query viewer @ profile_hits distance db query viewer)))"
  shows "search_colleagues distance db query viewer k = Inl (ProfileDb ColumnDecode)"
proof -
  let ?rows = "take k (sort_key fst (agent_hits distance db query viewer @ profile_hits distance db query viewer))"
  have "list_ex (\<lambda>(_, _, _, name, _). name = None) ?rows"
    unfolding list_ex_iff using assms(3) by (intro bexI [of _ "(d, i, knd, None, s)"]) auto
  then show ?thesis using assms(1,2) by (simp add: search_colleagues_def Let_def del: not_None_eq)
qed

section \<open>The tools\<close>

lemma profile_writeE:
  assumes "profile_write parse show_parse show embedder now ctx input db = (Inr i, db')"
  obtains inp where "parse input = Inr inp" "pw_subject inp = i" "participant_agent (tx_viewer ctx) \<noteq> None"
    "upsert_profile embedder db now (tx_org_id ctx) \<lparr>cp_colleague = i, cp_role = pw_role inp, cp_expertise = pw_expertise inp,
       cp_preferences = pw_preferences inp, cp_updated_by = participant_colleague (tx_viewer ctx)\<rparr> = Inr db'"
  using assms
  by (auto simp: profile_write_def role_try_from_def expertise_try_from_def preferences_try_from_def
      split: sum.splits if_splits dest!: parse_field_Inr(1) intro!: that)

lemma upsert_frames:
  assumes "upsert_profile embedder db now org p = Inr db'"
  shows "pd_directory db' = pd_directory db" "pd_cards db' = pd_cards db"
  using upsert_profileE [OF assms] upsert_directory by metis+

text \<open>
  A second \<open>profile_write\<close> replaces the whole entry: the fields it does not mention are gone, though the
  tool announces an update.
\<close>

lemma partial_write_erases:
  assumes "profile_write parse show_parse show embedder now ctx input db = (Inr i, db')" "parse input = Inr inp"
  shows "\<exists>r. stored_profile db' i = Some r \<and> (pw_role inp = None \<longrightarrow> pf_role r = None)
           \<and> (pw_expertise inp = None \<longrightarrow> pf_expertise r = None) \<and> (pw_preferences inp = None \<longrightarrow> pf_preferences r = None)"
proof -
  obtain inp' where *: "parse input = Inr inp'" "upsert_profile embedder db now (tx_org_id ctx) \<lparr>cp_colleague = i,
      cp_role = pw_role inp', cp_expertise = pw_expertise inp', cp_preferences = pw_preferences inp',
      cp_updated_by = participant_colleague (tx_viewer ctx)\<rparr> = Inr db'"
    by (rule profile_writeE [OF assms(1)]) blast
  show ?thesis using upsert_stored [OF *(2)] *(1) assms(2) by auto
qed

text \<open>
  C40. The profile of an agent breaks the search. \<open>profile_write\<close> takes any colleague of the organisation
  as its subject; the search reads every profile as a person's and finds no name for an agent. Once an
  agent's profile is written, and for as long as it stays, the tool \<open>search_colleague\<close> fails for every
  other member of the organisation whenever the profile is among the hits it asks for: when at most as
  many hits as it asks for are as close to its query as the profile.
\<close>

theorem agent_profile_breaks_the_search:
  assumes dir: "directory_ok (pd_directory db)"
    and c: "c \<in> set (dr_rows (pd_directory db))" "dy_kind c = CkAgent"
    and wrote: "profile_write parse show_parse show embedder now ctx input db = (Inr (dy_id c), db')"
    and kept: "stored_profile later (dy_id c) = stored_profile db' (dy_id c)" "pd_directory later = pd_directory db'"
    and viewer: "participant_colleague (tx_viewer ctx') = Some viewer"
      "org_of_viewer (pd_directory db) viewer = Some (tx_org_id ctx)" "viewer \<noteq> dy_id c"
    and call: "parse' input' = Inr (q, k)" "0 < k" "k \<le> SEARCH_COLLEAGUE_K" "embedder' q = Inr v" "v \<noteq> []"
    and near: "\<And>r w. stored_profile later (dy_id c) = Some r \<Longrightarrow> pf_embedding r = Some w \<Longrightarrow>
      length (filter (\<lambda>h. fst h \<le> distance w v) (agent_hits distance later v viewer @ profile_hits distance later v viewer)) \<le> k"
  shows "search_colleague parse' show_parse' show' embedder' distance later ctx' input'
    = Inl (ToolBackend (''search_colleague store: '' @ show' (ProfileDb ColumnDecode)))"
proof -
  obtain inp :: profile_write_input where *: "upsert_profile embedder db now (tx_org_id ctx) \<lparr>cp_colleague = dy_id c,
      cp_role = pw_role inp, cp_expertise = pw_expertise inp, cp_preferences = pw_preferences inp,
      cp_updated_by = participant_colleague (tx_viewer ctx)\<rparr> = Inr db'"
    by (rule profile_writeE [OF wrote]) blast
  then obtain r w where r: "stored_profile later (dy_id c) = Some r" "pf_org r = tx_org_id ctx" "pf_embedding r = Some w"
    using upsert_stored [OF *] kept(1) by auto
  have d: "pd_directory later = pd_directory db" using upsert_frames [OF *] kept(2) by simp
  have "dy_user c = None" using dir c unfolding directory_ok_def by (auto split: colleague_kind.splits)
  then have "user_name (pd_directory db) c = None" by (simp add: user_name_def)
  then have "(distance w v, dy_id c, CkHuman, None, take_chars PROFILE_SNIPPET_LEN (pf_text r))
      \<in> set (profile_hits distance later v viewer)"
    using profile_hit [of later c r w viewer distance v] dir c(1) r viewer d by simp
  then have "(distance w v, dy_id c, CkHuman, None, take_chars PROFILE_SNIPPET_LEN (pf_text r))
      \<in> set (take k (sort_key fst (agent_hits distance later v viewer @ profile_hits distance later v viewer)))"
    using near [OF r(1,3)] by (intro among_nearest) auto
  then have "search_colleagues distance later v viewer k = Inl (ProfileDb ColumnDecode)"
    by (rule search_fails_on_null [OF call(5,2)])
  moreover have "search_colleague_limit_try_from k = Inr k" using call(2,3) by (simp add: search_colleague_limit_try_from_def)
  ultimately show ?thesis using call viewer(1) by (simp add: search_colleague_def)
qed

definition sample_profiles :: profile_db where
  "sample_profiles = \<lparr>pd_rows = [], pd_directory =
     \<lparr>dr_rows = [\<lparr>dy_id = 1, dy_org = 7, dy_kind = CkAgent, dy_user = None, dy_agent = Some 11\<rparr>,
        \<lparr>dy_id = 2, dy_org = 7, dy_kind = CkAgent, dy_user = None, dy_agent = Some 12\<rparr>],
      dr_agents = [11 \<mapsto> ''scout'', 12 \<mapsto> ''coach''], dr_users = Map.empty\<rparr>, pd_cards = Map.empty\<rparr>"

definition sample_profile_ctx :: tool_ctx where
  "sample_profile_ctx = \<lparr>tx_claim_key = 40, tx_thread_id = None, tx_state_id = None, tx_viewer = PAgent 1 11, tx_root_request_id = 41,
     tx_request_id = 42, tx_kind_payload = PNormal, tx_acting_user_id = 9, tx_org_id = 7\<rparr>"

abbreviation sample_profile_input :: profile_write_input where
  "sample_profile_input \<equiv> \<lparr>pw_subject = 2, pw_role = Some ''coach'', pw_expertise = None, pw_preferences = None\<rparr>"

definition sample_profile_row :: profile_row where
  "sample_profile_row = \<lparr>pf_colleague = 2, pf_org = 7, pf_role = Some ''coach'', pf_expertise = None, pf_preferences = None,
     pf_text = ''Role: coach'', pf_embedding = Some [1], pf_updated_by = Some 1, pf_created_at = 100, pf_updated_at = 100\<rparr>"

lemma sample_role: "bounded_str ''role'' 200 ''coach'' = Inr ''coach''" "bounded_str ''profile_text'' 5120 ''Role: coach'' = Inr ''Role: coach''"
proof -
  have "trim ''coach'' \<noteq> []" by code_simp
  then show "bounded_str ''role'' 200 ''coach'' = Inr ''coach''" by (simp add: bounded_str_def)
  show "bounded_str ''profile_text'' 5120 ''Role: coach'' = Inr ''Role: coach''"
    using trim_label(1) [of "''coach''"] by (simp add: bounded_str_def)
qed

lemma sample_profile_write:
  "profile_write (\<lambda>_. Inr sample_profile_input) sp sq (\<lambda>_. Inr [1]) 100 sample_profile_ctx input sample_profiles
     = (Inr 2, sample_profiles\<lparr>pd_rows := [sample_profile_row]\<rparr>)"
  using sample_role
  by (simp add: profile_write_def sample_profile_ctx_def parse_field_def role_try_from_def MAX_ROLE_def upsert_profile_def
      compose_profile_text_def profile_text_try_from_def MAX_PROFILE_TEXT_def labelled_def pre_upsert_def stored_profile_def
      sample_profiles_def upsert_row_def sample_profile_row_def Let_def)

theorem agent_profile_breaks_the_search_witness:
  "let db' = sample_profiles\<lparr>pd_rows := [sample_profile_row]\<rparr> in
     length (profile_hits (\<lambda>v w. 0) db' [1] 1) = 1
     \<and> search_colleague (\<lambda>_. Inr (''who coaches?'', 8)) (\<lambda>_. []) (\<lambda>_. ''decode'') (\<lambda>_. Inr [1]) (\<lambda>v w. 0) db' sample_profile_ctx JNull
         = Inl (ToolBackend ''search_colleague store: decode'')"
proof -
  let ?db' = "sample_profiles\<lparr>pd_rows := [sample_profile_row]\<rparr>"
  let ?c = "\<lparr>dy_id = 2, dy_org = 7, dy_kind = CkAgent, dy_user = None, dy_agent = Some 12\<rparr>"
  have hits: "length (profile_hits (\<lambda>v w. 0) ?db' [1] 1) = 1" "agent_hits (\<lambda>v w. 0) ?db' [1] 1 = []"
    by (simp_all add: profile_hits_def agent_hits_def sample_profile_row_def sample_profiles_def org_of_viewer_def)
  have "search_colleague (\<lambda>_. Inr (''who coaches?'', 8)) (\<lambda>_. []) (\<lambda>_. ''decode'') (\<lambda>_. Inr [1]) (\<lambda>v w. 0) ?db' sample_profile_ctx JNull
      = Inl (ToolBackend (''search_colleague store: '' @ (\<lambda>_. ''decode'') (ProfileDb ColumnDecode)))"
  proof (rule agent_profile_breaks_the_search [of sample_profiles ?c "\<lambda>_. Inr sample_profile_input" undefined undefined "\<lambda>_. Inr [1]" 100
        sample_profile_ctx undefined])
    show "profile_write (\<lambda>_. Inr sample_profile_input) undefined undefined (\<lambda>_. Inr [1]) 100 sample_profile_ctx undefined sample_profiles
        = (Inr (dy_id ?c), ?db')" by (simp add: sample_profile_write)
    show "participant_colleague (tx_viewer sample_profile_ctx) = Some 1" by (simp add: sample_profile_ctx_def)
    show "length (filter (\<lambda>h. fst h \<le> 0) (agent_hits (\<lambda>v w. 0) ?db' [1] 1 @ profile_hits (\<lambda>v w. 0) ?db' [1] 1)) \<le> 8"
      by (rule order_trans [OF length_filter_le]) (use hits in simp)
  qed (auto simp: sample_profiles_def directory_ok_def org_of_viewer_def sample_profile_ctx_def SEARCH_COLLEAGUE_K_def)
  then show ?thesis using hits(1) by simp
qed

end
