(* ===== verification/Agent_Store.thy ===== *)
theory Agent_Store
  imports Memory_Store Colleagues Model_Catalog Assets
begin

text \<open>
  The agents of an organisation (\<open>agents/\<close>): the values with their gates, the tool allowlist, the
  store of agents with the append-only versions of their prompts, and the restore of a version
  (\<open>http/routes/agents.rs\<close>). The database's \<open>lower\<close> is an argument, as are the embedding service and
  \<open>parse\<close>, the URL parser's scheme and host.
\<close>

section \<open>Values\<close>

definition AGENT_NAME_MAX_LEN :: nat where "AGENT_NAME_MAX_LEN = 64"
definition AGENT_DESCRIPTION_MAX_LEN :: nat where "AGENT_DESCRIPTION_MAX_LEN = 512"
definition PRESET_AVATAR_COUNT :: nat where "PRESET_AVATAR_COUNT = 12"
definition AGENT_SYSTEM_PROMPT_MAX_LEN :: nat where "AGENT_SYSTEM_PROMPT_MAX_LEN = 64 * 1024"
definition MAX_ALLOWED_MCP_CATALOGS_PER_AGENT :: nat where "MAX_ALLOWED_MCP_CATALOGS_PER_AGENT = 32"
definition MAX_ALLOWED_MCP_TOOLS_PER_CATALOG_PER_AGENT :: nat where "MAX_ALLOWED_MCP_TOOLS_PER_CATALOG_PER_AGENT = 64"
definition MCP_CATALOG_ID_MAX_LEN :: nat where "MCP_CATALOG_ID_MAX_LEN = 40"
definition MCP_TOOL_REMOTE_NAME_MAX_LEN :: nat where "MCP_TOOL_REMOTE_NAME_MAX_LEN = 64"
definition AVATAR_URL_MAX_BYTES :: nat where "AVATAR_URL_MAX_BYTES = 2048"
definition LIST_NAMES_MAX_ROWS :: nat where "LIST_NAMES_MAX_ROWS = 512"

definition agent_name_try_from :: "string \<Rightarrow> (string, parse_error) result" where
  "agent_name_try_from raw =
     (if raw = [] then Inl (Empty ''agent_name'')
      else if length raw > AGENT_NAME_MAX_LEN then Inl (TooLong ''agent_name'' AGENT_NAME_MAX_LEN (length raw))
      else Inr raw)"

definition agent_prompt_try_from :: "string \<Rightarrow> (string, parse_error) result" where
  "agent_prompt_try_from raw =
     (if trim raw = [] then Inl (Empty ''agent_system_prompt'')
      else if length raw > AGENT_SYSTEM_PROMPT_MAX_LEN
        then Inl (TooLong ''agent_system_prompt'' AGENT_SYSTEM_PROMPT_MAX_LEN (length raw))
      else Inr raw)"

definition agent_description_try_from :: "string \<Rightarrow> (string, parse_error) result" where
  "agent_description_try_from raw =
     (if trim raw = [] then Inl (Empty ''agent_description'')
      else if length raw > AGENT_DESCRIPTION_MAX_LEN
        then Inl (TooLong ''agent_description'' AGENT_DESCRIPTION_MAX_LEN (length raw))
      else Inr raw)"

definition avatar_url_try_from :: "(string \<Rightarrow> (string \<times> bool) option) \<Rightarrow> string \<Rightarrow> (string, parse_error) result" where
  "avatar_url_try_from parse raw =
     (if raw = [] then Inl (Empty ''avatar.url'')
      else if length raw > AVATAR_URL_MAX_BYTES then Inl (TooLong ''avatar.url'' AVATAR_URL_MAX_BYTES (length raw))
      else (case parse raw of
          None \<Rightarrow> Inl (Malformed ''avatar.url'' ''must be a valid absolute url'')
        | Some (scheme, has_host) \<Rightarrow>
            if scheme \<noteq> ''http'' \<and> scheme \<noteq> ''https'' then Inl (Malformed ''avatar.url'' ''must be http:// or https://'')
            else if \<not> has_host then Inl (Malformed ''avatar.url'' ''must have a host'')
            else Inr raw))"

definition avatar_index_try_from :: "nat \<Rightarrow> (nat, parse_error) result" where
  "avatar_index_try_from n =
     (if n < 1 then Inl (OutOfRange ''avatar_index'' ''must be >= 1'')
      else if n > PRESET_AVATAR_COUNT then Inl (OutOfRange ''avatar_index'' ''exceeds bundled avatar count'')
      else Inr n)"

text \<open>\<open>None\<close> is the failed invariant on the host.\<close>

definition preset_agent_avatar_url :: "(string \<Rightarrow> (string \<times> bool) option) \<Rightarrow> string \<Rightarrow> nat \<Rightarrow> string option" where
  "preset_agent_avatar_url parse host n =
     (case avatar_url_try_from parse (host @ ''/agents/agent-'' @ show_nat n @ ''.png'') of Inl _ \<Rightarrow> None | Inr u \<Rightarrow> Some u)"

definition lower_digit :: "char \<Rightarrow> bool" where
  "lower_digit c \<longleftrightarrow> (let n = of_char c :: nat in 97 \<le> n \<and> n \<le> 122 \<or> 48 \<le> n \<and> n \<le> 57)"

definition mcp_catalog_id_try_from :: "string \<Rightarrow> (string, parse_error) result" where
  "mcp_catalog_id_try_from raw =
     (if raw = [] then Inl (Empty ''mcp_catalog_id'')
      else if length raw > MCP_CATALOG_ID_MAX_LEN then Inl (TooLong ''mcp_catalog_id'' MCP_CATALOG_ID_MAX_LEN (length raw))
      else if \<not> (let n = of_char (hd raw) :: nat in 97 \<le> n \<and> n \<le> 122)
        then Inl (Malformed ''mcp_catalog_id'' ''must start with a-z'')
      else if \<not> list_all (\<lambda>c. lower_digit c \<or> c = CHR ''_'' \<or> c = CHR ''-'') (tl raw)
        then Inl (Malformed ''mcp_catalog_id'' ''allowed: a-z 0-9 _ -'')
      else Inr raw)"

definition mcp_tool_remote_name_try_from :: "string \<Rightarrow> (string, parse_error) result" where
  "mcp_tool_remote_name_try_from raw =
     (if raw = [] then Inl (Empty ''mcp_tool_remote_name'')
      else if length raw > MCP_TOOL_REMOTE_NAME_MAX_LEN
        then Inl (TooLong ''mcp_tool_remote_name'' MCP_TOOL_REMOTE_NAME_MAX_LEN (length raw))
      else Inr raw)"

section \<open>The tool allowlist\<close>

text \<open>The \<open>BTreeMap\<close> as its entries in the order of their keys; a value \<open>None\<close> is every tool of the catalog.\<close>

type_synonym allowed_mcp_tools = "(string \<times> string list option) list"

datatype tool_scope = ScopeNone | ScopeAll | ScopeSome "string list"

definition tools_for_catalog :: "allowed_mcp_tools \<Rightarrow> string \<Rightarrow> tool_scope" where
  "tools_for_catalog m c =
     (case map_of m c of None \<Rightarrow> ScopeNone | Some None \<Rightarrow> ScopeAll | Some (Some ns) \<Rightarrow> ScopeSome ns)"

fun parse_tool_names :: "string list \<Rightarrow> string list \<Rightarrow> (string list, parse_error) result" where
  "parse_tool_names seen [] = Inr (rev seen)"
| "parse_tool_names seen (r # rs) =
     (case mcp_tool_remote_name_try_from r of
        Inl e \<Rightarrow> Inl e
      | Inr n \<Rightarrow> if n \<in> set seen then Inl (Malformed ''allowed_mcp_tools'' ''duplicate tool name in catalog list'')
                 else parse_tool_names (n # seen) rs)"

fun parse_catalogs :: "(string \<times> string list option) list \<Rightarrow> (allowed_mcp_tools, parse_error) result" where
  "parse_catalogs [] = Inr []"
| "parse_catalogs ((i, names) # rs) =
     (case mcp_catalog_id_try_from i of
        Inl e \<Rightarrow> Inl e
      | Inr c \<Rightarrow>
     (case (case names of
              None \<Rightarrow> Inr None
            | Some ns \<Rightarrow> if length ns > MAX_ALLOWED_MCP_TOOLS_PER_CATALOG_PER_AGENT
                         then Inl (OutOfRange ''allowed_mcp_tools'' ''too many tools for one catalog'')
                         else map_sum id Some (parse_tool_names [] ns)) of
        Inl e \<Rightarrow> Inl e
      | Inr scope \<Rightarrow> (case parse_catalogs rs of Inl e \<Rightarrow> Inl e | Inr m \<Rightarrow> Inr ((c, scope) # m))))"

definition allowed_mcp_tools_try_from :: "(string \<times> string list option) list \<Rightarrow> (allowed_mcp_tools, parse_error) result" where
  "allowed_mcp_tools_try_from raw =
     (if length raw > MAX_ALLOWED_MCP_CATALOGS_PER_AGENT then Inl (OutOfRange ''allowed_mcp_tools'' ''too many catalogs'')
      else parse_catalogs raw)"

section \<open>The store\<close>

record agent_row =
  ar_id :: uuid
  ar_org :: uuid
  ar_name :: string
  ar_description :: string
  ar_embedding :: "embedding option"
  ar_allowed :: allowed_mcp_tools
  ar_model :: "model option"
  ar_avatar :: "string option"
  ar_created_at :: timestamp
  ar_updated_at :: timestamp

record version_row =
  vr_id :: uuid
  vr_agent :: uuid
  vr_org :: uuid
  vr_version :: int
  vr_prompt :: string
  vr_edited_by :: "uuid option"
  vr_created_at :: timestamp

text \<open>
  With the directory, which a trigger extends, the memberships of the row-level policy, and the agents
  that rows of other tables name with a restricting foreign key.
\<close>

record agent_db =
  as_agents :: "agent_row list"
  as_versions :: "version_row list"
  as_directory :: "directory_row list"
  as_members :: "(uuid \<times> uuid) list"
  as_in_use :: "uuid \<Rightarrow> bool"

datatype agent_store_error =
    AgentNotFound uuid
  | AgentNameNotFound string
  | AgentNameTaken string
  | AgentInUse uuid
  | AgentParse parse_error
  | AgentBackend string
  | AgentDb db_error

record agent_record =
  gr_id :: uuid
  gr_org :: uuid
  gr_name :: string
  gr_prompt :: string
  gr_description :: string
  gr_allowed :: allowed_mcp_tools
  gr_model :: "model option"
  gr_avatar :: "string option"
  gr_version :: uuid
  gr_created_at :: timestamp
  gr_updated_at :: timestamp

definition versions_of :: "agent_db \<Rightarrow> uuid \<Rightarrow> version_row list" where
  "versions_of db agent = filter (\<lambda>v. vr_agent v = agent) (as_versions db)"

text \<open>\<open>ORDER BY version DESC LIMIT 1\<close>: the first of the rows with the greatest number.\<close>

definition current_version :: "agent_db \<Rightarrow> uuid \<Rightarrow> version_row option" where
  "current_version db agent = first_min_by (\<lambda>v. - vr_version v) (versions_of db agent)"

definition agent_record_of ::
  "(string \<Rightarrow> (string \<times> bool) option) \<Rightarrow> agent_row \<Rightarrow> version_row \<Rightarrow> (agent_record, agent_store_error) result" where
  "agent_record_of parse a v =
     (case agent_name_try_from (ar_name a) of
        Inl e \<Rightarrow> Inl (AgentParse e)
      | Inr name \<Rightarrow>
     (case agent_prompt_try_from (vr_prompt v) of
        Inl e \<Rightarrow> Inl (AgentParse e)
      | Inr prompt \<Rightarrow>
     (case agent_description_try_from (ar_description a) of
        Inl e \<Rightarrow> Inl (AgentParse e)
      | Inr description \<Rightarrow>
     (case (case ar_avatar a of None \<Rightarrow> Inr None | Some u \<Rightarrow> map_sum id Some (avatar_url_try_from parse u)) of
        Inl e \<Rightarrow> Inl (AgentParse e)
      | Inr avatar \<Rightarrow>
          Inr \<lparr>gr_id = ar_id a, gr_org = ar_org a, gr_name = name, gr_prompt = prompt, gr_description = description,
            gr_allowed = ar_allowed a, gr_model = ar_model a, gr_avatar = avatar, gr_version = vr_id v,
            gr_created_at = ar_created_at a, gr_updated_at = ar_updated_at a\<rparr>))))"

text \<open>The join with the current version: an agent without one is not read.\<close>

definition joined :: "agent_db \<Rightarrow> (agent_row \<Rightarrow> bool) \<Rightarrow> (agent_row \<times> version_row) list" where
  "joined db p = List.map_filter (\<lambda>a. map_option (Pair a) (current_version db (ar_id a))) (filter p (as_agents db))"

definition read_agent ::
  "(string \<Rightarrow> (string \<times> bool) option) \<Rightarrow> agent_db \<Rightarrow> uuid \<Rightarrow> (agent_record, agent_store_error) result" where
  "read_agent parse db i =
     (case joined db (\<lambda>a. ar_id a = i) of [] \<Rightarrow> Inl (AgentNotFound i) | (a, v) # _ \<Rightarrow> agent_record_of parse a v)"

definition list_all_agents ::
  "(string \<Rightarrow> (string \<times> bool) option) \<Rightarrow> agent_db \<Rightarrow> (agent_record list, agent_store_error) result" where
  "list_all_agents parse db =
     collect_results (map (\<lambda>(a, v). agent_record_of parse a v) (sort_key (ar_created_at \<circ> fst) (joined db (\<lambda>_. True))))"

definition read_by_name_for_org ::
  "(string \<Rightarrow> (string \<times> bool) option) \<Rightarrow> (string \<Rightarrow> string) \<Rightarrow> agent_db \<Rightarrow> uuid \<Rightarrow> string \<Rightarrow> (agent_record, agent_store_error) result" where
  "read_by_name_for_org parse lower db org name =
     (case joined db (\<lambda>a. lower (ar_name a) = lower name \<and> ar_org a = org) of
        [] \<Rightarrow> Inl (AgentNameNotFound name) | (a, v) # _ \<Rightarrow> agent_record_of parse a v)"

definition read_by_name_for_viewer ::
  "(string \<Rightarrow> (string \<times> bool) option) \<Rightarrow> (string \<Rightarrow> string) \<Rightarrow> agent_db \<Rightarrow> uuid \<Rightarrow> string \<Rightarrow> (agent_record, agent_store_error) result" where
  "read_by_name_for_viewer parse lower db viewer name =
     (case joined db (\<lambda>a. lower (ar_name a) = lower name
              \<and> map_option ar_org (find (\<lambda>x. ar_id x = viewer) (as_agents db)) = Some (ar_org a)) of
        [] \<Rightarrow> Inl (AgentNameNotFound name) | (a, v) # _ \<Rightarrow> agent_record_of parse a v)"

definition list_names_for_org ::
  "(string \<Rightarrow> 'k :: linorder) \<Rightarrow> agent_db \<Rightarrow> uuid \<Rightarrow> ((uuid \<times> string) list, agent_store_error) result" where
  "list_names_for_org collate db org =
     collect_results (map (\<lambda>a. case agent_name_try_from (ar_name a) of Inl e \<Rightarrow> Inl (AgentParse e) | Inr n \<Rightarrow> Inr (ar_id a, n))
       (take LIST_NAMES_MAX_ROWS (sort_key (collate \<circ> ar_name) (filter (\<lambda>a. ar_org a = org) (as_agents db)))))"

section \<open>Creating\<close>

record new_agent =
  na_org :: uuid
  na_name :: string
  na_prompt :: string
  na_description :: string
  na_allowed :: allowed_mcp_tools
  na_model :: "model option"
  na_avatar :: "string option"
  na_edited_by :: "uuid option"

definition agents_see :: "agent_db \<Rightarrow> db_actor \<Rightarrow> uuid \<Rightarrow> bool" where
  "agents_see db actor org = (case actor of Privileged \<Rightarrow> True | ActingUser u \<Rightarrow> (u, org) \<in> set (as_members db))"

text \<open>The trigger on \<open>agents\<close>: a colleague \<open>colleague\<close> for the agent, unless the organisation has one.\<close>

definition mint_colleague :: "uuid \<Rightarrow> uuid \<Rightarrow> uuid \<Rightarrow> directory_row list \<Rightarrow> directory_row list" where
  "mint_colleague colleague org agent rows =
     (if \<exists>r \<in> set rows. dy_org r = org \<and> dy_agent r = Some agent then rows
      else rows @ [\<lparr>dy_id = colleague, dy_org = org, dy_kind = CkAgent, dy_user = None, dy_agent = Some agent\<rparr>])"

definition insert_agent ::
  "(string \<Rightarrow> string) \<Rightarrow> agent_db \<Rightarrow> db_actor \<Rightarrow> uuid \<Rightarrow> agent_row \<Rightarrow> (agent_db, db_error) result" where
  "insert_agent lower db actor colleague a =
     (if \<not> agents_see db actor (ar_org a) then Inl RlsViolation
      else if (\<exists>x \<in> set (as_agents db). ar_id x = ar_id a \<or> ar_org x = ar_org a \<and> lower (ar_name x) = lower (ar_name a))
        then Inl UniqueViolation
      else Inr (db\<lparr>as_agents := as_agents db @ [a], as_directory := mint_colleague colleague (ar_org a) (ar_id a) (as_directory db)\<rparr>))"

text \<open>A trigger pins a version to its agent's organisation; \<open>(agent, version)\<close> is unique.\<close>

definition insert_version :: "agent_db \<Rightarrow> version_row \<Rightarrow> (agent_db, db_error) result" where
  "insert_version db v =
     (if map_option ar_org (find (\<lambda>a. ar_id a = vr_agent v) (as_agents db)) \<noteq> Some (vr_org v) then Inl RaisedException
      else if vr_version v \<le> 0 then Inl CheckViolation
      else if (\<exists>x \<in> set (as_versions db). vr_agent x = vr_agent v \<and> vr_version x = vr_version v) then Inl UniqueViolation
      else Inr (db\<lparr>as_versions := as_versions db @ [v]\<rparr>))"

definition insert_seeded_v1 ::
  "agent_db \<Rightarrow> uuid \<Rightarrow> uuid \<Rightarrow> uuid \<Rightarrow> string \<Rightarrow> uuid option \<Rightarrow> timestamp \<Rightarrow> (agent_db, db_error) result" where
  "insert_seeded_v1 db ver agent org prompt edited_by now =
     insert_version db \<lparr>vr_id = ver, vr_agent = agent, vr_org = org, vr_version = 1, vr_prompt = prompt,
       vr_edited_by = edited_by, vr_created_at = now\<rparr>"

definition create_agent_in_tx ::
  "(string \<Rightarrow> string) \<Rightarrow> agent_db \<Rightarrow> db_actor \<Rightarrow> timestamp \<Rightarrow> uuid \<Rightarrow> uuid \<Rightarrow> uuid \<Rightarrow> embedding \<Rightarrow> new_agent
   \<Rightarrow> (agent_record \<times> agent_db, agent_store_error) result" where
  "create_agent_in_tx lower db actor now new ver colleague emb p =
     (case insert_agent lower db actor colleague
              \<lparr>ar_id = new, ar_org = na_org p, ar_name = na_name p, ar_description = na_description p, ar_embedding = Some emb,
               ar_allowed = na_allowed p, ar_model = na_model p, ar_avatar = na_avatar p, ar_created_at = now, ar_updated_at = now\<rparr> of
        Inl UniqueViolation \<Rightarrow> Inl (AgentNameTaken (na_name p))
      | Inl e \<Rightarrow> Inl (AgentDb e)
      | Inr db1 \<Rightarrow>
     (case insert_seeded_v1 db1 ver new (na_org p) (na_prompt p) (na_edited_by p) now of
        Inl e \<Rightarrow> Inl (AgentDb e)
      | Inr db2 \<Rightarrow>
          Inr (\<lparr>gr_id = new, gr_org = na_org p, gr_name = na_name p, gr_prompt = na_prompt p, gr_description = na_description p,
                 gr_allowed = na_allowed p, gr_model = na_model p, gr_avatar = na_avatar p, gr_version = ver,
                 gr_created_at = now, gr_updated_at = now\<rparr>, db2)))"

text \<open>\<open>create\<close> is this with \<open>Privileged\<close>, \<open>create_for_user\<close> with the acting user; the description is embedded first.\<close>

definition create_agent_as ::
  "(string \<Rightarrow> (embedding, string) result) \<Rightarrow> (string \<Rightarrow> string) \<Rightarrow> agent_db \<Rightarrow> db_actor \<Rightarrow> timestamp \<Rightarrow> uuid \<Rightarrow> uuid \<Rightarrow> uuid \<Rightarrow> new_agent
   \<Rightarrow> (agent_record \<times> agent_db, agent_store_error) result" where
  "create_agent_as embedder lower db actor now new ver colleague p =
     (case embedder (na_description p) of
        Inl e \<Rightarrow> Inl (AgentBackend (''description embed: '' @ e))
      | Inr emb \<Rightarrow> create_agent_in_tx lower db actor now new ver colleague emb p)"

text \<open>The seed of an organisation: the agent of that name, created unless it is there.\<close>

definition seed_preset ::
  "(string \<Rightarrow> (embedding, string) result) \<Rightarrow> (string \<Rightarrow> string) \<Rightarrow> agent_db \<Rightarrow> timestamp \<Rightarrow> uuid \<Rightarrow> uuid \<Rightarrow> uuid
   \<Rightarrow> uuid \<Rightarrow> string \<Rightarrow> string \<Rightarrow> string \<Rightarrow> string option \<Rightarrow> (uuid \<times> agent_db, agent_store_error) result" where
  "seed_preset embedder lower db now new ver colleague org name prompt description avatar =
     (case embedder description of
        Inl e \<Rightarrow> Inl (AgentBackend (''description embed: '' @ e))
      | Inr emb \<Rightarrow>
     (case find (\<lambda>a. ar_org a = org \<and> lower (ar_name a) = lower name) (as_agents db) of
        Some a \<Rightarrow> Inr (ar_id a, db)
      | None \<Rightarrow>
     (case insert_agent lower db Privileged colleague
              \<lparr>ar_id = new, ar_org = org, ar_name = name, ar_description = description, ar_embedding = Some emb,
               ar_allowed = [], ar_model = None, ar_avatar = avatar, ar_created_at = now, ar_updated_at = now\<rparr> of
        Inl e \<Rightarrow> Inl (AgentDb e)
      | Inr db1 \<Rightarrow>
     (case insert_seeded_v1 db1 ver new org prompt None now of
        Inl e \<Rightarrow> Inl (AgentDb e)
      | Inr db2 \<Rightarrow> Inr (new, db2)))))"

section \<open>Updating, restoring, deleting\<close>

definition max_version :: "agent_db \<Rightarrow> uuid \<Rightarrow> int option" where
  "max_version db agent = map_option vr_version (current_version db agent)"

text \<open>The message of a torn state leaves out the agent's id.\<close>

definition bump_prompt_version ::
  "agent_db \<Rightarrow> uuid \<Rightarrow> uuid \<Rightarrow> uuid \<Rightarrow> string \<Rightarrow> uuid option \<Rightarrow> timestamp \<Rightarrow> (agent_db, agent_store_error) result" where
  "bump_prompt_version db ver agent org prompt edited_by now =
     (case max_version db agent of
        None \<Rightarrow> Inl (AgentBackend ''invariant: agent has no agent_prompt_versions rows; v1 should have been seeded with the agent'')
      | Some n \<Rightarrow>
     (case insert_version db \<lparr>vr_id = ver, vr_agent = agent, vr_org = org, vr_version = min (n + 1) i32_max, vr_prompt = prompt,
              vr_edited_by = edited_by, vr_created_at = now\<rparr> of
        Inl e \<Rightarrow> Inl (AgentDb e)
      | Inr db' \<Rightarrow> Inr db'))"

text \<open>An outer \<open>None\<close> leaves a field; an inner one clears it.\<close>

record agent_update =
  au_name :: "string option"
  au_prompt :: "string option"
  au_description :: "string option"
  au_allowed :: "allowed_mcp_tools option"
  au_model :: "model option option"
  au_avatar :: "string option option"
  au_edited_by :: "uuid option"

definition given :: "'a option \<Rightarrow> 'a \<Rightarrow> 'a" where
  "given x d = (case x of None \<Rightarrow> d | Some v \<Rightarrow> v)"

definition apply_agent_update :: "agent_update \<Rightarrow> agent_record \<Rightarrow> agent_record" where
  "apply_agent_update u r = r\<lparr>gr_name := given (au_name u) (gr_name r), gr_description := given (au_description u) (gr_description r),
     gr_allowed := given (au_allowed u) (gr_allowed r), gr_model := given (au_model u) (gr_model r),
     gr_avatar := given (au_avatar u) (gr_avatar r)\<rparr>"

text \<open>The \<open>UPDATE\<close>: its unique violation is not told apart from other database errors.\<close>

definition write_agent ::
  "(string \<Rightarrow> string) \<Rightarrow> agent_db \<Rightarrow> timestamp \<Rightarrow> agent_record \<Rightarrow> embedding option \<Rightarrow> (agent_db, db_error) result" where
  "write_agent lower db now r emb =
     (if \<exists>x \<in> set (as_agents db). ar_id x \<noteq> gr_id r \<and> ar_org x = gr_org r \<and> lower (ar_name x) = lower (gr_name r)
      then Inl UniqueViolation
      else Inr (db\<lparr>as_agents := update_where (\<lambda>a. ar_id a = gr_id r)
             (\<lambda>a. a\<lparr>ar_name := gr_name r, ar_description := gr_description r,
                ar_embedding := (case emb of None \<Rightarrow> ar_embedding a | Some v \<Rightarrow> Some v),
                ar_allowed := gr_allowed r, ar_model := gr_model r, ar_avatar := gr_avatar r, ar_updated_at := now\<rparr>) (as_agents db)\<rparr>))"

definition update_agent ::
  "(string \<Rightarrow> (string \<times> bool) option) \<Rightarrow> (string \<Rightarrow> (embedding, string) result) \<Rightarrow> (string \<Rightarrow> string) \<Rightarrow> agent_db \<Rightarrow> timestamp
   \<Rightarrow> uuid \<Rightarrow> uuid \<Rightarrow> agent_update \<Rightarrow> (agent_record \<times> agent_db, agent_store_error) result" where
  "update_agent parse embedder lower db now ver i u =
     (case (case au_description u of None \<Rightarrow> Inr None | Some d \<Rightarrow> map_sum id Some (embedder d)) of
        Inl e \<Rightarrow> Inl (AgentBackend (''description embed: '' @ e))
      | Inr emb \<Rightarrow>
     (case read_agent parse db i of
        Inl e \<Rightarrow> Inl e
      | Inr existing \<Rightarrow>
     (let current = apply_agent_update u existing in
      case (case au_prompt u of
              None \<Rightarrow> Inr (current, db)
            | Some p \<Rightarrow> if p = gr_prompt current then Inr (current, db)
                        else (case bump_prompt_version db ver i (gr_org current) p (au_edited_by u) now of
                            Inl e \<Rightarrow> Inl e
                          | Inr db1 \<Rightarrow> Inr (current\<lparr>gr_prompt := p, gr_version := ver\<rparr>, db1))) of
        Inl e \<Rightarrow> Inl e
      | Inr (r, db1) \<Rightarrow>
     (case write_agent lower db1 now r emb of
        Inl e \<Rightarrow> Inl (AgentDb e)
      | Inr db2 \<Rightarrow> Inr (r\<lparr>gr_updated_at := now\<rparr>, db2)))))"

datatype prompt_version_error =
    NoVersionsForAgent uuid
  | PvAgentNotFound uuid
  | VersionNotFound uuid int
  | PvParse parse_error
  | PvDb db_error

definition prompt_version_number_try_from :: "int \<Rightarrow> (int, parse_error) result" where
  "prompt_version_number_try_from raw =
     (if raw < 1 then Inl (OutOfRange ''prompt_version'' ''version must be >= 1'') else Inr raw)"

definition lock_and_snapshot :: "agent_db \<Rightarrow> uuid \<Rightarrow> int \<Rightarrow> (uuid \<times> string, prompt_version_error) result" where
  "lock_and_snapshot db agent target =
     (case find (\<lambda>a. ar_id a = agent) (as_agents db) of
        None \<Rightarrow> Inl (PvAgentNotFound agent)
      | Some a \<Rightarrow>
     (case find (\<lambda>v. vr_agent v = agent \<and> vr_version v = target) (as_versions db) of
        None \<Rightarrow> Inl (VersionNotFound agent target)
      | Some v \<Rightarrow> Inr (ar_org a, vr_prompt v)))"

definition next_version_number :: "agent_db \<Rightarrow> uuid \<Rightarrow> (int, parse_error) result" where
  "next_version_number db agent =
     (case max_version db agent of None \<Rightarrow> Inr 1 | Some n \<Rightarrow> prompt_version_number_try_from (min (n + 1) i32_max))"

definition restore_in_tx ::
  "agent_db \<Rightarrow> timestamp \<Rightarrow> uuid \<Rightarrow> uuid \<Rightarrow> int \<Rightarrow> uuid \<Rightarrow> (int \<times> agent_db, prompt_version_error) result" where
  "restore_in_tx db now ver agent target acting_user =
     (case lock_and_snapshot db agent target of
        Inl e \<Rightarrow> Inl e
      | Inr (org, prompt) \<Rightarrow>
     (case next_version_number db agent of
        Inl e \<Rightarrow> Inl (PvParse e)
      | Inr n \<Rightarrow>
     (case insert_version db \<lparr>vr_id = ver, vr_agent = agent, vr_org = org, vr_version = n, vr_prompt = prompt,
              vr_edited_by = Some acting_user, vr_created_at = now\<rparr> of
        Inl e \<Rightarrow> Inl (PvDb e)
      | Inr db' \<Rightarrow> Inr (n, db'))))"

text \<open>The versions and the colleague of a deleted agent go with it.\<close>

definition delete_agent :: "agent_db \<Rightarrow> uuid \<Rightarrow> (agent_db, agent_store_error) result" where
  "delete_agent db i =
     (if \<not> (\<exists>a \<in> set (as_agents db). ar_id a = i) then Inl (AgentNotFound i)
      else if as_in_use db i then Inl (AgentInUse i)
      else Inr (db\<lparr>as_agents := filter (\<lambda>a. ar_id a \<noteq> i) (as_agents db),
                   as_versions := filter (\<lambda>v. vr_agent v \<noteq> i) (as_versions db),
                   as_directory := filter (\<lambda>r. dy_agent r \<noteq> Some i) (as_directory db)\<rparr>))"

end
