(* ===== verification/Agent_Store_Laws.thy ===== *)
theory Agent_Store_Laws
  imports Agent_Store
begin

text \<open>
  The agent store as a transition system: names stay unique in an organisation, every agent keeps a
  colleague and a history of prompts numbered from one, to which steps only append.
\<close>

section \<open>Insertions\<close>

lemma insert_version_Inr:
  "insert_version db v = Inr db' \<longleftrightarrow> db' = db\<lparr>as_versions := as_versions db @ [v]\<rparr>
     \<and> map_option ar_org (find (\<lambda>a. ar_id a = vr_agent v) (as_agents db)) = Some (vr_org v) \<and> 0 < vr_version v
     \<and> (\<forall>x \<in> set (as_versions db). vr_agent x = vr_agent v \<longrightarrow> vr_version x \<noteq> vr_version v)"
  by (auto simp: insert_version_def)

lemma insert_agent_Inr:
  "insert_agent lower db actor colleague a = Inr db' \<longleftrightarrow>
     db' = db\<lparr>as_agents := as_agents db @ [a], as_directory := mint_colleague colleague (ar_org a) (ar_id a) (as_directory db)\<rparr>
     \<and> agents_see db actor (ar_org a)
     \<and> (\<forall>x \<in> set (as_agents db). ar_id x \<noteq> ar_id a \<and> (ar_org x = ar_org a \<longrightarrow> lower (ar_name x) \<noteq> lower (ar_name a)))"
  by (auto simp: insert_agent_def)

lemma versions_of_append [simp]:
  "versions_of (db\<lparr>as_versions := as_versions db @ [v]\<rparr>) i = versions_of db i @ (if vr_agent v = i then [v] else [])"
  by (simp add: versions_of_def)

section \<open>The invariant\<close>

definition numbered :: "version_row list \<Rightarrow> bool" where
  "numbered vs \<longleftrightarrow> vs \<noteq> [] \<and> (\<forall>k < length vs. vr_version (vs ! k) = int k + 1)"

definition agents_inv :: "(string \<Rightarrow> string) \<Rightarrow> agent_db \<Rightarrow> bool" where
  "agents_inv lower db \<longleftrightarrow>
     distinct (map ar_id (as_agents db)) \<and> distinct (map (\<lambda>a. (ar_org a, lower (ar_name a))) (as_agents db))
     \<and> (\<forall>a \<in> set (as_agents db). numbered (versions_of db (ar_id a))
          \<and> (\<exists>r \<in> set (as_directory db). dy_org r = ar_org a \<and> dy_agent r = Some (ar_id a)))
     \<and> (\<forall>v \<in> set (as_versions db). \<exists>a \<in> set (as_agents db). ar_id a = vr_agent v \<and> ar_org a = vr_org v)"

lemma first_min_last:
  "sorted_wrt (\<lambda>x y. k y < k x) xs \<Longrightarrow> xs \<noteq> [] \<Longrightarrow> first_min_by k xs = Some (last xs)" for k :: "'a \<Rightarrow> int"
proof (induction xs)
  case (Cons x xs)
  show ?case
  proof (cases "xs = []")
    case False
    then have "first_min_by k xs = Some (last xs)" using Cons by simp
    moreover have "k (last xs) < k x" using Cons.prems False by simp
    ultimately show ?thesis using False by simp
  qed simp
qed simp

lemma numbered_sorted: "numbered vs \<Longrightarrow> sorted_wrt (\<lambda>x y. - vr_version y < - vr_version x) vs"
  by (auto simp: numbered_def sorted_wrt_iff_nth_less)

lemma current_is_last: "numbered (versions_of db i) \<Longrightarrow> current_version db i = Some (last (versions_of db i))"
  unfolding current_version_def by (rule first_min_last [OF numbered_sorted]) (auto simp: numbered_def)

lemma numbered_max: "numbered (versions_of db i) \<Longrightarrow> max_version db i = Some (int (length (versions_of db i)))"
proof -
  assume n: "numbered (versions_of db i)"
  then obtain m where m: "length (versions_of db i) = Suc m" by (cases "versions_of db i") (auto simp: numbered_def)
  then have "vr_version (versions_of db i ! m) = int m + 1" "versions_of db i \<noteq> []" using n by (auto simp: numbered_def)
  then show ?thesis using current_is_last [OF n] m by (simp add: max_version_def last_conv_nth)
qed

lemma numbered_append: "numbered vs \<Longrightarrow> vr_version v = int (length vs) + 1 \<Longrightarrow> numbered (vs @ [v])"
  by (auto simp: numbered_def nth_append less_Suc_eq)

lemma numbered_single: "vr_version v = 1 \<Longrightarrow> numbered [v]"
  by (simp add: numbered_def)

section \<open>The store as a transition system\<close>

text \<open>
  The sets the row-level policy and the foreign keys read belong to other components: they change
  freely. Each step names what it leaves: the agent it gives a new prompt, if any.
\<close>

inductive agent_step ::
  "(string \<Rightarrow> (string \<times> bool) option) \<Rightarrow> (string \<Rightarrow> (embedding, string) result) \<Rightarrow> (string \<Rightarrow> string)
   \<Rightarrow> agent_db \<Rightarrow> (uuid \<times> string) option \<Rightarrow> agent_db \<Rightarrow> bool" for parse embedder lower where
  as_create: "create_agent_as embedder lower db actor now new ver colleague p = Inr (r, db')
     \<Longrightarrow> agent_step parse embedder lower db None db'"
| as_seed: "seed_preset embedder lower db now new ver colleague org name prompt description avatar = Inr (i, db')
     \<Longrightarrow> agent_step parse embedder lower db None db'"
| as_update: "update_agent parse embedder lower db now ver i u = Inr (r, db')
     \<Longrightarrow> agent_step parse embedder lower db (Some (i, gr_prompt r)) db'"
| as_restore: "restore_in_tx db now ver agent target user = Inr (n, db')
     \<Longrightarrow> find (\<lambda>v. vr_agent v = agent \<and> vr_version v = target) (as_versions db) = Some v
     \<Longrightarrow> agent_step parse embedder lower db (Some (agent, vr_prompt v)) db'"
| as_delete: "delete_agent db i = Inr db' \<Longrightarrow> agent_step parse embedder lower db None db'"
| as_other: "agent_step parse embedder lower db None (db\<lparr>as_members := ms, as_in_use := f\<rparr>)"

definition agents_init :: "agent_db \<Rightarrow> bool" where
  "agents_init db \<longleftrightarrow> as_agents db = [] \<and> as_versions db = []"

lemma agents_invD:
  assumes "agents_inv lower db"
  shows "distinct (map ar_id (as_agents db))" "distinct (map (\<lambda>a. (ar_org a, lower (ar_name a))) (as_agents db))"
    "a \<in> set (as_agents db) \<Longrightarrow> numbered (versions_of db (ar_id a))"
    "a \<in> set (as_agents db) \<Longrightarrow> \<exists>r \<in> set (as_directory db). dy_org r = ar_org a \<and> dy_agent r = Some (ar_id a)"
    "v \<in> set (as_versions db) \<Longrightarrow> \<exists>a \<in> set (as_agents db). ar_id a = vr_agent v \<and> ar_org a = vr_org v"
  using assms unfolding agents_inv_def by blast+

text \<open>Inserting an agent with its first version.\<close>

lemma insert_pair_inv:
  assumes inv: "agents_inv lower db" and ins: "insert_agent lower db actor colleague a = Inr db1"
    and ver: "insert_version db1 v = Inr db2" "vr_agent v = ar_id a" "vr_version v = 1"
  shows "agents_inv lower db2" "\<And>b. b \<noteq> ar_id a \<Longrightarrow> versions_of db2 b = versions_of db b"
    "as_agents db2 = as_agents db @ [a]"
proof -
  note i = ins [unfolded insert_agent_Inr] and w = ver(1) [unfolded insert_version_Inr]
  have old: "versions_of db (ar_id a) = []"
    using agents_invD(5) [OF inv] i by (fastforce simp: versions_of_def filter_empty_conv)
  show vs: "versions_of db2 b = versions_of db b" if "b \<noteq> ar_id a" for b
    using i w that ver(2) by (auto simp: versions_of_def)
  have new: "versions_of db2 (ar_id a) = [v]" using i w ver(2) old by (auto simp: versions_of_def)
  show ag: "as_agents db2 = as_agents db @ [a]" using i w by simp
  have dir: "as_directory db2 = mint_colleague colleague (ar_org a) (ar_id a) (as_directory db)" using i w by simp
  have org: "vr_org v = ar_org a"
    using i w ver(2) by (auto simp: find_append split: option.splits dest: find_Some_mem)
  have fresh: "ar_id a \<notin> ar_id ` set (as_agents db)" "(ar_org a, lower (ar_name a)) \<notin> (\<lambda>a. (ar_org a, lower (ar_name a))) ` set (as_agents db)"
    using i by auto
  have "numbered (versions_of db2 (ar_id x)) \<and> (\<exists>r \<in> set (as_directory db2). dy_org r = ar_org x \<and> dy_agent r = Some (ar_id x))"
    if "x \<in> set (as_agents db2)" for x
  proof (cases "x = a")
    case True
    then show ?thesis using new numbered_single ver(3) by (auto simp: dir mint_colleague_def)
  next
    case False
    then have x: "x \<in> set (as_agents db)" using that ag by simp
    then have "ar_id x \<noteq> ar_id a" using fresh(1) by (metis imageI)
    note x = x this
    then show ?thesis using vs [OF x(2)] agents_invD(3,4) [OF inv x(1)] by (auto simp: dir mint_colleague_def)
  qed
  moreover have "\<exists>y \<in> set (as_agents db2). ar_id y = vr_agent x \<and> ar_org y = vr_org x" if "x \<in> set (as_versions db2)" for x
    using that i w ag org ver(2) agents_invD(5) [OF inv, of x] by auto
  ultimately show "agents_inv lower db2"
    using ag fresh agents_invD(1,2) [OF inv] by (simp add: agents_inv_def)
qed

text \<open>A new version of an agent that is there.\<close>

lemma append_version_inv:
  assumes inv: "agents_inv lower db" and ver: "insert_version db v = Inr db'"
    and n: "vr_version v = int (length (versions_of db (vr_agent v))) + 1"
  shows "agents_inv lower db'"
proof -
  note w = ver [unfolded insert_version_Inr]
  have "\<exists>a \<in> set (as_agents db). ar_id a = vr_agent v \<and> ar_org a = vr_org v"
    using w by (auto dest: find_Some_mem)
  then show ?thesis
    using w inv numbered_append [OF _ n] by (auto simp: agents_inv_def versions_of_def)
qed

text \<open>Changing the columns of the agents row.\<close>

lemma distinct_update_key:
  assumes "distinct (map h t)" "\<And>r. p r \<longleftrightarrow> h r = i" "distinct (map g t)" "\<And>r. r \<in> set t \<Longrightarrow> p r \<Longrightarrow> g (f r) = k"
    and "\<And>r. r \<in> set t \<Longrightarrow> \<not> p r \<Longrightarrow> g r \<noteq> k"
  shows "distinct (map g (update_where p f t))"
  using assms
proof (induction t)
  case (Cons r t)
  have tail: "distinct (map g (update_where p f t))" by (rule Cons.IH) (use Cons.prems in auto)
  show ?case
  proof (cases "p r")
    case True
    have "h r \<notin> h ` set t" using Cons.prems(1) by simp
    then have none: "\<not> p x" if "x \<in> set t" for x using Cons.prems(2) True that by (metis imageI)
    then have "update_where p f t = t" by (rule update_where_id)
    moreover have "k \<notin> g ` set t" using Cons.prems(5) none by force
    ultimately show ?thesis using tail True Cons.prems(4) by simp
  next
    case False
    have "g r \<noteq> k" using Cons.prems(5) False by simp
    then have "g r \<notin> g ` set (update_where p f t)"
      using Cons.prems(3,4) by (auto simp: set_update_where)
    then show ?thesis using tail False by simp
  qed
qed simp

lemma write_agent_Inr:
  assumes "write_agent lower db now r emb = Inr db'"
  obtains f where "db' = db\<lparr>as_agents := update_where (\<lambda>a. ar_id a = gr_id r) f (as_agents db)\<rparr>"
    "\<And>a. ar_id (f a) = ar_id a" "\<And>a. ar_org (f a) = ar_org a" "\<And>a. ar_name (f a) = gr_name r"
    "\<And>x. x \<in> set (as_agents db) \<Longrightarrow> ar_id x \<noteq> gr_id r \<Longrightarrow> ar_org x = gr_org r \<Longrightarrow> lower (ar_name x) \<noteq> lower (gr_name r)"
  using assms by (auto simp: write_agent_def split: if_splits intro!: that)

lemma write_agent_inv:
  assumes inv: "agents_inv lower db" and wr: "write_agent lower db now r emb = Inr db'"
    and org: "\<And>a. a \<in> set (as_agents db) \<Longrightarrow> ar_id a = gr_id r \<Longrightarrow> ar_org a = gr_org r"
  shows "agents_inv lower db'" "versions_of db' = versions_of db" "map ar_id (as_agents db') = map ar_id (as_agents db)"
proof -
  obtain f where f: "db' = db\<lparr>as_agents := update_where (\<lambda>a. ar_id a = gr_id r) f (as_agents db)\<rparr>"
    "\<And>a. ar_id (f a) = ar_id a" "\<And>a. ar_org (f a) = ar_org a" "\<And>a. ar_name (f a) = gr_name r"
    "\<And>x. x \<in> set (as_agents db) \<Longrightarrow> ar_id x \<noteq> gr_id r \<Longrightarrow> ar_org x = gr_org r \<Longrightarrow> lower (ar_name x) \<noteq> lower (gr_name r)"
    by (rule write_agent_Inr [OF wr]) blast
  show vs: "versions_of db' = versions_of db" by (simp add: f(1) versions_of_def fun_eq_iff)
  show ids: "map ar_id (as_agents db') = map ar_id (as_agents db)" by (simp add: f(1) update_where_def f(2))
  have "distinct (map (\<lambda>a. (ar_org a, lower (ar_name a))) (update_where (\<lambda>a. ar_id a = gr_id r) f (as_agents db)))"
    by (rule distinct_update_key [where h = ar_id and i = "gr_id r" and k = "(gr_org r, lower (gr_name r))"])
       (use agents_invD(1,2) [OF inv] f(3,4,5) org in auto)
  then have keys: "distinct (map (\<lambda>a. (ar_org a, lower (ar_name a))) (as_agents db'))" by (simp add: f(1))
  have same: "\<exists>y \<in> set (as_agents db). ar_id y = ar_id x \<and> ar_org y = ar_org x" if "x \<in> set (as_agents db')" for x
    using that f(2,3) unfolding f(1) by (auto simp: set_update_where split: if_splits)
  have onto: "\<exists>x \<in> set (as_agents db'). ar_id y = ar_id x \<and> ar_org y = ar_org x" if "y \<in> set (as_agents db)" for y
    using that f(2,3) by (intro bexI [of _ "if ar_id y = gr_id r then f y else y"]) (auto simp: f(1) set_update_where)
  show "agents_inv lower db'"
    unfolding agents_inv_def ids vs
  proof (intro conjI ballI)
    fix x assume "x \<in> set (as_agents db')"
    then obtain y where y: "y \<in> set (as_agents db)" "ar_id y = ar_id x" "ar_org y = ar_org x" using same by blast
    show "numbered (versions_of db (ar_id x))" using agents_invD(3) [OF inv y(1)] y(2) by simp
    show "\<exists>r \<in> set (as_directory db'). dy_org r = ar_org x \<and> dy_agent r = Some (ar_id x)"
      using agents_invD(4) [OF inv y(1)] y(2,3) by (simp add: f(1))
  next
    fix v assume "v \<in> set (as_versions db')"
    then have "v \<in> set (as_versions db)" by (simp add: f(1))
    then show "\<exists>a \<in> set (as_agents db'). ar_id a = vr_agent v \<and> ar_org a = vr_org v"
      using agents_invD(5) [OF inv] onto by metis
  qed (use keys agents_invD(1) [OF inv] in auto)
qed

lemma delete_agent_inv:
  assumes inv: "agents_inv lower db" and del: "delete_agent db i = Inr db'"
  shows "agents_inv lower db'" "\<And>b. b \<noteq> i \<Longrightarrow> versions_of db' b = versions_of db b" "i \<notin> ar_id ` set (as_agents db')"
proof -
  have d: "db' = db\<lparr>as_agents := filter (\<lambda>a. ar_id a \<noteq> i) (as_agents db), as_versions := filter (\<lambda>v. vr_agent v \<noteq> i) (as_versions db),
      as_directory := filter (\<lambda>r. dy_agent r \<noteq> Some i) (as_directory db)\<rparr>"
    using del by (auto simp: delete_agent_def split: if_splits)
  show vs: "versions_of db' b = versions_of db b" if "b \<noteq> i" for b
    using that by (auto simp: d versions_of_def intro: filter_cong)
  show "i \<notin> ar_id ` set (as_agents db')" by (auto simp: d)
  show "agents_inv lower db'"
    unfolding agents_inv_def
  proof (intro conjI ballI)
    fix x assume "x \<in> set (as_agents db')"
    then have x: "x \<in> set (as_agents db)" "ar_id x \<noteq> i" by (auto simp: d)
    show "numbered (versions_of db' (ar_id x))" using vs [OF x(2)] agents_invD(3) [OF inv x(1)] by simp
    show "\<exists>r \<in> set (as_directory db'). dy_org r = ar_org x \<and> dy_agent r = Some (ar_id x)"
      using agents_invD(4) [OF inv x(1)] x(2) by (auto simp: d)
  next
    fix v assume "v \<in> set (as_versions db')"
    then have "v \<in> set (as_versions db)" "vr_agent v \<noteq> i" by (auto simp: d)
    then show "\<exists>a \<in> set (as_agents db'). ar_id a = vr_agent v \<and> ar_org a = vr_org v"
      using agents_invD(5) [OF inv] by (fastforce simp: d)
  qed (use agents_invD(1,2) [OF inv] in \<open>auto simp: d distinct_map_filter\<close>)
qed

section \<open>What a step does to a history\<close>

text \<open>At most one version is appended; it has the prompt \<open>p\<close> where one is given.\<close>

definition history_grows :: "version_row list \<Rightarrow> version_row list \<Rightarrow> bool" where
  "history_grows vs ws \<longleftrightarrow> ws = vs \<or> (\<exists>v. ws = vs @ [v])"

lemma read_agentD:
  assumes "read_agent parse db i = Inr r"
  shows "gr_id r = i" "\<exists>a \<in> set (as_agents db). ar_id a = i \<and> gr_org r = ar_org a"
    "\<exists>v. current_version db i = Some v \<and> gr_prompt r = vr_prompt v"
proof -
  obtain a v rest where j: "joined db (\<lambda>a. ar_id a = i) = (a, v) # rest" "agent_record_of parse a v = Inr r"
    using assms by (auto simp: read_agent_def split: list.splits)
  from j(1) have "(a, v) \<in> set (joined db (\<lambda>a. ar_id a = i))" by simp
  then have a: "a \<in> set (as_agents db)" "ar_id a = i" "current_version db (ar_id a) = Some v"
    by (auto simp: joined_def List.map_filter_def)
  have "gr_id r = ar_id a" "gr_org r = ar_org a" "gr_prompt r = vr_prompt v"
    using j(2) by (auto simp: agent_record_of_def agent_prompt_try_from_def split: sum.splits if_splits)
  then show "gr_id r = i" "\<exists>a \<in> set (as_agents db). ar_id a = i \<and> gr_org r = ar_org a"
    "\<exists>v. current_version db i = Some v \<and> gr_prompt r = vr_prompt v" using a by auto
qed

text \<open>The next number is the one after the history, or taken: then the insertion fails.\<close>

lemma next_version_free:
  assumes "numbered (versions_of db i)" "insert_version db v = Inr db'" "vr_agent v = i"
    and "vr_version v = min (int (length (versions_of db i)) + 1) i32_max"
  shows "vr_version v = int (length (versions_of db i)) + 1"
proof (rule ccontr)
  let ?n = "length (versions_of db i)"
  assume "vr_version v \<noteq> int ?n + 1"
  then have le: "vr_version v \<le> int ?n" using assms(4) by (simp add: min_def split: if_splits)
  have pos: "0 < vr_version v" using assms(2) by (simp add: insert_version_Inr)
  then have k: "nat (vr_version v - 1) < ?n" using le by linarith
  then have "vr_version (versions_of db i ! nat (vr_version v - 1)) = vr_version v"
    using assms(1) pos by (simp add: numbered_def)
  moreover have "versions_of db i ! nat (vr_version v - 1) \<in> set (versions_of db i)" using k by simp
  ultimately show False using assms(2,3) unfolding insert_version_Inr by (auto simp: versions_of_def)
qed

lemma bump_prompt_version_Inr:
  assumes "bump_prompt_version db ver i org p edited_by now = Inr db'" "numbered (versions_of db i)"
  shows "\<exists>v. insert_version db v = Inr db' \<and> vr_agent v = i \<and> vr_version v = int (length (versions_of db i)) + 1 \<and> vr_prompt v = p"
proof -
  let ?v = "\<lparr>vr_id = ver, vr_agent = i, vr_org = org, vr_version = min (int (length (versions_of db i)) + 1) i32_max, vr_prompt = p,
      vr_edited_by = edited_by, vr_created_at = now\<rparr>"
  have "insert_version db ?v = Inr db'"
    using assms numbered_max [OF assms(2)] by (simp add: bump_prompt_version_def split: sum.splits)
  then show ?thesis using next_version_free [OF assms(2), of ?v db'] by (intro exI [of _ ?v]) simp
qed

lemma restore_Inr:
  assumes "restore_in_tx db now ver i target user = Inr (n, db')" "numbered (versions_of db i)"
    and "find (\<lambda>v. vr_agent v = i \<and> vr_version v = target) (as_versions db) = Some w"
  shows "\<exists>v. insert_version db v = Inr db' \<and> vr_agent v = i \<and> vr_version v = int (length (versions_of db i)) + 1 \<and> vr_prompt v = vr_prompt w"
proof -
  obtain org where s: "lock_and_snapshot db i target = Inr (org, vr_prompt w)"
    using assms(1,3) by (auto simp: restore_in_tx_def lock_and_snapshot_def split: option.splits)
  have n: "n = min (int (length (versions_of db i)) + 1) i32_max"
    using assms(1) numbered_max [OF assms(2)] s
    by (auto simp: restore_in_tx_def next_version_number_def prompt_version_number_try_from_def split: sum.splits if_splits)
  let ?v = "\<lparr>vr_id = ver, vr_agent = i, vr_org = org, vr_version = n, vr_prompt = vr_prompt w, vr_edited_by = Some user, vr_created_at = now\<rparr>"
  have "insert_version db ?v = Inr db'"
    using assms(1) s by (auto simp: restore_in_tx_def split: sum.splits)
  then show ?thesis using next_version_free [OF assms(2), of ?v db'] n by (intro exI [of _ ?v]) simp
qed

text \<open>An update writes the columns after at most one version.\<close>

lemma update_agentE:
  assumes "update_agent parse embedder lower db now ver i u = Inr (r, db')"
  obtains existing db1 r1 emb where "read_agent parse db i = Inr existing" "gr_id r1 = i" "gr_org r1 = gr_org existing"
    "write_agent lower db1 now r1 emb = Inr db'" "gr_prompt r = gr_prompt r1"
    "db1 = db \<and> gr_prompt r1 = gr_prompt existing
     \<or> (\<exists>p. bump_prompt_version db ver i (gr_org existing) p (au_edited_by u) now = Inr db1 \<and> gr_prompt r1 = p)"
proof -
  obtain existing where ex: "read_agent parse db i = Inr existing"
    using assms by (auto simp: update_agent_def split: sum.splits)
  define current where "current = apply_agent_update u existing"
  have cur: "gr_id current = i" "gr_org current = gr_org existing" "gr_prompt current = gr_prompt existing"
    using read_agentD(1) [OF ex] by (simp_all add: current_def apply_agent_update_def)
  define desc where "desc = (case au_description u of None \<Rightarrow> Inr None | Some d \<Rightarrow> map_sum id Some (embedder d))"
  define bump where "bump = (case au_prompt u of
      None \<Rightarrow> Inr (current, db)
    | Some p \<Rightarrow> if p = gr_prompt current then Inr (current, db)
                else (case bump_prompt_version db ver i (gr_org current) p (au_edited_by u) now of
                    Inl e \<Rightarrow> Inl e
                  | Inr db1 \<Rightarrow> Inr (current\<lparr>gr_prompt := p, gr_version := ver\<rparr>, db1)))"
  note up = assms [unfolded update_agent_def Let_def ex sum.case current_def [symmetric] desc_def [symmetric] bump_def [symmetric]]
  obtain emb r1 db1 where b: "desc = Inr emb" "bump = Inr (r1, db1)"
    and w: "write_agent lower db1 now r1 emb = Inr db'" "r = r1\<lparr>gr_updated_at := now\<rparr>"
    using up by (cases desc; cases bump) (auto split: sum.splits)
  show thesis
    by (rule that [OF ex _ _ w(1)]) (use b(2) w(2) cur in \<open>auto simp: bump_def split: option.splits if_splits sum.splits\<close>)
qed

lemma agent_id_org: "agents_inv lower db \<Longrightarrow> a \<in> set (as_agents db) \<Longrightarrow> b \<in> set (as_agents db) \<Longrightarrow> ar_id a = ar_id b \<Longrightarrow> a = b"
  using agents_invD(1) distinct_map_inj by metis

lemma update_agent_inv:
  assumes inv: "agents_inv lower db" and up: "update_agent parse embedder lower db now ver i u = Inr (r, db')"
  shows "agents_inv lower db'" "\<And>b. b \<noteq> i \<Longrightarrow> versions_of db' b = versions_of db b"
    "history_grows (versions_of db i) (versions_of db' i)" "i \<in> ar_id ` set (as_agents db)" "map ar_id (as_agents db') = map ar_id (as_agents db)"
    "gr_prompt r = vr_prompt (last (versions_of db' i))"
proof -
  obtain existing db1 r1 emb where e: "read_agent parse db i = Inr existing" "gr_id r1 = i" "gr_org r1 = gr_org existing"
    "write_agent lower db1 now r1 emb = Inr db'" "gr_prompt r = gr_prompt r1"
    "db1 = db \<and> gr_prompt r1 = gr_prompt existing
     \<or> (\<exists>p. bump_prompt_version db ver i (gr_org existing) p (au_edited_by u) now = Inr db1 \<and> gr_prompt r1 = p)"
    by (rule update_agentE [OF up])
  obtain a where a: "a \<in> set (as_agents db)" "ar_id a = i" "gr_org existing = ar_org a" using read_agentD(2) [OF e(1)] by blast
  have num: "numbered (versions_of db i)" using agents_invD(3) [OF inv a(1)] a(2) by simp
  have step1: "agents_inv lower db1 \<and> as_agents db1 = as_agents db \<and> (\<forall>b. b \<noteq> i \<longrightarrow> versions_of db1 b = versions_of db b)
      \<and> history_grows (versions_of db i) (versions_of db1 i) \<and> gr_prompt r1 = vr_prompt (last (versions_of db1 i))"
    using e(6)
  proof
    assume "db1 = db \<and> gr_prompt r1 = gr_prompt existing"
    then show ?thesis using inv read_agentD(3) [OF e(1)] current_is_last [OF num] by (auto simp: history_grows_def)
  next
    assume "\<exists>p. bump_prompt_version db ver i (gr_org existing) p (au_edited_by u) now = Inr db1 \<and> gr_prompt r1 = p"
    then obtain v where v: "insert_version db v = Inr db1" "vr_agent v = i" "vr_version v = int (length (versions_of db i)) + 1"
        "vr_prompt v = gr_prompt r1"
      using bump_prompt_version_Inr [OF _ num] by blast
    then show ?thesis using append_version_inv [OF inv v(1)] by (auto simp: insert_version_Inr history_grows_def)
  qed
  have org: "ar_org x = gr_org r1" if "x \<in> set (as_agents db1)" "ar_id x = gr_id r1" for x
  proof -
    have "x \<in> set (as_agents db)" "ar_id x = ar_id a" using that step1 e(2) a(2) by simp_all
    then have "x = a" using agent_id_org [OF inv _ a(1)] by blast
    then show ?thesis using e(3) a(3) by simp
  qed
  note w = write_agent_inv [OF conjunct1 [OF step1] e(4) org]
  show "agents_inv lower db'" by (rule w(1))
  have vs: "versions_of db' = versions_of db1" by (rule w(2))
  show "versions_of db' b = versions_of db b" if "b \<noteq> i" for b using that step1 unfolding vs by blast
  show "history_grows (versions_of db i) (versions_of db' i)" unfolding vs using step1 by blast
  show "map ar_id (as_agents db') = map ar_id (as_agents db)" using w(3) step1 by simp
  show "gr_prompt r = vr_prompt (last (versions_of db' i))" unfolding vs using step1 e(5) by simp
  show "i \<in> ar_id ` set (as_agents db)" using a by auto
qed

text \<open>Both insertions of a new agent: its row and its first version.\<close>

lemma create_agent_Inr:
  assumes "create_agent_as embedder lower db actor now new ver colleague p = Inr (r, db')"
  obtains a v db1 where "insert_agent lower db actor colleague a = Inr db1" "insert_version db1 v = Inr db'"
    "vr_agent v = ar_id a" "vr_version v = 1"
proof -
  obtain emb where c: "create_agent_in_tx lower db actor now new ver colleague emb p = Inr (r, db')"
    using assms by (auto simp: create_agent_as_def split: sum.splits)
  let ?a = "\<lparr>ar_id = new, ar_org = na_org p, ar_name = na_name p, ar_description = na_description p, ar_embedding = Some emb,
     ar_allowed = na_allowed p, ar_model = na_model p, ar_avatar = na_avatar p, ar_created_at = now, ar_updated_at = now\<rparr>"
  obtain db1 where "insert_agent lower db actor colleague ?a = Inr db1"
    "insert_seeded_v1 db1 ver new (na_org p) (na_prompt p) (na_edited_by p) now = Inr db'"
    using c unfolding create_agent_in_tx_def by (auto split: sum.splits db_error.splits)
  then show thesis unfolding insert_seeded_v1_def by (rule that) simp_all
qed

lemma seed_preset_Inr:
  assumes "seed_preset embedder lower db now new ver colleague org name prompt description avatar = Inr (i, db')"
  obtains "db' = db" | a v db1 where "insert_agent lower db Privileged colleague a = Inr db1" "insert_version db1 v = Inr db'"
    "vr_agent v = ar_id a" "vr_version v = 1"
proof (cases "find (\<lambda>a. ar_org a = org \<and> lower (ar_name a) = lower name) (as_agents db)")
  case None
  obtain emb where emb: "embedder description = Inr emb"
    using assms by (auto simp: seed_preset_def split: sum.splits)
  let ?a = "\<lparr>ar_id = new, ar_org = org, ar_name = name, ar_description = description, ar_embedding = Some emb,
     ar_allowed = [], ar_model = None, ar_avatar = avatar, ar_created_at = now, ar_updated_at = now\<rparr>"
  obtain db1 where "insert_agent lower db Privileged colleague ?a = Inr db1"
    "insert_seeded_v1 db1 ver new org prompt None now = Inr db'"
    using assms emb None unfolding seed_preset_def by (auto split: sum.splits)
  then show thesis unfolding insert_seeded_v1_def by (rule that(2)) simp_all
next
  case Some
  then show thesis using assms that(1) by (auto simp: seed_preset_def split: sum.splits)
qed

lemma insert_pair_grows:
  assumes "agents_inv lower db" "insert_agent lower db actor colleague a = Inr db1" "insert_version db1 v = Inr db'"
    "vr_agent v = ar_id a" "vr_version v = 1" "b \<in> ar_id ` set (as_agents db)"
  shows "versions_of db' b = versions_of db b"
proof -
  have "b \<noteq> ar_id a" using assms(2,6) by (auto simp: insert_agent_Inr)
  then show ?thesis by (rule insert_pair_inv(2) [OF assms(1-5)])
qed

lemma agent_step_effect:
  assumes "agent_step parse embedder lower db l db'" "agents_inv lower db"
  shows "agents_inv lower db' \<and>
    (\<forall>i \<in> ar_id ` set (as_agents db) \<inter> ar_id ` set (as_agents db'). history_grows (versions_of db i) (versions_of db' i)) \<and>
    (\<forall>i p. l = Some (i, p) \<longrightarrow> vr_prompt (last (versions_of db' i)) = p)"
  using assms
proof (induction rule: agent_step.induct)
  case (as_create db actor now new ver colleague p r db')
  show ?case
    by (rule create_agent_Inr [OF as_create(1)])
       (use insert_pair_inv(1) [OF as_create(2)] insert_pair_grows [OF as_create(2)] in \<open>simp add: history_grows_def\<close>)
next
  case (as_seed db now new ver colleague org name prompt description avatar i db')
  show ?case
    by (rule seed_preset_Inr [OF as_seed(1)])
       (use as_seed(2) insert_pair_inv(1) [OF as_seed(2)] insert_pair_grows [OF as_seed(2)] in \<open>simp_all add: history_grows_def\<close>)
next
  case (as_update db now ver i u r db')
  note u = update_agent_inv [OF as_update(2,1)]
  have "history_grows (versions_of db b) (versions_of db' b)" for b
    using u(2,3) by (cases "b = i") (simp_all add: history_grows_def)
  then show ?case using u(1,6) by simp
next
  case (as_restore db now ver agent target user n db' v)
  have "\<exists>a \<in> set (as_agents db). ar_id a = agent"
    using as_restore(1) by (auto simp: restore_in_tx_def lock_and_snapshot_def split: option.splits dest: find_Some_mem)
  then have num: "numbered (versions_of db agent)" using agents_invD(3) [OF as_restore(3)] by blast
  obtain w where w: "insert_version db w = Inr db'" "vr_agent w = agent"
      "vr_version w = int (length (versions_of db agent)) + 1" "vr_prompt w = vr_prompt v"
    using restore_Inr [OF as_restore(1) num as_restore(2)] by blast
  have "versions_of db' b = versions_of db b @ (if agent = b then [w] else [])" for b
    using w(1,2) by (simp add: insert_version_Inr)
  moreover have "agents_inv lower db'" by (rule append_version_inv [OF as_restore(3) w(1)]) (simp add: w)
  ultimately show ?case using w(4) by (auto simp: history_grows_def)
next
  case (as_delete db i db')
  have "history_grows (versions_of db b) (versions_of db' b)" if "b \<in> ar_id ` set (as_agents db')" for b
    using delete_agent_inv(2,3) [OF as_delete(2,1)] that by (cases "b = i") (simp_all add: history_grows_def)
  then show ?case using delete_agent_inv(1) [OF as_delete(2,1)] by simp
next
  case (as_other db ms f)
  then show ?case by (simp add: agents_inv_def versions_of_def history_grows_def)
qed

interpretation agents: transition_system agents_init "agent_step parse embedder lower" "agents_inv lower"
  for parse embedder lower
  by unfold_locales (simp add: agents_init_def agents_inv_def, use agent_step_effect in blast)

section \<open>The history of an agent's prompts\<close>

text \<open>
  C38. A step leaves an agent that stays with its whole history of prompts, at most one version longer;
  the versions are numbered from one without a gap and the current version, the one the prompt is read
  from, is the last. A new version never replaces an old one, and restoring one appends its prompt.
\<close>

lemma prompt_history_is_append_only:
  assumes "reach agents_init (agent_step parse embedder lower) db" "agent_step parse embedder lower db l db'"
    and "i \<in> ar_id ` set (as_agents db)" "i \<in> ar_id ` set (as_agents db')"
  shows "(\<exists>new. versions_of db' i = versions_of db i @ new \<and> length new \<le> 1)
    \<and> map vr_version (versions_of db' i) = map (\<lambda>k. int k + 1) [0..<length (versions_of db' i)]
    \<and> current_version db' i = Some (last (versions_of db' i))
    \<and> (\<forall>p. l = Some (i, p) \<longrightarrow> map_option vr_prompt (current_version db' i) = Some p)"
proof -
  note inv = agents.reach_inv [OF assms(1)]
  note e = agent_step_effect [OF assms(2) inv]
  have "history_grows (versions_of db i) (versions_of db' i)" using e assms(3,4) by blast
  then have "\<exists>new. versions_of db' i = versions_of db i @ new \<and> length new \<le> 1" by (auto simp: history_grows_def)
  moreover have num: "numbered (versions_of db' i)" using e agents_invD(3) assms(4) by blast
  then have "map vr_version (versions_of db' i) = map (\<lambda>k. int k + 1) [0..<length (versions_of db' i)]"
    by (auto simp: numbered_def intro: nth_equalityI)
  ultimately show ?thesis using e current_is_last [OF num] by simp
qed

text \<open>An agent is created with a prompt, given a second one, and set back to the first.\<close>

definition sample_create :: new_agent where
  "sample_create = \<lparr>na_org = 9, na_name = ''Ada'', na_prompt = ''a'', na_description = ''d'', na_allowed = [], na_model = None,
     na_avatar = None, na_edited_by = None\<rparr>"

definition sample_edit :: agent_update where
  "sample_edit = \<lparr>au_name = None, au_prompt = Some ''b'', au_description = None, au_allowed = None, au_model = None,
     au_avatar = None, au_edited_by = None\<rparr>"

definition sample_agent_row :: agent_row where
  "sample_agent_row = \<lparr>ar_id = 1, ar_org = 9, ar_name = ''Ada'', ar_description = ''d'', ar_embedding = Some [], ar_allowed = [],
     ar_model = None, ar_avatar = None, ar_created_at = 0, ar_updated_at = 0\<rparr>"

definition sample_version :: "uuid \<Rightarrow> int \<Rightarrow> string \<Rightarrow> uuid option \<Rightarrow> version_row" where
  "sample_version i n p user = \<lparr>vr_id = i, vr_agent = 1, vr_org = 9, vr_version = n, vr_prompt = p, vr_edited_by = user, vr_created_at = 0\<rparr>"

definition sample_agents :: "agent_row list \<Rightarrow> version_row list \<Rightarrow> agent_db" where
  "sample_agents as vs = \<lparr>as_agents = as, as_versions = vs,
     as_directory = (if as = [] then [] else mint_colleague 3 9 1 []), as_members = [], as_in_use = (\<lambda>_. False)\<rparr>"

lemmas sample_agent_defs = sample_create_def sample_edit_def sample_agent_row_def sample_version_def sample_agents_def

lemma sample_agents_reach:
  "reach agents_init (agent_step (\<lambda>_. None) (\<lambda>_. Inr []) (\<lambda>x. x))
     (sample_agents [sample_agent_row] [sample_version 2 1 ''a'' None, sample_version 4 2 ''b'' None])"
proof -
  let ?step = "agent_step (\<lambda>_. None) (\<lambda>_. Inr []) (\<lambda>x. x)"
  let ?db1 = "sample_agents [sample_agent_row] [sample_version 2 1 ''a'' None]"
  have "reach agents_init ?step (sample_agents [] [])"
    by (rule reach_init) (simp add: agents_init_def sample_agents_def)
  moreover have "\<exists>r. create_agent_as (\<lambda>_. Inr []) (\<lambda>x. x) (sample_agents [] []) Privileged 0 1 2 3 sample_create = Inr (r, ?db1)"
    by (simp add: create_agent_as_def create_agent_in_tx_def insert_agent_def agents_see_def insert_seeded_v1_def insert_version_def
        sample_agent_defs)
  ultimately have one: "reach agents_init ?step ?db1" by (blast intro: reach_step as_create)
  have gates: "trim ''a'' \<noteq> []" "trim ''d'' \<noteq> []" by code_simp+
  have "\<exists>r. update_agent (\<lambda>_. None) (\<lambda>_. Inr []) (\<lambda>x. x) ?db1 0 4 1 sample_edit
      = Inr (r, sample_agents [sample_agent_row] [sample_version 2 1 ''a'' None, sample_version 4 2 ''b'' None])"
    using gates
    by (simp add: update_agent_def read_agent_def joined_def List.map_filter_def current_version_def versions_of_def agent_record_of_def
        agent_name_try_from_def agent_prompt_try_from_def agent_description_try_from_def apply_agent_update_def given_def
        AGENT_NAME_MAX_LEN_def AGENT_SYSTEM_PROMPT_MAX_LEN_def AGENT_DESCRIPTION_MAX_LEN_def bump_prompt_version_def max_version_def
        insert_version_def write_agent_def update_where_def i32_max_def sample_agent_defs)
  then show ?thesis by (blast intro: reach_step [OF one] as_update)
qed

lemma prompt_history_is_append_only_witness:
  "\<exists>db'. agent_step (\<lambda>_. None) (\<lambda>_. Inr []) (\<lambda>x. x)
       (sample_agents [sample_agent_row] [sample_version 2 1 ''a'' None, sample_version 4 2 ''b'' None]) (Some (1, ''a'')) db'
     \<and> map vr_version (versions_of db' 1) = [1, 2, 3]
     \<and> (\<forall>p. Some (1, ''a'') = Some (1 :: uuid, p) \<longrightarrow> map_option vr_prompt (current_version db' 1) = Some p)"
proof -
  let ?vs = "[sample_version 2 1 ''a'' None, sample_version 4 2 ''b'' None]"
  let ?db = "sample_agents [sample_agent_row] ?vs" and ?db' = "sample_agents [sample_agent_row] (?vs @ [sample_version 5 3 ''a'' (Some 7)])"
  have "restore_in_tx ?db 0 5 1 1 7 = Inr (3, ?db')"
    by (simp add: restore_in_tx_def lock_and_snapshot_def next_version_number_def max_version_def current_version_def versions_of_def
        prompt_version_number_try_from_def insert_version_def i32_max_def sample_agent_defs)
  moreover have "find (\<lambda>v. vr_agent v = 1 \<and> vr_version v = 1) (as_versions ?db) = Some (sample_version 2 1 ''a'' None)"
    by (simp add: sample_agent_defs)
  ultimately have step: "agent_step (\<lambda>_. None) (\<lambda>_. Inr []) (\<lambda>x. x) ?db (Some (1, vr_prompt (sample_version 2 1 ''a'' None))) ?db'"
    by (rule as_restore)
  have mem: "1 \<in> ar_id ` set (as_agents ?db)" "1 \<in> ar_id ` set (as_agents ?db')" by (simp_all add: sample_agent_defs)
  have len: "length (versions_of ?db' 1) = 3" by (simp add: versions_of_def sample_agent_defs)
  have lab: "vr_prompt (sample_version 2 1 ''a'' None) = ''a''" by (simp add: sample_version_def)
  note p = prompt_history_is_append_only [OF sample_agents_reach step mem, unfolded len lab]
  have three: "map (\<lambda>k. int k + 1) [0..<3] = [1, 2, 3]" by (simp add: upt_rec)
  show ?thesis
    by (intro exI conjI) (rule step [unfolded lab], rule trans [OF conjunct1 [OF conjunct2 [OF p]] three],
      rule conjunct2 [OF conjunct2 [OF conjunct2 [OF p]]])
qed

end
