(* ===== verification/Spec2Isabelle.thy ===== *)
theory Spec2Isabelle
  imports Queue_Properties Hub_Properties Worker_Properties Thread_Properties
    Provider_Properties Compaction_Properties Reduction_Properties Billing_Properties
    Approval_Properties Agent_Properties Scheduling_Properties Ttl_Cache Lark_Properties
    Channel_Laws Send_Properties Thread_Read_Laws Memory_Sweep_Laws Reflection_Runs
    Memory_Tool_Laws Profile_Laws Agent_Store_Laws
begin

text \<open>
  Patom runs agents of an organisation as durable conversations: a trigger is put on a Postgres
  queue, a worker claims all pending triggers of a (thread, agent) key under a fenced lease, runs
  the agent's turn over the thread's feed, streams what happens to subscribers and settles the
  triggers. This development models the core of that pipeline, the crate \<open>patom-core\<close>, in the order
  a turn passes through it. Paths below are relative to \<open>src/crates/patom-core/src\<close>.

  \<^bold>\<open>Conventions.\<close> A table is a list of records in insertion order, or a map where only the key
  matters; a statement is a function from the database to a result and the database after it, with
  the constraints, triggers and row-level policies of the migrations written out as branches. An
  error is the left component of a sum; a panic is \<open>None\<close> or the constructor \<open>Panicked\<close>. Integers are
  \<open>nat\<close> or \<open>int\<close> with the bound of their width tested where the code can reach it, bit sets are
  words. Strings are lists of bytes in UTF-8: what the code counts in characters is \<open>chars_count\<close>.
  What is not this code (clocks, minted ids, provider answers, the work of third-party tools, the
  interference of other processes) is an argument. Loops are structural recursions or have a measure;
  the only fuel is the number of turns the code itself counts, so no result depends on running out.

  \<^bold>\<open>The library.\<close> \<open>Patom_Prelude\<close> holds transition systems (\<open>reach\<close>, \<open>steps\<close>), the locale
  \<open>monotone_system\<close> of a system with an invariant and a preorder on its states, the locale
  \<open>str_enum\<close> of enumerations with unique strings (\<open>types/macros.rs\<close>), and lemmas on \<open>update_where\<close>,
  \<open>find\<close> and sorting. Each table system interprets \<open>monotone_system\<close> on its own step relation, so
  that a property is an invariant of reachable states or is stable under any later steps.
  \<open>Rust_Strings\<close>, \<open>Hex\<close>, \<open>Chat_Types\<close>, \<open>Assets\<close>, \<open>Participants\<close> and \<open>Runtime_Types\<close> hold the value
  types with their smart constructors.

  \<^bold>\<open>Queue and worker.\<close> \<open>Prompt_Queue\<close> is \<open>runtime/pg_queue.rs\<close>, \<open>Dag_Budget\<close> \<open>runtime/dag.rs\<close>;
  \<open>Prompt_Queue_Laws\<close> has the step relation, its invariant and what no step undoes, and
  \<open>Queue_Properties\<close> the fence, lease, idempotency, order and budget. \<open>Response_Hub\<close> is the stored
  chunk log and the in-process slots of \<open>runtime/pg_response.rs\<close>, \<open>Response_Sink\<close> what publishes
  to it; \<open>Hub_Properties\<close> shows the log gap-free and that a subscriber sees each chunk once, or is told
  that it lagged (the receiver of the broadcast channel, which drops the oldest chunks of one that is
  too slow, is part of the model). \<open>Worker\<close> is \<open>runtime/worker.rs\<close> over both; \<open>Worker_Properties\<close> shows that every turn settles.

  \<^bold>\<open>Threads and context.\<close> \<open>Thread_Feed\<close> is \<open>threads/pg_store.rs\<close>: threads, participation, the
  append, what an agent reads back, compaction rows, artifacts. \<open>Compaction\<close> and \<open>Tool_Reduction\<close> are
  \<open>agent_core/compaction.rs\<close> and \<open>agent_core/tool_reduction.rs\<close>, with their bounds on summarizer calls.
  \<open>Model_Catalog\<close> and \<open>Provider_Credentials\<close> are prices, the overlay of an organisation's own keys, the
  route of a turn, and the parsing and masking of keys. \<open>Billing\<close> is the gate before a turn and the
  settlement after it (\<open>billing/service.rs\<close>).

  \<^bold>\<open>The agent's turn.\<close> \<open>Toolbox\<close> is \<open>tools/modes.rs\<close>, \<open>registry.rs\<close>, \<open>toolbox.rs\<close> and the planning
  of batches, \<open>Todos\<close> the durable task list, \<open>Approvals\<close> the store, the hard gate and the resume of
  \<open>approvals/\<close>, \<open>Turn_Records\<close> the rows a turn leaves behind. \<open>Agent_Turn\<close> composes all of them as
  \<open>agent_core/turn.rs\<close> and \<open>core.rs\<close> do. Calls of a batch run concurrently in the code: here they run
  one after the other in an arbitrary order, which \<open>Agent_Properties\<close> shows not to be observable
  when tools that declare themselves safe are; the points between two awaits where others change
  the stores are the component \<open>te_gap\<close> of the environment. \<open>Approval_Properties\<close> and
  \<open>Agent_Properties\<close> show when a gated tool runs, that calls and results stay paired, what a reply is.

  \<^bold>\<open>Conversations.\<close> \<open>Colleagues\<close> is the directory of an organisation with the blocks rendered from it
  (\<open>colleagues/\<close>), \<open>Channels\<close> names, routes, rosters and memberships (\<open>http/routes/channels.rs\<close>), with
  \<open>Channel_Laws\<close> on who may change one. \<open>Thread_Reads\<close> has the reads of the web client, paged, and of the
  tool \<open>read_channel\<close>; \<open>Send_Message\<close> the whole tool \<open>send_message\<close>, over the thread store, the queue and the
  turn budget: \<open>Send_Properties\<close> shows that it posts once, where it may, and that the wake-ups stay
  within the budget. \<open>Schedule_Spec\<close> and \<open>Scheduling\<close> are \<open>scheduling/\<close>: schedules and their next fire, the
  task store, the fire that seeds a thread. \<open>Ttl_Cache\<close> is \<open>cache.rs\<close>, \<open>Lark_Frames\<close> the frames and the
  reassembly of \<open>lark/codec.rs\<close>.

  \<^bold>\<open>Memory.\<close> \<open>Memory_Types\<close>, \<open>Memory_Store\<close> and \<open>Memory_Lifecycle\<close> are \<open>memory/pg_store.rs\<close>: a journal of
  events and the table derived from it. \<open>Memory_Laws\<close>, \<open>Memory_Steps\<close>, \<open>Memory_Sweeps\<close> and
  \<open>Memory_Rebuild\<close> relate the two: ids are arbitrary and the replay of events of different memories
  commutes, so all that is asked is that the events of one memory carry increasing times.
  \<open>Memory_Properties\<close> has the store as a transition system over all its calls and shows that a rebuild
  restores the table, save where the operator restored a memory that was there. \<open>Memory_Librarian\<close> is
  the hourly sweep (\<open>Memory_Sweep_Laws\<close>), \<open>Reflection\<close> the scheduler of reflections:
  \<open>Reflection_Properties\<close> shows which pairs stay due, \<open>Reflection_Runs\<close> what successive reflections read. \<open>Memory_Compose\<close> is the
  section of the prompt with its handles, \<open>Memory_Tools\<close> the five tools of \<open>tools/system/memory/\<close>;
  \<open>Memory_Tool_Laws\<close> shows which memories they reach.

  \<^bold>\<open>Agents and profiles.\<close> \<open>Agent_Store\<close> is \<open>agents/\<close> with the restore of a prompt from
  \<open>http/routes/agents.rs\<close>; \<open>Agent_Store_Laws\<close> shows the history of prompts append-only. \<open>Profiles\<close> is
  \<open>colleagues/profile/\<close> with its two tools and the participants block; \<open>Profile_Laws\<close> has what is stored
  and what the search makes of it.

  \<^bold>\<open>Not modelled.\<close> Connection failures of the database and partial transactions; the tasks, timers
  and channels of the runtime (heartbeats, LISTEN/NOTIFY); the web, Discord, Lark
  and Slack front ends; sign-in and the membership of organisations; the assembly of a system prompt
  from its parts; the metrics and the other lists of \<open>http/routes/agents.rs\<close>; the wire formats of model
  providers; MCP servers and the sandbox; the configuration of the process. The environment of each component names what it takes from
  them. In \<open>Worker\<close> the run of the agent is a parameter, because the worker treats it as opaque; \<open>Agent_Turn\<close>
  is the code behind it.
\<close>

end
